(* ===== verification/Hydra_Prelude.thy ===== *)
theory Hydra_Prelude
  imports
    Complex_Main
    "HOL-Library.AList"
    "HOL-Library.List_Lexorder"
    "HOL-Library.Char_ord"
begin

text \<open>
  Shared vocabulary of the development: Python strings, JSON values and dictionaries, the
  exceptions of the control layer as values, the error monad, and the generic facts about
  association lists and growing lists that the component theories share.

  A string is a list of characters and a character is one Unicode code point of the range
  U+0000 to U+00FF; \<open>py_isspace\<close> and \<open>py_lower\<close> agree with \<^verbatim>\<open>str.isspace\<close> and
  \<^verbatim>\<open>str.lower\<close> there. A Python \<^verbatim>\<open>dict\<close> is an association list in insertion order:
  \<open>AList.update\<close> replaces a value in place or appends a new key, as \<^verbatim>\<open>d[k] = v\<close> does.
  Time is an integer number of microseconds since the epoch, so \<^verbatim>\<open>timedelta(seconds=n)\<close>
  is \<open>n * 1000000\<close>.
\<close>

named_theorems status_simps "evaluation of the transition tables"
named_theorems evolves_intros "one operation relates a session to its successor"
named_theorems svc_intros "rules of the service calculus"

section \<open>Strings\<close>

definition py_isspace :: "char \<Rightarrow> bool" where
  "py_isspace c \<longleftrightarrow> (let n = of_char c :: nat in
     (9 \<le> n \<and> n \<le> 13) \<or> (28 \<le> n \<and> n \<le> 32) \<or> n = 133 \<or> n = 160)"

definition py_lower_char :: "char \<Rightarrow> char" where
  "py_lower_char c = (let n = of_char c :: nat in
     if (65 \<le> n \<and> n \<le> 90) \<or> (192 \<le> n \<and> n \<le> 222 \<and> n \<noteq> 215) then char_of (n + 32) else c)"

definition py_lower :: "string \<Rightarrow> string" where
  "py_lower s = map py_lower_char s"

definition py_lstrip :: "string \<Rightarrow> string" where
  "py_lstrip s = dropWhile py_isspace s"

definition py_rstrip :: "string \<Rightarrow> string" where
  "py_rstrip s = rev (dropWhile py_isspace (rev s))"

definition py_strip :: "string \<Rightarrow> string" where
  "py_strip s = py_rstrip (py_lstrip s)"

text \<open>Truth value of an optional string: \<open>None\<close> and the empty string are false.\<close>

definition truthy :: "string option \<Rightarrow> bool" where
  "truthy x = (case x of None \<Rightarrow> False | Some s \<Rightarrow> s \<noteq> [])"

lemma truthy_simps [simp]:
  "\<not> truthy None" "truthy (Some s) \<longleftrightarrow> s \<noteq> []"
  by (simp_all add: truthy_def)

lemma truthyD: "truthy x \<Longrightarrow> \<exists>s. x = Some s \<and> s \<noteq> []"
  by (cases x) auto

lemma dropWhile_edge:
  "dropWhile P xs = [] \<or> \<not> P (hd (dropWhile P xs))"
  using hd_dropWhile [of P xs] by auto

lemma py_rstrip_stripped: "py_rstrip s = [] \<or> \<not> py_isspace (last (py_rstrip s))"
  using dropWhile_edge [of py_isspace "rev s"]
  by (auto simp: py_rstrip_def last_rev)

lemma py_rstrip_prefix: "\<exists>t. s = py_rstrip s @ t"
proof -
  have "rev s = takeWhile py_isspace (rev s) @ dropWhile py_isspace (rev s)" by simp
  then have "s = rev (dropWhile py_isspace (rev s)) @ rev (takeWhile py_isspace (rev s))"
    by (metis rev_append rev_rev_ident)
  then show ?thesis unfolding py_rstrip_def by blast
qed

lemma py_rstrip_hd: "py_rstrip s \<noteq> [] \<Longrightarrow> hd (py_rstrip s) = hd s"
  using py_rstrip_prefix [of s] by (metis hd_append2)

lemma py_strip_edges:
  assumes "py_strip s \<noteq> []"
  shows "\<not> py_isspace (hd (py_strip s))" "\<not> py_isspace (last (py_strip s))"
proof -
  have ne: "py_lstrip s \<noteq> []"
    using assms by (auto simp: py_strip_def py_rstrip_def)
  have "hd (py_strip s) = hd (py_lstrip s)"
    using assms py_rstrip_hd by (simp add: py_strip_def)
  then show "\<not> py_isspace (hd (py_strip s))"
    using ne dropWhile_edge [of py_isspace s] by (auto simp: py_lstrip_def)
  show "\<not> py_isspace (last (py_strip s))"
    using assms py_rstrip_stripped [of "py_lstrip s"] by (auto simp: py_strip_def)
qed

lemma dropWhile_hd_id: "xs = [] \<or> \<not> P (hd xs) \<Longrightarrow> dropWhile P xs = xs"
  by (cases xs) auto

lemma py_strip_id:
  "s = [] \<or> (\<not> py_isspace (hd s) \<and> \<not> py_isspace (last s)) \<Longrightarrow> py_strip s = s"
  by (cases "s = []") (auto simp: py_strip_def py_lstrip_def py_rstrip_def dropWhile_hd_id hd_rev)

lemma py_strip_idem [simp]: "py_strip (py_strip s) = py_strip s"
  using py_strip_edges [of s] by (auto intro: py_strip_id)

section \<open>JSON values and dictionaries\<close>

datatype json =
    JNull
  | JBool bool
  | JInt int
  | JFloat rat
  | JStr string
  | JList "json list"
  | JObj "(string \<times> json) list"

type_synonym pydict = "(string \<times> json) list"
type_synonym time = int

text \<open>\<^verbatim>\<open>{**a, **b}\<close>.\<close>

definition dict_merge :: "(string \<times> 'v) list \<Rightarrow> (string \<times> 'v) list \<Rightarrow> (string \<times> 'v) list" where
  "dict_merge a b = fold (\<lambda>(k, v) d. AList.update k v d) b a"

definition json_opt_str :: "string option \<Rightarrow> json" where
  "json_opt_str x = (case x of None \<Rightarrow> JNull | Some s \<Rightarrow> JStr s)"

definition timedelta_seconds :: "int \<Rightarrow> time" where
  "timedelta_seconds n = n * 1000000"

lemma map_of_update [simp]: "map_of (AList.update k v al) = (map_of al)(k \<mapsto> v)"
  by (rule update_conv')

lemma map_of_map_snd:
  "map_of (map (\<lambda>(k, v). (k, f v)) xs) k = map_option f (map_of xs k)"
  by (induction xs) auto

lemma keys_update_new: "k \<notin> fst ` set al \<Longrightarrow> AList.update k v al = al @ [(k, v)]"
  by (induction al) auto

lemma set_update_subset: "set (AList.update k v al) \<subseteq> insert (k, v) (set al)"
  by (induction al) auto

lemma dict_merge_lookup:
  "map_of (dict_merge a b) k = (case map_of (rev b) k of None \<Rightarrow> map_of a k | Some v \<Rightarrow> Some v)"
proof (induction b arbitrary: a)
  case Nil
  then show ?case by (simp add: dict_merge_def)
next
  case (Cons p b)
  obtain k' v' where p: "p = (k', v')" by force
  have "dict_merge a (p # b) = dict_merge (AList.update k' v' a) b"
    by (simp add: dict_merge_def p)
  with Cons.IH show ?case
    by (auto simp: p map_add_def split: option.splits)
qed

section \<open>Exceptions and the error monad\<close>

text \<open>
  One constructor for each exception class the modelled code raises. The lease errors carry the
  branch that raised them in place of the message text.
\<close>

datatype lease_fault =
    ExecutionNotFound
  | BelongsToOtherNode
  | NotRunning
  | OwnerEmpty
  | AlreadyLeased
  | TokenEmpty
  | NoActiveLease
  | TokenMismatch
  | LeaseExpired
  | TtlNotPositive
  | ToolCallNotFound
  | InteractionNotStarted
  | TurnNotFound
  | TurnCompleted
  | ExpiryNotSet
  | ReportExecutionMismatch
  | ReportTokenMissing

datatype exn =
    InvalidTransitionError
  | SessionNotFoundError string
  | NodeNotFoundError string string
  | GateNotFoundError string
  | ExecutionLeaseError lease_fault
  | TurnLeaseError lease_fault
  | SessionStoreConflictError
  | CriticalObserverError
  | GraphCycleError "string list"
  | UnexecutedProtocolError "string list"
  | ValidationError
  | ValueError
  | KeyError
  | TypeError
  | RuntimeError
  | QueueClosedError
  | IndexError
  | CapabilityError
  | NotImplementedError
  | TimeoutError
  | FileNotFoundError
  | OSError
  | MemoryWriteError

definition and_then :: "exn + 'a \<Rightarrow> ('a \<Rightarrow> exn + 'b) \<Rightarrow> exn + 'b" where
  "and_then r f = (case r of Inl e \<Rightarrow> Inl e | Inr x \<Rightarrow> f x)"

lemma and_then_simps [simp]:
  "and_then (Inl e) f = Inl e"
  "and_then (Inr x) f = f x"
  by (simp_all add: and_then_def)

lemma and_then_eq_Inr [simp]:
  "and_then r f = Inr y \<longleftrightarrow> (\<exists>x. r = Inr x \<and> f x = Inr y)"
  by (cases r) auto

lemma and_then_cong [fundef_cong]:
  "r = r' \<Longrightarrow> (\<And>x. r' = Inr x \<Longrightarrow> f x = g x) \<Longrightarrow> and_then r f = and_then r' g"
  by (cases r') auto

text \<open>\<^verbatim>\<open>if c: raise e\<close>.\<close>

definition raise_when :: "bool \<Rightarrow> exn \<Rightarrow> exn + unit" where
  "raise_when c e = (if c then Inl e else Inr ())"

lemma raise_when_simps [simp]:
  "raise_when True e = Inl e"
  "raise_when False e = Inr ()"
  "raise_when c e = Inr u \<longleftrightarrow> \<not> c"
  by (simp_all add: raise_when_def)

text \<open>A \<^verbatim>\<open>for\<close> loop whose body may raise: the first exception stops it.\<close>

fun fold_err :: "('a \<Rightarrow> 's \<Rightarrow> exn + 's) \<Rightarrow> 'a list \<Rightarrow> 's \<Rightarrow> exn + 's" where
  "fold_err f [] s = Inr s"
| "fold_err f (x # xs) s = and_then (f x s) (fold_err f xs)"

lemma fold_err_rule:
  assumes "fold_err f xs s = Inr s'" and "P s s"
    and "\<And>x t t'. x \<in> set xs \<Longrightarrow> P s t \<Longrightarrow> f x t = Inr t' \<Longrightarrow> P s t'"
  shows "P s s'"
proof -
  have "fold_err f ys t = Inr s' \<Longrightarrow> set ys \<subseteq> set xs \<Longrightarrow> P s t \<Longrightarrow> P s s'" for ys t
    by (induction ys arbitrary: t) (auto intro: assms(3))
  with assms(1,2) show ?thesis by blast
qed

section \<open>Growing lists\<close>

text \<open>
  \<open>grows R xs ys\<close>: \<open>ys\<close> keeps every element of \<open>xs\<close> at its index up to \<open>R\<close> and may have
  more elements after them. It is how the attempt, gate and ledger histories of a session are
  related to later ones.
\<close>

definition grows :: "('a \<Rightarrow> 'a \<Rightarrow> bool) \<Rightarrow> 'a list \<Rightarrow> 'a list \<Rightarrow> bool" where
  "grows R xs ys \<longleftrightarrow> length xs \<le> length ys \<and> (\<forall>i < length xs. R (xs ! i) (ys ! i))"

lemma grows_refl [intro, simp]: "(\<And>x. R x x) \<Longrightarrow> grows R xs xs"
  by (simp add: grows_def)

lemma grows_trans:
  assumes "\<And>x y z. R x y \<Longrightarrow> R y z \<Longrightarrow> R x z"
  shows "grows R xs ys \<Longrightarrow> grows R ys zs \<Longrightarrow> grows R xs zs"
  unfolding grows_def by (meson assms le_trans less_le_trans)

lemma grows_append [intro, simp]: "(\<And>x. R x x) \<Longrightarrow> grows R xs (xs @ ys)"
  by (simp add: grows_def nth_append)

lemma grows_map: "(\<And>x. R x (f x)) \<Longrightarrow> grows R xs (map f xs)"
  by (simp add: grows_def)

lemma grows_butlast_last:
  "(\<And>x. R x x) \<Longrightarrow> xs \<noteq> [] \<Longrightarrow> R (last xs) y \<Longrightarrow> grows R xs (butlast xs @ [y])"
  by (auto simp: grows_def nth_append nth_butlast last_conv_nth less_Suc_eq_le
      intro: less_le_not_le dest: le_neq_implies_less)
     (metis Suc_pred le_neq_implies_less length_greater_0_conv less_Suc_eq_le)

text \<open>Replace the first element that satisfies a predicate.\<close>

fun update_first :: "('a \<Rightarrow> bool) \<Rightarrow> ('a \<Rightarrow> 'a) \<Rightarrow> 'a list \<Rightarrow> 'a list" where
  "update_first P f [] = []"
| "update_first P f (x # xs) = (if P x then f x # xs else x # update_first P f xs)"

lemma length_update_first [simp]: "length (update_first P f xs) = length xs"
  by (induction xs) auto

lemma update_first_nth:
  "i < length xs \<Longrightarrow> update_first P f xs ! i = xs ! i \<or>
     (P (xs ! i) \<and> update_first P f xs ! i = f (xs ! i))"
  by (induction xs arbitrary: i) (auto simp: nth_Cons split: nat.splits)

lemma grows_update_first:
  "(\<And>x. R x x) \<Longrightarrow> (\<And>x. P x \<Longrightarrow> R x (f x)) \<Longrightarrow> grows R xs (update_first P f xs)"
  by (auto simp: grows_def) (metis update_first_nth)

lemma find_Some_in: "List.find P xs = Some x \<Longrightarrow> x \<in> set xs \<and> P x"
  by (induction xs) (auto split: if_splits)

lemma update_first_id: "List.find P xs = None \<Longrightarrow> update_first P f xs = xs"
  by (induction xs) (auto split: if_splits)

lemma update_first_const:
  "List.find P xs = Some x \<Longrightarrow> update_first P (\<lambda>_. f x) xs = update_first P f xs"
  by (induction xs) (auto split: if_splits)

lemma find_update_first:
  "List.find P xs = Some x \<Longrightarrow> P (f x) \<Longrightarrow> List.find P (update_first P f xs) = Some (f x)"
  by (induction xs) (auto split: if_splits)

lemma map_of_update_first:
  "map_of xs k = Some v \<Longrightarrow>
   map_of (update_first P (\<lambda>(k, v). (k, f v)) xs) k \<in> {Some v, Some (f v)}"
  by (induction xs) auto

lemma map_of_update_first_None:
  "map_of xs k = None \<Longrightarrow> map_of (update_first P (\<lambda>(k, v). (k, f v)) xs) k = None"
  by (induction xs) auto

lemma keys_update_first [simp]:
  "map fst (update_first P (\<lambda>(k, v). (k, f v)) xs) = map fst xs"
  by (induction xs) auto

text \<open>
  \<open>extends R xs ys\<close>: every key of the dictionary \<open>xs\<close> is still in \<open>ys\<close>, with a value
  related by \<open>R\<close>.
\<close>

definition extends :: "('v \<Rightarrow> 'v \<Rightarrow> bool) \<Rightarrow> ('k \<times> 'v) list \<Rightarrow> ('k \<times> 'v) list \<Rightarrow> bool" where
  "extends R xs ys \<longleftrightarrow> (\<forall>k v. map_of xs k = Some v \<longrightarrow> (\<exists>w. map_of ys k = Some w \<and> R v w))"

lemma extendsI [intro?]:
  "(\<And>k v. map_of xs k = Some v \<Longrightarrow> \<exists>w. map_of ys k = Some w \<and> R v w) \<Longrightarrow> extends R xs ys"
  by (simp add: extends_def)

lemma extendsD: "extends R xs ys \<Longrightarrow> map_of xs k = Some v \<Longrightarrow> \<exists>w. map_of ys k = Some w \<and> R v w"
  by (simp add: extends_def)

lemma extends_refl [intro, simp]: "(\<And>x. R x x) \<Longrightarrow> extends R xs xs"
  by (simp add: extends_def)

lemma extends_trans:
  assumes "\<And>x y z. R x y \<Longrightarrow> R y z \<Longrightarrow> R x z"
  shows "extends R xs ys \<Longrightarrow> extends R ys zs \<Longrightarrow> extends R xs zs"
  unfolding extends_def using assms by blast

lemma extends_update:
  "(\<And>x. R x x) \<Longrightarrow> (\<And>v. map_of xs k = Some v \<Longrightarrow> R v w) \<Longrightarrow> extends R xs (AList.update k w xs)"
  by (auto simp: extends_def)

lemma extends_map: "(\<And>x. R x (f x)) \<Longrightarrow> extends R xs (map (\<lambda>(k, v). (k, f v)) xs)"
  by (simp add: extends_def map_of_map_snd)

lemma extends_update_first:
  assumes "\<And>x. R x x" "\<And>k x. P (k, x) \<Longrightarrow> R x (f x)"
  shows "extends R xs (update_first P (\<lambda>(k, v). (k, f v)) xs)"
proof
  fix k v
  assume "map_of xs k = Some v"
  then show "\<exists>w. map_of (update_first P (\<lambda>(k, v). (k, f v)) xs) k = Some w \<and> R v w"
    using assms by (induction xs) (auto split: if_splits)
qed

lemma extends_append: "(\<And>x. R x x) \<Longrightarrow> extends R xs (xs @ ys)"
  by (simp add: extends_def map_add_def)

end
