(* ===== verification/States.thy ===== *)
theory States
  imports Hydra_Prelude
begin

text \<open>
  \<^verbatim>\<open>control/states.py\<close>: the status enums of the control plane and its three transition
  tables. Enum members keep their Python names behind the name of their class. The tables are
  the single source of truth for legal moves; the lemmas say which statuses are final and what
  can be reached from where, which the session theories use for every operation.
\<close>

section \<open>Enums\<close>

datatype session_status =
    Session_QUEUED
  | Session_RUNNING
  | Session_WAITING_GATE
  | Session_RESUMING
  | Session_COMPLETED
  | Session_FAILED
  | Session_CANCELLED

datatype node_status =
    Node_QUEUED
  | Node_RUNNING
  | Node_PENDING_GATE
  | Node_APPROVED
  | Node_NEEDS_REVISION
  | Node_COMPLETED
  | Node_FAILED
  | Node_STALE

datatype attempt_status =
    Attempt_RUNNING
  | Attempt_SUCCEEDED
  | Attempt_FAILED
  | Attempt_ABORTED

datatype tool_execution_status =
    Tool_STARTED
  | Tool_SUCCEEDED
  | Tool_FAILED

datatype gate_outcome =
    Gate_PASS
  | Gate_REQUIRES_DECISION
  | Gate_BLOCK

datatype decision_action =
    Decision_APPROVE
  | Decision_REVISE
  | Decision_REPLAN
  | Decision_REJECT

datatype apply_intent_kind =
    Intent_COMPLETE
  | Intent_PAUSE
  | Intent_FAIL
  | Intent_REQUEUE
  | Intent_WORKFLOW_REVISION

text \<open>The \<^verbatim>\<open>.value\<close> of the members that the code writes into payloads.\<close>

fun gate_outcome_value :: "gate_outcome \<Rightarrow> string" where
  "gate_outcome_value Gate_PASS = ''pass''"
| "gate_outcome_value Gate_REQUIRES_DECISION = ''requires_decision''"
| "gate_outcome_value Gate_BLOCK = ''block''"

fun decision_action_value :: "decision_action \<Rightarrow> string" where
  "decision_action_value Decision_APPROVE = ''approve''"
| "decision_action_value Decision_REVISE = ''revise''"
| "decision_action_value Decision_REPLAN = ''replan''"
| "decision_action_value Decision_REJECT = ''reject''"

fun apply_intent_kind_value :: "apply_intent_kind \<Rightarrow> string" where
  "apply_intent_kind_value Intent_COMPLETE = ''complete''"
| "apply_intent_kind_value Intent_PAUSE = ''pause''"
| "apply_intent_kind_value Intent_FAIL = ''fail''"
| "apply_intent_kind_value Intent_REQUEUE = ''requeue''"
| "apply_intent_kind_value Intent_WORKFLOW_REVISION = ''workflow_revision''"

text \<open>The enums are finite and enumerable, so statements about all statuses evaluate.\<close>

instantiation session_status :: enum
begin
definition "enum_session_status =
  [Session_QUEUED, Session_RUNNING, Session_WAITING_GATE, Session_RESUMING,
   Session_COMPLETED, Session_FAILED, Session_CANCELLED]"
definition "enum_all_session_status P \<longleftrightarrow> list_all P (enum_class.enum :: session_status list)"
definition "enum_ex_session_status P \<longleftrightarrow> list_ex P (enum_class.enum :: session_status list)"
instance
proof
  show "UNIV = set (enum_class.enum :: session_status list)"
    unfolding enum_session_status_def using session_status.exhaust by auto
qed (auto simp: enum_session_status_def enum_all_session_status_def enum_ex_session_status_def
       intro: session_status.induct, (metis session_status.exhaust)+)
end

instantiation node_status :: enum
begin
definition "enum_node_status =
  [Node_QUEUED, Node_RUNNING, Node_PENDING_GATE, Node_APPROVED,
   Node_NEEDS_REVISION, Node_COMPLETED, Node_FAILED, Node_STALE]"
definition "enum_all_node_status P \<longleftrightarrow> list_all P (enum_class.enum :: node_status list)"
definition "enum_ex_node_status P \<longleftrightarrow> list_ex P (enum_class.enum :: node_status list)"
instance
proof
  show "UNIV = set (enum_class.enum :: node_status list)"
    unfolding enum_node_status_def using node_status.exhaust by auto
qed (auto simp: enum_node_status_def enum_all_node_status_def enum_ex_node_status_def
       intro: node_status.induct, (metis node_status.exhaust)+)
end

section \<open>Transition tables\<close>

fun session_transitions :: "session_status \<Rightarrow> session_status set" where
  "session_transitions Session_QUEUED = {Session_RUNNING, Session_CANCELLED}"
| "session_transitions Session_RUNNING =
     {Session_WAITING_GATE, Session_COMPLETED, Session_FAILED, Session_CANCELLED}"
| "session_transitions Session_WAITING_GATE =
     {Session_RESUMING, Session_CANCELLED, Session_FAILED}"
| "session_transitions Session_RESUMING =
     {Session_RUNNING, Session_FAILED, Session_CANCELLED}"
| "session_transitions Session_COMPLETED = {}"
| "session_transitions Session_FAILED = {}"
| "session_transitions Session_CANCELLED = {}"

fun node_transitions :: "node_status \<Rightarrow> node_status set" where
  "node_transitions Node_QUEUED = {Node_RUNNING, Node_STALE}"
| "node_transitions Node_RUNNING =
     {Node_QUEUED, Node_PENDING_GATE, Node_COMPLETED, Node_FAILED}"
| "node_transitions Node_PENDING_GATE = {Node_APPROVED, Node_NEEDS_REVISION, Node_FAILED}"
| "node_transitions Node_APPROVED = {Node_COMPLETED, Node_STALE}"
| "node_transitions Node_NEEDS_REVISION = {Node_QUEUED, Node_FAILED}"
| "node_transitions Node_COMPLETED = {Node_STALE}"
| "node_transitions Node_FAILED = {}"
| "node_transitions Node_STALE = {Node_QUEUED}"

fun attempt_transitions :: "attempt_status \<Rightarrow> attempt_status set" where
  "attempt_transitions Attempt_RUNNING =
     {Attempt_SUCCEEDED, Attempt_FAILED, Attempt_ABORTED}"
| "attempt_transitions Attempt_SUCCEEDED = {}"
| "attempt_transitions Attempt_FAILED = {}"
| "attempt_transitions Attempt_ABORTED = {}"

definition is_valid_session_transition :: "session_status \<Rightarrow> session_status \<Rightarrow> bool" where
  "is_valid_session_transition src dst \<longleftrightarrow> dst \<in> session_transitions src"

definition is_valid_node_transition :: "node_status \<Rightarrow> node_status \<Rightarrow> bool" where
  "is_valid_node_transition src dst \<longleftrightarrow> dst \<in> node_transitions src"

definition is_valid_attempt_transition :: "attempt_status \<Rightarrow> attempt_status \<Rightarrow> bool" where
  "is_valid_attempt_transition src dst \<longleftrightarrow> dst \<in> attempt_transitions src"

lemmas transition_defs =
  is_valid_session_transition_def is_valid_node_transition_def is_valid_attempt_transition_def

declare transition_defs [status_simps]

definition terminal_session_statuses :: "session_status set" where
  "terminal_session_statuses = {Session_COMPLETED, Session_FAILED, Session_CANCELLED}"

section \<open>What the tables allow\<close>

abbreviation session_reaches :: "session_status \<Rightarrow> session_status \<Rightarrow> bool" where
  "session_reaches \<equiv> is_valid_session_transition\<^sup>*\<^sup>*"

abbreviation node_reaches :: "node_status \<Rightarrow> node_status \<Rightarrow> bool" where
  "node_reaches \<equiv> is_valid_node_transition\<^sup>*\<^sup>*"

abbreviation attempt_reaches :: "attempt_status \<Rightarrow> attempt_status \<Rightarrow> bool" where
  "attempt_reaches \<equiv> is_valid_attempt_transition\<^sup>*\<^sup>*"

lemma terminal_session_iff:
  "st \<in> terminal_session_statuses \<longleftrightarrow> session_transitions st = {}"
  by (cases st) (auto simp: terminal_session_statuses_def)

lemma terminal_session_stuck:
  "st \<in> terminal_session_statuses \<Longrightarrow> \<not> is_valid_session_transition st st'"
  by (auto simp: terminal_session_iff status_simps)

lemma session_reaches_terminal:
  "session_reaches st st' \<Longrightarrow> st \<in> terminal_session_statuses \<Longrightarrow> st' = st"
  by (induction rule: converse_rtranclp_induct) (auto dest: terminal_session_stuck)

lemma node_reaches_failed: "node_reaches Node_FAILED st \<Longrightarrow> st = Node_FAILED"
  by (erule converse_rtranclpE) (auto simp: status_simps)

lemma attempt_reaches_cases:
  "attempt_reaches a b \<longleftrightarrow> a = b \<or> (a = Attempt_RUNNING \<and> b \<noteq> Attempt_RUNNING)"
proof
  show "attempt_reaches a b \<Longrightarrow> a = b \<or> (a = Attempt_RUNNING \<and> b \<noteq> Attempt_RUNNING)"
    by (induction rule: rtranclp_induct, simp)
       (metis attempt_status.exhaust attempt_transitions.simps empty_iff insert_iff
          is_valid_attempt_transition_def attempt_status.distinct)
  show "a = b \<or> (a = Attempt_RUNNING \<and> b \<noteq> Attempt_RUNNING) \<Longrightarrow> attempt_reaches a b"
    by (cases b; elim disjE; simp) (auto simp: status_simps intro!: r_into_rtranclp)
qed

lemma session_never_back_to_queued:
  "session_reaches st Session_QUEUED \<Longrightarrow> st = Session_QUEUED"
proof (erule rtranclp.cases, simp)
  fix a b c
  assume "is_valid_session_transition b c" "Session_QUEUED = c"
  then show ?thesis by (cases b) (auto simp: status_simps)
qed

lemma node_status_reaches_queued_or_failed:
  "node_reaches st Node_QUEUED \<or> st = Node_FAILED"
proof -
  have s: "\<And>a b. b \<in> node_transitions a \<Longrightarrow> is_valid_node_transition a b"
    by (simp add: status_simps)
  have stale: "node_reaches Node_STALE Node_QUEUED"
    by (rule r_into_rtranclp) (simp add: status_simps)
  have completed: "node_reaches Node_COMPLETED Node_QUEUED"
    by (rule converse_rtranclp_into_rtranclp [OF s stale]) simp
  have revision: "node_reaches Node_NEEDS_REVISION Node_QUEUED"
    by (rule r_into_rtranclp) (simp add: status_simps)
  have running: "node_reaches Node_RUNNING Node_QUEUED"
    by (rule r_into_rtranclp) (simp add: status_simps)
  have pending: "node_reaches Node_PENDING_GATE Node_QUEUED"
    by (rule converse_rtranclp_into_rtranclp [OF s revision]) simp
  have approved: "node_reaches Node_APPROVED Node_QUEUED"
    by (rule converse_rtranclp_into_rtranclp [OF s stale]) simp
  show ?thesis
    by (cases st) (simp_all add: stale completed revision running pending approved)
qed

end
