(* ===== verification/Mas_Contracts.thy ===== *)
theory Mas_Contracts
  imports Hydra_Prelude
begin

text \<open>
  \<^verbatim>\<open>mas/contracts.py\<close> and \<^verbatim>\<open>mas/capability.py\<close>: the collaboration enums, the
  protocol and team contracts with the checks their constructors run, and the executed-capability
  envelope. A Pydantic model is a record; constructing it is the \<open>make_*\<close> function, which
  returns the normalised record or the \<^verbatim>\<open>ValidationError\<close> that Pydantic raises
  around the validators' \<^verbatim>\<open>ValueError\<close>.
\<close>

section \<open>Enums\<close>

datatype collaboration_mode = Mode_TEAM | Mode_DELEGATION | Mode_DEBATE | Mode_VOTE

datatype collaboration_topology =
  Topology_BROADCAST | Topology_COORDINATOR | Topology_PIPELINE

datatype aggregation_strategy =
  Aggregation_COLLECT | Aggregation_COORDINATOR_SUMMARY | Aggregation_VOTE

datatype arbitration_strategy =
  Arbitration_COORDINATOR | Arbitration_MAJORITY | Arbitration_NONE

datatype workspace_scope = Scope_TASK | Scope_SESSION | Scope_TEAM

section \<open>Records\<close>

record agent_spec =
  as_id :: string
  as_role :: string
  as_description :: string
  as_instructions :: string
  as_prompt_ref :: "string option"
  as_tools :: "string list"
  as_metadata :: pydict

record collaboration_protocol =
  cp_mode :: collaboration_mode
  cp_topology :: collaboration_topology
  cp_aggregation :: aggregation_strategy
  cp_arbitration :: arbitration_strategy
  cp_coordinator_id :: "string option"
  cp_vote_options :: "string list"
  cp_metadata :: pydict

record shared_workspace =
  sw_id :: string
  sw_scope :: workspace_scope
  sw_metadata :: pydict

record team_spec =
  ts_id :: string
  ts_members :: "agent_spec list"
  ts_protocol :: collaboration_protocol
  ts_workspace :: "shared_workspace option"
  ts_tools :: "string list"
  ts_metadata :: pydict

section \<open>Field validators\<close>

definition non_empty_text :: "string \<Rightarrow> exn + string" where
  "non_empty_text value = (let text = py_strip value in
     if text = [] then Inl ValueError else Inr text)"

fun unique_non_empty_loop :: "string list \<Rightarrow> string list \<Rightarrow> exn + string list" where
  "unique_non_empty_loop normalized [] = Inr normalized"
| "unique_non_empty_loop normalized (item # items) =
     (let text = py_strip item in
      if text = [] then Inl ValueError
      else if text \<in> set normalized then Inl ValueError
      else unique_non_empty_loop (normalized @ [text]) items)"

definition unique_non_empty_strings :: "string list \<Rightarrow> exn + string list" where
  "unique_non_empty_strings values = unique_non_empty_loop [] values"

text \<open>
  \<^verbatim>\<open>debate_rounds\<close>: the metadata value must be an \<^verbatim>\<open>int\<close> proper, so a Boolean is
  refused although \<^verbatim>\<open>bool\<close> is a subclass of \<^verbatim>\<open>int\<close>.
\<close>

definition DEFAULT_DEBATE_ROUNDS :: int where
  "DEFAULT_DEBATE_ROUNDS = 2"

definition debate_rounds :: "collaboration_protocol \<Rightarrow> exn + int" where
  "debate_rounds protocol =
     (case (case map_of (cp_metadata protocol) ''rounds'' of
              None \<Rightarrow> JInt DEFAULT_DEBATE_ROUNDS | Some v \<Rightarrow> v) of
        JInt value \<Rightarrow> if value < 1 then Inl ValueError else Inr value
      | _ \<Rightarrow> Inl ValueError)"

definition validate_protocol_consistency ::
    "collaboration_protocol \<Rightarrow> exn + collaboration_protocol" where
  "validate_protocol_consistency p =
    and_then (if cp_mode p = Mode_DEBATE then map_sum id (\<lambda>_. ()) (debate_rounds p) else Inr ()) (\<lambda>_.
    and_then (if cp_mode p = Mode_VOTE
              then raise_when (cp_topology p \<noteq> Topology_BROADCAST
                     \<or> cp_aggregation p \<noteq> Aggregation_VOTE
                     \<or> cp_arbitration p \<noteq> Arbitration_MAJORITY) ValueError
              else raise_when (cp_aggregation p = Aggregation_VOTE) ValueError) (\<lambda>_.
    and_then (raise_when (cp_aggregation p = Aggregation_COORDINATOR_SUMMARY
                \<and> (cp_topology p \<noteq> Topology_COORDINATOR \<or> cp_coordinator_id p = None))
                ValueError) (\<lambda>_.
    and_then (raise_when (cp_mode p = Mode_DELEGATION
                \<and> (cp_topology p \<noteq> Topology_COORDINATOR \<or> cp_coordinator_id p = None))
                ValueError) (\<lambda>_.
    and_then (raise_when (cp_topology p = Topology_COORDINATOR \<and> cp_coordinator_id p = None)
                ValueError) (\<lambda>_. Inr p)))))"

text \<open>Pydantic turns a validator's \<^verbatim>\<open>ValueError\<close> into a \<^verbatim>\<open>ValidationError\<close>.\<close>

definition validated :: "exn + 'a \<Rightarrow> exn + 'a" where
  "validated r = (case r of Inl ValueError \<Rightarrow> Inl ValidationError | _ \<Rightarrow> r)"

lemma validated_Inr [simp]: "validated r = Inr x \<longleftrightarrow> r = Inr x"
  by (auto simp: validated_def split: sum.splits exn.splits)

definition make_agent_spec :: "agent_spec \<Rightarrow> exn + agent_spec" where
  "make_agent_spec a = validated
     (and_then (non_empty_text (as_id a)) (\<lambda>i.
      and_then (non_empty_text (as_role a)) (\<lambda>r.
      and_then (unique_non_empty_strings (as_tools a)) (\<lambda>ts.
      Inr (a\<lparr>as_id := i, as_role := r, as_tools := ts\<rparr>)))))"

definition make_protocol :: "collaboration_protocol \<Rightarrow> exn + collaboration_protocol" where
  "make_protocol p = validated
     (and_then (case cp_coordinator_id p of None \<Rightarrow> Inr None
                | Some c \<Rightarrow> map_sum id Some (non_empty_text c)) (\<lambda>c.
      and_then (unique_non_empty_strings (cp_vote_options p)) (\<lambda>vs.
      validate_protocol_consistency (p\<lparr>cp_coordinator_id := c, cp_vote_options := vs\<rparr>))))"

definition make_shared_workspace :: "shared_workspace \<Rightarrow> exn + shared_workspace" where
  "make_shared_workspace w = validated
     (and_then (non_empty_text (sw_id w)) (\<lambda>i. Inr (w\<lparr>sw_id := i\<rparr>)))"

definition validate_team :: "team_spec \<Rightarrow> exn + team_spec" where
  "validate_team t =
    (let members = ts_members t; p = ts_protocol t; member_ids = map as_id members in
     if members = [] then Inl ValueError
     else if \<not> distinct member_ids then Inl ValueError
     else if (case cp_coordinator_id p of None \<Rightarrow> False | Some c \<Rightarrow> c \<notin> set member_ids) then Inl ValueError
     else if cp_topology p = Topology_COORDINATOR \<and> cp_coordinator_id p = None
     then Inl ValueError
     else if cp_mode p \<in> {Mode_DEBATE, Mode_VOTE} \<and> length members < 2 then Inl ValueError
     else if cp_mode p = Mode_DELEGATION
             \<and> (cp_coordinator_id p = None \<or> length members < 2) then Inl ValueError
     else if ts_tools t \<noteq> []
             \<and> (\<exists>m \<in> set members. \<not> set (as_tools m) \<subseteq> set (ts_tools t)) then Inl ValueError
     else Inr t)"

definition make_team_spec :: "team_spec \<Rightarrow> exn + team_spec" where
  "make_team_spec t = validated
     (and_then (non_empty_text (ts_id t)) (\<lambda>i.
      and_then (unique_non_empty_strings (ts_tools t)) (\<lambda>ts.
      validate_team (t\<lparr>ts_id := i, ts_tools := ts\<rparr>))))"

fun add_tools :: "string list \<Rightarrow> string list \<Rightarrow> string list" where
  "add_tools tools [] = tools"
| "add_tools tools (t # ts) = add_tools (if t \<in> set tools then tools else tools @ [t]) ts"

definition declared_tools :: "team_spec \<Rightarrow> string list" where
  "declared_tools t = fold (\<lambda>m tools. add_tools tools (as_tools m)) (ts_members t)
     (add_tools [] (ts_tools t))"

section \<open>The executed envelope\<close>

definition EXECUTED_MODES :: "collaboration_mode set" where
  "EXECUTED_MODES = {Mode_TEAM, Mode_DELEGATION, Mode_DEBATE, Mode_VOTE}"

definition EXECUTED_TOPOLOGIES :: "collaboration_topology set" where
  "EXECUTED_TOPOLOGIES = {Topology_BROADCAST, Topology_PIPELINE, Topology_COORDINATOR}"

definition EXECUTED_AGGREGATIONS :: "aggregation_strategy set" where
  "EXECUTED_AGGREGATIONS =
     {Aggregation_COLLECT, Aggregation_COORDINATOR_SUMMARY, Aggregation_VOTE}"

definition EXECUTED_ARBITRATIONS :: "arbitration_strategy set" where
  "EXECUTED_ARBITRATIONS = {Arbitration_COORDINATOR, Arbitration_MAJORITY, Arbitration_NONE}"

definition EXECUTED_MODE_TOPOLOGY_PAIRS ::
    "(collaboration_mode \<times> collaboration_topology) set" where
  "EXECUTED_MODE_TOPOLOGY_PAIRS =
     {(Mode_TEAM, Topology_BROADCAST),
      (Mode_TEAM, Topology_PIPELINE),
      (Mode_TEAM, Topology_COORDINATOR),
      (Mode_DEBATE, Topology_BROADCAST),
      (Mode_VOTE, Topology_BROADCAST),
      (Mode_DELEGATION, Topology_COORDINATOR)}"

lemmas executed_defs = EXECUTED_MODES_def EXECUTED_TOPOLOGIES_def EXECUTED_AGGREGATIONS_def
  EXECUTED_ARBITRATIONS_def EXECUTED_MODE_TOPOLOGY_PAIRS_def

text \<open>The violation messages are reduced to the name of the field they are about.\<close>

definition executed_protocol_violations :: "collaboration_protocol \<Rightarrow> string list" where
  "executed_protocol_violations p =
     (if cp_mode p \<notin> EXECUTED_MODES then [''mode''] else [])
   @ (if cp_topology p \<notin> EXECUTED_TOPOLOGIES then [''topology''] else [])
   @ (if cp_mode p \<in> EXECUTED_MODES \<and> cp_topology p \<in> EXECUTED_TOPOLOGIES
         \<and> (cp_mode p, cp_topology p) \<notin> EXECUTED_MODE_TOPOLOGY_PAIRS
      then [''mode/topology pair''] else [])
   @ (if cp_aggregation p \<notin> EXECUTED_AGGREGATIONS then [''aggregation''] else [])
   @ (if cp_arbitration p \<notin> EXECUTED_ARBITRATIONS then [''arbitration''] else [])"

definition require_executed_team :: "team_spec \<Rightarrow> exn + unit" where
  "require_executed_team team =
     (let violations = executed_protocol_violations (ts_protocol team) in
      raise_when (violations \<noteq> []) (UnexecutedProtocolError violations))"

section \<open>What a constructed value satisfies\<close>

lemma unique_non_empty_loop_spec:
  "unique_non_empty_loop acc xs = Inr ys \<longleftrightarrow>
     ys = acc @ map py_strip xs \<and> [] \<notin> py_strip ` set xs
     \<and> distinct (map py_strip xs) \<and> py_strip ` set xs \<inter> set acc = {}"
  by (induction xs arbitrary: acc) (auto simp: Let_def)

lemma unique_non_empty_strings_spec:
  "unique_non_empty_strings xs = Inr ys \<longleftrightarrow>
     ys = map py_strip xs \<and> [] \<notin> set ys \<and> distinct ys"
  by (auto simp: unique_non_empty_strings_def unique_non_empty_loop_spec)

lemma debate_rounds_pos: "debate_rounds p = Inr n \<Longrightarrow> 1 \<le> n"
  by (auto simp: debate_rounds_def split: json.splits option.splits if_splits)

lemma make_team_spec_members:
  assumes "make_team_spec t = Inr t'"
  shows "ts_members t' = ts_members t" "ts_members t' \<noteq> []"
    "distinct (map as_id (ts_members t'))"
    "cp_coordinator_id (ts_protocol t') = Some c \<Longrightarrow> c \<in> as_id ` set (ts_members t')"
  using assms
  by (auto simp: make_team_spec_def validate_team_def Let_def split: if_splits)

lemma validate_protocol_same: "validate_protocol_consistency p = Inr q \<Longrightarrow> q = p"
  by (simp add: validate_protocol_consistency_def)

lemma make_protocol_consistent:
  "make_protocol q = Inr p \<Longrightarrow> validate_protocol_consistency p = Inr p"
  by (auto simp: make_protocol_def dest: validate_protocol_same)

lemma executed_all [simp]:
  "m \<in> EXECUTED_MODES" "t \<in> EXECUTED_TOPOLOGIES" "g \<in> EXECUTED_AGGREGATIONS"
  "r \<in> EXECUTED_ARBITRATIONS"
     apply (cases m; simp add: executed_defs)
    apply (cases t; simp add: executed_defs)
   apply (cases g; simp add: executed_defs)
  apply (cases r; simp add: executed_defs)
  done

lemma violations_only_pair:
  "executed_protocol_violations p = [] \<longleftrightarrow>
     (cp_mode p, cp_topology p) \<in> EXECUTED_MODE_TOPOLOGY_PAIRS"
  by (simp add: executed_protocol_violations_def)

lemma add_tools_set [simp]: "set (add_tools tools ts) = set tools \<union> set ts"
  by (induction ts arbitrary: tools) auto

lemma add_tools_distinct: "distinct tools \<Longrightarrow> distinct (add_tools tools ts)"
  by (induction ts arbitrary: tools) auto

lemma fold_add_tools:
  "set (fold (\<lambda>m tools. add_tools tools (as_tools m)) ms tools)
     = set tools \<union> (\<Union>m \<in> set ms. set (as_tools m))"
  "distinct tools \<Longrightarrow> distinct (fold (\<lambda>m tools. add_tools tools (as_tools m)) ms tools)"
  by (induction ms arbitrary: tools) (auto simp: add_tools_distinct)

lemma declared_tools_spec:
  "set (declared_tools t) = set (ts_tools t) \<union> (\<Union>m \<in> set (ts_members t). set (as_tools m))"
  "distinct (declared_tools t)"
  by (simp_all add: declared_tools_def fold_add_tools add_tools_distinct)

end
