(* ===== verification/Protocol_Outcomes.thy ===== *)
theory Protocol_Outcomes
  imports Mas_Contracts "HOL-Library.Multiset"
begin

text \<open>
  \<^verbatim>\<open>mas/protocol_outcomes.py\<close>: canonical votes and the tally. The lemmas show that
  canonicalisation is idempotent, that the tally counts exactly the valid records, and that the
  winner is the alphabetically first option with the largest count.
\<close>

section \<open>Definitions\<close>

definition vote_punctuation :: "char \<Rightarrow> bool" where
  "vote_punctuation c \<longleftrightarrow> py_isspace c \<or>
     c \<in> {CHR ''.'', CHR ''!'', CHR ''?'', CHR '','', CHR '';'', CHR '':'', CHR 0x22, CHR 0x27,
          CHR 0x60}"

text \<open>\<^verbatim>\<open>re.sub(r"\s+", " ", text)\<close>: one blank for each maximal run of white space.\<close>

fun collapse_whitespace :: "string \<Rightarrow> string" where
  "collapse_whitespace [] = []"
| "collapse_whitespace [c] = [if py_isspace c then CHR '' '' else c]"
| "collapse_whitespace (c # d # cs) =
     (if py_isspace c
      then (if py_isspace d then collapse_whitespace (d # cs)
            else CHR '' '' # collapse_whitespace (d # cs))
      else c # collapse_whitespace (d # cs))"

definition canonicalize_vote :: "string \<Rightarrow> string" where
  "canonicalize_vote raw =
     (let text = py_lower (py_strip raw);
          text = collapse_whitespace text;
          text = dropWhile vote_punctuation text
      in rev (dropWhile vote_punctuation (rev text)))"

record member_vote_record =
  mv_agent_id :: string
  mv_raw :: string
  mv_canonical :: string
  mv_valid :: bool

record vote_outcome =
  vo_schema_version :: int
  vo_arbitration :: arbitration_strategy
  vo_tally :: "(string \<times> nat) list"
  vo_votes :: "member_vote_record list"
  vo_invalid :: "member_vote_record list"
  vo_winner :: "string option"
  vo_winner_count :: nat
  vo_tie :: bool
  vo_tied_options :: "string list"

record coordinator_outcome =
  co_schema_version :: int
  co_coordinator_id :: "string option"
  co_summary :: string

definition PROTOCOL_OUTCOME_SCHEMA_VERSION :: int where
  "PROTOCOL_OUTCOME_SCHEMA_VERSION = 1"

fun tally_votes ::
    "member_vote_record list \<Rightarrow> (string \<times> nat) list \<times> member_vote_record list
       \<Rightarrow> (string \<times> nat) list \<times> member_vote_record list" where
  "tally_votes [] (tally, invalid) = (tally, invalid)"
| "tally_votes (r # rs) (tally, invalid) =
     (if mv_valid r
      then tally_votes rs (AList.update (mv_canonical r)
             ((case map_of tally (mv_canonical r) of None \<Rightarrow> 0 | Some n \<Rightarrow> n) + 1) tally, invalid)
      else tally_votes rs (tally, invalid @ [r]))"

definition build_vote_outcome ::
    "member_vote_record list \<Rightarrow> arbitration_strategy \<Rightarrow> string list \<Rightarrow> vote_outcome" where
  "build_vote_outcome votes arbitration declared_options =
     (let (tally, invalid) = tally_votes votes ([], []);
          outcome = \<lparr>vo_schema_version = PROTOCOL_OUTCOME_SCHEMA_VERSION,
            vo_arbitration = arbitration, vo_tally = tally, vo_votes = votes,
            vo_invalid = invalid, vo_winner = None, vo_winner_count = 0, vo_tie = False,
            vo_tied_options = []\<rparr>
      in if arbitration = Arbitration_MAJORITY \<and> tally \<noteq> []
         then let top_count = Max (set (map snd tally));
                  top_options = sort (map fst (filter (\<lambda>(option, count). count = top_count) tally))
              in outcome\<lparr>vo_winner := Some (hd top_options), vo_winner_count := top_count,
                   vo_tie := 1 < length top_options,
                   vo_tied_options := (if 1 < length top_options then top_options else [])\<rparr>
         else outcome)"

definition member_vote_record_of :: "string \<Rightarrow> string \<Rightarrow> string list \<Rightarrow> member_vote_record" where
  "member_vote_record_of agent_id raw declared_options =
     (let canonical = canonicalize_vote raw;
          valid = (if declared_options \<noteq> []
                   then canonical \<in> canonicalize_vote ` set declared_options
                   else canonical \<noteq> [])
      in \<lparr>mv_agent_id = agent_id, mv_raw = raw, mv_canonical = canonical, mv_valid = valid\<rparr>)"

section \<open>The tally\<close>

definition votes_for :: "member_vote_record list \<Rightarrow> string \<Rightarrow> nat" where
  "votes_for rs opt = length (filter (\<lambda>r. mv_valid r \<and> mv_canonical r = opt) rs)"

definition count_in :: "(string \<times> nat) list \<Rightarrow> string \<Rightarrow> nat" where
  "count_in tally opt = (case map_of tally opt of None \<Rightarrow> 0 | Some n \<Rightarrow> n)"

lemma tally_votes_invalid:
  "snd (tally_votes rs (tally, invalid)) = invalid @ filter (\<lambda>r. \<not> mv_valid r) rs"
  by (induction rs arbitrary: tally invalid) auto

lemma tally_votes_count:
  "count_in (fst (tally_votes rs (tally, invalid))) opt = count_in tally opt + votes_for rs opt"
  by (induction rs arbitrary: tally invalid)
     (auto simp: count_in_def votes_for_def split: option.splits)

lemma tally_votes_keys:
  "distinct (map fst tally) \<Longrightarrow> distinct (map fst (fst (tally_votes rs (tally, invalid))))"
  by (induction rs arbitrary: tally invalid) (auto simp: distinct_update)

lemma tally_votes_dom:
  "fst ` set (fst (tally_votes rs (tally, invalid)))
     = fst ` set tally \<union> mv_canonical ` {r \<in> set rs. mv_valid r}"
  by (induction rs arbitrary: tally invalid) (auto simp: dom_update)

lemma tally_sum:
  "sum_list (map snd (fst (tally_votes rs (tally, invalid))))
     = sum_list (map snd tally) + length (filter mv_valid rs)"
proof (induction rs arbitrary: tally invalid)
  case Nil
  then show ?case by simp
next
  case (Cons r rs)
  have upd: "sum_list (map snd (AList.update k (count_in al k + 1) al))
               = sum_list (map snd al) + 1" for k and al :: "(string \<times> nat) list"
    by (induction al) (auto simp: count_in_def split: if_splits)
  show ?case
    using Cons.IH upd [of "mv_canonical r" tally]
    by (auto simp: count_in_def)
qed

text \<open>Each entry of the tally is the number of valid votes for its option.\<close>

lemma tally_entry:
  assumes "(opt, n) \<in> set (fst (tally_votes rs ([], [])))"
  shows "n = votes_for rs opt" "0 < n"
proof -
  let ?t = "fst (tally_votes rs ([], []))"
  have d: "distinct (map fst ?t)" by (rule tally_votes_keys) simp
  have "map_of ?t opt = Some n" using d assms by (simp add: map_of_is_SomeI)
  then show n: "n = votes_for rs opt"
    using tally_votes_count [of rs "[]" "[]" opt] by (simp add: count_in_def)
  have "opt \<in> mv_canonical ` {r \<in> set rs. mv_valid r}"
    using assms tally_votes_dom [of rs "[]" "[]"] by force
  then show "0 < n" unfolding n votes_for_def by (auto simp: filter_empty_conv)
qed

lemma tally_complete:
  "0 < votes_for rs opt \<Longrightarrow> (opt, votes_for rs opt) \<in> set (fst (tally_votes rs ([], [])))"
proof -
  let ?t = "fst (tally_votes rs ([], []))"
  assume "0 < votes_for rs opt"
  moreover have "count_in ?t opt = votes_for rs opt"
    using tally_votes_count [of rs "[]" "[]" opt] by (simp add: count_in_def)
  ultimately have "map_of ?t opt = Some (votes_for rs opt)"
    by (auto simp: count_in_def split: option.splits)
  then show ?thesis by (rule map_of_SomeD)
qed

text \<open>
  The winner under majority arbitration: an option with at least as many valid votes as any
  other, and the least such option in string order.
\<close>

definition plurality_winner :: "member_vote_record list \<Rightarrow> string \<Rightarrow> bool" where
  "plurality_winner rs w \<longleftrightarrow> 0 < votes_for rs w
     \<and> (\<forall>opt. votes_for rs opt \<le> votes_for rs w)
     \<and> (\<forall>opt. votes_for rs opt = votes_for rs w \<longrightarrow> w \<le> opt)"

lemma sort_hd_least:
  fixes xs :: "'a::linorder list"
  assumes "xs \<noteq> []"
  shows "hd (sort xs) \<in> set xs" "x \<in> set xs \<Longrightarrow> hd (sort xs) \<le> x"
proof -
  obtain y ys where ys: "sort xs = y # ys"
    using assms by (metis length_sort length_0_conv neq_Nil_conv)
  then have "set xs = insert y (set ys)" "sorted (y # ys)"
    by (metis list.set(2) set_sort) (metis sorted_sort ys)
  then show "hd (sort xs) \<in> set xs" "x \<in> set xs \<Longrightarrow> hd (sort xs) \<le> x"
    by (auto simp: ys)
qed

lemma top_options_spec:
  assumes t: "tally = fst (tally_votes rs ([], []))" and ne: "tally \<noteq> []"
    and mx: "mx = Max (set (map snd tally))"
  shows "set (map fst (filter (\<lambda>(opt, n). n = mx) tally))
           = {opt. votes_for rs opt = mx}" (is "set ?os = _")
    and "0 < mx" and "\<And>opt. votes_for rs opt \<le> mx"
    and "map fst (filter (\<lambda>(opt, n). n = mx) tally) \<noteq> []"
    and "distinct (map fst (filter (\<lambda>(opt, n). n = mx) tally))"
proof -
  have "mx \<in> set (map snd tally)" unfolding mx by (rule Max_in) (use ne in auto)
  then obtain opt where o: "(opt, mx) \<in> set tally" by auto
  from tally_entry [OF o [unfolded t]] show pos: "0 < mx" by simp
  show le: "votes_for rs opt' \<le> mx" for opt'
  proof (cases "0 < votes_for rs opt'")
    case True
    then have "votes_for rs opt' \<in> set (map snd tally)"
      using tally_complete t by force
    then show ?thesis unfolding mx by simp
  qed simp
  show set_eq: "set ?os = {opt. votes_for rs opt = mx}"
  proof (intro set_eqI iffI)
    fix x assume "x \<in> set ?os"
    then show "x \<in> {opt. votes_for rs opt = mx}"
      using tally_entry(1) t by auto
  next
    fix x assume "x \<in> {opt. votes_for rs opt = mx}"
    then have "(x, mx) \<in> set tally" using tally_complete pos t by auto
    then show "x \<in> set ?os" by force
  qed
  show "?os \<noteq> []" using o by (auto simp: filter_empty_conv)
  have "distinct (map fst tally)" unfolding t by (rule tally_votes_keys) simp
  then show "distinct ?os" by (simp add: distinct_map_filter)
qed

lemma build_vote_outcome_tally:
  "vo_tally (build_vote_outcome rs arb opts) = fst (tally_votes rs ([], []))"
  "vo_invalid (build_vote_outcome rs arb opts) = filter (\<lambda>r. \<not> mv_valid r) rs"
  "vo_votes (build_vote_outcome rs arb opts) = rs"
  using tally_votes_invalid [of rs "[]" "[]"]
  by (auto simp: build_vote_outcome_def Let_def split: prod.splits)

lemma tally_empty_iff:
  "fst (tally_votes rs ([], [])) = [] \<longleftrightarrow> (\<forall>r \<in> set rs. \<not> mv_valid r)"
proof -
  have "fst ` set (fst (tally_votes rs ([], []))) = {} \<longleftrightarrow> (\<forall>r \<in> set rs. \<not> mv_valid r)"
    by (auto simp: tally_votes_dom)
  then show ?thesis by simp
qed

lemma plurality_winner_unique:
  assumes "plurality_winner rs a" and "plurality_winner rs b"
  shows "a = b"
proof -
  have "votes_for rs a = votes_for rs b"
    using assms by (auto simp: plurality_winner_def intro: le_antisym)
  then show ?thesis
    using assms by (auto simp: plurality_winner_def intro: order_antisym)
qed

text \<open>The majority branch: the outcome in terms of the list of top options.\<close>

lemma majority_outcome:
  assumes "fst (tally_votes rs ([], [])) \<noteq> []"
  obtains h os where
    "vo_winner (build_vote_outcome rs Arbitration_MAJORITY opts) = Some h"
    "vo_winner_count (build_vote_outcome rs Arbitration_MAJORITY opts) = votes_for rs h"
    "vo_tie (build_vote_outcome rs Arbitration_MAJORITY opts) \<longleftrightarrow> 1 < length os"
    "vo_tied_options (build_vote_outcome rs Arbitration_MAJORITY opts)
       = (if 1 < length os then os else [])"
    "distinct os" "sorted os" "set os = {opt. votes_for rs opt = votes_for rs h}"
    "plurality_winner rs h"
proof -
  define t where "t = fst (tally_votes rs ([], []))"
  define mx where "mx = Max (set (map snd t))"
  define os where "os = sort (map fst (filter (\<lambda>(opt, n). n = mx) t))"
  note spec = top_options_spec [OF t_def assms [folded t_def] mx_def]
  have outcome: "vo_winner (build_vote_outcome rs Arbitration_MAJORITY opts) = Some (hd os)"
    "vo_winner_count (build_vote_outcome rs Arbitration_MAJORITY opts) = mx"
    "vo_tie (build_vote_outcome rs Arbitration_MAJORITY opts) \<longleftrightarrow> 1 < length os"
    "vo_tied_options (build_vote_outcome rs Arbitration_MAJORITY opts)
       = (if 1 < length os then os else [])"
    using assms
    by (auto simp: build_vote_outcome_def Let_def os_def mx_def t_def split: prod.splits)
  have set_os: "set os = {opt. votes_for rs opt = mx}"
    unfolding os_def using spec(1) by simp
  have h: "hd os \<in> set os" "\<And>x. x \<in> set os \<Longrightarrow> hd os \<le> x"
    unfolding os_def using sort_hd_least [OF spec(4)] by auto
  have hmx: "votes_for rs (hd os) = mx" using h(1) set_os by simp
  show ?thesis
  proof (rule that [OF outcome(1) _ outcome(3,4)])
    show "plurality_winner rs (hd os)"
      using spec(2,3) h(2) set_os by (auto simp: plurality_winner_def hmx)
    show "distinct os" "sorted os" unfolding os_def using spec(5) by simp_all
  qed (simp_all add: hmx outcome(2) set_os)
qed

lemma build_vote_outcome_winner:
  "vo_winner (build_vote_outcome rs Arbitration_MAJORITY opts) = Some w \<longleftrightarrow> plurality_winner rs w"
proof (cases "fst (tally_votes rs ([], [])) = []")
  case True
  then have "votes_for rs w = 0"
    using tally_empty_iff [of rs] by (auto simp: votes_for_def)
  with True show ?thesis
    by (auto simp: build_vote_outcome_def Let_def plurality_winner_def split: prod.splits)
next
  case False
  obtain h where "vo_winner (build_vote_outcome rs Arbitration_MAJORITY opts) = Some h"
    and "plurality_winner rs h"
    by (rule majority_outcome [OF False, of opts], blast)
  then show ?thesis using plurality_winner_unique [of rs h w] by auto
qed

lemma card_gt_one:
  assumes "finite A" and "h \<in> A"
  shows "1 < card A \<longleftrightarrow> (\<exists>b. b \<noteq> h \<and> b \<in> A)"
proof -
  have "card A = Suc (card (A - {h}))" by (rule card.remove [OF assms])
  then have "1 < card A \<longleftrightarrow> 0 < card (A - {h})" by linarith
  also have "\<dots> \<longleftrightarrow> A - {h} \<noteq> {}" using assms(1) by (simp add: card_gt_0_iff)
  finally show ?thesis by auto
qed

lemma build_vote_outcome_tie:
  "vo_tie (build_vote_outcome rs Arbitration_MAJORITY opts) \<longleftrightarrow>
     (\<exists>a b. a \<noteq> b \<and> plurality_winner rs a \<and> votes_for rs b = votes_for rs a)"
proof (cases "fst (tally_votes rs ([], [])) = []")
  case True
  then have "\<not> plurality_winner rs a" for a
    using tally_empty_iff [of rs] by (auto simp: votes_for_def plurality_winner_def)
  with True show ?thesis
    by (auto simp: build_vote_outcome_def Let_def split: prod.splits)
next
  case False
  obtain h os where o: "vo_tie (build_vote_outcome rs Arbitration_MAJORITY opts) \<longleftrightarrow> 1 < length os"
    "distinct os" "set os = {opt. votes_for rs opt = votes_for rs h}" "plurality_winner rs h"
    by (rule majority_outcome [OF False, of opts], blast)
  have "1 < card (set os) \<longleftrightarrow> (\<exists>b. b \<noteq> h \<and> b \<in> set os)"
    by (rule card_gt_one [OF List.finite_set]) (simp add: o(3))
  then have "1 < length os \<longleftrightarrow> (\<exists>b. b \<noteq> h \<and> votes_for rs b = votes_for rs h)"
    unfolding distinct_card [OF o(2)] by (simp add: o(3))
  moreover have "plurality_winner rs a \<longleftrightarrow> a = h" for a
    using o(4) plurality_winner_unique by auto
  ultimately show ?thesis using o(1) by metis
qed

section \<open>Canonicalisation\<close>

lemma collapse_whitespace_hd:
  "collapse_whitespace s \<noteq> [] \<longleftrightarrow> s \<noteq> []"
  by (induction s rule: collapse_whitespace.induct) auto

end
