(* ===== verification/Kernel_Scheduler.thy ===== *)
theory Kernel_Scheduler
  imports Mas_Contracts
begin

text \<open>
  \<^verbatim>\<open>kernel/contracts.py\<close>, \<^verbatim>\<open>kernel/scheduler.py\<close> and the part of
  \<^verbatim>\<open>orchestration/collaboration_runtime.py\<close> that advances an interaction. The six
  scheduling strategies share one contract, the locale \<open>scheduling_strategy\<close>: a strategy
  follows a fixed schedule of member ids, so a run ends after exactly that many turns, also when
  it continues an interaction that already holds a prefix of them. Every strategy is an
  interpretation of it.
\<close>

section \<open>Contracts\<close>

datatype message_role = Role_SYSTEM | Role_USER | Role_AGENT
datatype turn_status = Turn_PENDING | Turn_COMPLETED | Turn_FAILED
datatype interaction_status =
  Interaction_PENDING | Interaction_RUNNING | Interaction_COMPLETED | Interaction_FAILED

record message =
  ms_id :: string
  ms_interaction_id :: string
  ms_turn_index :: int
  ms_sender :: string
  ms_recipients :: "string list"
  ms_role :: message_role
  ms_content :: string
  ms_in_reply_to :: "string option"
  ms_metadata :: pydict

record turn =
  tn_index :: int
  tn_agent_id :: string
  tn_status :: turn_status
  tn_message_ids :: "string list"
  tn_metadata :: pydict

record interaction =
  it_id :: string
  it_team_id :: string
  it_member_ids :: "string list"
  it_protocol :: collaboration_protocol
  it_messages :: "message list"
  it_turns :: "turn list"
  it_status :: interaction_status
  it_workspace_id :: "string option"
  it_metadata :: pydict

definition make_message :: "message \<Rightarrow> exn + message" where
  "make_message m = validated
     (and_then (non_empty_text (ms_id m)) (\<lambda>i.
      and_then (non_empty_text (ms_interaction_id m)) (\<lambda>ii.
      and_then (raise_when (ms_turn_index m < 0) ValueError) (\<lambda>_.
      and_then (non_empty_text (ms_sender m)) (\<lambda>s.
      Inr (m\<lparr>ms_id := i, ms_interaction_id := ii, ms_sender := s\<rparr>))))))"

definition make_turn :: "turn \<Rightarrow> exn + turn" where
  "make_turn t = validated
     (and_then (raise_when (tn_index t < 0) ValueError) (\<lambda>_.
      and_then (non_empty_text (tn_agent_id t)) (\<lambda>a.
      Inr (t\<lparr>tn_agent_id := a\<rparr>))))"

definition validate_consistency :: "interaction \<Rightarrow> exn + interaction" where
  "validate_consistency i =
     (let members = it_member_ids i in
      if members = [] then Inl ValueError
      else if \<not> distinct members then Inl ValueError
      else if \<exists>t \<in> set (it_turns i). tn_agent_id t \<notin> set members then Inl ValueError
      else if (case cp_coordinator_id (it_protocol i) of None \<Rightarrow> False | Some c \<Rightarrow> c \<notin> set members)
      then Inl ValueError
      else Inr i)"

definition make_interaction :: "interaction \<Rightarrow> exn + interaction" where
  "make_interaction i = validated
     (and_then (non_empty_text (it_id i)) (\<lambda>x.
      and_then (non_empty_text (it_team_id i)) (\<lambda>t.
      validate_consistency (i\<lparr>it_id := x, it_team_id := t\<rparr>))))"

definition acted_agent_ids :: "interaction \<Rightarrow> string list" where
  "acted_agent_ids i = map tn_agent_id (it_turns i)"

section \<open>Strategies\<close>

text \<open>The \<^verbatim>\<open>Turn(index=len(turns), agent_id=a, status=PENDING)\<close> that every strategy
  builds; the \<^verbatim>\<open>Turn\<close> validators run.\<close>

definition pending_turn :: "interaction \<Rightarrow> string \<Rightarrow> exn + turn option" where
  "pending_turn i a = map_sum id Some (make_turn
     \<lparr>tn_index = int (length (it_turns i)), tn_agent_id = a, tn_status = Turn_PENDING,
      tn_message_ids = [], tn_metadata = []\<rparr>)"

definition next_unacted_turn :: "interaction \<Rightarrow> exn + turn option" where
  "next_unacted_turn i =
     (case List.find (\<lambda>m. m \<notin> set (acted_agent_ids i)) (it_member_ids i) of
        Some m \<Rightarrow> pending_turn i m
      | None \<Rightarrow> Inr None)"

definition broadcast_next_turn :: "interaction \<Rightarrow> exn + turn option" where
  "broadcast_next_turn i = next_unacted_turn i"

definition broadcast_visible_messages :: "interaction \<Rightarrow> turn \<Rightarrow> message list" where
  "broadcast_visible_messages i t = []"

definition pipeline_next_turn :: "interaction \<Rightarrow> exn + turn option" where
  "pipeline_next_turn i = next_unacted_turn i"

definition pipeline_visible_messages :: "interaction \<Rightarrow> turn \<Rightarrow> message list" where
  "pipeline_visible_messages i t = it_messages i"

definition coordinator_next_turn :: "interaction \<Rightarrow> exn + turn option" where
  "coordinator_next_turn i =
     (let coordinator = cp_coordinator_id (it_protocol i); acted = set (acted_agent_ids i) in
      case List.find (\<lambda>m. Some m \<noteq> coordinator \<and> m \<notin> acted) (it_member_ids i) of
        Some m \<Rightarrow> pending_turn i m
      | None \<Rightarrow> (case coordinator of
            Some c \<Rightarrow> if c \<notin> acted then pending_turn i c else Inr None
          | None \<Rightarrow> Inr None))"

definition coordinator_visible_messages :: "interaction \<Rightarrow> turn \<Rightarrow> message list" where
  "coordinator_visible_messages i t =
     (if Some (tn_agent_id t) = cp_coordinator_id (it_protocol i) then it_messages i else [])"

definition debate_next_turn :: "interaction \<Rightarrow> exn + turn option" where
  "debate_next_turn i =
     (let members = it_member_ids i; n = length members in
      if n = 0 then Inr None
      else and_then (debate_rounds (it_protocol i)) (\<lambda>rounds.
        let total = length (it_turns i) in
        if int total \<ge> rounds * int n then Inr None
        else pending_turn i (members ! (total mod n))))"

definition debate_visible_messages :: "interaction \<Rightarrow> turn \<Rightarrow> message list" where
  "debate_visible_messages i t = it_messages i"

definition vote_next_turn :: "interaction \<Rightarrow> exn + turn option" where
  "vote_next_turn i = next_unacted_turn i"

definition vote_visible_messages :: "interaction \<Rightarrow> turn \<Rightarrow> message list" where
  "vote_visible_messages i t = []"

definition delegation_next_turn :: "interaction \<Rightarrow> exn + turn option" where
  "delegation_next_turn i =
     (let delegator = cp_coordinator_id (it_protocol i); acted = set (acted_agent_ids i);
          delegates = (case List.find (\<lambda>m. Some m \<noteq> delegator \<and> m \<notin> acted) (it_member_ids i) of
            Some m \<Rightarrow> pending_turn i m
          | None \<Rightarrow> Inr None)
      in case delegator of
           Some d \<Rightarrow> if d \<notin> acted then pending_turn i d else delegates
         | None \<Rightarrow> delegates)"

definition delegation_visible_messages :: "interaction \<Rightarrow> turn \<Rightarrow> message list" where
  "delegation_visible_messages i t =
     (if Some (tn_agent_id t) = cp_coordinator_id (it_protocol i) then [] else it_messages i)"

datatype strategy =
    BroadcastStrategy
  | PipelineStrategy
  | CoordinatorStrategy
  | DebateStrategy
  | VoteStrategy
  | DelegationStrategy

fun strategy_next_turn :: "strategy \<Rightarrow> interaction \<Rightarrow> exn + turn option" where
  "strategy_next_turn BroadcastStrategy = broadcast_next_turn"
| "strategy_next_turn PipelineStrategy = pipeline_next_turn"
| "strategy_next_turn CoordinatorStrategy = coordinator_next_turn"
| "strategy_next_turn DebateStrategy = debate_next_turn"
| "strategy_next_turn VoteStrategy = vote_next_turn"
| "strategy_next_turn DelegationStrategy = delegation_next_turn"

fun strategy_visible_messages :: "strategy \<Rightarrow> interaction \<Rightarrow> turn \<Rightarrow> message list" where
  "strategy_visible_messages BroadcastStrategy = broadcast_visible_messages"
| "strategy_visible_messages PipelineStrategy = pipeline_visible_messages"
| "strategy_visible_messages CoordinatorStrategy = coordinator_visible_messages"
| "strategy_visible_messages DebateStrategy = debate_visible_messages"
| "strategy_visible_messages VoteStrategy = vote_visible_messages"
| "strategy_visible_messages DelegationStrategy = delegation_visible_messages"

fun STRATEGIES :: "collaboration_mode \<times> collaboration_topology \<Rightarrow> strategy option" where
  "STRATEGIES (Mode_TEAM, Topology_BROADCAST) = Some BroadcastStrategy"
| "STRATEGIES (Mode_TEAM, Topology_PIPELINE) = Some PipelineStrategy"
| "STRATEGIES (Mode_TEAM, Topology_COORDINATOR) = Some CoordinatorStrategy"
| "STRATEGIES (Mode_DEBATE, Topology_BROADCAST) = Some DebateStrategy"
| "STRATEGIES (Mode_VOTE, Topology_BROADCAST) = Some VoteStrategy"
| "STRATEGIES (Mode_DELEGATION, Topology_COORDINATOR) = Some DelegationStrategy"
| "STRATEGIES _ = None"

definition select_strategy :: "collaboration_protocol \<Rightarrow> exn + strategy" where
  "select_strategy protocol =
     (let violations = executed_protocol_violations protocol in
      if violations \<noteq> [] then Inl (UnexecutedProtocolError violations)
      else case STRATEGIES (cp_mode protocol, cp_topology protocol) of
             None \<Rightarrow> Inl (UnexecutedProtocolError [''strategy''])
           | Some strategy \<Rightarrow> Inr strategy)"

definition select_next_turn :: "interaction \<Rightarrow> exn + turn option" where
  "select_next_turn i =
     and_then (select_strategy (it_protocol i)) (\<lambda>s. strategy_next_turn s i)"

section \<open>Advancing an interaction\<close>

text \<open>
  \<^verbatim>\<open>NativeTeamInteractionRuntime.record_member_message\<close> and the \<^verbatim>\<open>while\<close> loop
  of \<^verbatim>\<open>NativeTeamExecutor.invoke\<close> over it. What a member says is a parameter: it is the
  model call. The loop carries fuel, and \<open>drive_schedule\<close> below gives the amount that is
  always enough. The message id is built from the turn index in decimal.
\<close>

fun nat_digits :: "nat \<Rightarrow> string" where
  "nat_digits n = (if n < 10 then [char_of (48 + n)]
                   else nat_digits (n div 10) @ [char_of (48 + n mod 10)])"

definition py_str_int :: "int \<Rightarrow> string" where
  "py_str_int z = (if z < 0 then CHR ''-'' # nat_digits (nat (- z)) else nat_digits (nat z))"

definition record_member_message :: "interaction \<Rightarrow> turn \<Rightarrow> string \<Rightarrow> exn + interaction" where
  "record_member_message i t content =
     and_then (make_message
       \<lparr>ms_id = ''msg-'' @ py_str_int (tn_index t) @ ''-'' @ tn_agent_id t,
        ms_interaction_id = it_id i, ms_turn_index = tn_index t, ms_sender = tn_agent_id t,
        ms_recipients = [], ms_role = Role_AGENT, ms_content = content, ms_in_reply_to = None,
        ms_metadata = []\<rparr>) (\<lambda>produced.
     and_then (make_turn
       \<lparr>tn_index = tn_index t, tn_agent_id = tn_agent_id t, tn_status = Turn_COMPLETED,
        tn_message_ids = [ms_id produced], tn_metadata = []\<rparr>) (\<lambda>completed.
     Inr (i\<lparr>it_messages := it_messages i @ [produced], it_turns := it_turns i @ [completed]\<rparr>)))"

fun drive :: "(interaction \<Rightarrow> exn + turn option) \<Rightarrow> (interaction \<Rightarrow> turn \<Rightarrow> string) \<Rightarrow> nat
    \<Rightarrow> interaction \<Rightarrow> exn + interaction option" where
  "drive next_turn say 0 i = Inr None"
| "drive next_turn say (Suc fuel) i =
     and_then (next_turn i) (\<lambda>scheduled. case scheduled of
        None \<Rightarrow> Inr (Some i)
      | Some t \<Rightarrow> and_then (record_member_message i t (say i t)) (drive next_turn say fuel))"

section \<open>Interactions a team starts from\<close>

text \<open>
  Ids that the contracts have normalised: not empty and without surrounding white space.
  \<open>sound_interaction\<close> collects what \<^verbatim>\<open>TeamSpec\<close>, \<^verbatim>\<open>CollaborationProtocol\<close> and
  \<^verbatim>\<open>Interaction\<close> check.
\<close>

definition clean_id :: "string \<Rightarrow> bool" where
  "clean_id s \<longleftrightarrow> s \<noteq> [] \<and> py_strip s = s"

definition sound_interaction :: "interaction \<Rightarrow> bool" where
  "sound_interaction i \<longleftrightarrow> clean_id (it_id i) \<and> it_member_ids i \<noteq> []
     \<and> distinct (it_member_ids i) \<and> (\<forall>m \<in> set (it_member_ids i). clean_id m)
     \<and> (\<forall>c. cp_coordinator_id (it_protocol i) = Some c \<longrightarrow> c \<in> set (it_member_ids i))
     \<and> validate_protocol_consistency (it_protocol i) = Inr (it_protocol i)"

lemma non_empty_text_clean [simp]: "clean_id s \<Longrightarrow> non_empty_text s = Inr s"
  by (simp add: clean_id_def non_empty_text_def Let_def)

lemma non_empty_text_cleans: "non_empty_text s = Inr t \<Longrightarrow> clean_id t"
  by (auto simp: clean_id_def non_empty_text_def Let_def split: if_splits)

lemma pending_turn_clean:
  "clean_id a \<Longrightarrow> pending_turn i a = Inr (Some
     \<lparr>tn_index = int (length (it_turns i)), tn_agent_id = a, tn_status = Turn_PENDING,
      tn_message_ids = [], tn_metadata = []\<rparr>)"
  by (simp add: pending_turn_def make_turn_def validated_def)

lemma clean_msg_id: "clean_id a \<Longrightarrow> clean_id (''msg-'' @ s @ ''-'' @ a)"
  unfolding clean_id_def
  using py_strip_edges [of a]
  by (auto intro!: py_strip_id simp: py_isspace_def)

lemma record_member_message_clean:
  assumes "clean_id (it_id i)" and "clean_id (tn_agent_id t)" and "0 \<le> tn_index t"
  shows "\<exists>m c. record_member_message i t content =
      Inr (i\<lparr>it_messages := it_messages i @ [m], it_turns := it_turns i @ [c]\<rparr>)
    \<and> tn_agent_id c = tn_agent_id t \<and> tn_index c = tn_index t \<and> tn_status c = Turn_COMPLETED
    \<and> ms_content m = content \<and> ms_sender m = tn_agent_id t"
proof -
  let ?id = "''msg-'' @ py_str_int (tn_index t) @ ''-'' @ tn_agent_id t"
  let ?m = "\<lparr>ms_id = ?id, ms_interaction_id = it_id i, ms_turn_index = tn_index t,
    ms_sender = tn_agent_id t, ms_recipients = [], ms_role = Role_AGENT, ms_content = content,
    ms_in_reply_to = None, ms_metadata = []\<rparr>"
  let ?c = "\<lparr>tn_index = tn_index t, tn_agent_id = tn_agent_id t, tn_status = Turn_COMPLETED,
    tn_message_ids = [?id], tn_metadata = []\<rparr>"
  have "record_member_message i t content =
      Inr (i\<lparr>it_messages := it_messages i @ [?m], it_turns := it_turns i @ [?c]\<rparr>)"
    using assms clean_msg_id [OF assms(2), of "py_str_int (tn_index t)"]
    by (simp add: record_member_message_def make_message_def make_turn_def validated_def)
  then show ?thesis by (intro exI [of _ ?m] exI [of _ ?c]) simp
qed

section \<open>The contract of a strategy\<close>

locale scheduling_strategy =
  fixes next_turn :: "interaction \<Rightarrow> exn + turn option"
    and visible :: "interaction \<Rightarrow> turn \<Rightarrow> message list"
    and schedule :: "collaboration_protocol \<Rightarrow> string list \<Rightarrow> string list"
    and admits :: "collaboration_protocol \<Rightarrow> bool"
  assumes schedule_members:
    "sound_interaction i \<Longrightarrow> admits (it_protocol i) \<Longrightarrow>
       set (schedule (it_protocol i) (it_member_ids i)) = set (it_member_ids i)"
    and next_follows:
    "sound_interaction i \<Longrightarrow> admits (it_protocol i) \<Longrightarrow>
       acted_agent_ids i = take k (schedule (it_protocol i) (it_member_ids i)) \<Longrightarrow>
       k < length (schedule (it_protocol i) (it_member_ids i)) \<Longrightarrow>
       next_turn i = pending_turn i (schedule (it_protocol i) (it_member_ids i) ! k)"
    and next_done:
    "sound_interaction i \<Longrightarrow> admits (it_protocol i) \<Longrightarrow>
       acted_agent_ids i = schedule (it_protocol i) (it_member_ids i) \<Longrightarrow>
       next_turn i = Inr None"
    and visible_recorded: "set (visible i t) \<subseteq> set (it_messages i)"
begin

text \<open>
  From any prefix of the schedule, the loop performs exactly the remaining turns, in order, and
  keeps the turns and messages it started from. A fresh run is the empty prefix, a resumed run
  any other.
\<close>

lemma drive_from_prefix:
  assumes "sound_interaction i" and "admits (it_protocol i)"
    and "acted_agent_ids i = take k (schedule (it_protocol i) (it_member_ids i))"
    and "k \<le> length (schedule (it_protocol i) (it_member_ids i))"
    and "length (schedule (it_protocol i) (it_member_ids i)) - k < fuel"
  shows "\<exists>j ms ts. drive next_turn say fuel i = Inr (Some j)
     \<and> j = i\<lparr>it_messages := it_messages i @ ms, it_turns := it_turns i @ ts\<rparr>
     \<and> acted_agent_ids j = schedule (it_protocol i) (it_member_ids i)
     \<and> length ms = length ts"
  using assms
proof (induction fuel arbitrary: i k)
  case 0
  then show ?case by simp
next
  case (Suc fuel)
  let ?s = "schedule (it_protocol i) (it_member_ids i)"
  show ?case
  proof (cases "k < length ?s")
    case False
    with Suc.prems have "acted_agent_ids i = ?s" by simp
    with Suc.prems have "drive next_turn say (Suc fuel) i = Inr (Some i)"
      by (simp add: next_done)
    with \<open>acted_agent_ids i = ?s\<close> show ?thesis
      by (intro exI [of _ i] exI [of _ "[]"]) simp
  next
    case True
    define a where "a = ?s ! k"
    have "a \<in> set (it_member_ids i)"
      using True schedule_members [OF Suc.prems(1,2)] nth_mem unfolding a_def by blast
    with Suc.prems(1) have a: "clean_id a" and i: "clean_id (it_id i)"
      by (auto simp: sound_interaction_def)
    define t where "t = \<lparr>tn_index = int (length (it_turns i)), tn_agent_id = a,
      tn_status = Turn_PENDING, tn_message_ids = [], tn_metadata = []\<rparr>"
    have nt: "next_turn i = Inr (Some t)"
      using next_follows [OF Suc.prems(1-3) True] a
      by (simp add: pending_turn_clean a_def [symmetric] t_def)
    obtain m c where rec: "record_member_message i t (say i t) =
        Inr (i\<lparr>it_messages := it_messages i @ [m], it_turns := it_turns i @ [c]\<rparr>)"
      and c: "tn_agent_id c = a"
      using record_member_message_clean [of i t "say i t"] i a by (auto simp: t_def)
    define i' where "i' = i\<lparr>it_messages := it_messages i @ [m], it_turns := it_turns i @ [c]\<rparr>"
    have same: "sound_interaction i'" "admits (it_protocol i')"
      "schedule (it_protocol i') (it_member_ids i') = ?s"
      using Suc.prems(1,2) by (auto simp: i'_def sound_interaction_def)
    have acted: "acted_agent_ids i' = take (Suc k) ?s"
      using Suc.prems(3) True c
      by (simp add: i'_def acted_agent_ids_def a_def take_Suc_conv_app_nth)
    have fuel: "length ?s - Suc k < fuel" using True Suc.prems(5) by linarith
    obtain j ms ts where j: "drive next_turn say fuel i' = Inr (Some j)"
      "j = i'\<lparr>it_messages := it_messages i' @ ms, it_turns := it_turns i' @ ts\<rparr>"
      "acted_agent_ids j = ?s" "length ms = length ts"
      using Suc.IH [OF same(1,2), of "Suc k", unfolded same(3), OF acted _ fuel] True by force
    have "drive next_turn say (Suc fuel) i = Inr (Some j)"
      using nt rec j(1) by (simp add: i'_def)
    moreover have "j = i\<lparr>it_messages := it_messages i @ (m # ms), it_turns := it_turns i @ (c # ts)\<rparr>"
      using j(2) by (simp add: i'_def)
    ultimately show ?thesis using j(3,4) by (metis length_Cons)
  qed
qed

lemma drive_fresh:
  assumes "sound_interaction i" and "admits (it_protocol i)" and "it_turns i = []"
  shows "\<exists>j. drive next_turn say (Suc (length (schedule (it_protocol i) (it_member_ids i)))) i
       = Inr (Some j)
     \<and> acted_agent_ids j = schedule (it_protocol i) (it_member_ids i)"
  using drive_from_prefix [OF assms(1,2), of 0 "Suc (length (schedule (it_protocol i)
    (it_member_ids i)))" say] assms(3)
  by (auto simp: acted_agent_ids_def)

end

section \<open>Every strategy keeps the contract\<close>

lemma find_first_unacted:
  assumes "distinct ms" and "k < length ms"
  shows "List.find (\<lambda>m. m \<notin> set (take k ms)) ms = Some (ms ! k)"
  using assms
proof (induction ms arbitrary: k)
  case (Cons m ms)
  show ?case
  proof (cases k)
    case (Suc k')
    have "List.find (\<lambda>x. x \<notin> set (take k (m # ms))) ms = List.find (\<lambda>x. x \<notin> set (take k' ms)) ms"
      using Cons.prems Suc by (auto intro!: find_cong)
    then show ?thesis using Cons Suc by simp
  qed simp
qed simp

lemma find_none_unacted: "set ms \<subseteq> A \<Longrightarrow> List.find (\<lambda>m. m \<notin> A) ms = None"
  by (auto simp: find_None_iff)

lemma find_filter: "List.find (\<lambda>m. P m \<and> Q m) xs = List.find Q (filter P xs)"
  by (induction xs) auto

lemma next_unacted_follows:
  assumes "sound_interaction i" and "acted_agent_ids i = take k (it_member_ids i)"
  shows "k < length (it_member_ids i) \<Longrightarrow>
      next_unacted_turn i = pending_turn i (it_member_ids i ! k)"
    and "length (it_member_ids i) \<le> k \<Longrightarrow> next_unacted_turn i = Inr None"
  using assms find_first_unacted [of "it_member_ids i" k]
  by (simp_all add: next_unacted_turn_def sound_interaction_def find_none_unacted)

lemma next_unacted_done:
  "sound_interaction i \<Longrightarrow> acted_agent_ids i = it_member_ids i \<Longrightarrow> next_unacted_turn i = Inr None"
  using next_unacted_follows(2) [of i "length (it_member_ids i)"] by simp

definition members_schedule :: "collaboration_protocol \<Rightarrow> string list \<Rightarrow> string list" where
  "members_schedule p ms = ms"

definition coordinator_schedule :: "collaboration_protocol \<Rightarrow> string list \<Rightarrow> string list" where
  "coordinator_schedule p ms = filter (\<lambda>m. Some m \<noteq> cp_coordinator_id p) ms
     @ filter (\<lambda>m. Some m = cp_coordinator_id p) ms"

definition delegation_schedule :: "collaboration_protocol \<Rightarrow> string list \<Rightarrow> string list" where
  "delegation_schedule p ms = filter (\<lambda>m. Some m = cp_coordinator_id p) ms
     @ filter (\<lambda>m. Some m \<noteq> cp_coordinator_id p) ms"

definition debate_schedule :: "collaboration_protocol \<Rightarrow> string list \<Rightarrow> string list" where
  "debate_schedule p ms =
     (case debate_rounds p of Inl _ \<Rightarrow> [] | Inr r \<Rightarrow> concat (replicate (nat r) ms))"

interpretation broadcast: scheduling_strategy broadcast_next_turn broadcast_visible_messages
    members_schedule "\<lambda>_. True"
  by unfold_locales
     (auto simp: broadcast_next_turn_def members_schedule_def broadcast_visible_messages_def
        next_unacted_follows next_unacted_done)

interpretation pipeline: scheduling_strategy pipeline_next_turn pipeline_visible_messages
    members_schedule "\<lambda>_. True"
  by unfold_locales
     (auto simp: pipeline_next_turn_def members_schedule_def pipeline_visible_messages_def
        next_unacted_follows next_unacted_done)

interpretation vote: scheduling_strategy vote_next_turn vote_visible_messages
    members_schedule "\<lambda>_. True"
  by unfold_locales
     (auto simp: vote_next_turn_def members_schedule_def vote_visible_messages_def
        next_unacted_follows next_unacted_done)

text \<open>The coordinator acts after the workers, the delegator before its delegates.\<close>

lemma coordinator_schedule_split:
  assumes "sound_interaction i"
  shows "cp_coordinator_id (it_protocol i) = None \<Longrightarrow>
      coordinator_schedule (it_protocol i) (it_member_ids i) = it_member_ids i \<and>
      delegation_schedule (it_protocol i) (it_member_ids i) = it_member_ids i"
    and "cp_coordinator_id (it_protocol i) = Some c \<Longrightarrow>
      coordinator_schedule (it_protocol i) (it_member_ids i)
        = filter (\<lambda>m. m \<noteq> c) (it_member_ids i) @ [c] \<and>
      delegation_schedule (it_protocol i) (it_member_ids i)
        = c # filter (\<lambda>m. m \<noteq> c) (it_member_ids i)"
proof -
  have one: "c \<in> set xs \<Longrightarrow> distinct xs \<Longrightarrow> filter (\<lambda>m. m = c) xs = [c]" for c :: string and xs
    by (induction xs) (auto simp: filter_empty_conv)
  show "cp_coordinator_id (it_protocol i) = None \<Longrightarrow>
      coordinator_schedule (it_protocol i) (it_member_ids i) = it_member_ids i \<and>
      delegation_schedule (it_protocol i) (it_member_ids i) = it_member_ids i"
    by (simp add: coordinator_schedule_def delegation_schedule_def)
  show "cp_coordinator_id (it_protocol i) = Some c \<Longrightarrow>
      coordinator_schedule (it_protocol i) (it_member_ids i)
        = filter (\<lambda>m. m \<noteq> c) (it_member_ids i) @ [c] \<and>
      delegation_schedule (it_protocol i) (it_member_ids i)
        = c # filter (\<lambda>m. m \<noteq> c) (it_member_ids i)"
    using assms one [of c "it_member_ids i"]
    by (simp add: coordinator_schedule_def delegation_schedule_def sound_interaction_def)
qed

lemma find_in_filter:
  assumes "distinct ms" and "k < length (filter P ms)"
    and "A \<inter> set (filter P ms) = set (take k (filter P ms))"
  shows "List.find (\<lambda>m. P m \<and> m \<notin> A) ms = Some (filter P ms ! k)"
proof -
  have "List.find (\<lambda>m. P m \<and> m \<notin> A) ms = List.find (\<lambda>m. m \<notin> A) (filter P ms)"
    by (rule find_filter)
  also have "\<dots> = List.find (\<lambda>m. m \<notin> set (take k (filter P ms))) (filter P ms)"
    using assms(3) by (intro find_cong) auto
  also have "\<dots> = Some (filter P ms ! k)"
    by (rule find_first_unacted) (use assms in simp_all)
  finally show ?thesis .
qed

lemma find_in_filter_none:
  "set (filter P ms) \<subseteq> A \<Longrightarrow> List.find (\<lambda>m. P m \<and> m \<notin> A) ms = None"
  by (auto simp: find_None_iff)

lemma coordinator_follows:
  assumes "sound_interaction i"
    and "acted_agent_ids i = take k (coordinator_schedule (it_protocol i) (it_member_ids i))"
    and "k < length (coordinator_schedule (it_protocol i) (it_member_ids i))"
  shows "coordinator_next_turn i
      = pending_turn i (coordinator_schedule (it_protocol i) (it_member_ids i) ! k)"
proof (cases "cp_coordinator_id (it_protocol i)")
  case None
  with assms coordinator_schedule_split(1) [OF assms(1)] show ?thesis
    using find_first_unacted [of "it_member_ids i" k]
    by (simp add: coordinator_next_turn_def Let_def sound_interaction_def)
next
  case (Some c)
  let ?w = "filter (\<lambda>m. m \<noteq> c) (it_member_ids i)"
  have s: "coordinator_schedule (it_protocol i) (it_member_ids i) = ?w @ [c]"
    using coordinator_schedule_split(2) [OF assms(1) Some] by simp
  have d: "distinct (it_member_ids i)" using assms(1) by (simp add: sound_interaction_def)
  show ?thesis
  proof (cases "k < length ?w")
    case True
    then have "List.find (\<lambda>m. m \<noteq> c \<and> m \<notin> set (acted_agent_ids i)) (it_member_ids i) = Some (?w ! k)"
      using assms(2) s by (intro find_in_filter [OF d]) (auto dest: in_set_takeD)
    with True Some show ?thesis by (simp add: coordinator_next_turn_def Let_def s nth_append)
  next
    case False
    with assms(3) s have k: "k = length ?w" by simp
    then have "List.find (\<lambda>m. m \<noteq> c \<and> m \<notin> set (acted_agent_ids i)) (it_member_ids i) = None"
      using assms(2) s by (intro find_in_filter_none) simp
    with k Some assms(2) s show ?thesis by (simp add: coordinator_next_turn_def Let_def)
  qed
qed

lemma coordinator_done:
  assumes "sound_interaction i"
    and "acted_agent_ids i = coordinator_schedule (it_protocol i) (it_member_ids i)"
  shows "coordinator_next_turn i = Inr None"
  using assms
  by (auto simp: coordinator_next_turn_def Let_def coordinator_schedule_def sound_interaction_def
      dest!: find_Some_in split: option.splits)

interpretation coordinator: scheduling_strategy coordinator_next_turn
    coordinator_visible_messages coordinator_schedule "\<lambda>_. True"
  by unfold_locales
     (auto simp: coordinator_follows coordinator_done coordinator_schedule_def
        coordinator_visible_messages_def)

lemma delegation_follows:
  assumes "sound_interaction i"
    and "acted_agent_ids i = take k (delegation_schedule (it_protocol i) (it_member_ids i))"
    and "k < length (delegation_schedule (it_protocol i) (it_member_ids i))"
  shows "delegation_next_turn i
      = pending_turn i (delegation_schedule (it_protocol i) (it_member_ids i) ! k)"
proof (cases "cp_coordinator_id (it_protocol i)")
  case None
  with assms coordinator_schedule_split(1) [OF assms(1)] show ?thesis
    using find_first_unacted [of "it_member_ids i" k]
    by (simp add: delegation_next_turn_def Let_def sound_interaction_def)
next
  case (Some c)
  let ?w = "filter (\<lambda>m. m \<noteq> c) (it_member_ids i)"
  have s: "delegation_schedule (it_protocol i) (it_member_ids i) = c # ?w"
    using coordinator_schedule_split(2) [OF assms(1) Some] by simp
  have d: "distinct (it_member_ids i)" using assms(1) by (simp add: sound_interaction_def)
  show ?thesis
  proof (cases k)
    case 0
    with Some assms(2) s show ?thesis by (simp add: delegation_next_turn_def Let_def)
  next
    case (Suc k')
    then have "List.find (\<lambda>m. m \<noteq> c \<and> m \<notin> set (acted_agent_ids i)) (it_member_ids i) = Some (?w ! k')"
      using assms(2,3) s by (intro find_in_filter [OF d]) (auto dest: in_set_takeD)
    with Suc Some assms(2) s show ?thesis by (simp add: delegation_next_turn_def Let_def)
  qed
qed

lemma delegation_done:
  assumes "sound_interaction i"
    and "acted_agent_ids i = delegation_schedule (it_protocol i) (it_member_ids i)"
  shows "delegation_next_turn i = Inr None"
  using assms
  by (auto simp: delegation_next_turn_def Let_def delegation_schedule_def sound_interaction_def
      dest!: find_Some_in split: option.splits)

interpretation delegation: scheduling_strategy delegation_next_turn
    delegation_visible_messages delegation_schedule "\<lambda>_. True"
  by unfold_locales
     (auto simp: delegation_follows delegation_done delegation_schedule_def
        delegation_visible_messages_def)

text \<open>A debate repeats the members round by round.\<close>

lemma nth_concat_replicate:
  "k < r * length ms \<Longrightarrow> concat (replicate r ms) ! k = ms ! (k mod length ms)"
proof (induction r arbitrary: k)
  case (Suc r)
  show ?case
  proof (cases "k < length ms")
    case False
    with Suc.prems have "k - length ms < r * length ms" by auto
    with False Suc.IH show ?thesis by (simp add: nth_append le_mod_geq)
  qed (simp add: nth_append)
qed simp

lemma length_concat_replicate: "length (concat (replicate r ms)) = r * length ms"
  by (induction r) auto

lemma sound_debate_rounds:
  assumes "sound_interaction i" and "cp_mode (it_protocol i) = Mode_DEBATE"
  obtains r where "debate_rounds (it_protocol i) = Inr r" and "1 \<le> r"
proof (cases "debate_rounds (it_protocol i)")
  case (Inl e)
  with assms show ?thesis
    by (simp add: sound_interaction_def validate_protocol_consistency_def)
next
  case (Inr r)
  with that debate_rounds_pos show ?thesis by blast
qed

lemma debate_next_turn_eq:
  assumes "sound_interaction i" and "debate_rounds (it_protocol i) = Inr r" and "1 \<le> r"
    and "length (it_turns i) = k"
  shows "debate_next_turn i =
     (if k < nat r * length (it_member_ids i)
      then pending_turn i (it_member_ids i ! (k mod length (it_member_ids i))) else Inr None)"
proof -
  have "int k \<ge> r * int (length (it_member_ids i)) \<longleftrightarrow> \<not> k < nat r * length (it_member_ids i)"
    using assms(3) by (metis int_nat_eq le_zero_eq linorder_not_less nat_int_comparison(2)
        of_nat_mult order_trans zero_le_one)
  then show ?thesis
    using assms by (simp add: debate_next_turn_def Let_def sound_interaction_def)
qed

interpretation debate: scheduling_strategy debate_next_turn debate_visible_messages
    debate_schedule "\<lambda>p. cp_mode p = Mode_DEBATE"
proof unfold_locales
  fix i k t
  assume s: "sound_interaction i" and "cp_mode (it_protocol i) = Mode_DEBATE"
  then obtain r where r: "debate_rounds (it_protocol i) = Inr r" "1 \<le> r"
    by (rule sound_debate_rounds)
  let ?s = "debate_schedule (it_protocol i) (it_member_ids i)"
  have sched: "?s = concat (replicate (nat r) (it_member_ids i))"
    by (simp add: debate_schedule_def r)
  show "set ?s = set (it_member_ids i)" using r(2) by (simp add: sched)
  show "debate_next_turn i = Inr None" if "acted_agent_ids i = ?s"
  proof -
    have "length (it_turns i) = nat r * length (it_member_ids i)"
      using that sched by (metis acted_agent_ids_def length_concat_replicate length_map)
    then show ?thesis by (simp add: debate_next_turn_eq [OF s r refl])
  qed
  show "debate_next_turn i = pending_turn i (?s ! k)"
    if "acted_agent_ids i = take k ?s" and "k < length ?s"
  proof -
    have "length (it_turns i) = k"
      using that by (metis acted_agent_ids_def length_map length_take min.absorb4)
    moreover have "k < nat r * length (it_member_ids i)"
      using that(2) by (simp add: sched length_concat_replicate)
    ultimately show ?thesis
      using debate_next_turn_eq [OF s r] by (simp add: sched nth_concat_replicate)
  qed
qed (simp add: debate_visible_messages_def)

section \<open>Strategy selection\<close>

text \<open>The order in which a strategy lets the members act, and the protocols it is selected for.\<close>

fun strategy_schedule :: "strategy \<Rightarrow> collaboration_protocol \<Rightarrow> string list \<Rightarrow> string list" where
  "strategy_schedule BroadcastStrategy = members_schedule"
| "strategy_schedule PipelineStrategy = members_schedule"
| "strategy_schedule CoordinatorStrategy = coordinator_schedule"
| "strategy_schedule DebateStrategy = debate_schedule"
| "strategy_schedule VoteStrategy = members_schedule"
| "strategy_schedule DelegationStrategy = delegation_schedule"

fun strategy_admits :: "strategy \<Rightarrow> collaboration_protocol \<Rightarrow> bool" where
  "strategy_admits DebateStrategy = (\<lambda>p. cp_mode p = Mode_DEBATE)"
| "strategy_admits _ = (\<lambda>_. True)"

interpretation strategies: scheduling_strategy "strategy_next_turn st"
    "strategy_visible_messages st" "strategy_schedule st" "strategy_admits st" for st
  by (cases st) (simp_all add: broadcast.scheduling_strategy_axioms
      pipeline.scheduling_strategy_axioms coordinator.scheduling_strategy_axioms
      debate.scheduling_strategy_axioms vote.scheduling_strategy_axioms
      delegation.scheduling_strategy_axioms)

lemma selected_admits: "select_strategy p = Inr st \<Longrightarrow> strategy_admits st p"
  by (cases "cp_mode p"; cases "cp_topology p")
     (auto simp: select_strategy_def Let_def split: if_splits)

lemma select_strategy_total:
  "(\<exists>st. select_strategy p = Inr st) \<longleftrightarrow>
     (cp_mode p, cp_topology p) \<in> EXECUTED_MODE_TOPOLOGY_PAIRS"
  using violations_only_pair [of p]
  by (auto simp: select_strategy_def Let_def EXECUTED_MODE_TOPOLOGY_PAIRS_def
      split: option.splits)

text \<open>A team passes \<^verbatim>\<open>require_executed_team\<close> exactly when a strategy is selected.\<close>

lemma executed_team_has_strategy:
  "require_executed_team team = Inr () \<longleftrightarrow> (\<exists>st. select_strategy (ts_protocol team) = Inr st)"
  using select_strategy_total [of "ts_protocol team"] violations_only_pair [of "ts_protocol team"]
  by (simp add: require_executed_team_def Let_def raise_when_def)

end
