(* ===== verification/Models.thy ===== *)
theory Models
  imports States Protocol_Outcomes Kernel_Scheduler
begin

text \<open>
  \<^verbatim>\<open>control/models.py\<close> and \<^verbatim>\<open>control/interaction_state.py\<close>: the data of the control
  plane. Every Pydantic model is a record with the source's fields in the source's order, each
  behind a short prefix, because record fields share one name space:
  \<open>rs\<close> RuntimeSession, \<open>ns\<close> NodeState, \<open>na\<close> NodeAttempt, \<open>te\<close> ToolExecution, \<open>gt\<close> Gate,
  \<open>gd\<close> GateDecision, \<open>gi\<close> GateDecisionInput, \<open>ir\<close> IdempotencyRecord, \<open>il\<close>
  InteractionLogRecord, \<open>di\<close> DurableInteraction, \<open>dt\<close> DurableTurn, \<open>dm\<close> DurableMessage,
  \<open>dp\<close> DurableProtocolOutcome, \<open>wn\<close> WorkflowNodeSpec, \<open>wb\<close> WorkflowBlueprint, \<open>wr\<close>
  WorkflowRevision, \<open>ar\<close> AgentReport, \<open>vr\<close> VerifierResult, \<open>fr\<close> FeedbackRecord, \<open>ai\<close>
  ApplyIntent. A float is the rational number it denotes. Default factories that read the clock
  or draw an id are arguments of the functions that construct a record.
\<close>

section \<open>Workflow blueprints\<close>

record workflow_node_spec =
  wn_key :: string
  wn_role :: string
  wn_description :: string
  wn_requires :: "string list"
  wn_config :: pydict

record workflow_blueprint =
  wb_name :: string
  wb_version :: string
  wb_nodes :: "workflow_node_spec list"

definition node_spec :: "workflow_blueprint \<Rightarrow> string \<Rightarrow> exn + workflow_node_spec" where
  "node_spec b key =
     (case List.find (\<lambda>n. wn_key n = key) (wb_nodes b) of
        Some n \<Rightarrow> Inr n
      | None \<Rightarrow> Inl KeyError)"

section \<open>Reports\<close>

record verifier_result =
  vr_name :: string
  vr_passed :: bool
  vr_score :: "rat option"
  vr_evidence_refs :: "string list"
  vr_detail :: pydict
  vr_repair_instruction :: "string option"

record feedback_record =
  fr_source :: string
  fr_message :: string
  fr_target_node_key :: "string option"
  fr_severity :: string
  fr_suggested_action :: "decision_action option"
  fr_evidence_refs :: "string list"
  fr_detail :: pydict

record agent_report =
  ar_node_key :: string
  ar_agent_id :: string
  ar_harness_id :: "string option"
  ar_execution_id :: "string option"
  ar_trace_id :: "string option"
  ar_lease_token :: "string option"
  ar_output :: pydict
  ar_boundary_event :: "string option"
  ar_gate_triggers :: "string list"
  ar_verifier_results :: "verifier_result list"
  ar_feedback :: "feedback_record list"
  ar_error :: "string option"

definition json_strs :: "string list \<Rightarrow> json" where
  "json_strs ss = JList (map JStr ss)"

text \<open>\<^verbatim>\<open>model_dump(mode="json")\<close> of the two evidence records.\<close>

definition dump_verifier_result :: "verifier_result \<Rightarrow> json" where
  "dump_verifier_result v = JObj
     [(''name'', JStr (vr_name v)), (''passed'', JBool (vr_passed v)),
      (''score'', case vr_score v of None \<Rightarrow> JNull | Some q \<Rightarrow> JFloat q),
      (''evidence_refs'', json_strs (vr_evidence_refs v)), (''detail'', JObj (vr_detail v)),
      (''repair_instruction'', json_opt_str (vr_repair_instruction v))]"

definition dump_feedback_record :: "feedback_record \<Rightarrow> json" where
  "dump_feedback_record f = JObj
     [(''source'', JStr (fr_source f)), (''message'', JStr (fr_message f)),
      (''target_node_key'', json_opt_str (fr_target_node_key f)),
      (''severity'', JStr (fr_severity f)),
      (''suggested_action'', json_opt_str (map_option decision_action_value (fr_suggested_action f))),
      (''evidence_refs'', json_strs (fr_evidence_refs f)), (''detail'', JObj (fr_detail f))]"

definition persisted_output :: "agent_report \<Rightarrow> pydict" where
  "persisted_output r =
     (let persisted = ar_output r;
          persisted = (if ar_verifier_results r \<noteq> []
            then AList.update ''_verifier_results''
                   (JList (map dump_verifier_result (ar_verifier_results r))) persisted
            else persisted);
          persisted = (if ar_feedback r \<noteq> []
            then AList.update ''_feedback'' (JList (map dump_feedback_record (ar_feedback r))) persisted
            else persisted)
      in persisted)"

section \<open>Node executions, gates and nodes\<close>

record tool_execution =
  te_id :: string
  te_node_key :: string
  te_execution_id :: string
  te_trace_id :: "string option"
  te_tool_call_id :: string
  te_tool_name :: string
  te_round_no :: int
  te_status :: tool_execution_status
  te_arguments :: pydict
  te_result_preview :: pydict
  te_is_error :: "bool option"
  te_content_length :: "int option"
  te_error :: "string option"
  te_started_at :: time
  te_finished_at :: "time option"
  te_metadata :: pydict

record node_attempt =
  na_id :: string
  na_node_key :: string
  na_attempt_no :: nat
  na_trace_id :: "string option"
  na_status :: attempt_status
  na_started_at :: time
  na_finished_at :: "time option"
  na_output :: pydict
  na_error :: "string option"
  na_tool_executions :: "tool_execution list"
  na_lease_token :: "string option"
  na_lease_owner :: "string option"
  na_last_heartbeat_at :: "time option"
  na_lease_expires_at :: "time option"

definition new_attempt :: "string \<Rightarrow> time \<Rightarrow> string \<Rightarrow> nat \<Rightarrow> string option \<Rightarrow> node_attempt" where
  "new_attempt fresh_id now key no trace =
     \<lparr>na_id = fresh_id, na_node_key = key, na_attempt_no = no, na_trace_id = trace,
      na_status = Attempt_RUNNING, na_started_at = now, na_finished_at = None, na_output = [],
      na_error = None, na_tool_executions = [], na_lease_token = None, na_lease_owner = None,
      na_last_heartbeat_at = None, na_lease_expires_at = None\<rparr>"

record gate_decision =
  gd_id :: string
  gd_gate_id :: string
  gd_action :: decision_action
  gd_actor :: string
  gd_rationale :: string
  gd_payload :: pydict
  gd_created_at :: time

record gate =
  gt_id :: string
  gt_name :: string
  gt_node_key :: string
  gt_outcome :: gate_outcome
  gt_detail :: pydict
  gt_created_at :: time
  gt_decision :: "gate_decision option"

record gate_decision_input =
  gi_gate_id :: string
  gi_action :: decision_action
  gi_actor :: string
  gi_rationale :: string
  gi_payload :: pydict

record node_state =
  ns_key :: string
  ns_status :: node_status
  ns_attempts :: "node_attempt list"
  ns_gates :: "gate list"
  ns_updated_at :: time

definition new_node :: "time \<Rightarrow> string \<Rightarrow> node_state" where
  "new_node now key = \<lparr>ns_key = key, ns_status = Node_QUEUED, ns_attempts = [], ns_gates = [],
     ns_updated_at = now\<rparr>"

definition latest_attempt :: "node_state \<Rightarrow> node_attempt option" where
  "latest_attempt n = (if ns_attempts n = [] then None else Some (last (ns_attempts n)))"

definition latest_gate :: "node_state \<Rightarrow> gate option" where
  "latest_gate n = (if ns_gates n = [] then None else Some (last (ns_gates n)))"

section \<open>Durable interactions\<close>

record durable_message =
  dm_id :: string
  dm_interaction_id :: string
  dm_turn_index :: int
  dm_sender :: string
  dm_role :: message_role
  dm_content :: string
  dm_in_reply_to :: "string option"
  dm_created_at :: time

record durable_turn =
  dt_id :: string
  dt_interaction_id :: string
  dt_turn_index :: int
  dt_agent_id :: string
  dt_status :: turn_status
  dt_created_at :: time
  dt_completed_at :: "time option"
  dt_lease_token :: "string option"
  dt_lease_owner :: "string option"
  dt_lease_expires_at :: "time option"
  dt_last_heartbeat_at :: "time option"

record durable_protocol_outcome =
  dp_vote :: "vote_outcome option"
  dp_coordinator :: "coordinator_outcome option"
  dp_recorded_at :: time

record durable_interaction =
  di_id :: string
  di_session_id :: string
  di_node_key :: string
  di_execution_id :: string
  di_team_id :: string
  di_protocol_mode :: string
  di_topology :: string
  di_member_ids :: "string list"
  di_workspace_id :: "string option"
  di_status :: interaction_status
  di_turns :: "durable_turn list"
  di_messages :: "durable_message list"
  di_outcome :: "durable_protocol_outcome option"
  di_version :: nat
  di_recovered_from_turn_index :: "int option"
  di_error :: "string option"
  di_created_at :: time
  di_updated_at :: time

definition turn_by_index :: "durable_interaction \<Rightarrow> int \<Rightarrow> durable_turn option" where
  "turn_by_index d turn_index = List.find (\<lambda>t. dt_turn_index t = turn_index) (di_turns d)"

definition message_by_id :: "durable_interaction \<Rightarrow> string \<Rightarrow> durable_message option" where
  "message_by_id d message_id = List.find (\<lambda>m. dm_id m = message_id) (di_messages d)"

definition durable_interaction_id :: "string \<Rightarrow> string \<Rightarrow> string" where
  "durable_interaction_id session_id node_key = ''interaction-'' @ session_id @ ''-'' @ node_key"

section \<open>The session\<close>

record idempotency_record =
  ir_key :: string
  ir_kind :: string
  ir_claimed_at :: time
  ir_detail :: pydict

record runtime_session =
  rs_id :: string
  rs_workflow_name :: string
  rs_workflow_version :: string
  rs_version :: nat
  rs_status :: session_status
  rs_nodes :: "(string \<times> node_state) list"
  rs_input_payload :: pydict
  rs_summary_output :: pydict
  rs_error_message :: "string option"
  rs_created_at :: time
  rs_updated_at :: time
  rs_metadata :: pydict
  rs_auto_repair_attempts_used :: nat
  rs_processed_idempotency_keys :: "(string \<times> idempotency_record) list"
  rs_durable_interactions :: "(string \<times> durable_interaction) list"

definition session_node :: "runtime_session \<Rightarrow> string \<Rightarrow> node_state option" where
  "session_node s key = map_of (rs_nodes s) key"

definition set_node :: "string \<Rightarrow> node_state \<Rightarrow> runtime_session \<Rightarrow> runtime_session" where
  "set_node key n s = s\<lparr>rs_nodes := AList.update key n (rs_nodes s)\<rparr>"

section \<open>Interaction log records\<close>

datatype interaction_log_event_kind =
    Log_INTERACTION_STARTED
  | Log_TURN_STARTED
  | Log_TURN_COMPLETED
  | Log_MESSAGE_SENT
  | Log_VOTE_CAST
  | Log_INTERACTION_COMPLETED
  | Log_INTERACTION_FAILED

fun log_event_kind_value :: "interaction_log_event_kind \<Rightarrow> string" where
  "log_event_kind_value Log_INTERACTION_STARTED = ''interaction_started''"
| "log_event_kind_value Log_TURN_STARTED = ''turn_started''"
| "log_event_kind_value Log_TURN_COMPLETED = ''turn_completed''"
| "log_event_kind_value Log_MESSAGE_SENT = ''message_sent''"
| "log_event_kind_value Log_VOTE_CAST = ''vote_cast''"
| "log_event_kind_value Log_INTERACTION_COMPLETED = ''interaction_completed''"
| "log_event_kind_value Log_INTERACTION_FAILED = ''interaction_failed''"

record interaction_log_record =
  il_id :: string
  il_session_id :: string
  il_node_key :: string
  il_execution_id :: string
  il_trace_id :: "string option"
  il_interaction_id :: string
  il_team_id :: string
  il_workspace_id :: "string option"
  il_event_kind :: interaction_log_event_kind
  il_actor :: "string option"
  il_turn_index :: "int option"
  il_content_preview :: "string option"
  il_detail :: pydict
  il_created_at :: time

section \<open>Revisions and apply intents\<close>

record workflow_revision =
  wr_current_blueprint :: workflow_blueprint
  wr_revised_blueprint :: workflow_blueprint
  wr_changed_node_keys :: "string list"
  wr_reason :: string
  wr_feedback_refs :: "string list"
  wr_metadata :: pydict

record apply_intent =
  ai_kind :: apply_intent_kind
  ai_node_key :: "string option"
  ai_output :: pydict
  ai_error :: "string option"
  ai_gate :: "gate option"
  ai_workflow_revision :: "workflow_revision option"
  ai_reason :: string
  ai_authorization :: pydict
  ai_metadata :: pydict

text \<open>The \<^verbatim>\<open>_validate_shape\<close> validator that every construction runs.\<close>

definition make_apply_intent :: "apply_intent \<Rightarrow> exn + apply_intent" where
  "make_apply_intent i = validated
    (if ai_kind i = Intent_WORKFLOW_REVISION
     then (if ai_workflow_revision i = None then Inl ValueError
           else if ai_node_key i \<noteq> None then Inl ValueError
           else Inr i)
     else if ai_node_key i = None then Inl ValueError
     else if ai_kind i = Intent_PAUSE \<and> ai_gate i = None then Inl ValueError
     else if ai_kind i = Intent_FAIL \<and> \<not> truthy (ai_error i) then Inl ValueError
     else if ai_workflow_revision i \<noteq> None then Inl ValueError
     else Inr i)"

definition blank_intent :: "apply_intent_kind \<Rightarrow> apply_intent" where
  "blank_intent k = \<lparr>ai_kind = k, ai_node_key = None, ai_output = [], ai_error = None,
     ai_gate = None, ai_workflow_revision = None, ai_reason = [], ai_authorization = [],
     ai_metadata = []\<rparr>"

text \<open>
  The class methods that build the five kinds; \<^verbatim>\<open>output or {}\<close> makes a missing
  output the empty dictionary.
\<close>

definition intent_complete ::
    "string \<Rightarrow> pydict option \<Rightarrow> gate option \<Rightarrow> pydict \<Rightarrow> exn + apply_intent" where
  "intent_complete key output g authorization = make_apply_intent
     ((blank_intent Intent_COMPLETE)\<lparr>ai_node_key := Some key,
        ai_output := (case output of None \<Rightarrow> [] | Some x \<Rightarrow> x), ai_gate := g,
        ai_authorization := authorization\<rparr>)"

definition intent_pause :: "string \<Rightarrow> gate \<Rightarrow> pydict \<Rightarrow> exn + apply_intent" where
  "intent_pause key g authorization = make_apply_intent
     ((blank_intent Intent_PAUSE)\<lparr>ai_node_key := Some key, ai_gate := Some g,
        ai_authorization := authorization\<rparr>)"

definition intent_fail ::
    "string \<Rightarrow> string \<Rightarrow> gate option \<Rightarrow> pydict \<Rightarrow> exn + apply_intent" where
  "intent_fail key err g authorization = make_apply_intent
     ((blank_intent Intent_FAIL)\<lparr>ai_node_key := Some key, ai_error := Some err, ai_gate := g,
        ai_authorization := authorization\<rparr>)"

definition intent_requeue ::
    "string \<Rightarrow> string \<Rightarrow> gate option \<Rightarrow> pydict \<Rightarrow> exn + apply_intent" where
  "intent_requeue key reason g authorization = make_apply_intent
     ((blank_intent Intent_REQUEUE)\<lparr>ai_node_key := Some key, ai_reason := reason, ai_gate := g,
        ai_authorization := authorization\<rparr>)"

definition intent_graph_update :: "workflow_revision \<Rightarrow> pydict \<Rightarrow> exn + apply_intent" where
  "intent_graph_update revision authorization = make_apply_intent
     ((blank_intent Intent_WORKFLOW_REVISION)\<lparr>ai_workflow_revision := Some revision,
        ai_authorization := authorization\<rparr>)"

section \<open>Facts about the constructors\<close>

lemma intent_constructors [simp]:
  "intent_complete key output g auth = Inr ((blank_intent Intent_COMPLETE)\<lparr>ai_node_key := Some key,
     ai_output := (case output of None \<Rightarrow> [] | Some x \<Rightarrow> x), ai_gate := g, ai_authorization := auth\<rparr>)"
  "intent_pause key g' auth = Inr ((blank_intent Intent_PAUSE)\<lparr>ai_node_key := Some key,
     ai_gate := Some g', ai_authorization := auth\<rparr>)"
  "intent_requeue key reason g auth = Inr ((blank_intent Intent_REQUEUE)\<lparr>ai_node_key := Some key,
     ai_reason := reason, ai_gate := g, ai_authorization := auth\<rparr>)"
  "intent_graph_update revision auth = Inr ((blank_intent Intent_WORKFLOW_REVISION)\<lparr>
     ai_workflow_revision := Some revision, ai_authorization := auth\<rparr>)"
  by (simp_all add: intent_complete_def intent_pause_def intent_requeue_def
      intent_graph_update_def make_apply_intent_def blank_intent_def validated_def)

lemma intent_fail_eq:
  "intent_fail key err g auth =
     (if err = [] then Inl ValidationError
      else Inr ((blank_intent Intent_FAIL)\<lparr>ai_node_key := Some key, ai_error := Some err,
        ai_gate := g, ai_authorization := auth\<rparr>))"
  by (simp add: intent_fail_def make_apply_intent_def blank_intent_def validated_def)

lemma blank_intent_simps [simp]:
  "ai_kind (blank_intent k) = k" "ai_node_key (blank_intent k) = None"
  "ai_output (blank_intent k) = []" "ai_error (blank_intent k) = None"
  "ai_gate (blank_intent k) = None" "ai_workflow_revision (blank_intent k) = None"
  "ai_reason (blank_intent k) = []" "ai_authorization (blank_intent k) = []"
  "ai_metadata (blank_intent k) = []"
  by (simp_all add: blank_intent_def)

lemma session_node_set_node [simp]:
  "session_node (set_node k n s) = (session_node s)(k \<mapsto> n)"
  by (simp add: session_node_def set_node_def fun_eq_iff)

lemma set_node_fields [simp]:
  "rs_id (set_node k n s) = rs_id s" "rs_version (set_node k n s) = rs_version s"
  "rs_status (set_node k n s) = rs_status s" "rs_metadata (set_node k n s) = rs_metadata s"
  "rs_updated_at (set_node k n s) = rs_updated_at s"
  "rs_auto_repair_attempts_used (set_node k n s) = rs_auto_repair_attempts_used s"
  "rs_processed_idempotency_keys (set_node k n s) = rs_processed_idempotency_keys s"
  "rs_durable_interactions (set_node k n s) = rs_durable_interactions s"
  "rs_summary_output (set_node k n s) = rs_summary_output s"
  "rs_error_message (set_node k n s) = rs_error_message s"
  "rs_workflow_name (set_node k n s) = rs_workflow_name s"
  by (simp_all add: set_node_def)

lemma persisted_output_plain:
  "ar_verifier_results r = [] \<Longrightarrow> ar_feedback r = [] \<Longrightarrow> persisted_output r = ar_output r"
  by (simp add: persisted_output_def)

end
