(* ===== verification/Py_Values.thy ===== *)
theory Py_Values
  imports Kernel_Scheduler
begin

text \<open>
  What the program uses of the values of Python: the truth of a value, the text of a time, and
  decimal numerals.
\<close>

section \<open>Values and their text\<close>

text \<open>
  What the code above the control layer uses of Python on JSON values: truth values,
  \<^verbatim>\<open>dict.get\<close>, \<^verbatim>\<open>str\<close>, \<^verbatim>\<open>str.join\<close>, and the rounding of
  \<^verbatim>\<open>timedelta(seconds=x)\<close>. \<^verbatim>\<open>str\<close> of a float or of a container is the argument
  \<open>repr_of\<close>: the code passes such values through and never looks inside the text.
\<close>

subsection \<open>Text\<close>

fun py_join :: "string \<Rightarrow> string list \<Rightarrow> string" where
  "py_join sep [] = []"
| "py_join sep [s] = s"
| "py_join sep (s # t # ss) = s @ sep @ py_join sep (t # ss)"

lemma py_join_single [simp]: "py_join sep [s] = s"
  by simp

lemma py_join_Cons: "ss \<noteq> [] \<Longrightarrow> py_join sep (s # ss) = s @ sep @ py_join sep ss"
  by (cases ss) simp_all

subsection \<open>JSON values\<close>

fun json_truth :: "json \<Rightarrow> bool" where
  "json_truth JNull = False"
| "json_truth (JBool b) = b"
| "json_truth (JInt i) = (i \<noteq> 0)"
| "json_truth (JFloat q) = (q \<noteq> 0)"
| "json_truth (JStr s) = (s \<noteq> [])"
| "json_truth (JList vs) = (vs \<noteq> [])"
| "json_truth (JObj d) = (d \<noteq> [])"

text \<open>\<^verbatim>\<open>d.get(key)\<close>: a missing key reads as \<^verbatim>\<open>None\<close>.\<close>

definition dict_get :: "pydict \<Rightarrow> string \<Rightarrow> json" where
  "dict_get d key = (case map_of d key of None \<Rightarrow> JNull | Some v \<Rightarrow> v)"

lemma dict_get_Nil [simp]: "dict_get [] key = JNull"
  by (simp add: dict_get_def)

lemma dict_get_Cons [simp]:
  "dict_get ((k, v) # d) key = (if key = k then v else dict_get d key)"
  by (simp add: dict_get_def)

fun json_obj :: "json \<Rightarrow> pydict option" where
  "json_obj (JObj d) = Some d"
| "json_obj _ = None"

fun json_list :: "json \<Rightarrow> json list option" where
  "json_list (JList vs) = Some vs"
| "json_list _ = None"

fun json_str :: "json \<Rightarrow> string option" where
  "json_str (JStr s) = Some s"
| "json_str _ = None"

fun py_str :: "(json \<Rightarrow> string) \<Rightarrow> json \<Rightarrow> string" where
  "py_str repr_of JNull = ''None''"
| "py_str repr_of (JBool b) = (if b then ''True'' else ''False'')"
| "py_str repr_of (JInt i) = py_str_int i"
| "py_str repr_of (JStr s) = s"
| "py_str repr_of v = repr_of v"

text \<open>
  The helper \<^verbatim>\<open>_string_tuple\<close>: nothing for \<^verbatim>\<open>None\<close>, one item for a string, the items
  of a list as text, nothing for anything else.
\<close>

fun string_tuple :: "(json \<Rightarrow> string) \<Rightarrow> json \<Rightarrow> string list" where
  "string_tuple repr_of JNull = []"
| "string_tuple repr_of (JStr s) = [s]"
| "string_tuple repr_of (JList vs) = map (py_str repr_of) vs"
| "string_tuple repr_of v = []"

lemma string_tuple_strs [simp]: "string_tuple repr_of (JList (map JStr ss)) = ss"
  by (induction ss) simp_all

subsection \<open>Durations\<close>

text \<open>\<^verbatim>\<open>round\<close> to the nearest integer, halves to the even one.\<close>

definition py_round :: "rat \<Rightarrow> int" where
  "py_round q =
     (let f = \<lfloor>q\<rfloor>; d = q - of_int f in
      if d < 1 / 2 then f
      else if d > 1 / 2 then f + 1
      else if even f then f else f + 1)"

lemma py_round_of_int [simp]: "py_round (of_int i) = i"
  by (simp add: py_round_def Let_def)

lemma py_round_near: "\<bar>of_int (py_round q) - q\<bar> \<le> 1 / 2"
  unfolding py_round_def Let_def
  using floor_correct [of q] by (auto simp: abs_le_iff)

definition timedelta_of_float :: "rat \<Rightarrow> time" where
  "timedelta_of_float seconds = py_round (seconds * 1000000)"

lemma timedelta_of_float_int: "timedelta_of_float (of_int n) = timedelta_seconds n"
proof -
  have "(of_int n :: rat) * 1000000 = of_int (n * 1000000)" by simp
  then show ?thesis unfolding timedelta_of_float_def timedelta_seconds_def by (simp only: py_round_of_int)
qed

definition total_seconds :: "time \<Rightarrow> rat" where
  "total_seconds t = of_int t / 1000000"

lemma merge_empty:
  fixes d :: "(string \<times> 'v) list"
  assumes "distinct (map fst d)"
  shows "dict_merge [] d = d"
proof -
  have "dict_merge a d = a @ d" if "distinct (map fst d)" "fst ` set a \<inter> fst ` set d = {}" for a :: "(string \<times> 'v) list"
    using that
  proof (induction d arbitrary: a)
    case (Cons kv d)
    obtain k v where kv: "kv = (k, v)" by force
    have "k \<notin> fst ` set a" using Cons.prems(2) kv by auto
    then have "dict_merge a (kv # d) = dict_merge (a @ [(k, v)]) d"
      by (simp add: dict_merge_def kv keys_update_new)
    also have "\<dots> = (a @ [(k, v)]) @ d" by (rule Cons.IH) (use Cons.prems kv in auto)
    finally show ?case by (simp add: kv)
  qed (simp add: dict_merge_def)
  with assms show ?thesis by simp
qed

section \<open>Time as text\<close>

text \<open>
  \<^verbatim>\<open>datetime.isoformat\<close> for the UTC instants that the control plane stores and
  publishes. An instant is a number of microseconds since the epoch; the calendar date is
  computed by the proleptic Gregorian rule, and the microseconds are printed only when they are
  not zero, as Python does.
\<close>

definition pad_digits :: "nat \<Rightarrow> int \<Rightarrow> string" where
  "pad_digits w n = (let s = py_str_int n in replicate (w - length s) (CHR ''0'') @ s)"

definition civil_date :: "int \<Rightarrow> int \<times> int \<times> int" where
  "civil_date days =
     (let z = days + 719468;
          era = z div 146097;
          doe = z mod 146097;
          yoe = (doe - doe div 1460 + doe div 36524 - doe div 146096) div 365;
          doy = doe - (365 * yoe + yoe div 4 - yoe div 100);
          mp = (5 * doy + 2) div 153;
          d = doy - (153 * mp + 2) div 5 + 1;
          m = (if mp < 10 then mp + 3 else mp - 9)
      in (yoe + era * 400 + (if m \<le> 2 then 1 else 0), m, d))"

definition py_isoformat :: "time \<Rightarrow> string" where
  "py_isoformat t =
     (let us = t mod 1000000;
          secs = t div 1000000;
          sod = secs mod 86400
      in case civil_date (secs div 86400) of (y, m, d) \<Rightarrow>
           pad_digits 4 y @ ''-'' @ pad_digits 2 m @ ''-'' @ pad_digits 2 d @ ''T'' @
           pad_digits 2 (sod div 3600) @ '':'' @ pad_digits 2 ((sod div 60) mod 60) @ '':'' @
           pad_digits 2 (sod mod 60) @
           (if us = 0 then [] else ''.'' @ pad_digits 6 us) @ ''+00:00'')"

lemma py_isoformat_epoch: "py_isoformat 0 = ''1970-01-01T00:00:00+00:00''"
  by code_simp

lemma py_isoformat_leap_day:
  "py_isoformat 1709210096000007 = ''2024-02-29T12:34:56.000007+00:00''"
  by code_simp

section \<open>Decimal numerals\<close>

text \<open>
  Decimal numerals: what \<^verbatim>\<open>str\<close> prints for a natural number, \<^verbatim>\<open>int\<close> reads back. The ids
  and the numbered keys of the code are built with them.
\<close>

definition is_digit :: "char \<Rightarrow> bool" where
  "is_digit c \<longleftrightarrow> (let n = of_char c :: nat in 48 \<le> n \<and> n \<le> 57)"

definition digits_value :: "string \<Rightarrow> nat" where
  "digits_value s = foldl (\<lambda>a c. 10 * a + (of_char c - 48)) 0 s"

lemma digits_value_nat [simp]: "digits_value (nat_digits n) = n"
proof (induction n rule: nat_digits.induct)
  case (1 n)
  show ?case
  proof (cases "n < 10")
    case True
    then show ?thesis by (subst nat_digits.simps) (simp add: digits_value_def)
  next
    case False
    then show ?thesis
      using 1 [OF False] by (subst nat_digits.simps) (simp add: digits_value_def)
  qed
qed

lemma nat_digits_eq [simp]: "nat_digits m = nat_digits n \<longleftrightarrow> m = n"
  by (metis digits_value_nat)

lemma nat_digits_nonempty [simp]: "nat_digits n \<noteq> []"
  by (subst nat_digits.simps) simp

lemma is_digit_char_of: "d < 10 \<Longrightarrow> is_digit (char_of (48 + d :: nat))"
  by (simp add: is_digit_def)

lemma nat_digits_last: "\<not> n < 10 \<Longrightarrow> nat_digits n = nat_digits (n div 10) @ [char_of (48 + n mod 10)]"
  by (subst nat_digits.simps) (rule if_not_P)

lemma nat_digits_one: "n < 10 \<Longrightarrow> nat_digits n = [char_of (48 + n)]"
  by (subst nat_digits.simps) (rule if_P)

lemma nat_digits_digits: "list_all is_digit (nat_digits n)"
proof (induction n rule: nat_digits.induct)
  case (1 n)
  show ?case
  proof (cases "n < 10")
    case True
    then show ?thesis unfolding nat_digits_one [OF True] by (simp add: is_digit_char_of)
  next
    case False
    have "is_digit (char_of (48 + n mod 10))" by (rule is_digit_char_of) simp
    with 1 [OF False] show ?thesis unfolding nat_digits_last [OF False]
      by (simp del: nat_digits.simps)
  qed
qed

lemma not_in_nat_digits: "\<not> is_digit c \<Longrightarrow> c \<notin> set (nat_digits n)"
  using nat_digits_digits [of n] by (auto simp: list_all_iff simp del: nat_digits.simps)

lemma not_digits [simp]: "\<not> is_digit (CHR ''.'')" "\<not> is_digit (CHR ''-'')" "\<not> is_digit (CHR 0x0A)"
  by (simp_all add: is_digit_def)

end
