(* ===== verification/Session_Store.thy ===== *)
theory Session_Store
  imports Models Py_Values
begin

text \<open>
  \<^verbatim>\<open>control/store.py\<close> and \<^verbatim>\<open>control/session_persistence.py\<close>: the two session
  stores. Both check the version of a session on every write and bump it. A stored session is a
  deep copy, so it is a value here, and the write returns the bumped session its caller keeps.

  The locale \<open>versioned_store\<close> is the contract of a store with optimistic concurrency; what a
  race of writers can do is proved once inside it. The in-memory store is an interpretation.
  The SQLite store keeps rows of columns and a JSON payload; the encoding is Pydantic's, so it
  is a parameter here, and the store is a functional refinement of the in-memory one whenever
  decoding inverts encoding.
\<close>

section \<open>The version check\<close>

definition assert_expected_version :: "runtime_session \<Rightarrow> runtime_session option \<Rightarrow> exn + unit" where
  "assert_expected_version s current =
     (case current of
        None \<Rightarrow> raise_when (rs_version s \<noteq> 0) SessionStoreConflictError
      | Some c \<Rightarrow> raise_when (rs_version c \<noteq> rs_version s) SessionStoreConflictError)"

definition stored_version :: "runtime_session option \<Rightarrow> nat" where
  "stored_version current = (case current of None \<Rightarrow> 0 | Some c \<Rightarrow> rs_version c)"

abbreviation bump :: "runtime_session \<Rightarrow> runtime_session" where
  "bump s \<equiv> s\<lparr>rs_version := rs_version s + 1\<rparr>"

lemma assert_expected_version_eq:
  "assert_expected_version s current =
     (if rs_version s = stored_version current then Inr () else Inl SessionStoreConflictError)"
  by (auto simp: assert_expected_version_def stored_version_def raise_when_def
      split: option.splits)

section \<open>The in-memory store\<close>

type_synonym memory_store = "(string \<times> runtime_session) list"

definition memory_put ::
    "runtime_session \<Rightarrow> memory_store \<Rightarrow> exn + (runtime_session \<times> memory_store)" where
  "memory_put s st =
     and_then (assert_expected_version s (map_of st (rs_id s))) (\<lambda>_.
       let s' = bump s in Inr (s', AList.update (rs_id s) s' st))"

definition memory_get :: "memory_store \<Rightarrow> string \<Rightarrow> runtime_session option" where
  "memory_get st session_id = map_of st session_id"

definition memory_delete :: "string \<Rightarrow> memory_store \<Rightarrow> memory_store" where
  "memory_delete session_id st = AList.delete session_id st"

definition memory_all_ids :: "memory_store \<Rightarrow> string list" where
  "memory_all_ids st = map fst st"

definition get_required :: "(string \<Rightarrow> exn) \<Rightarrow> memory_store \<Rightarrow> string \<Rightarrow> exn + runtime_session" where
  "get_required missing st session_id =
     (case memory_get st session_id of None \<Rightarrow> Inl (missing session_id) | Some s \<Rightarrow> Inr s)"

lemma memory_put_eq:
  "memory_put s st =
     (if rs_version s = stored_version (memory_get st (rs_id s))
      then Inr (bump s, AList.update (rs_id s) (bump s) st)
      else Inl SessionStoreConflictError)"
  by (simp add: memory_put_def memory_get_def assert_expected_version_eq Let_def)

lemma memory_put_InrD:
  assumes "memory_put s st = Inr (s', st')"
  shows "s' = bump s" "memory_get st' = (memory_get st)(rs_id s \<mapsto> s')"
    "rs_version s = stored_version (memory_get st (rs_id s))"
  using assms by (auto simp: memory_put_eq memory_get_def fun_eq_iff split: if_splits)

lemma memory_delete_get [simp]:
  "memory_get (memory_delete i st) = (memory_get st)(i := None)"
  by (simp add: memory_get_def memory_delete_def delete_conv' fun_eq_iff)

text \<open>
  The invariant of a store: each key holds the session of that id, with a version that some write
  has bumped.
\<close>

definition keyed :: "memory_store \<Rightarrow> bool" where
  "keyed st \<longleftrightarrow> distinct (map fst st) \<and> (\<forall>(k, s) \<in> set st. rs_id s = k \<and> 0 < rs_version s)"

lemma keyed_update: "keyed st \<Longrightarrow> 0 < rs_version s \<Longrightarrow> keyed (AList.update (rs_id s) s st)"
  by (auto simp: keyed_def distinct_update dest!: set_update_subset [THEN subsetD])

lemma keyed_put: "keyed st \<Longrightarrow> memory_put s st = Inr (s', st') \<Longrightarrow> keyed st'"
  using keyed_update [of st "bump s"] by (auto simp: memory_put_eq split: if_splits)

section \<open>The contract of a versioned store\<close>

text \<open>Writers that race: each writes the session it holds; a conflict leaves the store as it is.\<close>

fun accepted_puts ::
    "(runtime_session \<Rightarrow> 'st \<Rightarrow> exn + (runtime_session \<times> 'st)) \<Rightarrow> runtime_session list \<Rightarrow> 'st
     \<Rightarrow> runtime_session list \<times> 'st" where
  "accepted_puts put [] st = ([], st)"
| "accepted_puts put (s # ss) st =
     (case put s st of
        Inl _ \<Rightarrow> accepted_puts put ss st
      | Inr (_, st') \<Rightarrow> (case accepted_puts put ss st' of (acc, st'') \<Rightarrow> (s # acc, st'')))"

locale versioned_store =
  fixes get :: "'st \<Rightarrow> string \<Rightarrow> runtime_session option"
    and put :: "runtime_session \<Rightarrow> 'st \<Rightarrow> exn + (runtime_session \<times> 'st)"
  assumes put_stale:
      "rs_version s \<noteq> stored_version (get st (rs_id s)) \<Longrightarrow>
       put s st = Inl SessionStoreConflictError"
    and put_current:
      "rs_version s = stored_version (get st (rs_id s)) \<Longrightarrow>
       \<exists>st'. put s st = Inr (bump s, st') \<and> get st' = (get st)(rs_id s \<mapsto> bump s)"
begin

lemma put_InrD:
  assumes "put s st = Inr (s', st')"
  shows "s' = bump s" "get st' = (get st)(rs_id s \<mapsto> s')"
    "rs_version s = stored_version (get st (rs_id s))"
proof -
  show v: "rs_version s = stored_version (get st (rs_id s))"
    using assms put_stale [of s st] by fastforce
  show "s' = bump s" "get st' = (get st)(rs_id s \<mapsto> s')"
    using assms put_current [OF v] by auto
qed

lemma put_read: "put s st = Inr (s', st') \<Longrightarrow> get st' (rs_id s) = Some s'"
  using put_InrD [of s st s' st'] by simp

lemma put_frame: "put s st = Inr (s', st') \<Longrightarrow> i \<noteq> rs_id s \<Longrightarrow> get st' i = get st i"
  using put_InrD [of s st s' st'] by simp

lemma second_writer_conflicts:
  assumes "put s st = Inr (s', st')" "rs_id t = rs_id s" "rs_version t = rs_version s"
  shows "put t st' = Inl SessionStoreConflictError"
  using put_InrD [OF assms(1)] assms(2,3) by (intro put_stale) (simp add: stored_version_def)

lemma accepted_versions:
  "accepted_puts put ss st = (acc, st') \<Longrightarrow>
   map rs_version (filter (\<lambda>s. rs_id s = i) acc) =
     [stored_version (get st i) ..< stored_version (get st' i)] \<and>
   stored_version (get st i) \<le> stored_version (get st' i)"
proof (induction ss arbitrary: st acc)
  case (Cons s ss)
  show ?case
  proof (cases "put s st")
    case (Inl e)
    with Cons show ?thesis by simp
  next
    case (Inr r)
    obtain s' st1 where r: "r = (s', st1)" by force
    obtain acc1 where a: "accepted_puts put ss st1 = (acc1, st')" "acc = s # acc1"
      using Cons.prems Inr r by (auto split: prod.splits)
    note ih = Cons.IH [OF a(1)] and d = put_InrD [of s st s' st1]
    show ?thesis
      using ih d Inr r a by (cases "rs_id s = i") (auto simp: stored_version_def upt_rec Suc_le_eq)
  qed
qed simp

end

interpretation ms: versioned_store memory_get memory_put
  by unfold_locales (auto simp: memory_put_eq memory_get_def fun_eq_iff)

section \<open>The SQLite store\<close>

record 'p session_row =
  rw_id :: string
  rw_workflow_name :: string
  rw_workflow_version :: string
  rw_status :: string
  rw_updated_at :: string
  rw_payload :: 'p

fun session_status_value :: "session_status \<Rightarrow> string" where
  "session_status_value Session_QUEUED = ''queued''"
| "session_status_value Session_RUNNING = ''running''"
| "session_status_value Session_WAITING_GATE = ''waiting_gate''"
| "session_status_value Session_RESUMING = ''resuming''"
| "session_status_value Session_COMPLETED = ''completed''"
| "session_status_value Session_FAILED = ''failed''"
| "session_status_value Session_CANCELLED = ''cancelled''"

definition session_row :: "(runtime_session \<Rightarrow> 'p) \<Rightarrow> runtime_session \<Rightarrow> 'p session_row" where
  "session_row dump s =
     \<lparr>rw_id = rs_id s, rw_workflow_name = rs_workflow_name s,
      rw_workflow_version = rs_workflow_version s,
      rw_status = session_status_value (rs_status s),
      rw_updated_at = py_isoformat (rs_updated_at s), rw_payload = dump s\<rparr>"

definition select_row :: "string \<Rightarrow> 'p session_row list \<Rightarrow> 'p session_row option" where
  "select_row session_id rows = List.find (\<lambda>r. rw_id r = session_id) rows"

definition sqlite_get ::
    "('p \<Rightarrow> runtime_session option) \<Rightarrow> 'p session_row list \<Rightarrow> string \<Rightarrow> exn + runtime_session option"
  where
  "sqlite_get load rows session_id =
     (case select_row session_id rows of
        None \<Rightarrow> Inr None
      | Some r \<Rightarrow> (case load (rw_payload r) of None \<Rightarrow> Inl ValidationError | Some s \<Rightarrow> Inr (Some s)))"

text \<open>\<^verbatim>\<open>insert ... on conflict(id) do update\<close>.\<close>

definition upsert_row :: "'p session_row \<Rightarrow> 'p session_row list \<Rightarrow> 'p session_row list" where
  "upsert_row row rows =
     (if select_row (rw_id row) rows = None then rows @ [row]
      else update_first (\<lambda>r. rw_id r = rw_id row) (\<lambda>_. row) rows)"

definition sqlite_put ::
    "(runtime_session \<Rightarrow> 'p) \<Rightarrow> ('p \<Rightarrow> runtime_session option) \<Rightarrow> runtime_session \<Rightarrow>
     'p session_row list \<Rightarrow> exn + (runtime_session \<times> 'p session_row list)" where
  "sqlite_put dump load s rows =
     and_then (sqlite_get load rows (rs_id s)) (\<lambda>current.
     and_then (assert_expected_version s current) (\<lambda>_.
       let s' = bump s in Inr (s', upsert_row (session_row dump s') rows)))"

definition sqlite_delete :: "string \<Rightarrow> 'p session_row list \<Rightarrow> 'p session_row list" where
  "sqlite_delete session_id rows = filter (\<lambda>r. rw_id r \<noteq> session_id) rows"

text \<open>\<^verbatim>\<open>order by updated_at, id\<close> is the stable sort by the last key first.\<close>

definition sqlite_all_ids :: "'p session_row list \<Rightarrow> string list" where
  "sqlite_all_ids rows = map rw_id (sort_key rw_updated_at (sort_key rw_id rows))"

section \<open>The SQLite store refines the in-memory store\<close>

definition table_of :: "(runtime_session \<Rightarrow> 'p) \<Rightarrow> memory_store \<Rightarrow> 'p session_row list" where
  "table_of dump st = map (\<lambda>(k, s). session_row dump s) st"

lemma session_row_fields [simp]:
  "rw_id (session_row dump s) = rs_id s" "rw_payload (session_row dump s) = dump s"
  by (simp_all add: session_row_def)

lemma select_row_table_of:
  "keyed st \<Longrightarrow> select_row i (table_of dump st) = map_option (session_row dump) (map_of st i)"
  by (induction st) (auto simp: select_row_def table_of_def keyed_def)

lemma sqlite_get_refines:
  assumes "\<And>s. load (dump s) = Some s" "keyed st"
  shows "sqlite_get load (table_of dump st) i = Inr (memory_get st i)"
  using assms by (simp add: sqlite_get_def select_row_table_of memory_get_def split: option.splits)

lemma upsert_row_refines:
  assumes "keyed st"
  shows "upsert_row (session_row dump s) (table_of dump st) =
         table_of dump (AList.update (rs_id s) s st)"
proof -
  have "map_of st (rs_id s) = None \<Longrightarrow>
      table_of dump st @ [session_row dump s] = table_of dump (AList.update (rs_id s) s st)"
    by (simp add: keys_update_new map_of_eq_None_iff table_of_def)
  moreover have "update_first (\<lambda>r. rw_id r = rs_id s) (\<lambda>_. session_row dump s) (table_of dump st) =
      table_of dump (AList.update (rs_id s) s st)" if "map_of st (rs_id s) \<noteq> None"
    using that assms by (induction st) (force simp: table_of_def keyed_def split: if_splits)+
  ultimately show ?thesis
    using assms by (auto simp: upsert_row_def select_row_table_of)
qed

lemma sqlite_put_refines:
  assumes "\<And>s. load (dump s) = Some s" "keyed st"
  shows "sqlite_put dump load s (table_of dump st) =
         (case memory_put s st of
            Inl e \<Rightarrow> Inl e
          | Inr (s', st') \<Rightarrow> Inr (s', table_of dump st'))"
  using assms upsert_row_refines [OF assms(2), of dump "bump s"]
  by (simp add: sqlite_put_def sqlite_get_refines memory_put_def memory_get_def
      assert_expected_version_eq Let_def)

lemma sqlite_delete_refines:
  "keyed st \<Longrightarrow> sqlite_delete i (table_of dump st) = table_of dump (memory_delete i st)"
  by (induction st) (auto simp: sqlite_delete_def table_of_def memory_delete_def keyed_def)

end
