(* ===== verification/Redaction.thy ===== *)
theory Redaction
  imports Hydra_Prelude
begin

text \<open>
  \<^verbatim>\<open>observability/redaction.py\<close>: the redaction of JSON-like values that the control
  layer applies to tool arguments before it stores them, and the bounded previews of text. The
  predicate \<open>trace_safe\<close> says what a redacted value may hold; the values it accepts are
  exactly the fixed points of the redaction.
\<close>

definition SECRET_KEY_PARTS :: "string list" where
  "SECRET_KEY_PARTS =
     [''api_key'', ''apikey'', ''authorization'', ''password'', ''secret'', ''token'']"

definition py_contains :: "string \<Rightarrow> string \<Rightarrow> bool" where
  "py_contains part s \<longleftrightarrow>
     list_ex (\<lambda>i. take (length part) (drop i s) = part) [0 ..< length s + 1]"

definition py_startswith :: "string \<Rightarrow> string \<Rightarrow> bool" where
  "py_startswith s prefix \<longleftrightarrow> take (length prefix) s = prefix"

definition secret_key :: "string \<Rightarrow> bool" where
  "secret_key key \<longleftrightarrow> list_ex (\<lambda>part. py_contains part (py_lower key)) SECRET_KEY_PARTS"

definition ascii_alnum :: "char \<Rightarrow> bool" where
  "ascii_alnum c \<longleftrightarrow> (let n = of_char c :: nat in
     (48 \<le> n \<and> n \<le> 57) \<or> (65 \<le> n \<and> n \<le> 90) \<or> (97 \<le> n \<and> n \<le> 122))"

text \<open>
  \<^verbatim>\<open>_LONG_TOKEN_RE.fullmatch\<close>: 96 or more characters of the token class, and a word
  boundary at both ends, so the first and the last are word characters of that class.
\<close>

definition token_char :: "char \<Rightarrow> bool" where
  "token_char c \<longleftrightarrow> ascii_alnum c \<or> c \<in> set ''._~+/=-''"

definition word_char :: "char \<Rightarrow> bool" where
  "word_char c \<longleftrightarrow> ascii_alnum c \<or> c = CHR ''_''"

definition looks_like_large_payload :: "string \<Rightarrow> bool" where
  "looks_like_large_payload v \<longleftrightarrow> 96 \<le> length v \<and> list_all token_char v \<and>
     word_char (hd v) \<and> word_char (last v)"

definition redact_str :: "string \<Rightarrow> string" where
  "redact_str v =
     (if py_startswith v ''http://'' \<or> py_startswith v ''https://'' then ''<redacted-url>''
      else if looks_like_large_payload v then ''<redacted-payload>''
      else v)"

fun redact_value :: "json \<Rightarrow> json"
  and redact_list :: "json list \<Rightarrow> json list"
  and redact_items :: "(string \<times> json) list \<Rightarrow> (string \<times> json) list" where
  "redact_value (JObj items) = JObj (redact_items items)"
| "redact_value (JStr v) = JStr (redact_str v)"
| "redact_value (JList vs) = JList (redact_list vs)"
| "redact_value JNull = JNull"
| "redact_value (JBool b) = JBool b"
| "redact_value (JInt i) = JInt i"
| "redact_value (JFloat q) = JFloat q"
| "redact_list [] = []"
| "redact_list (v # vs) = redact_value v # redact_list vs"
| "redact_items [] = []"
| "redact_items ((key, item) # items) =
     (key, if secret_key key then JStr ''<redacted>'' else redact_value item) # redact_items items"

definition compact_text :: "string option \<Rightarrow> nat \<Rightarrow> string" where
  "compact_text value limit =
     (case value of
        None \<Rightarrow> []
      | Some v \<Rightarrow>
          if v = [] then []
          else let t = py_strip (map (\<lambda>c. if c = CHR 0x0A then CHR '' '' else c) v)
               in if length t \<le> limit then t else take (limit - 3) t @ ''...'')"

section \<open>What a redacted value can hold\<close>

fun trace_safe :: "json \<Rightarrow> bool"
  and trace_safe_list :: "json list \<Rightarrow> bool"
  and trace_safe_items :: "(string \<times> json) list \<Rightarrow> bool" where
  "trace_safe (JObj items) = trace_safe_items items"
| "trace_safe (JStr v) = (\<not> py_startswith v ''http://'' \<and> \<not> py_startswith v ''https://'' \<and>
     \<not> looks_like_large_payload v)"
| "trace_safe (JList vs) = trace_safe_list vs"
| "trace_safe JNull = True"
| "trace_safe (JBool b) = True"
| "trace_safe (JInt i) = True"
| "trace_safe (JFloat q) = True"
| "trace_safe_list [] = True"
| "trace_safe_list (v # vs) = (trace_safe v \<and> trace_safe_list vs)"
| "trace_safe_items [] = True"
| "trace_safe_items ((key, item) # items) =
     ((if secret_key key then item = JStr ''<redacted>'' else trace_safe item) \<and>
      trace_safe_items items)"

lemma redact_str_cases:
  "redact_str v \<in> {''<redacted-url>'', ''<redacted-payload>'', v}"
  by (simp add: redact_str_def)

lemma redacted_markers:
  "\<not> looks_like_large_payload ''<redacted-url>''"
  "\<not> looks_like_large_payload ''<redacted-payload>''"
  "\<not> py_startswith ''<redacted-url>'' ''http://''"
  "\<not> py_startswith ''<redacted-url>'' ''https://''"
  "\<not> py_startswith ''<redacted-payload>'' ''http://''"
  "\<not> py_startswith ''<redacted-payload>'' ''https://''"
  by (simp_all add: looks_like_large_payload_def py_startswith_def)

lemma redact_trace_safe_all:
  "trace_safe (redact_value v)"
  "trace_safe_list (redact_list vs)"
  "trace_safe_items (redact_items items)"
proof (induction v and vs and items rule: redact_value_redact_list_redact_items.induct)
  case (2 v)
  then show ?case by (simp add: redact_str_def redacted_markers)
qed auto

lemma redact_safe_id_all:
  "trace_safe v \<Longrightarrow> redact_value v = v"
  "trace_safe_list vs \<Longrightarrow> redact_list vs = vs"
  "trace_safe_items items \<Longrightarrow> redact_items items = items"
  by (induction v and vs and items rule: redact_value_redact_list_redact_items.induct)
     (auto simp: redact_str_def split: if_splits)

lemma redact_idem [simp]: "redact_value (redact_value v) = redact_value v"
  by (rule redact_safe_id_all(1) [OF redact_trace_safe_all(1)])

lemma compact_text_bound:
  "3 \<le> limit \<Longrightarrow> length (compact_text v limit) \<le> limit"
  by (auto simp: compact_text_def Let_def split: option.splits)

end
