(* ===== verification/Lease_Contract.thy ===== *)
theory Lease_Contract
  imports Hydra_Prelude
begin

text \<open>
  The contract of a lease: a record with a token, an owner and an expiry that one worker holds
  at a time. Node executions (\<^verbatim>\<open>control/session_execution.py\<close>) and turns
  (\<^verbatim>\<open>control/interaction_turn_lease.py\<close>) both implement it and both interpret this
  locale; mutual exclusion, fencing of stale tokens and takeover after expiry are proved here
  once.
\<close>

locale lease =
  fixes token owner :: "'r \<Rightarrow> string option"
    and expires :: "'r \<Rightarrow> time option"
    and active :: "'r \<Rightarrow> bool"
    and live :: "'r \<Rightarrow> time \<Rightarrow> bool"
    and grant :: "string \<Rightarrow> int \<Rightarrow> string option \<Rightarrow> string \<Rightarrow> time \<Rightarrow> 'r \<Rightarrow> exn + 'r"
    and check :: "'r \<Rightarrow> string \<Rightarrow> time \<Rightarrow> bool \<Rightarrow> exn + unit"
    and beat :: "string \<Rightarrow> int \<Rightarrow> time \<Rightarrow> 'r \<Rightarrow> exn + 'r"
    and release :: "string \<Rightarrow> time \<Rightarrow> 'r \<Rightarrow> exn + 'r"
  assumes live_iff:
      "live r t \<longleftrightarrow> truthy (token r) \<and> truthy (owner r) \<and> (\<exists>e. expires r = Some e \<and> t < e)"
    and grant_iff:
      "(\<exists>r'. grant ow ttl tok fresh now r = Inr r') \<longleftrightarrow>
         active r \<and> py_strip ow \<noteq> [] \<and> \<not> live r now \<and>
         py_strip (if truthy tok then the tok else fresh) \<noteq> [] \<and> 0 < ttl"
    and grant_result:
      "grant ow ttl tok fresh now r = Inr r' \<Longrightarrow>
         token r' = Some (if truthy tok then the tok else fresh) \<and>
         owner r' = Some (py_strip ow) \<and> expires r' = Some (now + timedelta_seconds ttl) \<and>
         active r'"
    and check_iff:
      "check r k t allow_expired = Inr u \<longleftrightarrow>
         py_strip k \<noteq> [] \<and> truthy (owner r) \<and> token r = Some (py_strip k) \<and> active r \<and>
         (allow_expired \<or> live r t)"
    and beat_iff:
      "(\<exists>r'. beat k ttl now r = Inr r') \<longleftrightarrow> check r k now False = Inr () \<and> 0 < ttl"
    and beat_result:
      "beat k ttl now r = Inr r' \<Longrightarrow>
         token r' = token r \<and> owner r' = owner r \<and>
         expires r' = Some (now + timedelta_seconds ttl) \<and> active r' = active r"
    and release_iff:
      "(\<exists>r'. release k now r = Inr r') \<longleftrightarrow> check r k now True = Inr ()"
    and release_result:
      "release k now r = Inr r' \<Longrightarrow> token r' = None \<and> owner r' = None \<and> expires r' = None"
begin

lemma granted:
  assumes "grant ow ttl tok fresh now r = Inr r'"
  shows "token r' = Some (if truthy tok then the tok else fresh)" "owner r' = Some (py_strip ow)"
    "expires r' = Some (now + timedelta_seconds ttl)" "active r'" "active r" "\<not> live r now"
    "py_strip ow \<noteq> []" "py_strip (if truthy tok then the tok else fresh) \<noteq> []" "0 < ttl"
  using assms grant_result [OF assms] grant_iff [of ow ttl tok fresh now r] by auto

lemma granted_live:
  assumes "grant ow ttl tok fresh now r = Inr r'"
  shows "live r' t \<longleftrightarrow> t < now + timedelta_seconds ttl"
proof -
  have "truthy (token r')"
    using granted(1,8) [OF assms] by (auto simp: py_strip_def py_rstrip_def py_lstrip_def)
  then show ?thesis
    using granted [OF assms] by (simp add: live_iff)
qed

text \<open>Mutual exclusion: nobody is granted the lease again before it expires.\<close>

lemma exclusive:
  assumes "grant ow ttl tok fresh now r = Inr r'" "t < now + timedelta_seconds ttl"
  shows "\<exists>e. grant ow2 ttl2 tok2 fresh2 t r' = Inl e"
  using assms granted_live [OF assms(1)] grant_iff [of ow2 ttl2 tok2 fresh2 t r']
  by (cases "grant ow2 ttl2 tok2 fresh2 t r'") auto

text \<open>The holder of a token without surrounding white space can use it until it expires.\<close>

lemma holder_can_check:
  assumes "grant ow ttl tok fresh now r = Inr r'" "token r' = Some k" "py_strip k = k"
  shows "check r' k t allow_expired = Inr () \<longleftrightarrow> allow_expired \<or> t < now + timedelta_seconds ttl"
  using granted [OF assms(1)] assms(2,3) granted_live [OF assms(1)]
  by (auto simp: check_iff)

lemma only_holder_can_check:
  assumes "grant ow ttl tok fresh now r = Inr r'" "check r' k t allow_expired = Inr ()"
  shows "token r' = Some (py_strip k)"
  using assms(2) by (simp add: check_iff)

text \<open>
  A token with white space at an edge is stored as it is but compared stripped, so no token ever
  passes the check: neither a heartbeat nor a release can succeed.
\<close>

lemma padded_token_unusable:
  assumes "grant ow ttl (Some tok) fresh now r = Inr r'" "tok \<noteq> []" "py_strip tok \<noteq> tok"
  shows "\<exists>e. check r' k t allow_expired = Inl e"
    "\<exists>e. beat k ttl2 t r' = Inl e" "\<exists>e. release k t r' = Inl e"
proof -
  have t: "token r' = Some tok"
    using granted(1) [OF assms(1)] assms(2) by simp
  have "tok \<noteq> py_strip k"
    using assms(3) by auto
  then have c: "check r' k t allow \<noteq> Inr u" for allow u
    using t by (simp add: check_iff)
  show "\<exists>e. check r' k t allow_expired = Inl e"
    using c by (cases "check r' k t allow_expired") auto
  show "\<exists>e. beat k ttl2 t r' = Inl e"
    using c beat_iff [of k ttl2 t r'] by (cases "beat k ttl2 t r'") auto
  show "\<exists>e. release k t r' = Inl e"
    using c release_iff [of k t r'] by (cases "release k t r'") auto
qed

text \<open>Takeover: after the expiry another worker gets the lease and the old token is fenced off.\<close>

lemma takeover:
  assumes "grant ow ttl tok fresh now r = Inr r'" "now + timedelta_seconds ttl \<le> t"
    "py_strip ow2 \<noteq> []" "py_strip k2 \<noteq> []" "0 < ttl2"
  shows "\<exists>r2. grant ow2 ttl2 (Some k2) fresh2 t r' = Inr r2 \<and>
    (\<forall>k t' allow. py_strip k \<noteq> k2 \<longrightarrow> (\<exists>e. check r2 k t' allow = Inl e))"
proof -
  have k2: "k2 \<noteq> []"
    using assms(4) by (auto simp: py_strip_def py_rstrip_def py_lstrip_def)
  then obtain r2 where g: "grant ow2 ttl2 (Some k2) fresh2 t r' = Inr r2"
    using grant_iff [of ow2 ttl2 "Some k2" fresh2 t r'] granted [OF assms(1)] granted_live [OF assms(1)]
      assms by auto
  have "check r2 k t' allow \<noteq> Inr u" if "py_strip k \<noteq> k2" for k t' allow u
    using granted(1) [OF g] that k2 by (simp add: check_iff)
  then have "\<exists>e. check r2 k t' allow = Inl e" if "py_strip k \<noteq> k2" for k t' allow
    using that by (cases "check r2 k t' allow") auto
  with g show ?thesis by blast
qed

text \<open>Heartbeats keep the owner and move the expiry, so exclusion extends with them.\<close>

lemma beat_extends:
  assumes "beat k ttl t r = Inr r'"
  shows "owner r' = owner r" "live r' t' \<longleftrightarrow> t' < t + timedelta_seconds ttl" "live r t"
proof -
  have c: "check r k t False = Inr ()" and "0 < ttl"
    using assms beat_iff [of k ttl t r] by auto
  then show "live r t" by (simp add: check_iff)
  then show "live r' t' \<longleftrightarrow> t' < t + timedelta_seconds ttl"
    using beat_result [OF assms] by (simp add: live_iff)
  show "owner r' = owner r"
    using beat_result [OF assms] by simp
qed

lemma released_not_live: "release k t r = Inr r' \<Longrightarrow> \<not> live r' t'"
  using release_result [of k t r r'] by (simp add: live_iff)

end

end
