(* ===== verification/Session_Execution.thy ===== *)
theory Session_Execution
  imports Models Redaction Lease_Contract
begin

text \<open>
  \<^verbatim>\<open>control/session_execution.py\<close>: the bookkeeping of node executions, their tool calls
  and their leases. The source finds an attempt and its node by id and changes both in place;
  here \<open>find_attempt_by_id\<close> returns them and \<open>store_attempt\<close> writes the attempt back at the
  same position with the time stamps of the node and the session.
\<close>

section \<open>Finding an attempt and writing it back\<close>

definition has_attempt :: "string \<Rightarrow> node_state \<Rightarrow> bool" where
  "has_attempt execution_id n \<longleftrightarrow> list_ex (\<lambda>a. na_id a = execution_id) (ns_attempts n)"

definition find_attempt_by_id ::
    "runtime_session \<Rightarrow> string \<Rightarrow> exn + (node_attempt \<times> node_state)" where
  "find_attempt_by_id s execution_id =
     (case List.find (\<lambda>(k, n). has_attempt execution_id n) (rs_nodes s) of
        None \<Rightarrow> Inl (ExecutionLeaseError ExecutionNotFound)
      | Some (k, n) \<Rightarrow>
          (case List.find (\<lambda>a. na_id a = execution_id) (ns_attempts n) of
             None \<Rightarrow> Inl (ExecutionLeaseError ExecutionNotFound)
           | Some a \<Rightarrow> Inr (a, n)))"

definition store_attempt ::
    "string \<Rightarrow> node_attempt \<Rightarrow> time \<Rightarrow> runtime_session \<Rightarrow> runtime_session" where
  "store_attempt execution_id a now s =
     s\<lparr>rs_nodes := update_first (\<lambda>(k, n). has_attempt execution_id n)
         (\<lambda>(k, n). (k, n\<lparr>ns_attempts :=
              update_first (\<lambda>b. na_id b = execution_id) (\<lambda>_. a) (ns_attempts n),
            ns_updated_at := now\<rparr>)) (rs_nodes s),
       rs_updated_at := now\<rparr>"

definition find_tool_execution :: "node_attempt \<Rightarrow> string \<Rightarrow> tool_execution option" where
  "find_tool_execution a tool_call_id =
     List.find (\<lambda>t. te_tool_call_id t = tool_call_id) (na_tool_executions a)"

section \<open>Tool executions\<close>

definition redacted_arguments :: "pydict option \<Rightarrow> pydict" where
  "redacted_arguments arguments =
     (case redact_value (JObj (case arguments of None \<Rightarrow> [] | Some d \<Rightarrow> d)) of
        JObj d \<Rightarrow> d
      | v \<Rightarrow> [(''value'', v)])"

definition record_tool_execution_started ::
    "string \<Rightarrow> string \<Rightarrow> string \<Rightarrow> string \<Rightarrow> int \<Rightarrow> pydict option \<Rightarrow> string option \<Rightarrow>
     pydict option \<Rightarrow> time \<Rightarrow> runtime_session \<Rightarrow> exn + (tool_execution \<times> runtime_session)" where
  "record_tool_execution_started fresh_id execution_id tool_call_id tool_name round_no arguments
       trace_id metadata now s =
     and_then (find_attempt_by_id s execution_id) (\<lambda>(a, n).
       let redacted = redacted_arguments arguments;
           trace = (if truthy trace_id then trace_id else na_trace_id a)
       in case find_tool_execution a tool_call_id of
            None \<Rightarrow>
              let t = \<lparr>te_id = fresh_id, te_node_key = na_node_key a, te_execution_id = na_id a,
                        te_trace_id = trace, te_tool_call_id = tool_call_id,
                        te_tool_name = tool_name, te_round_no = round_no,
                        te_status = Tool_STARTED, te_arguments = redacted,
                        te_result_preview = [], te_is_error = None, te_content_length = None,
                        te_error = None, te_started_at = now, te_finished_at = None,
                        te_metadata = (case metadata of None \<Rightarrow> [] | Some d \<Rightarrow> d)\<rparr>
              in Inr (t, store_attempt execution_id
                    (a\<lparr>na_tool_executions := na_tool_executions a @ [t]\<rparr>) now s)
          | Some t0 \<Rightarrow>
              let t = t0\<lparr>te_tool_name := tool_name, te_round_no := round_no,
                         te_arguments := redacted, te_trace_id := trace,
                         te_metadata := (case metadata of None \<Rightarrow> te_metadata t0
                           | Some d \<Rightarrow> if d = [] then te_metadata t0
                                       else dict_merge (te_metadata t0) d)\<rparr>
              in Inr (t, store_attempt execution_id
                    (a\<lparr>na_tool_executions :=
                        update_first (\<lambda>x. te_tool_call_id x = tool_call_id) (\<lambda>_. t)
                          (na_tool_executions a)\<rparr>) now s))"

definition record_tool_execution_completed ::
    "string \<Rightarrow> string \<Rightarrow> bool \<Rightarrow> pydict option \<Rightarrow> int option \<Rightarrow> string option \<Rightarrow> time \<Rightarrow>
     runtime_session \<Rightarrow> exn + (tool_execution \<times> runtime_session)" where
  "record_tool_execution_completed execution_id tool_call_id is_error result_preview
       content_length err now s =
     and_then (find_attempt_by_id s execution_id) (\<lambda>(a, n).
       case find_tool_execution a tool_call_id of
         None \<Rightarrow> Inl (ExecutionLeaseError ToolCallNotFound)
       | Some t0 \<Rightarrow>
           let t = t0\<lparr>te_status := (if is_error then Tool_FAILED else Tool_SUCCEEDED),
                      te_is_error := Some is_error,
                      te_result_preview := (case result_preview of None \<Rightarrow> [] | Some d \<Rightarrow> d),
                      te_content_length := content_length, te_error := err,
                      te_finished_at := Some now\<rparr>
           in Inr (t, store_attempt execution_id
                 (a\<lparr>na_tool_executions :=
                     update_first (\<lambda>x. te_tool_call_id x = tool_call_id) (\<lambda>_. t)
                       (na_tool_executions a)\<rparr>) now s))"

section \<open>Leases\<close>

definition lease_ttl :: "int \<Rightarrow> exn + time" where
  "lease_ttl ttl_seconds =
     and_then (raise_when (ttl_seconds \<le> 0) (ExecutionLeaseError TtlNotPositive)) (\<lambda>_.
       Inr (timedelta_seconds ttl_seconds))"

definition is_execution_lease_live :: "node_attempt \<Rightarrow> time \<Rightarrow> bool" where
  "is_execution_lease_live a as_of =
     (if \<not> truthy (na_lease_token a) \<or> \<not> truthy (na_lease_owner a) then False
      else case na_lease_expires_at a of None \<Rightarrow> False | Some e \<Rightarrow> as_of < e)"

definition has_execution_lease_metadata :: "node_attempt \<Rightarrow> bool" where
  "has_execution_lease_metadata a \<longleftrightarrow>
     truthy (na_lease_token a) \<or> truthy (na_lease_owner a) \<or> na_lease_expires_at a \<noteq> None"

definition clear_execution_lease :: "node_attempt \<Rightarrow> node_attempt" where
  "clear_execution_lease a = a\<lparr>na_lease_token := None, na_lease_owner := None,
     na_last_heartbeat_at := None, na_lease_expires_at := None\<rparr>"

definition clear_session_execution_leases :: "runtime_session \<Rightarrow> runtime_session" where
  "clear_session_execution_leases s =
     s\<lparr>rs_nodes := map (\<lambda>(k, n). (k, n\<lparr>ns_attempts := map clear_execution_lease (ns_attempts n)\<rparr>))
       (rs_nodes s)\<rparr>"

text \<open>The part of \<^verbatim>\<open>grant_execution_lease\<close> after the attempt is found.\<close>

definition grant_attempt_lease ::
    "string \<Rightarrow> int \<Rightarrow> string option \<Rightarrow> string \<Rightarrow> time \<Rightarrow> node_attempt \<Rightarrow> exn + node_attempt" where
  "grant_attempt_lease owner ttl_seconds lease_token fresh now a =
     and_then (raise_when (na_status a \<noteq> Attempt_RUNNING) (ExecutionLeaseError NotRunning)) (\<lambda>_.
     and_then (raise_when (py_strip owner = []) (ExecutionLeaseError OwnerEmpty)) (\<lambda>_.
     and_then (raise_when (is_execution_lease_live a now) (ExecutionLeaseError AlreadyLeased)) (\<lambda>_.
       let token = (if truthy lease_token then the lease_token else fresh) in
     and_then (raise_when (py_strip token = []) (ExecutionLeaseError TokenEmpty)) (\<lambda>_.
     and_then (lease_ttl ttl_seconds) (\<lambda>ttl.
       Inr (a\<lparr>na_lease_token := Some token, na_lease_owner := Some (py_strip owner),
              na_last_heartbeat_at := Some now, na_lease_expires_at := Some (now + ttl)\<rparr>))))))"

definition grant_execution_lease ::
    "string \<Rightarrow> string \<Rightarrow> string \<Rightarrow> int \<Rightarrow> string option \<Rightarrow> string \<Rightarrow> time \<Rightarrow> runtime_session \<Rightarrow>
     exn + (node_attempt \<times> runtime_session)" where
  "grant_execution_lease node_key execution_id owner ttl_seconds lease_token fresh now s =
     and_then (find_attempt_by_id s execution_id) (\<lambda>(a, n).
     and_then (raise_when (na_node_key a \<noteq> node_key) (ExecutionLeaseError BelongsToOtherNode)) (\<lambda>_.
     and_then (grant_attempt_lease owner ttl_seconds lease_token fresh now a) (\<lambda>a'.
       Inr (a', store_attempt execution_id a' now s))))"

definition assert_execution_lease :: "node_attempt \<Rightarrow> string \<Rightarrow> time \<Rightarrow> bool \<Rightarrow> exn + unit" where
  "assert_execution_lease a lease_token as_of allow_expired =
     (let token = py_strip lease_token in
     and_then (raise_when (token = []) (ExecutionLeaseError TokenEmpty)) (\<lambda>_.
     and_then (raise_when (\<not> truthy (na_lease_token a) \<or> \<not> truthy (na_lease_owner a))
       (ExecutionLeaseError NoActiveLease)) (\<lambda>_.
     and_then (raise_when (na_lease_token a \<noteq> Some token) (ExecutionLeaseError TokenMismatch)) (\<lambda>_.
     and_then (raise_when (na_status a \<noteq> Attempt_RUNNING) (ExecutionLeaseError NotRunning)) (\<lambda>_.
       raise_when (\<not> allow_expired \<and> \<not> is_execution_lease_live a as_of)
         (ExecutionLeaseError LeaseExpired))))))"

definition heartbeat_attempt_lease ::
    "string \<Rightarrow> int \<Rightarrow> time \<Rightarrow> node_attempt \<Rightarrow> exn + node_attempt" where
  "heartbeat_attempt_lease lease_token ttl_seconds now a =
     and_then (assert_execution_lease a lease_token now False) (\<lambda>_.
     and_then (lease_ttl ttl_seconds) (\<lambda>ttl.
       Inr (a\<lparr>na_last_heartbeat_at := Some now, na_lease_expires_at := Some (now + ttl)\<rparr>)))"

definition heartbeat_execution_lease ::
    "string \<Rightarrow> string \<Rightarrow> int \<Rightarrow> time \<Rightarrow> runtime_session \<Rightarrow> exn + (node_attempt \<times> runtime_session)" where
  "heartbeat_execution_lease execution_id lease_token ttl_seconds now s =
     and_then (find_attempt_by_id s execution_id) (\<lambda>(a, n).
     and_then (heartbeat_attempt_lease lease_token ttl_seconds now a) (\<lambda>a'.
       Inr (a', store_attempt execution_id a' now s)))"

definition release_attempt_lease :: "string \<Rightarrow> time \<Rightarrow> node_attempt \<Rightarrow> exn + node_attempt" where
  "release_attempt_lease lease_token now a =
     and_then (assert_execution_lease a lease_token now True) (\<lambda>_. Inr (clear_execution_lease a))"

definition release_execution_lease ::
    "string \<Rightarrow> string \<Rightarrow> time \<Rightarrow> runtime_session \<Rightarrow>
     exn + (node_attempt \<times> string option \<times> runtime_session)" where
  "release_execution_lease execution_id lease_token now s =
     and_then (find_attempt_by_id s execution_id) (\<lambda>(a, n).
     and_then (release_attempt_lease lease_token now a) (\<lambda>a'.
       Inr (a', na_lease_owner a, store_attempt execution_id a' now s)))"

section \<open>The execution lease is a lease\<close>

lemma is_execution_lease_live_iff:
  "is_execution_lease_live a t \<longleftrightarrow> truthy (na_lease_token a) \<and> truthy (na_lease_owner a) \<and>
     (\<exists>e. na_lease_expires_at a = Some e \<and> t < e)"
  by (auto simp: is_execution_lease_live_def split: option.splits)

lemma lease_ttl_eq_Inr [simp]:
  "lease_ttl n = Inr d \<longleftrightarrow> 0 < n \<and> d = timedelta_seconds n"
  by (auto simp: lease_ttl_def raise_when_def)

lemma assert_execution_lease_Inr:
  "assert_execution_lease a tok t allow = Inr u \<longleftrightarrow>
     py_strip tok \<noteq> [] \<and> truthy (na_lease_owner a) \<and> na_lease_token a = Some (py_strip tok) \<and>
     na_status a = Attempt_RUNNING \<and> (allow \<or> is_execution_lease_live a t)"
  by (auto simp: assert_execution_lease_def Let_def)

lemma grant_attempt_lease_Inr:
  "grant_attempt_lease ow ttl tok fresh now a = Inr a' \<longleftrightarrow>
     na_status a = Attempt_RUNNING \<and> py_strip ow \<noteq> [] \<and> \<not> is_execution_lease_live a now \<and>
     py_strip (if truthy tok then the tok else fresh) \<noteq> [] \<and> 0 < ttl \<and>
     a' = a\<lparr>na_lease_token := Some (if truthy tok then the tok else fresh),
            na_lease_owner := Some (py_strip ow), na_last_heartbeat_at := Some now,
            na_lease_expires_at := Some (now + timedelta_seconds ttl)\<rparr>"
  by (auto simp: grant_attempt_lease_def Let_def)

interpretation xl: lease na_lease_token na_lease_owner na_lease_expires_at
    "\<lambda>a. na_status a = Attempt_RUNNING" is_execution_lease_live grant_attempt_lease
    assert_execution_lease heartbeat_attempt_lease release_attempt_lease
proof (unfold_locales, goal_cases)
  case 1 then show ?case by (rule is_execution_lease_live_iff)
next
  case 2 then show ?case by (simp add: grant_attempt_lease_Inr)
next
  case 3 then show ?case by (simp add: grant_attempt_lease_Inr)
next
  case 4 then show ?case by (rule assert_execution_lease_Inr)
next
  case 5 then show ?case by (simp add: heartbeat_attempt_lease_def)
next
  case 6 then show ?case by (auto simp: heartbeat_attempt_lease_def)
next
  case 7 then show ?case by (simp add: release_attempt_lease_def)
next
  case 8 then show ?case by (auto simp: release_attempt_lease_def clear_execution_lease_def)
qed

section \<open>Shared facts\<close>

lemma find_attempt_by_id_eq_Inr:
  "find_attempt_by_id s i = Inr (a, n) \<longleftrightarrow>
     (\<exists>k. List.find (\<lambda>(k, n). has_attempt i n) (rs_nodes s) = Some (k, n) \<and>
          List.find (\<lambda>a. na_id a = i) (ns_attempts n) = Some a)"
  by (auto simp: find_attempt_by_id_def split: option.splits)

lemma find_attempt_by_id_InrD:
  assumes "find_attempt_by_id s i = Inr (a, n)"
  shows "na_id a = i" "a \<in> set (ns_attempts n)" "n \<in> snd ` set (rs_nodes s)"
proof -
  obtain k where k: "List.find (\<lambda>(k, n). has_attempt i n) (rs_nodes s) = Some (k, n)"
    and a: "List.find (\<lambda>a. na_id a = i) (ns_attempts n) = Some a"
    using assms unfolding find_attempt_by_id_eq_Inr by blast
  show "na_id a = i" "a \<in> set (ns_attempts n)"
    using find_Some_in [OF a] by simp_all
  show "n \<in> snd ` set (rs_nodes s)"
    using find_Some_in [OF k] by force
qed

lemma store_attempt_fields [simp]:
  "rs_id (store_attempt i a t s) = rs_id s" "rs_version (store_attempt i a t s) = rs_version s"
  "rs_status (store_attempt i a t s) = rs_status s"
  "rs_metadata (store_attempt i a t s) = rs_metadata s"
  "rs_auto_repair_attempts_used (store_attempt i a t s) = rs_auto_repair_attempts_used s"
  "rs_processed_idempotency_keys (store_attempt i a t s) = rs_processed_idempotency_keys s"
  "rs_durable_interactions (store_attempt i a t s) = rs_durable_interactions s"
  "rs_updated_at (store_attempt i a t s) = t"
  by (simp_all add: store_attempt_def)

lemma clear_execution_lease_fields [simp]:
  "na_id (clear_execution_lease a) = na_id a"
  "na_status (clear_execution_lease a) = na_status a"
  "na_output (clear_execution_lease a) = na_output a"
  "na_error (clear_execution_lease a) = na_error a"
  "na_finished_at (clear_execution_lease a) = na_finished_at a"
  "na_attempt_no (clear_execution_lease a) = na_attempt_no a"
  "na_node_key (clear_execution_lease a) = na_node_key a"
  "na_tool_executions (clear_execution_lease a) = na_tool_executions a"
  "\<not> is_execution_lease_live (clear_execution_lease a) t"
  "\<not> has_execution_lease_metadata (clear_execution_lease a)"
  by (simp_all add: clear_execution_lease_def is_execution_lease_live_def
      has_execution_lease_metadata_def)

text \<open>The lookup after a write-back returns what was written.\<close>

lemma has_attempt_find:
  "has_attempt i n \<longleftrightarrow> (\<exists>a. List.find (\<lambda>a. na_id a = i) (ns_attempts n) = Some a)"
  using find_None_iff [of "\<lambda>a. na_id a = i" "ns_attempts n"]
  by (cases "List.find (\<lambda>a. na_id a = i) (ns_attempts n)")
     (auto simp: has_attempt_def list_ex_iff dest: find_Some_in)

lemma find_store_attempt:
  assumes "find_attempt_by_id s i = Inr (a, n)" "na_id a' = i"
  shows "find_attempt_by_id (store_attempt i a' t s) i =
    Inr (a', n\<lparr>ns_attempts := update_first (\<lambda>b. na_id b = i) (\<lambda>_. a') (ns_attempts n),
               ns_updated_at := t\<rparr>)"
proof -
  let ?f = "\<lambda>(k, n). (k, n\<lparr>ns_attempts := update_first (\<lambda>b. na_id b = i) (\<lambda>_. a') (ns_attempts n),
    ns_updated_at := t\<rparr>)"
  obtain k where k: "List.find (\<lambda>(k, n). has_attempt i n) (rs_nodes s) = Some (k, n)"
    and a: "List.find (\<lambda>a. na_id a = i) (ns_attempts n) = Some a"
    using assms(1) unfolding find_attempt_by_id_eq_Inr by blast
  have f: "List.find (\<lambda>a. na_id a = i) (update_first (\<lambda>b. na_id b = i) (\<lambda>_. a') (ns_attempts n)) = Some a'"
    using a assms(2) by (rule find_update_first [where f = "\<lambda>_. a'"])
  have "List.find (\<lambda>(k, n). has_attempt i n) (update_first (\<lambda>(k, n). has_attempt i n) ?f (rs_nodes s))
      = Some (?f (k, n))"
    using k by (rule find_update_first) (use f in \<open>simp add: has_attempt_find\<close>)
  then show ?thesis
    by (simp add: find_attempt_by_id_def store_attempt_def f)
qed

end
