(* ===== verification/Session_History.thy ===== *)
theory Session_History
  imports Session_Execution
begin

text \<open>
  What every operation of the control plane keeps of a session: its identity, the history of its
  node executions and gates, its idempotency ledger, its repair counter and its durable
  interactions. \<open>evolves s t\<close> relates a session to any later value of it; it is reflexive
  and transitive, so one lemma per operation gives it for every run. The version is the store's
  business: between two writes it does not change.
\<close>

section \<open>The relation\<close>

definition attempt_evolves :: "node_attempt \<Rightarrow> node_attempt \<Rightarrow> bool" where
  "attempt_evolves a b \<longleftrightarrow>
     na_id b = na_id a \<and> na_node_key b = na_node_key a \<and> na_attempt_no b = na_attempt_no a \<and>
     na_started_at b = na_started_at a \<and> na_trace_id b = na_trace_id a \<and>
     attempt_reaches (na_status a) (na_status b) \<and>
     (na_status a \<noteq> Attempt_RUNNING \<longrightarrow>
        na_output b = na_output a \<and> na_error b = na_error a \<and> na_finished_at b = na_finished_at a)"

definition gate_evolves :: "gate \<Rightarrow> gate \<Rightarrow> bool" where
  "gate_evolves g h \<longleftrightarrow>
     gt_id h = gt_id g \<and> gt_name h = gt_name g \<and> gt_node_key h = gt_node_key g \<and>
     gt_outcome h = gt_outcome g \<and> gt_detail h = gt_detail g \<and>
     (gt_decision g \<noteq> None \<longrightarrow> gt_decision h \<noteq> None)"

definition node_evolves :: "node_state \<Rightarrow> node_state \<Rightarrow> bool" where
  "node_evolves n m \<longleftrightarrow>
     ns_key m = ns_key n \<and> node_reaches (ns_status n) (ns_status m) \<and>
     grows attempt_evolves (ns_attempts n) (ns_attempts m) \<and>
     grows gate_evolves (ns_gates n) (ns_gates m)"

definition interaction_evolves :: "durable_interaction \<Rightarrow> durable_interaction \<Rightarrow> bool" where
  "interaction_evolves d e \<longleftrightarrow>
     di_id e = di_id d \<and> di_session_id e = di_session_id d \<and> di_node_key e = di_node_key d \<and>
     di_execution_id e = di_execution_id d \<and> di_member_ids e = di_member_ids d \<and>
     (di_version e = di_version d \<longrightarrow> e = d) \<and> di_version d \<le> di_version e \<and>
     (\<exists>ms. di_messages e = di_messages d @ ms) \<and>
     (\<exists>ks. map dt_turn_index (di_turns e) = map dt_turn_index (di_turns d) @ ks) \<and>
     (di_outcome d \<noteq> None \<longrightarrow> di_outcome e = di_outcome d)"

definition evolves :: "runtime_session \<Rightarrow> runtime_session \<Rightarrow> bool" where
  "evolves s t \<longleftrightarrow>
     rs_id t = rs_id s \<and> rs_workflow_name t = rs_workflow_name s \<and>
     rs_input_payload t = rs_input_payload s \<and> rs_created_at t = rs_created_at s \<and>
     rs_version t = rs_version s \<and>
     session_reaches (rs_status s) (rs_status t) \<and>
     extends node_evolves (rs_nodes s) (rs_nodes t) \<and>
     extends (=) (rs_processed_idempotency_keys s) (rs_processed_idempotency_keys t) \<and>
     rs_auto_repair_attempts_used s \<le> rs_auto_repair_attempts_used t \<and>
     extends interaction_evolves (rs_durable_interactions s) (rs_durable_interactions t)"

section \<open>Reflexivity and transitivity\<close>

lemma attempt_evolves_refl [simp]: "attempt_evolves a a"
  by (simp add: attempt_evolves_def)

lemma attempt_evolves_trans: "attempt_evolves a b \<Longrightarrow> attempt_evolves b c \<Longrightarrow> attempt_evolves a c"
  unfolding attempt_evolves_def attempt_reaches_cases by metis

lemma gate_evolves_refl [simp]: "gate_evolves g g"
  by (simp add: gate_evolves_def)

lemma gate_evolves_trans: "gate_evolves f g \<Longrightarrow> gate_evolves g h \<Longrightarrow> gate_evolves f h"
  by (simp add: gate_evolves_def)

lemma node_evolves_refl [simp]: "node_evolves n n"
  by (simp add: node_evolves_def)

lemma node_evolves_trans:
  assumes "node_evolves n m" "node_evolves m l"
  shows "node_evolves n l"
proof -
  note nm = assms(1) [unfolded node_evolves_def] and ml = assms(2) [unfolded node_evolves_def]
  have at: "grows attempt_evolves (ns_attempts n) (ns_attempts m)"
    "grows attempt_evolves (ns_attempts m) (ns_attempts l)"
    and gt: "grows gate_evolves (ns_gates n) (ns_gates m)"
    "grows gate_evolves (ns_gates m) (ns_gates l)"
    using nm ml by blast+
  have "grows attempt_evolves (ns_attempts n) (ns_attempts l)"
    by (rule grows_trans [OF attempt_evolves_trans at])
  moreover have "grows gate_evolves (ns_gates n) (ns_gates l)"
    by (rule grows_trans [OF gate_evolves_trans gt])
  moreover have "node_reaches (ns_status n) (ns_status l)"
    using nm ml rtranclp_trans [of is_valid_node_transition] by blast
  ultimately show ?thesis
    using nm ml unfolding node_evolves_def by simp
qed

lemma interaction_evolves_refl [simp]: "interaction_evolves d d"
  by (simp add: interaction_evolves_def)

lemma interaction_evolves_trans:
  assumes "interaction_evolves d e" "interaction_evolves e f"
  shows "interaction_evolves d f"
proof -
  have "di_version d \<le> di_version e" "di_version e \<le> di_version f"
    "di_version e = di_version d \<Longrightarrow> e = d" "di_version f = di_version e \<Longrightarrow> f = e"
    using assms by (simp_all add: interaction_evolves_def)
  then have "di_version f = di_version d \<longrightarrow> f = d"
    by (metis order_antisym)
  moreover have "\<exists>ms. di_messages f = di_messages d @ ms"
    using assms unfolding interaction_evolves_def by (metis append_assoc)
  moreover have "\<exists>ks. map dt_turn_index (di_turns f) = map dt_turn_index (di_turns d) @ ks"
    using assms unfolding interaction_evolves_def by (metis append_assoc)
  moreover have "di_outcome d \<noteq> None \<longrightarrow> di_outcome f = di_outcome d"
    using assms unfolding interaction_evolves_def by metis
  ultimately show ?thesis
    using assms unfolding interaction_evolves_def by (metis le_trans)
qed

lemma evolves_refl [simp]: "evolves s s"
  by (simp add: evolves_def)

lemma evolves_trans:
  assumes "evolves s t" "evolves t u"
  shows "evolves s u"
proof -
  have "extends node_evolves (rs_nodes s) (rs_nodes u)"
    using assms by (auto simp: evolves_def intro: extends_trans [OF node_evolves_trans])
  moreover have "extends interaction_evolves (rs_durable_interactions s) (rs_durable_interactions u)"
    using assms by (auto simp: evolves_def intro: extends_trans [OF interaction_evolves_trans])
  moreover have
    "extends (=) (rs_processed_idempotency_keys s) (rs_processed_idempotency_keys u)"
    using assms by (auto simp: evolves_def intro: extends_trans [where R = "(=)"])
  ultimately show ?thesis
    using assms unfolding evolves_def by (auto intro: rtranclp_trans)
qed

section \<open>Introduction by what an operation changes\<close>

lemma evolves_nodes:
  "extends node_evolves (rs_nodes s) ns \<Longrightarrow> evolves s (s\<lparr>rs_nodes := ns\<rparr>)"
  by (simp add: evolves_def)

lemma evolves_set_node:
  "session_node s k = Some n \<Longrightarrow> node_evolves n m \<Longrightarrow> evolves s (set_node k m s)"
  unfolding set_node_def session_node_def
  by (rule evolves_nodes) (auto intro: extends_update)

lemma evolves_updated_at [simp]: "evolves s (t\<lparr>rs_updated_at := x\<rparr>) \<longleftrightarrow> evolves s t"
  by (simp add: evolves_def)

lemma evolves_version:
  "evolves s t \<Longrightarrow> evolves (s\<lparr>rs_version := v\<rparr>) (t\<lparr>rs_version := v\<rparr>)"
  by (simp add: evolves_def)

lemma evolves_metadata [simp]: "evolves s (t\<lparr>rs_metadata := x\<rparr>) \<longleftrightarrow> evolves s t"
  by (simp add: evolves_def)

lemma evolves_summary [simp]: "evolves s (t\<lparr>rs_summary_output := x\<rparr>) \<longleftrightarrow> evolves s t"
  by (simp add: evolves_def)

lemma evolves_error [simp]: "evolves s (t\<lparr>rs_error_message := x\<rparr>) \<longleftrightarrow> evolves s t"
  by (simp add: evolves_def)

lemma evolves_interaction:
  assumes "\<And>d. map_of (rs_durable_interactions s) i = Some d \<Longrightarrow> interaction_evolves d e"
  shows "evolves s (s\<lparr>rs_durable_interactions := AList.update i e (rs_durable_interactions s)\<rparr>)"
  using extends_update [of interaction_evolves "rs_durable_interactions s" i e] assms
  by (simp add: evolves_def)

lemma evolves_ledger:
  assumes "map_of (rs_processed_idempotency_keys s) k = None"
  shows "evolves s (s\<lparr>rs_processed_idempotency_keys :=
    AList.update k r (rs_processed_idempotency_keys s)\<rparr>)"
  using extends_update [of "(=)" "rs_processed_idempotency_keys s" k r] assms
  by (simp add: evolves_def)

lemma node_evolves_updated_at [simp]: "node_evolves n (m\<lparr>ns_updated_at := t\<rparr>) \<longleftrightarrow> node_evolves n m"
  by (simp add: node_evolves_def)

lemma attempt_evolves_lease [simp]:
  "attempt_evolves a (clear_execution_lease b) \<longleftrightarrow> attempt_evolves a b"
  by (simp add: attempt_evolves_def clear_execution_lease_def)

lemma attempt_evolves_tools [simp]:
  "attempt_evolves a (b\<lparr>na_tool_executions := x\<rparr>) \<longleftrightarrow> attempt_evolves a b"
  by (simp add: attempt_evolves_def)

lemma attempt_evolves_grant:
  "grant_attempt_lease ow ttl tok fresh now a = Inr a' \<Longrightarrow> attempt_evolves a a'"
  by (auto simp: grant_attempt_lease_Inr attempt_evolves_def)

lemma attempt_evolves_beat: "heartbeat_attempt_lease tok ttl now a = Inr a' \<Longrightarrow> attempt_evolves a a'"
  by (auto simp: heartbeat_attempt_lease_def attempt_evolves_def)

lemma attempt_evolves_release: "release_attempt_lease tok now a = Inr a' \<Longrightarrow> attempt_evolves a a'"
  by (auto simp: release_attempt_lease_def)

text \<open>A node whose latest attempt is replaced by a later value of it.\<close>

lemma node_evolves_latest:
  assumes "ns_attempts n \<noteq> []" "attempt_evolves (last (ns_attempts n)) a"
  shows "node_evolves n (n\<lparr>ns_attempts := butlast (ns_attempts n) @ [a]\<rparr>)"
  using grows_butlast_last [of attempt_evolves, OF _ assms] by (simp add: node_evolves_def)

lemma node_evolves_status:
  "is_valid_node_transition (ns_status m) st \<Longrightarrow> node_evolves n m \<Longrightarrow>
   node_evolves n (m\<lparr>ns_status := st\<rparr>)"
  unfolding node_evolves_def by (auto intro: rtranclp.rtrancl_into_rtrancl)

lemma evolves_store_attempt:
  assumes "find_attempt_by_id s i = Inr (a, n)" "attempt_evolves a a'"
  shows "evolves s (store_attempt i a' t s)"
proof -
  let ?f = "\<lambda>n. n\<lparr>ns_attempts := update_first (\<lambda>b. na_id b = i) (\<lambda>_. a') (ns_attempts n),
    ns_updated_at := t\<rparr>"
  obtain k where k: "List.find (\<lambda>(k, n). has_attempt i n) (rs_nodes s) = Some (k, n)"
    and a: "List.find (\<lambda>a. na_id a = i) (ns_attempts n) = Some a"
    using assms(1) unfolding find_attempt_by_id_eq_Inr by blast
  have "grows attempt_evolves (ns_attempts n) (update_first (\<lambda>b. na_id b = i) (\<lambda>_. a') (ns_attempts n))"
    using update_first_const [OF a, of "\<lambda>b. if b = a then a' else b"] assms(2)
      grows_update_first [of attempt_evolves "\<lambda>b. na_id b = i" "\<lambda>b. if b = a then a' else b"]
    by simp
  then have n: "node_evolves n (?f n)"
    by (simp add: node_evolves_def)
  have "update_first (\<lambda>(k, n). has_attempt i n) (\<lambda>(k, n). (k, ?f n)) (rs_nodes s) =
    update_first (\<lambda>(k, n). has_attempt i n) (\<lambda>(k, m). (k, if m = n then ?f m else m)) (rs_nodes s)"
    using update_first_const [OF k, of "\<lambda>(k, n). (k, ?f n)"]
      update_first_const [OF k, of "\<lambda>(k, m). (k, if m = n then ?f m else m)"] by simp
  then have "extends node_evolves (rs_nodes s)
      (update_first (\<lambda>(k, n). has_attempt i n) (\<lambda>(k, n). (k, ?f n)) (rs_nodes s))"
    using extends_update_first [of node_evolves "\<lambda>(k, n). has_attempt i n"
        "\<lambda>m. if m = n then ?f m else m" "rs_nodes s"] n by simp
  then show ?thesis
    unfolding store_attempt_def by (simp add: evolves_def)
qed

section \<open>Executions and leases\<close>

lemma evolves_record_tool_started [evolves_intros]:
  assumes "record_tool_execution_started f i c nm r args tr md now s = Inr (t, s')"
  shows "evolves s s'"
  using assms
  by (auto simp: record_tool_execution_started_def Let_def intro!: evolves_store_attempt
      split: option.splits)

lemma evolves_record_tool_completed [evolves_intros]:
  assumes "record_tool_execution_completed i c er pv len err now s = Inr (t, s')"
  shows "evolves s s'"
  using assms
  by (auto simp: record_tool_execution_completed_def Let_def intro!: evolves_store_attempt
      split: option.splits)

lemma evolves_grant_execution_lease [evolves_intros]:
  assumes "grant_execution_lease k i ow ttl tok fresh now s = Inr (a, s')"
  shows "evolves s s'"
  using assms
  by (auto simp: grant_execution_lease_def intro!: evolves_store_attempt attempt_evolves_grant)

lemma evolves_heartbeat_execution_lease [evolves_intros]:
  assumes "heartbeat_execution_lease i tok ttl now s = Inr (a, s')"
  shows "evolves s s'"
  using assms
  by (auto simp: heartbeat_execution_lease_def intro!: evolves_store_attempt attempt_evolves_beat)

lemma evolves_release_execution_lease [evolves_intros]:
  assumes "release_execution_lease i tok now s = Inr (a, ow, s')"
  shows "evolves s s'"
  using assms
  by (auto simp: release_execution_lease_def intro!: evolves_store_attempt attempt_evolves_release)

lemma evolves_clear_leases [evolves_intros]: "evolves s (clear_session_execution_leases s)"
proof -
  have "node_evolves n (n\<lparr>ns_attempts := map clear_execution_lease (ns_attempts n)\<rparr>)" for n
    by (simp add: node_evolves_def grows_map)
  then show ?thesis
    unfolding clear_session_execution_leases_def
    by (intro evolves_nodes extends_map)
qed

section \<open>What the relation gives\<close>

lemma evolves_terminal:
  "evolves s t \<Longrightarrow> rs_status s \<in> terminal_session_statuses \<Longrightarrow> rs_status t = rs_status s"
  by (simp add: evolves_def session_reaches_terminal)

lemma evolves_failed_node:
  assumes "evolves s t" "session_node s k = Some n" "ns_status n = Node_FAILED"
  shows "\<exists>m. session_node t k = Some m \<and> ns_status m = Node_FAILED"
  using assms extendsD [of node_evolves "rs_nodes s" "rs_nodes t" k n]
  by (auto simp: evolves_def session_node_def node_evolves_def dest: node_reaches_failed)

lemma evolves_attempt:
  assumes "evolves s t" "session_node s k = Some n" "i < length (ns_attempts n)"
  shows "\<exists>m. session_node t k = Some m \<and> i < length (ns_attempts m) \<and>
    attempt_evolves (ns_attempts n ! i) (ns_attempts m ! i)"
  using assms extendsD [of node_evolves "rs_nodes s" "rs_nodes t" k n]
  by (force simp: evolves_def session_node_def node_evolves_def grows_def)

lemma evolves_ledger_entry:
  assumes "evolves s t" "map_of (rs_processed_idempotency_keys s) k = Some r"
  shows "map_of (rs_processed_idempotency_keys t) k = Some r"
  using assms by (auto simp: evolves_def dest: extendsD)

end
