(* ===== verification/Session_Lifecycle.thy ===== *)
theory Session_Lifecycle
  imports Session_History
begin

text \<open>
  \<^verbatim>\<open>control/session_lifecycle.py\<close> and the transition helpers of
  \<^verbatim>\<open>SessionService\<close>: creating a session from a blueprint, changing its metadata, adding
  nodes and moving it along the transition table. \<open>clock\<close> gives the readings of the default
  factories in program order.
\<close>

section \<open>Transitions\<close>

definition node_transition :: "time \<Rightarrow> node_status \<Rightarrow> node_state \<Rightarrow> exn + node_state" where
  "node_transition t st n =
     and_then (raise_when (\<not> is_valid_node_transition (ns_status n) st) InvalidTransitionError) (\<lambda>_.
       Inr (n\<lparr>ns_status := st, ns_updated_at := t\<rparr>))"

definition attempt_transition :: "attempt_status \<Rightarrow> node_attempt \<Rightarrow> exn + node_attempt" where
  "attempt_transition st a =
     and_then (raise_when (\<not> is_valid_attempt_transition (na_status a) st) InvalidTransitionError)
       (\<lambda>_. Inr (a\<lparr>na_status := st\<rparr>))"

definition transition_session ::
    "session_status \<Rightarrow> time \<Rightarrow> runtime_session \<Rightarrow> exn + runtime_session" where
  "transition_session st now s =
     and_then (raise_when (\<not> is_valid_session_transition (rs_status s) st) InvalidTransitionError)
       (\<lambda>_. let s' = s\<lparr>rs_status := st, rs_updated_at := now\<rparr>
            in Inr (if st \<in> terminal_session_statuses then clear_session_execution_leases s' else s'))"

section \<open>Lifecycle\<close>

definition created_nodes ::
    "(nat \<Rightarrow> time) \<Rightarrow> workflow_node_spec list \<Rightarrow> (string \<times> node_state) list \<Rightarrow>
     (string \<times> node_state) list" where
  "created_nodes clock specs nodes =
     fold (\<lambda>(i, spec) d. AList.update (wn_key spec) (new_node (clock i) (wn_key spec)) d)
       (List.enumerate 0 specs) nodes"

definition create_runtime_session ::
    "string \<Rightarrow> (nat \<Rightarrow> time) \<Rightarrow> workflow_blueprint \<Rightarrow> pydict \<Rightarrow> pydict \<Rightarrow> runtime_session" where
  "create_runtime_session fresh_id clock b input_payload metadata =
     \<lparr>rs_id = fresh_id, rs_workflow_name = wb_name b, rs_workflow_version = wb_version b,
      rs_version = 0, rs_status = Session_QUEUED, rs_nodes = created_nodes clock (wb_nodes b) [],
      rs_input_payload = input_payload, rs_summary_output = [], rs_error_message = None,
      rs_created_at = clock (length (wb_nodes b)), rs_updated_at = clock (length (wb_nodes b) + 1),
      rs_metadata = metadata, rs_auto_repair_attempts_used = 0,
      rs_processed_idempotency_keys = [], rs_durable_interactions = []\<rparr>"

definition update_session_metadata ::
    "pydict \<Rightarrow> bool \<Rightarrow> time \<Rightarrow> runtime_session \<Rightarrow> runtime_session" where
  "update_session_metadata metadata merge now s =
     s\<lparr>rs_metadata := (if merge then dict_merge (rs_metadata s) metadata else metadata),
       rs_updated_at := now\<rparr>"

definition add_workflow_nodes ::
    "workflow_node_spec list \<Rightarrow> (nat \<Rightarrow> time) \<Rightarrow> time \<Rightarrow> runtime_session \<Rightarrow> exn + runtime_session"
  where
  "add_workflow_nodes specs clock now s =
     and_then (raise_when (list_ex (\<lambda>spec. session_node s (wn_key spec) \<noteq> None) specs) ValueError)
       (\<lambda>_. Inr (s\<lparr>rs_nodes := created_nodes clock specs (rs_nodes s), rs_updated_at := now\<rparr>))"

section \<open>Facts\<close>

lemma node_transition_Inr [simp]:
  "node_transition t st n = Inr m \<longleftrightarrow>
     is_valid_node_transition (ns_status n) st \<and> m = n\<lparr>ns_status := st, ns_updated_at := t\<rparr>"
  by (auto simp: node_transition_def)

lemma attempt_transition_Inr [simp]:
  "attempt_transition st a = Inr b \<longleftrightarrow>
     is_valid_attempt_transition (na_status a) st \<and> b = a\<lparr>na_status := st\<rparr>"
  by (auto simp: attempt_transition_def)

lemma transition_session_Inr:
  "transition_session st now s = Inr s' \<longleftrightarrow>
     is_valid_session_transition (rs_status s) st \<and>
     s' = (let s1 = s\<lparr>rs_status := st, rs_updated_at := now\<rparr>
           in if st \<in> terminal_session_statuses then clear_session_execution_leases s1 else s1)"
  by (auto simp: transition_session_def Let_def)

lemma clear_session_execution_leases_fields [simp]:
  "rs_id (clear_session_execution_leases s) = rs_id s"
  "rs_version (clear_session_execution_leases s) = rs_version s"
  "rs_status (clear_session_execution_leases s) = rs_status s"
  by (simp_all add: clear_session_execution_leases_def)

lemma transition_session_status:
  "transition_session st now s = Inr s' \<Longrightarrow>
   rs_status s' = st \<and> rs_id s' = rs_id s \<and> rs_version s' = rs_version s"
  by (auto simp: transition_session_Inr Let_def)

lemma node_evolves_transition:
  "node_transition t st n = Inr m \<Longrightarrow> node_evolves n m"
  using node_evolves_status [of n st n] by auto

lemma evolves_transition_session [evolves_intros]:
  assumes "transition_session st now s = Inr s'"
  shows "evolves s s'"
proof -
  let ?s = "s\<lparr>rs_status := st, rs_updated_at := now\<rparr>"
  have "session_reaches (rs_status s) st"
    using assms by (auto simp: transition_session_Inr)
  then have e: "evolves s ?s"
    by (simp add: evolves_def)
  show ?thesis
    using assms e evolves_trans [OF e evolves_clear_leases]
    by (auto simp: transition_session_Inr Let_def)
qed

lemma evolves_update_session_metadata [evolves_intros]:
  "evolves s (update_session_metadata md merge now s)"
  by (simp add: update_session_metadata_def)

lemma created_nodes_lookup:
  "map_of (created_nodes clock specs nodes) k =
     (if k \<in> wn_key ` set specs then Some (new_node (clock (Max {i. i < length specs \<and>
        wn_key (specs ! i) = k})) k) else map_of nodes k)"
proof (induction specs rule: rev_induct)
  case Nil
  then show ?case by (simp add: created_nodes_def)
next
  case (snoc x xs)
  have e: "created_nodes clock (xs @ [x]) nodes =
      AList.update (wn_key x) (new_node (clock (length xs)) (wn_key x)) (created_nodes clock xs nodes)"
    by (simp add: created_nodes_def enumerate_append_eq)
  have S: "{i. i < length (xs @ [x]) \<and> wn_key ((xs @ [x]) ! i) = k} =
      {i. i < length xs \<and> wn_key (xs ! i) = k} \<union> (if wn_key x = k then {length xs} else {})"
    by (auto simp: nth_append less_Suc_eq)
  show ?case
  proof (cases "wn_key x = k")
    case True
    have "Max ({i. i < length xs \<and> wn_key (xs ! i) = k} \<union> {length xs}) = length xs"
      by (intro Max_eqI) auto
    with True S show ?thesis by (simp add: e)
  next
    case False
    with S show ?thesis using snoc.IH by (auto simp: e)
  qed
qed

lemma created_nodes_status:
  "k \<in> wn_key ` set specs \<Longrightarrow> \<exists>t. map_of (created_nodes clock specs nodes) k = Some (new_node t k)"
  by (auto simp: created_nodes_lookup)

lemma evolves_add_workflow_nodes [evolves_intros]:
  assumes "add_workflow_nodes specs clock now s = Inr s'"
  shows "evolves s s'"
proof -
  have "\<forall>spec \<in> set specs. session_node s (wn_key spec) = None"
    using assms by (auto simp: add_workflow_nodes_def list_ex_iff)
  then have "extends node_evolves (rs_nodes s) (created_nodes clock specs (rs_nodes s))"
    unfolding extends_def session_node_def by (auto simp: created_nodes_lookup)
  then show ?thesis
    using assms by (auto simp: add_workflow_nodes_def evolves_def)
qed

end
