(* ===== verification/Node_Lifecycle.thy ===== *)
theory Node_Lifecycle
  imports Session_Lifecycle
begin

text \<open>
  \<^verbatim>\<open>control/session_node_lifecycle.py\<close> and \<^verbatim>\<open>control/session_gates.py\<close>: closing
  the running attempt of a node, requeueing a node, recovering the executions whose lease has
  expired, and recording gates and the decisions on them. Only the latest attempt of a node is
  ever closed. \<open>tick\<close> is the clock reading that a node transition takes for itself.
\<close>

section \<open>Closing the running attempt\<close>

definition set_latest_attempt :: "node_attempt \<Rightarrow> node_state \<Rightarrow> node_state" where
  "set_latest_attempt a n = n\<lparr>ns_attempts := butlast (ns_attempts n) @ [a]\<rparr>"

definition running_attempt :: "node_state \<Rightarrow> node_attempt option" where
  "running_attempt n =
     (case latest_attempt n of
        None \<Rightarrow> None
      | Some a \<Rightarrow> if na_status a \<noteq> Attempt_RUNNING then None else Some a)"

definition complete_running_attempt ::
    "pydict option \<Rightarrow> time \<Rightarrow> node_state \<Rightarrow> exn + (node_attempt option \<times> node_state)" where
  "complete_running_attempt output now n =
     (case running_attempt n of
        None \<Rightarrow> Inr (None, n)
      | Some a \<Rightarrow>
          and_then (attempt_transition Attempt_SUCCEEDED a) (\<lambda>a1.
            let a2 = (case output of None \<Rightarrow> a1 | Some d \<Rightarrow> a1\<lparr>na_output := d\<rparr>);
                a3 = clear_execution_lease (a2\<lparr>na_finished_at := Some now\<rparr>)
            in Inr (Some a3, set_latest_attempt a3 n)))"

definition fail_running_attempt ::
    "string \<Rightarrow> time \<Rightarrow> node_state \<Rightarrow> exn + (node_attempt option \<times> node_state)" where
  "fail_running_attempt err now n =
     (case running_attempt n of
        None \<Rightarrow> Inr (None, n)
      | Some a \<Rightarrow>
          and_then (attempt_transition Attempt_FAILED a) (\<lambda>a1.
            let a2 = clear_execution_lease (a1\<lparr>na_error := Some err, na_finished_at := Some now\<rparr>)
            in Inr (Some a2, set_latest_attempt a2 n)))"

definition abort_running_attempt ::
    "string \<Rightarrow> time \<Rightarrow> node_state \<Rightarrow> exn + (node_attempt option \<times> node_state)" where
  "abort_running_attempt reason now n =
     (case running_attempt n of
        None \<Rightarrow> Inr (None, n)
      | Some a \<Rightarrow>
          and_then (attempt_transition Attempt_ABORTED a) (\<lambda>a1.
            let a2 = clear_execution_lease (a1\<lparr>na_error := Some reason, na_finished_at := Some now\<rparr>)
            in Inr (Some a2, set_latest_attempt a2 n)))"

definition abort_and_requeue_node ::
    "string \<Rightarrow> time \<Rightarrow> (node_status \<Rightarrow> time) \<Rightarrow> node_state \<Rightarrow>
     exn + (node_attempt option \<times> node_state)" where
  "abort_and_requeue_node reason now tick n =
     and_then (abort_running_attempt reason now n) (\<lambda>(aborted, n1).
     and_then (if ns_status n1 = Node_PENDING_GATE
               then node_transition (tick Node_NEEDS_REVISION) Node_NEEDS_REVISION n1
               else Inr n1) (\<lambda>n2.
     and_then (if ns_status n2 \<noteq> Node_QUEUED then node_transition (tick Node_QUEUED) Node_QUEUED n2
               else Inr n2) (\<lambda>n3.
       Inr (aborted, n3\<lparr>ns_updated_at := now\<rparr>))))"

section \<open>Recovering expired executions\<close>

record recovered_node_execution =
  rn_node_key :: string
  rn_attempt :: node_attempt
  rn_lease_owner :: "string option"
  rn_lease_expires_at :: "time option"

text \<open>One turn of the loop over the nodes.\<close>

definition recover_node ::
    "time \<Rightarrow> (string \<Rightarrow> time) \<Rightarrow> node_state \<Rightarrow> exn + (recovered_node_execution list \<times> node_state)"
  where
  "recover_node now tick n =
     (if ns_status n \<noteq> Node_RUNNING then Inr ([], n)
      else case latest_attempt n of
        None \<Rightarrow> Inr ([], n)
      | Some a \<Rightarrow>
          if na_status a \<noteq> Attempt_RUNNING then Inr ([], n)
          else if \<not> has_execution_lease_metadata a then Inr ([], n)
          else if is_execution_lease_live a now then Inr ([], n)
          else and_then (attempt_transition Attempt_ABORTED a) (\<lambda>a1.
            let a2 = clear_execution_lease
                  (a1\<lparr>na_error := Some ''execution lease expired'', na_finished_at := Some now\<rparr>) in
            and_then (node_transition (tick (ns_key n)) Node_QUEUED (set_latest_attempt a2 n)) (\<lambda>n1.
              Inr ([\<lparr>rn_node_key = ns_key n, rn_attempt = a2, rn_lease_owner = na_lease_owner a,
                     rn_lease_expires_at = na_lease_expires_at a\<rparr>], n1\<lparr>ns_updated_at := now\<rparr>))))"

fun recover_nodes ::
    "time \<Rightarrow> (string \<Rightarrow> time) \<Rightarrow> (string \<times> node_state) list \<Rightarrow>
     exn + (recovered_node_execution list \<times> (string \<times> node_state) list)" where
  "recover_nodes now tick [] = Inr ([], [])"
| "recover_nodes now tick ((k, n) # nodes) =
     and_then (recover_node now tick n) (\<lambda>(r, n').
     and_then (recover_nodes now tick nodes) (\<lambda>(rs, nodes').
       Inr (r @ rs, (k, n') # nodes')))"

definition recover_expired_node_execution_leases ::
    "time \<Rightarrow> (string \<Rightarrow> time) \<Rightarrow> runtime_session \<Rightarrow>
     exn + (recovered_node_execution list \<times> runtime_session)" where
  "recover_expired_node_execution_leases now tick s =
     and_then (recover_nodes now tick (rs_nodes s)) (\<lambda>(rs, nodes). Inr (rs, s\<lparr>rs_nodes := nodes\<rparr>))"

section \<open>Gates\<close>

definition record_gate ::
    "string \<Rightarrow> time \<Rightarrow> string \<Rightarrow> string \<Rightarrow> gate_outcome \<Rightarrow> pydict option \<Rightarrow> time \<Rightarrow> node_state \<Rightarrow>
     gate \<times> node_state" where
  "record_gate fresh_id created key name outcome detail now n =
     (let g = \<lparr>gt_id = fresh_id, gt_name = name, gt_node_key = key, gt_outcome = outcome,
               gt_detail = (case detail of None \<Rightarrow> [] | Some d \<Rightarrow> d), gt_created_at = created,
               gt_decision = None\<rparr>
      in (g, n\<lparr>ns_gates := ns_gates n @ [g], ns_updated_at := now\<rparr>))"

fun target_status_for_decision :: "decision_action \<Rightarrow> node_status" where
  "target_status_for_decision Decision_APPROVE = Node_APPROVED"
| "target_status_for_decision Decision_REVISE = Node_NEEDS_REVISION"
| "target_status_for_decision Decision_REPLAN = Node_NEEDS_REVISION"
| "target_status_for_decision Decision_REJECT = Node_FAILED"

definition has_gate :: "string \<Rightarrow> node_state \<Rightarrow> bool" where
  "has_gate gate_id n \<longleftrightarrow> list_ex (\<lambda>g. gt_id g = gate_id) (ns_gates n)"

definition find_gate :: "runtime_session \<Rightarrow> string \<Rightarrow> exn + (gate \<times> string \<times> node_state)" where
  "find_gate s gate_id =
     (case List.find (\<lambda>(k, n). has_gate gate_id n) (rs_nodes s) of
        None \<Rightarrow> Inl (GateNotFoundError gate_id)
      | Some (k, n) \<Rightarrow>
          (case List.find (\<lambda>g. gt_id g = gate_id) (ns_gates n) of
             None \<Rightarrow> Inl (GateNotFoundError gate_id)
           | Some g \<Rightarrow> Inr (g, k, n)))"

record gate_decision_result =
  gr_gate :: gate
  gr_node :: node_state
  gr_target_status :: node_status

text \<open>
  The node is found by its gate and changed in place; the first node that has the gate is the
  one that is written back.
\<close>

definition apply_gate_decision ::
    "string \<Rightarrow> time \<Rightarrow> gate_decision_input \<Rightarrow> time \<Rightarrow> time \<Rightarrow> runtime_session \<Rightarrow>
     exn + (gate_decision_result \<times> runtime_session)" where
  "apply_gate_decision fresh_id created d now tick s =
     and_then (find_gate s (gi_gate_id d)) (\<lambda>(g, k, n).
       let decision = \<lparr>gd_id = fresh_id, gd_gate_id = gt_id g, gd_action = gi_action d,
             gd_actor = gi_actor d, gd_rationale = gi_rationale d, gd_payload = gi_payload d,
             gd_created_at = created\<rparr>;
           g' = g\<lparr>gt_decision := Some decision\<rparr>;
           n1 = n\<lparr>ns_gates := update_first (\<lambda>x. gt_id x = gi_gate_id d) (\<lambda>_. g') (ns_gates n),
                  ns_updated_at := now\<rparr>;
           target = target_status_for_decision (gi_action d)
       in and_then (node_transition tick target n1) (\<lambda>n2.
         Inr (\<lparr>gr_gate = g', gr_node = n2, gr_target_status = target\<rparr>,
              s\<lparr>rs_nodes := update_first (\<lambda>(k, n). has_gate (gi_gate_id d) n) (\<lambda>(k, _). (k, n2))
                  (rs_nodes s)\<rparr>)))"

section \<open>Facts about attempts\<close>

lemma running_attempt_Some:
  "running_attempt n = Some a \<longleftrightarrow>
     ns_attempts n \<noteq> [] \<and> a = last (ns_attempts n) \<and> na_status a = Attempt_RUNNING"
  by (auto simp: running_attempt_def latest_attempt_def)

lemma running_transition [simp]:
  "is_valid_attempt_transition Attempt_RUNNING st \<longleftrightarrow> st \<noteq> Attempt_RUNNING"
  by (cases st) (simp_all add: status_simps)

lemma set_latest_attempt_fields [simp]:
  "ns_key (set_latest_attempt a n) = ns_key n" "ns_status (set_latest_attempt a n) = ns_status n"
  "ns_gates (set_latest_attempt a n) = ns_gates n"
  "ns_attempts (set_latest_attempt a n) = butlast (ns_attempts n) @ [a]"
  "latest_attempt (set_latest_attempt a n) = Some a"
  by (simp_all add: set_latest_attempt_def latest_attempt_def)

text \<open>What closing does, on both branches.\<close>

lemma complete_running_attempt_eq:
  "complete_running_attempt output now n =
     (case running_attempt n of
        None \<Rightarrow> Inr (None, n)
      | Some a \<Rightarrow> let b = clear_execution_lease (a\<lparr>na_status := Attempt_SUCCEEDED,
            na_output := (case output of None \<Rightarrow> na_output a | Some d \<Rightarrow> d),
            na_finished_at := Some now\<rparr>)
          in Inr (Some b, set_latest_attempt b n))"
  by (cases "running_attempt n")
     (auto simp: complete_running_attempt_def attempt_transition_def running_attempt_Some Let_def
       split: option.splits)

lemma fail_running_attempt_eq:
  "fail_running_attempt err now n =
     (case running_attempt n of
        None \<Rightarrow> Inr (None, n)
      | Some a \<Rightarrow> let b = clear_execution_lease (a\<lparr>na_status := Attempt_FAILED,
            na_error := Some err, na_finished_at := Some now\<rparr>)
          in Inr (Some b, set_latest_attempt b n))"
  by (cases "running_attempt n")
     (auto simp: fail_running_attempt_def attempt_transition_def running_attempt_Some Let_def
       split: option.splits)

lemma abort_running_attempt_eq:
  "abort_running_attempt err now n =
     (case running_attempt n of
        None \<Rightarrow> Inr (None, n)
      | Some a \<Rightarrow> let b = clear_execution_lease (a\<lparr>na_status := Attempt_ABORTED,
            na_error := Some err, na_finished_at := Some now\<rparr>)
          in Inr (Some b, set_latest_attempt b n))"
  by (cases "running_attempt n")
     (auto simp: abort_running_attempt_def attempt_transition_def running_attempt_Some Let_def
       split: option.splits)

lemma node_evolves_close:
  assumes "running_attempt n = Some a" "na_status b \<noteq> Attempt_RUNNING" "na_id b = na_id a"
    "na_node_key b = na_node_key a" "na_attempt_no b = na_attempt_no a"
    "na_started_at b = na_started_at a" "na_trace_id b = na_trace_id a"
  shows "node_evolves n (set_latest_attempt b n)"
  unfolding set_latest_attempt_def
  using assms by (intro node_evolves_latest)
    (auto simp: running_attempt_Some attempt_evolves_def attempt_reaches_cases)

lemma clear_execution_lease_more [simp]:
  "na_started_at (clear_execution_lease a) = na_started_at a"
  "na_trace_id (clear_execution_lease a) = na_trace_id a"
  by (simp_all add: clear_execution_lease_def)

lemma node_evolves_complete_attempt:
  "complete_running_attempt output now n = Inr (r, m) \<Longrightarrow> node_evolves n m"
  by (auto simp: complete_running_attempt_eq Let_def intro!: node_evolves_close split: option.splits)

lemma node_evolves_fail_attempt:
  "fail_running_attempt err now n = Inr (r, m) \<Longrightarrow> node_evolves n m"
  by (auto simp: fail_running_attempt_eq Let_def intro!: node_evolves_close split: option.splits)

lemma node_evolves_abort_attempt:
  "abort_running_attempt err now n = Inr (r, m) \<Longrightarrow> node_evolves n m"
  by (auto simp: abort_running_attempt_eq Let_def intro!: node_evolves_close split: option.splits)

lemma node_evolves_abort_and_requeue:
  assumes "abort_and_requeue_node reason now tick n = Inr (r, m)"
  shows "node_evolves n m" "ns_status m = Node_QUEUED"
proof -
  obtain n1 n2 n3 where 1: "abort_running_attempt reason now n = Inr (r, n1)"
    and 2: "(if ns_status n1 = Node_PENDING_GATE
       then node_transition (tick Node_NEEDS_REVISION) Node_NEEDS_REVISION n1 else Inr n1) = Inr n2"
    and 3: "(if ns_status n2 \<noteq> Node_QUEUED then node_transition (tick Node_QUEUED) Node_QUEUED n2
       else Inr n2) = Inr n3" and m: "m = n3\<lparr>ns_updated_at := now\<rparr>"
    using assms by (auto simp: abort_and_requeue_node_def)
  have "node_evolves n n1" using 1 by (rule node_evolves_abort_attempt)
  moreover have "node_evolves n1 n2" using 2 node_evolves_transition by (auto split: if_splits)
  moreover have "node_evolves n2 n3" using 3 node_evolves_transition by (auto split: if_splits)
  ultimately have "node_evolves n n3" by (blast intro: node_evolves_trans)
  then show "node_evolves n m" by (simp add: m)
  show "ns_status m = Node_QUEUED" using 3 by (auto simp: m split: if_splits)
qed

text \<open>From which statuses a requeue succeeds.\<close>

lemma abort_running_attempt_total:
  "\<exists>r m. abort_running_attempt reason now n = Inr (r, m) \<and> ns_status m = ns_status n"
  by (cases "running_attempt n") (auto simp: abort_running_attempt_eq Let_def)

lemma abort_and_requeue_total_iff:
  "(\<exists>r m. abort_and_requeue_node reason now tick n = Inr (r, m)) \<longleftrightarrow>
     ns_status n \<in> {Node_QUEUED, Node_RUNNING, Node_PENDING_GATE, Node_NEEDS_REVISION, Node_STALE}"
proof -
  obtain r m where a: "abort_running_attempt reason now n = Inr (r, m)" "ns_status m = ns_status n"
    using abort_running_attempt_total by blast
  show ?thesis
    by (cases "ns_status n") (auto simp: abort_and_requeue_node_def a node_transition_def status_simps)
qed

section \<open>Facts about recovery\<close>

text \<open>The executions that recovery takes back.\<close>

definition expired_execution :: "time \<Rightarrow> node_state \<Rightarrow> bool" where
  "expired_execution now n \<longleftrightarrow>
     ns_status n = Node_RUNNING \<and>
     (\<exists>a. running_attempt n = Some a \<and> has_execution_lease_metadata a \<and>
          \<not> is_execution_lease_live a now)"

definition aborted_attempt :: "time \<Rightarrow> node_attempt \<Rightarrow> node_attempt" where
  "aborted_attempt now a = clear_execution_lease (a\<lparr>na_status := Attempt_ABORTED,
     na_error := Some ''execution lease expired'', na_finished_at := Some now\<rparr>)"

definition recovered_node :: "time \<Rightarrow> node_state \<Rightarrow> node_state" where
  "recovered_node now n =
     (set_latest_attempt (aborted_attempt now (last (ns_attempts n))) n)
       \<lparr>ns_status := Node_QUEUED, ns_updated_at := now\<rparr>"

definition recovery_record :: "time \<Rightarrow> node_state \<Rightarrow> recovered_node_execution" where
  "recovery_record now n =
     \<lparr>rn_node_key = ns_key n, rn_attempt = aborted_attempt now (last (ns_attempts n)),
      rn_lease_owner = na_lease_owner (last (ns_attempts n)),
      rn_lease_expires_at = na_lease_expires_at (last (ns_attempts n))\<rparr>"

lemma recover_node_eq:
  "recover_node now tick n =
     (if expired_execution now n then Inr ([recovery_record now n], recovered_node now n)
      else Inr ([], n))"
proof -
  have v: "is_valid_node_transition Node_RUNNING Node_QUEUED"
    by (simp add: status_simps)
  show ?thesis
    by (auto simp: recover_node_def expired_execution_def running_attempt_def latest_attempt_def
        attempt_transition_def node_transition_def v Let_def recovered_node_def recovery_record_def
        aborted_attempt_def raise_when_def)
qed

lemma recover_nodes_eq:
  "recover_nodes now tick nodes =
     Inr (map (recovery_record now) (filter (expired_execution now) (map snd nodes)),
          map (\<lambda>(k, n). (k, if expired_execution now n then recovered_node now n else n)) nodes)"
  by (induction nodes) (auto simp: recover_node_eq)

lemma recover_expired_eq:
  "recover_expired_node_execution_leases now tick s =
     Inr (map (recovery_record now) (filter (expired_execution now) (map snd (rs_nodes s))),
          s\<lparr>rs_nodes := map (\<lambda>(k, n). (k, if expired_execution now n then recovered_node now n else n))
             (rs_nodes s)\<rparr>)"
  by (simp add: recover_expired_node_execution_leases_def recover_nodes_eq)

lemma node_evolves_recovered: "expired_execution now n \<Longrightarrow> node_evolves n (recovered_node now n)"
proof -
  assume e: "expired_execution now n"
  then obtain a where a: "running_attempt n = Some a"
    by (auto simp: expired_execution_def)
  then have la: "last (ns_attempts n) = a"
    by (simp add: running_attempt_Some)
  have "node_evolves n (set_latest_attempt (aborted_attempt now a) n)"
    by (rule node_evolves_close [OF a]) (simp_all add: aborted_attempt_def)
  then show ?thesis
    using e node_evolves_status [of "set_latest_attempt (aborted_attempt now a) n" Node_QUEUED n]
    by (simp add: recovered_node_def la expired_execution_def status_simps)
qed

lemma evolves_recover [evolves_intros]:
  assumes "recover_expired_node_execution_leases now tick s = Inr (r, s')"
  shows "evolves s s'"
proof -
  have "s' = s\<lparr>rs_nodes :=
      map (\<lambda>(k, n). (k, (\<lambda>n. if expired_execution now n then recovered_node now n else n) n)) (rs_nodes s)\<rparr>"
    using assms by (simp add: recover_expired_eq)
  then show ?thesis
    using node_evolves_recovered by (auto intro!: evolves_nodes extends_map)
qed

lemma recovered_not_expired: "\<not> expired_execution t (recovered_node now n)"
  by (simp add: expired_execution_def recovered_node_def)

section \<open>Facts about gates\<close>

lemma node_evolves_record_gate:
  "record_gate f c k nm oc d now n = (g, m) \<Longrightarrow> node_evolves n m"
  by (auto simp: record_gate_def Let_def node_evolves_def)

lemma find_gate_eq_Inr:
  "find_gate s i = Inr (g, k, n) \<longleftrightarrow>
     List.find (\<lambda>(k, n). has_gate i n) (rs_nodes s) = Some (k, n) \<and>
     List.find (\<lambda>g. gt_id g = i) (ns_gates n) = Some g"
  by (auto simp: find_gate_def split: option.splits)

lemma apply_gate_decision_InrD:
  assumes "apply_gate_decision f c d now tick s = Inr (r, s')"
  shows "evolves s s'" "ns_status (gr_node r) = target_status_for_decision (gi_action d)"
    "gr_target_status r = target_status_for_decision (gi_action d)"
proof -
  obtain g k n where fg: "find_gate s (gi_gate_id d) = Inr (g, k, n)"
    using assms by (auto simp: apply_gate_decision_def)
  let ?P = "\<lambda>x. gt_id x = gi_gate_id d"
  let ?st = "target_status_for_decision (gi_action d)"
  obtain g' where g': "gate_evolves g g'" and r: "gr_gate r = g'" "gr_target_status r = ?st"
    and n2: "gr_node r = n\<lparr>ns_gates := update_first ?P (\<lambda>_. g') (ns_gates n), ns_status := ?st,
      ns_updated_at := tick\<rparr>"
    and v: "is_valid_node_transition (ns_status n) ?st"
    and s': "s' = s\<lparr>rs_nodes := update_first (\<lambda>(k, n). has_gate (gi_gate_id d) n)
      (\<lambda>(k, _). (k, gr_node r)) (rs_nodes s)\<rparr>"
    using assms fg by (force simp: apply_gate_decision_def Let_def gate_evolves_def)
  have fk: "List.find (\<lambda>(k, n). has_gate (gi_gate_id d) n) (rs_nodes s) = Some (k, n)"
    and fgg: "List.find ?P (ns_gates n) = Some g"
    using fg unfolding find_gate_eq_Inr by auto
  have "grows gate_evolves (ns_gates n) (update_first ?P (\<lambda>_. g') (ns_gates n))"
    using update_first_const [OF fgg, of "\<lambda>b. if b = g then g' else b"] g'
      grows_update_first [of gate_evolves ?P "\<lambda>b. if b = g then g' else b"]
    by simp
  then have "node_evolves n (gr_node r)"
    using v by (auto simp: n2 node_evolves_def)
  moreover have "s' = s\<lparr>rs_nodes := update_first (\<lambda>(k, n). has_gate (gi_gate_id d) n)
      (\<lambda>(k, m). (k, if m = n then gr_node r else m)) (rs_nodes s)\<rparr>"
    using update_first_const [OF fk, of "\<lambda>(k, _). (k, gr_node r)"]
      update_first_const [OF fk, of "\<lambda>(k, m). (k, if m = n then gr_node r else m)"]
    by (simp add: s')
  ultimately show "evolves s s'"
    using evolves_nodes [OF extends_update_first [of node_evolves "\<lambda>(k, n). has_gate (gi_gate_id d) n"
        "\<lambda>m. if m = n then gr_node r else m" "rs_nodes s"]] by simp
  show "ns_status (gr_node r) = ?st" "gr_target_status r = ?st"
    by (simp_all add: n2 r)
qed

lemmas evolves_apply_gate_decision [evolves_intros] = apply_gate_decision_InrD(1)

end
