(* ===== verification/Session_Events.thy ===== *)
theory Session_Events
  imports Node_Lifecycle Py_Values
begin

text \<open>
  \<^verbatim>\<open>observability/events.py\<close>, \<^verbatim>\<open>observability/emitter.py\<close> and
  \<^verbatim>\<open>control/session_observability.py\<close>: the events that the session service publishes.
  Each reporter method is a function that builds its event; a draft is an event before the
  emitter gives it an id and a time. An observer is code of the caller: here it is a record that
  says whether it is critical and on which events it raises.
\<close>

section \<open>Events\<close>

datatype observation_event_kind =
    SESSION_CREATED | SESSION_RUNNING | SESSION_WAITING_GATE | SESSION_RESUMING
  | SESSION_COMPLETED | SESSION_FAILED | SESSION_CANCELLED
  | NODE_STARTED | NODE_PENDING_GATE | NODE_APPROVED | NODE_NEEDS_REVISION | NODE_COMPLETED
  | NODE_FAILED | NODE_REVISED | ATTEMPT_STARTED | NODE_EXECUTION_STARTED
  | NODE_EXECUTION_COMPLETED | NODE_EXECUTION_FAILED | NODE_EXECUTION_ABORTED
  | MODEL_INVOKE_STARTED | MODEL_INVOKE_COMPLETED | AGENT_TURN_STARTED | AGENT_TURN_COMPLETED
  | AGENT_MESSAGE_SENT | AGENT_HANDOFF | AGENT_VOTE | TOOL_DRAIN_ROUND | TOOL_CALL_STARTED
  | TOOL_CALL_COMPLETED | GATE_RECORDED | DECISION_APPLIED | EXECUTION_LEASE_GRANTED
  | EXECUTION_LEASE_HEARTBEAT | EXECUTION_LEASE_RELEASED | EXECUTION_HARNESS_SELECTED

record observation_event =
  oe_event_id :: string
  oe_kind :: observation_event_kind
  oe_session_id :: string
  oe_node_key :: "string option"
  oe_trace_id :: "string option"
  oe_execution_id :: "string option"
  oe_parent_event_id :: "string option"
  oe_actor :: "string option"
  oe_source :: string
  oe_level :: string
  oe_detail :: pydict
  oe_created_at :: time

text \<open>An event with the defaults of its class; the id and the time are set on construction.\<close>

definition event_draft ::
    "observation_event_kind \<Rightarrow> string \<Rightarrow> string option \<Rightarrow> string option \<times> string option \<Rightarrow>
     string option \<Rightarrow> pydict \<Rightarrow> string \<Rightarrow> time \<Rightarrow> observation_event" where
  "event_draft kind session_id node_key correlation actor detail event_id created_at =
     \<lparr>oe_event_id = event_id, oe_kind = kind, oe_session_id = session_id, oe_node_key = node_key,
      oe_trace_id = fst correlation, oe_execution_id = snd correlation, oe_parent_event_id = None,
      oe_actor = actor, oe_source = ''control'', oe_level = ''info'', oe_detail = detail,
      oe_created_at = created_at\<rparr>"

type_synonym event_builder = "string \<Rightarrow> time \<Rightarrow> observation_event"

section \<open>The emitter\<close>

record observer =
  ob_critical :: bool
  ob_raises :: "observation_event \<Rightarrow> bool"

record emitter =
  em_observers :: "observer list"
  em_closed :: bool

definition emitter_add :: "observer \<Rightarrow> emitter \<Rightarrow> exn + emitter" where
  "emitter_add ob em =
     and_then (raise_when (em_closed em) RuntimeError) (\<lambda>_.
       Inr (em\<lparr>em_observers := em_observers em @ [ob]\<rparr>))"

definition emitter_close :: "emitter \<Rightarrow> emitter" where
  "emitter_close em = em\<lparr>em_observers := [], em_closed := True\<rparr>"

text \<open>
  \<^verbatim>\<open>Emitter.emit\<close>: every observer is run, whatever the others do; only the failure of a
  critical one is raised. \<open>emitter_delivers\<close> says whether the observers see the event.
\<close>

definition emitter_delivers :: "emitter \<Rightarrow> bool" where
  "emitter_delivers em \<longleftrightarrow> \<not> em_closed em \<and> em_observers em \<noteq> []"

definition emitter_emit :: "emitter \<Rightarrow> observation_event \<Rightarrow> exn + unit" where
  "emitter_emit em event =
     (if em_closed em \<or> em_observers em = [] then Inr ()
      else let results = map (\<lambda>ob. (ob, ob_raises ob event)) (em_observers em);
               critical_failures = filter (\<lambda>(ob, failed). failed \<and> ob_critical ob) results
           in raise_when (critical_failures \<noteq> []) CriticalObserverError)"

lemma emitter_emit_iff:
  "emitter_emit em event = Inl CriticalObserverError \<longleftrightarrow>
     \<not> em_closed em \<and> (\<exists>ob \<in> set (em_observers em). ob_critical ob \<and> ob_raises ob event)"
  by (auto simp: emitter_emit_def Let_def raise_when_def filter_empty_conv)

lemma emitter_emit_Inl: "emitter_emit em event = Inl e \<Longrightarrow> e = CriticalObserverError"
  by (auto simp: emitter_emit_def Let_def raise_when_def split: if_splits)

text \<open>Telemetry isolation: observers that are not critical cannot fail the caller.\<close>

lemma emitter_emit_telemetry:
  "\<forall>ob \<in> set (em_observers em). \<not> ob_critical ob \<Longrightarrow> emitter_emit em event = Inr ()"
  by (auto simp: emitter_emit_def Let_def raise_when_def filter_empty_conv)

section \<open>Which event a status change publishes\<close>

fun session_event_kind :: "session_status \<Rightarrow> exn + observation_event_kind" where
  "session_event_kind Session_QUEUED = Inl KeyError"
| "session_event_kind Session_RUNNING = Inr SESSION_RUNNING"
| "session_event_kind Session_WAITING_GATE = Inr SESSION_WAITING_GATE"
| "session_event_kind Session_RESUMING = Inr SESSION_RESUMING"
| "session_event_kind Session_COMPLETED = Inr SESSION_COMPLETED"
| "session_event_kind Session_FAILED = Inr SESSION_FAILED"
| "session_event_kind Session_CANCELLED = Inr SESSION_CANCELLED"

fun node_event_kind :: "node_status \<Rightarrow> observation_event_kind option" where
  "node_event_kind Node_PENDING_GATE = Some NODE_PENDING_GATE"
| "node_event_kind Node_APPROVED = Some NODE_APPROVED"
| "node_event_kind Node_NEEDS_REVISION = Some NODE_NEEDS_REVISION"
| "node_event_kind Node_QUEUED = Some NODE_REVISED"
| "node_event_kind Node_RUNNING = None"
| "node_event_kind Node_COMPLETED = None"
| "node_event_kind Node_FAILED = None"
| "node_event_kind Node_STALE = None"

section \<open>Correlation\<close>

definition node_correlation :: "node_state \<Rightarrow> string option \<times> string option" where
  "node_correlation n =
     (case latest_attempt n of None \<Rightarrow> (None, None) | Some a \<Rightarrow> (na_trace_id a, Some (na_id a)))"

text \<open>\<^verbatim>\<open>max(attempts, key=...)\<close> keeps the first of several maximal elements.\<close>

definition attempt_time :: "node_attempt \<Rightarrow> time" where
  "attempt_time a = (case na_finished_at a of None \<Rightarrow> na_started_at a | Some t \<Rightarrow> t)"

fun latest_of :: "node_attempt \<Rightarrow> node_attempt list \<Rightarrow> node_attempt" where
  "latest_of best [] = best"
| "latest_of best (a # as) = latest_of (if attempt_time best < attempt_time a then a else best) as"

definition session_correlation :: "runtime_session \<Rightarrow> string option \<times> string option" where
  "session_correlation s =
     (case List.map_filter (\<lambda>(k, n). latest_attempt n) (rs_nodes s) of
        [] \<Rightarrow> (None, None)
      | a # as \<Rightarrow> (let latest = latest_of a as in (na_trace_id latest, Some (na_id latest))))"

definition attempt_correlation :: "node_attempt \<Rightarrow> string option \<times> string option" where
  "attempt_correlation a = (na_trace_id a, Some (na_id a))"

section \<open>Details\<close>

definition session_created_detail :: "string \<Rightarrow> nat \<Rightarrow> pydict" where
  "session_created_detail workflow_name node_count =
     [(''workflow_name'', JStr workflow_name), (''node_count'', JInt (int node_count))]"

definition node_output_detail :: "bool \<Rightarrow> pydict" where
  "node_output_detail has_output = [(''has_output'', JBool has_output)]"

definition node_error_detail :: "string \<Rightarrow> pydict" where
  "node_error_detail err = [(''error'', JStr err)]"

definition node_revision_detail :: "string \<Rightarrow> pydict" where
  "node_revision_detail reason = [(''reason'', JStr reason)]"

definition attempt_started_detail :: "node_attempt \<Rightarrow> string option \<Rightarrow> pydict" where
  "attempt_started_detail a trace_id =
     [(''attempt_id'', JStr (na_id a)), (''execution_id'', JStr (na_id a)),
      (''attempt_no'', JInt (int (na_attempt_no a))), (''trace_id'', json_opt_str trace_id)]"

definition node_execution_started_detail :: "node_attempt \<Rightarrow> string option \<Rightarrow> pydict" where
  "node_execution_started_detail a trace_id =
     [(''execution_id'', JStr (na_id a)), (''attempt_no'', JInt (int (na_attempt_no a))),
      (''trace_id'', json_opt_str trace_id)]"

definition node_execution_completed_detail :: "node_attempt \<Rightarrow> bool \<Rightarrow> pydict" where
  "node_execution_completed_detail a has_output =
     [(''execution_id'', JStr (na_id a)), (''attempt_no'', JInt (int (na_attempt_no a))),
      (''trace_id'', json_opt_str (na_trace_id a)), (''has_output'', JBool has_output)]"

definition node_execution_failed_detail :: "node_attempt \<Rightarrow> string \<Rightarrow> pydict" where
  "node_execution_failed_detail a err =
     [(''execution_id'', JStr (na_id a)), (''attempt_no'', JInt (int (na_attempt_no a))),
      (''trace_id'', json_opt_str (na_trace_id a)), (''error'', JStr err)]"

definition node_execution_aborted_detail :: "node_attempt \<Rightarrow> string \<Rightarrow> pydict" where
  "node_execution_aborted_detail a reason =
     [(''execution_id'', JStr (na_id a)), (''attempt_no'', JInt (int (na_attempt_no a))),
      (''trace_id'', json_opt_str (na_trace_id a)), (''reason'', JStr reason)]"

definition expired_execution_aborted_detail ::
    "node_attempt \<Rightarrow> string option \<Rightarrow> string option \<Rightarrow> pydict" where
  "expired_execution_aborted_detail a lease_owner lease_expires_at =
     [(''execution_id'', JStr (na_id a)), (''attempt_no'', JInt (int (na_attempt_no a))),
      (''trace_id'', json_opt_str (na_trace_id a)), (''reason'', JStr ''execution_lease_expired''),
      (''lease_owner'', json_opt_str lease_owner),
      (''lease_expires_at'', json_opt_str lease_expires_at)]"

definition recovered_node_revised_detail :: "node_attempt \<Rightarrow> pydict" where
  "recovered_node_revised_detail a =
     [(''reason'', JStr ''expired_execution_lease_recovered''), (''execution_id'', JStr (na_id a))]"

definition execution_lease_detail :: "string option \<Rightarrow> string \<Rightarrow> pydict" where
  "execution_lease_detail lease_owner lease_expires_at =
     [(''lease_owner'', json_opt_str lease_owner), (''lease_expires_at'', JStr lease_expires_at)]"

definition execution_lease_released_detail :: "string option \<Rightarrow> pydict" where
  "execution_lease_released_detail lease_owner = [(''lease_owner'', json_opt_str lease_owner)]"

definition gate_recorded_detail :: "string \<Rightarrow> string \<Rightarrow> string \<Rightarrow> pydict" where
  "gate_recorded_detail gate_id gate_name outcome =
     [(''gate_id'', JStr gate_id), (''gate_name'', JStr gate_name), (''outcome'', JStr outcome)]"

definition gate_decision_detail :: "string \<Rightarrow> string \<Rightarrow> string \<Rightarrow> pydict" where
  "gate_decision_detail gate_id action target_node_status =
     [(''gate_id'', JStr gate_id), (''action'', JStr action),
      (''target_node_status'', JStr target_node_status)]"

section \<open>The reporter\<close>

fun node_status_value :: "node_status \<Rightarrow> string" where
  "node_status_value Node_QUEUED = ''queued''"
| "node_status_value Node_RUNNING = ''running''"
| "node_status_value Node_PENDING_GATE = ''pending_gate''"
| "node_status_value Node_APPROVED = ''approved''"
| "node_status_value Node_NEEDS_REVISION = ''needs_revision''"
| "node_status_value Node_COMPLETED = ''completed''"
| "node_status_value Node_FAILED = ''failed''"
| "node_status_value Node_STALE = ''stale''"

definition session_created :: "string \<Rightarrow> string \<Rightarrow> nat \<Rightarrow> event_builder" where
  "session_created session_id workflow_name node_count =
     event_draft SESSION_CREATED session_id None (None, None) None
       (session_created_detail workflow_name node_count)"

definition session_transition_event :: "string \<Rightarrow> runtime_session \<Rightarrow> session_status \<Rightarrow> exn + event_builder" where
  "session_transition_event session_id s st =
     and_then (session_event_kind st) (\<lambda>kind.
       Inr (event_draft kind session_id None (session_correlation s) None []))"

definition node_started :: "string \<Rightarrow> string \<Rightarrow> event_builder" where
  "node_started session_id key = event_draft NODE_STARTED session_id (Some key) (None, None) None []"

definition node_transition_event :: "string \<Rightarrow> node_state \<Rightarrow> node_status \<Rightarrow> event_builder option" where
  "node_transition_event session_id n st =
     (case node_event_kind st of
        None \<Rightarrow> None
      | Some kind \<Rightarrow> Some (event_draft kind session_id (Some (ns_key n)) (node_correlation n) None []))"

definition node_execution_completed :: "string \<Rightarrow> string \<Rightarrow> node_attempt \<Rightarrow> bool \<Rightarrow> event_builder" where
  "node_execution_completed session_id key a has_output =
     event_draft NODE_EXECUTION_COMPLETED session_id (Some key) (attempt_correlation a) None
       (node_execution_completed_detail a has_output)"

definition node_completed :: "string \<Rightarrow> node_state \<Rightarrow> bool \<Rightarrow> event_builder" where
  "node_completed session_id n has_output =
     event_draft NODE_COMPLETED session_id (Some (ns_key n)) (node_correlation n) None
       (node_output_detail has_output)"

definition node_execution_failed :: "string \<Rightarrow> string \<Rightarrow> node_attempt \<Rightarrow> string \<Rightarrow> event_builder" where
  "node_execution_failed session_id key a err =
     event_draft NODE_EXECUTION_FAILED session_id (Some key) (attempt_correlation a) None
       (node_execution_failed_detail a err)"

definition node_failed :: "string \<Rightarrow> node_state \<Rightarrow> string \<Rightarrow> event_builder" where
  "node_failed session_id n err =
     event_draft NODE_FAILED session_id (Some (ns_key n)) (node_correlation n) None
       (node_error_detail err)"

definition node_execution_aborted ::
    "string \<Rightarrow> string \<Rightarrow> node_attempt \<Rightarrow> string \<Rightarrow> string option \<Rightarrow> event_builder" where
  "node_execution_aborted session_id key a reason actor =
     event_draft NODE_EXECUTION_ABORTED session_id (Some key) (attempt_correlation a) actor
       (node_execution_aborted_detail a reason)"

definition expired_node_execution_aborted ::
    "string \<Rightarrow> recovered_node_execution \<Rightarrow> string option \<Rightarrow> event_builder" where
  "expired_node_execution_aborted session_id r actor =
     event_draft NODE_EXECUTION_ABORTED session_id (Some (rn_node_key r))
       (attempt_correlation (rn_attempt r)) actor
       (expired_execution_aborted_detail (rn_attempt r) (rn_lease_owner r)
         (map_option py_isoformat (rn_lease_expires_at r)))"

definition node_revised :: "string \<Rightarrow> node_state \<Rightarrow> string \<Rightarrow> string option \<Rightarrow> event_builder" where
  "node_revised session_id n reason actor =
     event_draft NODE_REVISED session_id (Some (ns_key n)) (node_correlation n) actor
       (node_revision_detail reason)"

definition recovered_node_revised ::
    "string \<Rightarrow> recovered_node_execution \<Rightarrow> string option \<Rightarrow> event_builder" where
  "recovered_node_revised session_id r actor =
     event_draft NODE_REVISED session_id (Some (rn_node_key r)) (attempt_correlation (rn_attempt r))
       actor (recovered_node_revised_detail (rn_attempt r))"

definition attempt_started :: "string \<Rightarrow> string \<Rightarrow> node_attempt \<Rightarrow> string option \<Rightarrow> event_builder" where
  "attempt_started session_id key a trace_id =
     event_draft ATTEMPT_STARTED session_id (Some key) (attempt_correlation a) None
       (attempt_started_detail a trace_id)"

definition node_execution_started :: "string \<Rightarrow> string \<Rightarrow> node_attempt \<Rightarrow> string option \<Rightarrow> event_builder" where
  "node_execution_started session_id key a trace_id =
     event_draft NODE_EXECUTION_STARTED session_id (Some key) (attempt_correlation a) None
       (node_execution_started_detail a trace_id)"

definition execution_lease_granted :: "string \<Rightarrow> node_attempt \<Rightarrow> string \<Rightarrow> event_builder" where
  "execution_lease_granted session_id a lease_expires_at =
     event_draft EXECUTION_LEASE_GRANTED session_id (Some (na_node_key a)) (attempt_correlation a)
       (na_lease_owner a) (execution_lease_detail (na_lease_owner a) lease_expires_at)"

definition execution_lease_heartbeat :: "string \<Rightarrow> node_attempt \<Rightarrow> string \<Rightarrow> event_builder" where
  "execution_lease_heartbeat session_id a lease_expires_at =
     event_draft EXECUTION_LEASE_HEARTBEAT session_id (Some (na_node_key a)) (attempt_correlation a)
       (na_lease_owner a) (execution_lease_detail (na_lease_owner a) lease_expires_at)"

definition execution_lease_released :: "string \<Rightarrow> node_attempt \<Rightarrow> string option \<Rightarrow> event_builder" where
  "execution_lease_released session_id a owner =
     event_draft EXECUTION_LEASE_RELEASED session_id (Some (na_node_key a)) (attempt_correlation a)
       owner (execution_lease_released_detail owner)"

definition gate_recorded :: "string \<Rightarrow> node_state \<Rightarrow> string \<Rightarrow> string \<Rightarrow> string \<Rightarrow> event_builder" where
  "gate_recorded session_id n gate_id gate_name outcome =
     event_draft GATE_RECORDED session_id (Some (ns_key n)) (node_correlation n) None
       (gate_recorded_detail gate_id gate_name outcome)"

definition gate_decision_applied ::
    "string \<Rightarrow> node_state \<Rightarrow> string \<Rightarrow> string \<Rightarrow> string \<Rightarrow> string \<Rightarrow> event_builder" where
  "gate_decision_applied session_id n gate_id action actor target =
     event_draft DECISION_APPLIED session_id (Some (ns_key n)) (node_correlation n) (Some actor)
       (gate_decision_detail gate_id action target)"

section \<open>Facts\<close>

lemma latest_of_member: "latest_of best as \<in> set (best # as)"
proof (induction as arbitrary: best)
  case (Cons a as)
  show ?case
    using Cons.IH [of a] Cons.IH [of best] by (cases "attempt_time best < attempt_time a") auto
qed simp

lemma latest_of_max: "a \<in> set (best # as) \<Longrightarrow> attempt_time a \<le> attempt_time (latest_of best as)"
proof (induction as arbitrary: best a)
  case (Cons b as)
  show ?case
  proof (cases "attempt_time best < attempt_time b")
    case True
    then show ?thesis
      using Cons.IH [of b b] Cons.IH [of a b] Cons.prems by auto
  next
    case False
    then show ?thesis
      using Cons.IH [of best best] Cons.IH [of a best] Cons.prems by auto
  qed
qed simp

lemma valid_transition_has_event:
  "is_valid_session_transition st st' \<Longrightarrow> \<exists>kind. session_event_kind st' = Inr kind"
  by (cases st; cases st') (simp_all add: status_simps)

end
