(* ===== verification/Session_Workflow.thy ===== *)
theory Session_Workflow
  imports Node_Lifecycle Py_Values
begin

text \<open>
  \<^verbatim>\<open>control/session_workflow.py\<close>: applying a workflow revision to a live session. A
  Python set of node keys is a list here, read through membership; it is sorted, without
  duplicates, wherever the code sorts it. The order in which the source seeds its frontier from a set
  cannot be observed: the result is the set of descendants.
\<close>

section \<open>Blueprints\<close>

definition blueprint_keys :: "workflow_blueprint \<Rightarrow> string list" where
  "blueprint_keys b = map wn_key (wb_nodes b)"

fun duplicate_key :: "string list \<Rightarrow> string list \<Rightarrow> bool" where
  "duplicate_key keys [] = False"
| "duplicate_key keys (k # ks) = (k \<in> set keys \<or> duplicate_key (k # keys) ks)"

definition validate_blueprint :: "workflow_blueprint \<Rightarrow> exn + unit" where
  "validate_blueprint b =
     and_then (raise_when (duplicate_key [] (blueprint_keys b)) ValueError) (\<lambda>_.
       raise_when (list_ex (\<lambda>n. list_ex (\<lambda>r. r \<notin> set (blueprint_keys b)) (wn_requires n))
         (wb_nodes b)) ValueError)"

text \<open>\<^verbatim>\<open>children.get(current, [])\<close>: one entry per requirement, in blueprint order.\<close>

definition children_of :: "workflow_blueprint \<Rightarrow> string \<Rightarrow> string list" where
  "children_of b current =
     concat (map (\<lambda>n. map (\<lambda>_. wn_key n) (filter (\<lambda>r. r = current) (wn_requires n))) (wb_nodes b))"

text \<open>The loop over the children of one node: the new descendants, and those just added.\<close>

fun visit_children :: "string list \<Rightarrow> string list \<Rightarrow> string list \<times> string list" where
  "visit_children [] descendants = (descendants, [])"
| "visit_children (child # children) descendants =
     (if child \<in> set descendants then visit_children children descendants
      else case visit_children children (descendants @ [child]) of
             (ds, added) \<Rightarrow> (ds, child # added))"

lemma visit_children_spec:
  assumes "visit_children cs ds = (ds', added)"
  shows "ds' = ds @ added" "set added = set cs - set ds"
proof -
  have "ds' = ds @ added \<and> set added = set cs - set ds"
    using assms
  proof (induction cs arbitrary: ds added)
    case Nil
    then show ?case by simp
  next
    case (Cons c cs)
    show ?case
    proof (cases "c \<in> set ds")
      case True
      then show ?thesis using Cons.IH [of ds added] Cons.prems by auto
    next
      case False
      then obtain ad where ad: "visit_children cs (ds @ [c]) = (ds', ad)" "added = c # ad"
        using Cons.prems by (auto split: prod.splits)
      from Cons.IH [OF ad(1)] False ad(2) show ?thesis by auto
    qed
  qed
  then show "ds' = ds @ added" "set added = set cs - set ds" by simp_all
qed

lemma set_children_of:
  "set (children_of b c) = {wn_key n | n. n \<in> set (wb_nodes b) \<and> c \<in> set (wn_requires n)}"
  by (auto simp: children_of_def)

lemma children_keys: "set (children_of b c) \<subseteq> set (blueprint_keys b)"
  by (auto simp: set_children_of blueprint_keys_def)

function walk_descendants ::
    "workflow_blueprint \<Rightarrow> string list \<Rightarrow> string list \<Rightarrow> string list" where
  "walk_descendants b [] descendants = descendants"
| "walk_descendants b (current # frontier) descendants =
     (case visit_children (children_of b current) descendants of
        (ds, added) \<Rightarrow> walk_descendants b (frontier @ added) ds)"
  by pat_completeness auto
termination
proof (relation "measures [\<lambda>(b, fr, ds). card (set (blueprint_keys b) - set ds), \<lambda>(b, fr, ds). length fr]")
  fix b current frontier descendants ds added
  assume "(ds, added) = visit_children (children_of b current) descendants"
  then have v: "ds = descendants @ added" "set added = set (children_of b current) - set descendants"
    using visit_children_spec [of "children_of b current" descendants ds added] by auto
  show "((b, frontier @ added, ds), b, current # frontier, descendants) \<in>
    measures [\<lambda>(b, fr, ds). card (set (blueprint_keys b) - set ds), \<lambda>(b, fr, ds). length fr]"
  proof (cases "added = []")
    case True
    with v show ?thesis by simp
  next
    case False
    then obtain k where k: "k \<in> set added" by (cases added) auto
    have "set (blueprint_keys b) - set ds \<subset> set (blueprint_keys b) - set descendants"
      using k v children_keys [of b current] by auto
    then have "card (set (blueprint_keys b) - set ds) < card (set (blueprint_keys b) - set descendants)"
      by (intro psubset_card_mono) auto
    then show ?thesis by simp
  qed
qed simp

definition descendant_keys :: "workflow_blueprint \<Rightarrow> string list \<Rightarrow> string list" where
  "descendant_keys b roots = (if roots = [] then [] else walk_descendants b roots [])"

section \<open>Moving one node\<close>

definition mark_node_stale_for_revision :: "(node_status \<Rightarrow> time) \<Rightarrow> node_state \<Rightarrow> exn + node_state" where
  "mark_node_stale_for_revision tick n =
     (if ns_status n = Node_STALE then Inr n
      else if ns_status n \<in> {Node_RUNNING, Node_PENDING_GATE} then Inl InvalidTransitionError
      else and_then (if ns_status n = Node_NEEDS_REVISION
                     then node_transition (tick Node_QUEUED) Node_QUEUED n else Inr n) (\<lambda>n1.
        if ns_status n1 = Node_FAILED then Inl InvalidTransitionError
        else node_transition (tick Node_STALE) Node_STALE n1))"

definition requeue_node_for_revision :: "(node_status \<Rightarrow> time) \<Rightarrow> node_state \<Rightarrow> exn + node_state" where
  "requeue_node_for_revision tick n =
     (if ns_status n = Node_QUEUED then Inr n
      else if ns_status n = Node_RUNNING then Inl InvalidTransitionError
      else if ns_status n = Node_PENDING_GATE then Inr n
      else if ns_status n = Node_FAILED then Inl InvalidTransitionError
      else if ns_status n = Node_NEEDS_REVISION
        then node_transition (tick Node_QUEUED) Node_QUEUED n
      else and_then (if ns_status n \<noteq> Node_STALE
                     then node_transition (tick Node_STALE) Node_STALE n else Inr n) (\<lambda>n1.
        node_transition (tick Node_QUEUED) Node_QUEUED n1))"

section \<open>Applying a revision\<close>

record workflow_revision_summary =
  ws_added_node_keys :: "string list"
  ws_removed_node_keys :: "string list"
  ws_changed_node_keys :: "string list"
  ws_requeued_node_keys :: "string list"

definition sorted_keys :: "string list \<Rightarrow> string list" where
  "sorted_keys ks = sort (remdups ks)"

definition keys_minus :: "string list \<Rightarrow> string list \<Rightarrow> string list" where
  "keys_minus xs ys = filter (\<lambda>k. k \<notin> set ys) xs"

text \<open>A \<^verbatim>\<open>for\<close> loop over keys that changes the nodes it finds and skips the others.\<close>

definition for_node :: "(string \<Rightarrow> node_state \<Rightarrow> exn + node_state) \<Rightarrow> string \<Rightarrow> runtime_session \<Rightarrow>
    exn + runtime_session" where
  "for_node f key s =
     (case session_node s key of
        None \<Rightarrow> Inr s
      | Some n \<Rightarrow> and_then (f key n) (\<lambda>n'. Inr (set_node key n' s)))"

definition add_node_for_revision ::
    "(string \<Rightarrow> node_status \<Rightarrow> time) \<Rightarrow> (string \<Rightarrow> time) \<Rightarrow> string \<Rightarrow> runtime_session \<Rightarrow>
     exn + runtime_session" where
  "add_node_for_revision tick born key s =
     (case session_node s key of
        Some n \<Rightarrow> and_then (requeue_node_for_revision (tick key) n) (\<lambda>n'. Inr (set_node key n' s))
      | None \<Rightarrow> Inr (set_node key (new_node (born key) key) s))"

definition revision_keys ::
    "workflow_revision \<Rightarrow> string list \<times> string list \<times> string list \<times> string list" where
  "revision_keys r =
     (let current = blueprint_keys (wr_current_blueprint r);
          revised = blueprint_keys (wr_revised_blueprint r);
          changed = wr_changed_node_keys r;
          removed = keys_minus current revised;
          added = keys_minus revised current;
          requeue = keys_minus (changed @ descendant_keys (wr_current_blueprint r) (changed @ removed))
                      removed
      in (added, removed, changed, requeue))"

definition revision_record ::
    "workflow_revision \<Rightarrow> time \<Rightarrow> string list \<Rightarrow> string list \<Rightarrow> string list \<Rightarrow> string list \<Rightarrow> json" where
  "revision_record r now added removed changed requeue = JObj
     [(''reason'', JStr (wr_reason r)), (''feedback_refs'', json_strs (wr_feedback_refs r)),
      (''added_node_keys'', json_strs (sorted_keys added)),
      (''removed_node_keys'', json_strs (sorted_keys removed)),
      (''changed_node_keys'', json_strs (sorted_keys changed)),
      (''requeued_node_keys'', json_strs (sorted_keys requeue)),
      (''applied_at'', JStr (py_isoformat now))]"

definition apply_workflow_revision ::
    "workflow_revision \<Rightarrow> time \<Rightarrow> (string \<Rightarrow> node_status \<Rightarrow> time) \<Rightarrow> (string \<Rightarrow> time) \<Rightarrow>
     runtime_session \<Rightarrow> exn + (workflow_revision_summary \<times> runtime_session)" where
  "apply_workflow_revision r now tick born s =
     and_then (validate_blueprint (wr_current_blueprint r)) (\<lambda>_.
     and_then (validate_blueprint (wr_revised_blueprint r)) (\<lambda>_.
     and_then (raise_when (list_ex (\<lambda>k. k \<notin> set (blueprint_keys (wr_current_blueprint r)) \<or>
         k \<notin> set (blueprint_keys (wr_revised_blueprint r))) (wr_changed_node_keys r)) ValueError) (\<lambda>_.
     case revision_keys r of (added, removed, changed, requeue) \<Rightarrow>
     and_then (fold_err (add_node_for_revision tick born) (sorted_keys added) s) (\<lambda>s1.
     and_then (fold_err (for_node (\<lambda>k. mark_node_stale_for_revision (tick k))) (sorted_keys removed) s1) (\<lambda>s2.
     and_then (fold_err (for_node (\<lambda>k. requeue_node_for_revision (tick k))) (sorted_keys requeue) s2) (\<lambda>s3.
       let history = (case map_of (rs_metadata s3) ''workflow_revisions'' of
             Some (JList h) \<Rightarrow> h | _ \<Rightarrow> []);
           metadata = AList.update ''workflow_revisions''
             (JList (history @ [revision_record r now added removed changed requeue]))
             (dict_merge (rs_metadata s3) (wr_metadata r))
       in Inr (\<lparr>ws_added_node_keys = sorted_keys added, ws_removed_node_keys = sorted_keys removed,
                ws_changed_node_keys = sorted_keys changed, ws_requeued_node_keys = sorted_keys requeue\<rparr>,
              s3\<lparr>rs_metadata := metadata, rs_updated_at := now\<rparr>)))))))"

section \<open>Descendants\<close>

definition requires_edge :: "workflow_blueprint \<Rightarrow> string \<Rightarrow> string \<Rightarrow> bool" where
  "requires_edge b r k \<longleftrightarrow> k \<in> set (children_of b r)"

lemma walk_descendants_sound:
  assumes "\<forall>k \<in> set fr \<union> set ds. k \<in> R \<or> (\<exists>r \<in> R. (requires_edge b)\<^sup>+\<^sup>+ r k)"
    and "\<forall>k \<in> set ds. \<exists>r \<in> R. (requires_edge b)\<^sup>+\<^sup>+ r k"
    and "k \<in> set (walk_descendants b fr ds)"
  shows "\<exists>r \<in> R. (requires_edge b)\<^sup>+\<^sup>+ r k"
  using assms
proof (induction b fr ds rule: walk_descendants.induct)
  case (1 b ds)
  then show ?case by simp
next
  case (2 b c fr ds)
  obtain ds' ad where v: "visit_children (children_of b c) ds = (ds', ad)" by force
  note sp = visit_children_spec [OF v]
  have new: "\<exists>r \<in> R. (requires_edge b)\<^sup>+\<^sup>+ r k" if "k \<in> set ad" for k
  proof -
    have e: "requires_edge b c k" using that sp by (simp add: requires_edge_def)
    consider "c \<in> R" | r where "r \<in> R" "(requires_edge b)\<^sup>+\<^sup>+ r c"
      using "2.prems"(1) by auto
    then show ?thesis
      using e by cases (blast intro: tranclp.r_into_trancl tranclp.trancl_into_trancl)+
  qed
  show ?case
  proof (rule "2.IH" [OF v [symmetric]])
    show "\<forall>k \<in> set (fr @ ad) \<union> set ds'. k \<in> R \<or> (\<exists>r \<in> R. (requires_edge b)\<^sup>+\<^sup>+ r k)"
      using "2.prems"(1) new sp by auto
    show "\<forall>k \<in> set ds'. \<exists>r \<in> R. (requires_edge b)\<^sup>+\<^sup>+ r k"
      using "2.prems"(2) new sp by auto
    show "k \<in> set (walk_descendants b (fr @ ad) ds')"
      using "2.prems"(3) v by simp
  qed
qed

lemma walk_descendants_closed:
  assumes "\<forall>x y. requires_edge b x y \<longrightarrow> x \<in> D \<longrightarrow> x \<in> set fr \<or> y \<in> set ds"
    and "D \<subseteq> R \<union> set ds" "R \<union> set ds \<subseteq> D"
  shows "\<forall>x y. requires_edge b x y \<longrightarrow> x \<in> R \<union> set (walk_descendants b fr ds) \<longrightarrow>
    y \<in> set (walk_descendants b fr ds)"
  using assms
proof (induction b fr ds arbitrary: D rule: walk_descendants.induct)
  case (1 b ds)
  then show ?case by auto
next
  case (2 b c fr ds)
  obtain ds' ad where v: "visit_children (children_of b c) ds = (ds', ad)" by force
  note sp = visit_children_spec [OF v]
  have step: "\<forall>x y. requires_edge b x y \<longrightarrow> x \<in> R \<union> set ds' \<longrightarrow> x \<in> set (fr @ ad) \<or> y \<in> set ds'"
  proof (intro allI impI)
    fix x y
    assume xy: "requires_edge b x y" and x: "x \<in> R \<union> set ds'"
    show "x \<in> set (fr @ ad) \<or> y \<in> set ds'"
    proof (cases "x \<in> set ad \<or> x = c")
      case True
      with xy sp show ?thesis by (auto simp: requires_edge_def)
    next
      case False
      then have "x \<in> D" using x sp "2.prems"(3) by auto
      with "2.prems"(1) xy False sp show ?thesis by auto
    qed
  qed
  show ?case
    using "2.IH" [OF v [symmetric] step] v by simp
qed

lemma set_descendant_keys:
  "set (descendant_keys b roots) = {k. \<exists>r \<in> set roots. (requires_edge b)\<^sup>+\<^sup>+ r k}"
proof (cases "roots = []")
  case True
  then show ?thesis by (simp add: descendant_keys_def)
next
  case False
  let ?W = "set (walk_descendants b roots [])"
  have closed: "requires_edge b x y \<Longrightarrow> x \<in> set roots \<union> ?W \<Longrightarrow> y \<in> ?W" for x y
    using walk_descendants_closed [of b "set roots" roots "[]" "set roots"] by auto
  have "(requires_edge b)\<^sup>+\<^sup>+ r k \<Longrightarrow> r \<in> set roots \<Longrightarrow> k \<in> ?W" for r k
    by (induction rule: tranclp_induct) (auto intro: closed)
  moreover have "k \<in> ?W \<Longrightarrow> \<exists>r \<in> set roots. (requires_edge b)\<^sup>+\<^sup>+ r k" for k
    by (rule walk_descendants_sound [where fr = roots and ds = "[]"]) auto
  ultimately show ?thesis
    using False by (auto simp: descendant_keys_def)
qed

section \<open>What a revision does\<close>

lemma set_sorted_keys [simp]: "set (sorted_keys ks) = set ks"
  by (simp add: sorted_keys_def)

lemma distinct_sorted_keys [simp]: "distinct (sorted_keys ks)"
  by (simp add: sorted_keys_def)

lemma set_keys_minus [simp]: "set (keys_minus xs ys) = set xs - set ys"
  by (auto simp: keys_minus_def)

lemma mark_node_stale_Inr:
  assumes "mark_node_stale_for_revision tick n = Inr m"
  shows "node_evolves n m" "ns_status m = Node_STALE"
proof -
  show "ns_status m = Node_STALE"
    using assms by (auto simp: mark_node_stale_for_revision_def split: if_splits)
  show "node_evolves n m"
    using assms
    by (auto simp: mark_node_stale_for_revision_def simp del: node_transition_Inr split: if_splits
        dest: node_evolves_transition intro: node_evolves_trans)
qed

lemma requeue_node_Inr:
  assumes "requeue_node_for_revision tick n = Inr m"
  shows "node_evolves n m" "ns_status m = Node_QUEUED \<or> (ns_status n = Node_PENDING_GATE \<and> m = n)"
proof -
  show "ns_status m = Node_QUEUED \<or> (ns_status n = Node_PENDING_GATE \<and> m = n)"
    using assms by (auto simp: requeue_node_for_revision_def split: if_splits)
  show "node_evolves n m"
    using assms
    by (auto simp: requeue_node_for_revision_def simp del: node_transition_Inr split: if_splits
        dest: node_evolves_transition intro: node_evolves_trans)
qed

text \<open>Which statuses a revision refuses.\<close>

lemma mark_node_stale_total_iff:
  "(\<exists>m. mark_node_stale_for_revision tick n = Inr m) \<longleftrightarrow>
     ns_status n \<notin> {Node_RUNNING, Node_PENDING_GATE, Node_FAILED}"
  by (cases "ns_status n")
     (auto simp: mark_node_stale_for_revision_def node_transition_def status_simps)

lemma requeue_node_total_iff:
  "(\<exists>m. requeue_node_for_revision tick n = Inr m) \<longleftrightarrow>
     ns_status n \<notin> {Node_RUNNING, Node_FAILED}"
  by (cases "ns_status n")
     (auto simp: requeue_node_for_revision_def node_transition_def status_simps)

text \<open>A loop over distinct keys changes each of them once and nothing else.\<close>

definition same_but_nodes :: "runtime_session \<Rightarrow> runtime_session \<Rightarrow> bool" where
  "same_but_nodes s t \<longleftrightarrow> t = s\<lparr>rs_nodes := rs_nodes t\<rparr>"

lemma same_but_nodes_refl [simp]: "same_but_nodes s s"
  by (simp add: same_but_nodes_def)

lemma same_but_nodes_set_node [simp]: "same_but_nodes s (set_node k n t) \<longleftrightarrow> same_but_nodes s t"
  by (cases s, cases t) (auto simp: same_but_nodes_def set_node_def)

lemma for_node_Inr:
  assumes "for_node f k s = Inr s'"
  shows "same_but_nodes t s \<Longrightarrow> same_but_nodes t s'" "j \<noteq> k \<Longrightarrow> session_node s' j = session_node s j"
    "session_node s k = None \<Longrightarrow> session_node s' k = None"
    "session_node s k = Some n \<Longrightarrow> \<exists>m. f k n = Inr m \<and> session_node s' k = Some m"
  using assms by (auto simp: for_node_def split: option.splits)

lemma add_node_Inr:
  assumes "add_node_for_revision tick born k s = Inr s'"
  shows "same_but_nodes t s \<Longrightarrow> same_but_nodes t s'" "j \<noteq> k \<Longrightarrow> session_node s' j = session_node s j"
    "session_node s k = None \<Longrightarrow> session_node s' k = Some (new_node (born k) k)"
    "session_node s k = Some n \<Longrightarrow>
       \<exists>m. requeue_node_for_revision (tick k) n = Inr m \<and> session_node s' k = Some m"
  using assms by (auto simp: add_node_for_revision_def split: option.splits)

lemma fold_err_per_key:
  assumes "fold_err step ks s = Inr s'" "distinct ks"
    and step_frame: "\<And>k s s' j. step k s = Inr s' \<Longrightarrow> j \<noteq> k \<Longrightarrow> session_node s' j = session_node s j"
    and step_key: "\<And>k s s'. step k s = Inr s' \<Longrightarrow> Q k (session_node s k) (session_node s' k)"
  shows "j \<notin> set ks \<Longrightarrow> session_node s' j = session_node s j"
    "j \<in> set ks \<Longrightarrow> Q j (session_node s j) (session_node s' j)"
proof -
  have "(j \<notin> set ks \<longrightarrow> session_node s' j = session_node s j) \<and>
        (j \<in> set ks \<longrightarrow> Q j (session_node s j) (session_node s' j))"
    using assms(1,2)
  proof (induction ks arbitrary: s)
    case (Cons k ks)
    then obtain s1 where s1: "step k s = Inr s1" and r: "fold_err step ks s1 = Inr s'" by auto
    have "distinct ks" using Cons.prems(2) by simp
    note ih = Cons.IH [OF r this]
    show ?case
    proof (cases "j = k")
      case True
      then show ?thesis
        using ih step_key [OF s1] Cons.prems(2) by auto
    next
      case False
      then show ?thesis
        using ih step_frame [OF s1 False] by auto
    qed
  qed simp
  then show "j \<notin> set ks \<Longrightarrow> session_node s' j = session_node s j"
    "j \<in> set ks \<Longrightarrow> Q j (session_node s j) (session_node s' j)" by auto
qed

lemma fold_err_same_but_nodes:
  assumes "fold_err step ks s = Inr s'"
    and "\<And>k s s'. step k s = Inr s' \<Longrightarrow> same_but_nodes t s \<Longrightarrow> same_but_nodes t s'"
    and "same_but_nodes t s"
  shows "same_but_nodes t s'"
  using assms(1,3) by (induction ks arbitrary: s) (auto intro: assms(2))

lemma evolves_for_node:
  assumes "for_node f k s = Inr s'" "\<And>n m. f k n = Inr m \<Longrightarrow> node_evolves n m"
  shows "evolves s s'"
  using assms by (auto simp: for_node_def intro: evolves_set_node split: option.splits)

lemma evolves_add_node:
  assumes "add_node_for_revision tick born k s = Inr s'"
  shows "evolves s s'"
proof (cases "session_node s k")
  case None
  then have "extends node_evolves (rs_nodes s) (AList.update k (new_node (born k) k) (rs_nodes s))"
    by (intro extends_update) (auto simp: session_node_def)
  with None assms show ?thesis
    by (auto simp: add_node_for_revision_def set_node_def intro: evolves_nodes)
next
  case (Some n)
  with assms show ?thesis
    by (auto simp: add_node_for_revision_def intro: evolves_set_node requeue_node_Inr(1))
qed

lemma evolves_fold_err:
  assumes "fold_err step ks s = Inr s'" "\<And>k s s'. step k s = Inr s' \<Longrightarrow> evolves s s'"
  shows "evolves s s'"
  by (rule fold_err_rule [OF assms(1)]) (auto intro: assms(2) evolves_trans)

text \<open>The three groups of keys that a revision works on are disjoint.\<close>

lemma descendant_keys_subset: "set (descendant_keys b roots) \<subseteq> set (blueprint_keys b)"
proof
  fix k assume "k \<in> set (descendant_keys b roots)"
  then obtain r where "(requires_edge b)\<^sup>+\<^sup>+ r k" by (auto simp: set_descendant_keys)
  then obtain z where "requires_edge b z k" by (cases rule: tranclp.cases) auto
  then show "k \<in> set (blueprint_keys b)"
    using children_keys [of b z] by (auto simp: requires_edge_def)
qed

lemma revision_keys_disjoint:
  assumes "revision_keys r = (added, removed, changed, requeue)"
    and "\<forall>k \<in> set (wr_changed_node_keys r). k \<in> set (blueprint_keys (wr_current_blueprint r)) \<and>
      k \<in> set (blueprint_keys (wr_revised_blueprint r))"
  shows "set added \<inter> set removed = {}" "set added \<inter> set requeue = {}" "set removed \<inter> set requeue = {}"
  using assms
  by (auto simp: revision_keys_def Let_def dest: descendant_keys_subset [THEN subsetD])

lemma apply_workflow_revision_InrD:
  assumes "apply_workflow_revision r now tick born s = Inr (w, s')"
  obtains added removed changed requeue s1 s2 s3 where
    "revision_keys r = (added, removed, changed, requeue)"
    "set added \<inter> set removed = {}" "set added \<inter> set requeue = {}" "set removed \<inter> set requeue = {}"
    "fold_err (add_node_for_revision tick born) (sorted_keys added) s = Inr s1"
    "fold_err (for_node (\<lambda>k. mark_node_stale_for_revision (tick k))) (sorted_keys removed) s1 = Inr s2"
    "fold_err (for_node (\<lambda>k. requeue_node_for_revision (tick k))) (sorted_keys requeue) s2 = Inr s3"
    "\<exists>md. s' = s3\<lparr>rs_metadata := md, rs_updated_at := now\<rparr>"
    "w = \<lparr>ws_added_node_keys = sorted_keys added, ws_removed_node_keys = sorted_keys removed,
       ws_changed_node_keys = sorted_keys changed, ws_requeued_node_keys = sorted_keys requeue\<rparr>"
proof -
  obtain added removed changed requeue where k: "revision_keys r = (added, removed, changed, requeue)"
    by (cases "revision_keys r") auto
  have ok: "\<forall>k \<in> set (wr_changed_node_keys r). k \<in> set (blueprint_keys (wr_current_blueprint r)) \<and>
      k \<in> set (blueprint_keys (wr_revised_blueprint r))"
    using assms by (auto simp: apply_workflow_revision_def list_ex_iff)
  show thesis
    using that [OF k revision_keys_disjoint [OF k ok]] assms k
    by (auto simp: apply_workflow_revision_def Let_def)
qed

lemma evolves_apply_workflow_revision [evolves_intros]:
  assumes "apply_workflow_revision r now tick born s = Inr (w, s')"
  shows "evolves s s'"
proof -
  obtain s1 s2 s3 ks1 ks2 ks3 md where
    1: "fold_err (add_node_for_revision tick born) ks1 s = Inr s1"
    and 2: "fold_err (for_node (\<lambda>k. mark_node_stale_for_revision (tick k))) ks2 s1 = Inr s2"
    and 3: "fold_err (for_node (\<lambda>k. requeue_node_for_revision (tick k))) ks3 s2 = Inr s3"
    and s': "s' = s3\<lparr>rs_metadata := md, rs_updated_at := now\<rparr>"
    using assms by (elim apply_workflow_revision_InrD) blast
  have "evolves s s1" using 1 by (rule evolves_fold_err) (rule evolves_add_node)
  moreover have "evolves s1 s2"
    using 2 by (rule evolves_fold_err) (auto intro: evolves_for_node mark_node_stale_Inr)
  moreover have "evolves s2 s3"
    using 3 by (rule evolves_fold_err) (auto intro: evolves_for_node requeue_node_Inr(1))
  ultimately have "evolves s s3" by (blast intro: evolves_trans)
  then show ?thesis by (simp add: s')
qed

text \<open>The status that a revision leaves each node in; \<open>old\<close> and \<open>new\<close> are its state before and after.\<close>

definition requeued_by_revision :: "node_state option \<Rightarrow> node_state option \<Rightarrow> bool" where
  "requeued_by_revision old new \<longleftrightarrow>
     (case new of None \<Rightarrow> old = None
      | Some m \<Rightarrow> ns_status m = Node_QUEUED \<or> (new = old \<and> ns_status m = Node_PENDING_GATE))"

definition staled_by_revision :: "node_state option \<Rightarrow> node_state option \<Rightarrow> bool" where
  "staled_by_revision old new \<longleftrightarrow>
     (case new of None \<Rightarrow> old = None | Some m \<Rightarrow> old \<noteq> None \<and> ns_status m = Node_STALE)"

lemma requeued_by_revision_for_node:
  assumes "for_node (\<lambda>k. requeue_node_for_revision (tick k)) k s = Inr s'"
  shows "requeued_by_revision (session_node s k) (session_node s' k)"
proof (cases "session_node s k")
  case None
  with for_node_Inr(3) [OF assms] show ?thesis by (simp add: requeued_by_revision_def)
next
  case (Some n)
  with for_node_Inr(4) [OF assms] show ?thesis
    by (auto simp: requeued_by_revision_def dest: requeue_node_Inr(2))
qed

lemma added_by_revision:
  assumes "add_node_for_revision tick born k s = Inr s'"
  shows "session_node s' k \<noteq> None \<and> requeued_by_revision (session_node s k) (session_node s' k)"
proof (cases "session_node s k")
  case None
  with add_node_Inr(3) [OF assms] show ?thesis by (simp add: requeued_by_revision_def new_node_def)
next
  case (Some n)
  with add_node_Inr(4) [OF assms] show ?thesis
    by (auto simp: requeued_by_revision_def dest: requeue_node_Inr(2))
qed

lemma staled_by_revision_for_node:
  assumes "for_node (\<lambda>k. mark_node_stale_for_revision (tick k)) k s = Inr s'"
  shows "staled_by_revision (session_node s k) (session_node s' k)"
proof (cases "session_node s k")
  case None
  with for_node_Inr(3) [OF assms] show ?thesis by (simp add: staled_by_revision_def)
next
  case (Some n)
  with for_node_Inr(4) [OF assms] show ?thesis
    by (auto simp: staled_by_revision_def dest: mark_node_stale_Inr(2))
qed

lemma added_group:
  assumes "fold_err (add_node_for_revision tick born) (sorted_keys ks) s = Inr s'"
  shows "k \<notin> set ks \<Longrightarrow> session_node s' k = session_node s k"
    "k \<in> set ks \<Longrightarrow> session_node s' k \<noteq> None \<and> requeued_by_revision (session_node s k) (session_node s' k)"
proof -
  note r = fold_err_per_key [where Q = "\<lambda>_ x y. y \<noteq> None \<and> requeued_by_revision x y" and j = k, OF assms distinct_sorted_keys]
  show "k \<notin> set ks \<Longrightarrow> session_node s' k = session_node s k"
    by (rule r(1), erule (1) add_node_Inr(2), erule added_by_revision, simp)
  show "k \<in> set ks \<Longrightarrow> session_node s' k \<noteq> None \<and> requeued_by_revision (session_node s k) (session_node s' k)"
    by (rule r(2), erule (1) add_node_Inr(2), erule added_by_revision, simp)
qed

lemma removed_group:
  assumes "fold_err (for_node (\<lambda>k. mark_node_stale_for_revision (tick k))) (sorted_keys ks) s = Inr s'"
  shows "k \<notin> set ks \<Longrightarrow> session_node s' k = session_node s k"
    "k \<in> set ks \<Longrightarrow> staled_by_revision (session_node s k) (session_node s' k)"
proof -
  note r = fold_err_per_key [where Q = "\<lambda>_. staled_by_revision" and j = k, OF assms distinct_sorted_keys]
  show "k \<notin> set ks \<Longrightarrow> session_node s' k = session_node s k"
    by (rule r(1), erule (1) for_node_Inr(2), erule staled_by_revision_for_node, simp)
  show "k \<in> set ks \<Longrightarrow> staled_by_revision (session_node s k) (session_node s' k)"
    by (rule r(2), erule (1) for_node_Inr(2), erule staled_by_revision_for_node, simp)
qed

lemma requeued_group:
  assumes "fold_err (for_node (\<lambda>k. requeue_node_for_revision (tick k))) (sorted_keys ks) s = Inr s'"
  shows "k \<notin> set ks \<Longrightarrow> session_node s' k = session_node s k"
    "k \<in> set ks \<Longrightarrow> requeued_by_revision (session_node s k) (session_node s' k)"
proof -
  note r = fold_err_per_key [where Q = "\<lambda>_. requeued_by_revision" and j = k, OF assms distinct_sorted_keys]
  show "k \<notin> set ks \<Longrightarrow> session_node s' k = session_node s k"
    by (rule r(1), erule (1) for_node_Inr(2), erule requeued_by_revision_for_node, simp)
  show "k \<in> set ks \<Longrightarrow> requeued_by_revision (session_node s k) (session_node s' k)"
    by (rule r(2), erule (1) for_node_Inr(2), erule requeued_by_revision_for_node, simp)
qed

lemma revision_effect:
  assumes "apply_workflow_revision r now tick born s = Inr (w, s')"
  shows "k \<in> set (ws_added_node_keys w) \<Longrightarrow>
      session_node s' k \<noteq> None \<and> requeued_by_revision (session_node s k) (session_node s' k)"
    and "k \<in> set (ws_removed_node_keys w) \<Longrightarrow>
      staled_by_revision (session_node s k) (session_node s' k)"
    and "k \<in> set (ws_requeued_node_keys w) \<Longrightarrow>
      requeued_by_revision (session_node s k) (session_node s' k)"
    and "k \<notin> set (ws_added_node_keys w) \<Longrightarrow> k \<notin> set (ws_removed_node_keys w) \<Longrightarrow>
      k \<notin> set (ws_requeued_node_keys w) \<Longrightarrow> session_node s' k = session_node s k"
proof -
  obtain added removed changed requeue s1 s2 s3 md where
    dis: "set added \<inter> set removed = {}" "set added \<inter> set requeue = {}" "set removed \<inter> set requeue = {}"
    and 1: "fold_err (add_node_for_revision tick born) (sorted_keys added) s = Inr s1"
    and 2: "fold_err (for_node (\<lambda>k. mark_node_stale_for_revision (tick k))) (sorted_keys removed) s1 = Inr s2"
    and 3: "fold_err (for_node (\<lambda>k. requeue_node_for_revision (tick k))) (sorted_keys requeue) s2 = Inr s3"
    and s': "s' = s3\<lparr>rs_metadata := md, rs_updated_at := now\<rparr>"
    and w: "w = \<lparr>ws_added_node_keys = sorted_keys added, ws_removed_node_keys = sorted_keys removed,
       ws_changed_node_keys = sorted_keys changed, ws_requeued_node_keys = sorted_keys requeue\<rparr>"
    using assms by (elim apply_workflow_revision_InrD) blast
  have a: "k \<notin> set added \<Longrightarrow> session_node s1 k = session_node s k"
    "k \<in> set added \<Longrightarrow> session_node s1 k \<noteq> None \<and>
       requeued_by_revision (session_node s k) (session_node s1 k)"
    using added_group [OF 1] by simp_all
  have st: "k \<notin> set removed \<Longrightarrow> session_node s2 k = session_node s1 k"
    "k \<in> set removed \<Longrightarrow> staled_by_revision (session_node s1 k) (session_node s2 k)"
    using removed_group [OF 2] by simp_all
  have rq: "k \<notin> set requeue \<Longrightarrow> session_node s3 k = session_node s2 k"
    "k \<in> set requeue \<Longrightarrow> requeued_by_revision (session_node s2 k) (session_node s3 k)"
    using requeued_group [OF 3] by simp_all
  have n: "session_node s' k = session_node s3 k" by (simp add: s' session_node_def)
  show "k \<in> set (ws_added_node_keys w) \<Longrightarrow>
      session_node s' k \<noteq> None \<and> requeued_by_revision (session_node s k) (session_node s' k)"
    using a(2) st(1) rq(1) dis n by (auto simp: w disjoint_iff)
  show "k \<in> set (ws_removed_node_keys w) \<Longrightarrow> staled_by_revision (session_node s k) (session_node s' k)"
    using a(1) st(2) rq(1) dis n by (cases "k \<in> set added") (auto simp: w disjoint_iff)
  show "k \<in> set (ws_requeued_node_keys w) \<Longrightarrow>
      requeued_by_revision (session_node s k) (session_node s' k)"
    using a(1) st(1) rq(2) dis n by (cases "k \<in> set added"; cases "k \<in> set removed") (auto simp: w disjoint_iff)
  show "k \<notin> set (ws_added_node_keys w) \<Longrightarrow> k \<notin> set (ws_removed_node_keys w) \<Longrightarrow>
      k \<notin> set (ws_requeued_node_keys w) \<Longrightarrow> session_node s' k = session_node s k"
    using a(1) st(1) rq(1) n by (auto simp: w)
qed

end
