(* ===== verification/Durable_Interactions.thy ===== *)
theory Durable_Interactions
  imports Session_History
begin

text \<open>
  \<^verbatim>\<open>control/session_interactions.py\<close> and
  \<^verbatim>\<open>control/session_durable_interactions.py\<close>: the log projection in the session metadata
  and the authoritative durable aggregate of a team interaction. Every operation on an aggregate
  returns it with the session; a replayed operation returns the aggregate it found. The JSON form
  of a log record is Pydantic's, so \<open>dump\<close> is a parameter.
\<close>

section \<open>The interaction log\<close>

definition interaction_idempotency_key :: "interaction_log_record \<Rightarrow> string" where
  "interaction_idempotency_key r =
     (let turn = (case il_turn_index r of None \<Rightarrow> ''-'' | Some i \<Rightarrow> py_str_int i);
          actor = (if truthy (il_actor r) then the (il_actor r) else ''-'')
      in ''interaction:'' @ il_interaction_id r @ '':'' @ log_event_kind_value (il_event_kind r) @
         '':'' @ il_execution_id r @ '':'' @ turn @ '':'' @ actor)"

text \<open>The entries of the log kept under \<^verbatim>\<open>metadata["interaction_log"]\<close>.\<close>

definition read_log_entries :: "json option \<Rightarrow> exn + json list" where
  "read_log_entries entry =
     (case entry of
        None \<Rightarrow> Inr []
      | Some JNull \<Rightarrow> Inr []
      | Some (JObj logged) \<Rightarrow> (case map_of logged ''entries'' of
            None \<Rightarrow> Inr []
          | Some (JList es) \<Rightarrow> Inr es
          | Some _ \<Rightarrow> Inl ValueError)
      | Some _ \<Rightarrow> Inl ValueError)"

definition append_interaction_log ::
    "(interaction_log_record \<Rightarrow> json) \<Rightarrow> interaction_log_record \<Rightarrow> time \<Rightarrow> runtime_session \<Rightarrow>
     exn + (interaction_log_record \<times> runtime_session)" where
  "append_interaction_log dump r now s =
     and_then (raise_when (il_session_id r \<noteq> rs_id s) ValueError) (\<lambda>_.
     and_then (read_log_entries (map_of (rs_metadata s) ''interaction_log'')) (\<lambda>entries.
       Inr (r, s\<lparr>rs_metadata := AList.update ''interaction_log''
              (JObj [(''entries'', JList (entries @ [dump r]))]) (rs_metadata s),
            rs_updated_at := now\<rparr>)))"

definition logged_entries :: "runtime_session \<Rightarrow> json list" where
  "logged_entries s =
     (case read_log_entries (map_of (rs_metadata s) ''interaction_log'') of
        Inl _ \<Rightarrow> [] | Inr es \<Rightarrow> es)"

lemma append_interaction_log_entries:
  "append_interaction_log dump r now s = Inr (x, s') \<Longrightarrow>
   x = r \<and> logged_entries s' = logged_entries s @ [dump r]"
  by (auto simp: append_interaction_log_def logged_entries_def) (simp add: read_log_entries_def)

lemma append_interaction_log_fields:
  assumes "append_interaction_log dump r now s = Inr (x, s')"
  shows "rs_id s' = rs_id s" "rs_version s' = rs_version s"
    "rs_processed_idempotency_keys s' = rs_processed_idempotency_keys s"
  using assms by (auto simp: append_interaction_log_def)

lemma evolves_append_interaction_log [evolves_intros]:
  "append_interaction_log dump r now s = Inr (x, s') \<Longrightarrow> evolves s s'"
  by (auto simp: append_interaction_log_def)

section \<open>Durable aggregates\<close>

definition put_interaction :: "string \<Rightarrow> durable_interaction \<Rightarrow> time \<Rightarrow> runtime_session \<Rightarrow> runtime_session"
  where
  "put_interaction i d now s =
     s\<lparr>rs_durable_interactions := AList.update i d (rs_durable_interactions s), rs_updated_at := now\<rparr>"

definition bumped :: "time \<Rightarrow> durable_interaction \<Rightarrow> durable_interaction" where
  "bumped now d = d\<lparr>di_version := di_version d + 1, di_updated_at := now\<rparr>"

definition start_durable_interaction ::
    "string \<Rightarrow> string \<Rightarrow> string \<Rightarrow> string \<Rightarrow> string \<Rightarrow> string \<Rightarrow> string list \<Rightarrow> string option \<Rightarrow> time \<Rightarrow>
     runtime_session \<Rightarrow> durable_interaction \<times> runtime_session" where
  "start_durable_interaction interaction_id node_key execution_id team_id protocol_mode topology
       member_ids workspace_id now s =
     (case map_of (rs_durable_interactions s) interaction_id of
        Some d \<Rightarrow> (d, s)
      | None \<Rightarrow>
          let d = \<lparr>di_id = interaction_id, di_session_id = rs_id s, di_node_key = node_key,
                   di_execution_id = execution_id, di_team_id = team_id,
                   di_protocol_mode = protocol_mode, di_topology = topology,
                   di_member_ids = member_ids, di_workspace_id = workspace_id,
                   di_status = Interaction_RUNNING, di_turns = [], di_messages = [],
                   di_outcome = None, di_version = 1, di_recovered_from_turn_index = None,
                   di_error = None, di_created_at = now, di_updated_at = now\<rparr>
          in (d, put_interaction interaction_id d now s))"

definition require_interaction :: "runtime_session \<Rightarrow> string \<Rightarrow> exn + durable_interaction" where
  "require_interaction s interaction_id =
     (case map_of (rs_durable_interactions s) interaction_id of
        None \<Rightarrow> Inl KeyError
      | Some d \<Rightarrow> Inr d)"

text \<open>\<^verbatim>\<open>DurableTurn(...)\<close> and \<^verbatim>\<open>DurableMessage(...)\<close> refuse a negative turn index.\<close>

definition make_durable_turn ::
    "string \<Rightarrow> int \<Rightarrow> string \<Rightarrow> turn_status \<Rightarrow> time \<Rightarrow> time option \<Rightarrow> exn + durable_turn" where
  "make_durable_turn interaction_id turn_index agent_id status now completed_at =
     (if turn_index < 0 then Inl ValidationError
      else Inr \<lparr>dt_id = ''turn-'' @ interaction_id @ ''-'' @ py_str_int turn_index,
                dt_interaction_id = interaction_id, dt_turn_index = turn_index,
                dt_agent_id = agent_id, dt_status = status, dt_created_at = now,
                dt_completed_at = completed_at, dt_lease_token = None, dt_lease_owner = None,
                dt_lease_expires_at = None, dt_last_heartbeat_at = None\<rparr>)"

definition record_durable_turn ::
    "string \<Rightarrow> int \<Rightarrow> string \<Rightarrow> turn_status \<Rightarrow> time \<Rightarrow> runtime_session \<Rightarrow>
     exn + (durable_interaction \<times> runtime_session)" where
  "record_durable_turn interaction_id turn_index agent_id status now s =
     and_then (require_interaction s interaction_id) (\<lambda>d.
       let completed_at = (if status = Turn_COMPLETED then Some now else None)
       in case turn_by_index d turn_index of
            Some t0 \<Rightarrow>
              if dt_status t0 = status then Inr (d, s)
              else let t = t0\<lparr>dt_status := status, dt_completed_at := completed_at\<rparr>;
                       d' = bumped now (d\<lparr>di_turns := map (\<lambda>x. if dt_turn_index x = turn_index
                              then t else x) (di_turns d)\<rparr>)
                   in Inr (d', put_interaction interaction_id d' now s)
          | None \<Rightarrow>
              and_then (make_durable_turn interaction_id turn_index agent_id status now completed_at)
                (\<lambda>t. let d' = bumped now (d\<lparr>di_turns := di_turns d @ [t]\<rparr>)
                     in Inr (d', put_interaction interaction_id d' now s)))"

definition durable_message_id :: "string \<Rightarrow> int \<Rightarrow> string \<Rightarrow> string" where
  "durable_message_id interaction_id turn_index sender =
     ''msg-'' @ interaction_id @ ''-'' @ py_str_int turn_index @ ''-'' @ sender"

definition record_durable_message ::
    "string \<Rightarrow> int \<Rightarrow> string \<Rightarrow> string \<Rightarrow> message_role \<Rightarrow> string option \<Rightarrow> time \<Rightarrow> runtime_session \<Rightarrow>
     exn + (durable_interaction \<times> runtime_session)" where
  "record_durable_message interaction_id turn_index sender content role in_reply_to now s =
     and_then (require_interaction s interaction_id) (\<lambda>d.
       let mid = durable_message_id interaction_id turn_index sender
       in if message_by_id d mid \<noteq> None then Inr (d, s)
          else if turn_index < 0 then Inl ValidationError
          else let m = \<lparr>dm_id = mid, dm_interaction_id = interaction_id, dm_turn_index = turn_index,
                        dm_sender = sender, dm_role = role, dm_content = content,
                        dm_in_reply_to = in_reply_to, dm_created_at = now\<rparr>;
                   d' = bumped now (d\<lparr>di_messages := di_messages d @ [m]\<rparr>)
               in Inr (d', put_interaction interaction_id d' now s))"

definition record_durable_outcome ::
    "string \<Rightarrow> vote_outcome option \<Rightarrow> coordinator_outcome option \<Rightarrow> time \<Rightarrow> runtime_session \<Rightarrow>
     exn + (durable_interaction \<times> runtime_session)" where
  "record_durable_outcome interaction_id vote coordinator now s =
     and_then (require_interaction s interaction_id) (\<lambda>d.
       if di_outcome d \<noteq> None then Inr (d, s)
       else if vote = None \<and> coordinator = None then Inr (d, s)
       else let d' = bumped now (d\<lparr>di_outcome := Some \<lparr>dp_vote = vote, dp_coordinator = coordinator,
                       dp_recorded_at = now\<rparr>\<rparr>)
            in Inr (d', put_interaction interaction_id d' now s))"

definition mark_durable_interaction_resumed ::
    "string \<Rightarrow> int \<Rightarrow> time \<Rightarrow> runtime_session \<Rightarrow> exn + (durable_interaction \<times> runtime_session)" where
  "mark_durable_interaction_resumed interaction_id recovered_from now s =
     and_then (require_interaction s interaction_id) (\<lambda>d.
       if di_recovered_from_turn_index d = Some recovered_from then Inr (d, s)
       else let d' = bumped now (d\<lparr>di_recovered_from_turn_index := Some recovered_from\<rparr>)
            in Inr (d', put_interaction interaction_id d' now s))"

definition complete_durable_interaction ::
    "string \<Rightarrow> interaction_status \<Rightarrow> string option \<Rightarrow> time \<Rightarrow> runtime_session \<Rightarrow>
     exn + (durable_interaction \<times> runtime_session)" where
  "complete_durable_interaction interaction_id status err now s =
     and_then (require_interaction s interaction_id) (\<lambda>d.
       if di_status d = status then Inr (d, s)
       else let d' = bumped now (d\<lparr>di_status := status, di_error := err\<rparr>)
            in Inr (d', put_interaction interaction_id d' now s))"

section \<open>Every operation extends the aggregate\<close>

lemma require_interaction_Inr [simp]:
  "require_interaction s i = Inr d \<longleftrightarrow> map_of (rs_durable_interactions s) i = Some d"
  by (auto simp: require_interaction_def split: option.splits)

lemma put_interaction_lookup [simp]:
  "map_of (rs_durable_interactions (put_interaction i d now s)) =
     (map_of (rs_durable_interactions s))(i \<mapsto> d)"
  by (simp add: put_interaction_def)

lemma put_interaction_fields [simp]:
  "rs_id (put_interaction i d now s) = rs_id s"
  "rs_version (put_interaction i d now s) = rs_version s"
  "rs_nodes (put_interaction i d now s) = rs_nodes s"
  "rs_status (put_interaction i d now s) = rs_status s"
  by (simp_all add: put_interaction_def)

lemma evolves_put_interaction:
  "(\<And>d. map_of (rs_durable_interactions s) i = Some d \<Longrightarrow> interaction_evolves d e) \<Longrightarrow>
   evolves s (put_interaction i e now s)"
  using evolves_interaction [of s i e] by (simp add: put_interaction_def)

lemma interaction_evolves_bumped:
  assumes "di_id e = di_id d" "di_session_id e = di_session_id d" "di_node_key e = di_node_key d"
    "di_execution_id e = di_execution_id d" "di_member_ids e = di_member_ids d"
    "di_version e = di_version d" "\<exists>ms. di_messages e = di_messages d @ ms"
    "\<exists>ks. map dt_turn_index (di_turns e) = map dt_turn_index (di_turns d) @ ks"
    "di_outcome d \<noteq> None \<longrightarrow> di_outcome e = di_outcome d"
  shows "interaction_evolves d (bumped now e)"
  using assms by (simp add: interaction_evolves_def bumped_def)

lemma turn_by_index_index: "turn_by_index d i = Some t \<Longrightarrow> dt_turn_index t = i \<and> t \<in> set (di_turns d)"
  by (auto simp: turn_by_index_def dest: find_Some_in)

lemma map_replace_turn_index:
  "dt_turn_index t = i \<Longrightarrow>
   map dt_turn_index (map (\<lambda>x. if dt_turn_index x = i then t else x) ts) = map dt_turn_index ts"
  by (induction ts) auto

lemma evolves_start_durable_interaction [evolves_intros]:
  "start_durable_interaction i nk ex tm pm tp ms ws now s = (d, s') \<Longrightarrow> evolves s s'"
  by (auto simp: start_durable_interaction_def Let_def intro!: evolves_put_interaction
      split: option.splits)

text \<open>The two ways a turn record can succeed.\<close>

lemma record_durable_turn_cases:
  assumes "record_durable_turn i ti ag st now s = Inr (d', s')"
  obtains d where "map_of (rs_durable_interactions s) i = Some d"
    "\<exists>t. turn_by_index d ti = Some t \<and> dt_status t = st" "d' = d" "s' = s"
  | d ts t where "map_of (rs_durable_interactions s) i = Some d"
    "d' = bumped now (d\<lparr>di_turns := ts\<rparr>)" "s' = put_interaction i d' now s"
    "\<exists>ks. map dt_turn_index ts = map dt_turn_index (di_turns d) @ ks"
    "List.find (\<lambda>x. dt_turn_index x = ti) ts = Some t" "dt_status t = st"
proof -
  obtain d where d: "map_of (rs_durable_interactions s) i = Some d"
    using assms by (auto simp: record_durable_turn_def)
  show thesis
  proof (cases "turn_by_index d ti")
    case None
    then obtain t where t: "make_durable_turn i ti ag st now (if st = Turn_COMPLETED then Some now else None)
        = Inr t" and d': "d' = bumped now (d\<lparr>di_turns := di_turns d @ [t]\<rparr>)"
      "s' = put_interaction i d' now s"
      using assms d by (auto simp: record_durable_turn_def Let_def)
    have ti: "dt_turn_index t = ti" "dt_status t = st"
      using t by (auto simp: make_durable_turn_def split: if_splits)
    have "List.find (\<lambda>x. dt_turn_index x = ti) (ts @ [t]) = Some t"
      if "List.find (\<lambda>x. dt_turn_index x = ti) ts = None" for ts
      using that ti by (induction ts) (auto split: if_splits)
    then show thesis
      using that(2) [OF d d'] None ti by (simp add: turn_by_index_def)
  next
    case (Some t0)
    then have i0: "dt_turn_index t0 = ti" by (simp add: turn_by_index_index)
    show thesis
    proof (cases "dt_status t0 = st")
      case True
      with that(1) [OF d] assms d Some show thesis by (simp add: record_durable_turn_def)
    next
      case False
      let ?t = "t0\<lparr>dt_status := st, dt_completed_at := (if st = Turn_COMPLETED then Some now else None)\<rparr>"
      let ?ts = "map (\<lambda>x. if dt_turn_index x = ti then ?t else x) (di_turns d)"
      have d': "d' = bumped now (d\<lparr>di_turns := ?ts\<rparr>)" "s' = put_interaction i d' now s"
        using assms d Some False by (auto simp: record_durable_turn_def Let_def)
      have "List.find (\<lambda>x. dt_turn_index x = ti) (map (\<lambda>x. if dt_turn_index x = ti then ?t else x) ts) = Some ?t"
        if "List.find (\<lambda>x. dt_turn_index x = ti) ts = Some t0" for ts
        using that i0 by (induction ts) (auto split: if_splits)
      then have f: "List.find (\<lambda>x. dt_turn_index x = ti) ?ts = Some ?t"
        using Some by (simp add: turn_by_index_def)
      have "map dt_turn_index ?ts = map dt_turn_index (di_turns d)"
        by (rule map_replace_turn_index) (simp add: i0)
      then have k: "\<exists>ks. map dt_turn_index ?ts = map dt_turn_index (di_turns d) @ ks"
        by (metis append_Nil2)
      show thesis by (rule that(2) [OF d d' k f]) simp
    qed
  qed
qed

lemma evolves_record_durable_turn [evolves_intros]:
  assumes "record_durable_turn i ti ag st now s = Inr (d', s')"
  shows "evolves s s'"
  using assms
proof (cases rule: record_durable_turn_cases)
  case (2 d ts t)
  then have "interaction_evolves d d'" by (auto intro!: interaction_evolves_bumped)
  with 2 show ?thesis by (auto intro!: evolves_put_interaction)
qed simp

lemma evolves_record_durable_message [evolves_intros]:
  assumes "record_durable_message i ti sd ct rl rp now s = Inr (d', s')"
  shows "evolves s s'"
  using assms
  by (auto simp: record_durable_message_def Let_def split: option.splits if_splits
      intro!: evolves_put_interaction interaction_evolves_bumped)

lemma evolves_record_durable_outcome [evolves_intros]:
  assumes "record_durable_outcome i v c now s = Inr (d', s')"
  shows "evolves s s'"
  using assms
  by (auto simp: record_durable_outcome_def Let_def split: if_splits
      intro!: evolves_put_interaction interaction_evolves_bumped)

lemma evolves_mark_resumed [evolves_intros]:
  assumes "mark_durable_interaction_resumed i r now s = Inr (d', s')"
  shows "evolves s s'"
  using assms
  by (auto simp: mark_durable_interaction_resumed_def Let_def split: if_splits
      intro!: evolves_put_interaction interaction_evolves_bumped)

lemma evolves_complete_durable_interaction [evolves_intros]:
  assumes "complete_durable_interaction i st e now s = Inr (d', s')"
  shows "evolves s s'"
  using assms
  by (auto simp: complete_durable_interaction_def Let_def split: if_splits
      intro!: evolves_put_interaction interaction_evolves_bumped)

section \<open>Replays\<close>

text \<open>The second delivery of the same logical record changes nothing.\<close>

lemma start_replay:
  "start_durable_interaction i nk ex tm pm tp ms ws now s = (d, s') \<Longrightarrow>
   start_durable_interaction i nk2 ex2 tm2 pm2 tp2 ms2 ws2 now2 s' = (d, s')"
  by (auto simp: start_durable_interaction_def Let_def split: option.splits)

lemma turn_replay:
  assumes "record_durable_turn i ti ag st now s = Inr (d, s')"
  shows "record_durable_turn i ti ag2 st now2 s' = Inr (d, s')"
  using assms
proof (cases rule: record_durable_turn_cases)
  case (1 d0)
  then show ?thesis by (auto simp: record_durable_turn_def)
next
  case (2 d0 ts t)
  then have "turn_by_index d ti = Some t" by (simp add: turn_by_index_def bumped_def)
  with 2 show ?thesis by (simp add: record_durable_turn_def)
qed

lemma message_replay:
  assumes "record_durable_message i ti sd ct rl rp now s = Inr (d, s')"
  shows "record_durable_message i ti sd ct2 rl2 rp2 now2 s' = Inr (d, s')"
proof -
  let ?mid = "durable_message_id i ti sd"
  have find_app: "List.find P (ms @ [m]) \<noteq> None" if "P m" for P and m :: durable_message and ms
    using that by (induction ms) auto
  obtain d0 where d0: "map_of (rs_durable_interactions s) i = Some d0"
    using assms by (auto simp: record_durable_message_def)
  have "map_of (rs_durable_interactions s') i = Some d \<and> message_by_id d ?mid \<noteq> None"
  proof (cases "message_by_id d0 ?mid = None")
    case False
    with d0 assms show ?thesis by (simp add: record_durable_message_def Let_def)
  next
    case True
    then obtain m where "dm_id m = ?mid" "d = bumped now (d0\<lparr>di_messages := di_messages d0 @ [m]\<rparr>)"
      "s' = put_interaction i d now s"
      using d0 assms by (force simp: record_durable_message_def Let_def split: if_splits)
    then show ?thesis
      using find_app [of "\<lambda>m. dm_id m = ?mid" m] by (simp add: message_by_id_def bumped_def)
  qed
  then show ?thesis by (simp add: record_durable_message_def Let_def)
qed

lemma outcome_replay:
  assumes "record_durable_outcome i v c now s = Inr (d, s')" "v \<noteq> None \<or> c \<noteq> None"
  shows "record_durable_outcome i v2 c2 now2 s' = Inr (d, s')"
proof -
  obtain d0 where d0: "map_of (rs_durable_interactions s) i = Some d0"
    using assms by (auto simp: record_durable_outcome_def)
  have "map_of (rs_durable_interactions s') i = Some d \<and> di_outcome d \<noteq> None"
  proof (cases "di_outcome d0 = None")
    case False
    with d0 assms show ?thesis by (simp add: record_durable_outcome_def)
  next
    case True
    with d0 assms have "d = bumped now (d0\<lparr>di_outcome := Some \<lparr>dp_vote = v, dp_coordinator = c,
        dp_recorded_at = now\<rparr>\<rparr>)" "s' = put_interaction i d now s"
      by (auto simp: record_durable_outcome_def Let_def split: if_splits)
    then show ?thesis by (simp add: bumped_def)
  qed
  then show ?thesis by (simp add: record_durable_outcome_def)
qed

lemma complete_replay:
  assumes "complete_durable_interaction i st e now s = Inr (d, s')"
  shows "complete_durable_interaction i st e2 now2 s' = Inr (d, s')"
proof -
  obtain d0 where d0: "map_of (rs_durable_interactions s) i = Some d0"
    using assms by (auto simp: complete_durable_interaction_def)
  have "map_of (rs_durable_interactions s') i = Some d \<and> di_status d = st"
  proof (cases "di_status d0 = st")
    case True
    with d0 assms show ?thesis by (simp add: complete_durable_interaction_def)
  next
    case False
    with d0 assms have "d = bumped now (d0\<lparr>di_status := st, di_error := e\<rparr>)"
      "s' = put_interaction i d now s"
      by (auto simp: complete_durable_interaction_def Let_def)
    then show ?thesis by (simp add: bumped_def)
  qed
  then show ?thesis by (simp add: complete_durable_interaction_def)
qed

end
