(* ===== verification/Turn_Lease.thy ===== *)
theory Turn_Lease
  imports Durable_Interactions
begin

text \<open>
  \<^verbatim>\<open>control/interaction_turn_lease.py\<close>: the lease of one turn of a durable interaction and
  the recovery of turns whose worker has crashed. It is a second implementation of the lease
  contract, and recovery computes the index from which an interaction resumes.
\<close>

section \<open>Leases of turns\<close>

definition turn_lease_ttl :: "int \<Rightarrow> exn + time" where
  "turn_lease_ttl ttl_seconds =
     and_then (raise_when (ttl_seconds \<le> 0) (TurnLeaseError TtlNotPositive)) (\<lambda>_.
       Inr (timedelta_seconds ttl_seconds))"

definition is_turn_lease_live :: "durable_turn \<Rightarrow> time \<Rightarrow> bool" where
  "is_turn_lease_live t as_of =
     (if \<not> truthy (dt_lease_token t) \<or> \<not> truthy (dt_lease_owner t) then False
      else case dt_lease_expires_at t of None \<Rightarrow> False | Some e \<Rightarrow> as_of < e)"

definition has_turn_lease_metadata :: "durable_turn \<Rightarrow> bool" where
  "has_turn_lease_metadata t \<longleftrightarrow>
     truthy (dt_lease_token t) \<or> truthy (dt_lease_owner t) \<or> dt_lease_expires_at t \<noteq> None"

definition require_interaction_lease :: "runtime_session \<Rightarrow> string \<Rightarrow> exn + durable_interaction" where
  "require_interaction_lease s interaction_id =
     (case map_of (rs_durable_interactions s) interaction_id of
        None \<Rightarrow> Inl (TurnLeaseError InteractionNotStarted)
      | Some d \<Rightarrow> Inr d)"

definition replace_turn :: "durable_turn \<Rightarrow> time \<Rightarrow> durable_interaction \<Rightarrow> durable_interaction" where
  "replace_turn t now d =
     bumped now (d\<lparr>di_turns := map (\<lambda>x. if dt_turn_index x = dt_turn_index t then t else x) (di_turns d)\<rparr>)"

definition ensure_turn ::
    "int \<Rightarrow> string \<Rightarrow> time \<Rightarrow> durable_interaction \<Rightarrow> exn + (durable_interaction \<times> durable_turn)" where
  "ensure_turn turn_index agent_id now d =
     (case turn_by_index d turn_index of
        Some t \<Rightarrow> Inr (d, t)
      | None \<Rightarrow> and_then (make_durable_turn (di_id d) turn_index agent_id Turn_PENDING now None)
          (\<lambda>t. Inr (bumped now (d\<lparr>di_turns := di_turns d @ [t]\<rparr>), t)))"

text \<open>The part of \<^verbatim>\<open>grant_durable_turn_lease\<close> that works on the turn.\<close>

definition grant_turn ::
    "string \<Rightarrow> int \<Rightarrow> string option \<Rightarrow> string \<Rightarrow> time \<Rightarrow> durable_turn \<Rightarrow> exn + durable_turn" where
  "grant_turn owner ttl_seconds lease_token fresh now t =
     and_then (raise_when (dt_status t = Turn_COMPLETED) (TurnLeaseError TurnCompleted)) (\<lambda>_.
     and_then (raise_when (py_strip owner = []) (TurnLeaseError OwnerEmpty)) (\<lambda>_.
     and_then (raise_when (is_turn_lease_live t now) (TurnLeaseError AlreadyLeased)) (\<lambda>_.
       let token = (if truthy lease_token then the lease_token else fresh) in
     and_then (raise_when (py_strip token = []) (TurnLeaseError TokenEmpty)) (\<lambda>_.
     and_then (turn_lease_ttl ttl_seconds) (\<lambda>ttl.
       Inr (t\<lparr>dt_lease_token := Some token, dt_lease_owner := Some (py_strip owner),
              dt_last_heartbeat_at := Some now, dt_lease_expires_at := Some (now + ttl)\<rparr>))))))"

definition grant_durable_turn_lease ::
    "string \<Rightarrow> int \<Rightarrow> string \<Rightarrow> string \<Rightarrow> int \<Rightarrow> string option \<Rightarrow> string \<Rightarrow> time \<Rightarrow> runtime_session \<Rightarrow>
     exn + (durable_interaction \<times> runtime_session)" where
  "grant_durable_turn_lease interaction_id turn_index agent_id owner ttl_seconds lease_token fresh now s =
     and_then (require_interaction_lease s interaction_id) (\<lambda>d0.
     and_then (ensure_turn turn_index agent_id now d0) (\<lambda>(d, t).
     and_then (grant_turn owner ttl_seconds lease_token fresh now t) (\<lambda>leased.
       let d' = replace_turn leased now d in Inr (d', put_interaction interaction_id d' now s))))"

definition assert_durable_turn_lease :: "durable_turn \<Rightarrow> string \<Rightarrow> time \<Rightarrow> bool \<Rightarrow> exn + unit" where
  "assert_durable_turn_lease t lease_token as_of allow_expired =
     (let token = py_strip lease_token in
     and_then (raise_when (token = []) (TurnLeaseError TokenEmpty)) (\<lambda>_.
     and_then (raise_when (\<not> truthy (dt_lease_token t) \<or> \<not> truthy (dt_lease_owner t))
       (TurnLeaseError NoActiveLease)) (\<lambda>_.
     and_then (raise_when (dt_lease_token t \<noteq> Some token) (TurnLeaseError TokenMismatch)) (\<lambda>_.
     and_then (raise_when (dt_status t = Turn_COMPLETED) (TurnLeaseError TurnCompleted)) (\<lambda>_.
       raise_when (\<not> allow_expired \<and> \<not> is_turn_lease_live t as_of) (TurnLeaseError LeaseExpired))))))"

definition find_turn :: "durable_interaction \<Rightarrow> int \<Rightarrow> exn + durable_turn" where
  "find_turn d turn_index =
     (case turn_by_index d turn_index of None \<Rightarrow> Inl (TurnLeaseError TurnNotFound) | Some t \<Rightarrow> Inr t)"

definition heartbeat_turn :: "string \<Rightarrow> int \<Rightarrow> time \<Rightarrow> durable_turn \<Rightarrow> exn + durable_turn" where
  "heartbeat_turn lease_token ttl_seconds now t =
     and_then (assert_durable_turn_lease t lease_token now False) (\<lambda>_.
     and_then (turn_lease_ttl ttl_seconds) (\<lambda>ttl.
       Inr (t\<lparr>dt_last_heartbeat_at := Some now, dt_lease_expires_at := Some (now + ttl)\<rparr>)))"

definition heartbeat_durable_turn_lease ::
    "string \<Rightarrow> int \<Rightarrow> string \<Rightarrow> int \<Rightarrow> time \<Rightarrow> runtime_session \<Rightarrow>
     exn + (durable_interaction \<times> runtime_session)" where
  "heartbeat_durable_turn_lease interaction_id turn_index lease_token ttl_seconds now s =
     and_then (require_interaction_lease s interaction_id) (\<lambda>d.
     and_then (find_turn d turn_index) (\<lambda>t.
     and_then (heartbeat_turn lease_token ttl_seconds now t) (\<lambda>refreshed.
       let d' = replace_turn refreshed now d in Inr (d', put_interaction interaction_id d' now s))))"

definition clear_turn_lease :: "durable_turn \<Rightarrow> durable_turn" where
  "clear_turn_lease t = t\<lparr>dt_lease_token := None, dt_lease_owner := None,
     dt_last_heartbeat_at := None, dt_lease_expires_at := None\<rparr>"

definition release_turn :: "bool \<Rightarrow> string \<Rightarrow> time \<Rightarrow> durable_turn \<Rightarrow> exn + durable_turn" where
  "release_turn completed lease_token now t =
     and_then (assert_durable_turn_lease t lease_token now True) (\<lambda>_.
       let cleared = clear_turn_lease t
       in Inr (if completed then cleared\<lparr>dt_status := Turn_COMPLETED, dt_completed_at := Some now\<rparr>
               else cleared))"

definition release_durable_turn_lease ::
    "string \<Rightarrow> int \<Rightarrow> string \<Rightarrow> bool \<Rightarrow> time \<Rightarrow> runtime_session \<Rightarrow>
     exn + (durable_interaction \<times> runtime_session)" where
  "release_durable_turn_lease interaction_id turn_index lease_token completed now s =
     and_then (require_interaction_lease s interaction_id) (\<lambda>d.
     and_then (find_turn d turn_index) (\<lambda>t.
     and_then (release_turn completed lease_token now t) (\<lambda>cleared.
       let d' = replace_turn cleared now d in Inr (d', put_interaction interaction_id d' now s))))"

section \<open>Recovery\<close>

record recovered_durable_turn =
  rt_interaction_id :: string
  rt_node_key :: string
  rt_turn_index :: int
  rt_lease_owner :: "string option"
  rt_lease_expires_at :: "time option"
  rt_recovered_from_turn_index :: int

definition completed_indices :: "durable_interaction \<Rightarrow> int list" where
  "completed_indices d = map dt_turn_index (filter (\<lambda>t. dt_status t = Turn_COMPLETED) (di_turns d))"

function first_missing :: "int list \<Rightarrow> int \<Rightarrow> int" where
  "first_missing completed index =
     (if index \<in> set completed then first_missing completed (index + 1) else index)"
  by pat_completeness auto
termination
proof (relation "measure (\<lambda>(completed, index). card {x \<in> set completed. index \<le> x})")
  fix completed :: "int list" and index
  assume "index \<in> set completed"
  then have "{x \<in> set completed. index + 1 \<le> x} \<subset> {x \<in> set completed. index \<le> x}" by force
  then show "((completed, index + 1), completed, index)
      \<in> measure (\<lambda>(completed, index). card {x \<in> set completed. index \<le> x})"
    by (simp add: psubset_card_mono)
qed simp

declare first_missing.simps [simp del]

definition lowest_incomplete_turn_index :: "durable_interaction \<Rightarrow> int" where
  "lowest_incomplete_turn_index d = first_missing (completed_indices d) 0"

text \<open>One turn of the inner loop, on the interaction as changed so far.\<close>

definition expired_turn :: "time \<Rightarrow> durable_turn \<Rightarrow> bool" where
  "expired_turn now t \<longleftrightarrow> dt_status t \<noteq> Turn_COMPLETED \<and> has_turn_lease_metadata t \<and>
     \<not> is_turn_lease_live t now"

definition recover_turn ::
    "string \<Rightarrow> time \<Rightarrow> durable_turn \<Rightarrow> durable_interaction \<times> recovered_durable_turn list \<Rightarrow>
     durable_interaction \<times> recovered_durable_turn list" where
  "recover_turn interaction_id now t acc =
     (case acc of (current, recs) \<Rightarrow>
        if \<not> expired_turn now t then (current, recs)
        else let reverted = (clear_turn_lease t)\<lparr>dt_status := Turn_PENDING\<rparr>;
                 current1 = replace_turn reverted now current;
                 resume_index = lowest_incomplete_turn_index current1;
                 current2 = current1\<lparr>di_recovered_from_turn_index := Some resume_index\<rparr>
             in (current2, recs @ [\<lparr>rt_interaction_id = interaction_id,
                   rt_node_key = di_node_key current2, rt_turn_index = dt_turn_index t,
                   rt_lease_owner = dt_lease_owner t, rt_lease_expires_at = dt_lease_expires_at t,
                   rt_recovered_from_turn_index = resume_index\<rparr>]))"

text \<open>
  The loops. Writing an interaction back under its own key leaves the order of the dictionary, so
  the outer loop maps over its items; an unchanged interaction is not written.
\<close>

definition recover_interaction ::
    "time \<Rightarrow> string \<Rightarrow> durable_interaction \<Rightarrow> durable_interaction \<times> recovered_durable_turn list" where
  "recover_interaction now interaction_id d =
     fold (recover_turn interaction_id now) (di_turns d) (d, [])"

definition recover_expired_durable_turn_leases ::
    "time \<Rightarrow> runtime_session \<Rightarrow> recovered_durable_turn list \<times> runtime_session" where
  "recover_expired_durable_turn_leases now s =
     (let results = map (\<lambda>(i, d). (i, recover_interaction now i d)) (rs_durable_interactions s);
          recovered = concat (map (\<lambda>(i, d, recs). recs) results)
      in (recovered,
          if recovered = [] then s
          else s\<lparr>rs_durable_interactions := map (\<lambda>(i, d, recs). (i, d)) results,
                 rs_updated_at := now\<rparr>))"

section \<open>The turn lease is a lease\<close>

lemma is_turn_lease_live_iff:
  "is_turn_lease_live t now \<longleftrightarrow> truthy (dt_lease_token t) \<and> truthy (dt_lease_owner t) \<and>
     (\<exists>e. dt_lease_expires_at t = Some e \<and> now < e)"
  by (auto simp: is_turn_lease_live_def split: option.splits)

lemma turn_lease_ttl_Inr [simp]:
  "turn_lease_ttl n = Inr d \<longleftrightarrow> 0 < n \<and> d = timedelta_seconds n"
  by (auto simp: turn_lease_ttl_def raise_when_def)

lemma assert_durable_turn_lease_Inr:
  "assert_durable_turn_lease t tok now allow = Inr u \<longleftrightarrow>
     py_strip tok \<noteq> [] \<and> truthy (dt_lease_owner t) \<and> dt_lease_token t = Some (py_strip tok) \<and>
     dt_status t \<noteq> Turn_COMPLETED \<and> (allow \<or> is_turn_lease_live t now)"
  by (auto simp: assert_durable_turn_lease_def Let_def)

lemma grant_turn_Inr:
  "grant_turn ow ttl tok fresh now t = Inr t' \<longleftrightarrow>
     dt_status t \<noteq> Turn_COMPLETED \<and> py_strip ow \<noteq> [] \<and> \<not> is_turn_lease_live t now \<and>
     py_strip (if truthy tok then the tok else fresh) \<noteq> [] \<and> 0 < ttl \<and>
     t' = t\<lparr>dt_lease_token := Some (if truthy tok then the tok else fresh),
            dt_lease_owner := Some (py_strip ow), dt_last_heartbeat_at := Some now,
            dt_lease_expires_at := Some (now + timedelta_seconds ttl)\<rparr>"
  by (auto simp: grant_turn_def Let_def)

interpretation tl: lease dt_lease_token dt_lease_owner dt_lease_expires_at
    "\<lambda>t. dt_status t \<noteq> Turn_COMPLETED" is_turn_lease_live grant_turn
    assert_durable_turn_lease heartbeat_turn "release_turn completed"
  for completed
proof (unfold_locales, goal_cases)
  case 1 then show ?case by (rule is_turn_lease_live_iff)
next
  case 2 then show ?case by (simp add: grant_turn_Inr)
next
  case 3 then show ?case by (simp add: grant_turn_Inr)
next
  case 4 then show ?case by (rule assert_durable_turn_lease_Inr)
next
  case 5 then show ?case by (simp add: heartbeat_turn_def)
next
  case 6 then show ?case by (auto simp: heartbeat_turn_def)
next
  case 7 then show ?case by (simp add: release_turn_def Let_def)
next
  case 8 then show ?case by (auto simp: release_turn_def clear_turn_lease_def Let_def)
qed

section \<open>History\<close>

lemma interaction_evolves_replace_turn:
  assumes "interaction_evolves d e"
  shows "interaction_evolves d (replace_turn t now e)"
proof -
  have "interaction_evolves e (replace_turn t now e)"
    unfolding replace_turn_def
    by (rule interaction_evolves_bumped) (auto simp del: map_map simp: map_replace_turn_index)
  with assms show ?thesis by (rule interaction_evolves_trans)
qed

lemma interaction_evolves_marker:
  assumes "interaction_evolves d e" "di_version d < di_version e"
  shows "interaction_evolves d (e\<lparr>di_recovered_from_turn_index := x\<rparr>)"
  using assms by (simp add: interaction_evolves_def)

lemma replace_turn_version [simp]: "di_version (replace_turn t now d) = di_version d + 1"
  by (simp add: replace_turn_def bumped_def)

lemma require_interaction_lease_Inr [simp]:
  "require_interaction_lease s i = Inr d \<longleftrightarrow> map_of (rs_durable_interactions s) i = Some d"
  by (auto simp: require_interaction_lease_def split: option.splits)

lemma ensure_turn_evolves: "ensure_turn ti ag now d = Inr (e, t) \<Longrightarrow> interaction_evolves d e"
  by (auto simp: ensure_turn_def make_durable_turn_def intro!: interaction_evolves_bumped
      split: option.splits if_splits)

lemma evolves_grant_turn_lease [evolves_intros]:
  assumes "grant_durable_turn_lease i ti ag ow ttl tok fresh now s = Inr (d', s')"
  shows "evolves s s'"
  using assms
  by (auto simp: grant_durable_turn_lease_def Let_def intro!: evolves_put_interaction
      interaction_evolves_replace_turn dest: ensure_turn_evolves)

lemma evolves_heartbeat_turn_lease [evolves_intros]:
  assumes "heartbeat_durable_turn_lease i ti tok ttl now s = Inr (d', s')"
  shows "evolves s s'"
  using assms
  by (auto simp: heartbeat_durable_turn_lease_def Let_def intro!: evolves_put_interaction
      interaction_evolves_replace_turn)

lemma evolves_release_turn_lease [evolves_intros]:
  assumes "release_durable_turn_lease i ti tok c now s = Inr (d', s')"
  shows "evolves s s'"
  using assms
  by (auto simp: release_durable_turn_lease_def Let_def intro!: evolves_put_interaction
      interaction_evolves_replace_turn)

lemma recover_turn_evolves:
  assumes "interaction_evolves d (fst acc)" "recs = [] \<or> di_version d < di_version (fst acc)"
    and "snd acc = recs"
  shows "interaction_evolves d (fst (recover_turn i now t acc))"
    "snd (recover_turn i now t acc) = [] \<or> di_version d < di_version (fst (recover_turn i now t acc))"
proof -
  obtain current where acc: "acc = (current, recs)" using assms(3) by (cases acc) auto
  have le: "di_version d \<le> di_version current"
    using assms(1) by (simp add: acc interaction_evolves_def)
  show "interaction_evolves d (fst (recover_turn i now t acc))"
    using assms(1) le
    by (auto simp: acc recover_turn_def Let_def
        intro!: interaction_evolves_marker interaction_evolves_replace_turn)
  show "snd (recover_turn i now t acc) = [] \<or>
      di_version d < di_version (fst (recover_turn i now t acc))"
    using assms(2) le by (auto simp: acc recover_turn_def Let_def)
qed

lemma recover_turns_evolves:
  assumes "fold (recover_turn i now) ts (d, []) = (e, recs)"
  shows "interaction_evolves d e"
proof -
  have "interaction_evolves d (fst acc) \<Longrightarrow> snd acc = [] \<or> di_version d < di_version (fst acc) \<Longrightarrow>
      interaction_evolves d (fst (fold (recover_turn i now) ts acc))" for acc
  proof (induction ts arbitrary: acc)
    case (Cons t ts)
    show ?case
      using Cons.IH [of "recover_turn i now t acc"] recover_turn_evolves [OF Cons.prems refl] by simp
  qed simp
  from this [of "(d, [])"] assms show ?thesis by simp
qed

lemma evolves_recover_turns [evolves_intros]:
  assumes "recover_expired_durable_turn_leases now s = (recs, s')"
  shows "evolves s s'"
proof -
  let ?ds = "map (\<lambda>(i, d). (i, fst (recover_interaction now i d))) (rs_durable_interactions s)"
  have "extends interaction_evolves xs (map (\<lambda>(i, d). (i, fst (recover_interaction now i d))) xs)" for xs
  proof
    fix k v
    assume "map_of xs k = Some v"
    moreover have "interaction_evolves v (fst (recover_interaction now k v))"
      using recover_turns_evolves [of k now "di_turns v" v]
      by (cases "fold (recover_turn k now) (di_turns v) (v, [])") (simp add: recover_interaction_def)
    ultimately show "\<exists>w. map_of (map (\<lambda>(i, d). (i, fst (recover_interaction now i d))) xs) k = Some w \<and>
        interaction_evolves v w"
      by (induction xs) auto
  qed
  moreover have "s' = s \<or> s' = s\<lparr>rs_durable_interactions := ?ds, rs_updated_at := now\<rparr>"
    using assms by (auto simp: recover_expired_durable_turn_leases_def Let_def comp_def
        case_prod_unfold split: if_splits)
  ultimately show ?thesis
    by (auto simp: evolves_def)
qed

section \<open>What recovery computes\<close>

lemma first_missing_spec:
  "n \<le> first_missing completed n \<and> first_missing completed n \<notin> set completed \<and>
   (\<forall>j. n \<le> j \<and> j < first_missing completed n \<longrightarrow> j \<in> set completed)"
proof (induction completed n rule: first_missing.induct)
  case (1 completed n)
  show ?case
  proof (cases "n \<in> set completed")
    case False
    then show ?thesis by (subst (1 2 3) first_missing.simps) auto
  next
    case True
    note ih = "1.IH" [OF True]
    have e: "first_missing completed n = first_missing completed (n + 1)"
      using True by (subst first_missing.simps) simp
    show ?thesis
    proof (intro conjI allI impI)
      show "n \<le> first_missing completed n" "first_missing completed n \<notin> set completed"
        using ih by (simp_all add: e)
      fix j assume j: "n \<le> j \<and> j < first_missing completed n"
      show "j \<in> set completed"
      proof (cases "j = n")
        case False
        with j have "n + 1 \<le> j" by simp
        with j ih show ?thesis by (simp add: e)
      qed (use True in simp)
    qed
  qed
qed

text \<open>The completed turns of an interaction as a set of indices.\<close>

lemma set_completed_indices:
  "set (completed_indices d) = {dt_turn_index t | t. t \<in> set (di_turns d) \<and> dt_status t = Turn_COMPLETED}"
  by (auto simp: completed_indices_def)

text \<open>
  An aggregate has at most one turn for each index. Under this invariant recovery reverts exactly the
  expired turns, keeps the completed ones, and marks the interaction with the resume index.
\<close>

definition distinct_turns :: "durable_interaction \<Rightarrow> bool" where
  "distinct_turns d \<longleftrightarrow> distinct (map dt_turn_index (di_turns d))"

definition reverted_turn :: "durable_turn \<Rightarrow> durable_turn" where
  "reverted_turn t = (clear_turn_lease t)\<lparr>dt_status := Turn_PENDING\<rparr>"

lemma reverted_turn_fields [simp]:
  "dt_turn_index (reverted_turn t) = dt_turn_index t" "dt_status (reverted_turn t) = Turn_PENDING"
  "\<not> expired_turn now (reverted_turn t)"
  by (simp_all add: reverted_turn_def clear_turn_lease_def expired_turn_def has_turn_lease_metadata_def)

definition revert_expired :: "time \<Rightarrow> durable_turn \<Rightarrow> durable_turn" where
  "revert_expired now t = (if expired_turn now t then reverted_turn t else t)"

lemma revert_expired_fields [simp]:
  "dt_turn_index (revert_expired now t) = dt_turn_index t"
  "dt_status (revert_expired now t) = Turn_COMPLETED \<longleftrightarrow> dt_status t = Turn_COMPLETED"
  by (auto simp: revert_expired_def expired_turn_def)

lemma completed_indices_revert:
  "completed_indices (d\<lparr>di_turns := map (revert_expired now) ts\<rparr>) =
   completed_indices (d\<lparr>di_turns := ts\<rparr>)"
  by (simp add: completed_indices_def filter_map comp_def)

lemma replace_turn_turns [simp]:
  "di_turns (replace_turn t now d) = map (\<lambda>x. if dt_turn_index x = dt_turn_index t then t else x) (di_turns d)"
  by (simp add: replace_turn_def bumped_def)

lemma recover_turns_turns:
  assumes "fold (recover_turn i now) ts (d, recs) = (e, recs')"
    and "di_turns d = map (revert_expired now) done @ ts" "distinct (map dt_turn_index (done @ ts))"
  shows "di_turns e = map (revert_expired now) (done @ ts)"
  using assms
proof (induction ts arbitrary: d recs "done")
  case Nil
  then show ?case by simp
next
  case (Cons t ts)
  obtain d1 recs1 where r: "recover_turn i now t (d, recs) = (d1, recs1)" by force
  have "di_turns d1 = map (revert_expired now) (done @ [t]) @ ts"
  proof (cases "expired_turn now t")
    case False
    with r Cons.prems(2) show ?thesis
      by (simp add: recover_turn_def revert_expired_def)
  next
    case True
    have "map (\<lambda>x. if dt_turn_index x = dt_turn_index t then reverted_turn t else x) xs = xs"
      if "dt_turn_index t \<notin> dt_turn_index ` set xs" for xs
      using that by (induction xs) auto
    note keep = this
    have "dt_turn_index t \<notin> dt_turn_index ` set (map (revert_expired now) done)"
      "dt_turn_index t \<notin> dt_turn_index ` set ts"
      using Cons.prems(3) by auto
    note keep [OF this(1)] keep [OF this(2)]
    moreover have "di_turns d1 =
        map (\<lambda>x. if dt_turn_index x = dt_turn_index t then reverted_turn t else x) (di_turns d)"
      using r True by (auto simp: recover_turn_def Let_def reverted_turn_def clear_turn_lease_def)
    ultimately show ?thesis
      using True Cons.prems(2) by (simp add: revert_expired_def [of now t] del: map_map map_idI)
  qed
  then show ?case
    using Cons.IH [of d1 recs1 "done @ [t]"] Cons.prems(1,3) r by simp
qed

lemma recover_turns_marker:
  assumes "fold (recover_turn i now) ts (d, recs) = (e, recs')"
    and "recs \<noteq> [] \<Longrightarrow> di_recovered_from_turn_index d = Some (first_missing (completed_indices d) 0)"
    and "distinct (map dt_turn_index (di_turns d))" "set ts \<subseteq> set (di_turns d)" "distinct ts"
  shows "(recs' = recs \<and> e = d \<and> (\<forall>t \<in> set ts. \<not> expired_turn now t)) \<or>
    (recs' \<noteq> [] \<and> di_recovered_from_turn_index e = Some (first_missing (completed_indices e) 0))"
  using assms(1,2)
proof (induction ts arbitrary: d recs)
  case (Cons t ts)
  show ?case
  proof (cases "expired_turn now t")
    case False
    with Cons.IH [of d recs] Cons.prems show ?thesis by (simp add: recover_turn_def)
  next
    case True
    obtain d1 r where r: "recover_turn i now t (d, recs) = (d1, recs @ [r])"
      and m: "di_recovered_from_turn_index d1 = Some (first_missing (completed_indices d1) 0)"
      using True by (auto simp: recover_turn_def Let_def lowest_incomplete_turn_index_def
          completed_indices_def)
    have "fold (recover_turn i now) ts (d1, recs @ [r]) = (e, recs')"
      using Cons.prems(1) r by simp
    from Cons.IH [OF this] m show ?thesis by fastforce
  qed
qed simp

lemma recover_interaction_spec:
  assumes "recover_interaction now i d = (e, recs)" "distinct_turns d"
  shows "di_turns e = map (revert_expired now) (di_turns d)"
    "recs = [] \<longleftrightarrow> (\<forall>t \<in> set (di_turns d). \<not> expired_turn now t)"
    "recs = [] \<Longrightarrow> e = d"
    "recs \<noteq> [] \<Longrightarrow> di_recovered_from_turn_index e = Some (lowest_incomplete_turn_index d)"
proof -
  have f: "fold (recover_turn i now) (di_turns d) (d, []) = (e, recs)"
    using assms(1) by (simp add: recover_interaction_def)
  show t: "di_turns e = map (revert_expired now) (di_turns d)"
    using recover_turns_turns [OF f, of "[]"] assms(2) by (simp add: distinct_turns_def)
  have m: "(recs = [] \<and> e = d \<and> (\<forall>t \<in> set (di_turns d). \<not> expired_turn now t)) \<or>
    (recs \<noteq> [] \<and> di_recovered_from_turn_index e = Some (first_missing (completed_indices e) 0))"
    using recover_turns_marker [OF f] assms(2) by (simp add: distinct_turns_def distinct_map)
  have c: "completed_indices e = completed_indices d"
    using t completed_indices_revert [where d = d and ts = "di_turns d"] by (simp add: completed_indices_def)
  have "recs \<noteq> [] \<Longrightarrow> \<exists>t \<in> set (di_turns d). expired_turn now t"
  proof (rule ccontr)
    assume "recs \<noteq> []" "\<not> (\<exists>t \<in> set (di_turns d). expired_turn now t)"
    then have "\<forall>t \<in> set ts. \<not> expired_turn now t \<Longrightarrow> fold (recover_turn i now) ts (x, []) = (x, [])" for ts x
      by (induction ts) (auto simp: recover_turn_def)
    with f \<open>recs \<noteq> []\<close> \<open>\<not> (\<exists>t \<in> set (di_turns d). expired_turn now t)\<close> show False by auto
  qed
  with m show "recs = [] \<longleftrightarrow> (\<forall>t \<in> set (di_turns d). \<not> expired_turn now t)" by blast
  show "recs = [] \<Longrightarrow> e = d" using m by blast
  show "recs \<noteq> [] \<Longrightarrow> di_recovered_from_turn_index e = Some (lowest_incomplete_turn_index d)"
    using m by (simp add: c lowest_incomplete_turn_index_def)
qed

end
