(* ===== verification/Service_Monad.thy ===== *)
theory Service_Monad
  imports Session_Store Session_Events Session_Workflow Turn_Lease
begin

text \<open>
  The world that \<^verbatim>\<open>SessionService\<close> works in and its program logic. A service operation is
  a function of the world: the session store, the emitter, the published events, and for each
  operation the readings it takes of the clock and of \<^verbatim>\<open>uuid4\<close>, which are arbitrary
  functions. An exception is a value, and the world reached before it is kept, as the writes of
  the source are.

  \<open>spec\<close> is a partial-correctness triple over the store that also says that every stored session
  is related to its earlier value. The locale \<open>session_relation\<close> is what a relation must provide
  for the rules to hold; the history relation \<open>evolves\<close> and the relation \<open>completes_nothing\<close> are
  its interpretations.
\<close>

section \<open>The world\<close>

record op_env =
  ev_now :: "nat \<Rightarrow> time"
  ev_tick :: "string \<Rightarrow> node_status \<Rightarrow> time"
  ev_born :: "nat \<Rightarrow> time"
  ev_born_key :: "string \<Rightarrow> time"
  ev_id :: "nat \<Rightarrow> string"
  ev_beats :: "nat \<Rightarrow> nat"

text \<open>
  The heartbeat of a leased execution, a task beside the episode: which lease it refreshes, how
  often its timer runs out in each wait of the episode, the waits so far, and the exception that
  ended it.
\<close>

record lease_heart =
  hb_session :: string
  hb_execution :: string
  hb_token :: string
  hb_ttl :: int
  hb_due :: "nat \<Rightarrow> nat"
  hb_waits :: nat
  hb_failed :: "exn option"

record world =
  w_store :: memory_store
  w_emitter :: emitter
  w_events :: "observation_event list"
  w_event_env :: "nat \<Rightarrow> string \<times> time"
  w_env :: "nat \<Rightarrow> op_env"
  w_ops :: nat
  w_heart :: "lease_heart option"

type_synonym 'a svc = "world \<Rightarrow> (exn + 'a) \<times> world"

definition svc_return :: "'a \<Rightarrow> 'a svc" where
  "svc_return x w = (Inr x, w)"

definition svc_lift :: "exn + 'a \<Rightarrow> 'a svc" where
  "svc_lift r w = (r, w)"

definition svc_bind :: "'a svc \<Rightarrow> ('a \<Rightarrow> 'b svc) \<Rightarrow> 'b svc" where
  "svc_bind m f w = (case m w of (Inl e, w') \<Rightarrow> (Inl e, w') | (Inr x, w') \<Rightarrow> f x w')"

text \<open>\<^verbatim>\<open>try: m except Exception as e: handler(e)\<close>\<close>

definition svc_try :: "'a svc \<Rightarrow> (exn \<Rightarrow> 'a svc) \<Rightarrow> 'a svc" where
  "svc_try m handler w = (case m w of (Inl e, w1) \<Rightarrow> handler e w1 | (Inr x, w1) \<Rightarrow> (Inr x, w1))"

definition svc_env :: "op_env svc" where
  "svc_env w = (Inr (w_env w (w_ops w)), w\<lparr>w_ops := w_ops w + 1\<rparr>)"

definition get_session :: "string \<Rightarrow> runtime_session svc" where
  "get_session session_id w = (get_required SessionNotFoundError (w_store w) session_id, w)"

text \<open>The caller goes on with the session whose version the store has bumped.\<close>

definition put_session :: "runtime_session \<Rightarrow> runtime_session svc" where
  "put_session s w =
     (case memory_put s (w_store w) of
        Inl e \<Rightarrow> (Inl e, w)
      | Inr (s', st') \<Rightarrow> (Inr s', w\<lparr>w_store := st'\<rparr>))"

text \<open>
  \<^verbatim>\<open>SessionEventEmitter.emit\<close>. A missing emitter is one without observers. The id and the
  time of the event are drawn on construction; the event reaches every observer before a critical
  failure is raised.
\<close>

definition svc_emit :: "event_builder \<Rightarrow> unit svc" where
  "svc_emit build w =
     (case w_event_env w (length (w_events w)) of (event_id, created_at) \<Rightarrow>
        let event = build event_id created_at
        in (emitter_emit (w_emitter w) event,
            if emitter_delivers (w_emitter w) then w\<lparr>w_events := w_events w @ [event]\<rparr> else w))"

fun svc_emit_all :: "event_builder list \<Rightarrow> unit svc" where
  "svc_emit_all [] = svc_return ()"
| "svc_emit_all (b # bs) = svc_bind (svc_emit b) (\<lambda>_. svc_emit_all bs)"

section \<open>Success\<close>

lemma svc_bind_Inr:
  "svc_bind m f w = (Inr y, w') \<longleftrightarrow> (\<exists>x w1. m w = (Inr x, w1) \<and> f x w1 = (Inr y, w'))"
  by (auto simp: svc_bind_def split: prod.splits sum.splits)

lemma svc_bind_Inl:
  "svc_bind m f w = (Inl e, w') \<longleftrightarrow>
     m w = (Inl e, w') \<or> (\<exists>x w1. m w = (Inr x, w1) \<and> f x w1 = (Inl e, w'))"
  by (auto simp: svc_bind_def split: prod.splits sum.splits)

lemma svc_return_eq [simp]: "svc_return x w = (r, w') \<longleftrightarrow> r = Inr x \<and> w' = w"
  by (auto simp: svc_return_def)

lemma svc_lift_eq [simp]: "svc_lift r w = (r', w') \<longleftrightarrow> r' = r \<and> w' = w"
  by (auto simp: svc_lift_def)

lemma svc_env_Inr [simp]:
  "svc_env w = (r, w') \<longleftrightarrow> r = Inr (w_env w (w_ops w)) \<and> w' = w\<lparr>w_ops := w_ops w + 1\<rparr>"
  by (auto simp: svc_env_def)

lemma get_session_Inr:
  "get_session i w = (Inr s, w') \<longleftrightarrow> memory_get (w_store w) i = Some s \<and> w' = w"
  by (auto simp: get_session_def get_required_def split: option.splits)

lemma get_session_Inl:
  "get_session i w = (Inl e, w') \<longleftrightarrow>
     memory_get (w_store w) i = None \<and> e = SessionNotFoundError i \<and> w' = w"
  by (auto simp: get_session_def get_required_def split: option.splits)

lemma put_session_Inr:
  assumes "put_session s w = (Inr s', w')"
  shows "s' = bump s" "memory_get (w_store w') = (memory_get (w_store w))(rs_id s \<mapsto> bump s)"
    "rs_version s = stored_version (memory_get (w_store w) (rs_id s))"
    "w' = w\<lparr>w_store := w_store w'\<rparr>"
proof -
  obtain st where p: "memory_put s (w_store w) = Inr (s', st)" and w': "w' = w\<lparr>w_store := st\<rparr>"
    using assms by (cases "memory_put s (w_store w)") (auto simp: put_session_def)
  note d = memory_put_InrD [OF p]
  show "s' = bump s" "rs_version s = stored_version (memory_get (w_store w) (rs_id s))"
    using d by simp_all
  show "memory_get (w_store w') = (memory_get (w_store w))(rs_id s \<mapsto> bump s)"
    using d w' by simp
  show "w' = w\<lparr>w_store := w_store w'\<rparr>" using w' by simp
qed

lemma put_session_Inl:
  "put_session s w = (Inl e, w') \<longleftrightarrow>
     rs_version s \<noteq> stored_version (memory_get (w_store w) (rs_id s)) \<and>
     e = SessionStoreConflictError \<and> w' = w"
  by (auto simp: put_session_def memory_put_eq split: sum.splits prod.splits if_splits)

lemma svc_emit_store [simp]: "w_store (snd (svc_emit b w)) = w_store w"
  by (simp add: svc_emit_def Let_def split: prod.splits)

lemma svc_emit_Inl: "svc_emit b w = (Inl e, w') \<Longrightarrow> e = CriticalObserverError \<and> w_store w' = w_store w"
  using svc_emit_store [of b w]
  by (auto simp: svc_emit_def Let_def dest: emitter_emit_Inl split: prod.splits)

lemma svc_emit_Inr: "svc_emit b w = (Inr u, w') \<Longrightarrow> w_store w' = w_store w"
  using svc_emit_store [of b w] by simp

lemma svc_emit_run: "svc_emit b w = (r, w') \<Longrightarrow> w_store w' = w_store w"
  using svc_emit_store [of b w] by simp

lemma svc_emit_all_store: "w_store (snd (svc_emit_all bs w)) = w_store w"
proof (induction bs arbitrary: w)
  case (Cons b bs)
  show ?case
    using Cons.IH
    by (auto simp: svc_bind_def dest: svc_emit_run split: prod.splits sum.splits)
qed (simp add: svc_return_def)

section \<open>The program logic\<close>

definition later :: "(runtime_session \<Rightarrow> runtime_session \<Rightarrow> bool) \<Rightarrow> runtime_session \<Rightarrow> runtime_session \<Rightarrow> bool"
  where
  "later rel s t \<longleftrightarrow> rs_version s \<le> rs_version t \<and> rel s (t\<lparr>rs_version := rs_version s\<rparr>)"

text \<open>
  Every stored session is kept as a later value. A session that appears is one that nobody has
  stored before.
\<close>

definition store_later ::
    "(runtime_session \<Rightarrow> runtime_session \<Rightarrow> bool) \<Rightarrow> memory_store \<Rightarrow> memory_store \<Rightarrow> bool" where
  "store_later rel st st' \<longleftrightarrow>
     (\<forall>i s. memory_get st i = Some s \<longrightarrow> (\<exists>t. memory_get st' i = Some t \<and> later rel s t)) \<and>
     (keyed st \<longrightarrow> keyed st')"

text \<open>
  A session in the hands of an operation is ready to be written: it is a later value of the
  stored session of the same version.
\<close>

definition ready ::
    "(runtime_session \<Rightarrow> runtime_session \<Rightarrow> bool) \<Rightarrow> runtime_session \<Rightarrow> memory_store \<Rightarrow> bool" where
  "ready rel s st \<longleftrightarrow>
     (\<forall>t. memory_get st (rs_id s) = Some t \<longrightarrow> rs_version t = rs_version s \<longrightarrow> rel t s)"

definition spec ::
    "(runtime_session \<Rightarrow> runtime_session \<Rightarrow> bool) \<Rightarrow> (memory_store \<Rightarrow> bool) \<Rightarrow> 'a svc \<Rightarrow>
     ('a \<Rightarrow> memory_store \<Rightarrow> bool) \<Rightarrow> bool" where
  "spec rel P m Q \<longleftrightarrow>
     (\<forall>w r w'. keyed (w_store w) \<longrightarrow> P (w_store w) \<longrightarrow> m w = (r, w') \<longrightarrow>
        store_later rel (w_store w) (w_store w') \<and>
        (\<forall>x. r = Inr x \<longrightarrow> Q x (w_store w')))"

abbreviation preserves :: "(runtime_session \<Rightarrow> runtime_session \<Rightarrow> bool) \<Rightarrow> 'a svc \<Rightarrow> bool" where
  "preserves rel m \<equiv> spec rel (\<lambda>_. True) m (\<lambda>_ _. True)"

locale session_relation =
  fixes rel :: "runtime_session \<Rightarrow> runtime_session \<Rightarrow> bool"
  assumes rel_refl: "rel s s"
    and rel_trans: "rel s t \<Longrightarrow> rel t u \<Longrightarrow> rel s u"
    and rel_keeps: "rel s t \<Longrightarrow> rs_id t = rs_id s \<and> rs_version t = rs_version s"
    and rel_version: "rel s t \<Longrightarrow> rel (s\<lparr>rs_version := v\<rparr>) (t\<lparr>rs_version := v\<rparr>)"
begin

lemma later_refl: "later rel s s"
  by (simp add: later_def rel_refl)

lemma later_trans:
  assumes "later rel s t" "later rel t u"
  shows "later rel s u"
proof -
  have "rel (t\<lparr>rs_version := rs_version s\<rparr>) (u\<lparr>rs_version := rs_version s\<rparr>)"
    using assms(2) rel_version [of t "u\<lparr>rs_version := rs_version t\<rparr>" "rs_version s"]
    by (simp add: later_def)
  with assms show ?thesis
    by (auto simp: later_def intro: rel_trans)
qed

lemma store_later_refl: "store_later rel st st"
  by (auto simp: store_later_def intro: later_refl)

lemma store_later_trans:
  "store_later rel a b \<Longrightarrow> store_later rel b c \<Longrightarrow> store_later rel a c"
  unfolding store_later_def by (meson later_trans)

lemma ready_rel: "ready rel s st \<Longrightarrow> rel s s' \<Longrightarrow> ready rel s' st"
  using rel_keeps [of s s'] by (auto simp: ready_def intro: rel_trans)

lemma put_later:
  assumes "memory_put s st = Inr (s', st')" "ready rel s st" "keyed st"
  shows "store_later rel st st'" "ready rel s' st'"
proof -
  note p = memory_put_InrD [OF assms(1)]
  have "later rel t (bump s)" if t: "memory_get st (rs_id s) = Some t" for t
  proof -
    have v: "rs_version t = rs_version s"
      using p(3) t by (simp add: stored_version_def)
    then have "rel t s" using assms(2) t by (simp add: ready_def)
    then show ?thesis by (simp add: later_def v)
  qed
  then show "store_later rel st st'"
    using p(1,2) keyed_put [OF assms(3,1)] by (auto simp: store_later_def intro: later_refl)
  show "ready rel s' st'"
    using p(1,2) by (auto simp: ready_def rel_refl)
qed

lemma spec_conseq:
  "spec rel P' m Q' \<Longrightarrow> (\<And>st. P st \<Longrightarrow> P' st) \<Longrightarrow> (\<And>x st. Q' x st \<Longrightarrow> Q x st) \<Longrightarrow> spec rel P m Q"
  unfolding spec_def by blast

lemma spec_bind:
  assumes "spec rel P m Q" "\<And>x. spec rel (Q x) (f x) R"
  shows "spec rel P (svc_bind m f) R"
  unfolding spec_def
proof (intro allI impI)
  fix w r w'
  assume w: "keyed (w_store w)" "P (w_store w)" "svc_bind m f w = (r, w')"
  obtain r1 w1 where m: "m w = (r1, w1)" by force
  have 1: "store_later rel (w_store w) (w_store w1)" "\<And>x. r1 = Inr x \<Longrightarrow> Q x (w_store w1)"
    using assms(1) w m unfolding spec_def by blast+
  show "store_later rel (w_store w) (w_store w') \<and> (\<forall>x. r = Inr x \<longrightarrow> R x (w_store w'))"
  proof (cases r1)
    case (Inl e)
    with w m 1 show ?thesis by (auto simp: svc_bind_def)
  next
    case (Inr x)
    have k: "keyed (w_store w1)" using 1 w by (simp add: store_later_def)
    have "f x w1 = (r, w')" using w m Inr by (simp add: svc_bind_def)
    then have "store_later rel (w_store w1) (w_store w') \<and> (\<forall>x. r = Inr x \<longrightarrow> R x (w_store w'))"
      using assms(2) [of x] 1(2) [OF Inr] k unfolding spec_def by blast
    with 1(1) show ?thesis by (blast intro: store_later_trans)
  qed
qed

lemma spec_then:
  "spec rel P m (\<lambda>_ _. True) \<Longrightarrow> (\<And>x. preserves rel (f x)) \<Longrightarrow> spec rel P (svc_bind m f) (\<lambda>_ _. True)"
  by (rule spec_bind) auto

lemma spec_return: "(\<And>st. P st \<Longrightarrow> Q x st) \<Longrightarrow> spec rel P (svc_return x) Q"
  by (auto simp: spec_def store_later_refl)

lemma spec_lift: "(\<And>x st. r = Inr x \<Longrightarrow> P st \<Longrightarrow> Q x st) \<Longrightarrow> spec rel P (svc_lift r) Q"
  by (auto simp: spec_def store_later_refl)

lemma spec_lift_bind:
  "(\<And>x. r = Inr x \<Longrightarrow> spec rel P (f x) R) \<Longrightarrow> spec rel P (svc_bind (svc_lift r) f) R"
  by (rule spec_bind [where Q = "\<lambda>x st. r = Inr x \<and> P st"])
     (auto simp: spec_def store_later_refl)

lemma spec_env_bind: "(\<And>e. spec rel P (f e) R) \<Longrightarrow> spec rel P (svc_bind svc_env f) R"
  by (rule spec_bind [where Q = "\<lambda>_. P"]) (auto simp: spec_def store_later_refl)

lemma spec_get: "spec rel P (get_session i) (\<lambda>s st. P st \<and> ready rel s st \<and> rs_id s = i)"
  unfolding spec_def
proof (intro allI impI)
  fix w r w'
  assume w: "keyed (w_store w)" "P (w_store w)" "get_session i w = (r, w')"
  have id: "rs_id s = i" if "memory_get (w_store w) i = Some s" for s
    using w(1) that by (auto simp: keyed_def memory_get_def dest: map_of_SomeD)
  show "store_later rel (w_store w) (w_store w') \<and>
    (\<forall>x. r = Inr x \<longrightarrow> P (w_store w') \<and> ready rel x (w_store w') \<and> rs_id x = i)"
    using w id by (auto simp: get_session_def get_required_def ready_def store_later_refl rel_refl
        split: option.splits)
qed

lemma spec_get_bind:
  "(\<And>s. spec rel (ready rel s) (f s) R) \<Longrightarrow> spec rel P (svc_bind (get_session i) f) R"
  by (rule spec_bind [OF spec_get [of P i]]) (auto intro: spec_conseq)

lemma spec_put: "spec rel (ready rel s) (put_session s) (\<lambda>s'. ready rel s')"
  unfolding spec_def put_session_def
  by (auto split: sum.splits prod.splits intro: store_later_refl put_later)

lemma spec_put_bind:
  assumes "rel s0 s" "\<And>s'. s' = bump s \<Longrightarrow> spec rel (ready rel s') (f s') R"
  shows "spec rel (ready rel s0) (svc_bind (put_session s) f) R"
proof (rule spec_bind [where Q = "\<lambda>s' st. s' = bump s \<and> ready rel s' st"])
  show "spec rel (ready rel s0) (put_session s) (\<lambda>s' st. s' = bump s \<and> ready rel s' st)"
    unfolding spec_def
  proof (intro allI impI)
    fix w r w'
    assume w: "keyed (w_store w)" "ready rel s0 (w_store w)" "put_session s w = (r, w')"
    have rd: "ready rel s (w_store w)" using w(2) assms(1) by (rule ready_rel)
    show "store_later rel (w_store w) (w_store w') \<and>
        (\<forall>x. r = Inr x \<longrightarrow> x = bump s \<and> ready rel x (w_store w'))"
    proof (cases r)
      case (Inl e)
      with w(3) show ?thesis by (simp add: put_session_Inl store_later_refl)
    next
      case (Inr s')
      then obtain st where p: "memory_put s (w_store w) = Inr (s', st)" "w_store w' = st"
        using w(3) by (cases "memory_put s (w_store w)") (auto simp: put_session_def)
      with put_later [OF p(1) rd w(1)] memory_put_InrD(1) [OF p(1)] Inr show ?thesis by simp
    qed
  qed
  show "spec rel (\<lambda>st. x = bump s \<and> ready rel x st) (f x) R" for x
    using assms(2) [of x] by (cases "x = bump s") (auto simp: spec_def)
qed

text \<open>A session that was never written can only be inserted.\<close>

lemma spec_put_new_bind:
  assumes "rs_version s = 0" "\<And>s'. s' = bump s \<Longrightarrow> spec rel (ready rel s') (f s') R"
  shows "spec rel P (svc_bind (put_session s) f) R"
proof -
  have "ready rel s st" if "keyed st" for st
    using that assms(1) by (auto simp: ready_def keyed_def memory_get_def dest: map_of_SomeD)
  then show ?thesis
    using spec_put_bind [OF rel_refl assms(2), of s] unfolding spec_def by blast
qed

lemma spec_emit: "spec rel P (svc_emit b) (\<lambda>_. P)"
  unfolding spec_def
  by (metis store_later_refl svc_emit_store snd_conv)

lemma spec_emit_bind: "spec rel P (f ()) R \<Longrightarrow> spec rel P (svc_bind (svc_emit b) f) R"
  by (rule spec_bind [OF spec_emit]) simp

lemma spec_emit_all: "spec rel P (svc_emit_all bs) (\<lambda>_. P)"
  unfolding spec_def
  by (metis store_later_refl svc_emit_all_store snd_conv)

lemma spec_emit_all_bind: "spec rel P (f ()) R \<Longrightarrow> spec rel P (svc_bind (svc_emit_all bs) f) R"
  by (rule spec_bind [OF spec_emit_all]) simp

lemma spec_true: "spec rel P m Q \<Longrightarrow> spec rel P m (\<lambda>_ _. True)"
  by (erule spec_conseq) auto

lemma preserves_weaken: "preserves rel m \<Longrightarrow> spec rel P m (\<lambda>_ _. True)"
  by (erule spec_conseq) auto

lemma preserves_try:
  assumes "preserves rel m" "\<And>e. preserves rel (h e)"
  shows "preserves rel (svc_try m h)"
  unfolding spec_def
proof (intro allI impI)
  fix w r w'
  assume w: "keyed (w_store w)" "svc_try m h w = (r, w')"
  obtain r1 w1 where m: "m w = (r1, w1)" by force
  have 1: "store_later rel (w_store w) (w_store w1)"
    using assms(1) w(1) m unfolding spec_def by blast
  show "store_later rel (w_store w) (w_store w') \<and> (\<forall>x. r = Inr x \<longrightarrow> True)"
  proof (cases r1)
    case (Inl e)
    have "keyed (w_store w1)" using 1 w(1) by (simp add: store_later_def)
    moreover have "h e w1 = (r, w')" using w(2) m Inl by (simp add: svc_try_def)
    ultimately have "store_later rel (w_store w1) (w_store w')"
      using assms(2) [of e] unfolding spec_def by blast
    with 1 show ?thesis by (blast intro: store_later_trans)
  next
    case (Inr x)
    with w(2) m 1 show ?thesis by (simp add: svc_try_def)
  qed
qed

lemma spec_if:
  "(c \<Longrightarrow> spec rel P m Q) \<Longrightarrow> (\<not> c \<Longrightarrow> spec rel P m' Q) \<Longrightarrow> spec rel P (if c then m else m') Q"
  by simp

lemma spec_case_option:
  "(x = None \<Longrightarrow> spec rel P m Q) \<Longrightarrow> (\<And>y. x = Some y \<Longrightarrow> spec rel P (f y) Q) \<Longrightarrow>
   spec rel P (case x of None \<Rightarrow> m | Some y \<Rightarrow> f y) Q"
  by (cases x) auto

lemma spec_case_prod:
  "(\<And>a b. x = (a, b) \<Longrightarrow> spec rel P (f a b) Q) \<Longrightarrow> spec rel P (case x of (a, b) \<Rightarrow> f a b) Q"
  by (cases x) auto

text \<open>What a run gives: the stored session afterwards is a later value of the one before.\<close>

lemma preserves_run:
  assumes "preserves rel m" "keyed (w_store w)" "m w = (r, w')" "memory_get (w_store w) i = Some s"
  shows "\<exists>t. memory_get (w_store w') i = Some t \<and> later rel s t" "keyed (w_store w')"
  using assms unfolding spec_def store_later_def by blast+

end

interpretation hist: session_relation evolves
proof
  show "evolves s s" for s by simp
  show "evolves s t \<Longrightarrow> evolves t u \<Longrightarrow> evolves s u" for s t u by (rule evolves_trans)
  show "evolves s t \<Longrightarrow> rs_id t = rs_id s \<and> rs_version t = rs_version s" for s t
    by (simp add: evolves_def)
  show "evolves s t \<Longrightarrow> evolves (s\<lparr>rs_version := v\<rparr>) (t\<lparr>rs_version := v\<rparr>)" for s t v
    by (rule evolves_version)
qed

text \<open>No session becomes completed.\<close>

definition completes_nothing :: "runtime_session \<Rightarrow> runtime_session \<Rightarrow> bool" where
  "completes_nothing s t \<longleftrightarrow>
     rs_id t = rs_id s \<and> rs_version t = rs_version s \<and>
     (rs_status t = Session_COMPLETED \<longrightarrow> rs_status s = Session_COMPLETED)"

interpretation quiet: session_relation completes_nothing
  by unfold_locales (auto simp: completes_nothing_def)

end
