(* ===== verification/Session_Service.thy ===== *)
theory Session_Service
  imports Service_Monad
begin

text \<open>
  \<^verbatim>\<open>control/session_service.py\<close>: every public method of \<^verbatim>\<open>SessionService\<close>, statement
  for statement. A method reads the session, applies the bookkeeping helper, writes the session
  and publishes its events; where the source publishes before it writes, so does the model.
  Optional keyword arguments are explicit. A method that the source starts with several clock
  readings numbers them in program order in its \<open>op_env\<close>.
\<close>

section \<open>Helpers\<close>

definition require_node :: "runtime_session \<Rightarrow> string \<Rightarrow> exn + node_state" where
  "require_node s key =
     (case session_node s key of None \<Rightarrow> Inl (NodeNotFoundError (rs_id s) key) | Some n \<Rightarrow> Inr n)"

definition tool_effect_key :: "string \<Rightarrow> string \<Rightarrow> string" where
  "tool_effect_key session_id effect_fingerprint =
     ''tool-effect:'' @ session_id @ '':'' @ effect_fingerprint"

definition session_transition :: "string \<Rightarrow> session_status \<Rightarrow> runtime_session svc" where
  "session_transition session_id st =
     svc_bind (get_session session_id) (\<lambda>s.
     svc_bind svc_env (\<lambda>e.
     svc_bind (svc_lift (transition_session st (ev_now e 0) s)) (\<lambda>s1.
     svc_bind (put_session s1) (\<lambda>s2.
     svc_bind (svc_lift (session_transition_event session_id s2 st)) (\<lambda>event.
     svc_bind (svc_emit event) (\<lambda>_.
     svc_return s2))))))"

definition node_only_transition :: "string \<Rightarrow> string \<Rightarrow> node_status \<Rightarrow> node_state svc" where
  "node_only_transition session_id key st =
     svc_bind (get_session session_id) (\<lambda>s.
     svc_bind (svc_lift (require_node s key)) (\<lambda>n.
     svc_bind svc_env (\<lambda>e.
     svc_bind (svc_lift (node_transition (ev_tick e key st) st n)) (\<lambda>n1.
     svc_bind (put_session (set_node key n1 s)) (\<lambda>_.
     svc_bind (case node_transition_event session_id n1 st of
         None \<Rightarrow> svc_return () | Some event \<Rightarrow> svc_emit event) (\<lambda>_.
     svc_return n1))))))"

definition find_running_attempt :: "node_state \<Rightarrow> string option \<Rightarrow> node_attempt option" where
  "find_running_attempt n execution_id =
     (case execution_id of
        Some i \<Rightarrow> (case List.find (\<lambda>a. na_id a = i) (ns_attempts n) of
            None \<Rightarrow> None
          | Some a \<Rightarrow> if na_status a = Attempt_RUNNING then Some a else None)
      | None \<Rightarrow> (case latest_attempt n of
            None \<Rightarrow> None
          | Some a \<Rightarrow> if na_status a = Attempt_RUNNING then Some a else None))"

section \<open>Lifecycle\<close>

definition create_session :: "workflow_blueprint \<Rightarrow> pydict \<Rightarrow> pydict \<Rightarrow> runtime_session svc" where
  "create_session b input_payload metadata =
     svc_bind svc_env (\<lambda>e.
       let s = create_runtime_session (ev_id e 0) (ev_born e) b input_payload metadata in
     svc_bind (put_session s) (\<lambda>s1.
     svc_bind (svc_emit (session_created (rs_id s1) (wb_name b) (length (rs_nodes s1)))) (\<lambda>_.
     svc_return s1)))"

definition mark_session_running :: "string \<Rightarrow> runtime_session svc" where
  "mark_session_running session_id = session_transition session_id Session_RUNNING"

definition mark_session_waiting_gate :: "string \<Rightarrow> runtime_session svc" where
  "mark_session_waiting_gate session_id = session_transition session_id Session_WAITING_GATE"

definition mark_session_resuming :: "string \<Rightarrow> runtime_session svc" where
  "mark_session_resuming session_id = session_transition session_id Session_RESUMING"

definition complete_session :: "string \<Rightarrow> pydict option \<Rightarrow> runtime_session svc" where
  "complete_session session_id summary =
     svc_bind (session_transition session_id Session_COMPLETED) (\<lambda>s.
       if (case summary of None \<Rightarrow> False | Some d \<Rightarrow> d \<noteq> [])
       then put_session (s\<lparr>rs_summary_output := the summary\<rparr>)
       else svc_return s)"

definition fail_session :: "string \<Rightarrow> string \<Rightarrow> runtime_session svc" where
  "fail_session session_id err =
     svc_bind (session_transition session_id Session_FAILED) (\<lambda>s.
       put_session (s\<lparr>rs_error_message := Some err\<rparr>))"

definition cancel_session :: "string \<Rightarrow> runtime_session svc" where
  "cancel_session session_id = session_transition session_id Session_CANCELLED"

definition update_session_metadata_op :: "string \<Rightarrow> pydict \<Rightarrow> bool \<Rightarrow> runtime_session svc" where
  "update_session_metadata_op session_id metadata merge =
     svc_bind (get_session session_id) (\<lambda>s.
     svc_bind svc_env (\<lambda>e.
     put_session (update_session_metadata metadata merge (ev_now e 0) s)))"

definition add_workflow_nodes_op :: "string \<Rightarrow> workflow_node_spec list \<Rightarrow> runtime_session svc" where
  "add_workflow_nodes_op session_id specs =
     svc_bind (get_session session_id) (\<lambda>s.
     svc_bind svc_env (\<lambda>e.
     svc_bind (svc_lift (add_workflow_nodes specs (ev_born e) (ev_now e 0) s)) (\<lambda>s1.
     put_session s1)))"

definition apply_workflow_revision_op :: "string \<Rightarrow> workflow_revision \<Rightarrow> runtime_session svc" where
  "apply_workflow_revision_op session_id r =
     svc_bind (get_session session_id) (\<lambda>s.
     svc_bind svc_env (\<lambda>e.
     svc_bind (svc_lift (apply_workflow_revision r (ev_now e 0) (ev_tick e) (ev_born_key e) s))
       (\<lambda>(summary, s1). put_session s1)))"

section \<open>Nodes\<close>

definition start_node :: "string \<Rightarrow> string \<Rightarrow> node_state svc" where
  "start_node session_id key =
     svc_bind (get_session session_id) (\<lambda>s.
     svc_bind (svc_lift (require_node s key)) (\<lambda>n.
     svc_bind svc_env (\<lambda>e.
     svc_bind (svc_lift (node_transition (ev_tick e key Node_RUNNING) Node_RUNNING n)) (\<lambda>n1.
     svc_bind (put_session (set_node key n1 s)) (\<lambda>_.
     svc_bind (svc_emit (node_started session_id key)) (\<lambda>_.
     svc_return n1))))))"

definition mark_node_pending_gate :: "string \<Rightarrow> string \<Rightarrow> node_state svc" where
  "mark_node_pending_gate session_id key = node_only_transition session_id key Node_PENDING_GATE"

definition approve_node :: "string \<Rightarrow> string \<Rightarrow> node_state svc" where
  "approve_node session_id key = node_only_transition session_id key Node_APPROVED"

definition mark_node_needs_revision :: "string \<Rightarrow> string \<Rightarrow> node_state svc" where
  "mark_node_needs_revision session_id key = node_only_transition session_id key Node_NEEDS_REVISION"

definition complete_node :: "string \<Rightarrow> string \<Rightarrow> pydict option \<Rightarrow> node_state svc" where
  "complete_node session_id key output =
     svc_bind (get_session session_id) (\<lambda>s.
     svc_bind (svc_lift (require_node s key)) (\<lambda>n.
     svc_bind svc_env (\<lambda>e.
     svc_bind (svc_lift (node_transition (ev_tick e key Node_COMPLETED) Node_COMPLETED n)) (\<lambda>n1.
     svc_bind (svc_lift (complete_running_attempt output (ev_now e 0) n1)) (\<lambda>(completed, n2).
     svc_bind (case completed of
         None \<Rightarrow> svc_return ()
       | Some a \<Rightarrow> svc_emit (node_execution_completed session_id key a (output \<noteq> None))) (\<lambda>_.
     svc_bind (put_session (set_node key n2 s)) (\<lambda>_.
     svc_bind (svc_emit (node_completed session_id n2 (output \<noteq> None))) (\<lambda>_.
     svc_return n2))))))))"

definition fail_node :: "string \<Rightarrow> string \<Rightarrow> string \<Rightarrow> node_state svc" where
  "fail_node session_id key err =
     svc_bind (get_session session_id) (\<lambda>s.
     svc_bind (svc_lift (require_node s key)) (\<lambda>n.
     svc_bind svc_env (\<lambda>e.
     svc_bind (svc_lift (node_transition (ev_tick e key Node_FAILED) Node_FAILED n)) (\<lambda>n1.
     svc_bind (svc_lift (fail_running_attempt err (ev_now e 0) n1)) (\<lambda>(failed, n2).
     svc_bind (case failed of
         None \<Rightarrow> svc_return ()
       | Some a \<Rightarrow> svc_emit (node_execution_failed session_id key a err)) (\<lambda>_.
     svc_bind (put_session (set_node key n2 s)) (\<lambda>_.
     svc_bind (svc_emit (node_failed session_id n2 err)) (\<lambda>_.
     svc_return n2))))))))"

definition requeue_node_for_retry :: "string \<Rightarrow> string \<Rightarrow> string \<Rightarrow> string option \<Rightarrow> node_state svc" where
  "requeue_node_for_retry session_id key reason actor =
     svc_bind (get_session session_id) (\<lambda>s.
     svc_bind (svc_lift (require_node s key)) (\<lambda>n.
     svc_bind svc_env (\<lambda>e.
       let now = ev_now e 0 in
     svc_bind (svc_lift (abort_and_requeue_node reason now (ev_tick e key) n)) (\<lambda>(aborted, n1).
     svc_bind (put_session ((set_node key n1 s)\<lparr>rs_updated_at := now\<rparr>)) (\<lambda>_.
     svc_bind (case aborted of
         None \<Rightarrow> svc_return ()
       | Some a \<Rightarrow> svc_emit (node_execution_aborted session_id key a reason actor)) (\<lambda>_.
     svc_bind (svc_emit (node_revised session_id n1 reason actor)) (\<lambda>_.
     svc_return n1)))))))"

definition revise_back_to_queued :: "string \<Rightarrow> string \<Rightarrow> node_state svc" where
  "revise_back_to_queued session_id key =
     requeue_node_for_retry session_id key ''revision requested'' None"

section \<open>Attempts\<close>

definition start_attempt :: "string \<Rightarrow> string \<Rightarrow> string option \<Rightarrow> node_attempt svc" where
  "start_attempt session_id key trace_id =
     svc_bind (get_session session_id) (\<lambda>s.
     svc_bind (svc_lift (require_node s key)) (\<lambda>n.
     svc_bind svc_env (\<lambda>e.
       let a = new_attempt (ev_id e 0) (ev_now e 0) key (length (ns_attempts n) + 1) trace_id;
           n1 = n\<lparr>ns_attempts := ns_attempts n @ [a], ns_updated_at := ev_now e 1\<rparr> in
     svc_bind (put_session (set_node key n1 s)) (\<lambda>_.
     svc_bind (svc_emit (attempt_started session_id key a trace_id)) (\<lambda>_.
     svc_return a)))))"

definition start_node_execution :: "string \<Rightarrow> string \<Rightarrow> string option \<Rightarrow> node_attempt svc" where
  "start_node_execution session_id key trace_id =
     svc_bind (start_attempt session_id key trace_id) (\<lambda>a.
     svc_bind (svc_emit (node_execution_started session_id key a trace_id)) (\<lambda>_.
     svc_return a))"

definition recover_expired_node_executions ::
    "string \<Rightarrow> time option \<Rightarrow> string option \<Rightarrow> node_attempt list svc" where
  "recover_expired_node_executions session_id as_of actor =
     svc_bind (get_session session_id) (\<lambda>s.
     svc_bind svc_env (\<lambda>e.
       let now = (case as_of of Some t \<Rightarrow> t | None \<Rightarrow> ev_now e 0) in
     svc_bind (svc_lift (recover_expired_node_execution_leases now (\<lambda>k. ev_tick e k Node_QUEUED) s))
       (\<lambda>(recovered, s1).
         if recovered = [] then svc_return []
         else svc_bind (put_session (s1\<lparr>rs_updated_at := now\<rparr>)) (\<lambda>_.
              svc_bind (svc_emit_all (concat (map (\<lambda>r.
                  [expired_node_execution_aborted session_id r actor,
                   recovered_node_revised session_id r actor]) recovered))) (\<lambda>_.
              svc_return (map rn_attempt recovered))))))"

definition record_tool_execution_started_op ::
    "string \<Rightarrow> string \<Rightarrow> string \<Rightarrow> string \<Rightarrow> int \<Rightarrow> pydict option \<Rightarrow> string option \<Rightarrow>
     pydict option \<Rightarrow> tool_execution svc" where
  "record_tool_execution_started_op session_id execution_id tool_call_id tool_name round_no
       arguments trace_id metadata =
     svc_bind (get_session session_id) (\<lambda>s.
     svc_bind svc_env (\<lambda>e.
     svc_bind (svc_lift (record_tool_execution_started (ev_id e 0) execution_id tool_call_id tool_name
         round_no arguments trace_id metadata (ev_now e 0) s)) (\<lambda>(tool, s1).
     svc_bind (put_session s1) (\<lambda>_.
     svc_return tool))))"

definition record_tool_execution_completed_op ::
    "string \<Rightarrow> string \<Rightarrow> string \<Rightarrow> bool \<Rightarrow> pydict option \<Rightarrow> int option \<Rightarrow> string option \<Rightarrow>
     tool_execution svc" where
  "record_tool_execution_completed_op session_id execution_id tool_call_id is_error result_preview
       content_length err =
     svc_bind (get_session session_id) (\<lambda>s.
     svc_bind svc_env (\<lambda>e.
     svc_bind (svc_lift (record_tool_execution_completed execution_id tool_call_id is_error
         result_preview content_length err (ev_now e 0) s)) (\<lambda>(tool, s1).
     svc_bind (put_session s1) (\<lambda>_.
     svc_return tool))))"

section \<open>Interactions\<close>

definition record_interaction_event ::
    "(interaction_log_record \<Rightarrow> json) \<Rightarrow> string \<Rightarrow> interaction_log_record \<Rightarrow>
     interaction_log_record svc" where
  "record_interaction_event dump session_id r =
     svc_bind (get_session session_id) (\<lambda>s.
       let key = interaction_idempotency_key r in
       if map_of (rs_processed_idempotency_keys s) key \<noteq> None then svc_return r
       else
     svc_bind svc_env (\<lambda>e.
     svc_bind (svc_lift (append_interaction_log dump r (ev_now e 0) s)) (\<lambda>(recorded, s1).
     svc_bind (put_session (s1\<lparr>rs_processed_idempotency_keys := AList.update key
         \<lparr>ir_key = key, ir_kind = ''interaction'', ir_claimed_at = ev_now e 1,
          ir_detail = [(''interaction_id'', JStr (il_interaction_id r)),
            (''event_kind'', JStr (log_event_kind_value (il_event_kind r)))]\<rparr>
         (rs_processed_idempotency_keys s1)\<rparr>)) (\<lambda>_.
     svc_return recorded))))"

text \<open>The shape of the methods that change one durable aggregate and write the session.\<close>

definition interaction_op ::
    "string \<Rightarrow> (op_env \<Rightarrow> runtime_session \<Rightarrow> exn + (durable_interaction \<times> runtime_session)) \<Rightarrow>
     durable_interaction svc" where
  "interaction_op session_id f =
     svc_bind (get_session session_id) (\<lambda>s.
     svc_bind svc_env (\<lambda>e.
     svc_bind (svc_lift (f e s)) (\<lambda>(d, s1).
     svc_bind (put_session s1) (\<lambda>_.
     svc_return d))))"

definition start_interaction ::
    "string \<Rightarrow> string \<Rightarrow> string \<Rightarrow> string \<Rightarrow> string \<Rightarrow> string \<Rightarrow> string \<Rightarrow> string list \<Rightarrow>
     string option \<Rightarrow> durable_interaction svc" where
  "start_interaction session_id interaction_id node_key execution_id team_id protocol_mode topology
       member_ids workspace_id =
     interaction_op session_id (\<lambda>e s. Inr (start_durable_interaction interaction_id node_key
       execution_id team_id protocol_mode topology member_ids workspace_id (ev_now e 0) s))"

definition record_interaction_turn ::
    "string \<Rightarrow> string \<Rightarrow> int \<Rightarrow> string \<Rightarrow> turn_status \<Rightarrow> durable_interaction svc" where
  "record_interaction_turn session_id interaction_id turn_index agent_id status =
     interaction_op session_id (\<lambda>e. record_durable_turn interaction_id turn_index agent_id status
       (ev_now e 0))"

definition record_interaction_message ::
    "string \<Rightarrow> string \<Rightarrow> int \<Rightarrow> string \<Rightarrow> string \<Rightarrow> message_role \<Rightarrow> string option \<Rightarrow>
     durable_interaction svc" where
  "record_interaction_message session_id interaction_id turn_index sender content role in_reply_to =
     interaction_op session_id (\<lambda>e. record_durable_message interaction_id turn_index sender content
       role in_reply_to (ev_now e 0))"

definition record_interaction_outcome ::
    "string \<Rightarrow> string \<Rightarrow> vote_outcome option \<Rightarrow> coordinator_outcome option \<Rightarrow>
     durable_interaction svc" where
  "record_interaction_outcome session_id interaction_id vote coordinator =
     interaction_op session_id (\<lambda>e. record_durable_outcome interaction_id vote coordinator (ev_now e 0))"

definition complete_interaction ::
    "string \<Rightarrow> string \<Rightarrow> interaction_status \<Rightarrow> string option \<Rightarrow> durable_interaction svc" where
  "complete_interaction session_id interaction_id status err =
     interaction_op session_id (\<lambda>e. complete_durable_interaction interaction_id status err (ev_now e 0))"

definition fail_interaction :: "string \<Rightarrow> string \<Rightarrow> string \<Rightarrow> durable_interaction svc" where
  "fail_interaction session_id interaction_id err =
     complete_interaction session_id interaction_id Interaction_FAILED (Some err)"

definition get_durable_interaction :: "string \<Rightarrow> string \<Rightarrow> durable_interaction option svc" where
  "get_durable_interaction session_id interaction_id =
     svc_bind (get_session session_id) (\<lambda>s.
     svc_return (map_of (rs_durable_interactions s) interaction_id))"

definition list_durable_interactions :: "string \<Rightarrow> durable_interaction list svc" where
  "list_durable_interactions session_id =
     svc_bind (get_session session_id) (\<lambda>s. svc_return (map snd (rs_durable_interactions s)))"

definition resumable :: "durable_interaction \<Rightarrow> bool" where
  "resumable d \<longleftrightarrow> di_status d = Interaction_RUNNING \<and>
     list_ex (\<lambda>t. dt_status t = Turn_COMPLETED) (di_turns d)"

definition find_resumable_interaction :: "string \<Rightarrow> string \<Rightarrow> durable_interaction option svc" where
  "find_resumable_interaction session_id key =
     svc_bind (get_session session_id) (\<lambda>s.
     svc_return (case map_of (rs_durable_interactions s) (durable_interaction_id session_id key) of
         None \<Rightarrow> None
       | Some d \<Rightarrow> if di_status d \<noteq> Interaction_RUNNING then None
                   else if \<not> list_ex (\<lambda>t. dt_status t = Turn_COMPLETED) (di_turns d) then None
                   else Some d))"

definition mark_interaction_resumed :: "string \<Rightarrow> string \<Rightarrow> int \<Rightarrow> durable_interaction svc" where
  "mark_interaction_resumed session_id interaction_id recovered_from =
     interaction_op session_id (\<lambda>e. mark_durable_interaction_resumed interaction_id recovered_from
       (ev_now e 0))"

section \<open>Turn leases\<close>

definition grant_turn_lease ::
    "string \<Rightarrow> string \<Rightarrow> int \<Rightarrow> string \<Rightarrow> string \<Rightarrow> int \<Rightarrow> string option \<Rightarrow> durable_interaction svc" where
  "grant_turn_lease session_id interaction_id turn_index agent_id owner ttl_seconds lease_token =
     interaction_op session_id (\<lambda>e. grant_durable_turn_lease interaction_id turn_index agent_id owner
       ttl_seconds lease_token (ev_id e 0) (ev_now e 0))"

definition heartbeat_turn_lease ::
    "string \<Rightarrow> string \<Rightarrow> int \<Rightarrow> string \<Rightarrow> int \<Rightarrow> durable_interaction svc" where
  "heartbeat_turn_lease session_id interaction_id turn_index lease_token ttl_seconds =
     interaction_op session_id (\<lambda>e. heartbeat_durable_turn_lease interaction_id turn_index lease_token
       ttl_seconds (ev_now e 0))"

definition release_turn_lease ::
    "string \<Rightarrow> string \<Rightarrow> int \<Rightarrow> string \<Rightarrow> bool \<Rightarrow> durable_interaction svc" where
  "release_turn_lease session_id interaction_id turn_index lease_token completed =
     interaction_op session_id (\<lambda>e. release_durable_turn_lease interaction_id turn_index lease_token
       completed (ev_now e 0))"

definition recover_expired_turn_leases ::
    "string \<Rightarrow> time option \<Rightarrow> recovered_durable_turn list svc" where
  "recover_expired_turn_leases session_id as_of =
     svc_bind (get_session session_id) (\<lambda>s.
     svc_bind svc_env (\<lambda>e.
       let now = (case as_of of Some t \<Rightarrow> t | None \<Rightarrow> ev_now e 0) in
       case recover_expired_durable_turn_leases now s of
         (recovered, s1) \<Rightarrow>
           if recovered = [] then svc_return []
           else svc_bind (put_session (s1\<lparr>rs_updated_at := now\<rparr>)) (\<lambda>_. svc_return recovered)))"

section \<open>Execution leases\<close>

definition grant_execution_lease_op ::
    "string \<Rightarrow> string \<Rightarrow> string \<Rightarrow> string \<Rightarrow> int \<Rightarrow> string option \<Rightarrow> node_attempt svc" where
  "grant_execution_lease_op session_id key execution_id owner ttl_seconds lease_token =
     svc_bind (get_session session_id) (\<lambda>s.
     svc_bind svc_env (\<lambda>e.
     svc_bind (svc_lift (grant_execution_lease key execution_id owner ttl_seconds lease_token
         (ev_id e 0) (ev_now e 0) s)) (\<lambda>(a, s1).
     svc_bind (put_session s1) (\<lambda>_.
     case na_lease_expires_at a of
       None \<Rightarrow> svc_lift (Inl (ExecutionLeaseError ExpiryNotSet))
     | Some t \<Rightarrow> svc_bind (svc_emit (execution_lease_granted session_id a (py_isoformat t))) (\<lambda>_.
         svc_return a)))))"

definition assert_execution_lease_op ::
    "string \<Rightarrow> string \<Rightarrow> string \<Rightarrow> bool \<Rightarrow> node_attempt svc" where
  "assert_execution_lease_op session_id execution_id lease_token allow_expired =
     svc_bind (get_session session_id) (\<lambda>s.
     svc_bind (svc_lift (find_attempt_by_id s execution_id)) (\<lambda>(a, n).
     svc_bind svc_env (\<lambda>e.
     svc_bind (svc_lift (assert_execution_lease a lease_token (ev_now e 0) allow_expired)) (\<lambda>_.
     svc_return a))))"

definition heartbeat_execution_lease_op ::
    "string \<Rightarrow> string \<Rightarrow> string \<Rightarrow> int \<Rightarrow> node_attempt svc" where
  "heartbeat_execution_lease_op session_id execution_id lease_token ttl_seconds =
     svc_bind (get_session session_id) (\<lambda>s.
     svc_bind svc_env (\<lambda>e.
     svc_bind (svc_lift (heartbeat_execution_lease execution_id lease_token ttl_seconds
         (ev_now e 0) s)) (\<lambda>(a, s1).
     svc_bind (put_session s1) (\<lambda>_.
     case na_lease_expires_at a of
       None \<Rightarrow> svc_lift (Inl (ExecutionLeaseError ExpiryNotSet))
     | Some t \<Rightarrow> svc_bind (svc_emit (execution_lease_heartbeat session_id a (py_isoformat t))) (\<lambda>_.
         svc_return a)))))"

definition release_execution_lease_op :: "string \<Rightarrow> string \<Rightarrow> string \<Rightarrow> node_attempt svc" where
  "release_execution_lease_op session_id execution_id lease_token =
     svc_bind (get_session session_id) (\<lambda>s.
     svc_bind svc_env (\<lambda>e.
     svc_bind (svc_lift (release_execution_lease execution_id lease_token (ev_now e 0) s))
       (\<lambda>(a, owner, s1).
     svc_bind (put_session s1) (\<lambda>_.
     svc_bind (svc_emit (execution_lease_released session_id a owner)) (\<lambda>_.
     svc_return a)))))"

section \<open>Gates\<close>

definition record_gate_op ::
    "string \<Rightarrow> string \<Rightarrow> string \<Rightarrow> gate_outcome \<Rightarrow> pydict option \<Rightarrow> gate svc" where
  "record_gate_op session_id key name outcome detail =
     svc_bind (get_session session_id) (\<lambda>s.
     svc_bind (svc_lift (require_node s key)) (\<lambda>n.
     svc_bind svc_env (\<lambda>e.
     case record_gate (ev_id e 0) (ev_now e 1) key name outcome detail (ev_now e 0) n of
       (g, n1) \<Rightarrow>
         svc_bind (put_session (set_node key n1 s)) (\<lambda>_.
         svc_bind (svc_emit (gate_recorded session_id n1 (gt_id g) name (gate_outcome_value outcome)))
           (\<lambda>_. svc_return g)))))"

definition apply_gate_decision_op :: "string \<Rightarrow> gate_decision_input \<Rightarrow> gate svc" where
  "apply_gate_decision_op session_id d =
     svc_bind (get_session session_id) (\<lambda>s.
     svc_bind svc_env (\<lambda>e.
     svc_bind (svc_lift (apply_gate_decision (ev_id e 0) (ev_now e 1) d (ev_now e 0) (ev_now e 2) s))
       (\<lambda>(r, s1).
     svc_bind (put_session s1) (\<lambda>_.
     svc_bind (svc_emit (gate_decision_applied session_id (gr_node r) (gt_id (gr_gate r))
         (decision_action_value (gi_action d)) (gi_actor d)
         (node_status_value (gr_target_status r)))) (\<lambda>_.
     svc_return (gr_gate r))))))"

section \<open>Repair budget and idempotency ledger\<close>

definition reserve_auto_repair_attempt :: "string \<Rightarrow> int \<Rightarrow> bool svc" where
  "reserve_auto_repair_attempt session_id max_attempts =
     (if max_attempts \<le> 0 then svc_return False
      else svc_bind (get_session session_id) (\<lambda>s.
        if max_attempts \<le> int (rs_auto_repair_attempts_used s) then svc_return False
        else svc_bind svc_env (\<lambda>e.
             svc_bind (put_session (s\<lparr>rs_auto_repair_attempts_used := rs_auto_repair_attempts_used s + 1,
               rs_updated_at := ev_now e 0\<rparr>)) (\<lambda>_.
             svc_return True))))"

definition auto_repair_attempts_used :: "string \<Rightarrow> nat svc" where
  "auto_repair_attempts_used session_id =
     svc_bind (get_session session_id) (\<lambda>s. svc_return (rs_auto_repair_attempts_used s))"

definition claim_idempotency_key :: "string \<Rightarrow> string \<Rightarrow> string \<Rightarrow> pydict option \<Rightarrow> bool svc" where
  "claim_idempotency_key session_id key kind detail =
     (if key = [] then svc_lift (Inl ValueError)
      else svc_bind (get_session session_id) (\<lambda>s.
        if map_of (rs_processed_idempotency_keys s) key \<noteq> None then svc_return False
        else svc_bind svc_env (\<lambda>e.
             svc_bind (put_session (s\<lparr>rs_processed_idempotency_keys := AList.update key
                 \<lparr>ir_key = key, ir_kind = kind, ir_claimed_at = ev_now e 0,
                  ir_detail = (case detail of None \<Rightarrow> [] | Some d \<Rightarrow> d)\<rparr>
                 (rs_processed_idempotency_keys s),
               rs_updated_at := ev_now e 1\<rparr>)) (\<lambda>_.
             svc_return True))))"

definition is_idempotency_key_processed :: "string \<Rightarrow> string \<Rightarrow> bool svc" where
  "is_idempotency_key_processed session_id key =
     svc_bind (get_session session_id) (\<lambda>s.
     svc_return (map_of (rs_processed_idempotency_keys s) key \<noteq> None))"

definition lookup_tool_effect_result :: "string \<Rightarrow> string \<Rightarrow> (string \<times> string) option svc" where
  "lookup_tool_effect_result session_id effect_fingerprint =
     (if effect_fingerprint = [] then svc_return None
      else svc_bind (get_session session_id) (\<lambda>s.
        svc_return (case map_of (rs_processed_idempotency_keys s)
              (tool_effect_key session_id effect_fingerprint) of
            None \<Rightarrow> None
          | Some r \<Rightarrow>
              (case (map_of (ir_detail r) ''tool_call_id'', map_of (ir_detail r) ''content'') of
                 (Some (JStr source_id), Some (JStr content)) \<Rightarrow> Some (source_id, content)
               | _ \<Rightarrow> None))))"

definition record_tool_effect_result :: "string \<Rightarrow> string \<Rightarrow> string \<Rightarrow> string \<Rightarrow> unit svc" where
  "record_tool_effect_result session_id effect_fingerprint tool_call_id content =
     (if effect_fingerprint = [] then svc_return ()
      else let key = tool_effect_key session_id effect_fingerprint in
        svc_bind (get_session session_id) (\<lambda>s.
        if map_of (rs_processed_idempotency_keys s) key \<noteq> None then svc_return ()
        else svc_bind svc_env (\<lambda>e.
             svc_bind (put_session (s\<lparr>rs_processed_idempotency_keys := AList.update key
                 \<lparr>ir_key = key, ir_kind = ''tool_effect'', ir_claimed_at = ev_now e 0,
                  ir_detail = [(''tool_call_id'', JStr tool_call_id), (''content'', JStr content)]\<rparr>
                 (rs_processed_idempotency_keys s),
               rs_updated_at := ev_now e 1\<rparr>)) (\<lambda>_.
             svc_return ()))))"

section \<open>Queries and reports\<close>

definition get_node :: "string \<Rightarrow> string \<Rightarrow> node_state svc" where
  "get_node session_id key =
     svc_bind (get_session session_id) (\<lambda>s. svc_lift (require_node s key))"

definition get_latest_gate :: "string \<Rightarrow> string \<Rightarrow> gate option svc" where
  "get_latest_gate session_id key =
     svc_bind (get_node session_id key) (\<lambda>n. svc_return (latest_gate n))"

text \<open>The attempt that a report is merged into, and the node with it written back.\<close>

definition merge_report :: "agent_report \<Rightarrow> node_attempt \<Rightarrow> node_attempt" where
  "merge_report r a =
     a\<lparr>na_output := dict_merge (na_output a) (persisted_output r),
       na_error := (if truthy (ar_error r) then ar_error r else na_error a)\<rparr>"

definition consume_report_on_node ::
    "string \<Rightarrow> time \<Rightarrow> time \<Rightarrow> agent_report \<Rightarrow> node_state \<Rightarrow> node_state" where
  "consume_report_on_node fresh_id started now r n =
     (case find_running_attempt n (ar_execution_id r) of
        Some a \<Rightarrow>
          (case ar_execution_id r of
             Some i \<Rightarrow> n\<lparr>ns_attempts := update_first (\<lambda>b. na_id b = i) (\<lambda>_. merge_report r a)
                         (ns_attempts n), ns_updated_at := now\<rparr>
           | None \<Rightarrow> (set_latest_attempt (merge_report r a) n)\<lparr>ns_updated_at := now\<rparr>)
      | None \<Rightarrow>
          n\<lparr>ns_attempts := ns_attempts n @ [merge_report r (new_attempt fresh_id started
              (ar_node_key r) (length (ns_attempts n) + 1) (ar_trace_id r))],
            ns_updated_at := now\<rparr>)"

definition consume_agent_report :: "string \<Rightarrow> agent_report \<Rightarrow> unit svc" where
  "consume_agent_report session_id r =
     svc_bind (get_session session_id) (\<lambda>s.
     svc_bind (svc_lift (require_node s (ar_node_key r))) (\<lambda>n.
     svc_bind svc_env (\<lambda>e.
     svc_bind (put_session (set_node (ar_node_key r)
         (consume_report_on_node (ev_id e 0) (ev_now e 0) (ev_now e 1) r n) s)) (\<lambda>_.
     svc_return ()))))"

end
