(* ===== verification/Service_Facts.thy ===== *)
theory Service_Facts
  imports Session_Service
begin

text \<open>
  What every method of \<^verbatim>\<open>SessionService\<close> keeps. The locale \<open>tool_relation\<close> extends
  the program logic by one law: a change that evolves the session and leaves its status and its
  team aggregates is allowed, which covers what agents record while they work. The locale
  \<open>service_relation\<close> drops the condition on the aggregates. Under it every method but the session transitions preserves the relation, whatever
  the clock, the ids and the observers do; a session transition preserves it when its target
  does. Both relations of the program logic are interpretations.
\<close>

section \<open>Only transitions change the status of a session\<close>

lemma set_node_status [simp]: "rs_status (set_node k n s) = rs_status s"
  by (simp add: set_node_def)

lemma status_update_metadata: "rs_status (update_session_metadata md mg now s) = rs_status s"
  by (simp add: update_session_metadata_def)

lemma status_add_nodes: "add_workflow_nodes specs c now s = Inr s' \<Longrightarrow> rs_status s' = rs_status s"
  by (auto simp: add_workflow_nodes_def)

lemma status_revision:
  assumes "apply_workflow_revision r now tick born s = Inr (w, s')"
  shows "rs_status s' = rs_status s"
proof -
  have f: "rs_status s1 = rs_status s0" if "fold_err (for_node g) ks s0 = Inr s1" for g ks s0 s1
    by (rule fold_err_rule [OF that, where P = "\<lambda>s t. rs_status t = rs_status s"])
       (auto simp: for_node_def split: option.splits)
  have a: "rs_status s1 = rs_status s0" if "fold_err (add_node_for_revision tick born) ks s0 = Inr s1" for ks s0 s1
    by (rule fold_err_rule [OF that, where P = "\<lambda>s t. rs_status t = rs_status s"])
       (auto simp: add_node_for_revision_def split: option.splits)
  show ?thesis
    using assms by (elim apply_workflow_revision_InrD) (auto dest!: f a)
qed

lemma status_recover:
  "recover_expired_node_execution_leases now tick s = Inr (r, s') \<Longrightarrow> rs_status s' = rs_status s"
  by (auto simp: recover_expired_eq)

lemma status_tool_started:
  "record_tool_execution_started f i c nm r a tr md now s = Inr (t, s') \<Longrightarrow> rs_status s' = rs_status s"
  by (auto simp: record_tool_execution_started_def Let_def split: option.splits)

lemma status_tool_completed:
  "record_tool_execution_completed i c er pv len err now s = Inr (t, s') \<Longrightarrow> rs_status s' = rs_status s"
  by (auto simp: record_tool_execution_completed_def Let_def split: option.splits)

lemma status_leases:
  "grant_execution_lease k i ow ttl tok fresh now s = Inr (a, s') \<Longrightarrow> rs_status s' = rs_status s"
  "heartbeat_execution_lease i hk ttl now s = Inr (a, s') \<Longrightarrow> rs_status s' = rs_status s"
  "release_execution_lease i hk now s = Inr (a, owner, s') \<Longrightarrow> rs_status s' = rs_status s"
  by (auto simp: grant_execution_lease_def heartbeat_execution_lease_def release_execution_lease_def)

lemma status_log: "append_interaction_log dump r now s = Inr (x, s') \<Longrightarrow> rs_status s' = rs_status s"
  by (auto simp: append_interaction_log_def)

lemma status_gate_decision:
  "apply_gate_decision f c d now tick s = Inr (r, s') \<Longrightarrow> rs_status s' = rs_status s"
  by (auto simp: apply_gate_decision_def Let_def)

lemma status_start_interaction:
  "start_durable_interaction i nk ex tm pm tp ms ws now s = (d, s') \<Longrightarrow> rs_status s' = rs_status s"
  by (auto simp: start_durable_interaction_def Let_def split: option.splits)

lemma status_durable_turn:
  assumes "record_durable_turn i ti ag st now s = Inr (d, s')"
  shows "rs_status s' = rs_status s"
  using assms by (cases rule: record_durable_turn_cases) simp_all

lemma status_durable_message:
  "record_durable_message i ti sd ct rl rp now s = Inr (d, s') \<Longrightarrow> rs_status s' = rs_status s"
  by (auto simp: record_durable_message_def Let_def split: if_splits)

lemma status_durable_outcome:
  "record_durable_outcome i v c now s = Inr (d, s') \<Longrightarrow> rs_status s' = rs_status s"
  by (auto simp: record_durable_outcome_def Let_def split: if_splits)

lemma status_durable_marks:
  "mark_durable_interaction_resumed i x now s = Inr (d, s') \<Longrightarrow> rs_status s' = rs_status s"
  "complete_durable_interaction i st err now s = Inr (d, s') \<Longrightarrow> rs_status s' = rs_status s"
  by (auto simp: mark_durable_interaction_resumed_def complete_durable_interaction_def Let_def
      split: if_splits)

lemma status_turn_leases:
  "grant_durable_turn_lease i ti ag ow ttl tok fresh now s = Inr (d, s') \<Longrightarrow> rs_status s' = rs_status s"
  "heartbeat_durable_turn_lease i ti k ttl now s = Inr (d, s') \<Longrightarrow> rs_status s' = rs_status s"
  "release_durable_turn_lease i ti k b now s = Inr (d, s') \<Longrightarrow> rs_status s' = rs_status s"
  by (auto simp: grant_durable_turn_lease_def heartbeat_durable_turn_lease_def
      release_durable_turn_lease_def Let_def)

lemma status_recover_turns:
  "recover_expired_durable_turn_leases now s = (recs, s') \<Longrightarrow> rs_status s' = rs_status s"
  by (auto simp: recover_expired_durable_turn_leases_def Let_def split: if_splits)

lemmas steady_status =
  status_update_metadata status_add_nodes status_revision status_recover status_tool_started
  status_tool_completed status_leases status_log status_gate_decision status_start_interaction
  status_durable_turn status_durable_message status_durable_outcome status_durable_marks
  status_turn_leases status_recover_turns

section \<open>Reports evolve their node\<close>

lemma attempt_evolves_merge_report:
  "na_status a = Attempt_RUNNING \<Longrightarrow> attempt_evolves a (merge_report r a)"
  by (simp add: attempt_evolves_def merge_report_def)

lemma node_evolves_consume_report: "node_evolves n (consume_report_on_node f st now r n)"
proof (cases "find_running_attempt n (ar_execution_id r)")
  case None
  then show ?thesis by (simp add: consume_report_on_node_def node_evolves_def)
next
  case (Some a)
  have run: "na_status a = Attempt_RUNNING"
    using Some by (auto simp: find_running_attempt_def split: option.splits if_splits)
  show ?thesis
  proof (cases "ar_execution_id r")
    case None
    then have "ns_attempts n \<noteq> []" "last (ns_attempts n) = a"
      using Some by (auto simp: find_running_attempt_def latest_attempt_def split: if_splits)
    then have "node_evolves n (set_latest_attempt (merge_report r a) n)"
      unfolding set_latest_attempt_def using attempt_evolves_merge_report [OF run]
      by (intro node_evolves_latest) simp_all
    then show ?thesis using Some None by (simp add: consume_report_on_node_def)
  next
    case (Some i)
    then have fa: "List.find (\<lambda>b. na_id b = i) (ns_attempts n) = Some a"
      using \<open>find_running_attempt n (ar_execution_id r) = Some a\<close>
      by (auto simp: find_running_attempt_def split: option.splits if_splits)
    have "grows attempt_evolves (ns_attempts n)
        (update_first (\<lambda>b. na_id b = i) (\<lambda>_. merge_report r a) (ns_attempts n))"
      using update_first_const [OF fa, of "\<lambda>b. if b = a then merge_report r a else b"]
        grows_update_first [of attempt_evolves "\<lambda>b. na_id b = i"
          "\<lambda>b. if b = a then merge_report r a else b"] attempt_evolves_merge_report [OF run]
      by simp
    then show ?thesis
      using Some \<open>find_running_attempt n (ar_execution_id r) = Some a\<close>
      by (simp add: consume_report_on_node_def node_evolves_def)
  qed
qed

lemma require_node_Inr [simp]: "require_node s k = Inr n \<longleftrightarrow> session_node s k = Some n"
  by (auto simp: require_node_def split: option.splits)

lemma node_evolves_append_attempt:
  "node_evolves n (n\<lparr>ns_attempts := ns_attempts n @ as, ns_updated_at := t\<rparr>)"
  by (simp add: node_evolves_def)

section \<open>Every method preserves the relation\<close>

text \<open>What agents record while they work leaves the aggregates of the teams as they are.\<close>

lemma tool_teams:
  "record_tool_execution_started f i c nm r a tr md now s = Inr (t, s') \<Longrightarrow>
     rs_durable_interactions s' = rs_durable_interactions s"
  "record_tool_execution_completed i c er pv len err now s = Inr (t, s') \<Longrightarrow>
     rs_durable_interactions s' = rs_durable_interactions s"
  "append_interaction_log dump lr now s = Inr (x, s') \<Longrightarrow>
     rs_durable_interactions s' = rs_durable_interactions s"
  by (auto simp: record_tool_execution_started_def record_tool_execution_completed_def
      append_interaction_log_def Let_def split: option.splits)

locale tool_relation = session_relation +
  assumes rel_tool: "evolves s t \<Longrightarrow> rs_status t = rs_status s \<Longrightarrow>
    rs_durable_interactions t = rs_durable_interactions s \<Longrightarrow> rel s t"
begin

lemma spec_emit_opt_bind:
  "spec rel P (f ()) R \<Longrightarrow>
   spec rel P (svc_bind (case x of None \<Rightarrow> svc_return () | Some a \<Rightarrow> svc_emit (b a)) f) R"
  by (rule spec_bind [where Q = "\<lambda>_. P"])
     (auto intro: spec_emit spec_return split: option.splits)

lemma spec_done: "spec rel P (svc_return x) (\<lambda>_ _. True)"
  by (rule spec_return) simp

lemma spec_fail: "spec rel P (svc_lift r) (\<lambda>_ _. True)"
  by (rule spec_lift) simp

lemma spec_put_last: "rel s0 s \<Longrightarrow> spec rel (ready rel s0) (put_session s) (\<lambda>_ _. True)"
  by (rule spec_conseq [OF spec_put]) (auto intro: ready_rel)

lemmas svc_steps =
  spec_get_bind spec_env_bind spec_lift_bind spec_emit_bind spec_emit_all_bind spec_emit_opt_bind
  spec_done spec_fail spec_case_prod spec_if spec_case_option

lemma tool_ops_preserve [svc_intros]:
  "preserves rel (record_tool_execution_started_op i x c nm rn ar tr md)"
  "preserves rel (record_tool_execution_completed_op i x c er pv len err)"
  unfolding record_tool_execution_started_op_def record_tool_execution_completed_op_def
  by (intro svc_steps spec_put_bind; auto intro!: rel_tool intro: evolves_intros steady_status tool_teams)+

lemma record_interaction_event_preserves [svc_intros]:
  "preserves rel (record_interaction_event dump i r)"
proof -
  have "rel s (s1\<lparr>rs_processed_idempotency_keys := AList.update k x (rs_processed_idempotency_keys s1)\<rparr>)"
    if "append_interaction_log dump r now s = Inr (y, s1)"
      "map_of (rs_processed_idempotency_keys s) k = None" for now s s1 y k x
  proof (rule rel_tool)
    have "map_of (rs_processed_idempotency_keys s1) k = None"
      using that append_interaction_log_fields(3) by simp
    then show "evolves s (s1\<lparr>rs_processed_idempotency_keys :=
        AList.update k x (rs_processed_idempotency_keys s1)\<rparr>)"
      using evolves_trans [OF evolves_append_interaction_log [OF that(1)] evolves_ledger] by blast
    show "rs_status (s1\<lparr>rs_processed_idempotency_keys :=
        AList.update k x (rs_processed_idempotency_keys s1)\<rparr>) = rs_status s"
      using status_log [OF that(1)] by simp
    show "rs_durable_interactions (s1\<lparr>rs_processed_idempotency_keys :=
        AList.update k x (rs_processed_idempotency_keys s1)\<rparr>) = rs_durable_interactions s"
      using tool_teams(3) [OF that(1)] by simp
  qed
  then show ?thesis
    unfolding record_interaction_event_def Let_def
    by (intro svc_steps spec_put_bind) auto
qed

lemma ledger_ops_preserve [svc_intros]:
  "preserves rel (claim_idempotency_key i k kd dt)"
  "preserves rel (record_tool_effect_result i fp c ct)"
  unfolding claim_idempotency_key_def record_tool_effect_result_def Let_def
  by (intro svc_steps spec_put_bind; auto intro!: rel_tool evolves_ledger)+

lemma queries_preserve [svc_intros]:
  "preserves rel (get_session i)"
  "preserves rel (get_durable_interaction i ii)"
  "preserves rel (list_durable_interactions i)"
  "preserves rel (find_resumable_interaction i k)"
  "preserves rel (auto_repair_attempts_used i)"
  "preserves rel (is_idempotency_key_processed i k)"
  "preserves rel (lookup_tool_effect_result i fp)"
  "preserves rel (get_node i k)"
  "preserves rel (get_latest_gate i k)"
proof -
  show "preserves rel (get_session i)" by (rule spec_true [OF spec_get])
  show n: "preserves rel (get_node i k)" for k
    unfolding get_node_def by (intro svc_steps)
  then show "preserves rel (get_latest_gate i k)"
    unfolding get_latest_gate_def by (intro spec_then svc_steps)
qed (unfold get_durable_interaction_def list_durable_interactions_def find_resumable_interaction_def
      auto_repair_attempts_used_def is_idempotency_key_processed_def lookup_tool_effect_result_def,
     (intro svc_steps)+)

end

locale service_relation = tool_relation +
  assumes rel_steady: "evolves s t \<Longrightarrow> rs_status t = rs_status s \<Longrightarrow> rel s t"
begin

lemma rel_set_node: "session_node s k = Some n \<Longrightarrow> node_evolves n m \<Longrightarrow> rel s (set_node k m s)"
  by (rule rel_steady) (auto intro: evolves_set_node)

lemma session_transition_preserves:
  assumes "\<And>now s s'. transition_session st now s = Inr s' \<Longrightarrow> rel s s'"
  shows "spec rel (\<lambda>_. True) (session_transition i st) (ready rel)"
  unfolding session_transition_def
  by (intro spec_get_bind spec_env_bind spec_lift_bind spec_put_bind spec_emit_bind spec_return)
     (auto intro: assms)

lemma node_only_transition_preserves [svc_intros]: "preserves rel (node_only_transition i k st)"
  unfolding node_only_transition_def
  by (intro svc_steps spec_put_bind)
     (auto intro!: rel_set_node node_evolves_transition simp del: node_transition_Inr)

lemma create_session_preserves [svc_intros]: "preserves rel (create_session b inp md)"
  unfolding create_session_def Let_def
  by (intro spec_env_bind spec_put_new_bind spec_emit_bind spec_done)
     (simp add: create_runtime_session_def)

lemma complete_session_preserves:
  assumes "\<And>now s s'. transition_session Session_COMPLETED now s = Inr s' \<Longrightarrow> rel s s'"
  shows "preserves rel (complete_session i summary)"
  unfolding complete_session_def
  by (intro spec_bind [OF session_transition_preserves [OF assms]] spec_if spec_done spec_put_last)
     (auto intro: rel_steady)

lemma fail_session_preserves:
  assumes "\<And>now s s'. transition_session Session_FAILED now s = Inr s' \<Longrightarrow> rel s s'"
  shows "preserves rel (fail_session i err)"
  unfolding fail_session_def
  by (intro spec_bind [OF session_transition_preserves [OF assms]] spec_put_last)
     (auto intro: rel_steady)

lemma steady_metadata_ops [svc_intros]:
  "preserves rel (update_session_metadata_op i md mg)"
  "preserves rel (add_workflow_nodes_op i specs)"
  "preserves rel (apply_workflow_revision_op i r)"
  unfolding update_session_metadata_op_def add_workflow_nodes_op_def apply_workflow_revision_op_def
  by (intro svc_steps spec_put_last; auto intro: rel_steady evolves_intros steady_status)+

lemma start_node_preserves [svc_intros]: "preserves rel (start_node i k)"
  unfolding start_node_def
  by (intro svc_steps spec_put_bind)
     (auto intro!: rel_set_node node_evolves_transition simp del: node_transition_Inr)

lemma complete_node_preserves [svc_intros]: "preserves rel (complete_node i k out)"
  unfolding complete_node_def
  by (intro svc_steps spec_put_bind)
     (auto intro!: rel_set_node simp del: node_transition_Inr
       intro: node_evolves_trans [OF node_evolves_transition node_evolves_complete_attempt])

lemma fail_node_preserves [svc_intros]: "preserves rel (fail_node i k err)"
  unfolding fail_node_def
  by (intro svc_steps spec_put_bind)
     (auto intro!: rel_set_node simp del: node_transition_Inr
       intro: node_evolves_trans [OF node_evolves_transition node_evolves_fail_attempt])

lemma requeue_node_for_retry_preserves [svc_intros]: "preserves rel (requeue_node_for_retry i k rs ac)"
  unfolding requeue_node_for_retry_def Let_def
  by (intro svc_steps spec_put_bind)
     (auto intro!: rel_steady elim!: evolves_set_node node_evolves_abort_and_requeue(1))

lemma start_attempt_preserves [svc_intros]: "preserves rel (start_attempt i k tr)"
  unfolding start_attempt_def Let_def
  by (intro svc_steps spec_put_bind) (auto intro!: rel_set_node node_evolves_append_attempt)

lemma start_node_execution_preserves [svc_intros]: "preserves rel (start_node_execution i k tr)"
  unfolding start_node_execution_def
  by (intro spec_then start_attempt_preserves svc_steps)

lemma recover_expired_node_executions_preserves [svc_intros]:
  "preserves rel (recover_expired_node_executions i as_of ac)"
  unfolding recover_expired_node_executions_def Let_def
  by (intro svc_steps spec_put_bind) (auto intro!: rel_steady intro: evolves_recover status_recover)

lemma interaction_op_preserves:
  assumes "\<And>e s d s'. f e s = Inr (d, s') \<Longrightarrow> evolves s s' \<and> rs_status s' = rs_status s"
  shows "preserves rel (interaction_op i f)"
  unfolding interaction_op_def
  by (intro svc_steps spec_put_bind) (auto intro: rel_steady dest: assms)

lemma interaction_ops_preserve [svc_intros]:
  "preserves rel (start_interaction i ii nk ex tm pm tp ms ws)"
  "preserves rel (record_interaction_turn i ii ti ag st)"
  "preserves rel (record_interaction_message i ii ti sd ct rl rp)"
  "preserves rel (record_interaction_outcome i ii v c)"
  "preserves rel (complete_interaction i ii ist err)"
  "preserves rel (fail_interaction i ii er)"
  "preserves rel (mark_interaction_resumed i ii x)"
  "preserves rel (grant_turn_lease i ii ti ag ow ttl tok)"
  "preserves rel (heartbeat_turn_lease i ii ti k ttl)"
  "preserves rel (release_turn_lease i ii ti k b)"
  unfolding start_interaction_def record_interaction_turn_def record_interaction_message_def
    record_interaction_outcome_def complete_interaction_def fail_interaction_def
    mark_interaction_resumed_def grant_turn_lease_def heartbeat_turn_lease_def release_turn_lease_def
  by (rule interaction_op_preserves; auto intro: evolves_intros steady_status)+

lemma recover_expired_turn_leases_preserves [svc_intros]:
  "preserves rel (recover_expired_turn_leases i as_of)"
  unfolding recover_expired_turn_leases_def Let_def
  by (intro svc_steps spec_put_bind)
     (auto intro!: rel_steady dest: evolves_recover_turns status_recover_turns)

lemma execution_lease_ops_preserve [svc_intros]:
  "preserves rel (grant_execution_lease_op i k x ow ttl tok)"
  "preserves rel (assert_execution_lease_op i x tk al)"
  "preserves rel (heartbeat_execution_lease_op i x tk ttl)"
  "preserves rel (release_execution_lease_op i x tk)"
  unfolding grant_execution_lease_op_def assert_execution_lease_op_def heartbeat_execution_lease_op_def
    release_execution_lease_op_def
  by (intro svc_steps spec_put_bind; auto intro: rel_steady evolves_intros steady_status)+

lemma gate_ops_preserve [svc_intros]:
  "preserves rel (record_gate_op i k nm oc dt)"
  "preserves rel (apply_gate_decision_op i d)"
  unfolding record_gate_op_def apply_gate_decision_op_def
  by (intro svc_steps spec_put_bind;
      auto intro: rel_set_node node_evolves_record_gate rel_steady evolves_intros steady_status)+

lemma reserve_auto_repair_attempt_preserves [svc_intros]:
  "preserves rel (reserve_auto_repair_attempt i m)"
  unfolding reserve_auto_repair_attempt_def
  by (intro svc_steps spec_put_bind) (auto intro!: rel_steady simp: evolves_def)

lemma consume_agent_report_preserves [svc_intros]: "preserves rel (consume_agent_report i r)"
  unfolding consume_agent_report_def
  by (intro svc_steps spec_put_bind) (auto intro!: rel_set_node node_evolves_consume_report)

lemma steady_transitions [svc_intros]:
  assumes "\<And>st now s s'. transition_session st now s = Inr s' \<Longrightarrow> st \<noteq> Session_COMPLETED \<Longrightarrow> rel s s'"
  shows "preserves rel (mark_session_running i)" "preserves rel (mark_session_waiting_gate i)"
    "preserves rel (mark_session_resuming i)" "preserves rel (cancel_session i)"
    "preserves rel (fail_session i err)"
  unfolding mark_session_running_def mark_session_waiting_gate_def mark_session_resuming_def
    cancel_session_def
  by (auto intro!: spec_true [OF session_transition_preserves] fail_session_preserves intro: assms)

end

interpretation hist_ops: service_relation evolves
  by unfold_locales simp_all

text \<open>What keeps the aggregates as they are.\<close>

definition same_teams :: "runtime_session \<Rightarrow> runtime_session \<Rightarrow> bool" where
  "same_teams s t \<longleftrightarrow> evolves s t \<and> rs_durable_interactions t = rs_durable_interactions s"

interpretation team_frame: tool_relation same_teams
proof
  show "same_teams s s" for s by (simp add: same_teams_def)
  show "same_teams s t \<Longrightarrow> same_teams t u \<Longrightarrow> same_teams s u" for s t u
    by (auto simp: same_teams_def intro: evolves_trans)
  show "same_teams s t \<Longrightarrow> rs_id t = rs_id s \<and> rs_version t = rs_version s" for s t
    by (simp add: same_teams_def evolves_def)
  show "same_teams s t \<Longrightarrow> same_teams (s\<lparr>rs_version := v\<rparr>) (t\<lparr>rs_version := v\<rparr>)" for s t v
    by (simp add: same_teams_def evolves_version)
qed (simp add: same_teams_def)

interpretation quiet_ops: service_relation completes_nothing
  by unfold_locales (auto simp: completes_nothing_def evolves_def)

end
