(* ===== verification/Control_Plane.thy ===== *)
theory Control_Plane
  imports Service_Facts
begin

text \<open>
  \<^verbatim>\<open>control/control_plane.py\<close>, \<^verbatim>\<open>control_apply.py\<close>, \<^verbatim>\<open>control_reports.py\<close>,
  \<^verbatim>\<open>control_gate_decisions.py\<close> and \<^verbatim>\<open>control_decisions.py\<close>: the facade that turns
  agent reports and gate decisions into transitions of the session service. The gate function and
  the apply deriver are the caller's code: they are parameters, computations that may read and
  even change the world. A deriver that returns something else than an intent is \<open>None\<close>.
\<close>

section \<open>Decisions\<close>

datatype runtime_decision_kind =
    Decided_CONTINUE
  | Decided_AWAIT_GATE
  | Decided_COMPLETE
  | Decided_FAIL

record runtime_decision =
  rd_kind :: runtime_decision_kind
  rd_session_id :: string
  rd_node_key :: string
  rd_node_status :: node_status
  rd_gate :: "gate option"
  rd_error :: "string option"
  rd_execution_id :: "string option"

type_synonym gate_fn = "runtime_session \<Rightarrow> node_state \<Rightarrow> agent_report \<Rightarrow> gate option svc"
type_synonym apply_deriver = "runtime_session \<Rightarrow> node_state \<Rightarrow> agent_report \<Rightarrow> apply_intent option svc"

section \<open>Applying an intent\<close>

definition required_node_key :: "apply_intent \<Rightarrow> exn + string" where
  "required_node_key i = (case ai_node_key i of None \<Rightarrow> Inl ValueError | Some k \<Rightarrow> Inr k)"

definition required_gate :: "apply_intent \<Rightarrow> exn + gate" where
  "required_gate i = (case ai_gate i of None \<Rightarrow> Inl ValueError | Some g \<Rightarrow> Inr g)"

definition intent_evidence :: "apply_intent \<Rightarrow> pydict" where
  "intent_evidence i =
     [(''kind'', JStr (apply_intent_kind_value (ai_kind i))),
      (''authorization'', JObj (ai_authorization i))] @
     (if ai_reason i \<noteq> [] then [(''reason'', JStr (ai_reason i))] else []) @
     (if ai_metadata i \<noteq> [] then [(''metadata'', JObj (ai_metadata i))] else [])"

definition authorization_actor :: "apply_intent \<Rightarrow> string option" where
  "authorization_actor i =
     (case map_of (ai_authorization i) ''actor'' of
        Some (JStr (c # cs)) \<Rightarrow> Some (c # cs)
      | _ \<Rightarrow> (case map_of (ai_authorization i) ''source'' of
            Some (JStr (c # cs)) \<Rightarrow> Some (c # cs)
          | _ \<Rightarrow> None))"

definition resume_session_if_waiting :: "string \<Rightarrow> unit svc" where
  "resume_session_if_waiting session_id =
     svc_bind (get_session session_id) (\<lambda>s.
       if rs_status s = Session_WAITING_GATE
       then svc_bind (mark_session_resuming session_id) (\<lambda>_. svc_return ())
       else svc_return ())"

definition ensure_session_running :: "string \<Rightarrow> unit svc" where
  "ensure_session_running session_id =
     svc_bind (get_session session_id) (\<lambda>s.
       if rs_status s = Session_RESUMING
       then svc_bind (mark_session_running session_id) (\<lambda>_. svc_return ())
       else svc_return ())"

definition release_report_execution_lease_if_present :: "string \<Rightarrow> agent_report \<Rightarrow> unit svc" where
  "release_report_execution_lease_if_present session_id r =
     (case (ar_execution_id r, ar_lease_token r) of
        (Some x, Some tok) \<Rightarrow>
          svc_bind (release_execution_lease_op session_id x tok) (\<lambda>_. svc_return ())
      | _ \<Rightarrow> svc_return ())"

definition apply_pause_intent ::
    "string \<Rightarrow> string \<Rightarrow> apply_intent \<Rightarrow> agent_report option \<Rightarrow> string option \<Rightarrow>
     runtime_decision svc" where
  "apply_pause_intent session_id key i report execution_id =
     svc_bind (svc_lift (required_gate i)) (\<lambda>g.
     svc_bind (record_gate_op session_id key (gt_name g) (gt_outcome g)
         (Some (dict_merge (gt_detail g) [(''_apply_intent'', JObj (intent_evidence i))]))) (\<lambda>recorded.
     svc_bind (case report of None \<Rightarrow> svc_return ()
         | Some r \<Rightarrow> release_report_execution_lease_if_present session_id r) (\<lambda>_.
     svc_bind (mark_node_pending_gate session_id key) (\<lambda>_.
     svc_bind (mark_session_waiting_gate session_id) (\<lambda>_.
     svc_return \<lparr>rd_kind = Decided_AWAIT_GATE, rd_session_id = session_id, rd_node_key = key,
       rd_node_status = Node_PENDING_GATE, rd_gate = Some recorded, rd_error = None,
       rd_execution_id = execution_id\<rparr>)))))"

definition apply_fail_intent ::
    "string \<Rightarrow> string \<Rightarrow> apply_intent \<Rightarrow> string option \<Rightarrow> runtime_decision svc" where
  "apply_fail_intent session_id key i execution_id =
     svc_bind (get_node session_id key) (\<lambda>n.
       let err = (if truthy (ai_error i) then the (ai_error i) else ''control-plane fail intent'') in
     svc_bind (if ns_status n \<noteq> Node_FAILED
         then svc_bind (fail_node session_id key err) (\<lambda>_. svc_return ()) else svc_return ()) (\<lambda>_.
     svc_bind (fail_session session_id err) (\<lambda>_.
     svc_return \<lparr>rd_kind = Decided_FAIL, rd_session_id = session_id, rd_node_key = key,
       rd_node_status = Node_FAILED, rd_gate = ai_gate i, rd_error = Some err,
       rd_execution_id = execution_id\<rparr>)))"

definition apply_requeue_intent ::
    "string \<Rightarrow> string \<Rightarrow> apply_intent \<Rightarrow> string option \<Rightarrow> runtime_decision svc" where
  "apply_requeue_intent session_id key i execution_id =
     svc_bind (resume_session_if_waiting session_id) (\<lambda>_.
     svc_bind (requeue_node_for_retry session_id key
         (if ai_reason i = [] then ''control-plane requeue intent'' else ai_reason i)
         (authorization_actor i)) (\<lambda>_.
     svc_bind (ensure_session_running session_id) (\<lambda>_.
     svc_return \<lparr>rd_kind = Decided_CONTINUE, rd_session_id = session_id, rd_node_key = key,
       rd_node_status = Node_QUEUED, rd_gate = ai_gate i, rd_error = None,
       rd_execution_id = execution_id\<rparr>)))"

definition apply_complete_intent ::
    "string \<Rightarrow> string \<Rightarrow> apply_intent \<Rightarrow> string option \<Rightarrow> runtime_decision svc" where
  "apply_complete_intent session_id key i execution_id =
     svc_bind (resume_session_if_waiting session_id) (\<lambda>_.
     svc_bind (complete_node session_id key (Some (ai_output i))) (\<lambda>_.
     svc_bind (ensure_session_running session_id) (\<lambda>_.
     svc_return \<lparr>rd_kind = Decided_CONTINUE, rd_session_id = session_id, rd_node_key = key,
       rd_node_status = Node_COMPLETED, rd_gate = ai_gate i, rd_error = None,
       rd_execution_id = execution_id\<rparr>)))"

definition apply_node_intent ::
    "string \<Rightarrow> apply_intent \<Rightarrow> agent_report option \<Rightarrow> runtime_decision svc" where
  "apply_node_intent session_id i report =
     (if ai_kind i = Intent_WORKFLOW_REVISION then svc_lift (Inl ValueError)
      else svc_bind (svc_lift (required_node_key i)) (\<lambda>key.
        let execution_id = (case report of None \<Rightarrow> None | Some r \<Rightarrow> ar_execution_id r) in
        case ai_kind i of
          Intent_PAUSE \<Rightarrow> apply_pause_intent session_id key i report execution_id
        | Intent_FAIL \<Rightarrow> apply_fail_intent session_id key i execution_id
        | Intent_REQUEUE \<Rightarrow> apply_requeue_intent session_id key i execution_id
        | Intent_COMPLETE \<Rightarrow> apply_complete_intent session_id key i execution_id
        | Intent_WORKFLOW_REVISION \<Rightarrow> svc_lift (Inl ValueError)))"

definition apply_workflow_revision_intent :: "string \<Rightarrow> apply_intent \<Rightarrow> runtime_session svc" where
  "apply_workflow_revision_intent session_id i =
     (if ai_kind i \<noteq> Intent_WORKFLOW_REVISION then svc_lift (Inl ValueError)
      else case ai_workflow_revision i of
        None \<Rightarrow> svc_lift (Inl ValueError)
      | Some r \<Rightarrow> apply_workflow_revision_op session_id r)"

definition coerce_apply_intent ::
    "apply_intent option \<Rightarrow> string \<Rightarrow> gate option \<Rightarrow> pydict \<Rightarrow> exn + apply_intent" where
  "coerce_apply_intent value default_node_key g authorization =
     (case value of
        None \<Rightarrow> Inl TypeError
      | Some i0 \<Rightarrow>
          let i1 = (if ai_node_key i0 = None \<and> ai_kind i0 \<noteq> Intent_WORKFLOW_REVISION
                    then i0\<lparr>ai_node_key := Some default_node_key\<rparr> else i0);
              i2 = (if g \<noteq> None \<and> ai_gate i1 = None then i1\<lparr>ai_gate := g\<rparr> else i1);
              i3 = (if ai_authorization i2 = [] then i2\<lparr>ai_authorization := authorization\<rparr> else i2)
          in Inr i3)"

section \<open>Reports\<close>

definition default_apply_deriver :: apply_deriver where
  "default_apply_deriver s n r =
     svc_bind (svc_lift (intent_complete (ns_key n) (Some (persisted_output r)) None
         [(''source'', JStr ''default_apply_deriver'')])) (\<lambda>i.
     svc_return (Some i))"

definition assert_report_execution_lease :: "string \<Rightarrow> node_state \<Rightarrow> agent_report \<Rightarrow> unit svc" where
  "assert_report_execution_lease session_id n r =
     (case latest_attempt n of
        None \<Rightarrow> svc_return ()
      | Some latest \<Rightarrow>
          if \<not> has_execution_lease_metadata latest then svc_return ()
          else if ar_execution_id r \<noteq> Some (na_id latest)
            then svc_lift (Inl (ExecutionLeaseError ReportExecutionMismatch))
          else case ar_lease_token r of
            None \<Rightarrow> svc_lift (Inl (ExecutionLeaseError ReportTokenMissing))
          | Some tok \<Rightarrow>
              svc_bind (assert_execution_lease_op session_id (na_id latest) tok False) (\<lambda>_.
              svc_return ()))"

text \<open>
  The guard shared by \<^verbatim>\<open>open_node_execution\<close> and \<^verbatim>\<open>open_runtime_decision\<close>: a queued
  session starts, a running or resuming one goes on, any other is refused.
\<close>

definition active_session :: "string \<Rightarrow> runtime_session svc" where
  "active_session session_id =
     svc_bind (get_session session_id) (\<lambda>s.
       if rs_status s \<in> {Session_RUNNING, Session_RESUMING} then svc_return s
       else if rs_status s = Session_QUEUED
         then svc_bind (mark_session_running session_id) (\<lambda>_. get_session session_id)
       else svc_lift (Inl RuntimeError))"

definition gate_authorization :: "gate \<Rightarrow> pydict" where
  "gate_authorization g =
     [(''source'', JStr ''gate_result''), (''gate_name'', JStr (gt_name g)),
      (''gate_outcome'', JStr (gate_outcome_value (gt_outcome g)))]"

definition deriver_authorization :: "gate option \<Rightarrow> pydict" where
  "deriver_authorization g =
     (case g of
        Some x \<Rightarrow> gate_authorization x
      | None \<Rightarrow> [(''source'', JStr ''control_apply_deriver''), (''gate_name'', JNull),
                 (''gate_outcome'', JNull)])"

text \<open>\<^verbatim>\<open>session.nodes[key]\<close>.\<close>

definition node_item :: "runtime_session \<Rightarrow> string \<Rightarrow> exn + node_state" where
  "node_item s key = (case session_node s key of None \<Rightarrow> Inl KeyError | Some n \<Rightarrow> Inr n)"

definition apply_gated_report ::
    "gate_fn option \<Rightarrow> apply_deriver \<Rightarrow> string \<Rightarrow> agent_report \<Rightarrow> runtime_session \<Rightarrow> node_state \<Rightarrow>
     runtime_decision svc" where
  "apply_gated_report gate_function deriver session_id r s n =
     svc_bind (case gate_function of None \<Rightarrow> svc_return None | Some f \<Rightarrow> f s n r) (\<lambda>g.
       case g of
         Some g' \<Rightarrow>
           (case gt_outcome g' of
              Gate_REQUIRES_DECISION \<Rightarrow>
                svc_bind (svc_lift (intent_pause (ar_node_key r) g' (gate_authorization g'))) (\<lambda>i.
                apply_node_intent session_id i (Some r))
            | Gate_BLOCK \<Rightarrow>
                svc_bind (svc_lift (intent_fail (ar_node_key r) (''gate '' @ gt_name g' @ '' BLOCK'')
                  (Some g') (gate_authorization g'))) (\<lambda>i.
                apply_node_intent session_id i (Some r))
            | Gate_PASS \<Rightarrow>
                svc_bind (deriver s n r) (\<lambda>raw.
                svc_bind (svc_lift (coerce_apply_intent raw (ar_node_key r) g (deriver_authorization g)))
                  (\<lambda>i. apply_node_intent session_id i (Some r))))
       | None \<Rightarrow>
           svc_bind (deriver s n r) (\<lambda>raw.
           svc_bind (svc_lift (coerce_apply_intent raw (ar_node_key r) g (deriver_authorization g)))
             (\<lambda>i. apply_node_intent session_id i (Some r))))"

definition open_runtime_decision ::
    "gate_fn option \<Rightarrow> apply_deriver \<Rightarrow> string \<Rightarrow> agent_report \<Rightarrow> runtime_decision svc" where
  "open_runtime_decision gate_function deriver session_id r =
     svc_bind (active_session session_id) (\<lambda>s.
     case session_node s (ar_node_key r) of
       None \<Rightarrow> svc_lift (Inl RuntimeError)
     | Some n0 \<Rightarrow>
         svc_bind (if ns_status n0 = Node_QUEUED
             then svc_bind (start_node session_id (ar_node_key r)) (\<lambda>_.
                  svc_bind (get_session session_id) (\<lambda>s1. svc_lift (node_item s1 (ar_node_key r))))
             else svc_return n0) (\<lambda>n.
         svc_bind (assert_report_execution_lease session_id n r) (\<lambda>_.
         if truthy (ar_error r)
         then svc_bind (svc_lift (intent_fail (ar_node_key r) (the (ar_error r)) None
                [(''source'', JStr ''agent_report_error'')])) (\<lambda>i.
              apply_node_intent session_id i (Some r))
         else
           svc_bind (if running_attempt n = None
               then svc_bind (start_attempt session_id (ar_node_key r) (ar_trace_id r)) (\<lambda>_. svc_return ())
               else svc_return ()) (\<lambda>_.
           svc_bind (consume_agent_report session_id r) (\<lambda>_.
           svc_bind (get_session session_id) (\<lambda>s2.
           svc_bind (svc_lift (node_item s2 (ar_node_key r))) (\<lambda>n2.
           apply_gated_report gate_function deriver session_id r s2 n2)))))))"

section \<open>Gate decisions\<close>

definition gate_decision_authorization :: "gate \<Rightarrow> gate_decision_input \<Rightarrow> pydict" where
  "gate_decision_authorization g d =
     [(''source'', JStr ''gate_decision''), (''gate_id'', JStr (gt_id g)),
      (''action'', JStr (decision_action_value (gi_action d)))]"

definition intent_from_gate_status ::
    "gate \<Rightarrow> node_status \<Rightarrow> gate_decision_input \<Rightarrow> exn + apply_intent" where
  "intent_from_gate_status g st d =
     (let authorization = gate_decision_authorization g d in
      if st = Node_NEEDS_REVISION
        then intent_requeue (gt_node_key g)
               (''gate '' @ gt_name g @ '' requested '' @ decision_action_value (gi_action d))
               (Some g) authorization
      else if st = Node_APPROVED then intent_complete (gt_node_key g) None (Some g) authorization
      else if st = Node_FAILED
        then intent_fail (gt_node_key g) (''gate '' @ gt_name g @ '' rejected'') (Some g) authorization
      else Inl RuntimeError)"

definition apply_decision :: "string \<Rightarrow> gate_decision_input \<Rightarrow> runtime_decision svc" where
  "apply_decision session_id d =
     svc_bind (apply_gate_decision_op session_id d) (\<lambda>g.
     svc_bind (get_node session_id (gt_node_key g)) (\<lambda>n.
     svc_bind (svc_lift (intent_from_gate_status g (ns_status n) d)) (\<lambda>i.
     apply_node_intent session_id i None)))"

section \<open>The facade\<close>

definition open_node_execution :: "string \<Rightarrow> string \<Rightarrow> string option \<Rightarrow> node_attempt svc" where
  "open_node_execution session_id key trace_id =
     svc_bind (active_session session_id) (\<lambda>s.
     case session_node s key of
       None \<Rightarrow> svc_lift (Inl RuntimeError)
     | Some n \<Rightarrow>
         svc_bind (if ns_status n = Node_QUEUED
             then svc_bind (start_node session_id key) (\<lambda>_. svc_return ()) else svc_return ()) (\<lambda>_.
         start_node_execution session_id key trace_id))"

definition grant_node_execution_lease ::
    "string \<Rightarrow> string \<Rightarrow> string \<Rightarrow> string \<Rightarrow> int \<Rightarrow> node_attempt svc" where
  "grant_node_execution_lease session_id key execution_id owner ttl_seconds =
     grant_execution_lease_op session_id key execution_id owner ttl_seconds None"

definition record_control_interaction_event ::
    "(interaction_log_record \<Rightarrow> json) \<Rightarrow> interaction_log_record \<Rightarrow> interaction_log_record svc" where
  "record_control_interaction_event dump r = record_interaction_event dump (il_session_id r) r"

definition record_session_complete :: "string \<Rightarrow> pydict option \<Rightarrow> runtime_decision svc" where
  "record_session_complete session_id summary =
     svc_bind (get_session session_id) (\<lambda>s.
     svc_bind (if rs_status s = Session_RESUMING
         then svc_bind (mark_session_running session_id) (\<lambda>_. svc_return ()) else svc_return ()) (\<lambda>_.
     svc_bind (complete_session session_id summary) (\<lambda>_.
     svc_bind (get_session session_id) (\<lambda>completed.
     svc_return \<lparr>rd_kind = Decided_COMPLETE, rd_session_id = session_id, rd_node_key = [],
       rd_node_status = (case rs_nodes completed of [] \<Rightarrow> Node_COMPLETED | (k, n) # _ \<Rightarrow> ns_status n),
       rd_gate = None, rd_error = None, rd_execution_id = None\<rparr>))))"

definition apply_control_workflow_revision :: "string \<Rightarrow> workflow_revision \<Rightarrow> runtime_session svc" where
  "apply_control_workflow_revision session_id r =
     svc_bind (svc_lift (intent_graph_update r
         [(''source'', JStr ''control_api''), (''api'', JStr ''apply_workflow_revision'')])) (\<lambda>i.
     apply_workflow_revision_intent session_id i)"

section \<open>What the facade preserves\<close>

text \<open>
  A relation that every transition but the completing one preserves. The facade preserves it with
  the exception of \<open>record_session_complete\<close>; the caller's gate function and deriver must
  preserve it too.
\<close>

locale recorder_relation = service_relation +
  assumes rel_transition:
    "transition_session st now s = Inr s' \<Longrightarrow> st \<noteq> Session_COMPLETED \<Longrightarrow> rel s s'"
begin

lemmas marks = steady_transitions [OF rel_transition]

lemma resume_preserves: "preserves rel (resume_session_if_waiting i)"
  unfolding resume_session_if_waiting_def
  by (intro spec_then queries_preserve spec_if spec_done marks)

lemma ensure_preserves: "preserves rel (ensure_session_running i)"
  unfolding ensure_session_running_def
  by (intro spec_then queries_preserve spec_if spec_done marks)

lemmas resume_ensure_preserve = resume_preserves ensure_preserves

lemma release_report_preserves: "preserves rel (release_report_execution_lease_if_present i r)"
  unfolding release_report_execution_lease_if_present_def
  by (auto intro: spec_then execution_lease_ops_preserve spec_done split: option.splits)

lemma apply_pause_preserves: "preserves rel (apply_pause_intent i k it rp x)"
  unfolding apply_pause_intent_def
  by (intro spec_then spec_fail gate_ops_preserve marks spec_done)
     (auto intro: release_report_preserves spec_done node_only_transition_preserves
       simp: mark_node_pending_gate_def split: option.splits)

lemma apply_fail_preserves: "preserves rel (apply_fail_intent i k it x)"
  unfolding apply_fail_intent_def Let_def
  by (intro spec_then queries_preserve spec_if fail_node_preserves marks spec_done)

lemma apply_requeue_preserves: "preserves rel (apply_requeue_intent i k it x)"
  unfolding apply_requeue_intent_def
  by (intro spec_then resume_ensure_preserve requeue_node_for_retry_preserves spec_done)

lemma apply_complete_preserves: "preserves rel (apply_complete_intent i k it x)"
  unfolding apply_complete_intent_def
  by (intro spec_then resume_ensure_preserve complete_node_preserves spec_done)

lemma apply_node_intent_preserves: "preserves rel (apply_node_intent i it rp)"
  unfolding apply_node_intent_def Let_def
  by (intro spec_if spec_then spec_fail)
     (auto intro: apply_pause_preserves apply_fail_preserves apply_requeue_preserves
       apply_complete_preserves spec_fail split: apply_intent_kind.splits)

lemma apply_workflow_revision_intent_preserves: "preserves rel (apply_workflow_revision_intent i it)"
  unfolding apply_workflow_revision_intent_def
  by (intro spec_if spec_case_option spec_fail steady_metadata_ops)

lemma default_apply_deriver_preserves: "preserves rel (default_apply_deriver s n r)"
  unfolding default_apply_deriver_def by (intro spec_then spec_fail spec_done)

lemma assert_report_execution_lease_preserves: "preserves rel (assert_report_execution_lease i n r)"
  unfolding assert_report_execution_lease_def
  by (intro spec_case_option spec_if spec_fail spec_done spec_then execution_lease_ops_preserve)

lemma active_session_preserves: "preserves rel (active_session i)"
  unfolding active_session_def
  by (intro spec_then queries_preserve spec_if spec_fail spec_done marks)

lemma apply_gated_report_preserves:
  assumes "\<And>f s n r. gf = Some f \<Longrightarrow> preserves rel (f s n r)" "\<And>s n r. preserves rel (dv s n r)"
  shows "preserves rel (apply_gated_report gf dv i r s n)"
proof -
  have d: "preserves rel (svc_bind (dv s n r) (\<lambda>raw.
      svc_bind (svc_lift (coerce_apply_intent raw k g au)) (\<lambda>it. apply_node_intent i it rp)))" for k g au rp
    by (intro spec_then assms(2) spec_fail apply_node_intent_preserves)
  have p: "preserves rel (svc_bind (svc_lift x) (\<lambda>it. apply_node_intent i it rp))" for x rp
    by (intro spec_then spec_fail apply_node_intent_preserves)
  have g: "preserves rel (case gf of None \<Rightarrow> svc_return None | Some f \<Rightarrow> f s n r)"
    by (intro spec_case_option spec_done assms(1))
  show ?thesis
    unfolding apply_gated_report_def
    by (rule spec_then [OF g]) (auto intro: d p split: option.splits gate_outcome.splits)
qed

lemma open_runtime_decision_preserves:
  assumes "\<And>f s n r. gf = Some f \<Longrightarrow> preserves rel (f s n r)" "\<And>s n r. preserves rel (dv s n r)"
  shows "preserves rel (open_runtime_decision gf dv i r)"
  unfolding open_runtime_decision_def
  by (intro spec_then active_session_preserves spec_case_option spec_fail spec_if spec_done
      start_node_preserves queries_preserve assert_report_execution_lease_preserves
      apply_node_intent_preserves start_attempt_preserves consume_agent_report_preserves
      apply_gated_report_preserves assms)

lemma apply_decision_preserves: "preserves rel (apply_decision i d)"
  unfolding apply_decision_def
  by (intro spec_then gate_ops_preserve queries_preserve spec_fail apply_node_intent_preserves)

lemma open_node_execution_preserves: "preserves rel (open_node_execution i k tr)"
  unfolding open_node_execution_def
  by (intro spec_then active_session_preserves spec_case_option spec_fail spec_if spec_done
      start_node_preserves start_node_execution_preserves)

lemma facade_preserves:
  "preserves rel (grant_node_execution_lease i k x ow ttl)"
  "preserves rel (record_control_interaction_event dump lr)"
  "preserves rel (apply_control_workflow_revision i rv)"
  unfolding grant_node_execution_lease_def record_control_interaction_event_def
    apply_control_workflow_revision_def
  by (intro spec_then spec_fail execution_lease_ops_preserve record_interaction_event_preserves
      apply_workflow_revision_intent_preserves)+

lemma record_session_complete_preserves:
  assumes "\<And>now s s'. transition_session Session_COMPLETED now s = Inr s' \<Longrightarrow> rel s s'"
  shows "preserves rel (record_session_complete i summary)"
  unfolding record_session_complete_def
  by (intro spec_then queries_preserve spec_if spec_done marks complete_session_preserves assms)

end

interpretation hist_cp: recorder_relation evolves
  by unfold_locales (auto intro: evolves_transition_session)

interpretation quiet_cp: recorder_relation completes_nothing
proof unfold_locales
  fix st now s s'
  assume "transition_session st now s = Inr s'" "st \<noteq> Session_COMPLETED"
  with transition_session_status [of st now s s'] show "completes_nothing s s'"
    by (simp add: completes_nothing_def)
qed

end
