(* ===== verification/Control_Requests.thy ===== *)
theory Control_Requests
  imports Control_Plane
begin

text \<open>
  The methods of \<^verbatim>\<open>ControlPlane\<close> as requests, grouped as the class groups them, and runs of
  many of them: what workers, the agent runtime and the gate API send to the facade, one
  request at a time. A request that fails leaves the world as far as it came, and the next one
  is served from there.

  \<open>serve\<close> has every method of the facade. The gate function and the apply deriver belong to the
  facade's construction; \<open>quiet_hooks\<close> is what the code relies on them for: they are not a
  second way to write the store.
\<close>

section \<open>Answers\<close>

datatype control_answer =
  Answer_session runtime_session
| Answer_attempt node_attempt
| Answer_attempts "node_attempt list"
| Answer_tool tool_execution
| Answer_record interaction_log_record
| Answer_interaction durable_interaction
| Answer_found "durable_interaction option"
| Answer_turns "recovered_durable_turn list"
| Answer_granted bool
| Answer_count nat
| Answer_effect "(string \<times> string) option"
| Answer_done unit
| Answer_decision runtime_decision

definition answer :: "('a \<Rightarrow> control_answer) \<Rightarrow> 'a svc \<Rightarrow> control_answer svc" where
  "answer f m = svc_bind m (\<lambda>x. svc_return (f x))"

section \<open>Node executions and tools\<close>

datatype execution_request =
  Open_execution string string "string option"
| Grant_lease string string string string int
| Heartbeat_lease string string string int
| Recover_executions string "string option"
| Tool_started string string string string int "pydict option" "string option" "pydict option"
| Tool_completed string string string bool "pydict option" "int option" "string option"

fun serve_execution :: "execution_request \<Rightarrow> control_answer svc" where
  "serve_execution (Open_execution sid key trace) =
     answer Answer_attempt (open_node_execution sid key trace)"
| "serve_execution (Grant_lease sid key xid owner ttl) =
     answer Answer_attempt (grant_node_execution_lease sid key xid owner ttl)"
| "serve_execution (Heartbeat_lease sid xid held ttl) =
     answer Answer_attempt (heartbeat_execution_lease_op sid xid held ttl)"
| "serve_execution (Recover_executions sid actor) =
     answer Answer_attempts (recover_expired_node_executions sid None actor)"
| "serve_execution (Tool_started sid xid call_id nm round_no args trace md) =
     answer Answer_tool (record_tool_execution_started_op sid xid call_id nm round_no args trace md)"
| "serve_execution (Tool_completed sid xid call_id is_error preview len err) =
     answer Answer_tool
       (record_tool_execution_completed_op sid xid call_id is_error preview len err)"

section \<open>Durable interactions\<close>

datatype interaction_request =
  Log_event interaction_log_record
| Start_interaction string string string string string string string "string list" "string option"
| Record_turn string string int string turn_status
| Record_message string string int string string message_role "string option"
| Record_outcome string string "vote_outcome option" "coordinator_outcome option"
| Complete_interaction string string interaction_status "string option"
| Fail_interaction string string string
| Get_interaction string string
| Find_resumable string string
| Mark_resumed string string int

fun serve_interaction ::
    "(interaction_log_record \<Rightarrow> json) \<Rightarrow> interaction_request \<Rightarrow> control_answer svc" where
  "serve_interaction dump (Log_event r) =
     answer Answer_record (record_control_interaction_event dump r)"
| "serve_interaction dump (Start_interaction sid iid key xid team mode topology members ws) =
     answer Answer_interaction (start_interaction sid iid key xid team mode topology members ws)"
| "serve_interaction dump (Record_turn sid iid turn_index agent st) =
     answer Answer_interaction (record_interaction_turn sid iid turn_index agent st)"
| "serve_interaction dump (Record_message sid iid turn_index sender content role reply) =
     answer Answer_interaction
       (record_interaction_message sid iid turn_index sender content role reply)"
| "serve_interaction dump (Record_outcome sid iid vote coordinator) =
     answer Answer_interaction (record_interaction_outcome sid iid vote coordinator)"
| "serve_interaction dump (Complete_interaction sid iid st err) =
     answer Answer_interaction (complete_interaction sid iid st err)"
| "serve_interaction dump (Fail_interaction sid iid err) =
     answer Answer_interaction (fail_interaction sid iid err)"
| "serve_interaction dump (Get_interaction sid iid) =
     answer Answer_found (get_durable_interaction sid iid)"
| "serve_interaction dump (Find_resumable sid key) =
     answer Answer_found (find_resumable_interaction sid key)"
| "serve_interaction dump (Mark_resumed sid iid turn_index) =
     answer Answer_interaction (mark_interaction_resumed sid iid turn_index)"

section \<open>Turn leases\<close>

datatype turn_request =
  Grant_turn string string int string string int "string option"
| Heartbeat_turn string string int string int
| Release_turn string string int string bool
| Recover_turns string

fun serve_turn :: "turn_request \<Rightarrow> control_answer svc" where
  "serve_turn (Grant_turn sid iid turn_index agent owner ttl given) =
     answer Answer_interaction (grant_turn_lease sid iid turn_index agent owner ttl given)"
| "serve_turn (Heartbeat_turn sid iid turn_index held ttl) =
     answer Answer_interaction (heartbeat_turn_lease sid iid turn_index held ttl)"
| "serve_turn (Release_turn sid iid turn_index held completed) =
     answer Answer_interaction (release_turn_lease sid iid turn_index held completed)"
| "serve_turn (Recover_turns sid) =
     answer Answer_turns (recover_expired_turn_leases sid None)"

section \<open>Repair budget and tool effects\<close>

datatype ledger_request =
  Reserve_repair string int
| Repairs_used string
| Lookup_effect string string
| Record_effect string string string string

fun serve_ledger :: "ledger_request \<Rightarrow> control_answer svc" where
  "serve_ledger (Reserve_repair sid most) =
     answer Answer_granted (reserve_auto_repair_attempt sid most)"
| "serve_ledger (Repairs_used sid) = answer Answer_count (auto_repair_attempts_used sid)"
| "serve_ledger (Lookup_effect sid fingerprint) =
     answer Answer_effect (lookup_tool_effect_result sid fingerprint)"
| "serve_ledger (Record_effect sid fingerprint call_id content) =
     answer Answer_done (record_tool_effect_result sid fingerprint call_id content)"

section \<open>The facade\<close>

record hooks =
  hk_gate :: "gate_fn option"
  hk_deriver :: apply_deriver
  hk_dump :: "interaction_log_record \<Rightarrow> json"

datatype control_request =
  Create_session workflow_blueprint pydict pydict
| Execution execution_request
| Interaction interaction_request
| Turn_lease turn_request
| Ledger ledger_request
| Report string agent_report
| Decide string gate_decision_input
| Revise string workflow_revision
| Session_complete string "pydict option"

fun serve :: "hooks \<Rightarrow> control_request \<Rightarrow> control_answer svc" where
  "serve h (Create_session b inp md) = answer Answer_session (create_session b inp md)"
| "serve h (Execution r) = serve_execution r"
| "serve h (Interaction r) = serve_interaction (hk_dump h) r"
| "serve h (Turn_lease r) = serve_turn r"
| "serve h (Ledger r) = serve_ledger r"
| "serve h (Report sid r) =
     answer Answer_decision (open_runtime_decision (hk_gate h) (hk_deriver h) sid r)"
| "serve h (Decide sid d) = answer Answer_decision (apply_decision sid d)"
| "serve h (Revise sid r) = answer Answer_session (apply_control_workflow_revision sid r)"
| "serve h (Session_complete sid summary) =
     answer Answer_decision (record_session_complete sid summary)"

fun serve_all :: "hooks \<Rightarrow> control_request list \<Rightarrow> world \<Rightarrow> world" where
  "serve_all h [] w = w"
| "serve_all h (r # rs) w = serve_all h rs (snd (serve h r w))"

definition quiet_hooks :: "hooks \<Rightarrow> bool" where
  "quiet_hooks h \<longleftrightarrow>
     (\<forall>f s n r w. hk_gate h = Some f \<longrightarrow> w_store (snd (f s n r w)) = w_store w) \<and>
     (\<forall>s n r w. w_store (snd (hk_deriver h s n r w)) = w_store w)"

section \<open>Runs\<close>

lemma spec_untouched:
  assumes "session_relation rel" "\<And>w. w_store (snd (m w)) = w_store w"
  shows "preserves rel m"
  unfolding spec_def
proof (intro allI impI)
  fix w r w'
  assume "m w = (r, w')"
  then have "w_store w' = w_store w" using assms(2) [of w] by simp
  then show "store_later rel (w_store w) (w_store w') \<and> (\<forall>x. r = Inr x \<longrightarrow> True)"
    using session_relation.store_later_refl [OF assms(1)] by simp
qed

context recorder_relation
begin

lemma answer_preserves: "preserves rel m \<Longrightarrow> preserves rel (answer f m)"
  unfolding answer_def by (intro spec_then spec_done) simp_all

lemma serve_execution_preserves: "preserves rel (serve_execution r)"
  by (cases r) (auto intro!: answer_preserves open_node_execution_preserves facade_preserves
      execution_lease_ops_preserve recover_expired_node_executions_preserves tool_ops_preserve)

lemma serve_interaction_preserves: "preserves rel (serve_interaction dump r)"
  by (cases r) (auto intro!: answer_preserves facade_preserves interaction_ops_preserve queries_preserve)

lemma serve_turn_preserves: "preserves rel (serve_turn r)"
  by (cases r) (auto intro!: answer_preserves interaction_ops_preserve
      recover_expired_turn_leases_preserves)

lemma serve_ledger_preserves: "preserves rel (serve_ledger r)"
  by (cases r) (auto intro!: answer_preserves reserve_auto_repair_attempt_preserves
      ledger_ops_preserve queries_preserve)

lemma serve_preserves:
  assumes "quiet_hooks h"
    "\<And>now s s'. transition_session Session_COMPLETED now s = Inr s' \<Longrightarrow>
      (\<exists>sid summary. r = Session_complete sid summary) \<Longrightarrow> rel s s'"
  shows "preserves rel (serve h r)"
proof -
  have u: "session_relation rel" by unfold_locales
  have g: "preserves rel (f s n p)" if "hk_gate h = Some f" for f s n p
    by (rule spec_untouched [OF u]) (use assms(1) that in \<open>simp add: quiet_hooks_def\<close>)
  have d: "preserves rel (hk_deriver h s n p)" for s n p
    by (rule spec_untouched [OF u]) (use assms(1) in \<open>simp add: quiet_hooks_def\<close>)
  show ?thesis
    by (cases r) (auto intro!: answer_preserves create_session_preserves serve_execution_preserves
        serve_interaction_preserves serve_turn_preserves serve_ledger_preserves
        open_runtime_decision_preserves apply_decision_preserves facade_preserves
        record_session_complete_preserves g d intro: assms(2))
qed

lemma serve_all_run:
  assumes "quiet_hooks h" "keyed (w_store w)"
    "\<And>now s s' sid summary. transition_session Session_COMPLETED now s = Inr s' \<Longrightarrow>
      Session_complete sid summary \<in> set rs \<Longrightarrow> rel s s'"
  shows "store_later rel (w_store w) (w_store (serve_all h rs w)) \<and> keyed (w_store (serve_all h rs w))"
  using assms(2,3)
proof (induction rs arbitrary: w)
  case Nil
  then show ?case by (simp add: store_later_refl)
next
  case (Cons r rs)
  have p: "preserves rel (serve h r)"
    by (rule serve_preserves [OF assms(1)]) (auto intro: Cons.prems(2))
  obtain x w1 where w1: "serve h r w = (x, w1)" by force
  have one: "store_later rel (w_store w) (w_store w1)"
    using p Cons.prems(1) w1 unfolding spec_def by blast
  then have k: "keyed (w_store w1)" using Cons.prems(1) by (simp add: store_later_def)
  have "rel s s'" if "transition_session Session_COMPLETED now s = Inr s'"
      "Session_complete sid summary \<in> set rs" for now s s' sid summary
    by (rule Cons.prems(2) [of now s s' sid summary]) (use that in auto)
  from Cons.IH [OF k this] one w1 show ?case by (simp add: store_later_trans)
qed

end

end
