(* ===== verification/Ledger_Facts.thy ===== *)
theory Ledger_Facts
  imports Control_Requests
begin

text \<open>
  What single service operations do to the stored session, as far as it concerns the idempotency
  ledger, the tool effects, the repair budget and the nodes; and what of it lasts through the
  requests that follow.
\<close>

section \<open>What lasts\<close>

text \<open>A session that a run of requests finds is there after it, as a later value.\<close>

lemma serve_all_later:
  assumes "quiet_hooks h" "keyed (w_store w)" "memory_get (w_store w) i = Some s"
  shows "\<exists>t. memory_get (w_store (serve_all h rs w)) i = Some t \<and> later evolves s t"
  using hist_cp.serve_all_run [OF assms(1,2), of rs] assms(3)
  unfolding store_later_def by (blast intro: evolves_transition_session)

lemma serve_all_keyed:
  assumes "quiet_hooks h" "keyed (w_store w)"
  shows "keyed (w_store (serve_all h rs w))"
  using hist_cp.serve_all_run [OF assms, of rs] by (blast intro: evolves_transition_session)

lemma later_evolves:
  assumes "later evolves s t"
  shows "evolves s (t\<lparr>rs_version := rs_version s\<rparr>)" "rs_version s \<le> rs_version t"
  using assms by (simp_all add: later_def)

lemma later_ledger:
  assumes "later evolves s t" "map_of (rs_processed_idempotency_keys s) k = Some r"
  shows "map_of (rs_processed_idempotency_keys t) k = Some r"
  using evolves_ledger_entry [OF later_evolves(1) [OF assms(1)] assms(2)] by simp

lemma serve_all_ledger:
  assumes "quiet_hooks h" "keyed (w_store w)" "memory_get (w_store w) i = Some s"
    "map_of (rs_processed_idempotency_keys s) k = Some r"
  shows "\<exists>t. memory_get (w_store (serve_all h rs w)) i = Some t \<and>
    map_of (rs_processed_idempotency_keys t) k = Some r"
  using serve_all_later [OF assms(1-3), of rs] later_ledger [OF _ assms(4)] by blast

section \<open>The ledger\<close>

lemma stored_after_put:
  assumes "put_session s w = (Inr s', w')" "keyed (w_store w)"
  shows "memory_get (w_store w') (rs_id s) = Some (bump s)" "keyed (w_store w')"
  using put_session_Inr [OF assms(1)] assms
  by (auto simp: put_session_def intro: keyed_put split: sum.splits prod.splits)

lemma get_session_id:
  "get_session i w = (Inr s, w') \<Longrightarrow> keyed (w_store w) \<Longrightarrow> rs_id s = i \<and> w' = w"
  by (auto simp: get_session_Inr keyed_def memory_get_def dest: map_of_SomeD)

lemma claim_True:
  assumes "claim_idempotency_key i k kind detail w = (Inr True, w')" "keyed (w_store w)"
  shows "\<exists>s r. memory_get (w_store w') i = Some s \<and>
    map_of (rs_processed_idempotency_keys s) k = Some r \<and> keyed (w_store w')"
proof -
  obtain s w1 s2 s3 where g: "get_session i w = (Inr s, w)"
    and p: "put_session s2 w1 = (Inr s3, w')" "w_store w1 = w_store w" "rs_id s2 = rs_id s"
      "map_of (rs_processed_idempotency_keys s2) k \<noteq> None"
    using assms(1)
    by (auto simp: claim_idempotency_key_def svc_bind_Inr get_session_Inr split: if_splits)
  have "rs_id s = i" using get_session_id [OF g assms(2)] by simp
  with stored_after_put [OF p(1)] p(2-4) assms(2) show ?thesis by auto
qed

lemma claim_seen:
  assumes "memory_get (w_store w) i = Some s" "map_of (rs_processed_idempotency_keys s) k = Some r"
    "k \<noteq> []"
  shows "claim_idempotency_key i k kind detail w = (Inr False, w)"
proof -
  have g: "get_session i w = (Inr s, w)" using assms(1) by (simp add: get_session_Inr)
  show ?thesis
    using assms(2,3) by (simp add: claim_idempotency_key_def svc_bind_def g svc_return_def)
qed

lemma claim_key_nonempty: "claim_idempotency_key i k kind detail w = (Inr b, w') \<Longrightarrow> k \<noteq> []"
  by (auto simp: claim_idempotency_key_def split: if_splits)

section \<open>Tool effects\<close>

definition effect_recorded :: "world \<Rightarrow> string \<Rightarrow> string \<Rightarrow> string \<Rightarrow> string \<Rightarrow> bool" where
  "effect_recorded w i fp c content \<longleftrightarrow>
     (\<exists>s r. memory_get (w_store w) i = Some s \<and>
        map_of (rs_processed_idempotency_keys s) (tool_effect_key i fp) = Some r \<and>
        map_of (ir_detail r) ''tool_call_id'' = Some (JStr c) \<and>
        map_of (ir_detail r) ''content'' = Some (JStr content))"

lemma record_effect_fresh:
  assumes "keyed (w_store w)" "fp \<noteq> []" "memory_get (w_store w) i = Some s"
    "map_of (rs_processed_idempotency_keys s) (tool_effect_key i fp) = None"
  shows "\<exists>w'. record_tool_effect_result i fp c content w = (Inr (), w') \<and>
    keyed (w_store w') \<and> effect_recorded w' i fp c content"
proof -
  have g: "get_session i w = (Inr s, w)" using assms(3) by (simp add: get_session_Inr)
  then have id: "rs_id s = i" using get_session_id assms(1) by blast
  let ?e = "w_env w (w_ops w)" and ?k = "tool_effect_key i fp"
  let ?s = "s\<lparr>rs_processed_idempotency_keys := AList.update ?k
      \<lparr>ir_key = ?k, ir_kind = ''tool_effect'', ir_claimed_at = ev_now ?e 0,
       ir_detail = [(''tool_call_id'', JStr c), (''content'', JStr content)]\<rparr>
      (rs_processed_idempotency_keys s), rs_updated_at := ev_now ?e 1\<rparr>"
  let ?w = "w\<lparr>w_ops := w_ops w + 1\<rparr>"
  have "rs_version ?s = stored_version (memory_get (w_store ?w) (rs_id ?s))"
    using assms(3) id by (simp add: stored_version_def)
  then obtain s' w' where p: "put_session ?s ?w = (Inr s', w')"
    by (auto simp: put_session_def memory_put_eq split: sum.splits)
  have r: "record_tool_effect_result i fp c content w = (Inr (), w')"
    using assms(2,4) g p
    by (simp add: record_tool_effect_result_def Let_def svc_bind_def svc_env_def svc_return_def)
  from stored_after_put [OF p] assms(1) id r show ?thesis
    by (simp add: effect_recorded_def)
qed

lemma record_effect_again:
  assumes "effect_recorded w i fp c content"
  shows "record_tool_effect_result i fp c2 content2 w = (Inr (), w)"
proof -
  obtain s r where "memory_get (w_store w) i = Some s"
      "map_of (rs_processed_idempotency_keys s) (tool_effect_key i fp) = Some r"
    using assms by (auto simp: effect_recorded_def)
  then show ?thesis
    by (simp add: record_tool_effect_result_def Let_def svc_bind_def get_session_def
        get_required_def svc_return_def)
qed

lemma serve_all_effect:
  assumes "quiet_hooks h" "keyed (w_store w)" "effect_recorded w i fp c content"
  shows "effect_recorded (serve_all h rs w) i fp c content"
  using assms(3) serve_all_ledger [OF assms(1,2), of i _ "tool_effect_key i fp" _ rs]
  unfolding effect_recorded_def by blast

lemma lookup_effect:
  assumes "effect_recorded w i fp c content" "fp \<noteq> []"
  shows "lookup_tool_effect_result i fp w = (Inr (Some (c, content)), w)"
  using assms
  by (auto simp: effect_recorded_def lookup_tool_effect_result_def svc_bind_def get_session_def
      get_required_def svc_return_def)

section \<open>The repair budget\<close>

lemma reserve_repair:
  assumes "memory_get (w_store w) i = Some s" "keyed (w_store w)"
  shows "\<exists>w'. reserve_auto_repair_attempt i most w =
      (Inr (int (rs_auto_repair_attempts_used s) < most), w') \<and>
    keyed (w_store w') \<and>
    (\<exists>s'. memory_get (w_store w') i = Some s' \<and>
      rs_auto_repair_attempts_used s' = rs_auto_repair_attempts_used s +
        (if int (rs_auto_repair_attempts_used s) < most then 1 else 0))"
proof (cases "int (rs_auto_repair_attempts_used s) < most")
  case False
  then have "reserve_auto_repair_attempt i most w = (Inr False, w)"
    using assms(1)
    by (simp add: reserve_auto_repair_attempt_def svc_bind_def get_session_def get_required_def
        svc_return_def)
  with False assms show ?thesis by auto
next
  case True
  have g: "get_session i w = (Inr s, w)" using assms(1) by (simp add: get_session_Inr)
  then have id: "rs_id s = i" using get_session_id assms(2) by blast
  let ?e = "w_env w (w_ops w)"
  let ?s = "s\<lparr>rs_auto_repair_attempts_used := rs_auto_repair_attempts_used s + 1,
    rs_updated_at := ev_now ?e 0\<rparr>"
  let ?w = "w\<lparr>w_ops := w_ops w + 1\<rparr>"
  have "rs_version ?s = stored_version (memory_get (w_store ?w) (rs_id ?s))"
    using assms(1) id by (simp add: stored_version_def)
  then obtain s' w' where p: "put_session ?s ?w = (Inr s', w')"
    by (auto simp: put_session_def memory_put_eq split: sum.splits)
  have r: "reserve_auto_repair_attempt i most w = (Inr True, w')"
    using True g p
    by (simp add: reserve_auto_repair_attempt_def svc_bind_def svc_env_def svc_return_def)
  from stored_after_put [OF p] assms(2) id r True show ?thesis by auto
qed

text \<open>
  Reservations of one budget with other requests between them. The number of the granted ones
  and the reservations made before it stay within the budget.
\<close>

fun reserve_runs :: "hooks \<Rightarrow> string \<Rightarrow> int \<Rightarrow> control_request list list \<Rightarrow> world \<Rightarrow> bool list \<times> world"
  where
  "reserve_runs h i most [] w = ([], w)"
| "reserve_runs h i most (rs # rss) w =
     (case reserve_auto_repair_attempt i most (serve_all h rs w) of
        (Inl e, w1) \<Rightarrow> reserve_runs h i most rss w1
      | (Inr b, w1) \<Rightarrow> (case reserve_runs h i most rss w1 of (bs, w2) \<Rightarrow> (b # bs, w2)))"

lemma reserve_runs_bound:
  assumes "quiet_hooks h" "keyed (w_store w)" "memory_get (w_store w) i = Some s"
    "reserve_runs h i most rss w = (bs, w')"
  shows "length (filter id bs) = 0 \<or>
    int (rs_auto_repair_attempts_used s) + int (length (filter id bs)) \<le> most"
  using assms(2-4)
proof (induction rss arbitrary: w s bs)
  case (Cons rs rss)
  obtain t where t: "memory_get (w_store (serve_all h rs w)) i = Some t" "later evolves s t"
    using serve_all_later [OF assms(1) Cons.prems(1,2)] by blast
  have used: "rs_auto_repair_attempts_used s \<le> rs_auto_repair_attempts_used t"
    using later_evolves(1) [OF t(2)] by (simp add: evolves_def)
  have k: "keyed (w_store (serve_all h rs w))" by (rule serve_all_keyed [OF assms(1) Cons.prems(1)])
  obtain w1 s1 where r: "reserve_auto_repair_attempt i most (serve_all h rs w) =
        (Inr (int (rs_auto_repair_attempts_used t) < most), w1)"
    and k1: "keyed (w_store w1)" and s1: "memory_get (w_store w1) i = Some s1"
    and u1: "rs_auto_repair_attempts_used s1 = rs_auto_repair_attempts_used t +
        (if int (rs_auto_repair_attempts_used t) < most then 1 else 0)"
    using reserve_repair [OF t(1) k, of most] by blast
  obtain bs1 where bs: "reserve_runs h i most rss w1 = (bs1, w')"
      "bs = (int (rs_auto_repair_attempts_used t) < most) # bs1"
    using Cons.prems(3) r by (auto split: prod.splits)
  from Cons.IH [OF k1 s1 bs(1)] used u1 bs(2) show ?case
    by (cases "int (rs_auto_repair_attempts_used t) < most") auto
qed simp

end
