(* ===== verification/Node_Effects.thy ===== *)
theory Node_Effects
  imports Ledger_Facts
begin

text \<open>
  The functional effect of the service operations and facade decisions on one node, as the store
  shows it afterwards: completing and failing a node, the decision on a gate, and the lease of
  an execution in its session.
\<close>

section \<open>The stored session after an operation\<close>

text \<open>\<open>stores w i s\<close>: the well-formed store holds \<open>s\<close> under \<open>i\<close>.\<close>

definition stores :: "world \<Rightarrow> string \<Rightarrow> runtime_session \<Rightarrow> bool" where
  "stores w i s \<longleftrightarrow> keyed (w_store w) \<and> memory_get (w_store w) i = Some s"

lemma stores_id: "stores w i s \<Longrightarrow> rs_id s = i"
  by (auto simp: stores_def keyed_def memory_get_def dest: map_of_SomeD)

lemma get_stores: "stores w i s \<Longrightarrow> get_session i w = (Inr s, w)"
  by (simp add: stores_def get_session_Inr)

lemma get_stores_eq: "stores w i s \<Longrightarrow> get_session i w = (Inr t, w') \<longleftrightarrow> t = s \<and> w' = w"
  by (auto simp: get_stores)

lemma stores_same: "w_store w' = w_store w \<Longrightarrow> stores w' i s \<longleftrightarrow> stores w i s"
  by (simp add: stores_def)

lemma put_stores:
  assumes "put_session s w = (Inr s', w')" "keyed (w_store w)" "rs_id s = i"
  shows "s' = bump s" "stores w' i (bump s)"
  using put_session_Inr(1) [OF assms(1)] stored_after_put [OF assms(1,2)] assms(3)
  by (simp_all add: stores_def)

lemma bump_fields [simp]:
  "session_node (s\<lparr>rs_version := v\<rparr>) = session_node s"
  by (simp add: session_node_def fun_eq_iff)

lemma svc_lift_Inr: "svc_lift r w = (Inr x, w') \<longleftrightarrow> r = Inr x \<and> w' = w"
  by auto

section \<open>Completing and failing a node\<close>

text \<open>The latest attempt after it was closed, when one was running.\<close>

definition attempt_closed ::
    "node_state \<Rightarrow> node_state \<Rightarrow> attempt_status \<Rightarrow> (node_attempt \<Rightarrow> node_attempt \<Rightarrow> bool) \<Rightarrow> bool" where
  "attempt_closed n m st how \<longleftrightarrow>
     (case running_attempt n of
        None \<Rightarrow> ns_attempts m = ns_attempts n
      | Some a \<Rightarrow> (\<exists>b. ns_attempts m = butlast (ns_attempts n) @ [b] \<and> na_id b = na_id a \<and>
          na_status b = st \<and> how a b \<and> \<not> has_execution_lease_metadata b))"

lemma running_attempt_status [simp]:
  "running_attempt (n\<lparr>ns_status := st, ns_updated_at := t\<rparr>) = running_attempt n"
  by (simp add: running_attempt_def latest_attempt_def)

lemma complete_running_closed:
  assumes "complete_running_attempt output now n = Inr (c, m)"
  shows "attempt_closed n m Attempt_SUCCEEDED (\<lambda>a b. na_output b =
      (case output of None \<Rightarrow> na_output a | Some d \<Rightarrow> d)) \<and> ns_status m = ns_status n"
  using assms
  by (auto simp: complete_running_attempt_eq attempt_closed_def Let_def split: option.splits)

lemma fail_running_closed:
  assumes "fail_running_attempt err now n = Inr (c, m)"
  shows "attempt_closed n m Attempt_FAILED (\<lambda>a b. na_error b = Some err \<and> na_output b = na_output a)
    \<and> ns_status m = ns_status n"
  using assms
  by (auto simp: fail_running_attempt_eq attempt_closed_def Let_def split: option.splits)

lemma attempt_closed_status [simp]:
  "attempt_closed (n\<lparr>ns_status := st, ns_updated_at := t\<rparr>) m s how \<longleftrightarrow> attempt_closed n m s how"
  by (simp add: attempt_closed_def split: option.split)

lemma emit_opt_store:
  assumes "(case x of None \<Rightarrow> svc_return () | Some a \<Rightarrow> svc_emit (f a)) w = (Inr u, w')"
  shows "w_store w' = w_store w"
  using assms by (auto dest: svc_emit_Inr split: option.splits)

lemma complete_node_effect:
  assumes "complete_node i k out w = (Inr m, w')" "stores w i s" "session_node s k = Some n"
  shows "\<exists>t. stores w' i t \<and> session_node t = (session_node s)(k \<mapsto> m) \<and> rs_status t = rs_status s"
    "is_valid_node_transition (ns_status n) Node_COMPLETED \<and> ns_status m = Node_COMPLETED"
    "attempt_closed n m Attempt_SUCCEEDED (\<lambda>a b. na_output b =
      (case out of None \<Rightarrow> na_output a | Some d \<Rightarrow> d))"
proof -
  obtain c t1 t2 w2 s1 w3 where
    nt: "is_valid_node_transition (ns_status n) Node_COMPLETED"
    and c: "complete_running_attempt out t1
      (n\<lparr>ns_status := Node_COMPLETED, ns_updated_at := t2\<rparr>) = Inr (c, m)"
    and w: "w_store w2 = w_store w" "w_store w' = w_store w3"
    and p: "put_session (set_node k m s) w2 = (Inr s1, w3)"
    using assms(1,3) unfolding complete_node_def
    by (auto simp: svc_bind_Inr get_stores_eq [OF assms(2)] svc_lift_Inr node_transition_Inr
        simp del: svc_lift_eq dest!: emit_opt_store svc_emit_Inr)
  have k: "keyed (w_store w2)" using assms(2) w by (simp add: stores_def)
  have "stores w3 i (bump (set_node k m s))"
    by (rule put_stores(2) [OF p k]) (simp add: stores_id [OF assms(2)])
  then show "\<exists>t. stores w' i t \<and> session_node t = (session_node s)(k \<mapsto> m) \<and> rs_status t = rs_status s"
    using stores_same [OF w(2)] by (intro exI [of _ "bump (set_node k m s)"]) simp
  show "is_valid_node_transition (ns_status n) Node_COMPLETED \<and> ns_status m = Node_COMPLETED"
    "attempt_closed n m Attempt_SUCCEEDED (\<lambda>a b. na_output b =
      (case out of None \<Rightarrow> na_output a | Some d \<Rightarrow> d))"
    using nt complete_running_closed [OF c] by simp_all
qed

lemma fail_node_effect:
  assumes "fail_node i k err w = (Inr m, w')" "stores w i s" "session_node s k = Some n"
  shows "\<exists>t. stores w' i t \<and> session_node t = (session_node s)(k \<mapsto> m) \<and> rs_status t = rs_status s"
    "is_valid_node_transition (ns_status n) Node_FAILED \<and> ns_status m = Node_FAILED"
    "attempt_closed n m Attempt_FAILED (\<lambda>a b. na_error b = Some err \<and> na_output b = na_output a)"
proof -
  obtain c t1 t2 w2 s1 w3 where
    nt: "is_valid_node_transition (ns_status n) Node_FAILED"
    and c: "fail_running_attempt err t1
      (n\<lparr>ns_status := Node_FAILED, ns_updated_at := t2\<rparr>) = Inr (c, m)"
    and w: "w_store w2 = w_store w" "w_store w' = w_store w3"
    and p: "put_session (set_node k m s) w2 = (Inr s1, w3)"
    using assms(1,3) unfolding fail_node_def
    by (auto simp: svc_bind_Inr get_stores_eq [OF assms(2)] svc_lift_Inr node_transition_Inr
        simp del: svc_lift_eq dest!: emit_opt_store svc_emit_Inr)
  have k: "keyed (w_store w2)" using assms(2) w by (simp add: stores_def)
  have "stores w3 i (bump (set_node k m s))"
    by (rule put_stores(2) [OF p k]) (simp add: stores_id [OF assms(2)])
  then show "\<exists>t. stores w' i t \<and> session_node t = (session_node s)(k \<mapsto> m) \<and> rs_status t = rs_status s"
    using stores_same [OF w(2)] by (intro exI [of _ "bump (set_node k m s)"]) simp
  show "is_valid_node_transition (ns_status n) Node_FAILED \<and> ns_status m = Node_FAILED"
    "attempt_closed n m Attempt_FAILED (\<lambda>a b. na_error b = Some err \<and> na_output b = na_output a)"
    using nt fail_running_closed [OF c] by simp_all
qed

section \<open>Session transitions\<close>

text \<open>A transition to a terminal status also clears every lease.\<close>

definition leases_cleared :: "node_state \<Rightarrow> node_state" where
  "leases_cleared n = n\<lparr>ns_attempts := map clear_execution_lease (ns_attempts n)\<rparr>"

definition nodes_at :: "session_status \<Rightarrow> runtime_session \<Rightarrow> string \<Rightarrow> node_state option" where
  "nodes_at st s k = (if st \<in> terminal_session_statuses
     then map_option leases_cleared (session_node s k) else session_node s k)"

lemma transition_session_nodes:
  "transition_session st now s = Inr s' \<Longrightarrow> session_node s' = nodes_at st s \<and> rs_id s' = rs_id s"
  by (auto simp: transition_session_Inr nodes_at_def session_node_def fun_eq_iff
      leases_cleared_def [abs_def] clear_session_execution_leases_def map_of_map Let_def
      split: if_splits)

lemma session_transition_effect:
  assumes "session_transition i st w = (Inr s2, w')" "stores w i s"
  shows "stores w' i s2 \<and> rs_status s2 = st \<and> session_node s2 = nodes_at st s \<and>
    is_valid_session_transition (rs_status s) st"
proof -
  let ?w1 = "w\<lparr>w_ops := w_ops w + 1\<rparr>"
  obtain s1 w2 where tr: "transition_session st (ev_now (w_env w (w_ops w)) 0) s = Inr s1"
    and w: "w_store ?w1 = w_store w" "w_store w' = w_store w2"
    and p: "put_session s1 ?w1 = (Inr s2, w2)"
    using assms(1) unfolding session_transition_def
    by (auto simp: svc_bind_Inr get_stores_eq [OF assms(2)] svc_lift_Inr simp del: svc_lift_eq
        dest!: svc_emit_Inr split: option.splits)
  note n = transition_session_nodes [OF tr]
  have k: "keyed (w_store ?w1)" using assms(2) w by (simp add: stores_def)
  have id: "rs_id s1 = i" using n stores_id [OF assms(2)] by simp
  have "rs_status s1 = st" using transition_session_status [OF tr] by simp
  moreover have "is_valid_session_transition (rs_status s) st"
    using tr by (simp add: transition_session_Inr)
  ultimately show ?thesis
    using stores_same [OF w(2)] put_stores [OF p k id] n by simp
qed

lemma fail_session_effect:
  assumes "fail_session i err w = (Inr s2, w')" "stores w i s"
  shows "stores w' i s2 \<and> rs_status s2 = Session_FAILED \<and> rs_error_message s2 = Some err \<and>
    session_node s2 = nodes_at Session_FAILED s"
proof -
  obtain s1 w1 where s1: "session_transition i Session_FAILED w = (Inr s1, w1)"
    and p: "put_session (s1\<lparr>rs_error_message := Some err\<rparr>) w1 = (Inr s2, w')"
    using assms(1) by (auto simp: fail_session_def svc_bind_Inr)
  note t = session_transition_effect [OF s1 assms(2)]
  have k: "keyed (w_store w1)" using t by (simp add: stores_def)
  have "rs_id (s1\<lparr>rs_error_message := Some err\<rparr>) = i" using t stores_id [of w1 i s1] by simp
  from put_stores [OF p k this] t show ?thesis by (simp add: session_node_def fun_eq_iff)
qed

text \<open>The two conditional transitions around a node operation of a facade decision.\<close>

definition resumed :: "session_status \<Rightarrow> session_status" where
  "resumed st = (if st = Session_WAITING_GATE then Session_RESUMING else st)"

definition rerunning :: "session_status \<Rightarrow> session_status" where
  "rerunning st = (if st = Session_RESUMING then Session_RUNNING else st)"

lemma resume_effect:
  assumes "resume_session_if_waiting i w = (Inr u, w')" "stores w i s"
  shows "\<exists>t. stores w' i t \<and> session_node t = session_node s \<and> rs_status t = resumed (rs_status s)"
proof (cases "rs_status s = Session_WAITING_GATE")
  case True
  then obtain s2 where "session_transition i Session_RESUMING w = (Inr s2, w')"
    using assms(1) by (auto simp: resume_session_if_waiting_def svc_bind_Inr
        get_stores_eq [OF assms(2)] mark_session_resuming_def)
  from session_transition_effect [OF this assms(2)] True show ?thesis
    by (auto simp: resumed_def nodes_at_def terminal_session_statuses_def fun_eq_iff)
next
  case False
  then have "w' = w"
    using assms(1) by (auto simp: resume_session_if_waiting_def svc_bind_Inr get_stores_eq [OF assms(2)])
  with assms(2) False show ?thesis by (auto simp: resumed_def)
qed

lemma ensure_effect:
  assumes "ensure_session_running i w = (Inr u, w')" "stores w i s"
  shows "\<exists>t. stores w' i t \<and> session_node t = session_node s \<and> rs_status t = rerunning (rs_status s)"
proof (cases "rs_status s = Session_RESUMING")
  case True
  then obtain s2 where "session_transition i Session_RUNNING w = (Inr s2, w')"
    using assms(1) by (auto simp: ensure_session_running_def svc_bind_Inr
        get_stores_eq [OF assms(2)] mark_session_running_def)
  from session_transition_effect [OF this assms(2)] True show ?thesis
    by (auto simp: rerunning_def nodes_at_def terminal_session_statuses_def fun_eq_iff)
next
  case False
  then have "w' = w"
    using assms(1) by (auto simp: ensure_session_running_def svc_bind_Inr get_stores_eq [OF assms(2)])
  with assms(2) False show ?thesis by (auto simp: rerunning_def)
qed

lemma apply_complete_effect:
  assumes "apply_complete_intent i k it x w = (Inr rd, w')" "stores w i s" "session_node s k = Some n"
  shows "\<exists>t m. stores w' i t \<and> session_node t = (session_node s)(k \<mapsto> m) \<and>
    rs_status t = rerunning (resumed (rs_status s)) \<and> ns_status m = Node_COMPLETED \<and>
    attempt_closed n m Attempt_SUCCEEDED (\<lambda>a b. na_output b = ai_output it) \<and>
    rd_kind rd = Decided_CONTINUE \<and> rd_node_status rd = Node_COMPLETED"
proof -
  obtain w1 m w2 where r: "resume_session_if_waiting i w = (Inr (), w1)"
    and c: "complete_node i k (Some (ai_output it)) w1 = (Inr m, w2)"
    and e: "ensure_session_running i w2 = (Inr (), w')"
    and rd: "rd_kind rd = Decided_CONTINUE" "rd_node_status rd = Node_COMPLETED"
    using assms(1) by (auto simp: apply_complete_intent_def svc_bind_Inr)
  obtain s1 where s1: "stores w1 i s1" "session_node s1 = session_node s"
      "rs_status s1 = resumed (rs_status s)"
    using resume_effect [OF r assms(2)] by blast
  have n: "session_node s1 k = Some n" using s1(2) assms(3) by simp
  note c' = complete_node_effect [OF c s1(1) n]
  obtain s2 where s2: "stores w2 i s2" "session_node s2 = (session_node s)(k \<mapsto> m)"
      "rs_status s2 = resumed (rs_status s)"
    using c'(1) s1 by auto
  obtain t where "stores w' i t" "session_node t = session_node s2"
      "rs_status t = rerunning (rs_status s2)"
    using ensure_effect [OF e s2(1)] by blast
  then show ?thesis using c'(2,3) s2 rd by auto
qed

lemma apply_fail_effect:
  assumes "apply_fail_intent i k it x w = (Inr rd, w')" "stores w i s" "session_node s k = Some n"
    "ns_status n = Node_FAILED"
  shows "\<exists>t. stores w' i t \<and> session_node t = nodes_at Session_FAILED s \<and>
    rs_status t = Session_FAILED \<and> rd_kind rd = Decided_FAIL"
proof -
  obtain err s2 where f: "fail_session i err w = (Inr s2, w')" and rd: "rd_kind rd = Decided_FAIL"
    using assms(1,3,4)
    by (auto simp: apply_fail_intent_def svc_bind_Inr get_node_def get_stores_eq [OF assms(2)]
        Let_def svc_lift_Inr simp del: svc_lift_eq)
  from fail_session_effect [OF f assms(2)] rd show ?thesis by blast
qed

section \<open>A decision on a gate\<close>

lemma map_of_update_found:
  "List.find P xs = Some (k, v) \<Longrightarrow> distinct (map fst xs) \<Longrightarrow>
   map_of (update_first P (\<lambda>(k, _). (k, v')) xs) = (map_of xs)(k \<mapsto> v')"
proof (induction xs)
  case (Cons x xs)
  obtain a b where x: "x = (a, b)" by force
  show ?case
  proof (cases "P x")
    case True
    with Cons.prems x show ?thesis by (auto simp: fun_eq_iff)
  next
    case False
    then have f: "List.find P xs = Some (k, v)" using Cons.prems(1) by simp
    then have "(k, v) \<in> set xs" by (auto dest: find_Some_in)
    then have "k \<noteq> a" using Cons.prems(2) x by (auto simp: image_iff)
    with Cons.IH [OF f] Cons.prems(2) False x show ?thesis by (auto simp: fun_eq_iff)
  qed
qed simp

text \<open>
  The gate is found in the node that it names. \<^verbatim>\<open>record_gate\<close> writes the key of the node into
  every gate that it appends.
\<close>

definition gate_of_node :: "runtime_session \<Rightarrow> string \<Rightarrow> string \<Rightarrow> bool" where
  "gate_of_node s gate_id k \<longleftrightarrow>
     distinct (map fst (rs_nodes s)) \<and>
     (case find_gate s gate_id of Inl e \<Rightarrow> False | Inr (g, k', n) \<Rightarrow> k' = k \<and> gt_node_key g = k)"

lemma apply_gate_decision_effect:
  assumes "apply_gate_decision f c d now tick s = Inr (r, s')" "gate_of_node s (gi_gate_id d) k"
  shows "\<exists>n m. session_node s k = Some n \<and> session_node s' = (session_node s)(k \<mapsto> m) \<and>
    ns_status m = target_status_for_decision (gi_action d) \<and> ns_attempts m = ns_attempts n \<and>
    gt_node_key (gr_gate r) = k \<and> rs_status s' = rs_status s \<and> rs_id s' = rs_id s \<and>
    is_valid_node_transition (ns_status n) (ns_status m)"
proof -
  obtain g n where fg: "find_gate s (gi_gate_id d) = Inr (g, k, n)" and gk: "gt_node_key g = k"
    and dk: "distinct (map fst (rs_nodes s))"
    using assms(2) by (auto simp: gate_of_node_def split: sum.splits)
  have fk: "List.find (\<lambda>(k, n). has_gate (gi_gate_id d) n) (rs_nodes s) = Some (k, n)"
    using fg by (simp add: find_gate_eq_Inr)
  have kn: "session_node s k = Some n"
    unfolding session_node_def using find_Some_in [OF fk] by (intro map_of_is_SomeI [OF dk]) simp
  let ?m = "gr_node r"
  have m: "ns_status ?m = target_status_for_decision (gi_action d)"
      "ns_attempts ?m = ns_attempts n" "is_valid_node_transition (ns_status n) (ns_status ?m)"
    and r: "gt_node_key (gr_gate r) = k"
    and s': "s' = s\<lparr>rs_nodes := update_first (\<lambda>(k, n). has_gate (gi_gate_id d) n) (\<lambda>(k, _). (k, ?m))
      (rs_nodes s)\<rparr>"
    using assms(1) fg gk by (auto simp: apply_gate_decision_def Let_def node_transition_Inr)
  have "session_node s' = (session_node s)(k \<mapsto> ?m)"
    using map_of_update_found [OF fk dk] by (simp add: s' session_node_def fun_eq_iff)
  with kn m r s' show ?thesis by auto
qed

lemma gate_decision_op_effect:
  assumes "apply_gate_decision_op i d w = (Inr g, w')" "stores w i s"
    "gate_of_node s (gi_gate_id d) k"
  shows "\<exists>t n m. stores w' i t \<and> session_node s k = Some n \<and>
    session_node t = (session_node s)(k \<mapsto> m) \<and> gt_node_key g = k \<and>
    ns_status m = target_status_for_decision (gi_action d) \<and> ns_attempts m = ns_attempts n \<and>
    rs_status t = rs_status s"
proof -
  let ?w1 = "w\<lparr>w_ops := w_ops w + 1\<rparr>"
  obtain r s1 s2 w2 f c now tick where r: "apply_gate_decision f c d now tick s = Inr (r, s1)"
    and p: "put_session s1 ?w1 = (Inr s2, w2)" and w: "w_store w' = w_store w2" and g: "g = gr_gate r"
    using assms(1) unfolding apply_gate_decision_op_def
    by (auto simp: svc_bind_Inr get_stores_eq [OF assms(2)] svc_lift_Inr simp del: svc_lift_eq
        dest!: svc_emit_Inr)
  obtain n m where e: "session_node s k = Some n" "session_node s1 = (session_node s)(k \<mapsto> m)"
      "ns_status m = target_status_for_decision (gi_action d)" "ns_attempts m = ns_attempts n"
      "gt_node_key (gr_gate r) = k" "rs_status s1 = rs_status s" "rs_id s1 = rs_id s"
    using apply_gate_decision_effect [OF r assms(3)] by blast
  have k: "keyed (w_store ?w1)" using assms(2) by (simp add: stores_def)
  have id: "rs_id s1 = i" using e(7) stores_id [OF assms(2)] by simp
  have "stores w' i s2" "s2 = bump s1"
    using put_stores [OF p k id] stores_same [OF w] by simp_all
  with e g show ?thesis by (intro exI [of _ s2] exI [of _ n] exI [of _ m]) simp
qed

lemma running_attempt_cong: "ns_attempts m = ns_attempts n \<Longrightarrow> running_attempt m = running_attempt n"
  by (simp add: running_attempt_def latest_attempt_def)

lemma attempt_closed_cong:
  "ns_attempts m = ns_attempts n \<Longrightarrow> attempt_closed m l st how \<longleftrightarrow> attempt_closed n l st how"
  using running_attempt_cong [of m n] by (simp add: attempt_closed_def split: option.split)

lemma apply_decision_steps:
  assumes "apply_decision i d w = (Inr rd, w')" "stores w i s" "gate_of_node s (gi_gate_id d) k"
  obtains g t n m w1 it where "stores w1 i t" "session_node s k = Some n"
    "session_node t = (session_node s)(k \<mapsto> m)" "rs_status t = rs_status s"
    "ns_status m = target_status_for_decision (gi_action d)" "ns_attempts m = ns_attempts n"
    "gt_node_key g = k" "intent_from_gate_status g (ns_status m) d = Inr it"
    "apply_node_intent i it None w1 = (Inr rd, w')"
proof -
  obtain g w1 where g: "apply_gate_decision_op i d w = (Inr g, w1)"
    and rest: "svc_bind (get_node i (gt_node_key g)) (\<lambda>n.
      svc_bind (svc_lift (intent_from_gate_status g (ns_status n) d)) (\<lambda>it.
      apply_node_intent i it None)) w1 = (Inr rd, w')"
    using assms(1) by (auto simp: apply_decision_def svc_bind_Inr svc_lift_Inr simp del: svc_lift_eq)
  obtain t n m where t: "stores w1 i t" "session_node s k = Some n"
      "session_node t = (session_node s)(k \<mapsto> m)" "gt_node_key g = k"
      "ns_status m = target_status_for_decision (gi_action d)" "ns_attempts m = ns_attempts n"
      "rs_status t = rs_status s"
    using gate_decision_op_effect [OF g assms(2,3)] by blast
  obtain it where "intent_from_gate_status g (ns_status m) d = Inr it"
      "apply_node_intent i it None w1 = (Inr rd, w')"
    using rest t(3,4) by (auto simp: svc_bind_Inr get_node_def get_stores_eq [OF t(1)] svc_lift_Inr
        simp del: svc_lift_eq)
  with that t show ?thesis by blast
qed

lemma apply_decision_approve:
  assumes "apply_decision i d w = (Inr rd, w')" "stores w i s" "gate_of_node s (gi_gate_id d) k"
    "gi_action d = Decision_APPROVE"
  shows "\<exists>t n m. stores w' i t \<and> session_node s k = Some n \<and>
    session_node t = (session_node s)(k \<mapsto> m) \<and> ns_status m = Node_COMPLETED \<and>
    attempt_closed n m Attempt_SUCCEEDED (\<lambda>a b. na_output b = []) \<and>
    rs_status t = rerunning (resumed (rs_status s))"
proof -
  from apply_decision_steps [OF assms(1-3)]
  obtain g t n m w1 it where t: "stores w1 i t" "session_node s k = Some n"
      "session_node t = (session_node s)(k \<mapsto> m)" "rs_status t = rs_status s"
      "ns_status m = Node_APPROVED" "ns_attempts m = ns_attempts n" "gt_node_key g = k"
    and it: "intent_from_gate_status g Node_APPROVED d = Inr it"
    and ap: "apply_node_intent i it None w1 = (Inr rd, w')"
    using assms(4) by (metis target_status_for_decision.simps(1))
  have k: "ai_kind it = Intent_COMPLETE" "ai_node_key it = Some k" "ai_output it = []"
    using it t(7) by (auto simp: intent_from_gate_status_def Let_def)
  have "apply_complete_intent i k it None w1 = (Inr rd, w')"
    using ap k by (auto simp: apply_node_intent_def svc_bind_Inr required_node_key_def)
  moreover have "session_node t k = Some m" using t(3) by simp
  ultimately obtain u l where "stores w' i u" "session_node u = (session_node t)(k \<mapsto> l)"
      "rs_status u = rerunning (resumed (rs_status t))" "ns_status l = Node_COMPLETED"
      "attempt_closed m l Attempt_SUCCEEDED (\<lambda>a b. na_output b = [])"
    using apply_complete_effect [OF _ t(1)] k(3) by metis
  with t attempt_closed_cong [OF t(6)] show ?thesis by auto
qed

lemma apply_decision_reject:
  assumes "apply_decision i d w = (Inr rd, w')" "stores w i s" "gate_of_node s (gi_gate_id d) k"
    "gi_action d = Decision_REJECT"
  shows "\<exists>t n m. stores w' i t \<and> rs_status t = Session_FAILED \<and> session_node s k = Some n \<and>
    session_node t k = Some m \<and> ns_status m = Node_FAILED \<and>
    ns_attempts m = map clear_execution_lease (ns_attempts n)"
proof -
  from apply_decision_steps [OF assms(1-3)]
  obtain g t n m w1 it where t: "stores w1 i t" "session_node s k = Some n"
      "session_node t = (session_node s)(k \<mapsto> m)" "rs_status t = rs_status s"
      "ns_status m = Node_FAILED" "ns_attempts m = ns_attempts n" "gt_node_key g = k"
    and it: "intent_from_gate_status g Node_FAILED d = Inr it"
    and ap: "apply_node_intent i it None w1 = (Inr rd, w')"
    using assms(4) by (metis target_status_for_decision.simps(4))
  have k: "ai_kind it = Intent_FAIL" "ai_node_key it = Some k"
    using it t(7) by (auto simp: intent_from_gate_status_def Let_def intent_fail_eq split: if_splits)
  have "apply_fail_intent i k it None w1 = (Inr rd, w')"
    using ap k by (auto simp: apply_node_intent_def svc_bind_Inr required_node_key_def)
  moreover have "session_node t k = Some m" using t(3) by simp
  ultimately obtain u where "stores w' i u" "session_node u = nodes_at Session_FAILED t"
      "rs_status u = Session_FAILED"
    using apply_fail_effect [OF _ t(1) _ t(5)] by blast
  with t show ?thesis by (auto simp: nodes_at_def terminal_session_statuses_def leases_cleared_def)
qed

section \<open>The lease of an execution in its session\<close>

lemma granted_attempt_stored:
  assumes "grant_execution_lease k x ow ttl tok fresh now s = Inr (a', s')"
  shows "\<exists>a n. find_attempt_by_id s x = Inr (a, n) \<and>
    grant_attempt_lease ow ttl tok fresh now a = Inr a' \<and> (\<exists>n'. find_attempt_by_id s' x = Inr (a', n'))"
proof -
  obtain a n where f: "find_attempt_by_id s x = Inr (a, n)"
    and g: "grant_attempt_lease ow ttl tok fresh now a = Inr a'" and s': "s' = store_attempt x a' now s"
    using assms by (auto simp: grant_execution_lease_def)
  have "na_id a' = x" using g find_attempt_by_id_InrD(1) [OF f] by (auto simp: grant_attempt_lease_Inr)
  from find_store_attempt [OF f this] f g s' show ?thesis by blast
qed

lemma grant_execution_lease_found:
  assumes "find_attempt_by_id s x = Inr (a, n)" "na_node_key a = k"
  shows "grant_execution_lease k x ow ttl tok fresh now s =
    (case grant_attempt_lease ow ttl tok fresh now a of
       Inl e \<Rightarrow> Inl e | Inr a' \<Rightarrow> Inr (a', store_attempt x a' now s))"
  using assms by (simp add: grant_execution_lease_def and_then_def raise_when_def split: sum.split)

lemma session_lease_exclusive:
  assumes "grant_execution_lease k x ow ttl tok fresh now s = Inr (a', s')"
    "t < now + timedelta_seconds ttl"
  shows "\<exists>e. grant_execution_lease k2 x ow2 ttl2 tok2 fresh2 t s' = Inl e"
proof -
  obtain a n' where g: "grant_attempt_lease ow ttl tok fresh now a = Inr a'"
    and f: "find_attempt_by_id s' x = Inr (a', n')"
    using granted_attempt_stored [OF assms(1)] by blast
  obtain e where e: "grant_attempt_lease ow2 ttl2 tok2 fresh2 t a' = Inl e"
    using xl.exclusive [OF g assms(2)] by blast
  show ?thesis
    by (cases "na_node_key a' = k2")
       (simp_all add: grant_execution_lease_def f e and_then_def raise_when_def)
qed

end
