(* ===== verification/Store_Race.thy ===== *)
theory Store_Race
  imports Service_Facts
begin

text \<open>
  Concurrent clients of one session store. The methods of \<^verbatim>\<open>SessionService\<close> read a session,
  change their copy and write it back, and other tasks run between the three; what a client
  holds is a copy (\<^verbatim>\<open>model_copy(deep=True)\<close>), so two clients never share an object. A step
  is one access to the store by one client, or a change of the copy it holds. The steps of
  different clients are interleaved without restriction.

  In \<open>race_ok\<close> states the optimistic version check is enough: whatever the interleaving, the
  store only ever holds later values of what it held.
\<close>

record race =
  ra_store :: memory_store
  ra_held :: "nat \<Rightarrow> runtime_session option"

inductive race_step ::
    "(runtime_session \<Rightarrow> runtime_session \<Rightarrow> bool) \<Rightarrow> race \<Rightarrow> race \<Rightarrow> bool"
  for rel where
  race_read: "memory_get (ra_store r) i = Some s \<Longrightarrow>
    race_step rel r (r\<lparr>ra_held := (ra_held r)(c \<mapsto> s)\<rparr>)"
| race_create: "rs_version s = 0 \<Longrightarrow>
    race_step rel r (r\<lparr>ra_held := (ra_held r)(c \<mapsto> s)\<rparr>)"
| race_change: "ra_held r c = Some s \<Longrightarrow> rel s t \<Longrightarrow>
    race_step rel r (r\<lparr>ra_held := (ra_held r)(c \<mapsto> t)\<rparr>)"
| race_write: "ra_held r c = Some s \<Longrightarrow> memory_put s (ra_store r) = Inr (s', st) \<Longrightarrow>
    race_step rel r \<lparr>ra_store = st, ra_held = (ra_held r)(c \<mapsto> s')\<rparr>"
| race_refused: "ra_held r c = Some s \<Longrightarrow> memory_put s (ra_store r) = Inl e \<Longrightarrow>
    race_step rel r (r\<lparr>ra_held := (ra_held r)(c := None)\<rparr>)"

definition held_ok ::
    "(runtime_session \<Rightarrow> runtime_session \<Rightarrow> bool) \<Rightarrow> memory_store \<Rightarrow> runtime_session \<Rightarrow> bool" where
  "held_ok rel st s \<longleftrightarrow> ready rel s st \<and> rs_version s \<le> stored_version (memory_get st (rs_id s))"

definition race_ok :: "(runtime_session \<Rightarrow> runtime_session \<Rightarrow> bool) \<Rightarrow> race \<Rightarrow> bool" where
  "race_ok rel r \<longleftrightarrow> keyed (ra_store r) \<and> (\<forall>c s. ra_held r c = Some s \<longrightarrow> held_ok rel (ra_store r) s)"

definition race_start :: "memory_store \<Rightarrow> race" where
  "race_start st = \<lparr>ra_store = st, ra_held = (\<lambda>_. None)\<rparr>"

lemma race_ok_start: "keyed st \<Longrightarrow> race_ok rel (race_start st)"
  by (simp add: race_ok_def race_start_def)

lemma race_ok_hold:
  "race_ok rel r \<Longrightarrow> held_ok rel (ra_store r) s \<Longrightarrow> race_ok rel (r\<lparr>ra_held := (ra_held r)(c \<mapsto> s)\<rparr>)"
  by (simp add: race_ok_def)

lemma keyed_get:
  "keyed st \<Longrightarrow> memory_get st i = Some s \<Longrightarrow> rs_id s = i \<and> 0 < rs_version s"
  by (auto simp: keyed_def memory_get_def dest: map_of_SomeD)

context session_relation
begin

lemma held_read: "keyed st \<Longrightarrow> memory_get st i = Some s \<Longrightarrow> held_ok rel st s"
  using keyed_get [of st i s] by (simp add: held_ok_def ready_def rel_refl stored_version_def)

lemma held_create: "keyed st \<Longrightarrow> rs_version s = 0 \<Longrightarrow> held_ok rel st s"
  using keyed_get [of st "rs_id s"] by (auto simp: held_ok_def ready_def)

lemma held_change: "held_ok rel st s \<Longrightarrow> rel s t \<Longrightarrow> held_ok rel st t"
  using rel_keeps [of s t] by (auto simp: held_ok_def intro: ready_rel)

text \<open>An accepted write leaves every other holder behind it, or as current as it was.\<close>

lemma held_write:
  assumes "memory_put s st = Inr (s', st')" "held_ok rel st s" "held_ok rel st t" "keyed st"
  shows "held_ok rel st' t" "held_ok rel st' s'"
proof -
  note p = memory_put_InrD [OF assms(1)]
  show "held_ok rel st' t"
  proof (cases "rs_id t = rs_id s")
    case True
    then have "rs_version t \<le> rs_version s" using assms(3) p(3) by (simp add: held_ok_def)
    with True p show ?thesis by (auto simp: held_ok_def ready_def stored_version_def)
  next
    case False
    with assms(3) p show ?thesis by (simp add: held_ok_def ready_def)
  qed
  show "held_ok rel st' s'"
    using p by (simp add: held_ok_def ready_def stored_version_def rel_refl)
qed

lemma race_step_ok:
  assumes "race_step rel r r'" "race_ok rel r"
  shows "race_ok rel r' \<and> store_later rel (ra_store r) (ra_store r')"
  using assms(1)
proof (cases rule: race_step.cases)
  case (race_read i s c)
  have "keyed (ra_store r)" using assms(2) by (simp add: race_ok_def)
  from held_read [OF this race_read(2)] show ?thesis
    using assms(2) race_read by (simp add: race_ok_hold store_later_refl)
next
  case (race_create s c)
  have "keyed (ra_store r)" using assms(2) by (simp add: race_ok_def)
  from held_create [OF this race_create(2)] show ?thesis
    using assms(2) race_create by (simp add: race_ok_hold store_later_refl)
next
  case (race_change c s t)
  have "held_ok rel (ra_store r) s" using assms(2) race_change(2) by (simp add: race_ok_def)
  from held_change [OF this race_change(3)] show ?thesis
    using assms(2) race_change by (simp add: race_ok_hold store_later_refl)
next
  case (race_write c s s' st)
  have k: "keyed (ra_store r)" and h: "\<And>c s. ra_held r c = Some s \<Longrightarrow> held_ok rel (ra_store r) s"
    using assms(2) by (simp_all add: race_ok_def)
  have s: "held_ok rel (ra_store r) s" by (rule h [OF race_write(2)])
  then have rd: "ready rel s (ra_store r)" by (simp add: held_ok_def)
  note later = put_later [OF race_write(3) rd k]
  have "keyed st" using later(1) k by (simp add: store_later_def)
  moreover have "held_ok rel st t" if "ra_held r' d = Some t" for d t
    using that race_write(1) held_write [OF race_write(3) s _ k] h s
    by (auto split: if_splits)
  ultimately show ?thesis using later(1) race_write(1) by (simp add: race_ok_def)
next
  case (race_refused c s e)
  then show ?thesis using assms(2) by (auto simp: race_ok_def store_later_refl)
qed

lemma race_history:
  assumes "(race_step rel)\<^sup>*\<^sup>* r r'" "race_ok rel r"
  shows "race_ok rel r' \<and> store_later rel (ra_store r) (ra_store r')"
  using assms
proof (induction rule: rtranclp_induct)
  case base
  then show ?case by (simp add: store_later_refl)
next
  case (step a b)
  then show ?case using race_step_ok [of a b] store_later_trans by blast
qed

lemma race_stored:
  assumes "(race_step rel)\<^sup>*\<^sup>* r r'" "race_ok rel r" "memory_get (ra_store r) i = Some s"
  shows "\<exists>t. memory_get (ra_store r') i = Some t \<and> later rel s t"
  using race_history [OF assms(1,2)] assms(3) unfolding store_later_def by blast

end

end
