(* ===== verification/Workflow_Graph.thy ===== *)
theory Workflow_Graph
  imports Session_Workflow
begin

text \<open>
  \<^verbatim>\<open>orchestration/graph.py\<close>: the topological order of a blueprint and the lookup of the
  nodes that are ready to run. A Python dictionary of degrees is an association list. The loop of
  the source terminates because every turn takes one key off the ready list and a key enters it
  only when its degree leaves the positive numbers.
\<close>

section \<open>Topological order\<close>

definition degree_of :: "(string \<times> int) list \<Rightarrow> string \<Rightarrow> int" where
  "degree_of deg k = (case map_of deg k of None \<Rightarrow> 0 | Some d \<Rightarrow> d)"

definition initial_degrees :: "workflow_blueprint \<Rightarrow> (string \<times> int) list" where
  "initial_degrees b = fold (\<lambda>n deg. AList.update (wn_key n) 0 deg) (wb_nodes b) []"

text \<open>The first loop: unknown requirements are refused, the others are counted.\<close>

definition count_requirement ::
    "string \<Rightarrow> string \<Rightarrow> (string \<times> int) list \<Rightarrow> exn + (string \<times> int) list" where
  "count_requirement key req deg =
     (if map_of deg req = None then Inl ValueError
      else Inr (AList.update key (degree_of deg key + 1) deg))"

definition count_requirements ::
    "workflow_node_spec \<Rightarrow> (string \<times> int) list \<Rightarrow> exn + (string \<times> int) list" where
  "count_requirements n deg = fold_err (count_requirement (wn_key n)) (wn_requires n) deg"

text \<open>\<^verbatim>\<open>declared_index[k]\<close>: the last position of a key in the blueprint.\<close>

definition declared_index :: "workflow_blueprint \<Rightarrow> string \<Rightarrow> nat" where
  "declared_index b k =
     (case map_of (rev (map (\<lambda>(i, n). (wn_key n, i)) (List.enumerate 0 (wb_nodes b)))) k of
        None \<Rightarrow> 0 | Some i \<Rightarrow> i)"

definition insert_ready :: "workflow_blueprint \<Rightarrow> string \<Rightarrow> string list \<Rightarrow> string list" where
  "insert_ready b child ready =
     takeWhile (\<lambda>k. \<not> declared_index b k > declared_index b child) ready @ [child] @
     dropWhile (\<lambda>k. \<not> declared_index b k > declared_index b child) ready"

text \<open>The loop over \<^verbatim>\<open>downstream[current]\<close>, which lists the children in blueprint order.\<close>

fun relax ::
    "workflow_blueprint \<Rightarrow> string list \<Rightarrow> (string \<times> int) list \<Rightarrow> string list \<Rightarrow>
     (string \<times> int) list \<times> string list" where
  "relax b [] deg ready = (deg, ready)"
| "relax b (child # children) deg ready =
     (let d = degree_of deg child - 1;
          deg' = AList.update child d deg
      in relax b children deg' (if d = 0 then insert_ready b child ready else ready))"

definition positive_degrees :: "(string \<times> int) list \<Rightarrow> nat" where
  "positive_degrees deg = length (filter (\<lambda>(k, d). 0 < d) deg)"

lemma length_insert_ready [simp]: "length (insert_ready b c ready) = length ready + 1"
proof -
  have "length (takeWhile P xs) + length (dropWhile P xs) = length xs" for P and xs :: "string list"
    by (metis length_append takeWhile_dropWhile_id)
  then show ?thesis by (simp add: insert_ready_def)
qed

lemma set_insert_ready [simp]: "set (insert_ready b c ready) = insert c (set ready)"
proof -
  have "set (takeWhile P xs) \<union> set (dropWhile P xs) = set xs" for P and xs :: "string list"
    by (metis set_append takeWhile_dropWhile_id)
  then show ?thesis by (auto simp: insert_ready_def)
qed

lemma distinct_insert_ready:
  "distinct ready \<Longrightarrow> c \<notin> set ready \<Longrightarrow> distinct (insert_ready b c ready)"
proof -
  assume a: "distinct ready" "c \<notin> set ready"
  let ?P = "\<lambda>k. \<not> declared_index b k > declared_index b c"
  have "distinct (takeWhile ?P ready @ dropWhile ?P ready)" using a by simp
  then show ?thesis
    using a unfolding insert_ready_def distinct_append
    by (auto dest: set_takeWhileD set_dropWhileD)
qed

lemma positive_degrees_update:
  "positive_degrees (AList.update c d deg) + (if 0 < degree_of deg c then 1 else 0)
     = positive_degrees deg + (if 0 < d then 1 else 0)"
  by (induction deg) (auto simp: positive_degrees_def degree_of_def)

lemma relax_measure:
  "relax b cs deg ready = (deg', ready') \<Longrightarrow>
   positive_degrees deg' + length ready' \<le> positive_degrees deg + length ready"
proof (induction cs arbitrary: deg ready)
  case (Cons c cs)
  let ?d = "degree_of deg c - 1"
  let ?deg = "AList.update c ?d deg"
  let ?ready = "if ?d = 0 then insert_ready b c ready else ready"
  have "positive_degrees deg' + length ready' \<le> positive_degrees ?deg + length ?ready"
    using Cons.IH [of ?deg ?ready] Cons.prems by (simp add: Let_def)
  also have "\<dots> \<le> positive_degrees deg + length ready"
    using positive_degrees_update [of c ?d deg]
    by (cases "degree_of deg c = 1") (auto split: if_splits)
  finally show ?case .
qed simp

function topological_loop ::
    "workflow_blueprint \<Rightarrow> string list \<Rightarrow> (string \<times> int) list \<Rightarrow> string list \<Rightarrow>
     string list \<times> (string \<times> int) list" where
  "topological_loop b [] deg order = (order, deg)"
| "topological_loop b (current # ready) deg order =
     (case relax b (children_of b current) deg ready of
        (deg', ready') \<Rightarrow> topological_loop b ready' deg' (order @ [current]))"
  by pat_completeness auto
termination
proof (relation "measure (\<lambda>(b, ready, deg, order). positive_degrees deg + length ready)")
  fix b current ready deg order deg' ready'
  assume "(deg', ready') = relax b (children_of b current) deg ready"
  then show "((b, ready', deg', order @ [current]), b, current # ready, deg, order)
      \<in> measure (\<lambda>(b, ready, deg, order). positive_degrees deg + length ready)"
    using relax_measure [of b "children_of b current" deg ready deg' ready'] by simp
qed simp

definition initial_ready :: "workflow_blueprint \<Rightarrow> (string \<times> int) list \<Rightarrow> string list" where
  "initial_ready b deg = sort_key (declared_index b) (map fst (filter (\<lambda>(k, d). d = 0) deg))"

definition topological :: "workflow_blueprint \<Rightarrow> exn + string list" where
  "topological b =
     and_then (fold_err count_requirements (wb_nodes b) (initial_degrees b)) (\<lambda>deg.
       case topological_loop b (initial_ready b deg) deg [] of (order, deg') \<Rightarrow>
         if length order \<noteq> length (wb_nodes b)
         then Inl (GraphCycleError (map fst (filter (\<lambda>(k, d). 0 < d) deg')))
         else Inr order)"

section \<open>Ready nodes\<close>

definition node_completed_in :: "runtime_session \<Rightarrow> string \<Rightarrow> bool" where
  "node_completed_in s k =
     (case session_node s k of None \<Rightarrow> False | Some n \<Rightarrow> ns_status n = Node_COMPLETED)"

fun ready_among :: "workflow_blueprint \<Rightarrow> runtime_session \<Rightarrow> string list \<Rightarrow> exn + string list" where
  "ready_among b s [] = Inr []"
| "ready_among b s (key # keys) =
     (if (case session_node s key of None \<Rightarrow> True | Some n \<Rightarrow> ns_status n \<noteq> Node_QUEUED)
      then ready_among b s keys
      else and_then (node_spec b key) (\<lambda>spec.
           and_then (ready_among b s keys) (\<lambda>ready.
             Inr (if list_all (node_completed_in s) (wn_requires spec) then key # ready else ready))))"

text \<open>\<^verbatim>\<open>WorkflowGraph(blueprint).ready_nodes(session)\<close>; the constructor computes the order.\<close>

definition ready_nodes :: "workflow_blueprint \<Rightarrow> runtime_session \<Rightarrow> exn + string list" where
  "ready_nodes b s = and_then (topological b) (ready_among b s)"

section \<open>Degrees\<close>

definition requires_of :: "workflow_blueprint \<Rightarrow> string \<Rightarrow> string list" where
  "requires_of b k = concat (map wn_requires (filter (\<lambda>n. wn_key n = k) (wb_nodes b)))"

lemma degree_of_update [simp]:
  "degree_of (AList.update k d deg) j = (if j = k then d else degree_of deg j)"
  by (simp add: degree_of_def)

lemma fold_update_keys:
  "dom (map_of (fold (\<lambda>n deg. AList.update (wn_key n) (0::int) deg) ns deg)) =
     wn_key ` set ns \<union> dom (map_of deg)"
  by (induction ns arbitrary: deg) auto

lemma fold_update_distinct:
  "distinct (map fst deg) \<Longrightarrow>
   distinct (map fst (fold (\<lambda>n deg. AList.update (wn_key n) (0::int) deg) ns deg))"
  by (induction ns arbitrary: deg) (auto simp: distinct_update)

lemma fold_update_zero:
  "(\<And>j. degree_of deg j = 0) \<Longrightarrow>
   degree_of (fold (\<lambda>n deg. AList.update (wn_key n) 0 deg) ns deg) k = 0"
  by (induction ns arbitrary: deg) auto

lemma initial_degrees_facts:
  "dom (map_of (initial_degrees b)) = set (blueprint_keys b)"
  "distinct (map fst (initial_degrees b))" "degree_of (initial_degrees b) k = 0"
  using fold_update_zero [of "[]" "wb_nodes b" k]
  by (simp_all add: initial_degrees_def fold_update_keys blueprint_keys_def fold_update_distinct
      degree_of_def [of "[]"])

lemma count_requirements_Inr:
  assumes "count_requirements n deg = Inr deg'" "wn_key n \<in> dom (map_of deg)"
    "distinct (map fst deg)"
  shows "dom (map_of deg') = dom (map_of deg)" "distinct (map fst deg')"
    "set (wn_requires n) \<subseteq> dom (map_of deg)"
    "degree_of deg' k = degree_of deg k + (if k = wn_key n then int (length (wn_requires n)) else 0)"
proof -
  have "fold_err (count_requirement (wn_key n)) rs deg = Inr deg' \<Longrightarrow> wn_key n \<in> dom (map_of deg) \<Longrightarrow>
      distinct (map fst deg) \<Longrightarrow>
      dom (map_of deg') = dom (map_of deg) \<and> distinct (map fst deg') \<and> set rs \<subseteq> dom (map_of deg) \<and>
      degree_of deg' k = degree_of deg k + (if k = wn_key n then int (length rs) else 0)" for rs deg
  proof (induction rs arbitrary: deg)
    case (Cons r rs)
    let ?deg = "AList.update (wn_key n) (degree_of deg (wn_key n) + 1) deg"
    obtain deg1 where c: "count_requirement (wn_key n) r deg = Inr deg1"
      and f1: "fold_err (count_requirement (wn_key n)) rs deg1 = Inr deg'"
      using Cons.prems(1) by auto
    have r: "r \<in> dom (map_of deg)" and "deg1 = ?deg"
      using c by (auto simp: count_requirement_def split: if_splits)
    with f1 have f: "fold_err (count_requirement (wn_key n)) rs ?deg = Inr deg'" by simp
    have d: "dom (map_of ?deg) = dom (map_of deg)" using Cons.prems(2) by auto
    have ih: "dom (map_of deg') = dom (map_of ?deg) \<and> distinct (map fst deg') \<and>
        set rs \<subseteq> dom (map_of ?deg) \<and>
        degree_of deg' k = degree_of ?deg k + (if k = wn_key n then int (length rs) else 0)"
      using Cons.prems(2,3) by (intro Cons.IH [OF f]) (auto simp: distinct_update)
    show ?case
      using ih r unfolding d by auto
  qed simp
  from this [of "wn_requires n" deg] assms show "dom (map_of deg') = dom (map_of deg)"
    "distinct (map fst deg')" "set (wn_requires n) \<subseteq> dom (map_of deg)"
    "degree_of deg' k = degree_of deg k + (if k = wn_key n then int (length (wn_requires n)) else 0)"
    by (simp_all add: count_requirements_def)
qed

lemma count_all_Inr:
  assumes "fold_err count_requirements ns deg = Inr deg'" "wn_key ` set ns \<subseteq> dom (map_of deg)"
    "distinct (map fst deg)"
  shows "dom (map_of deg') = dom (map_of deg) \<and> distinct (map fst deg') \<and>
    (\<forall>n \<in> set ns. set (wn_requires n) \<subseteq> dom (map_of deg)) \<and>
    degree_of deg' k = degree_of deg k +
      int (length (concat (map wn_requires (filter (\<lambda>n. wn_key n = k) ns))))"
  using assms
proof (induction ns arbitrary: deg)
  case (Cons n ns)
  obtain deg1 where c: "count_requirements n deg = Inr deg1"
    and f: "fold_err count_requirements ns deg1 = Inr deg'"
    using Cons.prems(1) by auto
  have "wn_key n \<in> dom (map_of deg)" using Cons.prems(2) by auto
  note d = count_requirements_Inr [OF c this Cons.prems(3)]
  have "dom (map_of deg') = dom (map_of deg1) \<and> distinct (map fst deg') \<and>
    (\<forall>n \<in> set ns. set (wn_requires n) \<subseteq> dom (map_of deg1)) \<and>
    degree_of deg' k = degree_of deg1 k +
      int (length (concat (map wn_requires (filter (\<lambda>n. wn_key n = k) ns))))"
    using Cons.prems(2) d by (intro Cons.IH [OF f]) auto
  with d show ?case by auto
qed simp

lemma counted_degrees:
  assumes "fold_err count_requirements (wb_nodes b) (initial_degrees b) = Inr deg"
  shows "dom (map_of deg) = set (blueprint_keys b)" "distinct (map fst deg)"
    "degree_of deg k = int (length (requires_of b k))"
    "k \<in> set (blueprint_keys b) \<Longrightarrow> set (requires_of b k) \<subseteq> set (blueprint_keys b)"
proof -
  note i = initial_degrees_facts [of b]
  have "wn_key ` set (wb_nodes b) \<subseteq> dom (map_of (initial_degrees b))"
    by (simp add: i blueprint_keys_def)
  note c = count_all_Inr [OF assms this i(2)]
  show "dom (map_of deg) = set (blueprint_keys b)" "distinct (map fst deg)"
    "degree_of deg k = int (length (requires_of b k))"
    using c [of k] i by (simp_all add: requires_of_def)
  show "set (requires_of b k) \<subseteq> set (blueprint_keys b)"
    using c [of k] i(1) by (auto simp: requires_of_def)
qed

section \<open>The loop\<close>

lemma count_children:
  "distinct (blueprint_keys b) \<Longrightarrow> k \<in> set (blueprint_keys b) \<Longrightarrow>
   length (filter ((=) k) (children_of b c)) = length (filter ((=) c) (requires_of b k))"
proof -
  have "distinct (map wn_key ns) \<Longrightarrow>
    length (filter ((=) k) (concat (map (\<lambda>n. map (\<lambda>_. wn_key n) (filter (\<lambda>r. r = c) (wn_requires n))) ns)))
    = length (filter ((=) c) (concat (map wn_requires (filter (\<lambda>n. wn_key n = k) ns))))" for ns
  proof (induction ns)
    case (Cons n ns)
    have e: "filter ((=) c) rs = filter (\<lambda>r. r = c) rs" for rs :: "string list"
      by (rule filter_cong) auto
    show ?case
    proof (cases "wn_key n = k")
      case True
      have "filter (\<lambda>n. wn_key n = k) ns = []"
        using Cons.prems True by (simp add: filter_empty_conv) (metis imageI)
      with Cons True show ?thesis by (simp add: e filter_map comp_def)
    next
      case False
      with Cons show ?thesis by (simp add: filter_map comp_def)
    qed
  qed simp
  then show "distinct (blueprint_keys b) \<Longrightarrow> ?thesis"
    by (simp add: children_of_def requires_of_def blueprint_keys_def)
qed

lemma degree_leaves_positive:
  fixes d n :: int
  assumes "c \<longleftrightarrow> 0 < n" "0 \<le> n"
  shows "(r \<or> d - 1 = 0) \<or> (c \<and> 0 < d - 1 \<and> d - 1 - n \<le> 0) \<longleftrightarrow> r \<or> (0 < d \<and> d - 1 - n \<le> 0)"
  using assms by (cases r; cases c) (simp_all, arith+)

lemma relax_Inr:
  assumes "relax b cs deg ready = (deg', ready')"
    and "distinct ready" "\<forall>k \<in> set ready. degree_of deg k \<le> 0"
  shows "degree_of deg' k = degree_of deg k - int (length (filter ((=) k) cs))"
    "set ready' = set ready \<union> {k \<in> set cs. 0 < degree_of deg k \<and> degree_of deg' k \<le> 0}"
    "distinct ready'" "\<forall>k \<in> set ready'. degree_of deg' k \<le> 0"
    "dom (map_of deg') = dom (map_of deg) \<union> set cs"
proof -
  have "(\<forall>k. degree_of deg' k = degree_of deg k - int (length (filter ((=) k) cs))) \<and>
    set ready' = set ready \<union> {k \<in> set cs. 0 < degree_of deg k \<and> degree_of deg' k \<le> 0} \<and>
    distinct ready' \<and> (\<forall>k \<in> set ready'. degree_of deg' k \<le> 0) \<and>
    dom (map_of deg') = dom (map_of deg) \<union> set cs"
    using assms
  proof (induction cs arbitrary: deg ready)
    case Nil
    then show ?case by auto
  next
    case (Cons c cs)
    let ?d = "degree_of deg c - 1"
    let ?deg = "AList.update c ?d deg"
    let ?ready = "if ?d = 0 then insert_ready b c ready else ready"
    have r: "relax b cs ?deg ?ready = (deg', ready')"
      using Cons.prems(1) by (simp add: Let_def)
    have dr: "distinct ?ready"
      using Cons.prems(2,3) by (auto intro!: distinct_insert_ready)
    have le: "\<forall>k \<in> set ?ready. degree_of ?deg k \<le> 0"
      using Cons.prems(3) by (auto split: if_splits)
    note ih = Cons.IH [OF r dr le]
    have deg: "\<forall>k. degree_of deg' k = degree_of deg k - int (length (filter ((=) k) (c # cs)))"
      using ih by auto
    have ne: "c \<notin> set cs \<Longrightarrow> filter ((=) c) cs = []"
      by (auto simp: filter_empty_conv)
    have "set ready' = set ready \<union> {k \<in> set (c # cs). 0 < degree_of deg k \<and> degree_of deg' k \<le> 0}"
    proof -
      have "set ready' = set ?ready \<union> {k \<in> set cs. 0 < degree_of ?deg k \<and> degree_of deg' k \<le> 0}"
        using ih by blast
      also have "\<dots> = set ready \<union> {k \<in> set (c # cs). 0 < degree_of deg k \<and> degree_of deg' k \<le> 0}"
      proof (rule set_eqI)
        fix x
        have dc: "degree_of deg' c = degree_of deg c - 1 - int (length (filter ((=) c) cs))"
          using ih by simp
        show "x \<in> set ?ready \<union> {k \<in> set cs. 0 < degree_of ?deg k \<and> degree_of deg' k \<le> 0} \<longleftrightarrow>
          x \<in> set ready \<union> {k \<in> set (c # cs). 0 < degree_of deg k \<and> degree_of deg' k \<le> 0}"
        proof (cases "x = c")
          case False
          then show ?thesis by simp
        next
          case True
          have m: "c \<in> set cs \<longleftrightarrow> (0::int) < int (length (filter ((=) c) cs))"
            by (auto simp: filter_empty_conv)
          have z: "c \<in> set ?ready \<longleftrightarrow> c \<in> set ready \<or> degree_of deg c - 1 = 0"
            by simp
          have l: "x \<in> set ?ready \<union> {k \<in> set cs. 0 < degree_of ?deg k \<and> degree_of deg' k \<le> 0} \<longleftrightarrow>
              (c \<in> set ready \<or> degree_of deg c - 1 = 0) \<or>
              (c \<in> set cs \<and> 0 < degree_of deg c - 1 \<and> degree_of deg' c \<le> 0)"
            unfolding True Un_iff z mem_Collect_eq degree_of_update by simp
          have r: "x \<in> set ready \<union> {k \<in> set (c # cs). 0 < degree_of deg k \<and> degree_of deg' k \<le> 0} \<longleftrightarrow>
              c \<in> set ready \<or> (0 < degree_of deg c \<and> degree_of deg' c \<le> 0)"
            unfolding True by simp
          show ?thesis
            unfolding l r dc by (rule degree_leaves_positive [OF m]) simp
        qed
      qed
      finally show ?thesis .
    qed
    moreover have "dom (map_of deg') = dom (map_of deg) \<union> set (c # cs)"
    proof -
      have "dom (map_of deg') = dom (map_of ?deg) \<union> set cs" using ih by blast
      then show ?thesis by auto
    qed
    ultimately show ?case using deg ih by blast
  qed
  then show "degree_of deg' k = degree_of deg k - int (length (filter ((=) k) cs))"
    "set ready' = set ready \<union> {k \<in> set cs. 0 < degree_of deg k \<and> degree_of deg' k \<le> 0}"
    "distinct ready'" "\<forall>k \<in> set ready'. degree_of deg' k \<le> 0"
    "dom (map_of deg') = dom (map_of deg) \<union> set cs"
    by blast+
qed

text \<open>
  The invariant: the degree of a key counts its requirements that are not in the order yet, and
  the keys of degree zero are those that are in the order or ready.
\<close>

definition topo_inv ::
    "workflow_blueprint \<Rightarrow> string list \<Rightarrow> (string \<times> int) list \<Rightarrow> string list \<Rightarrow> bool" where
  "topo_inv b ready deg order \<longleftrightarrow>
     distinct (order @ ready) \<and> set (order @ ready) \<subseteq> set (blueprint_keys b) \<and>
     (\<forall>k \<in> set (blueprint_keys b).
        degree_of deg k = int (length (filter (\<lambda>r. r \<notin> set order) (requires_of b k))) \<and>
        (degree_of deg k = 0 \<longleftrightarrow> k \<in> set (order @ ready))) \<and>
     (\<forall>i < length order. set (requires_of b (order ! i)) \<subseteq> set (take i order))"

lemma topo_inv_step:
  assumes inv: "topo_inv b (c # ready) deg order" and dk: "distinct (blueprint_keys b)"
    and r: "relax b (children_of b c) deg ready = (deg', ready')"
  shows "topo_inv b ready' deg' (order @ [c])"
proof -
  let ?K = "set (blueprint_keys b)"
  have d: "distinct (order @ c # ready)" and sub: "set (order @ c # ready) \<subseteq> ?K"
    and deg: "\<And>k. k \<in> ?K \<Longrightarrow> degree_of deg k = int (length (filter (\<lambda>r. r \<notin> set order) (requires_of b k)))"
    and zero: "\<And>k. k \<in> ?K \<Longrightarrow> degree_of deg k = 0 \<longleftrightarrow> k \<in> set (order @ c # ready)"
    and ord: "\<forall>i < length order. set (requires_of b (order ! i)) \<subseteq> set (take i order)"
    using inv unfolding topo_inv_def by blast+
  have dr: "distinct ready" using d by simp
  have dz: "\<forall>k \<in> set ready. degree_of deg k \<le> 0"
  proof
    fix k assume "k \<in> set ready"
    with sub have "degree_of deg k = 0" by (subst zero) auto
    then show "degree_of deg k \<le> 0" by simp
  qed
  note x = relax_Inr [OF r dr dz]
  have c: "c \<in> ?K" "c \<notin> set order" using sub d by auto
  have deg': "degree_of deg' k = int (length (filter (\<lambda>r. r \<notin> set (order @ [c])) (requires_of b k)))"
    if k: "k \<in> ?K" for k
  proof -
    have "length (filter (\<lambda>r. r \<notin> set order) rs) =
        length (filter (\<lambda>r. r \<notin> set (order @ [c])) rs) + length (filter ((=) c) rs)" for rs
      using c(2) by (induction rs) auto
    then show ?thesis
      using x(1) [of k] deg [OF k] count_children [OF dk k, of c] by simp
  qed
  have m: "x \<in> set xs \<longleftrightarrow> 0 < length (filter ((=) x) xs)" for x :: string and xs
    by (auto simp: filter_empty_conv)
  have zero': "degree_of deg' k = 0 \<longleftrightarrow> k \<in> set ((order @ [c]) @ ready')" if k: "k \<in> ?K" for k
  proof -
    have nn: "0 \<le> degree_of deg k" "0 \<le> degree_of deg' k" "degree_of deg' k \<le> degree_of deg k"
      using deg [OF k] deg' [OF k] x(1) [of k] by simp_all
    have "degree_of deg' k = 0 \<longleftrightarrow> degree_of deg k = 0 \<or> (0 < degree_of deg k \<and> degree_of deg' k \<le> 0)"
      using nn by auto
    moreover have "0 < degree_of deg k \<Longrightarrow> degree_of deg' k \<le> 0 \<Longrightarrow> k \<in> set (children_of b c)"
      using x(1) [of k] by (subst m) linarith
    ultimately show ?thesis
      using zero [OF k] x(2) by auto
  qed
  have sub': "set ((order @ [c]) @ ready') \<subseteq> ?K"
    using sub x(2) children_keys [of b c] by auto
  have dist': "distinct ((order @ [c]) @ ready')"
  proof -
    have "k \<notin> set (order @ [c])" if "k \<in> set ready'" for k
    proof
      assume k: "k \<in> set (order @ [c])"
      then have "degree_of deg k = 0" using zero [of k] sub by auto
      with that x(2) have "k \<in> set ready" by auto
      with k d show False by auto
    qed
    then show ?thesis using d x(3) by auto
  qed
  have "set (requires_of b c) \<subseteq> set order"
  proof -
    have "degree_of deg c = 0" using zero [OF c(1)] by simp
    then show ?thesis using deg [OF c(1)] by (auto simp: filter_empty_conv)
  qed
  then have "\<forall>i < length (order @ [c]). set (requires_of b ((order @ [c]) ! i)) \<subseteq> set (take i (order @ [c]))"
    using ord by (auto simp: nth_append less_Suc_eq)
  with dist' sub' deg' zero' show ?thesis
    unfolding topo_inv_def by blast
qed

lemma topological_loop_inv:
  assumes "topo_inv b ready deg order" "distinct (blueprint_keys b)"
    "topological_loop b ready deg order = (order', deg')"
  shows "topo_inv b [] deg' order'"
  using assms
proof (induction b ready deg order rule: topological_loop.induct)
  case (1 b deg order)
  then show ?case by simp
next
  case (2 b c ready deg order)
  obtain deg1 ready1 where r: "relax b (children_of b c) deg ready = (deg1, ready1)" by force
  show ?case
    using "2.IH" [OF r [symmetric] topo_inv_step [OF "2.prems"(1,2) r] "2.prems"(2)] "2.prems"(3) r
    by simp
qed

lemma topo_inv_initial:
  assumes "fold_err count_requirements (wb_nodes b) (initial_degrees b) = Inr deg"
  shows "topo_inv b (initial_ready b deg) deg []"
proof -
  note c = counted_degrees [OF assms]
  have "set (initial_ready b deg) = {k \<in> set (blueprint_keys b). degree_of deg k = 0}"
  proof (intro equalityI subsetI)
    fix k assume "k \<in> set (initial_ready b deg)"
    then have "(k, 0) \<in> set deg" by (auto simp: initial_ready_def)
    then have "map_of deg k = Some 0" using c(2) by (simp add: map_of_is_SomeI)
    then show "k \<in> {k \<in> set (blueprint_keys b). degree_of deg k = 0}"
      using c(1) by (auto simp: degree_of_def)
  next
    fix k assume k: "k \<in> {k \<in> set (blueprint_keys b). degree_of deg k = 0}"
    then have "map_of deg k = Some 0" using c(1) by (auto simp: degree_of_def split: option.splits)
    then have "(k, 0) \<in> set deg" by (rule map_of_SomeD)
    then show "k \<in> set (initial_ready b deg)" by (force simp: initial_ready_def)
  qed
  moreover have "distinct (initial_ready b deg)"
    unfolding initial_ready_def distinct_sort using c(2) by (rule distinct_map_filter)
  ultimately show ?thesis
    using c(3) by (auto simp: topo_inv_def)
qed

section \<open>What the order is\<close>

lemma topological_sound:
  assumes "topological b = Inr order" "distinct (blueprint_keys b)"
  shows "distinct order" "set order = set (blueprint_keys b)"
    "i < length order \<Longrightarrow> set (requires_of b (order ! i)) \<subseteq> set (take i order)"
proof -
  obtain deg where f: "fold_err count_requirements (wb_nodes b) (initial_degrees b) = Inr deg"
    using assms(1) by (auto simp: topological_def)
  obtain order1 deg' where l1: "topological_loop b (initial_ready b deg) deg [] = (order1, deg')"
    by force
  then have l: "topological_loop b (initial_ready b deg) deg [] = (order, deg')"
    and n: "length order = length (wb_nodes b)"
    using assms(1) f by (auto simp: topological_def split: if_splits)
  have inv: "topo_inv b [] deg' order"
    by (rule topological_loop_inv [OF topo_inv_initial [OF f] assms(2) l])
  then show d: "distinct order" and "i < length order \<Longrightarrow> set (requires_of b (order ! i)) \<subseteq> set (take i order)"
    by (auto simp: topo_inv_def)
  have "set order \<subseteq> set (blueprint_keys b)" using inv by (simp add: topo_inv_def)
  moreover have "card (set order) = card (set (blueprint_keys b))"
    using d n distinct_card [OF assms(2)] by (simp add: distinct_card blueprint_keys_def)
  ultimately show "set order = set (blueprint_keys b)"
    by (simp add: card_subset_eq)
qed

definition requires_rel :: "workflow_blueprint \<Rightarrow> (string \<times> string) set" where
  "requires_rel b = {(r, k). k \<in> set (blueprint_keys b) \<and> r \<in> set (requires_of b k)}"

lemma topological_acyclic:
  assumes "topological b = Inr order" "distinct (blueprint_keys b)"
  shows "acyclic (requires_rel b)"
proof -
  note t = topological_sound [OF assms]
  let ?ix = "\<lambda>k. length (takeWhile (\<lambda>x. x \<noteq> k) order)"
  have ix: "?ix (order ! i) = i" if "i < length order" for i
  proof -
    have "takeWhile (\<lambda>x. x \<noteq> order ! i) order = take i order"
      using that t(1) by (intro takeWhile_eq_take_P_nth) (auto simp: nth_eq_iff_index_eq)
    then show ?thesis using that by simp
  qed
  have "requires_rel b \<subseteq> measure ?ix"
  proof
    fix p assume "p \<in> requires_rel b"
    then obtain r k where p: "p = (r, k)" "k \<in> set order" "r \<in> set (requires_of b k)"
      using t(2) by (auto simp: requires_rel_def)
    then obtain i where i: "i < length order" "order ! i = k" by (auto simp: in_set_conv_nth)
    then have "r \<in> set (take i order)" using t(3) p(3) by blast
    then obtain j where "j < i" "order ! j = r" using i(1) by (auto simp: in_set_conv_nth)
    then show "p \<in> measure ?ix" using i ix p(1) by auto
  qed
  then show ?thesis by (intro wf_acyclic wf_subset [OF wf_measure])
qed

lemma topological_complete:
  assumes "acyclic (requires_rel b)" "distinct (blueprint_keys b)"
    and "fold_err count_requirements (wb_nodes b) (initial_degrees b) = Inr deg"
  shows "\<exists>order. topological b = Inr order"
proof -
  let ?K = "set (blueprint_keys b)"
  note c = counted_degrees [OF assms(3)]
  obtain order deg' where l: "topological_loop b (initial_ready b deg) deg [] = (order, deg')" by force
  have inv: "topo_inv b [] deg' order"
    by (rule topological_loop_inv [OF topo_inv_initial [OF assms(3)] assms(2) l])
  have "?K \<subseteq> set order"
  proof (rule ccontr)
    assume "\<not> ?K \<subseteq> set order"
    then obtain k0 where k0: "k0 \<in> ?K - set order" by blast
    have "requires_rel b \<subseteq> ?K \<times> ?K" using c(4) by (auto simp: requires_rel_def)
    then have "wf (requires_rel b)"
      using assms(1) by (intro finite_acyclic_wf) (auto intro: finite_subset)
    then obtain z where z: "z \<in> ?K - set order" "\<And>y. (y, z) \<in> requires_rel b \<Longrightarrow> y \<notin> ?K - set order"
      using k0 by (rule wfE_min) blast
    have "degree_of deg' z \<noteq> 0" using inv z(1) by (auto simp: topo_inv_def)
    then have "filter (\<lambda>r. r \<notin> set order) (requires_of b z) \<noteq> []"
      using inv z(1) by (auto simp: topo_inv_def)
    then obtain r where "r \<in> set (requires_of b z)" "r \<notin> set order"
      by (auto simp: filter_empty_conv)
    then show False using z c(4) [of z] by (auto simp: requires_rel_def)
  qed
  then have "set order = ?K" using inv by (auto simp: topo_inv_def)
  then have "length order = length (wb_nodes b)"
    using inv distinct_card [OF assms(2)] distinct_card [of order]
    by (simp add: topo_inv_def blueprint_keys_def)
  then show ?thesis by (simp add: topological_def assms(3) l)
qed

text \<open>The counting loop succeeds when every requirement is a node of the blueprint.\<close>

lemma count_requirements_total:
  assumes "wn_key n \<in> dom (map_of deg)" "set (wn_requires n) \<subseteq> dom (map_of deg)"
  shows "\<exists>deg'. count_requirements n deg = Inr deg'"
proof -
  have "key \<in> dom (map_of deg) \<Longrightarrow> set rs \<subseteq> dom (map_of deg) \<Longrightarrow>
      \<exists>deg'. fold_err (count_requirement key) rs deg = Inr deg'" for key rs deg
  proof (induction rs arbitrary: deg)
    case (Cons r rs)
    let ?deg = "AList.update key (degree_of deg key + 1) deg"
    have d: "dom (map_of ?deg) = dom (map_of deg)" using Cons.prems(1) by auto
    have "set rs \<subseteq> dom (map_of deg)" using Cons.prems(2) by simp
    then obtain deg' where "fold_err (count_requirement key) rs ?deg = Inr deg'"
      using Cons.IH [of ?deg] Cons.prems(1) unfolding d by blast
    moreover have "count_requirement key r deg = Inr ?deg"
      using Cons.prems(2) by (auto simp: count_requirement_def)
    ultimately show ?case by (simp add: and_then_def)
  qed simp
  with assms show ?thesis by (simp add: count_requirements_def)
qed

lemma count_all_total:
  assumes "wn_key ` set ns \<subseteq> dom (map_of deg)" "distinct (map fst deg)"
    "\<forall>n \<in> set ns. set (wn_requires n) \<subseteq> dom (map_of deg)"
  shows "\<exists>deg'. fold_err count_requirements ns deg = Inr deg'"
  using assms
proof (induction ns arbitrary: deg)
  case (Cons n ns)
  have k: "wn_key n \<in> dom (map_of deg)" using Cons.prems(1) by auto
  obtain deg1 where c: "count_requirements n deg = Inr deg1"
    using count_requirements_total [OF k] Cons.prems(3) by auto
  note d = count_requirements_Inr [OF c k Cons.prems(2)]
  have "wn_key ` set ns \<subseteq> dom (map_of deg1)" using Cons.prems(1) d(1) by auto
  moreover have "\<forall>n \<in> set ns. set (wn_requires n) \<subseteq> dom (map_of deg1)"
    using Cons.prems(3) d(1) by auto
  ultimately obtain deg' where "fold_err count_requirements ns deg1 = Inr deg'"
    using Cons.IH d(2) by blast
  with c show ?case by (simp add: and_then_def)
qed simp

lemma topological_known:
  assumes "topological b = Inr order"
  shows "\<forall>n \<in> set (wb_nodes b). set (wn_requires n) \<subseteq> set (blueprint_keys b)"
proof -
  obtain deg where f: "fold_err count_requirements (wb_nodes b) (initial_degrees b) = Inr deg"
    using assms by (auto simp: topological_def)
  have "wn_key ` set (wb_nodes b) \<subseteq> dom (map_of (initial_degrees b))"
    by (simp add: initial_degrees_facts blueprint_keys_def)
  from count_all_Inr [OF f this initial_degrees_facts(2)] show ?thesis
    by (auto simp: initial_degrees_facts)
qed

lemma topological_iff:
  assumes "distinct (blueprint_keys b)"
  shows "(\<exists>order. topological b = Inr order) \<longleftrightarrow>
    (\<forall>n \<in> set (wb_nodes b). set (wn_requires n) \<subseteq> set (blueprint_keys b)) \<and> acyclic (requires_rel b)"
proof
  assume "\<exists>order. topological b = Inr order"
  then obtain order where o: "topological b = Inr order" by blast
  note topological_known [OF o]
  with topological_acyclic [OF o assms]
  show "(\<forall>n \<in> set (wb_nodes b). set (wn_requires n) \<subseteq> set (blueprint_keys b)) \<and> acyclic (requires_rel b)"
    by simp
next
  assume r: "(\<forall>n \<in> set (wb_nodes b). set (wn_requires n) \<subseteq> set (blueprint_keys b)) \<and>
    acyclic (requires_rel b)"
  have "wn_key ` set (wb_nodes b) \<subseteq> dom (map_of (initial_degrees b))"
    by (simp add: initial_degrees_facts blueprint_keys_def)
  then obtain deg where "fold_err count_requirements (wb_nodes b) (initial_degrees b) = Inr deg"
    using count_all_total [of "wb_nodes b" "initial_degrees b"] r
    by (auto simp: initial_degrees_facts)
  with topological_complete [OF _ assms] r show "\<exists>order. topological b = Inr order" by blast
qed

section \<open>What is ready\<close>

definition ready_in :: "workflow_blueprint \<Rightarrow> runtime_session \<Rightarrow> string \<Rightarrow> bool" where
  "ready_in b s k \<longleftrightarrow>
     (\<exists>n. session_node s k = Some n \<and> ns_status n = Node_QUEUED) \<and>
     (\<forall>r \<in> set (requires_of b k). node_completed_in s r)"

lemma node_spec_requires:
  assumes "distinct (blueprint_keys b)" "k \<in> set (blueprint_keys b)"
  shows "\<exists>spec. node_spec b k = Inr spec \<and> wn_requires spec = requires_of b k"
proof -
  have "distinct (map wn_key ns) \<Longrightarrow> k \<in> wn_key ` set ns \<Longrightarrow>
    \<exists>n. List.find (\<lambda>n. wn_key n = k) ns = Some n \<and>
        wn_requires n = concat (map wn_requires (filter (\<lambda>n. wn_key n = k) ns))" for ns
  proof (induction ns)
    case (Cons n ns)
    show ?case
    proof (cases "wn_key n = k")
      case True
      then have "filter (\<lambda>n. wn_key n = k) ns = []"
        using Cons.prems(1) by (simp add: filter_empty_conv) (metis imageI)
      with True show ?thesis by simp
    next
      case False
      with Cons show ?thesis by auto
    qed
  qed simp
  from this [of "wb_nodes b"] assms show ?thesis
    by (auto simp: node_spec_def requires_of_def blueprint_keys_def)
qed

lemma ready_among_eq:
  assumes "distinct (blueprint_keys b)" "set keys \<subseteq> set (blueprint_keys b)"
  shows "ready_among b s keys = Inr (filter (ready_in b s) keys)"
  using assms(2)
proof (induction keys)
  case (Cons k keys)
  then obtain spec where sp: "node_spec b k = Inr spec" "wn_requires spec = requires_of b k"
    using node_spec_requires [OF assms(1)] by auto
  have ih: "ready_among b s keys = Inr (filter (ready_in b s) keys)" using Cons by simp
  show ?case
    by (auto simp: ih sp ready_in_def [of b s k] list_all_iff split: option.splits)
qed simp

lemma ready_nodes_eq:
  assumes "topological b = Inr order" "distinct (blueprint_keys b)"
  shows "ready_nodes b s = Inr (filter (ready_in b s) order)"
  using ready_among_eq [OF assms(2)] topological_sound(2) [OF assms] assms(1)
  by (simp add: ready_nodes_def)

text \<open>Progress: work that is only queued or completed never gets stuck.\<close>

lemma ready_nodes_progress:
  assumes "topological b = Inr order" "distinct (blueprint_keys b)"
    and all: "\<forall>k \<in> set (blueprint_keys b). \<exists>n. session_node s k = Some n \<and>
      ns_status n \<in> {Node_QUEUED, Node_COMPLETED}"
    and some: "k \<in> set (blueprint_keys b)" "\<not> node_completed_in s k"
  shows "\<exists>k ks. ready_nodes b s = Inr (k # ks)"
proof -
  note t = topological_sound [OF assms(1,2)]
  have "k \<in> set order" using some(1) t(2) by simp
  then obtain i0 where "i0 < length order \<and> \<not> node_completed_in s (order ! i0)"
    using some(2) by (auto simp: in_set_conv_nth)
  then obtain i where i: "i < length order" "\<not> node_completed_in s (order ! i)"
    and least: "\<And>j. j < i \<Longrightarrow> node_completed_in s (order ! j)"
    using exists_least_iff [of "\<lambda>i. i < length order \<and> \<not> node_completed_in s (order ! i)"]
    by (metis dual_order.strict_trans)
  have "\<exists>n. session_node s (order ! i) = Some n \<and> ns_status n = Node_QUEUED"
    using all i t(2) by (force simp: node_completed_in_def)
  moreover have "node_completed_in s r" if "r \<in> set (requires_of b (order ! i))" for r
  proof -
    have "r \<in> set (take i order)" using that t(3) [OF i(1)] by blast
    then show ?thesis using least i(1) by (auto simp: in_set_conv_nth)
  qed
  ultimately have "order ! i \<in> set (filter (ready_in b s) order)"
    using i(1) by (simp add: ready_in_def)
  then show ?thesis
    using ready_nodes_eq [OF assms(1,2), of s] by (cases "filter (ready_in b s) order") auto
qed

end
