(* ===== verification/Queue_In_Memory.thy ===== *)
theory Queue_In_Memory
  imports Hydra_Prelude "HOL-Library.Multiset"
begin

text \<open>
  \<^verbatim>\<open>queue/base.py\<close> and \<^verbatim>\<open>queue/in_memory.py\<close>: the in-process queue with delivery
  handles, visibility timeout and dead letters. An operation runs alone here, as it does between
  two suspension points: it returns, raises, or is \<open>Blocked\<close> until some other task acts. The ids
  that \<^verbatim>\<open>uuid4\<close> returns are a supply in the state. Time is the event loop's clock, in seconds.

  The locale \<open>delivery_queue\<close> is the contract that a worker relies on: what is enqueued stays in
  the queue, in flight or among the dead letters until it is acknowledged or dropped.
\<close>

section \<open>Capabilities\<close>

datatype queue_capability = Cap_ENQUEUE | Cap_DEQUEUE | Cap_ACK | Cap_NACK | Cap_PENDING | Cap_CLOSE

definition POLLABLE_DELIVERY_FEATURES :: "queue_capability set" where
  "POLLABLE_DELIVERY_FEATURES = {Cap_DEQUEUE, Cap_ACK, Cap_NACK}"

definition enqueue_only :: "queue_capability set" where
  "enqueue_only = {Cap_ENQUEUE, Cap_PENDING, Cap_CLOSE}"

definition pollable_delivery :: "queue_capability set" where
  "pollable_delivery = {Cap_ENQUEUE, Cap_DEQUEUE, Cap_ACK, Cap_NACK, Cap_PENDING, Cap_CLOSE}"

definition supports :: "queue_capability set \<Rightarrow> queue_capability list \<Rightarrow> bool" where
  "supports features wanted \<longleftrightarrow> list_all (\<lambda>f. f \<in> features) wanted"

definition supports_pollable_delivery :: "queue_capability set \<Rightarrow> bool" where
  "supports_pollable_delivery features \<longleftrightarrow> POLLABLE_DELIVERY_FEATURES \<subseteq> features"

section \<open>State\<close>

record queue_message =
  qm_session_id :: string
  qm_enqueued_at :: time
  qm_attempt :: nat
  qm_metadata :: pydict
  qm_handle :: string

record in_flight_message =
  im_message :: queue_message
  im_expires_at :: "rat option"

record memory_queue =
  mq_maxsize :: int
  mq_queue :: "queue_message list"
  mq_in_flight :: "(string \<times> in_flight_message) list"
  mq_dead_letters :: "queue_message list"
  mq_visibility_timeout :: "rat option"
  mq_max_delivery_attempts :: "int option"
  mq_closed :: bool
  mq_ids :: "nat \<Rightarrow> string"
  mq_drawn :: nat

datatype 'a outcome = Done 'a | Raised exn | Blocked

definition make_queue ::
    "int \<Rightarrow> rat option \<Rightarrow> int option \<Rightarrow> (nat \<Rightarrow> string) \<Rightarrow> exn + memory_queue" where
  "make_queue maxsize visibility max_attempts ids =
     (if (case visibility of None \<Rightarrow> False | Some v \<Rightarrow> v \<le> 0) then Inl ValueError
      else if (case max_attempts of None \<Rightarrow> False | Some n \<Rightarrow> n \<le> 0) then Inl ValueError
      else Inr \<lparr>mq_maxsize = maxsize, mq_queue = [], mq_in_flight = [], mq_dead_letters = [],
                mq_visibility_timeout = visibility, mq_max_delivery_attempts = max_attempts,
                mq_closed = False, mq_ids = ids, mq_drawn = 0\<rparr>)"

definition draw_id :: "memory_queue \<Rightarrow> string \<times> memory_queue" where
  "draw_id q = (''mem-'' @ mq_ids q (mq_drawn q), q\<lparr>mq_drawn := mq_drawn q + 1\<rparr>)"

text \<open>\<^verbatim>\<open>asyncio.Queue.put\<close>: it waits while a bounded queue is full.\<close>

definition queue_put :: "queue_message \<Rightarrow> memory_queue \<Rightarrow> memory_queue option" where
  "queue_put m q =
     (if 0 < mq_maxsize q \<and> mq_maxsize q \<le> int (length (mq_queue q)) then None
      else Some (q\<lparr>mq_queue := mq_queue q @ [m]\<rparr>))"

section \<open>Redelivery\<close>

definition should_dead_letter :: "nat \<Rightarrow> memory_queue \<Rightarrow> bool" where
  "should_dead_letter attempt q \<longleftrightarrow>
     (case mq_max_delivery_attempts q of None \<Rightarrow> False | Some n \<Rightarrow> n \<le> int attempt)"

definition redelivery_metadata :: "queue_message \<Rightarrow> string \<Rightarrow> bool \<Rightarrow> pydict" where
  "redelivery_metadata m reason dead =
     (let next_attempt = qm_attempt m + 1;
          metadata = dict_merge (qm_metadata m)
            [(''last_delivery_reason'', JStr reason),
             (''last_delivery_handle'', JStr (qm_handle m)),
             (''last_delivery_attempt'', JInt (int (qm_attempt m))),
             (''delivery_attempt'', JInt (int next_attempt))]
      in if dead
         then dict_merge metadata
              [(''dead_letter_reason'', JStr ''max_delivery_attempts_exceeded''),
               (''dead_letter_source'', JStr reason),
               (''dead_letter_handle'', JStr (qm_handle m)),
               (''dead_letter_attempt'', JInt (int next_attempt))]
         else metadata)"

definition retry_or_dead_letter ::
    "queue_message \<Rightarrow> string \<Rightarrow> memory_queue \<Rightarrow> memory_queue option" where
  "retry_or_dead_letter m reason q =
     (let next_attempt = qm_attempt m + 1; dead = should_dead_letter next_attempt q
      in case draw_id q of (handle, q1) \<Rightarrow>
           let next_delivery = m\<lparr>qm_attempt := next_attempt, qm_handle := handle,
                                 qm_metadata := redelivery_metadata m reason dead\<rparr>
           in if dead
              then Some (q1\<lparr>mq_dead_letters := mq_dead_letters q1 @ [next_delivery]\<rparr>)
              else queue_put next_delivery q1)"

definition is_expired :: "rat \<Rightarrow> in_flight_message \<Rightarrow> bool" where
  "is_expired now r \<longleftrightarrow> (case im_expires_at r of None \<Rightarrow> False | Some e \<Rightarrow> e \<le> now)"

text \<open>\<^verbatim>\<open>self._in_flight.pop(handle)\<close>\<close>

definition take_out :: "string \<Rightarrow> memory_queue \<Rightarrow> memory_queue" where
  "take_out h q = q\<lparr>mq_in_flight := AList.delete h (mq_in_flight q)\<rparr>"

fun redeliver_all :: "(string \<times> in_flight_message) list \<Rightarrow> memory_queue \<Rightarrow> memory_queue option" where
  "redeliver_all [] q = Some q"
| "redeliver_all ((handle, r) # expired) q =
     (if map_of (mq_in_flight q) handle = None then redeliver_all expired q
      else let q1 = take_out handle q
           in if mq_closed q1 then redeliver_all expired q1
              else case retry_or_dead_letter (im_message r) ''visibility_timeout'' q1 of
                None \<Rightarrow> None
              | Some q2 \<Rightarrow> redeliver_all expired q2)"

definition redeliver_expired :: "rat \<Rightarrow> memory_queue \<Rightarrow> memory_queue option" where
  "redeliver_expired now q =
     (if mq_visibility_timeout q = None then Some q
      else redeliver_all (filter (\<lambda>(h, r). is_expired now r) (mq_in_flight q)) q)"

section \<open>Operations\<close>

definition enqueue ::
    "string \<Rightarrow> pydict option \<Rightarrow> time \<Rightarrow> memory_queue \<Rightarrow> (queue_message \<times> memory_queue) outcome" where
  "enqueue session_id metadata now q =
     (if mq_closed q then Raised RuntimeError
      else case draw_id q of (handle, q1) \<Rightarrow>
        let m = \<lparr>qm_session_id = session_id, qm_enqueued_at = now, qm_attempt = 0,
                 qm_metadata = (case metadata of None \<Rightarrow> [] | Some d \<Rightarrow> d), qm_handle = handle\<rparr>
        in case queue_put m q1 of None \<Rightarrow> Blocked | Some q2 \<Rightarrow> Done (m, q2))"

definition track_in_flight :: "rat \<Rightarrow> queue_message \<Rightarrow> memory_queue \<Rightarrow> memory_queue" where
  "track_in_flight now m q =
     q\<lparr>mq_in_flight := AList.update (qm_handle m)
         \<lparr>im_message = m, im_expires_at = map_option (\<lambda>v. now + v) (mq_visibility_timeout q)\<rparr>
         (mq_in_flight q)\<rparr>"

definition min_of :: "rat list \<Rightarrow> rat option" where
  "min_of xs = (case xs of [] \<Rightarrow> None | x # xs \<Rightarrow> Some (fold min xs x))"

definition next_expiry :: "memory_queue \<Rightarrow> rat option" where
  "next_expiry q = min_of (List.map_filter (\<lambda>(h, r). im_expires_at r) (mq_in_flight q))"

definition dequeue_wait_timeout :: "rat \<Rightarrow> rat option \<Rightarrow> memory_queue \<Rightarrow> rat option" where
  "dequeue_wait_timeout now deadline q =
     min_of ((case deadline of None \<Rightarrow> [] | Some d \<Rightarrow> [max 0 (d - now)]) @
             (case next_expiry q of None \<Rightarrow> [] | Some e \<Rightarrow> [max 0 (e - now)]))"

text \<open>
  The loop of \<^verbatim>\<open>dequeue\<close>, with the successive readings of the clock. While it waits no other
  task puts a message, so a wait with a timeout ends with \<^verbatim>\<open>TimeoutError\<close> and the loop goes
  on; a wait without one blocks. Fuel bounds the turns: running out of it is not returning.
\<close>

fun dequeue_loop ::
    "nat \<Rightarrow> (nat \<Rightarrow> rat) \<Rightarrow> nat \<Rightarrow> rat option \<Rightarrow> memory_queue \<Rightarrow>
     (queue_message option \<times> memory_queue) outcome" where
  "dequeue_loop 0 clock i deadline q = Blocked"
| "dequeue_loop (Suc fuel) clock i deadline q =
     (case redeliver_expired (clock i) q of
        None \<Rightarrow> Blocked
      | Some q1 \<Rightarrow>
          (case mq_queue q1 of
             m # ms \<Rightarrow> Done (Some m, track_in_flight (clock (i + 1)) m (q1\<lparr>mq_queue := ms\<rparr>))
           | [] \<Rightarrow>
               (case dequeue_wait_timeout (clock (i + 1)) deadline q1 of
                  None \<Rightarrow> Blocked
                | Some wait \<Rightarrow>
                    if wait \<le> 0
                    then (case redeliver_expired (clock (i + 2)) q1 of
                            None \<Rightarrow> Blocked
                          | Some q2 \<Rightarrow>
                              if mq_queue q2 = [] then Done (None, q2)
                              else dequeue_loop fuel clock (i + 3) deadline q2)
                    else dequeue_loop fuel clock (i + 3) deadline q1)))"

definition dequeue ::
    "nat \<Rightarrow> (nat \<Rightarrow> rat) \<Rightarrow> rat option \<Rightarrow> memory_queue \<Rightarrow>
     (queue_message option \<times> memory_queue) outcome" where
  "dequeue fuel clock timeout q =
     (if mq_closed q then Raised RuntimeError
      else dequeue_loop fuel clock 1 (map_option (\<lambda>t. clock 0 + t) timeout) q)"

definition ack :: "queue_message \<Rightarrow> memory_queue \<Rightarrow> memory_queue" where
  "ack m q = take_out (qm_handle m) q"

definition nack :: "queue_message \<Rightarrow> bool \<Rightarrow> memory_queue \<Rightarrow> memory_queue outcome" where
  "nack m retry q =
     (if map_of (mq_in_flight q) (qm_handle m) = None then Done q
      else let q1 = take_out (qm_handle m) q
           in if retry \<and> \<not> mq_closed q1
              then (case retry_or_dead_letter m ''nack'' q1 of None \<Rightarrow> Blocked | Some q2 \<Rightarrow> Done q2)
              else Done q1)"

definition pending :: "rat \<Rightarrow> memory_queue \<Rightarrow> (nat \<times> memory_queue) outcome" where
  "pending now q = (case redeliver_expired now q of None \<Rightarrow> Blocked
     | Some q1 \<Rightarrow> Done (length (mq_queue q1), q1))"

definition in_flight :: "rat \<Rightarrow> memory_queue \<Rightarrow> (nat \<times> memory_queue) outcome" where
  "in_flight now q = (case redeliver_expired now q of None \<Rightarrow> Blocked
     | Some q1 \<Rightarrow> Done (length (mq_in_flight q1), q1))"

definition dead_letters :: "rat \<Rightarrow> memory_queue \<Rightarrow> (queue_message list \<times> memory_queue) outcome" where
  "dead_letters now q = (case redeliver_expired now q of None \<Rightarrow> Blocked
     | Some q1 \<Rightarrow> Done (mq_dead_letters q1, q1))"

definition close :: "memory_queue \<Rightarrow> memory_queue" where
  "close q = q\<lparr>mq_closed := True\<rparr>"

section \<open>The invariant\<close>

text \<open>The sessions that the queue is responsible for, with multiplicity.\<close>

definition held :: "memory_queue \<Rightarrow> string multiset" where
  "held q = mset (map qm_session_id (mq_queue q)) +
     mset (map (\<lambda>(h, r). qm_session_id (im_message r)) (mq_in_flight q)) +
     mset (map qm_session_id (mq_dead_letters q))"

definition used_handle :: "memory_queue \<Rightarrow> string \<Rightarrow> bool" where
  "used_handle q h \<longleftrightarrow> (\<exists>j < mq_drawn q. h = ''mem-'' @ mq_ids q j)"

definition handles :: "memory_queue \<Rightarrow> string list" where
  "handles q = map qm_handle (mq_queue q) @ map fst (mq_in_flight q)"

definition handles_ok :: "memory_queue \<Rightarrow> bool" where
  "handles_ok q \<longleftrightarrow> inj (mq_ids q) \<and> distinct (handles q) \<and> Ball (set (handles q)) (used_handle q) \<and>
     (\<forall>(h, r) \<in> set (mq_in_flight q). qm_handle (im_message r) = h)"

definition below_limit :: "int option \<Rightarrow> queue_message \<Rightarrow> bool" where
  "below_limit limit m \<longleftrightarrow> (case limit of None \<Rightarrow> True | Some n \<Rightarrow> int (qm_attempt m) < n)"

definition attempts_ok :: "memory_queue \<Rightarrow> bool" where
  "attempts_ok q \<longleftrightarrow>
     (case mq_max_delivery_attempts q of None \<Rightarrow> True | Some n \<Rightarrow> 0 < n) \<and>
     list_all (below_limit (mq_max_delivery_attempts q)) (mq_queue q) \<and>
     list_all (\<lambda>(h, r). below_limit (mq_max_delivery_attempts q) (im_message r)) (mq_in_flight q) \<and>
     list_all (\<lambda>m. mq_max_delivery_attempts q = Some (int (qm_attempt m))) (mq_dead_letters q)"

definition queue_wf :: "memory_queue \<Rightarrow> bool" where
  "queue_wf q \<longleftrightarrow> handles_ok q \<and> attempts_ok q"

definition same_config :: "memory_queue \<Rightarrow> memory_queue \<Rightarrow> bool" where
  "same_config q q' \<longleftrightarrow>
     mq_maxsize q' = mq_maxsize q \<and> mq_visibility_timeout q' = mq_visibility_timeout q \<and>
     mq_max_delivery_attempts q' = mq_max_delivery_attempts q \<and> mq_ids q' = mq_ids q \<and>
     mq_closed q' = mq_closed q \<and> mq_drawn q \<le> mq_drawn q'"

lemma same_config_refl [simp]: "same_config q q"
  by (simp add: same_config_def)

lemma same_config_trans: "same_config a b \<Longrightarrow> same_config b c \<Longrightarrow> same_config a c"
  by (simp add: same_config_def)

lemma fresh_not_used: "inj (mq_ids q) \<Longrightarrow> \<not> used_handle q (''mem-'' @ mq_ids q (mq_drawn q))"
  by (auto simp: used_handle_def dest: injD)

lemma should_dead_letter_iff:
  "should_dead_letter (qm_attempt m) q \<longleftrightarrow> \<not> below_limit (mq_max_delivery_attempts q) m"
  by (simp add: should_dead_letter_def below_limit_def not_less split: option.split)

lemma set_delete_subset: "set (AList.delete h xs) \<subseteq> set xs"
  by (induction xs) auto

lemma delete_distinct:
  "distinct (map fst xs) \<Longrightarrow> map_of xs h = Some r \<Longrightarrow>
   mset xs = add_mset (h, r) (mset (AList.delete h xs))"
proof (induction xs)
  case (Cons x xs)
  obtain k v where x: "x = (k, v)" by force
  show ?case
  proof (cases "k = h")
    case True
    then have "AList.delete h xs = xs"
      using Cons.prems(1) x by (intro delete_id) force
    with True Cons.prems x show ?thesis by simp
  next
    case False
    with Cons x show ?thesis by simp
  qed
qed simp

text \<open>Taking a message out of flight keeps the invariant; its session leaves the held ones.\<close>

lemma take_out_handles:
  assumes "handles_ok q"
  shows "handles_ok (take_out h q)"
proof -
  have i: "inj (mq_ids q)" and d: "distinct (handles q)"
    and u: "\<And>x. x \<in> set (handles q) \<Longrightarrow> used_handle q x"
    and k: "\<And>x r. (x, r) \<in> set (mq_in_flight q) \<Longrightarrow> qm_handle (im_message r) = x"
    using assms by (auto simp: handles_ok_def)
  have sub: "set (AList.delete h (mq_in_flight q)) \<subseteq> set (mq_in_flight q)"
    by (rule set_delete_subset)
  have fsub: "set (map fst (AList.delete h (mq_in_flight q))) \<subseteq> set (map fst (mq_in_flight q))"
    unfolding set_map using sub by (rule image_mono)
  have "distinct (handles (take_out h q))"
    using d fsub by (auto simp: handles_def take_out_def intro: distinct_delete)
  moreover have "used_handle (take_out h q) x" if "x \<in> set (handles (take_out h q))" for x
  proof -
    have "x \<in> set (handles q)" using that fsub by (auto simp: handles_def take_out_def)
    then have "used_handle q x" by (rule u)
    then show ?thesis by (simp add: used_handle_def take_out_def)
  qed
  moreover have "qm_handle (im_message r) = x" if "(x, r) \<in> set (mq_in_flight (take_out h q))" for x r
    using that sub k by (auto simp: take_out_def)
  moreover have "inj (mq_ids (take_out h q))" using i by (simp add: take_out_def)
  ultimately show ?thesis unfolding handles_ok_def by blast
qed

lemma take_out_attempts: "attempts_ok q \<Longrightarrow> attempts_ok (take_out h q)"
  using set_delete_subset [of h "mq_in_flight q"]
  by (auto simp: attempts_ok_def take_out_def list_all_iff)

lemma take_out_wf [intro]: "queue_wf q \<Longrightarrow> queue_wf (take_out h q)"
  by (simp add: queue_wf_def take_out_handles take_out_attempts)

lemma take_out_config [simp]: "same_config q (take_out h q)"
  by (simp add: same_config_def take_out_def)

lemma in_flight_message:
  assumes "queue_wf q" "map_of (mq_in_flight q) h = Some r"
  shows "below_limit (mq_max_delivery_attempts q) (im_message r)" "qm_handle (im_message r) = h"
    "held q = add_mset (qm_session_id (im_message r)) (held (take_out h q))"
proof -
  have r: "(h, r) \<in> set (mq_in_flight q)" using assms(2) by (rule map_of_SomeD)
  show "below_limit (mq_max_delivery_attempts q) (im_message r)" "qm_handle (im_message r) = h"
    using r assms(1) by (auto simp: queue_wf_def attempts_ok_def handles_ok_def list_all_iff)
  have "distinct (map fst (mq_in_flight q))"
    using assms(1) by (simp add: queue_wf_def handles_ok_def handles_def)
  from delete_distinct [OF this assms(2)]
  show "held q = add_mset (qm_session_id (im_message r)) (held (take_out h q))"
    by (simp add: held_def take_out_def)
qed

text \<open>A message with a handle nobody has used yet joins the queue.\<close>

lemma join_handles:
  assumes "handles_ok q" "qm_handle n = ''mem-'' @ mq_ids q (mq_drawn q)"
  shows "handles_ok (q\<lparr>mq_drawn := mq_drawn q + 1, mq_queue := mq_queue q @ [n]\<rparr>)" (is "handles_ok ?q")
proof -
  have i: "inj (mq_ids q)" and d: "distinct (handles q)"
    and u: "\<And>x. x \<in> set (handles q) \<Longrightarrow> used_handle q x"
    and k: "\<And>x r. (x, r) \<in> set (mq_in_flight q) \<Longrightarrow> qm_handle (im_message r) = x"
    using assms(1) by (auto simp: handles_ok_def)
  have fresh: "qm_handle n \<notin> set (handles q)"
    unfolding assms(2) using u fresh_not_used [OF i] by blast
  have "distinct (handles ?q)" using d fresh by (auto simp: handles_def)
  moreover have "used_handle ?q x" if "x \<in> set (handles ?q)" for x
  proof -
    have "x = qm_handle n \<or> x \<in> set (handles q)" using that by (auto simp: handles_def)
    then show ?thesis
    proof
      assume "x = qm_handle n"
      then show ?thesis using assms(2) unfolding used_handle_def by (intro exI [of _ "mq_drawn q"]) simp
    next
      assume "x \<in> set (handles q)"
      from u [OF this] show ?thesis unfolding used_handle_def by (auto intro: less_SucI)
    qed
  qed
  ultimately show ?thesis using i k unfolding handles_ok_def by auto
qed

lemma drawn_handles:
  assumes "handles_ok q"
  shows "handles_ok (q\<lparr>mq_drawn := mq_drawn q + 1, mq_dead_letters := ds\<rparr>)"
proof -
  have "used_handle (q\<lparr>mq_drawn := mq_drawn q + 1, mq_dead_letters := ds\<rparr>) h"
    if "used_handle q h" for h
    using that unfolding used_handle_def by (auto intro: less_SucI)
  with assms show ?thesis by (auto simp: handles_ok_def handles_def)
qed

text \<open>A retry puts the session back, with the next attempt and a handle nobody has used.\<close>

definition next_delivery :: "queue_message \<Rightarrow> string \<Rightarrow> memory_queue \<Rightarrow> queue_message" where
  "next_delivery m reason q =
     m\<lparr>qm_attempt := qm_attempt m + 1, qm_handle := ''mem-'' @ mq_ids q (mq_drawn q),
       qm_metadata := redelivery_metadata m reason (should_dead_letter (qm_attempt m + 1) q)\<rparr>"

lemma next_delivery_simps [simp]:
  "qm_session_id (next_delivery m reason q) = qm_session_id m"
  "qm_handle (next_delivery m reason q) = ''mem-'' @ mq_ids q (mq_drawn q)"
  "qm_attempt (next_delivery m reason q) = qm_attempt m + 1"
  by (simp_all add: next_delivery_def)

lemma retry_cases:
  assumes "retry_or_dead_letter m reason q = Some q'"
  obtains (dead) "should_dead_letter (qm_attempt m + 1) q"
      "q' = q\<lparr>mq_drawn := mq_drawn q + 1,
              mq_dead_letters := mq_dead_letters q @ [next_delivery m reason q]\<rparr>"
    | (again) "\<not> should_dead_letter (qm_attempt m + 1) q"
      "q' = q\<lparr>mq_drawn := mq_drawn q + 1,
              mq_queue := mq_queue q @ [next_delivery m reason q]\<rparr>"
  using assms
  by (simp add: retry_or_dead_letter_def Let_def draw_id_def queue_put_def next_delivery_def
      split: if_splits)

lemma retry_facts:
  assumes "queue_wf q" "below_limit (mq_max_delivery_attempts q) m"
    "retry_or_dead_letter m reason q = Some q'"
  shows "queue_wf q' \<and> held q' = add_mset (qm_session_id m) (held q) \<and> same_config q q' \<and>
    mq_in_flight q' = mq_in_flight q"
  using assms(3)
proof (cases rule: retry_cases)
  case dead
  have "mq_max_delivery_attempts q = Some (int (qm_attempt m) + 1)"
    using dead(1) assms(2)
    by (auto simp: should_dead_letter_def below_limit_def split: option.splits)
  then have "attempts_ok q'" using assms(1) dead(2)
    by (simp add: queue_wf_def attempts_ok_def add.commute)
  moreover have "handles_ok q'"
    unfolding dead(2) using assms(1) by (intro drawn_handles) (simp add: queue_wf_def)
  moreover have "held q' = add_mset (qm_session_id m) (held q)"
    by (simp add: held_def dead(2))
  ultimately show ?thesis by (simp add: queue_wf_def same_config_def dead(2))
next
  case again
  have "attempts_ok q'"
    using assms(1) again should_dead_letter_iff [of "next_delivery m reason q" q]
    by (simp add: queue_wf_def attempts_ok_def)
  moreover have "handles_ok q'"
    unfolding again(2) using assms(1) by (intro join_handles) (simp_all add: queue_wf_def)
  moreover have "held q' = add_mset (qm_session_id m) (held q)"
    by (simp add: held_def again(2))
  ultimately show ?thesis by (simp add: queue_wf_def same_config_def again(2))
qed

section \<open>Every operation of an open queue conserves what it holds\<close>

text \<open>Redelivery appends: whoever is at the head of the queue stays there.\<close>

lemma redeliver_all_facts:
  assumes "redeliver_all expired q = Some q'" "queue_wf q" "\<not> mq_closed q"
    "list_all (\<lambda>(h, r). below_limit (mq_max_delivery_attempts q) (im_message r) \<and>
       (case map_of (mq_in_flight q) h of None \<Rightarrow> True | Some r' \<Rightarrow> r' = r)) expired"
  shows "queue_wf q' \<and> held q' = held q \<and> same_config q q'"
  using assms
proof (induction expired q rule: redeliver_all.induct)
  case (2 h r expired q)
  let ?q1 = "take_out h q"
  show ?case
  proof (cases "map_of (mq_in_flight q) h")
    case None
    with 2 show ?thesis by simp
  next
    case (Some r')
    then have r': "r' = r" using "2.prems"(4) by simp
    have open1: "\<not> mq_closed ?q1" using "2.prems"(3) by (simp add: take_out_def)
    then obtain q2 where q2: "retry_or_dead_letter (im_message r) ''visibility_timeout'' ?q1 = Some q2"
      and rest: "redeliver_all expired q2 = Some q'"
      using "2.prems"(1) Some by (auto simp: Let_def split: option.splits)
    have wf1: "queue_wf ?q1" using "2.prems"(2) by (rule take_out_wf)
    have lim1: "below_limit (mq_max_delivery_attempts ?q1) (im_message r)"
      using "2.prems"(4) by (simp add: take_out_def)
    note facts = retry_facts [OF wf1 lim1 q2]
    have open2: "\<not> mq_closed q2" using facts open1 by (simp add: same_config_def)
    have sub: "map_of (mq_in_flight q2) k = Some x \<Longrightarrow> map_of (mq_in_flight q) k = Some x" for k x
      using facts by (auto simp: take_out_def delete_conv' split: if_splits)
    have lim2: "list_all (\<lambda>(h, r). below_limit (mq_max_delivery_attempts q2) (im_message r) \<and>
       (case map_of (mq_in_flight q2) h of None \<Rightarrow> True | Some r' \<Rightarrow> r' = r)) expired"
      unfolding list_all_iff
    proof (clarify, intro conjI)
      fix k x assume kx: "(k, x) \<in> set expired"
      then have old: "below_limit (mq_max_delivery_attempts q) (im_message x)"
          "case map_of (mq_in_flight q) k of None \<Rightarrow> True | Some r' \<Rightarrow> r' = x"
        using "2.prems"(4) by (auto simp: list_all_iff)
      show "below_limit (mq_max_delivery_attempts q2) (im_message x)"
        using old(1) facts by (simp add: same_config_def take_out_def)
      show "case map_of (mq_in_flight q2) k of None \<Rightarrow> True | Some r' \<Rightarrow> r' = x"
        using old(2) sub by (cases "map_of (mq_in_flight q2) k") auto
    qed
    have "held q = held q2"
      using in_flight_message(3) [OF "2.prems"(2) Some] facts r' by simp
    moreover have "same_config q q2" using facts take_out_config same_config_trans by blast
    moreover have "queue_wf q' \<and> held q' = held q2 \<and> same_config q2 q'"
      using "2.IH"(3) [OF _ refl _ q2 rest] facts open1 open2 lim2 Some by blast
    ultimately show ?thesis using same_config_trans by metis
  qed
qed simp

lemma redeliver_expired_facts:
  assumes "redeliver_expired now q = Some q'" "queue_wf q" "\<not> mq_closed q"
  shows "queue_wf q' \<and> held q' = held q \<and> same_config q q'"
proof (cases "mq_visibility_timeout q")
  case None
  with assms show ?thesis by (simp add: redeliver_expired_def)
next
  case (Some v)
  have d: "distinct (map fst (mq_in_flight q))"
    using assms(2) by (simp add: queue_wf_def handles_ok_def handles_def)
  have "list_all (\<lambda>(h, r). below_limit (mq_max_delivery_attempts q) (im_message r) \<and>
     (case map_of (mq_in_flight q) h of None \<Rightarrow> True | Some r' \<Rightarrow> r' = r))
     (filter (\<lambda>(h, r). is_expired now r) (mq_in_flight q))"
    using assms(2) map_of_is_SomeI [OF d]
    by (auto simp: list_all_iff queue_wf_def attempts_ok_def)
  with assms Some show ?thesis by (intro redeliver_all_facts) (simp_all add: redeliver_expired_def)
qed

text \<open>A closed queue forgets what expires.\<close>

definition expired_sessions :: "rat \<Rightarrow> memory_queue \<Rightarrow> string multiset" where
  "expired_sessions now q =
     (if mq_visibility_timeout q = None then {#}
      else mset (map (\<lambda>(h, r). qm_session_id (im_message r)) (filter (\<lambda>(h, r). is_expired now r) (mq_in_flight q))))"

lemma redeliver_all_closed:
  assumes "redeliver_all expired q = Some q'" "queue_wf q" "mq_closed q" "distinct (map fst expired)"
    "\<forall>(h, r) \<in> set expired. map_of (mq_in_flight q) h = Some r"
  shows "queue_wf q' \<and> same_config q q' \<and>
    held q = held q' + mset (map (\<lambda>(h, r). qm_session_id (im_message r)) expired)"
  using assms
proof (induction expired arbitrary: q)
  case (Cons e expired)
  obtain h r where e: "e = (h, r)" by force
  let ?q1 = "take_out h q"
  have r: "map_of (mq_in_flight q) h = Some r" using Cons.prems(5) e by simp
  have step: "redeliver_all expired ?q1 = Some q'"
    using Cons.prems(1,3) r e by (simp add: Let_def take_out_def)
  have wf: "queue_wf ?q1" by (rule take_out_wf [OF Cons.prems(2)])
  have cl: "mq_closed ?q1" using Cons.prems(3) by (simp add: take_out_def)
  have mem: "\<forall>(k, x) \<in> set expired. map_of (mq_in_flight ?q1) k = Some x"
    using Cons.prems(4,5) e by (force simp: take_out_def delete_conv')
  have ds: "distinct (map fst expired)" using Cons.prems(4) by simp
  from Cons.IH [OF step wf cl ds mem] in_flight_message(3) [OF Cons.prems(2) r] same_config_trans [OF take_out_config] e show ?case by auto
qed simp

lemma redeliver_expired_closed:
  assumes "redeliver_expired now q = Some q'" "queue_wf q" "mq_closed q"
  shows "queue_wf q' \<and> same_config q q' \<and> held q = held q' + expired_sessions now q"
proof (cases "mq_visibility_timeout q")
  case None
  with assms show ?thesis by (simp add: redeliver_expired_def expired_sessions_def)
next
  case (Some v)
  let ?es = "filter (\<lambda>(h, r). is_expired now r) (mq_in_flight q)"
  have d: "distinct (map fst (mq_in_flight q))"
    using assms(2) by (simp add: queue_wf_def handles_ok_def handles_def)
  have "\<forall>(h, r) \<in> set ?es. map_of (mq_in_flight q) h = Some r" using map_of_is_SomeI [OF d] by auto
  moreover have "distinct (map fst ?es)" using d by (simp add: distinct_map_filter)
  ultimately show ?thesis
    using redeliver_all_closed [of ?es q q'] assms Some by (simp add: redeliver_expired_def expired_sessions_def)
qed

lemma enqueue_facts:
  assumes "enqueue sid metadata now q = Done (m, q')" "queue_wf q"
  shows "queue_wf q' \<and> held q' = add_mset sid (held q) \<and> same_config q q' \<and>
    mq_queue q' = mq_queue q @ [m] \<and> qm_session_id m = sid \<and> qm_attempt m = 0"
proof -
  have q': "q' = q\<lparr>mq_drawn := mq_drawn q + 1, mq_queue := mq_queue q @ [m]\<rparr>"
    and m: "qm_handle m = ''mem-'' @ mq_ids q (mq_drawn q)" "qm_session_id m = sid" "qm_attempt m = 0"
    using assms(1)
    by (auto simp: enqueue_def draw_id_def Let_def queue_put_def split: if_splits)
  have "below_limit (mq_max_delivery_attempts q) m"
    using assms(2) m(3) by (auto simp: queue_wf_def attempts_ok_def below_limit_def split: option.splits)
  then have "attempts_ok q'" using assms(2) by (simp add: queue_wf_def attempts_ok_def q')
  moreover have "handles_ok q'"
    unfolding q' using assms(2) m(1) by (intro join_handles) (simp_all add: queue_wf_def)
  ultimately show ?thesis using m by (simp add: queue_wf_def held_def same_config_def q')
qed

lemma deliver_facts:
  fixes now :: rat
  assumes "queue_wf q" "mq_queue q = m # ms"
  defines "q' \<equiv> track_in_flight now m (q\<lparr>mq_queue := ms\<rparr>)"
  shows "queue_wf q' \<and> held q' = held q \<and> same_config q q' \<and>
    map_option im_message (map_of (mq_in_flight q') (qm_handle m)) = Some m"
proof -
  let ?r = "\<lparr>im_message = m, im_expires_at = map_option (\<lambda>v. now + v) (mq_visibility_timeout q)\<rparr>"
  have new: "qm_handle m \<notin> fst ` set (mq_in_flight q)"
    using assms(1,2) by (simp add: queue_wf_def handles_ok_def handles_def)
  have u: "AList.update (qm_handle m) ?r xs = xs @ [(qm_handle m, ?r)]"
    if "qm_handle m \<notin> fst ` set xs" for xs
    using that by (induction xs) auto
  have q': "q' = q\<lparr>mq_queue := ms, mq_in_flight := mq_in_flight q @ [(qm_handle m, ?r)]\<rparr>"
    using u [OF new] by (simp add: q'_def track_in_flight_def)
  have same: "set (handles q') = set (handles q)" "distinct (handles q') = distinct (handles q)"
    by (auto simp: handles_def q' assms(2))
  have "handles_ok q'"
    using assms(1) same unfolding queue_wf_def handles_ok_def used_handle_def by (auto simp: q')
  moreover have "attempts_ok q'"
    using assms(1,2) by (simp add: queue_wf_def attempts_ok_def q')
  moreover have "map_of (mq_in_flight q') (qm_handle m) = Some ?r"
    using new by (simp add: q' map_add_def map_of_eq_None_iff [THEN iffD2])
  ultimately show ?thesis
    by (simp add: queue_wf_def held_def same_config_def q' assms(2) add_ac)
qed

lemma dequeue_loop_facts:
  assumes "dequeue_loop fuel clock i deadline q = Done (m, q')" "queue_wf q" "\<not> mq_closed q"
  shows "queue_wf q' \<and> held q' = held q \<and> same_config q q' \<and>
    (case m of None \<Rightarrow> mq_queue q' = []
     | Some m \<Rightarrow> map_option im_message (map_of (mq_in_flight q') (qm_handle m)) = Some m)"
  using assms
proof (induction fuel clock i deadline q rule: dequeue_loop.induct)
  case (2 fuel clock i deadline q)
  from "2.prems"(1) obtain q1 where q1: "redeliver_expired (clock i) q = Some q1"
    by (auto split: option.splits)
  note f1 = redeliver_expired_facts [OF q1 "2.prems"(2,3)]
  then have open1: "\<not> mq_closed q1" using "2.prems"(3) by (simp add: same_config_def)
  show ?case
  proof (cases "mq_queue q1")
    case (Cons x ms)
    have "m = Some x" "q' = track_in_flight (clock (i + 1)) x (q1\<lparr>mq_queue := ms\<rparr>)"
      using "2.prems"(1) q1 Cons by simp_all
    with deliver_facts [of q1 x ms "clock (i + 1)"] f1 Cons show ?thesis
      using same_config_trans by auto
  next
    case Nil
    obtain wait where wait: "dequeue_wait_timeout (clock (i + 1)) deadline q1 = Some wait"
      using "2.prems"(1) q1 Nil by (auto split: option.splits)
    show ?thesis
    proof (cases "wait \<le> 0")
      case False
      then have "dequeue_loop fuel clock (i + 3) deadline q1 = Done (m, q')"
        using "2.prems"(1) q1 Nil wait by simp
      from "2.IH"(2) [OF q1 Nil wait False this] f1 open1 show ?thesis
        using same_config_trans by metis
    next
      case True
      then obtain q2 where q2: "redeliver_expired (clock (i + 2)) q1 = Some q2"
        using "2.prems"(1) q1 Nil wait by (auto split: option.splits)
      note f2 = redeliver_expired_facts [OF q2 _ open1]
      show ?thesis
      proof (cases "mq_queue q2 = []")
        case empty: True
        then have "m = None \<and> q' = q2" using "2.prems"(1) q1 Nil wait True q2 by simp
        with empty f1 f2 show ?thesis using same_config_trans by auto
      next
        case False
        have open2: "\<not> mq_closed q2" using f1 f2 open1 by (simp add: same_config_def)
        have "dequeue_loop fuel clock (i + 3) deadline q2 = Done (m, q')"
          using "2.prems"(1) q1 Nil wait True q2 False by simp
        from "2.IH"(1) [OF q1 Nil wait True q2 False this] f1 f2 open2 show ?thesis
          using same_config_trans by metis
      qed
    qed
  qed
qed simp

lemma dequeue_facts:
  assumes "dequeue fuel clock timeout q = Done (m, q')" "queue_wf q"
  shows "queue_wf q' \<and> held q' = held q \<and> same_config q q' \<and>
    (case m of None \<Rightarrow> mq_queue q' = []
     | Some m \<Rightarrow> map_option im_message (map_of (mq_in_flight q') (qm_handle m)) = Some m)"
  using assms by (intro dequeue_loop_facts) (auto simp: dequeue_def split: if_splits)

section \<open>The contract of a delivery queue\<close>

text \<open>
  A worker's calls. A message is presented to \<^verbatim>\<open>ack\<close> and \<^verbatim>\<open>nack\<close> as it was handed out: a
  delivery that is no longer in flight is harmless, another message under its handle is not a
  call a worker makes.
\<close>

datatype queue_call =
  Enqueue_Call string "pydict option" time
| Dequeue_Call nat "nat \<Rightarrow> rat" "rat option"
| Ack_Call queue_message
| Nack_Call queue_message bool
| Pending_Call rat
| In_Flight_Call rat
| Dead_Letters_Call rat
| Close_Call

fun after_call :: "('a \<times> memory_queue) outcome \<Rightarrow> memory_queue outcome" where
  "after_call (Done (x, q)) = Done q"
| "after_call (Raised e) = Raised e"
| "after_call Blocked = Blocked"

lemma after_call_Done: "after_call r = Done q \<longleftrightarrow> (\<exists>x. r = Done (x, q))"
  by (cases r rule: after_call.cases) auto

definition queue_call :: "queue_call \<Rightarrow> memory_queue \<Rightarrow> memory_queue outcome" where
  "queue_call c q = (case c of
       Enqueue_Call sid metadata now \<Rightarrow> after_call (enqueue sid metadata now q)
     | Dequeue_Call fuel clock timeout \<Rightarrow> after_call (dequeue fuel clock timeout q)
     | Ack_Call m \<Rightarrow> Done (ack m q)
     | Nack_Call m retry \<Rightarrow> nack m retry q
     | Pending_Call now \<Rightarrow> after_call (pending now q)
     | In_Flight_Call now \<Rightarrow> after_call (in_flight now q)
     | Dead_Letters_Call now \<Rightarrow> after_call (dead_letters now q)
     | Close_Call \<Rightarrow> Done (close q))"

definition presented :: "queue_message \<Rightarrow> memory_queue \<Rightarrow> bool" where
  "presented m q \<longleftrightarrow> (case map_of (mq_in_flight q) (qm_handle m) of
     None \<Rightarrow> True | Some r \<Rightarrow> im_message r = m)"

definition proper_call :: "queue_call \<Rightarrow> memory_queue \<Rightarrow> bool" where
  "proper_call c q \<longleftrightarrow> (case c of
     Ack_Call m \<Rightarrow> presented m q | Nack_Call m retry \<Rightarrow> presented m q | _ \<Rightarrow> True)"

definition gained :: "queue_call \<Rightarrow> string multiset" where
  "gained c = (case c of Enqueue_Call sid metadata now \<Rightarrow> {#sid#} | _ \<Rightarrow> {#})"

text \<open>
  What leaves the queue with a call: what is acknowledged, what is refused for good, and, when the
  queue is closed, what is refused or expires at all.
\<close>

definition settled :: "queue_call \<Rightarrow> memory_queue \<Rightarrow> string multiset" where
  "settled c q =
     (let live = (\<lambda>m. if map_of (mq_in_flight q) (qm_handle m) = None then {#}
                     else {#qm_session_id m#});
          late = (\<lambda>now. if mq_closed q then expired_sessions now q else {#})
      in case c of Ack_Call m \<Rightarrow> live m
         | Nack_Call m retry \<Rightarrow> if retry \<and> \<not> mq_closed q then {#} else live m
         | Pending_Call now \<Rightarrow> late now | In_Flight_Call now \<Rightarrow> late now | Dead_Letters_Call now \<Rightarrow> late now
         | _ \<Rightarrow> {#})"

definition open_wf :: "memory_queue \<Rightarrow> bool" where
  "open_wf q \<longleftrightarrow> queue_wf q \<and> \<not> mq_closed q"

lemma ack_facts:
  assumes "queue_wf q" "presented m q"
  shows "queue_wf (ack m q) \<and> held q = held (ack m q) + settled (Ack_Call m) q"
proof (cases "map_of (mq_in_flight q) (qm_handle m)")
  case None
  then have "ack m q = q" by (simp add: ack_def take_out_def delete_id map_of_eq_None_iff)
  with None assms show ?thesis by (simp add: settled_def Let_def)
next
  case (Some r)
  with in_flight_message(3) [OF assms(1) Some] assms show ?thesis
    by (auto simp: ack_def settled_def Let_def presented_def)
qed

lemma nack_facts:
  assumes "nack m retry q = Done q'" "queue_wf q" "presented m q"
  shows "queue_wf q' \<and> same_config q q' \<and> held q = held q' + settled (Nack_Call m retry) q"
proof (cases "map_of (mq_in_flight q) (qm_handle m)")
  case None
  with assms show ?thesis by (simp add: nack_def settled_def Let_def)
next
  case (Some r)
  let ?q1 = "take_out (qm_handle m) q"
  have r: "im_message r = m" using assms(3) Some by (simp add: presented_def)
  note f = in_flight_message [OF assms(2) Some, unfolded r]
  have closed: "mq_closed ?q1 = mq_closed q" by (simp add: take_out_def)
  show ?thesis
  proof (cases "retry \<and> \<not> mq_closed q")
    case False
    with assms(1) Some closed have "q' = ?q1" by (simp add: nack_def Let_def)
    with f(3) False Some assms(2) show ?thesis by (auto simp: settled_def Let_def)
  next
    case True
    with assms(1) Some closed have q': "retry_or_dead_letter m ''nack'' ?q1 = Some q'"
      by (auto simp: nack_def Let_def split: option.splits)
    have "below_limit (mq_max_delivery_attempts ?q1) m" using f(1) by (simp add: take_out_def)
    from retry_facts [OF take_out_wf [OF assms(2)] this q'] f(3) True show ?thesis
      by (auto simp: settled_def Let_def same_config_def take_out_def)
  qed
qed

lemma look_facts:
  assumes "redeliver_expired now q = Some q'" "queue_wf q"
  shows "queue_wf q' \<and> same_config q q' \<and> held q = held q' + (if mq_closed q then expired_sessions now q else {#})"
  using redeliver_expired_facts [OF assms] redeliver_expired_closed [OF assms] by (cases "mq_closed q") auto

lemma look_calls:
  "after_call (pending now q) = Done q' \<longleftrightarrow> redeliver_expired now q = Some q'"
  "after_call (in_flight now q) = Done q' \<longleftrightarrow> redeliver_expired now q = Some q'"
  "after_call (dead_letters now q) = Done q' \<longleftrightarrow> redeliver_expired now q = Some q'"
  by (auto simp: pending_def in_flight_def dead_letters_def split: option.splits)

lemma close_facts:
  "queue_wf q \<Longrightarrow> queue_wf (close q)" "held (close q) = held q"
  by (simp_all add: queue_wf_def handles_ok_def attempts_ok_def handles_def used_handle_def close_def held_def)

lemma queue_call_facts:
  assumes "queue_wf q" "proper_call c q" "queue_call c q = Done q'"
  shows "queue_wf q' \<and> (c \<noteq> Close_Call \<longrightarrow> same_config q q') \<and> held q' + settled c q = held q + gained c"
proof (cases c)
  case (Enqueue_Call sid metadata now)
  then obtain m where "enqueue sid metadata now q = Done (m, q')"
    using assms(3) by (auto simp: queue_call_def after_call_Done)
  from enqueue_facts [OF this assms(1)] Enqueue_Call show ?thesis by (simp add: settled_def gained_def)
next
  case (Dequeue_Call fuel clock timeout)
  then obtain m where "dequeue fuel clock timeout q = Done (m, q')"
    using assms(3) by (auto simp: queue_call_def after_call_Done)
  from dequeue_facts [OF this assms(1)] Dequeue_Call show ?thesis by (simp add: settled_def gained_def)
next
  case (Ack_Call m)
  then have "presented m q" "q' = ack m q"
    using assms(2,3) by (simp_all add: proper_call_def queue_call_def)
  with ack_facts [OF assms(1)] Ack_Call show ?thesis by (simp add: gained_def) (simp add: ack_def)
next
  case (Nack_Call m retry)
  then have "presented m q" "nack m retry q = Done q'"
    using assms(2,3) by (simp_all add: proper_call_def queue_call_def)
  with nack_facts [OF _ assms(1)] Nack_Call show ?thesis by (simp add: gained_def)
next
  case Close_Call
  with assms show ?thesis by (auto simp: queue_call_def close_facts settled_def gained_def)
qed (use assms look_facts [OF _ assms(1)] in \<open>auto simp: queue_call_def look_calls settled_def gained_def\<close>)

lemma queue_call_conserves:
  assumes "open_wf q" "proper_call c q" "queue_call c q = Done q'" "c \<noteq> Close_Call"
  shows "open_wf q'" "held q' + settled c q = held q + gained c"
  using queue_call_facts [OF _ assms(2,3)] assms(1,4) by (auto simp: open_wf_def same_config_def)

text \<open>A sequence of calls, stopped by the first that raises or blocks; and what it settles.\<close>

fun run_calls :: "('c \<Rightarrow> 'q \<Rightarrow> 'q outcome) \<Rightarrow> ('c \<Rightarrow> 'q \<Rightarrow> bool) \<Rightarrow> 'c list \<Rightarrow> 'q \<Rightarrow> 'q outcome" where
  "run_calls step proper [] q = Done q"
| "run_calls step proper (c # cs) q =
     (if proper c q then (case step c q of Done q' \<Rightarrow> run_calls step proper cs q'
        | Raised e \<Rightarrow> Raised e | Blocked \<Rightarrow> Blocked)
      else Raised ValueError)"

fun settled_calls ::
    "('c \<Rightarrow> 'q \<Rightarrow> 'q outcome) \<Rightarrow> ('c \<Rightarrow> 'q \<Rightarrow> 'a multiset) \<Rightarrow> 'c list \<Rightarrow> 'q \<Rightarrow> 'a multiset" where
  "settled_calls step lose [] q = {#}"
| "settled_calls step lose (c # cs) q = lose c q +
     (case step c q of Done q' \<Rightarrow> settled_calls step lose cs q' | _ \<Rightarrow> {#})"

locale delivery_queue =
  fixes inv :: "'q \<Rightarrow> bool"
    and proper :: "'c \<Rightarrow> 'q \<Rightarrow> bool"
    and step :: "'c \<Rightarrow> 'q \<Rightarrow> 'q outcome"
    and content :: "'q \<Rightarrow> 'a multiset"
    and gain :: "'c \<Rightarrow> 'a multiset"
    and lose :: "'c \<Rightarrow> 'q \<Rightarrow> 'a multiset"
  assumes step_inv: "inv q \<Longrightarrow> proper c q \<Longrightarrow> step c q = Done q' \<Longrightarrow> inv q'"
    and step_content: "inv q \<Longrightarrow> proper c q \<Longrightarrow> step c q = Done q' \<Longrightarrow>
      content q' + lose c q = content q + gain c"
begin

lemma run_inv: "inv q \<Longrightarrow> run_calls step proper cs q = Done q' \<Longrightarrow> inv q'"
  by (induction cs arbitrary: q) (auto split: if_splits outcome.splits intro: step_inv)

lemma run_content:
  "inv q \<Longrightarrow> run_calls step proper cs q = Done q' \<Longrightarrow>
   content q' + settled_calls step lose cs q = content q + sum_list (map gain cs)"
proof (induction cs arbitrary: q)
  case (Cons c cs)
  then obtain q1 where q1: "proper c q" "step c q = Done q1" "run_calls step proper cs q1 = Done q'"
    by (auto split: if_splits outcome.splits)
  have "content q' + settled_calls step lose cs q1 = content q1 + sum_list (map gain cs)"
    using Cons.IH [OF step_inv [OF Cons.prems(1) q1(1,2)] q1(3)] .
  then have "content q' + settled_calls step lose cs q1 + lose c q
      = (content q1 + lose c q) + sum_list (map gain cs)"
    by (simp add: add_ac)
  also have "\<dots> = content q + gain c + sum_list (map gain cs)"
    using step_content [OF Cons.prems(1) q1(1,2)] by simp
  finally show ?case using q1(2) by (simp add: add_ac)
qed simp

lemma run_nothing_lost:
  "inv q \<Longrightarrow> run_calls step proper cs q = Done q' \<Longrightarrow> x \<in># sum_list (map gain cs) \<Longrightarrow>
   x \<notin># settled_calls step lose cs q \<Longrightarrow> x \<in># content q'"
  using run_content [of q cs q'] by (metis Un_iff set_mset_union)

end

interpretation mq: delivery_queue queue_wf proper_call queue_call held gained settled
  by unfold_locales (simp_all add: queue_call_facts)

section \<open>Handles are never used again\<close>

definition fresh_handles :: "memory_queue \<Rightarrow> memory_queue \<Rightarrow> bool" where
  "fresh_handles q q' \<longleftrightarrow> mq_ids q' = mq_ids q \<and> mq_drawn q \<le> mq_drawn q' \<and>
     (\<forall>h \<in> set (handles q'). h \<in> set (handles q) \<or>
        (\<exists>j. mq_drawn q \<le> j \<and> j < mq_drawn q' \<and> h = ''mem-'' @ mq_ids q j))"

lemma fresh_refl [simp]: "fresh_handles q q"
  by (simp add: fresh_handles_def)

lemma fresh_trans:
  assumes "fresh_handles a b" "fresh_handles b c"
  shows "fresh_handles a c"
  unfolding fresh_handles_def
proof (intro conjI ballI)
  show "mq_ids c = mq_ids a" "mq_drawn a \<le> mq_drawn c" using assms by (auto simp: fresh_handles_def)
  fix h assume "h \<in> set (handles c)"
  then consider "h \<in> set (handles b)" | j where "mq_drawn b \<le> j" "j < mq_drawn c" "h = ''mem-'' @ mq_ids b j"
    using assms(2) by (auto simp: fresh_handles_def)
  then show "h \<in> set (handles a) \<or> (\<exists>j. mq_drawn a \<le> j \<and> j < mq_drawn c \<and> h = ''mem-'' @ mq_ids a j)"
  proof cases
    case 1
    then consider "h \<in> set (handles a)" | j where "mq_drawn a \<le> j" "j < mq_drawn b" "h = ''mem-'' @ mq_ids a j"
      using assms(1) by (auto simp: fresh_handles_def)
    then show ?thesis
    proof cases
      case 2
      have "mq_drawn b \<le> mq_drawn c" using assms(2) by (simp add: fresh_handles_def)
      with 2 have "j < mq_drawn c" by simp
      with 2 show ?thesis by blast
    qed simp
  next
    case 2
    have "mq_drawn a \<le> mq_drawn b" "mq_ids b = mq_ids a" using assms(1) by (simp_all add: fresh_handles_def)
    with 2 show ?thesis by (intro disjI2 exI [of _ j]) simp
  qed
qed

lemma take_out_fresh [simp]: "fresh_handles q (take_out h q)"
  using set_delete_subset [of h "mq_in_flight q"] by (auto simp: fresh_handles_def handles_def take_out_def)

lemma track_fresh:
  assumes "mq_queue q = m # ms"
  shows "fresh_handles q (track_in_flight now m (q\<lparr>mq_queue := ms\<rparr>))"
proof -
  have "fst ` set (AList.update k v xs) = insert k (fst ` set xs)" for k :: string and v :: in_flight_message and xs
    by (simp add: dom_map_of_conv_image_fst [symmetric] update_conv')
  then show ?thesis using assms by (auto simp: fresh_handles_def handles_def track_in_flight_def)
qed

lemma append_fresh:
  "qm_handle m = ''mem-'' @ mq_ids q (mq_drawn q) \<Longrightarrow>
     fresh_handles q (q\<lparr>mq_drawn := Suc (mq_drawn q), mq_queue := mq_queue q @ [m]\<rparr>)"
  unfolding fresh_handles_def handles_def by (auto intro!: exI [of _ "mq_drawn q"])

lemma retry_fresh:
  assumes "retry_or_dead_letter m reason q = Some q'"
  shows "fresh_handles q q'"
  using assms by (cases rule: retry_cases) (auto simp: fresh_handles_def handles_def)

lemma redeliver_all_fresh: "redeliver_all expired q = Some q' \<Longrightarrow> fresh_handles q q'"
proof (induction expired q rule: redeliver_all.induct)
  case (2 h r expired q)
  then show ?case
    by (auto simp: Let_def split: if_splits option.splits
        intro: fresh_trans [OF take_out_fresh] fresh_trans [OF fresh_trans [OF take_out_fresh retry_fresh]])
qed simp

lemma redeliver_expired_fresh: "redeliver_expired now q = Some q' \<Longrightarrow> fresh_handles q q'"
  by (auto simp: redeliver_expired_def redeliver_all_fresh split: if_splits)

lemma dequeue_loop_fresh: "dequeue_loop fuel clock i deadline q = Done (m, q') \<Longrightarrow> fresh_handles q q'"
proof (induction fuel clock i deadline q rule: dequeue_loop.induct)
  case (2 fuel clock i deadline q)
  then obtain q1 where q1: "redeliver_expired (clock i) q = Some q1" by (auto split: option.splits)
  note f = redeliver_expired_fresh [OF q1]
  show ?case
  proof (cases "mq_queue q1")
    case (Cons x ms)
    then have "q' = track_in_flight (clock (i + 1)) x (q1\<lparr>mq_queue := ms\<rparr>)" using 2(3) q1 by simp
    then show ?thesis using fresh_trans [OF f track_fresh [OF Cons]] by simp
  next
    case Nil
    obtain wait where wait: "dequeue_wait_timeout (clock (i + 1)) deadline q1 = Some wait"
      using 2(3) q1 Nil by (auto split: option.splits)
    show ?thesis
    proof (cases "wait \<le> 0")
      case False
      then show ?thesis using 2(3) 2(2) [OF q1 Nil wait False] q1 Nil wait fresh_trans [OF f] by simp
    next
      case True
      then obtain q2 where q2: "redeliver_expired (clock (i + 2)) q1 = Some q2"
        using 2(3) q1 Nil wait by (auto split: option.splits)
      then show ?thesis
        using 2(3) 2(1) [OF q1 Nil wait True q2] q1 Nil wait True fresh_trans [OF f]
          fresh_trans [OF redeliver_expired_fresh [OF q2]] redeliver_expired_fresh [OF q2]
        by (auto split: if_splits)
    qed
  qed
qed simp

lemma queue_call_fresh: "queue_call c q = Done q' \<Longrightarrow> fresh_handles q q'"
proof (cases c)
  case (Enqueue_Call sid metadata now)
  moreover assume "queue_call c q = Done q'"
  ultimately show ?thesis
    by (auto simp: queue_call_def after_call_Done enqueue_def draw_id_def Let_def queue_put_def append_fresh
        split: if_splits)
next
  case (Nack_Call m retry)
  moreover assume "queue_call c q = Done q'"
  ultimately show ?thesis
    by (auto simp: queue_call_def nack_def Let_def split: if_splits option.splits
        intro: fresh_trans [OF take_out_fresh retry_fresh])
next
  case Close_Call
  moreover assume "queue_call c q = Done q'"
  ultimately show ?thesis by (auto simp: queue_call_def close_def fresh_handles_def handles_def)
next
  case (Dequeue_Call fuel clock timeout)
  moreover assume "queue_call c q = Done q'"
  ultimately show ?thesis
    by (auto simp: queue_call_def after_call_Done dequeue_def split: if_splits dest: dequeue_loop_fresh)
qed (auto simp: queue_call_def look_calls redeliver_expired_fresh ack_def)

lemma run_calls_fresh: "run_calls queue_call proper_call cs q = Done q' \<Longrightarrow> fresh_handles q q'"
  by (induction cs arbitrary: q)
     (auto split: if_splits outcome.splits intro: fresh_trans [OF queue_call_fresh])

text \<open>A handle that was drawn and is no longer in the queue does not come back.\<close>

lemma retired_handles_stay_retired:
  assumes "queue_wf q" "run_calls queue_call proper_call cs q = Done q'" "used_handle q h" "h \<notin> set (handles q)"
  shows "h \<notin> set (handles q')"
proof
  assume "h \<in> set (handles q')"
  then obtain j where j: "mq_drawn q \<le> j" "h = ''mem-'' @ mq_ids q j"
    using run_calls_fresh [OF assms(2)] assms(4) by (auto simp: fresh_handles_def)
  obtain k where k: "k < mq_drawn q" "h = ''mem-'' @ mq_ids q k" using assms(3) by (auto simp: used_handle_def)
  have "inj (mq_ids q)" using assms(1) by (simp add: queue_wf_def handles_ok_def)
  then have "j = k" using j(2) k(2) by (simp add: inj_eq)
  with j k show False by simp
qed

section \<open>Order, and when a dequeue returns\<close>

lemma unbounded_put: "mq_maxsize q \<le> 0 \<Longrightarrow> queue_put m q = Some (q\<lparr>mq_queue := mq_queue q @ [m]\<rparr>)"
  by (simp add: queue_put_def)

lemma retry_unbounded:
  assumes "mq_maxsize q \<le> 0"
  shows "\<exists>q' ys. retry_or_dead_letter m reason q = Some q' \<and> mq_queue q' = mq_queue q @ ys \<and>
    mq_maxsize q' = mq_maxsize q"
  using assms by (simp add: retry_or_dead_letter_def Let_def draw_id_def queue_put_def)

lemma redeliver_all_unbounded:
  "mq_maxsize q \<le> 0 \<Longrightarrow>
   \<exists>q' ys. redeliver_all expired q = Some q' \<and> mq_queue q' = mq_queue q @ ys \<and>
     mq_maxsize q' = mq_maxsize q"
proof (induction expired q rule: redeliver_all.induct)
  case (2 h r expired q)
  let ?q1 = "take_out h q"
  have same: "mq_maxsize ?q1 = mq_maxsize q" "mq_queue ?q1 = mq_queue q"
    by (simp_all add: take_out_def)
  show ?case
  proof (cases "map_of (mq_in_flight q) h = None")
    case True
    with 2 show ?thesis by simp
  next
    case False
    show ?thesis
    proof (cases "mq_closed ?q1")
      case True
      from "2.IH"(2) [OF False refl this] 2(4) False True same show ?thesis
        by (auto simp: Let_def)
    next
      case open1: False
      obtain q2 ys where q2: "retry_or_dead_letter (im_message r) ''visibility_timeout'' ?q1 = Some q2"
          "mq_queue q2 = mq_queue q @ ys" "mq_maxsize q2 = mq_maxsize q"
        using retry_unbounded [of ?q1 "im_message r" "''visibility_timeout''"] same 2(4) by auto
      with "2.IH"(3) [OF False refl open1 q2(1)] 2(4) False open1 show ?thesis by auto
    qed
  qed
qed simp

lemma redeliver_expired_unbounded:
  "mq_maxsize q \<le> 0 \<Longrightarrow>
   \<exists>q' ys. redeliver_expired now q = Some q' \<and> mq_queue q' = mq_queue q @ ys \<and>
     mq_maxsize q' = mq_maxsize q"
  using redeliver_all_unbounded [of q "filter (\<lambda>(h, r). is_expired now r) (mq_in_flight q)"]
  by (cases "mq_visibility_timeout q") (auto simp: redeliver_expired_def)

lemma dequeue_loop_head:
  assumes "mq_maxsize q \<le> 0" "mq_queue q = m # ms" "0 < fuel"
  shows "\<exists>q'. dequeue_loop fuel clock i deadline q = Done (Some m, q')"
proof -
  obtain n where n: "fuel = Suc n" using assms(3) by (cases fuel) auto
  obtain q1 ys where "redeliver_expired (clock i) q = Some q1" "mq_queue q1 = m # ms @ ys"
    using redeliver_expired_unbounded [OF assms(1), of "clock i"] assms(2) by auto
  with n show ?thesis by simp
qed

lemma dequeue_returns_the_head:
  assumes "\<not> mq_closed q" "mq_maxsize q \<le> 0" "mq_queue q = m # ms" "0 < fuel"
  shows "\<exists>q'. dequeue fuel clock timeout q = Done (Some m, q')"
  using dequeue_loop_head [OF assms(2-4)] assms(1) by (simp add: dequeue_def)

lemma min_of_le: "x \<in> set xs \<Longrightarrow> \<exists>y. min_of xs = Some y \<and> y \<le> x"
proof -
  have le: "fold min ys z \<le> z \<and> (\<forall>y \<in> set ys. fold min ys z \<le> y)" for ys :: "rat list" and z
    by (induction ys arbitrary: z) (simp_all, metis min.bounded_iff order_refl)
  assume "x \<in> set xs"
  then obtain z ys where "xs = z # ys" "x \<in> set (z # ys)" by (cases xs) auto
  with le [of ys z] show ?thesis by (auto simp: min_of_def)
qed

lemma wait_after_deadline:
  "d \<le> now \<Longrightarrow> \<exists>w. dequeue_wait_timeout now (Some d) q = Some w \<and> w \<le> 0"
  using min_of_le [of 0 "[max 0 (d - now)] @ (case next_expiry q of None \<Rightarrow> []
    | Some e \<Rightarrow> [max 0 (e - now)])"]
  by (simp add: dequeue_wait_timeout_def max_def)

lemma wait_with_deadline: "\<exists>w. dequeue_wait_timeout now (Some d) q = Some w"
  using min_of_le [of "max 0 (d - now)" "[max 0 (d - now)] @ (case next_expiry q of None \<Rightarrow> []
    | Some e \<Rightarrow> [max 0 (e - now)])"]
  by (auto simp: dequeue_wait_timeout_def)

text \<open>
  Each turn of the loop reads the clock three times; a turn that begins before the deadline can
  only go on to the next, the first one whose second reading is past the deadline returns, or
  finds a redelivered message and returns in the turn after it.
\<close>

lemma dequeue_loop_returns:
  "mq_maxsize q \<le> 0 \<Longrightarrow> d \<le> clock (i + 3 * j + 1) \<Longrightarrow> j + 2 \<le> fuel \<Longrightarrow>
   \<exists>m q'. dequeue_loop fuel clock i (Some d) q = Done (m, q')"
proof (induction j arbitrary: fuel i q)
  case (0 fuel i q)
  then obtain n where n: "fuel = Suc n" "0 < n" by (cases fuel) auto
  obtain q1 ys where q1: "redeliver_expired (clock i) q = Some q1" "mq_maxsize q1 \<le> 0"
    using redeliver_expired_unbounded [OF 0(1), of "clock i"] 0(1) by auto
  show ?case
  proof (cases "mq_queue q1")
    case Cons
    with n q1 show ?thesis by simp
  next
    case Nil
    obtain w where w: "dequeue_wait_timeout (clock (i + 1)) (Some d) q1 = Some w" "w \<le> 0"
      using wait_after_deadline [of d "clock (i + 1)" q1] 0(2) by auto
    obtain q2 where q2: "redeliver_expired (clock (i + 2)) q1 = Some q2" "mq_maxsize q2 \<le> 0"
      using redeliver_expired_unbounded [OF q1(2), of "clock (i + 2)"] q1(2) by auto
    show ?thesis
    proof (cases "mq_queue q2")
      case Nil2: Nil
      with n q1 Nil w q2 show ?thesis by simp
    next
      case (Cons m ms)
      from dequeue_loop_head [OF q2(2) Cons n(2), of clock "i + 3" "Some d"]
      show ?thesis using n q1 Nil w q2 Cons by auto
    qed
  qed
next
  case (Suc j fuel i q)
  then obtain n where n: "fuel = Suc n" "j + 2 \<le> n" by (cases fuel) auto
  have d: "d \<le> clock (i + 3 + 3 * j + 1)" using Suc.prems(2) by (simp add: algebra_simps)
  obtain q1 where q1: "redeliver_expired (clock i) q = Some q1" "mq_maxsize q1 \<le> 0"
    using redeliver_expired_unbounded [OF Suc.prems(1), of "clock i"] Suc.prems(1) by auto
  obtain w where w: "dequeue_wait_timeout (clock (i + 1)) (Some d) q1 = Some w"
    using wait_with_deadline by blast
  obtain q2 where q2: "redeliver_expired (clock (i + 2)) q1 = Some q2" "mq_maxsize q2 \<le> 0"
    using redeliver_expired_unbounded [OF q1(2), of "clock (i + 2)"] q1(2) by auto
  show ?case
    using Suc.IH [OF q1(2) d n(2)] Suc.IH [OF q2(2) d n(2)] n q1 q2 w
    by (cases "mq_queue q1"; cases "w \<le> 0"; cases "mq_queue q2") simp_all
qed

lemma dequeue_returns:
  assumes "\<not> mq_closed q" "mq_maxsize q \<le> 0" "clock 0 + t \<le> clock (3 * j + 2)" "j + 2 \<le> fuel"
  shows "\<exists>m q'. dequeue fuel clock (Some t) q = Done (m, q')"
  using dequeue_loop_returns [of q "clock 0 + t" clock 1 j fuel] assms
  by (simp add: dequeue_def)

end
