(* ===== verification/Gating.thy ===== *)
theory Gating
  imports Node_Effects Py_Values
begin

text \<open>
  \<^verbatim>\<open>gating/base.py\<close> and \<^verbatim>\<open>gating/evaluators/\<close>: gate contracts, the registry that
  composes evaluators into the gate function of the control plane, and the four evaluators the
  package ships. An evaluator is a record of its name, its contract and its function; the shipped
  ones are built from their constructor arguments. The Pydantic model of a schema check is a
  function that gives the list of errors, or nothing when the output is valid.
\<close>

section \<open>Contracts\<close>

datatype gate_severity = Severity_ADVISORY | Severity_BLOCKING

record gate_contract =
  gc_name :: string
  gc_description :: string
  gc_triggers :: "string list"
  gc_applies_to_nodes :: "string list"
  gc_severity :: gate_severity
  gc_timeout_seconds :: "rat option"
  gc_metadata :: pydict

definition applies :: "gate_contract \<Rightarrow> string \<Rightarrow> string option \<Rightarrow> bool" where
  "applies c node_key boundary_event \<longleftrightarrow>
     (let node_ok = gc_applies_to_nodes c = [] \<or> node_key \<in> set (gc_applies_to_nodes c);
          trigger_ok = gc_triggers c = [] \<or>
            (case boundary_event of None \<Rightarrow> False | Some b \<Rightarrow> b \<in> set (gc_triggers c))
      in node_ok \<and> trigger_ok)"

record gate_evaluator =
  ge_name :: string
  ge_contract :: gate_contract
  ge_evaluate :: gate_fn

section \<open>The registry\<close>

text \<open>\<^verbatim>\<open>register\<close>; the check it makes on advisory evaluators is an empty stub.\<close>

definition register :: "gate_evaluator \<Rightarrow> gate_evaluator list \<Rightarrow> gate_evaluator list" where
  "register e es = es @ [e]"

definition applicable :: "gate_evaluator list \<Rightarrow> string \<Rightarrow> string option \<Rightarrow> gate_evaluator list" where
  "applicable es node_key boundary_event =
     filter (\<lambda>e. applies (ge_contract e) node_key boundary_event) es"

fun gate_loop ::
    "gate option \<Rightarrow> gate_evaluator list \<Rightarrow> runtime_session \<Rightarrow> node_state \<Rightarrow> agent_report \<Rightarrow>
     gate option svc" where
  "gate_loop first_pass [] s n r = svc_return first_pass"
| "gate_loop first_pass (e # es) s n r =
     (if \<not> applies (ge_contract e) (ns_key n) (ar_boundary_event r) then gate_loop first_pass es s n r
      else svc_bind (ge_evaluate e s n r) (\<lambda>g.
        case g of
          None \<Rightarrow> gate_loop first_pass es s n r
        | Some x \<Rightarrow>
            (case gt_outcome x of
               Gate_BLOCK \<Rightarrow>
                 if gc_severity (ge_contract e) \<noteq> Severity_BLOCKING then svc_lift (Inl RuntimeError)
                 else svc_return (Some x)
             | Gate_REQUIRES_DECISION \<Rightarrow> svc_return (Some x)
             | Gate_PASS \<Rightarrow>
                 gate_loop (if first_pass = None then Some x else first_pass) es s n r)))"

definition to_gate_fn :: "gate_evaluator list \<Rightarrow> gate_fn" where
  "to_gate_fn es = gate_loop None es"

section \<open>The shipped evaluators\<close>

text \<open>The construction of a gate draws its id and the time of its creation.\<close>

definition new_gate ::
    "op_env \<Rightarrow> nat \<Rightarrow> string \<Rightarrow> string \<Rightarrow> gate_outcome \<Rightarrow> pydict \<Rightarrow> gate" where
  "new_gate e tick name key outcome detail =
     \<lparr>gt_id = ev_id e 0, gt_name = name, gt_node_key = key, gt_outcome = outcome,
      gt_detail = detail, gt_created_at = ev_now e tick, gt_decision = None\<rparr>"

definition human_in_loop :: "gate_contract \<Rightarrow> gate_evaluator" where
  "human_in_loop c =
     (let name = ''human_in_loop:'' @ gc_name c in
      \<lparr>ge_name = name, ge_contract = c, ge_evaluate = (\<lambda>s n r.
        svc_bind svc_env (\<lambda>e. svc_return (Some (new_gate e 0 (gc_name c) (ns_key n)
          Gate_REQUIRES_DECISION
          [(''evaluator'', JStr name),
           (''prompt'', JStr (if gc_description c = [] then ''review required''
              else gc_description c))]))))\<rparr>)"

definition schema_check :: "gate_contract \<Rightarrow> string \<Rightarrow> (pydict \<Rightarrow> json option) \<Rightarrow> gate_evaluator" where
  "schema_check c schema_name errors_of =
     (let name = ''schema_check:'' @ gc_name c in
      \<lparr>ge_name = name, ge_contract = c, ge_evaluate = (\<lambda>s n r.
        svc_bind svc_env (\<lambda>e. svc_return (Some (case errors_of (ar_output r) of
            Some errors \<Rightarrow> new_gate e 0 (gc_name c) (ns_key n) Gate_REQUIRES_DECISION
              [(''evaluator'', JStr name), (''schema'', JStr schema_name), (''errors'', errors)]
          | None \<Rightarrow> new_gate e 0 (gc_name c) (ns_key n) Gate_PASS
              [(''evaluator'', JStr name), (''schema'', JStr schema_name)]))))\<rparr>)"

text \<open>Construction fails without a budget.\<close>

definition timeout_evaluator :: "gate_contract \<Rightarrow> exn + gate_evaluator" where
  "timeout_evaluator c =
     (case gc_timeout_seconds c of
        None \<Rightarrow> Inl ValueError
      | Some seconds \<Rightarrow>
          let name = ''timeout:'' @ gc_name c in
          Inr \<lparr>ge_name = name, ge_contract = c, ge_evaluate = (\<lambda>s n r.
            case latest_attempt n of
              None \<Rightarrow> svc_return None
            | Some a \<Rightarrow>
                if na_status a \<noteq> Attempt_RUNNING then svc_return None
                else svc_bind svc_env (\<lambda>e.
                  let elapsed = ev_now e 0 - na_started_at a in
                  if elapsed \<le> timedelta_of_float seconds then svc_return None
                  else svc_return (Some (new_gate e 1 (gc_name c) (ns_key n) Gate_REQUIRES_DECISION
                    [(''evaluator'', JStr name), (''attempt_id'', JStr (na_id a)),
                     (''elapsed_seconds'', JFloat (total_seconds elapsed)),
                     (''budget_seconds'', JFloat seconds)]))))\<rparr>)"

subsection \<open>Verifier feedback and required tools\<close>

definition goal_required_tools :: "(json \<Rightarrow> string) \<Rightarrow> runtime_session \<Rightarrow> string list" where
  "goal_required_tools repr_of s =
     (let declared = (\<lambda>d. map_option (map (py_str repr_of)) (json_list (dict_get d ''required_tools''))) in
      case json_obj (dict_get (rs_metadata s) ''goal'') of
        Some goal \<Rightarrow>
          (case declared goal of
             Some tools \<Rightarrow> tools
           | None \<Rightarrow> (case declared (rs_metadata s) of Some tools \<Rightarrow> tools | None \<Rightarrow> []))
      | None \<Rightarrow> (case declared (rs_metadata s) of Some tools \<Rightarrow> tools | None \<Rightarrow> []))"

definition tool_succeeded :: "runtime_session \<Rightarrow> string \<Rightarrow> bool" where
  "tool_succeeded s tool \<longleftrightarrow>
     list_ex (\<lambda>(_, n). list_ex (\<lambda>a. list_ex (\<lambda>t.
         te_tool_name t = tool \<and> te_status t = Tool_SUCCEEDED \<and> te_is_error t \<noteq> Some True)
       (na_tool_executions a)) (ns_attempts n)) (rs_nodes s)"

definition completed_required_tools :: "runtime_session \<Rightarrow> string list \<Rightarrow> string list" where
  "completed_required_tools s required = filter (tool_succeeded s) required"

definition pending_tool_task ::
    "(json \<Rightarrow> string) \<Rightarrow> runtime_session \<Rightarrow> string \<Rightarrow> string list \<Rightarrow> json \<Rightarrow> (string \<times> string list) option"
  where
  "pending_tool_task repr_of s current missing task =
     (case json_obj task of
        None \<Rightarrow> None
      | Some d \<Rightarrow>
          let key = (if json_truth (dict_get d ''key'') then py_str repr_of (dict_get d ''key'') else []) in
          if key = [] \<or> key = current then None
          else case session_node s key of
            None \<Rightarrow> None
          | Some n \<Rightarrow>
              if ns_status n \<notin> {Node_QUEUED, Node_RUNNING} then None
              else let tools = string_tuple repr_of (dict_get d ''tools'');
                       covered = sort (remdups (filter (\<lambda>t. t \<in> set missing) tools))
                   in if covered = [] then None else Some (key, covered))"

definition pending_tool_nodes ::
    "(json \<Rightarrow> string) \<Rightarrow> runtime_session \<Rightarrow> string \<Rightarrow> string list \<Rightarrow> (string \<times> string list) list" where
  "pending_tool_nodes repr_of s current missing =
     (if missing = [] then []
      else case json_obj (dict_get (rs_metadata s) ''execution_plan'') of
        None \<Rightarrow> []
      | Some plan \<Rightarrow>
          (case json_list (dict_get plan ''tasks'') of
             None \<Rightarrow> []
           | Some tasks \<Rightarrow> List.map_filter (pending_tool_task repr_of s current missing) tasks))"

record tool_progress =
  tp_required :: "string list"
  tp_completed :: "string list"
  tp_missing :: "string list"
  tp_pending :: "(string \<times> string list) list"
  tp_current :: string

definition dump_progress :: "tool_progress \<Rightarrow> pydict" where
  "dump_progress p =
     [(''required_tools'', json_strs (tp_required p)),
      (''completed_tools'', json_strs (tp_completed p)),
      (''missing_tools'', json_strs (tp_missing p)),
      (''pending_tool_nodes'', JList (map (\<lambda>(k, ts).
         JObj [(''node_key'', JStr k), (''tools'', json_strs ts)]) (tp_pending p))),
      (''current_node_key'', JStr (tp_current p))]"

definition required_tool_progress ::
    "(json \<Rightarrow> string) \<Rightarrow> runtime_session \<Rightarrow> node_state \<Rightarrow> tool_progress option" where
  "required_tool_progress repr_of s n =
     (let required = goal_required_tools repr_of s in
      if required = [] then None
      else
        let completed = completed_required_tools s required;
            missing = filter (\<lambda>t. t \<notin> set completed) required;
            pending_nodes = pending_tool_nodes repr_of s (ns_key n) missing
        in if missing = [] \<or> pending_nodes \<noteq> [] then None
           else Some \<lparr>tp_required = required, tp_completed = completed, tp_missing = missing,
             tp_pending = pending_nodes, tp_current = ns_key n\<rparr>)"

definition required_tool_result :: "tool_progress \<Rightarrow> verifier_result" where
  "required_tool_result p =
     \<lparr>vr_name = ''required_tools.completed'', vr_passed = False, vr_score = None,
      vr_evidence_refs = tp_completed p, vr_detail = dump_progress p,
      vr_repair_instruction = Some (''Call missing required tool(s): '' @
        py_join '', '' (tp_missing p) @ ''. Completed required tool(s): '' @
        (if tp_completed p = [] then ''none'' else py_join '', '' (tp_completed p)) @ ''.'')\<rparr>"

definition required_tool_feedback :: "string \<Rightarrow> tool_progress \<Rightarrow> feedback_record" where
  "required_tool_feedback key p =
     \<lparr>fr_source = ''verifier.required_tools'',
      fr_message = ''missing required tool(s): '' @ py_join '', '' (tp_missing p) @
        ''; completed required tool(s): '' @
        (if tp_completed p = [] then ''none'' else py_join '', '' (tp_completed p)),
      fr_target_node_key = Some key, fr_severity = ''error'',
      fr_suggested_action = Some Decision_REPLAN, fr_evidence_refs = tp_missing p,
      fr_detail = dump_progress p\<rparr>"

definition feedback_contract :: gate_contract where
  "feedback_contract = \<lparr>gc_name = ''verifier_feedback'',
     gc_description = ''Halt when an agent report carries failed verifier results.'',
     gc_triggers = [], gc_applies_to_nodes = [], gc_severity = Severity_ADVISORY,
     gc_timeout_seconds = None, gc_metadata = []\<rparr>"

text \<open>The verifier results the evaluator looks at: those of the report and the tool check.\<close>

definition judged_results ::
    "(json \<Rightarrow> string) \<Rightarrow> runtime_session \<Rightarrow> node_state \<Rightarrow> agent_report \<Rightarrow> verifier_result list" where
  "judged_results repr_of s n r =
     ar_verifier_results r @ (case required_tool_progress repr_of s n of
        None \<Rightarrow> [] | Some p \<Rightarrow> [required_tool_result p])"

definition judged_feedback ::
    "(json \<Rightarrow> string) \<Rightarrow> runtime_session \<Rightarrow> node_state \<Rightarrow> agent_report \<Rightarrow> feedback_record list" where
  "judged_feedback repr_of s n r =
     ar_feedback r @ (case required_tool_progress repr_of s n of
        None \<Rightarrow> [] | Some p \<Rightarrow> [required_tool_feedback (ns_key n) p])"

definition verifier_feedback_detail ::
    "(json \<Rightarrow> string) \<Rightarrow> runtime_session \<Rightarrow> node_state \<Rightarrow> agent_report \<Rightarrow> pydict" where
  "verifier_feedback_detail repr_of s n r =
     (let results = judged_results repr_of s n r in
      [(''verifier_results'', JList (map dump_verifier_result results)),
       (''failed_verifiers'', JList (map dump_verifier_result (filter (\<lambda>v. \<not> vr_passed v) results))),
       (''feedback'', JList (map dump_feedback_record (judged_feedback repr_of s n r)))] @
      (case required_tool_progress repr_of s n of
         None \<Rightarrow> [] | Some p \<Rightarrow> [(''required_tool_progress'', JObj (dump_progress p))]))"

definition verifier_feedback ::
    "(json \<Rightarrow> string) \<Rightarrow> gate_contract option \<Rightarrow> gate_evaluator" where
  "verifier_feedback repr_of contract =
     (let c = (case contract of None \<Rightarrow> feedback_contract | Some x \<Rightarrow> x) in
      \<lparr>ge_name = ''verifier_feedback'', ge_contract = c, ge_evaluate = (\<lambda>s n r.
        let results = judged_results repr_of s n r in
        if results = [] then svc_return None
        else svc_bind svc_env (\<lambda>e. svc_return (Some (new_gate e 0 (gc_name c) (ns_key n)
          (if list_ex (\<lambda>v. \<not> vr_passed v) results then Gate_REQUIRES_DECISION else Gate_PASS)
          (verifier_feedback_detail repr_of s n r)))))\<rparr>)"

section \<open>Gates do not write the store\<close>

definition quiet_gate :: "gate_fn \<Rightarrow> bool" where
  "quiet_gate f \<longleftrightarrow> (\<forall>s n r w. w_store (snd (f s n r w)) = w_store w)"

lemma quiet_bind:
  assumes "\<And>w. w_store (snd (m w)) = w_store w" "\<And>x w. w_store (snd (f x w)) = w_store w"
  shows "w_store (snd (svc_bind m f w)) = w_store w"
  using assms(1) [of w] assms(2)
  by (auto simp: svc_bind_def split: prod.split sum.split)

lemma quiet_simps [simp]:
  "w_store (snd (svc_env w)) = w_store w" "w_store (snd (svc_return x w)) = w_store w"
  "w_store (snd (svc_lift q w)) = w_store w"
  by (simp_all add: svc_env_def svc_return_def svc_lift_def)

lemma quiet_drawn: "w_store (snd (svc_bind svc_env (\<lambda>e. svc_return (h e)) w)) = w_store w"
  by (rule quiet_bind) simp_all

lemma shipped_quiet:
  "quiet_gate (ge_evaluate (human_in_loop c))"
  "quiet_gate (ge_evaluate (schema_check c nm errors_of))"
  "quiet_gate (ge_evaluate (verifier_feedback repr_of contract))"
  by (simp_all add: quiet_gate_def human_in_loop_def schema_check_def verifier_feedback_def Let_def
      quiet_drawn)

lemma timeout_quiet: "timeout_evaluator c = Inr e \<Longrightarrow> quiet_gate (ge_evaluate e)"
  by (auto simp: quiet_gate_def timeout_evaluator_def Let_def split: option.splits
      intro!: quiet_bind)

lemma gate_loop_quiet:
  assumes "\<forall>e \<in> set es. quiet_gate (ge_evaluate e)"
  shows "w_store (snd (gate_loop fp es s n r w)) = w_store w"
  using assms
proof (induction es arbitrary: fp w)
  case (Cons e es)
  have "w_store (snd (ge_evaluate e s n r v)) = w_store v" for v
    using Cons.prems by (simp add: quiet_gate_def)
  with Cons show ?case
    by (auto intro!: quiet_bind split: option.split gate_outcome.split)
qed simp

lemma to_gate_fn_quiet: "\<forall>e \<in> set es. quiet_gate (ge_evaluate e) \<Longrightarrow> quiet_gate (to_gate_fn es)"
  by (simp add: quiet_gate_def to_gate_fn_def gate_loop_quiet)

lemma registry_quiet_hooks:
  assumes "hk_gate h = Some (to_gate_fn es)" "\<forall>e \<in> set es. quiet_gate (ge_evaluate e)"
    "hk_deriver h = default_apply_deriver"
  shows "quiet_hooks h"
  using to_gate_fn_quiet [OF assms(2)] assms(1,3)
  by (simp add: quiet_hooks_def quiet_gate_def default_apply_deriver_def quiet_bind)

section \<open>Halts win\<close>

text \<open>
  \<open>settles e s n r a\<close>: whatever the clock says, the evaluator answers with the outcome \<open>a\<close>.
  The abstract verdict of a registry is a function of the outcomes alone.
\<close>

definition settles ::
    "gate_evaluator \<Rightarrow> runtime_session \<Rightarrow> node_state \<Rightarrow> agent_report \<Rightarrow> gate_outcome option \<Rightarrow> bool"
  where
  "settles e s n r a \<longleftrightarrow>
     (\<forall>w. \<exists>g w'. ge_evaluate e s n r w = (Inr g, w') \<and> map_option gt_outcome g = a)"

definition halting :: "gate_outcome option \<Rightarrow> bool" where
  "halting a \<longleftrightarrow> a = Some Gate_BLOCK \<or> a = Some Gate_REQUIRES_DECISION"

definition verdict :: "(gate_severity \<times> gate_outcome option) list \<Rightarrow> exn + gate_outcome option" where
  "verdict xs =
     (case List.find (\<lambda>(_, a). halting a) xs of
        Some (sev, a) \<Rightarrow> if a = Some Gate_BLOCK \<and> sev \<noteq> Severity_BLOCKING then Inl RuntimeError else Inr a
      | None \<Rightarrow> Inr (if \<exists>x \<in> set xs. snd x \<noteq> None then Some Gate_PASS else None))"

lemma halting_simps [simp]:
  "halting (Some Gate_BLOCK)" "halting (Some Gate_REQUIRES_DECISION)" "\<not> halting (Some Gate_PASS)"
  "\<not> halting None"
  by (simp_all add: halting_def)

definition outcome_of :: "exn + gate option \<Rightarrow> exn + gate_outcome option" where
  "outcome_of x = (case x of Inl e \<Rightarrow> Inl e | Inr g \<Rightarrow> Inr (map_option gt_outcome g))"

definition answers ::
    "(gate_evaluator \<Rightarrow> gate_outcome option) \<Rightarrow> gate_evaluator list \<Rightarrow> node_state \<Rightarrow> agent_report \<Rightarrow>
     (gate_severity \<times> gate_outcome option) list" where
  "answers a es n r = map (\<lambda>e. (gc_severity (ge_contract e), a e))
     (applicable es (ns_key n) (ar_boundary_event r))"

lemma verdict_None [simp]: "verdict ((sev, None) # xs) = verdict xs"
  by (auto simp: verdict_def split: option.split)

lemma verdict_PASS [simp]:
  "verdict ((sev, Some Gate_PASS) # xs) =
     (if \<exists>y \<in> set xs. halting (snd y) then verdict xs else Inr (Some Gate_PASS))"
proof (cases "List.find (\<lambda>(_, a). halting a) xs")
  case None
  then have "\<not> (\<exists>y \<in> set xs. halting (snd y))" by (auto simp: find_None_iff)
  with None show ?thesis by (simp add: verdict_def)
next
  case (Some x)
  then have "x \<in> set xs" "halting (snd x)" by (auto dest: find_Some_in)
  with Some show ?thesis by (auto simp: verdict_def split: prod.split)
qed

lemma gate_loop_verdict:
  assumes "\<forall>e \<in> set es. settles e s n r (a e)" "map_option gt_outcome fp \<in> {None, Some Gate_PASS}"
  shows "outcome_of (fst (gate_loop fp es s n r w)) =
    (if fp = None \<or> (\<exists>x \<in> set (answers a es n r). halting (snd x)) then verdict (answers a es n r)
     else Inr (Some Gate_PASS))"
  using assms
proof (induction es arbitrary: fp w)
  case Nil
  then show ?case
    by (cases fp) (auto simp: outcome_of_def svc_return_def answers_def applicable_def verdict_def)
next
  case (Cons e es)
  show ?case
  proof (cases "applies (ge_contract e) (ns_key n) (ar_boundary_event r)")
    case False
    then have "answers a (e # es) n r = answers a es n r" by (simp add: answers_def applicable_def)
    with False Cons show ?thesis by simp
  next
    case True
    then have an: "answers a (e # es) n r = (gc_severity (ge_contract e), a e) # answers a es n r"
      by (simp add: answers_def applicable_def)
    obtain g w1 where g: "ge_evaluate e s n r w = (Inr g, w1)" "map_option gt_outcome g = a e"
      using Cons.prems(1) unfolding settles_def by fastforce
    note IH = Cons.IH [of _ w1]
    show ?thesis
    proof (cases "a e")
      case None
      then have "gate_loop fp (e # es) s n r w = gate_loop fp es s n r w1"
        using True g by (simp add: svc_bind_def)
      with IH [of fp] Cons.prems None show ?thesis by (simp add: an)
    next
      case (Some oc)
      then obtain x where x: "g = Some x" "gt_outcome x = oc" using g(2) by auto
      show ?thesis
      proof (cases oc)
        case Gate_PASS
        have "gate_loop fp (e # es) s n r w =
            gate_loop (if fp = None then Some x else fp) es s n r w1"
          using True g x Gate_PASS by (simp add: svc_bind_def)
        then show ?thesis
          using IH [of "if fp = None then Some x else fp"] Cons.prems Some Gate_PASS x
          by (auto simp: an)
      qed (use True g x Some in \<open>simp_all add: svc_bind_def an verdict_def outcome_of_def
          svc_return_def svc_lift_def\<close>)
    qed
  qed
qed

lemma registry_verdict:
  assumes "\<forall>e \<in> set es. settles e s n r (a e)"
  shows "outcome_of (fst (to_gate_fn es s n r w)) = verdict (answers a es n r)"
  using gate_loop_verdict [OF assms, of None] by (simp add: to_gate_fn_def)

lemma verdict_halts:
  "verdict xs = Inr a \<Longrightarrow> x \<in> set xs \<Longrightarrow> halting (snd x) \<Longrightarrow> halting a"
  by (cases x) (auto simp: verdict_def find_None_iff split: option.splits if_splits
      dest!: find_Some_in)

section \<open>What the shipped evaluators answer\<close>

lemma human_settles: "settles (human_in_loop c) s n r (Some Gate_REQUIRES_DECISION)"
  by (simp add: settles_def human_in_loop_def svc_bind_def svc_env_def svc_return_def Let_def
      new_gate_def)

lemma schema_settles:
  "settles (schema_check c nm errors_of) s n r
     (Some (if errors_of (ar_output r) = None then Gate_PASS else Gate_REQUIRES_DECISION))"
  by (simp add: settles_def schema_check_def svc_bind_def svc_env_def svc_return_def Let_def
      new_gate_def split: option.split)

lemma verifier_settles:
  "settles (verifier_feedback repr_of contract) s n r
     (if judged_results repr_of s n r = [] then None
      else if list_ex (\<lambda>v. \<not> vr_passed v) (judged_results repr_of s n r)
        then Some Gate_REQUIRES_DECISION else Some Gate_PASS)"
  by (simp add: settles_def verifier_feedback_def svc_bind_def svc_env_def svc_return_def Let_def
      new_gate_def)

text \<open>The tool check fails exactly when a required tool is missing and no open task covers it.\<close>

lemma required_tool_progress_Some:
  "(\<exists>p. required_tool_progress repr_of s n = Some p) \<longleftrightarrow>
     (\<exists>t \<in> set (goal_required_tools repr_of s). \<not> tool_succeeded s t) \<and>
     pending_tool_nodes repr_of s (ns_key n)
       (filter (\<lambda>t. \<not> tool_succeeded s t) (goal_required_tools repr_of s)) = []"
proof -
  have m: "filter (\<lambda>t. t \<notin> set (completed_required_tools s xs)) xs = filter (\<lambda>t. \<not> tool_succeeded s t) xs"
    for xs by (auto simp: completed_required_tools_def intro: filter_cong)
  show ?thesis
    unfolding required_tool_progress_def Let_def m by (auto simp: filter_empty_conv)
qed

lemma required_tool_result_fails [simp]: "\<not> vr_passed (required_tool_result p)"
  by (simp add: required_tool_result_def)

lemma verifier_demands_iff:
  "halting (if judged_results repr_of s n r = [] then None
      else if list_ex (\<lambda>v. \<not> vr_passed v) (judged_results repr_of s n r)
        then Some Gate_REQUIRES_DECISION else Some Gate_PASS) \<longleftrightarrow>
   (\<exists>v \<in> set (ar_verifier_results r). \<not> vr_passed v) \<or> (\<exists>p. required_tool_progress repr_of s n = Some p)"
  by (auto simp: judged_results_def list_ex_iff split: option.split)

text \<open>A timeout halts exactly when the latest attempt runs and its budget is exceeded.\<close>

lemma timeout_answer:
  assumes "timeout_evaluator c = Inr e" "gc_timeout_seconds c = Some q"
  shows "\<exists>g w'. ge_evaluate e s n r w = (Inr g, w') \<and>
    map_option gt_outcome g =
      (case running_attempt n of
         None \<Rightarrow> None
       | Some a \<Rightarrow> if timedelta_of_float q < ev_now (w_env w (w_ops w)) 0 - na_started_at a
           then Some Gate_REQUIRES_DECISION else None)"
  using assms
  by (auto simp: timeout_evaluator_def Let_def running_attempt_def svc_bind_def svc_env_def
      svc_return_def new_gate_def split: option.split)

end
