(* ===== verification/Report_Effects.thy ===== *)
theory Report_Effects
  imports Gating
begin

text \<open>
  What a report does. \<open>open_runtime_decision\<close> is followed to its end for each answer of the gate
  function: the decision it returns, and the node and session that are stored afterwards.
\<close>

section \<open>Well-formed stores along a run\<close>

lemma kept_keyed: "preserves evolves m \<Longrightarrow> keyed (w_store w) \<Longrightarrow> m w = (r, w') \<Longrightarrow> keyed (w_store w')"
  unfolding spec_def store_later_def by blast

lemma quiet_keyed: "quiet_gate f \<Longrightarrow> keyed (w_store w) \<Longrightarrow> f s n r w = (x, w') \<Longrightarrow> keyed (w_store w')"
  unfolding quiet_gate_def by (metis snd_conv)

lemma stores_of_get: "keyed (w_store w) \<Longrightarrow> get_session i w = (Inr s, w') \<Longrightarrow> stores w i s \<and> w' = w"
  by (simp add: get_session_Inr stores_def)

section \<open>Single steps\<close>

lemma node_only_transition_effect:
  assumes "node_only_transition i k st w = (Inr m, w')" "keyed (w_store w)"
  shows "\<exists>t. stores w' i t \<and> session_node t k = Some m \<and> ns_status m = st"
proof -
  obtain s where s: "stores w i s"
    using assms by (auto simp: node_only_transition_def svc_bind_Inr get_session_Inr stores_def)
  obtain n tm w1 s1 w2 where
    nt: "node_transition tm st n = Inr m" and p: "put_session (set_node k m s) w1 = (Inr s1, w2)"
    and w: "w_store w1 = w_store w" "w_store w' = w_store w2"
    using assms(1) unfolding node_only_transition_def
    by (auto simp: svc_bind_Inr get_stores_eq [OF s] svc_lift_Inr simp del: svc_lift_eq
        dest!: svc_emit_Inr split: option.splits)
  have k: "keyed (w_store w1)" using assms(2) w by simp
  have "stores w2 i (bump (set_node k m s))"
    by (rule put_stores(2) [OF p k]) (simp add: stores_id [OF s])
  with nt show ?thesis
    by (intro exI [of _ "bump (set_node k m s)"]) (auto simp: stores_same [OF w(2)])
qed

lemma get_node_Inr:
  "get_node i k w = (Inr n, w') \<longleftrightarrow>
     (\<exists>s. get_session i w = (Inr s, w') \<and> require_node s k = Inr n)"
  by (auto simp: get_node_def svc_bind_Inr get_session_Inr svc_lift_Inr simp del: svc_lift_eq)

section \<open>Decisions of the executor\<close>

text \<open>\<open>decided i k d w kind node_status session_status\<close>: what is returned and what is stored.\<close>

definition decided ::
    "string \<Rightarrow> string \<Rightarrow> runtime_decision \<Rightarrow> world \<Rightarrow> runtime_decision_kind \<Rightarrow> node_status \<Rightarrow>
     (session_status \<Rightarrow> bool) \<Rightarrow> bool" where
  "decided i k d w kind node_st session_st \<longleftrightarrow>
     rd_kind d = kind \<and> rd_node_key d = k \<and> rd_node_status d = node_st \<and>
     (\<exists>t m. stores w i t \<and> session_node t k = Some m \<and> ns_status m = node_st \<and>
       session_st (rs_status t))"

lemma pause_decided:
  assumes "apply_pause_intent i k it rp x w = (Inr d, w')" "keyed (w_store w)"
  shows "decided i k d w' Decided_AWAIT_GATE Node_PENDING_GATE (\<lambda>st. st = Session_WAITING_GATE)"
proof -
  obtain nm oc dt rec w1 u w2 m w3 s4 where
    rg: "record_gate_op i k nm oc dt w = (Inr rec, w1)"
    and rl: "(case rp of None \<Rightarrow> svc_return ()
        | Some r \<Rightarrow> release_report_execution_lease_if_present i r) w1 = (Inr u, w2)"
    and mp: "mark_node_pending_gate i k w2 = (Inr m, w3)"
    and mw: "mark_session_waiting_gate i w3 = (Inr s4, w')"
    and d: "rd_kind d = Decided_AWAIT_GATE" "rd_node_key d = k" "rd_node_status d = Node_PENDING_GATE"
    using assms(1) unfolding apply_pause_intent_def
    by (auto simp: svc_bind_Inr svc_lift_Inr simp del: svc_lift_eq)
  have k1: "keyed (w_store w1)" by (rule kept_keyed [OF hist_ops.gate_ops_preserve(1) assms(2) rg])
  have pr: "preserves evolves (case rp of None \<Rightarrow> svc_return ()
        | Some r \<Rightarrow> release_report_execution_lease_if_present i r)"
    by (intro hist.spec_case_option hist_ops.spec_done hist_cp.release_report_preserves)
  have k2: "keyed (w_store w2)" by (rule kept_keyed [OF pr k1 rl])
  obtain t where t: "stores w3 i t" "session_node t k = Some m" "ns_status m = Node_PENDING_GATE"
    using node_only_transition_effect [OF mp [unfolded mark_node_pending_gate_def] k2] by blast
  note e = session_transition_effect [OF mw [unfolded mark_session_waiting_gate_def] t(1)]
  then have "session_node s4 k = Some m"
    using t(2) by (simp add: nodes_at_def terminal_session_statuses_def)
  with d e t(3) show ?thesis by (auto simp: decided_def)
qed

lemma fail_decided:
  assumes "apply_fail_intent i k it x w = (Inr d, w')" "keyed (w_store w)"
  shows "decided i k d w' Decided_FAIL Node_FAILED (\<lambda>st. st = Session_FAILED)"
proof -
  obtain n s err w1 s2 where
    gn: "stores w i s" "session_node s k = Some n"
    and fn: "(if ns_status n \<noteq> Node_FAILED then svc_bind (fail_node i k err) (\<lambda>_. svc_return ())
        else svc_return ()) w = (Inr (), w1)"
    and fs: "fail_session i err w1 = (Inr s2, w')"
    and d: "rd_kind d = Decided_FAIL" "rd_node_key d = k" "rd_node_status d = Node_FAILED"
    using assms unfolding apply_fail_intent_def Let_def
    by (auto simp: svc_bind_Inr get_node_Inr dest!: stores_of_get [OF assms(2)])
  obtain t m where t: "stores w1 i t" "session_node t k = Some m" "ns_status m = Node_FAILED"
  proof (cases "ns_status n = Node_FAILED")
    case True
    with fn gn that show ?thesis by auto
  next
    case False
    then obtain m where "fail_node i k err w = (Inr m, w1)"
      using fn by (auto simp: svc_bind_Inr)
    from fail_node_effect(1,2) [OF this gn] that show ?thesis by auto
  qed
  note e = fail_session_effect [OF fs t(1)]
  then have "\<exists>l. session_node s2 k = Some l \<and> ns_status l = Node_FAILED"
    using t(2,3) by (simp add: nodes_at_def leases_cleared_def)
  with d e show ?thesis by (auto simp: decided_def)
qed

lemma complete_decided:
  assumes "apply_complete_intent i k it x w = (Inr d, w')" "keyed (w_store w)"
  shows "decided i k d w' Decided_CONTINUE Node_COMPLETED
    (\<lambda>st. st \<noteq> Session_WAITING_GATE \<and> st \<noteq> Session_RESUMING)"
proof -
  obtain s n where s: "stores w i s" "session_node s k = Some n"
  proof -
    obtain u w1 m w2 where r: "resume_session_if_waiting i w = (Inr u, w1)"
      and c: "complete_node i k (Some (ai_output it)) w1 = (Inr m, w2)"
      using assms(1) by (auto simp: apply_complete_intent_def svc_bind_Inr)
    obtain s w0 where "get_session i w = (Inr s, w0)"
      using r by (auto simp: resume_session_if_waiting_def svc_bind_Inr)
    then have s: "stores w i s" using stores_of_get [OF assms(2)] by blast
    obtain t where t: "stores w1 i t" "session_node t = session_node s"
      using resume_effect [OF r s] by blast
    obtain n where "session_node t k = Some n"
      using c by (auto simp: complete_node_def svc_bind_Inr get_stores_eq [OF t(1)]
          svc_lift_Inr simp del: svc_lift_eq)
    with t s that show ?thesis by simp
  qed
  have "rd_node_key d = k" using assms(1) by (auto simp: apply_complete_intent_def svc_bind_Inr)
  with apply_complete_effect [OF assms(1) s] show ?thesis
    by (auto simp: decided_def rerunning_def resumed_def)
qed

section \<open>Reports\<close>

text \<open>
  The decision table: what the answer of the gate function makes of a report that carries no
  error, under the default deriver.
\<close>

definition gate_effect :: "gate_outcome option \<Rightarrow> string \<Rightarrow> string \<Rightarrow> runtime_decision \<Rightarrow> world \<Rightarrow> bool" where
  "gate_effect oc i k d w \<longleftrightarrow>
     (if oc = Some Gate_REQUIRES_DECISION then
        decided i k d w Decided_AWAIT_GATE Node_PENDING_GATE (\<lambda>st. st = Session_WAITING_GATE)
      else if oc = Some Gate_BLOCK then
        decided i k d w Decided_FAIL Node_FAILED (\<lambda>st. st = Session_FAILED)
      else decided i k d w Decided_CONTINUE Node_COMPLETED
        (\<lambda>st. st \<noteq> Session_WAITING_GATE \<and> st \<noteq> Session_RESUMING))"

lemma apply_node_intent_kinds:
  assumes "apply_node_intent i it rp w = (Inr d, w')" "ai_node_key it = Some k"
  shows "ai_kind it = Intent_PAUSE \<Longrightarrow> \<exists>x. apply_pause_intent i k it rp x w = (Inr d, w')"
    "ai_kind it = Intent_FAIL \<Longrightarrow> \<exists>x. apply_fail_intent i k it x w = (Inr d, w')"
    "ai_kind it = Intent_COMPLETE \<Longrightarrow> \<exists>x. apply_complete_intent i k it x w = (Inr d, w')"
  using assms by (auto simp: apply_node_intent_def svc_bind_Inr required_node_key_def)

lemma derived_decided:
  assumes "svc_bind (default_apply_deriver s n r) (\<lambda>raw.
      svc_bind (svc_lift (coerce_apply_intent raw k g au)) (\<lambda>it. apply_node_intent i it rp)) w = (Inr d, w')"
    "keyed (w_store w)" "ns_key n = k"
  shows "decided i k d w' Decided_CONTINUE Node_COMPLETED
    (\<lambda>st. st \<noteq> Session_WAITING_GATE \<and> st \<noteq> Session_RESUMING)"
proof -
  obtain it where it: "apply_node_intent i it rp w = (Inr d, w')"
      "ai_kind it = Intent_COMPLETE" "ai_node_key it = Some k"
    using assms(1,3)
    by (auto simp: default_apply_deriver_def svc_bind_Inr coerce_apply_intent_def Let_def
        svc_lift_Inr simp del: svc_lift_eq split: if_splits)
  from apply_node_intent_kinds(3) [OF it(1,3,2)] complete_decided [OF _ assms(2)] show ?thesis by blast
qed

lemma gated_report_decided:
  assumes "apply_gated_report (Some f) default_apply_deriver i r s n w = (Inr d, w')"
    "keyed (w_store w)" "quiet_gate f" "ns_key n = ar_node_key r"
  shows "\<exists>g w1. f s n r w = (Inr g, w1) \<and> gate_effect (map_option gt_outcome g) i (ar_node_key r) d w'"
proof -
  obtain g w1 where g: "f s n r w = (Inr g, w1)"
    using assms(1) by (auto simp: apply_gated_report_def svc_bind_Inr)
  have k: "keyed (w_store w1)" by (rule quiet_keyed [OF assms(3,2) g])
  let ?derive = "svc_bind (default_apply_deriver s n r) (\<lambda>raw. svc_bind (svc_lift
    (coerce_apply_intent raw (ar_node_key r) g (deriver_authorization g))) (\<lambda>it. apply_node_intent i it (Some r)))"
  have c: "decided i (ar_node_key r) d w' Decided_CONTINUE Node_COMPLETED
      (\<lambda>st. st \<noteq> Session_WAITING_GATE \<and> st \<noteq> Session_RESUMING)" if "?derive w1 = (Inr d, w')"
    by (rule derived_decided [OF that k assms(4)])
  have "gate_effect (map_option gt_outcome g) i (ar_node_key r) d w'"
  proof (cases g)
    case None
    with assms(1) g c show ?thesis
      by (simp add: apply_gated_report_def svc_bind_def gate_effect_def)
  next
    case (Some x)
    show ?thesis
    proof (cases "gt_outcome x")
      case Gate_PASS
      with assms(1) g c Some show ?thesis
        by (simp add: apply_gated_report_def svc_bind_def [of "f s n r"] gate_effect_def)
    next
      case Gate_BLOCK
      then obtain it where it: "apply_node_intent i it (Some r) w1 = (Inr d, w')"
          "ai_kind it = Intent_FAIL" "ai_node_key it = Some (ar_node_key r)"
        using assms(1) g Some
        by (auto simp: apply_gated_report_def svc_bind_def [of "f s n r"] svc_bind_Inr svc_lift_Inr
            intent_fail_eq simp del: svc_lift_eq)
      from apply_node_intent_kinds(2) [OF it(1,3,2)] fail_decided [OF _ k] Some Gate_BLOCK
      show ?thesis by (auto simp: gate_effect_def)
    next
      case Gate_REQUIRES_DECISION
      then obtain it where it: "apply_node_intent i it (Some r) w1 = (Inr d, w')"
          "ai_kind it = Intent_PAUSE" "ai_node_key it = Some (ar_node_key r)"
        using assms(1) g Some
        by (auto simp: apply_gated_report_def svc_bind_def [of "f s n r"] svc_bind_Inr svc_lift_Inr
            simp del: svc_lift_eq)
      from apply_node_intent_kinds(1) [OF it(1,3,2)] pause_decided [OF _ k] Some Gate_REQUIRES_DECISION
      show ?thesis by (auto simp: gate_effect_def)
    qed
  qed
  with g show ?thesis by blast
qed

text \<open>The way from the request to the gate: the node keeps its key, the store stays well-formed.\<close>

lemma later_node_key:
  assumes "preserves evolves m" "stores w i s" "m w = (x, w')" "session_node s k = Some n"
    "ns_key n = k"
  shows "\<exists>t l. stores w' i t \<and> session_node t k = Some l \<and> ns_key l = k"
proof -
  have g: "keyed (w_store w)" "memory_get (w_store w) i = Some s" using assms(2) by (simp_all add: stores_def)
  obtain t where t: "memory_get (w_store w') i = Some t" "later evolves s t"
    using hist.preserves_run(1) [OF assms(1) g(1) assms(3) g(2)] by blast
  have "extends node_evolves (rs_nodes s) (rs_nodes t)"
    using later_evolves(1) [OF t(2)] by (simp add: evolves_def)
  then obtain l where "session_node t k = Some l" "ns_key l = ns_key n"
    using assms(4) by (auto simp: session_node_def node_evolves_def dest!: extendsD)
  with t(1) kept_keyed [OF assms(1) g(1) assms(3)] assms(5) show ?thesis by (auto simp: stores_def)
qed

lemma svc_bind_assoc: "svc_bind (svc_bind m f) g = svc_bind m (\<lambda>x. svc_bind (f x) g)"
  by (auto simp: svc_bind_def fun_eq_iff split: prod.split sum.split)

lemma svc_bind_unit: "svc_bind (svc_return x) f = f x"
  by (simp add: svc_bind_def svc_return_def fun_eq_iff)

lemma svc_bind_raised: "svc_bind (svc_lift (Inl e)) f = svc_lift (Inl e)"
  by (simp add: svc_bind_def svc_lift_def fun_eq_iff)

lemma svc_bind_option:
  "svc_bind (case x of None \<Rightarrow> a | Some y \<Rightarrow> b y) f =
     (case x of None \<Rightarrow> svc_bind a f | Some y \<Rightarrow> svc_bind (b y) f)"
  by (cases x) simp_all

definition report_prefix :: "string \<Rightarrow> agent_report \<Rightarrow> node_state svc" where
  "report_prefix i r =
     svc_bind (active_session i) (\<lambda>s.
     case session_node s (ar_node_key r) of
       None \<Rightarrow> svc_lift (Inl RuntimeError)
     | Some n0 \<Rightarrow>
         svc_bind (if ns_status n0 = Node_QUEUED
             then svc_bind (start_node i (ar_node_key r)) (\<lambda>_.
                  svc_bind (get_session i) (\<lambda>s1. svc_lift (node_item s1 (ar_node_key r))))
             else svc_return n0) (\<lambda>n.
         svc_bind (assert_report_execution_lease i n r) (\<lambda>_. svc_return n)))"

lemma report_prefix_preserves: "preserves evolves (report_prefix i r)"
  unfolding report_prefix_def
  by (intro hist.spec_then hist_cp.active_session_preserves hist.spec_case_option hist_ops.spec_fail
      hist.spec_if hist_ops.spec_done hist_ops.start_node_preserves hist_ops.queries_preserve
      hist_cp.assert_report_execution_lease_preserves)

lemma open_runtime_decision_prefix:
  "open_runtime_decision gf dv i r w = svc_bind (report_prefix i r) (\<lambda>n.
     if truthy (ar_error r)
     then svc_bind (svc_lift (intent_fail (ar_node_key r) (the (ar_error r)) None
            [(''source'', JStr ''agent_report_error'')])) (\<lambda>it. apply_node_intent i it (Some r))
     else
       svc_bind (if running_attempt n = None
           then svc_bind (start_attempt i (ar_node_key r) (ar_trace_id r)) (\<lambda>_. svc_return ())
           else svc_return ()) (\<lambda>_.
       svc_bind (consume_agent_report i r) (\<lambda>_.
       svc_bind (get_session i) (\<lambda>s2.
       svc_bind (svc_lift (node_item s2 (ar_node_key r))) (\<lambda>n2.
       apply_gated_report gf dv i r s2 n2))))) w"
  unfolding open_runtime_decision_def report_prefix_def svc_bind_assoc svc_bind_option svc_bind_unit
    svc_bind_raised by (rule refl)

lemma report_decided:
  assumes "open_runtime_decision (Some f) default_apply_deriver i r w = (Inr d, w')"
    "stores w i s" "session_node s (ar_node_key r) = Some n" "ns_key n = ar_node_key r" "quiet_gate f"
  shows "truthy (ar_error r) \<Longrightarrow>
      decided i (ar_node_key r) d w' Decided_FAIL Node_FAILED (\<lambda>st. st = Session_FAILED)"
    "\<not> truthy (ar_error r) \<Longrightarrow> \<exists>t m g w1 w2. stores w1 i t \<and> session_node t (ar_node_key r) = Some m \<and>
      f t m r w1 = (Inr g, w2) \<and> gate_effect (map_option gt_outcome g) i (ar_node_key r) d w'"
proof -
  let ?k = "ar_node_key r"
  obtain n1 w1 where pre: "report_prefix i r w = (Inr n1, w1)"
    using assms(1) by (auto simp: open_runtime_decision_prefix svc_bind_Inr)
  obtain t where t: "stores w1 i t" "\<exists>l. session_node t ?k = Some l \<and> ns_key l = ?k"
    using later_node_key [OF report_prefix_preserves assms(2) pre assms(3,4)] by blast
  have k1: "keyed (w_store w1)" using t(1) by (simp add: stores_def)
  {
    assume e: "truthy (ar_error r)"
    then obtain it where it: "apply_node_intent i it (Some r) w1 = (Inr d, w')"
        "ai_kind it = Intent_FAIL" "ai_node_key it = Some ?k"
      using assms(1) pre
      by (auto simp: open_runtime_decision_prefix svc_bind_def [of "report_prefix i r"] svc_bind_Inr
          svc_lift_Inr intent_fail_eq simp del: svc_lift_eq split: if_splits)
    from apply_node_intent_kinds(2) [OF it(1,3,2)] fail_decided [OF _ k1]
    show "decided i ?k d w' Decided_FAIL Node_FAILED (\<lambda>st. st = Session_FAILED)" by blast
  next
    assume e: "\<not> truthy (ar_error r)"
    let ?start = "if running_attempt n1 = None
      then svc_bind (start_attempt i ?k (ar_trace_id r)) (\<lambda>_. svc_return ()) else svc_return ()"
    obtain w2 u w3 where st: "?start w1 = (Inr (), w2)"
      and co: "consume_agent_report i r w2 = (Inr u, w3)"
      and rest: "svc_bind (get_session i) (\<lambda>s2. svc_bind (svc_lift (node_item s2 ?k)) (\<lambda>n2.
        apply_gated_report (Some f) default_apply_deriver i r s2 n2)) w3 = (Inr d, w')"
      using assms(1) pre e
      by (auto simp: open_runtime_decision_prefix svc_bind_def [of "report_prefix i r"] svc_bind_Inr
          svc_lift_Inr simp del: svc_lift_eq)
    have "preserves evolves ?start"
      by (intro hist.spec_if hist.spec_then hist_ops.start_attempt_preserves hist_ops.spec_done)
    from later_node_key [OF this t(1) st] t(2)
    obtain t2 where t2: "stores w2 i t2" "\<exists>l. session_node t2 ?k = Some l \<and> ns_key l = ?k" by blast
    from later_node_key [OF hist_ops.consume_agent_report_preserves t2(1) co] t2(2)
    obtain t3 m where t3: "stores w3 i t3" "session_node t3 ?k = Some m" "ns_key m = ?k" by blast
    have ap: "apply_gated_report (Some f) default_apply_deriver i r t3 m w3 = (Inr d, w')"
      using rest t3(2)
      by (auto simp: svc_bind_Inr get_stores_eq [OF t3(1)] node_item_def)
    have k3: "keyed (w_store w3)" using t3(1) by (simp add: stores_def)
    from gated_report_decided [OF ap k3 assms(5) t3(3)] t3
    show "\<exists>t m g w1 w2. stores w1 i t \<and> session_node t ?k = Some m \<and> f t m r w1 = (Inr g, w2) \<and>
        gate_effect (map_option gt_outcome g) i ?k d w'" by blast
  }
qed

text \<open>With evaluators that settle, the decision is the verdict of the registry.\<close>

lemma registry_decides:
  assumes "open_runtime_decision (Some (to_gate_fn es)) default_apply_deriver i r w = (Inr d, w')"
    "stores w i s" "session_node s (ar_node_key r) = Some n" "ns_key n = ar_node_key r"
    "\<forall>e \<in> set es. quiet_gate (ge_evaluate e)" "\<not> truthy (ar_error r)"
    "\<And>t m. session_node t (ar_node_key r) = Some m \<Longrightarrow> \<forall>e \<in> set es. settles e t m r (a e)"
  shows "\<exists>oc m. verdict (answers a es m r) = Inr oc \<and> gate_effect oc i (ar_node_key r) d w'"
proof -
  obtain t m g w1 w2 where t: "session_node t (ar_node_key r) = Some m"
      "to_gate_fn es t m r w1 = (Inr g, w2)"
      "gate_effect (map_option gt_outcome g) i (ar_node_key r) d w'"
    using report_decided(2) [OF assms(1-4) to_gate_fn_quiet [OF assms(5)] assms(6)] by blast
  have "verdict (answers a es m r) = Inr (map_option gt_outcome g)"
    using registry_verdict [OF assms(7) [OF t(1)], of w1] t(2) by (simp add: outcome_of_def)
  with t(3) show ?thesis by blast
qed

text \<open>
  An evaluator that always demands a decision when it is asked is enough: the composed gate
  function never lets the report through, whatever the others answer.
\<close>

lemma gate_loop_demands:
  assumes "gate_loop fp es s n r w = (Inr g, w')" "e \<in> set es"
    "applies (ge_contract e) (ns_key n) (ar_boundary_event r)"
    "settles e s n r (Some Gate_REQUIRES_DECISION)"
  shows "halting (map_option gt_outcome g)"
  using assms(1,2)
proof (induction es arbitrary: fp w)
  case (Cons e' es)
  show ?case
  proof (cases "e' = e")
    case True
    obtain x w1 where "ge_evaluate e s n r w = (Inr (Some x), w1)" "gt_outcome x = Gate_REQUIRES_DECISION"
      using assms(4) unfolding settles_def by fastforce
    with Cons.prems(1) True assms(3) show ?thesis by (simp add: svc_bind_def)
  next
    case False
    then have e: "e \<in> set es" using Cons.prems(2) by simp
    note IH = Cons.IH [OF _ e]
    show ?thesis
    proof (cases "applies (ge_contract e') (ns_key n) (ar_boundary_event r)")
      case False
      with Cons.prems(1) IH show ?thesis by simp
    next
      case True
      then obtain x w1 where x: "ge_evaluate e' s n r w = (Inr x, w1)"
        using Cons.prems(1) by (auto simp: svc_bind_Inr)
      show ?thesis
      proof (cases x)
        case None
        with True Cons.prems(1) x IH show ?thesis by (simp add: svc_bind_def)
      next
        case (Some y)
        with True Cons.prems(1) x IH show ?thesis
          by (cases "gt_outcome y") (auto simp: svc_bind_def split: if_splits)
      qed
    qed
  qed
qed simp

lemma demanded_decision_stops:
  assumes "open_runtime_decision (Some (to_gate_fn es)) default_apply_deriver i r w = (Inr d, w')"
    "stores w i s" "session_node s (ar_node_key r) = Some n" "ns_key n = ar_node_key r"
    "\<forall>e \<in> set es. quiet_gate (ge_evaluate e)"
    "e \<in> set es" "\<And>k. applies (ge_contract e) k (ar_boundary_event r)"
    "\<And>t m. settles e t m r (Some Gate_REQUIRES_DECISION)"
  shows "rd_kind d \<noteq> Decided_CONTINUE \<and>
    (\<exists>t m. stores w' i t \<and> session_node t (ar_node_key r) = Some m \<and>
      ns_status m \<in> {Node_PENDING_GATE, Node_FAILED} \<and>
      rs_status t \<in> {Session_WAITING_GATE, Session_FAILED})"
proof (cases "truthy (ar_error r)")
  case True
  from report_decided(1) [OF assms(1-4) to_gate_fn_quiet [OF assms(5)] True]
  show ?thesis by (auto simp: decided_def)
next
  case False
  obtain t m g w1 w2 where t: "to_gate_fn es t m r w1 = (Inr g, w2)"
      "gate_effect (map_option gt_outcome g) i (ar_node_key r) d w'"
    using report_decided(2) [OF assms(1-4) to_gate_fn_quiet [OF assms(5)] False] by blast
  have "halting (map_option gt_outcome g)"
    by (rule gate_loop_demands [OF t(1) [unfolded to_gate_fn_def] assms(6,7,8)])
  with t(2) show ?thesis
    by (auto simp: gate_effect_def halting_def decided_def split: if_splits)
qed

end
