(* ===== verification/Agent_Trace.thy ===== *)
theory Agent_Trace
  imports Service_Monad
begin

text \<open>
  \<^verbatim>\<open>AgentExecutionRuntime.emit_trace\<close>: the events of the orchestration layer, with and
  without an actor.
\<close>

definition trace_event ::
    "observation_event_kind \<Rightarrow> string \<Rightarrow> string \<Rightarrow> string \<Rightarrow> string \<Rightarrow> pydict \<Rightarrow> string \<Rightarrow> event_builder" where
  "trace_event kind session_id key execution_id trace_id detail level event_id created_at =
     (event_draft kind session_id (Some key) (Some trace_id, Some execution_id) None detail event_id
        created_at)\<lparr>oe_source := ''orchestration'', oe_level := level\<rparr>"

definition actor_event ::
    "observation_event_kind \<Rightarrow> string \<Rightarrow> string \<Rightarrow> string \<Rightarrow> string \<Rightarrow> string \<Rightarrow> pydict \<Rightarrow> event_builder" where
  "actor_event kind session_id key execution_id trace_id actor detail event_id created_at =
     (trace_event kind session_id key execution_id trace_id detail ''info'' event_id created_at)
       \<lparr>oe_actor := Some actor\<rparr>"

text \<open>What identifies the execution an agent works in.\<close>

record agent_call =
  ac_session_id :: string
  ac_node_key :: string
  ac_execution_id :: string
  ac_trace_id :: string

definition emit_trace :: "agent_call \<Rightarrow> observation_event_kind \<Rightarrow> pydict \<Rightarrow> string \<Rightarrow> unit svc" where
  "emit_trace a kind detail level =
     svc_emit (trace_event kind (ac_session_id a) (ac_node_key a) (ac_execution_id a) (ac_trace_id a)
       detail level)"

definition emit_actor :: "agent_call \<Rightarrow> observation_event_kind \<Rightarrow> string \<Rightarrow> pydict \<Rightarrow> unit svc" where
  "emit_actor a kind actor detail =
     svc_emit (actor_event kind (ac_session_id a) (ac_node_key a) (ac_execution_id a) (ac_trace_id a)
       actor detail)"

end
