(* ===== verification/Harness_Types.thy ===== *)
theory Harness_Types
  imports Py_Values
begin

text \<open>
  \<^verbatim>\<open>harness/base.py\<close>: the messages, tool calls and results that models, tools and
  agents exchange.
\<close>

datatype stop_reason = Stop_END_TURN | Stop_TOOL_USE | Stop_MAX_TOKENS | Stop_SEQUENCE | Stop_ERROR

fun stop_reason_value :: "stop_reason \<Rightarrow> string" where
  "stop_reason_value Stop_END_TURN = ''end_turn''"
| "stop_reason_value Stop_TOOL_USE = ''tool_use''"
| "stop_reason_value Stop_MAX_TOKENS = ''max_tokens''"
| "stop_reason_value Stop_SEQUENCE = ''stop_sequence''"
| "stop_reason_value Stop_ERROR = ''error''"

record tool_spec =
  tl_name :: string
  tl_description :: string
  tl_input_schema :: pydict

record tool_call =
  tc_id :: string
  tc_name :: string
  tc_arguments :: pydict

record tool_result_block =
  tb_call_id :: string
  tb_content :: string
  tb_is_error :: bool

datatype harness_role = Harness_SYSTEM | Harness_USER | Harness_ASSISTANT | Harness_TOOL

record harness_message =
  hm_role :: harness_role
  hm_content :: string
  hm_tool_calls :: "tool_call list"
  hm_tool_results :: "tool_result_block list"
  hm_name :: "string option"
  hm_reasoning :: "string option"

text \<open>A message with the defaults of its class.\<close>

definition harness_message_of :: "harness_role \<Rightarrow> string \<Rightarrow> harness_message" where
  "harness_message_of role content =
     \<lparr>hm_role = role, hm_content = content, hm_tool_calls = [], hm_tool_results = [], hm_name = None,
      hm_reasoning = None\<rparr>"

record usage =
  us_input :: int
  us_output :: int
  us_cache_creation :: int
  us_cache_read :: int

definition no_usage :: usage where
  "no_usage = \<lparr>us_input = 0, us_output = 0, us_cache_creation = 0, us_cache_read = 0\<rparr>"

definition dump_usage :: "usage \<Rightarrow> json" where
  "dump_usage u = JObj
     [(''input_tokens'', JInt (us_input u)), (''output_tokens'', JInt (us_output u)),
      (''cache_creation_input_tokens'', JInt (us_cache_creation u)),
      (''cache_read_input_tokens'', JInt (us_cache_read u))]"

record invocation_result =
  iv_content :: string
  iv_tool_calls :: "tool_call list"
  iv_stop_reason :: stop_reason
  iv_usage :: usage
  iv_model_id :: "string option"
  iv_reasoning :: "string option"
  iv_subagent_id :: "string option"
  iv_subagent_summary :: "string option"
  iv_raw :: pydict

text \<open>\<^verbatim>\<open>_origin_detail\<close>: the origin of a call, when it has one.\<close>

definition origin_detail :: "pydict \<Rightarrow> pydict" where
  "origin_detail origin = (if origin = [] then [] else [(''origin'', JObj origin)])"

end
