(* ===== verification/Episode_Types.thy ===== *)
theory Episode_Types
  imports Harness_Types Control_Plane
begin

text \<open>
  The contract of an execution harness: \<^verbatim>\<open>orchestration/execution_harness.py\<close> without the
  two harnesses, and \<^verbatim>\<open>resolve_node_execution_mode\<close> of
  \<^verbatim>\<open>orchestration/planning_contracts.py\<close>. An episode is one execution of one node; its request
  and its outcome are typed values, and the outcome proposes what the control plane decides.
\<close>

section \<open>How a node is run\<close>

datatype node_execution_mode = Execution_DIRECT | Execution_SUBAGENT | Execution_TEAM

fun execution_mode_value :: "node_execution_mode \<Rightarrow> string" where
  "execution_mode_value Execution_DIRECT = ''direct''"
| "execution_mode_value Execution_SUBAGENT = ''subagent''"
| "execution_mode_value Execution_TEAM = ''team''"

definition execution_modes :: "node_execution_mode list" where
  "execution_modes = [Execution_DIRECT, Execution_SUBAGENT, Execution_TEAM]"

definition resolve_node_execution_mode ::
    "(json \<Rightarrow> string) \<Rightarrow> pydict \<Rightarrow> exn + node_execution_mode" where
  "resolve_node_execution_mode repr_of config =
     (if map_of config ''mas_team'' \<noteq> None then Inr Execution_TEAM
      else
        let given = dict_get config ''execution_mode'';
            raw = (if json_truth given then py_str repr_of given
                   else execution_mode_value Execution_DIRECT) in
        case List.find (\<lambda>m. execution_mode_value m = raw) execution_modes of
          None \<Rightarrow> Inl ValueError
        | Some m \<Rightarrow> Inr m)"

section \<open>What a harness declares\<close>

datatype execution_harness_feature =
    Feature_MULTI_TURN | Feature_SUBAGENTS | Feature_TEAM_INTERACTION | Feature_COMPACTION
  | Feature_TOOL_LOOP_STRATEGY | Feature_OBSERVABILITY_EMISSION | Feature_VERIFIER_INTEGRATION
  | Feature_RECOVERY_STRATEGY | Feature_BUDGET_POLICY

record harness_capabilities =
  hc_supports_multi_turn :: bool
  hc_supports_subagents :: bool
  hc_supports_team_interaction :: bool
  hc_supports_compaction :: bool
  hc_supports_tool_loop_strategy :: bool
  hc_supports_observability_emission :: bool
  hc_supports_verifier_integration :: bool
  hc_supports_recovery_strategy :: bool
  hc_supports_budget_policy :: bool
  hc_max_context_tokens :: int

fun capability_field :: "execution_harness_feature \<Rightarrow> harness_capabilities \<Rightarrow> bool" where
  "capability_field Feature_MULTI_TURN = hc_supports_multi_turn"
| "capability_field Feature_SUBAGENTS = hc_supports_subagents"
| "capability_field Feature_TEAM_INTERACTION = hc_supports_team_interaction"
| "capability_field Feature_COMPACTION = hc_supports_compaction"
| "capability_field Feature_TOOL_LOOP_STRATEGY = hc_supports_tool_loop_strategy"
| "capability_field Feature_OBSERVABILITY_EMISSION = hc_supports_observability_emission"
| "capability_field Feature_VERIFIER_INTEGRATION = hc_supports_verifier_integration"
| "capability_field Feature_RECOVERY_STRATEGY = hc_supports_recovery_strategy"
| "capability_field Feature_BUDGET_POLICY = hc_supports_budget_policy"

definition supports_features :: "harness_capabilities \<Rightarrow> execution_harness_feature list \<Rightarrow> bool" where
  "supports_features c features = list_all (\<lambda>f. capability_field f c) features"

definition require_features ::
    "harness_capabilities \<Rightarrow> execution_harness_feature list \<Rightarrow> exn + unit" where
  "require_features c features =
     raise_when (filter (\<lambda>f. \<not> capability_field f c) features \<noteq> []) CapabilityError"

text \<open>What the runtime around a model provider declares, and its refusal to compact.\<close>

definition provider_capabilities :: "int \<Rightarrow> harness_capabilities" where
  "provider_capabilities context_limit =
     \<lparr>hc_supports_multi_turn = True, hc_supports_subagents = True,
      hc_supports_team_interaction = True, hc_supports_compaction = False,
      hc_supports_tool_loop_strategy = True, hc_supports_observability_emission = True,
      hc_supports_verifier_integration = True, hc_supports_recovery_strategy = True,
      hc_supports_budget_policy = True, hc_max_context_tokens = context_limit\<rparr>"

definition compact_context :: "harness_capabilities \<Rightarrow> exn + string" where
  "compact_context c = and_then (require_features c [Feature_COMPACTION]) (\<lambda>_. Inl NotImplementedError)"

section \<open>Requests\<close>

datatype failure_category =
    Failure_NONE | Failure_MODEL_ERROR | Failure_TOOL_ERROR | Failure_UNRESOLVED_TOOL_CALLS
  | Failure_VERIFICATION_FAILED | Failure_TIMEOUT | Failure_UNKNOWN

fun failure_value :: "failure_category \<Rightarrow> string" where
  "failure_value Failure_NONE = ''none''"
| "failure_value Failure_MODEL_ERROR = ''model_error''"
| "failure_value Failure_TOOL_ERROR = ''tool_error''"
| "failure_value Failure_UNRESOLVED_TOOL_CALLS = ''unresolved_tool_calls''"
| "failure_value Failure_VERIFICATION_FAILED = ''verification_failed''"
| "failure_value Failure_TIMEOUT = ''timeout''"
| "failure_value Failure_UNKNOWN = ''unknown''"

record execution_constraints =
  xc_network_allowed :: bool
  xc_process_allowed :: bool
  xc_allowed_tool_names :: "string list"
  xc_max_turns :: "int option"
  xc_max_tokens :: "int option"
  xc_timeout_seconds :: "rat option"

text \<open>The validators of the class: limits that are given are positive.\<close>

definition make_constraints :: "execution_constraints \<Rightarrow> exn + execution_constraints" where
  "make_constraints c =
     and_then (raise_when (case xc_max_turns c of None \<Rightarrow> False | Some n \<Rightarrow> n < 1) ValidationError) (\<lambda>_.
     and_then (raise_when (case xc_max_tokens c of None \<Rightarrow> False | Some n \<Rightarrow> n < 1) ValidationError) (\<lambda>_.
     and_then (raise_when (case xc_timeout_seconds c of None \<Rightarrow> False | Some q \<Rightarrow> q \<le> 0) ValidationError) (\<lambda>_.
     Inr c)))"

definition no_constraints :: execution_constraints where
  "no_constraints = \<lparr>xc_network_allowed = True, xc_process_allowed = True, xc_allowed_tool_names = [],
     xc_max_turns = None, xc_max_tokens = None, xc_timeout_seconds = None\<rparr>"

record resume_context =
  rx_lease_token :: "string option"
  rx_resume_from_attempt_id :: "string option"
  rx_prior_failure :: "failure_category option"
  rx_retry_no :: nat

text \<open>Of the policy the harnesses read the constraints only.\<close>

record episode_request =
  eq_session :: runtime_session
  eq_node_key :: string
  eq_agent_role :: string
  eq_node_config :: pydict
  eq_execution_id :: string
  eq_trace_id :: string
  eq_lease_token :: "string option"
  eq_constraints :: execution_constraints
  eq_resume :: "resume_context option"

text \<open>The token of the context of a resumed episode goes before the one of the request.\<close>

definition effective_lease_token :: "episode_request \<Rightarrow> string option" where
  "effective_lease_token q =
     (case eq_resume q of
        Some r \<Rightarrow> (case rx_lease_token r of Some t \<Rightarrow> Some t | None \<Rightarrow> eq_lease_token q)
      | None \<Rightarrow> eq_lease_token q)"

section \<open>Outcomes\<close>

record model_invocation_evidence =
  me_model_id :: "string option"
  me_round_no :: int
  me_input_tokens :: int
  me_output_tokens :: int
  me_stop_reason :: "string option"

record tool_call_evidence =
  ce_tool_call_id :: string
  ce_tool_name :: string
  ce_round_no :: int
  ce_is_error :: bool

datatype proposed_kind = Proposed_COMPLETE | Proposed_FAIL | Proposed_REQUEUE

fun to_apply_intent_kind :: "proposed_kind \<Rightarrow> apply_intent_kind" where
  "to_apply_intent_kind Proposed_COMPLETE = Intent_COMPLETE"
| "to_apply_intent_kind Proposed_FAIL = Intent_FAIL"
| "to_apply_intent_kind Proposed_REQUEUE = Intent_REQUEUE"

record proposed_transition =
  px_node_key :: string
  px_kind :: proposed_kind
  px_reason :: string

datatype recovery_signal_kind = Signal_RETRYABLE | Signal_NON_RETRYABLE | Signal_NEEDS_REPLAN

record recovery_signal =
  sg_kind :: recovery_signal_kind
  sg_failure :: failure_category
  sg_detail :: string

record episode_outcome =
  eo_report :: agent_report
  eo_failure :: failure_category
  eo_final_result :: "string option"
  eo_model_invocations :: "model_invocation_evidence list"
  eo_tool_evidence :: "tool_call_evidence list"
  eo_verifier_evidence :: "verifier_result list"
  eo_trace_event_refs :: "string list"
  eo_proposed_transitions :: "proposed_transition list"
  eo_recovery_signals :: "recovery_signal list"

definition with_harness_identity :: "string \<Rightarrow> agent_report \<Rightarrow> agent_report" where
  "with_harness_identity harness_id r = r\<lparr>ar_harness_id := Some harness_id\<rparr>"

definition classify_report_failure :: "agent_report \<Rightarrow> failure_category" where
  "classify_report_failure r =
     (if list_ex (\<lambda>v. \<not> vr_passed v) (ar_verifier_results r) then Failure_VERIFICATION_FAILED
      else Failure_NONE)"

definition final_result :: "agent_report \<Rightarrow> string option" where
  "final_result r = json_str (dict_get (ar_output r) ''text'')"

definition proposed_transitions :: "agent_report \<Rightarrow> failure_category \<Rightarrow> proposed_transition list" where
  "proposed_transitions r f =
     (if f = Failure_NONE
      then [\<lparr>px_node_key = ar_node_key r, px_kind = Proposed_COMPLETE, px_reason = []\<rparr>]
      else [\<lparr>px_node_key = ar_node_key r, px_kind = Proposed_FAIL, px_reason = failure_value f\<rparr>])"

definition recovery_signals :: "failure_category \<Rightarrow> recovery_signal list" where
  "recovery_signals f =
     (if f = Failure_NONE then []
      else [\<lparr>sg_kind = Signal_NON_RETRYABLE, sg_failure = f, sg_detail = failure_value f\<rparr>])"

section \<open>What the contract gives\<close>

lemma execution_mode_value_eq [simp]: "execution_mode_value m = execution_mode_value n \<longleftrightarrow> m = n"
  by (cases m; cases n) simp_all

lemma find_execution_mode:
  "List.find (\<lambda>m. execution_mode_value m = raw) execution_modes = Some m \<longleftrightarrow> execution_mode_value m = raw"
proof
  assume "List.find (\<lambda>m. execution_mode_value m = raw) execution_modes = Some m"
  then show "execution_mode_value m = raw" by (auto simp: find_Some_iff)
next
  assume "execution_mode_value m = raw"
  then have "raw = execution_mode_value m" ..
  then show "List.find (\<lambda>m. execution_mode_value m = raw) execution_modes = Some m"
    by (cases m) (simp_all add: execution_modes_def)
qed

lemma resolve_mode_iff:
  "resolve_node_execution_mode repr_of config = Inr m \<longleftrightarrow>
     (if map_of config ''mas_team'' \<noteq> None then m = Execution_TEAM
      else execution_mode_value m = (if json_truth (dict_get config ''execution_mode'')
        then py_str repr_of (dict_get config ''execution_mode'') else ''direct''))"
  using find_execution_mode [of "if json_truth (dict_get config ''execution_mode'')
        then py_str repr_of (dict_get config ''execution_mode'') else ''direct''" m]
  by (auto simp: resolve_node_execution_mode_def Let_def split: option.split)

lemma require_supports: "require_features c fs = Inr () \<longleftrightarrow> supports_features c fs"
  by (auto simp: require_features_def supports_features_def list_all_iff filter_empty_conv)

lemma compaction_never_returns: "compact_context c \<noteq> Inr x"
  by (simp add: compact_context_def)

lemma proposal_is_consistent:
  "map px_kind (proposed_transitions r f) = [Proposed_COMPLETE] \<longleftrightarrow> f = Failure_NONE"
  "recovery_signals f = [] \<longleftrightarrow> f = Failure_NONE"
  by (simp_all add: proposed_transitions_def recovery_signals_def)

end
