(* ===== verification/Lease_Heartbeat.thy ===== *)
theory Lease_Heartbeat
  imports Service_Facts
begin

text \<open>
  The heartbeat task of \<^verbatim>\<open>orchestration/agent_execution.py\<close>. While an episode runs under a
  lease a second task refreshes the lease each time its timer runs out. The event loop switches
  tasks where the episode waits: in a call of a model or of a tool (\<open>svc_await\<close>). How often the
  timer runs out in each wait is arbitrary. A heartbeat that raises ends the task, not the
  episode; the exception takes the place of what the episode returned or raised.
\<close>

section \<open>The task\<close>

fun heart_beats :: "nat \<Rightarrow> world \<Rightarrow> world" where
  "heart_beats 0 w = w"
| "heart_beats (Suc n) w =
     (case w_heart w of
        None \<Rightarrow> w
      | Some b \<Rightarrow>
          if hb_failed b \<noteq> None then w
          else case heartbeat_execution_lease_op (hb_session b) (hb_execution b) (hb_token b) (hb_ttl b) w of
            (Inr _, w1) \<Rightarrow> heart_beats n w1
          | (Inl e, w1) \<Rightarrow> w1\<lparr>w_heart := Some (b\<lparr>hb_failed := Some e\<rparr>)\<rparr>)"

text \<open>A wait of the episode.\<close>

definition svc_await :: "unit svc" where
  "svc_await w =
     (Inr (), case w_heart w of
        None \<Rightarrow> w
      | Some b \<Rightarrow> heart_beats (hb_due b (hb_waits b)) (w\<lparr>w_heart := Some (b\<lparr>hb_waits := hb_waits b + 1\<rparr>)\<rparr>))"

text \<open>
  Once the task is told to stop its timer may have run out already, so that it beats once more
  before it sees the signal.
\<close>

definition stop_heart :: "world \<Rightarrow> world" where
  "stop_heart w = (case w_heart w of None \<Rightarrow> w | Some b \<Rightarrow> heart_beats (min 1 (hb_due b (hb_waits b))) w)"

text \<open>
  \<^verbatim>\<open>try: return await invoke_node() finally: stop.set(); await heartbeat_task\<close>.
\<close>

definition with_heartbeat :: "lease_heart \<Rightarrow> 'a svc \<Rightarrow> 'a svc" where
  "with_heartbeat b m w =
     (case m (w\<lparr>w_heart := Some b\<rparr>) of
        (r, w1) \<Rightarrow>
          let w2 = stop_heart w1 in
          (case Option.bind (w_heart w2) hb_failed of Some e \<Rightarrow> Inl e | None \<Rightarrow> r, w2\<lparr>w_heart := w_heart w\<rparr>))"

section \<open>What it keeps\<close>

lemma await_idle [simp]: "w_heart w = None \<Longrightarrow> svc_await w = (Inr (), w)"
  by (simp add: svc_await_def)

lemma await_returns: "\<exists>w'. svc_await w = (Inr (), w')"
  by (simp add: svc_await_def)

context session_relation begin

lemma heart_beats_keep:
  assumes "\<And>i x tok ttl. preserves rel (heartbeat_execution_lease_op i x tok ttl)" "keyed (w_store w)"
  shows "store_later rel (w_store w) (w_store (heart_beats n w))"
  using assms(2)
proof (induction n arbitrary: w)
  case (Suc n)
  show ?case
  proof (cases "\<exists>b. w_heart w = Some b \<and> hb_failed b = None")
    case False
    then show ?thesis by (auto simp: store_later_refl split: option.split)
  next
    case True
    then obtain b where b: "w_heart w = Some b" "hb_failed b = None" by blast
    obtain r w1 where r: "heartbeat_execution_lease_op (hb_session b) (hb_execution b) (hb_token b) (hb_ttl b) w = (r, w1)"
      by force
    have l: "store_later rel (w_store w) (w_store w1)" using assms(1) Suc.prems r unfolding spec_def by blast
    show ?thesis
    proof (cases r)
      case (Inl e)
      with b r l show ?thesis by simp
    next
      case (Inr a)
      have "keyed (w_store w1)" using l Suc.prems by (simp add: store_later_def)
      from store_later_trans [OF l Suc.IH [OF this]] b r Inr show ?thesis by simp
    qed
  qed
qed (simp add: store_later_refl)

lemma await_keeps:
  assumes "\<And>i x tok ttl. preserves rel (heartbeat_execution_lease_op i x tok ttl)"
  shows "preserves rel svc_await"
  unfolding spec_def
proof (intro allI impI)
  fix w r w' assume w: "keyed (w_store w)" "svc_await w = (r, w')"
  show "store_later rel (w_store w) (w_store w') \<and> (\<forall>x. r = Inr x \<longrightarrow> True)"
  proof (cases "w_heart w")
    case None
    with w(2) show ?thesis by (simp add: store_later_refl)
  next
    case (Some b)
    let ?w = "w\<lparr>w_heart := Some (b\<lparr>hb_waits := hb_waits b + 1\<rparr>)\<rparr>"
    have "w' = heart_beats (hb_due b (hb_waits b)) ?w" using w(2) Some by (simp add: svc_await_def)
    then show ?thesis using heart_beats_keep [OF assms, of ?w] w(1) by simp
  qed
qed

lemma with_heartbeat_keeps:
  assumes "\<And>i x tok ttl. preserves rel (heartbeat_execution_lease_op i x tok ttl)" "preserves rel m"
  shows "preserves rel (with_heartbeat b m)"
  unfolding spec_def
proof (intro allI impI)
  fix w r w' assume w: "keyed (w_store w)" "with_heartbeat b m w = (r, w')"
  obtain x w1 where m: "m (w\<lparr>w_heart := Some b\<rparr>) = (x, w1)" by force
  have l: "store_later rel (w_store w) (w_store w1)"
  proof -
    have k: "keyed (w_store (w\<lparr>w_heart := Some b\<rparr>))" using w(1) by simp
    have "store_later rel (w_store (w\<lparr>w_heart := Some b\<rparr>)) (w_store w1)"
      using assms(2) k m unfolding spec_def by blast
    then show ?thesis by simp
  qed
  then have k: "keyed (w_store w1)" using w(1) by (simp add: store_later_def)
  have s: "store_later rel (w_store w1) (w_store (stop_heart w1))"
    using heart_beats_keep [OF assms(1) k] by (simp add: stop_heart_def store_later_refl split: option.split)
  have "w_store w' = w_store (stop_heart w1)"
    using w(2) m by (auto simp: with_heartbeat_def Let_def)
  with store_later_trans [OF l s] show "store_later rel (w_store w) (w_store w') \<and> (\<forall>x. r = Inr x \<longrightarrow> True)"
    by simp
qed

end

context tool_relation begin

lemma heartbeat_op_preserves: "preserves rel (heartbeat_execution_lease_op i x tk ttl)"
proof -
  have t: "rs_durable_interactions s' = rs_durable_interactions s"
    if "heartbeat_execution_lease x tk ttl now s = Inr (a, s')" for now s a s'
    using that by (auto simp: heartbeat_execution_lease_def)
  show ?thesis
    unfolding heartbeat_execution_lease_op_def
    by (intro svc_steps spec_put_bind; auto intro!: rel_tool intro: evolves_intros steady_status t)+
qed

lemmas await_preserves [svc_intros] = await_keeps [OF heartbeat_op_preserves]

lemmas with_heartbeat_preserves = with_heartbeat_keeps [OF heartbeat_op_preserves]

end

text \<open>The ledger of idempotency keys is left alone.\<close>

definition same_ledger :: "runtime_session \<Rightarrow> runtime_session \<Rightarrow> bool" where
  "same_ledger s t \<longleftrightarrow> evolves s t \<and> rs_processed_idempotency_keys t = rs_processed_idempotency_keys s"

interpretation ledger_frame: session_relation same_ledger
proof
  show "same_ledger s s" for s by (simp add: same_ledger_def)
  show "same_ledger s t \<Longrightarrow> same_ledger t u \<Longrightarrow> same_ledger s u" for s t u
    by (auto simp: same_ledger_def intro: evolves_trans)
  show "same_ledger s t \<Longrightarrow> rs_id t = rs_id s \<and> rs_version t = rs_version s" for s t
    by (simp add: same_ledger_def evolves_def)
  show "same_ledger s t \<Longrightarrow> same_ledger (s\<lparr>rs_version := v\<rparr>) (t\<lparr>rs_version := v\<rparr>)" for s t v
    by (simp add: same_ledger_def evolves_version)
qed

lemma heartbeat_same_ledger: "preserves same_ledger (heartbeat_execution_lease_op i x tk ttl)"
proof -
  have t: "same_ledger s s'" if "heartbeat_execution_lease x tk ttl now s = Inr (a, s')" for now s a s'
    using that evolves_heartbeat_execution_lease [OF that] by (auto simp: same_ledger_def heartbeat_execution_lease_def)
  show ?thesis
    unfolding heartbeat_execution_lease_op_def
    by (intro ledger_frame.spec_get_bind ledger_frame.spec_env_bind ledger_frame.spec_lift_bind
        ledger_frame.spec_case_prod ledger_frame.spec_put_bind ledger_frame.spec_case_option
        ledger_frame.spec_emit_bind ledger_frame.spec_return ledger_frame.spec_lift; auto intro: t)+
qed

lemmas await_same_ledger = ledger_frame.await_keeps [OF heartbeat_same_ledger]

end
