(* ===== verification/Orchestrator.thy ===== *)
theory Orchestrator
  imports Report_Effects Workflow_Graph Agent_Trace Episode_Types Lease_Heartbeat
begin

text \<open>
  \<^verbatim>\<open>orchestration/agent.py\<close>: the loop that drives a session to its end, with the lease
  wrapper of \<^verbatim>\<open>orchestration/agent_execution.py\<close>. One turn of the loop recovers what has
  expired, schedules the first ready node, opens and leases its execution, lets the execution
  harness work, and hands the report to the control plane.

  The execution harness is the argument \<open>or_harness\<close>, with its name. Under a lease it runs beside
  the task of \<open>Lease_Heartbeat\<close>. \<open>or_failure\<close> gives the text and the class name of an exception.
\<close>

record orchestrator =
  or_hooks :: hooks
  or_workflow :: workflow_blueprint
  or_max_steps :: nat
  or_harness_name :: string
  or_harness :: "episode_request \<Rightarrow> episode_outcome svc"
  or_failure :: "exn \<Rightarrow> string \<times> string"

text \<open>The constructor builds the graph, so a workflow without an order is refused there.\<close>

definition make_orchestrator :: "orchestrator \<Rightarrow> exn + orchestrator" where
  "make_orchestrator orch = and_then (topological (or_workflow orch)) (\<lambda>_. Inr orch)"

record run_options =
  ro_owner :: "string option"
  ro_ttl :: int
  ro_interval :: "rat option"

section \<open>Execution support\<close>

definition new_trace_id :: "string \<Rightarrow> string \<Rightarrow> string \<Rightarrow> string" where
  "new_trace_id fresh session_id key = ''trace-'' @ session_id @ ''-'' @ key @ ''-'' @ fresh"

definition heartbeat_interval :: "int \<Rightarrow> rat option \<Rightarrow> exn + rat" where
  "heartbeat_interval ttl requested =
     and_then (raise_when (ttl \<le> 0) ValueError) (\<lambda>_.
       case requested of
         Some q \<Rightarrow> and_then (raise_when (q \<le> 0) ValueError) (\<lambda>_. Inr q)
       | None \<Rightarrow> Inr (max 1 (min (of_int ttl / 3) 60)))"

definition invoke_for_node ::
    "orchestrator \<Rightarrow> runtime_session \<Rightarrow> string \<Rightarrow> string \<Rightarrow> pydict \<Rightarrow> string \<Rightarrow> string \<Rightarrow> string option \<Rightarrow>
     agent_report svc" where
  "invoke_for_node orch s key role config execution_id trace_id lease_token =
     svc_bind (svc_emit (trace_event EXECUTION_HARNESS_SELECTED (rs_id s) key execution_id trace_id
       [(''harness_id'', JStr (or_harness_name orch))] ''info'')) (\<lambda>_.
     svc_bind (or_harness orch
       \<lparr>eq_session = s, eq_node_key = key, eq_agent_role = role, eq_node_config = config,
        eq_execution_id = execution_id, eq_trace_id = trace_id, eq_lease_token = lease_token,
        eq_constraints = no_constraints, eq_resume = None\<rparr>) (\<lambda>outcome.
     svc_return (eo_report outcome)))"

text \<open>
  The interval is checked before the task is made; it only says when the timer runs out.
\<close>

definition invoke_with_lease_heartbeat ::
    "orchestrator \<Rightarrow> run_options \<Rightarrow> runtime_session \<Rightarrow> string \<Rightarrow> string \<Rightarrow> pydict \<Rightarrow> string \<Rightarrow> string \<Rightarrow>
     string option \<Rightarrow> agent_report svc" where
  "invoke_with_lease_heartbeat orch opts s key role config execution_id trace_id lease_token =
     (case lease_token of
        None \<Rightarrow> invoke_for_node orch s key role config execution_id trace_id lease_token
      | Some token \<Rightarrow>
          svc_bind (svc_lift (heartbeat_interval (ro_ttl opts) (ro_interval opts))) (\<lambda>_.
          svc_bind svc_env (\<lambda>e.
          with_heartbeat
            \<lparr>hb_session = rs_id s, hb_execution = execution_id, hb_token = token, hb_ttl = ro_ttl opts,
             hb_due = ev_beats e, hb_waits = 0, hb_failed = None\<rparr>
            (invoke_for_node orch s key role config execution_id trace_id lease_token))))"

definition failed_report ::
    "string \<Rightarrow> workflow_node_spec \<Rightarrow> string \<Rightarrow> string \<Rightarrow> string option \<Rightarrow> string \<Rightarrow> agent_report" where
  "failed_report key node_sp execution_id trace_id lease_token err =
     \<lparr>ar_node_key = key, ar_agent_id = wn_role node_sp, ar_harness_id = None,
      ar_execution_id = Some execution_id, ar_trace_id = Some trace_id,
      ar_lease_token = lease_token, ar_output = [], ar_boundary_event = None,
      ar_gate_triggers = [], ar_verifier_results = [], ar_feedback = [], ar_error = Some err\<rparr>"

section \<open>The loop\<close>

definition terminal_decision :: "string \<Rightarrow> runtime_session \<Rightarrow> runtime_decision" where
  "terminal_decision session_id s =
     \<lparr>rd_kind = (if rs_status s = Session_COMPLETED then Decided_COMPLETE else Decided_FAIL),
      rd_session_id = session_id, rd_node_key = [],
      rd_node_status = (case rs_nodes s of
          (_, n) # _ \<Rightarrow> ns_status n
        | [] \<Rightarrow> if rs_status s = Session_COMPLETED then Node_COMPLETED else Node_FAILED),
      rd_gate = None, rd_error = rs_error_message s, rd_execution_id = None\<rparr>"

text \<open>\<^verbatim>\<open>max(completed, key=lambda node: node.updated_at)\<close>: the first of the latest.\<close>

fun latest_updated :: "node_state \<Rightarrow> node_state list \<Rightarrow> node_state" where
  "latest_updated n [] = n"
| "latest_updated n (m # ms) = latest_updated (if ns_updated_at n < ns_updated_at m then m else n) ms"

definition completion_summary :: "runtime_session \<Rightarrow> pydict option" where
  "completion_summary s =
     (case filter (\<lambda>n. ns_status n = Node_COMPLETED) (map snd (rs_nodes s)) of
        [] \<Rightarrow> None
      | n # ns \<Rightarrow>
          (case latest_attempt (latest_updated n ns) of
             None \<Rightarrow> None
           | Some a \<Rightarrow> if na_output a = [] then None else Some (na_output a)))"

text \<open>The \<^verbatim>\<open>except\<close> branch of the loop.\<close>

definition execution_failed ::
    "orchestrator \<Rightarrow> string \<Rightarrow> string \<Rightarrow> workflow_node_spec \<Rightarrow> string \<Rightarrow> string \<Rightarrow> string option \<Rightarrow>
     exn \<Rightarrow> agent_report svc" where
  "execution_failed orch session_id key node_sp execution_id trace_id lease_token e =
     (case or_failure orch e of (msg, type_name) \<Rightarrow>
        svc_bind (svc_emit (trace_event NODE_EXECUTION_FAILED session_id key execution_id trace_id
            [(''error'', JStr msg), (''error_type'', JStr type_name)] ''error'')) (\<lambda>_.
        svc_return (failed_report key node_sp execution_id trace_id lease_token msg)))"

definition run_node ::
    "orchestrator \<Rightarrow> run_options \<Rightarrow> string \<Rightarrow> runtime_session \<Rightarrow> string \<Rightarrow> runtime_decision svc" where
  "run_node orch opts session_id s key =
     svc_bind (svc_lift (node_spec (or_workflow orch) key)) (\<lambda>node_sp.
     svc_bind svc_env (\<lambda>e.
       let trace_id = new_trace_id (ev_id e 0) session_id key in
     svc_bind (open_node_execution session_id key (Some trace_id)) (\<lambda>x.
     svc_bind (case ro_owner opts of
         None \<Rightarrow> svc_return None
       | Some owner \<Rightarrow>
           svc_bind (grant_node_execution_lease session_id key (na_id x) owner (ro_ttl opts)) (\<lambda>a.
           svc_return (na_lease_token a))) (\<lambda>lease_token.
     svc_bind (svc_try
         (invoke_with_lease_heartbeat orch opts s key (wn_role node_sp) (wn_config node_sp) (na_id x)
            trace_id lease_token)
         (execution_failed orch session_id key node_sp (na_id x) trace_id lease_token)) (\<lambda>r.
     open_runtime_decision (hk_gate (or_hooks orch)) (hk_deriver (or_hooks orch)) session_id r)))))"

text \<open>The recoveries before scheduling; the session is read again when something was recovered.\<close>

definition recover_before_scheduling :: "string \<Rightarrow> run_options \<Rightarrow> runtime_session \<Rightarrow> runtime_session svc" where
  "recover_before_scheduling session_id opts s =
     svc_bind (recover_expired_node_executions session_id None (ro_owner opts)) (\<lambda>recovered.
     svc_bind (if recovered \<noteq> [] then get_session session_id else svc_return s) (\<lambda>s1.
     svc_bind (recover_expired_turn_leases session_id None) (\<lambda>recovered_turns.
     if recovered_turns \<noteq> [] then get_session session_id else svc_return s1)))"

fun run_loop ::
    "orchestrator \<Rightarrow> run_options \<Rightarrow> string \<Rightarrow> nat \<Rightarrow> runtime_decision option \<Rightarrow> runtime_decision svc" where
  "run_loop orch opts session_id 0 last_decision = svc_lift (Inl RuntimeError)"
| "run_loop orch opts session_id (Suc steps) last_decision =
     svc_bind (get_session session_id) (\<lambda>s0.
       if rs_status s0 \<in> {Session_COMPLETED, Session_FAILED, Session_CANCELLED}
       then svc_return (case last_decision of Some d \<Rightarrow> d | None \<Rightarrow> terminal_decision session_id s0)
       else if rs_status s0 = Session_WAITING_GATE
       then (case last_decision of None \<Rightarrow> svc_lift (Inl RuntimeError) | Some d \<Rightarrow> svc_return d)
       else
     svc_bind (recover_before_scheduling session_id opts s0) (\<lambda>s.
     svc_bind (svc_lift (ready_nodes (or_workflow orch) s)) (\<lambda>ready.
       case ready of
         [] \<Rightarrow> record_session_complete session_id (completion_summary s)
       | key # _ \<Rightarrow>
           svc_bind (run_node orch opts session_id s key) (\<lambda>d.
             if rd_kind d \<noteq> Decided_CONTINUE then svc_return d
             else run_loop orch opts session_id steps (Some d)))))"

definition run_session :: "orchestrator \<Rightarrow> run_options \<Rightarrow> string \<Rightarrow> runtime_decision svc" where
  "run_session orch opts session_id = run_loop orch opts session_id (or_max_steps orch) None"

definition default_options :: run_options where
  "default_options = \<lparr>ro_owner = None, ro_ttl = 300, ro_interval = None\<rparr>"

definition start_session :: "orchestrator \<Rightarrow> pydict \<Rightarrow> pydict \<Rightarrow> runtime_session svc" where
  "start_session orch input_payload metadata = create_session (or_workflow orch) input_payload metadata"

definition resume_session :: "orchestrator \<Rightarrow> string \<Rightarrow> gate_decision_input option \<Rightarrow> runtime_decision svc" where
  "resume_session orch session_id decision =
     (case decision of
        None \<Rightarrow> run_session orch default_options session_id
      | Some d \<Rightarrow>
          svc_bind (apply_decision session_id d) (\<lambda>applied.
            if rd_kind applied \<noteq> Decided_CONTINUE then svc_return applied
            else run_session orch default_options session_id))"

section \<open>History is kept\<close>

context recorder_relation
begin

text \<open>
  Completion is recorded by the orchestrator, so the relation must allow it here. The harness
  keeps the relation itself: the harnesses of the program do.
\<close>

lemma invoke_preserves:
  assumes "\<And>q. preserves rel (or_harness orch q)"
  shows "preserves rel (invoke_with_lease_heartbeat orch opts s k role config x tr tok)"
  unfolding invoke_with_lease_heartbeat_def invoke_for_node_def
  by (intro spec_case_option spec_then spec_fail spec_env_bind with_heartbeat_preserves spec_true [OF spec_emit] assms
      spec_done)

lemma execution_failed_preserves: "preserves rel (execution_failed orch i k sp x tr tok e)"
  unfolding execution_failed_def
  by (intro spec_case_prod spec_then spec_true [OF spec_emit] spec_done)

lemma run_node_preserves:
  assumes "quiet_hooks (or_hooks orch)" "\<And>q. preserves rel (or_harness orch q)"
  shows "preserves rel (run_node orch opts i s k)"
proof -
  have u: "session_relation rel" by unfold_locales
  have g: "preserves rel (f s n p)" if "hk_gate (or_hooks orch) = Some f" for f s n p
    by (rule spec_untouched [OF u]) (use assms(1) that in \<open>simp add: quiet_hooks_def\<close>)
  have d: "preserves rel (hk_deriver (or_hooks orch) s n p)" for s n p
    by (rule spec_untouched [OF u]) (use assms(1) in \<open>simp add: quiet_hooks_def\<close>)
  show ?thesis
    unfolding run_node_def Let_def
    by (intro spec_then spec_fail spec_env_bind open_node_execution_preserves spec_case_option
        spec_done facade_preserves preserves_try invoke_preserves [OF assms(2)]
        execution_failed_preserves open_runtime_decision_preserves g d)
qed

lemma recover_before_preserves: "preserves rel (recover_before_scheduling i opts s)"
  unfolding recover_before_scheduling_def
  by (intro spec_then recover_expired_node_executions_preserves recover_expired_turn_leases_preserves
      spec_if queries_preserve spec_done)

lemma run_loop_preserves:
  assumes "quiet_hooks (or_hooks orch)" "\<And>q. preserves rel (or_harness orch q)"
    "\<And>now s s'. transition_session Session_COMPLETED now s = Inr s' \<Longrightarrow> rel s s'"
  shows "preserves rel (run_loop orch opts i n ld)"
proof (induction n arbitrary: ld)
  case 0
  show ?case by (simp add: spec_fail)
next
  case (Suc n)
  have rd: "preserves rel (case ready of
         [] \<Rightarrow> record_session_complete i summary
       | key # _ \<Rightarrow> svc_bind (run_node orch opts i s key) (\<lambda>d.
             if rd_kind d \<noteq> Decided_CONTINUE then svc_return d
             else run_loop orch opts i n (Some d)))" for ready summary s
    by (cases ready) (auto intro!: record_session_complete_preserves assms(3) spec_then
        run_node_preserves [OF assms(1,2)] spec_done Suc.IH)
  show ?case
    unfolding run_loop.simps
    by (intro spec_then spec_if spec_case_option spec_done spec_fail queries_preserve
        recover_before_preserves rd)
qed

end

end
