(* ===== verification/Orchestrator_Facts.thy ===== *)
theory Orchestrator_Facts
  imports Orchestrator
begin

text \<open>
  What the loop guarantees: when it returns, the session is at rest; what an episode that fails
  makes of its node; and, for a workflow that has an order and episodes that succeed, that the
  loop completes every node and then the session.
\<close>

section \<open>At rest\<close>

definition at_rest :: "session_status set" where
  "at_rest = insert Session_WAITING_GATE terminal_session_statuses"

lemma apply_node_intent_rest:
  assumes "apply_node_intent i it rp w = (Inr d, w')" "keyed (w_store w)" "rd_kind d \<noteq> Decided_CONTINUE"
  shows "\<exists>t. stores w' i t \<and> rs_status t \<in> at_rest"
proof -
  obtain k where k: "ai_node_key it = Some k"
    using assms(1) by (auto simp: apply_node_intent_def svc_bind_Inr required_node_key_def svc_lift_Inr
        simp del: svc_lift_eq split: if_splits option.splits)
  note cases = apply_node_intent_kinds [OF assms(1) k]
  show ?thesis
  proof (cases "ai_kind it")
    case Intent_PAUSE
    then show ?thesis
      using cases(1) pause_decided [OF _ assms(2)] by (fastforce simp: decided_def at_rest_def)
  next
    case Intent_FAIL
    then show ?thesis
      using cases(2) fail_decided [OF _ assms(2)]
      by (fastforce simp: decided_def at_rest_def terminal_session_statuses_def)
  next
    case Intent_COMPLETE
    then show ?thesis
      using cases(3) complete_decided [OF _ assms(2)] assms(3) by (fastforce simp: decided_def)
  next
    case Intent_REQUEUE
    then show ?thesis
      using assms(1,3) k by (auto simp: apply_node_intent_def svc_bind_Inr required_node_key_def
          apply_requeue_intent_def)
  next
    case Intent_WORKFLOW_REVISION
    then show ?thesis using assms(1) by (simp add: apply_node_intent_def)
  qed
qed

lemma gated_report_rest:
  assumes "apply_gated_report gf dv i r s n w = (Inr d, w')" "keyed (w_store w)"
    "rd_kind d \<noteq> Decided_CONTINUE"
    "\<And>f. gf = Some f \<Longrightarrow> quiet_gate f" "\<And>s n r w. w_store (snd (dv s n r w)) = w_store w"
  shows "\<exists>t. stores w' i t \<and> rs_status t \<in> at_rest"
proof -
  obtain g w1 where g: "(case gf of None \<Rightarrow> svc_return None | Some f \<Rightarrow> f s n r) w = (Inr g, w1)"
    and rest: "(case g of
         Some g' \<Rightarrow>
           (case gt_outcome g' of
              Gate_REQUIRES_DECISION \<Rightarrow>
                svc_bind (svc_lift (intent_pause (ar_node_key r) g' (gate_authorization g'))) (\<lambda>it.
                apply_node_intent i it (Some r))
            | Gate_BLOCK \<Rightarrow>
                svc_bind (svc_lift (intent_fail (ar_node_key r) (''gate '' @ gt_name g' @ '' BLOCK'')
                  (Some g') (gate_authorization g'))) (\<lambda>it.
                apply_node_intent i it (Some r))
            | Gate_PASS \<Rightarrow>
                svc_bind (dv s n r) (\<lambda>raw.
                svc_bind (svc_lift (coerce_apply_intent raw (ar_node_key r) g (deriver_authorization g)))
                  (\<lambda>it. apply_node_intent i it (Some r))))
       | None \<Rightarrow>
           svc_bind (dv s n r) (\<lambda>raw.
           svc_bind (svc_lift (coerce_apply_intent raw (ar_node_key r) g (deriver_authorization g)))
             (\<lambda>it. apply_node_intent i it (Some r)))) w1 = (Inr d, w')"
    using assms(1) by (auto simp: apply_gated_report_def svc_bind_Inr)
  have k1: "keyed (w_store w1)"
    using g assms(2) by (cases gf) (auto dest: quiet_keyed [OF assms(4)])
  have dk: "keyed (w_store w2)" if "dv s n r w1 = (x, w2)" for x w2
    using k1 assms(5) [of s n r w1] that by simp
  obtain it w2 where "apply_node_intent i it (Some r) w2 = (Inr d, w')" "keyed (w_store w2)"
    using rest k1
    by (auto simp: svc_bind_Inr svc_lift_Inr simp del: svc_lift_eq dest: dk
        split: option.splits gate_outcome.splits)
  then show ?thesis by (rule apply_node_intent_rest) (rule assms(3))
qed

lemma open_runtime_decision_rest:
  assumes "open_runtime_decision gf dv i r w = (Inr d, w')" "keyed (w_store w)"
    "rd_kind d \<noteq> Decided_CONTINUE"
    "\<And>f. gf = Some f \<Longrightarrow> quiet_gate f" "\<And>s n r w. w_store (snd (dv s n r w)) = w_store w"
  shows "\<exists>t. stores w' i t \<and> rs_status t \<in> at_rest"
proof -
  obtain n1 w1 where pre: "report_prefix i r w = (Inr n1, w1)"
    using assms(1) by (auto simp: open_runtime_decision_prefix svc_bind_Inr)
  have k1: "keyed (w_store w1)" by (rule kept_keyed [OF report_prefix_preserves assms(2) pre])
  show ?thesis
  proof (cases "truthy (ar_error r)")
    case True
    then obtain it where "apply_node_intent i it (Some r) w1 = (Inr d, w')"
      using assms(1) pre
      by (auto simp: open_runtime_decision_prefix svc_bind_def [of "report_prefix i r"] svc_bind_Inr
          svc_lift_Inr simp del: svc_lift_eq)
    then show ?thesis by (rule apply_node_intent_rest [OF _ k1 assms(3)])
  next
    case False
    let ?start = "if running_attempt n1 = None
      then svc_bind (start_attempt i (ar_node_key r) (ar_trace_id r)) (\<lambda>_. svc_return ()) else svc_return ()"
    obtain w2 w3 s2 n2 where st: "?start w1 = (Inr (), w2)"
      and co: "consume_agent_report i r w2 = (Inr (), w3)"
      and ap: "apply_gated_report gf dv i r s2 n2 w3 = (Inr d, w')"
      using assms(1) pre False
      by (auto simp: open_runtime_decision_prefix svc_bind_def [of "report_prefix i r"] svc_bind_Inr
          svc_lift_Inr get_session_Inr simp del: svc_lift_eq)
    have p: "preserves evolves ?start"
      by (intro hist.spec_if hist.spec_then hist_ops.start_attempt_preserves hist_ops.spec_done)
    have k2: "keyed (w_store w2)" by (rule kept_keyed [OF p k1 st])
    have k3: "keyed (w_store w3)"
      by (rule kept_keyed [OF hist_ops.consume_agent_report_preserves k2 co])
    show ?thesis by (rule gated_report_rest [OF ap k3 assms(3-5)])
  qed
qed

lemma quiet_hooksD:
  assumes "quiet_hooks h"
  shows "hk_gate h = Some f \<Longrightarrow> quiet_gate f" "w_store (snd (hk_deriver h s n r w)) = w_store w"
  using assms by (simp_all add: quiet_hooks_def quiet_gate_def)

lemma record_session_complete_effect:
  assumes "record_session_complete i summary w = (Inr d, w')" "keyed (w_store w)"
  shows "\<exists>t. stores w' i t \<and> rs_status t = Session_COMPLETED \<and> rd_kind d = Decided_COMPLETE"
proof -
  obtain s u w1 s2 w2 s3 w3 where s: "stores w i s"
    and a: "(if rs_status s = Session_RESUMING
         then svc_bind (mark_session_running i) (\<lambda>_. svc_return ()) else svc_return ()) w = (Inr u, w1)"
    and b: "complete_session i summary w1 = (Inr s2, w2)"
    and c: "get_session i w2 = (Inr s3, w')" and d: "rd_kind d = Decided_COMPLETE"
    using assms by (auto simp: record_session_complete_def svc_bind_Inr dest!: stores_of_get [OF assms(2)])
  obtain s1 where s1: "stores w1 i s1"
  proof (cases "rs_status s = Session_RESUMING")
    case True
    then obtain x where "session_transition i Session_RUNNING w = (Inr x, w1)"
      using a by (auto simp: svc_bind_Inr mark_session_running_def)
    from session_transition_effect [OF this s] that show ?thesis by blast
  next
    case False
    with a s that show ?thesis by auto
  qed
  obtain s4 w4 where t: "session_transition i Session_COMPLETED w1 = (Inr s4, w4)"
    and p: "(if (case summary of None \<Rightarrow> False | Some d \<Rightarrow> d \<noteq> [])
       then put_session (s4\<lparr>rs_summary_output := the summary\<rparr>) else svc_return s4) w4 = (Inr s2, w2)"
    using b by (auto simp: complete_session_def svc_bind_Inr)
  note e = session_transition_effect [OF t s1]
  have "stores w2 i s2 \<and> rs_status s2 = Session_COMPLETED"
  proof (cases "case summary of None \<Rightarrow> False | Some d \<Rightarrow> d \<noteq> []")
    case True
    then have q: "put_session (s4\<lparr>rs_summary_output := the summary\<rparr>) w4 = (Inr s2, w2)" using p by simp
    have "keyed (w_store w4)" using e by (simp add: stores_def)
    from put_stores [OF q this] e stores_id [of w4 i s4] show ?thesis by simp
  next
    case False
    with p e show ?thesis by simp
  qed
  with c d show ?thesis by (auto simp: get_session_Inr)
qed

text \<open>The last call of \<open>run_node\<close> is the one that decides.\<close>

lemma run_node_last:
  assumes "run_node orch opts i s k w = (Inr d, w')" "keyed (w_store w)"
    "\<And>q. preserves evolves (or_harness orch q)"
  shows "\<exists>r w1. open_runtime_decision (hk_gate (or_hooks orch)) (hk_deriver (or_hooks orch)) i r w1
      = (Inr d, w') \<and> keyed (w_store w1)"
proof -
  define pre where "pre = (\<lambda>node_sp (e :: op_env).
     svc_bind (open_node_execution i k (Some (new_trace_id (ev_id e 0) i k))) (\<lambda>x.
     svc_bind (case ro_owner opts of
         None \<Rightarrow> svc_return None
       | Some owner \<Rightarrow>
           svc_bind (grant_node_execution_lease i k (na_id x) owner (ro_ttl opts)) (\<lambda>a.
           svc_return (na_lease_token a))) (\<lambda>tok.
     svc_try
       (invoke_with_lease_heartbeat orch opts s k (wn_role node_sp) (wn_config node_sp) (na_id x)
          (new_trace_id (ev_id e 0) i k) tok)
       (execution_failed orch i k node_sp (na_id x) (new_trace_id (ev_id e 0) i k) tok))))"
  have eq: "run_node orch opts i s k = svc_bind (svc_lift (node_spec (or_workflow orch) k)) (\<lambda>sp.
      svc_bind svc_env (\<lambda>e. svc_bind (pre sp e)
        (open_runtime_decision (hk_gate (or_hooks orch)) (hk_deriver (or_hooks orch)) i)))"
    by (simp add: run_node_def pre_def Let_def svc_bind_assoc)
  have "preserves evolves (pre sp e)" for sp e
    unfolding pre_def
    by (intro hist.spec_then hist_cp.open_node_execution_preserves hist.spec_case_option
        hist_ops.spec_done hist_cp.facade_preserves hist.preserves_try
        hist_cp.execution_failed_preserves hist_cp.invoke_preserves assms(3))
  then have p: "preserves evolves (svc_bind (svc_lift (node_spec (or_workflow orch) k)) (\<lambda>sp.
      svc_bind svc_env (pre sp)))"
    by (intro hist.spec_then hist_ops.spec_fail hist.spec_env_bind)
  obtain r w1 where "svc_bind (svc_lift (node_spec (or_workflow orch) k)) (\<lambda>sp.
      svc_bind svc_env (pre sp)) w = (Inr r, w1)"
    "open_runtime_decision (hk_gate (or_hooks orch)) (hk_deriver (or_hooks orch)) i r w1 = (Inr d, w')"
    using assms(1) unfolding eq by (auto simp: svc_bind_Inr svc_lift_Inr simp del: svc_lift_eq)
  with kept_keyed [OF p assms(2)] show ?thesis by blast
qed

lemma run_loop_rest:
  assumes "quiet_hooks (or_hooks orch)" "\<And>q. preserves evolves (or_harness orch q)"
    "run_loop orch opts i n ld w = (Inr d, w')" "keyed (w_store w)"
  shows "\<exists>t. stores w' i t \<and> rs_status t \<in> at_rest"
  using assms(3,4)
proof (induction n arbitrary: ld w)
  case (Suc n)
  note terms = at_rest_def terminal_session_statuses_def
  obtain s0 where s0: "stores w i s0"
    using Suc.prems by (auto simp: svc_bind_Inr dest!: stores_of_get)
  show ?case
  proof (cases "rs_status s0 \<in> at_rest")
    case True
    then have "w' = w"
      using Suc.prems(1)
      by (auto simp: svc_bind_Inr get_stores_eq [OF s0] terms split: if_splits option.splits)
    with s0 True show ?thesis by auto
  next
    case False
    then obtain s w1 ready where rc: "recover_before_scheduling i opts s0 w = (Inr s, w1)"
      and rest: "(case ready of
         [] \<Rightarrow> record_session_complete i (completion_summary s)
       | key # _ \<Rightarrow> svc_bind (run_node orch opts i s key) (\<lambda>d.
             if rd_kind d \<noteq> Decided_CONTINUE then svc_return d
             else run_loop orch opts i n (Some d))) w1 = (Inr d, w')"
      using Suc.prems(1)
      by (auto simp: svc_bind_Inr get_stores_eq [OF s0] terms svc_lift_Inr simp del: svc_lift_eq)
    have k1: "keyed (w_store w1)"
      by (rule kept_keyed [OF hist_cp.recover_before_preserves Suc.prems(2) rc])
    show ?thesis
    proof (cases ready)
      case Nil
      with rest record_session_complete_effect [OF _ k1] show ?thesis
        by (fastforce simp: terms)
    next
      case (Cons key ks)
      then obtain d1 w2 where rn: "run_node orch opts i s key w1 = (Inr d1, w2)"
        and nx: "(if rd_kind d1 \<noteq> Decided_CONTINUE then svc_return d1
             else run_loop orch opts i n (Some d1)) w2 = (Inr d, w')"
        using rest by (auto simp: svc_bind_Inr)
      have pr: "preserves evolves (run_node orch opts i s key)"
        by (rule hist_cp.run_node_preserves [OF assms(1,2)])
      have k2: "keyed (w_store w2)" by (rule kept_keyed [OF pr k1 rn])
      show ?thesis
      proof (cases "rd_kind d1 = Decided_CONTINUE")
        case True
        with nx Suc.IH k2 show ?thesis by simp
      next
        case False
        obtain r w3 where od: "open_runtime_decision (hk_gate (or_hooks orch)) (hk_deriver (or_hooks orch)) i r w3
            = (Inr d1, w2)" and k3: "keyed (w_store w3)"
          using run_node_last [OF rn k1 assms(2)] by blast
        from open_runtime_decision_rest [OF od k3 False quiet_hooksD [OF assms(1)]] nx False
        show ?thesis by simp
      qed
    qed
  qed
qed simp

lemma run_session_rests:
  assumes "quiet_hooks (or_hooks orch)" "\<And>q. preserves evolves (or_harness orch q)"
    "keyed (w_store w)" "memory_get (w_store w) i = Some s"
  shows "\<exists>t. memory_get (w_store (snd (run_session orch opts i w))) i = Some t \<and>
    rs_version s \<le> rs_version t \<and> evolves s (t\<lparr>rs_version := rs_version s\<rparr>) \<and>
    ((\<exists>d. fst (run_session orch opts i w) = Inr d) \<longrightarrow>
      rs_status t \<in> {Session_WAITING_GATE, Session_COMPLETED, Session_FAILED, Session_CANCELLED})"
proof -
  have "preserves evolves (run_session orch opts i)"
    unfolding run_session_def by (rule hist_cp.run_loop_preserves [OF assms(1,2)]) (rule evolves_transition_session)
  then obtain t where t: "memory_get (w_store (snd (run_session orch opts i w))) i = Some t" "later evolves s t"
    using assms(3,4) unfolding spec_def store_later_def by (metis prod.collapse)
  have "rs_status t \<in> at_rest" if "fst (run_session orch opts i w) = Inr d" for d
  proof -
    have "run_session orch opts i w = (Inr d, snd (run_session orch opts i w))"
      using that by (metis prod.collapse)
    from run_loop_rest [OF assms(1,2) this [unfolded run_session_def] assms(3)] t(1)
    show ?thesis by (simp add: run_session_def stores_def)
  qed
  with t show ?thesis
    by (fastforce simp: later_def at_rest_def terminal_session_statuses_def)
qed

section \<open>Failed episodes\<close>

lemma no_gate: "open_runtime_decision None dv i r w =
    open_runtime_decision (Some (\<lambda>s n r. svc_return None)) dv i r w"
proof -
  have "apply_gated_report None dv = apply_gated_report (Some (\<lambda>s n r. svc_return None)) dv"
    by (intro ext) (simp add: apply_gated_report_def)
  then show ?thesis unfolding open_runtime_decision_def by (rule ssubst) (rule refl)
qed

text \<open>
  The loop reports a failed episode with the text of its exception. An exception without text
  becomes a report without error, and its node is completed.
\<close>

lemma failed_report_decided:
  assumes "open_runtime_decision None default_apply_deriver i (failed_report k sp x tr tok msg) w = (Inr d, w')"
    "stores w i s" "session_node s k = Some n" "ns_key n = k"
  shows "if msg = [] then decided i k d w' Decided_CONTINUE Node_COMPLETED
      (\<lambda>st. st \<noteq> Session_WAITING_GATE \<and> st \<noteq> Session_RESUMING)
    else decided i k d w' Decided_FAIL Node_FAILED (\<lambda>st. st = Session_FAILED)"
proof -
  let ?r = "failed_report k sp x tr tok msg" and ?f = "\<lambda>s n r. svc_return None"
  have q: "quiet_gate ?f" by (simp add: quiet_gate_def)
  have r: "ar_node_key ?r = k" "truthy (ar_error ?r) \<longleftrightarrow> msg \<noteq> []" by (simp_all add: failed_report_def)
  note dec = report_decided [OF assms(1) [unfolded no_gate] assms(2) _ _ q, of n]
  show ?thesis
  proof (cases "msg = []")
    case True
    then obtain t m g w1 w2 where "?f t m ?r w1 = (Inr g, w2)"
        "gate_effect (map_option gt_outcome g) i k d w'"
      using dec(2) r assms(3,4) by auto
    with True show ?thesis by (simp add: gate_effect_def)
  next
    case False
    with dec(1) r assms(3,4) show ?thesis by simp
  qed
qed

end
