(* ===== verification/Session_Progress.thy ===== *)
theory Session_Progress
  imports Orchestrator_Facts
begin

text \<open>
  Progress of the loop. The lemmas say that the operations a turn of the loop makes on an idle
  session succeed, and what they leave behind; together they show that a workflow with an order,
  driven with episodes that succeed, is completed node by node and then as a whole.
\<close>

section \<open>Operations that succeed\<close>

text \<open>\<open>calm w\<close>: no observer is critical, so events cannot fail, and no heartbeat runs.\<close>

definition calm :: "world \<Rightarrow> bool" where
  "calm w \<longleftrightarrow> w_heart w = None \<and> (\<forall>ob \<in> set (em_observers (w_emitter w)). \<not> ob_critical ob)"

definition holds :: "world \<Rightarrow> string \<Rightarrow> runtime_session \<Rightarrow> bool" where
  "holds w i s \<longleftrightarrow> stores w i s \<and> calm w"

lemma holds_get: "holds w i s \<Longrightarrow> get_session i w = (Inr s, w)"
  by (simp add: holds_def get_stores)

lemma holds_id: "holds w i s \<Longrightarrow> rs_id s = i"
  unfolding holds_def by (blast intro: stores_id)

lemma holds_env [simp]: "holds (w\<lparr>w_ops := n\<rparr>) i s \<longleftrightarrow> holds w i s"
  by (simp add: holds_def stores_def calm_def)

lemma get_after_env:
  "holds w i s \<Longrightarrow> get_session i (w\<lparr>w_ops := n\<rparr>) = (Inr s, w\<lparr>w_ops := n\<rparr>)"
  using holds_get [of "w\<lparr>w_ops := n\<rparr>" i s] by simp

lemma holds_emit:
  assumes "holds w i s"
  shows "\<exists>w'. svc_emit b w = (Inr (), w') \<and> holds w' i s"
proof -
  obtain x w' where e: "svc_emit b w = (x, w')" by force
  have "w_emitter w' = w_emitter w" "w_heart w' = w_heart w"
    using e by (auto simp: svc_emit_def Let_def split: prod.splits if_splits)
  moreover have "\<exists>u. x = Inr u"
    using e assms emitter_emit_iff [of "w_emitter w"] emitter_emit_Inl [of "w_emitter w"]
    by (cases x) (auto simp: svc_emit_def Let_def holds_def calm_def split: prod.splits)
  ultimately show ?thesis
    using assms e svc_emit_run [OF e] by (auto simp: holds_def stores_def calm_def)
qed

lemma holds_put:
  assumes "holds w i s" "rs_id s' = i" "rs_version s' = rs_version s"
  shows "\<exists>w'. put_session s' w = (Inr (bump s'), w') \<and> holds w' i (bump s')"
proof -
  have g: "memory_get (w_store w) i = Some s" "keyed (w_store w)"
    using assms(1) by (simp_all add: holds_def stores_def)
  obtain x w' where p: "put_session s' w = (x, w')" by force
  have "\<exists>t. x = Inr t"
    using p g(1) assms(2,3) put_session_Inl [of s' w _ w'] by (cases x) (auto simp: stored_version_def)
  then obtain t where t: "put_session s' w = (Inr t, w')" using p by blast
  have "w_emitter w' = w_emitter w" "w_heart w' = w_heart w"
    using put_session_Inr(4) [OF t] by (metis world.select_convs world.surjective world.update_convs(1))+
  with put_stores [OF t g(2) assms(2)] t assms(1) show ?thesis
    by (auto simp: holds_def calm_def)
qed

text \<open>One node is replaced, the rest of what matters to the loop stays.\<close>

definition node_replaced :: "string \<Rightarrow> node_state \<Rightarrow> runtime_session \<Rightarrow> runtime_session \<Rightarrow> bool" where
  "node_replaced k m s t \<longleftrightarrow>
     rs_nodes t = AList.update k m (rs_nodes s) \<and> rs_status t = rs_status s \<and>
     rs_durable_interactions t = rs_durable_interactions s"

lemma node_replaced_twice:
  "node_replaced k m s t \<Longrightarrow> node_replaced k l t u \<Longrightarrow> node_replaced k l s u"
  by (simp add: node_replaced_def)

lemma node_replaced_lookup: "node_replaced k m s t \<Longrightarrow> session_node t = (session_node s)(k \<mapsto> m)"
  by (simp add: node_replaced_def session_node_def fun_eq_iff)

lemma holds_put_node:
  assumes "holds w i s"
  shows "\<exists>w' t. put_session (set_node k m s) w = (Inr t, w') \<and> holds w' i t \<and> node_replaced k m s t"
proof -
  obtain w' where "put_session (set_node k m s) w = (Inr (bump (set_node k m s)), w')"
      "holds w' i (bump (set_node k m s))"
    using holds_put [OF assms, of "set_node k m s"] holds_id [OF assms] by auto
  then show ?thesis by (intro exI [of _ w'] exI [of _ "bump (set_node k m s)"]) (simp add: node_replaced_def set_node_def)
qed

lemma require_node_found: "session_node s k = Some n \<Longrightarrow> require_node s k = Inr n"
  by (simp add: require_node_def)

lemma start_node_total:
  assumes "holds w i s" "session_node s k = Some n" "ns_status n = Node_QUEUED"
  shows "\<exists>w' t m. start_node i k w = (Inr m, w') \<and> holds w' i t \<and> node_replaced k m s t \<and>
    ns_status m = Node_RUNNING \<and> ns_key m = ns_key n \<and> ns_attempts m = ns_attempts n"
proof -
  let ?e = "w_env w (w_ops w)" let ?w = "w\<lparr>w_ops := w_ops w + 1\<rparr>"
  let ?m = "n\<lparr>ns_status := Node_RUNNING, ns_updated_at := ev_tick ?e k Node_RUNNING\<rparr>"
  have nt: "node_transition (ev_tick ?e k Node_RUNNING) Node_RUNNING n = Inr ?m"
    using assms(3) by (simp add: status_simps)
  have hw: "holds ?w i s" using assms(1) by simp
  obtain w1 t where p: "put_session (set_node k ?m s) ?w = (Inr t, w1)" "holds w1 i t" "node_replaced k ?m s t"
    using holds_put_node [OF hw] by blast
  obtain w2 where e: "svc_emit (node_started i k) w1 = (Inr (), w2)" "holds w2 i t"
    using holds_emit [OF p(2)] by blast
  have "start_node i k w = (Inr ?m, w2)"
    using nt p(1) e(1)
    by (simp del: node_transition_Inr add: start_node_def holds_get [OF assms(1)] require_node_found [OF assms(2)]
        svc_bind_def svc_lift_def svc_env_def svc_return_def)
  with e(2) p(3) show ?thesis
    by (intro exI [of _ w2] exI [of _ t] exI [of _ ?m]) simp
qed

lemma start_attempt_total:
  assumes "holds w i s" "session_node s k = Some n"
  shows "\<exists>w' t a m. start_attempt i k tr w = (Inr a, w') \<and> holds w' i t \<and> node_replaced k m s t \<and>
    ns_status m = ns_status n \<and> ns_key m = ns_key n \<and> running_attempt m = Some a \<and>
    \<not> has_execution_lease_metadata a"
proof -
  let ?e = "w_env w (w_ops w)" let ?w = "w\<lparr>w_ops := w_ops w + 1\<rparr>"
  let ?a = "new_attempt (ev_id ?e 0) (ev_now ?e 0) k (length (ns_attempts n) + 1) tr"
  let ?m = "n\<lparr>ns_attempts := ns_attempts n @ [?a], ns_updated_at := ev_now ?e 1\<rparr>"
  have hw: "holds ?w i s" using assms(1) by simp
  obtain w1 t where p: "put_session (set_node k ?m s) ?w = (Inr t, w1)" "holds w1 i t" "node_replaced k ?m s t"
    using holds_put_node [OF hw] by blast
  obtain w2 where e: "svc_emit (attempt_started i k ?a tr) w1 = (Inr (), w2)" "holds w2 i t"
    using holds_emit [OF p(2)] by blast
  have "start_attempt i k tr w = (Inr ?a, w2)"
    using p(1) e(1)
    by (simp add: start_attempt_def Let_def holds_get [OF assms(1)]
        require_node_found [OF assms(2)] svc_bind_def svc_lift_def svc_env_def svc_return_def)
  with e(2) p(3) show ?thesis
    by (intro exI [of _ w2] exI [of _ t] exI [of _ ?a] exI [of _ ?m])
       (simp add: running_attempt_def latest_attempt_def new_attempt_def has_execution_lease_metadata_def)
qed

lemma consume_total:
  assumes "holds w i s" "session_node s (ar_node_key r) = Some n"
  shows "\<exists>w' t m. consume_agent_report i r w = (Inr (), w') \<and> holds w' i t \<and>
    node_replaced (ar_node_key r) m s t \<and> ns_status m = ns_status n \<and> ns_key m = ns_key n"
proof -
  let ?e = "w_env w (w_ops w)" let ?w = "w\<lparr>w_ops := w_ops w + 1\<rparr>"
  let ?m = "consume_report_on_node (ev_id ?e 0) (ev_now ?e 0) (ev_now ?e 1) r n"
  have hw: "holds ?w i s" using assms(1) by simp
  obtain w1 t where p: "put_session (set_node (ar_node_key r) ?m s) ?w = (Inr t, w1)" "holds w1 i t"
      "node_replaced (ar_node_key r) ?m s t"
    using holds_put_node [OF hw] by blast
  have "consume_agent_report i r w = (Inr (), w1)"
    using p(1)
    by (simp add: consume_agent_report_def holds_get [OF assms(1)]
        require_node_found [OF assms(2)] svc_bind_def svc_lift_def svc_env_def svc_return_def)
  moreover have "ns_status ?m = ns_status n \<and> ns_key ?m = ns_key n"
    by (simp add: consume_report_on_node_def set_latest_attempt_def split: option.split)
  ultimately show ?thesis using p by blast
qed

lemma complete_node_total:
  assumes "holds w i s" "session_node s k = Some n" "ns_status n = Node_RUNNING"
  shows "\<exists>w' t m. complete_node i k out w = (Inr m, w') \<and> holds w' i t \<and> node_replaced k m s t \<and>
    ns_status m = Node_COMPLETED \<and> ns_key m = ns_key n"
proof -
  let ?e = "w_env w (w_ops w)" let ?w = "w\<lparr>w_ops := w_ops w + 1\<rparr>"
  let ?n = "n\<lparr>ns_status := Node_COMPLETED, ns_updated_at := ev_tick ?e k Node_COMPLETED\<rparr>"
  have nt: "node_transition (ev_tick ?e k Node_COMPLETED) Node_COMPLETED n = Inr ?n"
    using assms(3) by (simp add: status_simps)
  obtain c m where c: "complete_running_attempt out (ev_now ?e 0) ?n = Inr (c, m)"
      "ns_status m = Node_COMPLETED" "ns_key m = ns_key n"
    by (cases "running_attempt ?n")
       (auto simp: complete_running_attempt_eq Let_def set_latest_attempt_def)
  have hw: "holds ?w i s" using assms(1) by simp
  obtain w0 where e0: "(case c of None \<Rightarrow> svc_return () | Some a \<Rightarrow>
      svc_emit (node_execution_completed i k a (out \<noteq> None))) ?w = (Inr (), w0)" "holds w0 i s"
    using holds_emit [OF hw] hw by (cases c) (auto simp: svc_return_def)
  obtain w1 t where p: "put_session (set_node k m s) w0 = (Inr t, w1)" "holds w1 i t" "node_replaced k m s t"
    using holds_put_node [OF e0(2)] by blast
  obtain w2 where e: "svc_emit (node_completed i m (out \<noteq> None)) w1 = (Inr (), w2)" "holds w2 i t"
    using holds_emit [OF p(2)] by blast
  have "complete_node i k out w = (Inr m, w2)"
    using nt p(1) e(1) c(1) e0(1)
    by (simp del: node_transition_Inr add: complete_node_def holds_get [OF assms(1)]
        require_node_found [OF assms(2)] svc_bind_def svc_lift_def svc_env_def svc_return_def)
  with e(2) p(3) c show ?thesis by blast
qed

lemma session_transition_total:
  assumes "holds w i s" "is_valid_session_transition (rs_status s) st" "st \<noteq> Session_QUEUED"
  shows "\<exists>w' t. session_transition i st w = (Inr t, w') \<and> holds w' i t \<and> rs_status t = st \<and>
    session_node t = nodes_at st s \<and>
    (st \<notin> terminal_session_statuses \<longrightarrow> rs_nodes t = rs_nodes s \<and>
      rs_durable_interactions t = rs_durable_interactions s)"
proof -
  let ?e = "w_env w (w_ops w)" let ?w = "w\<lparr>w_ops := w_ops w + 1\<rparr>"
  obtain s1 where s1: "transition_session st (ev_now ?e 0) s = Inr s1"
      "rs_id s1 = rs_id s" "rs_version s1 = rs_version s" "rs_status s1 = st"
      "st \<notin> terminal_session_statuses \<longrightarrow> rs_nodes s1 = rs_nodes s \<and>
        rs_durable_interactions s1 = rs_durable_interactions s"
    using assms(2) by (auto simp: transition_session_Inr Let_def)
  note n = transition_session_nodes [OF s1(1)]
  have hw: "holds ?w i s" using assms(1) by simp
  obtain w1 where p: "put_session s1 ?w = (Inr (bump s1), w1)" "holds w1 i (bump s1)"
    using holds_put [OF hw, of s1] s1(2,3) holds_id [OF assms(1)] by auto
  obtain ev where ev: "session_transition_event i (bump s1) st = Inr ev"
    using assms(3) by (cases st) (auto simp: session_transition_event_def)
  obtain w2 where e: "svc_emit ev w1 = (Inr (), w2)" "holds w2 i (bump s1)"
    using holds_emit [OF p(2)] by blast
  have "session_transition i st w = (Inr (bump s1), w2)"
    using s1(1) p(1) ev e(1)
    by (simp add: session_transition_def holds_get [OF assms(1)] svc_bind_def svc_lift_def
        svc_env_def svc_return_def)
  with e(2) s1 n show ?thesis
    by (intro exI [of _ w2] exI [of _ "bump s1"]) (simp add: session_node_def fun_eq_iff)
qed

section \<open>One turn of the loop\<close>

text \<open>\<open>idle s\<close>: nothing is running, waiting for a decision or leased.\<close>

definition idle :: "runtime_session \<Rightarrow> bool" where
  "idle s \<longleftrightarrow> distinct (map fst (rs_nodes s)) \<and>
     (\<forall>(k, n) \<in> set (rs_nodes s). ns_key n = k \<and> ns_status n \<in> {Node_QUEUED, Node_COMPLETED}) \<and>
     rs_durable_interactions s = [] \<and> rs_status s \<in> {Session_QUEUED, Session_RUNNING}"

lemma idle_node:
  "idle s \<Longrightarrow> session_node s k = Some n \<Longrightarrow> ns_key n = k \<and> ns_status n \<in> {Node_QUEUED, Node_COMPLETED}"
  by (auto simp: idle_def session_node_def dest!: map_of_SomeD)

lemma idle_recover:
  assumes "holds w i s" "idle s"
  shows "\<exists>w'. recover_before_scheduling i opts s w = (Inr s, w') \<and> holds w' i s"
proof -
  have n: "filter (expired_execution now) (map snd (rs_nodes s)) = []" for now
    using assms(2) by (auto simp: idle_def expired_execution_def filter_empty_conv)
  let ?w1 = "w\<lparr>w_ops := w_ops w + 1\<rparr>" let ?w2 = "?w1\<lparr>w_ops := w_ops ?w1 + 1\<rparr>"
  have h1: "holds ?w1 i s" and h2: "holds ?w2 i s" using assms(1) by simp_all
  have a: "recover_expired_node_executions i None (ro_owner opts) w = (Inr [], ?w1)"
    by (simp add: recover_expired_node_executions_def svc_bind_def holds_get [OF assms(1)] svc_env_def
        svc_lift_def recover_expired_eq n svc_return_def Let_def)
  have b: "recover_expired_turn_leases i None ?w1 = (Inr [], ?w2)"
    using assms(2)
    by (simp add: recover_expired_turn_leases_def svc_bind_def get_after_env [OF assms(1)] svc_env_def
        Let_def recover_expired_durable_turn_leases_def idle_def svc_return_def)
  have "recover_before_scheduling i opts s w = (Inr s, ?w2)"
    using a b by (simp add: recover_before_scheduling_def svc_bind_def svc_return_def)
  with h2 show ?thesis by blast
qed

definition same_work :: "runtime_session \<Rightarrow> runtime_session \<Rightarrow> bool" where
  "same_work s t \<longleftrightarrow> rs_nodes t = rs_nodes s \<and> rs_durable_interactions t = rs_durable_interactions s"

lemma active_total:
  assumes "holds w i s" "rs_status s \<in> {Session_QUEUED, Session_RUNNING}"
  shows "\<exists>w' t. active_session i w = (Inr t, w') \<and> holds w' i t \<and> rs_status t = Session_RUNNING \<and>
    same_work s t"
proof (cases "rs_status s = Session_RUNNING")
  case True
  then have "active_session i w = (Inr s, w)"
    by (simp add: active_session_def svc_bind_def holds_get [OF assms(1)] svc_return_def)
  with True assms(1) show ?thesis by (auto simp: same_work_def)
next
  case False
  then have q: "rs_status s = Session_QUEUED" using assms(2) by simp
  then have "is_valid_session_transition (rs_status s) Session_RUNNING" by (simp add: status_simps)
  then obtain w1 t where t: "session_transition i Session_RUNNING w = (Inr t, w1)" "holds w1 i t"
      "rs_status t = Session_RUNNING" "same_work s t"
    using session_transition_total [OF assms(1), of Session_RUNNING]
    by (auto simp: same_work_def terminal_session_statuses_def)
  then have "active_session i w = (Inr t, w1)"
    using q by (simp add: active_session_def mark_session_running_def svc_bind_def
        holds_get [OF assms(1)] holds_get [OF t(2)])
  with t show ?thesis by blast
qed

lemma open_execution_total:
  assumes "holds w i s" "rs_status s \<in> {Session_QUEUED, Session_RUNNING}"
    "session_node s k = Some n" "ns_status n = Node_QUEUED" "ns_key n = k"
  shows "\<exists>w' t a m. open_node_execution i k tr w = (Inr a, w') \<and> holds w' i t \<and>
    rs_status t = Session_RUNNING \<and> rs_nodes t = AList.update k m (rs_nodes s) \<and>
    rs_durable_interactions t = rs_durable_interactions s \<and> ns_status m = Node_RUNNING \<and>
    ns_key m = k \<and> running_attempt m = Some a \<and> \<not> has_execution_lease_metadata a"
proof -
  obtain w1 t1 where 1: "active_session i w = (Inr t1, w1)" "holds w1 i t1"
      "rs_status t1 = Session_RUNNING" "same_work s t1"
    using active_total [OF assms(1,2)] by blast
  have n1: "session_node t1 k = Some n" using assms(3) 1(4) by (simp add: same_work_def session_node_def)
  obtain w2 t2 m2 where 2: "start_node i k w1 = (Inr m2, w2)" "holds w2 i t2" "node_replaced k m2 t1 t2"
      "ns_status m2 = Node_RUNNING" "ns_key m2 = k"
    using start_node_total [OF 1(2) n1 assms(4)] assms(5) by auto
  have n2: "session_node t2 k = Some m2" using node_replaced_lookup [OF 2(3)] by simp
  obtain w3 t3 a m3 where 3: "start_attempt i k tr w2 = (Inr a, w3)" "holds w3 i t3"
      "node_replaced k m3 t2 t3" "ns_status m3 = Node_RUNNING" "ns_key m3 = k"
      "running_attempt m3 = Some a" "\<not> has_execution_lease_metadata a"
    using start_attempt_total [OF 2(2) n2, of tr] 2(4,5) by auto
  obtain w4 where 4: "svc_emit (node_execution_started i k a tr) w3 = (Inr (), w4)" "holds w4 i t3"
    using holds_emit [OF 3(2)] by blast
  have "open_node_execution i k tr w = (Inr a, w4)"
    using 1(1) n1 assms(4) 2(1) 3(1) 4(1)
    by (simp add: open_node_execution_def start_node_execution_def svc_bind_def svc_return_def)
  with 4(2) 3 node_replaced_twice [OF 2(3) 3(3)] 1(3,4) show ?thesis
    by (intro exI [of _ w4] exI [of _ t3] exI [of _ a] exI [of _ m3])
       (simp add: node_replaced_def same_work_def)
qed

lemma apply_complete_total:
  assumes "holds w i s" "rs_status s = Session_RUNNING" "session_node s k = Some n"
    "ns_status n = Node_RUNNING"
  shows "\<exists>w' t m d. apply_complete_intent i k it x w = (Inr d, w') \<and> holds w' i t \<and>
    node_replaced k m s t \<and> ns_status m = Node_COMPLETED \<and> ns_key m = ns_key n \<and>
    rd_kind d = Decided_CONTINUE"
proof -
  obtain w1 t m where c: "complete_node i k (Some (ai_output it)) w = (Inr m, w1)" "holds w1 i t"
      "node_replaced k m s t" "ns_status m = Node_COMPLETED" "ns_key m = ns_key n"
    using complete_node_total [OF assms(1,3,4)] by blast
  have "rs_status t = Session_RUNNING" using c(3) assms(2) by (simp add: node_replaced_def)
  then have "\<exists>d. apply_complete_intent i k it x w = (Inr d, w1) \<and> rd_kind d = Decided_CONTINUE"
    using c(1) assms(2)
    by (simp add: apply_complete_intent_def resume_session_if_waiting_def ensure_session_running_def
        svc_bind_def svc_return_def holds_get [OF assms(1)] holds_get [OF c(2)])
  with c show ?thesis by blast
qed

lemma report_total:
  assumes "holds w i s" "rs_status s = Session_RUNNING" "session_node s (ar_node_key r) = Some n"
    "ns_status n = Node_RUNNING" "ns_key n = ar_node_key r" "running_attempt n = Some a"
    "\<not> has_execution_lease_metadata a" "\<not> truthy (ar_error r)"
  shows "\<exists>w' t m d. open_runtime_decision None default_apply_deriver i r w = (Inr d, w') \<and>
    holds w' i t \<and> node_replaced (ar_node_key r) m s t \<and> ns_status m = Node_COMPLETED \<and>
    ns_key m = ar_node_key r \<and> rd_kind d = Decided_CONTINUE"
proof -
  let ?k = "ar_node_key r"
  have la: "latest_attempt n = Some a"
    using assms(6) by (simp add: running_attempt_def split: option.splits if_splits)
  have as: "active_session i w = (Inr s, w)"
    using assms(2) by (simp add: active_session_def svc_bind_def holds_get [OF assms(1)] svc_return_def)
  have pre: "report_prefix i r w = (Inr n, w)"
    using as assms(3,4,7) la
    by (simp add: report_prefix_def svc_bind_def svc_return_def assert_report_execution_lease_def)
  obtain w1 t1 m1 where 1: "consume_agent_report i r w = (Inr (), w1)" "holds w1 i t1"
      "node_replaced ?k m1 s t1" "ns_status m1 = Node_RUNNING" "ns_key m1 = ?k"
    using consume_total [OF assms(1,3)] assms(4,5) by auto
  have n1: "session_node t1 ?k = Some m1" using node_replaced_lookup [OF 1(3)] by simp
  have r1: "rs_status t1 = Session_RUNNING" using 1(3) assms(2) by (simp add: node_replaced_def)
  define it where "it = (blank_intent Intent_COMPLETE)\<lparr>ai_node_key := Some ?k,
    ai_output := persisted_output r, ai_authorization := [(''source'', JStr ''default_apply_deriver'')]\<rparr>"
  obtain w2 t2 m2 d where 2: "apply_complete_intent i ?k it (ar_execution_id r) w1 = (Inr d, w2)"
      "holds w2 i t2" "node_replaced ?k m2 t1 t2" "ns_status m2 = Node_COMPLETED" "ns_key m2 = ?k"
      "rd_kind d = Decided_CONTINUE"
    using apply_complete_total [OF 1(2) r1 n1 1(4), of it "ar_execution_id r"] 1(5) by auto
  have ai: "apply_node_intent i it (Some r) w1 = (Inr d, w2)"
    using 2(1) by (simp add: apply_node_intent_def it_def required_node_key_def svc_bind_def svc_lift_def
        blank_intent_def Let_def)
  have "apply_gated_report None default_apply_deriver i r t1 m1 w1 = (Inr d, w2)"
    using ai 1(5)
    by (simp add: apply_gated_report_def default_apply_deriver_def svc_bind_def svc_lift_def svc_return_def
        coerce_apply_intent_def it_def blank_intent_def Let_def)
  then have "open_runtime_decision None default_apply_deriver i r w = (Inr d, w2)"
    using pre assms(6,8) 1(1) n1
    by (simp add: open_runtime_decision_prefix svc_bind_def svc_return_def svc_lift_def
        holds_get [OF 1(2)] node_item_def)
  with 2 node_replaced_twice [OF 1(3) 2(3)] show ?thesis by blast
qed

section \<open>The whole run\<close>

text \<open>
  A harness that cooperates: its episodes leave the session as it is stored, and end with a report
  on the node that carries no error.
\<close>

definition cooperative :: "orchestrator \<Rightarrow> string \<Rightarrow> bool" where
  "cooperative orch i \<longleftrightarrow>
     (\<forall>q w t sp. holds w i t \<longrightarrow> node_spec (or_workflow orch) (eq_node_key q) = Inr sp \<longrightarrow>
        rs_id (eq_session q) = i \<longrightarrow> eq_node_config q = wn_config sp \<longrightarrow>
        (\<exists>outcome w'. or_harness orch q w = (Inr outcome, w') \<and> holds w' i t \<and>
           ar_node_key (eo_report outcome) = eq_node_key q \<and>
           \<not> truthy (ar_error (eo_report outcome))))"

definition ungated :: "hooks \<Rightarrow> bool" where
  "ungated h \<longleftrightarrow> hk_gate h = None \<and> hk_deriver h = default_apply_deriver"

lemma invoke_total:
  assumes "holds w i t" "cooperative orch i" "node_spec (or_workflow orch) k = Inr sp" "rs_id s = i"
  shows "\<exists>w' r. invoke_with_lease_heartbeat orch opts s k role (wn_config sp) x tr None w = (Inr r, w') \<and>
    holds w' i t \<and> ar_node_key r = k \<and> \<not> truthy (ar_error r)"
proof -
  obtain w1 where e: "svc_emit (trace_event EXECUTION_HARNESS_SELECTED (rs_id s) k x tr
      [(''harness_id'', JStr (or_harness_name orch))] ''info'') w = (Inr (), w1)" "holds w1 i t"
    using holds_emit [OF assms(1)] by blast
  let ?q = "\<lparr>eq_session = s, eq_node_key = k, eq_agent_role = role, eq_node_config = wn_config sp,
        eq_execution_id = x, eq_trace_id = tr, eq_lease_token = None,
        eq_constraints = no_constraints, eq_resume = None\<rparr>"
  have q: "node_spec (or_workflow orch) (eq_node_key ?q) = Inr sp" "rs_id (eq_session ?q) = i"
      "eq_node_config ?q = wn_config sp"
    using assms(3,4) by simp_all
  obtain outcome w2 where "or_harness orch ?q w1 = (Inr outcome, w2)" "holds w2 i t"
      "ar_node_key (eo_report outcome) = eq_node_key ?q" "\<not> truthy (ar_error (eo_report outcome))"
    using assms(2) e(2) q unfolding cooperative_def by blast
  then show ?thesis
    using e(1) by (auto simp: invoke_with_lease_heartbeat_def invoke_for_node_def svc_bind_def svc_return_def)
qed

lemma run_node_total:
  assumes "holds w i s" "rs_status s \<in> {Session_QUEUED, Session_RUNNING}"
    "session_node s k = Some n" "ns_status n = Node_QUEUED" "ns_key n = k"
    "node_spec (or_workflow orch) k = Inr sp" "ungated (or_hooks orch)" "cooperative orch i"
    "ro_owner opts = None"
  shows "\<exists>w' t m d. run_node orch opts i s k w = (Inr d, w') \<and> holds w' i t \<and>
    rs_status t = Session_RUNNING \<and> rs_nodes t = AList.update k m (rs_nodes s) \<and>
    rs_durable_interactions t = rs_durable_interactions s \<and> ns_status m = Node_COMPLETED \<and>
    ns_key m = k \<and> rd_kind d = Decided_CONTINUE"
proof -
  let ?w0 = "w\<lparr>w_ops := w_ops w + 1\<rparr>"
  let ?tr = "new_trace_id (ev_id (w_env w (w_ops w)) 0) i k"
  have h0: "holds ?w0 i s" using assms(1) by simp
  obtain w1 t1 a m1 where 1: "open_node_execution i k (Some ?tr) ?w0 = (Inr a, w1)" "holds w1 i t1"
      "rs_status t1 = Session_RUNNING" "rs_nodes t1 = AList.update k m1 (rs_nodes s)"
      "rs_durable_interactions t1 = rs_durable_interactions s" "ns_status m1 = Node_RUNNING"
      "ns_key m1 = k" "running_attempt m1 = Some a" "\<not> has_execution_lease_metadata a"
    using open_execution_total [OF h0 assms(2-5)] by blast
  have n1: "session_node t1 k = Some m1" using 1(4) by (simp add: session_node_def)
  obtain w2 r where 2: "invoke_with_lease_heartbeat orch opts s k (wn_role sp) (wn_config sp) (na_id a) ?tr None w1 = (Inr r, w2)"
      "holds w2 i t1" "ar_node_key r = k" "\<not> truthy (ar_error r)"
    using invoke_total [OF 1(2) assms(8,6)] holds_id [OF assms(1)] by blast
  obtain w3 t3 m3 d where 3: "open_runtime_decision None default_apply_deriver i r w2 = (Inr d, w3)"
      "holds w3 i t3" "node_replaced k m3 t1 t3" "ns_status m3 = Node_COMPLETED" "ns_key m3 = k"
      "rd_kind d = Decided_CONTINUE"
    using report_total [OF 2(2) 1(3), of r m1 a] n1 1(6-9) 2(3,4) by auto
  have "run_node orch opts i s k w = (Inr d, w3)"
    using assms(6,7,9) 1(1) 2(1) 3(1)
    by (simp add: run_node_def svc_bind_def svc_lift_def svc_env_def svc_return_def Let_def
        svc_try_def ungated_def)
  with 3 1(3-5) show ?thesis
    by (intro exI [of _ w3] exI [of _ t3] exI [of _ m3] exI [of _ d]) (simp add: node_replaced_def)
qed

lemma set_update_distinct:
  "distinct (map fst xs) \<Longrightarrow> set (AList.update k v xs) = insert (k, v) {p \<in> set xs. fst p \<noteq> k}"
proof (induction xs)
  case (Cons p xs)
  obtain a b where p: "p = (a, b)" by force
  show ?case
  proof (cases "a = k")
    case True
    then have "\<forall>q \<in> set xs. fst q \<noteq> k" using Cons.prems p by force
    with True p show ?thesis by auto
  next
    case False
    with Cons p show ?thesis by auto
  qed
qed simp

lemma idle_update:
  assumes "idle s" "rs_status t = Session_RUNNING" "rs_nodes t = AList.update k m (rs_nodes s)"
    "rs_durable_interactions t = rs_durable_interactions s" "ns_status m = Node_COMPLETED" "ns_key m = k"
  shows "idle t"
  using assms by (auto simp: idle_def set_update_distinct distinct_update)

text \<open>The nodes of the blueprint that are not completed yet.\<close>

definition open_work :: "workflow_blueprint \<Rightarrow> runtime_session \<Rightarrow> string list" where
  "open_work b s = filter (\<lambda>k. \<not> node_completed_in s k) (blueprint_keys b)"

definition covers :: "workflow_blueprint \<Rightarrow> runtime_session \<Rightarrow> bool" where
  "covers b s \<longleftrightarrow> (\<forall>k \<in> set (blueprint_keys b). session_node s k \<noteq> None)"

lemma open_work_update:
  assumes "session_node t = (session_node s)(k \<mapsto> m)" "ns_status m = Node_COMPLETED"
    "k \<in> set (blueprint_keys b)" "\<not> node_completed_in s k"
  shows "length (open_work b t) < length (open_work b s)"
proof -
  have "open_work b t = filter (\<lambda>j. j \<noteq> k) (open_work b s)"
    using assms(1,2) by (auto simp: open_work_def node_completed_in_def intro!: filter_cong)
  moreover have "k \<in> set (open_work b s)" using assms(3,4) by (simp add: open_work_def)
  ultimately show ?thesis
    by (metis (mono_tags, lifting) length_filter_less)
qed

lemma complete_total:
  assumes "holds w i s" "rs_status s = Session_RUNNING"
  shows "\<exists>w' t d. record_session_complete i summary w = (Inr d, w') \<and> holds w' i t \<and>
    rs_status t = Session_COMPLETED \<and> session_node t = nodes_at Session_COMPLETED s \<and>
    rd_kind d = Decided_COMPLETE"
proof -
  have "is_valid_session_transition (rs_status s) Session_COMPLETED" using assms(2) by (simp add: status_simps)
  then obtain w1 t where 1: "session_transition i Session_COMPLETED w = (Inr t, w1)" "holds w1 i t"
      "rs_status t = Session_COMPLETED" "session_node t = nodes_at Session_COMPLETED s"
    using session_transition_total [OF assms(1), of Session_COMPLETED] by auto
  let ?t = "t\<lparr>rs_summary_output := the summary\<rparr>"
  obtain w2 where 2: "put_session ?t w1 = (Inr (bump ?t), w2)" "holds w2 i (bump ?t)"
    using holds_put [OF 1(2), of ?t] holds_id [OF 1(2)] by auto
  have cs: "complete_session i summary w =
      (if (case summary of None \<Rightarrow> False | Some d \<Rightarrow> d \<noteq> []) then (Inr (bump ?t), w2) else (Inr t, w1))"
    using 1(1) 2(1) by (simp add: complete_session_def svc_bind_def svc_return_def)
  show ?thesis
  proof (cases "case summary of None \<Rightarrow> False | Some d \<Rightarrow> d \<noteq> []")
    case True
    then have "\<exists>d. record_session_complete i summary w = (Inr d, w2) \<and> rd_kind d = Decided_COMPLETE"
      using cs assms(2) by (simp add: record_session_complete_def svc_bind_def svc_return_def
          holds_get [OF assms(1)] holds_get [OF 2(2)])
    with 1 2(2) show ?thesis
      by (intro exI [of _ w2] exI [of _ "bump ?t"]) (auto simp: session_node_def fun_eq_iff)
  next
    case False
    then have "\<exists>d. record_session_complete i summary w = (Inr d, w1) \<and> rd_kind d = Decided_COMPLETE"
      using cs assms(2) by (simp add: record_session_complete_def svc_bind_def svc_return_def
          holds_get [OF assms(1)] holds_get [OF 1(2)])
    with 1 show ?thesis by blast
  qed
qed

lemma run_loop_total:
  assumes "topological (or_workflow orch) = Inr order" "distinct (blueprint_keys (or_workflow orch))"
    "ungated (or_hooks orch)" "cooperative orch i" "ro_owner opts = None"
  shows "holds w i s \<Longrightarrow> idle s \<Longrightarrow> covers (or_workflow orch) s \<Longrightarrow>
    length (open_work (or_workflow orch) s) < n \<Longrightarrow>
    rs_status s = Session_RUNNING \<or> open_work (or_workflow orch) s \<noteq> [] \<Longrightarrow>
    \<exists>d w' t. run_loop orch opts i n ld w = (Inr d, w') \<and> holds w' i t \<and> rd_kind d = Decided_COMPLETE \<and>
      rs_status t = Session_COMPLETED \<and>
      (\<forall>k \<in> set (blueprint_keys (or_workflow orch)). node_completed_in t k)"
proof (induction n arbitrary: w s ld)
  case (Suc n)
  let ?b = "or_workflow orch"
  have st: "rs_status s \<in> {Session_QUEUED, Session_RUNNING}" using Suc.prems(2) by (simp add: idle_def)
  obtain w1 where rc: "recover_before_scheduling i opts s w = (Inr s, w1)" "holds w1 i s"
    using idle_recover [OF Suc.prems(1,2)] by blast
  have all: "\<forall>k \<in> set (blueprint_keys ?b). \<exists>n. session_node s k = Some n \<and>
      ns_status n \<in> {Node_QUEUED, Node_COMPLETED}"
    using Suc.prems(2,3) idle_node unfolding covers_def by blast
  have unfold: "run_loop orch opts i (Suc n) ld w =
      (case filter (ready_in ?b s) order of
         [] \<Rightarrow> record_session_complete i (completion_summary s)
       | key # _ \<Rightarrow> svc_bind (run_node orch opts i s key) (\<lambda>d.
             if rd_kind d \<noteq> Decided_CONTINUE then svc_return d
             else run_loop orch opts i n (Some d))) w1"
    using st rc(1) ready_nodes_eq [OF assms(1,2)]
    by (auto simp: svc_bind_def holds_get [OF Suc.prems(1)] svc_lift_def)
  show ?case
  proof (cases "open_work ?b s = []")
    case True
    then have fin: "\<forall>k \<in> set (blueprint_keys ?b). node_completed_in s k"
      by (simp add: open_work_def filter_empty_conv)
    then have "filter (ready_in ?b s) order = []"
      using topological_sound [OF assms(1,2)]
      by (auto simp: filter_empty_conv ready_in_def node_completed_in_def)
    moreover obtain w2 t d where "record_session_complete i (completion_summary s) w1 = (Inr d, w2)"
        "holds w2 i t" "rs_status t = Session_COMPLETED" "session_node t = nodes_at Session_COMPLETED s"
        "rd_kind d = Decided_COMPLETE"
      using complete_total [OF rc(2), of "completion_summary s"] Suc.prems(5) True by auto
    ultimately have rl: "run_loop orch opts i (Suc n) ld w = (Inr d, w2)"
      and t: "holds w2 i t" "rs_status t = Session_COMPLETED" "session_node t = nodes_at Session_COMPLETED s"
        "rd_kind d = Decided_COMPLETE"
      using unfold by simp_all
    have "\<forall>k \<in> set (blueprint_keys ?b). node_completed_in t k"
      using fin t(3) by (auto simp: node_completed_in_def nodes_at_def terminal_session_statuses_def
          leases_cleared_def split: option.splits)
    with rl t show ?thesis by blast
  next
    case False
    then obtain k0 where k0: "k0 \<in> set (blueprint_keys ?b)" "\<not> node_completed_in s k0"
      by (auto simp: open_work_def filter_empty_conv)
    obtain k ks where f: "filter (ready_in ?b s) order = k # ks"
      using ready_nodes_progress [OF assms(1,2) all k0] ready_nodes_eq [OF assms(1,2)] by auto
    have "k \<in> set (filter (ready_in ?b s) order)" using f by simp
    then have "k \<in> set order" "ready_in ?b s k" by simp_all
    then obtain nd where k: "k \<in> set (blueprint_keys ?b)" "session_node s k = Some nd"
        "ns_status nd = Node_QUEUED" "\<not> node_completed_in s k" "ns_key nd = k"
      using topological_sound [OF assms(1,2)] idle_node [OF Suc.prems(2)]
      by (auto simp: ready_in_def node_completed_in_def)
    obtain sp where sp: "node_spec ?b k = Inr sp"
      using node_spec_requires [OF assms(2) k(1)] by blast
    obtain w2 t m d where rn: "run_node orch opts i s k w1 = (Inr d, w2)" "holds w2 i t"
        "rs_status t = Session_RUNNING" "rs_nodes t = AList.update k m (rs_nodes s)"
        "rs_durable_interactions t = rs_durable_interactions s" "ns_status m = Node_COMPLETED"
        "ns_key m = k" "rd_kind d = Decided_CONTINUE"
      using run_node_total [OF rc(2) st k(2,3,5) sp assms(3-5)] by blast
    have nt: "session_node t = (session_node s)(k \<mapsto> m)"
      using rn(4) by (simp add: session_node_def fun_eq_iff)
    have cv: "covers ?b t" using Suc.prems(3) nt by (simp add: covers_def)
    have less: "length (open_work ?b t) < n"
      using open_work_update [OF nt rn(6) k(1,4)] Suc.prems(4) by simp
    have "run_loop orch opts i (Suc n) ld w = run_loop orch opts i n (Some d) w2"
      using unfold f rn(1,8) by (simp add: svc_bind_def)
    with Suc.IH [OF rn(2) idle_update [OF Suc.prems(2) rn(3-7)] cv less, of "Some d"] rn(3)
    show ?thesis by simp
  qed
qed simp

section \<open>From creation to completion\<close>

lemma created_nodes_fold:
  assumes "distinct (map fst d)" "\<forall>(k, n) \<in> set d. ns_key n = k \<and> ns_status n = Node_QUEUED"
    "d' = fold (\<lambda>(i, sp) d. AList.update (wn_key sp) (new_node (clock i) (wn_key sp)) d) xs d"
  shows "distinct (map fst d') \<and> (\<forall>(k, n) \<in> set d'. ns_key n = k \<and> ns_status n = Node_QUEUED) \<and>
    fst ` set d' = fst ` set d \<union> wn_key ` snd ` set xs"
  using assms
proof (induction xs arbitrary: d)
  case (Cons x xs)
  obtain i sp where x: "x = (i, sp)" by force
  let ?d = "AList.update (wn_key sp) (new_node (clock i) (wn_key sp)) d"
  have 1: "distinct (map fst ?d)" using Cons.prems(1) by (rule distinct_update)
  have 2: "\<forall>(k, n) \<in> set ?d. ns_key n = k \<and> ns_status n = Node_QUEUED"
    using Cons.prems(1,2) by (auto simp: set_update_distinct new_node_def)
  have 3: "fst ` set ?d = insert (wn_key sp) (fst ` set d)" by (simp add: dom_update)
  have "d' = fold (\<lambda>(i, sp) d. AList.update (wn_key sp) (new_node (clock i) (wn_key sp)) d) xs ?d"
    using Cons.prems(3) x by simp
  from Cons.IH [OF 1 2 this] 3 x show ?case by auto
qed simp

lemma created_session_ready:
  assumes "create_session b inp md w = (Inr s, w')" "keyed (w_store w)" "calm w"
  shows "holds w' (rs_id s) s \<and> idle s \<and> covers b s \<and>
    (\<forall>k n. session_node s k = Some n \<longrightarrow> ns_status n = Node_QUEUED)"
proof -
  let ?e = "w_env w (w_ops w)"
  let ?s = "create_runtime_session (ev_id ?e 0) (ev_born ?e) b inp md"
  let ?w1 = "w\<lparr>w_ops := w_ops w + 1\<rparr>"
  obtain w2 where p: "put_session ?s ?w1 = (Inr s, w2)"
    and e: "svc_emit (session_created (rs_id s) (wb_name b) (length (rs_nodes s))) w2 = (Inr (), w')"
    using assms(1) by (auto simp: create_session_def svc_bind_Inr Let_def)
  note q = put_session_Inr [OF p]
  have k: "keyed (w_store ?w1)" using assms(2) by simp
  have id: "rs_id ?s = rs_id s" using q(1) by simp
  have "w_emitter w2 = w_emitter ?w1" "w_heart w2 = w_heart ?w1"
    using q(4) by (metis world.select_convs world.surjective world.update_convs(1))+
  then have em: "w_emitter w2 = w_emitter w" "w_heart w2 = w_heart w" by simp_all
  have "holds w2 (rs_id s) s"
    using put_stores [OF p k id] assms(3) em by (simp add: holds_def calm_def)
  from holds_emit [OF this, of "session_created (rs_id s) (wb_name b) (length (rs_nodes s))"] e
  have h: "holds w' (rs_id s) s" by auto
  have n: "rs_nodes s = fold (\<lambda>(i, sp) d. AList.update (wn_key sp) (new_node (ev_born ?e i) (wn_key sp)) d)
      (List.enumerate 0 (wb_nodes b)) []"
    using q(1) by (simp add: create_runtime_session_def created_nodes_def)
  note c = created_nodes_fold [OF _ _ n]
  have st: "rs_status s = Session_QUEUED" "rs_durable_interactions s = []"
    using q(1) by (simp_all add: create_runtime_session_def)
  have "idle s" using c st by (auto simp: idle_def)
  moreover have "rs_nodes s = created_nodes (ev_born ?e) (wb_nodes b) []"
    using n by (simp add: created_nodes_def)
  then have "covers b s"
    using created_nodes_status [of _ "wb_nodes b" "ev_born ?e" "[]"]
    by (fastforce simp: covers_def session_node_def blueprint_keys_def)
  moreover have "\<forall>k n. session_node s k = Some n \<longrightarrow> ns_status n = Node_QUEUED"
    using c by (auto simp: session_node_def dest!: map_of_SomeD)
  ultimately show ?thesis using h by blast
qed

lemma created_session_runs:
  assumes "start_session orch inp md w = (Inr s, w1)" "keyed (w_store w)" "calm w"
    "topological (or_workflow orch) = Inr order" "distinct (blueprint_keys (or_workflow orch))"
    "wb_nodes (or_workflow orch) \<noteq> []" "length (wb_nodes (or_workflow orch)) < or_max_steps orch"
    "ungated (or_hooks orch)" "cooperative orch (rs_id s)" "ro_owner opts = None"
  shows "\<exists>d w2 t. run_session orch opts (rs_id s) w1 = (Inr d, w2) \<and> rd_kind d = Decided_COMPLETE \<and>
    stores w2 (rs_id s) t \<and> rs_status t = Session_COMPLETED \<and>
    (\<forall>k \<in> set (blueprint_keys (or_workflow orch)). node_completed_in t k)"
proof -
  let ?b = "or_workflow orch"
  note c = created_session_ready [OF assms(1) [unfolded start_session_def] assms(2,3)]
  have "open_work ?b s = blueprint_keys ?b"
    using c by (auto simp: open_work_def node_completed_in_def filter_id_conv split: option.splits)
  then have l: "length (open_work ?b s) < or_max_steps orch" "open_work ?b s \<noteq> []"
    using assms(6,7) by (simp_all add: blueprint_keys_def)
  have h: "holds w1 (rs_id s) s" "idle s" "covers ?b s" using c by simp_all
  obtain d w2 t where "run_loop orch opts (rs_id s) (or_max_steps orch) None w1 = (Inr d, w2)"
      "holds w2 (rs_id s) t" "rd_kind d = Decided_COMPLETE" "rs_status t = Session_COMPLETED"
      "\<forall>k \<in> set (blueprint_keys ?b). node_completed_in t k"
    using run_loop_total [OF assms(4,5,8-10) h l(1) disjI2 [OF l(2)], of None] by blast
  then show ?thesis unfolding run_session_def holds_def by blast
qed

text \<open>
  A workflow without nodes: nothing is ready in the first turn of the loop, and a session that
  is still queued cannot be completed.
\<close>

lemma empty_workflow_raises:
  assumes "start_session orch inp md w = (Inr s, w1)" "keyed (w_store w)" "calm w"
    "wb_nodes (or_workflow orch) = []" "0 < or_max_steps orch"
  shows "\<exists>w2. run_session orch opts (rs_id s) w1 = (Inl InvalidTransitionError, w2) \<and> stores w2 (rs_id s) s"
proof -
  let ?b = "or_workflow orch"
  note c = created_session_ready [OF assms(1) [unfolded start_session_def] assms(2,3)]
  have h: "holds w1 (rs_id s) s" "idle s" using c by simp_all
  have st: "rs_status s = Session_QUEUED"
    using assms(1) put_session_Inr
    by (fastforce simp: start_session_def create_session_def svc_bind_Inr Let_def create_runtime_session_def)
  obtain w2 where rc: "recover_before_scheduling (rs_id s) opts s w1 = (Inr s, w2)" "holds w2 (rs_id s) s"
    using idle_recover [OF h] by blast
  have "topological ?b = Inr []"
    using assms(4) by (simp add: topological_def count_requirements_def initial_ready_def blueprint_keys_def
        initial_degrees_def Let_def)
  then have r: "ready_nodes ?b s = Inr []"
    using ready_nodes_eq [of ?b "[]" s] assms(4) by (simp add: blueprint_keys_def)
  obtain m where m: "or_max_steps orch = Suc m" using assms(5) gr0_implies_Suc by blast
  let ?w3 = "w2\<lparr>w_ops := w_ops w2 + 1\<rparr>"
  have "complete_session (rs_id s) summary w2 = (Inl InvalidTransitionError, ?w3)" for summary
    using st by (simp add: complete_session_def session_transition_def svc_bind_def holds_get [OF rc(2)]
        svc_env_def svc_lift_def transition_session_def Let_def raise_when_def status_simps)
  then have "record_session_complete (rs_id s) summary w2 = (Inl InvalidTransitionError, ?w3)" for summary
    using st by (simp add: record_session_complete_def svc_bind_def holds_get [OF rc(2)] svc_return_def)
  then have "run_session orch opts (rs_id s) w1 = (Inl InvalidTransitionError, ?w3)"
    using st rc(1) r by (simp add: run_session_def m svc_bind_def holds_get [OF h(1)] svc_lift_def)
  moreover have "stores ?w3 (rs_id s) s" using rc(2) by (simp add: holds_def stores_def)
  ultimately show ?thesis by blast
qed

end
