(* ===== verification/Model_Routing.thy ===== *)
theory Model_Routing
  imports Py_Values Redaction
begin

text \<open>
  \<^verbatim>\<open>harness/routing.py\<close>: how a role name becomes a provider, a model and request settings,
  by a policy read from environment variables. The environment is a dictionary. \<^verbatim>\<open>int\<close>
  is modelled for the text it is given; \<^verbatim>\<open>float\<close> is the argument \<open>parse_float\<close>, since
  a float may be infinite or not a number.
\<close>

section \<open>Roles, profiles and routes\<close>

datatype route_role =
    Role_DEFAULT
  | Role_ORCHESTRATOR
  | Role_PLANNER
  | Role_EXECUTOR
  | Role_REVIEWER
  | Role_COMPACTOR

fun route_role_value :: "route_role \<Rightarrow> string" where
  "route_role_value Role_DEFAULT = ''default''"
| "route_role_value Role_ORCHESTRATOR = ''orchestrator''"
| "route_role_value Role_PLANNER = ''planner''"
| "route_role_value Role_EXECUTOR = ''executor''"
| "route_role_value Role_REVIEWER = ''reviewer''"
| "route_role_value Role_COMPACTOR = ''compactor''"

record provider_profile =
  pp_name :: string
  pp_api_key_env :: string
  pp_base_url :: string
  pp_default_model :: string
  pp_timeout_seconds :: rat
  pp_max_context_tokens :: int
  pp_metadata :: pydict

record role_route =
  rr_provider :: string
  rr_model :: "string option"
  rr_thinking :: bool
  rr_reasoning_effort :: "string option"
  rr_temperature :: "rat option"
  rr_max_tokens :: "int option"

record resolved_route =
  vr_role :: route_role
  vr_provider :: provider_profile
  vr_model :: string
  vr_api_key :: "string option"
  vr_thinking :: bool
  vr_reasoning_effort :: "string option"
  vr_temperature :: "rat option"
  vr_max_tokens :: "int option"

type_synonym environ = "(string \<times> string) list"

section \<open>Reading the environment\<close>

definition env_optional :: "environ \<Rightarrow> string \<Rightarrow> string option" where
  "env_optional env key =
     (case map_of env key of
        None \<Rightarrow> None
      | Some v \<Rightarrow> if py_strip v = [] then None else Some (py_strip v))"

definition env_text :: "environ \<Rightarrow> string \<Rightarrow> string \<Rightarrow> string" where
  "env_text env key fallback =
     (case map_of env key of
        None \<Rightarrow> fallback
      | Some v \<Rightarrow> if py_strip v = [] then fallback else py_strip v)"

definition env_bool :: "environ \<Rightarrow> string \<Rightarrow> bool \<Rightarrow> bool" where
  "env_bool env key fallback =
     (case map_of env key of
        None \<Rightarrow> fallback
      | Some v \<Rightarrow>
          if py_strip v = [] then fallback
          else py_lower (py_strip v) \<in> {''1'', ''true'', ''yes'', ''on'', ''enabled''})"

text \<open>
  \<^verbatim>\<open>int(text)\<close> of stripped text: an optional sign and digits, with single underscores
  between digits.
\<close>

fun digits_value :: "nat \<Rightarrow> bool \<Rightarrow> string \<Rightarrow> nat option" where
  "digits_value n after_digit [] = (if after_digit then Some n else None)"
| "digits_value n after_digit (c # cs) =
     (let d = of_char c :: nat in
      if 48 \<le> d \<and> d \<le> 57 then digits_value (10 * n + (d - 48)) True cs
      else if c = CHR ''_'' \<and> after_digit then digits_value n False cs
      else None)"

fun parse_int :: "string \<Rightarrow> exn + int" where
  "parse_int [] = Inl ValueError"
| "parse_int (c # cs) =
     (case (if c \<in> {CHR ''+'', CHR ''-''} then digits_value 0 False cs else digits_value 0 False (c # cs)) of
        None \<Rightarrow> Inl ValueError
      | Some n \<Rightarrow> Inr (if c = CHR ''-'' then - int n else int n))"

definition env_int :: "environ \<Rightarrow> string \<Rightarrow> int \<Rightarrow> exn + int" where
  "env_int env key fallback =
     (case env_optional env key of None \<Rightarrow> Inr fallback | Some v \<Rightarrow> parse_int v)"

definition env_int_optional :: "environ \<Rightarrow> string \<Rightarrow> exn + int option" where
  "env_int_optional env key =
     (case env_optional env key of
        None \<Rightarrow> Inr None | Some v \<Rightarrow> and_then (parse_int v) (\<lambda>n. Inr (Some n)))"

definition env_float ::
    "(string \<Rightarrow> exn + rat) \<Rightarrow> environ \<Rightarrow> string \<Rightarrow> rat \<Rightarrow> exn + rat" where
  "env_float parse_float env key fallback =
     (case env_optional env key of None \<Rightarrow> Inr fallback | Some v \<Rightarrow> parse_float v)"

definition env_float_optional ::
    "(string \<Rightarrow> exn + rat) \<Rightarrow> environ \<Rightarrow> string \<Rightarrow> exn + rat option" where
  "env_float_optional parse_float env key =
     (case env_optional env key of
        None \<Rightarrow> Inr None | Some v \<Rightarrow> and_then (parse_float v) (\<lambda>q. Inr (Some q)))"

definition api_key_from :: "provider_profile \<Rightarrow> environ \<Rightarrow> string option" where
  "api_key_from p env = env_optional env (pp_api_key_env p)"

section \<open>Role names\<close>

definition has_part :: "string list \<Rightarrow> string \<Rightarrow> bool" where
  "has_part parts raw \<longleftrightarrow> list_ex (\<lambda>part. py_contains part raw) parts"

text \<open>A role is given as a member of the enumeration or as text; \<open>None\<close> is no role.\<close>

definition normalize_text :: "string option \<Rightarrow> string" where
  "normalize_text role =
     map (\<lambda>c. if c = CHR ''-'' then CHR ''_'' else c)
       (py_lower (py_strip (case role of None \<Rightarrow> [] | Some t \<Rightarrow> t)))"

definition normalize_role_text :: "string option \<Rightarrow> route_role" where
  "normalize_role_text role =
     (let raw = normalize_text role in
      if raw = [] then Role_DEFAULT
      else if raw = ''default'' then Role_DEFAULT
      else if py_contains ''orchestr'' raw then Role_ORCHESTRATOR
      else if raw \<in> {''plan'', ''planner''} \<or> py_contains ''plan'' raw \<or> py_contains ''concept'' raw
        then Role_PLANNER
      else if raw \<in> {''execute'', ''executor'', ''act'', ''worker''} \<or>
          has_part [''write'', ''script'', ''scene'', ''audio'', ''video'', ''voice''] raw
        then Role_EXECUTOR
      else if raw \<in> {''review'', ''reviewer'', ''gate'', ''quality'', ''verifier''} \<or>
          has_part [''review'', ''gate'', ''quality'', ''check'', ''verif''] raw
        then Role_REVIEWER
      else if raw \<in> {''compact'', ''compactor'', ''memory_compactor''} then Role_COMPACTOR
      else Role_DEFAULT)"

definition normalize_role :: "route_role + string option \<Rightarrow> route_role" where
  "normalize_role role = (case role of Inl r \<Rightarrow> r | Inr text \<Rightarrow> normalize_role_text text)"

section \<open>The router\<close>

record model_router =
  mr_providers :: "(string \<times> provider_profile) list"
  mr_routes :: "(string \<times> role_route) list"
  mr_env :: environ

text \<open>A dictionary comprehension: a later entry with the same key replaces the value.\<close>

definition dict_of :: "(string \<times> 'v) list \<Rightarrow> (string \<times> 'v) list" where
  "dict_of items = fold (\<lambda>(k, v) d. AList.update k v d) items []"

definition make_router ::
    "(string \<times> provider_profile) list \<Rightarrow> ((route_role + string option) \<times> role_route) list \<Rightarrow>
     environ \<Rightarrow> exn + model_router" where
  "make_router providers routes env =
     (let r = \<lparr>mr_providers = dict_of (map (\<lambda>(k, v). (py_lower k, v)) providers),
               mr_routes = dict_of (map (\<lambda>(k, v). (route_role_value (normalize_role k), v)) routes),
               mr_env = env\<rparr>
      in if map_of (mr_routes r) ''default'' = None then Inl ValueError else Inr r)"

definition normalize_temperature :: "string \<Rightarrow> string \<Rightarrow> rat option \<Rightarrow> rat option" where
  "normalize_temperature provider model temperature =
     (if temperature \<noteq> None \<and> py_lower provider = ''kimi'' \<and> py_startswith (py_lower model) ''kimi-k2''
      then Some 1 else temperature)"

definition resolve_route :: "model_router \<Rightarrow> route_role + string option \<Rightarrow> exn + resolved_route" where
  "resolve_route m role =
     (let normalized = normalize_role role in
      and_then (case map_of (mr_routes m) (route_role_value normalized) of
           Some route \<Rightarrow> Inr (normalized, route)
         | None \<Rightarrow> (case map_of (mr_routes m) ''default'' of
               Some route \<Rightarrow> Inr (Role_DEFAULT, route)
             | None \<Rightarrow> Inl KeyError)) (\<lambda>(normalized, route).
      case map_of (mr_providers m) (py_lower (rr_provider route)) of
        None \<Rightarrow> Inl ValueError
      | Some p \<Rightarrow>
          let model = (if truthy (rr_model route) then the (rr_model route) else pp_default_model p) in
          Inr \<lparr>vr_role = normalized, vr_provider = p, vr_model = model,
            vr_api_key = api_key_from p (mr_env m), vr_thinking = rr_thinking route,
            vr_reasoning_effort = rr_reasoning_effort route,
            vr_temperature = normalize_temperature (pp_name p) model (rr_temperature route),
            vr_max_tokens = rr_max_tokens route\<rparr>))"

section \<open>The router of the environment\<close>

definition env_profile ::
    "(string \<Rightarrow> exn + rat) \<Rightarrow> environ \<Rightarrow> string \<Rightarrow> string \<Rightarrow> string \<Rightarrow> string \<Rightarrow> int \<Rightarrow>
     exn + provider_profile" where
  "env_profile parse_float env name prefix base_url model context_tokens =
     and_then (env_float parse_float env (prefix @ ''_TIMEOUT_SECONDS'') 120) (\<lambda>timeout.
     and_then (env_int env (prefix @ ''_CONTEXT_TOKENS'') context_tokens) (\<lambda>tokens.
     Inr \<lparr>pp_name = name, pp_api_key_env = prefix @ ''_API_KEY'',
       pp_base_url = env_text env (prefix @ ''_BASE_URL'') base_url,
       pp_default_model = env_text env (prefix @ ''_MODEL'') model,
       pp_timeout_seconds = timeout, pp_max_context_tokens = tokens, pp_metadata = []\<rparr>))"

definition env_role_route ::
    "(string \<Rightarrow> exn + rat) \<Rightarrow> environ \<Rightarrow> string \<Rightarrow> string \<Rightarrow> string \<Rightarrow> exn + role_route" where
  "env_role_route parse_float env role_name default_provider default_model =
     (let prefix = ''HYDRAMIND_'' @ role_name in
      and_then (env_float_optional parse_float env (prefix @ ''_TEMPERATURE'')) (\<lambda>temperature.
      and_then (env_int_optional env (prefix @ ''_MAX_TOKENS'')) (\<lambda>max_tokens.
      Inr \<lparr>rr_provider = env_text env (prefix @ ''_PROVIDER'') default_provider,
        rr_model = Some (env_text env (prefix @ ''_MODEL'') default_model),
        rr_thinking = env_bool env (prefix @ ''_THINKING'') False,
        rr_reasoning_effort = env_optional env (prefix @ ''_REASONING_EFFORT''),
        rr_temperature = temperature, rr_max_tokens = max_tokens\<rparr>)))"

definition env_default_route :: "environ \<Rightarrow> role_route" where
  "env_default_route env =
     \<lparr>rr_provider = env_text env ''HYDRAMIND_DEFAULT_PROVIDER'' ''deepseek'',
      rr_model = env_optional env ''HYDRAMIND_DEFAULT_MODEL'',
      rr_thinking = env_bool env ''HYDRAMIND_DEFAULT_THINKING'' False,
      rr_reasoning_effort = env_optional env ''HYDRAMIND_DEFAULT_REASONING_EFFORT'',
      rr_temperature = None, rr_max_tokens = None\<rparr>"

definition router_from_env :: "(string \<Rightarrow> exn + rat) \<Rightarrow> environ \<Rightarrow> exn + model_router" where
  "router_from_env parse_float env =
     and_then (env_profile parse_float env ''deepseek'' ''DEEPSEEK'' ''https://api.deepseek.com''
       ''deepseek-v4-pro'' 1000000) (\<lambda>deepseek.
     and_then (env_profile parse_float env ''kimi'' ''KIMI'' ''https://api.moonshot.cn/v1''
       ''kimi-k2.6'' 262000) (\<lambda>kimi.
     and_then (env_profile parse_float env ''glm'' ''GLM'' ''https://api.z.ai/api/paas/v4''
       ''glm-5.1'' 200000) (\<lambda>glm.
     and_then (env_role_route parse_float env ''ORCHESTRATOR'' ''deepseek'' (pp_default_model deepseek)) (\<lambda>orchestrator.
     and_then (env_role_route parse_float env ''PLANNER'' ''kimi'' (pp_default_model kimi)) (\<lambda>planner.
     and_then (env_role_route parse_float env ''EXECUTOR'' ''glm'' (pp_default_model glm)) (\<lambda>executor.
     and_then (env_role_route parse_float env ''REVIEWER'' ''deepseek'' (pp_default_model deepseek)) (\<lambda>reviewer.
     and_then (env_role_route parse_float env ''COMPACTOR'' ''kimi'' (pp_default_model kimi)) (\<lambda>compactor.
     make_router [(''deepseek'', deepseek), (''kimi'', kimi), (''glm'', glm)]
       [(Inl Role_DEFAULT, env_default_route env), (Inl Role_ORCHESTRATOR, orchestrator),
        (Inl Role_PLANNER, planner), (Inl Role_EXECUTOR, executor), (Inl Role_REVIEWER, reviewer),
        (Inl Role_COMPACTOR, compactor)] env))))))))"

section \<open>Role names\<close>

lemma normalize_role_value [simp]: "normalize_role_text (Some (route_role_value r)) = r"
  by (cases r) (simp; code_simp)+

text \<open>The spelling does not matter: case, surrounding white space, hyphen or underscore.\<close>

lemma normalize_text_py_strip: "normalize_text (Some (py_strip t)) = normalize_text (Some t)"
  by (simp add: normalize_text_def)

lemma route_role_value_inj: "route_role_value a = route_role_value b \<longleftrightarrow> a = b"
  by (metis normalize_role_value)

section \<open>Resolution\<close>

lemma env_optional_clean:
  "env_optional env key = Some v \<Longrightarrow> v \<noteq> [] \<and> py_strip v = v"
  by (auto simp: env_optional_def split: option.splits if_splits)

lemma map_of_dict_of: "map_of (dict_of items) k = map_of (rev items) k"
proof -
  have "map_of (fold (\<lambda>(k, v) d. AList.update k v d) items d) k =
      (case map_of (rev items) k of None \<Rightarrow> map_of d k | Some v \<Rightarrow> Some v)" for d
    by (induction items arbitrary: d) (auto simp: map_add_def split: option.split)
  then show ?thesis by (simp add: dict_of_def split: option.split)
qed

lemma router_has_default: "make_router ps rs env = Inr m \<Longrightarrow> \<exists>r. map_of (mr_routes m) ''default'' = Some r"
  by (auto simp: make_router_def Let_def split: if_splits)

text \<open>Resolution of any role fails only for a provider that is not configured.\<close>

definition chosen_route :: "model_router \<Rightarrow> route_role + string option \<Rightarrow> role_route option" where
  "chosen_route m role =
     (case map_of (mr_routes m) (route_role_value (normalize_role role)) of
        Some r \<Rightarrow> Some r | None \<Rightarrow> map_of (mr_routes m) ''default'')"

lemma resolve_route_iff:
  assumes "make_router ps rs env = Inr m"
  shows "\<exists>route. chosen_route m role = Some route \<and>
    ((\<exists>v. resolve_route m role = Inr v) \<longleftrightarrow> map_of (mr_providers m) (py_lower (rr_provider route)) \<noteq> None)"
  using router_has_default [OF assms]
  by (auto simp: chosen_route_def resolve_route_def Let_def split: option.split)

lemma resolve_route_Inr:
  assumes "resolve_route m role = Inr v"
  shows "\<exists>route. chosen_route m role = Some route \<and>
    map_of (mr_providers m) (py_lower (rr_provider route)) = Some (vr_provider v) \<and>
    vr_model v = (if truthy (rr_model route) then the (rr_model route) else pp_default_model (vr_provider v)) \<and>
    vr_api_key v = api_key_from (vr_provider v) (mr_env m)"
  using assms by (auto simp: chosen_route_def resolve_route_def Let_def split: option.splits)

lemma resolve_api_key_clean:
  assumes "resolve_route m role = Inr v" "vr_api_key v = Some key"
  shows "key \<noteq> [] \<and> py_strip key = key"
  using resolve_route_Inr [OF assms(1)] assms(2)
  by (auto simp: api_key_from_def dest: env_optional_clean dest!: sym [of "Some key"])

section \<open>What the environment selects\<close>

fun role_env_name :: "route_role \<Rightarrow> string" where
  "role_env_name Role_DEFAULT = ''DEFAULT''"
| "role_env_name Role_ORCHESTRATOR = ''ORCHESTRATOR''"
| "role_env_name Role_PLANNER = ''PLANNER''"
| "role_env_name Role_EXECUTOR = ''EXECUTOR''"
| "role_env_name Role_REVIEWER = ''REVIEWER''"
| "role_env_name Role_COMPACTOR = ''COMPACTOR''"

text \<open>The provider a role has when nothing overrides it.\<close>

fun builtin_provider :: "route_role \<Rightarrow> string" where
  "builtin_provider Role_PLANNER = ''kimi''"
| "builtin_provider Role_COMPACTOR = ''kimi''"
| "builtin_provider Role_EXECUTOR = ''glm''"
| "builtin_provider _ = ''deepseek''"

fun builtin_model :: "environ \<Rightarrow> route_role \<Rightarrow> string" where
  "builtin_model env Role_PLANNER = env_text env ''KIMI_MODEL'' ''kimi-k2.6''"
| "builtin_model env Role_COMPACTOR = env_text env ''KIMI_MODEL'' ''kimi-k2.6''"
| "builtin_model env Role_EXECUTOR = env_text env ''GLM_MODEL'' ''glm-5.1''"
| "builtin_model env _ = env_text env ''DEEPSEEK_MODEL'' ''deepseek-v4-pro''"

lemma env_text_nonempty [simp]: "fallback \<noteq> [] \<Longrightarrow> env_text env key fallback \<noteq> []"
  by (auto simp: env_text_def split: option.split)

lemma builtin_model_nonempty [simp]: "builtin_model env r \<noteq> []"
  by (cases r) simp_all

lemma env_profile_Inr:
  "env_profile pf env name prefix url model n = Inr p \<Longrightarrow> pp_default_model p = env_text env (prefix @ ''_MODEL'') model"
  by (auto simp: env_profile_def)

lemma env_role_route_Inr:
  assumes "env_role_route pf env name provider model = Inr r"
  shows "rr_provider r = env_text env (''HYDRAMIND_'' @ name @ ''_PROVIDER'') provider \<and>
    rr_model r = Some (env_text env (''HYDRAMIND_'' @ name @ ''_MODEL'') model)"
  using assms by (auto simp: env_role_route_def Let_def)


text \<open>
  The router built from the environment sends every role other than the default to the provider
  its own variable names, else to the built-in one, and to the model its own variable names, else
  to the model of the \<^emph>\<open>built-in\<close> provider, whichever provider was selected.
\<close>

lemma router_from_env_route:
  assumes m: "router_from_env pf env = Inr m" and r: "r \<noteq> Role_DEFAULT"
  shows "\<exists>route. map_of (mr_routes m) (route_role_value r) = Some route \<and>
    rr_provider route =
      env_text env (''HYDRAMIND_'' @ role_env_name r @ ''_PROVIDER'') (builtin_provider r) \<and>
    rr_model route = Some (env_text env (''HYDRAMIND_'' @ role_env_name r @ ''_MODEL'') (builtin_model env r)) \<and>
    mr_env m = env"
proof -
  from m obtain deepseek kimi glm o' pl ex re co where
    p: "pp_default_model deepseek = builtin_model env Role_ORCHESTRATOR"
      "pp_default_model kimi = builtin_model env Role_PLANNER"
      "pp_default_model glm = builtin_model env Role_EXECUTOR"
    and r: "env_role_route pf env ''ORCHESTRATOR'' ''deepseek'' (pp_default_model deepseek) = Inr o'"
      "env_role_route pf env ''PLANNER'' ''kimi'' (pp_default_model kimi) = Inr pl"
      "env_role_route pf env ''EXECUTOR'' ''glm'' (pp_default_model glm) = Inr ex"
      "env_role_route pf env ''REVIEWER'' ''deepseek'' (pp_default_model deepseek) = Inr re"
      "env_role_route pf env ''COMPACTOR'' ''kimi'' (pp_default_model kimi) = Inr co"
    and k: "make_router [(''deepseek'', deepseek), (''kimi'', kimi), (''glm'', glm)]
       [(Inl Role_DEFAULT, env_default_route env), (Inl Role_ORCHESTRATOR, o'),
        (Inl Role_PLANNER, pl), (Inl Role_EXECUTOR, ex), (Inl Role_REVIEWER, re),
        (Inl Role_COMPACTOR, co)] env = Inr m"
    unfolding router_from_env_def and_then_eq_Inr by (auto dest!: env_profile_Inr)
  from k have "mr_env m = env" "mr_routes m =
      [(''default'', env_default_route env), (''orchestrator'', o'), (''planner'', pl),
       (''executor'', ex), (''reviewer'', re), (''compactor'', co)]"
    by (auto simp: make_router_def Let_def dict_of_def normalize_role_def)
  with p r [THEN env_role_route_Inr] \<open>r \<noteq> Role_DEFAULT\<close> show ?thesis
    by (cases r) simp_all
qed

lemma role_resolution:
  assumes m: "router_from_env pf env = Inr m" and r: "r \<noteq> Role_DEFAULT"
    and v: "resolve_route m (Inl r) = Inr v"
  shows "map_of (mr_providers m)
      (py_lower (env_text env (''HYDRAMIND_'' @ role_env_name r @ ''_PROVIDER'') (builtin_provider r))) =
      Some (vr_provider v) \<and>
    vr_model v = env_text env (''HYDRAMIND_'' @ role_env_name r @ ''_MODEL'') (builtin_model env r) \<and>
    vr_role v = r"
  using router_from_env_route [OF m r] v
  by (auto simp: resolve_route_def normalize_role_def Let_def truthy_def split: option.splits)

end
