(* ===== verification/Tool_Registry.thy ===== *)
theory Tool_Registry
  imports Harness_Types Redaction Lease_Heartbeat
begin

text \<open>
  \<^verbatim>\<open>tools/base.py\<close> and \<^verbatim>\<open>tools/registry.py\<close>: registered tools, the policy that is
  checked before a handler runs, and the fingerprint under which the control layer keeps the
  result of an effect. A handler is the caller's code: given the arguments, the context and what
  the environment supplies it either returns or raises, after a time. \<^verbatim>\<open>json.dumps\<close>,
  \<^verbatim>\<open>repr\<close> and SHA-256 are the parameters \<open>dumps\<close>, \<open>repr_of\<close> and \<open>sha256\<close>.
\<close>

section \<open>Contracts\<close>

record tool_execution_result =
  xr_success :: bool
  xr_result :: json
  xr_error :: "string option"
  xr_metadata :: pydict

definition tool_ok :: "json \<Rightarrow> pydict \<Rightarrow> tool_execution_result" where
  "tool_ok result metadata =
     \<lparr>xr_success = True, xr_result = result, xr_error = None, xr_metadata = metadata\<rparr>"

definition tool_fail :: "string \<Rightarrow> pydict \<Rightarrow> tool_execution_result" where
  "tool_fail err metadata =
     \<lparr>xr_success = False, xr_result = JNull, xr_error = Some err, xr_metadata = metadata\<rparr>"

datatype tool_risk_class = Risk_READ_ONLY | Risk_WRITE_ARTIFACT | Risk_EXTERNAL_CALL | Risk_DESTRUCTIVE

fun risk_class_value :: "tool_risk_class \<Rightarrow> string" where
  "risk_class_value Risk_READ_ONLY = ''read_only''"
| "risk_class_value Risk_WRITE_ARTIFACT = ''write_artifact''"
| "risk_class_value Risk_EXTERNAL_CALL = ''external_call''"
| "risk_class_value Risk_DESTRUCTIVE = ''destructive''"

record tool_policy =
  po_risk_class :: tool_risk_class
  po_allowed_nodes :: "string list"
  po_allowed_roles :: "string list"
  po_requires_approval :: bool

record tool_context =
  cx_env :: "(string \<times> string) list"
  cx_artifact_root :: string
  cx_dry_run :: bool
  cx_node_key :: "string option"
  cx_role :: "string option"
  cx_approved_tools :: "string list"
  cx_allowed_env_keys :: "string list"
  cx_network_access :: bool
  cx_allowed_network_hosts :: "string list"
  cx_tool_timeout_seconds :: "rat option"
  cx_allowed_process_commands :: "string list"
  cx_allowed_process_argv_prefixes :: "string list list"
  cx_max_http_response_bytes :: int
  cx_metadata :: pydict

text \<open>\<^verbatim>\<open>ExecutionEnvironment\<close> has the fields of a context but the node and the role.\<close>

definition to_tool_context :: "tool_context \<Rightarrow> string option \<Rightarrow> string option \<Rightarrow> tool_context" where
  "to_tool_context environment node_key role = environment\<lparr>cx_node_key := node_key, cx_role := role\<rparr>"

datatype handler_end =
    Handler_returned tool_execution_result
  | Handler_timeout
  | Handler_raised string string

record handler_run =
  hr_awaitable :: bool
  hr_seconds :: rat
  hr_end :: handler_end

record registered_tool =
  rt_name :: string
  rt_description :: string
  rt_input_schema :: pydict
  rt_handler :: "pydict \<Rightarrow> tool_context \<Rightarrow> op_env \<Rightarrow> handler_run"
  rt_enabled :: bool
  rt_required_env :: "string list"
  rt_allowed_env :: "string list"
  rt_policy :: tool_policy
  rt_manages_timeout :: bool

definition to_spec :: "registered_tool \<Rightarrow> tool_spec" where
  "to_spec t = \<lparr>tl_name = rt_name t, tl_description = rt_description t, tl_input_schema = rt_input_schema t\<rparr>"

record tool_execution_metadata =
  tm_tool_name :: string
  tm_dry_run :: bool
  tm_network_access :: bool
  tm_effect_fingerprint :: string
  tm_registered :: bool
  tm_enabled :: bool
  tm_risk_class :: string
  tm_side_effect_class :: string
  tm_requires_approval :: "bool option"
  tm_approval_present :: "bool option"
  tm_node_scoped :: "bool option"
  tm_role_scoped :: "bool option"
  tm_idempotency_scope :: "string option"

definition flag_detail :: "string \<Rightarrow> bool option \<Rightarrow> pydict" where
  "flag_detail key flag = (case flag of None \<Rightarrow> [] | Some b \<Rightarrow> [(key, JBool b)])"

definition as_detail :: "tool_execution_metadata \<Rightarrow> pydict" where
  "as_detail m =
     [(''tool_name'', JStr (tm_tool_name m)), (''dry_run'', JBool (tm_dry_run m)),
      (''network_access'', JBool (tm_network_access m)),
      (''effect_fingerprint'', JStr (tm_effect_fingerprint m)),
      (''registered'', JBool (tm_registered m)), (''enabled'', JBool (tm_enabled m)),
      (''risk_class'', JStr (tm_risk_class m)),
      (''side_effect_class'', JStr (tm_side_effect_class m))] @
     flag_detail ''requires_approval'' (tm_requires_approval m) @
     flag_detail ''approval_present'' (tm_approval_present m) @
     flag_detail ''node_scoped'' (tm_node_scoped m) @
     flag_detail ''role_scoped'' (tm_role_scoped m) @
     (case tm_idempotency_scope m of None \<Rightarrow> [] | Some x \<Rightarrow> [(''idempotency_scope'', JStr x)])"

section \<open>The registry\<close>

record tool_registry =
  tr_tools :: "(string \<times> registered_tool) list"
  tr_default_context :: tool_context

definition register_tool :: "registered_tool \<Rightarrow> tool_registry \<Rightarrow> exn + tool_registry" where
  "register_tool tool r =
     (let name = py_strip (rt_name tool) in
      if name = [] then Inl RuntimeError
      else if map_of (tr_tools r) name \<noteq> None then Inl RuntimeError
      else Inr (r\<lparr>tr_tools := AList.update name tool (tr_tools r)\<rparr>))"

definition make_registry :: "registered_tool list \<Rightarrow> tool_context \<Rightarrow> exn + tool_registry" where
  "make_registry tools context =
     fold_err register_tool tools \<lparr>tr_tools = [], tr_default_context = context\<rparr>"

definition get_tool :: "tool_registry \<Rightarrow> string \<Rightarrow> exn + registered_tool" where
  "get_tool r name = (case map_of (tr_tools r) name of None \<Rightarrow> Inl RuntimeError | Some t \<Rightarrow> Inr t)"

definition tool_names :: "tool_registry \<Rightarrow> string list" where
  "tool_names r = sort (map fst (tr_tools r))"

definition selected_names :: "tool_registry \<Rightarrow> string list option \<Rightarrow> string list" where
  "selected_names r names = (case names of Some ns \<Rightarrow> ns | None \<Rightarrow> map fst (tr_tools r))"

definition specs_for :: "tool_registry \<Rightarrow> string list option \<Rightarrow> exn + tool_spec list" where
  "specs_for r names =
     fold_err (\<lambda>name specs. and_then (get_tool r name) (\<lambda>t.
       Inr (if rt_enabled t then specs @ [to_spec t] else specs))) (selected_names r names) []"

definition env_requirements ::
    "tool_registry \<Rightarrow> string list option \<Rightarrow> exn + (string \<times> string list) list" where
  "env_requirements r names =
     fold_err (\<lambda>name d. and_then (get_tool r name) (\<lambda>t.
       Inr (if rt_enabled t \<and> rt_required_env t \<noteq> [] then AList.update name (rt_required_env t) d else d)))
       (selected_names r names) []"

definition registry_stats :: "tool_registry \<Rightarrow> pydict" where
  "registry_stats r =
     (let enabled = length (filter (\<lambda>(_, t). rt_enabled t) (tr_tools r)) in
      [(''total_tools'', JInt (int (length (tr_tools r)))), (''enabled_tools'', JInt (int enabled)),
       (''disabled_tools'', JInt (int (length (tr_tools r)) - int enabled)),
       (''names'', json_strs (tool_names r))])"

definition health_of :: "string \<times> registered_tool \<Rightarrow> bool" where
  "health_of nt \<longleftrightarrow> rt_enabled (snd nt) \<and> rt_input_schema (snd nt) \<noteq> []"

definition health_check :: "tool_registry \<Rightarrow> pydict" where
  "health_check r =
     (let checks = sort_key fst (tr_tools r); healthy = length (filter health_of checks) in
      [(''healthy_tools'', JInt (int healthy)),
       (''unhealthy_tools'', JInt (int (length checks) - int healthy)),
       (''total_tools'', JInt (int (length checks))),
       (''tools'', JList (map (\<lambda>(name, t). JObj
          [(''name'', JStr name), (''enabled'', JBool (rt_enabled t)),
           (''schema_ok'', JBool (rt_input_schema t \<noteq> [])),
           (''required_env'', json_strs (rt_required_env t)),
           (''healthy'', JBool (health_of (name, t)))]) checks))])"

definition context_for_node :: "tool_registry \<Rightarrow> string \<Rightarrow> string option \<Rightarrow> tool_context" where
  "context_for_node r node_key role =
     (tr_default_context r)\<lparr>cx_node_key := Some node_key, cx_role := role\<rparr>"

section \<open>Fingerprints\<close>

fun redact_for_fingerprint :: "json \<Rightarrow> json"
  and redact_fp_list :: "json list \<Rightarrow> json list"
  and redact_fp_items :: "(string \<times> json) list \<Rightarrow> (string \<times> json) list" where
  "redact_for_fingerprint (JObj items) = JObj (redact_fp_items items)"
| "redact_for_fingerprint (JStr v) =
     JStr (if py_startswith v ''http://'' \<or> py_startswith v ''https://'' then ''<redacted-url>'' else v)"
| "redact_for_fingerprint (JList vs) = JList (redact_fp_list vs)"
| "redact_for_fingerprint JNull = JNull"
| "redact_for_fingerprint (JBool b) = JBool b"
| "redact_for_fingerprint (JInt i) = JInt i"
| "redact_for_fingerprint (JFloat q) = JFloat q"
| "redact_fp_list [] = []"
| "redact_fp_list (v # vs) = redact_for_fingerprint v # redact_fp_list vs"
| "redact_fp_items [] = []"
| "redact_fp_items ((key, item) # items) =
     (key, if secret_key key then JStr ''<redacted>'' else redact_for_fingerprint item)
     # redact_fp_items items"

definition fingerprint_payload :: "string \<Rightarrow> pydict \<Rightarrow> tool_context \<Rightarrow> json" where
  "fingerprint_payload tool_name arguments context = JObj
     [(''tool'', JStr tool_name), (''arguments'', redact_for_fingerprint (JObj arguments)),
      (''node_key'', json_opt_str (cx_node_key context)), (''role'', json_opt_str (cx_role context)),
      (''dry_run'', JBool (cx_dry_run context)), (''artifact_root'', JStr (cx_artifact_root context))]"

definition tool_effect_fingerprint ::
    "(json \<Rightarrow> string) \<Rightarrow> (string \<Rightarrow> string) \<Rightarrow> string \<Rightarrow> pydict \<Rightarrow> tool_context \<Rightarrow> string" where
  "tool_effect_fingerprint dumps sha256 tool_name arguments context =
     ''sha256:'' @ sha256 (dumps (fingerprint_payload tool_name arguments context))"

fun side_effect_class :: "tool_risk_class \<Rightarrow> string" where
  "side_effect_class Risk_READ_ONLY = ''none''"
| "side_effect_class Risk_WRITE_ARTIFACT = ''artifact_write''"
| "side_effect_class Risk_EXTERNAL_CALL = ''external_request''"
| "side_effect_class Risk_DESTRUCTIVE = ''destructive_local''"

definition idempotency_scope :: "tool_risk_class \<Rightarrow> tool_context \<Rightarrow> string" where
  "idempotency_scope risk context =
     (if cx_dry_run context then ''dry_run''
      else case risk of
        Risk_READ_ONLY \<Rightarrow> ''read_only'' | Risk_WRITE_ARTIFACT \<Rightarrow> ''artifact_root''
      | Risk_EXTERNAL_CALL \<Rightarrow> ''external_provider'' | Risk_DESTRUCTIVE \<Rightarrow> ''local_process'')"

definition metadata_of ::
    "(json \<Rightarrow> string) \<Rightarrow> (string \<Rightarrow> string) \<Rightarrow> tool_registry \<Rightarrow> tool_call \<Rightarrow> tool_context \<Rightarrow>
     tool_execution_metadata" where
  "metadata_of dumps sha256 r call ctx =
     (let name = tc_name call;
          fingerprint = tool_effect_fingerprint dumps sha256 name (tc_arguments call) ctx in
      case get_tool r name of
        Inl _ \<Rightarrow>
          \<lparr>tm_tool_name = name, tm_dry_run = cx_dry_run ctx, tm_network_access = cx_network_access ctx,
           tm_effect_fingerprint = fingerprint, tm_registered = False, tm_enabled = False,
           tm_risk_class = ''unknown'', tm_side_effect_class = ''unknown'',
           tm_requires_approval = None, tm_approval_present = None, tm_node_scoped = None,
           tm_role_scoped = None, tm_idempotency_scope = None\<rparr>
      | Inr t \<Rightarrow>
          let p = rt_policy t in
          \<lparr>tm_tool_name = name, tm_dry_run = cx_dry_run ctx, tm_network_access = cx_network_access ctx,
           tm_effect_fingerprint = fingerprint, tm_registered = True, tm_enabled = rt_enabled t,
           tm_risk_class = risk_class_value (po_risk_class p),
           tm_side_effect_class = side_effect_class (po_risk_class p),
           tm_requires_approval = Some (po_requires_approval p),
           tm_approval_present = Some (name \<in> set (cx_approved_tools ctx)),
           tm_node_scoped = Some (po_allowed_nodes p \<noteq> []),
           tm_role_scoped = Some (po_allowed_roles p \<noteq> []),
           tm_idempotency_scope = Some (idempotency_scope (po_risk_class p) ctx)\<rparr>)"

section \<open>Running a call\<close>

definition policy_denial ::
    "(json \<Rightarrow> string) \<Rightarrow> tool_policy \<Rightarrow> string \<Rightarrow> tool_context \<Rightarrow> string option" where
  "policy_denial repr_of policy tool_name context =
     (let tool = ''tool '' @ repr_of (JStr tool_name) in
      if po_allowed_nodes policy \<noteq> [] \<and> cx_node_key context \<notin> Some ` set (po_allowed_nodes policy)
      then Some (tool @ '' is not allowed for node '' @ repr_of (json_opt_str (cx_node_key context)))
      else if po_allowed_roles policy \<noteq> [] \<and> cx_role context \<notin> Some ` set (po_allowed_roles policy)
      then Some (tool @ '' is not allowed for role '' @ repr_of (json_opt_str (cx_role context)))
      else if po_requires_approval policy \<and> tool_name \<notin> set (cx_approved_tools context)
      then Some (tool @ '' requires approval'')
      else None)"

definition scope_tool_context :: "tool_context \<Rightarrow> registered_tool \<Rightarrow> tool_context" where
  "scope_tool_context ctx t =
     ctx\<lparr>cx_env := filter (\<lambda>(k, _). k \<in> set (rt_required_env t) \<union> set (rt_allowed_env t) \<union>
        set (cx_allowed_env_keys ctx)) (cx_env ctx)\<rparr>"

text \<open>\<^verbatim>\<open>asyncio.wait_for\<close> applies to an awaitable result when a timeout is configured.\<close>

definition await_tool_result :: "handler_run \<Rightarrow> tool_context \<Rightarrow> bool \<Rightarrow> handler_end" where
  "await_tool_result run ctx manages_timeout =
     (if \<not> hr_awaitable run then hr_end run
      else case cx_tool_timeout_seconds ctx of
        None \<Rightarrow> hr_end run
      | Some t \<Rightarrow> if \<not> manages_timeout \<and> (t \<le> 0 \<or> t < hr_seconds run) then Handler_timeout else hr_end run)"

definition execute_call ::
    "(json \<Rightarrow> string) \<Rightarrow> tool_registry \<Rightarrow> tool_call \<Rightarrow> tool_context \<Rightarrow> op_env \<Rightarrow> tool_execution_result"
  where
  "execute_call repr_of r call ctx e =
     (let name = tc_name call; tool = ''tool '' @ repr_of (JStr name) in
      case get_tool r name of
        Inl _ \<Rightarrow> tool_fail (tool @ '' is not registered'')
          [(''tool'', JStr name), (''error_type'', JStr ''ToolError'')]
      | Inr t \<Rightarrow>
          if \<not> rt_enabled t then tool_fail (tool @ '' is disabled'') [(''tool'', JStr name)]
          else case policy_denial repr_of (rt_policy t) name ctx of
            Some denial \<Rightarrow> tool_fail denial
              [(''tool'', JStr name), (''policy_denied'', JBool True),
               (''risk_class'', JStr (risk_class_value (po_risk_class (rt_policy t))))]
          | None \<Rightarrow>
              let scoped = scope_tool_context ctx t in
              case await_tool_result (rt_handler t (tc_arguments call) scoped e) scoped (rt_manages_timeout t) of
                Handler_returned x \<Rightarrow> x
              | Handler_timeout \<Rightarrow> tool_fail (tool @ '' timed out'')
                  [(''tool'', JStr name), (''error_type'', JStr ''TimeoutError''),
                   (''timeout_seconds'', case cx_tool_timeout_seconds ctx of
                      None \<Rightarrow> JNull | Some q \<Rightarrow> JFloat q)]
              | Handler_raised msg cls \<Rightarrow> tool_fail msg [(''tool'', JStr name), (''error_type'', JStr cls)])"

definition tool_result_content :: "(json \<Rightarrow> string) \<Rightarrow> string \<Rightarrow> tool_execution_result \<Rightarrow> string" where
  "tool_result_content dumps tool_name x = dumps (JObj
     [(''tool'', JStr tool_name), (''success'', JBool (xr_success x)), (''result'', xr_result x),
      (''error'', json_opt_str (xr_error x)), (''metadata'', JObj (xr_metadata x))])"

definition run_tool_call ::
    "(json \<Rightarrow> string) \<Rightarrow> (json \<Rightarrow> string) \<Rightarrow> tool_registry \<Rightarrow> tool_call \<Rightarrow> tool_context \<Rightarrow>
     tool_result_block svc" where
  "run_tool_call dumps repr_of r call ctx =
     svc_bind svc_await (\<lambda>_.
     svc_bind svc_env (\<lambda>e.
       let x = execute_call repr_of r call ctx e in
     svc_return \<lparr>tb_call_id = tc_id call, tb_content = tool_result_content dumps (tc_name call) x,
       tb_is_error = (\<not> xr_success x)\<rparr>))"

fun run_tool_calls ::
    "(json \<Rightarrow> string) \<Rightarrow> (json \<Rightarrow> string) \<Rightarrow> tool_registry \<Rightarrow> tool_call list \<Rightarrow> tool_context \<Rightarrow>
     tool_result_block list svc" where
  "run_tool_calls dumps repr_of r [] ctx = svc_return []"
| "run_tool_calls dumps repr_of r (call # calls) ctx =
     svc_bind (run_tool_call dumps repr_of r call ctx) (\<lambda>b.
     svc_bind (run_tool_calls dumps repr_of r calls ctx) (\<lambda>bs. svc_return (b # bs)))"

end
