(* ===== verification/Redact_Text.thy ===== *)
theory Redact_Text
  imports Redaction Models Py_Values
begin

text \<open>
  The rest of \<^verbatim>\<open>observability/redaction.py\<close>: the substitution of URLs, bearer tokens and
  long tokens in text, and the preview of a tool result. Each regular expression is a scanner:
  \<open>match\<close> gives the length of the match at the start of the text, given the character
  before it; \<open>sub\<close> replaces the matches from left to right. Word characters are the ASCII
  ones. \<^verbatim>\<open>json.loads\<close> (nothing where the text is not JSON) and \<^verbatim>\<open>json.dumps\<close> are
  parameters.
\<close>

section \<open>Scanning\<close>

text \<open>\<open>skip\<close> counts the characters of the current match that are still to be dropped.\<close>

fun sub_from ::
    "(char option \<Rightarrow> string \<Rightarrow> nat) \<Rightarrow> string \<Rightarrow> char option \<Rightarrow> nat \<Rightarrow> string \<Rightarrow> string" where
  "sub_from len_of replacement before skip [] = []"
| "sub_from len_of replacement before skip (c # cs) =
     (if 0 < skip then sub_from len_of replacement (Some c) (skip - 1) cs
      else case len_of before (c # cs) of
        0 \<Rightarrow> c # sub_from len_of replacement (Some c) 0 cs
      | Suc n \<Rightarrow> replacement @ sub_from len_of replacement (Some c) n cs)"

definition re_sub :: "(char option \<Rightarrow> string \<Rightarrow> nat) \<Rightarrow> string \<Rightarrow> string \<Rightarrow> string" where
  "re_sub len_of replacement text = sub_from len_of replacement None 0 text"

definition word_before :: "char option \<Rightarrow> bool" where
  "word_before c = (case c of None \<Rightarrow> False | Some x \<Rightarrow> word_char x)"

text \<open>\<^verbatim>\<open>\b\<close> between the character before and the text.\<close>

definition boundary :: "char option \<Rightarrow> string \<Rightarrow> bool" where
  "boundary before cs \<longleftrightarrow> word_before before \<noteq> (case cs of [] \<Rightarrow> False | c # _ \<Rightarrow> word_char c)"

section \<open>The three expressions\<close>

definition url_char :: "char \<Rightarrow> bool" where
  "url_char c \<longleftrightarrow> \<not> py_isspace c \<and> c \<notin> {CHR 0x22, CHR 0x27, CHR ''<'', CHR ''>''}"

definition url_scheme :: "string \<Rightarrow> nat" where
  "url_scheme cs =
     (if py_startswith cs ''https://'' then 8 else if py_startswith cs ''http://'' then 7 else 0)"

definition match_url :: "char option \<Rightarrow> string \<Rightarrow> nat" where
  "match_url before cs =
     (let n = url_scheme cs; m = length (takeWhile url_char (drop n cs)) in
      if n = 0 \<or> m = 0 then 0 else n + m)"

definition match_bearer :: "char option \<Rightarrow> string \<Rightarrow> nat" where
  "match_bearer before cs =
     (let sp = length (takeWhile py_isspace (drop 6 cs));
          tk = length (takeWhile token_char (drop (6 + sp) cs)) in
      if boundary before cs \<and> py_startswith cs ''Bearer'' \<and> 0 < sp \<and> 0 < tk then 6 + sp + tk else 0)"

text \<open>The longest match of at least 96 token characters that ends at a boundary.\<close>

definition ends_at :: "string \<Rightarrow> nat \<Rightarrow> bool" where
  "ends_at cs n \<longleftrightarrow> 0 < n \<and> boundary (Some (cs ! (n - 1))) (drop n cs)"

definition match_long_token :: "char option \<Rightarrow> string \<Rightarrow> nat" where
  "match_long_token before cs =
     (let m = length (takeWhile token_char cs);
          ends = filter (\<lambda>n. 96 \<le> n \<and> ends_at cs n) [0 ..< m + 1] in
      if \<not> boundary before cs \<or> ends = [] then 0 else last ends)"

definition redact_text :: "string \<Rightarrow> string" where
  "redact_text value =
     re_sub match_long_token ''<redacted-payload>''
       (re_sub match_bearer ''Bearer <redacted>'' (re_sub match_url ''<redacted-url>'' value))"

section \<open>Previews of tool results\<close>

definition redacted_tool_result_preview ::
    "(string \<Rightarrow> json option) \<Rightarrow> (json \<Rightarrow> string) \<Rightarrow> string \<Rightarrow> pydict" where
  "redacted_tool_result_preview loads dumps content =
     (case loads content of
        None \<Rightarrow>
          [(''content_preview'', JStr (compact_text (Some (redact_text content)) 160)),
           (''content_json'', JBool False),
           (''content_redacted'', JBool (redact_text content \<noteq> content))]
      | Some parsed \<Rightarrow>
          [(''content_preview'', JStr (compact_text (Some (dumps (redact_value parsed))) 160)),
           (''content_json'', JBool True),
           (''content_redacted'', JBool (redact_value parsed \<noteq> parsed))] @
          (case redact_value parsed of
             JObj items \<Rightarrow> [(''content_keys'', json_strs (sort (map fst items)))]
           | _ \<Rightarrow> []))"

section \<open>Facts\<close>

text \<open>A text in which nothing can match is left as it is.\<close>

lemma sub_from_none:
  assumes "\<And>before n. len_of before (drop n cs) = 0"
  shows "sub_from len_of replacement before 0 cs = cs"
  using assms
proof (induction cs arbitrary: before)
  case (Cons c cs)
  have "len_of b (drop n cs) = 0" for b n using Cons.prems [of b "Suc n"] by simp
  moreover have "len_of before (c # cs) = 0" using Cons.prems [of before 0] by simp
  ultimately show ?case using Cons.IH by simp
qed simp

text \<open>What a match replaces is at least as long as the marker of a token, so a long token never survives.\<close>

lemma match_long_token_min: "match_long_token before cs = 0 \<or> 96 \<le> match_long_token before cs"
proof -
  let ?ends = "filter (\<lambda>n. 96 \<le> n \<and> ends_at cs n) [0 ..< length (takeWhile token_char cs) + 1]"
  have "last ?ends \<in> set ?ends" if "?ends \<noteq> []" using that by (rule last_in_set)
  then show ?thesis by (auto simp: match_long_token_def Let_def)
qed

text \<open>\<open>carries_url text\<close>: an address starts somewhere in the text.\<close>

definition carries_url :: "string \<Rightarrow> bool" where
  "carries_url text \<longleftrightarrow> (\<exists>n. 0 < match_url None (drop n text))"

lemma match_url_before: "match_url a cs = match_url b cs"
  by (simp add: match_url_def)

lemma preview_is_bounded:
  "\<exists>v. map_of (redacted_tool_result_preview loads dumps content) ''content_preview'' = Some (JStr v) \<and>
     length v \<le> 160"
  using compact_text_bound [of 160]
  by (auto simp: redacted_tool_result_preview_def split: option.split)

end
