(* ===== verification/Tool_Loop.thy ===== *)
theory Tool_Loop
  imports Tool_Registry Redact_Text Agent_Trace Ledger_Facts
begin

text \<open>
  \<^verbatim>\<open>orchestration/agent_tools.py\<close> and the model calls of
  \<^verbatim>\<open>orchestration/agent_execution.py\<close>: rounds of tool calls, with the ledger of tool
  executions and the results that are kept per effect fingerprint. The model provider is the
  argument \<open>ag_complete\<close>; it may raise.
\<close>

record agent_runtime =
  ag_registry :: "tool_registry option"
  ag_context :: tool_context
  ag_max_rounds :: nat
  ag_model_hint :: string
  ag_complete :: "harness_message list \<Rightarrow> string \<Rightarrow> tool_spec list option \<Rightarrow> string \<Rightarrow> op_env \<Rightarrow>
    exn + invocation_result"
  ag_dumps :: "json \<Rightarrow> string"
  ag_loads :: "string \<Rightarrow> json option"
  ag_repr :: "json \<Rightarrow> string"
  ag_sha256 :: "string \<Rightarrow> string"

text \<open>The results of successful effects: the id of the call and the content, by fingerprint.\<close>

type_synonym effect_results = "(string \<times> string \<times> string) list"

section \<open>Model calls\<close>

definition complete_model ::
    "agent_runtime \<Rightarrow> harness_message list \<Rightarrow> string \<Rightarrow> tool_spec list option \<Rightarrow> string \<Rightarrow>
     invocation_result svc" where
  "complete_model rt messages system tools role =
     svc_bind svc_await (\<lambda>_. svc_bind svc_env (\<lambda>e. svc_lift (ag_complete rt messages system tools role e)))"

definition invoke_started_detail ::
    "agent_runtime \<Rightarrow> string \<Rightarrow> int \<Rightarrow> nat \<Rightarrow> nat \<Rightarrow> pydict" where
  "invoke_started_detail rt role round_no message_count tool_count =
     [(''role'', JStr role), (''round'', JInt round_no), (''message_count'', JInt (int message_count)),
      (''tool_count'', JInt (int tool_count)), (''model_hint'', JStr (ag_model_hint rt))]"

definition invoke_completed_detail :: "string \<Rightarrow> int \<Rightarrow> invocation_result \<Rightarrow> pydict" where
  "invoke_completed_detail role round_no r =
     [(''role'', JStr role), (''round'', JInt round_no), (''model_id'', json_opt_str (iv_model_id r)),
      (''stop_reason'', JStr (stop_reason_value (iv_stop_reason r))),
      (''tool_call_count'', JInt (int (length (iv_tool_calls r)))),
      (''content_preview'', JStr (compact_text (Some (iv_content r)) 160)),
      (''usage'', dump_usage (iv_usage r))]"

definition tool_count :: "tool_spec list option \<Rightarrow> nat" where
  "tool_count tools = (case tools of None \<Rightarrow> 0 | Some ts \<Rightarrow> length ts)"

definition invoke_model ::
    "agent_runtime \<Rightarrow> agent_call \<Rightarrow> harness_message list \<Rightarrow> string \<Rightarrow> tool_spec list option \<Rightarrow> string \<Rightarrow>
     int \<Rightarrow> invocation_result svc" where
  "invoke_model rt a messages system tools role round_no =
     svc_bind (emit_trace a MODEL_INVOKE_STARTED
       (invoke_started_detail rt role round_no (length messages) (tool_count tools)) ''info'') (\<lambda>_.
     svc_bind (complete_model rt messages system tools role) (\<lambda>r.
     svc_bind (emit_trace a MODEL_INVOKE_COMPLETED (invoke_completed_detail role round_no r) ''info'') (\<lambda>_.
     svc_return r)))"

section \<open>One tool call\<close>

text \<open>Without a registry the context has the defaults of its class, \<open>ag_context\<close>.\<close>

definition tool_context_for :: "agent_runtime \<Rightarrow> string \<Rightarrow> string \<Rightarrow> tool_context" where
  "tool_context_for rt node_key role =
     (case ag_registry rt of
        None \<Rightarrow> (ag_context rt)\<lparr>cx_node_key := Some node_key, cx_role := Some role\<rparr>
      | Some r \<Rightarrow> context_for_node r node_key (Some role))"

definition call_metadata ::
    "agent_runtime \<Rightarrow> tool_call \<Rightarrow> tool_context \<Rightarrow> exn + tool_execution_metadata" where
  "call_metadata rt call ctx =
     (case ag_registry rt of
        None \<Rightarrow> Inl RuntimeError
      | Some r \<Rightarrow> Inr (metadata_of (ag_dumps rt) (ag_sha256 rt) r call ctx))"

definition effect_fingerprint :: "tool_execution_metadata \<Rightarrow> string option" where
  "effect_fingerprint m = (if tm_effect_fingerprint m \<noteq> [] then Some (tm_effect_fingerprint m) else None)"

definition execution_metadata_detail ::
    "tool_execution_metadata \<Rightarrow> pydict \<Rightarrow> string option \<Rightarrow> pydict" where
  "execution_metadata_detail m origin source_tool_call_id =
     (let detail = dict_merge (as_detail m) origin in
      case source_tool_call_id of
        None \<Rightarrow> detail
      | Some i \<Rightarrow>
          let marked = AList.update ''source_tool_call_id'' (JStr i)
            (AList.update ''reused_result'' (JBool True) detail) in
          (case effect_fingerprint m of
             None \<Rightarrow> marked
           | Some fp \<Rightarrow> AList.update ''source_effect_fingerprint'' (JStr fp) marked))"

text \<open>The result kept for a fingerprint: the one of this run first, else the durable one.\<close>

definition find_effect ::
    "string \<Rightarrow> string option \<Rightarrow> effect_results \<Rightarrow> ((string \<times> string) option \<times> effect_results) svc" where
  "find_effect session_id fp cache =
     (case fp of
        None \<Rightarrow> svc_return (None, cache)
      | Some f \<Rightarrow>
          (case map_of cache f of
             Some r \<Rightarrow> svc_return (Some r, cache)
           | None \<Rightarrow>
               svc_bind (lookup_tool_effect_result session_id f) (\<lambda>durable.
               svc_return (case durable of
                   None \<Rightarrow> (None, cache)
                 | Some r \<Rightarrow> (Some r, AList.update f r cache)))))"

definition call_result ::
    "agent_runtime \<Rightarrow> agent_call \<Rightarrow> tool_context \<Rightarrow> tool_call \<Rightarrow> string option \<Rightarrow>
     (string \<times> string) option \<Rightarrow> effect_results \<Rightarrow> (tool_result_block \<times> effect_results) svc" where
  "call_result rt a ctx call fp cached cache =
     (case cached of
        Some (source_id, content) \<Rightarrow>
          svc_return (\<lparr>tb_call_id = tc_id call, tb_content = content, tb_is_error = False\<rparr>, cache)
      | None \<Rightarrow>
          svc_bind (case ag_registry rt of
              None \<Rightarrow> svc_return []
            | Some r \<Rightarrow> run_tool_calls (ag_dumps rt) (ag_repr rt) r [call] ctx) (\<lambda>batch.
            case (batch, fp) of
              ([], _) \<Rightarrow> svc_lift (Inl IndexError)
            | (b # _, None) \<Rightarrow> svc_return (b, cache)
            | (b # _, Some f) \<Rightarrow>
                if tb_is_error b then svc_return (b, cache)
                else svc_bind (record_tool_effect_result (ac_session_id a) f (tc_id call) (tb_content b)) (\<lambda>_.
                     svc_return (b, AList.update f (tc_id call, tb_content b) cache))))"

definition execute_one ::
    "agent_runtime \<Rightarrow> agent_call \<Rightarrow> int \<Rightarrow> tool_context \<Rightarrow> pydict \<Rightarrow> tool_call \<Rightarrow> effect_results \<Rightarrow>
     (tool_result_block \<times> effect_results) svc" where
  "execute_one rt a round_no ctx origin call cache =
     svc_bind (svc_lift (call_metadata rt call ctx)) (\<lambda>m.
       let fp = effect_fingerprint m in
     svc_bind (find_effect (ac_session_id a) fp cache) (\<lambda>(cached, cache1).
       let detail = execution_metadata_detail m origin (map_option fst cached) in
     svc_bind (record_tool_execution_started_op (ac_session_id a) (ac_execution_id a) (tc_id call)
         (tc_name call) round_no (Some (tc_arguments call)) (Some (ac_trace_id a)) (Some detail)) (\<lambda>_.
     svc_bind (emit_trace a TOOL_CALL_STARTED
         ([(''schema_version'', JInt 1), (''round'', JInt round_no), (''tool_call_id'', JStr (tc_id call)),
           (''tool_name'', JStr (tc_name call)), (''arguments'', redact_value (JObj (tc_arguments call))),
           (''execution_metadata'', JObj detail)] @ origin_detail origin) ''info'') (\<lambda>_.
     svc_bind (call_result rt a ctx call fp cached cache1) (\<lambda>(b, cache2).
       let preview = redacted_tool_result_preview (ag_loads rt) (ag_dumps rt) (tb_content b);
           err = (if tb_is_error b
             then Some (py_str (ag_repr rt) (dict_get preview ''content_preview'')) else None) in
     svc_bind (record_tool_execution_completed_op (ac_session_id a) (ac_execution_id a) (tb_call_id b)
         (tb_is_error b) (Some preview) (Some (int (length (tb_content b)))) err) (\<lambda>_.
     svc_bind (emit_trace a TOOL_CALL_COMPLETED
         ([(''round'', JInt round_no), (''tool_call_id'', JStr (tb_call_id b)),
           (''is_error'', JBool (tb_is_error b))] @ preview @
          [(''content_length'', JInt (int (length (tb_content b)))),
           (''execution_metadata'', JObj detail)] @ origin_detail origin)
         (if tb_is_error b then ''error'' else ''info'')) (\<lambda>_.
     svc_return (b, cache2))))))))"

section \<open>Rounds\<close>

fun execute_calls ::
    "agent_runtime \<Rightarrow> agent_call \<Rightarrow> int \<Rightarrow> tool_context \<Rightarrow> pydict \<Rightarrow> tool_call list \<Rightarrow> effect_results \<Rightarrow>
     (tool_result_block list \<times> effect_results) svc" where
  "execute_calls rt a round_no ctx origin [] cache = svc_return ([], cache)"
| "execute_calls rt a round_no ctx origin (call # calls) cache =
     svc_bind (execute_one rt a round_no ctx origin call cache) (\<lambda>(b, cache1).
     svc_bind (execute_calls rt a round_no ctx origin calls cache1) (\<lambda>(bs, cache2).
     svc_return (b # bs, cache2)))"

definition unauthorized_calls :: "tool_spec list \<Rightarrow> tool_call list \<Rightarrow> string list" where
  "unauthorized_calls tools calls =
     filter (\<lambda>n. n \<notin> tl_name ` set tools) (map tc_name calls)"

definition execute_tool_round ::
    "agent_runtime \<Rightarrow> agent_call \<Rightarrow> tool_call list \<Rightarrow> int \<Rightarrow> tool_spec list \<Rightarrow> tool_context \<Rightarrow> pydict \<Rightarrow>
     effect_results \<Rightarrow> (tool_result_block list \<times> effect_results) svc" where
  "execute_tool_round rt a calls round_no tools ctx origin cache =
     svc_bind (emit_trace a TOOL_DRAIN_ROUND
       ([(''round'', JInt round_no), (''tool_call_count'', JInt (int (length calls))),
         (''tool_names'', json_strs (map tc_name calls))] @ origin_detail origin) ''info'') (\<lambda>_.
     if unauthorized_calls tools calls \<noteq> [] then svc_lift (Inl RuntimeError)
     else execute_calls rt a round_no ctx origin calls cache)"

definition reasoning_content :: "invocation_result \<Rightarrow> string option" where
  "reasoning_content r = (if truthy (iv_reasoning r) then iv_reasoning r else None)"

definition round_messages ::
    "invocation_result \<Rightarrow> tool_result_block list \<Rightarrow> harness_message list" where
  "round_messages current results =
     [(harness_message_of Harness_ASSISTANT (iv_content current))
        \<lparr>hm_tool_calls := iv_tool_calls current, hm_reasoning := reasoning_content current\<rparr>,
      (harness_message_of Harness_TOOL [])\<lparr>hm_tool_results := results\<rparr>]"

text \<open>\<open>rounds\<close> counts the rounds that are left; the round number goes up from one.\<close>

fun drain_rounds ::
    "agent_runtime \<Rightarrow> agent_call \<Rightarrow> string \<Rightarrow> tool_spec list \<Rightarrow> string \<Rightarrow> pydict \<Rightarrow>
     nat \<Rightarrow> int \<Rightarrow> invocation_result \<Rightarrow> harness_message list \<Rightarrow> effect_results \<Rightarrow> invocation_result svc"
  where
  "drain_rounds rt a system tools role origin 0 round_no current messages cache =
     svc_return current"
| "drain_rounds rt a system tools role origin (Suc rounds) round_no current messages cache =
     (if iv_tool_calls current = [] then svc_return current
      else svc_bind (execute_tool_round rt a (iv_tool_calls current) round_no tools
          (tool_context_for rt (ac_node_key a) role) (if round_no = 1 then origin else []) cache)
        (\<lambda>(results, cache1).
          let messages1 = messages @ round_messages current results in
        svc_bind (invoke_model rt a messages1 system (Some tools) role round_no) (\<lambda>next.
        drain_rounds rt a system tools role origin rounds (round_no + 1) next messages1 cache1)))"

definition drain_tool_calls ::
    "agent_runtime \<Rightarrow> agent_call \<Rightarrow> invocation_result \<Rightarrow> harness_message list \<Rightarrow> string \<Rightarrow>
     tool_spec list \<Rightarrow> string \<Rightarrow> pydict \<Rightarrow> invocation_result svc" where
  "drain_tool_calls rt a invocation messages system tools role origin =
     (if ag_registry rt = None then svc_return invocation
      else drain_rounds rt a system tools role origin (ag_max_rounds rt) 1 invocation messages [])"

end
