(* ===== verification/Tool_Facts.thy ===== *)
theory Tool_Facts
  imports Tool_Loop Node_Effects
begin

text \<open>
  What holds of tool calls: a handler runs only for a registered, enabled tool whose policy
  permits it, and sees only the environment the tool declares; every call is answered; and the
  result kept for a fingerprint is what every later call with the same fingerprint gets, in this
  run or another.
\<close>

section \<open>Fingerprints\<close>

text \<open>Arguments that redact to the same value have the same effect for the control layer.\<close>

definition same_effect :: "pydict \<Rightarrow> pydict \<Rightarrow> bool" where
  "same_effect a b \<longleftrightarrow> redact_for_fingerprint (JObj a) = redact_for_fingerprint (JObj b)"

lemma same_effect_fingerprint:
  "same_effect a b \<Longrightarrow>
   tool_effect_fingerprint dumps sha256 name a ctx = tool_effect_fingerprint dumps sha256 name b ctx"
  by (simp add: same_effect_def tool_effect_fingerprint_def fingerprint_payload_def)

lemma fingerprint_nonempty [simp]: "tool_effect_fingerprint dumps sha256 name a ctx \<noteq> []"
  by (simp add: tool_effect_fingerprint_def)

lemma urls_same_effect:
  assumes "py_startswith u ''http://'' \<or> py_startswith u ''https://''"
    "py_startswith v ''http://'' \<or> py_startswith v ''https://''"
  shows "same_effect ((k, JStr u) # rest) ((k, JStr v) # rest)"
  using assms by (simp add: same_effect_def)

text \<open>With a faithful encoding nothing else is identified.\<close>

lemma fingerprint_iff:
  assumes "inj dumps" "inj sha256"
  shows "tool_effect_fingerprint dumps sha256 n a ctx = tool_effect_fingerprint dumps sha256 n b ctx \<longleftrightarrow>
    same_effect a b"
  using assms
  by (simp add: tool_effect_fingerprint_def fingerprint_payload_def same_effect_def inj_eq)

lemma metadata_fingerprint [simp]:
  "tm_effect_fingerprint (metadata_of dumps sha256 r call ctx) =
     tool_effect_fingerprint dumps sha256 (tc_name call) (tc_arguments call) ctx"
  by (simp add: metadata_of_def Let_def split: sum.split)

definition call_fingerprint :: "agent_runtime \<Rightarrow> tool_call \<Rightarrow> tool_context \<Rightarrow> string" where
  "call_fingerprint rt call ctx =
     tool_effect_fingerprint (ag_dumps rt) (ag_sha256 rt) (tc_name call) (tc_arguments call) ctx"

lemma call_metadata_effect:
  "call_metadata rt call ctx = Inr m \<Longrightarrow> effect_fingerprint m = Some (call_fingerprint rt call ctx)"
  by (auto simp: call_metadata_def effect_fingerprint_def call_fingerprint_def split: option.splits)

section \<open>Permission\<close>

definition with_handler ::
    "(pydict \<Rightarrow> tool_context \<Rightarrow> op_env \<Rightarrow> handler_run) \<Rightarrow> tool_registry \<Rightarrow> tool_registry" where
  "with_handler f r = r\<lparr>tr_tools := map (\<lambda>(n, t). (n, t\<lparr>rt_handler := f\<rparr>)) (tr_tools r)\<rparr>"

lemma get_with_handler:
  "get_tool (with_handler f r) n = map_sum id (\<lambda>t. t\<lparr>rt_handler := f\<rparr>) (get_tool r n)"
  by (simp add: get_tool_def with_handler_def map_of_map_snd split: option.split)

definition permitted :: "(json \<Rightarrow> string) \<Rightarrow> tool_registry \<Rightarrow> string \<Rightarrow> tool_context \<Rightarrow> bool" where
  "permitted repr_of r name ctx \<longleftrightarrow>
     (\<exists>t. get_tool r name = Inr t \<and> rt_enabled t \<and> policy_denial repr_of (rt_policy t) name ctx = None)"

text \<open>A call that is not permitted fails, whatever the handlers would do.\<close>

lemma not_permitted_fails:
  assumes "\<not> permitted repr_of r (tc_name call) ctx"
  shows "\<not> xr_success (execute_call repr_of r call ctx e) \<and>
    execute_call repr_of (with_handler f r) call ctx e = execute_call repr_of r call ctx e"
  using assms
  by (auto simp: execute_call_def permitted_def get_with_handler Let_def tool_fail_def
      split: sum.splits option.splits)

text \<open>The handler does not see variables that the tool does not declare and the context does not allow.\<close>

lemma scope_hides:
  "fst ` set (cx_env (scope_tool_context ctx t)) \<subseteq>
     set (rt_required_env t) \<union> set (rt_allowed_env t) \<union> set (cx_allowed_env_keys ctx)"
  by (auto simp: scope_tool_context_def)

lemma undeclared_variables_do_not_matter:
  assumes "get_tool r (tc_name call) = Inr t"
    "k \<notin> set (rt_required_env t) \<union> set (rt_allowed_env t) \<union> set (cx_allowed_env_keys ctx)"
  shows "execute_call repr_of r call (ctx\<lparr>cx_env := (k, v) # cx_env ctx\<rparr>) e = execute_call repr_of r call ctx e"
proof -
  let ?ctx = "ctx\<lparr>cx_env := (k, v) # cx_env ctx\<rparr>"
  have "scope_tool_context ?ctx t = scope_tool_context ctx t"
    using assms(2) by (simp add: scope_tool_context_def)
  moreover have "policy_denial repr_of p n ?ctx = policy_denial repr_of p n ctx" for p n
    by (simp add: policy_denial_def Let_def)
  ultimately show ?thesis using assms(1)
    by (simp add: execute_call_def Let_def split: option.split)
qed

section \<open>Registration\<close>

definition stripped_names :: "tool_registry \<Rightarrow> bool" where
  "stripped_names r \<longleftrightarrow> distinct (map fst (tr_tools r)) \<and> (\<forall>n \<in> fst ` set (tr_tools r). py_strip n = n \<and> n \<noteq> [])"

lemma register_tool_stripped:
  assumes "register_tool t r = Inr r'" "stripped_names r"
  shows "stripped_names r' \<and> get_tool r' (py_strip (rt_name t)) = Inr t"
proof -
  let ?n = "py_strip (rt_name t)"
  have n: "?n \<noteq> []" "map_of (tr_tools r) ?n = None"
    and r': "r' = r\<lparr>tr_tools := AList.update ?n t (tr_tools r)\<rparr>"
    using assms(1) by (auto simp: register_tool_def Let_def split: if_splits)
  have "?n \<notin> fst ` set (tr_tools r)" using n(2) by (simp add: map_of_eq_None_iff)
  then have "AList.update ?n t (tr_tools r) = tr_tools r @ [(?n, t)]" by (rule keys_update_new)
  with r' assms(2) n \<open>?n \<notin> _\<close> show ?thesis
    by (auto simp: stripped_names_def get_tool_def map_add_def)
qed

lemma make_registry_stripped:
  assumes "make_registry ts ctx = Inr r"
  shows "stripped_names r"
proof -
  have "stripped_names \<lparr>tr_tools = [], tr_default_context = ctx\<rparr>" by (simp add: stripped_names_def)
  moreover have "fold_err register_tool ts r0 = Inr r1 \<Longrightarrow> stripped_names r0 \<Longrightarrow> stripped_names r1" for r0 r1
    by (induction ts arbitrary: r0) (auto dest: register_tool_stripped)
  ultimately show ?thesis using assms unfolding make_registry_def by blast
qed

text \<open>A tool whose name has white space at an edge is offered under that name and never found.\<close>

lemma padded_tool_unreachable:
  assumes "make_registry ts ctx = Inr r" "py_strip n \<noteq> n"
  shows "get_tool r n = Inl RuntimeError"
proof -
  have "n \<notin> fst ` set (tr_tools r)"
    using make_registry_stripped [OF assms(1)] assms(2) by (auto simp: stripped_names_def)
  then show ?thesis by (simp add: get_tool_def map_of_eq_None_iff [symmetric])
qed

section \<open>Answers\<close>

lemma run_tool_calls_single:
  "run_tool_calls dumps repr_of r [call] ctx w = (Inr bs, w') \<longleftrightarrow>
     (\<exists>b. bs = [b] \<and> run_tool_call dumps repr_of r call ctx w = (Inr b, w'))"
  by (auto simp: svc_bind_Inr)

lemma run_tool_call_result:
  assumes "run_tool_call dumps repr_of r call ctx w = (Inr b, w')"
  shows "tb_call_id b = tc_id call" "keyed (w_store w) \<Longrightarrow> store_later same_ledger (w_store w) (w_store w')"
proof -
  obtain w1 where a: "svc_await w = (Inr (), w1)" and w': "w' = w1\<lparr>w_ops := w_ops w1 + 1\<rparr>"
    and b: "tb_call_id b = tc_id call"
    using assms by (auto simp: run_tool_call_def svc_bind_Inr svc_env_def Let_def)
  show "tb_call_id b = tc_id call" by (rule b)
  assume k: "keyed (w_store w)"
  from await_same_ledger k a have "store_later same_ledger (w_store w) (w_store w1)" unfolding spec_def by blast
  then show "store_later same_ledger (w_store w) (w_store w')" by (simp add: w')
qed

lemma call_result_cases:
  assumes "call_result rt a ctx call (Some f) cached cache w = (Inr (b, cache'), w')"
  obtains src content where "cached = Some (src, content)" "w' = w" "cache' = cache"
      "tb_call_id b = tc_id call" "tb_content b = content" "\<not> tb_is_error b"
  | r where "cached = None" "ag_registry rt = Some r" "cache' = cache" "tb_is_error b"
      "run_tool_call (ag_dumps rt) (ag_repr rt) r call ctx w = (Inr b, w')"
  | r w1 where "cached = None" "ag_registry rt = Some r" "\<not> tb_is_error b"
      "run_tool_call (ag_dumps rt) (ag_repr rt) r call ctx w = (Inr b, w1)"
      "cache' = AList.update f (tc_id call, tb_content b) cache"
      "record_tool_effect_result (ac_session_id a) f (tc_id call) (tb_content b) w1 = (Inr (), w')"
proof (cases cached)
  case None
  then obtain batch w1 where b: "(case ag_registry rt of None \<Rightarrow> svc_return []
        | Some r \<Rightarrow> run_tool_calls (ag_dumps rt) (ag_repr rt) r [call] ctx) w = (Inr batch, w1)"
    and k: "(case (batch, Some f) of
              ([], _) \<Rightarrow> svc_lift (Inl IndexError)
            | (b # _, None) \<Rightarrow> svc_return (b, cache)
            | (b # _, Some f) \<Rightarrow>
                if tb_is_error b then svc_return (b, cache)
                else svc_bind (record_tool_effect_result (ac_session_id a) f (tc_id call) (tb_content b)) (\<lambda>_.
                     svc_return (b, AList.update f (tc_id call, tb_content b) cache))) w1
        = (Inr (b, cache'), w')"
    using assms unfolding call_result_def by (auto simp: svc_bind_Inr)
  show thesis
  proof (cases "ag_registry rt")
    case None
    with b k show thesis by (auto simp: svc_lift_Inr simp del: svc_lift_eq)
  next
    case (Some r)
    then obtain b0 where b0: "batch = [b0]" "run_tool_call (ag_dumps rt) (ag_repr rt) r call ctx w = (Inr b0, w1)"
      using b unfolding Some option.case run_tool_calls_single by blast
    show thesis
    proof (cases "tb_is_error b0")
      case True
      with b0 k that(2) [OF None Some] show thesis by auto
    next
      case False
      with b0 k have "b = b0" "cache' = AList.update f (tc_id call, tb_content b) cache"
          "record_tool_effect_result (ac_session_id a) f (tc_id call) (tb_content b) w1 = (Inr (), w')"
        by (auto simp: svc_bind_Inr)
      with b0 False that(3) [OF None Some] show thesis by blast
    qed
  qed
next
  case (Some p)
  obtain src content where "p = (src, content)" by force
  with assms Some that(1) show thesis by (auto simp: call_result_def)
qed

text \<open>The steps of one call.\<close>

lemma execute_one_steps:
  assumes "execute_one rt a n ctx origin call cache w = (Inr (b, cache'), w')"
  obtains m cached cache1 detail t w1 w2 w3 w4 t' w5 d1 d2 lv where
    "call_metadata rt call ctx = Inr m"
    "find_effect (ac_session_id a) (Some (call_fingerprint rt call ctx)) cache w = (Inr (cached, cache1), w1)"
    "record_tool_execution_started_op (ac_session_id a) (ac_execution_id a) (tc_id call)
       (tc_name call) n (Some (tc_arguments call)) (Some (ac_trace_id a)) (Some detail) w1 = (Inr t, w2)"
    "emit_trace a TOOL_CALL_STARTED d1 ''info'' w2 = (Inr (), w3)"
    "call_result rt a ctx call (Some (call_fingerprint rt call ctx)) cached cache1 w3 = (Inr (b, cache'), w4)"
    "\<exists>pv len err. record_tool_execution_completed_op (ac_session_id a) (ac_execution_id a) (tb_call_id b)
       (tb_is_error b) pv len err w4 = (Inr t', w5)"
    "emit_trace a TOOL_CALL_COMPLETED d2 lv w5 = (Inr (), w')"
  using assms unfolding execute_one_def Let_def
  by (auto simp: svc_bind_Inr svc_lift_Inr call_metadata_effect simp del: svc_lift_eq) blast

lemma execute_calls_aligned:
  "execute_calls rt a n ctx origin calls cache w = (Inr (bs, cache'), w') \<Longrightarrow>
   map tb_call_id bs = map tc_id calls"
proof (induction calls arbitrary: cache w bs cache')
  case (Cons call calls)
  then obtain b cache1 w1 bs' cache2 where
    one: "execute_one rt a n ctx origin call cache w = (Inr (b, cache1), w1)"
    and more: "execute_calls rt a n ctx origin calls cache1 w1 = (Inr (bs', cache2), w')" "bs = b # bs'"
    by (auto simp: svc_bind_Inr)
  have "tb_call_id b = tc_id call"
    using one by (elim execute_one_steps call_result_cases) (auto dest: run_tool_call_result)
  with Cons.IH [OF more(1)] more(2) show ?case by simp
qed simp

text \<open>A round with a call outside the tools of the node runs none of its calls.\<close>

lemma unauthorized_round_raises:
  assumes "unauthorized_calls tools calls \<noteq> []"
  shows "\<exists>e w'. execute_tool_round rt a calls n tools ctx origin cache w = (Inl e, w') \<and> w_store w' = w_store w"
proof -
  let ?em = "emit_trace a TOOL_DRAIN_ROUND
       ([(''round'', JInt n), (''tool_call_count'', JInt (int (length calls))),
         (''tool_names'', json_strs (map tc_name calls))] @ origin_detail origin) ''info''"
  obtain y w1 where e: "?em w = (y, w1)" by force
  have "w_store w1 = w_store w" using svc_emit_run e unfolding emit_trace_def by blast
  with e assms show ?thesis
    by (cases y) (auto simp: execute_tool_round_def svc_bind_def svc_lift_def)
qed

section \<open>Effects are kept\<close>

lemma effect_later:
  assumes "store_later evolves (w_store w) (w_store w')" "effect_recorded w i fp c content"
  shows "effect_recorded w' i fp c content"
  using assms later_ledger unfolding effect_recorded_def store_later_def by blast

lemma kept_effect:
  assumes "preserves evolves m" "keyed (w_store w)" "m w = (x, w')" "effect_recorded w i fp c content"
  shows "keyed (w_store w') \<and> effect_recorded w' i fp c content"
proof -
  have l: "store_later evolves (w_store w) (w_store w')" using assms(1-3) unfolding spec_def by blast
  with assms(2) have "keyed (w_store w')" by (simp add: store_later_def)
  with effect_later [OF l assms(4)] show ?thesis by blast
qed

text \<open>The ledger entry of a fingerprint is free.\<close>

definition effect_free :: "world \<Rightarrow> string \<Rightarrow> string \<Rightarrow> bool" where
  "effect_free w i fp \<longleftrightarrow>
     (\<exists>s. stores w i s \<and> map_of (rs_processed_idempotency_keys s) (tool_effect_key i fp) = None)"

lemma started_op_ledger:
  assumes "record_tool_execution_started_op i x c nm rn ar tr md w = (Inr t, w')" "effect_free w i fp"
  shows "effect_free w' i fp"
proof -
  obtain s where s: "stores w i s" "map_of (rs_processed_idempotency_keys s) (tool_effect_key i fp) = None"
    using assms(2) by (auto simp: effect_free_def)
  have k: "keyed (w_store w)" using s(1) by (simp add: stores_def)
  let ?e = "w_env w (w_ops w)" and ?w1 = "w\<lparr>w_ops := Suc (w_ops w)\<rparr>"
  obtain s1 s2 where st: "record_tool_execution_started (ev_id ?e 0) x c nm rn ar tr md (ev_now ?e 0) s
        = Inr (t, s1)" and p: "put_session s1 ?w1 = (Inr s2, w')"
    using assms(1) s(1)
    by (auto simp: record_tool_execution_started_op_def svc_bind_Inr get_stores_eq
        svc_lift_Inr simp del: svc_lift_eq)
  have "rs_id s1 = rs_id s" "rs_processed_idempotency_keys s1 = rs_processed_idempotency_keys s"
    using st by (auto simp: record_tool_execution_started_def Let_def split: option.splits)
  moreover have "rs_id s = i" using s(1) by (rule stores_id)
  ultimately show ?thesis
    using put_stores(2) [OF p, of i] k s(2) by (auto simp: effect_free_def)
qed

lemma find_effect_result:
  assumes "find_effect i (Some f) cache w = (Inr (cached, cache1), w')"
  shows "w' = w"
    "map_of cache f = None \<Longrightarrow> effect_recorded w i f c content \<Longrightarrow> f \<noteq> [] \<Longrightarrow> cached = Some (c, content)"
    "map_of cache f = None \<Longrightarrow> effect_free w i f \<Longrightarrow> cached = None \<and> cache1 = cache"
proof -
  show "w' = w"
    using assms by (auto simp: find_effect_def svc_bind_Inr lookup_tool_effect_result_def get_session_Inr
        split: option.splits if_splits)
  show "cached = Some (c, content)" if "map_of cache f = None" "effect_recorded w i f c content" "f \<noteq> []"
    using assms that(1) lookup_effect [OF that(2,3)]
    by (auto simp: find_effect_def svc_bind_def svc_return_def)
  assume c: "map_of cache f = None" and f: "effect_free w i f"
  obtain s where "stores w i s" "map_of (rs_processed_idempotency_keys s) (tool_effect_key i f) = None"
    using f by (auto simp: effect_free_def)
  then have "lookup_tool_effect_result i f w = (Inr None, w)"
    by (simp add: lookup_tool_effect_result_def svc_bind_def get_stores svc_return_def)
  with assms c show "cached = None \<and> cache1 = cache"
    by (auto simp: find_effect_def svc_bind_def svc_return_def)
qed

text \<open>A call whose effect is recorded gets the recorded content, whatever its handler would do.\<close>

lemma execute_one_reuses:
  assumes "execute_one rt a n ctx origin call cache w = (Inr (b, cache'), w')"
    "effect_recorded w (ac_session_id a) (call_fingerprint rt call ctx) c content"
    "map_of cache (call_fingerprint rt call ctx) = None"
  shows "tb_content b = content \<and> \<not> tb_is_error b \<and> tb_call_id b = tc_id call"
  using assms(1)
proof (cases rule: execute_one_steps)
  case (1 m cached cache1 detail t w1 w2 w3 w4 t' w5 d1 d2 lv)
  have "call_fingerprint rt call ctx \<noteq> []" by (simp add: call_fingerprint_def)
  with find_effect_result(2) [OF 1(2) assms(3,2)] have "cached = Some (c, content)" by blast
  with 1(5) show ?thesis by (auto simp: call_result_def)
qed

text \<open>A call that runs its handler and succeeds leaves its effect recorded.\<close>

lemma execute_one_records:
  assumes "execute_one rt a n ctx origin call cache w = (Inr (b, cache'), w')" "\<not> tb_is_error b"
    "effect_free w (ac_session_id a) (call_fingerprint rt call ctx)"
    "map_of cache (call_fingerprint rt call ctx) = None"
  shows "keyed (w_store w') \<and>
    effect_recorded w' (ac_session_id a) (call_fingerprint rt call ctx) (tc_id call) (tb_content b)"
  using assms(1)
proof (cases rule: execute_one_steps)
  case (1 m cached cache1 detail t w1 w2 w3 w4 t' w5 d1 d2 lv)
  let ?i = "ac_session_id a" and ?f = "call_fingerprint rt call ctx"
  have f: "?f \<noteq> []" by (simp add: call_fingerprint_def)
  have w1: "w1 = w" and c: "cached = None" "cache1 = cache"
    using find_effect_result(1) [OF 1(2)] find_effect_result(3) [OF 1(2) assms(4,3)] by simp_all
  have "effect_free w2 ?i ?f" by (rule started_op_ledger [OF 1(3)]) (simp add: w1 assms(3))
  moreover have "w_store w3 = w_store w2" using svc_emit_run 1(4) unfolding emit_trace_def by blast
  ultimately obtain s where s: "keyed (w_store w3)" "memory_get (w_store w3) ?i = Some s"
      "map_of (rs_processed_idempotency_keys s) (tool_effect_key ?i ?f) = None"
    by (auto simp: effect_free_def stores_def)
  have r4: "keyed (w_store w4) \<and> effect_recorded w4 ?i ?f (tc_id call) (tb_content b)"
    using 1(5)
  proof (cases rule: call_result_cases)
    case (3 r w0)
    have l: "store_later same_ledger (w_store w3) (w_store w0)" by (rule run_tool_call_result(2) [OF 3(4) s(1)])
    then obtain s0 where s0: "memory_get (w_store w0) ?i = Some s0" "later same_ledger s s0"
      using s(2) unfolding store_later_def by blast
    moreover have "keyed (w_store w0)" using l s(1) by (simp add: store_later_def)
    moreover have "map_of (rs_processed_idempotency_keys s0) (tool_effect_key ?i ?f) = None"
      using s0(2) s(3) by (simp add: later_def same_ledger_def)
    ultimately obtain w6 where "record_tool_effect_result ?i ?f (tc_id call) (tb_content b) w0 = (Inr (), w6)"
        "keyed (w_store w6)" "effect_recorded w6 ?i ?f (tc_id call) (tb_content b)"
      using record_effect_fresh [of w0 ?f ?i s0 "tc_id call" "tb_content b"] f by auto
    with 3(6) show ?thesis by simp
  qed (use c assms(2) in auto)
  obtain pv len err where cm: "record_tool_execution_completed_op ?i (ac_execution_id a) (tb_call_id b)
       (tb_is_error b) pv len err w4 = (Inr t', w5)"
    using 1(6) by blast
  have r5: "keyed (w_store w5) \<and> effect_recorded w5 ?i ?f (tc_id call) (tb_content b)"
    by (rule kept_effect [OF hist_ops.tool_ops_preserve(2) _ cm]) (use r4 in auto)
  have "w_store w' = w_store w5" using svc_emit_run 1(7) unfolding emit_trace_def by blast
  with r5 show ?thesis by (simp add: effect_recorded_def)
qed

text \<open>
  The whole story: after a first call has run and succeeded, every later call with the same
  fingerprint in the session, in any run and whatever was served in between, gets its content.
\<close>

lemma effects_run_once:
  assumes "execute_one rt a n ctx origin call [] w = (Inr (b, cache), w1)" "\<not> tb_is_error b"
    "effect_free w (ac_session_id a) (call_fingerprint rt call ctx)"
    "quiet_hooks h" "ac_session_id a2 = ac_session_id a"
    "call_fingerprint rt2 call2 ctx2 = call_fingerprint rt call ctx"
    "execute_one rt2 a2 n2 ctx2 origin2 call2 [] (serve_all h rs w1) = (Inr (b2, cache2), w2)"
  shows "tb_content b2 = tb_content b \<and> \<not> tb_is_error b2"
proof -
  have r: "keyed (w_store w1)"
      "effect_recorded w1 (ac_session_id a) (call_fingerprint rt call ctx) (tc_id call) (tb_content b)"
    using execute_one_records [OF assms(1-3)] by simp_all
  have "effect_recorded (serve_all h rs w1) (ac_session_id a2) (call_fingerprint rt2 call2 ctx2)
      (tc_id call) (tb_content b)"
    unfolding assms(5,6) by (rule serve_all_effect [OF assms(4) r])
  from execute_one_reuses [OF assms(7) this] show ?thesis by simp
qed

section \<open>What agents do keeps the session\<close>

context tool_relation begin

lemma emit_trace_preserves: "preserves rel (emit_trace a kind detail level)"
  unfolding emit_trace_def by (rule spec_true [OF spec_emit])

lemma run_tool_call_preserves: "preserves rel (run_tool_call dumps repr_of r call ctx)"
  unfolding run_tool_call_def Let_def by (intro spec_then [OF await_preserves] spec_env_bind spec_done)

lemma run_tool_calls_preserves: "preserves rel (run_tool_calls dumps repr_of r calls ctx)"
  by (induction calls)
     (auto intro!: spec_then spec_done run_tool_call_preserves)

lemma find_effect_preserves: "preserves rel (find_effect i fp cache)"
  unfolding find_effect_def
  by (intro spec_case_option spec_then spec_done queries_preserve)

lemma call_result_preserves: "preserves rel (call_result rt a ctx call fp cached cache)"
proof -
  have k: "preserves rel (case (batch, fp) of
              ([], _) \<Rightarrow> svc_lift (Inl IndexError)
            | (b # _, None) \<Rightarrow> svc_return (b, cache)
            | (b # _, Some f) \<Rightarrow>
                if tb_is_error b then svc_return (b, cache)
                else svc_bind (record_tool_effect_result (ac_session_id a) f (tc_id call) (tb_content b)) (\<lambda>_.
                     svc_return (b, AList.update f (tc_id call, tb_content b) cache)))" for batch
    by (cases batch; cases fp)
       (auto intro!: spec_fail spec_done spec_then ledger_ops_preserve)
  show ?thesis
    unfolding call_result_def
    by (intro spec_case_option spec_case_prod spec_then spec_done
        run_tool_calls_preserves k)
qed

lemma execute_one_preserves: "preserves rel (execute_one rt a n ctx origin call cache)"
  unfolding execute_one_def Let_def
  by (intro spec_then spec_fail spec_case_prod spec_done
      find_effect_preserves tool_ops_preserve emit_trace_preserves call_result_preserves)

lemma execute_calls_preserves: "preserves rel (execute_calls rt a n ctx origin calls cache)"
  by (induction calls arbitrary: cache)
     (auto intro!: spec_then spec_done execute_one_preserves)

lemma execute_tool_round_preserves:
  "preserves rel (execute_tool_round rt a calls n tools ctx origin cache)"
  unfolding execute_tool_round_def
  by (intro spec_then emit_trace_preserves spec_if spec_fail execute_calls_preserves)

lemma complete_model_preserves: "preserves rel (complete_model rt messages system tools role)"
  unfolding complete_model_def by (intro spec_then [OF await_preserves] spec_env_bind spec_fail)

lemma invoke_model_preserves: "preserves rel (invoke_model rt a messages system tools role n)"
  unfolding invoke_model_def
  by (intro spec_then emit_trace_preserves complete_model_preserves spec_done)

lemma drain_rounds_preserves:
  "preserves rel (drain_rounds rt a system tools role origin k n current messages cache)"
  by (induction k arbitrary: n current messages cache)
     (auto simp: Let_def intro!: spec_then spec_done execute_tool_round_preserves
        invoke_model_preserves)

lemma drain_tool_calls_preserves:
  "preserves rel (drain_tool_calls rt a invocation messages system tools role origin)"
  unfolding drain_tool_calls_def
  by (intro spec_if spec_done drain_rounds_preserves)

end

end
