(* ===== verification/Team_Runtime.thy ===== *)
theory Team_Runtime
  imports Models Harness_Types
begin

text \<open>
  The pure part of a team's execution: \<^verbatim>\<open>orchestration/collaboration_runtime.py\<close>,
  \<^verbatim>\<open>collaboration_interaction.py\<close> and the member strategies of
  \<^verbatim>\<open>collaboration_member.py\<close> and \<^verbatim>\<open>collaboration_member_strategy.py\<close>. The text of a
  JSON value (\<^verbatim>\<open>json.dumps\<close>) and its inverse are parameters.
\<close>

section \<open>JSON forms\<close>

definition harness_message_from_interaction :: "message \<Rightarrow> harness_message" where
  "harness_message_from_interaction m =
     (harness_message_of Harness_ASSISTANT (ms_content m))\<lparr>hm_name := Some (ms_sender m)\<rparr>"

fun mode_value :: "collaboration_mode \<Rightarrow> string" where
  "mode_value Mode_TEAM = ''team''"
| "mode_value Mode_DELEGATION = ''delegation''"
| "mode_value Mode_DEBATE = ''debate''"
| "mode_value Mode_VOTE = ''vote''"

fun topology_value :: "collaboration_topology \<Rightarrow> string" where
  "topology_value Topology_BROADCAST = ''broadcast''"
| "topology_value Topology_COORDINATOR = ''coordinator''"
| "topology_value Topology_PIPELINE = ''pipeline''"

fun aggregation_value :: "aggregation_strategy \<Rightarrow> string" where
  "aggregation_value Aggregation_COLLECT = ''collect''"
| "aggregation_value Aggregation_COORDINATOR_SUMMARY = ''coordinator_summary''"
| "aggregation_value Aggregation_VOTE = ''vote''"

fun arbitration_value :: "arbitration_strategy \<Rightarrow> string" where
  "arbitration_value Arbitration_COORDINATOR = ''coordinator''"
| "arbitration_value Arbitration_MAJORITY = ''majority''"
| "arbitration_value Arbitration_NONE = ''none''"

fun workspace_scope_value :: "workspace_scope \<Rightarrow> string" where
  "workspace_scope_value Scope_TASK = ''task''"
| "workspace_scope_value Scope_SESSION = ''session''"
| "workspace_scope_value Scope_TEAM = ''team''"

definition dump_protocol :: "collaboration_protocol \<Rightarrow> json" where
  "dump_protocol p = JObj
     [(''mode'', JStr (mode_value (cp_mode p))), (''topology'', JStr (topology_value (cp_topology p))),
      (''aggregation'', JStr (aggregation_value (cp_aggregation p))),
      (''arbitration'', JStr (arbitration_value (cp_arbitration p))),
      (''coordinator_id'', json_opt_str (cp_coordinator_id p)),
      (''vote_options'', json_strs (cp_vote_options p)), (''metadata'', JObj (cp_metadata p))]"

definition dump_workspace :: "shared_workspace option \<Rightarrow> json" where
  "dump_workspace w =
     (case w of
        None \<Rightarrow> JNull
      | Some x \<Rightarrow> JObj [(''id'', JStr (sw_id x)),
          (''scope'', JStr (workspace_scope_value (sw_scope x))), (''metadata'', JObj (sw_metadata x))])"

definition dump_member_vote :: "member_vote_record \<Rightarrow> json" where
  "dump_member_vote v = JObj
     [(''agent_id'', JStr (mv_agent_id v)), (''raw'', JStr (mv_raw v)),
      (''canonical'', JStr (mv_canonical v)), (''valid'', JBool (mv_valid v))]"

definition vote_payload :: "vote_outcome \<Rightarrow> json" where
  "vote_payload v = JObj
     [(''schema_version'', JInt (vo_schema_version v)), (''strategy'', JStr ''vote''),
      (''arbitration'', JStr (arbitration_value (vo_arbitration v))),
      (''tally'', JObj (map (\<lambda>(k, n). (k, JInt (int n))) (vo_tally v))),
      (''winner'', json_opt_str (vo_winner v)), (''winner_count'', JInt (int (vo_winner_count v))),
      (''tie'', JBool (vo_tie v)), (''tied_options'', json_strs (vo_tied_options v)),
      (''invalid'', JList (map dump_member_vote (vo_invalid v))),
      (''votes'', JList (map dump_member_vote (vo_votes v)))]"

definition coordinator_payload :: "coordinator_outcome \<Rightarrow> json" where
  "coordinator_payload c = JObj
     [(''schema_version'', JInt (co_schema_version c)), (''strategy'', JStr ''coordinator_summary''),
      (''coordinator_id'', json_opt_str (co_coordinator_id c)), (''summary'', JStr (co_summary c))]"

definition workspace_id :: "team_spec \<Rightarrow> string option" where
  "workspace_id team = map_option sw_id (ts_workspace team)"

definition with_workspace :: "string option \<Rightarrow> pydict \<Rightarrow> pydict" where
  "with_workspace ws d = (case ws of None \<Rightarrow> d | Some i \<Rightarrow> d @ [(''workspace_id'', JStr i)])"

definition team_detail :: "team_spec \<Rightarrow> pydict" where
  "team_detail team = with_workspace (workspace_id team)
     [(''execution_mode'', JStr ''team''), (''team_id'', JStr (ts_id team)),
      (''protocol'', dump_protocol (ts_protocol team)),
      (''member_ids'', json_strs (map as_id (ts_members team)))]"

definition EVENT_DETAIL_SCHEMA_VERSION :: int where
  "EVENT_DETAIL_SCHEMA_VERSION = 1"

definition team_turn_detail ::
    "team_spec \<Rightarrow> agent_spec \<Rightarrow> turn \<Rightarrow> string \<Rightarrow> string option \<Rightarrow> pydict" where
  "team_turn_detail team member t interaction_id ws = with_workspace ws
     [(''schema_version'', JInt EVENT_DETAIL_SCHEMA_VERSION),
      (''interaction_id'', JStr interaction_id), (''turn_index'', JInt (tn_index t)),
      (''team_id'', JStr (ts_id team)), (''role'', JStr (as_role member)),
      (''topology'', JStr (topology_value (cp_topology (ts_protocol team))))]"

definition team_origin :: "team_spec \<Rightarrow> agent_spec \<Rightarrow> string \<Rightarrow> pydict" where
  "team_origin team member subagent_id = with_workspace (workspace_id team)
     [(''execution_mode'', JStr ''team''), (''team_id'', JStr (ts_id team)),
      (''member_id'', JStr (as_id member)), (''subagent_id'', JStr subagent_id),
      (''subagent_role'', JStr (as_role member)),
      (''protocol_mode'', JStr (mode_value (cp_mode (ts_protocol team))))]"

section \<open>Results of the members\<close>

record member_result =
  mr_agent_id :: string
  mr_role :: string
  mr_subagent_id :: string
  mr_content :: string
  mr_summary :: string
  mr_model_id :: "string option"
  mr_stop_reason :: stop_reason
  mr_tool_call_count :: nat
  mr_member_strategy :: "string option"
  mr_usage :: usage
  mr_resumed :: bool

definition dump_member_result :: "member_result \<Rightarrow> json" where
  "dump_member_result r = JObj
     ([(''agent_id'', JStr (mr_agent_id r)), (''role'', JStr (mr_role r)),
       (''subagent_id'', JStr (mr_subagent_id r)), (''content'', JStr (mr_content r)),
       (''summary'', JStr (mr_summary r)), (''model_id'', json_opt_str (mr_model_id r)),
       (''stop_reason'', JStr (stop_reason_value (mr_stop_reason r))),
       (''tool_call_count'', JInt (int (mr_tool_call_count r)))] @
      (case mr_member_strategy r of None \<Rightarrow> [] | Some n \<Rightarrow> [(''member_strategy'', JStr n)]) @
      [(''usage'', dump_usage (mr_usage r))] @
      (if mr_resumed r then [(''resumed'', JBool True)] else []))"

definition member_result_payload ::
    "agent_spec \<Rightarrow> string \<Rightarrow> invocation_result \<Rightarrow> string \<Rightarrow> nat \<Rightarrow> string \<Rightarrow> member_result" where
  "member_result_payload member subagent_id result summary drained_tool_calls member_strategy =
     \<lparr>mr_agent_id = as_id member, mr_role = as_role member, mr_subagent_id = subagent_id,
      mr_content = iv_content result, mr_summary = summary, mr_model_id = iv_model_id result,
      mr_stop_reason = iv_stop_reason result, mr_tool_call_count = drained_tool_calls,
      mr_member_strategy = Some member_strategy, mr_usage = iv_usage result, mr_resumed = False\<rparr>"

definition member_result_from_durable :: "string \<Rightarrow> string \<Rightarrow> string \<Rightarrow> member_result" where
  "member_result_from_durable agent_id role content =
     \<lparr>mr_agent_id = agent_id, mr_role = role, mr_subagent_id = ''resumed-'' @ agent_id,
      mr_content = content, mr_summary = [], mr_model_id = Some ''resumed'',
      mr_stop_reason = Stop_END_TURN, mr_tool_call_count = 0, mr_member_strategy = None,
      mr_usage = no_usage, mr_resumed = True\<rparr>"

definition team_member_content :: "member_result \<Rightarrow> string" where
  "team_member_content r = (if mr_content r \<noteq> [] then mr_content r else mr_summary r)"

definition team_votes :: "team_spec \<Rightarrow> member_result list \<Rightarrow> vote_outcome" where
  "team_votes team results =
     build_vote_outcome
       (map (\<lambda>r. member_vote_record_of (mr_agent_id r) (team_member_content r)
          (cp_vote_options (ts_protocol team))) results)
       (cp_arbitration (ts_protocol team)) (cp_vote_options (ts_protocol team))"

definition team_summary :: "team_spec \<Rightarrow> member_result list \<Rightarrow> coordinator_outcome" where
  "team_summary team results =
     (let c = cp_coordinator_id (ts_protocol team) in
      \<lparr>co_schema_version = PROTOCOL_OUTCOME_SCHEMA_VERSION, co_coordinator_id = c,
       co_summary = (case List.find (\<lambda>r. Some (mr_agent_id r) = c) results of
          None \<Rightarrow> [] | Some r \<Rightarrow> team_member_content r)\<rparr>)"

definition aggregate_results :: "team_spec \<Rightarrow> member_result list \<Rightarrow> json" where
  "aggregate_results team results =
     (case cp_aggregation (ts_protocol team) of
        Aggregation_VOTE \<Rightarrow> vote_payload (team_votes team results)
      | Aggregation_COORDINATOR_SUMMARY \<Rightarrow> coordinator_payload (team_summary team results)
      | Aggregation_COLLECT \<Rightarrow> JObj [(''strategy'', JStr ''collect'')])"

definition team_typed_outcome ::
    "team_spec \<Rightarrow> member_result list \<Rightarrow> (vote_outcome + coordinator_outcome) option" where
  "team_typed_outcome team results =
     (case cp_aggregation (ts_protocol team) of
        Aggregation_VOTE \<Rightarrow> Some (Inl (team_votes team results))
      | Aggregation_COORDINATOR_SUMMARY \<Rightarrow> Some (Inr (team_summary team results))
      | Aggregation_COLLECT \<Rightarrow> None)"

definition team_collaboration_payload ::
    "team_spec \<Rightarrow> string \<Rightarrow> member_result list \<Rightarrow> pydict" where
  "team_collaboration_payload team coordinator_role results =
     [(''mode'', JStr ''team''), (''team_id'', JStr (ts_id team)),
      (''protocol'', dump_protocol (ts_protocol team)),
      (''workspace'', dump_workspace (ts_workspace team)),
      (''coordinator_role'', JStr coordinator_role),
      (''member_count'', JInt (int (length results))),
      (''results'', JList (map dump_member_result results)),
      (''aggregation'', aggregate_results team results)]"

definition team_invocation_result ::
    "(json \<Rightarrow> string) \<Rightarrow> team_spec \<Rightarrow> string \<Rightarrow> member_result list \<Rightarrow> invocation_result" where
  "team_invocation_result dumps team coordinator_role results =
     (let collaboration = JObj (team_collaboration_payload team coordinator_role results) in
      \<lparr>iv_content = dumps (JObj [(''collaboration'', collaboration)]), iv_tool_calls = [],
       iv_stop_reason = Stop_END_TURN, iv_usage = no_usage, iv_model_id = Some ''team'',
      iv_reasoning = None, iv_subagent_id = None, iv_subagent_summary = None,
       iv_raw = [(''mas_team'', collaboration)]\<rparr>)"

section \<open>The runtime of one interaction\<close>

record native_runtime =
  nr_team :: team_spec
  nr_strategy :: strategy
  nr_interaction :: interaction

record scheduled_turn =
  sc_member :: agent_spec
  sc_detail :: pydict
  sc_seed_messages :: "harness_message list"
  sc_is_coordinator_handoff :: bool
  sc_turn :: turn

definition members_by_id :: "team_spec \<Rightarrow> (string \<times> agent_spec) list" where
  "members_by_id team = fold (\<lambda>m d. AList.update (as_id m) m d) (ts_members team) []"

definition make_runtime ::
    "team_spec \<Rightarrow> string \<Rightarrow> turn list \<Rightarrow> message list \<Rightarrow> exn + native_runtime" where
  "make_runtime team interaction_id seed_turns seed_messages =
     and_then (select_strategy (ts_protocol team)) (\<lambda>strategy.
     and_then (make_interaction
       \<lparr>it_id = interaction_id, it_team_id = ts_id team, it_member_ids = map fst (members_by_id team),
        it_protocol = ts_protocol team, it_messages = seed_messages, it_turns = seed_turns,
        it_status = Interaction_RUNNING, it_workspace_id = workspace_id team, it_metadata = []\<rparr>) (\<lambda>i.
     Inr \<lparr>nr_team = team, nr_strategy = strategy, nr_interaction = i\<rparr>))"

text \<open>The completed turns of a durable aggregate in the order of their indices.\<close>

definition completed_turns :: "durable_interaction \<Rightarrow> durable_turn list" where
  "completed_turns d =
     sort_key dt_turn_index (filter (\<lambda>t. dt_status t = Turn_COMPLETED) (di_turns d))"

definition messages_of_turn :: "durable_interaction \<Rightarrow> int \<Rightarrow> durable_message list" where
  "messages_of_turn d i = filter (\<lambda>m. dm_turn_index m = i) (di_messages d)"

definition seed_message :: "durable_interaction \<Rightarrow> durable_message \<Rightarrow> exn + message" where
  "seed_message d m = make_message
     \<lparr>ms_id = dm_id m, ms_interaction_id = di_id d, ms_turn_index = dm_turn_index m,
      ms_sender = dm_sender m, ms_recipients = [], ms_role = Role_AGENT, ms_content = dm_content m,
      ms_in_reply_to = None, ms_metadata = []\<rparr>"

definition seed_turn ::
    "team_spec \<Rightarrow> durable_interaction \<Rightarrow> durable_turn \<Rightarrow> turn list \<times> message list \<Rightarrow>
     exn + turn list \<times> message list" where
  "seed_turn team d t acc =
     and_then (raise_when (dt_agent_id t \<notin> fst ` set (members_by_id team)) ValueError) (\<lambda>_.
     and_then (fold_err (\<lambda>m ms. and_then (seed_message d m) (\<lambda>x. Inr (ms @ [x])))
        (messages_of_turn d (dt_turn_index t)) []) (\<lambda>ms.
     and_then (make_turn
       \<lparr>tn_index = dt_turn_index t, tn_agent_id = dt_agent_id t, tn_status = Turn_COMPLETED,
        tn_message_ids = map ms_id ms, tn_metadata = []\<rparr>) (\<lambda>x.
     Inr (fst acc @ [x], snd acc @ ms))))"

definition seed_from_durable :: "team_spec \<Rightarrow> durable_interaction \<Rightarrow> exn + native_runtime" where
  "seed_from_durable team d =
     and_then (fold_err (seed_turn team d) (completed_turns d) ([], [])) (\<lambda>(ts, ms).
     make_runtime team (di_id d) ts ms)"

definition completed_turn_count :: "native_runtime \<Rightarrow> nat" where
  "completed_turn_count r = length (it_turns (nr_interaction r))"

definition runtime_next_turn :: "native_runtime \<Rightarrow> exn + scheduled_turn option" where
  "runtime_next_turn r =
     (let team = nr_team r; i = nr_interaction r in
      and_then (strategy_next_turn (nr_strategy r) i) (\<lambda>scheduled.
      case scheduled of
        None \<Rightarrow> Inr None
      | Some t \<Rightarrow>
          (case map_of (members_by_id team) (tn_agent_id t) of
             None \<Rightarrow> Inl KeyError
           | Some member \<Rightarrow>
               Inr (Some \<lparr>sc_member = member,
                 sc_detail = team_turn_detail team member t (it_id i) (it_workspace_id i),
                 sc_seed_messages = map harness_message_from_interaction
                   (strategy_visible_messages (nr_strategy r) i t),
                 sc_is_coordinator_handoff =
                   (cp_topology (ts_protocol team) = Topology_COORDINATOR \<and>
                    Some (as_id member) = cp_coordinator_id (ts_protocol team)),
                 sc_turn = t\<rparr>))))"

text \<open>The turn is recorded for the member, which \<^verbatim>\<open>next_turn\<close> found by the turn's agent.\<close>

definition runtime_record :: "native_runtime \<Rightarrow> scheduled_turn \<Rightarrow> string \<Rightarrow> exn + native_runtime" where
  "runtime_record r s content =
     and_then (record_member_message (nr_interaction r)
         ((sc_turn s)\<lparr>tn_agent_id := as_id (sc_member s)\<rparr>) content) (\<lambda>i.
     Inr (r\<lparr>nr_interaction := i\<rparr>))"

text \<open>Results of the turns that an earlier attempt completed.\<close>

definition prior_results :: "team_spec \<Rightarrow> durable_interaction \<Rightarrow> member_result list" where
  "prior_results team d =
     (let roles = map (\<lambda>m. (as_id m, as_role m)) (ts_members team);
          contents = map (\<lambda>m. (dm_turn_index m, dm_content m)) (di_messages d) in
      map (\<lambda>t. member_result_from_durable (dt_agent_id t)
          (case map_of (rev roles) (dt_agent_id t) of None \<Rightarrow> dt_agent_id t | Some x \<Rightarrow> x)
          (case map_of (rev contents) (dt_turn_index t) of None \<Rightarrow> [] | Some x \<Rightarrow> x))
        (completed_turns d))"

section \<open>Tools of a member\<close>

definition tools_for_agent :: "tool_spec list option \<Rightarrow> agent_spec \<Rightarrow> exn + tool_spec list option" where
  "tools_for_agent tools agent =
     (case tools of
        None \<Rightarrow> if as_tools agent \<noteq> [] then Inl RuntimeError else Inr None
      | Some ts \<Rightarrow>
          if as_tools agent = [] then Inr (Some ts)
          else
            let by_name = map (\<lambda>t. (tl_name t, t)) ts in
            if list_ex (\<lambda>n. map_of by_name n = None) (as_tools agent) then Inl RuntimeError
            else Inr (Some (map (\<lambda>n. the (map_of (rev by_name) n)) (as_tools agent))))"

text \<open>A done payload ends a member's turn; \<open>loads\<close> is nothing where the text is not JSON.\<close>

definition explicit_submit ::
    "(string \<Rightarrow> json option) \<Rightarrow> (json \<Rightarrow> string) \<Rightarrow> string \<Rightarrow> string option" where
  "explicit_submit loads dumps content =
     (case loads content of
        None \<Rightarrow> None
      | Some payload \<Rightarrow>
          (case json_obj payload of
             None \<Rightarrow> None
           | Some d \<Rightarrow>
               if map_of d ''done'' \<noteq> Some (JBool True) then None
               else case map_of d ''submit'' of
                 None \<Rightarrow> None
               | Some (JStr t) \<Rightarrow> Some t
               | Some v \<Rightarrow> Some (dumps v)))"

definition submit_result :: "invocation_result \<Rightarrow> string \<Rightarrow> invocation_result" where
  "submit_result current submitted = current\<lparr>iv_content := submitted, iv_tool_calls := []\<rparr>"

end
