(* ===== verification/Team_Members.thy ===== *)
theory Team_Members
  imports Team_Runtime Tool_Facts
begin

text \<open>
  \<^verbatim>\<open>orchestration/subagent_spawn.py\<close>, \<^verbatim>\<open>collaboration_member_strategy.py\<close>,
  \<^verbatim>\<open>collaboration_member.py\<close> and \<^verbatim>\<open>AgentExecutionRuntime.invoke_subagent\<close>: how an
  agent is spawned and how one member's turn is driven to its end. The handle of a subagent, a
  mutable object of the code, is a value that is passed on.
\<close>

section \<open>Subagents\<close>

record subagent =
  sb_role :: string
  sb_instructions :: string
  sb_tools :: "tool_spec list"
  sb_messages :: "harness_message list"
  sb_last :: "invocation_result option"
  sb_closed :: bool

definition subagent_id :: "subagent \<Rightarrow> string" where
  "subagent_id sub = ''provider-sub-'' @ sb_role sub"

text \<open>The capability flag of the harness is checked before the handle exists.\<close>

definition spawn_subagent ::
    "bool \<Rightarrow> string \<Rightarrow> string \<Rightarrow> tool_spec list \<Rightarrow> harness_message list \<Rightarrow> exn + subagent" where
  "spawn_subagent supported role instructions tools seed =
     and_then (raise_when (\<not> supported) CapabilityError) (\<lambda>_.
     Inr \<lparr>sb_role = role, sb_instructions = instructions, sb_tools = tools, sb_messages = seed,
          sb_last = None, sb_closed = False\<rparr>)"

definition subagent_send ::
    "agent_runtime \<Rightarrow> subagent \<Rightarrow> harness_message \<Rightarrow> (invocation_result \<times> subagent) svc" where
  "subagent_send rt sub m =
     (if sb_closed sub then svc_lift (Inl RuntimeError)
      else let sent = sb_messages sub @ [m] in
        svc_bind (complete_model rt sent (sb_instructions sub) (Some (sb_tools sub)) (sb_role sub)) (\<lambda>r.
        svc_return (r, sub\<lparr>sb_messages := sent @ [(harness_message_of Harness_ASSISTANT (iv_content r))
            \<lparr>hm_tool_calls := iv_tool_calls r, hm_reasoning := iv_reasoning r\<rparr>],
          sb_last := Some r\<rparr>)))"

definition subagent_close :: "subagent \<Rightarrow> string \<times> subagent" where
  "subagent_close sub =
     (case sb_last sub of None \<Rightarrow> [] | Some r \<Rightarrow> iv_content r, sub\<lparr>sb_closed := True\<rparr>)"

section \<open>One agent on its own\<close>

definition with_speaker_name :: "string \<Rightarrow> harness_message \<Rightarrow> harness_message" where
  "with_speaker_name role m =
     (if role = [] \<or> hm_name m \<noteq> None then m
      else if hm_role m \<notin> {Harness_USER, Harness_ASSISTANT} then m
      else m\<lparr>hm_name := Some role\<rparr>)"

definition subagent_detail :: "subagent \<Rightarrow> pydict" where
  "subagent_detail sub =
     [(''execution_mode'', JStr ''subagent''), (''subagent_id'', JStr (subagent_id sub))]"

definition invoke_subagent ::
    "bool \<Rightarrow> agent_runtime \<Rightarrow> agent_call \<Rightarrow> harness_message list \<Rightarrow> string \<Rightarrow> tool_spec list option \<Rightarrow>
     string \<Rightarrow> invocation_result svc" where
  "invoke_subagent supported rt a messages system tools role =
     svc_bind (svc_lift (spawn_subagent supported role system (case tools of None \<Rightarrow> [] | Some ts \<Rightarrow> ts)
         (map (with_speaker_name role) (butlast messages)))) (\<lambda>sub.
     svc_bind (emit_trace a MODEL_INVOKE_STARTED
         (invoke_started_detail rt role 0 (length messages) (tool_count tools) @ subagent_detail sub)
         ''info'') (\<lambda>_.
     svc_bind (svc_lift (if messages = [] then Inl IndexError else Inr (last messages))) (\<lambda>m.
     svc_bind (subagent_send rt sub (with_speaker_name role m)) (\<lambda>(r, sub1).
       let summary = fst (subagent_close sub1);
           invocation = r\<lparr>iv_content := (if iv_content r \<noteq> [] then iv_content r else summary),
             iv_subagent_id := Some (subagent_id sub), iv_subagent_summary := Some summary\<rparr> in
     svc_bind (emit_trace a MODEL_INVOKE_COMPLETED
         (invoke_completed_detail role 0 invocation @ subagent_detail sub) ''info'') (\<lambda>_.
     svc_return invocation)))))"

section \<open>The turn of a member\<close>

datatype member_strategy = DefaultMemberTurn | ExplicitSubmitMemberTurn

fun member_strategy_name :: "member_strategy \<Rightarrow> string" where
  "member_strategy_name DefaultMemberTurn = ''default-drain''"
| "member_strategy_name ExplicitSubmitMemberTurn = ''explicit-submit''"

text \<open>\<^verbatim>\<open>MemberTurnTooling.run_tool_round\<close>: the tools run, their results go back to the agent.\<close>

definition run_tool_round ::
    "agent_runtime \<Rightarrow> agent_call \<Rightarrow> string \<Rightarrow> tool_spec list \<Rightarrow> pydict \<Rightarrow> int \<Rightarrow> tool_call list \<Rightarrow>
     effect_results \<Rightarrow> subagent \<Rightarrow> (invocation_result \<times> effect_results \<times> subagent) svc" where
  "run_tool_round rt a role tools origin round_no calls cache sub =
     svc_bind (execute_tool_round rt a calls round_no tools (tool_context_for rt (ac_node_key a) role)
         origin cache) (\<lambda>(results, cache1).
     svc_bind (emit_trace a MODEL_INVOKE_STARTED
         (invoke_started_detail rt role round_no 1 (length tools) @ origin_detail origin) ''info'') (\<lambda>_.
     svc_bind (subagent_send rt sub ((harness_message_of Harness_TOOL [])\<lparr>hm_tool_results := results\<rparr>))
       (\<lambda>(current, sub1).
     svc_bind (emit_trace a MODEL_INVOKE_COMPLETED
         (invoke_completed_detail role round_no current @ origin_detail origin) ''info'') (\<lambda>_.
     svc_return (current, cache1, sub1)))))"

text \<open>
  The two loops. \<open>rounds\<close> counts the rounds that are left and \<open>drained\<close> the calls that were run;
  the answer is the last result, \<open>drained\<close> and the handle.
\<close>

fun drive_default ::
    "agent_runtime \<Rightarrow> agent_call \<Rightarrow> string \<Rightarrow> tool_spec list \<Rightarrow> pydict \<Rightarrow> nat \<Rightarrow> int \<Rightarrow>
     invocation_result \<Rightarrow> nat \<Rightarrow> effect_results \<Rightarrow> subagent \<Rightarrow> (invocation_result \<times> nat \<times> subagent) svc"
  where
  "drive_default rt a role tools origin 0 round_no current drained cache sub =
     svc_return (current, drained, sub)"
| "drive_default rt a role tools origin (Suc rounds) round_no current drained cache sub =
     (if iv_tool_calls current = [] then svc_return (current, drained, sub)
      else svc_bind (run_tool_round rt a role tools origin round_no (iv_tool_calls current) cache sub)
        (\<lambda>(next, cache1, sub1).
        drive_default rt a role tools origin rounds (round_no + 1) next
          (drained + length (iv_tool_calls current)) cache1 sub1))"

fun drive_explicit ::
    "agent_runtime \<Rightarrow> agent_call \<Rightarrow> string \<Rightarrow> tool_spec list \<Rightarrow> pydict \<Rightarrow> nat \<Rightarrow> int \<Rightarrow>
     invocation_result \<Rightarrow> nat \<Rightarrow> effect_results \<Rightarrow> subagent \<Rightarrow> (invocation_result \<times> nat \<times> subagent) svc"
  where
  "drive_explicit rt a role tools origin 0 round_no current drained cache sub =
     svc_return
       (case explicit_submit (ag_loads rt) (ag_dumps rt) (iv_content current) of
          Some t \<Rightarrow> submit_result current t
        | None \<Rightarrow> current\<lparr>iv_tool_calls := []\<rparr>, drained, sub)"
| "drive_explicit rt a role tools origin (Suc rounds) round_no current drained cache sub =
     (case explicit_submit (ag_loads rt) (ag_dumps rt) (iv_content current) of
        Some t \<Rightarrow> svc_return (submit_result current t, drained, sub)
      | None \<Rightarrow>
          (case iv_tool_calls current of
             [] \<Rightarrow> svc_return (current, drained, sub)
           | call # _ \<Rightarrow>
               svc_bind (run_tool_round rt a role tools origin round_no [call] cache sub)
                 (\<lambda>(next, cache1, sub1).
               drive_explicit rt a role tools origin rounds (round_no + 1) next (drained + 1) cache1 sub1)))"

definition drive_member ::
    "member_strategy \<Rightarrow> agent_runtime \<Rightarrow> agent_call \<Rightarrow> string \<Rightarrow> tool_spec list \<Rightarrow> pydict \<Rightarrow>
     invocation_result \<Rightarrow> subagent \<Rightarrow> (invocation_result \<times> nat \<times> subagent) svc" where
  "drive_member strategy rt a role tools origin first sub =
     (case strategy of
        DefaultMemberTurn \<Rightarrow> drive_default rt a role tools origin (ag_max_rounds rt) 1 first 0 [] sub
      | ExplicitSubmitMemberTurn \<Rightarrow>
          drive_explicit rt a role tools origin (ag_max_rounds rt) 1 first 0 [] sub)"

text \<open>What the orchestrator asks of a team; \<open>tq_team\<close> is \<^verbatim>\<open>config.mas_team\<close>, unchecked.\<close>

record team_request =
  tq_messages :: "harness_message list"
  tq_system :: string
  tq_tools :: "tool_spec list option"
  tq_agent_role :: string
  tq_team :: "team_spec option"

definition run_member ::
    "bool \<Rightarrow> agent_runtime \<Rightarrow> agent_call \<Rightarrow> team_request \<Rightarrow> team_spec \<Rightarrow> agent_spec \<Rightarrow>
     harness_message list \<Rightarrow> member_strategy \<Rightarrow> member_result svc" where
  "run_member supported rt a rq team member seed strategy =
     svc_bind (svc_lift (tools_for_agent (tq_tools rq) member)) (\<lambda>available.
       let tools = (case available of None \<Rightarrow> [] | Some ts \<Rightarrow> ts) in
     svc_bind (svc_lift (spawn_subagent supported (as_role member)
         (if as_instructions member \<noteq> [] then as_instructions member else tq_system rq) tools seed)) (\<lambda>sub.
       let origin = team_origin team member (subagent_id sub) in
     svc_bind (svc_lift (if tq_messages rq = [] then Inl IndexError else Inr (last (tq_messages rq)))) (\<lambda>m.
     svc_bind (subagent_send rt sub m) (\<lambda>(first, sub1).
     svc_bind (svc_lift (raise_when (iv_tool_calls first \<noteq> [] \<and> tools = []) RuntimeError)) (\<lambda>_.
     svc_bind (drive_member strategy rt a (as_role member) tools origin first sub1) (\<lambda>(r, drained, sub2).
     svc_bind (svc_lift (raise_when (iv_tool_calls r \<noteq> []) RuntimeError)) (\<lambda>_.
     svc_return (member_result_payload member (subagent_id sub2) r (fst (subagent_close sub2)) drained
       (member_strategy_name strategy)))))))))"

section \<open>What a member's turn is\<close>

context tool_relation begin

lemma subagent_send_preserves: "preserves rel (subagent_send rt sub m)"
  unfolding subagent_send_def Let_def
  by (intro spec_if spec_fail spec_then complete_model_preserves spec_done)

lemma invoke_subagent_preserves: "preserves rel (invoke_subagent sp rt a ms sys ts role)"
  unfolding invoke_subagent_def Let_def
  by (intro spec_then spec_fail spec_case_prod spec_done emit_trace_preserves subagent_send_preserves)

lemma run_tool_round_preserves:
  "preserves rel (run_tool_round rt a role ts origin n calls cache sub)"
  unfolding run_tool_round_def
  by (intro spec_then spec_case_prod spec_done emit_trace_preserves subagent_send_preserves
      execute_tool_round_preserves)

lemma drive_default_preserves:
  "preserves rel (drive_default rt a role ts origin k n current drained cache sub)"
  by (induction k arbitrary: n current drained cache sub)
     (auto intro!: spec_then spec_done run_tool_round_preserves)

lemma drive_explicit_preserves:
  "preserves rel (drive_explicit rt a role ts origin k n current drained cache sub)"
  by (induction k arbitrary: n current drained cache sub)
     (auto intro!: spec_then spec_done run_tool_round_preserves split: option.split list.split)

lemma drive_member_preserves: "preserves rel (drive_member st rt a role ts origin first sub)"
  by (cases st) (simp_all add: drive_member_def drive_default_preserves drive_explicit_preserves)

lemma run_member_preserves: "preserves rel (run_member sp rt a rq team member seed st)"
  unfolding run_member_def Let_def
  by (intro spec_then spec_fail spec_case_prod spec_done subagent_send_preserves drive_member_preserves)

end

lemma run_member_result:
  assumes "run_member sp rt a rq team member seed st w = (Inr r, w')"
  shows "mr_agent_id r = as_id member" "mr_role r = as_role member" "\<not> mr_resumed r"
  using assms unfolding run_member_def Let_def
  by (auto simp: svc_bind_Inr member_result_payload_def)

text \<open>Every agent that is driven stops within its budget of model calls: the loops are total.\<close>

definition pending_calls :: "invocation_result \<Rightarrow> bool" where
  "pending_calls r \<longleftrightarrow> iv_tool_calls r \<noteq> []"

lemma explicit_submit_settles:
  assumes "drive_explicit rt a role ts origin k n current drained cache sub w = (Inr (r, d, sub'), w')"
  shows "\<not> pending_calls r" "d \<le> drained + k"
  using assms
proof (induction k arbitrary: n current drained cache sub w)
  case 0
  { case 1 then show ?case by (auto simp: pending_calls_def submit_result_def split: option.splits) }
  { case 2 then show ?case by simp }
next
  case (Suc k)
  { case 1 then show ?case
      using Suc.IH(1)
      by (auto simp: pending_calls_def submit_result_def svc_bind_Inr split: option.splits list.splits) }
  { case 2 then show ?case
      using Suc.IH(2)
      by (fastforce simp: svc_bind_Inr split: option.splits list.splits) }
qed

end
