(* ===== verification/Team_Executor.thy ===== *)
theory Team_Executor
  imports Team_Members Control_Plane
begin

text \<open>
  \<^verbatim>\<open>orchestration/collaboration_team.py\<close> with its events
  (\<^verbatim>\<open>collaboration_events.py\<close>) and log (\<^verbatim>\<open>collaboration_logging.py\<close>): a team is
  run as scheduled turns, recorded turn by turn in the durable aggregate of the node, and
  continued from it after a crash. An exception of the turns is recorded and raised again.
\<close>

text \<open>
  What the executor is built with. The log and the durable recorder may be missing; \<open>te_dump\<close> is
  the JSON form of a log record, \<open>te_failure\<close> the text and the class name of an exception.
\<close>

record team_env =
  te_runtime :: agent_runtime
  te_subagents :: bool
  te_log :: bool
  te_durable :: bool
  te_dump :: "interaction_log_record \<Rightarrow> json"
  te_failure :: "exn \<Rightarrow> string \<times> string"

section \<open>Events\<close>

definition team_invocation_started :: "team_env \<Rightarrow> agent_call \<Rightarrow> team_request \<Rightarrow> team_spec \<Rightarrow> unit svc" where
  "team_invocation_started env a rq team =
     emit_trace a MODEL_INVOKE_STARTED
       (invoke_started_detail (te_runtime env) (tq_agent_role rq) 0 (length (tq_messages rq))
          (tool_count (tq_tools rq)) @ team_detail team) ''info''"

definition team_invocation_completed ::
    "agent_call \<Rightarrow> team_request \<Rightarrow> team_spec \<Rightarrow> invocation_result \<Rightarrow> unit svc" where
  "team_invocation_completed a rq team invocation =
     emit_trace a MODEL_INVOKE_COMPLETED
       ([(''role'', JStr (tq_agent_role rq)), (''round'', JInt 0),
         (''model_id'', json_opt_str (iv_model_id invocation)),
         (''stop_reason'', JStr (stop_reason_value (iv_stop_reason invocation))),
         (''tool_call_count'', JInt 0),
         (''content_preview'', JStr (compact_text (Some (iv_content invocation)) 160)),
         (''usage'', dump_usage (iv_usage invocation))] @ team_detail team) ''info''"

definition turn_outcome_detail :: "member_result \<Rightarrow> pydict" where
  "turn_outcome_detail r =
     [(''stop_reason'', JStr (stop_reason_value (mr_stop_reason r))),
      (''tool_call_count'', JInt (int (mr_tool_call_count r)))]"

definition content_detail :: "string \<Rightarrow> pydict" where
  "content_detail content = [(''content_preview'', JStr (compact_text (Some content) 160))]"

definition vote_detail :: "string \<Rightarrow> pydict" where
  "vote_detail content =
     [(''vote'', JStr (py_strip content)), (''vote_canonical'', JStr (canonicalize_vote content))] @
     content_detail content"

section \<open>The log\<close>

definition log_record ::
    "team_env \<Rightarrow> agent_call \<Rightarrow> team_spec \<Rightarrow> interaction \<Rightarrow> interaction_log_event_kind \<Rightarrow> string option \<Rightarrow>
     int option \<Rightarrow> string option \<Rightarrow> pydict \<Rightarrow> unit svc" where
  "log_record env a team i kind actor turn_index content detail =
     (if \<not> te_log env then svc_return ()
      else svc_bind svc_env (\<lambda>e.
        svc_bind (svc_lift (raise_when (case turn_index of None \<Rightarrow> False | Some n \<Rightarrow> n < 0) ValidationError)) (\<lambda>_.
        svc_bind (record_control_interaction_event (te_dump env)
          \<lparr>il_id = ev_id e 0, il_session_id = ac_session_id a, il_node_key = ac_node_key a,
           il_execution_id = ac_execution_id a, il_trace_id = Some (ac_trace_id a),
           il_interaction_id = it_id i, il_team_id = ts_id team, il_workspace_id = it_workspace_id i,
           il_event_kind = kind, il_actor = actor, il_turn_index = turn_index,
           il_content_preview = map_option (\<lambda>c. compact_text (Some c) 160) content,
           il_detail = detail, il_created_at = ev_now e 0\<rparr>) (\<lambda>_.
        svc_return ()))))"

definition log_interaction_started :: "team_env \<Rightarrow> agent_call \<Rightarrow> team_spec \<Rightarrow> interaction \<Rightarrow> unit svc" where
  "log_interaction_started env a team i =
     log_record env a team i Log_INTERACTION_STARTED None None None
       [(''mode'', JStr (mode_value (cp_mode (ts_protocol team)))),
        (''topology'', JStr (topology_value (cp_topology (ts_protocol team)))),
        (''member_ids'', json_strs (map as_id (ts_members team)))]"

definition log_interaction_completed ::
    "team_env \<Rightarrow> agent_call \<Rightarrow> team_spec \<Rightarrow> interaction \<Rightarrow> invocation_result \<Rightarrow> unit svc" where
  "log_interaction_completed env a team i invocation =
     log_record env a team i Log_INTERACTION_COMPLETED None None None
       [(''model_id'', json_opt_str (iv_model_id invocation)),
        (''stop_reason'', JStr (stop_reason_value (iv_stop_reason invocation))),
        (''tool_call_count'', JInt 0)]"

definition log_interaction_failed ::
    "team_env \<Rightarrow> agent_call \<Rightarrow> team_spec \<Rightarrow> interaction \<Rightarrow> exn \<Rightarrow> unit svc" where
  "log_interaction_failed env a team i e =
     log_record env a team i Log_INTERACTION_FAILED None None None
       [(''error_type'', JStr (snd (te_failure env e))),
        (''error_preview'', JStr (compact_text (Some (fst (te_failure env e))) 160))]"

section \<open>One turn\<close>

text \<open>What is written when a durable recorder is there.\<close>

definition durably :: "team_env \<Rightarrow> durable_interaction svc \<Rightarrow> unit svc" where
  "durably env m = (if te_durable env then svc_bind m (\<lambda>_. svc_return ()) else svc_return ())"

definition start_turn ::
    "team_env \<Rightarrow> agent_call \<Rightarrow> team_spec \<Rightarrow> interaction \<Rightarrow> scheduled_turn \<Rightarrow> unit svc" where
  "start_turn env a team i s =
     (let actor = as_id (sc_member s); detail = sc_detail s in
      svc_bind (if sc_is_coordinator_handoff s
        then emit_actor a AGENT_HANDOFF actor (detail @ [(''handoff'', JStr ''coordinator'')])
        else svc_return ()) (\<lambda>_.
      svc_bind (emit_actor a AGENT_TURN_STARTED actor detail) (\<lambda>_.
      log_record env a team i Log_TURN_STARTED (Some actor) (Some (tn_index (sc_turn s))) None detail)))"

definition record_turn ::
    "team_env \<Rightarrow> agent_call \<Rightarrow> team_spec \<Rightarrow> interaction \<Rightarrow> scheduled_turn \<Rightarrow> member_result \<Rightarrow> unit svc" where
  "record_turn env a team i s r =
     (let actor = as_id (sc_member s); detail = sc_detail s; index = tn_index (sc_turn s);
          content = team_member_content r in
      svc_bind (emit_actor a AGENT_TURN_COMPLETED actor (detail @ turn_outcome_detail r)) (\<lambda>_.
      svc_bind (log_record env a team i Log_TURN_COMPLETED (Some actor) (Some index) None
        (detail @ turn_outcome_detail r)) (\<lambda>_.
      svc_bind (emit_actor a AGENT_MESSAGE_SENT actor (detail @ content_detail content)) (\<lambda>_.
      svc_bind (log_record env a team i Log_MESSAGE_SENT (Some actor) (Some index) (Some content) detail) (\<lambda>_.
      svc_bind (durably env (record_interaction_turn (ac_session_id a) (it_id i) index actor
        Turn_COMPLETED)) (\<lambda>_.
      svc_bind (durably env (record_interaction_message (ac_session_id a) (it_id i) index actor content
        Role_AGENT None)) (\<lambda>_.
      if cp_mode (ts_protocol team) = Mode_VOTE
      then svc_bind (emit_actor a AGENT_VOTE actor (detail @ vote_detail content)) (\<lambda>_.
           log_record env a team i Log_VOTE_CAST (Some actor) (Some index) (Some content) detail)
      else svc_return ())))))))"

text \<open>
  The loop carries fuel; None says that it ran out. A call more than the turns that are left is
  enough.
\<close>

fun team_loop ::
    "nat \<Rightarrow> team_env \<Rightarrow> agent_call \<Rightarrow> team_request \<Rightarrow> team_spec \<Rightarrow> member_strategy \<Rightarrow> native_runtime \<Rightarrow>
     member_result list \<Rightarrow> member_result list option svc" where
  "team_loop 0 env a rq team strategy r results = svc_return None"
| "team_loop (Suc fuel) env a rq team strategy r results =
     svc_bind (svc_lift (runtime_next_turn r)) (\<lambda>scheduled.
     case scheduled of
       None \<Rightarrow> svc_return (Some results)
     | Some s \<Rightarrow>
         svc_bind (start_turn env a team (nr_interaction r) s) (\<lambda>_.
         svc_bind (run_member (te_subagents env) (te_runtime env) a rq team (sc_member s)
           (sc_seed_messages s) strategy) (\<lambda>m.
         svc_bind (record_turn env a team (nr_interaction r) s m) (\<lambda>_.
         svc_bind (svc_lift (runtime_record r s (team_member_content m))) (\<lambda>r1.
         team_loop fuel env a rq team strategy r1 (results @ [m]))))))"

section \<open>The executor\<close>

definition record_outcome :: "team_env \<Rightarrow> agent_call \<Rightarrow> team_spec \<Rightarrow> string \<Rightarrow> member_result list \<Rightarrow> unit svc" where
  "record_outcome env a team interaction_id results =
     (case team_typed_outcome team results of
        None \<Rightarrow> svc_return ()
      | Some (Inl v) \<Rightarrow>
          durably env (record_interaction_outcome (ac_session_id a) interaction_id (Some v) None)
      | Some (Inr c) \<Rightarrow>
          durably env (record_interaction_outcome (ac_session_id a) interaction_id None (Some c)))"

definition team_turns ::
    "nat \<Rightarrow> team_env \<Rightarrow> agent_call \<Rightarrow> team_request \<Rightarrow> team_spec \<Rightarrow> member_strategy \<Rightarrow> native_runtime \<Rightarrow>
     member_result list \<Rightarrow> invocation_result option svc" where
  "team_turns fuel env a rq team strategy r results =
     svc_bind (team_loop fuel env a rq team strategy r results) (\<lambda>finished.
     case finished of
       None \<Rightarrow> svc_return None
     | Some rs \<Rightarrow>
         svc_bind (record_outcome env a team (it_id (nr_interaction r)) rs) (\<lambda>_.
         svc_return (Some (team_invocation_result (ag_dumps (te_runtime env)) team (tq_agent_role rq) rs))))"

definition team_failed ::
    "team_env \<Rightarrow> agent_call \<Rightarrow> team_spec \<Rightarrow> interaction \<Rightarrow> exn \<Rightarrow> 'b svc" where
  "team_failed env a team i e =
     svc_bind (log_interaction_failed env a team i e) (\<lambda>_.
     svc_bind (durably env (fail_interaction (ac_session_id a) (it_id i) (fst (te_failure env e)))) (\<lambda>_.
     svc_lift (Inl e)))"

definition team_spec_from_config :: "team_spec option \<Rightarrow> exn + team_spec" where
  "team_spec_from_config raw =
     (case raw of
        None \<Rightarrow> Inl RuntimeError
      | Some t \<Rightarrow> (case make_team_spec t of Inl _ \<Rightarrow> Inl RuntimeError | Inr team \<Rightarrow> Inr team))"

definition resumable_interaction :: "team_env \<Rightarrow> agent_call \<Rightarrow> durable_interaction option svc" where
  "resumable_interaction env a =
     (if te_durable env then find_resumable_interaction (ac_session_id a) (ac_node_key a)
      else svc_return None)"

definition team_runtime ::
    "agent_call \<Rightarrow> team_spec \<Rightarrow> durable_interaction option \<Rightarrow> exn + native_runtime \<times> member_result list" where
  "team_runtime a team resume_from =
     (case resume_from of
        None \<Rightarrow> and_then (make_runtime team (durable_interaction_id (ac_session_id a) (ac_node_key a)) [] [])
          (\<lambda>r. Inr (r, []))
      | Some d \<Rightarrow> and_then (seed_from_durable team d) (\<lambda>r. Inr (r, prior_results team d)))"

definition start_team ::
    "team_env \<Rightarrow> agent_call \<Rightarrow> team_spec \<Rightarrow> native_runtime \<Rightarrow> bool \<Rightarrow> unit svc" where
  "start_team env a team r is_resumed =
     (let i = nr_interaction r in
      svc_bind (log_interaction_started env a team i) (\<lambda>_.
      svc_bind (durably env (start_interaction (ac_session_id a) (it_id i) (ac_node_key a)
        (ac_execution_id a) (ts_id team) (mode_value (cp_mode (ts_protocol team)))
        (topology_value (cp_topology (ts_protocol team))) (map as_id (ts_members team))
        (it_workspace_id i))) (\<lambda>_.
      if is_resumed then durably env (mark_interaction_resumed (ac_session_id a) (it_id i)
        (int (completed_turn_count r)))
      else svc_return ())))"

definition finish_team ::
    "team_env \<Rightarrow> agent_call \<Rightarrow> team_request \<Rightarrow> team_spec \<Rightarrow> interaction \<Rightarrow> invocation_result \<Rightarrow> unit svc" where
  "finish_team env a rq team i invocation =
     svc_bind (team_invocation_completed a rq team invocation) (\<lambda>_.
     svc_bind (log_interaction_completed env a team i invocation) (\<lambda>_.
     durably env (complete_interaction (ac_session_id a) (it_id i) Interaction_COMPLETED None)))"

definition invoke_team ::
    "nat \<Rightarrow> team_env \<Rightarrow> agent_call \<Rightarrow> team_request \<Rightarrow> member_strategy \<Rightarrow> invocation_result option svc" where
  "invoke_team fuel env a rq strategy =
     svc_bind (svc_lift (team_spec_from_config (tq_team rq))) (\<lambda>team.
     svc_bind (svc_lift (require_executed_team team)) (\<lambda>_.
     svc_bind (team_invocation_started env a rq team) (\<lambda>_.
     svc_bind (resumable_interaction env a) (\<lambda>resume_from.
     svc_bind (svc_lift (team_runtime a team resume_from)) (\<lambda>(r, prior).
     svc_bind (start_team env a team r (resume_from \<noteq> None)) (\<lambda>_.
     svc_bind (svc_try (team_turns fuel env a rq team strategy r prior)
       (team_failed env a team (nr_interaction r))) (\<lambda>finished.
     case finished of
       None \<Rightarrow> svc_return None
     | Some invocation \<Rightarrow>
         svc_bind (finish_team env a rq team (nr_interaction r) invocation) (\<lambda>_.
         svc_return (Some invocation)))))))))"

end
