(* ===== verification/Team_Aggregate.thy ===== *)
theory Team_Aggregate
  imports Durable_Interactions Py_Values
begin

text \<open>
  What a turn and its message do to the durable aggregate: the first record appends both, a
  record of an index that was completed before changes nothing.
\<close>

section \<open>Decimal indices\<close>

lemma split_at_dash:
  "x @ CHR ''-'' # s = y @ CHR ''-'' # t \<Longrightarrow> CHR ''-'' \<notin> set x \<Longrightarrow> CHR ''-'' \<notin> set y \<Longrightarrow> x = y"
  by (induction x arbitrary: y) (case_tac y; auto)+

lemma message_id_index:
  assumes "durable_message_id i j a = durable_message_id i k b" "0 \<le> j" "0 \<le> k"
  shows "j = k"
proof -
  have "nat_digits (nat j) @ CHR ''-'' # a = nat_digits (nat k) @ CHR ''-'' # b"
    using assms by (simp add: durable_message_id_def py_str_int_def del: nat_digits.simps)
  then have "nat_digits (nat j) = nat_digits (nat k)"
    by (rule split_at_dash) (simp_all add: not_in_nat_digits del: nat_digits.simps)
  then have "nat j = nat k" by (metis digits_value_nat)
  with assms(2,3) show ?thesis by simp
qed

section \<open>Recording a turn\<close>

text \<open>The two records of a completed turn, one after the other, on the aggregate \<open>ii\<close>.\<close>

definition turn_recorded ::
    "string \<Rightarrow> int \<Rightarrow> string \<Rightarrow> string \<Rightarrow> durable_interaction \<Rightarrow> durable_interaction \<Rightarrow> bool" where
  "turn_recorded ii j agent content d d' \<longleftrightarrow>
     (\<exists>s now d1 s1 s2 now2 s3. map_of (rs_durable_interactions s) ii = Some d \<and>
        record_durable_turn ii j agent Turn_COMPLETED now s = Inr (d1, s1) \<and>
        map_of (rs_durable_interactions s2) ii = Some d1 \<and>
        record_durable_message ii j agent content Role_AGENT None now2 s2 = Inr (d', s3))"

fun turns_recorded ::
    "string \<Rightarrow> nat \<Rightarrow> (string \<times> string) list \<Rightarrow> durable_interaction \<Rightarrow> durable_interaction \<Rightarrow> bool" where
  "turns_recorded ii j [] d d' \<longleftrightarrow> d' = d"
| "turns_recorded ii j ((agent, content) # rest) d d' \<longleftrightarrow>
     (\<exists>d1. turn_recorded ii (int j) agent content d d1 \<and> turns_recorded ii (Suc j) rest d1 d')"

definition turn_key :: "durable_turn \<Rightarrow> int \<times> string \<times> turn_status" where
  "turn_key t = (dt_turn_index t, dt_agent_id t, dt_status t)"

definition message_key :: "durable_message \<Rightarrow> int \<times> string \<times> string" where
  "message_key m = (dm_turn_index m, dm_sender m, dm_content m)"

text \<open>An aggregate of \<open>n\<close> completed turns, numbered from zero, with messages of these turns only.\<close>

definition tidy :: "string \<Rightarrow> nat \<Rightarrow> durable_interaction \<Rightarrow> bool" where
  "tidy ii n d \<longleftrightarrow>
     map dt_turn_index (di_turns d) = map int [0..<n] \<and>
     (\<forall>t \<in> set (di_turns d). dt_status t = Turn_COMPLETED) \<and>
     (\<forall>m \<in> set (di_messages d). 0 \<le> dm_turn_index m \<and> dm_turn_index m < int n \<and>
        dm_id m = durable_message_id ii (dm_turn_index m) (dm_sender m))"

text \<open>What a record keeps.\<close>

definition same_frame :: "durable_interaction \<Rightarrow> durable_interaction \<Rightarrow> bool" where
  "same_frame d d' \<longleftrightarrow> di_id d' = di_id d \<and> di_status d' = di_status d \<and> di_outcome d' = di_outcome d"

lemma same_frame_refl: "same_frame d d"
  by (simp add: same_frame_def)

lemma same_frame_trans: "same_frame a b \<Longrightarrow> same_frame b c \<Longrightarrow> same_frame a c"
  by (simp add: same_frame_def)

lemma bumped_fields [simp]:
  "di_turns (bumped now d) = di_turns d" "di_messages (bumped now d) = di_messages d"
  "di_id (bumped now d) = di_id d" "di_status (bumped now d) = di_status d"
  "di_outcome (bumped now d) = di_outcome d"
  by (simp_all add: bumped_def)

lemma turn_recorded_frame:
  assumes "turn_recorded ii j agent content d d'"
  shows "same_frame d d'"
  using assms
  by (auto simp: turn_recorded_def record_durable_turn_def record_durable_message_def same_frame_def Let_def
      split: option.splits if_splits)

lemma turn_recorded_fresh:
  assumes "turn_recorded ii (int n) agent content d d'" "tidy ii n d"
  shows "tidy ii (Suc n) d'"
    "map turn_key (di_turns d') = map turn_key (di_turns d) @ [(int n, agent, Turn_COMPLETED)]"
    "map message_key (di_messages d') = map message_key (di_messages d) @ [(int n, agent, content)]"
proof -
  have ix: "dt_turn_index ` set (di_turns d) = int ` {0..<n}"
    using assms(2) by (metis atLeastLessThan_upt list.set_map tidy_def)
  have none: "turn_by_index d (int n) = None"
  proof -
    have "\<And>t. t \<in> set (di_turns d) \<Longrightarrow> dt_turn_index t \<noteq> int n" using ix by force
    then show ?thesis by (auto simp: turn_by_index_def find_None_iff)
  qed
  have mnone: "List.find (\<lambda>m. dm_id m = durable_message_id ii (int n) agent) (di_messages d) = None"
    using assms(2) message_id_index by (fastforce simp: find_None_iff tidy_def)
  obtain s now d1 s1 s2 now2 s3 where r:
    "map_of (rs_durable_interactions s) ii = Some d"
    "record_durable_turn ii (int n) agent Turn_COMPLETED now s = Inr (d1, s1)"
    "map_of (rs_durable_interactions s2) ii = Some d1"
    "record_durable_message ii (int n) agent content Role_AGENT None now2 s2 = Inr (d', s3)"
    using assms(1) by (auto simp: turn_recorded_def)
  obtain t where mk: "make_durable_turn ii (int n) agent Turn_COMPLETED now (Some now) = Inr t"
      and d1: "d1 = bumped now (d\<lparr>di_turns := di_turns d @ [t]\<rparr>)"
    using r(1,2) none by (auto simp: record_durable_turn_def Let_def)
  have t: "turn_key t = (int n, agent, Turn_COMPLETED)" "di_turns d1 = di_turns d @ [t]"
      "di_messages d1 = di_messages d"
    using mk by (auto simp: d1 make_durable_turn_def turn_key_def)
  let ?m = "\<lparr>dm_id = durable_message_id ii (int n) agent, dm_interaction_id = ii, dm_turn_index = int n,
    dm_sender = agent, dm_role = Role_AGENT, dm_content = content, dm_in_reply_to = None, dm_created_at = now2\<rparr>"
  have "d' = bumped now2 (d1\<lparr>di_messages := di_messages d1 @ [?m]\<rparr>)"
    using r(3,4) mnone t(3) by (simp add: record_durable_message_def message_by_id_def Let_def)
  then have "message_key ?m = (int n, agent, content)" "dm_id ?m = durable_message_id ii (int n) agent"
      "di_messages d' = di_messages d @ [?m]" "di_turns d' = di_turns d1"
    using t(3) by (simp_all add: message_key_def)
  then obtain m where m: "message_key m = (int n, agent, content)" "dm_id m = durable_message_id ii (int n) agent"
      "di_messages d' = di_messages d @ [m]" "di_turns d' = di_turns d1"
    by blast
  show "tidy ii (Suc n) d'"
    using assms(2) t m by (auto simp: tidy_def turn_key_def message_key_def)
  show "map turn_key (di_turns d') = map turn_key (di_turns d) @ [(int n, agent, Turn_COMPLETED)]"
    "map message_key (di_messages d') = map message_key (di_messages d) @ [(int n, agent, content)]"
    using t m by simp_all
qed

lemma turns_recorded_fresh:
  assumes "turns_recorded ii n said d d'" "tidy ii n d"
  shows "tidy ii (n + length said) d' \<and> same_frame d d' \<and>
    map turn_key (di_turns d') = map turn_key (di_turns d) @
      map (\<lambda>(j, x). (int j, fst x, Turn_COMPLETED)) (zip [n..<n + length said] said) \<and>
    map message_key (di_messages d') = map message_key (di_messages d) @
      map (\<lambda>(j, x). (int j, x)) (zip [n..<n + length said] said)"
  using assms
proof (induction said arbitrary: n d)
  case Nil
  then show ?case by (simp add: same_frame_refl)
next
  case (Cons x said)
  obtain agent content where x: "x = (agent, content)" by force
  obtain d1 where d1: "turn_recorded ii (int n) agent content d d1" "turns_recorded ii (Suc n) said d1 d'"
    using Cons.prems(1) x by auto
  note f = turn_recorded_fresh [OF d1(1) Cons.prems(2)]
  note IH = Cons.IH [OF d1(2) f(1)]
  have z: "[n..<n + length (x # said)] = n # [Suc n..<Suc n + length said]"
    by (simp add: upt_rec)
  show ?case
    unfolding z using IH f(2,3) same_frame_trans [OF turn_recorded_frame [OF d1(1)]] x by simp
qed

text \<open>Turns that were completed before, with a message of their agent.\<close>

definition settled_turn :: "string \<Rightarrow> int \<Rightarrow> string \<Rightarrow> durable_interaction \<Rightarrow> bool" where
  "settled_turn ii j agent d \<longleftrightarrow>
     (\<exists>t. turn_by_index d j = Some t \<and> dt_status t = Turn_COMPLETED) \<and>
     message_by_id d (durable_message_id ii j agent) \<noteq> None"

lemma turn_recorded_settled:
  "turn_recorded ii j agent content d d' \<Longrightarrow> settled_turn ii j agent d \<Longrightarrow> d' = d"
  by (auto simp: turn_recorded_def settled_turn_def record_durable_turn_def record_durable_message_def Let_def)

lemma turns_recorded_settled:
  assumes "turns_recorded ii n said d d'"
    "\<And>j. j < length said \<Longrightarrow> settled_turn ii (int (n + j)) (fst (said ! j)) d"
  shows "d' = d"
  using assms
proof (induction said arbitrary: n)
  case (Cons x said)
  obtain agent content where x: "x = (agent, content)" by force
  obtain d1 where d1: "turn_recorded ii (int n) agent content d d1" "turns_recorded ii (Suc n) said d1 d'"
    using Cons.prems(1) x by auto
  have "d1 = d" using turn_recorded_settled [OF d1(1)] Cons.prems(2) [of 0] x by simp
  with d1(2) show ?case
    using Cons.IH [of "Suc n"] Cons.prems(2) [of "Suc j" for j] by simp
qed simp

end
