(* ===== verification/Team_Facts.thy ===== *)
theory Team_Facts
  imports Team_Executor Team_Aggregate Node_Effects
begin

text \<open>
  What holds of a team's run: it keeps the history of every session; its turns follow the
  schedule of the protocol, from the start or from where an earlier attempt stopped; and the
  durable aggregate of the node mirrors them.
\<close>

section \<open>History is kept\<close>

context tool_relation begin

lemma emit_actor_preserves: "preserves rel (emit_actor a kind actor detail)"
  unfolding emit_actor_def by (rule spec_true [OF spec_emit])

lemma log_record_preserves: "preserves rel (log_record env a team i kind actor ti c d)"
  unfolding log_record_def record_control_interaction_event_def
  by (intro spec_if spec_done spec_env_bind spec_then spec_fail record_interaction_event_preserves)

lemma team_marks_preserve:
  "preserves rel (team_invocation_started env a rq team)"
  "preserves rel (team_invocation_completed a rq team iv)"
  "preserves rel (log_interaction_started env a team i)"
  "preserves rel (log_interaction_completed env a team i iv)"
  "preserves rel (log_interaction_failed env a team i e)"
  unfolding team_invocation_started_def team_invocation_completed_def log_interaction_started_def
    log_interaction_completed_def log_interaction_failed_def
  by (rule emit_trace_preserves log_record_preserves)+

lemma start_turn_preserves: "preserves rel (start_turn env a team i s)"
  unfolding start_turn_def Let_def
  by (intro spec_then spec_if spec_done emit_actor_preserves log_record_preserves)

lemma resumable_interaction_preserves: "preserves rel (resumable_interaction env a)"
  unfolding resumable_interaction_def by (intro spec_if spec_done queries_preserve)

end

context service_relation begin

lemma durably_preserves: "preserves rel m \<Longrightarrow> preserves rel (durably env m)"
  unfolding durably_def by (intro spec_if spec_done spec_then)

lemma record_turn_preserves: "preserves rel (record_turn env a team i s r)"
  unfolding record_turn_def Let_def
  by (intro spec_then spec_if spec_done emit_actor_preserves log_record_preserves durably_preserves
      interaction_ops_preserve)

lemma team_loop_preserves: "preserves rel (team_loop fuel env a rq team st r results)"
  by (induction fuel arbitrary: r results)
     (auto intro!: spec_then spec_done spec_fail start_turn_preserves run_member_preserves
        record_turn_preserves split: option.split)

lemma record_outcome_preserves: "preserves rel (record_outcome env a team ii results)"
  unfolding record_outcome_def
  by (auto intro!: spec_done durably_preserves interaction_ops_preserve split: option.split sum.split)

lemma team_turns_preserves: "preserves rel (team_turns fuel env a rq team st r results)"
  unfolding team_turns_def
  by (intro spec_then team_loop_preserves spec_case_option spec_done record_outcome_preserves)

lemma team_failed_preserves: "preserves rel (team_failed env a team i e)"
  unfolding team_failed_def
  by (intro spec_then spec_fail team_marks_preserve durably_preserves interaction_ops_preserve)

lemma start_team_preserves: "preserves rel (start_team env a team r b)"
  unfolding start_team_def Let_def
  by (intro spec_then spec_if spec_done team_marks_preserve durably_preserves interaction_ops_preserve)

lemma finish_team_preserves: "preserves rel (finish_team env a rq team i iv)"
  unfolding finish_team_def
  by (intro spec_then team_marks_preserve durably_preserves interaction_ops_preserve)

lemma invoke_team_preserves: "preserves rel (invoke_team fuel env a rq st)"
  unfolding invoke_team_def
  by (intro spec_then spec_fail team_marks_preserve resumable_interaction_preserves spec_case_prod
      start_team_preserves preserves_try team_turns_preserves team_failed_preserves spec_case_option
      spec_done finish_team_preserves)

end

section \<open>The aggregate in the store\<close>

definition team_at :: "world \<Rightarrow> string \<Rightarrow> string \<Rightarrow> durable_interaction \<Rightarrow> bool" where
  "team_at w i ii d \<longleftrightarrow> (\<exists>s. stores w i s \<and> map_of (rs_durable_interactions s) ii = Some d)"

lemma team_at_frame:
  assumes "preserves same_teams m" "m w = (r, w')" "team_at w i ii d"
  shows "team_at w' i ii d"
proof -
  obtain s where s: "keyed (w_store w)" "memory_get (w_store w) i = Some s"
      "map_of (rs_durable_interactions s) ii = Some d"
    using assms(3) by (auto simp: team_at_def stores_def)
  from team_frame.preserves_run [OF assms(1) s(1) assms(2) s(2)] obtain t where
    "keyed (w_store w')" "memory_get (w_store w') i = Some t" "later same_teams s t"
    by blast
  with s(3) show ?thesis by (auto simp: team_at_def stores_def later_def same_teams_def)
qed

text \<open>What an operation on an aggregate does to the store.\<close>

lemma interaction_op_at:
  assumes "interaction_op i f w = (Inr d', w')" "stores w i s"
    "\<And>e s'. f e s = Inr (d', s') \<Longrightarrow> rs_id s' = rs_id s \<and> map_of (rs_durable_interactions s') ii = Some d'"
  shows "team_at w' i ii d' \<and> (\<exists>e s'. f e s = Inr (d', s'))"
proof -
  let ?e = "w_env w (w_ops w)" and ?w1 = "w\<lparr>w_ops := Suc (w_ops w)\<rparr>"
  obtain s1 s2 where f: "f ?e s = Inr (d', s1)" and p: "put_session s1 ?w1 = (Inr s2, w')"
    using assms(1,2)
    by (auto simp: interaction_op_def svc_bind_Inr get_stores_eq svc_lift_Inr simp del: svc_lift_eq)
  have k: "keyed (w_store ?w1)" using assms(2) by (simp add: stores_def)
  have "rs_id s1 = i" "map_of (rs_durable_interactions s1) ii = Some d'"
    using assms(3) [OF f] stores_id [OF assms(2)] by simp_all
  with put_stores(2) [OF p k] f show ?thesis by (auto simp: team_at_def)
qed

lemma start_at:
  assumes "start_interaction i ii nk ex tm pm tp ms ws w = (Inr d', w')" "stores w i s"
  shows "team_at w' i ii d' \<and> (map_of (rs_durable_interactions s) ii = Some d' \<or>
     map_of (rs_durable_interactions s) ii = None \<and> di_id d' = ii \<and> di_status d' = Interaction_RUNNING \<and>
     di_turns d' = [] \<and> di_messages d' = [] \<and> di_outcome d' = None)"
proof -
  have a: "rs_id s' = rs_id s \<and> map_of (rs_durable_interactions s') ii = Some d'"
    if "Inr (start_durable_interaction ii nk ex tm pm tp ms ws (ev_now e 0) s) = (Inr (d', s') :: exn + _)"
    for e :: op_env and s'
    using that by (auto simp: start_durable_interaction_def Let_def split: option.splits)
  let ?f = "\<lambda>e :: op_env. \<lambda>s. Inr (start_durable_interaction ii nk ex tm pm tp ms ws (ev_now e 0) s)"
  have op: "interaction_op i ?f w = (Inr d', w')" using assms(1) by (simp only: start_interaction_def)
  have "team_at w' i ii d' \<and> (\<exists>e s'. ?f e s = (Inr (d', s') :: exn + _))"
    using interaction_op_at [of i ?f w d' w' s ii, OF op assms(2)] a by blast
  then obtain e :: op_env and s' where
    t: "team_at w' i ii d'" and
    st: "start_durable_interaction ii nk ex tm pm tp ms ws (ev_now e 0) s = (d', s')"
    by auto
  have "map_of (rs_durable_interactions s) ii = Some d' \<or>
     map_of (rs_durable_interactions s) ii = None \<and> di_id d' = ii \<and> di_status d' = Interaction_RUNNING \<and>
     di_turns d' = [] \<and> di_messages d' = [] \<and> di_outcome d' = None"
    using st by (auto simp: start_durable_interaction_def Let_def split: option.splits)
  with t show ?thesis by blast
qed

lemma record_turn_at:
  assumes "record_interaction_turn i ii j ag Turn_COMPLETED w = (Inr d1, w1)" "team_at w i ii d"
    "record_interaction_message i ii j ag c Role_AGENT None w1 = (Inr d', w2)"
  shows "team_at w2 i ii d' \<and> turn_recorded ii j ag c d d'"
proof -
  obtain s where s: "stores w i s" "map_of (rs_durable_interactions s) ii = Some d"
    using assms(2) by (auto simp: team_at_def)
  have "rs_id s' = rs_id s \<and> map_of (rs_durable_interactions s') ii = Some d1"
    if "record_durable_turn ii j ag Turn_COMPLETED now s = Inr (d1, s')" for now s'
    using that s(2) evolves_record_durable_turn [OF that]
    by (auto simp: evolves_def record_durable_turn_def Let_def split: option.splits if_splits)
  with interaction_op_at [OF assms(1) [unfolded record_interaction_turn_def] s(1)]
  obtain now s1 where 1: "team_at w1 i ii d1" "record_durable_turn ii j ag Turn_COMPLETED now s = Inr (d1, s1)"
    by blast
  obtain s2 where s2: "stores w1 i s2" "map_of (rs_durable_interactions s2) ii = Some d1"
    using 1(1) by (auto simp: team_at_def)
  have "rs_id s' = rs_id s2 \<and> map_of (rs_durable_interactions s') ii = Some d'"
    if "record_durable_message ii j ag c Role_AGENT None now s2 = Inr (d', s')" for now s'
    using that s2(2) evolves_record_durable_message [OF that]
    by (auto simp: evolves_def record_durable_message_def Let_def split: if_splits)
  with interaction_op_at [OF assms(3) [unfolded record_interaction_message_def] s2(1)]
  have "team_at w2 i ii d' \<and>
      (\<exists>now s3. record_durable_message ii j ag c Role_AGENT None now s2 = Inr (d', s3))"
    by blast
  with s(2) 1(2) s2(2) show ?thesis unfolding turn_recorded_def by blast
qed

lemma durably_Inr:
  assumes "durably env m w = (Inr u, w')" "te_durable env"
  shows "\<exists>d. m w = (Inr d, w')"
  using assms by (auto simp: durably_def svc_bind_Inr)

text \<open>A recorded turn: what came before it and after it in the turn leaves the aggregate.\<close>

lemma turn_at:
  assumes "record_turn env a team it s r w = (Inr u, w')" "te_durable env" "team_at w (ac_session_id a) (it_id it) d"
  shows "\<exists>d'. team_at w' (ac_session_id a) (it_id it) d' \<and>
    turn_recorded (it_id it) (tn_index (sc_turn s)) (as_id (sc_member s)) (team_member_content r) d d'"
proof -
  let ?i = "ac_session_id a" and ?ii = "it_id it"
  let ?pre1 = "emit_actor a AGENT_TURN_COMPLETED (as_id (sc_member s)) (sc_detail s @ turn_outcome_detail r)"
  obtain w1 w2 w3 w4 w5 w6 where
    m: "?pre1 w = (Inr (), w1)"
      "log_record env a team it Log_TURN_COMPLETED (Some (as_id (sc_member s))) (Some (tn_index (sc_turn s)))
         None (sc_detail s @ turn_outcome_detail r) w1 = (Inr (), w2)"
      "emit_actor a AGENT_MESSAGE_SENT (as_id (sc_member s))
         (sc_detail s @ content_detail (team_member_content r)) w2 = (Inr (), w3)"
      "log_record env a team it Log_MESSAGE_SENT (Some (as_id (sc_member s))) (Some (tn_index (sc_turn s)))
         (Some (team_member_content r)) (sc_detail s) w3 = (Inr (), w4)"
    and rec: "durably env (record_interaction_turn ?i ?ii (tn_index (sc_turn s)) (as_id (sc_member s))
         Turn_COMPLETED) w4 = (Inr (), w5)"
      "durably env (record_interaction_message ?i ?ii (tn_index (sc_turn s)) (as_id (sc_member s))
         (team_member_content r) Role_AGENT None) w5 = (Inr (), w6)"
    and post: "(if cp_mode (ts_protocol team) = Mode_VOTE
      then svc_bind (emit_actor a AGENT_VOTE (as_id (sc_member s))
          (sc_detail s @ vote_detail (team_member_content r))) (\<lambda>_.
           log_record env a team it Log_VOTE_CAST (Some (as_id (sc_member s))) (Some (tn_index (sc_turn s)))
             (Some (team_member_content r)) (sc_detail s))
      else svc_return ()) w6 = (Inr u, w')"
    using assms(1) unfolding record_turn_def Let_def svc_bind_Inr by auto
  note ep = team_frame.emit_actor_preserves and lp = team_frame.log_record_preserves
  have 4: "team_at w4 ?i ?ii d"
    using team_at_frame [OF lp m(4) team_at_frame [OF ep m(3) team_at_frame [OF lp m(2)
      team_at_frame [OF ep m(1) assms(3)]]]] .
  obtain d1 d2 where "record_interaction_turn ?i ?ii (tn_index (sc_turn s)) (as_id (sc_member s))
        Turn_COMPLETED w4 = (Inr d1, w5)"
      "record_interaction_message ?i ?ii (tn_index (sc_turn s)) (as_id (sc_member s))
        (team_member_content r) Role_AGENT None w5 = (Inr d2, w6)"
    using durably_Inr [OF rec(1) assms(2)] durably_Inr [OF rec(2) assms(2)] by blast
  from record_turn_at [OF this(1) 4 this(2)]
  have r: "team_at w6 ?i ?ii d2 \<and> turn_recorded ?ii (tn_index (sc_turn s)) (as_id (sc_member s))
      (team_member_content r) d d2" .
  have "team_at w' ?i ?ii d2"
    by (rule team_at_frame [OF team_frame.spec_if post])
       (use r in \<open>auto intro!: team_frame.spec_then team_frame.spec_done ep lp\<close>)
  with r show ?thesis by blast
qed

section \<open>Turns follow the schedule\<close>

context scheduling_strategy begin

lemma step_from_prefix:
  assumes "sound_interaction i" "admits (it_protocol i)"
    "acted_agent_ids i = take k (schedule (it_protocol i) (it_member_ids i))"
    "k < length (schedule (it_protocol i) (it_member_ids i))"
  shows "\<exists>t. next_turn i = Inr (Some t) \<and> tn_index t = int k \<and>
    tn_agent_id t = schedule (it_protocol i) (it_member_ids i) ! k \<and> tn_agent_id t \<in> set (it_member_ids i) \<and>
    (\<forall>content. \<exists>m c. record_member_message i t content =
        Inr (i\<lparr>it_messages := it_messages i @ [m], it_turns := it_turns i @ [c]\<rparr>) \<and>
        tn_agent_id c = tn_agent_id t)"
proof -
  let ?a = "schedule (it_protocol i) (it_member_ids i) ! k"
  have a: "?a \<in> set (it_member_ids i)"
    using assms(4) schedule_members [OF assms(1,2)] nth_mem by blast
  with assms(1) have c: "clean_id ?a" "clean_id (it_id i)" by (auto simp: sound_interaction_def)
  have "length (acted_agent_ids i) = k" using assms(3,4) by simp
  then have k: "length (it_turns i) = k" by (simp add: acted_agent_ids_def)
  let ?t = "\<lparr>tn_index = int k, tn_agent_id = ?a, tn_status = Turn_PENDING, tn_message_ids = [],
    tn_metadata = []\<rparr>"
  have "next_turn i = Inr (Some ?t)"
    using next_follows [OF assms] by (simp add: pending_turn_clean [OF c(1)] k)
  moreover have "\<exists>m c. record_member_message i ?t content =
      Inr (i\<lparr>it_messages := it_messages i @ [m], it_turns := it_turns i @ [c]\<rparr>) \<and> tn_agent_id c = ?a" for content
    using record_member_message_clean [of i ?t content] c by auto
  ultimately show ?thesis using a by (intro exI [of _ ?t]) simp
qed

end

text \<open>A runtime that has completed the first \<open>k\<close> turns of the schedule.\<close>

definition runtime_at :: "native_runtime \<Rightarrow> string list \<Rightarrow> nat \<Rightarrow> bool" where
  "runtime_at r sched k \<longleftrightarrow>
     (let i = nr_interaction r in
      sound_interaction i \<and> strategy_admits (nr_strategy r) (it_protocol i) \<and>
      strategy_schedule (nr_strategy r) (it_protocol i) (it_member_ids i) = sched \<and>
      it_member_ids i = map fst (members_by_id (nr_team r)) \<and>
      acted_agent_ids i = take k sched \<and> k \<le> length sched)"

lemma members_by_id_id: "map_of (members_by_id team) a = Some m \<Longrightarrow> as_id m = a"
proof -
  have "(\<forall>x \<in> set d. as_id (snd x) = fst x) \<Longrightarrow>
      \<forall>x \<in> set (fold (\<lambda>m d. AList.update (as_id m) m d) ms d). as_id (snd x) = fst x" for ms d
  proof (induction ms arbitrary: d)
    case (Cons m ms)
    have "\<forall>x \<in> set (AList.update (as_id m) m d). as_id (snd x) = fst x"
      using Cons.prems by (induction d) auto
    from Cons.IH [OF this] show ?case by simp
  qed simp
  from this [of "[]"] show "map_of (members_by_id team) a = Some m \<Longrightarrow> as_id m = a"
    unfolding members_by_id_def by (fastforce dest: map_of_SomeD)
qed

lemma runtime_step:
  assumes "runtime_at r sched k" "k < length sched"
  shows "\<exists>s. runtime_next_turn r = Inr (Some s) \<and> as_id (sc_member s) = sched ! k \<and>
    tn_index (sc_turn s) = int k \<and>
    (\<forall>content. \<exists>r'. runtime_record r s content = Inr r' \<and> runtime_at r' sched (Suc k) \<and>
       it_id (nr_interaction r') = it_id (nr_interaction r) \<and> nr_team r' = nr_team r)"
proof -
  let ?i = "nr_interaction r"
  have a: "sound_interaction ?i" "strategy_admits (nr_strategy r) (it_protocol ?i)"
    and sched: "strategy_schedule (nr_strategy r) (it_protocol ?i) (it_member_ids ?i) = sched"
    and mem: "it_member_ids ?i = map fst (members_by_id (nr_team r))"
    and acted: "acted_agent_ids ?i = take k sched"
    using assms(1) by (auto simp: runtime_at_def Let_def)
  from strategies.step_from_prefix [OF a, of k] acted sched assms(2) obtain t where
    t: "strategy_next_turn (nr_strategy r) ?i = Inr (Some t)" "tn_index t = int k" "tn_agent_id t = sched ! k"
      "tn_agent_id t \<in> set (it_member_ids ?i)"
    and rec: "\<And>content. \<exists>m c. record_member_message ?i t content =
        Inr (?i\<lparr>it_messages := it_messages ?i @ [m], it_turns := it_turns ?i @ [c]\<rparr>) \<and>
        tn_agent_id c = tn_agent_id t"
    by auto
  obtain member where member: "map_of (members_by_id (nr_team r)) (tn_agent_id t) = Some member"
    using t(4) unfolding mem by (metis map_of_eq_None_iff not_None_eq set_map)
  then have id: "as_id member = tn_agent_id t" by (rule members_by_id_id)
  obtain s where s: "runtime_next_turn r = Inr (Some s)" "sc_member s = member" "sc_turn s = t"
    using t(1) member by (simp add: runtime_next_turn_def Let_def)
  have "\<exists>r'. runtime_record r s content = Inr r' \<and> runtime_at r' sched (Suc k) \<and>
       it_id (nr_interaction r') = it_id ?i \<and> nr_team r' = nr_team r" for content
  proof -
    have same: "(sc_turn s)\<lparr>tn_agent_id := as_id (sc_member s)\<rparr> = t" using s id by simp
    obtain m c where mc: "record_member_message ?i t content =
        Inr (?i\<lparr>it_messages := it_messages ?i @ [m], it_turns := it_turns ?i @ [c]\<rparr>)"
        "tn_agent_id c = tn_agent_id t"
      using rec by blast
    have "take (Suc k) sched = take k sched @ [sched ! k]" using assms(2) by (rule take_Suc_conv_app_nth)
    with a sched mem acted mc(2) t(3) assms(2)
    have "runtime_at (r\<lparr>nr_interaction := ?i\<lparr>it_messages := it_messages ?i @ [m],
        it_turns := it_turns ?i @ [c]\<rparr>\<rparr>) sched (Suc k)"
      by (simp add: runtime_at_def Let_def acted_agent_ids_def sound_interaction_def)
    with mc(1) show ?thesis by (simp add: runtime_record_def same)
  qed
  with s t id show ?thesis by auto
qed

lemma runtime_done: "runtime_at r sched (length sched) \<Longrightarrow> runtime_next_turn r = Inr None"
  using strategies.next_done [of "nr_interaction r" "nr_strategy r"]
  by (auto simp: runtime_at_def Let_def runtime_next_turn_def)

definition said_of :: "member_result \<Rightarrow> string \<times> string" where
  "said_of m = (mr_agent_id m, team_member_content m)"

lemma team_loop_run:
  assumes "team_loop fuel env a rq team st r results w = (Inr res, w')" "runtime_at r sched k"
    "te_durable env" "team_at w (ac_session_id a) (it_id (nr_interaction r)) d"
    "length sched - k < fuel"
  shows "\<exists>new d'. res = Some (results @ new) \<and> map mr_agent_id new = drop k sched \<and>
    (\<forall>m \<in> set new. \<not> mr_resumed m) \<and> team_at w' (ac_session_id a) (it_id (nr_interaction r)) d' \<and>
    turns_recorded (it_id (nr_interaction r)) k (map said_of new) d d'"
  using assms
proof (induction fuel arbitrary: r results w k d)
  case (Suc fuel)
  let ?i = "ac_session_id a" and ?ii = "it_id (nr_interaction r)"
  show ?case
  proof (cases "k < length sched")
    case False
    then have k: "k = length sched" using Suc.prems(2) by (simp add: runtime_at_def Let_def)
    with Suc.prems(2) have "runtime_next_turn r = Inr None" by (simp add: runtime_done)
    with Suc.prems(1) have "res = Some results" "w' = w" by (auto simp: svc_bind_def svc_lift_def)
    with Suc.prems(4) k show ?thesis by (intro exI [of _ "[]"] exI [of _ d]) simp
  next
    case True
    from runtime_step [OF Suc.prems(2) True] obtain s where
      s: "runtime_next_turn r = Inr (Some s)" "as_id (sc_member s) = sched ! k" "tn_index (sc_turn s) = int k"
      and rec: "\<And>content. \<exists>r'. runtime_record r s content = Inr r' \<and> runtime_at r' sched (Suc k) \<and>
         it_id (nr_interaction r') = ?ii \<and> nr_team r' = nr_team r"
      by blast
    obtain w1 m w2 w3 r1 where
      st: "start_turn env a team (nr_interaction r) s w = (Inr (), w1)" and
      m: "run_member (te_subagents env) (te_runtime env) a rq team (sc_member s) (sc_seed_messages s) st w1
          = (Inr m, w2)" and
      t: "record_turn env a team (nr_interaction r) s m w2 = (Inr (), w3)" and
      r1: "runtime_record r s (team_member_content m) = Inr r1" and
      rest: "team_loop fuel env a rq team st r1 (results @ [m]) w3 = (Inr res, w')"
      using Suc.prems(1) s(1) by (auto simp: svc_bind_Inr svc_lift_Inr simp del: svc_lift_eq)
    have "team_at w2 ?i ?ii d"
      using team_at_frame [OF team_frame.run_member_preserves m
        team_at_frame [OF team_frame.start_turn_preserves st Suc.prems(4)]] .
    from turn_at [OF t Suc.prems(3) this] obtain d1 where
      d1: "team_at w3 ?i ?ii d1" "turn_recorded ?ii (int k) (sched ! k) (team_member_content m) d d1"
      using s by auto
    have at1: "runtime_at r1 sched (Suc k)" "it_id (nr_interaction r1) = ?ii"
      using rec [of "team_member_content m"] r1 by auto
    have "length sched - Suc k < fuel" using Suc.prems(5) True by linarith
    from Suc.IH [OF rest at1(1) Suc.prems(3) _ this, of d1] d1(1) at1(2) obtain new d' where
      n: "res = Some ((results @ [m]) @ new)" "map mr_agent_id new = drop (Suc k) sched"
        "\<forall>m \<in> set new. \<not> mr_resumed m" "team_at w' ?i ?ii d'"
        "turns_recorded ?ii (Suc k) (map said_of new) d1 d'"
      by auto
    have mm: "mr_agent_id m = sched ! k" "\<not> mr_resumed m"
      using run_member_result [OF m] s(2) by simp_all
    have "said_of m = (sched ! k, team_member_content m)" by (simp add: said_of_def mm(1))
    moreover have "drop k sched = sched ! k # drop (Suc k) sched" using True by (simp add: Cons_nth_drop_Suc)
    ultimately show ?thesis using n mm d1(2)
      by (intro exI [of _ "m # new"] exI [of _ d']) auto
  qed
qed simp

section \<open>The frame of a run\<close>

definition same_body :: "durable_interaction \<Rightarrow> durable_interaction \<Rightarrow> bool" where
  "same_body d d' \<longleftrightarrow> same_frame d d' \<and> di_turns d' = di_turns d \<and> di_messages d' = di_messages d"

lemma resumed_at:
  assumes "mark_interaction_resumed i ii n w = (Inr d', w')" "team_at w i ii d"
  shows "team_at w' i ii d' \<and> same_body d d'"
proof -
  obtain s where s: "stores w i s" "map_of (rs_durable_interactions s) ii = Some d"
    using assms(2) by (auto simp: team_at_def)
  have m: "rs_id s' = rs_id s \<and> map_of (rs_durable_interactions s') ii = Some d' \<and> same_body d d'"
    if "mark_durable_interaction_resumed ii n now s = Inr (d', s')" for now s'
    using that s(2)
    by (auto simp: mark_durable_interaction_resumed_def same_body_def same_frame_def Let_def split: if_splits)
  from interaction_op_at [OF assms(1) [unfolded mark_interaction_resumed_def] s(1), of ii] m
  show ?thesis by blast
qed

lemma completed_at:
  assumes "complete_interaction i ii Interaction_COMPLETED None w = (Inr d', w')" "team_at w i ii d"
  shows "team_at w' i ii d' \<and> di_status d' = Interaction_COMPLETED \<and> di_turns d' = di_turns d \<and>
    di_messages d' = di_messages d \<and> di_outcome d' = di_outcome d"
proof -
  obtain s where s: "stores w i s" "map_of (rs_durable_interactions s) ii = Some d"
    using assms(2) by (auto simp: team_at_def)
  have m: "rs_id s' = rs_id s \<and> map_of (rs_durable_interactions s') ii = Some d' \<and>
      di_status d' = Interaction_COMPLETED \<and> di_turns d' = di_turns d \<and>
      di_messages d' = di_messages d \<and> di_outcome d' = di_outcome d"
    if "complete_durable_interaction ii Interaction_COMPLETED None now s = Inr (d', s')" for now s'
    using that s(2) by (auto simp: complete_durable_interaction_def Let_def split: if_splits)
  from interaction_op_at [OF assms(1) [unfolded complete_interaction_def] s(1), of ii] m
  show ?thesis by blast
qed

text \<open>The outcome that is kept: the first one, which is the one of the results.\<close>

definition outcome_kept ::
    "team_spec \<Rightarrow> member_result list \<Rightarrow> durable_protocol_outcome option \<Rightarrow>
     durable_protocol_outcome option \<Rightarrow> bool" where
  "outcome_kept team results before after \<longleftrightarrow>
     (if before \<noteq> None then after = before
      else case team_typed_outcome team results of
        None \<Rightarrow> after = None
      | Some (Inl v) \<Rightarrow> (\<exists>p. after = Some p \<and> dp_vote p = Some v \<and> dp_coordinator p = None)
      | Some (Inr c) \<Rightarrow> (\<exists>p. after = Some p \<and> dp_coordinator p = Some c \<and> dp_vote p = None))"

lemma outcome_op_at:
  assumes "record_interaction_outcome i ii v c w = (Inr d', w')" "team_at w i ii d" "v \<noteq> None \<or> c \<noteq> None"
  shows "team_at w' i ii d' \<and> di_status d' = di_status d \<and> di_turns d' = di_turns d \<and>
    di_messages d' = di_messages d \<and>
    (if di_outcome d \<noteq> None then di_outcome d' = di_outcome d
     else \<exists>p. di_outcome d' = Some p \<and> dp_vote p = v \<and> dp_coordinator p = c)"
proof -
  obtain s where s: "stores w i s" "map_of (rs_durable_interactions s) ii = Some d"
    using assms(2) by (auto simp: team_at_def)
  have m: "rs_id s' = rs_id s \<and> map_of (rs_durable_interactions s') ii = Some d' \<and>
      di_status d' = di_status d \<and> di_turns d' = di_turns d \<and> di_messages d' = di_messages d \<and>
      (if di_outcome d \<noteq> None then di_outcome d' = di_outcome d
       else \<exists>p. di_outcome d' = Some p \<and> dp_vote p = v \<and> dp_coordinator p = c)"
    if "record_durable_outcome ii v c now s = Inr (d', s')" for now s'
    using that s(2) assms(3) by (auto simp: record_durable_outcome_def Let_def split: if_splits)
  from interaction_op_at [OF assms(1) [unfolded record_interaction_outcome_def] s(1), of ii] m
  show ?thesis by blast
qed

lemma outcome_at:
  assumes "record_outcome env a team ii results w = (Inr u, w')" "te_durable env"
    "team_at w (ac_session_id a) ii d"
  shows "\<exists>d'. team_at w' (ac_session_id a) ii d' \<and> di_status d' = di_status d \<and> di_turns d' = di_turns d \<and>
    di_messages d' = di_messages d \<and> outcome_kept team results (di_outcome d) (di_outcome d')"
proof (cases "team_typed_outcome team results")
  case None
  with assms(1,3) show ?thesis
    by (intro exI [of _ d]) (simp add: record_outcome_def outcome_kept_def)
next
  case (Some o1)
  show ?thesis
  proof (cases o1)
    case (Inl v)
    with assms(1) Some have
      "durably env (record_interaction_outcome (ac_session_id a) ii (Some v) None) w = (Inr u, w')"
      by (simp add: record_outcome_def)
    from durably_Inr [OF this assms(2)] obtain d' where
      "record_interaction_outcome (ac_session_id a) ii (Some v) None w = (Inr d', w')"
      by blast
    from outcome_op_at [OF this assms(3)] Some Inl show ?thesis
      by (intro exI [of _ d']) (simp add: outcome_kept_def)
  next
    case (Inr c)
    with assms(1) Some have
      "durably env (record_interaction_outcome (ac_session_id a) ii None (Some c)) w = (Inr u, w')"
      by (simp add: record_outcome_def)
    from durably_Inr [OF this assms(2)] obtain d' where
      "record_interaction_outcome (ac_session_id a) ii None (Some c) w = (Inr d', w')"
      by blast
    from outcome_op_at [OF this assms(3)] Some Inr show ?thesis
      by (intro exI [of _ d']) (auto simp: outcome_kept_def)
  qed
qed

text \<open>The state of the aggregate when the turns begin.\<close>

definition begins_as :: "string \<Rightarrow> durable_interaction option \<Rightarrow> durable_interaction \<Rightarrow> bool" where
  "begins_as ii stored d \<longleftrightarrow>
     (case stored of
        None \<Rightarrow> di_turns d = [] \<and> di_messages d = [] \<and> di_outcome d = None
      | Some d0 \<Rightarrow> same_body d0 d)"

lemma start_team_at:
  assumes "start_team env a team r b w = (Inr u, w')" "te_durable env" "stores w (ac_session_id a) s"
    "map_of (rs_durable_interactions s) (it_id (nr_interaction r)) = stored"
  shows "\<exists>d. team_at w' (ac_session_id a) (it_id (nr_interaction r)) d \<and>
    begins_as (it_id (nr_interaction r)) stored d"
proof -
  let ?i = "ac_session_id a" and ?ii = "it_id (nr_interaction r)"
  obtain w1 w2 where
    l: "log_interaction_started env a team (nr_interaction r) w = (Inr (), w1)" and
    st: "durably env (start_interaction ?i ?ii (ac_node_key a) (ac_execution_id a) (ts_id team)
        (mode_value (cp_mode (ts_protocol team))) (topology_value (cp_topology (ts_protocol team)))
        (map as_id (ts_members team)) (it_workspace_id (nr_interaction r))) w1 = (Inr (), w2)" and
    rs: "(if b then durably env (mark_interaction_resumed ?i ?ii (int (completed_turn_count r)))
        else svc_return ()) w2 = (Inr u, w')"
    using assms(1) unfolding start_team_def Let_def svc_bind_Inr by auto
  obtain s1 where s1: "stores w1 ?i s1" "rs_durable_interactions s1 = rs_durable_interactions s"
  proof -
    from team_frame.preserves_run [OF team_frame.team_marks_preserve(3) _ l] assms(3) obtain t where
      "keyed (w_store w1)" "memory_get (w_store w1) ?i = Some t" "later same_teams s t"
      unfolding stores_def by blast
    then have "stores w1 ?i t" "rs_durable_interactions t = rs_durable_interactions s"
      by (simp_all add: stores_def later_def same_teams_def)
    then show thesis by (rule that)
  qed
  obtain d1 where d1: "start_interaction ?i ?ii (ac_node_key a) (ac_execution_id a) (ts_id team)
        (mode_value (cp_mode (ts_protocol team))) (topology_value (cp_topology (ts_protocol team)))
        (map as_id (ts_members team)) (it_workspace_id (nr_interaction r)) w1 = (Inr d1, w2)"
    using durably_Inr [OF st assms(2)] by blast
  from start_at [OF d1 s1(1)] s1(2) assms(4)
  have b1: "team_at w2 ?i ?ii d1" "begins_as ?ii stored d1"
    by (auto simp: begins_as_def same_body_def same_frame_refl)
  show ?thesis
  proof (cases b)
    case False
    with rs b1 show ?thesis by auto
  next
    case True
    then have "durably env (mark_interaction_resumed ?i ?ii (int (completed_turn_count r))) w2 = (Inr u, w')"
      using rs by simp
    from durably_Inr [OF this assms(2)] obtain d2 where
      "mark_interaction_resumed ?i ?ii (int (completed_turn_count r)) w2 = (Inr d2, w')"
      by blast
    from resumed_at [OF this b1(1)] b1(2) show ?thesis
      by (intro exI [of _ d2])
         (auto simp: begins_as_def same_body_def same_frame_def split: option.splits)
  qed
qed

lemma team_failed_raises: "team_failed env a team i e w \<noteq> (Inr x, w')"
  by (auto simp: team_failed_def svc_bind_def svc_lift_def split: prod.splits sum.splits)

end
