(* ===== verification/Team_Run.thy ===== *)
theory Team_Run
  imports Team_Facts
begin

text \<open>
  A whole run of a team, from what is stored for its node to what it leaves there: a first run, a
  run that continues an interrupted one, and a run of a team whose aggregate is closed.
\<close>

section \<open>Where a run begins\<close>

text \<open>The order in which the members of a team act.\<close>

definition team_schedule :: "team_spec \<Rightarrow> string list" where
  "team_schedule team =
     (case select_strategy (ts_protocol team) of
        Inl _ \<Rightarrow> []
      | Inr st \<Rightarrow> strategy_schedule st (ts_protocol team) (map fst (members_by_id team)))"

text \<open>What the validators of \<^verbatim>\<open>AgentSpec\<close> and \<^verbatim>\<open>CollaborationProtocol\<close> have checked.\<close>

definition valid_team :: "team_spec \<Rightarrow> bool" where
  "valid_team team \<longleftrightarrow> (\<forall>m \<in> set (ts_members team). clean_id (as_id m)) \<and>
     validate_protocol_consistency (ts_protocol team) = Inr (ts_protocol team)"

lemma members_by_id_keys: "fst ` set (members_by_id team) \<subseteq> as_id ` set (ts_members team)"
proof -
  have "fst ` set (fold (\<lambda>m d. AList.update (as_id m) m d) ms d) \<subseteq> fst ` set d \<union> as_id ` set ms" for ms d
  proof (induction ms arbitrary: d)
    case (Cons m ms)
    have "fst ` set (AList.update (as_id m) m d) = insert (as_id m) (fst ` set d)"
      by (simp add: dom_map_of_conv_image_fst [symmetric] update_conv')
    with Cons.IH [of "AList.update (as_id m) m d"] show ?case by auto
  qed simp
  from this [of "ts_members team" "[]"] show ?thesis by (simp add: members_by_id_def)
qed

lemma make_runtime_at:
  assumes "make_runtime team ii ts ms = Inr r" "valid_team team" "clean_id ii"
    "map tn_agent_id ts = take k (team_schedule team)" "k \<le> length (team_schedule team)"
  shows "runtime_at r (team_schedule team) k \<and> it_id (nr_interaction r) = ii \<and> nr_team r = team"
proof -
  let ?mem = "map fst (members_by_id team)"
  let ?i0 = "\<lparr>it_id = ii, it_team_id = ts_id team, it_member_ids = ?mem, it_protocol = ts_protocol team,
    it_messages = ms, it_turns = ts, it_status = Interaction_RUNNING, it_workspace_id = workspace_id team,
    it_metadata = []\<rparr>"
  obtain st i where st: "select_strategy (ts_protocol team) = Inr st" and i: "make_interaction ?i0 = Inr i"
    and r: "r = \<lparr>nr_team = team, nr_strategy = st, nr_interaction = i\<rparr>"
    using assms(1) by (auto simp: make_runtime_def)
  obtain tid where v: "validate_consistency (?i0\<lparr>it_team_id := tid\<rparr>) = Inr i"
    using i assms(3) by (auto simp: make_interaction_def)
  then have eq: "i = ?i0\<lparr>it_team_id := tid\<rparr>" and ok: "?mem \<noteq> []" "distinct ?mem"
      "\<forall>c. cp_coordinator_id (ts_protocol team) = Some c \<longrightarrow> c \<in> set ?mem"
    by (auto simp: validate_consistency_def Let_def split: if_splits)
  have "\<forall>m \<in> set ?mem. clean_id m"
    using members_by_id_keys [of team] assms(2) by (auto simp: valid_team_def)
  with ok assms(2,3) have "sound_interaction i"
    by (simp add: eq sound_interaction_def valid_team_def)
  with st assms(4,5) selected_admits [OF st] show ?thesis
    by (simp add: r eq runtime_at_def Let_def team_schedule_def acted_agent_ids_def)
qed

lemma seed_turn_agents:
  assumes "fold_err (seed_turn team d) ts acc = Inr acc'" "valid_team team"
  shows "map tn_agent_id (fst acc') = map tn_agent_id (fst acc) @ map dt_agent_id ts"
  using assms(1)
proof (induction ts arbitrary: acc)
  case (Cons t ts)
  then obtain acc1 where a: "seed_turn team d t acc = Inr acc1" "fold_err (seed_turn team d) ts acc1 = Inr acc'"
    by auto
  have "clean_id (dt_agent_id t)"
    using a(1) members_by_id_keys [of team] assms(2) by (auto simp: seed_turn_def valid_team_def)
  with a(1) have "map tn_agent_id (fst acc1) = map tn_agent_id (fst acc) @ [dt_agent_id t]"
    by (auto simp: seed_turn_def make_turn_def split: if_splits)
  with Cons.IH [OF a(2)] show ?case by simp
qed simp

lemma completed_turns_tidy:
  assumes "tidy ii k d"
  shows "completed_turns d = di_turns d"
proof -
  have "filter (\<lambda>t. dt_status t = Turn_COMPLETED) (di_turns d) = di_turns d"
    using assms by (auto simp: tidy_def filter_id_conv)
  moreover have "sorted (map dt_turn_index (di_turns d))"
    using assms by (simp add: tidy_def sorted_wrt_map sorted_iff_nth_mono)
  ultimately show ?thesis by (simp add: completed_turns_def sorted_sort_id sort_key_id_if_sorted)
qed

lemma seed_at:
  assumes "seed_from_durable team d = Inr r" "valid_team team" "clean_id (di_id d)" "tidy ii k d"
    "map dt_agent_id (di_turns d) = take k (team_schedule team)" "k \<le> length (team_schedule team)"
  shows "runtime_at r (team_schedule team) k \<and> it_id (nr_interaction r) = di_id d \<and> nr_team r = team"
proof -
  obtain ts ms where f: "fold_err (seed_turn team d) (di_turns d) ([], []) = Inr (ts, ms)"
    and m: "make_runtime team (di_id d) ts ms = Inr r"
    using assms(1) completed_turns_tidy [OF assms(4)] by (auto simp: seed_from_durable_def)
  have "map tn_agent_id ts = take k (team_schedule team)"
    using seed_turn_agents [OF f assms(2)] assms(5) by simp
  from make_runtime_at [OF m assms(2,3) this assms(6)] show ?thesis .
qed

lemma prior_agents: "map mr_agent_id (prior_results team d) = map dt_agent_id (completed_turns d)"
  by (simp add: prior_results_def Let_def member_result_from_durable_def comp_def)

lemma prior_resumed: "m \<in> set (prior_results team d) \<Longrightarrow> mr_resumed m"
  by (auto simp: prior_results_def Let_def member_result_from_durable_def)

section \<open>What a run does\<close>

lemma preserves_snd:
  assumes "preserves evolves m" "keyed (w_store w)" "memory_get (w_store w) i = Some s" "w' = snd (m w)"
  shows "\<exists>t. memory_get (w_store w') i = Some t \<and> rs_version s \<le> rs_version t \<and>
    evolves s (t\<lparr>rs_version := rs_version s\<rparr>)"
  using hist.preserves_run(1) [OF assms(1,2) surjective_pairing assms(3)] assms(4)
  unfolding later_def by blast

text \<open>The aggregate that a run continues, if any.\<close>

definition continues :: "durable_interaction option \<Rightarrow> durable_interaction option" where
  "continues stored =
     (case stored of None \<Rightarrow> None | Some d \<Rightarrow> if resumable d then Some d else None)"

lemma resumable_interaction_run:
  assumes "resumable_interaction env a w = (Inr x, w')" "te_durable env" "stores w (ac_session_id a) s"
  shows "w' = w \<and> x = continues (map_of (rs_durable_interactions s)
    (durable_interaction_id (ac_session_id a) (ac_node_key a)))"
  using assms
  by (auto simp: resumable_interaction_def find_resumable_interaction_def svc_bind_Inr get_stores_eq
      continues_def resumable_def split: option.split)

lemma team_turns_at:
  assumes "team_turns fuel env a rq team st r prior w = (Inr x, w')" "runtime_at r sched k"
    "te_durable env" "team_at w (ac_session_id a) (it_id (nr_interaction r)) d"
    "length sched - k < fuel"
  shows "\<exists>new d1 d'. x = Some (team_invocation_result (ag_dumps (te_runtime env)) team (tq_agent_role rq)
        (prior @ new)) \<and>
    map mr_agent_id new = drop k sched \<and> (\<forall>m \<in> set new. \<not> mr_resumed m) \<and>
    turns_recorded (it_id (nr_interaction r)) k (map said_of new) d d1 \<and>
    team_at w' (ac_session_id a) (it_id (nr_interaction r)) d' \<and>
    di_turns d' = di_turns d1 \<and> di_messages d' = di_messages d1 \<and>
    outcome_kept team (prior @ new) (di_outcome d1) (di_outcome d')"
proof -
  obtain res w1 where l: "team_loop fuel env a rq team st r prior w = (Inr res, w1)"
    and k: "(case res of None \<Rightarrow> svc_return None
      | Some rs \<Rightarrow> svc_bind (record_outcome env a team (it_id (nr_interaction r)) rs) (\<lambda>_.
         svc_return (Some (team_invocation_result (ag_dumps (te_runtime env)) team (tq_agent_role rq) rs))))
      w1 = (Inr x, w')"
    using assms(1) by (auto simp: team_turns_def svc_bind_Inr)
  from team_loop_run [OF l assms(2-5)] obtain new d1 where
    n: "res = Some (prior @ new)" "map mr_agent_id new = drop k sched" "\<forall>m \<in> set new. \<not> mr_resumed m"
      "team_at w1 (ac_session_id a) (it_id (nr_interaction r)) d1"
      "turns_recorded (it_id (nr_interaction r)) k (map said_of new) d d1"
    by blast
  then have o1: "record_outcome env a team (it_id (nr_interaction r)) (prior @ new) w1 = (Inr (), w')"
    and x: "x = Some (team_invocation_result (ag_dumps (te_runtime env)) team (tq_agent_role rq) (prior @ new))"
    using k by (auto simp: svc_bind_Inr)
  from outcome_at [OF o1 assms(3) n(4)] n x show ?thesis by blast
qed

lemma finish_at:
  assumes "finish_team env a rq team i iv w = (Inr u, w')" "te_durable env"
    "team_at w (ac_session_id a) (it_id i) d"
  shows "\<exists>d'. team_at w' (ac_session_id a) (it_id i) d' \<and> di_status d' = Interaction_COMPLETED \<and>
    di_turns d' = di_turns d \<and> di_messages d' = di_messages d \<and> di_outcome d' = di_outcome d"
proof -
  obtain w1 w2 where e: "team_invocation_completed a rq team iv w = (Inr (), w1)"
      "log_interaction_completed env a team i iv w1 = (Inr (), w2)"
    and c: "durably env (complete_interaction (ac_session_id a) (it_id i) Interaction_COMPLETED None) w2
        = (Inr u, w')"
    using assms(1) unfolding finish_team_def svc_bind_Inr by auto
  have "team_at w2 (ac_session_id a) (it_id i) d"
    using team_at_frame [OF team_frame.team_marks_preserve(4) e(2)
      team_at_frame [OF team_frame.team_marks_preserve(2) e(1) assms(3)]] .
  moreover obtain d' where
    "complete_interaction (ac_session_id a) (it_id i) Interaction_COMPLETED None w2 = (Inr d', w')"
    using durably_Inr [OF c assms(2)] by blast
  ultimately show ?thesis using completed_at by blast
qed

text \<open>The whole run: \<open>d\<close> is the aggregate when the turns begin, \<open>d1\<close> after them, \<open>d'\<close> at the end.\<close>

lemma invoke_team_run:
  assumes run: "invoke_team fuel env a rq st w = (Inr x, w')" and dur: "te_durable env"
    and s: "stores w (ac_session_id a) s"
    and team: "team_spec_from_config (tq_team rq) = Inr team"
    and stored: "map_of (rs_durable_interactions s) ii = stored"
    and ii: "ii = durable_interaction_id (ac_session_id a) (ac_node_key a)"
    and start: "\<And>r prior. team_runtime a team (continues stored) = Inr (r, prior) \<Longrightarrow>
      runtime_at r (team_schedule team) k \<and> it_id (nr_interaction r) = ii"
    and fuel: "length (team_schedule team) < fuel"
  shows "\<exists>r prior new d d1 d'. team_runtime a team (continues stored) = Inr (r, prior) \<and>
    x = Some (team_invocation_result (ag_dumps (te_runtime env)) team (tq_agent_role rq) (prior @ new)) \<and>
    map mr_agent_id new = drop k (team_schedule team) \<and> (\<forall>m \<in> set new. \<not> mr_resumed m) \<and>
    begins_as ii stored d \<and> turns_recorded ii k (map said_of new) d d1 \<and>
    team_at w' (ac_session_id a) ii d' \<and> di_status d' = Interaction_COMPLETED \<and>
    di_turns d' = di_turns d1 \<and> di_messages d' = di_messages d1 \<and>
    outcome_kept team (prior @ new) (di_outcome d1) (di_outcome d')"
proof -
  obtain w1 w2 res r prior w3 fin w4 where
    e1: "team_invocation_started env a rq team w = (Inr (), w1)" and
    res: "resumable_interaction env a w1 = (Inr res, w2)" and
    rt: "team_runtime a team res = Inr (r, prior)" and
    st: "start_team env a team r (res \<noteq> None) w2 = (Inr (), w3)" and
    tr: "svc_try (team_turns fuel env a rq team st r prior) (team_failed env a team (nr_interaction r)) w3
        = (Inr fin, w4)" and
    rest: "(case fin of None \<Rightarrow> svc_return None | Some iv \<Rightarrow>
         svc_bind (finish_team env a rq team (nr_interaction r) iv) (\<lambda>_. svc_return (Some iv))) w4 = (Inr x, w')"
    using run team unfolding invoke_team_def
    by (auto simp: svc_bind_Inr svc_lift_Inr simp del: svc_lift_eq)
  from team_frame.preserves_run [OF team_frame.team_marks_preserve(1) _ e1] s obtain s1 where
    "keyed (w_store w1)" "memory_get (w_store w1) (ac_session_id a) = Some s1" "later same_teams s s1"
    unfolding stores_def by blast
  then have s1: "stores w1 (ac_session_id a) s1" "rs_durable_interactions s1 = rs_durable_interactions s"
    by (simp_all add: stores_def later_def same_teams_def)
  from resumable_interaction_run [OF res dur s1(1)] s1(2) stored ii
  have r2: "w2 = w1" "res = continues stored" by simp_all
  from start rt r2(2) have at': "runtime_at r (team_schedule team) k" "it_id (nr_interaction r) = ii" by auto
  from start_team_at [OF st dur, of s1 stored] s1 stored r2(1) at'(2) obtain d where
    d: "team_at w3 (ac_session_id a) ii d" "begins_as ii stored d"
    by auto
  have tt: "team_turns fuel env a rq team st r prior w3 = (Inr fin, w4)"
    using tr by (auto simp: svc_try_def team_failed_raises split: prod.splits sum.splits)
  have f: "length (team_schedule team) - k < fuel" using fuel by simp
  have d3: "team_at w3 (ac_session_id a) (it_id (nr_interaction r)) d" using d(1) at'(2) by simp
  from team_turns_at [OF tt at'(1) dur d3 f, unfolded at'(2)] obtain new d1 d2 where
    n: "fin = Some (team_invocation_result (ag_dumps (te_runtime env)) team (tq_agent_role rq) (prior @ new))"
      "map mr_agent_id new = drop k (team_schedule team)" "\<forall>m \<in> set new. \<not> mr_resumed m"
      "turns_recorded ii k (map said_of new) d d1" "team_at w4 (ac_session_id a) ii d2"
      "di_turns d2 = di_turns d1" "di_messages d2 = di_messages d1"
      "outcome_kept team (prior @ new) (di_outcome d1) (di_outcome d2)"
    by blast
  obtain w5 where fi: "finish_team env a rq team (nr_interaction r)
        (team_invocation_result (ag_dumps (te_runtime env)) team (tq_agent_role rq) (prior @ new)) w4
        = (Inr (), w')" and x: "x = fin"
    using rest n(1) by (auto simp: svc_bind_Inr)
  have d4: "team_at w4 (ac_session_id a) (it_id (nr_interaction r)) d2" using n(5) at'(2) by simp
  from finish_at [OF fi dur d4, unfolded at'(2)] obtain d' where
    "team_at w' (ac_session_id a) ii d'" "di_status d' = Interaction_COMPLETED"
    "di_turns d' = di_turns d2" "di_messages d' = di_messages d2" "di_outcome d' = di_outcome d2"
    by blast
  with n d(2) x rt r2(2) show ?thesis by (intro exI [of _ r] exI [of _ prior] exI [of _ new] exI [of _ d] exI [of _ d1] exI [of _ d']) simp
qed

section \<open>First runs and continued runs\<close>

text \<open>\<open>k\<close> turns of the schedule are done: nothing is stored, or a running tidy aggregate of them.\<close>

definition team_progress :: "string \<Rightarrow> nat \<Rightarrow> durable_interaction option \<Rightarrow> string list \<Rightarrow> bool" where
  "team_progress ii k stored sched \<longleftrightarrow>
     (case stored of
        None \<Rightarrow> k = 0
      | Some d \<Rightarrow> di_id d = ii \<and> di_status d = Interaction_RUNNING \<and> tidy ii k d \<and>
          map dt_agent_id (di_turns d) = take k sched \<and> k \<le> length sched)"

definition stored_messages :: "durable_interaction option \<Rightarrow> (int \<times> string \<times> string) list" where
  "stored_messages stored = (case stored of None \<Rightarrow> [] | Some d \<Rightarrow> map message_key (di_messages d))"

definition stored_outcome :: "durable_interaction option \<Rightarrow> durable_protocol_outcome option" where
  "stored_outcome stored = (case stored of None \<Rightarrow> None | Some d \<Rightarrow> di_outcome d)"

text \<open>What was stored of the turn: the text of its last message, empty when it has none.\<close>

definition stored_content :: "durable_interaction option \<Rightarrow> nat \<Rightarrow> string" where
  "stored_content stored j =
     (case stored of
        None \<Rightarrow> []
      | Some d \<Rightarrow> (let ms = filter (\<lambda>m. dm_turn_index m = int j) (di_messages d) in
          if ms = [] then [] else dm_content (last ms)))"

lemma map_of_rev_last:
  "map_of (rev (map (\<lambda>m. (f m, g m)) ms)) i =
     (let xs = filter (\<lambda>m. f m = i) ms in if xs = [] then None else Some (g (last xs)))"
  by (induction ms rule: rev_induct) (auto simp: Let_def)

lemma tidy_length: "tidy ii k d \<Longrightarrow> length (di_turns d) = k"
  by (auto simp: tidy_def dest: arg_cong [where f = length])

lemma progress_continues:
  assumes "team_progress ii k stored sched"
  shows "k = 0 \<and> continues stored = None \<or> continues stored = stored \<and> 0 < k"
proof (cases stored)
  case None
  with assms show ?thesis by (simp add: team_progress_def continues_def)
next
  case (Some d)
  then have t: "tidy ii k d" "di_status d = Interaction_RUNNING"
    using assms by (simp_all add: team_progress_def)
  have "resumable d \<longleftrightarrow> 0 < k"
    using t tidy_length [OF t(1)] by (cases "di_turns d") (auto simp: resumable_def tidy_def)
  with Some show ?thesis by (auto simp: continues_def)
qed

lemma prior_content:
  assumes "tidy ii k d" "j < k"
  shows "mr_content (prior_results team d ! j) = stored_content (Some d) j"
proof -
  have j: "j < length (di_turns d)" using assms tidy_length by simp
  have "map dt_turn_index (di_turns d) ! j = int j" using assms by (simp add: tidy_def)
  then have "dt_turn_index (di_turns d ! j) = int j" using j by simp
  with j show ?thesis
    by (simp add: prior_results_def member_result_from_durable_def completed_turns_tidy [OF assms(1)]
        map_of_rev_last stored_content_def Let_def)
qed

lemma progress_runtime:
  assumes "team_progress ii k stored (team_schedule team)" "valid_team team" "clean_id ii"
    "ii = durable_interaction_id (ac_session_id a) (ac_node_key a)"
    "team_runtime a team (continues stored) = Inr (r, prior)"
  shows "runtime_at r (team_schedule team) k" "it_id (nr_interaction r) = ii"
    "map mr_agent_id prior = take k (team_schedule team)" "\<forall>m \<in> set prior. mr_resumed m"
    "\<forall>j < k. mr_content (prior ! j) = stored_content stored j"
proof -
  have "runtime_at r (team_schedule team) k \<and> it_id (nr_interaction r) = ii \<and>
      map mr_agent_id prior = take k (team_schedule team) \<and> (\<forall>m \<in> set prior. mr_resumed m) \<and>
      (\<forall>j < k. mr_content (prior ! j) = stored_content stored j)"
  proof (cases "continues stored")
    case None
    then have "k = 0" "make_runtime team ii [] [] = Inr r" "prior = []"
      using progress_continues [OF assms(1)] assms(1,4,5)
      by (auto simp: team_runtime_def team_progress_def split: option.splits)
    with make_runtime_at [OF this(2) assms(2,3), of 0] show ?thesis by simp
  next
    case (Some d)
    then have st: "stored = Some d" by (auto simp: continues_def split: option.splits if_splits)
    then have d: "di_id d = ii" "tidy ii k d" "map dt_agent_id (di_turns d) = take k (team_schedule team)"
        "k \<le> length (team_schedule team)"
      using assms(1) by (simp_all add: team_progress_def)
    have r: "seed_from_durable team d = Inr r" "prior = prior_results team d"
      using assms(5) Some by (auto simp: team_runtime_def)
    have "clean_id (di_id d)" using assms(3) d(1) by simp
    from seed_at [OF r(1) assms(2) this d(2-4)] d r(2) prior_resumed [of _ team d]
    show ?thesis by (simp add: prior_agents completed_turns_tidy prior_content st)
  qed
  then show "runtime_at r (team_schedule team) k" "it_id (nr_interaction r) = ii"
    "map mr_agent_id prior = take k (team_schedule team)" "\<forall>m \<in> set prior. mr_resumed m"
    "\<forall>j < k. mr_content (prior ! j) = stored_content stored j"
    by simp_all
qed

lemma map_zip_upt:
  "map (\<lambda>(j, x). f j x) (zip [n..<n + length xs] xs) = map (\<lambda>j. f j (xs ! (j - n))) [n..<n + length xs]"
  by (rule nth_equalityI) simp_all

lemma begins_progress:
  assumes "begins_as ii stored d" "team_progress ii k stored sched"
  shows "tidy ii k d" "map turn_key (di_turns d) = map (\<lambda>j. (int j, sched ! j, Turn_COMPLETED)) [0..<k]"
    "map message_key (di_messages d) = stored_messages stored" "di_outcome d = stored_outcome stored"
proof -
  have a: "tidy ii k d \<and> map dt_agent_id (di_turns d) = take k sched \<and> k \<le> length sched \<and>
      map message_key (di_messages d) = stored_messages stored \<and> di_outcome d = stored_outcome stored"
    using assms
    by (cases stored) (auto simp: begins_as_def team_progress_def tidy_def same_body_def same_frame_def
        stored_messages_def stored_outcome_def)
  then show "tidy ii k d" "map message_key (di_messages d) = stored_messages stored"
    "di_outcome d = stored_outcome stored" by simp_all
  show "map turn_key (di_turns d) = map (\<lambda>j. (int j, sched ! j, Turn_COMPLETED)) [0..<k]"
  proof (rule nth_equalityI)
    show "length (map turn_key (di_turns d)) = length (map (\<lambda>j. (int j, sched ! j, Turn_COMPLETED)) [0..<k])"
      using a tidy_length [of ii k d] by simp
  next
    fix j assume "j < length (map turn_key (di_turns d))"
    then have j: "j < k" "j < length (di_turns d)" using a tidy_length [of ii k d] by simp_all
    have "map dt_turn_index (di_turns d) ! j = int j" using a j by (simp add: tidy_def)
    moreover have "map dt_agent_id (di_turns d) ! j = sched ! j" using a j by simp
    moreover have "dt_status (di_turns d ! j) = Turn_COMPLETED" using a j by (simp add: tidy_def)
    ultimately show "map turn_key (di_turns d) ! j = map (\<lambda>j. (int j, sched ! j, Turn_COMPLETED)) [0..<k] ! j"
      using j by (simp add: turn_key_def)
  qed
qed

lemma team_run_exact:
  assumes "invoke_team fuel env a rq st w = (Inr x, w')" "te_durable env" "stores w (ac_session_id a) s"
    "team_spec_from_config (tq_team rq) = Inr team" "valid_team team" "clean_id ii"
    "ii = durable_interaction_id (ac_session_id a) (ac_node_key a)"
    "stored = map_of (rs_durable_interactions s) ii" "sched = team_schedule team"
    "team_progress ii k stored sched" "length sched < fuel"
  shows "\<exists>results d. x = Some (team_invocation_result (ag_dumps (te_runtime env)) team (tq_agent_role rq) results) \<and>
    map mr_agent_id results = sched \<and> (\<forall>j < length sched. mr_resumed (results ! j) \<longleftrightarrow> j < k) \<and>
    (\<forall>j < k. mr_content (results ! j) = stored_content stored j) \<and>
    team_at w' (ac_session_id a) ii d \<and> di_status d = Interaction_COMPLETED \<and>
    map turn_key (di_turns d) = map (\<lambda>j. (int j, sched ! j, Turn_COMPLETED)) [0..<length sched] \<and>
    map message_key (di_messages d) = stored_messages stored @
      map (\<lambda>j. (int j, sched ! j, team_member_content (results ! j))) [k..<length sched] \<and>
    outcome_kept team results (stored_outcome stored) (di_outcome d)"
proof -
  note pr = progress_runtime [OF assms(10) [unfolded assms(9)] assms(5-7)]
  from invoke_team_run [OF assms(1-4) assms(8) [symmetric] assms(7) _ assms(11) [unfolded assms(9)], of k]
  obtain r prior new d d1 d' where
    rt: "team_runtime a team (continues stored) = Inr (r, prior)" and
    x: "x = Some (team_invocation_result (ag_dumps (te_runtime env)) team (tq_agent_role rq) (prior @ new))" and
    new: "map mr_agent_id new = drop k sched" "\<forall>m \<in> set new. \<not> mr_resumed m" and
    d: "begins_as ii stored d" "turns_recorded ii k (map said_of new) d d1" and
    d': "team_at w' (ac_session_id a) ii d'" "di_status d' = Interaction_COMPLETED"
      "di_turns d' = di_turns d1" "di_messages d' = di_messages d1"
      "outcome_kept team (prior @ new) (di_outcome d1) (di_outcome d')"
    using pr(1,2) assms(9) by blast
  note prior = pr(3,4,5) [OF rt, folded assms(9)]
  have k: "k \<le> length sched"
    using assms(10) by (auto simp: team_progress_def split: option.splits)
  have lp: "length prior = k" using arg_cong [OF prior(1), of length] k by simp
  have ln: "length new = length sched - k" using arg_cong [OF new(1), of length] by simp
  note b = begins_progress [OF d(1) assms(10)]
  note f = turns_recorded_fresh [OF d(2) b(1)]
  have kl: "k + length new = length sched" using ln k by simp
  have said: "map said_of new ! (j - k) = (sched ! j, team_member_content (new ! (j - k)))"
    if "k \<le> j" "j < length sched" for j
  proof -
    have "mr_agent_id (new ! (j - k)) = map mr_agent_id new ! (j - k)" using that ln by simp
    then show ?thesis using that new(1) ln by (simp add: said_of_def)
  qed
  have upt: "[0..<length sched] = [0..<k] @ [k..<length sched]"
    using upt_add_eq_append [of 0 k "length new"] kl by simp
  have lt: "j - k < length new" if "k \<le> j" "j < length sched" for j using that kl by linarith
  have "map (\<lambda>(j, x). (int j, fst x, Turn_COMPLETED)) (zip [k..<k + length (map said_of new)] (map said_of new)) =
      map (\<lambda>j. (int j, sched ! j, Turn_COMPLETED)) [k..<length sched]"
    unfolding map_zip_upt using kl said lt by simp
  with f b(2) have turns: "map turn_key (di_turns d1) =
      map (\<lambda>j. (int j, sched ! j, Turn_COMPLETED)) [0..<length sched]"
    using upt by (simp flip: map_append)
  have "map (\<lambda>(j, x). (int j, x)) (zip [k..<k + length (map said_of new)] (map said_of new)) =
      map (\<lambda>j. (int j, sched ! j, team_member_content ((prior @ new) ! j))) [k..<length sched]"
    unfolding map_zip_upt using kl said lp lt by (simp add: nth_append)
  with f b(3) have msgs: "map message_key (di_messages d1) = stored_messages stored @
      map (\<lambda>j. (int j, sched ! j, team_member_content ((prior @ new) ! j))) [k..<length sched]"
    by simp
  have res: "mr_resumed ((prior @ new) ! j) \<longleftrightarrow> j < k" if "j < length sched" for j
    using that prior(2) new(2) lp ln by (auto simp: nth_append)
  have content: "\<forall>j < k. mr_content ((prior @ new) ! j) = stored_content stored j"
    using prior(3) lp by (simp add: nth_append)
  have "di_outcome d1 = stored_outcome stored" using f b(4) by (simp add: same_frame_def)
  with x prior(1) new(1) d' turns msgs res content show ?thesis
    by (intro exI [of _ "prior @ new"] exI [of _ d']) (simp add: append_take_drop_id)
qed

section \<open>A closed aggregate\<close>

text \<open>
  A team that runs again after its aggregate was closed, with all turns recorded: the members are
  run, and nothing of what they say is recorded.
\<close>

lemma team_rerun_unrecorded:
  assumes "invoke_team fuel env a rq st w = (Inr x, w')" "te_durable env" "stores w (ac_session_id a) s"
    "team_spec_from_config (tq_team rq) = Inr team" "valid_team team" "clean_id ii"
    "ii = durable_interaction_id (ac_session_id a) (ac_node_key a)"
    "map_of (rs_durable_interactions s) ii = Some d0" "sched = team_schedule team"
    "di_status d0 \<noteq> Interaction_RUNNING" "\<forall>j < length sched. settled_turn ii (int j) (sched ! j) d0"
    "length sched < fuel"
  shows "\<exists>results d. x = Some (team_invocation_result (ag_dumps (te_runtime env)) team (tq_agent_role rq) results) \<and>
    map mr_agent_id results = sched \<and> (\<forall>m \<in> set results. \<not> mr_resumed m) \<and>
    team_at w' (ac_session_id a) ii d \<and> di_turns d = di_turns d0 \<and> di_messages d = di_messages d0 \<and>
    outcome_kept team results (di_outcome d0) (di_outcome d)"
proof -
  have c: "continues (Some d0) = None" using assms(10) by (simp add: continues_def resumable_def)
  have start: "runtime_at r (team_schedule team) 0 \<and> it_id (nr_interaction r) = ii"
    and none: "prior = []" if "team_runtime a team (continues (Some d0)) = Inr (r, prior)" for r prior
  proof -
    from that c assms(7) have m: "make_runtime team ii [] [] = Inr r" "prior = []"
      by (auto simp: team_runtime_def)
    from make_runtime_at [OF m(1) assms(5,6), of 0]
    show "runtime_at r (team_schedule team) 0 \<and> it_id (nr_interaction r) = ii" by simp
    show "prior = []" by (rule m(2))
  qed
  from invoke_team_run [OF assms(1-4,8,7) _ assms(12) [unfolded assms(9)], of 0] start
  obtain r prior new d d1 d' where
    rt: "team_runtime a team (continues (Some d0)) = Inr (r, prior)" and
    x: "x = Some (team_invocation_result (ag_dumps (te_runtime env)) team (tq_agent_role rq) (prior @ new))" and
    new: "map mr_agent_id new = drop 0 (team_schedule team)" "\<forall>m \<in> set new. \<not> mr_resumed m" and
    d: "begins_as ii (Some d0) d" "turns_recorded ii 0 (map said_of new) d d1" and
    d': "team_at w' (ac_session_id a) ii d'" "di_turns d' = di_turns d1" "di_messages d' = di_messages d1"
      "outcome_kept team (prior @ new) (di_outcome d1) (di_outcome d')"
    by blast
  have b: "same_body d0 d" using d(1) by (simp add: begins_as_def)
  have len: "length new = length sched" using arg_cong [OF new(1), of length] assms(9) by simp
  have "fst (map said_of new ! j) = sched ! j" if "j < length sched" for j
    using that len arg_cong [OF new(1), of "\<lambda>xs. xs ! j"] assms(9) by (simp add: said_of_def)
  then have "settled_turn ii (int (0 + j)) (fst (map said_of new ! j)) d" if "j < length (map said_of new)" for j
    using that assms(11) len b
    by (simp add: settled_turn_def turn_by_index_def message_by_id_def same_body_def)
  from turns_recorded_settled [OF d(2) this] have "d1 = d" .
  with x new d' b none [OF rt] assms(9) show ?thesis
    by (intro exI [of _ new] exI [of _ d']) (simp add: same_body_def same_frame_def)
qed

end
