(* ===== verification/Memory_Store.thy ===== *)
theory Memory_Store
  imports Redaction Py_Values
begin

text \<open>
  \<^verbatim>\<open>memory/base.py\<close>, \<^verbatim>\<open>memory/stores.py\<close> and \<^verbatim>\<open>memory/facades.py\<close>: the two
  stores of memory entries and the facades that bind a scope. The time that an entry takes from
  the clock is an argument. The SQLite store keeps one row per entry; the JSON form of an entry
  is Pydantic's and a parameter, and \<^verbatim>\<open>LIKE\<close> is the operator of SQLite, which does not
  distinguish the case of ASCII letters.
\<close>

section \<open>Entries\<close>

datatype memory_scope = Memory_AGENT | Memory_SESSION | Memory_WORKFLOW | Memory_GLOBAL

fun memory_scope_value :: "memory_scope \<Rightarrow> string" where
  "memory_scope_value Memory_AGENT = ''agent''"
| "memory_scope_value Memory_SESSION = ''session''"
| "memory_scope_value Memory_WORKFLOW = ''workflow''"
| "memory_scope_value Memory_GLOBAL = ''global''"

lemma memory_scope_value_eq [simp]: "memory_scope_value a = memory_scope_value b \<longleftrightarrow> a = b"
  by (cases a; cases b) simp_all

record memory_entry =
  my_scope :: memory_scope
  my_scope_id :: string
  my_key :: string
  my_value :: json
  my_created_at :: time
  my_metadata :: pydict

section \<open>The in-memory store\<close>

record memory_bank =
  mb_entries :: "((memory_scope \<times> string) \<times> (string \<times> memory_entry) list) list"
  mb_counters :: "((memory_scope \<times> string \<times> string) \<times> nat) list"

definition empty_bank :: memory_bank where
  "empty_bank = \<lparr>mb_entries = [], mb_counters = []\<rparr>"

definition bucket :: "memory_bank \<Rightarrow> memory_scope \<Rightarrow> string \<Rightarrow> (string \<times> memory_entry) list" where
  "bucket b scope scope_id = (case map_of (mb_entries b) (scope, scope_id) of None \<Rightarrow> [] | Some es \<Rightarrow> es)"

definition bank_put :: "memory_entry \<Rightarrow> memory_bank \<Rightarrow> memory_bank" where
  "bank_put e b =
     b\<lparr>mb_entries := AList.update (my_scope e, my_scope_id e)
         (AList.update (my_key e) e (bucket b (my_scope e) (my_scope_id e))) (mb_entries b)\<rparr>"

definition bank_get :: "memory_bank \<Rightarrow> memory_scope \<Rightarrow> string \<Rightarrow> string \<Rightarrow> memory_entry option" where
  "bank_get b scope scope_id key = map_of (bucket b scope scope_id) key"

definition append_counter :: "memory_bank \<Rightarrow> memory_scope \<Rightarrow> string \<Rightarrow> string \<Rightarrow> nat" where
  "append_counter b scope scope_id key =
     (case map_of (mb_counters b) (scope, scope_id, key) of None \<Rightarrow> 0 | Some n \<Rightarrow> n)"

definition numbered_key :: "string \<Rightarrow> nat \<Rightarrow> string" where
  "numbered_key key idx = key @ ''.'' @ nat_digits idx"

definition bank_append ::
    "time \<Rightarrow> memory_scope \<Rightarrow> string \<Rightarrow> string \<Rightarrow> json \<Rightarrow> pydict \<Rightarrow> memory_bank \<Rightarrow> memory_entry \<times> memory_bank" where
  "bank_append now scope scope_id key v metadata b =
     (let idx = append_counter b scope scope_id key;
          b1 = b\<lparr>mb_counters := AList.update (scope, scope_id, key) (idx + 1) (mb_counters b)\<rparr>;
          e = \<lparr>my_scope = scope, my_scope_id = scope_id, my_key = numbered_key key idx, my_value = v,
               my_created_at = now, my_metadata = metadata\<rparr>
      in (e, bank_put e b1))"

definition bank_scan :: "memory_bank \<Rightarrow> memory_scope \<Rightarrow> string \<Rightarrow> string option \<Rightarrow> memory_entry list" where
  "bank_scan b scope scope_id key_prefix =
     (let items = map snd (bucket b scope scope_id) in
      sort_key my_created_at (case key_prefix of
          None \<Rightarrow> items
        | Some p \<Rightarrow> filter (\<lambda>e. py_startswith (my_key e) p) items))"

definition bank_delete :: "memory_scope \<Rightarrow> string \<Rightarrow> string \<Rightarrow> memory_bank \<Rightarrow> memory_bank" where
  "bank_delete scope scope_id key b =
     (case map_of (mb_entries b) (scope, scope_id) of
        None \<Rightarrow> b
      | Some es \<Rightarrow> b\<lparr>mb_entries := AList.update (scope, scope_id) (AList.delete key es) (mb_entries b)\<rparr>)"

section \<open>The SQLite store\<close>

record 'p memory_row =
  mw_scope :: string
  mw_scope_id :: string
  mw_key :: string
  mw_created_at :: string
  mw_payload :: 'p

definition entry_row :: "(memory_entry \<Rightarrow> 'p) \<Rightarrow> memory_entry \<Rightarrow> 'p memory_row" where
  "entry_row dump e =
     \<lparr>mw_scope = memory_scope_value (my_scope e), mw_scope_id = my_scope_id e, mw_key = my_key e,
      mw_created_at = py_isoformat (my_created_at e), mw_payload = dump e\<rparr>"

text \<open>The rows are kept in the order of their ids. \<^verbatim>\<open>on conflict ... do update\<close> keeps the id.\<close>

definition in_scope :: "memory_scope \<Rightarrow> string \<Rightarrow> 'p memory_row \<Rightarrow> bool" where
  "in_scope scope scope_id r \<longleftrightarrow> mw_scope r = memory_scope_value scope \<and> mw_scope_id r = scope_id"

definition row_at :: "memory_scope \<Rightarrow> string \<Rightarrow> string \<Rightarrow> 'p memory_row \<Rightarrow> bool" where
  "row_at scope scope_id key r \<longleftrightarrow> in_scope scope scope_id r \<and> mw_key r = key"

definition rows_put :: "(memory_entry \<Rightarrow> 'p) \<Rightarrow> memory_entry \<Rightarrow> 'p memory_row list \<Rightarrow> 'p memory_row list" where
  "rows_put dump e rows =
     (if list_ex (row_at (my_scope e) (my_scope_id e) (my_key e)) rows
      then update_first (row_at (my_scope e) (my_scope_id e) (my_key e)) (\<lambda>_. entry_row dump e) rows
      else rows @ [entry_row dump e])"

definition rows_get ::
    "('p \<Rightarrow> memory_entry option) \<Rightarrow> 'p memory_row list \<Rightarrow> memory_scope \<Rightarrow> string \<Rightarrow> string \<Rightarrow>
     exn + memory_entry option" where
  "rows_get load rows scope scope_id key =
     (case List.find (row_at scope scope_id key) rows of
        None \<Rightarrow> Inr None
      | Some r \<Rightarrow> (case load (mw_payload r) of None \<Rightarrow> Inl ValidationError | Some e \<Rightarrow> Inr (Some e)))"

text \<open>
  \<^verbatim>\<open>LIKE\<close>: \<^verbatim>\<open>%\<close> stands for any text, \<^verbatim>\<open>_\<close> for any character, the escape character takes
  the next one literally.
\<close>

definition sql_fold :: "char \<Rightarrow> char" where
  "sql_fold c = (let n = of_char c :: nat in if 65 \<le> n \<and> n \<le> 90 then char_of (n + 32) else c)"

fun sql_like :: "char option \<Rightarrow> string \<Rightarrow> string \<Rightarrow> bool" where
  "sql_like esc [] s = (s = [])"
| "sql_like esc (p # ps) s =
     (if esc = Some p then
        (case (ps, s) of
           (q # qs, c # cs) \<Rightarrow> sql_fold q = sql_fold c \<and> sql_like esc qs cs
         | _ \<Rightarrow> False)
      else if p = CHR ''%'' then
        (sql_like esc ps s \<or> (case s of [] \<Rightarrow> False | c # cs \<Rightarrow> sql_like esc (p # ps) cs))
      else
        (case s of
           [] \<Rightarrow> False
         | c # cs \<Rightarrow> (p = CHR ''_'' \<or> sql_fold p = sql_fold c) \<and> sql_like esc ps cs))"

definition backslash :: char where
  "backslash = CHR 0x5C"

text \<open>The three replacements one after the other put a backslash before each of the characters.\<close>

definition escape_like :: "string \<Rightarrow> string" where
  "escape_like s = concat (map (\<lambda>c. if c \<in> {backslash, CHR ''%'', CHR ''_''} then [backslash, c] else [c]) s)"

text \<open>
  The index of a key that matches \<^verbatim>\<open>^base\.(\d+)$\<close>. The dollar sign also matches before a
  newline at the end.
\<close>

definition append_index :: "string \<Rightarrow> string \<Rightarrow> nat option" where
  "append_index base key =
     (if py_startswith key (base @ ''.'') then
        let rest = drop (length base + 1) key;
            digits = (if rest \<noteq> [] \<and> last rest = CHR 0x0A then butlast rest else rest) in
        if digits \<noteq> [] \<and> list_all is_digit digits then Some (digits_value digits) else None
      else None)"

definition next_append_index :: "string list \<Rightarrow> string \<Rightarrow> nat" where
  "next_append_index keys base = fold (\<lambda>i m. max (i + 1) m) (List.map_filter (append_index base) keys) 0"

definition rows_append ::
    "(memory_entry \<Rightarrow> 'p) \<Rightarrow> time \<Rightarrow> memory_scope \<Rightarrow> string \<Rightarrow> string \<Rightarrow> json \<Rightarrow> pydict \<Rightarrow>
     'p memory_row list \<Rightarrow> exn + memory_entry \<times> 'p memory_row list" where
  "rows_append dump now scope scope_id key v metadata rows =
     (let keys = map mw_key (filter (\<lambda>r. in_scope scope scope_id r \<and>
            sql_like None (key @ ''.%'') (mw_key r)) rows);
          e = \<lparr>my_scope = scope, my_scope_id = scope_id,
               my_key = numbered_key key (next_append_index keys key), my_value = v,
               my_created_at = now, my_metadata = metadata\<rparr>
      in and_then (raise_when (list_ex (row_at scope scope_id (my_key e)) rows) OSError) (\<lambda>_.
         Inr (e, rows @ [entry_row dump e])))"

fun load_rows :: "('p \<Rightarrow> memory_entry option) \<Rightarrow> 'p memory_row list \<Rightarrow> exn + memory_entry list" where
  "load_rows load [] = Inr []"
| "load_rows load (r # rs) =
     (case load (mw_payload r) of
        None \<Rightarrow> Inl ValidationError
      | Some e \<Rightarrow> and_then (load_rows load rs) (\<lambda>es. Inr (e # es)))"

definition rows_scan ::
    "('p \<Rightarrow> memory_entry option) \<Rightarrow> 'p memory_row list \<Rightarrow> memory_scope \<Rightarrow> string \<Rightarrow> string option \<Rightarrow>
     exn + memory_entry list" where
  "rows_scan load rows scope scope_id key_prefix =
     load_rows load (sort_key mw_created_at (filter (\<lambda>r. in_scope scope scope_id r \<and>
       (case key_prefix of
          None \<Rightarrow> True
        | Some p \<Rightarrow> sql_like (Some backslash) (escape_like p @ ''%'') (mw_key r))) rows))"

definition rows_delete :: "memory_scope \<Rightarrow> string \<Rightarrow> string \<Rightarrow> 'p memory_row list \<Rightarrow> 'p memory_row list" where
  "rows_delete scope scope_id key rows = filter (\<lambda>r. \<not> row_at scope scope_id key r) rows"

section \<open>Facades\<close>

text \<open>\<^verbatim>\<open>AgentMemory\<close> and \<^verbatim>\<open>EpisodicMemory\<close> over the in-memory store.\<close>

definition scoped_put ::
    "memory_scope \<Rightarrow> time \<Rightarrow> string \<Rightarrow> string \<Rightarrow> json \<Rightarrow> pydict \<Rightarrow> memory_bank \<Rightarrow> memory_bank" where
  "scoped_put scope now scope_id key v metadata =
     bank_put \<lparr>my_scope = scope, my_scope_id = scope_id, my_key = key, my_value = v,
       my_created_at = now, my_metadata = metadata\<rparr>"

definition agent_put :: "time \<Rightarrow> string \<Rightarrow> string \<Rightarrow> json \<Rightarrow> pydict \<Rightarrow> memory_bank \<Rightarrow> memory_bank" where
  "agent_put = scoped_put Memory_AGENT"

definition agent_get :: "memory_bank \<Rightarrow> string \<Rightarrow> string \<Rightarrow> memory_entry option" where
  "agent_get b agent_id key = bank_get b Memory_AGENT agent_id key"

definition agent_append ::
    "time \<Rightarrow> string \<Rightarrow> string \<Rightarrow> json \<Rightarrow> pydict \<Rightarrow> memory_bank \<Rightarrow> memory_entry \<times> memory_bank" where
  "agent_append now = bank_append now Memory_AGENT"

definition agent_scan :: "memory_bank \<Rightarrow> string \<Rightarrow> string option \<Rightarrow> memory_entry list" where
  "agent_scan b = bank_scan b Memory_AGENT"

definition episodic_put :: "time \<Rightarrow> string \<Rightarrow> string \<Rightarrow> json \<Rightarrow> pydict \<Rightarrow> memory_bank \<Rightarrow> memory_bank" where
  "episodic_put = scoped_put Memory_WORKFLOW"

definition episodic_get :: "memory_bank \<Rightarrow> string \<Rightarrow> string \<Rightarrow> memory_entry option" where
  "episodic_get b workflow key = bank_get b Memory_WORKFLOW workflow key"

definition record_episode ::
    "time \<Rightarrow> string \<Rightarrow> string \<Rightarrow> pydict \<Rightarrow> pydict \<Rightarrow> memory_bank \<Rightarrow> memory_entry \<times> memory_bank" where
  "record_episode now workflow session_id summary metadata =
     bank_append now Memory_WORKFLOW workflow (''episode.'' @ session_id) (JObj summary) metadata"

text \<open>\<^verbatim>\<open>episodes[-limit:]\<close>, also for a limit that is not positive.\<close>

definition last_items :: "int \<Rightarrow> 'a list \<Rightarrow> 'a list" where
  "last_items limit xs =
     (if limit > 0 then drop (length xs - nat limit) xs else drop (nat (- limit)) xs)"

definition recent_episodes :: "memory_bank \<Rightarrow> string \<Rightarrow> int option \<Rightarrow> memory_entry list" where
  "recent_episodes b workflow limit =
     (let episodes = bank_scan b Memory_WORKFLOW workflow (Some ''episode.'') in
      case limit of None \<Rightarrow> episodes | Some n \<Rightarrow> last_items n episodes)"

end
