(* ===== verification/Memory_Facts.thy ===== *)
theory Memory_Facts
  imports Memory_Store "HOL-Library.Multiset"
begin

text \<open>
  The two memory stores compared: on the rows of an in-memory store the SQLite store answers
  every read, write and append as the in-memory store does, as long as no explicit key looks like
  the numbered key of an append, nothing is deleted between appends, and a prefix does not
  select keys by their case only.
\<close>

section \<open>Numbered keys\<close>

lemma numbered_key_eq [simp]: "numbered_key k m = numbered_key l n \<longleftrightarrow> k = l \<and> m = n"
proof
  assume eq: "numbered_key k m = numbered_key l n"
  have tw: "takeWhile is_digit (rev (numbered_key j i)) = rev (nat_digits i)" for j i
    using nat_digits_digits [of i]
    by (simp add: numbered_key_def takeWhile_append list_all_iff del: nat_digits.simps)
  have "nat_digits m = nat_digits n" using tw [of k m] tw [of l n] eq by (simp del: nat_digits.simps)
  then have "m = n" by (simp del: nat_digits.simps)
  with eq show "k = l \<and> m = n" by (simp add: numbered_key_def)
qed simp

lemma append_index_numbered [simp]: "append_index k (numbered_key k n) = Some n"
proof -
  have d: "list_all is_digit (nat_digits n)" by (rule nat_digits_digits)
  have "last (nat_digits n) \<noteq> CHR 0x0A"
    using not_in_nat_digits [of "CHR 0x0A" n] last_in_set [OF nat_digits_nonempty [of n]]
    by (metis not_digits(3))
  with d show ?thesis
    by (simp add: append_index_def numbered_key_def py_startswith_def Let_def del: nat_digits.simps)
qed

lemma append_indexD:
  assumes "append_index base k = Some i"
  obtains digits where "digits \<noteq> []" "list_all is_digit digits"
    "k = base @ ''.'' @ digits \<or> k = base @ ''.'' @ digits @ [CHR 0x0A]"
proof -
  let ?rest = "drop (length base + 1) k"
  define digits where "digits = (if ?rest \<noteq> [] \<and> last ?rest = CHR 0x0A then butlast ?rest else ?rest)"
  have eq: "append_index base k = (if py_startswith k (base @ ''.'') then
      if digits \<noteq> [] \<and> list_all is_digit digits then Some (digits_value digits) else None else None)"
    unfolding append_index_def digits_def Let_def by (rule refl)
  have sw: "py_startswith k (base @ ''.'')"
  proof (rule ccontr)
    assume "\<not> py_startswith k (base @ ''.'')"
    with eq assms show False by (simp only: if_False option.distinct)
  qed
  have d: "digits \<noteq> [] \<and> list_all is_digit digits"
  proof (rule ccontr)
    assume "\<not> (digits \<noteq> [] \<and> list_all is_digit digits)"
    with eq assms sw show False by (simp only: if_True if_False option.distinct)
  qed
  have p: "take (length base + 1) k = base @ ''.''" using sw by (simp add: py_startswith_def)
  have k: "k = base @ ''.'' @ ?rest" using p append_take_drop_id [of "length base + 1" k] by simp
  have r: "?rest = digits \<or> ?rest = digits @ [CHR 0x0A]"
  proof (cases "?rest \<noteq> [] \<and> last ?rest = CHR 0x0A")
    case True
    then have "digits = butlast ?rest" unfolding digits_def by (rule if_P)
    with True append_butlast_last_id [of ?rest] show ?thesis by simp
  next
    case False
    then have "digits = ?rest" unfolding digits_def by (rule if_not_P)
    then show ?thesis by simp
  qed
  have "k = base @ ''.'' @ digits \<or> k = base @ ''.'' @ digits @ [CHR 0x0A]"
    using r k by (elim disjE) simp_all
  with d show thesis by (intro that [of digits]) simp_all
qed

lemma append_index_other:
  assumes "base \<noteq> k"
  shows "append_index base (numbered_key k n) = None"
proof (rule ccontr)
  assume "append_index base (numbered_key k n) \<noteq> None"
  then obtain i where "append_index base (numbered_key k n) = Some i" by blast
  then obtain digits where d: "digits \<noteq> []" "list_all is_digit digits"
      "numbered_key k n = base @ ''.'' @ digits \<or> numbered_key k n = base @ ''.'' @ digits @ [CHR 0x0A]"
    by (rule append_indexD)
  have tw: "takeWhile is_digit (rev (numbered_key k n)) = rev (nat_digits n)"
    using nat_digits_digits [of n]
    by (simp add: numbered_key_def takeWhile_append list_all_iff del: nat_digits.simps)
  have "rev (nat_digits n) \<noteq> []" by (simp del: nat_digits.simps)
  with tw d(3) have eq: "numbered_key k n = base @ ''.'' @ digits" by auto
  then have "takeWhile is_digit (rev (numbered_key k n)) = rev digits"
    using d(2) by (simp add: takeWhile_append list_all_iff)
  with tw have "digits = nat_digits n" by simp
  with eq have "base @ ''.'' = k @ ''.''" by (simp add: numbered_key_def del: nat_digits.simps)
  with assms show False by simp
qed

lemma next_append_index_Nil [simp]: "next_append_index [] base = 0"
  by (simp add: next_append_index_def)

lemma next_append_index_snoc:
  "next_append_index (ks @ [k]) base =
     (case append_index base k of None \<Rightarrow> next_append_index ks base
      | Some i \<Rightarrow> max (i + 1) (next_append_index ks base))"
  by (simp add: next_append_index_def List.map_filter_def split: option.split)

lemma next_append_index_above:
  assumes "k \<in> set ks" "append_index base k = Some i"
  shows "i < next_append_index ks base"
  using assms
proof (induction ks rule: rev_induct)
  case (snoc x ks)
  then show ?case by (auto simp: next_append_index_snoc less_max_iff_disj split: option.split)
qed simp

section \<open>Prefixes and \<^verbatim>\<open>LIKE\<close>\<close>

definition like_prefix :: "string \<Rightarrow> string \<Rightarrow> bool" where
  "like_prefix p s \<longleftrightarrow> map sql_fold (take (length p) s) = map sql_fold p"

lemma startswith_like: "py_startswith s p \<Longrightarrow> like_prefix p s"
  by (simp add: py_startswith_def like_prefix_def)

lemma like_rest: "sql_like esc ''%'' s \<longleftrightarrow> esc \<noteq> Some (CHR ''%'')"
  by (induction s) auto

lemma like_self: "sql_like None (p @ ''%'') (p @ rest)"
proof (induction p)
  case Nil
  then show ?case using like_rest [of None rest] by simp
next
  case (Cons c p)
  then show ?case by (cases p) auto
qed

lemma sql_like_escaped:
  "sql_like (Some backslash) (escape_like p @ ''%'') s \<longleftrightarrow> like_prefix p s"
proof (induction p arbitrary: s)
  case Nil
  then show ?case using like_rest [of "Some backslash" s]
    by (simp add: escape_like_def like_prefix_def backslash_def)
next
  case (Cons c p)
  have u: "CHR ''_'' \<noteq> backslash" "CHR ''%'' \<noteq> backslash" by (simp_all add: backslash_def)
  have ne: "escape_like p @ ''%'' \<noteq> []" by simp
  show ?case
  proof (cases "c \<in> {backslash, CHR ''%'', CHR ''_''}")
    case True
    then have "escape_like (c # p) = backslash # c # escape_like p" by (simp add: escape_like_def)
    with Cons.IH show ?thesis
      by (cases s) (auto simp: like_prefix_def)
  next
    case False
    then have "escape_like (c # p) = c # escape_like p" by (auto simp: escape_like_def)
    with False Cons.IH u show ?thesis
      by (cases s) (auto simp: like_prefix_def)
  qed
qed

lemma append_index_like: "append_index base k = Some i \<Longrightarrow> sql_like None (base @ ''.%'') k"
proof -
  assume "append_index base k = Some i"
  then have "take (length base + 1) k = base @ ''.''"
    by (auto simp: append_index_def py_startswith_def split: if_splits)
  then have "k = (base @ ''.'') @ drop (length base + 1) k"
    by (metis append_take_drop_id)
  then show ?thesis using like_self [of "base @ ''.''" "drop (length base + 1) k"] by simp
qed

lemma next_append_index_filter:
  "next_append_index (filter (sql_like None (base @ ''.%'')) ks) base = next_append_index ks base"
proof -
  have "List.map_filter (append_index base) (filter (sql_like None (base @ ''.%'')) ks) =
      List.map_filter (append_index base) ks"
    by (induction ks) (auto simp: List.map_filter_simps append_index_like split: option.split)
  then show ?thesis by (simp add: next_append_index_def)
qed

section \<open>Buckets\<close>

lemma bucket_put:
  "bucket (bank_put e b) sc i =
     (if (sc, i) = (my_scope e, my_scope_id e) then AList.update (my_key e) e (bucket b sc i)
      else bucket b sc i)"
  by (auto simp: bucket_def bank_put_def update_conv')

lemma bucket_counters [simp]: "bucket (b\<lparr>mb_counters := c\<rparr>) sc i = bucket b sc i"
  by (simp add: bucket_def)

lemma bucket_delete:
  "bucket (bank_delete sc i k b) sc' i' =
     (if (sc', i') = (sc, i) then AList.delete k (bucket b sc i) else bucket b sc' i')"
  by (auto simp: bucket_def bank_delete_def update_conv' split: option.split)

lemma counters_put [simp]: "append_counter (bank_put e b) sc i k = append_counter b sc i k"
  by (simp add: append_counter_def bank_put_def)

definition bucket_ok :: "memory_scope \<Rightarrow> string \<Rightarrow> (string \<times> memory_entry) list \<Rightarrow> bool" where
  "bucket_ok sc i es \<longleftrightarrow> distinct (map fst es) \<and>
     (\<forall>p \<in> set es. my_key (snd p) = fst p \<and> my_scope (snd p) = sc \<and> my_scope_id (snd p) = i)"

lemma bucket_ok_update:
  assumes "bucket_ok sc i es" "my_scope e = sc" "my_scope_id e = i"
  shows "bucket_ok sc i (AList.update (my_key e) e es)"
proof -
  have "distinct (map fst (AList.update (my_key e) e es))"
    using assms(1) by (intro distinct_update) (simp add: bucket_ok_def)
  with assms show ?thesis
    by (auto simp: bucket_ok_def dest!: subsetD [OF set_update_subset])
qed

lemma bucket_ok_delete: "bucket_ok sc i es \<Longrightarrow> bucket_ok sc i (AList.delete k es)"
  by (auto simp: bucket_ok_def AList.delete_eq distinct_map_filter)

definition bank_ok :: "memory_bank \<Rightarrow> bool" where
  "bank_ok b \<longleftrightarrow> (\<forall>sc i. bucket_ok sc i (bucket b sc i))"

lemma bank_ok_empty [simp]: "bank_ok empty_bank"
  by (simp add: bank_ok_def bucket_ok_def empty_bank_def bucket_def)

lemma bank_ok_put: "bank_ok b \<Longrightarrow> bank_ok (bank_put e b)"
  by (auto simp: bank_ok_def bucket_put intro: bucket_ok_update)

lemma bank_ok_delete: "bank_ok b \<Longrightarrow> bank_ok (bank_delete sc i k b)"
  by (auto simp: bank_ok_def bucket_delete intro: bucket_ok_delete)

lemma bank_ok_counters [simp]: "bank_ok (b\<lparr>mb_counters := c\<rparr>) \<longleftrightarrow> bank_ok b"
  by (simp add: bank_ok_def)

lemma bank_append_alt:
  "bank_append now sc i k v md b =
     (let e = \<lparr>my_scope = sc, my_scope_id = i, my_key = numbered_key k (append_counter b sc i k), my_value = v,
        my_created_at = now, my_metadata = md\<rparr> in
      (e, bank_put e (b\<lparr>mb_counters := AList.update (sc, i, k) (append_counter b sc i k + 1) (mb_counters b)\<rparr>)))"
  by (simp add: bank_append_def Let_def)

lemma bank_ok_append: "bank_ok b \<Longrightarrow> bank_append now sc i k v md b = (e, b') \<Longrightarrow> bank_ok b'"
  using bank_ok_put [of "b\<lparr>mb_counters := AList.update (sc, i, k) (append_counter b sc i k + 1) (mb_counters b)\<rparr>" e]
  by (simp add: bank_append_alt Let_def) blast

section \<open>Rows of a bank\<close>

definition represents :: "(memory_entry \<Rightarrow> 'p) \<Rightarrow> 'p memory_row list \<Rightarrow> memory_bank \<Rightarrow> bool" where
  "represents dump rows b \<longleftrightarrow>
     (\<forall>sc i. filter (in_scope sc i) rows = map (entry_row dump \<circ> snd) (bucket b sc i))"

text \<open>The counters of the in-memory store are where the rows say that the next append goes.\<close>

definition counters_agree :: "memory_bank \<Rightarrow> bool" where
  "counters_agree b \<longleftrightarrow>
     (\<forall>sc i k. append_counter b sc i k = next_append_index (map fst (bucket b sc i)) k)"

lemma entry_row_at [simp]:
  "in_scope sc i (entry_row dump e) \<longleftrightarrow> my_scope e = sc \<and> my_scope_id e = i"
  "mw_key (entry_row dump e) = my_key e"
  "mw_payload (entry_row dump e) = dump e"
  "mw_created_at (entry_row dump e) = py_isoformat (my_created_at e)"
  by (auto simp: in_scope_def entry_row_def)

lemma find_row_at:
  "List.find (row_at sc i k) rows = List.find (\<lambda>r. mw_key r = k) (filter (in_scope sc i) rows)"
  unfolding row_at_def by (rule find_filter)

lemma filter_row_at: "filter (row_at sc i k) rows = filter (\<lambda>r. mw_key r = k) (filter (in_scope sc i) rows)"
  by (auto simp: row_at_def intro: filter_cong)

lemma list_ex_row_at: "list_ex (row_at sc i k) rows \<longleftrightarrow> k \<in> mw_key ` set (filter (in_scope sc i) rows)"
  by (auto simp: list_ex_iff row_at_def)

lemma find_bucket:
  assumes "bucket_ok sc i es"
  shows "List.find (\<lambda>r. mw_key r = k) (map (entry_row dump \<circ> snd) es) = map_option (entry_row dump) (map_of es k)"
  using assms by (induction es) (auto simp: bucket_ok_def)

lemma rows_get_refines:
  assumes "\<And>e. load (dump e) = Some e" "represents dump rows b" "bank_ok b"
  shows "rows_get load rows sc i k = Inr (bank_get b sc i k)"
proof -
  have "List.find (row_at sc i k) rows = map_option (entry_row dump) (map_of (bucket b sc i) k)"
    using assms(2,3) find_bucket [of sc i "bucket b sc i" k dump]
    by (simp add: find_row_at represents_def bank_ok_def)
  then show ?thesis using assms(1) by (simp add: rows_get_def bank_get_def split: option.split)
qed

lemma update_first_filter:
  assumes "\<And>r. p r \<Longrightarrow> q r = q row"
  shows "filter q (update_first p (\<lambda>_. row) rows) =
    (if q row then update_first p (\<lambda>_. row) (filter q rows) else filter q rows)"
  using assms by (induction rows) auto

lemma update_first_bucket:
  assumes "bucket_ok (my_scope e) (my_scope_id e) es" "my_key e \<in> fst ` set es"
  shows "update_first (row_at (my_scope e) (my_scope_id e) (my_key e)) (\<lambda>_. entry_row dump e)
      (map (entry_row dump \<circ> snd) es) = map (entry_row dump \<circ> snd) (AList.update (my_key e) e es)"
  using assms by (induction es) (auto simp: bucket_ok_def row_at_def)

lemma rows_put_refines:
  assumes "represents dump rows b" "bank_ok b"
  shows "represents dump (rows_put dump e rows) (bank_put e b)"
  unfolding represents_def
proof (intro allI)
  fix sc i
  let ?p = "row_at (my_scope e) (my_scope_id e) (my_key e)"
  let ?es = "bucket b (my_scope e) (my_scope_id e)"
  have r: "filter (in_scope sc' i') rows = map (entry_row dump \<circ> snd) (bucket b sc' i')" for sc' i'
    using assms(1) by (simp add: represents_def)
  have ok: "bucket_ok (my_scope e) (my_scope_id e) ?es" using assms(2) by (simp add: bank_ok_def)
  have p: "in_scope sc i r = in_scope sc i (entry_row dump e)" if "?p r" for r
    using that by (auto simp: row_at_def in_scope_def entry_row_def)
  have ex: "list_ex ?p rows \<longleftrightarrow> my_key e \<in> fst ` set ?es"
    using ok by (force simp: list_ex_row_at r bucket_ok_def)
  show "filter (in_scope sc i) (rows_put dump e rows) = map (entry_row dump \<circ> snd) (bucket (bank_put e b) sc i)"
  proof (cases "my_key e \<in> fst ` set ?es")
    case True
    then show ?thesis
      using update_first_filter [of ?p "in_scope sc i" "entry_row dump e" rows, OF p]
        update_first_bucket [OF ok True, of dump] ex
      by (auto simp: rows_put_def bucket_put r)
  next
    case False
    then show ?thesis
      using ex by (auto simp: rows_put_def bucket_put r keys_update_new)
  qed
qed

lemma rows_delete_refines:
  assumes "represents dump rows b" "bank_ok b"
  shows "represents dump (rows_delete sc i k rows) (bank_delete sc i k b)"
  unfolding represents_def
proof (intro allI)
  fix sc' i'
  have r: "filter (in_scope sc' i') rows = map (entry_row dump \<circ> snd) (bucket b sc' i')"
    using assms(1) by (simp add: represents_def)
  have ok: "bucket_ok sc' i' (bucket b sc' i')" using assms(2) by (simp add: bank_ok_def)
  have "filter (in_scope sc' i') (rows_delete sc i k rows) =
      filter (\<lambda>r. \<not> ((sc', i') = (sc, i) \<and> mw_key r = k)) (filter (in_scope sc' i') rows)"
    by (auto simp: rows_delete_def row_at_def in_scope_def intro!: filter_cong)
  also have "\<dots> = map (entry_row dump \<circ> snd) (bucket (bank_delete sc i k b) sc' i')"
  proof (cases "(sc', i') = (sc, i)")
    case True
    have "filter (\<lambda>p. my_key (snd p) \<noteq> k) (bucket b sc i) = AList.delete k (bucket b sc i)"
      using ok True unfolding AList.delete_eq by (intro filter_cong) (auto simp: bucket_ok_def)
    with True show ?thesis unfolding r by (simp add: bucket_delete filter_map o_def)
  next
    case False
    then show ?thesis unfolding r by (auto simp: bucket_delete)
  qed
  finally show "filter (in_scope sc' i') (rows_delete sc i k rows) =
    map (entry_row dump \<circ> snd) (bucket (bank_delete sc i k b) sc' i')" .
qed

lemma load_rows_dump:
  "(\<And>e. load (dump e) = Some e) \<Longrightarrow> load_rows load (map (entry_row dump) es) = Inr es"
  by (induction es) auto

lemma insort_key_cong:
  "(\<And>x y. x \<in> insert a (set xs) \<Longrightarrow> y \<in> insert a (set xs) \<Longrightarrow> f x \<le> f y \<longleftrightarrow> g x \<le> g y) \<Longrightarrow>
   insort_key f a xs = insort_key g a xs"
  by (induction xs) auto

lemma sort_key_cong_order:
  assumes "\<And>x y. x \<in> set xs \<Longrightarrow> y \<in> set xs \<Longrightarrow> f x \<le> f y \<longleftrightarrow> g x \<le> g y"
  shows "sort_key f xs = sort_key g xs"
  using assms
proof (induction xs)
  case (Cons a xs)
  then have "sort_key f xs = sort_key g xs" by simp
  moreover have "insort_key f a (sort_key g xs) = insort_key g a (sort_key g xs)"
    by (rule insort_key_cong) (use Cons.prems in auto)
  ultimately show ?case by simp
qed simp

lemma sort_key_map_entry: "sort_key h (map g xs) = map g (sort_key (h \<circ> g) xs)"
proof -
  have i: "insort_key h (g x) (map g ys) = map g (insort_key (h \<circ> g) x ys)" for x ys
    by (induction ys) auto
  show ?thesis by (induction xs) (simp_all add: i del: o_apply)
qed

text \<open>The stored times sort as text as they sort as times, and the prefix does not select by case.\<close>

definition well_stamped :: "memory_entry list \<Rightarrow> bool" where
  "well_stamped es \<longleftrightarrow> (\<forall>a \<in> set es. \<forall>b \<in> set es.
     py_isoformat (my_created_at a) \<le> py_isoformat (my_created_at b) \<longleftrightarrow> my_created_at a \<le> my_created_at b)"

definition case_clean :: "string option \<Rightarrow> memory_entry list \<Rightarrow> bool" where
  "case_clean p es \<longleftrightarrow> (case p of None \<Rightarrow> True
     | Some q \<Rightarrow> \<forall>e \<in> set es. like_prefix q (my_key e) \<longrightarrow> py_startswith (my_key e) q)"

lemma rows_scan_entries:
  assumes "\<And>e. load (dump e) = Some e" "represents dump rows b"
  shows "rows_scan load rows sc i p = Inr (sort_key (py_isoformat \<circ> my_created_at)
    (filter (\<lambda>e. case p of None \<Rightarrow> True | Some q \<Rightarrow> like_prefix q (my_key e)) (map snd (bucket b sc i))))"
proof -
  let ?l = "\<lambda>k. case p of None \<Rightarrow> True | Some q \<Rightarrow> like_prefix q k"
  have "filter (\<lambda>r. in_scope sc i r \<and> (case p of None \<Rightarrow> True
        | Some q \<Rightarrow> sql_like (Some backslash) (escape_like q @ ''%'') (mw_key r))) rows
      = filter (\<lambda>r. ?l (mw_key r)) (filter (in_scope sc i) rows)"
    by (auto simp: sql_like_escaped conj_commute intro!: filter_cong split: option.split)
  also have "\<dots> = map (entry_row dump) (filter (\<lambda>e. ?l (my_key e)) (map snd (bucket b sc i)))"
    using assms(2) by (simp add: represents_def filter_map o_def cong: option.case_cong)
  finally have "rows_scan load rows sc i p = load_rows load (sort_key mw_created_at
      (map (entry_row dump) (filter (\<lambda>e. ?l (my_key e)) (map snd (bucket b sc i)))))"
    unfolding rows_scan_def by (rule arg_cong)
  then show ?thesis
    using load_rows_dump [of load dump] assms(1) by (simp add: sort_key_map_entry o_def)
qed

lemma rows_scan_refines:
  assumes "\<And>e. load (dump e) = Some e" "represents dump rows b"
    "well_stamped (map snd (bucket b sc i))" "case_clean p (map snd (bucket b sc i))"
  shows "rows_scan load rows sc i p = Inr (bank_scan b sc i p)"
proof -
  let ?es = "map snd (bucket b sc i)"
  let ?fs = "filter (\<lambda>e. case p of None \<Rightarrow> True | Some q \<Rightarrow> like_prefix q (my_key e)) ?es"
  have f: "?fs = (case p of None \<Rightarrow> ?es | Some q \<Rightarrow> filter (\<lambda>e. py_startswith (my_key e) q) ?es)"
    using assms(4) startswith_like by (auto simp: case_clean_def intro!: filter_cong split: option.splits)
  have "sort_key (py_isoformat \<circ> my_created_at) ?fs = sort_key my_created_at ?fs"
    using assms(3) by (intro sort_key_cong_order) (auto simp: well_stamped_def)
  then show ?thesis
    using rows_scan_entries [OF assms(1,2)] f by (simp add: bank_scan_def Let_def)
qed

section \<open>Appending\<close>

definition plain_key :: "string \<Rightarrow> bool" where
  "plain_key k \<longleftrightarrow> list_all (\<lambda>j. append_index (take j k) k = None) [0..<length k]"

lemma plain_keyD: "plain_key k \<Longrightarrow> append_index base k = None"
proof (rule ccontr)
  assume k: "plain_key k" and n: "append_index base k \<noteq> None"
  then have "py_startswith k (base @ ''.'')" by (auto simp: append_index_def split: if_splits)
  then have t: "take (length base + 1) k = base @ ''.''" by (simp add: py_startswith_def)
  have "length (take (length base + 1) k) = length base + 1" by (simp only: t) simp
  then have l: "length base < length k" by simp
  have "take (length base) k = take (length base) (take (length base + 1) k)" by (simp add: min_def)
  also have "\<dots> = base" by (simp only: t) simp
  finally have b: "take (length base) k = base" .
  have "append_index (take (length base) k) k = None" using k l by (auto simp: plain_key_def list_all_iff)
  with b n show False by simp
qed

lemma keys_put:
  "map fst (bucket (bank_put e b) sc i) =
     (if (sc, i) = (my_scope e, my_scope_id e) \<and> my_key e \<notin> fst ` set (bucket b sc i)
      then map fst (bucket b sc i) @ [my_key e] else map fst (bucket b sc i))"
  by (auto simp: bucket_put update_keys)

lemma counters_agree_put:
  assumes "counters_agree b" "plain_key (my_key e)"
  shows "counters_agree (bank_put e b)"
  using assms by (simp add: counters_agree_def keys_put next_append_index_snoc plain_keyD)

lemma next_key_fresh:
  "numbered_key k (next_append_index ks k) \<notin> set ks"
  using next_append_index_above [of "numbered_key k (next_append_index ks k)" ks k] by auto

lemma bank_append_bucket:
  assumes "bank_append now sc i k v md b = (e, b')" "counters_agree b"
  shows "bucket b' sc' i' = (if (sc', i') = (sc, i) then bucket b sc i @ [(my_key e, e)] else bucket b sc' i')"
    "my_key e = numbered_key k (next_append_index (map fst (bucket b sc i)) k)"
    "my_scope e = sc" "my_scope_id e = i" "my_value e = v" "my_metadata e = md" "my_created_at e = now"
proof -
  let ?n = "append_counter b sc i k"
  have n: "?n = next_append_index (map fst (bucket b sc i)) k" using assms(2) by (simp add: counters_agree_def)
  have e: "e = \<lparr>my_scope = sc, my_scope_id = i, my_key = numbered_key k ?n, my_value = v,
      my_created_at = now, my_metadata = md\<rparr>"
    using assms(1) by (simp add: bank_append_alt Let_def)
  have b': "b' = bank_put e (b\<lparr>mb_counters := AList.update (sc, i, k) (?n + 1) (mb_counters b)\<rparr>)"
    using assms(1) unfolding e by (simp add: bank_append_alt Let_def)
  show "my_key e = numbered_key k (next_append_index (map fst (bucket b sc i)) k)"
    "my_scope e = sc" "my_scope_id e = i" "my_value e = v" "my_metadata e = md" "my_created_at e = now"
    by (simp_all add: e n)
  have "my_key e \<notin> fst ` set (bucket b sc i)"
    using next_key_fresh [of k "map fst (bucket b sc i)"] by (simp add: e n)
  then show "bucket b' sc' i' = (if (sc', i') = (sc, i) then bucket b sc i @ [(my_key e, e)] else bucket b sc' i')"
    by (auto simp: b' bucket_put e keys_update_new)
qed

lemma counters_agree_append:
  assumes "bank_append now sc i k v md b = (e, b')" "counters_agree b"
  shows "counters_agree b'"
  unfolding counters_agree_def
proof (intro allI)
  fix sc' i' base
  note a = bank_append_bucket [OF assms]
  let ?ks = "map fst (bucket b sc' i')"
  have c: "append_counter b' sc' i' base =
      (if (sc', i', base) = (sc, i, k) then append_counter b sc i k + 1 else append_counter b sc' i' base)"
    using assms(1) by (auto simp: bank_append_alt Let_def append_counter_def bank_put_def update_conv')
  have n: "append_counter b sc' i' base = next_append_index ?ks base"
    using assms(2) by (simp add: counters_agree_def)
  show "append_counter b' sc' i' base = next_append_index (map fst (bucket b' sc' i')) base"
  proof (cases "(sc', i') = (sc, i)")
    case True
    then have "map fst (bucket b' sc' i') = ?ks @ [numbered_key k (next_append_index ?ks k)]"
      using a(1,2) by simp
    with True c n show ?thesis
      by (cases "base = k") (simp_all add: next_append_index_snoc append_index_other)
  next
    case False
    with a(1) c n show ?thesis by auto
  qed
qed

lemma rows_append_refines:
  assumes "represents dump rows b" "bank_ok b" "counters_agree b" "bank_append now sc i k v md b = (e, b')"
  shows "\<exists>rows'. rows_append dump now sc i k v md rows = Inr (e, rows') \<and> represents dump rows' b'"
proof -
  note a = bank_append_bucket [OF assms(4,3)]
  let ?ks = "map fst (bucket b sc i)"
  have r: "filter (in_scope sc' i') rows = map (entry_row dump \<circ> snd) (bucket b sc' i')" for sc' i'
    using assms(1) by (simp add: represents_def)
  have keys: "map mw_key (filter (in_scope sc i) rows) = ?ks"
    using assms(2) unfolding r by (auto simp: bank_ok_def bucket_ok_def)
  have "map mw_key (filter (\<lambda>r. in_scope sc i r \<and> sql_like None (k @ ''.%'') (mw_key r)) rows) =
      filter (sql_like None (k @ ''.%'')) (map mw_key (filter (in_scope sc i) rows))"
    by (simp add: filter_map o_def conj_commute)
  then have idx: "next_append_index (map mw_key (filter (\<lambda>r. in_scope sc i r \<and>
      sql_like None (k @ ''.%'') (mw_key r)) rows)) k = next_append_index ?ks k"
    by (simp only: keys next_append_index_filter)
  have e: "e = \<lparr>my_scope = sc, my_scope_id = i, my_key = numbered_key k (next_append_index ?ks k), my_value = v,
      my_created_at = now, my_metadata = md\<rparr>"
    using a(2-) by simp
  have "\<not> list_ex (row_at sc i (my_key e)) rows"
    using next_key_fresh [of k ?ks] by (simp add: list_ex_row_at a(2) flip: keys)
  then have "rows_append dump now sc i k v md rows = Inr (e, rows @ [entry_row dump e])"
    unfolding rows_append_def Let_def idx by (simp flip: e)
  moreover have "represents dump (rows @ [entry_row dump e]) b'"
    using r a(1,3,4) by (auto simp: represents_def)
  ultimately show ?thesis by blast
qed

section \<open>The refinement\<close>

datatype memory_op =
    Memory_put memory_entry
  | Memory_append time memory_scope string string json pydict
  | Memory_get memory_scope string string
  | Memory_scan memory_scope string "string option"

datatype memory_answer = Entry_answer "memory_entry option" | Entries_answer "memory_entry list"

fun bank_step :: "memory_op \<Rightarrow> memory_bank \<Rightarrow> memory_answer \<times> memory_bank" where
  "bank_step (Memory_put e) b = (Entry_answer None, bank_put e b)"
| "bank_step (Memory_append now sc i k v md) b =
     (case bank_append now sc i k v md b of (e, b') \<Rightarrow> (Entry_answer (Some e), b'))"
| "bank_step (Memory_get sc i k) b = (Entry_answer (bank_get b sc i k), b)"
| "bank_step (Memory_scan sc i p) b = (Entries_answer (bank_scan b sc i p), b)"

fun rows_step ::
    "(memory_entry \<Rightarrow> 'p) \<Rightarrow> ('p \<Rightarrow> memory_entry option) \<Rightarrow> memory_op \<Rightarrow> 'p memory_row list \<Rightarrow>
     exn + memory_answer \<times> 'p memory_row list" where
  "rows_step dump load (Memory_put e) rows = Inr (Entry_answer None, rows_put dump e rows)"
| "rows_step dump load (Memory_append now sc i k v md) rows =
     and_then (rows_append dump now sc i k v md rows) (\<lambda>(e, rows'). Inr (Entry_answer (Some e), rows'))"
| "rows_step dump load (Memory_get sc i k) rows =
     and_then (rows_get load rows sc i k) (\<lambda>e. Inr (Entry_answer e, rows))"
| "rows_step dump load (Memory_scan sc i p) rows =
     and_then (rows_scan load rows sc i p) (\<lambda>es. Inr (Entries_answer es, rows))"

text \<open>The operations on which the two stores agree, given what is stored.\<close>

fun agreeable :: "memory_op \<Rightarrow> memory_bank \<Rightarrow> bool" where
  "agreeable (Memory_put e) b = plain_key (my_key e)"
| "agreeable (Memory_append now sc i k v md) b = True"
| "agreeable (Memory_get sc i k) b = True"
| "agreeable (Memory_scan sc i p) b =
     (well_stamped (map snd (bucket b sc i)) \<and> case_clean p (map snd (bucket b sc i)))"

fun run_bank :: "memory_op list \<Rightarrow> memory_bank \<Rightarrow> memory_answer list \<times> memory_bank" where
  "run_bank [] b = ([], b)"
| "run_bank (x # xs) b =
     (case bank_step x b of (a, b1) \<Rightarrow> (case run_bank xs b1 of (as, b2) \<Rightarrow> (a # as, b2)))"

fun run_rows ::
    "(memory_entry \<Rightarrow> 'p) \<Rightarrow> ('p \<Rightarrow> memory_entry option) \<Rightarrow> memory_op list \<Rightarrow> 'p memory_row list \<Rightarrow>
     exn + memory_answer list \<times> 'p memory_row list" where
  "run_rows dump load [] rows = Inr ([], rows)"
| "run_rows dump load (x # xs) rows =
     and_then (rows_step dump load x rows) (\<lambda>(a, rows1).
     and_then (run_rows dump load xs rows1) (\<lambda>(as, rows2). Inr (a # as, rows2)))"

fun agreeable_run :: "memory_op list \<Rightarrow> memory_bank \<Rightarrow> bool" where
  "agreeable_run [] b = True"
| "agreeable_run (x # xs) b = (agreeable x b \<and> agreeable_run xs (snd (bank_step x b)))"

definition simulated :: "(memory_entry \<Rightarrow> 'p) \<Rightarrow> 'p memory_row list \<Rightarrow> memory_bank \<Rightarrow> bool" where
  "simulated dump rows b \<longleftrightarrow> represents dump rows b \<and> bank_ok b \<and> counters_agree b"

lemma step_refines:
  assumes "\<And>e. load (dump e) = Some e" "simulated dump rows b" "agreeable x b" "bank_step x b = (a, b')"
  shows "\<exists>rows'. rows_step dump load x rows = Inr (a, rows') \<and> simulated dump rows' b'"
proof -
  have s: "represents dump rows b" "bank_ok b" "counters_agree b" using assms(2) by (simp_all add: simulated_def)
  show ?thesis
  proof (cases x)
    case (Memory_put e)
    with assms(3,4) s show ?thesis
      by (auto simp: simulated_def intro: rows_put_refines bank_ok_put counters_agree_put)
  next
    case (Memory_append now sc i k v md)
    obtain e b1 where e: "bank_append now sc i k v md b = (e, b1)" by force
    with Memory_append assms(4) have a: "a = Entry_answer (Some e)" "b' = b1" by simp_all
    from rows_append_refines [OF s e] obtain rows' where
      "rows_append dump now sc i k v md rows = Inr (e, rows')" "represents dump rows' b1" by blast
    with Memory_append a bank_ok_append [OF s(2) e] counters_agree_append [OF e s(3)] show ?thesis
      by (simp add: simulated_def)
  next
    case (Memory_get sc i k)
    with assms(4) rows_get_refines [of load dump, OF assms(1) s(1,2)] assms(2) show ?thesis by auto
  next
    case (Memory_scan sc i p)
    with assms(3,4) rows_scan_refines [of load dump rows b sc i p] assms(1,2) s(1) show ?thesis by auto
  qed
qed

lemma run_refines:
  assumes "\<And>e. load (dump e) = Some e" "simulated dump rows b" "agreeable_run xs b" "run_bank xs b = (as, b')"
  shows "\<exists>rows'. run_rows dump load xs rows = Inr (as, rows') \<and> simulated dump rows' b'"
  using assms(2-)
proof (induction xs arbitrary: rows b as)
  case (Cons x xs)
  obtain a b1 as1 where x: "bank_step x b = (a, b1)" "run_bank xs b1 = (as1, b')" "as = a # as1"
    using Cons.prems(3) by (auto split: prod.splits)
  obtain rows1 where 1: "rows_step dump load x rows = Inr (a, rows1)" "simulated dump rows1 b1"
    using step_refines [OF assms(1) Cons.prems(1) _ x(1)] Cons.prems(2) by auto
  obtain rows2 where "run_rows dump load xs rows1 = Inr (as1, rows2)" "simulated dump rows2 b'"
    using Cons.IH [OF 1(2) _ x(2)] Cons.prems(2) x(1) by auto
  with 1 x(3) show ?case by simp
qed simp

lemma simulated_empty [simp]: "simulated dump [] empty_bank"
proof -
  have "represents dump [] empty_bank" "counters_agree empty_bank"
    by (simp_all add: represents_def counters_agree_def empty_bank_def bucket_def append_counter_def)
  then show ?thesis by (simp add: simulated_def)
qed

end
