(* ===== verification/Memory_Authority.thy ===== *)
theory Memory_Authority
  imports Memory_Facts Py_Values
begin

text \<open>
  \<^verbatim>\<open>memory/ownership.py\<close>: the authority through which every write goes that can influence
  later prompts, gates or recovery. The protocol \<^verbatim>\<open>MemoryStore\<close> is the record of the two
  operations that the authority calls; both stores provide it. The locale \<open>memory_log\<close> is what the
  authority relies on, and its lemmas say that a write with an idempotency key happens once,
  whatever process repeats it.
\<close>

section \<open>The store protocol\<close>

record 'm memory_ops =
  mo_append :: "time \<Rightarrow> memory_scope \<Rightarrow> string \<Rightarrow> string \<Rightarrow> json \<Rightarrow> pydict \<Rightarrow> 'm \<Rightarrow> exn + memory_entry \<times> 'm"
  mo_scan :: "'m \<Rightarrow> memory_scope \<Rightarrow> string \<Rightarrow> string option \<Rightarrow> exn + memory_entry list"

definition bank_ops :: "memory_bank memory_ops" where
  "bank_ops = \<lparr>mo_append = (\<lambda>now sc i k v md b. Inr (bank_append now sc i k v md b)),
     mo_scan = (\<lambda>b sc i p. Inr (bank_scan b sc i p))\<rparr>"

definition rows_ops :: "(memory_entry \<Rightarrow> 'p) \<Rightarrow> ('p \<Rightarrow> memory_entry option) \<Rightarrow> 'p memory_row list memory_ops" where
  "rows_ops dump load = \<lparr>mo_append = rows_append dump, mo_scan = rows_scan load\<rparr>"

section \<open>The authority\<close>

datatype memory_write_class = TELEMETRY | PROMPT_AFFECTING | GATE_AFFECTING | RECOVERY_AFFECTING

fun write_class_value :: "memory_write_class \<Rightarrow> string" where
  "write_class_value TELEMETRY = ''telemetry''"
| "write_class_value PROMPT_AFFECTING = ''prompt_affecting''"
| "write_class_value GATE_AFFECTING = ''gate_affecting''"
| "write_class_value RECOVERY_AFFECTING = ''recovery_affecting''"

definition is_runtime_influencing :: "memory_write_class \<Rightarrow> bool" where
  "is_runtime_influencing c \<longleftrightarrow> c \<in> {PROMPT_AFFECTING, GATE_AFFECTING, RECOVERY_AFFECTING}"

record 'm memory_authority =
  ma_store :: 'm
  ma_versions :: "((memory_scope \<times> string \<times> string) \<times> nat) list"

definition fresh_authority :: "'m \<Rightarrow> 'm memory_authority" where
  "fresh_authority store = \<lparr>ma_store = store, ma_versions = []\<rparr>"

record memory_write =
  ww_scope :: memory_scope
  ww_scope_id :: string
  ww_key :: string
  ww_value :: json
  ww_class :: memory_write_class
  ww_metadata :: pydict
  ww_idempotency :: "string option"

definition has_idempotency_key :: "string \<Rightarrow> memory_entry \<Rightarrow> bool" where
  "has_idempotency_key x e \<longleftrightarrow> dict_get (my_metadata e) ''memory_idempotency_key'' = JStr x"

text \<open>\<^verbatim>\<open>_find_by_idempotency_key\<close>; a failed scan becomes the error of the authority.\<close>

definition find_by_idempotency_key ::
    "'m memory_ops \<Rightarrow> 'm \<Rightarrow> memory_scope \<Rightarrow> string \<Rightarrow> string \<Rightarrow> string \<Rightarrow> exn + memory_entry option" where
  "find_by_idempotency_key ops store scope scope_id key x =
     (case mo_scan ops store scope scope_id (Some key) of
        Inl _ \<Rightarrow> Inl MemoryWriteError
      | Inr es \<Rightarrow> Inr (List.find (has_idempotency_key x) es))"

definition next_version :: "'m memory_authority \<Rightarrow> memory_write \<Rightarrow> nat" where
  "next_version a q = (case map_of (ma_versions a) (ww_scope q, ww_scope_id q, ww_key q) of
     None \<Rightarrow> 0 | Some n \<Rightarrow> n + 1)"

definition stamped_metadata :: "memory_write \<Rightarrow> nat \<Rightarrow> pydict" where
  "stamped_metadata q version =
     (let d = AList.update ''memory_write_version'' (JInt (int version))
            (AList.update ''memory_write_class'' (JStr (write_class_value (ww_class q))) (ww_metadata q)) in
      case ww_idempotency q of None \<Rightarrow> d | Some x \<Rightarrow> AList.update ''memory_idempotency_key'' (JStr x) d)"

definition write_new ::
    "'m memory_ops \<Rightarrow> time \<Rightarrow> memory_write \<Rightarrow> 'm memory_authority \<Rightarrow> exn + memory_entry \<times> 'm memory_authority" where
  "write_new ops now q a =
     (case mo_append ops now (ww_scope q) (ww_scope_id q) (ww_key q) (ww_value q)
         (stamped_metadata q (next_version a q)) (ma_store a) of
        Inl _ \<Rightarrow> Inl MemoryWriteError
      | Inr (e, m) \<Rightarrow> Inr (e, \<lparr>ma_store = m,
          ma_versions = AList.update (ww_scope q, ww_scope_id q, ww_key q) (next_version a q) (ma_versions a)\<rparr>))"

definition authority_append ::
    "'m memory_ops \<Rightarrow> time \<Rightarrow> memory_write \<Rightarrow> 'm memory_authority \<Rightarrow> exn + memory_entry \<times> 'm memory_authority" where
  "authority_append ops now q a =
     and_then (raise_when (\<not> is_runtime_influencing (ww_class q)) ValueError) (\<lambda>_.
     case ww_idempotency q of
       None \<Rightarrow> write_new ops now q a
     | Some x \<Rightarrow>
         and_then (find_by_idempotency_key ops (ma_store a) (ww_scope q) (ww_scope_id q) (ww_key q) x)
           (\<lambda>found. case found of Some e \<Rightarrow> Inr (e, a) | None \<Rightarrow> write_new ops now q a))"

text \<open>A sequence of writes; a restart of the process replaces the authority by a fresh one.\<close>

datatype authority_step = Write time memory_write | Restart

fun authority_step_of ::
    "'m memory_ops \<Rightarrow> authority_step \<Rightarrow> 'm memory_authority \<Rightarrow> exn + 'm memory_authority" where
  "authority_step_of ops (Write now q) a = map_sum id snd (authority_append ops now q a)"
| "authority_step_of ops Restart a = Inr (fresh_authority (ma_store a))"

section \<open>What the authority stamps\<close>

lemma write_class_value_eq [simp]: "write_class_value c = write_class_value d \<longleftrightarrow> c = d"
  by (cases c; cases d) simp_all

lemma telemetry_is_refused:
  "authority_append ops now q a = Inl ValueError \<or> is_runtime_influencing (ww_class q)"
  by (auto simp: authority_append_def raise_when_def)

lemma dict_get_update [simp]: "dict_get (AList.update k v d) k' = (if k' = k then v else dict_get d k')"
  by (simp add: dict_get_def)

lemma stamped_class: "dict_get (stamped_metadata q n) ''memory_write_class'' = JStr (write_class_value (ww_class q))"
  by (simp add: stamped_metadata_def Let_def split: option.splits)

lemma stamped_version: "dict_get (stamped_metadata q n) ''memory_write_version'' = JInt (int n)"
  by (simp add: stamped_metadata_def Let_def split: option.splits)

lemma stamped_key:
  "dict_get (stamped_metadata q n) ''memory_idempotency_key'' =
     (case ww_idempotency q of Some x \<Rightarrow> JStr x
      | None \<Rightarrow> dict_get (ww_metadata q) ''memory_idempotency_key'')"
  by (simp add: stamped_metadata_def Let_def split: option.splits)

section \<open>The laws of a log\<close>

definition wrote :: "string \<Rightarrow> memory_entry list \<Rightarrow> nat" where
  "wrote x es = length (filter (has_idempotency_key x) es)"

lemma wrote_mset: "wrote x es = size (filter_mset (has_idempotency_key x) (mset es))"
  by (simp add: wrote_def flip: mset_filter)

text \<open>Writes that carry the key \<open>x\<close> under one scope keep to one memory key \<open>k\<close>.\<close>

definition keeps_to :: "memory_scope \<Rightarrow> string \<Rightarrow> string \<Rightarrow> string \<Rightarrow> authority_step list \<Rightarrow> bool" where
  "keeps_to sc i k x steps \<longleftrightarrow> (\<forall>now q. Write now q \<in> set steps \<longrightarrow> ww_scope q = sc \<longrightarrow> ww_scope_id q = i \<longrightarrow>
     (case ww_idempotency q of Some y \<Rightarrow> y = x \<longrightarrow> ww_key q = k
      | None \<Rightarrow> dict_get (ww_metadata q) ''memory_idempotency_key'' \<noteq> JStr x))"

locale memory_log =
  fixes ops :: "'m memory_ops" and sound :: "'m \<Rightarrow> bool"
  assumes append_sound: "sound m \<Longrightarrow> mo_append ops now sc i k v md m = Inr (e, m') \<Longrightarrow> sound m'"
    and append_entry: "sound m \<Longrightarrow> mo_append ops now sc i k v md m = Inr (e, m') \<Longrightarrow>
      my_metadata e = md \<and> py_startswith (my_key e) k"
    and append_total: "sound m \<Longrightarrow> \<exists>e m'. mo_append ops now sc i k v md m = Inr (e, m')"
    and scan_total: "sound m \<Longrightarrow> \<exists>es. mo_scan ops m sc i key_prefix = Inr es"
    and append_scan: "sound m \<Longrightarrow> mo_append ops now sc i k v md m = Inr (e, m') \<Longrightarrow>
      mo_scan ops m sc i (Some p) = Inr es \<Longrightarrow> mo_scan ops m' sc i (Some p) = Inr es' \<Longrightarrow>
      mset es \<subseteq># mset es' \<and> mset es' \<subseteq># add_mset e (mset es) \<and>
      (py_startswith (my_key e) p \<longrightarrow> mset es' = add_mset e (mset es))"
    and append_elsewhere: "sound m \<Longrightarrow> mo_append ops now sc i k v md m = Inr (e, m') \<Longrightarrow>
      (sc', i') \<noteq> (sc, i) \<Longrightarrow> mo_scan ops m sc' i' key_prefix = Inr es \<Longrightarrow> mo_scan ops m' sc' i' key_prefix = Inr es' \<Longrightarrow>
      mset es' = mset es"
begin

definition written :: "'m \<Rightarrow> memory_scope \<Rightarrow> string \<Rightarrow> string \<Rightarrow> string \<Rightarrow> nat" where
  "written m sc i k x = (case mo_scan ops m sc i (Some k) of Inl _ \<Rightarrow> 0 | Inr es \<Rightarrow> wrote x es)"

lemma authority_cases:
  assumes "authority_append ops now q a = Inr (e, a')" "sound (ma_store a)"
  obtains
    (Found) x where "ww_idempotency q = Some x" "a' = a" "has_idempotency_key x e"
      "written (ma_store a) (ww_scope q) (ww_scope_id q) (ww_key q) x > 0"
  | (New) "mo_append ops now (ww_scope q) (ww_scope_id q) (ww_key q) (ww_value q)
         (stamped_metadata q (next_version a q)) (ma_store a) = Inr (e, ma_store a')"
      "\<And>x. ww_idempotency q = Some x \<Longrightarrow>
         written (ma_store a) (ww_scope q) (ww_scope_id q) (ww_key q) x = 0"
proof (cases "ww_idempotency q")
  case None
  with assms show ?thesis
    by (intro New) (auto simp: authority_append_def write_new_def split: sum.splits prod.splits)
next
  case (Some x)
  obtain es where es: "mo_scan ops (ma_store a) (ww_scope q) (ww_scope_id q) (Some (ww_key q)) = Inr es"
    using scan_total [OF assms(2)] by blast
  show ?thesis
  proof (cases "List.find (has_idempotency_key x) es")
    case None
    then have "filter (has_idempotency_key x) es = []" by (auto simp: find_None_iff filter_empty_conv)
    with assms Some None es show ?thesis
      by (intro New) (auto simp: authority_append_def write_new_def find_by_idempotency_key_def written_def
          wrote_def split: sum.splits prod.splits)
  next
    case found: (Some e')
    then have "e' \<in> set es" "has_idempotency_key x e'" by (auto dest: find_Some_in)
    then have "filter (has_idempotency_key x) es \<noteq> []" by (auto simp: filter_empty_conv)
    with assms Some found es \<open>has_idempotency_key x e'\<close> show ?thesis
      by (intro Found [of x])
         (auto simp: authority_append_def find_by_idempotency_key_def written_def wrote_def)
  qed
qed

lemma authority_sound:
  "authority_append ops now q a = Inr (e, a') \<Longrightarrow> sound (ma_store a) \<Longrightarrow> sound (ma_store a')"
  by (erule (1) authority_cases) (auto intro: append_sound)

lemma written_eq:
  "mo_scan ops m sc i (Some k) = Inr es \<Longrightarrow> written m sc i k x = size (filter_mset (has_idempotency_key x) (mset es))"
  by (simp add: written_def wrote_mset)

lemma written_append:
  assumes "sound m" "mo_append ops now sc i k v md m = Inr (e, m')"
  shows "written m sc' i' p x \<le> written m' sc' i' p x"
    "written m' sc' i' p x \<le> written m sc' i' p x + 1"
    "(sc', i') \<noteq> (sc, i) \<or> \<not> has_idempotency_key x e \<Longrightarrow> written m' sc' i' p x = written m sc' i' p x"
    "(sc', i') = (sc, i) \<Longrightarrow> has_idempotency_key x e \<Longrightarrow> py_startswith (my_key e) p \<Longrightarrow>
      written m' sc' i' p x = written m sc' i' p x + 1"
proof -
  let ?f = "filter_mset (has_idempotency_key x)"
  obtain es where es: "mo_scan ops m sc' i' (Some p) = Inr es" using scan_total [OF assms(1)] by blast
  obtain es' where es': "mo_scan ops m' sc' i' (Some p) = Inr es'"
    using scan_total [OF append_sound [OF assms]] by blast
  note w = written_eq [OF es, of x] written_eq [OF es', of x]
  have *: "?f (mset es) \<subseteq># ?f (mset es') \<and> ?f (mset es') \<subseteq># ?f (add_mset e (mset es))"
  proof (cases "(sc', i') = (sc, i)")
    case True
    then have "mset es \<subseteq># mset es' \<and> mset es' \<subseteq># add_mset e (mset es)"
      using append_scan [OF assms, of p es es'] es es' by simp
    then show ?thesis by (simp only: multiset_filter_mono)
  next
    case False
    with append_elsewhere [OF assms _ es es'] show ?thesis by auto
  qed
  then have le: "size (?f (mset es)) \<le> size (?f (mset es'))"
      "size (?f (mset es')) \<le> size (?f (add_mset e (mset es)))"
    by (simp_all add: size_mset_mono)
  then show "written m sc' i' p x \<le> written m' sc' i' p x"
    "written m' sc' i' p x \<le> written m sc' i' p x + 1"
    unfolding w by (auto split: if_splits)
  show "written m' sc' i' p x = written m sc' i' p x"
    if "(sc', i') \<noteq> (sc, i) \<or> \<not> has_idempotency_key x e"
    using that
  proof
    assume "(sc', i') \<noteq> (sc, i)"
    with append_elsewhere [OF assms _ es es'] show ?thesis unfolding w by simp
  next
    assume "\<not> has_idempotency_key x e"
    with le show ?thesis unfolding w by simp
  qed
  show "written m' sc' i' p x = written m sc' i' p x + 1"
    if same: "(sc', i') = (sc, i)" and h: "has_idempotency_key x e" "py_startswith (my_key e) p"
    using append_scan [OF assms, of p es es'] es es' same h unfolding w by simp
qed

lemma written_grows:
  "authority_append ops now q a = Inr (e, a') \<Longrightarrow> sound (ma_store a) \<Longrightarrow>
   written (ma_store a) sc i k x \<le> written (ma_store a') sc i k x"
  by (erule (1) authority_cases) (auto dest: written_append(1))

lemma stamped_entry:
  assumes "mo_append ops now sc i k v (stamped_metadata q n) m = Inr (e, m')" "sound m"
  shows "has_idempotency_key x e \<longleftrightarrow> (case ww_idempotency q of Some y \<Rightarrow> x = y
    | None \<Rightarrow> dict_get (ww_metadata q) ''memory_idempotency_key'' = JStr x)"
  using append_entry [OF assms(2,1)] by (auto simp: has_idempotency_key_def stamped_key split: option.splits)

lemma writes_once:
  assumes "authority_append ops now q a = Inr (e, a')" "sound (ma_store a)" "ww_idempotency q = Some x"
  shows "written (ma_store a') (ww_scope q) (ww_scope_id q) (ww_key q) x =
      max 1 (written (ma_store a) (ww_scope q) (ww_scope_id q) (ww_key q) x) \<and> has_idempotency_key x e"
  using assms(1,2)
proof (cases rule: authority_cases)
  case (Found y)
  with assms(3) show ?thesis by auto
next
  case New
  have h: "has_idempotency_key x e" using stamped_entry [OF New(1) assms(2), of x] assms(3) by simp
  have k: "py_startswith (my_key e) (ww_key q)" using append_entry [OF assms(2) New(1)] by simp
  show ?thesis using written_append(4) [OF assms(2) New(1) refl h k] New(2) [OF assms(3)] h by simp
qed

text \<open>A replay returns what is there and changes nothing, also in a process that starts afresh.\<close>

lemma replay_changes_nothing:
  assumes "sound (ma_store a)" "is_runtime_influencing (ww_class q)" "ww_idempotency q = Some x"
    "written (ma_store a) (ww_scope q) (ww_scope_id q) (ww_key q) x > 0"
  shows "\<exists>e. authority_append ops now q a = Inr (e, a) \<and> has_idempotency_key x e"
proof -
  obtain es where es: "mo_scan ops (ma_store a) (ww_scope q) (ww_scope_id q) (Some (ww_key q)) = Inr es"
    using scan_total [OF assms(1)] by blast
  then have "filter (has_idempotency_key x) es \<noteq> []" using assms(4) by (simp add: written_def wrote_def)
  then have "List.find (has_idempotency_key x) es \<noteq> None" by (auto simp: find_None_iff filter_empty_conv)
  then obtain e where e: "List.find (has_idempotency_key x) es = Some e" by auto
  then have "has_idempotency_key x e" by (auto dest: find_Some_in)
  with assms es e show ?thesis
    by (intro exI [of _ e]) (simp add: authority_append_def find_by_idempotency_key_def)
qed

lemma step_sound:
  "authority_step_of ops s a = Inr a' \<Longrightarrow> sound (ma_store a) \<Longrightarrow> sound (ma_store a')"
proof (cases s)
  case (Write now q)
  then show "authority_step_of ops s a = Inr a' \<Longrightarrow> sound (ma_store a) \<Longrightarrow> sound (ma_store a')"
    by (auto simp: map_sum_def split: sum.splits dest: authority_sound)
qed (auto simp: fresh_authority_def)

lemma step_written:
  assumes "authority_step_of ops s a = Inr a'" "sound (ma_store a)" "keeps_to sc i k x [s]"
  shows "written (ma_store a') sc i k x \<le> max 1 (written (ma_store a) sc i k x)"
    "written (ma_store a) sc i k x \<le> written (ma_store a') sc i k x"
proof -
  have "written (ma_store a') sc i k x \<le> max 1 (written (ma_store a) sc i k x) \<and>
    written (ma_store a) sc i k x \<le> written (ma_store a') sc i k x"
  proof (cases s)
    case (Write now q)
    then obtain e where e: "authority_append ops now q a = Inr (e, a')"
      using assms(1) by (auto simp: map_sum_def split: sum.splits)
    note grows = written_grows [OF e assms(2), of sc i k x]
    show ?thesis
    proof (cases "ww_scope q = sc \<and> ww_scope_id q = i \<and> ww_idempotency q = Some x")
      case True
      with assms(3) Write have "ww_key q = k" by (auto simp: keeps_to_def)
      with writes_once [OF e assms(2), of x] True grows show ?thesis by simp
    next
      case other: False
      from e assms(2) show ?thesis
      proof (cases rule: authority_cases)
        case New
        have "(sc, i) \<noteq> (ww_scope q, ww_scope_id q) \<or> \<not> has_idempotency_key x e"
          using other assms(3) Write stamped_entry [OF New(1) assms(2), of x]
          by (auto simp: keeps_to_def split: option.splits)
        from written_append(3) [OF assms(2) New(1) this] show ?thesis by simp
      qed auto
    qed
  next
    case Restart
    with assms(1) show ?thesis by (auto simp: fresh_authority_def)
  qed
  then show "written (ma_store a') sc i k x \<le> max 1 (written (ma_store a) sc i k x)"
    "written (ma_store a) sc i k x \<le> written (ma_store a') sc i k x" by simp_all
qed

lemma authority_total:
  assumes "sound (ma_store a)" "is_runtime_influencing (ww_class q)"
  shows "\<exists>e a'. authority_append ops now q a = Inr (e, a')"
proof -
  have new: "\<exists>e a'. write_new ops now q a = Inr (e, a')"
    using append_total [OF assms(1), of now "ww_scope q" "ww_scope_id q" "ww_key q" "ww_value q"
      "stamped_metadata q (next_version a q)"] by (auto simp: write_new_def)
  show ?thesis
  proof (cases "ww_idempotency q")
    case None
    with new assms(2) show ?thesis by (simp add: authority_append_def)
  next
    case (Some x)
    obtain es where "mo_scan ops (ma_store a) (ww_scope q) (ww_scope_id q) (Some (ww_key q)) = Inr es"
      using scan_total [OF assms(1)] by blast
    with new assms(2) Some show ?thesis
      by (cases "List.find (has_idempotency_key x) es") (auto simp: authority_append_def find_by_idempotency_key_def)
  qed
qed

lemma steps_total:
  assumes "sound (ma_store a)" "\<forall>now q. Write now q \<in> set steps \<longrightarrow> is_runtime_influencing (ww_class q)"
  shows "\<exists>a'. fold_err (authority_step_of ops) steps a = Inr a'"
  using assms
proof (induction steps arbitrary: a)
  case (Cons s steps)
  have "\<exists>b. authority_step_of ops s a = Inr b"
  proof (cases s)
    case (Write now q)
    with authority_total [OF Cons.prems(1), of q now] Cons.prems(2) show ?thesis by auto
  qed simp
  then obtain b where b: "authority_step_of ops s a = Inr b" by blast
  from Cons.IH [OF step_sound [OF b Cons.prems(1)]] Cons.prems(2) b show ?case by auto
qed simp

lemma steps_written:
  assumes "fold_err (authority_step_of ops) steps a = Inr a'" "sound (ma_store a)" "keeps_to sc i k x steps"
  shows "sound (ma_store a')" "written (ma_store a') sc i k x \<le> max 1 (written (ma_store a) sc i k x)"
    "written (ma_store a) sc i k x \<le> written (ma_store a') sc i k x"
    "Write now q \<in> set steps \<Longrightarrow> ww_scope q = sc \<Longrightarrow> ww_scope_id q = i \<Longrightarrow> ww_key q = k \<Longrightarrow>
      ww_idempotency q = Some x \<Longrightarrow> 1 \<le> written (ma_store a') sc i k x"
proof -
  have "sound (ma_store a') \<and> written (ma_store a') sc i k x \<le> max 1 (written (ma_store a) sc i k x) \<and>
    written (ma_store a) sc i k x \<le> written (ma_store a') sc i k x \<and>
    ((\<exists>now q. Write now q \<in> set steps \<and> ww_scope q = sc \<and> ww_scope_id q = i \<and> ww_key q = k \<and>
      ww_idempotency q = Some x) \<longrightarrow> 1 \<le> written (ma_store a') sc i k x)"
    using assms
  proof (induction steps arbitrary: a)
    case Nil
    then show ?case by simp
  next
    case (Cons s steps)
    obtain b where b: "authority_step_of ops s a = Inr b" "fold_err (authority_step_of ops) steps b = Inr a'"
      using Cons.prems(1) by auto
    have k: "keeps_to sc i k x [s]" "keeps_to sc i k x steps"
      using Cons.prems(3) by (auto simp: keeps_to_def)
    note st = step_written [OF b(1) Cons.prems(2) k(1)]
    note IH = Cons.IH [OF b(2) step_sound [OF b(1) Cons.prems(2)] k(2)]
    have first: "1 \<le> written (ma_store b) sc i k x"
      if s: "s = Write now q" and q: "ww_scope q = sc" "ww_scope_id q = i" "ww_key q = k"
        "ww_idempotency q = Some x" for now q
    proof -
      obtain e where "authority_append ops now q a = Inr (e, b)"
        using b(1) s by (auto simp: map_sum_def split: sum.splits)
      from writes_once [OF this Cons.prems(2) q(4)] q show ?thesis by simp
    qed
    from IH st show ?case using first by fastforce
  qed
  then show "sound (ma_store a')" "written (ma_store a') sc i k x \<le> max 1 (written (ma_store a) sc i k x)"
    "written (ma_store a) sc i k x \<le> written (ma_store a') sc i k x"
    "Write now q \<in> set steps \<Longrightarrow> ww_scope q = sc \<Longrightarrow> ww_scope_id q = i \<Longrightarrow> ww_key q = k \<Longrightarrow>
      ww_idempotency q = Some x \<Longrightarrow> 1 \<le> written (ma_store a') sc i k x"
    by blast+
qed

end

section \<open>Both stores are logs\<close>

lemma startswith_numbered [simp]: "py_startswith (numbered_key k n) k"
  by (simp add: py_startswith_def numbered_key_def)

interpretation bank_log: memory_log bank_ops counters_agree
proof
  fix now sc i k v md b e b' key_prefix p sc' i' es es'
  show "counters_agree b \<Longrightarrow> mo_append bank_ops now sc i k v md b = Inr (e, b') \<Longrightarrow> counters_agree b'"
    by (auto simp: bank_ops_def intro: counters_agree_append)
  show "counters_agree b \<Longrightarrow> mo_append bank_ops now sc i k v md b = Inr (e, b') \<Longrightarrow>
      my_metadata e = md \<and> py_startswith (my_key e) k"
    using bank_append_bucket(2,6) [of now sc i k v md b e b'] by (simp add: bank_ops_def)
  show "\<exists>e m'. mo_append bank_ops now sc i k v md b = Inr (e, m')"
    by (cases "bank_append now sc i k v md b") (simp add: bank_ops_def)
  show "\<exists>es. mo_scan bank_ops b sc i key_prefix = Inr es" by (simp add: bank_ops_def)
  assume b: "counters_agree b" "mo_append bank_ops now sc i k v md b = Inr (e, b')"
  then have a: "bank_append now sc i k v md b = (e, b')" by (simp add: bank_ops_def)
  note bu = bank_append_bucket(1) [OF a b(1)]
  show "mset es \<subseteq># mset es' \<and> mset es' \<subseteq># add_mset e (mset es) \<and>
      (py_startswith (my_key e) p \<longrightarrow> mset es' = add_mset e (mset es))"
    if "mo_scan bank_ops b sc i (Some p) = Inr es" "mo_scan bank_ops b' sc i (Some p) = Inr es'"
    using that by (auto simp: bank_ops_def bank_scan_def bu Let_def)
  show "mset es' = mset es"
    if "(sc', i') \<noteq> (sc, i)" "mo_scan bank_ops b sc' i' key_prefix = Inr es"
      "mo_scan bank_ops b' sc' i' key_prefix = Inr es'"
  proof -
    have "bucket b' sc' i' = bucket b sc' i'" using that(1) by (auto simp: bu)
    then show ?thesis using that(2,3) by (simp add: bank_ops_def bank_scan_def)
  qed
qed

definition sound_rows :: "(memory_entry \<Rightarrow> 'p) \<Rightarrow> ('p \<Rightarrow> memory_entry option) \<Rightarrow> 'p memory_row list \<Rightarrow> bool" where
  "sound_rows dump load rows \<longleftrightarrow>
     (\<forall>e. load (dump e) = Some e) \<and> (\<forall>r \<in> set rows. load (mw_payload r) \<noteq> None)"

definition scan_row :: "memory_scope \<Rightarrow> string \<Rightarrow> string option \<Rightarrow> 'p memory_row \<Rightarrow> bool" where
  "scan_row sc i key_prefix r \<longleftrightarrow> in_scope sc i r \<and>
     (case key_prefix of None \<Rightarrow> True | Some p \<Rightarrow> sql_like (Some backslash) (escape_like p @ ''%'') (mw_key r))"

lemma load_rows_all:
  "\<forall>r \<in> set rs. load (mw_payload r) \<noteq> None \<Longrightarrow> load_rows load rs = Inr (map (the \<circ> load \<circ> mw_payload) rs)"
  by (induction rs) auto

lemma rows_scan_sound:
  assumes "sound_rows dump load rows"
  shows "\<exists>es. rows_scan load rows sc i key_prefix = Inr es"
    "rows_scan load rows sc i key_prefix = Inr es \<Longrightarrow>
       mset es = image_mset (the \<circ> load \<circ> mw_payload) (filter_mset (scan_row sc i key_prefix) (mset rows))"
proof -
  have "rows_scan load rows sc i key_prefix =
      load_rows load (sort_key mw_created_at (filter (scan_row sc i key_prefix) rows))"
    by (simp add: rows_scan_def scan_row_def [abs_def])
  also have "\<dots> = Inr (map (the \<circ> load \<circ> mw_payload) (sort_key mw_created_at (filter (scan_row sc i key_prefix) rows)))"
    using assms by (intro load_rows_all) (auto simp: sound_rows_def)
  finally have r: "rows_scan load rows sc i key_prefix =
      Inr (map (the \<circ> load \<circ> mw_payload) (sort_key mw_created_at (filter (scan_row sc i key_prefix) rows)))" .
  show "\<exists>es. rows_scan load rows sc i key_prefix = Inr es" using r by simp
  show "mset es = image_mset (the \<circ> load \<circ> mw_payload) (filter_mset (scan_row sc i key_prefix) (mset rows))"
    if "rows_scan load rows sc i key_prefix = Inr es"
    using that r by (auto simp: mset_map mset_filter)
qed

lemma rows_append_new:
  assumes "rows_append dump now sc i k v md rows = Inr (e, rows')"
  shows "rows' = rows @ [entry_row dump e]" "my_scope e = sc" "my_scope_id e = i" "my_metadata e = md"
    "\<exists>n. my_key e = numbered_key k n"
  using assms by (auto simp: rows_append_def Let_def)

lemma rows_append_total: "\<exists>e rows'. rows_append dump now sc i k v md rows = Inr (e, rows')"
proof -
  let ?ks = "map mw_key (filter (in_scope sc i) rows)"
  have like: "map mw_key (filter (\<lambda>r. in_scope sc i r \<and> sql_like None (k @ ''.%'') (mw_key r)) rows) =
      filter (sql_like None (k @ ''.%'')) ?ks"
    by (simp add: filter_map comp_def)
  have "\<not> list_ex (row_at sc i (numbered_key k (next_append_index ?ks k))) rows"
  proof
    assume "list_ex (row_at sc i (numbered_key k (next_append_index ?ks k))) rows"
    then have "numbered_key k (next_append_index ?ks k) \<in> set ?ks" by (force simp: list_ex_iff row_at_def)
    with next_key_fresh [of k ?ks] show False by simp
  qed
  then show ?thesis unfolding rows_append_def Let_def like next_append_index_filter by simp
qed

lemma scan_row_entry:
  "scan_row sc i (Some p) (entry_row dump e) \<longleftrightarrow> my_scope e = sc \<and> my_scope_id e = i \<and> like_prefix p (my_key e)"
  "scan_row sc i key_prefix (entry_row dump e) \<Longrightarrow> my_scope e = sc \<and> my_scope_id e = i"
  by (auto simp: scan_row_def in_scope_def entry_row_def sql_like_escaped)

interpretation rows_log: memory_log "rows_ops dump load" "sound_rows dump load"
  for dump :: "memory_entry \<Rightarrow> 'p" and load
proof
  fix now sc i k v md m e m' key_prefix p sc' i' es es'
  show "\<exists>es. mo_scan (rows_ops dump load) m sc i key_prefix = Inr es" if "sound_rows dump load m"
    using rows_scan_sound(1) [OF that] by (simp add: rows_ops_def)
  show "\<exists>e m'. mo_append (rows_ops dump load) now sc i k v md m = Inr (e, m')"
    using rows_append_total [of dump now sc i k v md m] by (simp add: rows_ops_def)
  assume m: "sound_rows dump load m" "mo_append (rows_ops dump load) now sc i k v md m = Inr (e, m')"
  then have a: "rows_append dump now sc i k v md m = Inr (e, m')" by (simp add: rows_ops_def)
  note new = rows_append_new [OF a]
  show m': "sound_rows dump load m'" using m(1) by (auto simp: new(1) sound_rows_def entry_row_def)
  have load: "load (dump e) = Some e" using m(1) by (simp add: sound_rows_def)
  show "my_metadata e = md \<and> py_startswith (my_key e) k" using new(4,5) by auto
  have ent: "(the \<circ> load \<circ> mw_payload) (entry_row dump e) = e" by (simp add: entry_row_def load)
  show "mset es \<subseteq># mset es' \<and> mset es' \<subseteq># add_mset e (mset es) \<and>
      (py_startswith (my_key e) p \<longrightarrow> mset es' = add_mset e (mset es))"
    if "mo_scan (rows_ops dump load) m sc i (Some p) = Inr es" "mo_scan (rows_ops dump load) m' sc i (Some p) = Inr es'"
  proof -
    have es: "rows_scan load m sc i (Some p) = Inr es" "rows_scan load m' sc i (Some p) = Inr es'"
      using that by (simp_all add: rows_ops_def)
    show ?thesis
      using new(2,3) startswith_like [of "my_key e" p]
      by (simp add: rows_scan_sound(2) [OF m(1) es(1)] rows_scan_sound(2) [OF m' es(2)] new(1) ent scan_row_entry(1)
          del: o_apply)
  qed
  show "mset es' = mset es"
    if "(sc', i') \<noteq> (sc, i)" "mo_scan (rows_ops dump load) m sc' i' key_prefix = Inr es"
      "mo_scan (rows_ops dump load) m' sc' i' key_prefix = Inr es'"
  proof -
    have es: "rows_scan load m sc' i' key_prefix = Inr es" "rows_scan load m' sc' i' key_prefix = Inr es'"
      using that(2,3) by (simp_all add: rows_ops_def)
    have "\<not> scan_row sc' i' key_prefix (entry_row dump e)"
      using that(1) new(2,3) scan_row_entry(2) [of sc' i' key_prefix dump e] by auto
    then show ?thesis
      by (simp add: rows_scan_sound(2) [OF m(1) es(1)] rows_scan_sound(2) [OF m' es(2)] new(1))
  qed
qed

end
