(* ===== verification/Memory_Projection.thy ===== *)
theory Memory_Projection
  imports Memory_Authority Service_Monad
begin

text \<open>
  \<^verbatim>\<open>observability/event_details.py\<close>, \<^verbatim>\<open>memory/projector.py\<close> and
  \<^verbatim>\<open>orchestration/memory_context.py\<close>: what the events of a run leave in memory and what
  of it is read back into a prompt. The validation of a detail by its Pydantic class is a
  parameter of the observers; the version check before it is the code's.
\<close>

section \<open>Kinds of events\<close>

fun event_kind_value :: "observation_event_kind \<Rightarrow> string" where
  "event_kind_value SESSION_CREATED = ''session_created''"
| "event_kind_value SESSION_RUNNING = ''session_running''"
| "event_kind_value SESSION_WAITING_GATE = ''session_waiting_gate''"
| "event_kind_value SESSION_RESUMING = ''session_resuming''"
| "event_kind_value SESSION_COMPLETED = ''session_completed''"
| "event_kind_value SESSION_FAILED = ''session_failed''"
| "event_kind_value SESSION_CANCELLED = ''session_cancelled''"
| "event_kind_value NODE_STARTED = ''node_started''"
| "event_kind_value NODE_PENDING_GATE = ''node_pending_gate''"
| "event_kind_value NODE_APPROVED = ''node_approved''"
| "event_kind_value NODE_NEEDS_REVISION = ''node_needs_revision''"
| "event_kind_value NODE_COMPLETED = ''node_completed''"
| "event_kind_value NODE_FAILED = ''node_failed''"
| "event_kind_value NODE_REVISED = ''node_revised''"
| "event_kind_value ATTEMPT_STARTED = ''attempt_started''"
| "event_kind_value NODE_EXECUTION_STARTED = ''node_execution_started''"
| "event_kind_value NODE_EXECUTION_COMPLETED = ''node_execution_completed''"
| "event_kind_value NODE_EXECUTION_FAILED = ''node_execution_failed''"
| "event_kind_value NODE_EXECUTION_ABORTED = ''node_execution_aborted''"
| "event_kind_value MODEL_INVOKE_STARTED = ''model_invoke_started''"
| "event_kind_value MODEL_INVOKE_COMPLETED = ''model_invoke_completed''"
| "event_kind_value AGENT_TURN_STARTED = ''agent_turn_started''"
| "event_kind_value AGENT_TURN_COMPLETED = ''agent_turn_completed''"
| "event_kind_value AGENT_MESSAGE_SENT = ''agent_message_sent''"
| "event_kind_value AGENT_HANDOFF = ''agent_handoff''"
| "event_kind_value AGENT_VOTE = ''agent_vote''"
| "event_kind_value TOOL_DRAIN_ROUND = ''tool_drain_round''"
| "event_kind_value TOOL_CALL_STARTED = ''tool_call_started''"
| "event_kind_value TOOL_CALL_COMPLETED = ''tool_call_completed''"
| "event_kind_value GATE_RECORDED = ''gate_recorded''"
| "event_kind_value DECISION_APPLIED = ''decision_applied''"
| "event_kind_value EXECUTION_LEASE_GRANTED = ''execution_lease_granted''"
| "event_kind_value EXECUTION_LEASE_HEARTBEAT = ''execution_lease_heartbeat''"
| "event_kind_value EXECUTION_LEASE_RELEASED = ''execution_lease_released''"
| "event_kind_value EXECUTION_HARNESS_SELECTED = ''execution_harness_selected''"

definition terminal_kinds :: "observation_event_kind set" where
  "terminal_kinds = {SESSION_COMPLETED, SESSION_FAILED, SESSION_CANCELLED}"

definition agent_turn_kinds :: "observation_event_kind set" where
  "agent_turn_kinds = {AGENT_TURN_STARTED, AGENT_TURN_COMPLETED, AGENT_MESSAGE_SENT}"

section \<open>Details\<close>

record agent_detail =
  ad_interaction_id :: "string option"
  ad_turn_index :: "int option"
  ad_role :: "string option"
  ad_content_preview :: "string option"

record detail_decoder =
  dd_message_sent :: "pydict \<Rightarrow> exn + agent_detail"
  dd_agent_turn :: "pydict \<Rightarrow> exn + agent_detail"
  dd_tool_started :: "pydict \<Rightarrow> exn + string option"

definition detail_schema_version :: int where
  "detail_schema_version = 1"

text \<open>\<^verbatim>\<open>from_event_detail\<close>. A Boolean is an integer of Python, and never above one.\<close>

definition from_event_detail :: "(pydict \<Rightarrow> exn + 'd) \<Rightarrow> pydict \<Rightarrow> exn + 'd" where
  "from_event_detail validate d =
     (let too_new = (case map_of d ''schema_version'' of
            Some (JInt v) \<Rightarrow> v > detail_schema_version
          | _ \<Rightarrow> False) in
      and_then (raise_when too_new ValueError) (\<lambda>_. validate d))"

lemma newer_details_are_refused:
  "map_of d ''schema_version'' = Some (JInt v) \<Longrightarrow> v > 1 \<Longrightarrow> from_event_detail validate d = Inl ValueError"
  by (simp add: from_event_detail_def detail_schema_version_def)

section \<open>The record of an agent's turn\<close>

definition json_opt_int :: "int option \<Rightarrow> json" where
  "json_opt_int x = (case x of None \<Rightarrow> JNull | Some i \<Rightarrow> JInt i)"

definition or_dash :: "string option \<Rightarrow> string" where
  "or_dash x = (case x of None \<Rightarrow> ''-'' | Some s \<Rightarrow> if s = [] then ''-'' else s)"

definition turn_text :: "int option \<Rightarrow> string" where
  "turn_text i = (case i of None \<Rightarrow> ''-'' | Some n \<Rightarrow> py_str_int n)"

definition agent_turn_idempotency :: "observation_event \<Rightarrow> string \<Rightarrow> agent_detail \<Rightarrow> string" where
  "agent_turn_idempotency event actor d =
     ''agent-turn:'' @ oe_session_id event @ '':'' @ or_dash (oe_execution_id event) @ '':'' @
     or_dash (ad_interaction_id d) @ '':'' @ turn_text (ad_turn_index d) @ '':'' @ actor"

definition agent_turn_write :: "observation_event \<Rightarrow> string \<Rightarrow> agent_detail \<Rightarrow> memory_write" where
  "agent_turn_write event actor d =
     \<lparr>ww_scope = Memory_AGENT, ww_scope_id = actor, ww_key = ''turn.'' @ oe_session_id event,
      ww_value = JObj
        [(''session_id'', JStr (oe_session_id event)),
         (''interaction_id'', json_opt_str (ad_interaction_id d)),
         (''turn_index'', json_opt_int (ad_turn_index d)),
         (''role'', json_opt_str (ad_role d)),
         (''content_preview'', json_opt_str (ad_content_preview d))],
      ww_class = PROMPT_AFFECTING,
      ww_metadata =
        [(''agent_id'', JStr actor), (''node_key'', json_opt_str (oe_node_key event)),
         (''source'', JStr ''observability_agent_turn_projection'')],
      ww_idempotency = Some (agent_turn_idempotency event actor d)\<rparr>"

definition agent_turn_observe ::
    "detail_decoder \<Rightarrow> 'm memory_ops \<Rightarrow> time \<Rightarrow> observation_event \<Rightarrow> 'm memory_authority \<Rightarrow>
     exn + 'm memory_authority" where
  "agent_turn_observe dec ops now event a =
     (if oe_kind event \<noteq> AGENT_MESSAGE_SENT then Inr a
      else case oe_actor event of
        None \<Rightarrow> Inr a
      | Some actor \<Rightarrow>
          if actor = [] then Inr a
          else and_then (from_event_detail (dd_message_sent dec) (oe_detail event)) (\<lambda>d.
               map_sum id snd (authority_append ops now (agent_turn_write event actor d) a)))"

section \<open>The summary of an episode\<close>

definition sorted_set :: "string list \<Rightarrow> string list" where
  "sorted_set xs = sort (remdups xs)"

definition counted :: "string list \<Rightarrow> pydict" where
  "counted xs = map (\<lambda>k. (k, JInt (int (count_list xs k)))) (sorted_set xs)"

definition truthy_values :: "string option list \<Rightarrow> string list" where
  "truthy_values xs = List.map_filter (\<lambda>x. if truthy x then x else None) xs"

fun episode_tool_names :: "detail_decoder \<Rightarrow> observation_event list \<Rightarrow> exn + string list" where
  "episode_tool_names dec [] = Inr []"
| "episode_tool_names dec (event # events) =
     (if oe_kind event = TOOL_CALL_STARTED then
        and_then (from_event_detail (dd_tool_started dec) (oe_detail event)) (\<lambda>name.
        and_then (episode_tool_names dec events) (\<lambda>names.
          Inr ((case name of None \<Rightarrow> [] | Some n \<Rightarrow> [n]) @ names)))
      else episode_tool_names dec events)"

fun agent_turns ::
    "detail_decoder \<Rightarrow> observation_event list \<Rightarrow> exn + (string \<times> int option \<times> observation_event_kind) list" where
  "agent_turns dec [] = Inr []"
| "agent_turns dec (event # events) =
     (if oe_kind event \<in> agent_turn_kinds \<and> truthy (oe_actor event) then
        and_then (from_event_detail (dd_agent_turn dec) (oe_detail event)) (\<lambda>d.
        and_then (agent_turns dec events) (\<lambda>turns.
          Inr ((the (oe_actor event), ad_turn_index d, oe_kind event) # turns)))
      else agent_turns dec events)"

fun agent_turn_json :: "string \<times> int option \<times> observation_event_kind \<Rightarrow> json" where
  "agent_turn_json (agent_id, turn_index, kind) =
     JObj [(''agent_id'', JStr agent_id), (''turn_index'', json_opt_int turn_index),
       (''kind'', JStr (event_kind_value kind))]"

definition terminal_event :: "observation_event list \<Rightarrow> string option" where
  "terminal_event events =
     map_option (event_kind_value \<circ> oe_kind) (List.find (\<lambda>e. oe_kind e \<in> terminal_kinds) (rev events))"

definition build_episode_summary :: "detail_decoder \<Rightarrow> observation_event list \<Rightarrow> exn + pydict" where
  "build_episode_summary dec events =
     and_then (episode_tool_names dec events) (\<lambda>names.
     and_then (agent_turns dec events) (\<lambda>turns. Inr
       [(''session_id'', JStr (if events = [] then [] else oe_session_id (last events))),
        (''terminal_event'', json_opt_str (terminal_event events)),
        (''event_count'', JInt (int (length events))),
        (''event_counts'', JObj (counted (map (event_kind_value \<circ> oe_kind) events))),
        (''node_keys'', json_strs (sorted_set (truthy_values (map oe_node_key events)))),
        (''trace_ids'', json_strs (sorted_set (truthy_values (map oe_trace_id events)))),
        (''execution_ids'', json_strs (sorted_set (truthy_values (map oe_execution_id events)))),
        (''tool_names'', json_strs names),
        (''agent_turns'', JList (map agent_turn_json turns)),
        (''agent_turn_counts'', JObj (counted (map fst turns)))]))"

record 'm episode_projector =
  ep_authority :: "'m memory_authority"
  ep_workflow_name :: string
  ep_events :: "(string \<times> observation_event list) list"

definition buffered_events :: "'m episode_projector \<Rightarrow> string \<Rightarrow> observation_event list" where
  "buffered_events ep session_id = (case map_of (ep_events ep) session_id of None \<Rightarrow> [] | Some es \<Rightarrow> es)"

definition buffered_session_ids :: "'m episode_projector \<Rightarrow> string list" where
  "buffered_session_ids ep = sort (map fst (ep_events ep))"

definition episode_write :: "string \<Rightarrow> observation_event \<Rightarrow> pydict \<Rightarrow> memory_write" where
  "episode_write workflow_name event summary =
     \<lparr>ww_scope = Memory_WORKFLOW, ww_scope_id = workflow_name,
      ww_key = ''episode.'' @ oe_session_id event, ww_value = JObj summary, ww_class = PROMPT_AFFECTING,
      ww_metadata =
        [(''trace_ids'', dict_get summary ''trace_ids''), (''execution_ids'', dict_get summary ''execution_ids''),
         (''source'', JStr ''observability_trace_projection'')],
      ww_idempotency =
        Some (''episode:'' @ oe_session_id event @ '':'' @ event_kind_value (oe_kind event))\<rparr>"

text \<open>
  \<^verbatim>\<open>on_event\<close>: the event is kept before anything can fail, and the events of a session are
  dropped only after its summary is written.
\<close>

definition episode_observe ::
    "detail_decoder \<Rightarrow> 'm memory_ops \<Rightarrow> time \<Rightarrow> observation_event \<Rightarrow> 'm episode_projector \<Rightarrow>
     (exn + unit) \<times> 'm episode_projector" where
  "episode_observe dec ops now event ep =
     (let events = buffered_events ep (oe_session_id event) @ [event];
          kept = ep\<lparr>ep_events := AList.update (oe_session_id event) events (ep_events ep)\<rparr> in
      if oe_kind event \<notin> terminal_kinds then (Inr (), kept)
      else case and_then (build_episode_summary dec events) (\<lambda>summary.
             authority_append ops now (episode_write (ep_workflow_name ep) event summary) (ep_authority ep)) of
          Inl e \<Rightarrow> (Inl e, kept)
        | Inr (_, a) \<Rightarrow> (Inr (), ep\<lparr>ep_authority := a, ep_events := AList.delete (oe_session_id event) (ep_events kept)\<rparr>))"

section \<open>Memory for prompts\<close>

record memory_query =
  mq_scope :: memory_scope
  mq_scope_id :: string
  mq_key_prefix :: "string option"
  mq_limit :: int

definition make_memory_query :: "memory_scope \<Rightarrow> string \<Rightarrow> string option \<Rightarrow> int \<Rightarrow> exn + memory_query" where
  "make_memory_query scope scope_id key_prefix limit =
     and_then (raise_when (\<not> (1 \<le> limit \<and> limit \<le> 50)) ValidationError) (\<lambda>_.
       Inr \<lparr>mq_scope = scope, mq_scope_id = scope_id, mq_key_prefix = key_prefix, mq_limit = limit\<rparr>)"

record memory_policy =
  mp_enabled :: bool
  mp_queries :: "memory_query list"
  mp_max_entries :: int

definition make_memory_policy :: "bool \<Rightarrow> memory_query list \<Rightarrow> int \<Rightarrow> exn + memory_policy" where
  "make_memory_policy enabled queries max_entries =
     and_then (raise_when (\<not> (1 \<le> max_entries \<and> max_entries \<le> 100)) ValidationError) (\<lambda>_.
       Inr \<lparr>mp_enabled = enabled, mp_queries = queries, mp_max_entries = max_entries\<rparr>)"

definition disabled_memory_policy :: memory_policy where
  "disabled_memory_policy = \<lparr>mp_enabled = False, mp_queries = [], mp_max_entries = 8\<rparr>"

record context_entry =
  cx_scope :: memory_scope
  cx_scope_id :: string
  cx_key :: string
  cx_value :: json
  cx_evidence_ref :: string
  cx_metadata :: pydict
  cx_created_at :: string

record memory_context =
  mc_purpose :: string
  mc_entries :: "context_entry list"

definition memory_evidence_ref :: "memory_entry \<Rightarrow> string" where
  "memory_evidence_ref e =
     ''memory://'' @ memory_scope_value (my_scope e) @ ''/'' @ my_scope_id e @ ''/'' @ my_key e"

definition context_entry_of :: "memory_entry \<Rightarrow> context_entry" where
  "context_entry_of e =
     \<lparr>cx_scope = my_scope e, cx_scope_id = my_scope_id e, cx_key = my_key e, cx_value = my_value e,
      cx_evidence_ref = memory_evidence_ref e, cx_metadata = my_metadata e,
      cx_created_at = py_isoformat (my_created_at e)\<rparr>"

text \<open>The inner loop stops as soon as the bound is reached; the flag says that it did.\<close>

fun collect_entries :: "int \<Rightarrow> memory_entry list \<Rightarrow> context_entry list \<Rightarrow> context_entry list \<times> bool" where
  "collect_entries limit [] acc = (acc, False)"
| "collect_entries limit (e # es) acc =
     (let acc' = acc @ [context_entry_of e] in
      if int (length acc') \<ge> limit then (acc', True) else collect_entries limit es acc')"

fun run_queries ::
    "'m memory_ops \<Rightarrow> 'm \<Rightarrow> int \<Rightarrow> memory_query list \<Rightarrow> context_entry list \<Rightarrow> exn + context_entry list" where
  "run_queries ops store limit [] acc = Inr acc"
| "run_queries ops store limit (q # qs) acc =
     and_then (mo_scan ops store (mq_scope q) (mq_scope_id q) (mq_key_prefix q)) (\<lambda>scanned.
       case collect_entries limit (last_items (mq_limit q) scanned) acc of
         (acc', True) \<Rightarrow> Inr acc'
       | (acc', False) \<Rightarrow> run_queries ops store limit qs acc')"

definition retrieve_memory ::
    "'m memory_ops \<Rightarrow> 'm \<Rightarrow> memory_policy \<Rightarrow> string \<Rightarrow> exn + memory_context" where
  "retrieve_memory ops store policy purpose =
     (if \<not> mp_enabled policy \<or> mp_queries policy = [] then Inr \<lparr>mc_purpose = purpose, mc_entries = []\<rparr>
      else and_then (run_queries ops store (mp_max_entries policy) (mp_queries policy) []) (\<lambda>entries.
           Inr \<lparr>mc_purpose = purpose, mc_entries = entries\<rparr>))"

definition context_evidence_refs :: "memory_context \<Rightarrow> string list" where
  "context_evidence_refs c = map cx_evidence_ref (mc_entries c)"

definition context_entry_json :: "context_entry \<Rightarrow> json" where
  "context_entry_json e =
     JObj [(''scope'', JStr (memory_scope_value (cx_scope e))), (''scope_id'', JStr (cx_scope_id e)),
       (''key'', JStr (cx_key e)), (''value'', cx_value e), (''evidence_ref'', JStr (cx_evidence_ref e)),
       (''metadata'', JObj (cx_metadata e)), (''created_at'', JStr (cx_created_at e))]"

definition as_prompt_payload :: "memory_context \<Rightarrow> pydict" where
  "as_prompt_payload c =
     [(''purpose'', JStr (mc_purpose c)), (''entries'', JList (map context_entry_json (mc_entries c))),
      (''evidence_refs'', json_strs (context_evidence_refs c))]"

end
