(* ===== verification/Prompt_Context.thy ===== *)
theory Prompt_Context
  imports Memory_Projection Session_Workflow
begin

text \<open>
  \<^verbatim>\<open>orchestration/prompts.py\<close>, \<^verbatim>\<open>orchestration/agent_context.py\<close> and the default
  prompt of \<^verbatim>\<open>orchestration/builtin_prompts/defaults.py\<close>: what an agent is told. A prompt
  shows the transitive requirements of the node and, when the session asks for it, a bounded part
  of memory. \<^verbatim>\<open>str.format\<close>, \<^verbatim>\<open>repr\<close> of a string and the two ways the code calls
  \<^verbatim>\<open>json.dumps\<close> are parameters, and so are the Pydantic validation of a memory policy and
  the retriever.
\<close>

section \<open>Templates\<close>

record prompt_template =
  pt_role :: string
  pt_system :: string
  pt_user_template :: string

type_synonym prompt_library = "(string \<times> prompt_template) list"

record prompt_text =
  pf_format :: "string \<Rightarrow> pydict \<Rightarrow> exn + string"
  pf_repr_str :: "string \<Rightarrow> string"
  pf_dumps :: "json \<Rightarrow> string"
  pf_dumps_sorted :: "json \<Rightarrow> string"

text \<open>
  \<^verbatim>\<open>render(**variables)\<close>: a variable of the name of the first parameter is a second value
  for it.
\<close>

definition render_template :: "prompt_text \<Rightarrow> prompt_template \<Rightarrow> pydict \<Rightarrow> exn + string \<times> string" where
  "render_template pf t variables =
     and_then (raise_when (map_of variables ''self'' \<noteq> None) TypeError) (\<lambda>_.
     and_then (pf_format pf (pt_system t) variables) (\<lambda>system.
     and_then (pf_format pf (pt_user_template t) variables) (\<lambda>user.
     Inr (system, user))))"

definition register_template :: "prompt_template \<Rightarrow> prompt_library \<Rightarrow> prompt_library" where
  "register_template t lib = AList.update (pt_role t) t lib"

definition lookup_template :: "prompt_library \<Rightarrow> string \<Rightarrow> exn + prompt_template" where
  "lookup_template lib role = (case map_of lib role of None \<Rightarrow> Inl KeyError | Some t \<Rightarrow> Inr t)"

definition library_roles :: "prompt_library \<Rightarrow> string list" where
  "library_roles lib = sort (map fst lib)"

text \<open>An entry of the configuration; the fields are validated by Pydantic, unknown ones ignored.\<close>

definition template_of_entry :: "string \<Rightarrow> pydict \<Rightarrow> exn + prompt_template" where
  "template_of_entry role entry =
     and_then (raise_when (map_of entry ''role'' \<noteq> None) TypeError) (\<lambda>_.
     case (map_of entry ''system'',
           case map_of entry ''user_template'' of None \<Rightarrow> Some (JStr ''{input}'') | v \<Rightarrow> v,
           case map_of entry ''variables'' of None \<Rightarrow> True
           | Some (JList vs) \<Rightarrow> list_all (\<lambda>v. json_str v \<noteq> None) vs | _ \<Rightarrow> False) of
       (Some (JStr system), Some (JStr user), True) \<Rightarrow>
         Inr \<lparr>pt_role = role, pt_system = system, pt_user_template = user\<rparr>
     | _ \<Rightarrow> Inl ValidationError)"

fun library_from_dict :: "pydict \<Rightarrow> prompt_library \<Rightarrow> exn + prompt_library" where
  "library_from_dict [] lib = Inr lib"
| "library_from_dict ((role, entry) # raw) lib =
     (case json_obj entry of
        None \<Rightarrow> Inl TypeError
      | Some d \<Rightarrow> and_then (template_of_entry role d) (\<lambda>t.
          library_from_dict raw (register_template t lib)))"

definition default_node_prompt ::
    "prompt_text \<Rightarrow> string \<Rightarrow> string \<Rightarrow> string \<Rightarrow> pydict \<Rightarrow> pydict \<Rightarrow> string \<times> string" where
  "default_node_prompt pf agent_role node_key workflow_name input_payload context =
     (''You are the '' @ agent_role @ '' for node '' @ pf_repr_str pf node_key @ '' in workflow '' @
        pf_repr_str pf workflow_name @ ''.'',
      if context \<noteq> [] then
        pf_dumps_sorted pf (JObj [(''input'', JObj input_payload), (''context'', JObj context)])
      else if input_payload \<noteq> [] then pf_dumps pf (JObj input_payload)
      else ''go'')"

section \<open>What came before\<close>

text \<open>
  \<^verbatim>\<open>visit\<close>: the requirements of a node, each after its own. The fuel bounds the depth of the
  recursion; \<open>all_requirements\<close> is enough.
\<close>

definition all_requirements :: "workflow_blueprint \<Rightarrow> string list" where
  "all_requirements b = concat (map wn_requires (wb_nodes b))"

fun visit_requirements ::
    "workflow_blueprint \<Rightarrow> nat \<Rightarrow> string list \<Rightarrow> string list \<times> string list \<Rightarrow> exn + string list \<times> string list" where
  "visit_requirements b depth [] (seen, ordered) = Inr (seen, ordered)"
| "visit_requirements b 0 (req # reqs) (seen, ordered) =
     (if req \<in> set seen then visit_requirements b 0 reqs (seen, ordered) else Inl RuntimeError)"
| "visit_requirements b (Suc depth) (req # reqs) (seen, ordered) =
     (if req \<in> set seen then visit_requirements b (Suc depth) reqs (seen, ordered)
      else and_then (node_spec b req) (\<lambda>sp.
           and_then (visit_requirements b depth (wn_requires sp) (req # seen, ordered)) (\<lambda>(seen1, ordered1).
           visit_requirements b (Suc depth) reqs (seen1, ordered1 @ [req]))))"

definition upstream_order :: "workflow_blueprint \<Rightarrow> string \<Rightarrow> exn + string list" where
  "upstream_order b node_key =
     and_then (node_spec b node_key) (\<lambda>sp.
     and_then (visit_requirements b (length (all_requirements b)) (wn_requires sp) ([], [])) (\<lambda>(_, ordered).
     Inr ordered))"

definition upstream_node :: "runtime_session \<Rightarrow> string \<Rightarrow> json" where
  "upstream_node s key =
     (let node = session_node s key in
      JObj [(''status'', JStr (case node of None \<Rightarrow> ''missing'' | Some n \<Rightarrow> node_status_value (ns_status n))),
        (''output'', JObj (case node of
            None \<Rightarrow> []
          | Some n \<Rightarrow> (case latest_attempt n of None \<Rightarrow> [] | Some a \<Rightarrow> na_output a)))])"

definition upstream_context :: "runtime_session \<Rightarrow> workflow_blueprint \<Rightarrow> string \<Rightarrow> exn + pydict" where
  "upstream_context s b node_key =
     and_then (upstream_order b node_key) (\<lambda>ordered.
     Inr (if ordered = [] then []
          else [(''nodes'', JObj (map (\<lambda>k. (k, upstream_node s k)) ordered))]))"

definition execution_context ::
    "runtime_session \<Rightarrow> workflow_blueprint \<Rightarrow> string \<Rightarrow> memory_context option \<Rightarrow> exn + pydict" where
  "execution_context s b node_key memory =
     and_then (upstream_context s b node_key) (\<lambda>context.
     Inr (case memory of
            None \<Rightarrow> context
          | Some m \<Rightarrow>
              if mc_entries m = [] then context
              else AList.update ''memory'' (JObj (as_prompt_payload m)) context))"

section \<open>The memory that a session asks for\<close>

definition session_memory_policy ::
    "(pydict \<Rightarrow> exn + memory_policy) \<Rightarrow> runtime_session \<Rightarrow> exn + memory_policy option" where
  "session_memory_policy validate s =
     (let direct = dict_get (rs_metadata s) ''memory_context'';
          raw = (if direct \<noteq> JNull then direct
                 else case json_obj (dict_get (rs_metadata s) ''goal'') of
                   None \<Rightarrow> JNull | Some g \<Rightarrow> dict_get g ''memory_context'') in
      case json_obj raw of
        None \<Rightarrow> Inr None
      | Some d \<Rightarrow> map_sum id Some (validate d))"

definition non_empty_str :: "json \<Rightarrow> string option" where
  "non_empty_str v = (case json_str v of None \<Rightarrow> None | Some t \<Rightarrow> if t = [] then None else Some t)"

definition goal_objective :: "runtime_session \<Rightarrow> string option" where
  "goal_objective s =
     (case Option.bind (json_obj (dict_get (rs_metadata s) ''goal'')) (\<lambda>g. non_empty_str (dict_get g ''objective'')) of
        Some t \<Rightarrow> Some t
      | None \<Rightarrow> non_empty_str (dict_get (rs_input_payload s) ''goal''))"

record memory_request =
  mr_policy :: memory_policy
  mr_purpose :: string
  mr_workflow_name :: "string option"
  mr_session_id :: "string option"
  mr_node_key :: "string option"
  mr_goal_objective :: "string option"
  mr_current_plan_name :: "string option"
  mr_feedback_refs :: "string list"

record context_builder =
  cb_workflow :: workflow_blueprint
  cb_prompts :: prompt_library
  cb_text :: prompt_text
  cb_validate_policy :: "pydict \<Rightarrow> exn + memory_policy"
  cb_retriever :: "(memory_request \<Rightarrow> memory_context svc) option"

text \<open>\<^verbatim>\<open>StoreMemoryContextRetriever\<close> over a store that is part of the world.\<close>

definition store_retriever ::
    "'m memory_ops \<Rightarrow> (world \<Rightarrow> 'm) \<Rightarrow> memory_request \<Rightarrow> memory_context svc" where
  "store_retriever ops store_of q w = (retrieve_memory ops (store_of w) (mr_policy q) (mr_purpose q), w)"

definition memory_context_for_node ::
    "context_builder \<Rightarrow> runtime_session \<Rightarrow> string \<Rightarrow> memory_context option svc" where
  "memory_context_for_node cb s node_key =
     (case cb_retriever cb of
        None \<Rightarrow> svc_return None
      | Some retrieve \<Rightarrow>
          svc_bind (svc_lift (session_memory_policy (cb_validate_policy cb) s)) (\<lambda>policy.
          case policy of
            None \<Rightarrow> svc_return None
          | Some p \<Rightarrow>
              if \<not> mp_enabled p then svc_return None
              else svc_bind (retrieve
                  \<lparr>mr_policy = p, mr_purpose = ''executor.node_prompt'',
                   mr_workflow_name = Some (rs_workflow_name s), mr_session_id = Some (rs_id s),
                   mr_node_key = Some node_key, mr_goal_objective = goal_objective s,
                   mr_current_plan_name = None, mr_feedback_refs = []\<rparr>) (\<lambda>m.
                svc_return (Some m))))"

section \<open>The prompt\<close>

definition prompt_variables ::
    "prompt_text \<Rightarrow> runtime_session \<Rightarrow> string \<Rightarrow> string \<Rightarrow> pydict \<Rightarrow> pydict" where
  "prompt_variables pf s node_key memory_context_json context =
     (let payload = rs_input_payload s;
          v = (if map_of payload ''input'' = None
               then payload @ [(''input'', JStr (pf_dumps pf (JObj payload)))] else payload) in
      AList.update ''context'' (JStr (pf_dumps_sorted pf (JObj context)))
        (AList.update ''memory_context'' (JStr memory_context_json)
          (AList.update ''workflow_name'' (JStr (rs_workflow_name s))
            (AList.update ''node_key'' (JStr node_key) v))))"

definition prompt_from_template ::
    "context_builder \<Rightarrow> runtime_session \<Rightarrow> string \<Rightarrow> string \<Rightarrow> memory_context option \<Rightarrow> exn + string \<times> string" where
  "prompt_from_template cb s node_key agent_role memory =
     (let pf = cb_text cb;
          payload = (case memory of None \<Rightarrow> [] | Some m \<Rightarrow> as_prompt_payload m) in
      and_then (lookup_template (cb_prompts cb) agent_role) (\<lambda>t.
      and_then (upstream_context s (cb_workflow cb) node_key) (\<lambda>context.
      render_template pf t (prompt_variables pf s node_key (pf_dumps_sorted pf (JObj payload)) context))))"

text \<open>Any \<^verbatim>\<open>KeyError\<close> of the lookup, the context or the rendering leads to the default prompt.\<close>

definition compose_prompt ::
    "context_builder \<Rightarrow> runtime_session \<Rightarrow> string \<Rightarrow> string \<Rightarrow> memory_context option \<Rightarrow> exn + string \<times> string" where
  "compose_prompt cb s node_key agent_role memory =
     (case prompt_from_template cb s node_key agent_role memory of
        Inr messages \<Rightarrow> Inr messages
      | Inl e \<Rightarrow>
          if e \<noteq> KeyError then Inl e
          else and_then (execution_context s (cb_workflow cb) node_key memory) (\<lambda>context.
               Inr (default_node_prompt (cb_text cb) agent_role node_key (rs_workflow_name s)
                 (rs_input_payload s) context)))"

definition compose_messages ::
    "context_builder \<Rightarrow> runtime_session \<Rightarrow> string \<Rightarrow> string \<Rightarrow> (string \<times> string) svc" where
  "compose_messages cb s node_key agent_role =
     svc_bind (memory_context_for_node cb s node_key) (\<lambda>memory.
     svc_lift (compose_prompt cb s node_key agent_role memory))"

section \<open>The requirements that a prompt shows\<close>

definition needs_rel :: "workflow_blueprint \<Rightarrow> (string \<times> string) set" where
  "needs_rel b = {(k, r). \<exists>sp. node_spec b k = Inr sp \<and> r \<in> set (wn_requires sp)}"

lemma node_spec_in: "node_spec b k = Inr sp \<Longrightarrow> sp \<in> set (wb_nodes b) \<and> wn_key sp = k"
  by (auto simp: node_spec_def split: option.splits dest: find_Some_in)

lemma requires_all: "node_spec b k = Inr sp \<Longrightarrow> set (wn_requires sp) \<subseteq> set (all_requirements b)"
  by (auto simp: all_requirements_def dest: node_spec_in)

lemma visit_closed:
  assumes "visit_requirements b depth reqs (seen, ordered) = Inr (seen', ordered')"
  shows "\<exists>new. ordered' = ordered @ new \<and> set seen' = set seen \<union> set new \<and> distinct new \<and>
    set new \<inter> set seen = {} \<and> set reqs \<subseteq> set seen' \<and>
    (\<forall>r \<in> set new. \<forall>q. (r, q) \<in> needs_rel b \<longrightarrow> q \<in> set seen') \<and>
    (\<forall>r \<in> set new. \<exists>q \<in> set reqs. (q, r) \<in> (needs_rel b)\<^sup>*)"
  using assms
proof (induction b depth reqs "(seen, ordered)" arbitrary: seen ordered seen' ordered'
    rule: visit_requirements.induct)
  case (1 b depth seen ordered)
  then show ?case by auto
next
  case (2 b req reqs seen ordered)
  from 2(2) have i: "req \<in> set seen" "visit_requirements b 0 reqs (seen, ordered) = Inr (seen', ordered')"
    by (auto split: if_splits)
  from 2(1) [OF i] i(1) show ?case by auto
next
  case (3 b depth req reqs seen ordered)
  show ?case
  proof (cases "req \<in> set seen")
    case True
    with 3(4) have "visit_requirements b (Suc depth) reqs (seen, ordered) = Inr (seen', ordered')" by simp
    from 3(1) [OF True this] True show ?thesis by auto
  next
    case False
    obtain sp seen1 ordered1 where v: "node_spec b req = Inr sp"
        "visit_requirements b depth (wn_requires sp) (req # seen, ordered) = Inr (seen1, ordered1)"
        "visit_requirements b (Suc depth) reqs (seen1, ordered1 @ [req]) = Inr (seen', ordered')"
      using 3(4) False by auto
    have n: "(req, q) \<in> needs_rel b \<longleftrightarrow> q \<in> set (wn_requires sp)" for q
      using v(1) by (auto simp: needs_rel_def)
    from 3(2) [OF False v(1,2)] obtain new1 where new1: "ordered1 = ordered @ new1"
      "set seen1 = insert req (set seen) \<union> set new1" "distinct new1"
      "set new1 \<inter> insert req (set seen) = {}" "set (wn_requires sp) \<subseteq> set seen1"
      "\<forall>r \<in> set new1. \<forall>q. (r, q) \<in> needs_rel b \<longrightarrow> q \<in> set seen1"
      "\<forall>r \<in> set new1. \<exists>q \<in> set (wn_requires sp). (q, r) \<in> (needs_rel b)\<^sup>*" by auto
    from 3(3) [OF False v(1,2) refl v(3)] obtain new2 where new2: "ordered' = (ordered1 @ [req]) @ new2"
      "set seen' = set seen1 \<union> set new2" "distinct new2" "set new2 \<inter> set seen1 = {}" "set reqs \<subseteq> set seen'"
      "\<forall>r \<in> set new2. \<forall>q. (r, q) \<in> needs_rel b \<longrightarrow> q \<in> set seen'"
      "\<forall>r \<in> set new2. \<exists>q \<in> set reqs. (q, r) \<in> (needs_rel b)\<^sup>*" by auto
    have up: "(req, r) \<in> (needs_rel b)\<^sup>*" if "r \<in> set new1" for r
      using that new1(7) n by (meson converse_rtrancl_into_rtrancl)
    show ?thesis
    proof (intro exI [of _ "new1 @ [req] @ new2"] conjI)
      show "set (req # reqs) \<subseteq> set seen'" using new1(2) new2(2,5) by auto
      show "\<forall>r \<in> set (new1 @ [req] @ new2). \<forall>q. (r, q) \<in> needs_rel b \<longrightarrow> q \<in> set seen'"
        using new1(5,6) new2(2,6) n by auto
      show "\<forall>r \<in> set (new1 @ [req] @ new2). \<exists>q \<in> set (req # reqs). (q, r) \<in> (needs_rel b)\<^sup>*"
        using up new2(7) by auto
    qed (use new1 new2 False in auto)
  qed
qed

lemma visit_enough:
  assumes "card (set (all_requirements b) - set seen) \<le> depth" "set reqs \<subseteq> set (all_requirements b)"
  shows "visit_requirements b depth reqs (seen, ordered) \<noteq> Inl RuntimeError"
  using assms
proof (induction b depth reqs "(seen, ordered)" arbitrary: seen ordered rule: visit_requirements.induct)
  case (2 b req reqs seen ordered)
  then have "set (all_requirements b) - set seen = {}" by simp
  with 2 show ?case by auto
next
  case (3 b depth req reqs seen ordered)
  show ?case
  proof (cases "req \<in> set seen")
    case True
    with 3 show ?thesis by simp
  next
    case False
    let ?U = "set (all_requirements b)"
    have "?U - set (req # seen) = (?U - set seen) - {req}" by auto
    moreover have "req \<in> ?U - set seen" using 3(5) False by simp
    ultimately have d: "card (?U - set (req # seen)) \<le> depth" using 3(4) by simp
    have "card (?U - set seen1) \<le> Suc depth" if "set seen \<subseteq> set seen1" for seen1
    proof -
      have "card (?U - set seen1) \<le> card (?U - set seen)" using that by (intro card_mono) auto
      with 3(4) show ?thesis by simp
    qed
    note later = this
    show ?thesis
    proof (cases "node_spec b req")
      case (Inl e)
      then have "e = KeyError" by (auto simp: node_spec_def split: option.splits)
      with Inl False show ?thesis by simp
    next
      case (Inr sp)
      note inner = 3(2) [OF False Inr d requires_all [OF Inr]]
      show ?thesis
      proof (cases "visit_requirements b depth (wn_requires sp) (req # seen, ordered)")
        case (Inl e)
        with inner False Inr show ?thesis by simp
      next
        case v: (Inr p)
        obtain seen1 ordered1 where p: "p = (seen1, ordered1)" by force
        have "set seen \<subseteq> set seen1" using visit_closed [of b depth "wn_requires sp" "req # seen"] v p by fastforce
        from 3(3) [OF False Inr v p [symmetric] later [OF this]] 3(5) False Inr v p show ?thesis by simp
      qed
    qed
  qed
qed simp

lemma visit_known:
  assumes "\<forall>r \<in> set (all_requirements b). \<exists>sp. node_spec b r = Inr sp" "set reqs \<subseteq> set (all_requirements b)"
    "visit_requirements b depth reqs (seen, ordered) = Inl e"
  shows "e = RuntimeError"
  using assms
proof (induction b depth reqs "(seen, ordered)" arbitrary: seen ordered rule: visit_requirements.induct)
  case (2 b req reqs seen ordered)
  then show ?case by (auto split: if_splits)
next
  case (3 b depth req reqs seen ordered)
  show ?case
  proof (cases "req \<in> set seen")
    case True
    with 3 show ?thesis by simp
  next
    case False
    obtain sp where sp: "node_spec b req = Inr sp" using 3(4,5) by auto
    show ?thesis
    proof (cases "visit_requirements b depth (wn_requires sp) (req # seen, ordered)")
      case (Inl e')
      then have "visit_requirements b depth (wn_requires sp) (req # seen, ordered) = Inl e"
        using 3(6) False sp by simp
      from 3(2) [OF False sp 3(4) requires_all [OF sp] this] show ?thesis .
    next
      case v: (Inr p)
      obtain seen1 ordered1 where p: "p = (seen1, ordered1)" by force
      have "visit_requirements b (Suc depth) reqs (seen1, ordered1 @ [req]) = Inl e"
        using 3(6) False sp v p by simp
      from 3(3) [OF False sp v p [symmetric] 3(4) _ this] 3(5) show ?thesis by simp
    qed
  qed
qed simp

lemma upstream_order_total:
  assumes "\<forall>r \<in> set (all_requirements b). \<exists>sp. node_spec b r = Inr sp" "node_spec b k = Inr sp"
  shows "\<exists>ks. upstream_order b k = Inr ks"
proof -
  have "card (set (all_requirements b)) \<le> length (all_requirements b)" by (rule card_length)
  then have "visit_requirements b (length (all_requirements b)) (wn_requires sp) ([], []) \<noteq> Inl RuntimeError"
    by (intro visit_enough requires_all [OF assms(2)]) simp
  then obtain p where "visit_requirements b (length (all_requirements b)) (wn_requires sp) ([], []) = Inr p"
    using visit_known [OF assms(1) requires_all [OF assms(2)]]
    by (cases "visit_requirements b (length (all_requirements b)) (wn_requires sp) ([], [])") auto
  with assms(2) show ?thesis by (auto simp: upstream_order_def split: prod.split)
qed

lemma upstream_order_never_exhausted: "upstream_order b k \<noteq> Inl RuntimeError"
proof (cases "node_spec b k")
  case (Inl e)
  then show ?thesis by (auto simp: upstream_order_def node_spec_def split: option.splits)
next
  case (Inr sp)
  have "card (set (all_requirements b)) \<le> length (all_requirements b)" by (rule card_length)
  then have "visit_requirements b (length (all_requirements b)) (wn_requires sp) ([], []) \<noteq> Inl RuntimeError"
    by (intro visit_enough requires_all [OF Inr]) simp
  with Inr show ?thesis
    by (cases "visit_requirements b (length (all_requirements b)) (wn_requires sp) ([], [])")
      (auto simp: upstream_order_def)
qed

lemma upstream_order_closure:
  assumes "upstream_order b k = Inr ks"
  shows "distinct ks" "set ks = {r. (k, r) \<in> (needs_rel b)\<^sup>+}"
proof -
  obtain sp seen where v: "node_spec b k = Inr sp"
      "visit_requirements b (length (all_requirements b)) (wn_requires sp) ([], []) = Inr (seen, ks)"
    using assms by (auto simp: upstream_order_def)
  have n: "(k, q) \<in> needs_rel b \<longleftrightarrow> q \<in> set (wn_requires sp)" for q
    using v(1) by (auto simp: needs_rel_def)
  from visit_closed [OF v(2)] have ks: "distinct ks" "set (wn_requires sp) \<subseteq> set ks"
    "\<forall>r \<in> set ks. \<forall>q. (r, q) \<in> needs_rel b \<longrightarrow> q \<in> set ks"
    "\<forall>r \<in> set ks. \<exists>q \<in> set (wn_requires sp). (q, r) \<in> (needs_rel b)\<^sup>*" by auto
  show "distinct ks" by (rule ks(1))
  have "r \<in> set ks" if "(k, r) \<in> (needs_rel b)\<^sup>+" for r
    using that by induction (use ks(2,3) n in auto)
  moreover have "(k, r) \<in> (needs_rel b)\<^sup>+" if "r \<in> set ks" for r
    using ks(4) that n by (meson rtrancl_into_trancl2)
  ultimately show "set ks = {r. (k, r) \<in> (needs_rel b)\<^sup>+}" by auto
qed

end
