(* ===== verification/Team_Total.thy ===== *)
theory Team_Total
  imports Team_Run
begin

text \<open>
  Runs of a team always end. The measure is what the strategy still has to schedule; it goes down
  with every turn that is recorded, also when the run continues an aggregate whose turns are not
  a prefix of the schedule. With this bound as fuel, \<open>run_team\<close> is \<^verbatim>\<open>invoke_team\<close> of
  \<^verbatim>\<open>orchestration/collaboration.py\<close> without the artefact of running out.
\<close>

section \<open>Loading a team\<close>

text \<open>
  The validators that Pydantic runs on the parts of a team before its own. \<open>make_team_spec\<close> runs
  the ones of the team itself.
\<close>

definition load_team_parts :: "team_spec \<Rightarrow> exn + team_spec" where
  "load_team_parts t =
     and_then (fold_err (\<lambda>m ms. and_then (make_agent_spec m) (\<lambda>x. Inr (ms @ [x]))) (ts_members t) []) (\<lambda>ms.
     and_then (make_protocol (ts_protocol t)) (\<lambda>p.
     and_then (case ts_workspace t of None \<Rightarrow> Inr None
               | Some ws \<Rightarrow> map_sum id Some (make_shared_workspace ws)) (\<lambda>ws.
     Inr (t\<lparr>ts_members := ms, ts_protocol := p, ts_workspace := ws\<rparr>))))"

lemma make_agent_spec_clean: "make_agent_spec a = Inr b \<Longrightarrow> clean_id (as_id b)"
  by (auto simp: make_agent_spec_def dest: non_empty_text_cleans)

lemma load_team_parts_valid:
  assumes "load_team_parts t = Inr t'" "make_team_spec t' = Inr team"
  shows "valid_team team"
proof -
  obtain ms where ms: "fold_err (\<lambda>m ms. and_then (make_agent_spec m) (\<lambda>x. Inr (ms @ [x]))) (ts_members t) [] = Inr ms"
      "ts_members t' = ms" "validate_protocol_consistency (ts_protocol t') = Inr (ts_protocol t')"
    using assms(1) by (auto simp: load_team_parts_def dest: make_protocol_consistent)
  have "\<forall>m \<in> set ms. clean_id (as_id m)"
    by (rule fold_err_rule [OF ms(1), where P = "\<lambda>_ xs. \<forall>m \<in> set xs. clean_id (as_id m)"])
       (auto dest: make_agent_spec_clean)
  moreover have "ts_members team = ts_members t'" "ts_protocol team = ts_protocol t'"
    using assms(2) by (auto simp: make_team_spec_def validate_team_def Let_def split: if_splits)
  ultimately show ?thesis using ms(2,3) by (simp add: valid_team_def)
qed

section \<open>The measure\<close>

definition unacted :: "interaction \<Rightarrow> string list" where
  "unacted i = filter (\<lambda>m. m \<notin> set (acted_agent_ids i)) (it_member_ids i)"

definition open_turns :: "strategy \<Rightarrow> interaction \<Rightarrow> nat" where
  "open_turns st i =
     (case st of
        DebateStrategy \<Rightarrow> length (debate_schedule (it_protocol i) (it_member_ids i)) - length (it_turns i)
      | _ \<Rightarrow> length (unacted i))"

text \<open>Whom the strategies other than the debate may schedule.\<close>

lemma find_unacted:
  assumes "List.find (\<lambda>m. P m \<and> m \<notin> set (acted_agent_ids i)) (it_member_ids i) = Some m"
  shows "m \<in> set (unacted i)"
  using assms by (auto simp: unacted_def find_Some_iff)

lemma pending_turn_agent:
  "pending_turn i a = Inr (Some t) \<Longrightarrow> clean_id a \<Longrightarrow> tn_agent_id t = a"
  by (auto simp: pending_turn_clean)

lemma scheduled_unacted:
  assumes "strategy_next_turn st i = Inr (Some t)" "st \<noteq> DebateStrategy" "sound_interaction i"
  shows "tn_agent_id t \<in> set (unacted i)"
proof -
  have c: "clean_id m" if "m \<in> set (unacted i)" for m
    using assms(3) that by (auto simp: sound_interaction_def unacted_def)
  have n: "tn_agent_id t \<in> set (unacted i)" if nx: "next_unacted_turn i = Inr (Some t)"
  proof -
    obtain m where "List.find (\<lambda>m. True \<and> m \<notin> set (acted_agent_ids i)) (it_member_ids i) = Some m"
        "pending_turn i m = Inr (Some t)"
      using nx by (cases "List.find (\<lambda>m. m \<notin> set (acted_agent_ids i)) (it_member_ids i)")
        (simp_all add: next_unacted_turn_def)
    with find_unacted [of "\<lambda>_. True"] c show ?thesis by (auto dest: pending_turn_agent)
  qed
  have other: "tn_agent_id t \<in> set (unacted i)"
    if "List.find (\<lambda>m. Some m \<noteq> cp_coordinator_id (it_protocol i) \<and> m \<notin> set (acted_agent_ids i))
        (it_member_ids i) = Some m" "pending_turn i m = Inr (Some t)" for m
    using find_unacted [OF that(1)] c that(2) by (auto dest: pending_turn_agent)
  have coord: "tn_agent_id t \<in> set (unacted i)"
    if "cp_coordinator_id (it_protocol i) = Some m" "m \<notin> set (acted_agent_ids i)"
      "pending_turn i m = Inr (Some t)" for m
  proof -
    have "m \<in> set (unacted i)" using that(1,2) assms(3) by (simp add: sound_interaction_def unacted_def)
    with c that(3) show ?thesis by (auto dest: pending_turn_agent)
  qed
  show ?thesis
  proof (cases st)
    case CoordinatorStrategy
    with assms(1) show ?thesis
      by (auto simp: coordinator_next_turn_def Let_def split: option.splits if_splits intro: other coord)
  next
    case DelegationStrategy
    with assms(1) show ?thesis
      by (auto simp: delegation_next_turn_def Let_def split: option.splits if_splits intro: other coord)
  qed (use assms(1,2) n in \<open>auto simp: broadcast_next_turn_def pipeline_next_turn_def vote_next_turn_def\<close>)
qed

lemma recorded_opens_less:
  assumes "strategy_next_turn st i = Inr (Some t)" "strategy_admits st (it_protocol i)" "sound_interaction i"
    "tn_agent_id c = tn_agent_id t"
  shows "open_turns st (i\<lparr>it_messages := ms, it_turns := it_turns i @ [c]\<rparr>) < open_turns st i"
proof (cases "st = DebateStrategy")
  case True
  with assms(2) have m: "cp_mode (it_protocol i) = Mode_DEBATE" by simp
  obtain r where r: "debate_rounds (it_protocol i) = Inr r" "1 \<le> r"
    by (rule sound_debate_rounds [OF assms(3) m])
  have "length (it_turns i) < nat r * length (it_member_ids i)"
    using assms(1) True debate_next_turn_eq [OF assms(3) r refl] by (auto split: if_splits)
  with True r(1) show ?thesis
    by (simp add: open_turns_def debate_schedule_def length_concat_replicate)
next
  case False
  let ?j = "i\<lparr>it_messages := ms, it_turns := it_turns i @ [c]\<rparr>"
  have "tn_agent_id t \<in> set (unacted i)" by (rule scheduled_unacted [OF assms(1) False assms(3)])
  moreover have "unacted ?j = filter (\<lambda>m. m \<noteq> tn_agent_id t) (unacted i)"
    by (auto simp: unacted_def acted_agent_ids_def assms(4) intro!: filter_cong)
  ultimately have "length (unacted ?j) < length (unacted i)"
    by (metis (mono_tags, lifting) length_filter_less)
  with False show ?thesis by (cases st) (simp_all add: open_turns_def)
qed

lemma open_turns_bound:
  assumes "sound_interaction i" "strategy_admits st (it_protocol i)"
  shows "open_turns st i \<le> length (strategy_schedule st (it_protocol i) (it_member_ids i))"
proof (cases "st = DebateStrategy")
  case True
  then show ?thesis by (simp add: open_turns_def)
next
  case False
  have "length (unacted i) \<le> length (it_member_ids i)" by (simp add: unacted_def)
  also have "\<dots> = card (set (it_member_ids i))"
    using assms(1) by (simp add: sound_interaction_def distinct_card)
  also have "\<dots> \<le> length (strategy_schedule st (it_protocol i) (it_member_ids i))"
    using strategies.schedule_members [OF assms] by (metis card_length)
  finally show ?thesis using False by (cases st) (simp_all add: open_turns_def)
qed

section \<open>The loop returns\<close>

text \<open>What stays true of the runtime while the turns go on.\<close>

definition runtime_sound :: "native_runtime \<Rightarrow> bool" where
  "runtime_sound r \<longleftrightarrow> sound_interaction (nr_interaction r) \<and>
     strategy_admits (nr_strategy r) (it_protocol (nr_interaction r))"

lemma runtime_next_turnD:
  assumes "runtime_next_turn r = Inr (Some s)"
  shows "strategy_next_turn (nr_strategy r) (nr_interaction r) = Inr (Some (sc_turn s))"
    "as_id (sc_member s) = tn_agent_id (sc_turn s)"
proof -
  obtain t member where t: "strategy_next_turn (nr_strategy r) (nr_interaction r) = Inr (Some t)"
      "map_of (members_by_id (nr_team r)) (tn_agent_id t) = Some member"
      "sc_turn s = t" "sc_member s = member"
    using assms unfolding runtime_next_turn_def Let_def
    by (auto split: option.splits simp: and_then_def split: sum.splits)
  then show "strategy_next_turn (nr_strategy r) (nr_interaction r) = Inr (Some (sc_turn s))"
    "as_id (sc_member s) = tn_agent_id (sc_turn s)"
    by (auto dest: members_by_id_id)
qed

lemma runtime_record_less:
  assumes "runtime_next_turn r = Inr (Some s)" "runtime_record r s content = Inr r1" "runtime_sound r"
  shows "runtime_sound r1" "nr_strategy r1 = nr_strategy r"
    "open_turns (nr_strategy r1) (nr_interaction r1) < open_turns (nr_strategy r) (nr_interaction r)"
proof -
  note n = runtime_next_turnD [OF assms(1)]
  let ?i = "nr_interaction r" and ?t = "sc_turn s"
  have same: "?t\<lparr>tn_agent_id := as_id (sc_member s)\<rparr> = ?t" using n(2) by simp
  have snd: "sound_interaction ?i" "strategy_admits (nr_strategy r) (it_protocol ?i)"
    using assms(3) by (simp_all add: runtime_sound_def)
  obtain p c where "record_member_message ?i ?t content =
      Inr (?i\<lparr>it_messages := it_messages ?i @ [p], it_turns := it_turns ?i @ [c]\<rparr>)"
    and c: "make_turn \<lparr>tn_index = tn_index ?t, tn_agent_id = tn_agent_id ?t, tn_status = Turn_COMPLETED,
        tn_message_ids = [ms_id p], tn_metadata = []\<rparr> = Inr c"
    and r1: "r1 = r\<lparr>nr_interaction := ?i\<lparr>it_messages := it_messages ?i @ [p], it_turns := it_turns ?i @ [c]\<rparr>\<rparr>"
    using assms(2) by (auto simp: runtime_record_def same record_member_message_def)
  have clean: "clean_id (tn_agent_id ?t)"
  proof (cases "nr_strategy r = DebateStrategy")
    case True
    with snd have "cp_mode (it_protocol ?i) = Mode_DEBATE" by simp
    from sound_debate_rounds [OF snd(1) this] obtain k where k: "debate_rounds (it_protocol ?i) = Inr k" "1 \<le> k" .
    have m: "it_member_ids ?i \<noteq> []" "\<forall>a \<in> set (it_member_ids ?i). clean_id a"
      using snd(1) by (simp_all add: sound_interaction_def)
    let ?a = "it_member_ids ?i ! (length (it_turns ?i) mod length (it_member_ids ?i))"
    have a: "clean_id ?a" using m by simp
    from n(1) True debate_next_turn_eq [OF snd(1) k refl] have "pending_turn ?i ?a = Inr (Some ?t)"
      by (auto split: if_splits)
    with a show ?thesis by (auto dest: pending_turn_agent)
  next
    case False
    from scheduled_unacted [OF n(1) False snd(1)] snd(1) show ?thesis
      by (auto simp: sound_interaction_def unacted_def)
  qed
  then have "tn_agent_id c = tn_agent_id ?t" using c by (auto simp: make_turn_def)
  from recorded_opens_less [OF n(1) snd(2,1) this] r1 snd
  show "runtime_sound r1" "nr_strategy r1 = nr_strategy r"
    "open_turns (nr_strategy r1) (nr_interaction r1) < open_turns (nr_strategy r) (nr_interaction r)"
    by (simp_all add: runtime_sound_def sound_interaction_def)
qed

lemma team_loop_returns:
  assumes "runtime_sound r" "open_turns (nr_strategy r) (nr_interaction r) < fuel"
  shows "team_loop fuel env a rq team st r results w \<noteq> (Inr None, w')"
  using assms
proof (induction fuel arbitrary: r results w)
  case (Suc fuel)
  show ?case
  proof
    assume run: "team_loop (Suc fuel) env a rq team st r results w = (Inr None, w')"
    then obtain s m w1 r1 where s: "runtime_next_turn r = Inr (Some s)"
      and r1: "runtime_record r s (team_member_content m) = Inr r1"
      and rest: "team_loop fuel env a rq team st r1 (results @ [m]) w1 = (Inr None, w')"
      by (auto simp: svc_bind_Inr svc_lift_Inr split: option.splits simp del: svc_lift_eq)
    note l = runtime_record_less [OF s r1 Suc.prems(1)]
    have "open_turns (nr_strategy r1) (nr_interaction r1) < fuel" using l(3) Suc.prems(2) by simp
    from Suc.IH [OF l(1) this] rest show False by simp
  qed
qed simp

section \<open>Whole runs\<close>

lemma make_runtime_sound:
  assumes "make_runtime team ii ts ms = Inr r" "valid_team team"
  shows "runtime_sound r"
    "length (strategy_schedule (nr_strategy r) (it_protocol (nr_interaction r)) (it_member_ids (nr_interaction r)))
      = length (team_schedule team)"
proof -
  let ?mem = "map fst (members_by_id team)"
  let ?i0 = "\<lparr>it_id = ii, it_team_id = ts_id team, it_member_ids = ?mem, it_protocol = ts_protocol team,
    it_messages = ms, it_turns = ts, it_status = Interaction_RUNNING, it_workspace_id = workspace_id team,
    it_metadata = []\<rparr>"
  obtain st i where st: "select_strategy (ts_protocol team) = Inr st" and i: "make_interaction ?i0 = Inr i"
    and r: "r = \<lparr>nr_team = team, nr_strategy = st, nr_interaction = i\<rparr>"
    using assms(1) by (auto simp: make_runtime_def)
  obtain x tid where v: "validate_consistency (?i0\<lparr>it_id := x, it_team_id := tid\<rparr>) = Inr i" "clean_id x"
    using i by (auto simp: make_interaction_def dest: non_empty_text_cleans)
  then have eq: "i = ?i0\<lparr>it_id := x, it_team_id := tid\<rparr>" and ok: "?mem \<noteq> []" "distinct ?mem"
      "\<forall>c. cp_coordinator_id (ts_protocol team) = Some c \<longrightarrow> c \<in> set ?mem"
    by (auto simp: validate_consistency_def Let_def split: if_splits)
  have "\<forall>m \<in> set ?mem. clean_id m"
    using members_by_id_keys [of team] assms(2) by (auto simp: valid_team_def)
  with ok assms(2) v(2) have "sound_interaction i"
    by (simp add: eq sound_interaction_def valid_team_def)
  with st selected_admits [OF st] show "runtime_sound r"
    "length (strategy_schedule (nr_strategy r) (it_protocol (nr_interaction r)) (it_member_ids (nr_interaction r)))
      = length (team_schedule team)"
    by (simp_all add: r eq runtime_sound_def team_schedule_def)
qed

lemma team_runtime_sound:
  assumes "team_runtime a team res = Inr (r, prior)" "valid_team team"
  shows "runtime_sound r" "open_turns (nr_strategy r) (nr_interaction r) \<le> length (team_schedule team)"
proof -
  obtain ii ts ms where "make_runtime team ii ts ms = Inr r"
    using assms(1) by (cases res) (auto simp: team_runtime_def seed_from_durable_def)
  note m = make_runtime_sound [OF this assms(2)]
  show "runtime_sound r" by (rule m(1))
  then show "open_turns (nr_strategy r) (nr_interaction r) \<le> length (team_schedule team)"
    using open_turns_bound [of "nr_interaction r" "nr_strategy r"] m(2) by (simp add: runtime_sound_def)
qed

lemma invoke_team_returns:
  assumes "team_spec_from_config (tq_team rq) = Inr team" "valid_team team" "length (team_schedule team) < fuel"
  shows "invoke_team fuel env a rq st w \<noteq> (Inr None, w')"
proof
  assume "invoke_team fuel env a rq st w = (Inr None, w')"
  then obtain res r prior w1 w2 where rt: "team_runtime a team res = Inr (r, prior)"
    and tr: "svc_try (team_turns fuel env a rq team st r prior) (team_failed env a team (nr_interaction r)) w1
      = (Inr None, w2)"
    using assms(1) unfolding invoke_team_def
    by (auto simp: svc_bind_Inr svc_lift_Inr simp del: svc_lift_eq split: option.splits)
  note s = team_runtime_sound [OF rt assms(2)]
  have "team_turns fuel env a rq team st r prior w1 = (Inr None, w2)"
    using tr by (auto simp: svc_try_def team_failed_raises split: prod.splits sum.splits)
  then show False
    using team_loop_returns [OF s(1)] s(2) assms(3)
    by (auto simp: team_turns_def svc_bind_Inr split: option.splits)
qed

text \<open>
  \<^verbatim>\<open>CollaborationExecutor.invoke_team\<close>. The team of the configuration passes the validators
  first; the branch without a result is never taken.
\<close>

definition team_fuel :: "team_request \<Rightarrow> nat" where
  "team_fuel rq =
     (case team_spec_from_config (tq_team rq) of
        Inl _ \<Rightarrow> 0
      | Inr team \<Rightarrow> Suc (length (team_schedule team)))"

definition loaded_team :: "team_spec option \<Rightarrow> team_spec option" where
  "loaded_team raw =
     (case raw of
        None \<Rightarrow> None
      | Some t \<Rightarrow> (case load_team_parts t of Inl _ \<Rightarrow> None | Inr t' \<Rightarrow> Some t'))"

definition run_team ::
    "team_env \<Rightarrow> agent_call \<Rightarrow> team_request \<Rightarrow> member_strategy \<Rightarrow> invocation_result svc" where
  "run_team env a rq strategy =
     (let rq1 = rq\<lparr>tq_team := loaded_team (tq_team rq)\<rparr> in
      svc_bind (invoke_team (team_fuel rq1) env a rq1 strategy) (\<lambda>finished.
      case finished of
        None \<Rightarrow> svc_lift (Inl RuntimeError)
      | Some r \<Rightarrow> svc_return r))"

lemma loaded_team_valid:
  "team_spec_from_config (loaded_team raw) = Inr team \<Longrightarrow> valid_team team"
  by (auto simp: team_spec_from_config_def loaded_team_def intro: load_team_parts_valid
      split: option.splits sum.splits)

text \<open>The fuel never runs out: a run of a team ends with a result or with an exception of the code.\<close>

theorem run_team_is_invoke:
  "run_team env a rq st w =
     (case invoke_team (team_fuel (rq\<lparr>tq_team := loaded_team (tq_team rq)\<rparr>)) env a
        (rq\<lparr>tq_team := loaded_team (tq_team rq)\<rparr>) st w of
        (Inl e, w') \<Rightarrow> (Inl e, w')
      | (Inr x, w') \<Rightarrow> (Inr (the x), w')) \<and>
   fst (invoke_team (team_fuel (rq\<lparr>tq_team := loaded_team (tq_team rq)\<rparr>)) env a
        (rq\<lparr>tq_team := loaded_team (tq_team rq)\<rparr>) st w) \<noteq> Inr None"
proof -
  let ?rq = "rq\<lparr>tq_team := loaded_team (tq_team rq)\<rparr>"
  obtain y w' where run: "invoke_team (team_fuel ?rq) env a ?rq st w = (y, w')" by force
  have "y \<noteq> Inr None"
  proof (cases "team_spec_from_config (tq_team ?rq)")
    case (Inl e)
    then show ?thesis using run by (auto simp: invoke_team_def svc_bind_def svc_lift_def)
  next
    case (Inr team)
    then have "length (team_schedule team) < team_fuel ?rq" by (simp add: team_fuel_def)
    from invoke_team_returns [OF Inr loaded_team_valid this] Inr run show ?thesis by auto
  qed
  with run show ?thesis
    by (auto simp: run_team_def Let_def svc_bind_def svc_return_def split: sum.split option.split)
qed

context service_relation begin

lemma run_team_preserves: "preserves rel (run_team env a rq st)"
  unfolding run_team_def Let_def
  by (intro spec_then invoke_team_preserves spec_case_option spec_fail spec_done)

end

end
