(* ===== verification/Node_Invocation.thy ===== *)
theory Node_Invocation
  imports Prompt_Context Team_Total Episode_Types
begin

text \<open>
  \<^verbatim>\<open>orchestration/agent_invocation.py\<close>, the default harness of
  \<^verbatim>\<open>orchestration/execution_harness.py\<close> and
  \<^verbatim>\<open>orchestration/explicit_submit_execution_harness.py\<close>: how one node is executed. The
  prompt is composed, the model, a subagent or a team is called, tools are run until none is asked
  for, and the report is stamped and verified. The verifier and the builder of reports are
  arguments of the constructor; \<open>nv_team_config\<close> is the structural reading of
  \<^verbatim>\<open>config.mas_team\<close> by Pydantic, whose own validators are those of \<open>run_team\<close>.
\<close>

record node_services =
  nv_builder :: context_builder
  nv_tools :: "(string \<Rightarrow> exn + tool_spec list) option"
  nv_team :: team_env
  nv_team_config :: "pydict \<Rightarrow> team_spec option"
  nv_report_builder :: "(string \<Rightarrow> string \<Rightarrow> invocation_result \<Rightarrow> agent_report svc) option"
  nv_verifier :: "(runtime_session \<Rightarrow> pydict \<Rightarrow> agent_report \<Rightarrow> agent_report svc) option"

section \<open>Reports\<close>

definition plain_report :: "string \<Rightarrow> string \<Rightarrow> pydict \<Rightarrow> agent_report" where
  "plain_report node_key agent_id output =
     \<lparr>ar_node_key = node_key, ar_agent_id = agent_id, ar_harness_id = None, ar_execution_id = None,
      ar_trace_id = None, ar_lease_token = None, ar_output = output, ar_boundary_event = None,
      ar_gate_triggers = [], ar_verifier_results = [], ar_feedback = [], ar_error = None\<rparr>"

definition tool_call_json :: "tool_call \<Rightarrow> json" where
  "tool_call_json c =
     JObj [(''id'', JStr (tc_id c)), (''name'', JStr (tc_name c)), (''arguments'', JObj (tc_arguments c))]"

definition default_report_builder ::
    "(string \<Rightarrow> json option) \<Rightarrow> string \<Rightarrow> string \<Rightarrow> invocation_result \<Rightarrow> exn + agent_report" where
  "default_report_builder loads node_key agent_id r =
     (if iv_tool_calls r \<noteq> [] then
        Inr (plain_report node_key agent_id
          [(''tool_calls'', JList (map tool_call_json (iv_tool_calls r)))])
      else
        let text = py_strip (iv_content r);
            plain = Inr (plain_report node_key agent_id [(''text'', JStr text)]) in
        if py_startswith text ''{'' \<and> text \<noteq> [] \<and> last text = CHR ''}'' then
          (case loads text of
             None \<Rightarrow> plain
           | Some (JObj d) \<Rightarrow> Inr (plain_report node_key agent_id d)
           | Some _ \<Rightarrow> Inl ValidationError)
        else plain)"

definition build_report ::
    "node_services \<Rightarrow> string \<Rightarrow> string \<Rightarrow> invocation_result \<Rightarrow> agent_report svc" where
  "build_report nv node_key agent_role r =
     (case nv_report_builder nv of
        Some f \<Rightarrow> f node_key agent_role r
      | None \<Rightarrow> svc_lift (default_report_builder (ag_loads (te_runtime (nv_team nv))) node_key agent_role r))"

definition stamp_report :: "string \<Rightarrow> string \<Rightarrow> string option \<Rightarrow> agent_report \<Rightarrow> agent_report" where
  "stamp_report execution_id trace_id lease_token r =
     r\<lparr>ar_execution_id := Some execution_id, ar_trace_id := Some trace_id, ar_lease_token := lease_token\<rparr>"

definition verify_report ::
    "node_services \<Rightarrow> runtime_session \<Rightarrow> pydict \<Rightarrow> agent_report \<Rightarrow> agent_report svc" where
  "verify_report nv s config r =
     (case nv_verifier nv of None \<Rightarrow> svc_return r | Some v \<Rightarrow> v s config r)"

section \<open>The invoker\<close>

definition request_tools :: "node_services \<Rightarrow> string \<Rightarrow> tool_spec list svc" where
  "request_tools nv node_key = svc_lift (case nv_tools nv of None \<Rightarrow> Inr [] | Some f \<Rightarrow> f node_key)"

definition some_tools :: "tool_spec list \<Rightarrow> tool_spec list option" where
  "some_tools ts = (if ts = [] then None else Some ts)"

definition subagent_tool_origin :: "invocation_result \<Rightarrow> string \<Rightarrow> pydict" where
  "subagent_tool_origin r role =
     (if \<not> truthy (iv_subagent_id r) then []
      else [(''execution_mode'', JStr ''subagent''), (''subagent_id'', json_opt_str (iv_subagent_id r)),
        (''subagent_role'', JStr role)])"

definition team_request_for ::
    "node_services \<Rightarrow> string \<Rightarrow> string \<Rightarrow> tool_spec list option \<Rightarrow> string \<Rightarrow> pydict \<Rightarrow> team_request" where
  "team_request_for nv system user tools role config =
     \<lparr>tq_messages = [harness_message_of Harness_USER user], tq_system = system, tq_tools = tools,
      tq_agent_role = role, tq_team = nv_team_config nv config\<rparr>"

definition dispatch_node ::
    "node_services \<Rightarrow> node_execution_mode \<Rightarrow> agent_call \<Rightarrow> string \<Rightarrow> string \<Rightarrow> tool_spec list option \<Rightarrow>
     string \<Rightarrow> pydict \<Rightarrow> invocation_result svc" where
  "dispatch_node nv mode a system user tools role config =
     (let rt = te_runtime (nv_team nv); messages = [harness_message_of Harness_USER user] in
      case mode of
        Execution_DIRECT \<Rightarrow> invoke_model rt a messages system tools role 0
      | Execution_SUBAGENT \<Rightarrow> invoke_subagent (te_subagents (nv_team nv)) rt a messages system tools role
      | Execution_TEAM \<Rightarrow>
          run_team (nv_team nv) a (team_request_for nv system user tools role config) DefaultMemberTurn)"

definition drain_node ::
    "node_services \<Rightarrow> node_execution_mode \<Rightarrow> agent_call \<Rightarrow> string \<Rightarrow> string \<Rightarrow> tool_spec list option \<Rightarrow>
     string \<Rightarrow> invocation_result \<Rightarrow> invocation_result svc" where
  "drain_node nv mode a system user tools role r =
     (case tools of
        None \<Rightarrow> svc_return r
      | Some ts \<Rightarrow>
          drain_tool_calls (te_runtime (nv_team nv)) a r [harness_message_of Harness_USER user] system ts role
            (if mode = Execution_SUBAGENT then subagent_tool_origin r role else []))"

definition invoke_node ::
    "node_services \<Rightarrow> runtime_session \<Rightarrow> string \<Rightarrow> string \<Rightarrow> pydict \<Rightarrow> string \<Rightarrow> string \<Rightarrow> string option \<Rightarrow>
     agent_report svc" where
  "invoke_node nv s node_key role config execution_id trace_id lease_token =
     (let a = \<lparr>ac_session_id = rs_id s, ac_node_key = node_key, ac_execution_id = execution_id,
            ac_trace_id = trace_id\<rparr> in
      svc_bind (compose_messages (nv_builder nv) s node_key role) (\<lambda>(system, user).
      svc_bind (request_tools nv node_key) (\<lambda>specs.
        let tools = some_tools specs in
      svc_bind (svc_lift (resolve_node_execution_mode (ag_repr (te_runtime (nv_team nv))) config)) (\<lambda>mode.
      svc_bind (dispatch_node nv mode a system user tools role config) (\<lambda>first.
      svc_bind (drain_node nv mode a system user tools role first) (\<lambda>r.
      if iv_tool_calls r \<noteq> [] then svc_lift (Inl RuntimeError)
      else svc_bind (build_report nv node_key role r) (\<lambda>built.
        verify_report nv s config (stamp_report execution_id trace_id lease_token built))))))))"

section \<open>The default harness\<close>

definition hydramind_harness_name :: string where
  "hydramind_harness_name = ''HydraMindExecutionHarness''"

definition hydramind_episode :: "node_services \<Rightarrow> episode_request \<Rightarrow> episode_outcome svc" where
  "hydramind_episode nv q =
     svc_bind (invoke_node nv (eq_session q) (eq_node_key q) (eq_agent_role q) (eq_node_config q)
         (eq_execution_id q) (eq_trace_id q) (effective_lease_token q)) (\<lambda>r.
       let report = with_harness_identity hydramind_harness_name r;
           failure = classify_report_failure report in
       svc_return
         \<lparr>eo_report = report, eo_failure = failure, eo_final_result = final_result report,
          eo_model_invocations = [], eo_tool_evidence = [], eo_verifier_evidence = ar_verifier_results report,
          eo_trace_event_refs = [], eo_proposed_transitions = proposed_transitions report failure,
          eo_recovery_signals = recovery_signals failure\<rparr>)"

section \<open>The explicit-submit harness\<close>

definition explicit_harness_name :: string where
  "explicit_harness_name = ''ExplicitSubmitExecutionHarness''"

text \<open>Pydantic refuses a negative count of tokens.\<close>

definition model_evidence :: "invocation_result \<Rightarrow> int \<Rightarrow> exn + model_invocation_evidence" where
  "model_evidence r round_no =
     and_then (raise_when (round_no < 0 \<or> us_input (iv_usage r) < 0 \<or> us_output (iv_usage r) < 0)
       ValidationError) (\<lambda>_.
     Inr \<lparr>me_model_id = iv_model_id r, me_round_no = round_no, me_input_tokens = us_input (iv_usage r),
       me_output_tokens = us_output (iv_usage r),
       me_stop_reason = Some (stop_reason_value (iv_stop_reason r))\<rparr>)"

definition explicit_report :: "node_services \<Rightarrow> episode_request \<Rightarrow> invocation_result \<Rightarrow> agent_report svc" where
  "explicit_report nv q r =
     svc_bind (build_report nv (eq_node_key q) (eq_agent_role q) r) (\<lambda>built.
       let report = with_harness_identity explicit_harness_name
         (stamp_report (eq_execution_id q) (eq_trace_id q) (effective_lease_token q) built) in
       case nv_verifier nv of
         None \<Rightarrow> svc_return report
       | Some v \<Rightarrow>
           svc_bind (v (eq_session q) (eq_node_config q) report) (\<lambda>verified.
           svc_return (with_harness_identity explicit_harness_name verified)))"

definition explicit_outcome ::
    "episode_request \<Rightarrow> string \<Rightarrow> agent_report \<Rightarrow> model_invocation_evidence list \<Rightarrow> tool_call_evidence list \<Rightarrow>
     episode_outcome" where
  "explicit_outcome q stage report invocations evidence =
     (let failure = classify_report_failure report in
      \<lparr>eo_report = report, eo_failure = failure, eo_final_result = final_result report,
       eo_model_invocations = invocations, eo_tool_evidence = evidence,
       eo_verifier_evidence = ar_verifier_results report,
       eo_trace_event_refs = [eq_trace_id q @ '':'' @ stage @ '':'' @ explicit_harness_name],
       eo_proposed_transitions = proposed_transitions report failure,
       eo_recovery_signals = recovery_signals failure\<rparr>)"

definition failure_outcome ::
    "episode_request \<Rightarrow> failure_category \<Rightarrow> string \<Rightarrow> model_invocation_evidence list \<Rightarrow>
     tool_call_evidence list \<Rightarrow> episode_outcome" where
  "failure_outcome q failure detail invocations evidence =
     (let report = (with_harness_identity explicit_harness_name
            (stamp_report (eq_execution_id q) (eq_trace_id q) (eq_lease_token q)
              (plain_report (eq_node_key q) (eq_agent_role q) [])))\<lparr>ar_error := Some detail\<rparr> in
      \<lparr>eo_report = report, eo_failure = failure, eo_final_result = None,
       eo_model_invocations = invocations, eo_tool_evidence = evidence, eo_verifier_evidence = [],
       eo_trace_event_refs = [eq_trace_id q @ '':submit:'' @ explicit_harness_name],
       eo_proposed_transitions = proposed_transitions report failure,
       eo_recovery_signals = recovery_signals failure\<rparr>)"

definition request_call :: "episode_request \<Rightarrow> agent_call" where
  "request_call q = \<lparr>ac_session_id = rs_id (eq_session q), ac_node_key = eq_node_key q,
     ac_execution_id = eq_execution_id q, ac_trace_id = eq_trace_id q\<rparr>"

definition explicit_team :: "node_services \<Rightarrow> episode_request \<Rightarrow> episode_outcome svc" where
  "explicit_team nv q =
     svc_bind (compose_messages (nv_builder nv) (eq_session q) (eq_node_key q) (eq_agent_role q)) (\<lambda>(system, user).
     svc_bind (request_tools nv (eq_node_key q)) (\<lambda>tools.
     svc_bind (run_team (nv_team nv) (request_call q)
         (team_request_for nv system user (some_tools tools) (eq_agent_role q)
           (eq_node_config q)) ExplicitSubmitMemberTurn) (\<lambda>r.
     svc_bind (explicit_report nv q r) (\<lambda>report.
     svc_bind (svc_lift (model_evidence r 0)) (\<lambda>ev.
     svc_return (explicit_outcome q ''team'' report [ev] []))))))"

text \<open>What the loop carries from turn to turn.\<close>

record submit_state =
  ss_current :: invocation_result
  ss_messages :: "harness_message list"
  ss_invocations :: "model_invocation_evidence list"
  ss_evidence :: "tool_call_evidence list"
  ss_effects :: effect_results

definition submitted_outcome ::
    "node_services \<Rightarrow> episode_request \<Rightarrow> submit_state \<Rightarrow> episode_outcome option svc" where
  "submitted_outcome nv q st =
     (let rt = te_runtime (nv_team nv) in
      case explicit_submit (ag_loads rt) (ag_dumps rt) (iv_content (ss_current st)) of
        None \<Rightarrow> svc_return None
      | Some content \<Rightarrow>
          svc_bind (explicit_report nv q ((ss_current st)\<lparr>iv_content := content, iv_tool_calls := []\<rparr>))
            (\<lambda>report.
          svc_return (Some (explicit_outcome q ''submit'' report (ss_invocations st) (ss_evidence st)))))"

definition ask_model ::
    "node_services \<Rightarrow> episode_request \<Rightarrow> string \<Rightarrow> tool_spec list option \<Rightarrow> int \<Rightarrow> submit_state \<Rightarrow> submit_state svc" where
  "ask_model nv q system tools turn_no st =
     svc_bind (invoke_model (te_runtime (nv_team nv)) (request_call q) (ss_messages st) system tools
         (eq_agent_role q) turn_no) (\<lambda>next.
     svc_bind (svc_lift (model_evidence next turn_no)) (\<lambda>ev.
     svc_return (st\<lparr>ss_current := next, ss_invocations := ss_invocations st @ [ev]\<rparr>)))"

definition assistant_message :: "invocation_result \<Rightarrow> tool_call list \<Rightarrow> harness_message" where
  "assistant_message r calls =
     (harness_message_of Harness_ASSISTANT (iv_content r))\<lparr>hm_tool_calls := calls, hm_reasoning := iv_reasoning r\<rparr>"

text \<open>One turn: the first tool call only, or another question to the model.\<close>

definition submit_turn ::
    "node_services \<Rightarrow> episode_request \<Rightarrow> string \<Rightarrow> tool_spec list \<Rightarrow> pydict \<Rightarrow> int \<Rightarrow> submit_state \<Rightarrow> submit_state svc" where
  "submit_turn nv q system tools origin turn_no st =
     (let rt = te_runtime (nv_team nv); current = ss_current st in
      case iv_tool_calls current of
        [] \<Rightarrow> ask_model nv q system (some_tools tools) turn_no
               (st\<lparr>ss_messages := ss_messages st @ [assistant_message current []]\<rparr>)
      | call # _ \<Rightarrow>
          if tools = [] then svc_lift (Inl RuntimeError)
          else
            svc_bind (execute_tool_round rt (request_call q) [call] turn_no tools
                (tool_context_for rt (eq_node_key q) (eq_agent_role q)) (if turn_no = 1 then origin else [])
                (ss_effects st)) (\<lambda>(results, effects).
            svc_bind (svc_lift (case results of [] \<Rightarrow> Inl IndexError | b # _ \<Rightarrow> Inr b)) (\<lambda>b.
            ask_model nv q system (Some tools) turn_no
              (st\<lparr>ss_messages := ss_messages st @ [assistant_message current [call],
                    (harness_message_of Harness_TOOL [])\<lparr>hm_tool_results := results\<rparr>],
                  ss_evidence := ss_evidence st @
                    [\<lparr>ce_tool_call_id = tc_id call, ce_tool_name = tc_name call, ce_round_no = turn_no,
                      ce_is_error = tb_is_error b\<rparr>],
                  ss_effects := effects\<rparr>))))"

definition exhausted_detail :: "int \<Rightarrow> string" where
  "exhausted_detail max_turns =
     ''explicit-submit harness exhausted max_turns='' @ py_str_int max_turns @ '' before submit/done''"

fun submit_loop ::
    "node_services \<Rightarrow> episode_request \<Rightarrow> string \<Rightarrow> tool_spec list \<Rightarrow> pydict \<Rightarrow> int \<Rightarrow> nat \<Rightarrow> int \<Rightarrow> submit_state \<Rightarrow>
     episode_outcome svc" where
  "submit_loop nv q system tools origin max_turns 0 turn_no st =
     svc_bind (submitted_outcome nv q st) (\<lambda>submitted.
     case submitted of
       Some outcome \<Rightarrow> svc_return outcome
     | None \<Rightarrow> svc_return (failure_outcome q Failure_TIMEOUT (exhausted_detail max_turns)
         (ss_invocations st) (ss_evidence st)))"
| "submit_loop nv q system tools origin max_turns (Suc turns) turn_no st =
     svc_bind (submitted_outcome nv q st) (\<lambda>submitted.
     case submitted of
       Some outcome \<Rightarrow> svc_return outcome
     | None \<Rightarrow>
         svc_bind (submit_turn nv q system tools origin turn_no st) (\<lambda>st1.
         submit_loop nv q system tools origin max_turns turns (turn_no + 1) st1))"

definition submit_turn_limit :: "node_services \<Rightarrow> episode_request \<Rightarrow> int" where
  "submit_turn_limit nv q =
     (case xc_max_turns (eq_constraints q) of
        Some n \<Rightarrow> if n \<noteq> 0 then n else int (ag_max_rounds (te_runtime (nv_team nv)))
      | None \<Rightarrow> int (ag_max_rounds (te_runtime (nv_team nv))))"

definition invoke_first ::
    "node_services \<Rightarrow> episode_request \<Rightarrow> node_execution_mode \<Rightarrow> harness_message list \<Rightarrow> string \<Rightarrow>
     tool_spec list option \<Rightarrow> invocation_result svc" where
  "invoke_first nv q mode messages system tools =
     (let rt = te_runtime (nv_team nv) in
      if mode = Execution_SUBAGENT
      then invoke_subagent (te_subagents (nv_team nv)) rt (request_call q) messages system tools (eq_agent_role q)
      else invoke_model rt (request_call q) messages system tools (eq_agent_role q) 0)"

definition explicit_submit_loop ::
    "node_services \<Rightarrow> episode_request \<Rightarrow> node_execution_mode \<Rightarrow> episode_outcome svc" where
  "explicit_submit_loop nv q mode =
     svc_bind (compose_messages (nv_builder nv) (eq_session q) (eq_node_key q) (eq_agent_role q)) (\<lambda>(system, user).
     svc_bind (request_tools nv (eq_node_key q)) (\<lambda>tools.
       let messages = [harness_message_of Harness_USER user];
           limit = submit_turn_limit nv q in
     svc_bind (invoke_first nv q mode messages system (some_tools tools)) (\<lambda>first.
     svc_bind (svc_lift (model_evidence first 0)) (\<lambda>ev.
     submit_loop nv q system tools
       (if mode = Execution_SUBAGENT then subagent_tool_origin first (eq_agent_role q) else [])
       limit (nat limit) 1
       \<lparr>ss_current = first, ss_messages = messages, ss_invocations = [ev], ss_evidence = [],
        ss_effects = []\<rparr>))))"

definition explicit_episode :: "node_services \<Rightarrow> episode_request \<Rightarrow> episode_outcome svc" where
  "explicit_episode nv q =
     svc_bind (svc_lift (resolve_node_execution_mode (ag_repr (te_runtime (nv_team nv))) (eq_node_config q)))
       (\<lambda>mode. if mode = Execution_TEAM then explicit_team nv q else explicit_submit_loop nv q mode)"

end
