(* ===== verification/Invocation_Facts.thy ===== *)
theory Invocation_Facts
  imports Node_Invocation
begin

text \<open>
  What an episode is worth to the control plane. The locale \<open>execution_harness\<close> is the contract of
  the protocol \<^verbatim>\<open>ExecutionHarness\<close>; both harnesses of the program meet it. Then the bounds
  of the explicit-submit loop, and what a report of the default harness rests on.
\<close>

section \<open>The contract\<close>

definition same_identity :: "agent_report \<Rightarrow> agent_report \<Rightarrow> bool" where
  "same_identity r r' \<longleftrightarrow> ar_execution_id r' = ar_execution_id r \<and> ar_trace_id r' = ar_trace_id r \<and>
     ar_lease_token r' = ar_lease_token r \<and> ar_node_key r' = ar_node_key r"

text \<open>A verifier adds evidence to a report; the runners of the program only update these fields.\<close>

definition verifier_keeps_identity :: "node_services \<Rightarrow> bool" where
  "verifier_keeps_identity nv \<longleftrightarrow>
     (\<forall>v s c r w r' w'. nv_verifier nv = Some v \<longrightarrow> v s c r w = (Inr r', w') \<longrightarrow> same_identity r r')"

locale execution_harness =
  fixes harness_name :: string and run_episode :: "'d \<Rightarrow> episode_request \<Rightarrow> episode_outcome svc"
    and ready :: "'d \<Rightarrow> bool"
  assumes named: "run_episode d q w = (Inr out, w') \<Longrightarrow> ar_harness_id (eo_report out) = Some harness_name"
    and stamped: "ready d \<Longrightarrow> run_episode d q w = (Inr out, w') \<Longrightarrow>
      ar_execution_id (eo_report out) = Some (eq_execution_id q) \<and>
      ar_trace_id (eo_report out) = Some (eq_trace_id q)"
    and leased: "ready d \<Longrightarrow> run_episode d q w = (Inr out, w') \<Longrightarrow> eq_resume q = None \<Longrightarrow>
      ar_lease_token (eo_report out) = eq_lease_token q"
    and proposes: "run_episode d q w = (Inr out, w') \<Longrightarrow>
      eo_proposed_transitions out = proposed_transitions (eo_report out) (eo_failure out) \<and>
      eo_recovery_signals out = recovery_signals (eo_failure out)"
begin

text \<open>A failure is proposed exactly when the outcome is classified as one.\<close>

lemma proposes_failure:
  "run_episode d q w = (Inr out, w') \<Longrightarrow>
   map px_kind (eo_proposed_transitions out) = [if eo_failure out = Failure_NONE then Proposed_COMPLETE else Proposed_FAIL] \<and>
   (eo_recovery_signals out = [] \<longleftrightarrow> eo_failure out = Failure_NONE)"
  using proposes [of d q w out w'] by (simp add: proposed_transitions_def recovery_signals_def)

text \<open>What the orchestrator hands to the control plane is the report of the execution it opened.\<close>

lemma identified:
  assumes "ready d" "run_episode d q w = (Inr out, w')" "eq_resume q = None"
  shows "ar_harness_id (eo_report out) = Some harness_name \<and>
    ar_execution_id (eo_report out) = Some (eq_execution_id q) \<and>
    ar_trace_id (eo_report out) = Some (eq_trace_id q) \<and>
    ar_lease_token (eo_report out) = eq_lease_token q \<and>
    map px_kind (eo_proposed_transitions out) =
      [if eo_failure out = Failure_NONE then Proposed_COMPLETE else Proposed_FAIL]"
  using named [OF assms(2)] stamped [OF assms(1,2)] leased [OF assms] proposes_failure [OF assms(2)] by simp

end

lemma verifier_identityD:
  "verifier_keeps_identity nv \<Longrightarrow> nv_verifier nv = Some v \<Longrightarrow> v s c r w = (Inr r', w') \<Longrightarrow> same_identity r r'"
  unfolding verifier_keeps_identity_def by blast

lemma verified_identity:
  assumes "verifier_keeps_identity nv" "verify_report nv s c r w = (Inr r', w')"
  shows "same_identity r r'"
proof (cases "nv_verifier nv")
  case None
  with assms(2) show ?thesis by (simp add: verify_report_def same_identity_def)
next
  case (Some v)
  with assms verifier_identityD [OF assms(1) Some] show ?thesis by (simp add: verify_report_def)
qed

section \<open>The default harness\<close>

lemma invoke_node_reports:
  assumes "invoke_node nv s k role config x tr tok w = (Inr report, w')"
  obtains r w1 w2 built where "iv_tool_calls r = []" "build_report nv k role r w1 = (Inr built, w2)"
    "verify_report nv s config (stamp_report x tr tok built) w2 = (Inr report, w')"
  using assms unfolding invoke_node_def Let_def
  by (auto simp: svc_bind_Inr svc_lift_Inr simp del: svc_lift_eq split: if_splits)

lemma hydramind_outcome:
  assumes "hydramind_episode nv q w = (Inr out, w')"
  obtains r where
    "invoke_node nv (eq_session q) (eq_node_key q) (eq_agent_role q) (eq_node_config q) (eq_execution_id q)
       (eq_trace_id q) (effective_lease_token q) w = (Inr r, w')"
    "eo_report out = with_harness_identity hydramind_harness_name r"
    "eo_failure out = classify_report_failure (eo_report out)"
    "eo_proposed_transitions out = proposed_transitions (eo_report out) (eo_failure out)"
    "eo_recovery_signals out = recovery_signals (eo_failure out)"
  using assms unfolding hydramind_episode_def Let_def by (auto simp: svc_bind_Inr)

lemma effective_lease_plain: "eq_resume q = None \<Longrightarrow> effective_lease_token q = eq_lease_token q"
  by (simp add: effective_lease_token_def)

lemma hydramind_stamped:
  assumes "verifier_keeps_identity nv" "hydramind_episode nv q w = (Inr out, w')"
  shows "ar_execution_id (eo_report out) = Some (eq_execution_id q)"
    "ar_trace_id (eo_report out) = Some (eq_trace_id q)"
    "ar_lease_token (eo_report out) = effective_lease_token q"
proof -
  obtain r where r: "invoke_node nv (eq_session q) (eq_node_key q) (eq_agent_role q) (eq_node_config q)
      (eq_execution_id q) (eq_trace_id q) (effective_lease_token q) w = (Inr r, w')"
    and out: "eo_report out = with_harness_identity hydramind_harness_name r"
    using hydramind_outcome [OF assms(2)] by metis
  obtain w2 built where "verify_report nv (eq_session q) (eq_node_config q)
      (stamp_report (eq_execution_id q) (eq_trace_id q) (effective_lease_token q) built) w2 = (Inr r, w')"
    using invoke_node_reports [OF r] by metis
  from verified_identity [OF assms(1) this] out
  show "ar_execution_id (eo_report out) = Some (eq_execution_id q)"
    "ar_trace_id (eo_report out) = Some (eq_trace_id q)"
    "ar_lease_token (eo_report out) = effective_lease_token q"
    by (simp_all add: same_identity_def stamp_report_def with_harness_identity_def)
qed

interpretation hydramind: execution_harness hydramind_harness_name hydramind_episode verifier_keeps_identity
proof
  fix d q w out w'
  assume run: "hydramind_episode d q w = (Inr out, w')"
  obtain r where r: "eo_report out = with_harness_identity hydramind_harness_name r"
      "eo_proposed_transitions out = proposed_transitions (eo_report out) (eo_failure out)"
      "eo_recovery_signals out = recovery_signals (eo_failure out)"
    using hydramind_outcome [OF run] by metis
  show "ar_harness_id (eo_report out) = Some hydramind_harness_name"
    using r(1) by (simp add: with_harness_identity_def)
  show "eo_proposed_transitions out = proposed_transitions (eo_report out) (eo_failure out) \<and>
      eo_recovery_signals out = recovery_signals (eo_failure out)"
    using r(2,3) by simp
  assume d: "verifier_keeps_identity d"
  show "ar_execution_id (eo_report out) = Some (eq_execution_id q) \<and> ar_trace_id (eo_report out) = Some (eq_trace_id q)"
    using hydramind_stamped [OF d run] by simp
  show "ar_lease_token (eo_report out) = eq_lease_token q" if "eq_resume q = None"
    using hydramind_stamped(3) [OF d run] effective_lease_plain [OF that] by simp
qed

section \<open>The explicit-submit harness\<close>

lemma explicit_report_verified:
  assumes "explicit_report nv q r w = (Inr report, w')"
  obtains built w1 verified where
    "build_report nv (eq_node_key q) (eq_agent_role q) r w = (Inr built, w1)"
    "verify_report nv (eq_session q) (eq_node_config q)
      (with_harness_identity explicit_harness_name
         (stamp_report (eq_execution_id q) (eq_trace_id q) (effective_lease_token q) built)) w1 = (Inr verified, w')"
    "report = with_harness_identity explicit_harness_name verified"
proof (cases "nv_verifier nv")
  case None
  with assms that show ?thesis
    by (auto simp: explicit_report_def Let_def svc_bind_Inr verify_report_def with_harness_identity_def)
next
  case (Some v)
  with assms that show ?thesis
    by (auto simp: explicit_report_def Let_def svc_bind_Inr verify_report_def)
qed

lemma explicit_report_of:
  assumes "explicit_report nv q r w = (Inr report, w')"
  shows "ar_harness_id report = Some explicit_harness_name"
    "verifier_keeps_identity nv \<Longrightarrow> ar_execution_id report = Some (eq_execution_id q) \<and>
       ar_trace_id report = Some (eq_trace_id q) \<and> ar_lease_token report = effective_lease_token q"
proof -
  obtain built w1 verified where v: "verify_report nv (eq_session q) (eq_node_config q)
      (with_harness_identity explicit_harness_name
         (stamp_report (eq_execution_id q) (eq_trace_id q) (effective_lease_token q) built)) w1 = (Inr verified, w')"
    and r: "report = with_harness_identity explicit_harness_name verified"
    using explicit_report_verified [OF assms] by metis
  show "ar_harness_id report = Some explicit_harness_name" by (simp add: r with_harness_identity_def)
  assume "verifier_keeps_identity nv"
  from verified_identity [OF this v]
  show "ar_execution_id report = Some (eq_execution_id q) \<and> ar_trace_id report = Some (eq_trace_id q) \<and>
      ar_lease_token report = effective_lease_token q"
    by (simp add: r with_harness_identity_def same_identity_def stamp_report_def)
qed

text \<open>The outcomes of the harness: a submitted report, or the exhausted budget.\<close>

definition explicit_result :: "node_services \<Rightarrow> episode_request \<Rightarrow> episode_outcome \<Rightarrow> bool" where
  "explicit_result nv q out \<longleftrightarrow>
     (\<exists>r w report w' stage invs evs. explicit_report nv q r w = (Inr report, w') \<and>
        out = explicit_outcome q stage report invs evs) \<or>
     (\<exists>detail invs evs. out = failure_outcome q Failure_TIMEOUT detail invs evs)"

lemma explicit_resultI:
  "explicit_report nv q r w = (Inr report, w') \<Longrightarrow> explicit_result nv q (explicit_outcome q stage report invs evs)"
  "explicit_result nv q (failure_outcome q Failure_TIMEOUT detail invs evs)"
  unfolding explicit_result_def by blast+

lemma submitted_outcomeD:
  assumes "submitted_outcome nv q st w = (Inr (Some out), w')"
  obtains r report where "explicit_report nv q r w = (Inr report, w')"
    "out = explicit_outcome q ''submit'' report (ss_invocations st) (ss_evidence st)"
  using assms unfolding submitted_outcome_def Let_def
  by (auto simp: svc_bind_Inr split: option.splits)

lemma submitted_outcome_result:
  assumes "submitted_outcome nv q st w = (Inr (Some out), w')"
  shows "explicit_result nv q out" "eo_model_invocations out = ss_invocations st"
    "eo_tool_evidence out = ss_evidence st" "eo_failure out \<noteq> Failure_TIMEOUT"
proof -
  obtain r report where r: "explicit_report nv q r w = (Inr report, w')"
    and out: "out = explicit_outcome q ''submit'' report (ss_invocations st) (ss_evidence st)"
    using submitted_outcomeD [OF assms] by metis
  show "explicit_result nv q out" unfolding out by (rule explicit_resultI(1) [OF r])
  show "eo_model_invocations out = ss_invocations st" "eo_tool_evidence out = ss_evidence st"
    "eo_failure out \<noteq> Failure_TIMEOUT"
    unfolding out by (simp_all add: explicit_outcome_def Let_def classify_report_failure_def)
qed

lemma submit_loop_result:
  "submit_loop nv q system tools origin limit n k st w = (Inr out, w') \<Longrightarrow> explicit_result nv q out"
proof (induction n arbitrary: k st w)
  case 0
  then obtain so w1 where so: "submitted_outcome nv q st w = (Inr so, w1)"
    and out: "out = (case so of Some o1 \<Rightarrow> o1 | None \<Rightarrow> failure_outcome q Failure_TIMEOUT (exhausted_detail limit)
         (ss_invocations st) (ss_evidence st))"
    by (auto simp: svc_bind_Inr split: option.splits)
  show ?case
    by (cases so) (use so out explicit_resultI(2) submitted_outcome_result(1) in auto)
next
  case (Suc n)
  then obtain so w1 where so: "submitted_outcome nv q st w = (Inr so, w1)"
    and rest: "(case so of Some o1 \<Rightarrow> svc_return o1 | None \<Rightarrow>
         svc_bind (submit_turn nv q system tools origin k st) (\<lambda>st1.
         submit_loop nv q system tools origin limit n (k + 1) st1)) w1 = (Inr out, w')"
    by (auto simp: svc_bind_Inr)
  show ?case
  proof (cases so)
    case None
    with rest obtain st1 w2 where "submit_loop nv q system tools origin limit n (k + 1) st1 w2 = (Inr out, w')"
      by (auto simp: svc_bind_Inr)
    then show ?thesis by (rule Suc.IH)
  qed (use so rest submitted_outcome_result(1) in auto)
qed

lemma explicit_team_result:
  assumes "explicit_team nv q w = (Inr out, w')"
  shows "explicit_result nv q out"
proof -
  obtain r report w1 w2 ev where "explicit_report nv q r w1 = (Inr report, w2)"
      "out = explicit_outcome q ''team'' report [ev] []"
    using assms unfolding explicit_team_def
    by (auto simp: svc_bind_Inr svc_lift_Inr simp del: svc_lift_eq)
  then show ?thesis by (auto intro: explicit_resultI)
qed

lemma explicit_loopD:
  assumes "explicit_submit_loop nv q mode w = (Inr out, w')"
  obtains system tools origin first user ev w1 where
    "submit_loop nv q system tools origin (submit_turn_limit nv q) (nat (submit_turn_limit nv q)) 1
       \<lparr>ss_current = first, ss_messages = [harness_message_of Harness_USER user], ss_invocations = [ev],
        ss_evidence = [], ss_effects = []\<rparr> w1 = (Inr out, w')"
    "model_evidence first 0 = Inr ev"
  using assms unfolding explicit_submit_loop_def Let_def
  by (auto simp: svc_bind_Inr svc_lift_Inr simp del: svc_lift_eq)

lemma explicit_episode_result:
  assumes "explicit_episode nv q w = (Inr out, w')"
  shows "explicit_result nv q out"
proof -
  obtain mode w1 where m: "(if mode = Execution_TEAM then explicit_team nv q else explicit_submit_loop nv q mode) w1 =
      (Inr out, w')"
    using assms unfolding explicit_episode_def by (auto simp: svc_bind_Inr)
  show ?thesis
  proof (cases "mode = Execution_TEAM")
    case False
    with m have "explicit_submit_loop nv q mode w1 = (Inr out, w')" by simp
    from explicit_loopD [OF this] submit_loop_result show ?thesis by metis
  qed (use m explicit_team_result in simp)
qed

lemma explicit_result_facts:
  assumes "explicit_result nv q out"
  shows "ar_harness_id (eo_report out) = Some explicit_harness_name"
    "eo_proposed_transitions out = proposed_transitions (eo_report out) (eo_failure out)"
    "eo_recovery_signals out = recovery_signals (eo_failure out)"
    "verifier_keeps_identity nv \<Longrightarrow> ar_execution_id (eo_report out) = Some (eq_execution_id q) \<and>
       ar_trace_id (eo_report out) = Some (eq_trace_id q)"
    "verifier_keeps_identity nv \<Longrightarrow> eq_resume q = None \<Longrightarrow> ar_lease_token (eo_report out) = eq_lease_token q"
proof -
  consider (Report) r w report w' stage invs evs where "explicit_report nv q r w = (Inr report, w')"
      "out = explicit_outcome q stage report invs evs"
    | (Timeout) detail invs evs where "out = failure_outcome q Failure_TIMEOUT detail invs evs"
    using assms unfolding explicit_result_def by blast
  then have "ar_harness_id (eo_report out) = Some explicit_harness_name \<and>
    eo_proposed_transitions out = proposed_transitions (eo_report out) (eo_failure out) \<and>
    eo_recovery_signals out = recovery_signals (eo_failure out) \<and>
    (verifier_keeps_identity nv \<longrightarrow> ar_execution_id (eo_report out) = Some (eq_execution_id q) \<and>
       ar_trace_id (eo_report out) = Some (eq_trace_id q)) \<and>
    (verifier_keeps_identity nv \<longrightarrow> eq_resume q = None \<longrightarrow> ar_lease_token (eo_report out) = eq_lease_token q)"
  proof cases
    case Report
    then show ?thesis
      using explicit_report_of [OF Report(1)] effective_lease_plain [of q]
      by (simp add: explicit_outcome_def Let_def)
  next
    case Timeout
    then show ?thesis by (simp add: failure_outcome_def Let_def with_harness_identity_def stamp_report_def)
  qed
  then show "ar_harness_id (eo_report out) = Some explicit_harness_name"
    "eo_proposed_transitions out = proposed_transitions (eo_report out) (eo_failure out)"
    "eo_recovery_signals out = recovery_signals (eo_failure out)"
    "verifier_keeps_identity nv \<Longrightarrow> ar_execution_id (eo_report out) = Some (eq_execution_id q) \<and>
       ar_trace_id (eo_report out) = Some (eq_trace_id q)"
    "verifier_keeps_identity nv \<Longrightarrow> eq_resume q = None \<Longrightarrow> ar_lease_token (eo_report out) = eq_lease_token q"
    by simp_all
qed

interpretation explicit_submit: execution_harness explicit_harness_name explicit_episode verifier_keeps_identity
proof
  fix d q w out w'
  assume run: "explicit_episode d q w = (Inr out, w')"
  note f = explicit_result_facts [OF explicit_episode_result [OF run]]
  show "ar_harness_id (eo_report out) = Some explicit_harness_name" by (rule f(1))
  show "eo_proposed_transitions out = proposed_transitions (eo_report out) (eo_failure out) \<and>
      eo_recovery_signals out = recovery_signals (eo_failure out)" using f(2,3) by simp
  assume d: "verifier_keeps_identity d"
  show "ar_execution_id (eo_report out) = Some (eq_execution_id q) \<and> ar_trace_id (eo_report out) = Some (eq_trace_id q)"
    by (rule f(4) [OF d])
  show "ar_lease_token (eo_report out) = eq_lease_token q" if "eq_resume q = None" by (rule f(5) [OF d that])
qed

section \<open>The bound of the loop\<close>

text \<open>\<open>numbered invs k\<close>: one model call per round, the first before round one.\<close>

definition numbered :: "submit_state \<Rightarrow> int \<Rightarrow> bool" where
  "numbered st k \<longleftrightarrow> map me_round_no (ss_invocations st) = [0..k - 1] \<and> 1 \<le> k \<and>
     sorted_wrt (<) (map ce_round_no (ss_evidence st)) \<and> (\<forall>e \<in> set (ss_evidence st). 1 \<le> ce_round_no e \<and> ce_round_no e < k)"

lemma model_evidence_round: "model_evidence r n = Inr ev \<Longrightarrow> me_round_no ev = n"
  by (auto simp: model_evidence_def)

lemma ask_model_adds:
  assumes "ask_model nv q system tools k st w = (Inr st1, w')"
  obtains ev where "ss_invocations st1 = ss_invocations st @ [ev]" "me_round_no ev = k"
    "ss_evidence st1 = ss_evidence st"
  using assms unfolding ask_model_def
  by (auto simp: svc_bind_Inr svc_lift_Inr simp del: svc_lift_eq dest: model_evidence_round)

lemma submit_turn_adds:
  assumes "submit_turn nv q system tools origin k st w = (Inr st1, w')"
  obtains ev evs where "ss_invocations st1 = ss_invocations st @ [ev]" "me_round_no ev = k"
    "ss_evidence st1 = ss_evidence st @ evs" "map ce_round_no evs \<in> {[], [k]}"
proof (cases "iv_tool_calls (ss_current st)")
  case Nil
  with assms that [of _ "[]"] show ?thesis
    by (auto simp: submit_turn_def Let_def elim!: ask_model_adds)
next
  case (Cons call calls)
  with assms have "tools \<noteq> []" by (auto simp: submit_turn_def Let_def)
  with Cons assms have "\<exists>results effects (b :: tool_result_block) w2. ask_model nv q system (Some tools) k
      (st\<lparr>ss_messages := ss_messages st @ [assistant_message (ss_current st) [call],
            (harness_message_of Harness_TOOL [])\<lparr>hm_tool_results := results\<rparr>],
          ss_evidence := ss_evidence st @ [\<lparr>ce_tool_call_id = tc_id call, ce_tool_name = tc_name call,
            ce_round_no = k, ce_is_error = tb_is_error b\<rparr>],
          ss_effects := effects\<rparr>) w2 = (Inr st1, w')"
    unfolding submit_turn_def Let_def
    by (simp only: list.case if_False svc_bind_Inr split_paired_Ex prod.case)
       blast
  then obtain results effects and b :: tool_result_block and w2 where "ask_model nv q system (Some tools) k
      (st\<lparr>ss_messages := ss_messages st @ [assistant_message (ss_current st) [call],
            (harness_message_of Harness_TOOL [])\<lparr>hm_tool_results := results\<rparr>],
          ss_evidence := ss_evidence st @ [\<lparr>ce_tool_call_id = tc_id call, ce_tool_name = tc_name call,
            ce_round_no = k, ce_is_error = tb_is_error b\<rparr>],
          ss_effects := effects\<rparr>) w2 = (Inr st1, w')" by blast
  then show ?thesis
    by (rule ask_model_adds) (rule that, auto)
qed

lemma submit_turn_numbered:
  assumes "submit_turn nv q system tools origin k st w = (Inr st1, w')" "numbered st k"
  shows "numbered st1 (k + 1)"
proof -
  obtain ev evs where e: "ss_invocations st1 = ss_invocations st @ [ev]" "me_round_no ev = k"
    "ss_evidence st1 = ss_evidence st @ evs" "map ce_round_no evs \<in> {[], [k]}"
    by (rule submit_turn_adds [OF assms(1)])
  have "[0..k] = [0..k - 1] @ [k]" using assms(2) upto_rec2 [of 0 k] by (simp add: numbered_def)
  with assms(2) e show ?thesis by (cases evs) (auto simp: numbered_def sorted_wrt_append)
qed

lemma evidence_count:
  assumes "numbered st k"
  shows "length (ss_evidence st) < nat k"
proof -
  have "set (map ce_round_no (ss_evidence st)) \<subseteq> {1..<k}" using assms by (auto simp: numbered_def)
  moreover have "distinct (map ce_round_no (ss_evidence st))"
    using assms strict_sorted_iff by (auto simp: numbered_def)
  ultimately have "length (ss_evidence st) \<le> card {1..<k}"
    by (metis card_mono distinct_card finite_atLeastLessThan_int length_map)
  moreover have "card {1..<k} < nat k" using assms by (simp add: numbered_def)
  ultimately show ?thesis by linarith
qed

lemma submit_loop_bounded:
  assumes "submit_loop nv q system tools origin limit n k st w = (Inr out, w')" "numbered st k"
  shows "\<exists>j. k \<le> j \<and> j \<le> k + int n \<and> map me_round_no (eo_model_invocations out) = [0..j - 1] \<and>
      length (eo_tool_evidence out) < nat j \<and> (eo_failure out = Failure_TIMEOUT \<longrightarrow> j = k + int n)"
  using assms
proof (induction n arbitrary: k st w)
  case 0
  from 0(1) obtain so w1 where so: "submitted_outcome nv q st w = (Inr so, w1)"
    and out: "out = (case so of Some o1 \<Rightarrow> o1 | None \<Rightarrow> failure_outcome q Failure_TIMEOUT (exhausted_detail limit)
         (ss_invocations st) (ss_evidence st))"
    by (auto simp: svc_bind_Inr split: option.splits)
  have "eo_model_invocations out = ss_invocations st" "eo_tool_evidence out = ss_evidence st"
    using so out submitted_outcome_result(2,3) by (cases so; auto simp: failure_outcome_def Let_def)+
  with 0(2) evidence_count [OF 0(2)] show ?case by (intro exI [of _ k]) (auto simp: numbered_def)
next
  case (Suc n)
  then obtain so w1 where so: "submitted_outcome nv q st w = (Inr so, w1)"
    and rest: "(case so of Some o1 \<Rightarrow> svc_return o1 | None \<Rightarrow>
         svc_bind (submit_turn nv q system tools origin k st) (\<lambda>st1.
         submit_loop nv q system tools origin limit n (k + 1) st1)) w1 = (Inr out, w')"
    by (auto simp: svc_bind_Inr)
  show ?case
  proof (cases so)
    case None
    with rest obtain st1 w2 w3 where t: "submit_turn nv q system tools origin k st w1 = (Inr st1, w2)"
        "submit_loop nv q system tools origin limit n (k + 1) st1 w2 = (Inr out, w')"
      by (auto simp: svc_bind_Inr)
    obtain j where "k + 1 \<le> j" "j \<le> k + 1 + int n" "map me_round_no (eo_model_invocations out) = [0..j - 1]"
      "length (eo_tool_evidence out) < nat j" "eo_failure out = Failure_TIMEOUT \<longrightarrow> j = k + 1 + int n"
      using Suc.IH [OF t(2) submit_turn_numbered [OF t(1) Suc.prems(2)]] by blast
    then show ?thesis by (intro exI [of _ j]) simp
  next
    case (Some o1)
    with rest have out: "out = o1" by simp
    note r = submitted_outcome_result [OF so [unfolded Some]]
    with Suc.prems(2) evidence_count [OF Suc.prems(2)] r out show ?thesis by (intro exI [of _ k]) (auto simp: numbered_def)
  qed
qed

lemma explicit_episode_bounded:
  assumes "explicit_episode nv q w = (Inr out, w')"
    "resolve_node_execution_mode (ag_repr (te_runtime (nv_team nv))) (eq_node_config q) \<noteq> Inr Execution_TEAM"
  shows "\<exists>j. 1 \<le> j \<and> j \<le> 1 + int (nat (submit_turn_limit nv q)) \<and>
    map me_round_no (eo_model_invocations out) = [0..j - 1] \<and> length (eo_tool_evidence out) < nat j \<and>
    (eo_failure out = Failure_TIMEOUT \<longrightarrow> j = 1 + int (nat (submit_turn_limit nv q)))"
proof -
  obtain mode where "explicit_submit_loop nv q mode w = (Inr out, w')"
    using assms by (auto simp: explicit_episode_def svc_bind_Inr svc_lift_Inr simp del: svc_lift_eq split: if_splits)
  from explicit_loopD [OF this] obtain system tools origin first user ev w1 where
    l: "submit_loop nv q system tools origin (submit_turn_limit nv q) (nat (submit_turn_limit nv q)) 1
       \<lparr>ss_current = first, ss_messages = [harness_message_of Harness_USER user], ss_invocations = [ev],
        ss_evidence = [], ss_effects = []\<rparr> w1 = (Inr out, w')"
    and ev: "model_evidence first 0 = Inr ev" by metis
  have "numbered \<lparr>ss_current = first, ss_messages = [harness_message_of Harness_USER user], ss_invocations = [ev],
        ss_evidence = [], ss_effects = []\<rparr> 1"
    using model_evidence_round [OF ev] by (simp add: numbered_def)
  from submit_loop_bounded [OF l this] show ?thesis .
qed

text \<open>A turn looks at the first tool call of the answer and at no other.\<close>

lemma one_tool_per_turn:
  "submit_turn nv q system tools origin k (st\<lparr>ss_current := r\<lparr>iv_tool_calls := call # calls\<rparr>\<rparr>) =
   submit_turn nv q system tools origin k (st\<lparr>ss_current := r\<lparr>iv_tool_calls := [call]\<rparr>\<rparr>)"
  by (simp add: submit_turn_def assistant_message_def ask_model_def Let_def split_def)

lemma ask_model_messages:
  "ask_model nv q system tools k st w = (Inr st1, w') \<Longrightarrow> ss_messages st1 = ss_messages st"
  unfolding ask_model_def by (auto simp: svc_bind_Inr svc_lift_Inr simp del: svc_lift_eq)

lemma turn_results:
  assumes "submit_turn nv q system tools origin k st w = (Inr st1, w')"
  shows "length (concat (map hm_tool_results (drop (length (ss_messages st)) (ss_messages st1)))) \<le> 1"
proof (cases "iv_tool_calls (ss_current st)")
  case Nil
  with assms show ?thesis
    by (auto simp: submit_turn_def Let_def assistant_message_def harness_message_of_def dest: ask_model_messages)
next
  case (Cons call calls)
  with assms have "tools \<noteq> []" by (auto simp: submit_turn_def Let_def)
  with Cons assms obtain b where "ss_messages st1 = ss_messages st @ [assistant_message (ss_current st) [call],
      (harness_message_of Harness_TOOL [])\<lparr>hm_tool_results := [b]\<rparr>]"
    by (auto simp: submit_turn_def execute_tool_round_def Let_def svc_bind_Inr svc_lift_Inr
        simp del: svc_lift_eq split: if_splits dest!: ask_model_messages)
  then show ?thesis by (simp add: assistant_message_def harness_message_of_def)
qed

section \<open>History is kept\<close>

definition services_preserve :: "(runtime_session \<Rightarrow> runtime_session \<Rightarrow> bool) \<Rightarrow> node_services \<Rightarrow> bool" where
  "services_preserve rel nv \<longleftrightarrow>
     (\<forall>f q. cb_retriever (nv_builder nv) = Some f \<longrightarrow> preserves rel (f q)) \<and>
     (\<forall>f k a r. nv_report_builder nv = Some f \<longrightarrow> preserves rel (f k a r)) \<and>
     (\<forall>v s c r. nv_verifier nv = Some v \<longrightarrow> preserves rel (v s c r))"

context service_relation begin

lemma compose_messages_preserves:
  "services_preserve rel nv \<Longrightarrow> preserves rel (compose_messages (nv_builder nv) s k role)"
  unfolding compose_messages_def memory_context_for_node_def
  by (cases "cb_retriever (nv_builder nv)")
     (auto intro!: spec_then spec_done spec_fail spec_if spec_case_option simp: services_preserve_def)

lemma build_report_preserves: "services_preserve rel nv \<Longrightarrow> preserves rel (build_report nv k role r)"
  unfolding build_report_def
  by (cases "nv_report_builder nv") (auto intro: spec_fail simp: services_preserve_def)

lemma verify_report_preserves: "services_preserve rel nv \<Longrightarrow> preserves rel (verify_report nv s c r)"
  unfolding verify_report_def
  by (cases "nv_verifier nv") (auto intro: spec_done simp: services_preserve_def)

lemma request_tools_preserves: "preserves rel (request_tools nv k)"
  unfolding request_tools_def by (rule spec_fail)

lemma dispatch_node_preserves: "preserves rel (dispatch_node nv mode a system user tools role config)"
  unfolding dispatch_node_def Let_def
  by (cases mode) (simp_all add: invoke_model_preserves invoke_subagent_preserves run_team_preserves)

lemma drain_node_preserves: "preserves rel (drain_node nv mode a system user tools role r)"
  unfolding drain_node_def by (intro spec_case_option spec_done drain_tool_calls_preserves)

lemma hydramind_preserves:
  assumes "services_preserve rel nv"
  shows "preserves rel (hydramind_episode nv q)"
  unfolding hydramind_episode_def invoke_node_def Let_def
  by (intro spec_then compose_messages_preserves [OF assms] request_tools_preserves spec_case_prod spec_fail dispatch_node_preserves
      drain_node_preserves spec_if build_report_preserves [OF assms] verify_report_preserves [OF assms] spec_done)

lemma explicit_report_preserves:
  assumes "services_preserve rel nv"
  shows "preserves rel (explicit_report nv q r)"
proof -
  have v: "preserves rel (v s c r)" if "nv_verifier nv = Some v" for v s c r
    using assms that by (simp add: services_preserve_def)
  show ?thesis
    unfolding explicit_report_def Let_def
    by (intro spec_then build_report_preserves [OF assms] spec_case_option spec_done v)
qed

lemma submitted_outcome_preserves:
  "services_preserve rel nv \<Longrightarrow> preserves rel (submitted_outcome nv q st)"
  unfolding submitted_outcome_def Let_def
  by (intro spec_case_option spec_done spec_then explicit_report_preserves)

lemma ask_model_preserves: "preserves rel (ask_model nv q system tools k st)"
  unfolding ask_model_def by (intro spec_then invoke_model_preserves spec_fail spec_done)

lemma submit_turn_preserves: "preserves rel (submit_turn nv q system tools origin k st)"
  unfolding submit_turn_def Let_def
  by (cases "iv_tool_calls (ss_current st)")
     (auto intro!: ask_model_preserves spec_then spec_fail spec_case_prod execute_tool_round_preserves)

lemma submit_loop_preserves:
  assumes "services_preserve rel nv"
  shows "preserves rel (submit_loop nv q system tools origin limit n k st)"
proof (induction n arbitrary: k st)
  case 0
  show ?case
    unfolding submit_loop.simps
    by (intro spec_then submitted_outcome_preserves [OF assms] spec_case_option spec_done)
next
  case (Suc n)
  show ?case
    unfolding submit_loop.simps
    by (intro spec_then submitted_outcome_preserves [OF assms] spec_case_option spec_done
        submit_turn_preserves Suc.IH)
qed

lemma explicit_preserves:
  assumes "services_preserve rel nv"
  shows "preserves rel (explicit_episode nv q)"
  unfolding explicit_episode_def explicit_team_def explicit_submit_loop_def invoke_first_def Let_def
  by (intro spec_then spec_fail spec_if compose_messages_preserves [OF assms] request_tools_preserves spec_case_prod run_team_preserves
      explicit_report_preserves [OF assms] spec_done invoke_subagent_preserves invoke_model_preserves
      submit_loop_preserves [OF assms])

end

end
