(* ===== verification/Harness_Runs.thy ===== *)
theory Harness_Runs
  imports Invocation_Facts Session_Progress
begin

text \<open>
  The orchestrator with a harness of the program in it. A workflow whose nodes are run directly or
  by a subagent, with the built-in prompts and a model that answers, is cooperative in the sense of
  the progress theorem, so its sessions are completed.
\<close>

section \<open>The harness an orchestrator gets\<close>

text \<open>\<^verbatim>\<open>_default_execution_harness_factory\<close>, and the factory of the alternative.\<close>

definition with_hydramind_harness :: "node_services \<Rightarrow> orchestrator \<Rightarrow> orchestrator" where
  "with_hydramind_harness nv orch =
     orch\<lparr>or_harness_name := hydramind_harness_name, or_harness := hydramind_episode nv\<rparr>"

definition with_explicit_harness :: "node_services \<Rightarrow> orchestrator \<Rightarrow> orchestrator" where
  "with_explicit_harness nv orch =
     orch\<lparr>or_harness_name := explicit_harness_name, or_harness := explicit_episode nv\<rparr>"

lemma with_harness_simps [simp]:
  "or_hooks (with_hydramind_harness nv orch) = or_hooks orch"
  "or_workflow (with_hydramind_harness nv orch) = or_workflow orch"
  "or_max_steps (with_hydramind_harness nv orch) = or_max_steps orch"
  "or_harness (with_hydramind_harness nv orch) = hydramind_episode nv"
  "or_hooks (with_explicit_harness nv orch) = or_hooks orch"
  "or_workflow (with_explicit_harness nv orch) = or_workflow orch"
  "or_max_steps (with_explicit_harness nv orch) = or_max_steps orch"
  "or_harness (with_explicit_harness nv orch) = explicit_episode nv"
  by (simp_all add: with_hydramind_harness_def with_explicit_harness_def)

section \<open>Agents that answer\<close>

text \<open>
  No templates, tools, memory or verifier; a model that answers without asking for tools; JSON
  text that begins with a brace is an object.
\<close>

definition plain_services :: "node_services \<Rightarrow> workflow_blueprint \<Rightarrow> bool" where
  "plain_services nv b \<longleftrightarrow>
     cb_workflow (nv_builder nv) = b \<and> cb_prompts (nv_builder nv) = [] \<and> cb_retriever (nv_builder nv) = None \<and>
     nv_tools nv = None \<and> nv_report_builder nv = None \<and> nv_verifier nv = None \<and> te_subagents (nv_team nv) \<and>
     (\<forall>sp \<in> set (wb_nodes b). resolve_node_execution_mode (ag_repr (te_runtime (nv_team nv))) (wn_config sp)
        \<in> {Inr Execution_DIRECT, Inr Execution_SUBAGENT})"

definition answering_model :: "agent_runtime \<Rightarrow> bool" where
  "answering_model rt \<longleftrightarrow>
     (\<forall>ms system tools role e. \<exists>r. ag_complete rt ms system tools role e = Inr r \<and> iv_tool_calls r = []) \<and>
     (\<forall>t v. ag_loads rt t = Some v \<longrightarrow> py_startswith t ''{'' \<longrightarrow> (\<exists>d. v = JObj d))"

lemma default_report_plain:
  assumes "answering_model rt" "iv_tool_calls r = []"
  shows "\<exists>d. default_report_builder (ag_loads rt) k role r = Inr (plain_report k role d)"
proof -
  let ?t = "py_strip (iv_content r)"
  show ?thesis
  proof (cases "py_startswith ?t ''{'' \<and> ?t \<noteq> [] \<and> last ?t = CHR ''}''")
    case False
    then show ?thesis using assms(2) unfolding default_report_builder_def Let_def by (metis)
  next
    case True
    show ?thesis
    proof (cases "ag_loads rt ?t")
      case None
      with True assms(2) show ?thesis unfolding default_report_builder_def Let_def by auto
    next
      case (Some v)
      with assms(1) True obtain d where "v = JObj d" unfolding answering_model_def by blast
      with Some True assms(2) show ?thesis unfolding default_report_builder_def Let_def by auto
    qed
  qed
qed

lemma complete_model_answers:
  assumes "answering_model rt" "holds w i t"
  shows "\<exists>r w'. complete_model rt ms system tools role w = (Inr r, w') \<and> holds w' i t \<and> iv_tool_calls r = []"
proof -
  obtain r where "ag_complete rt ms system tools role (w_env w (w_ops w)) = Inr r" "iv_tool_calls r = []"
    using assms(1) unfolding answering_model_def by blast
  moreover have "w_heart w = None" using assms(2) by (simp add: holds_def calm_def)
  ultimately show ?thesis using assms(2)
    by (auto simp: complete_model_def svc_bind_def svc_env_def svc_lift_def)
qed

lemma holds_trace: "holds w i t \<Longrightarrow> \<exists>w'. emit_trace a kind detail level w = (Inr (), w') \<and> holds w' i t"
  unfolding emit_trace_def by (rule holds_emit)

lemma invoke_model_answers:
  assumes "answering_model rt" "holds w i t"
  shows "\<exists>r w'. invoke_model rt a ms system tools role n w = (Inr r, w') \<and> holds w' i t \<and> iv_tool_calls r = []"
proof -
  obtain w1 where 1: "emit_trace a MODEL_INVOKE_STARTED
      (invoke_started_detail rt role n (length ms) (tool_count tools)) ''info'' w = (Inr (), w1)" "holds w1 i t"
    using holds_trace [OF assms(2)] by blast
  obtain r w2 where 2: "complete_model rt ms system tools role w1 = (Inr r, w2)" "holds w2 i t" "iv_tool_calls r = []"
    using complete_model_answers [OF assms(1) 1(2)] by blast
  obtain w3 where 3: "emit_trace a MODEL_INVOKE_COMPLETED (invoke_completed_detail role n r) ''info'' w2 = (Inr (), w3)"
      "holds w3 i t"
    using holds_trace [OF 2(2)] by blast
  with 1 2 show ?thesis by (auto simp: invoke_model_def svc_bind_def svc_return_def)
qed

lemma invoke_subagent_answers:
  assumes "answering_model rt" "holds w i t" "ms \<noteq> []"
  shows "\<exists>r w'. invoke_subagent True rt a ms system tools role w = (Inr r, w') \<and> holds w' i t \<and> iv_tool_calls r = []"
proof -
  define sub where "sub = \<lparr>sb_role = role, sb_instructions = system,
    sb_tools = (case tools of None \<Rightarrow> [] | Some ts \<Rightarrow> ts),
    sb_messages = map (with_speaker_name role) (butlast ms), sb_last = None, sb_closed = False\<rparr>"
  have sp: "spawn_subagent True role system (case tools of None \<Rightarrow> [] | Some ts \<Rightarrow> ts)
      (map (with_speaker_name role) (butlast ms)) = Inr sub"
    by (simp add: spawn_subagent_def sub_def)
  obtain w1 where 1: "emit_trace a MODEL_INVOKE_STARTED
      (invoke_started_detail rt role 0 (length ms) (tool_count tools) @ subagent_detail sub) ''info'' w = (Inr (), w1)"
      "holds w1 i t"
    using holds_trace [OF assms(2)] by blast
  let ?sent = "sb_messages sub @ [with_speaker_name role (last ms)]"
  obtain r w2 where 2: "complete_model rt ?sent (sb_instructions sub) (Some (sb_tools sub)) (sb_role sub) w1 = (Inr r, w2)"
      "holds w2 i t" "iv_tool_calls r = []"
    using complete_model_answers [OF assms(1) 1(2)] by blast
  define sub1 where "sub1 = sub\<lparr>sb_messages := ?sent @ [(harness_message_of Harness_ASSISTANT (iv_content r))
            \<lparr>hm_tool_calls := iv_tool_calls r, hm_reasoning := iv_reasoning r\<rparr>], sb_last := Some r\<rparr>"
  have send: "subagent_send rt sub (with_speaker_name role (last ms)) w1 = (Inr (r, sub1), w2)"
    using 2(1) by (simp add: subagent_send_def Let_def svc_bind_def svc_return_def sub1_def) (simp add: sub_def)
  define inv where "inv = r\<lparr>iv_content := (if iv_content r \<noteq> [] then iv_content r else fst (subagent_close sub1)),
      iv_subagent_id := Some (subagent_id sub), iv_subagent_summary := Some (fst (subagent_close sub1))\<rparr>"
  obtain w3 where 3: "emit_trace a MODEL_INVOKE_COMPLETED (invoke_completed_detail role 0 inv @ subagent_detail sub)
      ''info'' w2 = (Inr (), w3)" "holds w3 i t"
    using holds_trace [OF 2(2)] by blast
  have "invoke_subagent True rt a ms system tools role w = (Inr inv, w3)"
    unfolding invoke_subagent_def sp Let_def
    using 1(1) send 3(1) assms(3) by (simp add: svc_bind_def svc_lift_def svc_return_def inv_def)
  with 3(2) 2(3) show ?thesis by (auto simp: inv_def)
qed

lemma default_prompt_composed:
  assumes "plain_services nv b" "\<forall>r \<in> set (all_requirements b). \<exists>sp. node_spec b r = Inr sp"
    "node_spec b k = Inr sp"
  shows "\<exists>system user. compose_messages (nv_builder nv) s k role w = (Inr (system, user), w)"
proof -
  obtain ks where "upstream_order b k = Inr ks" using upstream_order_total [OF assms(2,3)] by blast
  with assms(1) show ?thesis
    by (simp add: plain_services_def compose_messages_def memory_context_for_node_def svc_bind_def svc_return_def
        svc_lift_def compose_prompt_def prompt_from_template_def Let_def lookup_template_def execution_context_def
        upstream_context_def default_node_prompt_def)
qed

lemma invoke_node_answers:
  assumes "plain_services nv b" "answering_model (te_runtime (nv_team nv))"
    "\<forall>r \<in> set (all_requirements b). \<exists>sp. node_spec b r = Inr sp" "node_spec b k = Inr sp" "holds w i t"
  shows "\<exists>d w'. invoke_node nv s k role (wn_config sp) x tr tok w =
    (Inr (stamp_report x tr tok (plain_report k role d)), w') \<and> holds w' i t"
proof -
  let ?rt = "te_runtime (nv_team nv)"
  let ?a = "\<lparr>ac_session_id = rs_id s, ac_node_key = k, ac_execution_id = x, ac_trace_id = tr\<rparr>"
  obtain system user where c: "compose_messages (nv_builder nv) s k role w = (Inr (system, user), w)"
    using default_prompt_composed [OF assms(1,3,4)] by blast
  have sp: "sp \<in> set (wb_nodes b)" using node_spec_in [OF assms(4)] by simp
  then obtain mode where m: "resolve_node_execution_mode (ag_repr ?rt) (wn_config sp) = Inr mode"
      "mode \<in> {Execution_DIRECT, Execution_SUBAGENT}"
    using assms(1) by (auto simp: plain_services_def)
  have nv: "request_tools nv k = svc_return []" "te_subagents (nv_team nv)" "nv_report_builder nv = None" "nv_verifier nv = None"
    using assms(1) by (simp_all add: plain_services_def request_tools_def svc_lift_def svc_return_def fun_eq_iff)
  obtain r w1 where r: "dispatch_node nv mode ?a system user None role (wn_config sp) w = (Inr r, w1)"
      "holds w1 i t" "iv_tool_calls r = []"
  proof (cases "mode = Execution_DIRECT")
    case True
    with invoke_model_answers [OF assms(2,5), of ?a "[harness_message_of Harness_USER user]" system None role 0] that
    show ?thesis by (auto simp: dispatch_node_def)
  next
    case False
    with m(2) invoke_subagent_answers [OF assms(2,5), of "[harness_message_of Harness_USER user]" ?a system None role]
      nv(2) that show ?thesis by (auto simp: dispatch_node_def)
  qed
  obtain d where d: "default_report_builder (ag_loads ?rt) k role r = Inr (plain_report k role d)"
    using default_report_plain [OF assms(2) r(3)] by blast
  have "invoke_node nv s k role (wn_config sp) x tr tok w = (Inr (stamp_report x tr tok (plain_report k role d)), w1)"
    unfolding invoke_node_def Let_def
    using c m(1) nv r(1,3) d
    by (simp add: svc_bind_def svc_lift_def svc_return_def some_tools_def drain_node_def build_report_def
        verify_report_def)
  with r(2) show ?thesis by blast
qed

lemma hydramind_answers:
  assumes "plain_services nv b" "answering_model (te_runtime (nv_team nv))"
    "\<forall>r \<in> set (all_requirements b). r \<in> set (blueprint_keys b)"
    "node_spec b (eq_node_key q) = Inr sp" "eq_node_config q = wn_config sp" "holds w i t"
  shows "\<exists>out w' d. hydramind_episode nv q w = (Inr out, w') \<and> holds w' i t \<and>
    eo_report out = with_harness_identity hydramind_harness_name
      (stamp_report (eq_execution_id q) (eq_trace_id q) (effective_lease_token q)
        (plain_report (eq_node_key q) (eq_agent_role q) d))"
proof -
  have known: "\<forall>r \<in> set (all_requirements b). \<exists>sp. node_spec b r = Inr sp"
    using assms(3) by (auto simp: node_spec_def blueprint_keys_def find_None_iff split: option.split)
  obtain d w' where "invoke_node nv (eq_session q) (eq_node_key q) (eq_agent_role q) (wn_config sp)
      (eq_execution_id q) (eq_trace_id q) (effective_lease_token q) w =
      (Inr (stamp_report (eq_execution_id q) (eq_trace_id q) (effective_lease_token q)
        (plain_report (eq_node_key q) (eq_agent_role q) d)), w')" "holds w' i t"
    using invoke_node_answers [OF assms(1,2) known assms(4,6)] by blast
  then show ?thesis
    by (auto simp: hydramind_episode_def assms(5) svc_bind_def Let_def svc_return_def intro: exI [of _ d])
qed

theorem hydramind_cooperates:
  assumes "plain_services nv (or_workflow orch)" "answering_model (te_runtime (nv_team nv))"
    "\<forall>r \<in> set (all_requirements (or_workflow orch)). r \<in> set (blueprint_keys (or_workflow orch))"
  shows "cooperative (with_hydramind_harness nv orch) i"
  unfolding cooperative_def
proof (intro allI impI)
  fix q :: episode_request and w t sp
  assume h: "holds w i t" and sp: "node_spec (or_workflow (with_hydramind_harness nv orch)) (eq_node_key q) = Inr sp"
    and cfg: "eq_node_config q = wn_config sp"
  from hydramind_answers [OF assms _ cfg h] sp
  show "\<exists>outcome w'. or_harness (with_hydramind_harness nv orch) q w = (Inr outcome, w') \<and> holds w' i t \<and>
      ar_node_key (eo_report outcome) = eq_node_key q \<and> \<not> truthy (ar_error (eo_report outcome))"
    by (fastforce simp: with_harness_identity_def stamp_report_def plain_report_def)
qed

end
