(* ===== verification/Projection_Facts.thy ===== *)
theory Projection_Facts
  imports Memory_Projection
begin

text \<open>
  What the memory of a run is worth: a turn and an episode are recorded once however often their
  event is delivered, an episode summary counts the events of its own session only, and what is
  read back into a prompt is a bounded prefix of the latest entries of each query.
\<close>

section \<open>Reading back\<close>

lemma collect_entries_eq:
  assumes "int (length acc) < limit"
  shows "collect_entries limit es acc =
    (acc @ take (nat limit - length acc) (map context_entry_of es), nat limit \<le> length acc + length es)"
  using assms
proof (induction es arbitrary: acc)
  case Nil
  then show ?case by simp
next
  case (Cons e es)
  show ?case
  proof (cases "int (length acc) + 1 \<ge> limit")
    case True
    then have "nat limit - length acc = 1" using Cons.prems by linarith
    with True Cons.prems show ?thesis by simp
  next
    case False
    then have "nat limit - length acc = Suc (nat limit - Suc (length acc))" by linarith
    with False Cons.IH [of "acc @ [context_entry_of e]"] show ?thesis by simp
  qed
qed

definition latest_entries :: "'m memory_ops \<Rightarrow> 'm \<Rightarrow> memory_query \<Rightarrow> context_entry list" where
  "latest_entries ops store q =
     (case mo_scan ops store (mq_scope q) (mq_scope_id q) (mq_key_prefix q) of
        Inl _ \<Rightarrow> []
      | Inr es \<Rightarrow> map context_entry_of (last_items (mq_limit q) es))"

definition scans :: "'m memory_ops \<Rightarrow> 'm \<Rightarrow> memory_query \<Rightarrow> bool" where
  "scans ops store q \<longleftrightarrow> (\<exists>es. mo_scan ops store (mq_scope q) (mq_scope_id q) (mq_key_prefix q) = Inr es)"

lemma run_queries_eq:
  assumes "int (length acc) < limit" "\<forall>q \<in> set qs. scans ops store q"
  shows "run_queries ops store limit qs acc =
    Inr (acc @ take (nat limit - length acc) (concat (map (latest_entries ops store) qs)))"
  using assms
proof (induction qs arbitrary: acc)
  case Nil
  then show ?case by simp
next
  case (Cons q qs)
  obtain es where es: "mo_scan ops store (mq_scope q) (mq_scope_id q) (mq_key_prefix q) = Inr es"
    using Cons.prems(2) by (auto simp: scans_def)
  let ?es = "last_items (mq_limit q) es"
  have l: "latest_entries ops store q = map context_entry_of ?es" by (simp add: latest_entries_def es)
  show ?case
  proof (cases "nat limit \<le> length acc + length ?es")
    case True
    then have "nat limit - (length acc + length ?es) = 0" by simp
    with True show ?thesis by (simp add: es collect_entries_eq [OF Cons.prems(1)] l)
  next
    case False
    then have "int (length (acc @ map context_entry_of ?es)) < limit" by simp
    from Cons.IH [OF this] Cons.prems(2) False show ?thesis
      by (simp add: es collect_entries_eq [OF Cons.prems(1)] l)
  qed
qed

lemma run_queries_bounded:
  assumes "run_queries ops store limit qs acc = Inr es" "int (length acc) < limit"
  shows "int (length es) \<le> limit"
  using assms
proof (induction qs arbitrary: acc)
  case (Cons q qs)
  then obtain ms where ms: "mo_scan ops store (mq_scope q) (mq_scope_id q) (mq_key_prefix q) = Inr ms"
    and r: "(case collect_entries limit (last_items (mq_limit q) ms) acc of
        (acc', True) \<Rightarrow> Inr acc' | (acc', False) \<Rightarrow> run_queries ops store limit qs acc') = Inr es"
    by auto
  show ?case
  proof (cases "nat limit \<le> length acc + length (last_items (mq_limit q) ms)")
    case True
    with r Cons.prems(2) show ?thesis by (auto simp: collect_entries_eq [OF Cons.prems(2)])
  next
    case False
    with r have "run_queries ops store limit qs (acc @ map context_entry_of (last_items (mq_limit q) ms)) = Inr es"
      by (simp add: collect_entries_eq [OF Cons.prems(2)])
    from Cons.IH [OF this] False show ?thesis by simp
  qed
qed simp

lemma last_items_suffix: "0 < n \<Longrightarrow> last_items n xs = drop (length xs - nat n) xs"
  by (simp add: last_items_def)

lemma length_last_items: "0 < n \<Longrightarrow> length (last_items n xs) = min (nat n) (length xs)"
  by (simp add: last_items_suffix)

lemma made_policy: "make_memory_policy en qs m = Inr p \<Longrightarrow> 1 \<le> mp_max_entries p \<and> mp_max_entries p \<le> 100"
  by (auto simp: make_memory_policy_def)

lemma made_query: "make_memory_query sc i k n = Inr q \<Longrightarrow> 1 \<le> mq_limit q \<and> mq_limit q \<le> 50"
  by (auto simp: make_memory_query_def)

section \<open>One record for a turn\<close>

lemma agent_turn_influences [simp]:
  "is_runtime_influencing (ww_class (agent_turn_write event actor d))"
  "is_runtime_influencing (ww_class (episode_write name event summary))"
  by (simp_all add: is_runtime_influencing_def agent_turn_write_def episode_write_def)

lemma agent_turn_observed:
  assumes "agent_turn_observe dec ops now event a = Inr a'"
  obtains (Ignored) "a' = a" "oe_kind event \<noteq> AGENT_MESSAGE_SENT \<or> \<not> truthy (oe_actor event)"
  | (Recorded) actor d e where "oe_kind event = AGENT_MESSAGE_SENT" "oe_actor event = Some actor" "actor \<noteq> []"
      "from_event_detail (dd_message_sent dec) (oe_detail event) = Inr d"
      "authority_append ops now (agent_turn_write event actor d) a = Inr (e, a')"
proof (cases "oe_kind event = AGENT_MESSAGE_SENT \<and> truthy (oe_actor event)")
  case True
  then obtain actor where actor: "oe_actor event = Some actor" "actor \<noteq> []" by (auto dest: truthyD)
  with True assms obtain d where d: "from_event_detail (dd_message_sent dec) (oe_detail event) = Inr d"
      "map_sum id snd (authority_append ops now (agent_turn_write event actor d) a) = Inr a'"
    by (auto simp: agent_turn_observe_def)
  then obtain e where "authority_append ops now (agent_turn_write event actor d) a = Inr (e, a')"
    by (cases "authority_append ops now (agent_turn_write event actor d) a") auto
  with Recorded True actor d(1) show ?thesis by blast
next
  case False
  with assms show ?thesis
    by (intro Ignored) (auto simp: agent_turn_observe_def split: option.splits if_splits)
qed

context memory_log begin

lemma turn_redelivery:
  assumes "agent_turn_observe dec ops now event a = Inr a'" "sound (ma_store a)"
    and "sound (ma_store b)"
    and later: "\<And>sc i k x. written (ma_store a') sc i k x \<le> written (ma_store b) sc i k x"
  shows "agent_turn_observe dec ops now' event b = Inr b"
  using assms(1)
proof (cases rule: agent_turn_observed)
  case Ignored
  then show ?thesis by (auto simp: agent_turn_observe_def split: option.splits)
next
  case (Recorded actor d e)
  let ?q = "agent_turn_write event actor d"
  have x: "ww_idempotency ?q = Some (agent_turn_idempotency event actor d)"
    by (simp add: agent_turn_write_def)
  have "0 < written (ma_store a') (ww_scope ?q) (ww_scope_id ?q) (ww_key ?q) (agent_turn_idempotency event actor d)"
    using writes_once [OF Recorded(5) assms(2) x] by simp
  then have "0 < written (ma_store b) (ww_scope ?q) (ww_scope_id ?q) (ww_key ?q) (agent_turn_idempotency event actor d)"
    using later by (meson less_le_trans)
  from replay_changes_nothing [OF assms(3) _ x this, of now'] Recorded show ?thesis
    by (auto simp: agent_turn_observe_def)
qed

end

section \<open>Episodes\<close>

definition project_events ::
    "detail_decoder \<Rightarrow> 'm memory_ops \<Rightarrow> (time \<times> observation_event) list \<Rightarrow> 'm episode_projector \<Rightarrow> 'm episode_projector" where
  "project_events dec ops = fold (\<lambda>(now, event) ep. snd (episode_observe dec ops now event ep))"

lemma project_events_simps [simp]:
  "project_events dec ops [] ep = ep"
  "project_events dec ops ((now, event) # es) ep =
     project_events dec ops es (snd (episode_observe dec ops now event ep))"
  by (simp_all add: project_events_def)

lemma buffered_other:
  "session_id \<noteq> oe_session_id event \<Longrightarrow>
   buffered_events (snd (episode_observe dec ops now event ep)) session_id = buffered_events ep session_id"
  by (auto simp: episode_observe_def buffered_events_def Let_def map_of_delete split: sum.splits)

lemma buffered_same:
  "oe_kind event \<notin> terminal_kinds \<Longrightarrow>
   buffered_events (snd (episode_observe dec ops now event ep)) (oe_session_id event) =
     buffered_events ep (oe_session_id event) @ [event]"
  by (simp add: episode_observe_def buffered_events_def Let_def)

lemma workflow_name_kept:
  "ep_workflow_name (snd (episode_observe dec ops now event ep)) = ep_workflow_name ep"
  by (auto simp: episode_observe_def Let_def split: sum.splits)

lemma buffered_project:
  "\<forall>(now, e) \<in> set es. oe_session_id e = session_id \<longrightarrow> oe_kind e \<notin> terminal_kinds \<Longrightarrow>
   buffered_events (project_events dec ops es ep) session_id =
     buffered_events ep session_id @ filter (\<lambda>e. oe_session_id e = session_id) (map snd es)"
proof (induction es arbitrary: ep)
  case (Cons p es)
  obtain now e where p: "p = (now, e)" by force
  show ?case
  proof (cases "oe_session_id e = session_id")
    case True
    with Cons.prems p have "oe_kind e \<notin> terminal_kinds" by auto
    from buffered_same [OF this] True Cons p show ?thesis by auto
  next
    case False
    with Cons p buffered_other [of session_id e] show ?thesis by auto
  qed
qed simp

lemma workflow_name_project: "ep_workflow_name (project_events dec ops es ep) = ep_workflow_name ep"
  by (induction es arbitrary: ep) (auto simp: workflow_name_kept)

text \<open>The write of a terminal event, when it succeeds, is the summary of the buffered events.\<close>

lemma terminal_writes_summary:
  assumes "episode_observe dec ops now event ep = (Inr (), ep')" "oe_kind event \<in> terminal_kinds"
  obtains summary e where
    "build_episode_summary dec (buffered_events ep (oe_session_id event) @ [event]) = Inr summary"
    "authority_append ops now (episode_write (ep_workflow_name ep) event summary) (ep_authority ep) =
       Inr (e, ep_authority ep')"
    "buffered_events ep' (oe_session_id event) = []"
  using assms
  by (auto simp: episode_observe_def Let_def buffered_events_def delete_conv' split: sum.splits)

lemma failed_terminal_keeps_events:
  assumes "episode_observe dec ops now event ep = (Inl x, ep')"
  shows "buffered_events ep' (oe_session_id event) = buffered_events ep (oe_session_id event) @ [event]"
    "ep_authority ep' = ep_authority ep"
  using assms by (auto simp: episode_observe_def Let_def buffered_events_def split: sum.splits if_splits)

lemma summary_counts:
  "build_episode_summary dec es = Inr summary \<Longrightarrow> dict_get summary ''event_count'' = JInt (int (length es))"
  by (auto simp: build_episode_summary_def)

lemma summary_session:
  "build_episode_summary dec es = Inr summary \<Longrightarrow> es \<noteq> [] \<Longrightarrow>
   dict_get summary ''session_id'' = JStr (oe_session_id (last es))"
  by (auto simp: build_episode_summary_def)

lemma sum_count_list: "(\<Sum>k\<leftarrow>remdups xs. count_list xs k) = length xs"
proof -
  have "(\<Sum>k\<leftarrow>remdups xs. count_list xs k) = (\<Sum>k\<in>set xs. count_list xs k)"
    by (metis distinct_remdups set_remdups sum_list_distinct_conv_sum_set)
  then show ?thesis by (simp add: sum_count_set)
qed

lemma map_of_tabulate: "map_of (map (\<lambda>k. (k, f k)) ks) k = (if k \<in> set ks then Some (f k) else None)"
  by (induction ks) auto

lemma counted_get: "k \<in> set xs \<Longrightarrow> dict_get (counted xs) k = JInt (int (count_list xs k))"
  by (simp add: counted_def sorted_set_def dict_get_def map_of_tabulate)

end
