(* ===== verification/Samples.thy ===== *)
theory Samples
  imports Node_Effects Store_Race Workflow_Graph Queue_In_Memory Session_Progress Model_Routing Tool_Facts Team_Run Harness_Runs Projection_Facts
begin

text \<open>
  The concrete values of the witnesses.
\<close>

section \<open>The control plane\<close>

text \<open>
  Concrete values at which the properties are applied: a blueprint of two nodes, a session that
  waits for a decision on the gate of its first node, and a world that stores it. No lemma of
  the development depends on them.
\<close>

definition sample_blueprint :: workflow_blueprint where
  "sample_blueprint = \<lparr>wb_name = ''flow'', wb_version = ''1'', wb_nodes =
     [\<lparr>wn_key = ''build'', wn_role = ''dev'', wn_description = [], wn_requires = [''plan''], wn_config = []\<rparr>,
      \<lparr>wn_key = ''plan'', wn_role = ''lead'', wn_description = [], wn_requires = [], wn_config = []\<rparr>]\<rparr>"

definition sample_gate :: gate where
  "sample_gate = \<lparr>gt_id = ''g1'', gt_name = ''review'', gt_node_key = ''plan'',
     gt_outcome = Gate_REQUIRES_DECISION, gt_detail = [], gt_created_at = 3, gt_decision = None\<rparr>"

definition sample_attempt :: node_attempt where
  "sample_attempt = (new_attempt ''a1'' 1 ''plan'' 1 None)\<lparr>na_output := [(''k'', JStr ''v'')]\<rparr>"

definition sample_plan :: node_state where
  "sample_plan = (new_node 0 ''plan'')\<lparr>ns_status := Node_PENDING_GATE,
     ns_attempts := [sample_attempt], ns_gates := [sample_gate]\<rparr>"

definition sample_session :: runtime_session where
  "sample_session = \<lparr>rs_id = ''s1'', rs_workflow_name = ''flow'', rs_workflow_version = ''1'',
     rs_version = 1, rs_status = Session_WAITING_GATE,
     rs_nodes = [(''build'', new_node 0 ''build''), (''plan'', sample_plan)],
     rs_input_payload = [], rs_summary_output = [], rs_error_message = None, rs_created_at = 0,
     rs_updated_at = 3, rs_metadata = [], rs_auto_repair_attempts_used = 0,
     rs_processed_idempotency_keys = [], rs_durable_interactions = []\<rparr>"

definition sample_env :: op_env where
  "sample_env = \<lparr>ev_now = (\<lambda>_. 5), ev_tick = (\<lambda>_ _. 5), ev_born = (\<lambda>_. 5),
     ev_born_key = (\<lambda>_. 5), ev_id = (\<lambda>_. ''fresh''), ev_beats = (\<lambda>_. 1)\<rparr>"

definition world_of :: "runtime_session \<Rightarrow> world" where
  "world_of s = \<lparr>w_store = [(rs_id s, s)], w_emitter = \<lparr>em_observers = [], em_closed = False\<rparr>,
     w_events = [], w_event_env = (\<lambda>_. (''event'', 5)), w_env = (\<lambda>_. sample_env), w_ops = 0, w_heart = None\<rparr>"

definition sample_hooks :: hooks where
  "sample_hooks = \<lparr>hk_gate = None, hk_deriver = default_apply_deriver, hk_dump = (\<lambda>r. JStr (il_id r))\<rparr>"

definition sample_decision :: "decision_action \<Rightarrow> gate_decision_input" where
  "sample_decision action = \<lparr>gi_gate_id = ''g1'', gi_action = action, gi_actor = ''ann'',
     gi_rationale = [], gi_payload = []\<rparr>"

definition sample_turn :: "int \<Rightarrow> turn_status \<Rightarrow> time option \<Rightarrow> durable_turn" where
  "sample_turn turn_index st expires = \<lparr>dt_id = ''t'', dt_interaction_id = ''i'',
     dt_turn_index = turn_index, dt_agent_id = ''ann'', dt_status = st, dt_created_at = 0,
     dt_completed_at = None, dt_lease_token = None, dt_lease_owner = None,
     dt_lease_expires_at = expires, dt_last_heartbeat_at = None\<rparr>"

definition sample_revision :: workflow_revision where
  "sample_revision = \<lparr>wr_current_blueprint = sample_blueprint,
     wr_revised_blueprint = sample_blueprint\<lparr>wb_nodes := wb_nodes sample_blueprint @
       [\<lparr>wn_key = ''test'', wn_role = ''qa'', wn_description = [], wn_requires = [''build''], wn_config = []\<rparr>]\<rparr>,
     wr_changed_node_keys = [''build''], wr_reason = ''scope'', wr_feedback_refs = [], wr_metadata = []\<rparr>"

definition sample_meeting :: runtime_session where
  "sample_meeting = snd (start_durable_interaction ''i'' ''plan'' ''a1'' ''team'' ''team'' ''coordinator''
     [''ann'', ''bob''] None 6 sample_session)"

definition sample_summary :: coordinator_outcome where
  "sample_summary = \<lparr>co_schema_version = 1, co_coordinator_id = Some ''ann'', co_summary = ''done''\<rparr>"

definition sample_interaction :: interaction where
  "sample_interaction = \<lparr>it_id = ''i'', it_team_id = ''team'', it_member_ids = [''ann'', ''bob''],
     it_protocol = \<lparr>cp_mode = Mode_TEAM, cp_topology = Topology_COORDINATOR,
       cp_aggregation = Aggregation_COORDINATOR_SUMMARY, cp_arbitration = Arbitration_NONE,
       cp_coordinator_id = Some ''ann'', cp_vote_options = [], cp_metadata = []\<rparr>,
     it_messages = [], it_turns = [], it_status = Interaction_RUNNING, it_workspace_id = None,
     it_metadata = []\<rparr>"

definition sample_queue :: memory_queue where
  "sample_queue = \<lparr>mq_maxsize = 0, mq_queue = [], mq_in_flight = [], mq_dead_letters = [],
     mq_visibility_timeout = Some 30, mq_max_delivery_attempts = Some 3, mq_closed = False,
     mq_ids = (\<lambda>n. replicate n CHR ''x''), mq_drawn = 0\<rparr>"

definition sample_message :: queue_message where
  "sample_message = \<lparr>qm_session_id = ''s1'', qm_enqueued_at = 0, qm_attempt = 0, qm_metadata = [],
     qm_handle = ''mem-''\<rparr>"

definition sample_calls :: "queue_call list" where
  "sample_calls = [Enqueue_Call ''s1'' None 0, Enqueue_Call ''s2'' None 0,
     Dequeue_Call 1 (\<lambda>_. 0) None, Ack_Call sample_message, Close_Call]"

definition sample_requests :: "control_request list" where
  "sample_requests = [Decide ''s1'' (sample_decision Decision_APPROVE),
     Execution (Open_execution ''s1'' ''build'' None), Ledger (Reserve_repair ''s1'' 1)]"

lemma sample_interaction_sound: "sound_interaction sample_interaction"
proof -
  have c: "clean_id ''i''" "clean_id ''ann''" "clean_id ''bob''" by code_simp+
  have "validate_protocol_consistency (it_protocol sample_interaction) = Inr (it_protocol sample_interaction)"
    by code_simp
  with c show ?thesis by (simp add: sound_interaction_def sample_interaction_def)
qed

lemma sample_queue_wf: "queue_wf sample_queue"
proof -
  have "inj (\<lambda>n. replicate n CHR ''x'')" by (rule injI) (metis length_replicate)
  then show ?thesis
    by (simp add: open_wf_def queue_wf_def handles_ok_def attempts_ok_def handles_def sample_queue_def)
qed

definition succeeds :: "'a svc \<Rightarrow> world \<Rightarrow> bool" where
  "succeeds m w = (case fst (m w) of Inl _ \<Rightarrow> False | Inr _ \<Rightarrow> True)"

lemma succeedsD: "succeeds m w \<Longrightarrow> \<exists>x w'. m w = (Inr x, w')"
  by (cases "m w"; cases "fst (m w)") (auto simp: succeeds_def)

lemma not_isl_Inr: "\<not> isl x \<Longrightarrow> \<exists>y. x = Inr y"
  by (cases x) simp_all

lemma sample_quiet: "quiet_hooks sample_hooks"
  by (simp add: quiet_hooks_def sample_hooks_def default_apply_deriver_def svc_bind_def svc_lift_def
      svc_return_def split: sum.split)

lemma world_of_store [simp]: "w_store (world_of s) = [(rs_id s, s)]"
  by (simp add: world_of_def)

lemma world_of_keyed: "0 < rs_version s \<Longrightarrow> keyed (w_store (world_of s))"
  by (simp add: keyed_def)

lemma world_of_get [simp]: "memory_get (w_store (world_of s)) (rs_id s) = Some s"
  by (simp add: memory_get_def)

lemma world_of_stores: "0 < rs_version s \<Longrightarrow> stores (world_of s) (rs_id s) s"
  by (simp add: stores_def world_of_keyed del: world_of_store)

lemma sample_session_fields [simp]:
  "rs_id sample_session = ''s1''" "rs_version sample_session = 1"
  "rs_status sample_session = Session_WAITING_GATE"
  by (simp_all add: sample_session_def)

lemma sample_store:
  "keyed (w_store (world_of sample_session))"
  "memory_get (w_store (world_of sample_session)) ''s1'' = Some sample_session"
  "stores (world_of sample_session) ''s1'' sample_session"
  using world_of_keyed [of sample_session] world_of_get [of sample_session]
    world_of_stores [of sample_session] by simp_all

section \<open>Runs\<close>

text \<open>
  Concrete values for the properties of the orchestrator, the gates and the model routes: an
  orchestrator whose episodes report success at once, reports, a registry of evaluators, and an
  environment. No lemma of the development depends on them.
\<close>

definition sample_report :: "string \<Rightarrow> verifier_result list \<Rightarrow> agent_report" where
  "sample_report key vs = \<lparr>ar_node_key = key, ar_agent_id = ''dev'', ar_harness_id = None,
     ar_execution_id = None, ar_trace_id = None, ar_lease_token = None, ar_output = [],
     ar_boundary_event = None, ar_gate_triggers = [], ar_verifier_results = vs, ar_feedback = [],
     ar_error = None\<rparr>"

definition sample_outcome :: "agent_report \<Rightarrow> episode_outcome" where
  "sample_outcome r = \<lparr>eo_report = r, eo_failure = Failure_NONE, eo_final_result = None,
     eo_model_invocations = [], eo_tool_evidence = [], eo_verifier_evidence = [],
     eo_trace_event_refs = [], eo_proposed_transitions = [], eo_recovery_signals = []\<rparr>"

definition sample_orchestrator :: orchestrator where
  "sample_orchestrator = \<lparr>or_hooks = sample_hooks, or_workflow = sample_blueprint, or_max_steps = 5,
     or_harness_name = ''sample'',
     or_harness = (\<lambda>q. svc_return (sample_outcome (sample_report (eq_node_key q) []))),
     or_failure = (\<lambda>e. ([], []))\<rparr>"

definition failed_check :: verifier_result where
  "failed_check = \<lparr>vr_name = ''tests'', vr_passed = False, vr_score = None, vr_evidence_refs = [],
     vr_detail = [], vr_repair_instruction = None\<rparr>"

definition sample_contract :: gate_contract where
  "sample_contract = \<lparr>gc_name = ''review'', gc_description = [], gc_triggers = [],
     gc_applies_to_nodes = [], gc_severity = Severity_ADVISORY, gc_timeout_seconds = None,
     gc_metadata = []\<rparr>"

definition sample_registry :: "gate_evaluator list" where
  "sample_registry =
     [schema_check sample_contract ''Out'' (\<lambda>_. None), verifier_feedback (\<lambda>_. []) None]"

definition running_plan_session :: runtime_session where
  "running_plan_session = set_node ''plan'' ((new_node 0 ''plan'')\<lparr>ns_status := Node_RUNNING,
     ns_attempts := [sample_attempt]\<rparr>) (sample_session\<lparr>rs_status := Session_RUNNING\<rparr>)"

text \<open>Only the provider of the planner is overridden.\<close>

definition sample_environ :: environ where
  "sample_environ = [(''HYDRAMIND_PLANNER_PROVIDER'', ''deepseek''), (''DEEPSEEK_API_KEY'', '' key '')]"

lemma sample_cooperative: "cooperative sample_orchestrator i"
  by (simp add: cooperative_def sample_orchestrator_def sample_outcome_def sample_report_def truthy_def
      svc_return_def)

lemma sample_ungated: "ungated (or_hooks sample_orchestrator)"
  by (simp add: ungated_def sample_orchestrator_def sample_hooks_def)

lemma sample_registry_quiet: "\<forall>e \<in> set sample_registry. quiet_gate (ge_evaluate e)"
  by (simp add: sample_registry_def shipped_quiet)

lemma running_plan_stores: "stores (world_of running_plan_session) ''s1'' running_plan_session"
  using world_of_stores [of running_plan_session] by (simp add: running_plan_session_def set_node_def)

lemma running_plan_node:
  "session_node running_plan_session ''plan'' =
     Some ((new_node 0 ''plan'')\<lparr>ns_status := Node_RUNNING, ns_attempts := [sample_attempt]\<rparr>)"
  by (simp add: running_plan_session_def)

section \<open>Tools\<close>

text \<open>
  Concrete values for the properties of tools: a registry with one tool that fetches a page, a
  runtime with a plain encoding, and two calls that differ in the page only.
\<close>

definition sample_context :: tool_context where
  "sample_context = \<lparr>cx_env = [(''TOKEN'', ''t'')], cx_artifact_root = ''out'', cx_dry_run = False,
     cx_node_key = None, cx_role = None, cx_approved_tools = [], cx_allowed_env_keys = [],
     cx_network_access = True, cx_allowed_network_hosts = [], cx_tool_timeout_seconds = None,
     cx_allowed_process_commands = [], cx_allowed_process_argv_prefixes = [],
     cx_max_http_response_bytes = 100, cx_metadata = []\<rparr>"

text \<open>The page is the answer.\<close>

definition sample_tool :: registered_tool where
  "sample_tool = \<lparr>rt_name = ''http.get'', rt_description = [], rt_input_schema = [],
     rt_handler = (\<lambda>args ctx e. \<lparr>hr_awaitable = True, hr_seconds = 1,
        hr_end = Handler_returned (tool_ok (dict_get args ''url'') [])\<rparr>),
     rt_enabled = True, rt_required_env = [], rt_allowed_env = [],
     rt_policy = \<lparr>po_risk_class = Risk_EXTERNAL_CALL, po_allowed_nodes = [''plan''],
        po_allowed_roles = [], po_requires_approval = False\<rparr>,
     rt_manages_timeout = False\<rparr>"

definition sample_tools :: tool_registry where
  "sample_tools = \<lparr>tr_tools = [(''http.get'', sample_tool)], tr_default_context = sample_context\<rparr>"

definition sample_runtime :: agent_runtime where
  "sample_runtime = \<lparr>ag_registry = Some sample_tools, ag_context = sample_context, ag_max_rounds = 2,
     ag_model_hint = [], ag_complete = (\<lambda>ms s ts r e. Inl RuntimeError),
     ag_dumps = py_str (\<lambda>_. ''v''), ag_loads = (\<lambda>_. None), ag_repr = (\<lambda>_. ''v''), ag_sha256 = (\<lambda>x. x)\<rparr>"

definition sample_agent_call :: agent_call where
  "sample_agent_call = \<lparr>ac_session_id = ''s1'', ac_node_key = ''plan'', ac_execution_id = ''a1'',
     ac_trace_id = ''t''\<rparr>"

definition fetch :: "string \<Rightarrow> string \<Rightarrow> tool_call" where
  "fetch i url = \<lparr>tc_id = i, tc_name = ''http.get'', tc_arguments = [(''url'', JStr url)]\<rparr>"

definition plan_context :: tool_context where
  "plan_context = tool_context_for sample_runtime ''plan'' ''lead''"

section \<open>Teams\<close>

text \<open>
  Concrete values for the properties of teams: two members under a coordinator whose models
  answer at once, and sessions that store an interrupted and a closed aggregate of the team.
\<close>

definition team_member :: "string \<Rightarrow> agent_spec" where
  "team_member i = \<lparr>as_id = i, as_role = ''dev'', as_description = [], as_instructions = ''work'',
     as_prompt_ref = None, as_tools = [], as_metadata = []\<rparr>"

definition sample_team :: team_spec where
  "sample_team = \<lparr>ts_id = ''team'', ts_members = [team_member ''ann'', team_member ''bob''],
     ts_protocol = it_protocol sample_interaction, ts_workspace = None, ts_tools = [], ts_metadata = []\<rparr>"

definition sample_answer :: invocation_result where
  "sample_answer = \<lparr>iv_content = ''ok'', iv_tool_calls = [], iv_stop_reason = Stop_END_TURN,
     iv_usage = no_usage, iv_model_id = None, iv_reasoning = None, iv_subagent_id = None,
     iv_subagent_summary = None, iv_raw = []\<rparr>"

definition sample_team_env :: team_env where
  "sample_team_env = \<lparr>te_runtime = sample_runtime\<lparr>ag_complete := (\<lambda>ms s ts r e. Inr sample_answer),
       ag_dumps := (\<lambda>_. ''text'')\<rparr>,
     te_subagents = True, te_log = True, te_durable = True, te_dump = (\<lambda>_. JNull),
     te_failure = (\<lambda>_. ([], []))\<rparr>"

definition sample_team_request :: team_request where
  "sample_team_request = \<lparr>tq_messages = [harness_message_of Harness_USER ''go''], tq_system = [],
     tq_tools = None, tq_agent_role = ''lead'', tq_team = Some sample_team\<rparr>"

definition spoken :: "int \<Rightarrow> string \<Rightarrow> durable_message" where
  "spoken j agent = \<lparr>dm_id = durable_message_id ''interaction-s1-plan'' j agent,
     dm_interaction_id = ''interaction-s1-plan'', dm_turn_index = j, dm_sender = agent, dm_role = Role_AGENT,
     dm_content = ''before'', dm_in_reply_to = None, dm_created_at = 0\<rparr>"

definition acted :: "int \<Rightarrow> string \<Rightarrow> durable_turn" where
  "acted j agent = (sample_turn j Turn_COMPLETED None)\<lparr>dt_agent_id := agent\<rparr>"

definition sample_aggregate :: "interaction_status \<Rightarrow> string list \<Rightarrow> durable_interaction" where
  "sample_aggregate st agents = \<lparr>di_id = ''interaction-s1-plan'', di_session_id = ''s1'',
     di_node_key = ''plan'', di_execution_id = ''a1'', di_team_id = ''team'', di_protocol_mode = ''team'',
     di_topology = ''coordinator'', di_member_ids = [''ann'', ''bob''], di_workspace_id = None,
     di_status = st, di_turns = map (\<lambda>(j, x). acted (int j) x) (enumerate 0 agents),
     di_messages = map (\<lambda>(j, x). spoken (int j) x) (enumerate 0 agents), di_outcome = None, di_version = 1,
     di_recovered_from_turn_index = None, di_error = None, di_created_at = 0, di_updated_at = 0\<rparr>"

definition team_session :: "interaction_status \<Rightarrow> string list \<Rightarrow> runtime_session" where
  "team_session st agents = running_plan_session\<lparr>rs_durable_interactions :=
     [(''interaction-s1-plan'', sample_aggregate st agents)]\<rparr>"

lemma sample_team_config: "team_spec_from_config (tq_team sample_team_request) = Inr sample_team"
  by code_simp

lemma sample_team_valid: "valid_team sample_team"
proof -
  have "clean_id ''ann''" "clean_id ''bob''" by code_simp+
  moreover have "validate_protocol_consistency (ts_protocol sample_team) = Inr (ts_protocol sample_team)"
    by code_simp
  ultimately show ?thesis by (simp add: valid_team_def sample_team_def team_member_def)
qed

lemma sample_team_schedule: "team_schedule sample_team = [''bob'', ''ann'']"
  by code_simp

lemma sample_team_id: "clean_id ''interaction-s1-plan''"
  "''interaction-s1-plan'' = durable_interaction_id (ac_session_id sample_agent_call) (ac_node_key sample_agent_call)"
  by code_simp+

lemma team_session_stores: "stores (world_of (team_session st agents)) ''s1'' (team_session st agents)"
  using world_of_stores [of "team_session st agents"]
  by (simp add: team_session_def running_plan_session_def set_node_def)

section \<open>Harnesses\<close>

text \<open>
  Concrete values for the properties of memory, of prompts and of the execution harnesses.
\<close>

subsection \<open>Memory\<close>

definition note_entry :: memory_entry where
  "note_entry = \<lparr>my_scope = Memory_AGENT, my_scope_id = ''ann'', my_key = ''note'', my_value = JInt 1,
     my_created_at = 5, my_metadata = []\<rparr>"

definition sample_memory_ops :: "memory_op list" where
  "sample_memory_ops =
     [Memory_put note_entry, Memory_append 6 Memory_AGENT ''ann'' ''log'' (JInt 2) [],
      Memory_append 7 Memory_AGENT ''ann'' ''log'' (JInt 3) [],
      Memory_get Memory_AGENT ''ann'' ''log.1'', Memory_get Memory_SESSION ''ann'' ''log.1'']"

definition sample_write :: memory_write where
  "sample_write = \<lparr>ww_scope = Memory_AGENT, ww_scope_id = ''ann'', ww_key = ''turn.s1'', ww_value = JInt 1,
     ww_class = PROMPT_AFFECTING, ww_metadata = [], ww_idempotency = Some ''x''\<rparr>"

definition sample_steps :: "authority_step list" where
  "sample_steps = [Write 1 sample_write, Write 2 sample_write, Restart, Write 3 sample_write]"

lemma sample_keeps_to: "keeps_to Memory_AGENT ''ann'' ''turn.s1'' ''x'' sample_steps"
  by (auto simp: keeps_to_def sample_steps_def sample_write_def)

lemma sample_influences:
  "\<forall>now q. Write now q \<in> set sample_steps \<longrightarrow> is_runtime_influencing (ww_class q)"
  by (auto simp: sample_steps_def sample_write_def is_runtime_influencing_def)

definition sample_query :: memory_query where
  "sample_query = \<lparr>mq_scope = Memory_AGENT, mq_scope_id = ''ann'', mq_key_prefix = None, mq_limit = 1\<rparr>"

definition sample_policy :: memory_policy where
  "sample_policy = \<lparr>mp_enabled = True, mp_queries = [sample_query], mp_max_entries = 1\<rparr>"

definition no_agent_detail :: agent_detail where
  "no_agent_detail = \<lparr>ad_interaction_id = None, ad_turn_index = None, ad_role = None, ad_content_preview = None\<rparr>"

definition sample_decoder :: detail_decoder where
  "sample_decoder = \<lparr>dd_message_sent = (\<lambda>_. Inr no_agent_detail), dd_agent_turn = (\<lambda>_. Inr no_agent_detail),
     dd_tool_started = (\<lambda>_. Inr None)\<rparr>"

definition sample_event :: "observation_event_kind \<Rightarrow> string \<Rightarrow> observation_event" where
  "sample_event kind session_id =
     event_draft kind session_id None (None, None) (Some ''ann'') [] ''e'' 0"

definition sample_projector :: "memory_bank episode_projector" where
  "sample_projector = \<lparr>ep_authority = fresh_authority empty_bank, ep_workflow_name = ''w'', ep_events = []\<rparr>"

subsection \<open>Harnesses\<close>

definition sample_prompt_text :: prompt_text where
  "sample_prompt_text = \<lparr>pf_format = (\<lambda>_ _. Inl KeyError), pf_repr_str = (\<lambda>s. s), pf_dumps = (\<lambda>_. []),
     pf_dumps_sorted = (\<lambda>_. [])\<rparr>"

definition sample_services :: node_services where
  "sample_services = \<lparr>nv_builder = \<lparr>cb_workflow = sample_blueprint, cb_prompts = [], cb_text = sample_prompt_text,
       cb_validate_policy = (\<lambda>_. Inl ValidationError), cb_retriever = None\<rparr>,
     nv_tools = None, nv_team = sample_team_env\<lparr>te_runtime := (te_runtime sample_team_env)\<lparr>ag_loads := (\<lambda>_. None)\<rparr>\<rparr>,
     nv_team_config = (\<lambda>_. None), nv_report_builder = None, nv_verifier = None\<rparr>"

lemma sample_services_identity: "verifier_keeps_identity sample_services"
  by (simp add: verifier_keeps_identity_def sample_services_def)

lemma sample_services_preserve: "services_preserve rel sample_services"
  by (simp add: services_preserve_def sample_services_def)

lemma sample_services_plain: "plain_services sample_services sample_blueprint"
  by (simp add: plain_services_def sample_services_def sample_team_env_def sample_blueprint_def
      resolve_node_execution_mode_def execution_modes_def Let_def)

lemma sample_answering: "answering_model (te_runtime (nv_team sample_services))"
  by (simp add: answering_model_def sample_services_def sample_team_env_def sample_answer_def)

lemma sample_known: "\<forall>r \<in> set (all_requirements sample_blueprint). r \<in> set (blueprint_keys sample_blueprint)"
  by (simp add: all_requirements_def sample_blueprint_def blueprint_keys_def)

definition sample_request :: episode_request where
  "sample_request = \<lparr>eq_session = sample_session, eq_node_key = ''plan'', eq_agent_role = ''dev'',
     eq_node_config = [], eq_execution_id = ''x1'', eq_trace_id = ''t1'', eq_lease_token = Some ''tok'',
     eq_constraints = no_constraints, eq_resume = None\<rparr>"

lemma sample_holds: "holds (world_of sample_session) ''s1'' sample_session"
  using sample_store by (simp add: holds_def stores_def calm_def world_of_def)

lemma sample_episode:
  "\<exists>out w'. hydramind_episode sample_services sample_request (world_of sample_session) = (Inr out, w')"
proof -
  obtain sp where "node_spec sample_blueprint (eq_node_key sample_request) = Inr sp"
      "eq_node_config sample_request = wn_config sp"
    by (simp add: sample_request_def sample_blueprint_def node_spec_def)
  from hydramind_answers [OF sample_services_plain sample_answering sample_known this sample_holds]
  show ?thesis by blast
qed

text \<open>The sample model never submits, so the explicit-submit harness uses up its budget.\<close>

lemma sample_explicit_episode:
  "\<exists>out w'. explicit_episode sample_services sample_request (world_of sample_session) = (Inr out, w')"
proof -
  have "case fst (explicit_episode sample_services sample_request (world_of sample_session)) of
      Inl _ \<Rightarrow> False | Inr _ \<Rightarrow> True" by code_simp
  then show ?thesis
    by (cases "explicit_episode sample_services sample_request (world_of sample_session)")
       (auto split: sum.splits)
qed

end
