(* ===== verification/Goal_Plan.thy ===== *)
theory Goal_Plan
  imports Memory_Projection
begin

text \<open>
  \<^verbatim>\<open>orchestration/planning_contracts.py\<close> and the contracts of \<^verbatim>\<open>control/models.py\<close> that
  a plan carries: tasks, goals, plans, and the changes of a plan. A plan becomes a workflow
  blueprint, and a change of it another plan. The JSON forms that Pydantic gives to a value
  (\<^verbatim>\<open>model_dump\<close>, \<^verbatim>\<open>model_validate\<close>) are the record \<open>plan_codec\<close>.
\<close>

section \<open>Contracts\<close>

record semantic_rubric_check =
  sc_name :: string
  sc_description :: string
  sc_min_score :: rat

record semantic_rubric =
  sr_checks :: "semantic_rubric_check list"
  sr_enabled :: bool

record quality_contract =
  qc_min_length :: int
  qc_required_sections :: "string list"
  qc_min_reference_urls :: int
  qc_min_image_refs :: int
  qc_min_local_image_refs :: int
  qc_local_assets_contained :: bool
  qc_semantic_rubric :: "semantic_rubric option"

record task_contract =
  tk_objective :: string
  tk_acceptance_criteria :: "string list"
  tk_expected_artifacts :: "string list"
  tk_negative_cases :: "string list"
  tk_verifier_refs :: "string list"
  tk_metadata :: pydict
  tk_quality_contract :: "quality_contract option"

definition empty_contract :: task_contract where
  "empty_contract = \<lparr>tk_objective = [], tk_acceptance_criteria = [], tk_expected_artifacts = [],
     tk_negative_cases = [], tk_verifier_refs = [], tk_metadata = [], tk_quality_contract = None\<rparr>"

section \<open>Tasks, goals and plans\<close>

record plan_task =
  pn_key :: string
  pn_role :: string
  pn_description :: string
  pn_agent :: "agent_spec option"
  pn_team :: "team_spec option"
  pn_requires :: "string list"
  pn_contract :: task_contract
  pn_tools :: "string list"
  pn_execution_mode :: string
  pn_config :: pydict

record goal_spec =
  gs_objective :: string
  gs_constraints :: "string list"
  gs_success_criteria :: "string list"
  gs_available_tools :: "string list"
  gs_required_tools :: "string list"
  gs_expected_artifacts :: "string list"
  gs_agents :: "agent_spec list"
  gs_teams :: "team_spec list"
  gs_suggested_tasks :: "plan_task list"
  gs_memory_context :: "memory_policy option"
  gs_quality_contract :: "quality_contract option"
  gs_metadata :: pydict

record execution_plan =
  xp_name :: string
  xp_goal :: goal_spec
  xp_tasks :: "plan_task list"
  xp_version :: string
  xp_rationale :: string
  xp_metadata :: pydict

record plan_delta =
  pd_add_tasks :: "plan_task list"
  pd_remove_task_keys :: "string list"
  pd_update_tasks :: "plan_task list"
  pd_rationale :: string
  pd_feedback_refs :: "string list"
  pd_metadata :: pydict

record plan_codec =
  pc_agent_json :: "agent_spec \<Rightarrow> json"
  pc_team_json :: "team_spec \<Rightarrow> json"
  pc_contract_json :: "task_contract \<Rightarrow> json"
  pc_goal_json :: "goal_spec \<Rightarrow> json"
  pc_plan_json :: "execution_plan \<Rightarrow> json"
  pc_plan_load :: "pydict \<Rightarrow> exn + execution_plan"

section \<open>Validation\<close>

definition require_declared_tools_allowed :: "string list \<Rightarrow> string list \<Rightarrow> exn + unit" where
  "require_declared_tools_allowed declared allowed =
     (if declared = [] then Inr ()
      else and_then (raise_when (allowed = []) ValueError) (\<lambda>_.
           raise_when (\<not> set declared \<subseteq> set allowed) ValueError))"

text \<open>
  The constructor of a task. \<^verbatim>\<open>UnexecutedProtocolError\<close> is a \<^verbatim>\<open>ValueError\<close>, so
  Pydantic reports every failure of the validator as a \<^verbatim>\<open>ValidationError\<close>.
\<close>

definition validate_task_contracts :: "plan_task \<Rightarrow> exn + unit" where
  "validate_task_contracts t =
     and_then (raise_when (pn_agent t \<noteq> None \<and> pn_team t \<noteq> None) ValueError) (\<lambda>_.
     and_then (case pn_agent t of None \<Rightarrow> Inr ()
        | Some a \<Rightarrow> require_declared_tools_allowed (as_tools a) (pn_tools t)) (\<lambda>_.
     case pn_team t of None \<Rightarrow> Inr ()
     | Some m \<Rightarrow> and_then (require_declared_tools_allowed (declared_tools m) (pn_tools t)) (\<lambda>_.
         require_executed_team m)))"

definition make_plan_task :: "plan_task \<Rightarrow> exn + plan_task" where
  "make_plan_task t = (case validate_task_contracts t of Inl _ \<Rightarrow> Inl ValidationError | Inr _ \<Rightarrow> Inr t)"

definition validate_unique_ids :: "string list \<Rightarrow> exn + unit" where
  "validate_unique_ids ids = raise_when (\<not> distinct ids) ValueError"

definition make_goal_spec :: "goal_spec \<Rightarrow> exn + goal_spec" where
  "make_goal_spec g = validated
     (and_then (validate_unique_ids (map as_id (gs_agents g))) (\<lambda>_.
      and_then (validate_unique_ids (map ts_id (gs_teams g))) (\<lambda>_. Inr g)))"

definition validate_requires :: "plan_task list \<Rightarrow> exn + unit" where
  "validate_requires tasks =
     raise_when (\<exists>t \<in> set tasks. \<not> set (pn_requires t) \<subseteq> set (map pn_key tasks)) ValueError"

section \<open>The workflow of a plan\<close>

text \<open>\<^verbatim>\<open>config.setdefault(key, value)\<close>.\<close>

definition set_default :: "string \<Rightarrow> json \<Rightarrow> pydict \<Rightarrow> pydict" where
  "set_default k v d = (case map_of d k of None \<Rightarrow> d @ [(k, v)] | Some _ \<Rightarrow> d)"

definition to_workflow_node :: "plan_codec \<Rightarrow> plan_task \<Rightarrow> workflow_node_spec" where
  "to_workflow_node pc t =
     (let c0 = pn_config t;
          c1 = (case pn_agent t of None \<Rightarrow> c0 | Some a \<Rightarrow> set_default ''mas_agent'' (pc_agent_json pc a) c0);
          c2 = (case pn_team t of None \<Rightarrow> c1
                | Some m \<Rightarrow> AList.update ''execution_mode'' (JStr ''team'')
                    (AList.update ''mas_team'' (pc_team_json pc m) c1));
          c3 = (if pn_tools t \<noteq> [] then set_default ''tools'' (JList (map JStr (pn_tools t))) c2 else c2);
          c4 = (if pn_execution_mode t \<noteq> [] \<and> pn_team t = None
                then set_default ''execution_mode'' (JStr (pn_execution_mode t)) c3 else c3);
          c5 = (if pn_contract t \<noteq> empty_contract
                then set_default ''task_contract'' (pc_contract_json pc (pn_contract t)) c4 else c4)
      in \<lparr>wn_key = pn_key t, wn_role = pn_role t, wn_description = pn_description t,
          wn_requires = pn_requires t, wn_config = c5\<rparr>)"

definition to_blueprint :: "plan_codec \<Rightarrow> execution_plan \<Rightarrow> workflow_blueprint" where
  "to_blueprint pc p = \<lparr>wb_name = xp_name p, wb_version = xp_version p,
     wb_nodes = map (to_workflow_node pc) (xp_tasks p)\<rparr>"

definition as_session_metadata :: "plan_codec \<Rightarrow> execution_plan \<Rightarrow> pydict" where
  "as_session_metadata pc p =
     [(''goal'', pc_goal_json pc (xp_goal p)), (''execution_plan'', pc_plan_json pc p)]"

section \<open>What the goal adds to the last task\<close>

definition with_goal_quality_contract :: "execution_plan \<Rightarrow> exn + execution_plan" where
  "with_goal_quality_contract p =
     (case gs_quality_contract (xp_goal p) of
        None \<Rightarrow> Inr p
      | Some q \<Rightarrow>
          and_then (raise_when (xp_tasks p = []) ValueError) (\<lambda>_.
            let t = last (xp_tasks p); c = pn_contract t in
            Inr (if tk_quality_contract c \<noteq> None then p
                 else p\<lparr>xp_tasks := butlast (xp_tasks p) @
                   [t\<lparr>pn_contract := c\<lparr>tk_quality_contract := Some q\<rparr>\<rparr>]\<rparr>)))"

definition tasks_with_goal_expected_artifacts :: "plan_task list \<Rightarrow> goal_spec \<Rightarrow> exn + plan_task list" where
  "tasks_with_goal_expected_artifacts tasks g =
     (if gs_expected_artifacts g = [] then Inr tasks
      else and_then (raise_when (tasks = []) ValueError) (\<lambda>_.
        let declared = concat (map (\<lambda>t. tk_expected_artifacts (pn_contract t)) tasks);
            missing = filter (\<lambda>a. a \<notin> set declared) (gs_expected_artifacts g) in
        if missing = [] then Inr tasks
        else
          let t = last tasks; c = pn_contract t;
              own = tk_expected_artifacts c in
          Inr (butlast tasks @
            [t\<lparr>pn_contract := c\<lparr>tk_expected_artifacts :=
                own @ filter (\<lambda>a. a \<notin> set own) missing\<rparr>\<rparr>])))"

definition with_goal_expected_artifacts :: "execution_plan \<Rightarrow> exn + execution_plan" where
  "with_goal_expected_artifacts p =
     and_then (tasks_with_goal_expected_artifacts (xp_tasks p) (xp_goal p)) (\<lambda>ts. Inr (p\<lparr>xp_tasks := ts\<rparr>))"

section \<open>Changing a plan\<close>

type_synonym task_dict = "(string \<times> plan_task) list"

definition tasks_by_key :: "plan_task list \<Rightarrow> task_dict" where
  "tasks_by_key tasks = fold (\<lambda>t d. AList.update (pn_key t) t d) tasks []"

definition remove_task :: "string \<Rightarrow> task_dict \<Rightarrow> exn + task_dict" where
  "remove_task k d = (if map_of d k = None then Inl ValueError else Inr (AList.delete k d))"

definition update_task :: "plan_task \<Rightarrow> task_dict \<Rightarrow> exn + task_dict" where
  "update_task t d = (if map_of d (pn_key t) = None then Inl ValueError else Inr (AList.update (pn_key t) t d))"

definition add_task :: "plan_task \<Rightarrow> task_dict \<Rightarrow> exn + task_dict" where
  "add_task t d = (if map_of d (pn_key t) \<noteq> None then Inl ValueError else Inr (AList.update (pn_key t) t d))"

definition delta_metadata :: "plan_delta \<Rightarrow> pydict \<Rightarrow> pydict" where
  "delta_metadata delta md =
     (let md1 = (if pd_rationale delta \<noteq> []
                 then AList.update ''last_plan_delta_rationale'' (JStr (pd_rationale delta)) md else md) in
      case dict_get (pd_metadata delta) ''planner_diagnostics'' of
        JObj d \<Rightarrow> AList.update ''last_plan_delta_diagnostics'' (JObj d) md1
      | _ \<Rightarrow> md1)"

definition apply_delta :: "execution_plan \<Rightarrow> plan_delta \<Rightarrow> exn + execution_plan" where
  "apply_delta p delta =
     and_then (fold_err remove_task (pd_remove_task_keys delta) (tasks_by_key (xp_tasks p))) (\<lambda>d1.
     and_then (fold_err update_task (pd_update_tasks delta) d1) (\<lambda>d2.
     and_then (fold_err add_task (pd_add_tasks delta) d2) (\<lambda>d.
       let keys = filter (\<lambda>k. map_of d k \<noteq> None) (map pn_key (xp_tasks p)) @ map pn_key (pd_add_tasks delta);
           tasks = map (\<lambda>k. the (map_of d k)) keys in
     and_then (validate_requires tasks) (\<lambda>_.
     and_then (with_goal_expected_artifacts
         (p\<lparr>xp_tasks := tasks, xp_metadata := delta_metadata delta (xp_metadata p)\<rparr>))
       with_goal_quality_contract))))"

end
