(* ===== verification/Plan_Facts.thy ===== *)
theory Plan_Facts
  imports Goal_Plan Session_Workflow
begin

text \<open>
  What plans satisfy. A plan is well formed when its keys are distinct, its requirements are tasks
  of it, the agents and teams of a task use its tools and these are tools of the goal, and what
  the goal asks for is asked of some task. Changing a well-formed plan gives one, unless a task is
  removed and added again in one change.
\<close>

section \<open>Well-formed tasks and plans\<close>

definition task_ok :: "string list \<Rightarrow> plan_task \<Rightarrow> bool" where
  "task_ok available t \<longleftrightarrow>
     (pn_agent t = None \<or> pn_team t = None) \<and>
     (\<forall>a. pn_agent t = Some a \<longrightarrow> set (as_tools a) \<subseteq> set (pn_tools t)) \<and>
     (\<forall>m. pn_team t = Some m \<longrightarrow> set (declared_tools m) \<subseteq> set (pn_tools t) \<and>
        executed_protocol_violations (ts_protocol m) = []) \<and>
     set (pn_tools t) \<subseteq> set available"

definition plan_keys :: "execution_plan \<Rightarrow> string list" where
  "plan_keys p = map pn_key (xp_tasks p)"

definition artifacts_covered :: "execution_plan \<Rightarrow> bool" where
  "artifacts_covered p \<longleftrightarrow>
     set (gs_expected_artifacts (xp_goal p)) \<subseteq> (\<Union>t \<in> set (xp_tasks p). set (tk_expected_artifacts (pn_contract t)))"

definition quality_covered :: "execution_plan \<Rightarrow> bool" where
  "quality_covered p \<longleftrightarrow>
     (gs_quality_contract (xp_goal p) \<noteq> None \<longrightarrow>
       xp_tasks p \<noteq> [] \<and> tk_quality_contract (pn_contract (last (xp_tasks p))) \<noteq> None)"

definition plan_ok :: "execution_plan \<Rightarrow> bool" where
  "plan_ok p \<longleftrightarrow>
     distinct (plan_keys p) \<and> (\<forall>t \<in> set (xp_tasks p). set (pn_requires t) \<subseteq> set (plan_keys p)) \<and>
     (\<forall>t \<in> set (xp_tasks p). task_ok (gs_available_tools (xp_goal p)) t) \<and>
     artifacts_covered p \<and> quality_covered p"

definition delta_ok :: "goal_spec \<Rightarrow> plan_delta \<Rightarrow> bool" where
  "delta_ok g delta \<longleftrightarrow>
     (\<forall>t \<in> set (pd_add_tasks delta) \<union> set (pd_update_tasks delta). task_ok (gs_available_tools g) t)"

lemma declared_tools_allowed: "require_declared_tools_allowed ds as = Inr u \<longleftrightarrow> set ds \<subseteq> set as"
  by (auto simp: require_declared_tools_allowed_def)

lemma make_plan_task_ok:
  "make_plan_task t = Inr t' \<Longrightarrow> t' = t \<and> (\<forall>av. set (pn_tools t) \<subseteq> set av \<longrightarrow> task_ok av t)"
  by (auto simp: make_plan_task_def validate_task_contracts_def task_ok_def require_executed_team_def Let_def
      declared_tools_allowed split: sum.splits option.splits)

lemma validate_requires_ok [simp]:
  "validate_requires ts = Inr u \<longleftrightarrow> (\<forall>t \<in> set ts. set (pn_requires t) \<subseteq> set (map pn_key ts))"
  by (auto simp: validate_requires_def)

section \<open>What the goal adds\<close>

definition same_but_contract :: "plan_task \<Rightarrow> plan_task \<Rightarrow> bool" where
  "same_but_contract t u \<longleftrightarrow> (\<exists>c. u = t\<lparr>pn_contract := c\<rparr>)"

lemma same_but_contract_refl [simp]: "same_but_contract t t"
  unfolding same_but_contract_def by (rule exI [of _ "pn_contract t"]) simp

lemma same_but_contract_set [simp]: "same_but_contract t (t\<lparr>pn_contract := c\<rparr>)"
  unfolding same_but_contract_def by blast

lemma same_but_contractD:
  assumes "same_but_contract t u"
  shows "pn_key u = pn_key t" "pn_requires u = pn_requires t" "pn_tools u = pn_tools t"
    "task_ok av u = task_ok av t"
  using assms unfolding same_but_contract_def task_ok_def by auto

lemma last_changed:
  "ts \<noteq> [] \<Longrightarrow> same_but_contract (last ts) u \<Longrightarrow> list_all2 same_but_contract ts (butlast ts @ [u])"
  by (induction ts) (auto simp: list_all2_refl split: if_splits)

lemma all2_keys: "list_all2 same_but_contract ts us \<Longrightarrow> map pn_key us = map pn_key ts"
  by (induction rule: list_all2_induct) (simp_all add: same_but_contractD)

lemma all2_ball:
  assumes "list_all2 same_but_contract ts us" "\<forall>t \<in> set ts. P t" "\<And>t u. same_but_contract t u \<Longrightarrow> P u = P t"
  shows "\<forall>u \<in> set us. P u"
  using assms(1,2) by (induction rule: list_all2_induct) (auto simp: assms(3))

lemma expected_artifacts_cases:
  assumes "with_goal_expected_artifacts p = Inr p'"
  obtains (same) "p' = p" "artifacts_covered p"
  | (added) t c where "xp_tasks p \<noteq> []" "t = last (xp_tasks p)"
      "p' = p\<lparr>xp_tasks := butlast (xp_tasks p) @ [t\<lparr>pn_contract := c\<rparr>]\<rparr>"
      "set (tk_expected_artifacts c) = set (tk_expected_artifacts (pn_contract t)) \<union>
        (set (gs_expected_artifacts (xp_goal p)) -
          (\<Union>t \<in> set (xp_tasks p). set (tk_expected_artifacts (pn_contract t))))"
      "tk_quality_contract c = tk_quality_contract (pn_contract t)"
proof -
  obtain us where us: "tasks_with_goal_expected_artifacts (xp_tasks p) (xp_goal p) = Inr us" "p' = p\<lparr>xp_tasks := us\<rparr>"
    using assms by (auto simp: with_goal_expected_artifacts_def)
  consider "gs_expected_artifacts (xp_goal p) = []"
    | "filter (\<lambda>a. a \<notin> (\<Union>t \<in> set (xp_tasks p). set (tk_expected_artifacts (pn_contract t))))
        (gs_expected_artifacts (xp_goal p)) = []" "gs_expected_artifacts (xp_goal p) \<noteq> []"
    | "filter (\<lambda>a. a \<notin> (\<Union>t \<in> set (xp_tasks p). set (tk_expected_artifacts (pn_contract t))))
        (gs_expected_artifacts (xp_goal p)) \<noteq> []" "gs_expected_artifacts (xp_goal p) \<noteq> []"
    by blast
  then show thesis
  proof cases
    case 1
    then have "us = xp_tasks p" using us(1) by (simp add: tasks_with_goal_expected_artifacts_def)
    with us(2) 1 same show thesis by (simp add: artifacts_covered_def)
  next
    case 2
    then have "us = xp_tasks p" using us(1) by (simp add: tasks_with_goal_expected_artifacts_def Let_def)
    with us(2) 2 same show thesis by (auto simp: artifacts_covered_def filter_empty_conv)
  next
    case 3
    let ?t = "last (xp_tasks p)"
    let ?own = "tk_expected_artifacts (pn_contract ?t)"
    let ?c = "(pn_contract ?t)\<lparr>tk_expected_artifacts := ?own @ filter (\<lambda>a. a \<notin> set ?own)
      (filter (\<lambda>a. a \<notin> (\<Union>t \<in> set (xp_tasks p). set (tk_expected_artifacts (pn_contract t))))
        (gs_expected_artifacts (xp_goal p)))\<rparr>"
    have ne: "xp_tasks p \<noteq> []"
      using us(1) 3(2) by (auto simp: tasks_with_goal_expected_artifacts_def)
    have eq: "us = butlast (xp_tasks p) @ [?t\<lparr>pn_contract := ?c\<rparr>]"
      using us(1) 3 by (simp add: tasks_with_goal_expected_artifacts_def Let_def)
    show thesis
      by (rule added [OF ne refl, of ?c]) (use us(2) eq in auto)
  qed
qed

lemma expected_artifacts_same:
  assumes "with_goal_expected_artifacts p = Inr p'"
  shows "xp_goal p' = xp_goal p" "list_all2 same_but_contract (xp_tasks p) (xp_tasks p')"
  using assms by (cases rule: expected_artifacts_cases; simp add: list_all2_refl last_changed)+

lemma tasks_split: "ts \<noteq> [] \<Longrightarrow> set ts = insert (last ts) (set (butlast ts))"
  by (metis append_butlast_last_id list.simps(15) rotate1.simps(2) set_rotate1)

lemma expected_artifacts_covered:
  assumes "with_goal_expected_artifacts p = Inr p'"
  shows "artifacts_covered p'"
  using assms
proof (cases rule: expected_artifacts_cases)
  case (added t c)
  then show ?thesis
    using tasks_split [OF added(1)] by (auto simp: artifacts_covered_def)
qed simp

lemma quality_contract_cases:
  assumes "with_goal_quality_contract p = Inr p'"
  obtains (same) "p' = p" "quality_covered p"
  | (added) t c where "xp_tasks p \<noteq> []" "t = last (xp_tasks p)" "tk_quality_contract c \<noteq> None"
      "p' = p\<lparr>xp_tasks := butlast (xp_tasks p) @ [t\<lparr>pn_contract := c\<rparr>]\<rparr>"
      "tk_expected_artifacts c = tk_expected_artifacts (pn_contract t)"
proof (cases "gs_quality_contract (xp_goal p)")
  case None
  then show thesis using same assms by (simp add: with_goal_quality_contract_def quality_covered_def)
next
  case (Some q)
  let ?t = "last (xp_tasks p)"
  have ne: "xp_tasks p \<noteq> []" using assms Some by (auto simp: with_goal_quality_contract_def)
  show thesis
  proof (cases "tk_quality_contract (pn_contract ?t) = None")
    case True
    then show thesis
      using assms Some ne
      by (intro added [OF ne refl, of "(pn_contract ?t)\<lparr>tk_quality_contract := Some q\<rparr>"])
        (auto simp: with_goal_quality_contract_def Let_def)
  next
    case False
    then show thesis
      using assms Some ne by (intro same) (auto simp: with_goal_quality_contract_def Let_def quality_covered_def)
  qed
qed

lemma quality_contract_same:
  assumes "with_goal_quality_contract p = Inr p'"
  shows "xp_goal p' = xp_goal p" "list_all2 same_but_contract (xp_tasks p) (xp_tasks p')" "quality_covered p'"
    "artifacts_covered p' = artifacts_covered p"
proof -
  show "xp_goal p' = xp_goal p" "list_all2 same_but_contract (xp_tasks p) (xp_tasks p')" "quality_covered p'"
    using assms by (cases rule: quality_contract_cases; simp add: list_all2_refl last_changed quality_covered_def)+
  show "artifacts_covered p' = artifacts_covered p"
    using assms
  proof (cases rule: quality_contract_cases)
    case (added t c)
    then show ?thesis using tasks_split [OF added(1)] by (auto simp: artifacts_covered_def)
  qed simp
qed

lemma list_all2_trans_contract:
  "list_all2 same_but_contract xs ys \<Longrightarrow> list_all2 same_but_contract ys zs \<Longrightarrow> list_all2 same_but_contract xs zs"
  by (rule list_all2_trans [of same_but_contract same_but_contract same_but_contract])
     (auto simp: same_but_contract_def)

text \<open>Both steps together: the tasks are the same but for their contracts, and the goal is covered.\<close>

lemma goal_covered:
  assumes "and_then (with_goal_expected_artifacts p) with_goal_quality_contract = Inr p'"
  shows "xp_goal p' = xp_goal p" "list_all2 same_but_contract (xp_tasks p) (xp_tasks p')"
    "artifacts_covered p'" "quality_covered p'"
proof -
  obtain q where q: "with_goal_expected_artifacts p = Inr q" "with_goal_quality_contract q = Inr p'"
    using assms by auto
  note e = expected_artifacts_same [OF q(1)] expected_artifacts_covered [OF q(1)]
  note f = quality_contract_same [OF q(2)]
  show "xp_goal p' = xp_goal p" using e f by simp
  show "list_all2 same_but_contract (xp_tasks p) (xp_tasks p')"
    by (rule list_all2_trans_contract [OF e(2) f(2)])
  show "artifacts_covered p'" "quality_covered p'" using e f by simp_all
qed

lemma covered_plan_ok:
  assumes "and_then (with_goal_expected_artifacts p) with_goal_quality_contract = Inr p'"
    "distinct (plan_keys p)" "\<forall>t \<in> set (xp_tasks p). set (pn_requires t) \<subseteq> set (plan_keys p)"
    "\<forall>t \<in> set (xp_tasks p). task_ok (gs_available_tools (xp_goal p)) t"
  shows "plan_ok p'" "plan_keys p' = plan_keys p" "xp_goal p' = xp_goal p"
proof -
  note g = goal_covered [OF assms(1)]
  show k: "plan_keys p' = plan_keys p" using all2_keys [OF g(2)] by (simp add: plan_keys_def)
  show "xp_goal p' = xp_goal p" by (rule g(1))
  have "\<forall>t \<in> set (xp_tasks p'). set (pn_requires t) \<subseteq> set (plan_keys p')"
    unfolding k by (rule all2_ball [OF g(2) assms(3)]) (simp add: same_but_contractD)
  moreover have "\<forall>t \<in> set (xp_tasks p'). task_ok (gs_available_tools (xp_goal p')) t"
    unfolding g(1) by (rule all2_ball [OF g(2) assms(4)]) (rule same_but_contractD(4))
  ultimately show "plan_ok p'" using g assms(2) k by (simp add: plan_ok_def)
qed

section \<open>Changes\<close>

definition dict_ok :: "(plan_task \<Rightarrow> bool) \<Rightarrow> task_dict \<Rightarrow> bool" where
  "dict_ok P d \<longleftrightarrow> (\<forall>k t. map_of d k = Some t \<longrightarrow> pn_key t = k \<and> P t)"

lemma dict_ok_update [simp]: "dict_ok P d \<Longrightarrow> P t \<Longrightarrow> dict_ok P (AList.update (pn_key t) t d)"
  by (simp add: dict_ok_def)

lemma dict_ok_delete [simp]: "dict_ok P d \<Longrightarrow> dict_ok P (AList.delete k d)"
  by (simp add: dict_ok_def delete_conv')

lemma fold_dict_ok:
  "dict_ok P d \<Longrightarrow> \<forall>t \<in> set ts. P t \<Longrightarrow> dict_ok P (fold (\<lambda>t d. AList.update (pn_key t) t d) ts d)"
  by (induction ts arbitrary: d) simp_all

lemma dom_update: "dom (map_of (AList.update k v d)) = insert k (dom (map_of d))"
  by (simp only: map_of_update dom_fun_upd) simp

lemma fold_dict_dom:
  "dom (map_of (fold (\<lambda>t d. AList.update (pn_key t) t d) ts d)) = dom (map_of d) \<union> pn_key ` set ts"
proof (induction ts arbitrary: d)
  case (Cons t ts)
  have "dom (map_of (fold (\<lambda>t d. AList.update (pn_key t) t d) ts (AList.update (pn_key t) t d))) =
      dom (map_of (AList.update (pn_key t) t d)) \<union> pn_key ` set ts" by (rule Cons.IH)
  then show ?case by (simp only: fold_simps dom_update list.set image_insert Un_insert_left Un_insert_right)
qed simp

lemma tasks_by_key_ok: "\<forall>t \<in> set ts. P t \<Longrightarrow> dict_ok P (tasks_by_key ts)"
  unfolding tasks_by_key_def by (rule fold_dict_ok) (simp add: dict_ok_def)

lemma tasks_by_key_dom: "dom (map_of (tasks_by_key ts)) = pn_key ` set ts"
  unfolding tasks_by_key_def fold_dict_dom by simp

lemma task_steps [simp]:
  "remove_task k d = Inr d' \<longleftrightarrow> map_of d k \<noteq> None \<and> d' = AList.delete k d"
  "update_task t d = Inr d' \<longleftrightarrow> map_of d (pn_key t) \<noteq> None \<and> d' = AList.update (pn_key t) t d"
  "add_task t d = Inr d' \<longleftrightarrow> map_of d (pn_key t) = None \<and> d' = AList.update (pn_key t) t d"
  by (auto simp: remove_task_def update_task_def add_task_def)

lemma dom_delete: "dom (map_of (AList.delete k d)) = dom (map_of d) - {k}"
  by (simp add: delete_conv')

lemma remove_tasks:
  "fold_err remove_task ks d = Inr d' \<Longrightarrow> dict_ok P d \<Longrightarrow>
   dict_ok P d' \<and> dom (map_of d') = dom (map_of d) - set ks \<and> set ks \<subseteq> dom (map_of d)"
proof (induction ks arbitrary: d)
  case (Cons k ks)
  then have k: "map_of d k \<noteq> None" and f: "fold_err remove_task ks (AList.delete k d) = Inr d'" by auto
  from Cons.IH [OF f] Cons.prems(2) k show ?case by (auto simp: dom_delete)
qed simp

lemma update_tasks:
  "fold_err update_task ts d = Inr d' \<Longrightarrow> dict_ok P d \<Longrightarrow> \<forall>t \<in> set ts. P t \<Longrightarrow>
   dict_ok P d' \<and> dom (map_of d') = dom (map_of d)"
proof (induction ts arbitrary: d)
  case (Cons t ts)
  then have k: "map_of d (pn_key t) \<noteq> None"
    and f: "fold_err update_task ts (AList.update (pn_key t) t d) = Inr d'" by auto
  have "dict_ok P d' \<and> dom (map_of d') = dom (map_of (AList.update (pn_key t) t d))"
    by (rule Cons.IH [OF f]) (use Cons.prems(2,3) in auto)
  moreover have "pn_key t \<in> dom (map_of d)" using k by blast
  ultimately show ?case by (simp only: dom_update insert_absorb)
qed simp

lemma add_tasks:
  "fold_err add_task ts d = Inr d' \<Longrightarrow> dict_ok P d \<Longrightarrow> \<forall>t \<in> set ts. P t \<Longrightarrow>
   dict_ok P d' \<and> dom (map_of d') = dom (map_of d) \<union> pn_key ` set ts \<and>
   distinct (map pn_key ts) \<and> pn_key ` set ts \<inter> dom (map_of d) = {}"
proof (induction ts arbitrary: d)
  case (Cons t ts)
  then have n: "map_of d (pn_key t) = None" and f: "fold_err add_task ts (AList.update (pn_key t) t d) = Inr d'"
    by auto
  have "dict_ok P d' \<and> dom (map_of d') = dom (map_of (AList.update (pn_key t) t d)) \<union> pn_key ` set ts \<and>
      distinct (map pn_key ts) \<and> pn_key ` set ts \<inter> dom (map_of (AList.update (pn_key t) t d)) = {}"
    by (rule Cons.IH [OF f]) (use Cons.prems(2,3) in auto)
  moreover have "pn_key t \<notin> dom (map_of d)" using n by blast
  ultimately show ?case unfolding dom_update by (auto simp del: map_of_update)
qed simp

text \<open>
  The changed plan: what is left of the old keys in their order, then the added ones. A key that is
  removed and added in the same change comes twice.
\<close>

lemma apply_delta_facts:
  assumes "apply_delta p delta = Inr p'" "plan_ok p" "delta_ok (xp_goal p) delta"
  defines "removed \<equiv> set (pd_remove_task_keys delta)" and "added \<equiv> map pn_key (pd_add_tasks delta)"
  shows "plan_keys p' = filter (\<lambda>k. k \<notin> removed \<or> k \<in> set added) (plan_keys p) @ added"
    "distinct (plan_keys p') \<longleftrightarrow> removed \<inter> set added = {}" "xp_goal p' = xp_goal p"
    "removed \<inter> set added = {} \<Longrightarrow> plan_ok p'"
proof -
  let ?P = "task_ok (gs_available_tools (xp_goal p))" and ?keys = "plan_keys p"
  obtain d1 d2 d where d: "fold_err remove_task (pd_remove_task_keys delta) (tasks_by_key (xp_tasks p)) = Inr d1"
      "fold_err update_task (pd_update_tasks delta) d1 = Inr d2" "fold_err add_task (pd_add_tasks delta) d2 = Inr d"
    using assms(1) by (auto simp: apply_delta_def)
  define keys where "keys = filter (\<lambda>k. map_of d k \<noteq> None) ?keys @ added"
  define q where "q = p\<lparr>xp_tasks := map (\<lambda>k. the (map_of d k)) keys,
      xp_metadata := delta_metadata delta (xp_metadata p)\<rparr>"
  have g: "validate_requires (xp_tasks q) = Inr ()" "and_then (with_goal_expected_artifacts q) with_goal_quality_contract = Inr p'"
    using assms(1) d by (auto simp: apply_delta_def q_def keys_def plan_keys_def added_def Let_def)
  have P: "\<forall>t \<in> set (xp_tasks p). ?P t" "\<forall>t \<in> set (pd_update_tasks delta). ?P t" "\<forall>t \<in> set (pd_add_tasks delta). ?P t"
    using assms(2,3) by (auto simp: plan_ok_def delta_ok_def)
  note d0 = tasks_by_key_ok [OF P(1)] tasks_by_key_dom [of "xp_tasks p"]
  note d1 = remove_tasks [OF d(1) d0(1)]
  note d2 = update_tasks [OF d(2) conjunct1 [OF d1] P(2)]
  note d3 = add_tasks [OF d(3) conjunct1 [OF d2] P(3)]
  have dom2: "dom (map_of d2) = set ?keys - removed"
    using d1 d2 by (simp add: d0(2) plan_keys_def removed_def)
  have dom3: "dom (map_of d) = (set ?keys - removed) \<union> set added" "distinct added" "set added \<inter> (set ?keys - removed) = {}"
    using d3 dom2 by (simp_all add: added_def)
  have in_d: "map_of d k \<noteq> None \<longleftrightarrow> k \<in> dom (map_of d)" for k by (simp add: domIff)
  have keys: "keys = filter (\<lambda>k. k \<notin> removed \<or> k \<in> set added) ?keys @ added"
    unfolding keys_def in_d dom3(1) by (auto intro: filter_cong)
  have lookup: "pn_key (the (map_of d k)) = k" "?P (the (map_of d k))" if "k \<in> set keys" for k
  proof -
    have "k \<in> dom (map_of d)" using that by (auto simp: keys dom3(1))
    then obtain t where "map_of d k = Some t" by blast
    then show "pn_key (the (map_of d k)) = k" "?P (the (map_of d k))"
      using d3 by (simp_all add: dict_ok_def)
  qed
  have qk: "plan_keys q = keys" using lookup(1) by (auto simp: q_def plan_keys_def intro: map_idI)
  have dk: "distinct ?keys" using assms(2) by (simp add: plan_ok_def)
  show pk: "plan_keys p' = filter (\<lambda>k. k \<notin> removed \<or> k \<in> set added) ?keys @ added"
    using all2_keys [OF goal_covered(2) [OF g(2)]] qk keys by (simp add: plan_keys_def)
  show "xp_goal p' = xp_goal p" using goal_covered(1) [OF g(2)] by (simp add: q_def)
  have "removed \<inter> set added \<subseteq> set ?keys"
    using d1 by (auto simp: removed_def plan_keys_def d0(2))
  then show dist: "distinct (plan_keys p') \<longleftrightarrow> removed \<inter> set added = {}"
    unfolding pk using dk dom3(2,3) by auto
  show "plan_ok p'" if "removed \<inter> set added = {}"
  proof (rule covered_plan_ok(1) [OF g(2)])
    show "distinct (plan_keys q)" using dist that pk keys qk by simp
    show "\<forall>t \<in> set (xp_tasks q). set (pn_requires t) \<subseteq> set (plan_keys q)"
      using g(1) by (simp add: plan_keys_def)
    show "\<forall>t \<in> set (xp_tasks q). task_ok (gs_available_tools (xp_goal q)) t"
      using lookup(2) by (auto simp: q_def)
  qed
qed

text \<open>The metadata of a change only shows in the metadata of the plan.\<close>

lemma expected_artifacts_metadata:
  "with_goal_expected_artifacts (p\<lparr>xp_metadata := md\<rparr>) =
     map_sum id (\<lambda>q. q\<lparr>xp_metadata := md\<rparr>) (with_goal_expected_artifacts p)"
  by (cases "tasks_with_goal_expected_artifacts (xp_tasks p) (xp_goal p)")
    (simp_all add: with_goal_expected_artifacts_def)

lemma quality_contract_metadata:
  "with_goal_quality_contract (p\<lparr>xp_metadata := md\<rparr>) =
     map_sum id (\<lambda>q. q\<lparr>xp_metadata := md\<rparr>) (with_goal_quality_contract p)"
  by (auto simp: with_goal_quality_contract_def Let_def raise_when_def split: option.splits)

lemma goal_steps_metadata:
  "and_then (with_goal_expected_artifacts (p\<lparr>xp_metadata := md\<rparr>)) with_goal_quality_contract =
     map_sum id (\<lambda>q. q\<lparr>xp_metadata := md\<rparr>)
       (and_then (with_goal_expected_artifacts p) with_goal_quality_contract)"
  unfolding expected_artifacts_metadata
  by (cases "with_goal_expected_artifacts p") (simp_all add: quality_contract_metadata)

lemma apply_delta_metadata:
  assumes "apply_delta p delta = Inr q"
  shows "\<exists>q'. apply_delta p (delta\<lparr>pd_metadata := md\<rparr>) = Inr q'"
proof -
  obtain d1 d2 d keys where d: "fold_err remove_task (pd_remove_task_keys delta) (tasks_by_key (xp_tasks p)) = Inr d1"
      "fold_err update_task (pd_update_tasks delta) d1 = Inr d2" "fold_err add_task (pd_add_tasks delta) d2 = Inr d"
    and k: "keys = filter (\<lambda>k. map_of d k \<noteq> None) (map pn_key (xp_tasks p)) @ map pn_key (pd_add_tasks delta)"
    using assms by (auto simp: apply_delta_def)
  define ts where "ts = map (\<lambda>k. the (map_of d k)) keys"
  have g: "validate_requires ts = Inr ()" "and_then (with_goal_expected_artifacts
      (p\<lparr>xp_tasks := ts, xp_metadata := delta_metadata delta (xp_metadata p)\<rparr>)) with_goal_quality_contract = Inr q"
    using assms d by (auto simp: apply_delta_def ts_def k Let_def)
  have m: "and_then (with_goal_expected_artifacts (p\<lparr>xp_tasks := ts, xp_metadata := m\<rparr>)) with_goal_quality_contract =
      Inr (q\<lparr>xp_metadata := m\<rparr>)" for m
    using goal_steps_metadata [where md = m and p = "p\<lparr>xp_tasks := ts, xp_metadata := delta_metadata delta (xp_metadata p)\<rparr>"]
    unfolding g(2) by simp
  have fields: "pd_remove_task_keys (delta\<lparr>pd_metadata := md\<rparr>) = pd_remove_task_keys delta"
      "pd_update_tasks (delta\<lparr>pd_metadata := md\<rparr>) = pd_update_tasks delta"
      "pd_add_tasks (delta\<lparr>pd_metadata := md\<rparr>) = pd_add_tasks delta" by simp_all
  have "apply_delta p (delta\<lparr>pd_metadata := md\<rparr>) = and_then (validate_requires ts) (\<lambda>_.
      and_then (with_goal_expected_artifacts (p\<lparr>xp_tasks := ts,
        xp_metadata := delta_metadata (delta\<lparr>pd_metadata := md\<rparr>) (xp_metadata p)\<rparr>)) with_goal_quality_contract)"
    by (simp only: apply_delta_def fields d and_then_simps Let_def ts_def k)
  then show ?thesis unfolding g(1) and_then_simps m by blast
qed

end
