(* ===== verification/Plan_Payload.thy ===== *)
theory Plan_Payload
  imports Plan_Facts Team_Executor
begin

text \<open>
  \<^verbatim>\<open>orchestration/planning_payloads.py\<close>: from the JSON text of a planner to a plan or a change
  of one. What \<^verbatim>\<open>json\<close> and Pydantic read is in \<open>plan_reader\<close>: the value of a text, the value
  that the text begins with, and the fields of an agent or a team, whose validators are run here.
\<close>

record plan_reader =
  rd_loads :: "string \<Rightarrow> json option"
  rd_raw_decode :: "string \<Rightarrow> json option"
  rd_repr :: "json \<Rightarrow> string"
  rd_agent :: "json \<Rightarrow> agent_spec option"
  rd_team :: "json \<Rightarrow> team_spec option"

section \<open>JSON text\<close>

fun embedded_json_object :: "(string \<Rightarrow> json option) \<Rightarrow> string \<Rightarrow> pydict option" where
  "embedded_json_object raw_decode [] = None"
| "embedded_json_object raw_decode (c # cs) =
     (if c \<noteq> CHR 0x7B then embedded_json_object raw_decode cs
      else case Option.bind (raw_decode (c # cs)) json_obj of
        Some d \<Rightarrow> Some d
      | None \<Rightarrow> embedded_json_object raw_decode cs)"

definition strict_json_object :: "plan_reader \<Rightarrow> string \<Rightarrow> exn + pydict" where
  "strict_json_object rd content =
     (let text = py_strip content in
      and_then (raise_when (text = []) ValueError) (\<lambda>_.
      case rd_loads rd text of
        Some v \<Rightarrow> (case json_obj v of None \<Rightarrow> Inl ValueError | Some d \<Rightarrow> Inr d)
      | None \<Rightarrow> (case embedded_json_object (rd_raw_decode rd) text of None \<Rightarrow> Inl ValueError | Some d \<Rightarrow> Inr d)))"

definition PLANNER_REPAIR_MAX_CHARS :: nat where
  "PLANNER_REPAIR_MAX_CHARS = 12000"

definition truncate_planner_response :: "string \<Rightarrow> string" where
  "truncate_planner_response content =
     (if length content \<le> PLANNER_REPAIR_MAX_CHARS then content
      else take PLANNER_REPAIR_MAX_CHARS content @ CHR 0x0A # ''...[truncated]'')"

section \<open>Fields\<close>

text \<open>\<^verbatim>\<open>a or b\<close> on values.\<close>

definition py_or :: "json \<Rightarrow> json \<Rightarrow> json" where
  "py_or a b = (if json_truth a then a else b)"

fun payload_strings :: "(json \<Rightarrow> string) \<Rightarrow> json \<Rightarrow> exn + string list" where
  "payload_strings repr_of JNull = Inr []"
| "payload_strings repr_of (JStr s) = Inr [s]"
| "payload_strings repr_of (JList vs) = Inr (map (py_str repr_of) vs)"
| "payload_strings repr_of _ = Inl ValueError"

definition obj_or_empty :: "json \<Rightarrow> pydict" where
  "obj_or_empty v = (case json_obj v of None \<Rightarrow> [] | Some d \<Rightarrow> d)"

definition is_alnum :: "char \<Rightarrow> bool" where
  "is_alnum c \<longleftrightarrow> (let n = of_char c :: nat in
     (48 \<le> n \<and> n \<le> 57) \<or> (65 \<le> n \<and> n \<le> 90) \<or> (97 \<le> n \<and> n \<le> 122))"

text \<open>\<^verbatim>\<open>re.findall(r"[A-Za-z0-9]+", text)\<close>.\<close>

function alnum_words :: "string \<Rightarrow> string list" where
  "alnum_words s =
     (case dropWhile (\<lambda>c. \<not> is_alnum c) s of
        [] \<Rightarrow> []
      | c # cs \<Rightarrow> takeWhile is_alnum (c # cs) # alnum_words (dropWhile is_alnum cs))"
  by pat_completeness auto
termination
proof (relation "measure length")
  fix s c :: string and x :: char and xs
  assume "dropWhile (\<lambda>c. \<not> is_alnum c) s = x # xs"
  then have "length (x # xs) \<le> length s" by (metis length_dropWhile_le)
  then show "(dropWhile is_alnum xs, s) \<in> measure length"
    using length_dropWhile_le [of is_alnum xs] by simp
qed simp

definition plan_name :: "string \<Rightarrow> string \<Rightarrow> string" where
  "plan_name objective fresh =
     (let slug = py_join ''-'' (take 6 (alnum_words (py_lower objective))) in
      ''goal-'' @ (if slug = [] then ''goal'' else slug) @ ''-'' @ take 8 fresh)"

section \<open>Agents and teams\<close>

text \<open>Every \<^verbatim>\<open>ValidationError\<close> is reported as a \<^verbatim>\<open>ValueError\<close> about the task.\<close>

definition agent_from_payload :: "plan_reader \<Rightarrow> json \<Rightarrow> exn + agent_spec option" where
  "agent_from_payload rd raw =
     (if raw = JNull then Inr None
      else case rd_agent rd raw of
        None \<Rightarrow> Inl ValueError
      | Some a \<Rightarrow> (case make_agent_spec a of Inl _ \<Rightarrow> Inl ValueError | Inr a1 \<Rightarrow> Inr (Some a1)))"

fun make_members :: "agent_spec list \<Rightarrow> exn + agent_spec list" where
  "make_members [] = Inr []"
| "make_members (a # as) = and_then (make_agent_spec a) (\<lambda>b. and_then (make_members as) (\<lambda>bs. Inr (b # bs)))"

definition make_team :: "team_spec \<Rightarrow> exn + team_spec" where
  "make_team t =
     and_then (make_members (ts_members t)) (\<lambda>ms.
     and_then (make_protocol (ts_protocol t)) (\<lambda>p.
     and_then (case ts_workspace t of None \<Rightarrow> Inr None
        | Some w \<Rightarrow> map_sum id Some (make_shared_workspace w)) (\<lambda>w.
     make_team_spec (t\<lparr>ts_members := ms, ts_protocol := p, ts_workspace := w\<rparr>))))"

definition team_from_payload :: "plan_reader \<Rightarrow> json \<Rightarrow> exn + team_spec option" where
  "team_from_payload rd raw =
     (if raw = JNull then Inr None
      else case rd_team rd raw of
        None \<Rightarrow> Inl ValueError
      | Some t \<Rightarrow> (case make_team t of Inl _ \<Rightarrow> Inl ValueError | Inr t1 \<Rightarrow> Inr (Some t1)))"

section \<open>Tasks\<close>

definition validate_tool_scope :: "string list \<Rightarrow> string list \<Rightarrow> exn + unit" where
  "validate_tool_scope tools available = raise_when (\<not> set tools \<subseteq> set available) ValueError"

definition contract_from_payload :: "plan_reader \<Rightarrow> goal_spec \<Rightarrow> pydict \<Rightarrow> exn + task_contract" where
  "contract_from_payload rd g raw =
     (let payload = obj_or_empty (dict_get raw ''contract'');
          field = (\<lambda>k. payload_strings (rd_repr rd) (py_or (dict_get payload k) (dict_get raw k))) in
      and_then (field ''acceptance_criteria'') (\<lambda>acceptance.
      and_then (field ''expected_artifacts'') (\<lambda>artifacts.
      and_then (field ''negative_cases'') (\<lambda>negative.
      and_then (field ''verifier_refs'') (\<lambda>refs.
      Inr \<lparr>tk_objective = py_str (rd_repr rd)
             (py_or (dict_get payload ''objective'') (py_or (dict_get raw ''objective'')
               (py_or (dict_get raw ''description'') (JStr (gs_objective g))))),
           tk_acceptance_criteria = acceptance, tk_expected_artifacts = artifacts,
           tk_negative_cases = negative, tk_verifier_refs = refs,
           tk_metadata = obj_or_empty (dict_get payload ''metadata''),
           tk_quality_contract = None\<rparr>)))))"

definition task_from_payload :: "plan_reader \<Rightarrow> goal_spec \<Rightarrow> json \<Rightarrow> exn + plan_task" where
  "task_from_payload rd g item =
     (case json_obj item of
        None \<Rightarrow> Inl ValueError
      | Some raw \<Rightarrow>
          let text = (\<lambda>k default. py_str (rd_repr rd) (py_or (dict_get raw k) (JStr default)));
              key = py_strip (text ''key'' []) in
          and_then (raise_when (key = []) ValueError) (\<lambda>_.
          and_then (payload_strings (rd_repr rd) (dict_get raw ''tools'')) (\<lambda>tools.
          and_then (validate_tool_scope tools (gs_available_tools g)) (\<lambda>_.
          and_then (contract_from_payload rd g raw) (\<lambda>contract.
          and_then (agent_from_payload rd (dict_get raw ''agent'')) (\<lambda>agent.
          and_then (team_from_payload rd (dict_get raw ''team'')) (\<lambda>team.
          and_then (payload_strings (rd_repr rd) (dict_get raw ''requires'')) (\<lambda>requirements.
          make_plan_task
            \<lparr>pn_key = key, pn_role = text ''role'' ''executor'',
             pn_description = text ''description'' (tk_objective contract),
             pn_agent = agent, pn_team = team, pn_requires = requirements, pn_contract = contract,
             pn_tools = tools, pn_execution_mode = text ''execution_mode'' ''direct'',
             pn_config = obj_or_empty (dict_get raw ''config'')\<rparr>))))))))"

fun tasks_from_items :: "plan_reader \<Rightarrow> goal_spec \<Rightarrow> json list \<Rightarrow> exn + plan_task list" where
  "tasks_from_items rd g [] = Inr []"
| "tasks_from_items rd g (v # vs) =
     and_then (task_from_payload rd g v) (\<lambda>t. and_then (tasks_from_items rd g vs) (\<lambda>ts. Inr (t # ts)))"

definition task_list_from_payload :: "plan_reader \<Rightarrow> goal_spec \<Rightarrow> json \<Rightarrow> exn + plan_task list" where
  "task_list_from_payload rd g raw =
     (if raw = JNull then Inr []
      else case json_list raw of None \<Rightarrow> Inl ValueError | Some vs \<Rightarrow> tasks_from_items rd g vs)"

definition validate_unique_keys :: "plan_task list \<Rightarrow> exn + unit" where
  "validate_unique_keys tasks = raise_when (\<not> distinct (map pn_key tasks)) ValueError"

section \<open>Plans and changes\<close>

definition execution_plan_from_payload :: "plan_reader \<Rightarrow> string \<Rightarrow> pydict \<Rightarrow> goal_spec \<Rightarrow> exn + execution_plan" where
  "execution_plan_from_payload rd fresh payload g =
     (case json_list (dict_get payload ''tasks'') of
        None \<Rightarrow> Inl ValueError
      | Some vs \<Rightarrow>
          and_then (raise_when (vs = []) ValueError) (\<lambda>_.
          and_then (tasks_from_items rd g vs) (\<lambda>tasks.
          and_then (validate_unique_keys tasks) (\<lambda>_.
          and_then (validate_requires tasks) (\<lambda>_.
          and_then (with_goal_expected_artifacts
            \<lparr>xp_name = py_str (rd_repr rd) (py_or (dict_get payload ''name'')
               (JStr (plan_name (gs_objective g) fresh))),
             xp_goal = g, xp_tasks = tasks, xp_version = ''1'',
             xp_rationale = py_str (rd_repr rd) (py_or (dict_get payload ''rationale'') (JStr ''model planner'')),
             xp_metadata = [(''planner'', JStr ''model'')]\<rparr>)
            with_goal_quality_contract)))))"

definition plan_delta_from_payload :: "plan_reader \<Rightarrow> pydict \<Rightarrow> goal_spec \<Rightarrow> string list \<Rightarrow> exn + plan_delta" where
  "plan_delta_from_payload rd payload g feedback =
     and_then (task_list_from_payload rd g (dict_get payload ''add_tasks'')) (\<lambda>added.
     and_then (task_list_from_payload rd g (dict_get payload ''update_tasks'')) (\<lambda>updated.
     and_then (payload_strings (rd_repr rd) (dict_get payload ''remove_task_keys'')) (\<lambda>removed.
     and_then (payload_strings (rd_repr rd) (dict_get payload ''feedback_refs'')) (\<lambda>refs.
     Inr \<lparr>pd_add_tasks = added, pd_remove_task_keys = removed, pd_update_tasks = updated,
          pd_rationale = py_str (rd_repr rd) (py_or (dict_get payload ''rationale'') (JStr ''model planner delta'')),
          pd_feedback_refs = (if refs \<noteq> [] then refs else feedback), pd_metadata = []\<rparr>))))"

section \<open>What is read is well formed\<close>

lemma task_from_payload_ok:
  "task_from_payload rd g v = Inr t \<Longrightarrow> task_ok (gs_available_tools g) t \<and> pn_key t \<noteq> []"
  by (auto simp: task_from_payload_def validate_tool_scope_def Let_def dest!: make_plan_task_ok
      split: option.splits)

lemma tasks_from_items_ok:
  "tasks_from_items rd g vs = Inr ts \<Longrightarrow>
   length ts = length vs \<and> (\<forall>t \<in> set ts. task_ok (gs_available_tools g) t \<and> pn_key t \<noteq> [])"
  by (induction vs arbitrary: ts) (auto dest: task_from_payload_ok)

lemma task_list_ok:
  "task_list_from_payload rd g v = Inr ts \<Longrightarrow> \<forall>t \<in> set ts. task_ok (gs_available_tools g) t \<and> pn_key t \<noteq> []"
  by (auto simp: task_list_from_payload_def dest: tasks_from_items_ok split: if_splits option.splits)

lemma delta_from_payload_ok:
  "plan_delta_from_payload rd payload g feedback = Inr delta \<Longrightarrow> delta_ok g delta"
  by (auto simp: plan_delta_from_payload_def delta_ok_def dest!: task_list_ok)

lemma plan_from_payload_ok:
  assumes "execution_plan_from_payload rd fresh payload g = Inr p"
  shows "plan_ok p" "xp_goal p = g" "xp_tasks p \<noteq> []" "[] \<notin> set (plan_keys p)"
proof -
  obtain vs tasks nm ra q where t: "vs \<noteq> []" "tasks_from_items rd g vs = Inr tasks" "distinct (map pn_key tasks)"
      "\<forall>t \<in> set tasks. set (pn_requires t) \<subseteq> pn_key ` set tasks"
      "with_goal_expected_artifacts
        \<lparr>xp_name = nm, xp_goal = g, xp_tasks = tasks, xp_version = ''1'', xp_rationale = ra,
          xp_metadata = [(''planner'', JStr ''model'')]\<rparr> = Inr q" "with_goal_quality_contract q = Inr p"
    using assms by (auto simp: execution_plan_from_payload_def validate_unique_keys_def split: option.splits)
  note ok = tasks_from_items_ok [OF t(2)]
  let ?p = "\<lparr>xp_name = nm, xp_goal = g, xp_tasks = tasks, xp_version = ''1'', xp_rationale = ra,
    xp_metadata = [(''planner'', JStr ''model'')]\<rparr>"
  have e: "and_then (with_goal_expected_artifacts ?p) with_goal_quality_contract = Inr p"
    using t(5,6) by simp
  have d: "distinct (plan_keys ?p)" "\<forall>t \<in> set (xp_tasks ?p). set (pn_requires t) \<subseteq> set (plan_keys ?p)"
    "\<forall>t \<in> set (xp_tasks ?p). task_ok (gs_available_tools (xp_goal ?p)) t"
    using t(3,4) ok by (simp_all add: plan_keys_def)
  note c = covered_plan_ok [OF e d]
  have k: "plan_keys p = map pn_key tasks" using c(2) by (simp add: plan_keys_def)
  show "plan_ok p" by (rule c(1))
  show "xp_goal p = g" using c(3) by simp
  show "xp_tasks p \<noteq> []" using k ok t(1) by (auto simp: plan_keys_def)
  show "[] \<notin> set (plan_keys p)" unfolding k using ok by auto
qed

end
