(* ===== verification/Goal_Planner.thy ===== *)
theory Goal_Planner
  imports Plan_Payload Prompt_Context Episode_Types
begin

text \<open>
  \<^verbatim>\<open>orchestration/planning.py\<close>, \<^verbatim>\<open>planning_invocation.py\<close>,
  \<^verbatim>\<open>planning_diagnostics.py\<close> and the prompts of \<^verbatim>\<open>builtin_prompts/planner.py\<close>: the planner
  that asks a model for a plan. A call of the model is retried when it raises, an answer that is
  not JSON is sent back once, and an answer that is no plan is sent back once. The text of an
  exception is \<open>pl_reason\<close>; waiting between retries has no effect.
\<close>

section \<open>Diagnostics\<close>

record planner_diagnostics =
  dg_planner :: string
  dg_operation :: string
  dg_status :: string
  dg_invoke_attempts :: nat
  dg_retry_count :: nat
  dg_repair_count :: nat
  dg_max_invoke_retries :: nat
  dg_max_json_repairs :: nat
  dg_phases :: "string list"

definition append_diagnostic_phase :: "string \<Rightarrow> planner_diagnostics \<Rightarrow> planner_diagnostics" where
  "append_diagnostic_phase phase d =
     (if phase \<in> set (dg_phases d) then d else d\<lparr>dg_phases := dg_phases d @ [phase]\<rparr>)"

definition finished_diagnostics :: "planner_diagnostics \<Rightarrow> pydict" where
  "finished_diagnostics d =
     [(''planner'', JStr (if dg_planner d = [] then ''ModelGoalPlanner'' else dg_planner d)),
      (''operation'', JStr (dg_operation d)),
      (''status'', JStr (if dg_status d = [] then ''succeeded'' else dg_status d)),
      (''invoke_attempts'', JInt (int (dg_invoke_attempts d))),
      (''retry_count'', JInt (int (dg_retry_count d))),
      (''repair_count'', JInt (int (dg_repair_count d))),
      (''max_invoke_retries'', JInt (int (dg_max_invoke_retries d))),
      (''max_json_repairs'', JInt (int (dg_max_json_repairs d))),
      (''phases'', JList (map JStr (dg_phases d)))]"

definition with_planner_diagnostics :: "planner_diagnostics \<Rightarrow> execution_plan \<Rightarrow> execution_plan" where
  "with_planner_diagnostics d p =
     p\<lparr>xp_metadata := AList.update ''planner_diagnostics'' (JObj (finished_diagnostics d)) (xp_metadata p)\<rparr>"

definition with_delta_diagnostics :: "planner_diagnostics \<Rightarrow> plan_delta \<Rightarrow> plan_delta" where
  "with_delta_diagnostics d delta =
     delta\<lparr>pd_metadata := AList.update ''planner_diagnostics'' (JObj (finished_diagnostics d)) (pd_metadata delta)\<rparr>"

section \<open>The planner\<close>

record model_planner =
  pl_runtime :: agent_runtime
  pl_role :: string
  pl_max_json_repairs :: nat
  pl_max_invoke_retries :: nat
  pl_retriever :: "(memory_request \<Rightarrow> memory_context svc) option"
  pl_reader :: plan_reader
  pl_codec :: plan_codec
  pl_dumps :: "json \<Rightarrow> string"
  pl_reason :: "exn \<Rightarrow> string"

definition make_model_planner :: "int \<Rightarrow> int \<Rightarrow> rat \<Rightarrow> model_planner \<Rightarrow> exn + model_planner" where
  "make_model_planner max_json_repairs max_invoke_retries retry_backoff_seconds pl =
     and_then (raise_when (max_json_repairs < 0) ValueError) (\<lambda>_.
     and_then (raise_when (max_invoke_retries < 0) ValueError) (\<lambda>_.
     and_then (raise_when (retry_backoff_seconds < 0) ValueError) (\<lambda>_.
     Inr (pl\<lparr>pl_max_json_repairs := nat max_json_repairs, pl_max_invoke_retries := nat max_invoke_retries\<rparr>))))"

definition planner_diagnostics_for :: "model_planner \<Rightarrow> string \<Rightarrow> planner_diagnostics" where
  "planner_diagnostics_for pl operation =
     \<lparr>dg_planner = ''ModelGoalPlanner'', dg_operation = operation, dg_status = ''succeeded'',
      dg_invoke_attempts = 0, dg_retry_count = 0, dg_repair_count = 0,
      dg_max_invoke_retries = pl_max_invoke_retries pl, dg_max_json_repairs = pl_max_json_repairs pl,
      dg_phases = []\<rparr>"

section \<open>Prompts\<close>

definition advertised :: "string list \<Rightarrow> string" where
  "advertised values = py_join ''|'' (sort values)"

definition advertised_modes :: string where
  "advertised_modes = advertised (map mode_value
     (filter (\<lambda>m. m \<in> EXECUTED_MODES) [Mode_TEAM, Mode_DELEGATION, Mode_DEBATE, Mode_VOTE]))"

definition advertised_topologies :: string where
  "advertised_topologies = advertised (map topology_value
     (filter (\<lambda>t. t \<in> EXECUTED_TOPOLOGIES) [Topology_BROADCAST, Topology_COORDINATOR, Topology_PIPELINE]))"

definition advertised_protocol_pairs :: string where
  "advertised_protocol_pairs = advertised (map (\<lambda>(m, t). mode_value m @ ''/'' @ topology_value t)
     (filter (\<lambda>p. p \<in> EXECUTED_MODE_TOPOLOGY_PAIRS)
       (List.product [Mode_TEAM, Mode_DELEGATION, Mode_DEBATE, Mode_VOTE]
         [Topology_BROADCAST, Topology_COORDINATOR, Topology_PIPELINE])))"

definition PLANNER_SYSTEM :: string where
  "PLANNER_SYSTEM =
     ''Plan HydraMind goal execution. Return only a JSON object. '' @
     ''Use only tools listed by the user. Use task keys that are stable, lowercase, '' @
     ''and dependency-safe. Leave expected_artifacts empty unless the goal explicitly '' @
     ''requires a file or artifact output. Treat required_tools as mandatory: assign '' @
     ''each required tool to executable task work, and when feedback names a missing '' @
     ''required tool, add or update task work for that tool without repeating completed '' @
     ''required tools unless feedback asks for a retry. When emitting a team protocol, '' @
     ''vote mode requires broadcast topology, vote aggregation, and majority '' @
     ''arbitration; vote aggregation is only valid for vote mode; coordinator_summary '' @
     ''requires coordinator topology and coordinator_id; delegation requires coordinator '' @
     ''topology and coordinator_id. '' @
     ''Supported mode/topology pairs: '' @ advertised_protocol_pairs @ ''.''"

definition member_shape :: "string \<Rightarrow> string \<Rightarrow> json" where
  "member_shape i role = JObj [(''id'', JStr i), (''role'', JStr role), (''description'', JStr ''string''),
     (''tools'', JList [JStr ''tool.name''])]"

definition initial_plan_shape :: json where
  "initial_plan_shape = JObj
     [(''name'', JStr ''string''), (''rationale'', JStr ''string''),
      (''tasks'', JList [JObj
        [(''key'', JStr ''string''), (''role'', JStr ''planner|researcher|executor|reviewer|writer''),
         (''description'', JStr ''string''), (''agent'', member_shape ''stable_agent_id'' ''agent_role''),
         (''team'', JObj
           [(''id'', JStr ''stable_team_id''),
            (''members'', JList [member_shape ''stable_member_id'' ''member_role'']),
            (''protocol'', JObj
              [(''mode'', JStr advertised_modes), (''topology'', JStr advertised_topologies),
               (''aggregation'', JStr (advertised [''collect'', ''coordinator_summary'', ''vote''])),
               (''arbitration'', JStr (advertised [''coordinator'', ''majority'', ''none''])),
               (''coordinator_id'', JStr ''stable_member_id'')])]),
         (''requires'', JList [JStr ''prior_task_key'']), (''tools'', JList [JStr ''tool.name'']),
         (''execution_mode'', JStr (advertised (map execution_mode_value execution_modes))),
         (''acceptance_criteria'', JList [JStr ''criterion'']),
         (''expected_artifacts'', JList [JStr ''artifact/path'']),
         (''negative_cases'', JList [JStr ''case'']), (''verifier_refs'', JList [JStr ''verifier'']),
         (''config'', JObj [])]])]"

definition plan_delta_shape :: json where
  "plan_delta_shape = JObj
     [(''rationale'', JStr ''string''), (''feedback_refs'', JList [JStr ''feedback item or evidence ref'']),
      (''add_tasks'', JList []), (''update_tasks'', JList []), (''remove_task_keys'', JList [])]"

definition memory_payload :: "memory_context option \<Rightarrow> pydict" where
  "memory_payload m = (case m of None \<Rightarrow> [] | Some c \<Rightarrow> [(''memory_context'', JObj (as_prompt_payload c))])"

definition render_initial_plan_prompt :: "model_planner \<Rightarrow> goal_spec \<Rightarrow> memory_context option \<Rightarrow> string" where
  "render_initial_plan_prompt pl g m = pl_dumps pl (JObj
     ([(''request'', JStr ''initial_plan''), (''goal'', pc_goal_json (pl_codec pl) g),
       (''required_response_shape'', initial_plan_shape)] @ memory_payload m))"

definition render_revise_plan_prompt ::
    "model_planner \<Rightarrow> goal_spec \<Rightarrow> execution_plan \<Rightarrow> string list \<Rightarrow> memory_context option \<Rightarrow> string" where
  "render_revise_plan_prompt pl g p feedback m = pl_dumps pl (JObj
     ([(''request'', JStr ''revise_plan''), (''goal'', pc_goal_json (pl_codec pl) g),
       (''current_plan'', pc_plan_json (pl_codec pl) p), (''feedback'', JList (map JStr feedback)),
       (''required_response_shape'', plan_delta_shape)] @ memory_payload m))"

text \<open>The prompt that is repaired was made by \<^verbatim>\<open>json.dumps\<close> and is read again.\<close>

definition render_planner_json_repair_prompt ::
    "model_planner \<Rightarrow> string \<Rightarrow> string \<Rightarrow> string \<Rightarrow> exn + string" where
  "render_planner_json_repair_prompt pl original_prompt invalid_response reason =
     (case rd_loads (pl_reader pl) original_prompt of
        None \<Rightarrow> Inl ValueError
      | Some original \<Rightarrow> Inr (pl_dumps pl (JObj
          [(''request'', JStr ''planner_json_repair''),
           (''instruction'', JStr (
              ''Convert the invalid planner response into one valid JSON '' @
              ''object that satisfies original_request.required_response_shape. '' @
              ''Return only the JSON object.'')),
           (''original_request'', original),
           (''invalid_response'', JStr (truncate_planner_response invalid_response)),
           (''validation_error'', JStr reason)])))"

section \<open>Calls of the model\<close>

definition is_value_error :: "exn \<Rightarrow> bool" where
  "is_value_error e \<longleftrightarrow> (case e of
     ValueError \<Rightarrow> True | ValidationError \<Rightarrow> True | UnexecutedProtocolError _ \<Rightarrow> True
   | GraphCycleError _ \<Rightarrow> True | _ \<Rightarrow> False)"

text \<open>\<^verbatim>\<open>except ValueError as e\<close>.\<close>

definition on_value_error :: "(exn + 'a) \<Rightarrow> (exn \<Rightarrow> 'b svc) \<Rightarrow> ('a \<Rightarrow> 'b svc) \<Rightarrow> 'b svc" where
  "on_value_error r handler f =
     (case r of Inr x \<Rightarrow> f x | Inl e \<Rightarrow> if is_value_error e then handler e else svc_lift (Inl e))"

definition counted_attempt :: "string \<Rightarrow> planner_diagnostics \<Rightarrow> planner_diagnostics" where
  "counted_attempt phase d =
     append_diagnostic_phase phase (d\<lparr>dg_invoke_attempts := dg_invoke_attempts d + 1\<rparr>)"

text \<open>The attempts that are left after the current one.\<close>

fun invoke_provider ::
    "model_planner \<Rightarrow> nat \<Rightarrow> string \<Rightarrow> string \<Rightarrow> planner_diagnostics \<Rightarrow> (invocation_result \<times> planner_diagnostics) svc" where
  "invoke_provider pl 0 prompt phase d =
     svc_bind (complete_model (pl_runtime pl) [harness_message_of Harness_USER prompt] PLANNER_SYSTEM None (pl_role pl))
       (\<lambda>r. svc_return (r, counted_attempt phase d))"
| "invoke_provider pl (Suc left) prompt phase d =
     svc_try
       (svc_bind (complete_model (pl_runtime pl) [harness_message_of Harness_USER prompt] PLANNER_SYSTEM None (pl_role pl))
         (\<lambda>r. svc_return (r, counted_attempt phase d)))
       (\<lambda>_. let d1 = counted_attempt phase d in
         invoke_provider pl left prompt phase (d1\<lparr>dg_retry_count := dg_retry_count d1 + 1\<rparr>))"

definition repair_planner_json ::
    "model_planner \<Rightarrow> string \<Rightarrow> string \<Rightarrow> string \<Rightarrow> string \<Rightarrow> planner_diagnostics \<Rightarrow>
     (pydict \<times> planner_diagnostics) svc" where
  "repair_planner_json pl prompt invalid_response reason phase d =
     (if pl_max_json_repairs pl = 0 then svc_lift (Inl ValueError)
      else
        svc_bind (svc_lift (render_planner_json_repair_prompt pl prompt invalid_response reason)) (\<lambda>repair.
        svc_bind (invoke_provider pl (pl_max_invoke_retries pl) repair phase
            (d\<lparr>dg_repair_count := dg_repair_count d + 1\<rparr>)) (\<lambda>(r, d1).
        svc_bind (svc_lift (strict_json_object (pl_reader pl) (iv_content r))) (\<lambda>payload.
        svc_return (payload, d1)))))"

definition invoke_planner_json ::
    "model_planner \<Rightarrow> string \<Rightarrow> string \<Rightarrow> planner_diagnostics \<Rightarrow> (pydict \<times> planner_diagnostics) svc" where
  "invoke_planner_json pl prompt phase d =
     svc_bind (invoke_provider pl (pl_max_invoke_retries pl) prompt phase d) (\<lambda>(r, d1).
     on_value_error (strict_json_object (pl_reader pl) (iv_content r))
       (\<lambda>e. if pl_max_json_repairs pl = 0 then svc_lift (Inl e)
            else repair_planner_json pl prompt (iv_content r) (pl_reason pl e) ''json_repair'' d1)
       (\<lambda>payload. svc_return (payload, d1)))"

section \<open>Plans and revisions\<close>

definition planner_memory ::
    "model_planner \<Rightarrow> goal_spec \<Rightarrow> string \<Rightarrow> execution_plan option \<Rightarrow> string list \<Rightarrow> memory_context option svc" where
  "planner_memory pl g purpose current feedback =
     (case (pl_retriever pl, gs_memory_context g) of
        (Some retrieve, Some policy) \<Rightarrow>
          if \<not> mp_enabled policy then svc_return None
          else svc_bind (retrieve \<lparr>mr_policy = policy, mr_purpose = purpose,
              mr_workflow_name = map_option xp_name current, mr_session_id = None, mr_node_key = None,
              mr_goal_objective = Some (gs_objective g), mr_current_plan_name = map_option xp_name current,
              mr_feedback_refs = feedback\<rparr>) (\<lambda>m. svc_return (Some m))
      | _ \<Rightarrow> svc_return None)"

text \<open>
  What both operations share: ask, read the answer as \<open>accept\<close>, and have the model repair an answer
  that is not accepted. A second answer that is not accepted is a \<^verbatim>\<open>ValueError\<close>.
\<close>

definition planned ::
    "model_planner \<Rightarrow> string \<Rightarrow> string \<Rightarrow> planner_diagnostics \<Rightarrow> (pydict \<Rightarrow> (exn + 'a) svc) \<Rightarrow>
     (planner_diagnostics \<Rightarrow> 'a \<Rightarrow> 'a) \<Rightarrow> 'a svc" where
  "planned pl prompt phase d accept finish =
     svc_bind (invoke_planner_json pl prompt phase d) (\<lambda>(payload, d1).
     svc_bind (accept payload) (\<lambda>first.
     on_value_error first
       (\<lambda>e. svc_bind (repair_planner_json pl prompt (pl_dumps pl (JObj payload)) (pl_reason pl e)
              ''semantic_repair'' d1) (\<lambda>(repaired, d2).
            svc_bind (accept repaired) (\<lambda>second.
            on_value_error second (\<lambda>_. svc_lift (Inl ValueError)) (\<lambda>x. svc_return (finish d2 x)))))
       (\<lambda>x. svc_return (finish d1 x))))"

definition initial_plan :: "model_planner \<Rightarrow> goal_spec \<Rightarrow> execution_plan svc" where
  "initial_plan pl g =
     svc_bind (planner_memory pl g ''planner.initial_plan'' None []) (\<lambda>m.
     planned pl (render_initial_plan_prompt pl g m) ''initial'' (planner_diagnostics_for pl ''initial_plan'')
       (\<lambda>payload. svc_bind svc_env (\<lambda>e.
          svc_return (execution_plan_from_payload (pl_reader pl) (ev_id e 0) payload g)))
       with_planner_diagnostics)"

definition revise_plan :: "model_planner \<Rightarrow> goal_spec \<Rightarrow> execution_plan \<Rightarrow> string list \<Rightarrow> plan_delta svc" where
  "revise_plan pl g current feedback =
     svc_bind (planner_memory pl g ''planner.revise_plan'' (Some current) feedback) (\<lambda>m.
     planned pl (render_revise_plan_prompt pl g current feedback m) ''revise''
       (planner_diagnostics_for pl ''revise_plan'')
       (\<lambda>payload. svc_return
          (and_then (plan_delta_from_payload (pl_reader pl) payload g feedback) (\<lambda>delta.
           and_then (apply_delta current delta) (\<lambda>_. Inr delta))))
       with_delta_diagnostics)"

section \<open>How much a planner asks\<close>

lemma counted_attempt_simps [simp]:
  "dg_invoke_attempts (counted_attempt phase d) = dg_invoke_attempts d + 1"
  "dg_repair_count (counted_attempt phase d) = dg_repair_count d"
  by (simp_all add: counted_attempt_def append_diagnostic_phase_def)

lemma invoke_provider_attempts:
  "invoke_provider pl left prompt phase d w = (Inr (r, d'), w') \<Longrightarrow>
   dg_invoke_attempts d < dg_invoke_attempts d' \<and> dg_invoke_attempts d' \<le> dg_invoke_attempts d + left + 1 \<and>
   dg_repair_count d' = dg_repair_count d"
proof (induction left arbitrary: d w)
  case 0
  then show ?case by (auto simp: svc_bind_Inr svc_return_def)
next
  case (Suc left)
  let ?ask = "complete_model (pl_runtime pl) [harness_message_of Harness_USER prompt] PLANNER_SYSTEM None (pl_role pl)"
  obtain x w1 where a: "?ask w = (x, w1)" by force
  show ?case
  proof (cases x)
    case (Inl e)
    let ?d = "counted_attempt phase d"
    have "invoke_provider pl left prompt phase (?d\<lparr>dg_retry_count := dg_retry_count ?d + 1\<rparr>) w1 = (Inr (r, d'), w')"
      using Suc.prems a Inl by (simp add: svc_try_def svc_bind_def Let_def)
    from Suc.IH [OF this] show ?thesis by simp
  next
    case (Inr y)
    then show ?thesis using Suc.prems a by (auto simp: svc_try_def svc_bind_def svc_return_def)
  qed
qed

definition asked_within :: "model_planner \<Rightarrow> nat \<Rightarrow> planner_diagnostics \<Rightarrow> bool" where
  "asked_within pl repairs d \<longleftrightarrow>
     dg_invoke_attempts d \<le> (1 + dg_repair_count d) * (pl_max_invoke_retries pl + 1) \<and>
     dg_repair_count d \<le> (if pl_max_json_repairs pl = 0 then 0 else repairs)"

lemma repair_asks:
  assumes "repair_planner_json pl prompt bad reason phase d w = (Inr (payload, d'), w')" "asked_within pl n d"
  shows "asked_within pl (Suc n) d'"
proof -
  let ?d = "d\<lparr>dg_repair_count := dg_repair_count d + 1\<rparr>"
  obtain repair r w1 where "pl_max_json_repairs pl \<noteq> 0"
    and i: "invoke_provider pl (pl_max_invoke_retries pl) repair phase ?d w = (Inr (r, d'), w1)"
    using assms(1) by (auto simp: repair_planner_json_def svc_bind_Inr svc_return_def split: if_splits)
  with assms(2) invoke_provider_attempts [OF i] show ?thesis
    by (auto simp: asked_within_def)
qed

lemma invoke_json_asks:
  assumes "invoke_planner_json pl prompt phase (planner_diagnostics_for pl operation) w = (Inr (payload, d), w')"
  shows "asked_within pl 1 d"
proof -
  let ?d = "planner_diagnostics_for pl operation"
  obtain r d1 w1 where i: "invoke_provider pl (pl_max_invoke_retries pl) prompt phase ?d w = (Inr (r, d1), w1)"
    and rest: "on_value_error (strict_json_object (pl_reader pl) (iv_content r))
       (\<lambda>e. if pl_max_json_repairs pl = 0 then svc_lift (Inl e)
            else repair_planner_json pl prompt (iv_content r) (pl_reason pl e) ''json_repair'' d1)
       (\<lambda>payload. svc_return (payload, d1)) w1 = (Inr (payload, d), w')"
    using assms by (auto simp: invoke_planner_json_def svc_bind_Inr)
  have d1: "asked_within pl 0 d1"
    using invoke_provider_attempts [OF i] by (simp add: asked_within_def planner_diagnostics_for_def)
  show ?thesis
  proof (cases "strict_json_object (pl_reader pl) (iv_content r)")
    case (Inl e)
    then have "repair_planner_json pl prompt (iv_content r) (pl_reason pl e) ''json_repair'' d1 w1 = (Inr (payload, d), w')"
      using rest by (auto simp: on_value_error_def split: if_splits)
    then show ?thesis using repair_asks [OF _ d1] by simp
  next
    case (Inr x)
    then have "d = d1" using rest by (simp add: on_value_error_def svc_return_def)
    with d1 show ?thesis by (auto simp: asked_within_def)
  qed
qed

text \<open>What is returned was accepted, with at most two repairs.\<close>

lemma planned_accepted:
  assumes "planned pl prompt phase (planner_diagnostics_for pl operation) accept finish w = (Inr x, w')"
  shows "\<exists>d y payload w1 w2. x = finish d y \<and> accept payload w1 = (Inr (Inr y), w2) \<and> asked_within pl 2 d"
proof -
  obtain payload d1 first w1 w2 where
    j: "invoke_planner_json pl prompt phase (planner_diagnostics_for pl operation) w = (Inr (payload, d1), w1)"
    and a: "accept payload w1 = (Inr first, w2)"
    and rest: "on_value_error first
       (\<lambda>e. svc_bind (repair_planner_json pl prompt (pl_dumps pl (JObj payload)) (pl_reason pl e)
              ''semantic_repair'' d1) (\<lambda>(repaired, d2).
            svc_bind (accept repaired) (\<lambda>second.
            on_value_error second (\<lambda>_. svc_lift (Inl ValueError)) (\<lambda>x. svc_return (finish d2 x)))))
       (\<lambda>x. svc_return (finish d1 x)) w2 = (Inr x, w')"
    using assms unfolding planned_def by (auto simp: svc_bind_Inr)
  note d1 = invoke_json_asks [OF j]
  show ?thesis
  proof (cases first)
    case (Inr y)
    then have "x = finish d1 y" using rest by (simp add: on_value_error_def svc_return_def)
    moreover have "asked_within pl 2 d1" using d1 by (auto simp: asked_within_def)
    ultimately show ?thesis using a Inr by blast
  next
    case (Inl e)
    then have "svc_bind (repair_planner_json pl prompt (pl_dumps pl (JObj payload)) (pl_reason pl e)
              ''semantic_repair'' d1) (\<lambda>(repaired, d2).
            svc_bind (accept repaired) (\<lambda>second.
            on_value_error second (\<lambda>_. svc_lift (Inl ValueError)) (\<lambda>x. svc_return (finish d2 x)))) w2 = (Inr x, w')"
      using rest by (auto simp: on_value_error_def split: if_splits)
    then obtain repaired d2 second w3 w4 where
      r: "repair_planner_json pl prompt (pl_dumps pl (JObj payload)) (pl_reason pl e) ''semantic_repair'' d1 w2 =
          (Inr (repaired, d2), w3)"
      and s: "accept repaired w3 = (Inr second, w4)"
      and o: "on_value_error second (\<lambda>_. svc_lift (Inl ValueError)) (\<lambda>x. svc_return (finish d2 x)) w4 = (Inr x, w')"
      by (auto simp: svc_bind_Inr)
    obtain y where "second = Inr y" "x = finish d2 y"
      using o by (cases second) (auto simp: on_value_error_def svc_return_def split: if_splits)
    moreover have "asked_within pl 2 d2" using repair_asks [OF r d1] by (simp add: numeral_2_eq_2)
    ultimately show ?thesis using s by blast
  qed
qed

lemma initial_plan_facts:
  assumes "initial_plan pl g w = (Inr p, w')"
  shows "plan_ok p" "xp_goal p = g" "xp_tasks p \<noteq> []"
    "\<exists>d. dict_get (xp_metadata p) ''planner_diagnostics'' = JObj (finished_diagnostics d) \<and> asked_within pl 2 d"
proof -
  obtain m w1 where "planned pl (render_initial_plan_prompt pl g m) ''initial'' (planner_diagnostics_for pl ''initial_plan'')
       (\<lambda>payload. svc_bind svc_env (\<lambda>e.
          svc_return (execution_plan_from_payload (pl_reader pl) (ev_id e 0) payload g)))
       with_planner_diagnostics w1 = (Inr p, w')"
    using assms by (auto simp: initial_plan_def svc_bind_Inr)
  from planned_accepted [OF this] obtain d q payload fresh where q: "p = with_planner_diagnostics d q"
      "execution_plan_from_payload (pl_reader pl) fresh payload g = Inr q" "asked_within pl 2 d"
    by (auto simp: svc_bind_Inr svc_return_def)
  note ok = plan_from_payload_ok [OF q(2)]
  show "plan_ok p" "xp_goal p = g" "xp_tasks p \<noteq> []"
    using ok q(1) by (simp_all add: with_planner_diagnostics_def plan_ok_def plan_keys_def artifacts_covered_def
        quality_covered_def)
  show "\<exists>d. dict_get (xp_metadata p) ''planner_diagnostics'' = JObj (finished_diagnostics d) \<and> asked_within pl 2 d"
    using q by (auto simp: with_planner_diagnostics_def dict_get_def)
qed

lemma revise_plan_facts:
  assumes "revise_plan pl g current feedback w = (Inr delta, w')"
  shows "delta_ok g delta" "\<exists>p. apply_delta current delta = Inr p"
    "\<exists>d. dict_get (pd_metadata delta) ''planner_diagnostics'' = JObj (finished_diagnostics d) \<and> asked_within pl 2 d"
proof -
  obtain m w1 where "planned pl (render_revise_plan_prompt pl g current feedback m) ''revise''
       (planner_diagnostics_for pl ''revise_plan'')
       (\<lambda>payload. svc_return
          (and_then (plan_delta_from_payload (pl_reader pl) payload g feedback) (\<lambda>delta.
           and_then (apply_delta current delta) (\<lambda>_. Inr delta))))
       with_delta_diagnostics w1 = (Inr delta, w')"
    using assms by (auto simp: revise_plan_def svc_bind_Inr)
  from planned_accepted [OF this] obtain d e payload p where e: "delta = with_delta_diagnostics d e"
      "plan_delta_from_payload (pl_reader pl) payload g feedback = Inr e" "apply_delta current e = Inr p"
      "asked_within pl 2 d"
    by (auto simp: svc_return_def)
  have md: "pd_metadata e = []" using e(2) by (auto simp: plan_delta_from_payload_def)
  show "delta_ok g delta"
    using delta_from_payload_ok [OF e(2)] e(1) by (simp add: delta_ok_def with_delta_diagnostics_def)
  have "delta\<lparr>pd_metadata := []\<rparr> = e" using md e(1) by (simp add: with_delta_diagnostics_def)
  then have "delta = e\<lparr>pd_metadata := pd_metadata delta\<rparr>" by (cases delta) auto
  with apply_delta_metadata [OF e(3)] show "\<exists>p. apply_delta current delta = Inr p" by metis
  show "\<exists>d. dict_get (pd_metadata delta) ''planner_diagnostics'' = JObj (finished_diagnostics d) \<and> asked_within pl 2 d"
    using e(1,4) by (auto simp: with_delta_diagnostics_def dict_get_def)
qed

end
