(* ===== verification/Goal_Agent.thy ===== *)
theory Goal_Agent
  imports Goal_Planner Harness_Runs
begin

text \<open>
  The goal-driven agent: \<^verbatim>\<open>orchestration/goal_agent.py\<close>, \<^verbatim>\<open>goal_agent_factory.py\<close>,
  \<^verbatim>\<open>goal_session_state.py\<close>, \<^verbatim>\<open>goal_repair.py\<close> and \<^verbatim>\<open>goal_repair_runtime.py\<close>. A
  goal is planned, the plan is the workflow of a session and is kept in its metadata, and a failed
  verification leads to a bounded number of revisions of the plan. The object keeps the agents it
  has built by session; this cache is the state of a \<open>gop\<close>, beside the world.
\<close>

section \<open>Operations of the goal agent\<close>

type_synonym agent_cache = "(string \<times> orchestrator) list"
type_synonym 'a gop = "agent_cache \<Rightarrow> world \<Rightarrow> (exn + 'a) \<times> agent_cache \<times> world"

definition gop_return :: "'a \<Rightarrow> 'a gop" where
  "gop_return x c w = (Inr x, c, w)"

definition gop_lift :: "'a svc \<Rightarrow> 'a gop" where
  "gop_lift m c w = (case m w of (r, w1) \<Rightarrow> (r, c, w1))"

definition gop_bind :: "'a gop \<Rightarrow> ('a \<Rightarrow> 'b gop) \<Rightarrow> 'b gop" where
  "gop_bind m f c w = (case m c w of
     (Inl e, c1, w1) \<Rightarrow> (Inl e, c1, w1)
   | (Inr x, c1, w1) \<Rightarrow> f x c1 w1)"

definition remember_agent :: "string \<Rightarrow> orchestrator \<Rightarrow> unit gop" where
  "remember_agent session_id a c w = (Inr (), AList.update session_id a c, w)"

definition forget_agent :: "string \<Rightarrow> unit gop" where
  "forget_agent session_id c w = (Inr (), AList.delete session_id c, w)"

definition known_agent :: "string \<Rightarrow> orchestrator option gop" where
  "known_agent session_id c w = (Inr (map_of c session_id), c, w)"

section \<open>Services\<close>

record goal_planner =
  gp_initial :: "goal_spec \<Rightarrow> execution_plan svc"
  gp_revise :: "goal_spec \<Rightarrow> execution_plan \<Rightarrow> string list \<Rightarrow> plan_delta svc"

definition model_goal_planner :: "model_planner \<Rightarrow> goal_planner" where
  "model_goal_planner pl = \<lparr>gp_initial = initial_plan pl, gp_revise = revise_plan pl\<rparr>"

text \<open>
  What the constructor is given: the base of every agent it builds, the planner and the bound on
  repairs. \<open>gg_specs_for\<close> is the method of that name of the tool provider, when it has one.
\<close>

record goal_services =
  gg_orchestrator :: orchestrator
  gg_nodes :: node_services
  gg_specs_for :: "(string list \<Rightarrow> exn + tool_spec list) option"
  gg_codec :: plan_codec
  gg_planner :: goal_planner
  gg_max_repairs :: int

section \<open>Building an agent for a plan\<close>

definition tools_by_node :: "execution_plan \<Rightarrow> (string \<times> string list) list" where
  "tools_by_node p = fold (\<lambda>t d. AList.update (pn_key t)
     (filter (\<lambda>x. x \<in> set (gs_available_tools (xp_goal p))) (pn_tools t)) d) (xp_tasks p) []"

definition plan_scoped_tools ::
    "execution_plan \<Rightarrow> (string list \<Rightarrow> exn + tool_spec list) option \<Rightarrow> (string \<Rightarrow> exn + tool_spec list) \<Rightarrow>
     string \<Rightarrow> exn + tool_spec list" where
  "plan_scoped_tools p specs base node_key =
     (case map_of (tools_by_node p) node_key of
        None \<Rightarrow> Inr []
      | Some allowed \<Rightarrow>
          if allowed = [] then Inr []
          else case specs of
            Some f \<Rightarrow> f (sort (remdups allowed))
          | None \<Rightarrow> and_then (base node_key) (\<lambda>ts. Inr (filter (\<lambda>t. tl_name t \<in> set allowed) ts)))"

definition build_agent :: "goal_services \<Rightarrow> execution_plan \<Rightarrow> exn + orchestrator" where
  "build_agent gg p =
     (let b = to_blueprint (gg_codec gg) p; nv = gg_nodes gg in
      make_orchestrator (with_hydramind_harness
        (nv\<lparr>nv_tools := map_option (plan_scoped_tools p (gg_specs_for gg)) (nv_tools nv),
            nv_builder := (nv_builder nv)\<lparr>cb_workflow := b\<rparr>\<rparr>)
        ((gg_orchestrator gg)\<lparr>or_workflow := b\<rparr>)))"

section \<open>The plan of a session\<close>

definition session_metadata ::
    "plan_codec \<Rightarrow> execution_plan \<Rightarrow> pydict option \<Rightarrow> pydict option \<Rightarrow> pydict" where
  "session_metadata pc p metadata runtime_overrides =
     (let md = dict_merge (as_session_metadata pc p) (case metadata of None \<Rightarrow> [] | Some d \<Rightarrow> d) in
      case runtime_overrides of
        None \<Rightarrow> md
      | Some overrides \<Rightarrow>
          if overrides = [] then md
          else AList.update ''runtime_overrides''
            (JObj (dict_merge (obj_or_empty (dict_get md ''runtime_overrides'')) overrides)) md)"

definition plan_for_session :: "plan_codec \<Rightarrow> string \<Rightarrow> execution_plan svc" where
  "plan_for_session pc session_id =
     svc_bind (get_session session_id) (\<lambda>s.
     case json_obj (dict_get (rs_metadata s) ''execution_plan'') of
       None \<Rightarrow> svc_lift (Inl RuntimeError)
     | Some d \<Rightarrow> svc_lift (pc_plan_load pc d))"

definition plan_revision :: "plan_codec \<Rightarrow> execution_plan \<Rightarrow> execution_plan \<Rightarrow> plan_delta \<Rightarrow> workflow_revision" where
  "plan_revision pc current updated delta =
     \<lparr>wr_current_blueprint = to_blueprint pc current, wr_revised_blueprint = to_blueprint pc updated,
      wr_changed_node_keys = map pn_key (pd_update_tasks delta), wr_reason = pd_rationale delta,
      wr_feedback_refs = pd_feedback_refs delta, wr_metadata = as_session_metadata pc updated\<rparr>"

definition apply_plan_delta :: "plan_codec \<Rightarrow> string \<Rightarrow> plan_delta \<Rightarrow> execution_plan svc" where
  "apply_plan_delta pc session_id delta =
     svc_bind (plan_for_session pc session_id) (\<lambda>current.
     svc_bind (svc_lift (apply_delta current delta)) (\<lambda>updated.
     svc_bind (apply_control_workflow_revision session_id (plan_revision pc current updated delta)) (\<lambda>_.
     svc_return updated)))"

section \<open>Feedback of a gate\<close>

fun extend_feedback :: "string list \<Rightarrow> json \<Rightarrow> string list" where
  "extend_feedback items (JStr s) = items @ [s]"
| "extend_feedback items (JList vs) = items @ List.map_filter json_str vs"
| "extend_feedback items _ = items"

definition feedback_line :: "json \<Rightarrow> string option" where
  "feedback_line item =
     (case json_obj item of
        None \<Rightarrow> None
      | Some d \<Rightarrow>
          (case non_empty_str (dict_get d ''message'') of
             None \<Rightarrow> None
           | Some message \<Rightarrow> Some ((case non_empty_str (dict_get d ''source'') of
               None \<Rightarrow> [] | Some source \<Rightarrow> source @ '': '') @ message)))"

definition repair_line :: "json \<Rightarrow> string option" where
  "repair_line item =
     (case json_obj item of None \<Rightarrow> None | Some d \<Rightarrow> non_empty_str (dict_get d ''repair_instruction''))"

definition extend_lines :: "(json \<Rightarrow> string option) \<Rightarrow> string list \<Rightarrow> json \<Rightarrow> string list" where
  "extend_lines line items raw =
     (case json_list raw of None \<Rightarrow> items | Some vs \<Rightarrow> items @ List.map_filter line vs)"

fun dedupe_loop :: "string list \<Rightarrow> string list \<Rightarrow> string list" where
  "dedupe_loop out [] = out"
| "dedupe_loop out (item # items) =
     (let stripped = py_strip item in
      if stripped = [] \<or> stripped \<in> set out then dedupe_loop out items
      else dedupe_loop (out @ [stripped]) items)"

definition feedback_for_replan :: "gate \<Rightarrow> pydict \<Rightarrow> string list" where
  "feedback_for_replan g payload =
     (let f1 = extend_feedback [] (dict_get payload ''feedback'');
          f2 = extend_feedback f1 (dict_get payload ''feedback_refs'');
          f3 = extend_lines feedback_line f2 (dict_get (gt_detail g) ''feedback'');
          f4 = extend_lines repair_line f3 (dict_get (gt_detail g) ''failed_verifiers'') in
      dedupe_loop [] (if f4 = [] then [''gate '' @ gt_name g @ '' requested replan''] else f4))"

definition gate_has_failed_verifiers :: "gate \<Rightarrow> bool" where
  "gate_has_failed_verifiers g \<longleftrightarrow>
     (case json_list (dict_get (gt_detail g) ''failed_verifiers'') of None \<Rightarrow> False | Some vs \<Rightarrow> vs \<noteq> [])"

definition gate_has_only_required_tool_feedback :: "gate \<Rightarrow> bool" where
  "gate_has_only_required_tool_feedback g \<longleftrightarrow>
     (case json_list (dict_get (gt_detail g) ''failed_verifiers'') of
        None \<Rightarrow> False
      | Some vs \<Rightarrow> vs \<noteq> [] \<and> list_all (\<lambda>v. case json_obj v of
            None \<Rightarrow> False | Some d \<Rightarrow> dict_get d ''name'' = JStr ''required_tools.completed'') vs)"

definition delta_has_changes :: "plan_delta \<Rightarrow> bool" where
  "delta_has_changes delta \<longleftrightarrow>
     pd_add_tasks delta \<noteq> [] \<or> pd_update_tasks delta \<noteq> [] \<or> pd_remove_task_keys delta \<noteq> []"

definition should_approve_current_after_replan :: "gate_decision_input \<Rightarrow> gate \<Rightarrow> plan_delta \<Rightarrow> bool" where
  "should_approve_current_after_replan d g delta \<longleftrightarrow>
     dict_get (gi_payload d) ''approve_current_after_replan'' = JBool True \<and>
     gate_has_only_required_tool_feedback g \<and> delta_has_changes delta \<and>
     gt_node_key g \<notin> set (pd_remove_task_keys delta) \<and>
     list_all (\<lambda>t. pn_key t \<noteq> gt_node_key g) (pd_update_tasks delta)"

definition repair_decision_for_delta :: "gate \<Rightarrow> plan_delta \<Rightarrow> gate_decision_input" where
  "repair_decision_for_delta g delta =
     (let base = \<lparr>gi_gate_id = gt_id g, gi_action = Decision_REPLAN, gi_actor = ''orchestrator'',
            gi_rationale = [], gi_payload = [(''approve_current_after_replan'', JBool True)]\<rparr> in
      if should_approve_current_after_replan base g delta
      then base\<lparr>gi_action := Decision_APPROVE,
             gi_rationale := ''agent-driven verifier feedback repair'',
             gi_payload := [(''original_action'', JStr (decision_action_value Decision_REPLAN)),
               (''replan_applied_before_approval'', JBool True)]\<rparr>
      else base\<lparr>gi_rationale := ''agent-driven verifier feedback repair'',
             gi_payload := [(''feedback'', JList (map JStr (pd_feedback_refs delta)))]\<rparr>)"

section \<open>The agent\<close>

definition agent_for_session :: "goal_services \<Rightarrow> string \<Rightarrow> orchestrator gop" where
  "agent_for_session gg session_id =
     gop_bind (known_agent session_id) (\<lambda>existing.
     case existing of
       Some a \<Rightarrow> gop_return a
     | None \<Rightarrow>
         gop_bind (gop_lift (plan_for_session (gg_codec gg) session_id)) (\<lambda>p.
         gop_bind (gop_lift (svc_lift (build_agent gg p))) (\<lambda>a.
         gop_bind (remember_agent session_id a) (\<lambda>_. gop_return a))))"

definition apply_goal_delta :: "goal_services \<Rightarrow> string \<Rightarrow> plan_delta \<Rightarrow> execution_plan gop" where
  "apply_goal_delta gg session_id delta =
     gop_bind (gop_lift (apply_plan_delta (gg_codec gg) session_id delta)) (\<lambda>updated.
     gop_bind (forget_agent session_id) (\<lambda>_. gop_return updated))"

definition revise_goal_session :: "goal_services \<Rightarrow> string \<Rightarrow> string list \<Rightarrow> plan_delta gop" where
  "revise_goal_session gg session_id feedback =
     gop_bind (gop_lift (plan_for_session (gg_codec gg) session_id)) (\<lambda>current.
     gop_bind (gop_lift (gp_revise (gg_planner gg) (xp_goal current) current feedback)) (\<lambda>delta.
     if delta_has_changes delta
     then gop_bind (apply_goal_delta gg session_id delta) (\<lambda>_. gop_return delta)
     else gop_return delta))"

text \<open>
  The \<^verbatim>\<open>while\<close> loop of \<^verbatim>\<open>maybe_auto_repair\<close>. The fuel counts reservations, of which the
  bound on repairs allows no more.
\<close>

fun auto_repair_loop ::
    "goal_services \<Rightarrow> string \<Rightarrow> nat \<Rightarrow> runtime_decision \<Rightarrow> runtime_decision gop" where
  "auto_repair_loop gg session_id fuel decision =
     (let max_attempts = max 0 (gg_max_repairs gg) in
      if \<not> (0 < max_attempts \<and> rd_kind decision = Decided_AWAIT_GATE) then gop_return decision
      else case rd_gate decision of
        None \<Rightarrow> gop_return decision
      | Some g \<Rightarrow>
          if \<not> gate_has_failed_verifiers g then gop_return decision
          else
            gop_bind (gop_lift (reserve_auto_repair_attempt session_id max_attempts)) (\<lambda>reserved.
            if \<not> reserved then gop_return decision
            else
              gop_bind (revise_goal_session gg session_id (feedback_for_replan g [])) (\<lambda>delta.
              if \<not> delta_has_changes delta then gop_return decision
              else
                gop_bind (agent_for_session gg session_id) (\<lambda>a.
                gop_bind (gop_lift (resume_session a session_id (Some (repair_decision_for_delta g delta))))
                  (\<lambda>next.
                case fuel of
                  0 \<Rightarrow> gop_lift (svc_lift (Inl RuntimeError))
                | Suc n \<Rightarrow> auto_repair_loop gg session_id n next)))))"

declare auto_repair_loop.simps [simp del]

definition maybe_auto_repair :: "goal_services \<Rightarrow> string \<Rightarrow> runtime_decision \<Rightarrow> runtime_decision gop" where
  "maybe_auto_repair gg session_id decision =
     auto_repair_loop gg session_id (nat (gg_max_repairs gg)) decision"

definition gates_of :: "runtime_session \<Rightarrow> gate list" where
  "gates_of s = concat (map (\<lambda>(k, n). ns_gates n) (rs_nodes s))"

definition gate_for_decision :: "string \<Rightarrow> gate_decision_input \<Rightarrow> gate svc" where
  "gate_for_decision session_id d =
     svc_bind (get_session session_id) (\<lambda>s.
     case List.find (\<lambda>g. gt_id g = gi_gate_id d) (gates_of s) of
       None \<Rightarrow> svc_lift (Inl RuntimeError)
     | Some g \<Rightarrow> svc_return g)"

definition prepare_gate_decision :: "goal_services \<Rightarrow> string \<Rightarrow> gate_decision_input \<Rightarrow> gate_decision_input gop" where
  "prepare_gate_decision gg session_id d =
     (if gi_action d \<noteq> Decision_REPLAN then gop_return d
      else
        gop_bind (gop_lift (gate_for_decision session_id d)) (\<lambda>g.
        gop_bind (revise_goal_session gg session_id (feedback_for_replan g (gi_payload d))) (\<lambda>delta.
        gop_return (if should_approve_current_after_replan d g delta
          then d\<lparr>gi_action := Decision_APPROVE, gi_payload := dict_merge (gi_payload d)
             [(''original_action'', JStr (decision_action_value (gi_action d))),
              (''replan_applied_before_approval'', JBool True)]\<rparr>
          else d))))"

definition start_goal ::
    "goal_services \<Rightarrow> goal_spec \<Rightarrow> pydict option \<Rightarrow> pydict option \<Rightarrow> pydict option \<Rightarrow> runtime_session gop" where
  "start_goal gg g input_payload metadata runtime_overrides =
     gop_bind (gop_lift (gp_initial (gg_planner gg) g)) (\<lambda>p.
     gop_bind (gop_lift (svc_lift (build_agent gg p))) (\<lambda>a.
     gop_bind (gop_lift (start_session a
         (dict_merge [(''goal'', JStr (gs_objective g))] (case input_payload of None \<Rightarrow> [] | Some d \<Rightarrow> d))
         (session_metadata (gg_codec gg) p metadata runtime_overrides))) (\<lambda>s.
     gop_bind (remember_agent (rs_id s) a) (\<lambda>_. gop_return s))))"

definition run_goal_agent :: "goal_services \<Rightarrow> run_options \<Rightarrow> string \<Rightarrow> runtime_decision gop" where
  "run_goal_agent gg opts session_id =
     gop_bind (agent_for_session gg session_id) (\<lambda>a.
     gop_bind (gop_lift (run_session a opts session_id)) (\<lambda>d.
     maybe_auto_repair gg session_id d))"

definition run_goal_session :: "goal_services \<Rightarrow> string \<Rightarrow> runtime_decision gop" where
  "run_goal_session gg session_id = run_goal_agent gg default_options session_id"

definition resume_goal_session :: "goal_services \<Rightarrow> string \<Rightarrow> gate_decision_input \<Rightarrow> runtime_decision gop" where
  "resume_goal_session gg session_id d =
     gop_bind (prepare_gate_decision gg session_id d) (\<lambda>prepared.
     gop_bind (agent_for_session gg session_id) (\<lambda>a.
     gop_lift (resume_session a session_id (Some prepared))))"

definition run_goal ::
    "goal_services \<Rightarrow> goal_spec \<Rightarrow> pydict option \<Rightarrow> pydict option \<Rightarrow> pydict option \<Rightarrow> runtime_session gop" where
  "run_goal gg g input_payload metadata runtime_overrides =
     gop_bind (start_goal gg g input_payload metadata runtime_overrides) (\<lambda>s.
     gop_bind (run_goal_session gg (rs_id s)) (\<lambda>_.
     gop_lift (get_session (rs_id s))))"

end
