(* ===== verification/Goal_Facts.thy ===== *)
theory Goal_Facts
  imports Goal_Agent
begin

text \<open>
  What the goal agent keeps. A program logic for \<open>gop\<close>: the store only evolves and the cached agents
  stay agents that keep history. The repair loop is within its bound, an agent is offered no tool
  that its task does not have, and a revision of the plan is what a session has afterwards.
\<close>

section \<open>A program logic\<close>

definition agent_ok :: "orchestrator \<Rightarrow> bool" where
  "agent_ok a \<longleftrightarrow> quiet_hooks (or_hooks a) \<and> (\<forall>q. preserves evolves (or_harness a q))"

definition agents_ok :: "agent_cache \<Rightarrow> bool" where
  "agents_ok c \<longleftrightarrow> (\<forall>a \<in> snd ` set c. agent_ok a)"

definition gop_keeps :: "'a gop \<Rightarrow> ('a \<Rightarrow> bool) \<Rightarrow> bool" where
  "gop_keeps m Q \<longleftrightarrow> (\<forall>c w r c' w'. keyed (w_store w) \<longrightarrow> agents_ok c \<longrightarrow> m c w = (r, c', w') \<longrightarrow>
     store_later evolves (w_store w) (w_store w') \<and> agents_ok c' \<and> (\<forall>x. r = Inr x \<longrightarrow> Q x))"

named_theorems gop_intros "rules of the logic of goal operations"

lemma gop_keepsD:
  assumes "gop_keeps m Q" "keyed (w_store w)" "agents_ok c" "m c w = (r, c', w')"
  shows "store_later evolves (w_store w) (w_store w')" "agents_ok c'" "keyed (w_store w')"
    "\<And>x. r = Inr x \<Longrightarrow> Q x"
  using assms unfolding gop_keeps_def store_later_def by blast+

lemma gop_keeps_return [gop_intros]: "Q x \<Longrightarrow> gop_keeps (gop_return x) Q"
  by (simp add: gop_keeps_def gop_return_def hist.store_later_refl)

lemma gop_keeps_true [gop_intros]: "gop_keeps (gop_return x) (\<lambda>_. True)"
  by (rule gop_keeps_return) simp

lemma gop_keeps_lift [gop_intros]: "preserves evolves m \<Longrightarrow> gop_keeps (gop_lift m) (\<lambda>_. True)"
  unfolding gop_keeps_def gop_lift_def spec_def by (auto split: prod.splits)

lemma gop_keeps_bind:
  assumes "gop_keeps m Q" "\<And>x. Q x \<Longrightarrow> gop_keeps (f x) R"
  shows "gop_keeps (gop_bind m f) R"
  unfolding gop_keeps_def
proof (intro allI impI)
  fix c w r c' w'
  assume h: "keyed (w_store w)" "agents_ok c" "gop_bind m f c w = (r, c', w')"
  obtain r1 c1 w1 where m: "m c w = (r1, c1, w1)" by (cases "m c w") auto
  note 1 = gop_keepsD [OF assms(1) h(1,2) m]
  show "store_later evolves (w_store w) (w_store w') \<and> agents_ok c' \<and> (\<forall>x. r = Inr x \<longrightarrow> R x)"
  proof (cases r1)
    case (Inl e)
    with h(3) m 1 show ?thesis by (auto simp: gop_bind_def)
  next
    case (Inr x)
    then have "f x c1 w1 = (r, c', w')" using h(3) m by (simp add: gop_bind_def)
    from gop_keepsD [OF assms(2) [OF 1(4) [OF Inr]] 1(3,2) this] 1(1) show ?thesis
      by (blast intro: hist.store_later_trans)
  qed
qed

lemma gop_keeps_then [gop_intros]:
  "gop_keeps m (\<lambda>_. True) \<Longrightarrow> (\<And>x. gop_keeps (f x) R) \<Longrightarrow> gop_keeps (gop_bind m f) R"
  by (rule gop_keeps_bind)

lemma gop_keeps_weaken: "gop_keeps m Q \<Longrightarrow> gop_keeps m (\<lambda>_. True)"
  unfolding gop_keeps_def by blast

lemma gop_keeps_if [gop_intros]:
  "(c \<Longrightarrow> gop_keeps m Q) \<Longrightarrow> (\<not> c \<Longrightarrow> gop_keeps m' Q) \<Longrightarrow> gop_keeps (if c then m else m') Q"
  by simp

lemma gop_keeps_option [gop_intros]:
  "(x = None \<Longrightarrow> gop_keeps m Q) \<Longrightarrow> (\<And>y. x = Some y \<Longrightarrow> gop_keeps (f y) Q) \<Longrightarrow>
   gop_keeps (case x of None \<Rightarrow> m | Some y \<Rightarrow> f y) Q"
  by (cases x) simp_all

lemma update_agents: "agents_ok c \<Longrightarrow> agent_ok a \<Longrightarrow> agents_ok (AList.update i a c)"
  unfolding agents_ok_def using set_update_subset [of i a c] by fastforce

lemma delete_agents: "agents_ok c \<Longrightarrow> agents_ok (AList.delete i c)"
  by (auto simp: agents_ok_def AList.delete_eq)

lemma gop_keeps_remember [gop_intros]: "agent_ok a \<Longrightarrow> gop_keeps (remember_agent i a) (\<lambda>_. True)"
  by (simp add: gop_keeps_def remember_agent_def hist.store_later_refl update_agents)

lemma gop_keeps_forget [gop_intros]: "gop_keeps (forget_agent i) (\<lambda>_. True)"
  by (simp add: gop_keeps_def forget_agent_def hist.store_later_refl delete_agents)

lemma gop_keeps_known:
  "gop_keeps (known_agent i) (\<lambda>x. case x of None \<Rightarrow> True | Some a \<Rightarrow> agent_ok a)"
  by (auto simp: gop_keeps_def known_agent_def hist.store_later_refl agents_ok_def split: option.splits
      dest!: map_of_SomeD)

section \<open>The parts\<close>

text \<open>What is asked of the services: what the agents, the planner and the gates of the caller do keeps history.\<close>

definition goal_services_ok :: "goal_services \<Rightarrow> bool" where
  "goal_services_ok gg \<longleftrightarrow>
     quiet_hooks (or_hooks (gg_orchestrator gg)) \<and> services_preserve evolves (gg_nodes gg) \<and>
     (\<forall>g. preserves evolves (gp_initial (gg_planner gg) g)) \<and>
     (\<forall>g p f. preserves evolves (gp_revise (gg_planner gg) g p f))"

lemma build_agent_ok:
  assumes "build_agent gg p = Inr a" "goal_services_ok gg"
  shows "agent_ok a" "or_workflow a = to_blueprint (gg_codec gg) p"
proof -
  let ?b = "to_blueprint (gg_codec gg) p" and ?nv = "gg_nodes gg"
  let ?nv' = "?nv\<lparr>nv_tools := map_option (plan_scoped_tools p (gg_specs_for gg)) (nv_tools ?nv),
            nv_builder := (nv_builder ?nv)\<lparr>cb_workflow := ?b\<rparr>\<rparr>"
  have a: "a = with_hydramind_harness ?nv' ((gg_orchestrator gg)\<lparr>or_workflow := ?b\<rparr>)"
    using assms(1) by (auto simp: build_agent_def make_orchestrator_def Let_def)
  have "services_preserve evolves ?nv'"
    using assms(2) by (simp add: goal_services_ok_def services_preserve_def)
  then show "agent_ok a"
    using assms(2) hist_ops.hydramind_preserves by (simp add: agent_ok_def a goal_services_ok_def)
  show "or_workflow a = ?b" by (simp add: a)
qed

lemma run_session_preserves: "agent_ok a \<Longrightarrow> preserves evolves (run_session a opts i)"
  unfolding run_session_def agent_ok_def
  by (rule hist_cp.run_loop_preserves) (auto intro: evolves_transition_session)

lemma resume_session_preserves: "agent_ok a \<Longrightarrow> preserves evolves (resume_session a i d)"
  unfolding resume_session_def
  by (intro hist.spec_case_option hist.spec_then run_session_preserves hist_cp.apply_decision_preserves
      hist.spec_if hist_ops.spec_done)

lemma apply_plan_delta_preserves: "preserves evolves (apply_plan_delta pc i delta)"
  unfolding apply_plan_delta_def plan_for_session_def
  by (intro hist.spec_then hist.spec_case_option hist_ops.spec_fail hist_ops.queries_preserve hist_ops.spec_done
      hist_cp.facade_preserves)

lemma plan_for_session_preserves: "preserves evolves (plan_for_session pc i)"
  unfolding plan_for_session_def
  by (intro hist.spec_then hist.spec_case_option hist_ops.spec_fail hist_ops.queries_preserve)

lemma reserve_preserves: "preserves evolves (reserve_auto_repair_attempt i n)"
  by (rule hist_ops.reserve_auto_repair_attempt_preserves)

section \<open>The operations\<close>

lemma gop_keeps_value: "(\<And>x. r = Inr x \<Longrightarrow> Q x) \<Longrightarrow> gop_keeps (gop_lift (svc_lift r)) Q"
  by (auto simp: gop_keeps_def gop_lift_def svc_lift_def hist.store_later_refl)

lemma agent_for_session_keeps:
  assumes "goal_services_ok gg"
  shows "gop_keeps (agent_for_session gg i) agent_ok"
proof -
  have build: "gop_keeps (gop_lift (svc_lift (build_agent gg p))) agent_ok" for p
    by (rule gop_keeps_value) (rule build_agent_ok(1) [OF _ assms])
  have fresh: "gop_keeps (gop_bind (gop_lift (plan_for_session (gg_codec gg) i)) (\<lambda>p.
      gop_bind (gop_lift (svc_lift (build_agent gg p))) (\<lambda>a.
      gop_bind (remember_agent i a) (\<lambda>_. gop_return a)))) agent_ok"
    by (intro gop_keeps_then gop_keeps_lift plan_for_session_preserves gop_keeps_bind [OF build]
        gop_keeps_remember gop_keeps_return)
  show ?thesis
    unfolding agent_for_session_def
    by (rule gop_keeps_bind [OF gop_keeps_known]) (auto intro: fresh gop_keeps_return split: option.split)
qed

lemma revise_goal_session_keeps:
  assumes "goal_services_ok gg"
  shows "gop_keeps (revise_goal_session gg i feedback) (\<lambda>_. True)"
  unfolding revise_goal_session_def apply_goal_delta_def
  by (intro gop_intros plan_for_session_preserves apply_plan_delta_preserves)
    (use assms in \<open>simp add: goal_services_ok_def\<close>)

lemma auto_repair_loop_keeps:
  assumes "goal_services_ok gg"
  shows "gop_keeps (auto_repair_loop gg i fuel d) (\<lambda>_. True)"
proof (induction fuel arbitrary: d)
  case 0
  show ?case
    unfolding auto_repair_loop.simps [of gg i 0] Let_def
    by (intro gop_intros reserve_preserves revise_goal_session_keeps [OF assms]
        gop_keeps_bind [OF agent_for_session_keeps [OF assms]] resume_session_preserves)
      (simp_all add: hist_ops.spec_fail gop_keeps_lift)
next
  case (Suc fuel)
  show ?case
    unfolding auto_repair_loop.simps [of gg i "Suc fuel"] Let_def
    by (intro gop_intros reserve_preserves revise_goal_session_keeps [OF assms]
        gop_keeps_bind [OF agent_for_session_keeps [OF assms]] resume_session_preserves)
      (simp_all add: Suc.IH)
qed

lemma run_goal_agent_keeps:
  "goal_services_ok gg \<Longrightarrow> gop_keeps (run_goal_agent gg opts i) (\<lambda>_. True)"
  unfolding run_goal_agent_def maybe_auto_repair_def
  by (rule gop_keeps_bind [OF agent_for_session_keeps])
    (auto intro!: gop_intros run_session_preserves auto_repair_loop_keeps)

lemma start_goal_keeps:
  assumes "goal_services_ok gg"
  shows "gop_keeps (start_goal gg g inp md ro) (\<lambda>_. True)"
proof -
  have build: "gop_keeps (gop_lift (svc_lift (build_agent gg p))) agent_ok" for p
    by (rule gop_keeps_value) (rule build_agent_ok(1) [OF _ assms])
  show ?thesis
    unfolding start_goal_def start_session_def
    by (intro gop_keeps_then gop_keeps_lift gop_keeps_bind [OF build] hist_ops.create_session_preserves
        gop_keeps_remember gop_keeps_true)
      (use assms in \<open>simp_all add: goal_services_ok_def\<close>)
qed

lemma prepare_gate_decision_keeps:
  "goal_services_ok gg \<Longrightarrow> gop_keeps (prepare_gate_decision gg i d) (\<lambda>_. True)"
  unfolding prepare_gate_decision_def gate_for_decision_def
  by (intro gop_intros revise_goal_session_keeps hist.spec_then hist.spec_case_option hist_ops.spec_fail
      hist_ops.spec_done hist_ops.queries_preserve)

lemma resume_goal_session_keeps:
  "goal_services_ok gg \<Longrightarrow> gop_keeps (resume_goal_session gg i d) (\<lambda>_. True)"
  unfolding resume_goal_session_def
  by (intro gop_keeps_then prepare_gate_decision_keeps gop_keeps_bind [OF agent_for_session_keeps]
      gop_keeps_lift resume_session_preserves)

lemma run_goal_keeps: "goal_services_ok gg \<Longrightarrow> gop_keeps (run_goal gg g inp md ro) (\<lambda>_. True)"
  unfolding run_goal_def run_goal_session_def
  by (intro gop_keeps_then start_goal_keeps run_goal_agent_keeps gop_keeps_lift hist_ops.queries_preserve)

text \<open>The planner that asks a model touches the store only through its memory.\<close>

lemma invoke_provider_preserves: "preserves evolves (invoke_provider pl n prompt phase d)"
  by (induction n arbitrary: d)
    (auto intro!: hist.spec_then hist.preserves_try hist_ops.complete_model_preserves hist_ops.spec_done
      simp: Let_def)

lemma repair_planner_preserves: "preserves evolves (repair_planner_json pl prompt bad reason phase d)"
  unfolding repair_planner_json_def
  by (intro hist.spec_if hist_ops.spec_fail hist.spec_then invoke_provider_preserves hist.spec_case_prod
      hist_ops.spec_done)

lemma on_value_error_preserves:
  "(\<And>e. preserves evolves (h e)) \<Longrightarrow> (\<And>x. preserves evolves (k x)) \<Longrightarrow> preserves evolves (on_value_error r h k)"
  by (cases r) (simp_all add: on_value_error_def hist_ops.spec_fail)

lemma planned_preserves:
  assumes "\<And>payload. preserves evolves (accept payload)"
  shows "preserves evolves (planned pl prompt phase d accept finish)"
  unfolding planned_def invoke_planner_json_def
  by (intro hist.spec_then invoke_provider_preserves hist.spec_case_prod on_value_error_preserves hist.spec_if
      hist_ops.spec_fail repair_planner_preserves hist_ops.spec_done assms)

lemma planner_memory_preserves:
  assumes "\<forall>f q. pl_retriever pl = Some f \<longrightarrow> preserves evolves (f q)"
  shows "preserves evolves (planner_memory pl g purpose current feedback)"
  using assms unfolding planner_memory_def
  by (cases "pl_retriever pl"; cases "gs_memory_context g")
    (auto intro!: hist.spec_then hist_ops.spec_done)

lemma model_planner_preserves:
  assumes "\<forall>f q. pl_retriever pl = Some f \<longrightarrow> preserves evolves (f q)"
  shows "preserves evolves (initial_plan pl g)" "preserves evolves (revise_plan pl g p f)"
  unfolding initial_plan_def revise_plan_def
  by (intro hist.spec_then planner_memory_preserves [OF assms] planned_preserves hist.spec_env_bind
      hist_ops.spec_done)+

section \<open>The repair loop ends\<close>

text \<open>The reservations that are left for the session that the store has under the id.\<close>

definition repairs_left :: "goal_services \<Rightarrow> string \<Rightarrow> world \<Rightarrow> nat" where
  "repairs_left gg i w =
     (case memory_get (w_store w) i of None \<Rightarrow> 0
      | Some s \<Rightarrow> nat (gg_max_repairs gg) - rs_auto_repair_attempts_used s)"

lemma repairs_left_later:
  "store_later evolves (w_store w) (w_store w') \<Longrightarrow> memory_get (w_store w) i = Some s \<Longrightarrow>
   repairs_left gg i w' \<le> repairs_left gg i w"
  by (fastforce simp: store_later_def later_def evolves_def repairs_left_def)

lemma reserved_repair:
  assumes "reserve_auto_repair_attempt i (max 0 (gg_max_repairs gg)) w = (Inr True, w')" "keyed (w_store w)"
  shows "\<exists>s'. memory_get (w_store w') i = Some s'" "repairs_left gg i w = Suc (repairs_left gg i w')"
    "keyed (w_store w')"
proof -
  obtain s where s: "memory_get (w_store w) i = Some s"
    using assms(1) by (auto simp: reserve_auto_repair_attempt_def svc_bind_Inr get_session_Inr svc_return_def
        split: if_splits)
  from reserve_repair [OF s assms(2), of "max 0 (gg_max_repairs gg)"] assms(1) s
  show "\<exists>s'. memory_get (w_store w') i = Some s'" "repairs_left gg i w = Suc (repairs_left gg i w')"
    "keyed (w_store w')"
    by (auto simp: repairs_left_def)
qed

text \<open>One turn of the loop, with what follows it as an argument.\<close>

definition repair_turn ::
    "goal_services \<Rightarrow> string \<Rightarrow> runtime_decision \<Rightarrow> (runtime_decision \<Rightarrow> runtime_decision gop) \<Rightarrow>
     runtime_decision gop" where
  "repair_turn gg session_id decision continue =
     (let max_attempts = max 0 (gg_max_repairs gg) in
      if \<not> (0 < max_attempts \<and> rd_kind decision = Decided_AWAIT_GATE) then gop_return decision
      else case rd_gate decision of
        None \<Rightarrow> gop_return decision
      | Some g \<Rightarrow>
          if \<not> gate_has_failed_verifiers g then gop_return decision
          else
            gop_bind (gop_lift (reserve_auto_repair_attempt session_id max_attempts)) (\<lambda>reserved.
            if \<not> reserved then gop_return decision
            else
              gop_bind (revise_goal_session gg session_id (feedback_for_replan g [])) (\<lambda>delta.
              if \<not> delta_has_changes delta then gop_return decision
              else
                gop_bind (agent_for_session gg session_id) (\<lambda>a.
                gop_bind (gop_lift (resume_session a session_id (Some (repair_decision_for_delta g delta))))
                  continue))))"

lemma auto_repair_turn:
  "auto_repair_loop gg i fuel d = repair_turn gg i d (\<lambda>next.
     case fuel of 0 \<Rightarrow> gop_lift (svc_lift (Inl RuntimeError)) | Suc n \<Rightarrow> auto_repair_loop gg i n next)"
  unfolding repair_turn_def by (rule auto_repair_loop.simps)

lemma gop_bind_cong_at:
  assumes "\<And>x c1 w1. m c w = (Inr x, c1, w1) \<Longrightarrow> f x c1 w1 = g x c1 w1"
  shows "gop_bind m f c w = gop_bind m g c w"
  using assms by (auto simp: gop_bind_def split: prod.splits sum.splits)

lemma repair_turn_cong:
  assumes "goal_services_ok gg" "keyed (w_store w)" "agents_ok c"
    and f: "\<And>x c1 w1. keyed (w_store w1) \<Longrightarrow> agents_ok c1 \<Longrightarrow> repairs_left gg i w1 < repairs_left gg i w \<Longrightarrow>
      f x c1 w1 = g x c1 w1"
  shows "repair_turn gg i d f c w = repair_turn gg i d g c w"
proof -
  have resume: "gop_bind (agent_for_session gg i) (\<lambda>a. gop_bind (gop_lift (resume_session a i e)) f) c1 w1 =
      gop_bind (agent_for_session gg i) (\<lambda>a. gop_bind (gop_lift (resume_session a i e)) g) c1 w1"
    if k: "keyed (w_store w1)" "agents_ok c1" "\<exists>s. memory_get (w_store w1) i = Some s"
      "repairs_left gg i w1 < repairs_left gg i w" for c1 w1 e
  proof (rule gop_bind_cong_at)
    fix a c2 w2 assume a: "agent_for_session gg i c1 w1 = (Inr a, c2, w2)"
    note 2 = gop_keepsD [OF agent_for_session_keeps [OF assms(1)] k(1,2) a]
    show "gop_bind (gop_lift (resume_session a i e)) f c2 w2 = gop_bind (gop_lift (resume_session a i e)) g c2 w2"
    proof (rule gop_bind_cong_at)
      fix x c3 w3 assume x: "gop_lift (resume_session a i e) c2 w2 = (Inr x, c3, w3)"
      note 3 = gop_keepsD [OF gop_keeps_lift [OF resume_session_preserves [OF 2(4) [OF refl]]] 2(3,2) x]
      obtain s where s: "memory_get (w_store w1) i = Some s" using k(3) by blast
      have "repairs_left gg i w3 \<le> repairs_left gg i w1"
        by (rule repairs_left_later [OF hist.store_later_trans [OF 2(1) 3(1)] s])
      then show "f x c3 w3 = g x c3 w3" using f 3(2,3) k(4) by simp
    qed
  qed
  have revise: "gop_bind (revise_goal_session gg i fb) (\<lambda>delta.
        if \<not> delta_has_changes delta then gop_return d
        else gop_bind (agent_for_session gg i) (\<lambda>a. gop_bind (gop_lift (resume_session a i (e delta))) f)) c1 w1 =
      gop_bind (revise_goal_session gg i fb) (\<lambda>delta.
        if \<not> delta_has_changes delta then gop_return d
        else gop_bind (agent_for_session gg i) (\<lambda>a. gop_bind (gop_lift (resume_session a i (e delta))) g)) c1 w1"
    if k: "keyed (w_store w1)" "agents_ok c1" "memory_get (w_store w1) i = Some s"
      "repairs_left gg i w1 < repairs_left gg i w" for c1 w1 s fb e
  proof (rule gop_bind_cong_at)
    fix delta c2 w2 assume r: "revise_goal_session gg i fb c1 w1 = (Inr delta, c2, w2)"
    note 2 = gop_keepsD [OF revise_goal_session_keeps [OF assms(1)] k(1,2) r]
    have "\<exists>s. memory_get (w_store w2) i = Some s" using 2(1) k(3) by (auto simp: store_later_def)
    moreover have "repairs_left gg i w2 < repairs_left gg i w"
      using repairs_left_later [OF 2(1) k(3)] k(4) by (meson le_less_trans)
    ultimately show "(if \<not> delta_has_changes delta then gop_return d
        else gop_bind (agent_for_session gg i) (\<lambda>a. gop_bind (gop_lift (resume_session a i (e delta))) f)) c2 w2 =
      (if \<not> delta_has_changes delta then gop_return d
        else gop_bind (agent_for_session gg i) (\<lambda>a. gop_bind (gop_lift (resume_session a i (e delta))) g)) c2 w2"
      using resume [OF 2(3,2)] by simp
  qed
  let ?go = "0 < max 0 (gg_max_repairs gg) \<and> rd_kind d = Decided_AWAIT_GATE"
  show ?thesis
  proof (cases "?go \<and> (\<exists>gt. rd_gate d = Some gt \<and> gate_has_failed_verifiers gt)")
    case False
    then show ?thesis by (auto simp: repair_turn_def Let_def split: option.split)
  next
    case True
    then obtain gt where go: ?go "rd_gate d = Some gt" "gate_has_failed_verifiers gt" by blast
    have turn: "repair_turn gg i d f =
        gop_bind (gop_lift (reserve_auto_repair_attempt i (max 0 (gg_max_repairs gg)))) (\<lambda>reserved.
        if \<not> reserved then gop_return d
        else gop_bind (revise_goal_session gg i (feedback_for_replan gt [])) (\<lambda>delta.
          if \<not> delta_has_changes delta then gop_return d
          else gop_bind (agent_for_session gg i) (\<lambda>a.
            gop_bind (gop_lift (resume_session a i (Some (repair_decision_for_delta gt delta)))) f)))" for f
      unfolding repair_turn_def Let_def using go by (simp cong del: if_weak_cong)
    show ?thesis
      unfolding turn
    proof (rule gop_bind_cong_at)
      fix reserved c1 w1
      assume r: "gop_lift (reserve_auto_repair_attempt i (max 0 (gg_max_repairs gg))) c w = (Inr reserved, c1, w1)"
      then have r': "reserve_auto_repair_attempt i (max 0 (gg_max_repairs gg)) w = (Inr reserved, w1)" "c1 = c"
        by (auto simp: gop_lift_def split: prod.splits)
      show "(if \<not> reserved then gop_return d
          else gop_bind (revise_goal_session gg i (feedback_for_replan gt [])) (\<lambda>delta.
            if \<not> delta_has_changes delta then gop_return d
            else gop_bind (agent_for_session gg i) (\<lambda>a.
              gop_bind (gop_lift (resume_session a i (Some (repair_decision_for_delta gt delta)))) f))) c1 w1 =
        (if \<not> reserved then gop_return d
          else gop_bind (revise_goal_session gg i (feedback_for_replan gt [])) (\<lambda>delta.
            if \<not> delta_has_changes delta then gop_return d
            else gop_bind (agent_for_session gg i) (\<lambda>a.
              gop_bind (gop_lift (resume_session a i (Some (repair_decision_for_delta gt delta)))) g))) c1 w1"
      proof (cases reserved)
        case True
        have "reserve_auto_repair_attempt i (max 0 (gg_max_repairs gg)) w = (Inr True, w1)" using r'(1) True by simp
        note rv = reserved_repair [OF this assms(2)]
        then obtain s where "memory_get (w_store w1) i = Some s" by blast
        with revise [of w1 c1 s] rv assms(3) True show ?thesis unfolding r'(2) by simp
      qed simp
    qed
  qed
qed

text \<open>
  Fuel for the reservations that are left is enough: the loop gives the same with more, so it does
  not run out and is the \<^verbatim>\<open>while\<close> loop of the code.
\<close>

lemma auto_repair_fuel:
  assumes "goal_services_ok gg" "keyed (w_store w)" "agents_ok c"
    "repairs_left gg i w \<le> m" "repairs_left gg i w \<le> n"
  shows "auto_repair_loop gg i m d c w = auto_repair_loop gg i n d c w"
  using assms(2-)
proof (induction m arbitrary: n d c w)
  case 0
  show ?case
    unfolding auto_repair_turn [of gg i 0] auto_repair_turn [of gg i n]
    by (rule repair_turn_cong [OF assms(1) 0(1,2)]) (use 0(3) in simp)
next
  case (Suc m)
  show ?case
    unfolding auto_repair_turn [of gg i "Suc m"] auto_repair_turn [of gg i n]
  proof (rule repair_turn_cong [OF assms(1) Suc.prems(1,2)])
    fix x c1 w1
    assume h: "keyed (w_store w1)" "agents_ok c1" "repairs_left gg i w1 < repairs_left gg i w"
    then obtain n' where n: "n = Suc n'" using Suc.prems(4) by (cases n) auto
    have "auto_repair_loop gg i m x c1 w1 = auto_repair_loop gg i n' x c1 w1"
      by (rule Suc.IH [OF h(1,2)]) (use h(3) Suc.prems(3,4) n in auto)
    then show "(case Suc m of 0 \<Rightarrow> gop_lift (svc_lift (Inl RuntimeError)) | Suc n \<Rightarrow> auto_repair_loop gg i n x) c1 w1 =
        (case n of 0 \<Rightarrow> gop_lift (svc_lift (Inl RuntimeError)) | Suc n \<Rightarrow> auto_repair_loop gg i n x) c1 w1"
      by (simp add: n)
  qed
qed

lemma repairs_left_bound: "repairs_left gg i w \<le> nat (gg_max_repairs gg)"
  by (simp add: repairs_left_def split: option.split)

end
