(* ===== verification/Goal_Scope.thy ===== *)
theory Goal_Scope
  imports Goal_Facts Plan_Facts Tool_Facts
begin

text \<open>
  What the goal agent keeps of a plan in a session, and which tools it offers to a node: the
  stored plan is the one that was applied last, and a node is only offered the tools that its own
  task asks for and the goal allows.
\<close>

section \<open>Tools of a node\<close>

lemma specs_for_exact:
  assumes "specs_for r (Some ns) = Inr ts"
  shows "set ts = {to_spec t | t n. n \<in> set ns \<and> map_of (tr_tools r) n = Some t \<and> rt_enabled t}"
proof -
  have "set ts = set acc \<union> {to_spec t | t n. n \<in> set ns \<and> map_of (tr_tools r) n = Some t \<and> rt_enabled t}"
    if "fold_err (\<lambda>name specs. and_then (get_tool r name) (\<lambda>t.
       Inr (if rt_enabled t then specs @ [to_spec t] else specs))) ns acc = Inr ts" for acc
    using that
  proof (induction ns arbitrary: acc)
    case (Cons n ns)
    obtain t where t: "map_of (tr_tools r) n = Some t"
      using Cons.prems by (cases "map_of (tr_tools r) n") (auto simp: get_tool_def)
    have "fold_err (\<lambda>name specs. and_then (get_tool r name) (\<lambda>t.
       Inr (if rt_enabled t then specs @ [to_spec t] else specs))) ns
         (if rt_enabled t then acc @ [to_spec t] else acc) = Inr ts"
      using Cons.prems t by (simp add: get_tool_def)
    from Cons.IH [OF this] t show ?case by (auto split: if_splits)
  qed simp
  then show ?thesis using assms by (fastforce simp: specs_for_def selected_names_def)
qed

definition allowed_tools :: "execution_plan \<Rightarrow> plan_task \<Rightarrow> string list" where
  "allowed_tools p t = filter (\<lambda>x. x \<in> set (gs_available_tools (xp_goal p))) (pn_tools t)"

lemma fold_update_find:
  assumes "distinct (map k ts)"
  shows "map_of (fold (\<lambda>t d. AList.update (k t) (v t) d) ts d) x =
    (case List.find (\<lambda>t. k t = x) ts of Some t \<Rightarrow> Some (v t) | None \<Rightarrow> map_of d x)"
  using assms
proof (induction ts arbitrary: d)
  case (Cons t ts)
  have none: "List.find (\<lambda>u. k u = k t) ts = None"
    using Cons.prems by (auto simp: find_None_iff image_iff)
  from Cons show ?case by (auto simp: none split: option.split)
qed simp

lemma tools_by_node_lookup:
  assumes "distinct (plan_keys p)"
  shows "map_of (tools_by_node p) k =
    map_option (allowed_tools p) (List.find (\<lambda>t. pn_key t = k) (xp_tasks p))"
  using fold_update_find [OF assms [unfolded plan_keys_def], where d = "[]" and v = "allowed_tools p"]
  by (simp add: tools_by_node_def allowed_tools_def split: option.split)

lemma tools_by_node_sub:
  assumes "map_of (tools_by_node p) k = Some ns"
  shows "\<exists>t \<in> set (xp_tasks p). pn_key t = k \<and> ns = allowed_tools p t"
proof -
  have "(\<exists>t \<in> set ts. pn_key t = k \<and> ns = allowed_tools p t) \<or> map_of d k = Some ns"
    if "map_of (fold (\<lambda>t d. AList.update (pn_key t) (allowed_tools p t) d) ts d) k = Some ns" for ts d
    using that
  proof (induction ts arbitrary: d)
    case (Cons t ts)
    have "(\<exists>t \<in> set ts. pn_key t = k \<and> ns = allowed_tools p t) \<or>
        map_of (AList.update (pn_key t) (allowed_tools p t) d) k = Some ns"
      by (rule Cons.IH) (use Cons.prems in simp)
    then show ?case by (auto split: if_splits)
  qed simp
  then show ?thesis using assms by (fastforce simp: tools_by_node_def allowed_tools_def)
qed

lemma scoped_by_registry:
  assumes "plan_scoped_tools p (Some (\<lambda>ns. specs_for r (Some ns))) base k = Inr ts" "sp \<in> set ts"
  shows "\<exists>t \<in> set (xp_tasks p). pn_key t = k \<and>
    (\<exists>n \<in> set (allowed_tools p t). \<exists>tool. map_of (tr_tools r) n = Some tool \<and> rt_enabled tool \<and> sp = to_spec tool)"
proof -
  obtain ns where ns: "map_of (tools_by_node p) k = Some ns" "specs_for r (Some (sort (remdups ns))) = Inr ts"
    using assms by (auto simp: plan_scoped_tools_def split: option.splits if_splits)
  from specs_for_exact [OF ns(2)] assms(2)
  obtain tool n where "n \<in> set ns" "map_of (tr_tools r) n = Some tool" "rt_enabled tool" "sp = to_spec tool"
    by auto
  with tools_by_node_sub [OF ns(1)] show ?thesis by blast
qed

lemma scoped_by_filter:
  assumes "plan_scoped_tools p None base k = Inr ts" "sp \<in> set ts"
  shows "\<exists>t \<in> set (xp_tasks p). pn_key t = k \<and> tl_name sp \<in> set (allowed_tools p t)"
  using assms tools_by_node_sub [of p k]
  by (auto simp: plan_scoped_tools_def and_then_def split: option.splits if_splits sum.splits)

lemma scoped_exact:
  assumes "plan_scoped_tools p (Some (\<lambda>ns. specs_for r (Some ns))) base (pn_key t) = Inr ts"
    "distinct (plan_keys p)" "t \<in> set (xp_tasks p)"
  shows "set ts = {to_spec tool | tool n. n \<in> set (allowed_tools p t) \<and>
    map_of (tr_tools r) n = Some tool \<and> rt_enabled tool}"
proof -
  obtain u where "List.find (\<lambda>u. pn_key u = pn_key t) (xp_tasks p) = Some u"
    using assms(3) by (cases "List.find (\<lambda>u. pn_key u = pn_key t) (xp_tasks p)") (auto simp: find_None_iff)
  moreover from this have "u = t"
    using assms(2,3) by (auto simp: find_Some_iff plan_keys_def distinct_map inj_on_def)
  ultimately have "map_of (tools_by_node p) (pn_key t) = Some (allowed_tools p t)"
    by (simp add: tools_by_node_lookup [OF assms(2)])
  then show ?thesis
    using assms(1) specs_for_exact [of r "sort (remdups (allowed_tools p t))" ts]
    by (auto simp: plan_scoped_tools_def split: if_splits)
qed

section \<open>The stored plan\<close>

lemma json_obj_Some: "json_obj v = Some d \<longleftrightarrow> v = JObj d"
  by (cases v) simp_all

lemma plan_for_session_Inr:
  "plan_for_session pc i w = (Inr p, w') \<longleftrightarrow>
     w' = w \<and> (\<exists>s d. memory_get (w_store w) i = Some s \<and> dict_get (rs_metadata s) ''execution_plan'' = JObj d \<and>
       pc_plan_load pc d = Inr p)"
  by (auto simp: plan_for_session_def svc_bind_Inr get_session_Inr svc_lift_Inr json_obj_Some
      simp del: svc_lift_eq split: option.splits)

lemma apply_revision_stores:
  assumes "apply_workflow_revision r now tick born s = Inr (sm, s')"
    "map_of (rev (wr_metadata r)) k = Some v" "k \<noteq> ''workflow_revisions''"
  shows "map_of (rs_metadata s') k = Some v"
  using assms
  by (auto simp: apply_workflow_revision_def raise_when_def Let_def dict_merge_lookup
      split: prod.splits if_splits)

lemma revision_stores:
  assumes "apply_control_workflow_revision i r w = (Inr s, w')" "keyed (w_store w)"
    "map_of (rev (wr_metadata r)) k = Some v" "k \<noteq> ''workflow_revisions''"
  shows "memory_get (w_store w') i = Some s" "map_of (rs_metadata s) k = Some v"
proof -
  have "apply_workflow_revision_op i r w = (Inr s, w')"
    using assms(1) by (auto simp: apply_control_workflow_revision_def svc_bind_Inr svc_lift_def
        apply_workflow_revision_intent_def blank_intent_def
        split: if_splits sum.splits option.splits)
  then obtain s0 sm s1 where s0: "memory_get (w_store w) i = Some s0"
      and r: "apply_workflow_revision r (ev_now (w_env w (w_ops w)) 0) (ev_tick (w_env w (w_ops w)))
        (ev_born_key (w_env w (w_ops w))) s0 = Inr (sm, s1)"
      and p: "put_session s1 (w\<lparr>w_ops := Suc (w_ops w)\<rparr>) = (Inr s, w')"
    by (auto simp: apply_workflow_revision_op_def svc_bind_Inr get_session_Inr svc_env_def svc_lift_Inr
        simp del: svc_lift_eq)
  show "map_of (rs_metadata s) k = Some v"
    using apply_revision_stores [OF r assms(3,4)] put_session_Inr(1) [OF p] by simp
  have "rs_id s1 = i"
    using evolves_apply_workflow_revision [OF r] s0 assms(2)
    by (auto simp: evolves_def keyed_def memory_get_def dest: map_of_SomeD)
  then show "memory_get (w_store w') i = Some s"
    using put_session_Inr(1,2) [OF p] by simp
qed

lemma applied_plan_is_stored:
  assumes "apply_plan_delta pc i delta w = (Inr p, w')" "keyed (w_store w)"
    and codec: "pc_plan_json pc p = JObj d" "pc_plan_load pc d = Inr p"
  shows "plan_for_session pc i w' = (Inr p, w')"
proof -
  obtain current w1 w2 s where c: "plan_for_session pc i w = (Inr current, w1)" "apply_delta current delta = Inr p"
      and r: "apply_control_workflow_revision i (plan_revision pc current p delta) w1 = (Inr s, w2)" and w': "w' = w2"
    using assms(1) by (auto simp: apply_plan_delta_def svc_bind_Inr svc_lift_Inr svc_return_def simp del: svc_lift_eq)
  have w1: "w1 = w" using c(1) unfolding plan_for_session_Inr by simp
  have "map_of (rev (wr_metadata (plan_revision pc current p delta))) ''execution_plan'' = Some (JObj d)"
    by (simp add: plan_revision_def as_session_metadata_def codec)
  from revision_stores [OF r _ this] assms(2) show ?thesis
    unfolding plan_for_session_Inr w' by (auto simp: w1 dict_get_def codec)
qed

text \<open>
  A change with a task that is removed and added at once is a plan with a key twice: the planner
  accepts it, and the control plane refuses the workflow, so the session keeps the plan it had.
\<close>

lemma duplicate_key_iff: "duplicate_key seen ks \<longleftrightarrow> \<not> (distinct ks \<and> set ks \<inter> set seen = {})"
  by (induction ks arbitrary: seen) auto

lemma validate_blueprint_distinct: "validate_blueprint b = Inr u \<Longrightarrow> distinct (blueprint_keys b)"
  by (simp add: validate_blueprint_def duplicate_key_iff)

lemma applied_plan_is_distinct:
  assumes "apply_plan_delta pc i delta w = (Inr p, w')"
  shows "distinct (plan_keys p)"
proof -
  obtain current w1 w2 s where
      r: "apply_control_workflow_revision i (plan_revision pc current p delta) w1 = (Inr s, w2)"
    using assms(1) by (auto simp: apply_plan_delta_def svc_bind_Inr svc_lift_Inr svc_return_def simp del: svc_lift_eq)
  then have "validate_blueprint (wr_revised_blueprint (plan_revision pc current p delta)) = Inr ()"
    by (auto simp: apply_control_workflow_revision_def svc_bind_Inr svc_lift_def apply_workflow_revision_intent_def
        blank_intent_def apply_workflow_revision_op_def apply_workflow_revision_def
        split: if_splits sum.splits option.splits)
  from validate_blueprint_distinct [OF this] show ?thesis
    by (simp add: plan_revision_def to_blueprint_def blueprint_keys_def plan_keys_def to_workflow_node_def
        Let_def comp_def)
qed

section \<open>The plans of a goal\<close>

text \<open>
  The plans a session of a goal can have: the first one, and those that a revision made of one of
  them, asked from the planner and applied through the control plane.
\<close>

inductive goal_plan :: "model_planner \<Rightarrow> plan_codec \<Rightarrow> goal_spec \<Rightarrow> execution_plan \<Rightarrow> bool"
  for pl :: model_planner and pc :: plan_codec and g :: goal_spec where
  plan_first: "initial_plan pl g w = (Inr p, w') \<Longrightarrow> goal_plan pl pc g p"
| plan_revised: "goal_plan pl pc g p \<Longrightarrow> revise_plan pl g p feedback w = (Inr delta, w1) \<Longrightarrow>
    plan_for_session pc i w2 = (Inr p, w3) \<Longrightarrow> apply_plan_delta pc i delta w2 = (Inr p', w4) \<Longrightarrow> goal_plan pl pc g p'"

lemma apply_plan_delta_current:
  assumes "plan_for_session pc i w = (Inr p, w1)" "apply_plan_delta pc i delta w = (Inr p', w')"
  shows "apply_delta p delta = Inr p'"
  using assms by (auto simp: apply_plan_delta_def svc_bind_Inr svc_lift_Inr svc_return_def simp del: svc_lift_eq)

lemma goal_plans_ok: "goal_plan pl pc g p \<Longrightarrow> plan_ok p \<and> xp_goal p = g"
proof (induction rule: goal_plan.induct)
  case (plan_first w p w')
  then show ?case using initial_plan_facts by blast
next
  case (plan_revised p feedback w delta w1 i w2 w3 p' w4)
  note applied = apply_plan_delta_current [OF plan_revised.hyps(3,4)]
  have ok: "plan_ok p" "delta_ok (xp_goal p) delta"
    using plan_revised.IH revise_plan_facts(1) [OF plan_revised.hyps(2)] by auto
  note facts = apply_delta_facts [OF applied ok]
  show ?case
    using facts(2-4) applied_plan_is_distinct [OF plan_revised.hyps(4)] plan_revised.IH by simp
qed

end
