(* ===== verification/Py_Paths.thy ===== *)
theory Py_Paths
  imports Py_Values Redaction
begin

text \<open>
  \<^verbatim>\<open>pathlib.Path\<close> on POSIX, as far as the code uses it: a path is a root (empty, one slash or
  two) and its components; empty components and single dots disappear when a text is read. What
  depends on the file system is the record \<open>file_system\<close>: \<^verbatim>\<open>resolve(strict=False)\<close>,
  \<^verbatim>\<open>exists()\<close> and \<^verbatim>\<open>read_text\<close>.
\<close>

section \<open>Paths\<close>

record py_path =
  pth_root :: string
  pth_parts :: "string list"

fun split_slash :: "string \<Rightarrow> string list" where
  "split_slash [] = [[]]"
| "split_slash (c # cs) =
     (if c = CHR ''/'' then [] # split_slash cs
      else case split_slash cs of [] \<Rightarrow> [[c]] | s # ss \<Rightarrow> (c # s) # ss)"

definition path_root :: "string \<Rightarrow> string" where
  "path_root s =
     (if \<not> py_startswith s ''/'' then []
      else if py_startswith s ''//'' \<and> \<not> py_startswith s ''///'' then ''//''
      else ''/'')"

definition make_path :: "string \<Rightarrow> py_path" where
  "make_path s = \<lparr>pth_root = path_root s, pth_parts = filter (\<lambda>p. p \<noteq> [] \<and> p \<noteq> ''.'') (split_slash s)\<rparr>"

definition path_str :: "py_path \<Rightarrow> string" where
  "path_str p =
     (let s = pth_root p @ py_join ''/'' (pth_parts p) in if s = [] then ''.'' else s)"

definition is_absolute :: "py_path \<Rightarrow> bool" where
  "is_absolute p \<longleftrightarrow> pth_root p \<noteq> []"

definition path_join :: "py_path \<Rightarrow> py_path \<Rightarrow> py_path" where
  "path_join a b = (if is_absolute b then b else a\<lparr>pth_parts := pth_parts a @ pth_parts b\<rparr>)"

definition path_parent :: "py_path \<Rightarrow> py_path" where
  "path_parent p = p\<lparr>pth_parts := butlast (pth_parts p)\<rparr>"

definition path_name :: "py_path \<Rightarrow> string" where
  "path_name p = (if pth_parts p = [] then [] else last (pth_parts p))"

text \<open>The suffix begins at the last dot, which is neither the first nor the last character.\<close>

definition path_suffix :: "py_path \<Rightarrow> string" where
  "path_suffix p =
     (let ext = takeWhile (\<lambda>c. c \<noteq> CHR ''.'') (rev (path_name p)) in
      if ext \<noteq> [] \<and> length ext + 1 < length (path_name p) then CHR ''.'' # rev ext else [])"

text \<open>\<^verbatim>\<open>p.relative_to(base)\<close> succeeds.\<close>

definition path_under :: "py_path \<Rightarrow> py_path \<Rightarrow> bool" where
  "path_under base p \<longleftrightarrow> pth_root p = pth_root base \<and> take (length (pth_parts base)) (pth_parts p) = pth_parts base"

lemma path_under_refl [simp]: "path_under p p"
  by (simp add: path_under_def)

lemma path_under_join: "\<not> is_absolute q \<Longrightarrow> path_under p (path_join p q)"
  by (simp add: path_under_def path_join_def)

lemma path_under_iff: "path_under base p \<longleftrightarrow> (\<exists>q. \<not> is_absolute q \<and> p = path_join base q)"
proof
  assume h: "path_under base p"
  let ?q = "\<lparr>pth_root = [], pth_parts = drop (length (pth_parts base)) (pth_parts p)\<rparr>"
  have "pth_parts base @ drop (length (pth_parts base)) (pth_parts p) = pth_parts p"
    using h by (metis path_under_def append_take_drop_id)
  then have "p = path_join base ?q"
    using h by (cases p; cases base) (simp add: path_join_def is_absolute_def path_under_def)
  then show "\<exists>q. \<not> is_absolute q \<and> p = path_join base q" by (intro exI [of _ ?q]) (simp add: is_absolute_def)
next
  assume "\<exists>q. \<not> is_absolute q \<and> p = path_join base q"
  then show "path_under base p" using path_under_join by blast
qed

section \<open>Text and path\<close>

text \<open>A path that a text gave: its components are names, and its text gives it again.\<close>

definition clean_path :: "py_path \<Rightarrow> bool" where
  "clean_path p \<longleftrightarrow> pth_root p \<in> {[], ''/'', ''//''} \<and>
     (\<forall>x \<in> set (pth_parts p). x \<noteq> [] \<and> x \<noteq> ''.'' \<and> CHR ''/'' \<notin> set x)"

lemma split_slash_parts: "x \<in> set (split_slash s) \<Longrightarrow> CHR ''/'' \<notin> set x"
  by (induction s arbitrary: x) (auto split: if_splits list.splits)

lemma make_path_clean [simp]: "clean_path (make_path s)"
  by (auto simp: clean_path_def make_path_def path_root_def split_slash_parts)

lemma split_slash_nonempty [simp]: "split_slash s \<noteq> []"
  by (cases s) (auto split: list.split)

lemma split_slash_name: "CHR ''/'' \<notin> set x \<Longrightarrow> split_slash x = [x]"
  by (induction x) auto

lemma split_slash_append: "CHR ''/'' \<notin> set x \<Longrightarrow> split_slash (x @ CHR ''/'' # s) = x # split_slash s"
  by (induction x) auto

lemma split_slash_join:
  "\<forall>x \<in> set xs. CHR ''/'' \<notin> set x \<Longrightarrow> xs \<noteq> [] \<Longrightarrow> split_slash (py_join ''/'' xs) = xs"
  by (induction "''/''" xs rule: py_join.induct) (auto simp: split_slash_name split_slash_append)

lemma join_starts:
  assumes "\<forall>x \<in> set xs. x \<noteq> [] \<and> CHR ''/'' \<notin> set x"
  shows "\<not> py_startswith (py_join ''/'' xs) ''/''"
  using assms by (cases xs; cases "hd xs"; cases "tl xs") (auto simp: py_startswith_def)

lemma make_path_str: 
  assumes "clean_path p"
  shows "make_path (path_str p) = p"
proof -
  have names: "\<forall>x \<in> set (pth_parts p). x \<noteq> [] \<and> x \<noteq> ''.'' \<and> CHR ''/'' \<notin> set x"
    using assms by (simp add: clean_path_def)
  have keep: "filter (\<lambda>x. x \<noteq> [] \<and> x \<noteq> ''.'') (pth_parts p) = pth_parts p"
    using names by (simp add: filter_id_conv)
  have parts: "filter (\<lambda>x. x \<noteq> [] \<and> x \<noteq> ''.'') (split_slash (py_join ''/'' (pth_parts p))) = pth_parts p"
    by (cases "pth_parts p = []") (use names keep split_slash_join in auto)
  have st: "\<not> py_startswith (py_join ''/'' (pth_parts p)) ''/''" using names join_starts by blast
  consider "pth_root p = []" | "pth_root p = ''/''" | "pth_root p = ''//''"
    using assms by (auto simp: clean_path_def)
  then show ?thesis
  proof cases
    case 1
    show ?thesis
    proof (cases "pth_parts p = []")
      case True
      with 1 show ?thesis by (cases p) (simp add: path_str_def make_path_def path_root_def py_startswith_def)
    next
      case False
      then have "py_join ''/'' (pth_parts p) \<noteq> []"
        using names by (cases "pth_parts p"; cases "tl (pth_parts p)") auto
      with 1 parts st show ?thesis by (cases p) (simp add: path_str_def make_path_def path_root_def)
    qed
  next
    case 2
    with parts st show ?thesis
      by (cases p) (auto simp: path_str_def make_path_def path_root_def py_startswith_def)
  next
    case 3
    with parts st show ?thesis
      by (cases p) (auto simp: path_str_def make_path_def path_root_def py_startswith_def)
  qed
qed

section \<open>The file system\<close>

record file_system =
  fs_resolve :: "py_path \<Rightarrow> py_path"
  fs_exists :: "py_path \<Rightarrow> bool"
  fs_read :: "py_path \<Rightarrow> exn + string"

end
