(* ===== verification/Verification.thy ===== *)
theory Verification
  imports Py_Paths Goal_Plan Plan_Payload Node_Invocation
begin

text \<open>
  The verifier runners of \<^verbatim>\<open>orchestration/verification.py\<close>, with the checks of
  \<^verbatim>\<open>verification_content.py\<close> and \<^verbatim>\<open>verification_semantic.py\<close> and the prompts of
  \<^verbatim>\<open>builtin_prompts/semantic_verifier.py\<close>. A runner adds results and feedback to the report of
  a node: that the artifacts of its contract exist, that images an artifact refers to lie under the
  artifact root, and what a model says of a rubric.
\<close>

type_synonym verifier_runner = "runtime_session \<Rightarrow> pydict \<Rightarrow> agent_report \<Rightarrow> agent_report svc"

text \<open>What Pydantic makes of the contract of a node: the contract, or the errors it reports.\<close>

type_synonym contract_loader = "pydict \<Rightarrow> json + task_contract"

definition add_evidence ::
    "verifier_result list \<Rightarrow> feedback_record list \<Rightarrow> agent_report \<Rightarrow> agent_report" where
  "add_evidence results feedback r =
     r\<lparr>ar_verifier_results := ar_verifier_results r @ results, ar_feedback := ar_feedback r @ feedback\<rparr>"

section \<open>Contracts and artifacts\<close>

definition invalid_contract :: "json \<Rightarrow> task_contract" where
  "invalid_contract err = empty_contract\<lparr>tk_metadata := [(''_invalid_task_contract'', JBool True), (''error'', err)]\<rparr>"

definition contract_from_config :: "contract_loader \<Rightarrow> pydict \<Rightarrow> task_contract option" where
  "contract_from_config load node_config =
     (case dict_get node_config ''task_contract'' of
        JNull \<Rightarrow> None
      | JObj d \<Rightarrow> Some (case load d of Inl err \<Rightarrow> invalid_contract err | Inr c \<Rightarrow> c)
      | _ \<Rightarrow> Some (invalid_contract (JStr ''task_contract must be an object'')))"

definition contained :: "py_path \<Rightarrow> py_path \<Rightarrow> py_path option" where
  "contained base p = (if path_under base p then Some p else None)"

definition artifact_path :: "file_system \<Rightarrow> py_path \<Rightarrow> string \<Rightarrow> py_path option" where
  "artifact_path fs artifact_root raw_path =
     (let candidate = make_path raw_path in
      if is_absolute candidate then None
      else let base = fs_resolve fs artifact_root in
        contained base (fs_resolve fs (path_join base candidate)))"

definition markdown_directory :: "file_system \<Rightarrow> py_path \<Rightarrow> string option \<Rightarrow> py_path" where
  "markdown_directory fs artifact_root artifact_ref =
     (let base = fs_resolve fs artifact_root in
      case artifact_ref of
        None \<Rightarrow> base
      | Some ref \<Rightarrow>
          if ref = [] \<or> is_absolute (make_path ref) then base
          else let resolved = fs_resolve fs (path_join base (make_path ref)) in
            if path_suffix resolved \<noteq> [] then path_parent resolved else resolved)"

definition markdown_relative_artifact_path ::
    "file_system \<Rightarrow> py_path \<Rightarrow> py_path \<Rightarrow> string \<Rightarrow> py_path option" where
  "markdown_relative_artifact_path fs artifact_root markdown_dir raw_path =
     (let candidate = make_path raw_path in
      if is_absolute candidate then None
      else contained (fs_resolve fs artifact_root) (fs_resolve fs (path_join markdown_dir candidate)))"

text \<open>The loop that sorts references into present, missing and invalid ones.\<close>

definition sort_refs ::
    "file_system \<Rightarrow> (string \<Rightarrow> py_path option) \<Rightarrow> string list \<Rightarrow> string list \<times> string list \<times> string list" where
  "sort_refs fs locate refs =
     (filter (\<lambda>x. case locate x of None \<Rightarrow> False | Some p \<Rightarrow> fs_exists fs p) refs,
      filter (\<lambda>x. case locate x of None \<Rightarrow> False | Some p \<Rightarrow> \<not> fs_exists fs p) refs,
      filter (\<lambda>x. locate x = None) refs)"

definition verify_expected_artifacts :: "file_system \<Rightarrow> py_path \<Rightarrow> task_contract \<Rightarrow> verifier_result" where
  "verify_expected_artifacts fs artifact_root c =
     (case sort_refs fs (artifact_path fs artifact_root) (tk_expected_artifacts c) of
        (present, missing, invalid) \<Rightarrow>
          \<lparr>vr_name = ''artifact.exists'', vr_passed = (missing = [] \<and> invalid = []), vr_score = None,
           vr_evidence_refs = present,
           vr_detail = [(''artifact_root'', JStr (path_str artifact_root)),
             (''expected_artifacts'', json_strs (tk_expected_artifacts c)),
             (''present'', json_strs present), (''missing'', json_strs missing), (''invalid'', json_strs invalid)],
           vr_repair_instruction = (if missing @ invalid = [] then None
             else Some (''Create expected artifact(s): '' @ py_join '', '' (missing @ invalid)))\<rparr>)"

definition listed :: "string list \<Rightarrow> string \<Rightarrow> string list" where
  "listed items label = (if items = [] then [] else [label @ '': '' @ py_join '', '' items])"

definition or_text :: "string \<Rightarrow> string \<Rightarrow> string" where
  "or_text a b = (if a = [] then b else a)"

definition feedback_message :: "string list \<Rightarrow> string list \<Rightarrow> string" where
  "feedback_message missing invalid =
     or_text (py_join ''; '' (listed missing ''missing expected artifact(s)'' @
       listed invalid ''invalid expected artifact path(s)'')) ''expected artifact verification failed''"

definition detail_strings :: "(json \<Rightarrow> string) \<Rightarrow> pydict \<Rightarrow> string \<Rightarrow> string list" where
  "detail_strings repr_of d key = (case json_list (dict_get d key) of None \<Rightarrow> [] | Some vs \<Rightarrow> map (py_str repr_of) vs)"

definition artifact_feedback :: "(json \<Rightarrow> string) \<Rightarrow> string \<Rightarrow> verifier_result \<Rightarrow> feedback_record" where
  "artifact_feedback repr_of node_key v =
     (let missing = detail_strings repr_of (vr_detail v) ''missing'';
          invalid = detail_strings repr_of (vr_detail v) ''invalid'' in
      \<lparr>fr_source = ''verifier.artifact_exists'', fr_message = feedback_message missing invalid,
       fr_target_node_key = Some node_key, fr_severity = ''error'',
       fr_suggested_action = Some Decision_REVISE, fr_evidence_refs = missing @ invalid,
       fr_detail = vr_detail v\<rparr>)"

definition task_contract_verifier ::
    "file_system \<Rightarrow> contract_loader \<Rightarrow> (json \<Rightarrow> string) \<Rightarrow> py_path \<Rightarrow> verifier_runner" where
  "task_contract_verifier fs load repr_of artifact_root s node_config r =
     svc_return (case contract_from_config load node_config of
        None \<Rightarrow> r
      | Some c \<Rightarrow>
          if tk_expected_artifacts c = [] then r
          else let v = verify_expected_artifacts fs artifact_root c in
            add_evidence [v] (if vr_passed v then [] else [artifact_feedback repr_of (ar_node_key r) v]) r)"

section \<open>Images of an artifact\<close>

definition locate_existing_artifact ::
    "file_system \<Rightarrow> py_path \<Rightarrow> string list \<Rightarrow> (string \<times> py_path) option" where
  "locate_existing_artifact fs artifact_root expected =
     map_option (\<lambda>raw. (raw, the (artifact_path fs artifact_root raw)))
       (List.find (\<lambda>raw. case artifact_path fs artifact_root raw of None \<Rightarrow> False | Some p \<Rightarrow> fs_exists fs p) expected)"

text \<open>
  The expression for an image of Markdown, at the start of the text: the target and the length of
  the match. The scan takes the matches from left to right; \<open>skip\<close> counts the characters of the
  current one that are left.
\<close>

definition match_image :: "string \<Rightarrow> (string \<times> nat) option" where
  "match_image cs =
     (let alt = takeWhile (\<lambda>c. c \<noteq> CHR '']'') (drop 2 cs);
          rest = drop (2 + length alt) cs;
          target = takeWhile (\<lambda>c. c \<noteq> CHR '')'') (drop 2 rest) in
      if py_startswith cs ''!['' \<and> py_startswith rest ''](''  \<and> target \<noteq> [] \<and> drop (2 + length target) rest \<noteq> []
      then Some (target, 5 + length alt + length target) else None)"

fun image_refs :: "nat \<Rightarrow> string \<Rightarrow> string list" where
  "image_refs skip [] = []"
| "image_refs skip (c # cs) =
     (if 0 < skip then image_refs (skip - 1) cs
      else case match_image (c # cs) of
        None \<Rightarrow> image_refs 0 cs
      | Some (target, n) \<Rightarrow> target # image_refs (n - 1) cs)"

definition extract_image_targets :: "string \<Rightarrow> string list" where
  "extract_image_targets text = map py_strip (image_refs 0 text)"

definition link_char :: "char \<Rightarrow> bool" where
  "link_char c \<longleftrightarrow> \<not> py_isspace c \<and> c \<notin> {CHR '')'', CHR '']'', CHR ''<'', CHR ''>'', CHR 0x22, CHR 0x27}"

definition is_url :: "string \<Rightarrow> bool" where
  "is_url s \<longleftrightarrow>
     (case (if py_startswith s ''https://'' then drop 8 s else if py_startswith s ''http://'' then drop 7 s else []) of
        [] \<Rightarrow> False | c # _ \<Rightarrow> link_char c)"

definition content_feedback :: "string \<Rightarrow> string \<Rightarrow> string \<Rightarrow> pydict \<Rightarrow> feedback_record" where
  "content_feedback node_key name message detail =
     \<lparr>fr_source = ''verifier.content_quality'', fr_message = name @ '': '' @ message,
      fr_target_node_key = Some node_key, fr_severity = ''error'',
      fr_suggested_action = Some Decision_REVISE, fr_evidence_refs = [], fr_detail = detail\<rparr>"

definition check_local_assets ::
    "file_system \<Rightarrow> string list \<Rightarrow> py_path \<Rightarrow> string option \<Rightarrow> string \<Rightarrow> verifier_result \<times> feedback_record list" where
  "check_local_assets fs targets artifact_root artifact_ref node_key =
     (case sort_refs fs
         (markdown_relative_artifact_path fs artifact_root (markdown_directory fs artifact_root artifact_ref))
         (filter (\<lambda>t. \<not> is_url t) targets) of
        (present, missing, invalid) \<Rightarrow>
          let detail = [(''present'', json_strs present), (''missing'', json_strs missing),
                (''invalid'', json_strs invalid),
                (''artifact'', JStr (case artifact_ref of None \<Rightarrow> [] | Some x \<Rightarrow> x))];
              passed = (missing = [] \<and> invalid = []) in
          (\<lparr>vr_name = ''artifact.local_assets_contained'', vr_passed = passed, vr_score = None,
            vr_evidence_refs = [], vr_detail = detail, vr_repair_instruction = None\<rparr>,
           if passed then []
           else [content_feedback node_key ''artifact.local_assets_contained''
             (or_text (py_join ''; '' (listed missing ''missing local asset(s)'' @
               listed invalid ''invalid local asset path(s)'')) ''local asset verification failed'') detail]))"

definition containment_verifier :: "file_system \<Rightarrow> contract_loader \<Rightarrow> py_path \<Rightarrow> verifier_runner" where
  "containment_verifier fs load artifact_root s node_config r =
     (case Option.bind (contract_from_config load node_config)
         (\<lambda>c. map_option (Pair c) (tk_quality_contract c)) of
        None \<Rightarrow> svc_return r
      | Some (c, q) \<Rightarrow>
          if \<not> qc_local_assets_contained q then svc_return r
          else case locate_existing_artifact fs artifact_root (tk_expected_artifacts c) of
            None \<Rightarrow> svc_return r
          | Some (ref, p) \<Rightarrow>
              svc_bind (svc_lift (fs_read fs p)) (\<lambda>text.
              let targets = extract_image_targets text in
              svc_return (if targets = [] then r
                else case check_local_assets fs targets artifact_root (Some ref) (ar_node_key r) of
                  (v, feedback) \<Rightarrow> add_evidence [v] feedback r)))"

section \<open>Runners in a row\<close>

fun composite_verifier :: "verifier_runner list \<Rightarrow> verifier_runner" where
  "composite_verifier [] s node_config r = svc_return r"
| "composite_verifier (v # vs) s node_config r =
     svc_bind (v s node_config r) (\<lambda>r1. composite_verifier vs s node_config r1)"

end
