(* ===== verification/Semantic_Verification.thy ===== *)
theory Semantic_Verification
  imports Verification
begin

text \<open>
  The runner that asks a model to judge an artifact against a rubric
  (\<^verbatim>\<open>SemanticArtifactVerifierRunner\<close>, \<^verbatim>\<open>verification_semantic.py\<close>,
  \<^verbatim>\<open>builtin_prompts/semantic_verifier.py\<close>). \<^verbatim>\<open>json\<close>, \<^verbatim>\<open>float\<close> of a text,
  \<^verbatim>\<open>repr\<close> of a text and the text of an exception are fields of the runner, and so is the mark
  of a truncated text, whose ellipsis is beyond the modelled characters. A score is a finite number.
\<close>

record semantic_verifier =
  sv_runtime :: agent_runtime
  sv_role :: string
  sv_max_json_repairs :: int
  sv_max_chars :: int
  sv_loads :: "string \<Rightarrow> json option"
  sv_json_msg :: "string \<Rightarrow> string"
  sv_raw_decode :: "string \<Rightarrow> json option"
  sv_dumps :: "json \<Rightarrow> string"
  sv_float :: "string \<Rightarrow> rat option"
  sv_repr :: "string \<Rightarrow> string"
  sv_reason :: "exn \<Rightarrow> string \<times> string"
  sv_truncated :: string

section \<open>Prompts\<close>

definition SEMANTIC_VERIFIER_SYSTEM :: string where
  "SEMANTIC_VERIFIER_SYSTEM =
     ''You are an opt-in JSON-only rubric judge. '' @ ''Respond with strict JSON; no commentary outside JSON.''"

definition SEMANTIC_VERIFIER_JSON_REPAIR_SYSTEM :: string where
  "SEMANTIC_VERIFIER_JSON_REPAIR_SYSTEM =
     ''You repair rubric judge output into strict JSON. '' @
     ''Respond with one JSON object only; no commentary outside JSON.''"

definition response_shape :: json where
  "response_shape = JObj
     [(''checks'', JList [JObj
        [(''name'', JStr ''string (matches a requested check name)''),
         (''score'', JStr ''number in [0.0, 1.0]''), (''passed'', JStr ''boolean''),
         (''comment'', JStr ''string (short evidence; <= 200 chars)'')]]),
      (''overall_summary'', JStr ''string'')]"

definition check_payload :: "semantic_rubric_check \<Rightarrow> json" where
  "check_payload c = JObj [(''name'', JStr (sc_name c)), (''description'', JStr (sc_description c)),
     (''min_score'', JFloat (sc_min_score c))]"

definition render_semantic_verifier_prompt ::
    "semantic_verifier \<Rightarrow> string \<Rightarrow> string \<Rightarrow> json list \<Rightarrow> string" where
  "render_semantic_verifier_prompt sv artifact_ref artifact_text checks = sv_dumps sv (JObj
     [(''request'', JStr ''semantic_rubric_judge''),
      (''instruction'', JStr (''Grade the artifact against each rubric check. '' @
        ''Score each in [0.0, 1.0]; mark passed=true iff score >= min_score. '' @
        ''Return strict JSON matching required_response_shape; '' @
        ''include exactly one entry per requested check.'')),
      (''artifact'', JObj [(''ref'', JStr artifact_ref), (''text'', JStr artifact_text)]),
      (''rubric_checks'', JList checks), (''required_response_shape'', response_shape)])"

definition render_semantic_verifier_json_repair_prompt ::
    "semantic_verifier \<Rightarrow> string \<Rightarrow> string \<Rightarrow> json list \<Rightarrow> string" where
  "render_semantic_verifier_json_repair_prompt sv invalid_response validation_error checks = sv_dumps sv (JObj
     [(''request'', JStr ''semantic_rubric_json_repair''),
      (''instruction'', JStr (''Convert the invalid semantic rubric judge response into one '' @
        ''valid JSON object matching required_response_shape. Do not add '' @
        ''commentary outside JSON. Include exactly one entry per requested '' @
        ''check. If the invalid response does not contain enough evidence '' @
        ''for a requested check, emit score=0.0, passed=false, and a short '' @
        ''comment explaining the missing assessment.'')),
      (''rubric_checks'', JList checks), (''required_response_shape'', response_shape),
      (''validation_error'', JStr validation_error), (''invalid_response'', JStr invalid_response)])"

section \<open>The answer of the judge\<close>

definition SEMANTIC_REPAIR_MAX_CHARS :: nat where
  "SEMANTIC_REPAIR_MAX_CHARS = 12000"

definition truncate_semantic_response :: "string \<Rightarrow> string" where
  "truncate_semantic_response content =
     (if length content \<le> SEMANTIC_REPAIR_MAX_CHARS then content
      else take SEMANTIC_REPAIR_MAX_CHARS content @ CHR 0x0A # ''...[truncated]'')"

text \<open>A \<^verbatim>\<open>ValueError\<close> is its message.\<close>

definition semantic_strict_json_object :: "semantic_verifier \<Rightarrow> string \<Rightarrow> string + pydict" where
  "semantic_strict_json_object sv content =
     (let text = py_strip content in
      if text = [] then Inl ''semantic verifier returned empty content''
      else case sv_loads sv text of
        None \<Rightarrow> (case embedded_json_object (sv_raw_decode sv) text of
            Some d \<Rightarrow> Inr d
          | None \<Rightarrow> Inl (''semantic verifier returned non-JSON content: '' @ sv_json_msg sv text))
      | Some v \<Rightarrow> (case json_obj v of
            None \<Rightarrow> Inl ''semantic verifier response must be a JSON object''
          | Some d \<Rightarrow> Inr d))"

definition fence :: string where
  "fence = replicate 3 (CHR 0x60)"

definition alnum_ascii :: "char \<Rightarrow> bool" where
  "alnum_ascii c \<longleftrightarrow> (let n = of_char c :: nat in
     (48 \<le> n \<and> n \<le> 57) \<or> (65 \<le> n \<and> n \<le> 90) \<or> (97 \<le> n \<and> n \<le> 122))"

text \<open>The shortest text before white space and a fence.\<close>

fun until_fence :: "string \<Rightarrow> string option" where
  "until_fence cs =
     (if py_startswith (dropWhile py_isspace cs) fence then Some []
      else case cs of [] \<Rightarrow> None | c # cs' \<Rightarrow> map_option ((#) c) (until_fence cs'))"

fun semantic_fenced :: "string \<Rightarrow> string option" where
  "semantic_fenced [] = None"
| "semantic_fenced (c # cs) =
     (case (if py_startswith (c # cs) fence
            then until_fence (dropWhile py_isspace (dropWhile alnum_ascii (drop 3 (c # cs)))) else None) of
        Some body \<Rightarrow> Some body
      | None \<Rightarrow> semantic_fenced cs)"

definition semantic_strip_code_fences :: "string \<Rightarrow> string" where
  "semantic_strip_code_fences content = (case semantic_fenced content of None \<Rightarrow> content | Some body \<Rightarrow> body)"

definition semantic_json_payload :: "semantic_verifier \<Rightarrow> string \<Rightarrow> string + pydict" where
  "semantic_json_payload sv content =
     (case semantic_strict_json_object sv content of
        Inr d \<Rightarrow> Inr d
      | Inl _ \<Rightarrow> semantic_strict_json_object sv (semantic_strip_code_fences content))"

fun collect_item :: "string list \<Rightarrow> json \<Rightarrow> pydict \<Rightarrow> pydict" where
  "collect_item requested (JObj d) by_name =
     (case dict_get d ''name'' of
        JStr name \<Rightarrow> if name \<in> set requested then set_default name (JObj d) by_name else by_name
      | _ \<Rightarrow> by_name)"
| "collect_item requested v by_name = by_name"

definition collect_named :: "pydict \<Rightarrow> string \<Rightarrow> pydict \<Rightarrow> pydict" where
  "collect_named raw name by_name =
     (case dict_get raw name of
        JObj d \<Rightarrow> set_default name (JObj (AList.update ''name'' (JStr name) d)) by_name
      | _ \<Rightarrow> by_name)"

fun semantic_collect_items :: "string list \<Rightarrow> json \<Rightarrow> pydict \<Rightarrow> pydict" where
  "semantic_collect_items requested (JList vs) by_name = fold (collect_item requested) vs by_name"
| "semantic_collect_items requested (JObj raw) by_name = fold (collect_named raw) requested by_name"
| "semantic_collect_items requested v by_name = by_name"

definition semantic_items_by_name :: "pydict \<Rightarrow> string list \<Rightarrow> pydict" where
  "semantic_items_by_name payload requested =
     semantic_collect_items requested (JObj payload)
       (fold (\<lambda>key. semantic_collect_items requested (dict_get payload key))
         [''checks'', ''results'', ''rubric_results''] [])"

fun semantic_coerce_score :: "(string \<Rightarrow> rat option) \<Rightarrow> json \<Rightarrow> rat option" where
  "semantic_coerce_score to_float (JInt i) = Some (of_int i)"
| "semantic_coerce_score to_float (JFloat q) = Some q"
| "semantic_coerce_score to_float (JStr s) = to_float s"
| "semantic_coerce_score to_float _ = None"

definition json_score :: "rat option \<Rightarrow> json" where
  "json_score q = (case q of None \<Rightarrow> JNull | Some x \<Rightarrow> JFloat x)"

section \<open>Results\<close>

definition semantic_feedback ::
    "semantic_verifier \<Rightarrow> string \<Rightarrow> semantic_rubric_check \<Rightarrow> string \<Rightarrow> pydict \<Rightarrow> feedback_record" where
  "semantic_feedback sv node_key c reason detail =
     \<lparr>fr_source = ''verifier.semantic_rubric'',
      fr_message = ''semantic check '' @ sv_repr sv (sc_name c) @ '' failed: '' @ reason,
      fr_target_node_key = Some node_key, fr_severity = ''error'',
      fr_suggested_action = Some Decision_REVISE, fr_evidence_refs = [], fr_detail = detail\<rparr>"

definition missing_result ::
    "semantic_verifier \<Rightarrow> string \<Rightarrow> string \<Rightarrow> semantic_rubric_check \<Rightarrow> verifier_result \<times> feedback_record list" where
  "missing_result sv node_key artifact_ref c =
     (let detail = [(''missing_from_response'', JBool True), (''min_score'', JFloat (sc_min_score c)),
            (''criterion'', JStr (sc_description c)), (''artifact'', JStr artifact_ref)] in
      (\<lparr>vr_name = ''artifact.semantic.'' @ sc_name c, vr_passed = False, vr_score = None,
        vr_evidence_refs = [], vr_detail = detail, vr_repair_instruction = None\<rparr>,
       [semantic_feedback sv node_key c ''missing from judge response'' detail]))"

definition judged_result ::
    "semantic_verifier \<Rightarrow> string \<Rightarrow> string \<Rightarrow> semantic_rubric_check \<Rightarrow> pydict \<Rightarrow>
     verifier_result \<times> feedback_record list" where
  "judged_result sv node_key artifact_ref c item =
     (let score = semantic_coerce_score (sv_float sv) (dict_get item ''score'');
          comment = (case dict_get item ''comment'' of JStr s \<Rightarrow> s | _ \<Rightarrow> []);
          says_passed = (dict_get item ''passed'' = JBool True);
          score_passes = (case score of None \<Rightarrow> False | Some q \<Rightarrow> sc_min_score c \<le> q);
          passed = (if score = None then says_passed else score_passes);
          mismatch = (score \<noteq> None \<and> says_passed \<noteq> score_passes);
          detail = [(''comment'', JStr comment), (''min_score'', JFloat (sc_min_score c)),
            (''criterion'', JStr (sc_description c)), (''artifact'', JStr artifact_ref),
            (''judge_passed_raw'', dict_get item ''passed''), (''score_judge_mismatch'', JBool mismatch)] in
      (\<lparr>vr_name = ''artifact.semantic.'' @ sc_name c, vr_passed = passed, vr_score = score,
        vr_evidence_refs = [], vr_detail = detail, vr_repair_instruction = None\<rparr>,
       if passed then []
       else [semantic_feedback sv node_key c (or_text comment ''score below min_score'')
         (detail @ [(''score'', json_score score)])]))"

definition semantic_result ::
    "semantic_verifier \<Rightarrow> pydict \<Rightarrow> string \<Rightarrow> string \<Rightarrow> semantic_rubric_check \<Rightarrow>
     verifier_result \<times> feedback_record list" where
  "semantic_result sv by_name node_key artifact_ref c =
     (case json_obj (dict_get by_name (sc_name c)) of
        None \<Rightarrow> missing_result sv node_key artifact_ref c
      | Some item \<Rightarrow> judged_result sv node_key artifact_ref c item)"

definition semantic_results_from_payload ::
    "semantic_verifier \<Rightarrow> pydict \<Rightarrow> semantic_rubric_check list \<Rightarrow> string \<Rightarrow> string \<Rightarrow>
     verifier_result list \<times> feedback_record list" where
  "semantic_results_from_payload sv payload checks node_key artifact_ref =
     (let requested = filter (\<lambda>n. n \<noteq> []) (map sc_name checks);
          by_name = semantic_items_by_name payload requested;
          rs = map (semantic_result sv by_name node_key artifact_ref) checks in
      (map fst rs, concat (map snd rs)))"

section \<open>The runner\<close>

definition has_failed_deterministic_content_check :: "agent_report \<Rightarrow> bool" where
  "has_failed_deterministic_content_check r \<longleftrightarrow>
     list_ex (\<lambda>v. py_startswith (vr_name v) ''artifact.'' \<and> vr_name v \<noteq> ''artifact.exists'' \<and> \<not> vr_passed v)
       (ar_verifier_results r)"

text \<open>An exception is its text and the name of its type.\<close>

definition semantic_degraded_report :: "agent_report \<Rightarrow> string \<times> string \<Rightarrow> agent_report" where
  "semantic_degraded_report r fault =
     (case fault of (text, type_name) \<Rightarrow>
       let error_text = type_name @ '': '' @ take 200 (or_text text type_name);
           detail = [(''error'', JStr error_text), (''degraded'', JBool True)] in
       add_evidence
         [\<lparr>vr_name = ''artifact.semantic_rubric'', vr_passed = False, vr_score = None,
           vr_evidence_refs = [], vr_detail = detail, vr_repair_instruction = None\<rparr>]
         [\<lparr>fr_source = ''verifier.semantic_rubric'', fr_message = ''semantic verifier unavailable'',
           fr_target_node_key = Some (ar_node_key r), fr_severity = ''error'', fr_suggested_action = None,
           fr_evidence_refs = [], fr_detail = detail\<rparr>] r)"

definition semantic_skipped :: "string \<Rightarrow> agent_report \<Rightarrow> agent_report" where
  "semantic_skipped artifact_ref r = add_evidence
     [\<lparr>vr_name = ''artifact.semantic_rubric'', vr_passed = False, vr_score = None, vr_evidence_refs = [],
       vr_detail = [(''skipped'', JBool True), (''reason'', JStr ''deterministic_failed''),
         (''artifact'', JStr artifact_ref)], vr_repair_instruction = None\<rparr>] [] r"

text \<open>\<^verbatim>\<open>text[:n]\<close>\<close>

definition slice_to :: "int \<Rightarrow> string \<Rightarrow> string" where
  "slice_to n s = take (nat (if n < 0 then int (length s) + n else n)) s"

definition artifact_excerpt :: "semantic_verifier \<Rightarrow> string \<Rightarrow> string" where
  "artifact_excerpt sv text =
     (if sv_max_chars sv < int (length text) then slice_to (sv_max_chars sv) text @ sv_truncated sv else text)"

definition attempted :: "(exn \<Rightarrow> string \<times> string) \<Rightarrow> 'a svc \<Rightarrow> ((string \<times> string) + 'a) svc" where
  "attempted reason m = svc_try (svc_bind m (\<lambda>x. svc_return (Inr x))) (\<lambda>e. svc_return (Inl (reason e)))"

definition ask_judge :: "semantic_verifier \<Rightarrow> string \<Rightarrow> string \<Rightarrow> ((string \<times> string) + string) svc" where
  "ask_judge sv system prompt = attempted (sv_reason sv)
     (svc_bind (complete_model (sv_runtime sv) [harness_message_of Harness_USER prompt] system None (sv_role sv))
       (\<lambda>r. svc_return (iv_content r)))"

definition value_error :: "string \<Rightarrow> string \<times> string" where
  "value_error text = (text, ''ValueError'')"

definition repair_semantic_json_payload ::
    "semantic_verifier \<Rightarrow> string \<Rightarrow> string \<Rightarrow> json list \<Rightarrow> ((string \<times> string) + pydict) svc" where
  "repair_semantic_json_payload sv invalid_response validation_error checks =
     svc_bind (ask_judge sv SEMANTIC_VERIFIER_JSON_REPAIR_SYSTEM
         (render_semantic_verifier_json_repair_prompt sv (truncate_semantic_response invalid_response)
           validation_error checks))
       (\<lambda>answer. svc_return (case answer of
          Inl fault \<Rightarrow> Inl fault
        | Inr content \<Rightarrow> (case semantic_json_payload sv content of
            Inr d \<Rightarrow> Inr d
          | Inl repair_error \<Rightarrow>
              Inl (value_error (validation_error @ ''; semantic JSON repair failed: '' @ repair_error)))))"

definition judge_payload ::
    "semantic_verifier \<Rightarrow> string \<Rightarrow> json list \<Rightarrow> ((string \<times> string) + pydict) svc" where
  "judge_payload sv prompt checks =
     svc_bind (ask_judge sv SEMANTIC_VERIFIER_SYSTEM prompt) (\<lambda>answer.
     case answer of
       Inl fault \<Rightarrow> svc_return (Inl fault)
     | Inr content \<Rightarrow>
         (case semantic_json_payload sv content of
            Inr d \<Rightarrow> svc_return (Inr d)
          | Inl first_error \<Rightarrow>
              if sv_max_json_repairs sv \<le> 0 then svc_return (Inl (value_error first_error))
              else repair_semantic_json_payload sv content first_error checks))"

definition enabled_rubric :: "task_contract option \<Rightarrow> (task_contract \<times> semantic_rubric) option" where
  "enabled_rubric c =
     Option.bind c (\<lambda>c. Option.bind (tk_quality_contract c) (\<lambda>q. Option.bind (qc_semantic_rubric q) (\<lambda>rub.
       if sr_enabled rub \<and> sr_checks rub \<noteq> [] then Some (c, rub) else None)))"

definition semantic_runner ::
    "semantic_verifier \<Rightarrow> file_system \<Rightarrow> contract_loader \<Rightarrow> py_path \<Rightarrow> verifier_runner" where
  "semantic_runner sv fs load artifact_root s node_config r =
     (case enabled_rubric (contract_from_config load node_config) of
        None \<Rightarrow> svc_return r
      | Some (c, rub) \<Rightarrow>
          (case locate_existing_artifact fs artifact_root (tk_expected_artifacts c) of
             None \<Rightarrow> svc_return r
           | Some (ref, p) \<Rightarrow>
               if has_failed_deterministic_content_check r then svc_return (semantic_skipped ref r)
               else
                 svc_bind (svc_lift (fs_read fs p)) (\<lambda>text.
                 let checks = map check_payload (sr_checks rub) in
                 svc_bind (judge_payload sv
                     (render_semantic_verifier_prompt sv ref (artifact_excerpt sv text) checks) checks) (\<lambda>judged.
                 svc_return (case judged of
                   Inl fault \<Rightarrow> semantic_degraded_report r fault
                 | Inr payload \<Rightarrow>
                     (case semantic_results_from_payload sv payload (sr_checks rub) (ar_node_key r) ref of
                        (results, feedback) \<Rightarrow> add_evidence results feedback r))))))"

end
