(* ===== verification/Verification_Facts.thy ===== *)
theory Verification_Facts
  imports Semantic_Verification Invocation_Facts Gating
begin

text \<open>
  What the verifiers promise. They look at nothing outside the artifact root; they only add evidence
  to a report; an artifact that is missing or escapes the root fails the report and halts the node
  at the verifier gate; and a judged report has one result for each check, decided by the score
  where there is one.
\<close>

section \<open>Containment\<close>

lemma contained_Some: "contained base p = Some q \<longleftrightarrow> q = p \<and> path_under base p"
  by (auto simp: contained_def)

lemma artifact_path_under: "artifact_path fs a raw = Some p \<Longrightarrow> path_under (fs_resolve fs a) p"
  by (auto simp: artifact_path_def Let_def contained_Some split: if_splits)

lemma markdown_path_under: "markdown_relative_artifact_path fs a d raw = Some p \<Longrightarrow> path_under (fs_resolve fs a) p"
  by (auto simp: markdown_relative_artifact_path_def Let_def contained_Some split: if_splits)

text \<open>File systems with the same names that agree below a directory.\<close>

definition same_below :: "py_path \<Rightarrow> file_system \<Rightarrow> file_system \<Rightarrow> bool" where
  "same_below base fs fs' \<longleftrightarrow> fs_resolve fs' = fs_resolve fs \<and>
     (\<forall>p. path_under base p \<longrightarrow> fs_exists fs' p = fs_exists fs p \<and> fs_read fs' p = fs_read fs p)"

lemma sort_refs_below:
  assumes "same_below base fs fs'" "\<And>x p. locate x = Some p \<Longrightarrow> path_under base p"
  shows "sort_refs fs' locate refs = sort_refs fs locate refs"
proof -
  have "(case locate x of None \<Rightarrow> False | Some p \<Rightarrow> fs_exists fs' p) = (case locate x of None \<Rightarrow> False | Some p \<Rightarrow> fs_exists fs p)"
    for x using assms(1) assms(2) [of x] by (auto simp: same_below_def split: option.split)
  moreover have "(case locate x of None \<Rightarrow> False | Some p \<Rightarrow> \<not> fs_exists fs' p) = (case locate x of None \<Rightarrow> False | Some p \<Rightarrow> \<not> fs_exists fs p)"
    for x using assms(1) assms(2) [of x] by (auto simp: same_below_def split: option.split)
  ultimately show ?thesis by (simp add: sort_refs_def)
qed

lemma paths_below:
  assumes "same_below base fs fs'"
  shows "artifact_path fs' = artifact_path fs" "markdown_directory fs' = markdown_directory fs"
    "markdown_relative_artifact_path fs' = markdown_relative_artifact_path fs"
  using assms
  by (auto simp: same_below_def artifact_path_def markdown_directory_def markdown_relative_artifact_path_def fun_eq_iff
      Let_def split: option.split)

lemma expected_below:
  assumes "same_below (fs_resolve fs a) fs fs'"
  shows "verify_expected_artifacts fs' a c = verify_expected_artifacts fs a c"
  using sort_refs_below [OF assms, where locate = "artifact_path fs a", OF artifact_path_under]
  by (simp add: verify_expected_artifacts_def paths_below [OF assms])

lemma locate_below:
  assumes "same_below (fs_resolve fs a) fs fs'"
  shows "locate_existing_artifact fs' a = locate_existing_artifact fs a"
proof -
  have "(case artifact_path fs a raw of None \<Rightarrow> False | Some p \<Rightarrow> fs_exists fs' p) =
      (case artifact_path fs a raw of None \<Rightarrow> False | Some p \<Rightarrow> fs_exists fs p)" for raw
    using assms artifact_path_under [of fs a raw] by (auto simp: same_below_def split: option.split)
  then show ?thesis by (simp add: fun_eq_iff locate_existing_artifact_def paths_below [OF assms])
qed

lemma located:
  assumes "locate_existing_artifact fs a expected = Some (ref, p)"
  shows "ref \<in> set expected" "artifact_path fs a ref = Some p" "fs_exists fs p"
  using assms by (auto simp: locate_existing_artifact_def find_Some_iff split: option.splits)

lemma assets_below:
  assumes "same_below (fs_resolve fs a) fs fs'"
  shows "check_local_assets fs' targets a ref key = check_local_assets fs targets a ref key"
  using sort_refs_below [OF assms, where locate = "markdown_relative_artifact_path fs a (markdown_directory fs a ref)",
      OF markdown_path_under]
  by (simp add: check_local_assets_def paths_below [OF assms])

lemma read_below:
  assumes "same_below (fs_resolve fs a) fs fs'" "locate_existing_artifact fs a expected = Some (ref, p)"
  shows "fs_read fs' p = fs_read fs p"
  using assms(1) artifact_path_under [OF located(2) [OF assms(2)]] by (simp add: same_below_def)

lemma runners_below:
  assumes "same_below (fs_resolve fs a) fs fs'"
  shows "task_contract_verifier fs' load repr_of a = task_contract_verifier fs load repr_of a"
    "containment_verifier fs' load a = containment_verifier fs load a"
    "semantic_runner sv fs' load a = semantic_runner sv fs load a"
proof -
  show "task_contract_verifier fs' load repr_of a = task_contract_verifier fs load repr_of a"
    by (auto simp: fun_eq_iff task_contract_verifier_def expected_below [OF assms] split: option.split)
  show "containment_verifier fs' load a = containment_verifier fs load a"
    by (auto simp: fun_eq_iff containment_verifier_def locate_below [OF assms] assets_below [OF assms] read_below [OF assms]
        Let_def cong: if_cong split: option.split)
  show "semantic_runner sv fs' load a = semantic_runner sv fs load a"
    by (auto simp: fun_eq_iff semantic_runner_def locate_below [OF assms] read_below [OF assms] split: option.split)
qed

section \<open>Only evidence\<close>

lemma add_evidence_nil [simp]: "add_evidence [] [] r = r"
  by (simp add: add_evidence_def)

lemma add_evidence_add: "add_evidence vs2 fs2 (add_evidence vs1 fs1 r) = add_evidence (vs1 @ vs2) (fs1 @ fs2) r"
  by (simp add: add_evidence_def)

definition more_evidence :: "agent_report \<Rightarrow> agent_report \<Rightarrow> bool" where
  "more_evidence r r' \<longleftrightarrow> (\<exists>vs fs. r' = add_evidence vs fs r)"

lemma more_evidence_refl [simp]: "more_evidence r r"
  unfolding more_evidence_def by (intro exI [of _ "[]"]) simp

lemma more_evidence_add [simp]: "more_evidence r (add_evidence vs fs r)"
  unfolding more_evidence_def by blast

lemma more_evidence_trans: "more_evidence a b \<Longrightarrow> more_evidence b c \<Longrightarrow> more_evidence a c"
  unfolding more_evidence_def by (metis add_evidence_add)

lemma more_evidence_pair [simp]:
  "more_evidence r (case x of (v, fb) \<Rightarrow> add_evidence [v] fb r)" "more_evidence r (case y of (vs, fb) \<Rightarrow> add_evidence vs fb r)"
  by (auto split: prod.split)

lemma more_evidence_degraded [simp]: "more_evidence r (semantic_degraded_report r fault)"
  by (cases fault) (simp add: semantic_degraded_report_def Let_def)

lemma more_evidence_judged [simp]:
  "more_evidence r (case judged of
     Inl fault \<Rightarrow> semantic_degraded_report r fault
   | Inr payload \<Rightarrow> (case f payload of (results, feedback) \<Rightarrow> add_evidence results feedback r))"
  by (cases judged) simp_all

definition only_adds :: "verifier_runner \<Rightarrow> bool" where
  "only_adds v \<longleftrightarrow> (\<forall>s config r w r' w'. v s config r w = (Inr r', w') \<longrightarrow> more_evidence r r')"

lemma returns_more:
  "svc_return x w = (Inr r', w') \<Longrightarrow> more_evidence r x \<Longrightarrow> more_evidence r r'"
  "svc_bind m f w = (Inr r', w') \<Longrightarrow> (\<And>y w1. f y w1 = (Inr r', w') \<Longrightarrow> more_evidence r r') \<Longrightarrow> more_evidence r r'"
  by (auto simp: svc_return_def svc_bind_Inr)

lemma task_contract_only_adds: "only_adds (task_contract_verifier fs load repr_of a)"
  unfolding only_adds_def task_contract_verifier_def
  by (intro allI impI) (erule returns_more(1), simp add: Let_def split: option.split)

lemma containment_only_adds: "only_adds (containment_verifier fs load a)"
  unfolding only_adds_def containment_verifier_def
proof (intro allI impI, goal_cases)
  case (1 s config r w r' w')
  then show ?case
    by (auto simp: Let_def split: option.splits if_splits elim!: returns_more)
qed

lemma semantic_only_adds: "only_adds (semantic_runner sv fs load a)"
  unfolding only_adds_def semantic_runner_def
proof (intro allI impI, goal_cases)
  case (1 s config r w r' w')
  then show ?case
    by (auto simp: Let_def semantic_skipped_def split: option.splits if_splits elim!: returns_more)
qed

lemma composite_only_adds: "\<forall>v \<in> set vs. only_adds v \<Longrightarrow> only_adds (composite_verifier vs)"
proof (induction vs)
  case Nil
  then show ?case unfolding only_adds_def by (auto simp: svc_return_def)
next
  case (Cons v vs)
  show ?case
    unfolding only_adds_def
  proof (intro allI impI)
    fix s config r w r' w'
    assume "composite_verifier (v # vs) s config r w = (Inr r', w')"
    then obtain r1 w1 where run: "v s config r w = (Inr r1, w1)" "composite_verifier vs s config r1 w1 = (Inr r', w')"
      by (auto simp: svc_bind_Inr)
    have "only_adds v" "only_adds (composite_verifier vs)" using Cons by simp_all
    then have "more_evidence r r1" "more_evidence r1 r'" using run unfolding only_adds_def by blast+
    then show "more_evidence r r'" by (rule more_evidence_trans)
  qed
qed

section \<open>Artifacts\<close>

definition artifact_present :: "file_system \<Rightarrow> py_path \<Rightarrow> string \<Rightarrow> bool" where
  "artifact_present fs a raw \<longleftrightarrow> (\<exists>p. artifact_path fs a raw = Some p \<and> fs_exists fs p)"

lemma expected_passed:
  "vr_passed (verify_expected_artifacts fs a c) \<longleftrightarrow> (\<forall>raw \<in> set (tk_expected_artifacts c). artifact_present fs a raw)"
  by (auto simp: verify_expected_artifacts_def sort_refs_def filter_empty_conv artifact_present_def split: option.splits)

lemma task_contract_verdict:
  assumes "contract_from_config load config = Some c" "tk_expected_artifacts c \<noteq> []"
  shows "\<exists>v fb. task_contract_verifier fs load repr_of a s config r w = (Inr (add_evidence [v] fb r), w) \<and>
    vr_name v = ''artifact.exists'' \<and>
    (vr_passed v \<longleftrightarrow> (\<forall>raw \<in> set (tk_expected_artifacts c). artifact_present fs a raw)) \<and>
    (fb = [] \<longleftrightarrow> vr_passed v)"
proof -
  have "vr_name (verify_expected_artifacts fs a c) = ''artifact.exists''"
    by (simp add: verify_expected_artifacts_def split: prod.split)
  then show ?thesis
    using assms expected_passed [of fs a c]
    by (auto simp: task_contract_verifier_def svc_return_def Let_def)
qed

text \<open>A failed result of a report halts its node at the verifier gate, whatever is added to it.\<close>

lemma failed_result_halts:
  assumes "v \<in> set (ar_verifier_results r)" "\<not> vr_passed v" "r' = add_evidence vs fs r"
  shows "settles (verifier_feedback repr_of contract) s n r' (Some Gate_REQUIRES_DECISION)"
proof -
  have "v \<in> set (judged_results repr_of s n r')" using assms(1,3) by (simp add: judged_results_def add_evidence_def)
  then have "judged_results repr_of s n r' \<noteq> []" "list_ex (\<lambda>v. \<not> vr_passed v) (judged_results repr_of s n r')"
    using assms(2) by (auto simp: list_ex_iff)
  with verifier_settles [of repr_of contract s n r'] show ?thesis by simp
qed

section \<open>The judge\<close>

definition judged_passed :: "semantic_verifier \<Rightarrow> pydict \<Rightarrow> semantic_rubric_check \<Rightarrow> bool" where
  "judged_passed sv by_name c \<longleftrightarrow>
     (case json_obj (dict_get by_name (sc_name c)) of
        None \<Rightarrow> False
      | Some item \<Rightarrow> (case semantic_coerce_score (sv_float sv) (dict_get item ''score'') of
            None \<Rightarrow> dict_get item ''passed'' = JBool True
          | Some q \<Rightarrow> sc_min_score c \<le> q))"

lemma semantic_result_facts:
  "vr_name (fst (semantic_result sv by_name key ref c)) = ''artifact.semantic.'' @ sc_name c"
  "vr_passed (fst (semantic_result sv by_name key ref c)) = judged_passed sv by_name c"
  "length (snd (semantic_result sv by_name key ref c)) = (if judged_passed sv by_name c then 0 else 1)"
  by (simp_all add: semantic_result_def missing_result_def judged_result_def judged_passed_def Let_def split: option.split)

lemma results_from_payload:
  assumes "semantic_results_from_payload sv payload checks key ref = (vs, fs)"
  defines "by_name \<equiv> semantic_items_by_name payload (filter (\<lambda>n. n \<noteq> []) (map sc_name checks))"
  shows "map vr_name vs = map (\<lambda>c. ''artifact.semantic.'' @ sc_name c) checks"
    "map vr_passed vs = map (judged_passed sv by_name) checks"
    "length fs = length (filter (\<lambda>c. \<not> judged_passed sv by_name c) checks)"
proof -
  have vs: "vs = map (\<lambda>c. fst (semantic_result sv by_name key ref c)) checks"
      "fs = concat (map (\<lambda>c. snd (semantic_result sv by_name key ref c)) checks)"
    using assms(1) by (simp_all add: semantic_results_from_payload_def Let_def by_name_def comp_def)
  show "map vr_name vs = map (\<lambda>c. ''artifact.semantic.'' @ sc_name c) checks"
    "map vr_passed vs = map (judged_passed sv by_name) checks"
    unfolding vs by (simp_all add: semantic_result_facts)
  show "length fs = length (filter (\<lambda>c. \<not> judged_passed sv by_name c) checks)"
    unfolding vs by (induction checks) (simp_all add: semantic_result_facts)
qed

lemma attempted_returns: "\<exists>x w'. attempted reason m w = (Inr x, w')"
  by (auto simp: attempted_def svc_try_def svc_bind_def svc_return_def split: prod.split sum.split)

lemma judge_payload_returns: "\<exists>x w'. judge_payload sv prompt checks w = (Inr x, w')"
proof -
  obtain x w1 where x: "ask_judge sv SEMANTIC_VERIFIER_SYSTEM prompt w = (Inr x, w1)"
    unfolding ask_judge_def using attempted_returns by blast
  have "\<exists>y w2. repair_semantic_json_payload sv bad err checks w1 = (Inr y, w2)" for bad err
  proof -
    obtain y w2 where "ask_judge sv SEMANTIC_VERIFIER_JSON_REPAIR_SYSTEM (render_semantic_verifier_json_repair_prompt sv
        (truncate_semantic_response bad) err checks) w1 = (Inr y, w2)"
      unfolding ask_judge_def using attempted_returns by blast
    then show ?thesis by (simp add: repair_semantic_json_payload_def svc_bind_def svc_return_def)
  qed
  with x show ?thesis
    by (auto simp: judge_payload_def svc_bind_def svc_return_def split: sum.split)
qed

text \<open>Whatever the provider does the runner returns, and its verdict is that of the rubric.\<close>

lemma semantic_verdict:
  assumes "enabled_rubric (contract_from_config load config) = Some (c, rub)"
    "locate_existing_artifact fs a (tk_expected_artifacts c) = Some (ref, p)" "fs_read fs p = Inr text"
    "\<not> has_failed_deterministic_content_check r"
  shows "\<exists>vs fb w'. semantic_runner sv fs load a s config r w = (Inr (add_evidence vs fb r), w') \<and>
    ((\<exists>v. vs = [v] \<and> vr_name v = ''artifact.semantic_rubric'' \<and> \<not> vr_passed v) \<or>
     (\<exists>by_name. map vr_name vs = map (\<lambda>c. ''artifact.semantic.'' @ sc_name c) (sr_checks rub) \<and>
        map vr_passed vs = map (judged_passed sv by_name) (sr_checks rub)))"
proof -
  let ?checks = "map check_payload (sr_checks rub)"
  obtain judged w1 where j: "judge_payload sv (render_semantic_verifier_prompt sv ref (artifact_excerpt sv text) ?checks)
      ?checks w = (Inr judged, w1)"
    using judge_payload_returns by blast
  have run: "semantic_runner sv fs load a s config r w = (Inr (case judged of
      Inl fault \<Rightarrow> semantic_degraded_report r fault
    | Inr payload \<Rightarrow> (case semantic_results_from_payload sv payload (sr_checks rub) (ar_node_key r) ref of
        (results, feedback) \<Rightarrow> add_evidence results feedback r)), w1)"
    using assms j by (simp add: semantic_runner_def svc_bind_def svc_lift_def svc_return_def Let_def)
  show ?thesis
  proof (cases judged)
    case (Inl fault)
    then show ?thesis unfolding run by (cases fault) (auto simp: semantic_degraded_report_def Let_def)
  next
    case (Inr payload)
    obtain vs fb where vs: "semantic_results_from_payload sv payload (sr_checks rub) (ar_node_key r) ref = (vs, fb)" by force
    from results_from_payload(1,2) [OF vs] Inr vs show ?thesis unfolding run by auto
  qed
qed

end
