(* ===== verification/Queue_Worker.thy ===== *)
theory Queue_Worker
  imports Queue_In_Memory Orchestrator
begin

text \<open>
  \<^verbatim>\<open>runtime_worker.py\<close> and \<^verbatim>\<open>runtime_queue.py\<close>: the host that takes session ids from
  a queue and drives the sessions. A delivery is acknowledged when the orchestrator returned a
  decision and given back when it raised. The queue adapter is a record of its methods and the
  orchestrator a function on a state of its own; both appear with the in-process queue and with
  \<^verbatim>\<open>OrchestratorAgent\<close> below. The loop of a worker may run for ever, so it is a partial
  function: \<open>None\<close> is not returning.
\<close>

section \<open>What a worker is given\<close>

record 'q queue_adapter =
  qa_name :: string
  qa_features :: "queue_capability set"
  qa_dequeue :: "rat option \<Rightarrow> 'q \<Rightarrow> (queue_message option \<times> 'q) outcome"
  qa_ack :: "queue_message \<Rightarrow> 'q \<Rightarrow> 'q outcome"
  qa_nack :: "queue_message \<Rightarrow> bool \<Rightarrow> 'q \<Rightarrow> 'q outcome"
  qa_pending :: "'q \<Rightarrow> (nat \<times> 'q) outcome"
  qa_in_flight :: "('q \<Rightarrow> (nat \<times> 'q) outcome) option"
  qa_dead_letters :: "(int option \<Rightarrow> 'q \<Rightarrow> (queue_message list \<times> 'q) outcome) option"

text \<open>\<open>qh_failure\<close> gives \<^verbatim>\<open>str(exc)\<close> and \<^verbatim>\<open>type(exc).__name__\<close>, \<open>qh_now\<close> the readings of the clock.\<close>

record ('q, 's) queue_host =
  qh_queue :: "'q queue_adapter"
  qh_run :: "string \<Rightarrow> run_options \<Rightarrow> 's \<Rightarrow> (exn + runtime_decision) \<times> 's"
  qh_worker_id :: string
  qh_ttl :: int
  qh_interval :: "rat option"
  qh_failure :: "exn \<Rightarrow> string \<times> string"
  qh_now :: "nat \<Rightarrow> time"

record ('q, 's) worker_state =
  wk_queue :: 'q
  wk_world :: 's
  wk_reads :: nat
  wk_polls :: nat

definition require_pollable_delivery :: "'q queue_adapter \<Rightarrow> exn + unit" where
  "require_pollable_delivery qa = raise_when (\<not> supports_pollable_delivery (qa_features qa)) RuntimeError"

definition make_host :: "('q, 's) queue_host \<Rightarrow> exn + ('q, 's) queue_host" where
  "make_host host = and_then (require_pollable_delivery (qh_queue host)) (\<lambda>_. Inr host)"

text \<open>\<^verbatim>\<open>OrchestratorAgent\<close> as the orchestrator of a host.\<close>

definition agent_runner :: "orchestrator \<Rightarrow> string \<Rightarrow> run_options \<Rightarrow> world \<Rightarrow> (exn + runtime_decision) \<times> world" where
  "agent_runner orch session_id opts = run_session orch opts session_id"

section \<open>Results\<close>

datatype delivery_action = Delivery_IDLE | Delivery_ACK | Delivery_NACK_RETRY | Delivery_NACK_DROP

datatype loop_stop_reason = Stop_MAX_ITERATIONS | Stop_MAX_IDLE_CYCLES | Stop_REQUESTED

record worker_run_result =
  wx_status :: string
  wx_session_id :: "string option"
  wx_decision_kind :: "string option"
  wx_node_key :: "string option"
  wx_queue_attempt :: "nat option"
  wx_worker_id :: string
  wx_queue_name :: string
  wx_message_handle :: "string option"
  wx_delivery_action :: delivery_action
  wx_started_at :: time
  wx_finished_at :: time
  wx_retry_on_error :: "bool option"
  wx_error_type :: "string option"
  wx_error :: "string option"

definition duration_ms :: "time \<Rightarrow> time \<Rightarrow> rat" where
  "duration_ms started finished = of_int (finished - started) / 1000"

record loop_books =
  bk_iterations :: nat
  bk_deliveries :: nat
  bk_acked :: nat
  bk_nack_retried :: nat
  bk_nack_dropped :: nat
  bk_errors :: nat
  bk_idle_cycles :: nat
  bk_consecutive_idle :: nat
  bk_last :: "worker_run_result option"

definition fresh_books :: loop_books where
  "fresh_books = \<lparr>bk_iterations = 0, bk_deliveries = 0, bk_acked = 0, bk_nack_retried = 0,
     bk_nack_dropped = 0, bk_errors = 0, bk_idle_cycles = 0, bk_consecutive_idle = 0, bk_last = None\<rparr>"

record exit_contract =
  ec_exit_code :: int
  ec_restart_recommended :: bool

definition exit_contract_for_errors :: "nat \<Rightarrow> exit_contract" where
  "exit_contract_for_errors errors =
     (if 0 < errors then \<lparr>ec_exit_code = 1, ec_restart_recommended = True\<rparr>
      else \<lparr>ec_exit_code = 0, ec_restart_recommended = False\<rparr>)"

record worker_loop_result =
  wl_worker_id :: string
  wl_queue_name :: string
  wl_stop_reason :: loop_stop_reason
  wl_books :: loop_books
  wl_exit :: exit_contract
  wl_started_at :: time
  wl_finished_at :: time

definition worker_loop_exit_contract :: "worker_loop_result \<Rightarrow> exit_contract" where
  "worker_loop_exit_contract r = exit_contract_for_errors (bk_errors (wl_books r))"

definition decision_kind_text :: "runtime_decision_kind \<Rightarrow> string" where
  "decision_kind_text k = (case k of
     Decided_CONTINUE \<Rightarrow> ''continue'' | Decided_AWAIT_GATE \<Rightarrow> ''await_gate''
   | Decided_COMPLETE \<Rightarrow> ''complete'' | Decided_FAIL \<Rightarrow> ''fail'')"

definition status_from_decision :: "string \<Rightarrow> string" where
  "status_from_decision kind =
     (if kind = ''complete'' then ''completed''
      else if kind = ''await_gate'' then ''waiting_gate''
      else if kind = ''fail'' then ''failed''
      else kind)"

section \<open>One cycle\<close>

definition read_clock :: "('q, 's) queue_host \<Rightarrow> ('q, 's) worker_state \<Rightarrow> time \<times> ('q, 's) worker_state" where
  "read_clock host st = (qh_now host (wk_reads st), st\<lparr>wk_reads := wk_reads st + 1\<rparr>)"

definition idle_result :: "('q, 's) queue_host \<Rightarrow> time \<Rightarrow> time \<Rightarrow> worker_run_result" where
  "idle_result host started finished =
     \<lparr>wx_status = ''idle'', wx_session_id = None, wx_decision_kind = None, wx_node_key = None,
      wx_queue_attempt = None, wx_worker_id = qh_worker_id host, wx_queue_name = qa_name (qh_queue host),
      wx_message_handle = None, wx_delivery_action = Delivery_IDLE, wx_started_at = started,
      wx_finished_at = finished, wx_retry_on_error = None, wx_error_type = None, wx_error = None\<rparr>"

definition result_from_error ::
    "('q, 's) queue_host \<Rightarrow> queue_message \<Rightarrow> exn \<Rightarrow> bool \<Rightarrow> time \<Rightarrow> time \<Rightarrow> worker_run_result" where
  "result_from_error host m e retry started finished =
     (case qh_failure host e of (text, type_name) \<Rightarrow>
       \<lparr>wx_status = ''error'', wx_session_id = Some (qm_session_id m), wx_decision_kind = None,
        wx_node_key = None, wx_queue_attempt = Some (qm_attempt m), wx_worker_id = qh_worker_id host,
        wx_queue_name = qa_name (qh_queue host), wx_message_handle = Some (qm_handle m),
        wx_delivery_action = (if retry then Delivery_NACK_RETRY else Delivery_NACK_DROP),
        wx_started_at = started, wx_finished_at = finished, wx_retry_on_error = Some retry,
        wx_error_type = Some type_name, wx_error = Some (if text = [] then type_name else text)\<rparr>)"

definition decided_result ::
    "('q, 's) queue_host \<Rightarrow> queue_message \<Rightarrow> runtime_decision \<Rightarrow> time \<Rightarrow> time \<Rightarrow> worker_run_result" where
  "decided_result host m d started finished =
     \<lparr>wx_status = status_from_decision (decision_kind_text (rd_kind d)), wx_session_id = Some (qm_session_id m),
      wx_decision_kind = Some (decision_kind_text (rd_kind d)), wx_node_key = Some (rd_node_key d),
      wx_queue_attempt = Some (qm_attempt m), wx_worker_id = qh_worker_id host,
      wx_queue_name = qa_name (qh_queue host), wx_message_handle = Some (qm_handle m),
      wx_delivery_action = Delivery_ACK, wx_started_at = started, wx_finished_at = finished,
      wx_retry_on_error = None, wx_error_type = None, wx_error = None\<rparr>"

definition host_options :: "('q, 's) queue_host \<Rightarrow> run_options" where
  "host_options host =
     \<lparr>ro_owner = Some (qh_worker_id host), ro_ttl = qh_ttl host, ro_interval = qh_interval host\<rparr>"

text \<open>The rest of a cycle once the queue has answered; the queue may still raise or block.\<close>

definition settle ::
    "'q outcome \<Rightarrow> (time \<Rightarrow> worker_run_result) \<Rightarrow> ('q, 's) queue_host \<Rightarrow> ('q, 's) worker_state \<Rightarrow>
     worker_run_result outcome \<times> ('q, 's) worker_state" where
  "settle r result host st =
     (case r of
        Raised e \<Rightarrow> (Raised e, st)
      | Blocked \<Rightarrow> (Blocked, st)
      | Done q \<Rightarrow> (case read_clock host (st\<lparr>wk_queue := q\<rparr>) of
          (finished, st1) \<Rightarrow> (Done (result finished), st1)))"

definition run_once ::
    "('q, 's) queue_host \<Rightarrow> rat option \<Rightarrow> bool \<Rightarrow> ('q, 's) worker_state \<Rightarrow>
     worker_run_result outcome \<times> ('q, 's) worker_state" where
  "run_once host timeout retry st =
     (case read_clock host st of (started, st0) \<Rightarrow>
      case qa_dequeue (qh_queue host) timeout (wk_queue st0) of
        Raised e \<Rightarrow> (Raised e, st0)
      | Blocked \<Rightarrow> (Blocked, st0)
      | Done (None, q) \<Rightarrow> settle (Done q) (idle_result host started) host st0
      | Done (Some m, q) \<Rightarrow>
          (case qh_run host (qm_session_id m) (host_options host) (wk_world st0) of
             (Inl e, s) \<Rightarrow>
               settle (qa_nack (qh_queue host) m retry q) (result_from_error host m e retry started) host
                 (st0\<lparr>wk_queue := q, wk_world := s\<rparr>)
           | (Inr d, s) \<Rightarrow>
               settle (qa_ack (qh_queue host) m q) (decided_result host m d started) host
                 (st0\<lparr>wk_queue := q, wk_world := s\<rparr>)))"

section \<open>The loop\<close>

definition count_result :: "worker_run_result \<Rightarrow> loop_books \<Rightarrow> loop_books" where
  "count_result r b =
     (let b1 = b\<lparr>bk_last := Some r, bk_iterations := bk_iterations b + 1\<rparr> in
      case wx_delivery_action r of
        Delivery_IDLE \<Rightarrow> b1\<lparr>bk_idle_cycles := bk_idle_cycles b + 1,
          bk_consecutive_idle := bk_consecutive_idle b + 1\<rparr>
      | action \<Rightarrow>
          let b2 = b1\<lparr>bk_deliveries := bk_deliveries b + 1, bk_consecutive_idle := 0\<rparr>;
              b3 = (case action of
                 Delivery_ACK \<Rightarrow> b2\<lparr>bk_acked := bk_acked b + 1\<rparr>
               | Delivery_NACK_RETRY \<Rightarrow> b2\<lparr>bk_nack_retried := bk_nack_retried b + 1\<rparr>
               | Delivery_NACK_DROP \<Rightarrow> b2\<lparr>bk_nack_dropped := bk_nack_dropped b + 1\<rparr>
               | Delivery_IDLE \<Rightarrow> b2)
          in if wx_status r = ''error'' then b3\<lparr>bk_errors := bk_errors b + 1\<rparr> else b3)"

record loop_limits =
  ll_timeout :: "rat option"
  ll_retry :: bool
  ll_max_iterations :: "int option"
  ll_max_idle :: "int option"
  ll_stop :: "(nat \<Rightarrow> bool) option"

definition poll_stop :: "loop_limits \<Rightarrow> ('q, 's) worker_state \<Rightarrow> bool \<times> ('q, 's) worker_state" where
  "poll_stop lm st = (case ll_stop lm of
     None \<Rightarrow> (False, st)
   | Some f \<Rightarrow> (f (wk_polls st), st\<lparr>wk_polls := wk_polls st + 1\<rparr>))"

definition reached :: "int option \<Rightarrow> nat \<Rightarrow> bool" where
  "reached limit n \<longleftrightarrow> (case limit of None \<Rightarrow> False | Some k \<Rightarrow> k \<le> int n)"

definition finish_loop_result ::
    "('q, 's) queue_host \<Rightarrow> loop_stop_reason \<Rightarrow> time \<Rightarrow> loop_books \<Rightarrow> ('q, 's) worker_state \<Rightarrow>
     worker_loop_result outcome \<times> ('q, 's) worker_state" where
  "finish_loop_result host reason started b st =
     (case read_clock host st of (finished, st1) \<Rightarrow>
       (Done \<lparr>wl_worker_id = qh_worker_id host, wl_queue_name = qa_name (qh_queue host),
          wl_stop_reason = reason, wl_books = b, wl_exit = exit_contract_for_errors (bk_errors b),
          wl_started_at = started, wl_finished_at = finished\<rparr>, st1))"

text \<open>The tests at the end of a turn, in their order.\<close>

definition stop_after :: "loop_limits \<Rightarrow> bool \<Rightarrow> loop_books \<Rightarrow> loop_stop_reason option" where
  "stop_after lm requested b =
     (if requested then Some Stop_REQUESTED
      else if reached (ll_max_iterations lm) (bk_iterations b) then Some Stop_MAX_ITERATIONS
      else if reached (ll_max_idle lm) (bk_consecutive_idle b) then Some Stop_MAX_IDLE_CYCLES
      else None)"

partial_function (option) loop_from ::
    "('q, 's) queue_host \<Rightarrow> loop_limits \<Rightarrow> time \<Rightarrow> loop_books \<Rightarrow> ('q, 's) worker_state \<Rightarrow>
     (worker_loop_result outcome \<times> ('q, 's) worker_state) option" where
  "loop_from host lm started b st =
     (case poll_stop lm st of (requested, st0) \<Rightarrow>
      if requested then Some (finish_loop_result host Stop_REQUESTED started b st0)
      else case run_once host (ll_timeout lm) (ll_retry lm) st0 of
        (Raised e, st1) \<Rightarrow> Some (Raised e, st1)
      | (Blocked, st1) \<Rightarrow> Some (Blocked, st1)
      | (Done r, st1) \<Rightarrow>
          (let b1 = count_result r b in
           case poll_stop lm st1 of (requested1, st2) \<Rightarrow>
           case stop_after lm requested1 b1 of
             Some reason \<Rightarrow> Some (finish_loop_result host reason started b1 st2)
           | None \<Rightarrow> loop_from host lm started b1 st2))"

definition validate_positive_limit :: "int option \<Rightarrow> exn + unit" where
  "validate_positive_limit value =
     raise_when (case value of None \<Rightarrow> False | Some v \<Rightarrow> v \<le> 0) ValueError"

definition worker_loop ::
    "('q, 's) queue_host \<Rightarrow> loop_limits \<Rightarrow> ('q, 's) worker_state \<Rightarrow>
     (worker_loop_result outcome \<times> ('q, 's) worker_state) option" where
  "worker_loop host lm st =
     (case and_then (validate_positive_limit (ll_max_iterations lm))
         (\<lambda>_. validate_positive_limit (ll_max_idle lm)) of
        Inl e \<Rightarrow> Some (Raised e, st)
      | Inr _ \<Rightarrow> (case read_clock host st of (started, st0) \<Rightarrow>
          loop_from host lm started fresh_books st0))"

section \<open>Health\<close>

record worker_health =
  wh_worker_id :: string
  wh_queue_name :: string
  wh_pending :: nat
  wh_in_flight :: "nat option"
  wh_dead_letters :: "nat option"
  wh_checked_at :: time

definition optional_count ::
    "('q \<Rightarrow> ('a \<times> 'q) outcome) option \<Rightarrow> 'q \<Rightarrow> ('a option \<times> 'q) outcome" where
  "optional_count f q = (case f of
     None \<Rightarrow> Done (None, q)
   | Some g \<Rightarrow> (case g q of Raised e \<Rightarrow> Raised e | Blocked \<Rightarrow> Blocked | Done (n, q1) \<Rightarrow> Done (Some n, q1)))"

definition worker_health_of :: "('q, 's) queue_host \<Rightarrow> time \<Rightarrow> 'q \<Rightarrow> (worker_health \<times> 'q) outcome" where
  "worker_health_of host now q =
     (case qa_pending (qh_queue host) q of
        Raised e \<Rightarrow> Raised e
      | Blocked \<Rightarrow> Blocked
      | Done (n, q1) \<Rightarrow>
      (case optional_count (qa_in_flight (qh_queue host)) q1 of
        Raised e \<Rightarrow> Raised e
      | Blocked \<Rightarrow> Blocked
      | Done (flying, q2) \<Rightarrow>
      (case optional_count (map_option (\<lambda>f. f None) (qa_dead_letters (qh_queue host))) q2 of
        Raised e \<Rightarrow> Raised e
      | Blocked \<Rightarrow> Blocked
      | Done (dead, q3) \<Rightarrow>
          Done (\<lparr>wh_worker_id = qh_worker_id host, wh_queue_name = qa_name (qh_queue host),
            wh_pending = n, wh_in_flight = flying, wh_dead_letters = map_option length dead,
            wh_checked_at = now\<rparr>, q3))))"

section \<open>The in-process queue as an adapter\<close>

text \<open>
  The readings of the clock that a call of the queue makes are those of \<open>clocks\<close> under the number
  of the call. \<^verbatim>\<open>dead_letters\<close> of this queue takes no limit.
\<close>

record timed_queue =
  tm_queue :: memory_queue
  tm_calls :: nat

definition timed :: "timed_queue \<Rightarrow> memory_queue \<Rightarrow> timed_queue" where
  "timed t q = \<lparr>tm_queue = q, tm_calls = tm_calls t + 1\<rparr>"

definition map_done :: "('a \<Rightarrow> 'b) \<Rightarrow> 'a outcome \<Rightarrow> 'b outcome" where
  "map_done f r = (case r of Done x \<Rightarrow> Done (f x) | Raised e \<Rightarrow> Raised e | Blocked \<Rightarrow> Blocked)"

definition memory_adapter :: "nat \<Rightarrow> (nat \<Rightarrow> nat \<Rightarrow> rat) \<Rightarrow> timed_queue queue_adapter" where
  "memory_adapter fuel clocks =
     \<lparr>qa_name = ''in-memory'', qa_features = pollable_delivery,
      qa_dequeue = (\<lambda>timeout t. map_done (map_prod id (timed t))
        (dequeue fuel (clocks (tm_calls t)) timeout (tm_queue t))),
      qa_ack = (\<lambda>m t. Done (timed t (ack m (tm_queue t)))),
      qa_nack = (\<lambda>m retry t. map_done (timed t) (nack m retry (tm_queue t))),
      qa_pending = (\<lambda>t. map_done (map_prod id (timed t)) (pending (clocks (tm_calls t) 0) (tm_queue t))),
      qa_in_flight = Some (\<lambda>t. map_done (map_prod id (timed t)) (in_flight (clocks (tm_calls t) 0) (tm_queue t))),
      qa_dead_letters = Some (\<lambda>limit t. case limit of
        Some n \<Rightarrow> Raised TypeError
      | None \<Rightarrow> map_done (map_prod id (timed t)) (dead_letters (clocks (tm_calls t) 0) (tm_queue t)))\<rparr>"

section \<open>Queues of one run\<close>

fun enqueue_all :: "string list \<Rightarrow> (nat \<Rightarrow> time) \<Rightarrow> memory_queue \<Rightarrow> memory_queue outcome" where
  "enqueue_all [] now q = Done q"
| "enqueue_all (i # is) now q =
     (case enqueue i None (now 0) q of
        Done (m, q1) \<Rightarrow> enqueue_all is (\<lambda>n. now (Suc n)) q1
      | Raised e \<Rightarrow> Raised e
      | Blocked \<Rightarrow> Blocked)"

definition transient_queue :: "string list \<Rightarrow> (nat \<Rightarrow> string) \<Rightarrow> (nat \<Rightarrow> time) \<Rightarrow> timed_queue outcome" where
  "transient_queue session_ids ids now =
     (case make_queue 0 None None ids of
        Inl e \<Rightarrow> Raised e
      | Inr q \<Rightarrow> map_done (\<lambda>q1. \<lparr>tm_queue = q1, tm_calls = 0\<rparr>) (enqueue_all session_ids now q))"

definition queue_worker_host ::
    "'q queue_adapter \<Rightarrow> (string \<Rightarrow> run_options \<Rightarrow> 's \<Rightarrow> (exn + runtime_decision) \<times> 's) \<Rightarrow>
     (exn \<Rightarrow> string \<times> string) \<Rightarrow> (nat \<Rightarrow> time) \<Rightarrow> ('q, 's) queue_host" where
  "queue_worker_host qa run failure now =
     \<lparr>qh_queue = qa, qh_run = run, qh_worker_id = ''queue-worker'', qh_ttl = 300, qh_interval = None,
      qh_failure = failure, qh_now = now\<rparr>"

definition worker_start :: "'q \<Rightarrow> 's \<Rightarrow> ('q, 's) worker_state" where
  "worker_start q s = \<lparr>wk_queue = q, wk_world = s, wk_reads = 0, wk_polls = 0\<rparr>"

definition run_loop_with_transient_queue ::
    "(timed_queue, 's) queue_host \<Rightarrow> loop_limits \<Rightarrow> string list \<Rightarrow> (nat \<Rightarrow> string) \<Rightarrow> (nat \<Rightarrow> time) \<Rightarrow> 's \<Rightarrow>
     (worker_loop_result outcome \<times> (timed_queue, 's) worker_state option) option" where
  "run_loop_with_transient_queue host lm session_ids ids now s =
     (case transient_queue session_ids ids now of
        Raised e \<Rightarrow> Some (Raised e, None)
      | Blocked \<Rightarrow> Some (Blocked, None)
      | Done q \<Rightarrow> map_option (map_prod id Some) (worker_loop host lm (worker_start q s)))"

definition run_once_with_transient_queue ::
    "(timed_queue, 's) queue_host \<Rightarrow> rat option \<Rightarrow> bool \<Rightarrow> string \<Rightarrow> (nat \<Rightarrow> string) \<Rightarrow> (nat \<Rightarrow> time) \<Rightarrow> 's \<Rightarrow>
     worker_run_result outcome \<times> (timed_queue, 's) worker_state option" where
  "run_once_with_transient_queue host timeout retry session_id ids now s =
     (case transient_queue [session_id] ids now of
        Raised e \<Rightarrow> (Raised e, None)
      | Blocked \<Rightarrow> (Blocked, None)
      | Done q \<Rightarrow> map_prod id Some (run_once host timeout retry (worker_start q s)))"

definition queue_dead_letters ::
    "'q queue_adapter \<Rightarrow> int option \<Rightarrow> 'q \<Rightarrow> (queue_message list \<times> 'q) outcome" where
  "queue_dead_letters qa limit q =
     (case qa_dead_letters qa of None \<Rightarrow> Raised RuntimeError | Some f \<Rightarrow> f limit q)"

end
