(* ===== verification/Worker_Facts.thy ===== *)
theory Worker_Facts
  imports Queue_Worker Orchestrator_Facts
begin

text \<open>
  What a worker does with its deliveries, and runs of it over the in-process queue.
\<close>

section \<open>What a worker keeps\<close>

text \<open>
  What a worker does with its deliveries. The locale \<open>worker_queue\<close> is what it relies on: a message
  that is handed out stays with the queue until it is acknowledged or dropped. Its loop counts
  every cycle once, settles what it reports as settled, and returns when its number of iterations is
  bounded or when the queue runs dry; a session that always raises and is always retried keeps it
  busy for ever.
\<close>

subsection \<open>The books\<close>

definition books_ok :: "loop_books \<Rightarrow> bool" where
  "books_ok b \<longleftrightarrow> bk_iterations b = bk_deliveries b + bk_idle_cycles b \<and>
     bk_deliveries b = bk_acked b + bk_nack_retried b + bk_nack_dropped b \<and>
     bk_errors b = bk_nack_retried b + bk_nack_dropped b \<and>
     bk_consecutive_idle b \<le> bk_idle_cycles b \<and> (bk_last b = None \<longleftrightarrow> bk_iterations b = 0)"

lemma fresh_books_ok [simp]: "books_ok fresh_books"
  by (simp add: books_ok_def fresh_books_def)

definition result_ok :: "worker_run_result \<Rightarrow> bool" where
  "result_ok r \<longleftrightarrow> (wx_status r = ''error'' \<longleftrightarrow> wx_delivery_action r \<in> {Delivery_NACK_RETRY, Delivery_NACK_DROP})"

lemma status_not_error: "status_from_decision (decision_kind_text k) \<noteq> ''error''"
  by (cases k) (simp_all add: status_from_decision_def decision_kind_text_def)

lemma settle_Done:
  "settle r f host st = (Done x, st') \<longleftrightarrow>
     (\<exists>q. r = Done q \<and> x = f (qh_now host (wk_reads st)) \<and>
       st' = st\<lparr>wk_queue := q, wk_reads := wk_reads st + 1\<rparr>)"
  by (auto simp: settle_def read_clock_def split: outcome.splits)

lemma run_once_cases:
  assumes "run_once host timeout retry st = (Done r, st')"
  obtains (idle) q where "qa_dequeue (qh_queue host) timeout (wk_queue st) = Done (None, q)"
      "wx_delivery_action r = Delivery_IDLE" "wx_status r = ''idle''" "wk_queue st' = q" "wk_world st' = wk_world st"
      "wk_polls st' = wk_polls st"
  | (decided) m q d s q' where "qa_dequeue (qh_queue host) timeout (wk_queue st) = Done (Some m, q)"
      "qh_run host (qm_session_id m) (host_options host) (wk_world st) = (Inr d, s)"
      "qa_ack (qh_queue host) m q = Done q'" "wx_delivery_action r = Delivery_ACK"
      "wx_session_id r = Some (qm_session_id m)" "wx_decision_kind r = Some (decision_kind_text (rd_kind d))"
      "wx_status r = status_from_decision (decision_kind_text (rd_kind d))"
      "wk_queue st' = q'" "wk_world st' = s" "wk_polls st' = wk_polls st"
  | (raised) m q e s q' where "qa_dequeue (qh_queue host) timeout (wk_queue st) = Done (Some m, q)"
      "qh_run host (qm_session_id m) (host_options host) (wk_world st) = (Inl e, s)"
      "qa_nack (qh_queue host) m retry q = Done q'"
      "wx_delivery_action r = (if retry then Delivery_NACK_RETRY else Delivery_NACK_DROP)"
      "wx_session_id r = Some (qm_session_id m)" "wx_status r = ''error''"
      "wk_queue st' = q'" "wk_world st' = s" "wk_polls st' = wk_polls st"
  using assms
  by (auto simp: run_once_def read_clock_def settle_Done idle_result_def decided_result_def result_from_error_def
      split: outcome.splits option.splits prod.splits sum.splits)

lemma run_once_result_ok: "run_once host timeout retry st = (Done r, st') \<Longrightarrow> result_ok r"
  by (erule run_once_cases) (auto simp: result_ok_def status_not_error)

lemma count_result_ok: "books_ok b \<Longrightarrow> result_ok r \<Longrightarrow> books_ok (count_result r b)"
  by (cases "wx_delivery_action r") (auto simp: books_ok_def result_ok_def count_result_def Let_def)

lemma count_result_iterations [simp]: "bk_iterations (count_result r b) = bk_iterations b + 1"
  by (simp add: count_result_def Let_def split: delivery_action.split)

lemma poll_stop_state [simp]:
  "wk_queue (snd (poll_stop lm st)) = wk_queue st" "wk_world (snd (poll_stop lm st)) = wk_world st"
  by (simp_all add: poll_stop_def split: option.split)

subsection \<open>A rule for the loop\<close>

text \<open>
  \<open>J\<close> holds of the books and the state when a turn begins, \<open>K\<close> when it has been counted.
\<close>

lemma loop_from_rule:
  assumes "loop_from host lm started b st = Some (Done res, st')" "J b st"
    and poll: "\<And>b st. J b st \<Longrightarrow> J b (snd (poll_stop lm st))" "\<And>b st. K b st \<Longrightarrow> K b (snd (poll_stop lm st))"
    and turn: "\<And>b st r st1. J b st \<Longrightarrow> run_once host (ll_timeout lm) (ll_retry lm) st = (Done r, st1) \<Longrightarrow>
      K (count_result r b) st1"
    and again: "\<And>b st. J b st \<Longrightarrow> K b st" "\<And>b st. K b st \<Longrightarrow> stop_after lm False b = None \<Longrightarrow> J b st"
  shows "\<exists>b' st0 reason. K b' st0 \<and> (reason = Stop_REQUESTED \<and> ll_stop lm \<noteq> None \<or> stop_after lm False b' = Some reason) \<and>
    finish_loop_result host reason started b' st0 = (Done res, st')"
proof -
  have asked: "ll_stop lm \<noteq> None" if "poll_stop lm st = (True, st')" for st st' :: "('a, 'b) worker_state"
    using that by (auto simp: poll_stop_def split: option.splits)
  let ?P = "\<lambda>(h :: ('a, 'b) queue_host) l t b st (y :: worker_loop_result outcome \<times> ('a, 'b) worker_state).
    h = host \<longrightarrow> l = lm \<longrightarrow> t = started \<longrightarrow> J b st \<longrightarrow> (\<forall>res st'. y = (Done res, st') \<longrightarrow>
      (\<exists>b' st0 reason. K b' st0 \<and> (reason = Stop_REQUESTED \<and> ll_stop lm \<noteq> None \<or> stop_after lm False b' = Some reason) \<and>
        finish_loop_result host reason started b' st0 = (Done res, st')))"
  have "?P host lm started b st (Done res, st')"
  proof (rule loop_from.raw_induct [where P = ?P, OF _ assms(1)], intro impI allI, goal_cases)
    case (1 loop h l t b st y res st')
    note IH = 1(1) and y = 1(2) [unfolded 1(3-5) 1(7)]
    obtain rq st0 where p0: "poll_stop lm st = (rq, st0)" by force
    have J0: "J b st0" using poll(1) [OF 1(6)] p0 by simp
    show ?case
    proof (cases rq)
      case True
      then show ?thesis using y p0 again(1) [OF J0] asked [of st st0] by auto
    next
      case False
      obtain o1 st1 where r: "run_once host (ll_timeout lm) (ll_retry lm) st0 = (o1, st1)" by force
      show ?thesis
      proof (cases o1)
        case (Done x)
        obtain rq1 st2 where p1: "poll_stop lm st1 = (rq1, st2)" by force
        have K2: "K (count_result x b) st2"
          using poll(2) [OF turn [OF J0 r [unfolded Done]]] p1 by simp
        show ?thesis
        proof (cases "stop_after lm rq1 (count_result x b)")
          case None
          then have "loop host lm started (count_result x b) st2 = Some (Done res, st')"
            using y p0 False r Done p1 by (simp add: Let_def)
          moreover have "stop_after lm False (count_result x b) = None"
            using None by (auto simp: stop_after_def split: if_splits)
          ultimately show ?thesis using IH again(2) [OF K2] by simp
        next
          case (Some reason)
          then have "finish_loop_result host reason started (count_result x b) st2 = (Done res, st')"
            using y p0 False r Done p1 by (simp add: Let_def)
          moreover have "reason = Stop_REQUESTED \<and> ll_stop lm \<noteq> None \<or> stop_after lm False (count_result x b) = Some reason"
            using Some asked [of st1 st2] p1 by (cases rq1) (auto simp: stop_after_def)
          ultimately show ?thesis using K2 by blast
        qed
      qed (use y p0 False r in auto)
    qed
  qed
  then show ?thesis using assms(2) by simp
qed

lemma finish_loop_Done:
  "finish_loop_result host reason started b st = (Done res, st') \<longleftrightarrow>
     res = \<lparr>wl_worker_id = qh_worker_id host, wl_queue_name = qa_name (qh_queue host),
        wl_stop_reason = reason, wl_books = b, wl_exit = exit_contract_for_errors (bk_errors b),
        wl_started_at = started, wl_finished_at = qh_now host (wk_reads st)\<rparr> \<and>
     st' = st\<lparr>wk_reads := wk_reads st + 1\<rparr>"
  by (auto simp: finish_loop_result_def read_clock_def)

lemma worker_loop_Done:
  assumes "worker_loop host lm st = Some (Done res, st')"
  shows "\<exists>started. loop_from host lm started fresh_books (st\<lparr>wk_reads := wk_reads st + 1\<rparr>) = Some (Done res, st')"
    "\<not> reached (ll_max_iterations lm) 0" "\<not> reached (ll_max_idle lm) 0"
  using assms
  by (auto simp: worker_loop_def read_clock_def validate_positive_limit_def raise_when_def reached_def
      split: sum.splits option.splits if_splits)

definition in_limit :: "int option \<Rightarrow> nat \<Rightarrow> bool" where
  "in_limit limit n \<longleftrightarrow> (case limit of None \<Rightarrow> True | Some k \<Rightarrow> int n \<le> k)"

lemma in_limit_Suc: "\<not> reached limit n \<Longrightarrow> in_limit limit (Suc n)"
  by (auto simp: reached_def in_limit_def split: option.splits)

lemma not_reached_in_limit: "\<not> reached limit n \<Longrightarrow> in_limit limit n"
  by (auto simp: reached_def in_limit_def split: option.splits)

lemma stop_after_reason:
  "stop_after lm False b = Some reason \<Longrightarrow>
     reason = Stop_MAX_ITERATIONS \<and> reached (ll_max_iterations lm) (bk_iterations b) \<or>
     reason = Stop_MAX_IDLE_CYCLES \<and> reached (ll_max_idle lm) (bk_consecutive_idle b)"
  by (auto simp: stop_after_def split: if_splits)

lemma worker_books:
  assumes "worker_loop host lm st = Some (Done res, st')"
  shows "books_ok (wl_books res)" "in_limit (ll_max_iterations lm) (bk_iterations (wl_books res))"
    "wl_exit res = worker_loop_exit_contract res"
    "case wl_stop_reason res of
       Stop_MAX_ITERATIONS \<Rightarrow> reached (ll_max_iterations lm) (bk_iterations (wl_books res))
     | Stop_MAX_IDLE_CYCLES \<Rightarrow> reached (ll_max_idle lm) (bk_consecutive_idle (wl_books res))
     | Stop_REQUESTED \<Rightarrow> ll_stop lm \<noteq> None"
proof -
  let ?J = "\<lambda>b (st :: ('a, 'b) worker_state). books_ok b \<and> \<not> reached (ll_max_iterations lm) (bk_iterations b)"
  let ?K = "\<lambda>b (st :: ('a, 'b) worker_state). books_ok b \<and> in_limit (ll_max_iterations lm) (bk_iterations b)"
  obtain started where l: "loop_from host lm started fresh_books (st\<lparr>wk_reads := wk_reads st + 1\<rparr>) = Some (Done res, st')"
    using worker_loop_Done(1) [OF assms] by blast
  have "\<exists>b' st0 reason. ?K b' st0 \<and> (reason = Stop_REQUESTED \<and> ll_stop lm \<noteq> None \<or> stop_after lm False b' = Some reason) \<and>
      finish_loop_result host reason started b' st0 = (Done res, st')"
  proof (rule loop_from_rule [OF l, where J = ?J and K = ?K])
    show "?J fresh_books (st\<lparr>wk_reads := wk_reads st + 1\<rparr>)"
      using worker_loop_Done(2) [OF assms] by (simp add: fresh_books_def [THEN arg_cong [where f = bk_iterations]])
  next
    fix b st r st1
    assume "?J b st" "run_once host (ll_timeout lm) (ll_retry lm) st = (Done r, st1)"
    then show "?K (count_result r b) st1" by (simp add: count_result_ok run_once_result_ok in_limit_Suc)
  qed (auto simp: not_reached_in_limit stop_after_def split: if_splits)
  then obtain b' st0 reason where K: "?K b' st0"
      and reason: "reason = Stop_REQUESTED \<and> ll_stop lm \<noteq> None \<or> stop_after lm False b' = Some reason"
      and f: "finish_loop_result host reason started b' st0 = (Done res, st')" by blast
  have res: "wl_stop_reason res = reason" "wl_books res = b'" "wl_exit res = exit_contract_for_errors (bk_errors b')"
    using f unfolding finish_loop_Done by simp_all
  show "books_ok (wl_books res)" "in_limit (ll_max_iterations lm) (bk_iterations (wl_books res))"
    "wl_exit res = worker_loop_exit_contract res"
    using K by (simp_all add: res worker_loop_exit_contract_def)
  show "case wl_stop_reason res of
       Stop_MAX_ITERATIONS \<Rightarrow> reached (ll_max_iterations lm) (bk_iterations (wl_books res))
     | Stop_MAX_IDLE_CYCLES \<Rightarrow> reached (ll_max_idle lm) (bk_consecutive_idle (wl_books res))
     | Stop_REQUESTED \<Rightarrow> ll_stop lm \<noteq> None"
    unfolding res using reason by (auto dest: stop_after_reason)
qed

subsection \<open>Settled deliveries\<close>

definition settled_session :: "worker_run_result \<Rightarrow> string multiset" where
  "settled_session r = (if wx_delivery_action r \<in> {Delivery_ACK, Delivery_NACK_DROP}
     then (case wx_session_id r of None \<Rightarrow> {#} | Some i \<Rightarrow> {#i#}) else {#})"

definition settled_count :: "loop_books \<Rightarrow> nat" where
  "settled_count b = bk_acked b + bk_nack_dropped b"

lemma settled_fresh [simp]: "settled_count fresh_books = 0"
  by (simp add: settled_count_def fresh_books_def)

locale worker_queue =
  fixes qa :: "'q queue_adapter"
    and ok :: "'q \<Rightarrow> bool"
    and content :: "'q \<Rightarrow> string multiset"
    and handed :: "queue_message \<Rightarrow> 'q \<Rightarrow> bool"
  assumes empty_dequeue: "ok q \<Longrightarrow> qa_dequeue qa t q = Done (None, q') \<Longrightarrow> ok q' \<and> content q' = content q"
    and message_dequeue: "ok q \<Longrightarrow> qa_dequeue qa t q = Done (Some m, q') \<Longrightarrow>
      ok q' \<and> content q' = content q \<and> handed m q'"
    and ack_settles: "ok q \<Longrightarrow> handed m q \<Longrightarrow> qa_ack qa m q = Done q' \<Longrightarrow>
      ok q' \<and> content q = add_mset (qm_session_id m) (content q')"
    and nack_returns: "ok q \<Longrightarrow> handed m q \<Longrightarrow> qa_nack qa m True q = Done q' \<Longrightarrow> ok q' \<and> content q' = content q"
    and nack_drops: "ok q \<Longrightarrow> handed m q \<Longrightarrow> qa_nack qa m False q = Done q' \<Longrightarrow>
      ok q' \<and> content q = add_mset (qm_session_id m) (content q')"
begin

lemma run_once_conserves:
  assumes "qh_queue host = qa" "ok (wk_queue st)" "run_once host timeout retry st = (Done r, st')"
  shows "ok (wk_queue st')" "content (wk_queue st) = content (wk_queue st') + settled_session r"
proof -
  have "ok (wk_queue st') \<and> content (wk_queue st) = content (wk_queue st') + settled_session r"
    using assms(3)
  proof (cases rule: run_once_cases)
    case (idle q)
    then show ?thesis using empty_dequeue [OF assms(2)] by (simp add: assms(1) settled_session_def)
  next
    case (decided m q d s q')
    then have q: "ok q" "content q = content (wk_queue st)" "handed m q"
      using message_dequeue [OF assms(2)] by (simp_all add: assms(1))
    from ack_settles [OF q(1,3)] decided show ?thesis by (auto simp: assms(1) settled_session_def q(2))
  next
    case (raised m q e s q')
    then have q: "ok q" "content q = content (wk_queue st)" "handed m q"
      using message_dequeue [OF assms(2)] by (simp_all add: assms(1))
    show ?thesis
    proof (cases retry)
      case True
      from nack_returns [OF q(1,3)] raised True show ?thesis by (auto simp: assms(1) settled_session_def q(2))
    next
      case False
      from nack_drops [OF q(1,3)] raised False show ?thesis by (auto simp: assms(1) settled_session_def q(2))
    qed
  qed
  then show "ok (wk_queue st')" "content (wk_queue st) = content (wk_queue st') + settled_session r" by simp_all
qed

lemma settled_count_result:
  assumes "run_once host timeout retry st = (Done r, st')"
  shows "settled_count (count_result r b) = settled_count b + size (settled_session r)"
  using assms
  by (cases rule: run_once_cases) (auto simp: settled_count_def settled_session_def count_result_def Let_def)

lemma worker_loop_conserves:
  assumes "qh_queue host = qa" "ok (wk_queue st)" "worker_loop host lm st = Some (Done res, st')"
  shows "ok (wk_queue st')" "content (wk_queue st') \<subseteq># content (wk_queue st)"
    "size (content (wk_queue st)) = size (content (wk_queue st')) + settled_count (wl_books res)"
proof -
  let ?J = "\<lambda>b s. ok (wk_queue s) \<and> content (wk_queue s) \<subseteq># content (wk_queue st) \<and>
    size (content (wk_queue st)) = size (content (wk_queue s)) + settled_count b"
  obtain started where l: "loop_from host lm started fresh_books (st\<lparr>wk_reads := wk_reads st + 1\<rparr>) = Some (Done res, st')"
    using worker_loop_Done(1) [OF assms(3)] by blast
  have "\<exists>b' st0 reason. ?J b' st0 \<and> (reason = Stop_REQUESTED \<and> ll_stop lm \<noteq> None \<or> stop_after lm False b' = Some reason) \<and>
      finish_loop_result host reason started b' st0 = (Done res, st')"
  proof (rule loop_from_rule [OF l, where J = ?J and K = ?J])
    fix b s r s1
    assume J: "?J b s" and r: "run_once host (ll_timeout lm) (ll_retry lm) s = (Done r, s1)"
    note c = run_once_conserves [OF assms(1) _ r]
    have "content (wk_queue s1) \<subseteq># content (wk_queue s)" using c(2) J by simp
    then have "content (wk_queue s1) \<subseteq># content (wk_queue st)"
      using J by (blast intro: subset_mset.order_trans)
    with J c show "?J (count_result r b) s1" by (simp add: settled_count_result [OF r])
  qed (use assms(2) in auto)
  then show "ok (wk_queue st')" "content (wk_queue st') \<subseteq># content (wk_queue st)"
    "size (content (wk_queue st)) = size (content (wk_queue st')) + settled_count (wl_books res)"
    unfolding finish_loop_Done by auto
qed

end

definition flying :: "queue_message \<Rightarrow> memory_queue \<Rightarrow> bool" where
  "flying m q \<longleftrightarrow> map_option im_message (map_of (mq_in_flight q) (qm_handle m)) = Some m"

lemma map_done_Done: "map_done f r = Done y \<longleftrightarrow> (\<exists>x. r = Done x \<and> y = f x)"
  by (cases r) (auto simp: map_done_def)

lemma flying_presented: "flying m q \<Longrightarrow> presented m q"
  by (auto simp: flying_def presented_def split: option.splits)

lemma flying_settled:
  "flying m q \<Longrightarrow> open_wf q \<Longrightarrow> settled (Ack_Call m) q = {#qm_session_id m#} \<and>
     settled (Nack_Call m retry) q = (if retry then {#} else {#qm_session_id m#})"
  by (auto simp: flying_def settled_def open_wf_def Let_def)

interpretation wq: worker_queue "memory_adapter fuel clocks" "\<lambda>t. open_wf (tm_queue t)" "\<lambda>t. held (tm_queue t)"
  "\<lambda>m t. flying m (tm_queue t)" for fuel clocks
proof (unfold_locales, goal_cases)
  case (1 q t q')
  then show ?case
    using dequeue_facts [of fuel "clocks (tm_calls q)" t "tm_queue q" None]
    by (auto simp: memory_adapter_def map_done_Done timed_def open_wf_def same_config_def)
next
  case (2 q t m q')
  then show ?case
    using dequeue_facts [of fuel "clocks (tm_calls q)" t "tm_queue q" "Some m"]
    by (auto simp: memory_adapter_def map_done_Done timed_def open_wf_def same_config_def flying_def)
next
  case (3 q m q')
  then have q': "queue_call (Ack_Call m) (tm_queue q) = Done (tm_queue q')"
    by (auto simp: memory_adapter_def timed_def queue_call_def)
  have "proper_call (Ack_Call m) (tm_queue q)" using flying_presented 3(2) by (simp add: proper_call_def)
  from queue_call_conserves [OF 3(1) this q'] flying_settled [OF 3(2) 3(1)] show ?case by (simp add: gained_def)
next
  case (4 q m q')
  then have q': "queue_call (Nack_Call m True) (tm_queue q) = Done (tm_queue q')"
    by (auto simp: memory_adapter_def map_done_Done timed_def queue_call_def)
  have "proper_call (Nack_Call m True) (tm_queue q)" using flying_presented 4(2) by (simp add: proper_call_def)
  from queue_call_conserves [OF 4(1) this q'] flying_settled [OF 4(2) 4(1)] show ?case by (simp add: gained_def)
next
  case (5 q m q')
  then have q': "queue_call (Nack_Call m False) (tm_queue q) = Done (tm_queue q')"
    by (auto simp: memory_adapter_def map_done_Done timed_def queue_call_def)
  have "proper_call (Nack_Call m False) (tm_queue q)" using flying_presented 5(2) by (simp add: proper_call_def)
  from queue_call_conserves [OF 5(1) this q'] flying_settled [OF 5(2) 5(1)] show ?case by (simp add: gained_def)
qed

section \<open>What a worker does\<close>

text \<open>
  When the loop of a worker returns. With a bound on its iterations it always does. On a queue of its
  own it drives the sessions in their order and stops when it has been idle long enough, if every
  session is settled by its first delivery; a session that always raises and is put back each time
  is delivered for ever.
\<close>

subsection \<open>Bounded loops\<close>

lemma loop_from_returns:
  assumes "ll_max_iterations lm = Some n"
  shows "\<exists>y. loop_from host lm started b st = Some y"
proof (induction "nat n - bk_iterations b" arbitrary: b st rule: less_induct)
  case less
  obtain rq st0 where p0: "poll_stop lm st = (rq, st0)" by force
  obtain o1 st1 where r: "run_once host (ll_timeout lm) (ll_retry lm) st0 = (o1, st1)" by force
  show ?case
  proof (cases "rq \<or> (\<forall>x. o1 \<noteq> Done x)")
    case True
    with p0 r show ?thesis by (subst loop_from.simps) (auto split: outcome.splits)
  next
    case False
    then obtain x where x: "\<not> rq" "o1 = Done x" by auto
    obtain rq1 st2 where p1: "poll_stop lm st1 = (rq1, st2)" by force
    show ?thesis
    proof (cases "stop_after lm rq1 (count_result x b)")
      case (Some reason)
      with p0 r x p1 show ?thesis by (subst loop_from.simps) (simp add: Let_def)
    next
      case None
      then have "\<not> reached (ll_max_iterations lm) (bk_iterations (count_result x b))"
        by (auto simp: stop_after_def split: if_splits)
      then have "nat n - bk_iterations (count_result x b) < nat n - bk_iterations b"
        by (auto simp: assms reached_def)
      from less [OF this, of st2] None p0 r x p1 show ?thesis
        by (subst loop_from.simps) (simp add: Let_def)
    qed
  qed
qed

lemma bounded_worker_returns:
  assumes "ll_max_iterations lm = Some n"
  shows "\<exists>y. worker_loop host lm st = Some y"
  using loop_from_returns [OF assms] by (auto simp: worker_loop_def split: sum.splits prod.splits)

subsection \<open>Draining a queue\<close>

text \<open>The sessions in their order; how many returned a decision, and the state after them.\<close>

fun drive_sessions ::
    "(string \<Rightarrow> run_options \<Rightarrow> 's \<Rightarrow> (exn + runtime_decision) \<times> 's) \<Rightarrow> run_options \<Rightarrow> string list \<Rightarrow> 's \<Rightarrow>
     nat \<times> 's" where
  "drive_sessions run opts [] s = (0, s)"
| "drive_sessions run opts (i # is) s =
     (case run i opts s of
        (Inl e, s1) \<Rightarrow> drive_sessions run opts is s1
      | (Inr d, s1) \<Rightarrow> map_prod Suc id (drive_sessions run opts is s1))"

definition plain_queue :: "memory_queue \<Rightarrow> bool" where
  "plain_queue q \<longleftrightarrow> mq_visibility_timeout q = None \<and> mq_maxsize q \<le> 0 \<and> \<not> mq_closed q"

lemma plain_take_out: "plain_queue (take_out h q) = plain_queue q" "mq_queue (take_out h q) = mq_queue q"
  by (simp_all add: plain_queue_def take_out_def)

lemma plain_redeliver: "plain_queue q \<Longrightarrow> redeliver_expired now q = Some q"
  by (simp add: plain_queue_def redeliver_expired_def)

lemma plain_dequeue_some:
  assumes "plain_queue q" "mq_queue q = m # ms" "0 < fuel"
  shows "\<exists>q'. dequeue fuel clock timeout q = Done (Some m, q') \<and> plain_queue q' \<and> mq_queue q' = ms \<and>
    flying m q' \<and> mq_max_delivery_attempts q' = mq_max_delivery_attempts q"
  using assms
  by (cases fuel) (auto simp: dequeue_def plain_redeliver plain_queue_def track_in_flight_def redeliver_expired_def
      flying_def)

lemma plain_dequeue_loop_none:
  "plain_queue q \<Longrightarrow> mq_queue q = [] \<Longrightarrow> dequeue_loop fuel clock i deadline q = Done (m, q') \<Longrightarrow> m = None \<and> q' = q"
proof (induction fuel arbitrary: i)
  case (Suc fuel)
  then show ?case by (auto simp: plain_redeliver split: option.splits if_splits)
qed simp

lemma plain_dequeue_none:
  assumes "plain_queue q" "mq_queue q = []" "clock 0 + t \<le> clock (3 * j + 2)" "j + 2 \<le> fuel"
  shows "dequeue fuel clock (Some t) q = Done (None, q)"
proof -
  obtain m q' where d: "dequeue fuel clock (Some t) q = Done (m, q')"
    using dequeue_returns [of q clock t j fuel] assms by (auto simp: plain_queue_def)
  moreover have "dequeue_loop fuel clock 1 (Some (clock 0 + t)) q = Done (m, q')"
    using d assms(1) by (simp add: dequeue_def plain_queue_def)
  note plain_dequeue_loop_none [OF assms(1,2) this]
  ultimately show ?thesis by simp
qed

text \<open>A clock that reaches every deadline within the fuel.\<close>

definition patient :: "nat \<Rightarrow> (nat \<Rightarrow> nat \<Rightarrow> rat) \<Rightarrow> rat \<Rightarrow> bool" where
  "patient fuel clocks t \<longleftrightarrow> (\<forall>k. \<exists>j. clocks k 0 + t \<le> clocks k (3 * j + 2) \<and> j + 2 \<le> fuel)"

lemma patient_fuel: "patient fuel clocks t \<Longrightarrow> 0 < fuel"
  unfolding patient_def by fastforce

lemma plain_nack_drop: "plain_queue q \<Longrightarrow> \<exists>q'. nack m False q = Done q' \<and> plain_queue q' \<and> mq_queue q' = mq_queue q"
  by (simp add: nack_def plain_take_out)

text \<open>What a cycle does on a plain queue.\<close>

lemma cycle_message:
  assumes "qh_queue host = memory_adapter fuel clocks" "0 < fuel"
    "plain_queue (tm_queue (wk_queue st))" "mq_queue (tm_queue (wk_queue st)) = m # ms"
    "qh_run host (qm_session_id m) (host_options host) (wk_world st) = (x, s)" "retry \<longrightarrow> (\<exists>d. x = Inr d)"
  shows "\<exists>r st'. run_once host timeout retry st = (Done r, st') \<and> plain_queue (tm_queue (wk_queue st')) \<and>
    mq_queue (tm_queue (wk_queue st')) = ms \<and> wk_world st' = s \<and>
    wx_delivery_action r = (case x of Inl e \<Rightarrow> Delivery_NACK_DROP | Inr d \<Rightarrow> Delivery_ACK)"
proof -
  obtain q where q: "dequeue fuel (clocks (tm_calls (wk_queue st))) timeout (tm_queue (wk_queue st)) = Done (Some m, q)"
      "plain_queue q" "mq_queue q = ms"
    using plain_dequeue_some [OF assms(3,4,2)] by blast
  obtain q' where n: "nack m False q = Done q'" "plain_queue q'" "mq_queue q' = ms"
    using plain_nack_drop [OF q(2)] q(3) by blast
  show ?thesis
    using assms(5,6) q n
    by (cases x; cases retry) (auto simp: run_once_def read_clock_def assms(1) memory_adapter_def map_done_def settle_def
        result_from_error_def decided_result_def timed_def ack_def plain_take_out split: prod.splits)
qed

lemma cycle_idle:
  assumes "qh_queue host = memory_adapter fuel clocks" "patient fuel clocks t"
    "plain_queue (tm_queue (wk_queue st))" "mq_queue (tm_queue (wk_queue st)) = []"
  shows "\<exists>r st'. run_once host (Some t) retry st = (Done r, st') \<and> plain_queue (tm_queue (wk_queue st')) \<and>
    mq_queue (tm_queue (wk_queue st')) = [] \<and> wk_world st' = wk_world st \<and> wx_delivery_action r = Delivery_IDLE"
proof -
  obtain j where "clocks (tm_calls (wk_queue st)) 0 + t \<le> clocks (tm_calls (wk_queue st)) (3 * j + 2)" "j + 2 \<le> fuel"
    using assms(2) by (auto simp: patient_def)
  from plain_dequeue_none [OF assms(3,4) this] assms show ?thesis
    by (simp add: run_once_def read_clock_def memory_adapter_def map_done_def settle_def idle_result_def timed_def)
qed

definition draining :: "(timed_queue, 's) queue_host \<Rightarrow> loop_limits \<Rightarrow> nat \<Rightarrow> (nat \<Rightarrow> nat \<Rightarrow> rat) \<Rightarrow> nat \<Rightarrow> bool" where
  "draining host lm fuel clocks n \<longleftrightarrow> qh_queue host = memory_adapter fuel clocks \<and>
     (\<exists>t. ll_timeout lm = Some t \<and> patient fuel clocks t) \<and> ll_stop lm = None \<and>
     ll_max_iterations lm = None \<and> ll_max_idle lm = Some (int n) \<and> 0 < n \<and>
     (ll_retry lm \<longrightarrow> (\<forall>i s. \<exists>d s'. qh_run host i (host_options host) s = (Inr d, s')))"

lemma loop_step:
  assumes "ll_stop lm = None" "run_once host (ll_timeout lm) (ll_retry lm) st = (Done r, st1)"
  shows "loop_from host lm started b st =
    (case stop_after lm False (count_result r b) of
       Some reason \<Rightarrow> Some (finish_loop_result host reason started (count_result r b) st1)
     | None \<Rightarrow> loop_from host lm started (count_result r b) st1)"
  using assms by (subst loop_from.simps) (simp add: poll_stop_def Let_def)

lemma drain_idle:
  assumes d: "draining host lm fuel clocks n" and "plain_queue (tm_queue (wk_queue st))"
    "mq_queue (tm_queue (wk_queue st)) = []" "bk_consecutive_idle b < n"
  shows "\<exists>res st'. loop_from host lm started b st = Some (Done res, st') \<and> wk_world st' = wk_world st \<and>
    mq_queue (tm_queue (wk_queue st')) = [] \<and> wl_stop_reason res = Stop_MAX_IDLE_CYCLES \<and>
    bk_acked (wl_books res) = bk_acked b \<and> bk_nack_dropped (wl_books res) = bk_nack_dropped b \<and>
    bk_nack_retried (wl_books res) = bk_nack_retried b \<and>
    bk_consecutive_idle (wl_books res) = n"
  using assms(2-)
proof (induction "n - bk_consecutive_idle b" arbitrary: b st rule: less_induct)
  case less
  obtain t where t: "ll_timeout lm = Some t" "patient fuel clocks t"
    and lm: "ll_stop lm = None" "ll_max_iterations lm = None" "ll_max_idle lm = Some (int n)"
      "qh_queue host = memory_adapter fuel clocks"
    using d by (auto simp: draining_def)
  obtain r st1 where r: "run_once host (ll_timeout lm) (ll_retry lm) st = (Done r, st1)"
      "plain_queue (tm_queue (wk_queue st1))" "mq_queue (tm_queue (wk_queue st1)) = []" "wk_world st1 = wk_world st"
      "wx_delivery_action r = Delivery_IDLE"
    using cycle_idle [OF lm(4) t(2) less.prems(1,2)] t(1) by metis
  let ?b = "count_result r b"
  have b: "bk_consecutive_idle ?b = Suc (bk_consecutive_idle b)" "bk_acked ?b = bk_acked b"
      "bk_nack_dropped ?b = bk_nack_dropped b" "bk_nack_retried ?b = bk_nack_retried b"
    using r(5) by (simp_all add: count_result_def Let_def)
  show ?case
  proof (cases "Suc (bk_consecutive_idle b) = n")
    case True
    then have "stop_after lm False ?b = Some Stop_MAX_IDLE_CYCLES" by (simp add: stop_after_def reached_def lm b)
    with loop_step [OF lm(1) r(1)] r b True show ?thesis
      by (auto simp: finish_loop_result_def read_clock_def)
  next
    case False
    then have lt: "bk_consecutive_idle ?b < n" using less.prems(3) b by simp
    then have "stop_after lm False ?b = None" by (simp add: stop_after_def reached_def lm)
    then have "loop_from host lm started b st = loop_from host lm started ?b st1"
      using loop_step [OF lm(1) r(1)] by simp
    moreover have "n - bk_consecutive_idle ?b < n - bk_consecutive_idle b" using lt b by simp
    ultimately show ?thesis using less.hyps [OF _ r(2,3) lt] r(4) b by simp
  qed
qed

lemma drain_messages:
  assumes d: "draining host lm fuel clocks n" and "plain_queue (tm_queue (wk_queue st))"
    "map qm_session_id (mq_queue (tm_queue (wk_queue st))) = is" "bk_consecutive_idle b < n"
    "drive_sessions (qh_run host) (host_options host) is (wk_world st) = (k, s)"
  shows "\<exists>res st'. loop_from host lm started b st = Some (Done res, st') \<and> wk_world st' = s \<and>
    mq_queue (tm_queue (wk_queue st')) = [] \<and> wl_stop_reason res = Stop_MAX_IDLE_CYCLES \<and>
    bk_acked (wl_books res) = bk_acked b + k \<and>
    bk_nack_dropped (wl_books res) + k = bk_nack_dropped b + length is \<and>
    bk_nack_retried (wl_books res) = bk_nack_retried b \<and> bk_consecutive_idle (wl_books res) = n"
  using assms(2-)
proof (induction "is" arbitrary: b st k)
  case Nil
  then show ?case using drain_idle [OF d] by auto
next
  case (Cons i "is")
  have lm: "ll_stop lm = None" "ll_max_iterations lm = None" "ll_max_idle lm = Some (int n)" "0 < n"
      "qh_queue host = memory_adapter fuel clocks" "0 < fuel"
    using d patient_fuel by (auto simp: draining_def)
  obtain m ms where m: "mq_queue (tm_queue (wk_queue st)) = m # ms" "qm_session_id m = i" "map qm_session_id ms = is"
    using Cons.prems(2) by (cases "mq_queue (tm_queue (wk_queue st))") auto
  obtain x s1 where x: "qh_run host i (host_options host) (wk_world st) = (x, s1)" by force
  have "ll_retry lm \<longrightarrow> (\<exists>d. x = Inr d)" using d x by (metis draining_def prod.inject)
  from cycle_message [OF lm(5,6) Cons.prems(1) m(1) _ this] x m(2)
  obtain r st1 where r: "run_once host (ll_timeout lm) (ll_retry lm) st = (Done r, st1)"
      "plain_queue (tm_queue (wk_queue st1))" "mq_queue (tm_queue (wk_queue st1)) = ms" "wk_world st1 = s1"
      "wx_delivery_action r = (case x of Inl e \<Rightarrow> Delivery_NACK_DROP | Inr d \<Rightarrow> Delivery_ACK)"
    by metis
  let ?b = "count_result r b"
  have b: "bk_consecutive_idle ?b = 0" "bk_nack_retried ?b = bk_nack_retried b"
      "bk_acked ?b = bk_acked b + (case x of Inl e \<Rightarrow> 0 | Inr d \<Rightarrow> 1)"
      "bk_nack_dropped ?b = bk_nack_dropped b + (case x of Inl e \<Rightarrow> 1 | Inr d \<Rightarrow> 0)"
    using r(5) by (auto simp: count_result_def Let_def split: sum.splits)
  have "stop_after lm False ?b = None" using lm by (simp add: stop_after_def reached_def b)
  then have l: "loop_from host lm started b st = loop_from host lm started ?b st1"
    using loop_step [OF lm(1) r(1)] by simp
  obtain k1 where k1: "drive_sessions (qh_run host) (host_options host) is (wk_world st1) = (k1, s)"
      "k = k1 + (case x of Inl e \<Rightarrow> 0 | Inr d \<Rightarrow> 1)"
    using Cons.prems(4) x r(4) by (cases x; cases "drive_sessions (qh_run host) (host_options host) is s1") auto
  have "bk_consecutive_idle ?b < n" using b lm(4) by simp
  from Cons.IH [OF r(2) _ this k1(1)] m(3) r(3) show ?case
    unfolding l b k1(2) by (cases x) auto
qed

text \<open>The queue of one run holds its sessions in their order.\<close>

lemma enqueue_all_plain:
  assumes "plain_queue q" "mq_max_delivery_attempts q = None"
  shows "\<exists>q'. enqueue_all is now q = Done q' \<and> plain_queue q' \<and> mq_max_delivery_attempts q' = None \<and>
    map qm_session_id (mq_queue q') = map qm_session_id (mq_queue q) @ is"
  using assms
proof (induction "is" arbitrary: q now)
  case (Cons i "is")
  obtain m q1 where q1: "enqueue i None (now 0) q = Done (m, q1)" "plain_queue q1"
      "mq_max_delivery_attempts q1 = None" "mq_queue q1 = mq_queue q @ [m]" "qm_session_id m = i"
    using Cons.prems by (auto simp: enqueue_def plain_queue_def draw_id_def queue_put_def Let_def)
  from Cons.IH [OF q1(2,3), of "\<lambda>n. now (Suc n)"] q1 show ?case by auto
qed simp

lemma transient_queue_holds:
  "\<exists>t. transient_queue is ids now = Done t \<and> plain_queue (tm_queue t) \<and>
     mq_max_delivery_attempts (tm_queue t) = None \<and> map qm_session_id (mq_queue (tm_queue t)) = is"
proof -
  define q where "q = \<lparr>mq_maxsize = 0, mq_queue = [], mq_in_flight = [], mq_dead_letters = [],
      mq_visibility_timeout = None, mq_max_delivery_attempts = None, mq_closed = False, mq_ids = ids, mq_drawn = 0\<rparr>"
  have "plain_queue q" "mq_max_delivery_attempts q = None" by (simp_all add: q_def plain_queue_def)
  from enqueue_all_plain [OF this, of "is" now] show ?thesis
    by (auto simp: transient_queue_def make_queue_def q_def map_done_def)
qed

lemma worker_drains:
  assumes "draining host lm fuel clocks n"
    "drive_sessions (qh_run host) (host_options host) is s = (k, s')"
  shows "\<exists>res st. run_loop_with_transient_queue host lm is ids now s = Some (Done res, Some st) \<and>
    wk_world st = s' \<and> mq_queue (tm_queue (wk_queue st)) = [] \<and> wl_stop_reason res = Stop_MAX_IDLE_CYCLES \<and>
    bk_acked (wl_books res) = k \<and> bk_nack_dropped (wl_books res) = length is - k \<and>
    bk_nack_retried (wl_books res) = 0"
proof -
  obtain q where q: "transient_queue is ids now = Done q" "plain_queue (tm_queue q)"
      "map qm_session_id (mq_queue (tm_queue q)) = is"
    using transient_queue_holds by blast
  have v: "and_then (validate_positive_limit (ll_max_iterations lm)) (\<lambda>_. validate_positive_limit (ll_max_idle lm)) = Inr ()"
    "0 < n"
    using assms(1) by (auto simp: draining_def validate_positive_limit_def)
  from drain_messages [OF assms(1), of "worker_start q s\<lparr>wk_reads := 1\<rparr>" "is" fresh_books k s' "qh_now host 0"]
  show ?thesis
    using q assms(2) v
    by (fastforce simp: run_loop_with_transient_queue_def worker_loop_def read_clock_def worker_start_def fresh_books_def)
qed

subsection \<open>A message that is never settled\<close>

text \<open>
  The queue of one run counts deliveries but bounds none, so a session that raises each time is put
  back each time, and the loop has no bound of its own.
\<close>

definition poisoned :: "string \<Rightarrow> ('q, 's) queue_host \<Rightarrow> bool" where
  "poisoned i host \<longleftrightarrow> (\<forall>s. \<exists>e s'. qh_run host i (host_options host) s = (Inl e, s'))"

lemma nack_puts_back:
  assumes "plain_queue q" "mq_max_delivery_attempts q = None" "flying m q" "mq_queue q = []"
  shows "\<exists>q' m'. nack m True q = Done q' \<and> plain_queue q' \<and> mq_max_delivery_attempts q' = None \<and>
    mq_queue q' = [m'] \<and> qm_session_id m' = qm_session_id m"
proof -
  obtain r where "map_of (mq_in_flight q) (qm_handle m) = Some r" using assms(3) by (auto simp: flying_def)
  then show ?thesis
    using assms
    by (auto simp: nack_def Let_def plain_queue_def take_out_def retry_or_dead_letter_def draw_id_def queue_put_def
        should_dead_letter_def)
qed

lemma poison_cycle:
  assumes "poisoned i host" "qh_queue host = memory_adapter fuel clocks" "0 < fuel"
    "plain_queue (tm_queue (wk_queue st))" "mq_max_delivery_attempts (tm_queue (wk_queue st)) = None"
    "mq_queue (tm_queue (wk_queue st)) = [m]" "qm_session_id m = i"
  shows "\<exists>r st' m'. run_once host timeout True st = (Done r, st') \<and> plain_queue (tm_queue (wk_queue st')) \<and>
    mq_max_delivery_attempts (tm_queue (wk_queue st')) = None \<and>
    mq_queue (tm_queue (wk_queue st')) = [m'] \<and> qm_session_id m' = i \<and> wx_delivery_action r = Delivery_NACK_RETRY"
proof -
  obtain q where q: "dequeue fuel (clocks (tm_calls (wk_queue st))) timeout (tm_queue (wk_queue st)) = Done (Some m, q)"
      "plain_queue q" "mq_queue q = []" "flying m q" "mq_max_delivery_attempts q = None"
    using plain_dequeue_some [OF assms(4,6,3)] assms(5) by metis
  obtain e s' where e: "qh_run host i (host_options host) (wk_world st) = (Inl e, s')"
    using assms(1) unfolding poisoned_def by blast
  obtain q' m' where n: "nack m True q = Done q'" "plain_queue q'" "mq_max_delivery_attempts q' = None"
      "mq_queue q' = [m']" "qm_session_id m' = i"
    using nack_puts_back [OF q(2,5,4,3)] assms(7) by metis
  show ?thesis
    using q e n assms(7)
    by (auto simp: run_once_def read_clock_def assms(2) memory_adapter_def map_done_def settle_def
        result_from_error_def timed_def split: prod.splits)
qed

lemma poison_spins:
  assumes "poisoned i host" "qh_queue host = memory_adapter fuel clocks" "0 < fuel" "ll_retry lm"
    "ll_stop lm = None" "ll_max_iterations lm = None"
    "plain_queue (tm_queue (wk_queue st))" "mq_max_delivery_attempts (tm_queue (wk_queue st)) = None"
    "mq_queue (tm_queue (wk_queue st)) = [m]" "qm_session_id m = i" "\<not> reached (ll_max_idle lm) 0"
  shows "loop_from host lm started b st = None"
proof (rule ccontr)
  let ?Q = "\<lambda>st :: (timed_queue, 'a) worker_state. \<exists>m. plain_queue (tm_queue (wk_queue st)) \<and>
    mq_max_delivery_attempts (tm_queue (wk_queue st)) = None \<and>
    mq_queue (tm_queue (wk_queue st)) = [m] \<and> qm_session_id m = i"
  let ?P = "\<lambda>(h :: (timed_queue, 'a) queue_host) l (t :: time) (b :: loop_books) st
      (y :: worker_loop_result outcome \<times> (timed_queue, 'a) worker_state).
    h = host \<longrightarrow> l = lm \<longrightarrow> ?Q st \<longrightarrow> False"
  assume "loop_from host lm started b st \<noteq> None"
  then obtain y where y: "loop_from host lm started b st = Some y" by blast
  have "?P host lm started b st y"
  proof (rule loop_from.raw_induct [where P = ?P, OF _ y], intro impI, goal_cases)
    case (1 loop h l t b st y)
    note IH = 1(1) and y = 1(2) [unfolded 1(3,4)]
    obtain m where m: "plain_queue (tm_queue (wk_queue st))"
        "mq_max_delivery_attempts (tm_queue (wk_queue st)) = None" "mq_queue (tm_queue (wk_queue st)) = [m]"
        "qm_session_id m = i"
      using 1(5) by blast
    obtain r st1 m' where r: "run_once host (ll_timeout lm) True st = (Done r, st1)"
        and Q1: "plain_queue (tm_queue (wk_queue st1))" "mq_max_delivery_attempts (tm_queue (wk_queue st1)) = None"
          "mq_queue (tm_queue (wk_queue st1)) = [m']" "qm_session_id m' = i"
        and action: "wx_delivery_action r = Delivery_NACK_RETRY"
      using poison_cycle [OF assms(1-3) m] by blast
    have "bk_consecutive_idle (count_result r b) = 0" using action by (simp add: count_result_def Let_def)
    then have "stop_after lm False (count_result r b) = None"
      using assms(6,11) by (simp add: stop_after_def) (simp add: reached_def)
    then have "loop host lm t (count_result r b) st1 = Some y"
      using y r assms(4,5) by (simp add: poll_stop_def Let_def)
    from IH [OF this] Q1 show False by blast
  qed
  then show False using assms(7-10) by blast
qed

lemma poisoned_worker_never_returns:
  assumes "poisoned i host" "qh_queue host = memory_adapter fuel clocks" "0 < fuel" "ll_retry lm"
    "ll_stop lm = None" "ll_max_iterations lm = None" "\<not> reached (ll_max_idle lm) 0"
  shows "run_loop_with_transient_queue host lm [i] ids now s = None"
proof -
  obtain q where q: "transient_queue [i] ids now = Done q" "plain_queue (tm_queue q)"
      "mq_max_delivery_attempts (tm_queue q) = None" "map qm_session_id (mq_queue (tm_queue q)) = [i]"
    using transient_queue_holds by blast
  then obtain m where m: "mq_queue (tm_queue q) = [m]" "qm_session_id m = i" by auto
  have v: "and_then (validate_positive_limit (ll_max_iterations lm)) (\<lambda>_. validate_positive_limit (ll_max_idle lm)) = Inr ()"
    using assms(6,7) by (auto simp: validate_positive_limit_def reached_def split: option.splits)
  have "loop_from host lm (qh_now host 0) fresh_books (worker_start q s\<lparr>wk_reads := 1\<rparr>) = None"
    by (rule poison_spins [OF assms(1-6)]) (use q m assms(7) in \<open>auto simp: worker_start_def reached_def split: option.splits\<close>)
  then show ?thesis
    by (simp add: run_loop_with_transient_queue_def q(1) worker_loop_def v read_clock_def worker_start_def)
qed

subsection \<open>Sessions under a worker\<close>

lemma worker_loop_world:
  assumes "worker_loop host lm st = Some (Done res, st')"
    and run: "\<And>i s. R s (snd (qh_run host i (host_options host) s))"
    and R: "\<And>s. R s s" "\<And>a b c. R a b \<Longrightarrow> R b c \<Longrightarrow> R a c"
  shows "R (wk_world st) (wk_world st')"
proof -
  let ?J = "\<lambda>(b :: loop_books) s. R (wk_world st) (wk_world s)"
  obtain started where l: "loop_from host lm started fresh_books (st\<lparr>wk_reads := wk_reads st + 1\<rparr>) = Some (Done res, st')"
    using worker_loop_Done(1) [OF assms(1)] by blast
  have "\<exists>b' st0 reason. ?J b' st0 \<and> (reason = Stop_REQUESTED \<and> ll_stop lm \<noteq> None \<or> stop_after lm False b' = Some reason) \<and>
      finish_loop_result host reason started b' st0 = (Done res, st')"
  proof (rule loop_from_rule [OF l, where J = ?J and K = ?J])
    fix b s r s1
    assume J: "?J b s" and r: "run_once host (ll_timeout lm) (ll_retry lm) s = (Done r, s1)"
    have "R (wk_world s) (wk_world s1)"
      using r
    proof (cases rule: run_once_cases)
      case idle
      then show ?thesis by (simp add: R(1))
    next
      case (decided m q d s' q')
      with run [where i = "qm_session_id m" and s = "wk_world s"] show ?thesis by simp
    next
      case (raised m q e s' q')
      with run [where i = "qm_session_id m" and s = "wk_world s"] show ?thesis by simp
    qed
    with J show "?J (count_result r b) s1" using R(2) by blast
  qed (use R(1) in auto)
  then show ?thesis unfolding finish_loop_Done by auto
qed

text \<open>What is acknowledged is at rest.\<close>

lemma acknowledged_at_rest:
  assumes "qh_run host = agent_runner orch" "quiet_hooks (or_hooks orch)" "\<And>q. preserves evolves (or_harness orch q)"
    "keyed (w_store (wk_world st))" "run_once host timeout retry st = (Done r, st')"
    "wx_delivery_action r = Delivery_ACK" "wx_session_id r = Some i"
    "memory_get (w_store (wk_world st)) i = Some s"
  shows "\<exists>t. memory_get (w_store (wk_world st')) i = Some t \<and>
    rs_status t \<in> {Session_WAITING_GATE, Session_COMPLETED, Session_FAILED, Session_CANCELLED}"
  using assms(5)
proof (cases rule: run_once_cases)
  case (decided m q d s1 q')
  then have "qm_session_id m = i" using assms(7) by simp
  with decided have run: "run_session orch (host_options host) i (wk_world st) = (Inr d, wk_world st')"
    by (simp add: assms(1) agent_runner_def)
  show ?thesis
    using run_session_rests [OF assms(2,3,4,8), of "host_options host"] run by auto
qed (use assms(6) in \<open>auto split: if_splits\<close>)

end
