(* ===== verification/Runtime_Settings.thy ===== *)
theory Runtime_Settings
  imports Queue_Worker Goal_Agent Py_Paths Goal_Facts Worker_Facts
begin

text \<open>
  The settings of a queued goal, the readiness of a worker, and that the settings arrive.
\<close>

section \<open>Queued goals and readiness\<close>

text \<open>
  \<^verbatim>\<open>runtime_queue_goal.py\<close> and \<^verbatim>\<open>runtime_worker_readiness.py\<close>: a goal that is
  queued is run by another process, which builds its agent from its own arguments and from those
  that the session has kept. \<open>qg_build\<close> is the builder of the agent; the arguments that are only
  passed on to it are part of it.
\<close>

subsection \<open>Arguments that a session keeps\<close>

record runtime_args =
  ra_episodic_memory :: bool
  ra_agent_memory :: bool
  ra_store_kind :: "string option"
  ra_store_path :: "py_path option"
  ra_max_tool_rounds :: "int option"
  ra_max_auto_repairs :: "int option"

definition default_args :: runtime_args where
  "default_args = \<lparr>ra_episodic_memory = False, ra_agent_memory = False, ra_store_kind = None,
     ra_store_path = None, ra_max_tool_rounds = None, ra_max_auto_repairs = None\<rparr>"

definition some_entry :: "string \<Rightarrow> ('a \<Rightarrow> json) \<Rightarrow> 'a option \<Rightarrow> pydict" where
  "some_entry key to_json v = (case v of None \<Rightarrow> [] | Some x \<Rightarrow> [(key, to_json x)])"

definition runtime_overrides_from_args :: "runtime_args \<Rightarrow> pydict option" where
  "runtime_overrides_from_args a =
     (let overrides =
        (if ra_episodic_memory a then [(''enable_episodic_memory'', JBool True)] else []) @
        (if ra_agent_memory a then [(''enable_agent_memory'', JBool True)] else []) @
        some_entry ''memory_store_kind'' JStr (ra_store_kind a) @
        some_entry ''memory_store_path'' (\<lambda>p. JStr (path_str p)) (ra_store_path a) @
        some_entry ''max_tool_rounds'' JInt (ra_max_tool_rounds a) @
        some_entry ''max_auto_repairs'' JInt (ra_max_auto_repairs a) in
      if overrides = [] then None else Some overrides)"

fun coerce_str :: "json \<Rightarrow> string option" where
  "coerce_str (JStr s) = (if s = [] then None else Some s)"
| "coerce_str _ = None"

definition coerce_path :: "json \<Rightarrow> py_path option" where
  "coerce_path v = map_option make_path (coerce_str v)"

fun coerce_int :: "json \<Rightarrow> int option" where
  "coerce_int (JInt i) = Some i"
| "coerce_int _ = None"

definition or_else :: "'a option \<Rightarrow> 'a option \<Rightarrow> 'a option" where
  "or_else a b = (case a of Some x \<Rightarrow> Some x | None \<Rightarrow> b)"

text \<open>The arguments of the worker win; what it does not say the session does.\<close>

definition effective_args :: "runtime_args \<Rightarrow> pydict \<Rightarrow> runtime_args" where
  "effective_args a overrides =
     \<lparr>ra_episodic_memory = (ra_episodic_memory a \<or> json_truth (dict_get overrides ''enable_episodic_memory'')),
      ra_agent_memory = (ra_agent_memory a \<or> json_truth (dict_get overrides ''enable_agent_memory'')),
      ra_store_kind = or_else (ra_store_kind a) (coerce_str (dict_get overrides ''memory_store_kind'')),
      ra_store_path = or_else (ra_store_path a) (coerce_path (dict_get overrides ''memory_store_path'')),
      ra_max_tool_rounds = or_else (ra_max_tool_rounds a) (coerce_int (dict_get overrides ''max_tool_rounds'')),
      ra_max_auto_repairs = or_else (ra_max_auto_repairs a) (coerce_int (dict_get overrides ''max_auto_repairs''))\<rparr>"

text \<open>A session that is missing has no overrides; every other failure is the worker's.\<close>

definition persisted_runtime_overrides :: "string \<Rightarrow> pydict svc" where
  "persisted_runtime_overrides session_id =
     svc_try
       (svc_bind (get_session session_id) (\<lambda>s.
        svc_return (obj_or_empty (dict_get (rs_metadata s) ''runtime_overrides''))))
       (\<lambda>e. case e of SessionNotFoundError _ \<Rightarrow> svc_return [] | _ \<Rightarrow> svc_lift (Inl e))"

subsection \<open>The queued orchestrator\<close>

record queued_goal =
  qg_args :: runtime_args
  qg_build :: "runtime_args \<Rightarrow> exn + goal_services"

text \<open>Every run has a bundle of its own, so its agents are built from the stored plan.\<close>

definition run_queued_goal :: "queued_goal \<Rightarrow> string \<Rightarrow> run_options \<Rightarrow> runtime_decision svc" where
  "run_queued_goal qg session_id opts =
     svc_bind (persisted_runtime_overrides session_id) (\<lambda>overrides.
     svc_bind (svc_lift (qg_build qg (effective_args (qg_args qg) overrides))) (\<lambda>gg w.
       case run_goal_agent gg opts session_id [] w of (r, cache, w1) \<Rightarrow> (r, w1)))"

definition queued_goal_host ::
    "'q queue_adapter \<Rightarrow> queued_goal \<Rightarrow> (exn \<Rightarrow> string \<times> string) \<Rightarrow> (nat \<Rightarrow> time) \<Rightarrow> ('q, world) queue_host" where
  "queued_goal_host qa qg failure now = queue_worker_host qa (run_queued_goal qg) failure now"

definition create_queued_goal_session ::
    "queued_goal \<Rightarrow> goal_spec \<Rightarrow> pydict option \<Rightarrow> runtime_session svc" where
  "create_queued_goal_session qg g input_payload =
     svc_bind (svc_lift (qg_build qg (qg_args qg))) (\<lambda>gg w.
       case start_goal gg g (Some (case input_payload of None \<Rightarrow> [] | Some d \<Rightarrow> d)) None
           (runtime_overrides_from_args (qg_args qg)) [] w of
         (r, cache, w1) \<Rightarrow> (r, w1))"

subsection \<open>Readiness\<close>

definition capability_value :: "queue_capability \<Rightarrow> string" where
  "capability_value c = (case c of Cap_ENQUEUE \<Rightarrow> ''enqueue'' | Cap_DEQUEUE \<Rightarrow> ''dequeue'' | Cap_ACK \<Rightarrow> ''ack''
     | Cap_NACK \<Rightarrow> ''nack'' | Cap_PENDING \<Rightarrow> ''pending'' | Cap_CLOSE \<Rightarrow> ''close'')"

definition queue_distribution :: "string \<Rightarrow> string" where
  "queue_distribution name =
     (if name = ''redis-stream'' then ''broker'' else if name = ''in-memory'' then ''process_local'' else ''unknown'')"

record store_readiness =
  sx_kind :: string
  sx_path :: "string option"
  sx_durability :: string
  sx_persistent :: bool
  sx_cas_capable :: bool
  sx_local_ready :: bool
  sx_distributed_ready :: bool
  sx_reason :: string

definition normalized_kind :: "string \<Rightarrow> string" where
  "normalized_kind kind = map (\<lambda>c. if c = CHR ''-'' then CHR ''_'' else c) (py_lower kind)"

definition session_store_readiness :: "string \<Rightarrow> string option \<Rightarrow> store_readiness" where
  "session_store_readiness kind path =
     (let normalized = normalized_kind kind in
      if normalized \<in> {''memory'', ''in_memory''} then
        \<lparr>sx_kind = normalized, sx_path = path, sx_durability = ''process_local'', sx_persistent = False,
         sx_cas_capable = False, sx_local_ready = True, sx_distributed_ready = False,
         sx_reason = ''in_memory_session_store_is_process_local''\<rparr>
      else if normalized = ''sqlite'' then
        (case path of
           None \<Rightarrow>
             \<lparr>sx_kind = normalized, sx_path = None, sx_durability = ''missing_path'', sx_persistent = False,
              sx_cas_capable = False, sx_local_ready = False, sx_distributed_ready = False,
              sx_reason = ''sqlite_session_store_requires_store_path''\<rparr>
         | Some p \<Rightarrow>
             if p = '':memory:'' then
               \<lparr>sx_kind = normalized, sx_path = Some p, sx_durability = ''process_local'', sx_persistent = False,
                sx_cas_capable = False, sx_local_ready = True, sx_distributed_ready = False,
                sx_reason = ''sqlite_memory_database_is_process_local''\<rparr>
             else
               \<lparr>sx_kind = normalized, sx_path = Some p, sx_durability = ''persistent'', sx_persistent = True,
                sx_cas_capable = True, sx_local_ready = True, sx_distributed_ready = True,
                sx_reason = ''sqlite_session_store_is_persistent_cas_capable''\<rparr>)
      else
        \<lparr>sx_kind = normalized, sx_path = path, sx_durability = ''unknown'', sx_persistent = False,
         sx_cas_capable = False, sx_local_ready = False, sx_distributed_ready = False,
         sx_reason = ''unknown_session_store_kind''\<rparr>)"

record worker_readiness =
  wr2_worker_id :: string
  wr2_queue_name :: string
  wr2_queue_capabilities :: "string list"
  wr2_queue_pollable :: bool
  wr2_queue_distribution :: string
  wr2_store :: store_readiness
  wr2_local_ready :: bool
  wr2_distributed_ready :: bool
  wr2_ready :: bool
  wr2_reasons :: "string list"

definition readiness_reasons :: "bool \<Rightarrow> string \<Rightarrow> store_readiness \<Rightarrow> bool \<Rightarrow> bool \<Rightarrow> string list" where
  "readiness_reasons pollable distribution st local_ready distributed_ready =
     [if pollable then ''queue_supports_pollable_delivery'' else ''queue_requires_dequeue_ack_nack'',
      if distribution = ''broker'' then ''queue_is_broker_backed''
      else if distribution = ''process_local'' then ''queue_is_process_local''
      else ''queue_distribution_is_unknown'',
      sx_reason st] @
     (if local_ready then [''local_worker_preflight_ready''] else []) @
     [if distributed_ready then ''distributed_worker_preflight_ready''
      else ''distributed_worker_preflight_not_ready'']"

definition worker_readiness_of :: "'q queue_adapter \<Rightarrow> string \<Rightarrow> string option \<Rightarrow> string \<Rightarrow> worker_readiness" where
  "worker_readiness_of qa store_kind store_path worker_id =
     (let pollable = supports_pollable_delivery (qa_features qa);
          distribution = queue_distribution (qa_name qa);
          st = session_store_readiness store_kind store_path;
          local_ready = (pollable \<and> sx_local_ready st);
          distributed_ready = (pollable \<and> distribution = ''broker'' \<and> sx_distributed_ready st) in
      \<lparr>wr2_worker_id = worker_id, wr2_queue_name = qa_name qa,
       wr2_queue_capabilities = sort (map capability_value (filter (\<lambda>c. c \<in> qa_features qa)
         [Cap_ENQUEUE, Cap_DEQUEUE, Cap_ACK, Cap_NACK, Cap_PENDING, Cap_CLOSE])),
       wr2_queue_pollable = pollable, wr2_queue_distribution = distribution, wr2_store = st,
       wr2_local_ready = local_ready, wr2_distributed_ready = distributed_ready,
       wr2_ready = distributed_ready,
       wr2_reasons = readiness_reasons pollable distribution st local_ready distributed_ready\<rparr>)"

section \<open>That settings reach the worker\<close>

text \<open>
  The arguments of a queued goal reach the worker that runs it, and a worker that runs goals keeps
  the history of every session.
\<close>

subsection \<open>Arguments\<close>

definition keepable :: "runtime_args \<Rightarrow> bool" where
  "keepable a \<longleftrightarrow> ra_store_kind a \<noteq> Some [] \<and> (\<forall>p. ra_store_path a = Some p \<longrightarrow> clean_path p)"

lemma path_str_nonempty: "path_str p \<noteq> []"
  by (simp add: path_str_def Let_def)

lemma overrides_lookup:
  assumes "runtime_overrides_from_args a = Some d"
  shows "json_truth (dict_get d ''enable_episodic_memory'') = ra_episodic_memory a"
    "json_truth (dict_get d ''enable_agent_memory'') = ra_agent_memory a"
    "dict_get d ''memory_store_kind'' = (case ra_store_kind a of None \<Rightarrow> JNull | Some x \<Rightarrow> JStr x)"
    "dict_get d ''memory_store_path'' = (case ra_store_path a of None \<Rightarrow> JNull | Some x \<Rightarrow> JStr (path_str x))"
    "dict_get d ''max_tool_rounds'' = (case ra_max_tool_rounds a of None \<Rightarrow> JNull | Some x \<Rightarrow> JInt x)"
    "dict_get d ''max_auto_repairs'' = (case ra_max_auto_repairs a of None \<Rightarrow> JNull | Some x \<Rightarrow> JInt x)"
proof -
  have d: "d = (if ra_episodic_memory a then [(''enable_episodic_memory'', JBool True)] else []) @
        (if ra_agent_memory a then [(''enable_agent_memory'', JBool True)] else []) @
        some_entry ''memory_store_kind'' JStr (ra_store_kind a) @
        some_entry ''memory_store_path'' (\<lambda>p. JStr (path_str p)) (ra_store_path a) @
        some_entry ''max_tool_rounds'' JInt (ra_max_tool_rounds a) @
        some_entry ''max_auto_repairs'' JInt (ra_max_auto_repairs a)"
    using assms by (simp add: runtime_overrides_from_args_def Let_def split: if_splits)
  show "json_truth (dict_get d ''enable_episodic_memory'') = ra_episodic_memory a"
    "json_truth (dict_get d ''enable_agent_memory'') = ra_agent_memory a"
    "dict_get d ''memory_store_kind'' = (case ra_store_kind a of None \<Rightarrow> JNull | Some x \<Rightarrow> JStr x)"
    "dict_get d ''memory_store_path'' = (case ra_store_path a of None \<Rightarrow> JNull | Some x \<Rightarrow> JStr (path_str x))"
    "dict_get d ''max_tool_rounds'' = (case ra_max_tool_rounds a of None \<Rightarrow> JNull | Some x \<Rightarrow> JInt x)"
    "dict_get d ''max_auto_repairs'' = (case ra_max_auto_repairs a of None \<Rightarrow> JNull | Some x \<Rightarrow> JInt x)"
    unfolding d by (simp_all add: some_entry_def dict_get_def split: option.split)
qed

lemma overrides_None: "runtime_overrides_from_args a = None \<longleftrightarrow> a = default_args"
  by (cases a) (auto simp: runtime_overrides_from_args_def Let_def some_entry_def default_args_def split: option.splits if_splits)

lemma effective_roundtrip:
  assumes "keepable a" "runtime_overrides_from_args a = Some d"
  shows "effective_args default_args d = a"
proof (cases a)
  case (fields ep ag k p tr ar)
  with assms(1) have "k \<noteq> Some []" "\<And>x. p = Some x \<Longrightarrow> clean_path x" by (auto simp: keepable_def)
  then show ?thesis
    using fields overrides_lookup [OF assms(2)]
    by (auto simp: effective_args_def default_args_def or_else_def coerce_path_def make_path_str path_str_nonempty
        split: option.splits)
qed

lemma effective_empty: "effective_args default_args [] = default_args"
  by (simp add: effective_args_def default_args_def or_else_def coerce_path_def)

subsection \<open>The session of a queued goal\<close>

lemma create_session_stored:
  assumes "create_session b inp md w = (Inr s, w')"
  shows "memory_get (w_store w') (rs_id s) = Some s" "rs_metadata s = md"
proof -
  obtain s0 s1 w0 w1 where p: "put_session s0 w0 = (Inr s1, w1)" "rs_metadata s0 = md"
      and e: "svc_emit (session_created (rs_id s1) (wb_name b) (length (rs_nodes s1))) w1 = (Inr (), w')" and s: "s = s1"
    using assms
    by (auto simp: create_session_def svc_bind_Inr svc_env_def svc_return_def Let_def create_runtime_session_def)
  note put = put_session_Inr [OF p(1)]
  show "memory_get (w_store w') (rs_id s) = Some s"
    unfolding svc_emit_Inr [OF e] put(2) s by (simp add: put(1))
  show "rs_metadata s = md" using p(2) by (simp add: s put(1))
qed

lemma session_metadata_overrides:
  "dict_get (session_metadata pc p None ro) ''runtime_overrides'' =
     (case ro of None \<Rightarrow> JNull | Some d \<Rightarrow> if d = [] then JNull else JObj (dict_merge [] d))"
  by (simp add: session_metadata_def Let_def dict_get_def dict_merge_lookup as_session_metadata_def obj_or_empty_def
      split: option.split)

lemma start_goal_stored:
  assumes "start_goal gg g inp None ro c w = (Inr s, c', w')"
  shows "memory_get (w_store w') (rs_id s) = Some s"
    "dict_get (rs_metadata s) ''runtime_overrides'' =
       (case ro of None \<Rightarrow> JNull | Some d \<Rightarrow> if d = [] then JNull else JObj (dict_merge [] d))"
proof -
  obtain p a w1 where "start_session a (dict_merge [(''goal'', JStr (gs_objective g))] (case inp of None \<Rightarrow> [] | Some d \<Rightarrow> d))
      (session_metadata (gg_codec gg) p None ro) w1 = (Inr s, w')"
    using assms
    by (auto simp: start_goal_def gop_bind_def gop_lift_def remember_agent_def gop_return_def
        split: prod.splits sum.splits)
  then have "create_session (or_workflow a) (dict_merge [(''goal'', JStr (gs_objective g))]
      (case inp of None \<Rightarrow> [] | Some d \<Rightarrow> d)) (session_metadata (gg_codec gg) p None ro) w1 = (Inr s, w')"
    by (simp add: start_session_def)
  from create_session_stored [OF this] session_metadata_overrides
  show "memory_get (w_store w') (rs_id s) = Some s"
    "dict_get (rs_metadata s) ''runtime_overrides'' =
       (case ro of None \<Rightarrow> JNull | Some d \<Rightarrow> if d = [] then JNull else JObj (dict_merge [] d))"
    by simp_all
qed

lemma overrides_distinct: "runtime_overrides_from_args a = Some d \<Longrightarrow> distinct (map fst d) \<and> d \<noteq> []"
  by (auto simp: runtime_overrides_from_args_def Let_def some_entry_def split: if_splits option.splits)

lemma queued_args_roundtrip:
  assumes "create_queued_goal_session qg g inp w = (Inr s, w')" "keepable (qg_args qg)"
  shows "\<exists>overrides. persisted_runtime_overrides (rs_id s) w' = (Inr overrides, w') \<and>
    effective_args default_args overrides = qg_args qg"
proof -
  obtain gg inp' c w1 where "start_goal gg g inp' None (runtime_overrides_from_args (qg_args qg)) [] w1 = (Inr s, c, w')"
    using assms(1)
    by (auto simp: create_queued_goal_session_def svc_bind_def svc_lift_def split: sum.splits prod.splits)
  note stored = start_goal_stored [OF this]
  have get: "persisted_runtime_overrides (rs_id s) w' =
      (Inr (obj_or_empty (dict_get (rs_metadata s) ''runtime_overrides'')), w')"
    using stored(1)
    by (simp add: persisted_runtime_overrides_def svc_try_def svc_bind_def get_session_def get_required_def svc_return_def)
  show ?thesis
  proof (cases "runtime_overrides_from_args (qg_args qg)")
    case None
    then have "dict_get (rs_metadata s) ''runtime_overrides'' = JNull" using stored(2) by simp
    moreover have "qg_args qg = default_args" using None overrides_None by blast
    ultimately show ?thesis using get effective_empty by (simp add: obj_or_empty_def)
  next
    case (Some d)
    then have "dict_get (rs_metadata s) ''runtime_overrides'' = JObj d"
      using stored(2) overrides_distinct [OF Some] merge_empty [of d] by simp
    then show ?thesis using get effective_roundtrip [OF assms(2) Some] by (simp add: obj_or_empty_def)
  qed
qed

subsection \<open>Goals under a worker\<close>

definition bundles_ok :: "queued_goal \<Rightarrow> bool" where
  "bundles_ok qg \<longleftrightarrow> (\<forall>a gg. qg_build qg a = Inr gg \<longrightarrow> goal_services_ok gg)"

lemma run_queued_goal_keeps:
  assumes "bundles_ok qg" "keyed (w_store w)"
  shows "store_later evolves (w_store w) (w_store (snd (run_queued_goal qg i opts w)))"
proof -
  obtain ov w0 where p: "persisted_runtime_overrides i w = (ov, w0)" by force
  have w0: "w0 = w"
    using p
    by (auto simp: persisted_runtime_overrides_def svc_try_def svc_bind_def get_session_def svc_return_def svc_lift_def
        split: sum.splits exn.splits)
  show ?thesis
  proof (cases "\<exists>d gg. ov = Inr d \<and> qg_build qg (effective_args (qg_args qg) d) = Inr gg")
    case False
    then show ?thesis
      using p w0 by (auto simp: run_queued_goal_def svc_bind_def svc_lift_def hist.store_later_refl split: sum.splits)
  next
    case True
    then obtain d gg where g: "ov = Inr d" "qg_build qg (effective_args (qg_args qg) d) = Inr gg" by blast
    obtain r c w1 where r: "run_goal_agent gg opts i [] w = (r, c, w1)" by (cases "run_goal_agent gg opts i [] w")
    have "goal_services_ok gg" using assms(1) g(2) by (auto simp: bundles_ok_def)
    from gop_keepsD(1) [OF run_goal_agent_keeps [OF this] assms(2) _ r] r p g w0 show ?thesis
      by (simp add: run_queued_goal_def svc_bind_def svc_lift_def agents_ok_def)
  qed
qed

lemma worker_keeps_history:
  fixes host :: "('q, world) queue_host"
  assumes "worker_loop host lm st = Some (Done res, st')" "keyed (w_store (wk_world st))"
    "\<And>i w. keyed (w_store w) \<Longrightarrow>
      store_later evolves (w_store w) (w_store (snd (qh_run host i (host_options host) w)))"
  shows "store_later evolves (w_store (wk_world st)) (w_store (wk_world st'))"
proof -
  let ?R = "\<lambda>w w'. keyed (w_store w) \<longrightarrow> keyed (w_store w') \<and> store_later evolves (w_store w) (w_store w')"
  have "?R (wk_world st) (wk_world st')"
  proof (rule worker_loop_world [OF assms(1), where R = ?R])
    fix i :: string and s :: world
    show "?R s (snd (qh_run host i (host_options host) s))"
      using assms(3) by (auto simp: store_later_def)
  next
    fix a b c :: world
    assume "?R a b" "?R b c"
    then show "?R a c" using hist.store_later_trans by blast
  qed (simp add: hist.store_later_refl)
  then show ?thesis using assms(2) by blast
qed

subsection \<open>Readiness\<close>

lemma readiness_exact:
  "wr2_ready (worker_readiness_of qa kind path worker_id) \<longleftrightarrow>
     POLLABLE_DELIVERY_FEATURES \<subseteq> qa_features qa \<and> qa_name qa = ''redis-stream'' \<and>
     normalized_kind kind = ''sqlite'' \<and> path \<notin> {None, Some '':memory:''}"
  by (auto simp: worker_readiness_of_def Let_def supports_pollable_delivery_def queue_distribution_def
      session_store_readiness_def split: option.splits if_splits)

end
