(* ===== verification/Redis_Queue.thy ===== *)
theory Redis_Queue
  imports Queue_Worker Model_Routing
begin

text \<open>
  The queue on Redis streams, and the server that the repository tests it against.
\<close>

section \<open>The adapter\<close>

text \<open>
  \<^verbatim>\<open>queue/redis_stream.py\<close> and \<^verbatim>\<open>queue/redis_stream_support.py\<close>: the queue on Redis
  streams. The entries of a stream are the messages; a consumer group hands an entry out and keeps
  it pending until it is acknowledged; a hash holds for every delivered entry the token of its
  latest delivery, and only that token settles it. The client of Redis is a record of its commands
  on a server: each returns a reply or fails, and a command that never returns is not modelled.
  JSON text and the decoding of bytes are \<open>redis_codec\<close>.
\<close>

subsection \<open>Replies\<close>

datatype redis_value =
    RNil
  | RInt int
  | RText string
  | RBytes string
  | RList "redis_value list"
  | RTuple "redis_value list"
  | RMap "(redis_value \<times> redis_value) list"

type_synonym entry_fields = "(string \<times> string) list"
type_synonym raw_fields = "(redis_value \<times> redis_value) list"

text \<open>
  \<open>jc_dumps\<close> and \<open>jc_loads\<close> are \<^verbatim>\<open>json.dumps(..., sort_keys=True)\<close> and
  \<^verbatim>\<open>json.loads\<close>, \<open>jc_str\<close> is \<^verbatim>\<open>str\<close> of a reply that is no text, \<open>jc_json_str\<close> of a
  JSON value that is no text.
\<close>

record redis_codec =
  jc_dumps :: "pydict \<Rightarrow> string"
  jc_loads :: "string \<Rightarrow> json option"
  jc_utf8 :: "string \<Rightarrow> exn + string"
  jc_str :: "redis_value \<Rightarrow> string"
  jc_json_str :: "json \<Rightarrow> string"

definition to_text :: "redis_codec \<Rightarrow> redis_value \<Rightarrow> exn + string" where
  "to_text c v = (case v of RBytes b \<Rightarrow> jc_utf8 c b | RText s \<Rightarrow> Inr s | _ \<Rightarrow> Inr (jc_str c v))"

fun reply_items :: "redis_value \<Rightarrow> redis_value list option" where
  "reply_items (RList xs) = Some xs"
| "reply_items (RTuple xs) = Some xs"
| "reply_items _ = None"

fun gather_entries :: "redis_codec \<Rightarrow> redis_value list \<Rightarrow> exn + (string \<times> raw_fields) list" where
  "gather_entries c [] = Inr []"
| "gather_entries c (e # es) =
     (case reply_items e of
        Some (i # RMap flds # _) \<Rightarrow>
          and_then (to_text c i) (\<lambda>entry_id.
          and_then (gather_entries c es) (\<lambda>rest. Inr ((entry_id, flds) # rest)))
      | Some (i # _ # _) \<Rightarrow> and_then (to_text c i) (\<lambda>_. gather_entries c es)
      | _ \<Rightarrow> gather_entries c es)"

definition stream_entries :: "redis_codec \<Rightarrow> redis_value \<Rightarrow> exn + (string \<times> raw_fields) list" where
  "stream_entries c v = (case v of RList es \<Rightarrow> gather_entries c es | _ \<Rightarrow> Inr [])"

fun collect_streams :: "redis_codec \<Rightarrow> redis_value list \<Rightarrow> exn + (string \<times> redis_value) list" where
  "collect_streams c [] = Inr []"
| "collect_streams c (item # items) =
     (case reply_items item of
        Some (name # entries # _) \<Rightarrow>
          and_then (to_text c name) (\<lambda>stream_name.
          and_then (collect_streams c items) (\<lambda>rest. Inr ((stream_name, entries) # rest)))
      | _ \<Rightarrow> collect_streams c items)"

definition stream_response :: "redis_codec \<Rightarrow> redis_value \<Rightarrow> exn + (string \<times> redis_value) list" where
  "stream_response c v = (case v of RList items \<Rightarrow> collect_streams c items | _ \<Rightarrow> Inr [])"

fun first_entry :: "redis_codec \<Rightarrow> (string \<times> redis_value) list \<Rightarrow> exn + (string \<times> raw_fields) option" where
  "first_entry c [] = Inr None"
| "first_entry c ((stream_name, entries) # streams) =
     and_then (stream_entries c entries) (\<lambda>normalized.
       case normalized of e # _ \<Rightarrow> Inr (Some e) | [] \<Rightarrow> first_entry c streams)"

definition first_stream_entry :: "redis_codec \<Rightarrow> redis_value \<Rightarrow> exn + (string \<times> raw_fields) option" where
  "first_stream_entry c response = and_then (stream_response c response) (first_entry c)"

definition claimed_entries :: "redis_codec \<Rightarrow> redis_value \<Rightarrow> exn + (string \<times> raw_fields) list" where
  "claimed_entries c response =
     (case reply_items response of
        Some (_ # entries # _) \<Rightarrow> stream_entries c entries
      | Some _ \<Rightarrow> Inr []
      | None \<Rightarrow> stream_entries c response)"

subsection \<open>Messages as entries\<close>

definition message_fields :: "redis_codec \<Rightarrow> queue_message \<Rightarrow> entry_fields" where
  "message_fields c m =
     [(''session_id'', qm_session_id m), (''attempt'', nat_digits (qm_attempt m)),
      (''metadata'', jc_dumps c (qm_metadata m))]"

definition loads_metadata :: "redis_codec \<Rightarrow> string \<Rightarrow> pydict" where
  "loads_metadata c raw = (case jc_loads c raw of Some (JObj d) \<Rightarrow> d | _ \<Rightarrow> [])"

fun text_fields :: "redis_codec \<Rightarrow> raw_fields \<Rightarrow> entry_fields \<Rightarrow> exn + entry_fields" where
  "text_fields c [] acc = Inr acc"
| "text_fields c ((k, v) # rest) acc =
     and_then (to_text c k) (\<lambda>key. and_then (to_text c v) (\<lambda>value.
       text_fields c rest (AList.update key value acc)))"

definition field_of :: "entry_fields \<Rightarrow> string \<Rightarrow> string \<Rightarrow> string" where
  "field_of flds key fallback = (case map_of flds key of None \<Rightarrow> fallback | Some v \<Rightarrow> v)"

text \<open>
  A count of attempts is a natural number: the adapter writes no other, and a negative numeral of
  another writer would be read as 0 here.
\<close>

definition message_from_fields :: "redis_codec \<Rightarrow> time \<Rightarrow> string \<Rightarrow> raw_fields \<Rightarrow> exn + queue_message" where
  "message_from_fields c now entry_id flds =
     and_then (text_fields c flds []) (\<lambda>normalized.
       let metadata = loads_metadata c (field_of normalized ''metadata'' ''{}'');
           attempt = field_of normalized ''attempt'' ''0'' in
     and_then (parse_int (py_strip (if attempt = [] then ''0'' else attempt))) (\<lambda>n.
       Inr \<lparr>qm_session_id = field_of normalized ''session_id'' [], qm_enqueued_at = now,
            qm_attempt = nat n, qm_metadata = metadata, qm_handle = entry_id\<rparr>))"

definition delivery_metadata_keys :: "string list" where
  "delivery_metadata_keys = [''redis_stream'', ''redis_stream_id'', ''redis_consumer_group'', ''redis_consumer'']"

definition next_delivery_metadata :: "queue_message \<Rightarrow> string \<Rightarrow> string \<Rightarrow> nat \<Rightarrow> pydict" where
  "next_delivery_metadata m reason source_handle next_attempt =
     dict_merge (qm_metadata m)
       [(''last_delivery_reason'', JStr reason), (''last_delivery_handle'', JStr source_handle),
        (''last_delivery_attempt'', JInt (int (qm_attempt m))),
        (''delivery_attempt'', JInt (int next_attempt))]"

text \<open>A Boolean is an integer in Python.\<close>

definition next_replay_count :: "json \<Rightarrow> int" where
  "next_replay_count v = (case v of JInt i \<Rightarrow> i + 1 | JBool b \<Rightarrow> (if b then 2 else 1) | _ \<Rightarrow> 1)"

definition replay_metadata :: "queue_message \<Rightarrow> string \<Rightarrow> bool \<Rightarrow> pydict option \<Rightarrow> pydict" where
  "replay_metadata m dead_key reset_attempt metadata =
     (let kept = filter (\<lambda>(k, v). k \<notin> set delivery_metadata_keys) (qm_metadata m);
          merged = dict_merge kept (case metadata of None \<Rightarrow> [] | Some d \<Rightarrow> d)
      in dict_merge merged
        [(''replay_source'', JStr ''dead_letter''), (''replay_dead_letter_stream'', JStr dead_key),
         (''replay_dead_letter_handle'', JStr (qm_handle m)),
         (''replay_original_attempt'', JInt (int (qm_attempt m))),
         (''replay_attempt_reset'', JBool reset_attempt),
         (''replay_count'', JInt (next_replay_count (dict_get merged ''replay_count'')))])"

subsection \<open>Handles\<close>

text \<open>\<^verbatim>\<open>handle.rsplit('|', 1)\<close>\<close>

definition split_handle :: "string \<Rightarrow> string \<times> string" where
  "split_handle h =
     (if CHR ''|'' \<notin> set h then (h, [])
      else (rev (tl (dropWhile (\<lambda>c. c \<noteq> CHR ''|'') (rev h))), rev (takeWhile (\<lambda>c. c \<noteq> CHR ''|'') (rev h))))"

definition join_handle :: "string \<Rightarrow> string \<Rightarrow> string" where
  "join_handle entry_id token = entry_id @ ''|'' @ token"

subsection \<open>The client and the state of an adapter\<close>

text \<open>An error has its text, the names of its classes, and the exception that it is to a caller.\<close>

record redis_error =
  re_text :: string
  re_classes :: "string list"
  re_exn :: exn

type_synonym ('r, 'a) redis_command = "'r \<Rightarrow> (redis_error + 'a) \<times> 'r"

record 'r redis_client =
  rc_xgroup_create :: "string \<Rightarrow> string \<Rightarrow> ('r, unit) redis_command"
  rc_xadd :: "string \<Rightarrow> entry_fields \<Rightarrow> ('r, redis_value) redis_command"
  rc_xreadgroup :: "string \<Rightarrow> string \<Rightarrow> string \<Rightarrow> int \<Rightarrow> ('r, redis_value) redis_command"
  rc_xautoclaim :: "string \<Rightarrow> string \<Rightarrow> string \<Rightarrow> int \<Rightarrow> ('r, redis_value) redis_command"
  rc_xack :: "string \<Rightarrow> string \<Rightarrow> string \<Rightarrow> ('r, unit) redis_command"
  rc_xdel :: "string \<Rightarrow> string \<Rightarrow> ('r, unit) redis_command"
  rc_xlen :: "string \<Rightarrow> ('r, int) redis_command"
  rc_xpending :: "string \<Rightarrow> string \<Rightarrow> ('r, redis_value) redis_command"
  rc_xrange :: "string \<Rightarrow> int option \<Rightarrow> ('r, redis_value) redis_command"
  rc_hset :: "string \<Rightarrow> string \<Rightarrow> string \<Rightarrow> ('r, unit) redis_command"
  rc_hget :: "string \<Rightarrow> string \<Rightarrow> ('r, redis_value) redis_command"
  rc_hdel :: "string \<Rightarrow> string \<Rightarrow> ('r, unit) redis_command"
  rc_close :: "('r, unit) redis_command"

record 'r redis_queue =
  rz_client :: "'r redis_client"
  rz_codec :: redis_codec
  rz_stream :: string
  rz_group :: string
  rz_consumer :: string
  rz_dead :: string
  rz_visibility :: "rat option"
  rz_max_attempts :: "int option"
  rz_delivery_hash :: string
  rz_uuid :: "nat \<Rightarrow> string"
  rz_now :: "nat \<Rightarrow> time"

record 'r redis_state =
  rs2_server :: 'r
  rs2_ready :: bool
  rs2_closed :: bool
  rs2_drawn :: nat
  rs2_reads :: nat

text \<open>\<open>create\<close> is \<^verbatim>\<open>_create_redis_client\<close>: the import of the client library may fail.\<close>

definition make_redis_queue ::
    "'r redis_client option \<Rightarrow> (string \<Rightarrow> exn + 'r redis_client) \<Rightarrow> string option \<Rightarrow> redis_codec \<Rightarrow>
     string \<Rightarrow> string \<Rightarrow> string \<Rightarrow> string option \<Rightarrow> rat option \<Rightarrow> int option \<Rightarrow>
     (nat \<Rightarrow> string) \<Rightarrow> (nat \<Rightarrow> time) \<Rightarrow> exn + 'r redis_queue" where
  "make_redis_queue client create url codec stream grp consumer dead visibility max_attempts uuid now =
     and_then (raise_when (client = None \<and> url = None) ValueError) (\<lambda>_.
     and_then (raise_when (case visibility of None \<Rightarrow> False | Some v \<Rightarrow> v \<le> 0) ValueError) (\<lambda>_.
     and_then (raise_when (case max_attempts of None \<Rightarrow> False | Some n \<Rightarrow> n \<le> 0) ValueError) (\<lambda>_.
     and_then (case client of Some c \<Rightarrow> Inr c | None \<Rightarrow> create (the url)) (\<lambda>c.
       Inr \<lparr>rz_client = c, rz_codec = codec, rz_stream = stream, rz_group = grp, rz_consumer = consumer,
            rz_dead = (if truthy dead then the dead else stream @ '':dead''),
            rz_visibility = visibility, rz_max_attempts = max_attempts,
            rz_delivery_hash = stream @ '':delivery_state'', rz_uuid = uuid, rz_now = now\<rparr>))))"

definition redis_start :: "'r \<Rightarrow> 'r redis_state" where
  "redis_start server = \<lparr>rs2_server = server, rs2_ready = False, rs2_closed = False, rs2_drawn = 0, rs2_reads = 0\<rparr>"

type_synonym ('r, 'a) rq = "'r redis_state \<Rightarrow> (exn + 'a) \<times> 'r redis_state"

definition rq_return :: "'a \<Rightarrow> ('r, 'a) rq" where
  "rq_return x s = (Inr x, s)"

definition rq_lift :: "exn + 'a \<Rightarrow> ('r, 'a) rq" where
  "rq_lift r s = (r, s)"

definition rq_bind :: "('r, 'a) rq \<Rightarrow> ('a \<Rightarrow> ('r, 'b) rq) \<Rightarrow> ('r, 'b) rq" where
  "rq_bind m f s = (case m s of (Inl e, s1) \<Rightarrow> (Inl e, s1) | (Inr x, s1) \<Rightarrow> f x s1)"

definition rq_send :: "('r, 'a) redis_command \<Rightarrow> ('r, 'a) rq" where
  "rq_send command s =
     (case command (rs2_server s) of
        (Inl e, server) \<Rightarrow> (Inl (re_exn e), s\<lparr>rs2_server := server\<rparr>)
      | (Inr x, server) \<Rightarrow> (Inr x, s\<lparr>rs2_server := server\<rparr>))"

definition rq_now :: "'r redis_queue \<Rightarrow> ('r, time) rq" where
  "rq_now q s = (Inr (rz_now q (rs2_reads s)), s\<lparr>rs2_reads := rs2_reads s + 1\<rparr>)"

definition rq_token :: "'r redis_queue \<Rightarrow> ('r, string) rq" where
  "rq_token q s = (Inr (''redis-'' @ rz_uuid q (rs2_drawn s)), s\<lparr>rs2_drawn := rs2_drawn s + 1\<rparr>)"

subsection \<open>Steps\<close>

definition reject_if_closed :: "('r, unit) rq" where
  "reject_if_closed s = (raise_when (rs2_closed s) RuntimeError, s)"

definition is_busygroup_error :: "redis_error \<Rightarrow> bool" where
  "is_busygroup_error e \<longleftrightarrow> take 9 (re_text e) = ''BUSYGROUP'' \<and> ''ResponseError'' \<in> set (re_classes e)"

definition ensure_group :: "'r redis_queue \<Rightarrow> ('r, unit) rq" where
  "ensure_group q s =
     (if rs2_ready s then (Inr (), s)
      else case rc_xgroup_create (rz_client q) (rz_stream q) (rz_group q) (rs2_server s) of
        (Inl e, server) \<Rightarrow>
          if is_busygroup_error e then (Inr (), s\<lparr>rs2_server := server, rs2_ready := True\<rparr>)
          else (Inl (re_exn e), s\<lparr>rs2_server := server\<rparr>)
      | (Inr _, server) \<Rightarrow> (Inr (), s\<lparr>rs2_server := server, rs2_ready := True\<rparr>))"

definition should_dead_letter_at :: "'r redis_queue \<Rightarrow> nat \<Rightarrow> bool" where
  "should_dead_letter_at q attempt \<longleftrightarrow>
     (case rz_max_attempts q of None \<Rightarrow> False | Some n \<Rightarrow> n \<le> int attempt)"

definition add_entry :: "'r redis_queue \<Rightarrow> string \<Rightarrow> queue_message \<Rightarrow> ('r, string) rq" where
  "add_entry q stream m =
     rq_bind (rq_send (rc_xadd (rz_client q) stream (message_fields (rz_codec q) m))) (\<lambda>reply.
     rq_lift (to_text (rz_codec q) reply))"

definition decode_message :: "'r redis_queue \<Rightarrow> string \<Rightarrow> raw_fields \<Rightarrow> ('r, queue_message) rq" where
  "decode_message q entry_id flds =
     rq_bind (rq_now q) (\<lambda>now. rq_lift (message_from_fields (rz_codec q) now entry_id flds))"

definition write_delivery_state :: "'r redis_queue \<Rightarrow> string \<Rightarrow> string \<Rightarrow> nat \<Rightarrow> pydict \<Rightarrow> ('r, unit) rq" where
  "write_delivery_state q entry_id token attempt metadata =
     rq_send (rc_hset (rz_client q) (rz_delivery_hash q) entry_id
       (jc_dumps (rz_codec q)
         [(''token'', JStr token), (''attempt'', JInt (int attempt)), (''metadata'', JObj metadata)]))"

definition delivery_state_of :: "redis_codec \<Rightarrow> string \<Rightarrow> pydict" where
  "delivery_state_of c raw =
     (let state = loads_metadata c raw in
      case dict_get state ''metadata'' of JObj _ \<Rightarrow> state | _ \<Rightarrow> AList.update ''metadata'' (JObj []) state)"

definition read_delivery_state :: "'r redis_queue \<Rightarrow> string \<Rightarrow> ('r, pydict) rq" where
  "read_delivery_state q entry_id =
     rq_bind (rq_send (rc_hget (rz_client q) (rz_delivery_hash q) entry_id)) (\<lambda>raw.
       case raw of
         RNil \<Rightarrow> rq_return []
       | _ \<Rightarrow> rq_bind (rq_lift (to_text (rz_codec q) raw)) (\<lambda>text.
                rq_return (delivery_state_of (rz_codec q) text)))"

definition delivery_token_matches :: "'r redis_queue \<Rightarrow> string \<Rightarrow> string \<Rightarrow> ('r, bool) rq" where
  "delivery_token_matches q entry_id token =
     (if entry_id = [] \<or> token = [] then rq_return False
      else rq_bind (read_delivery_state q entry_id) (\<lambda>state.
           rq_return (dict_get state ''token'' = JStr token)))"

definition ack_and_delete :: "'r redis_queue \<Rightarrow> string \<Rightarrow> ('r, unit) rq" where
  "ack_and_delete q entry_id =
     rq_bind (rq_send (rc_xack (rz_client q) (rz_stream q) (rz_group q) entry_id)) (\<lambda>_.
     rq_bind (rq_send (rc_xdel (rz_client q) (rz_stream q) entry_id)) (\<lambda>_.
     rq_send (rc_hdel (rz_client q) (rz_delivery_hash q) entry_id)))"

definition issued_metadata :: "'r redis_queue \<Rightarrow> string \<Rightarrow> queue_message \<Rightarrow> pydict" where
  "issued_metadata q entry_id m =
     dict_merge (qm_metadata m)
       [(''redis_stream'', JStr (rz_stream q)), (''redis_stream_id'', JStr entry_id),
        (''redis_consumer_group'', JStr (rz_group q)), (''redis_consumer'', JStr (rz_consumer q))]"

definition issue_delivery :: "'r redis_queue \<Rightarrow> string \<Rightarrow> queue_message \<Rightarrow> ('r, queue_message) rq" where
  "issue_delivery q entry_id m =
     rq_bind (rq_token q) (\<lambda>token.
     rq_bind (write_delivery_state q entry_id token (qm_attempt m) (issued_metadata q entry_id m)) (\<lambda>_.
     rq_return (m\<lparr>qm_handle := join_handle entry_id token, qm_metadata := issued_metadata q entry_id m\<rparr>)))"

text \<open>\<^verbatim>\<open>int(value)\<close> of what a JSON object holds.\<close>

definition json_int :: "json \<Rightarrow> exn + int" where
  "json_int v = (case v of JInt i \<Rightarrow> Inr i | JBool b \<Rightarrow> Inr (if b then 1 else 0)
     | JFloat r \<Rightarrow> Inr (if 0 \<le> r then \<lfloor>r\<rfloor> else \<lceil>r\<rceil>) | JStr s \<Rightarrow> parse_int (py_strip s) | _ \<Rightarrow> Inl TypeError)"

definition state_message :: "redis_codec \<Rightarrow> string \<Rightarrow> queue_message \<Rightarrow> pydict \<Rightarrow> exn + queue_message" where
  "state_message c entry_id m state =
     (let token = (case map_of state ''token'' of None \<Rightarrow> [] | Some (JStr t) \<Rightarrow> t | Some v \<Rightarrow> jc_json_str c v);
          metadata = (case dict_get state ''metadata'' of JObj d \<Rightarrow> d | _ \<Rightarrow> []) in
     and_then (case map_of state ''attempt'' of None \<Rightarrow> Inr (int (qm_attempt m)) | Some v \<Rightarrow> json_int v) (\<lambda>n.
       Inr (m\<lparr>qm_attempt := nat n, qm_metadata := metadata,
              qm_handle := (if token = [] then entry_id else join_handle entry_id token)\<rparr>)))"

definition current_delivery_message :: "'r redis_queue \<Rightarrow> string \<Rightarrow> raw_fields \<Rightarrow> ('r, queue_message) rq" where
  "current_delivery_message q entry_id flds =
     rq_bind (decode_message q entry_id flds) (\<lambda>m.
     rq_bind (read_delivery_state q entry_id) (\<lambda>state.
       if state = [] then rq_return m else rq_lift (state_message (rz_codec q) entry_id m state)))"

definition dead_metadata :: "queue_message \<Rightarrow> string \<Rightarrow> string \<Rightarrow> nat \<Rightarrow> pydict" where
  "dead_metadata m reason source_handle next_attempt =
     dict_merge (qm_metadata m)
       [(''dead_letter_reason'', JStr ''max_delivery_attempts_exceeded''), (''dead_letter_source'', JStr reason),
        (''dead_letter_handle'', JStr source_handle), (''dead_letter_attempt'', JInt (int next_attempt))]"

definition send_dead_letter :: "'r redis_queue \<Rightarrow> queue_message \<Rightarrow> string \<Rightarrow> string \<Rightarrow> nat \<Rightarrow> ('r, unit) rq" where
  "send_dead_letter q m reason source_handle next_attempt =
     rq_bind (rq_send (rc_xadd (rz_client q) (rz_dead q)
       (message_fields (rz_codec q) (m\<lparr>qm_metadata := dead_metadata m reason source_handle next_attempt\<rparr>)))) (\<lambda>_.
     rq_return ())"

text \<open>An entry whose delivery is overdue is delivered again, or becomes a dead letter.\<close>

definition redeliver_entry :: "'r redis_queue \<Rightarrow> string \<Rightarrow> raw_fields \<Rightarrow> ('r, queue_message option) rq" where
  "redeliver_entry q entry_id flds =
     rq_bind (current_delivery_message q entry_id flds) (\<lambda>previous.
       let next_attempt = qm_attempt previous + 1;
           source_handle = (if qm_handle previous = [] then entry_id else qm_handle previous);
           reclaimed = previous\<lparr>qm_attempt := next_attempt, qm_handle := entry_id,
             qm_metadata := next_delivery_metadata previous ''visibility_timeout'' source_handle next_attempt\<rparr> in
       if should_dead_letter_at q next_attempt then
         rq_bind (send_dead_letter q reclaimed ''visibility_timeout'' source_handle next_attempt) (\<lambda>_.
         rq_bind (ack_and_delete q entry_id) (\<lambda>_. rq_return None))
       else rq_bind (issue_delivery q entry_id reclaimed) (\<lambda>m. rq_return (Some m)))"

definition reclaim_expired :: "'r redis_queue \<Rightarrow> ('r, queue_message option) rq" where
  "reclaim_expired q =
     (case rz_visibility q of
        None \<Rightarrow> rq_return None
      | Some v \<Rightarrow>
          rq_bind (rq_send (rc_xautoclaim (rz_client q) (rz_stream q) (rz_group q) (rz_consumer q) \<lfloor>v * 1000\<rfloor>)) (\<lambda>response.
          rq_bind (rq_lift (claimed_entries (rz_codec q) response)) (\<lambda>entries.
            case entries of
              [] \<Rightarrow> rq_return None
            | (entry_id, flds) # _ \<Rightarrow> redeliver_entry q entry_id flds)))"

definition requeue_or_dead_letter :: "'r redis_queue \<Rightarrow> queue_message \<Rightarrow> string \<Rightarrow> string \<Rightarrow> ('r, unit) rq" where
  "requeue_or_dead_letter q m reason source_handle =
     (let next_attempt = qm_attempt m + 1 in
      rq_bind (rq_now q) (\<lambda>now.
      let next_delivery = \<lparr>qm_session_id = qm_session_id m, qm_enqueued_at = now, qm_attempt = next_attempt,
            qm_metadata = next_delivery_metadata m reason source_handle next_attempt, qm_handle = []\<rparr> in
      if should_dead_letter_at q next_attempt then send_dead_letter q next_delivery reason source_handle next_attempt
      else rq_bind (add_entry q (rz_stream q) next_delivery) (\<lambda>_. rq_return ())))"

subsection \<open>Operations\<close>

definition redis_enqueue :: "'r redis_queue \<Rightarrow> string \<Rightarrow> pydict option \<Rightarrow> ('r, queue_message) rq" where
  "redis_enqueue q session_id metadata =
     rq_bind reject_if_closed (\<lambda>_.
     rq_bind (ensure_group q) (\<lambda>_.
     rq_bind (rq_now q) (\<lambda>now.
       let m = \<lparr>qm_session_id = session_id, qm_enqueued_at = now, qm_attempt = 0,
                qm_metadata = (case metadata of None \<Rightarrow> [] | Some d \<Rightarrow> d), qm_handle = []\<rparr> in
     rq_bind (add_entry q (rz_stream q) m) (\<lambda>entry_id.
     rq_return (m\<lparr>qm_handle := entry_id\<rparr>)))))"

definition block_ms :: "rat option \<Rightarrow> int" where
  "block_ms timeout = (case timeout of None \<Rightarrow> 0 | Some t \<Rightarrow> max 1 \<lfloor>t * 1000\<rfloor>)"

definition read_new :: "'r redis_queue \<Rightarrow> rat option \<Rightarrow> ('r, queue_message option) rq" where
  "read_new q timeout =
     rq_bind (rq_send (rc_xreadgroup (rz_client q) (rz_group q) (rz_consumer q) (rz_stream q) (block_ms timeout))) (\<lambda>response.
     rq_bind (rq_lift (first_stream_entry (rz_codec q) response)) (\<lambda>entry.
       case entry of
         None \<Rightarrow> rq_return None
       | Some (entry_id, flds) \<Rightarrow>
           rq_bind (decode_message q entry_id flds) (\<lambda>m.
           rq_bind (issue_delivery q entry_id m) (\<lambda>m'. rq_return (Some m')))))"

definition redis_dequeue :: "'r redis_queue \<Rightarrow> rat option \<Rightarrow> ('r, queue_message option) rq" where
  "redis_dequeue q timeout =
     rq_bind reject_if_closed (\<lambda>_.
     rq_bind (ensure_group q) (\<lambda>_.
     rq_bind (reclaim_expired q) (\<lambda>reclaimed.
       case reclaimed of Some m \<Rightarrow> rq_return (Some m) | None \<Rightarrow> read_new q timeout)))"

definition redis_ack :: "'r redis_queue \<Rightarrow> queue_message \<Rightarrow> ('r, unit) rq" where
  "redis_ack q m =
     (case split_handle (qm_handle m) of (entry_id, token) \<Rightarrow>
      rq_bind (delivery_token_matches q entry_id token) (\<lambda>matches.
        if matches then ack_and_delete q entry_id else rq_return ()))"

definition redis_nack :: "'r redis_queue \<Rightarrow> queue_message \<Rightarrow> bool \<Rightarrow> ('r, unit) rq" where
  "redis_nack q m retry =
     (case split_handle (qm_handle m) of (entry_id, token) \<Rightarrow>
      rq_bind (delivery_token_matches q entry_id token) (\<lambda>matches.
        if \<not> matches then rq_return ()
        else rq_bind (ack_and_delete q entry_id) (\<lambda>_ s.
          if retry \<and> \<not> rs2_closed s then requeue_or_dead_letter q m ''nack'' (qm_handle m) s
          else (Inr (), s))))"

text \<open>\<^verbatim>\<open>int(value)\<close> of a reply.\<close>

definition reply_int :: "redis_codec \<Rightarrow> redis_value \<Rightarrow> exn + int" where
  "reply_int c v = (case v of RInt i \<Rightarrow> Inr i | RText s \<Rightarrow> parse_int (py_strip s)
     | RBytes b \<Rightarrow> and_then (jc_utf8 c b) (\<lambda>s. parse_int (py_strip s)) | _ \<Rightarrow> Inl TypeError)"

definition pending_summary :: "redis_codec \<Rightarrow> redis_value \<Rightarrow> exn + int" where
  "pending_summary c summary =
     (case summary of
        RInt i \<Rightarrow> Inr i
      | RMap kvs \<Rightarrow> (case map_of kvs (RText ''pending'') of None \<Rightarrow> Inr 0 | Some v \<Rightarrow> reply_int c v)
      | RTuple (v # _) \<Rightarrow> reply_int c v
      | _ \<Rightarrow> Inr 0)"

definition redis_in_flight :: "'r redis_queue \<Rightarrow> ('r, int) rq" where
  "redis_in_flight q =
     rq_bind reject_if_closed (\<lambda>_.
     rq_bind (ensure_group q) (\<lambda>_.
     rq_bind (rq_send (rc_xpending (rz_client q) (rz_stream q) (rz_group q))) (\<lambda>summary.
     rq_lift (pending_summary (rz_codec q) summary))))"

definition redis_pending :: "'r redis_queue \<Rightarrow> ('r, int) rq" where
  "redis_pending q =
     rq_bind reject_if_closed (\<lambda>_.
     rq_bind (ensure_group q) (\<lambda>_.
     rq_bind (rq_send (rc_xlen (rz_client q) (rz_stream q))) (\<lambda>total.
     rq_bind (redis_in_flight q) (\<lambda>flying. rq_return (max 0 (total - flying))))))"

fun decode_all :: "'r redis_queue \<Rightarrow> (string \<times> raw_fields) list \<Rightarrow> ('r, queue_message list) rq" where
  "decode_all q [] = rq_return []"
| "decode_all q ((entry_id, flds) # es) =
     rq_bind (decode_message q entry_id flds) (\<lambda>m.
     rq_bind (decode_all q es) (\<lambda>ms. rq_return (m # ms)))"

definition positive_limit :: "int option \<Rightarrow> exn + unit" where
  "positive_limit n = raise_when (case n of None \<Rightarrow> False | Some k \<Rightarrow> k \<le> 0) ValueError"

definition redis_dead_letters :: "'r redis_queue \<Rightarrow> int option \<Rightarrow> ('r, queue_message list) rq" where
  "redis_dead_letters q n =
     rq_bind reject_if_closed (\<lambda>_.
     rq_bind (rq_lift (positive_limit n)) (\<lambda>_.
     rq_bind (rq_send (rc_xrange (rz_client q) (rz_dead q) n)) (\<lambda>reply.
     rq_bind (rq_lift (stream_entries (rz_codec q) reply)) (\<lambda>entries.
     decode_all q entries))))"

definition replay_dead_letter ::
    "'r redis_queue \<Rightarrow> bool \<Rightarrow> bool \<Rightarrow> pydict option \<Rightarrow> queue_message \<Rightarrow> ('r, queue_message) rq" where
  "replay_dead_letter q reset_attempt remove metadata m =
     rq_bind reject_if_closed (\<lambda>_.
     rq_bind (ensure_group q) (\<lambda>_.
     rq_bind (rq_lift (raise_when (qm_handle m = []) ValueError)) (\<lambda>_.
     rq_bind (rq_now q) (\<lambda>now.
       let replayed = \<lparr>qm_session_id = qm_session_id m, qm_enqueued_at = now,
             qm_attempt = (if reset_attempt then 0 else qm_attempt m),
             qm_metadata = replay_metadata m (rz_dead q) reset_attempt metadata, qm_handle = []\<rparr> in
     rq_bind (add_entry q (rz_stream q) replayed) (\<lambda>entry_id.
     rq_bind (if remove then rq_send (rc_xdel (rz_client q) (rz_dead q) (qm_handle m)) else rq_return ()) (\<lambda>_.
     rq_return (replayed\<lparr>qm_handle := entry_id\<rparr>)))))))"

fun replay_each ::
    "'r redis_queue \<Rightarrow> bool \<Rightarrow> bool \<Rightarrow> pydict option \<Rightarrow> queue_message list \<Rightarrow> ('r, queue_message list) rq" where
  "replay_each q reset_attempt remove metadata [] = rq_return []"
| "replay_each q reset_attempt remove metadata (m # ms) =
     rq_bind (replay_dead_letter q reset_attempt remove metadata m) (\<lambda>r.
     rq_bind (replay_each q reset_attempt remove metadata ms) (\<lambda>rs. rq_return (r # rs)))"

definition replay_dead_letters ::
    "'r redis_queue \<Rightarrow> int \<Rightarrow> bool \<Rightarrow> bool \<Rightarrow> pydict option \<Rightarrow> ('r, queue_message list) rq" where
  "replay_dead_letters q n reset_attempt remove metadata =
     rq_bind (rq_lift (positive_limit (Some n))) (\<lambda>_.
     rq_bind (redis_dead_letters q (Some n)) (\<lambda>ms.
     replay_each q reset_attempt remove metadata ms))"

definition redis_close :: "'r redis_queue \<Rightarrow> ('r, unit) rq" where
  "redis_close q s = rq_send (rc_close (rz_client q)) (s\<lparr>rs2_closed := True\<rparr>)"

subsection \<open>The adapter of a worker\<close>

definition rq_outcome :: "('r, 'a) rq \<Rightarrow> 'r redis_state \<Rightarrow> ('a \<times> 'r redis_state) outcome" where
  "rq_outcome m s = (case m s of (Inl e, s1) \<Rightarrow> Raised e | (Inr x, s1) \<Rightarrow> Done (x, s1))"

definition redis_adapter :: "'r redis_queue \<Rightarrow> 'r redis_state queue_adapter" where
  "redis_adapter q =
     \<lparr>qa_name = ''redis-stream'', qa_features = pollable_delivery,
      qa_dequeue = (\<lambda>timeout. rq_outcome (redis_dequeue q timeout)),
      qa_ack = (\<lambda>m s. map_done snd (rq_outcome (redis_ack q m) s)),
      qa_nack = (\<lambda>m retry s. map_done snd (rq_outcome (redis_nack q m retry) s)),
      qa_pending = (\<lambda>s. map_done (map_prod nat id) (rq_outcome (redis_pending q) s)),
      qa_in_flight = Some (\<lambda>s. map_done (map_prod nat id) (rq_outcome (redis_in_flight q) s)),
      qa_dead_letters = Some (\<lambda>n. rq_outcome (redis_dead_letters q n))\<rparr>"

section \<open>The server of the tests\<close>

text \<open>
  \<^verbatim>\<open>tests/queue/fake_redis_streams.py\<close>: the server that the repository tests its queue
  against, as a client whose commands never fail but for a group that exists or is missing.
\<close>

subsection \<open>State\<close>

record pending_delivery =
  pd_consumer :: string
  pd_delivered_at_ms :: int

record group_state =
  gr_last_sequence :: nat
  gr_pending :: "(string \<times> pending_delivery) list"

record fake_redis =
  fr_streams :: "(string \<times> (string \<times> entry_fields) list) list"
  fr_groups :: "((string \<times> string) \<times> group_state) list"
  fr_hashes :: "(string \<times> (string \<times> string) list) list"
  fr_closed :: bool
  fr_sequence :: nat
  fr_now_ms :: int

definition empty_redis :: fake_redis where
  "empty_redis = \<lparr>fr_streams = [], fr_groups = [], fr_hashes = [], fr_closed = False, fr_sequence = 0, fr_now_ms = 0\<rparr>"

definition redis_advance :: "rat \<Rightarrow> fake_redis \<Rightarrow> fake_redis" where
  "redis_advance seconds r =
     r\<lparr>fr_now_ms := fr_now_ms r + (if 0 \<le> seconds then \<lfloor>seconds * 1000\<rfloor> else \<lceil>seconds * 1000\<rceil>)\<rparr>"

text \<open>\<^verbatim>\<open>self.streams.get(name, [])\<close>, also where \<^verbatim>\<open>setdefault\<close> makes the entry.\<close>

definition stream_log :: "fake_redis \<Rightarrow> string \<Rightarrow> (string \<times> entry_fields) list" where
  "stream_log r name = (case map_of (fr_streams r) name of None \<Rightarrow> [] | Some es \<Rightarrow> es)"

definition set_stream :: "string \<Rightarrow> (string \<times> entry_fields) list \<Rightarrow> fake_redis \<Rightarrow> fake_redis" where
  "set_stream name es r = r\<lparr>fr_streams := AList.update name es (fr_streams r)\<rparr>"

definition entry_id_of :: "nat \<Rightarrow> string" where
  "entry_id_of n = nat_digits n @ ''-0''"

text \<open>\<^verbatim>\<open>int(entry_id.split('-', 1)[0])\<close> of an id that the server has given out.\<close>

definition sequence_of :: "string \<Rightarrow> nat" where
  "sequence_of entry_id = Py_Values.digits_value (takeWhile (\<lambda>c. c \<noteq> CHR ''-'') entry_id)"

definition raw_of :: "entry_fields \<Rightarrow> raw_fields" where
  "raw_of flds = map (\<lambda>(k, v). (RText k, RText v)) flds"

definition entry_reply :: "string \<Rightarrow> entry_fields \<Rightarrow> redis_value" where
  "entry_reply entry_id flds = RTuple [RText entry_id, RMap (raw_of flds)]"

definition key_error :: redis_error where
  "key_error = \<lparr>re_text = [], re_classes = [''KeyError''], re_exn = KeyError\<rparr>"

definition busygroup_error :: redis_error where
  "busygroup_error = \<lparr>re_text = ''BUSYGROUP Consumer Group name already exists'',
     re_classes = [''ResponseError'', ''Exception''], re_exn = RuntimeError\<rparr>"

subsection \<open>Commands\<close>

definition fake_xgroup_create :: "string \<Rightarrow> string \<Rightarrow> (fake_redis, unit) redis_command" where
  "fake_xgroup_create name grp r =
     (if map_of (fr_groups r) (name, grp) \<noteq> None then (Inl busygroup_error, r)
      else (Inr (), (set_stream name (stream_log r name) r)\<lparr>fr_groups :=
        AList.update (name, grp) \<lparr>gr_last_sequence = 0, gr_pending = []\<rparr> (fr_groups r)\<rparr>))"

definition fake_xadd :: "string \<Rightarrow> entry_fields \<Rightarrow> (fake_redis, redis_value) redis_command" where
  "fake_xadd name flds r =
     (let entry_id = entry_id_of (fr_sequence r + 1) in
      (Inr (RText entry_id),
       set_stream name (stream_log r name @ [(entry_id, dict_merge [] flds)]) (r\<lparr>fr_sequence := fr_sequence r + 1\<rparr>)))"

definition with_group ::
    "string \<Rightarrow> string \<Rightarrow> (group_state \<Rightarrow> 'a \<times> group_state) \<Rightarrow> (fake_redis, 'a) redis_command" where
  "with_group name grp f r =
     (case map_of (fr_groups r) (name, grp) of
        None \<Rightarrow> (Inl key_error, r)
      | Some g \<Rightarrow> (case f g of (x, g1) \<Rightarrow>
          (Inr x, r\<lparr>fr_groups := AList.update (name, grp) g1 (fr_groups r)\<rparr>)))"

definition read_next :: "string \<Rightarrow> string \<Rightarrow> int \<Rightarrow> (string \<times> entry_fields) list \<Rightarrow> group_state \<Rightarrow> redis_value \<times> group_state" where
  "read_next name consumer now entries g =
     (case List.find (\<lambda>(i, flds). gr_last_sequence g < sequence_of i) entries of
        None \<Rightarrow> (RList [], g)
      | Some (i, flds) \<Rightarrow>
          (RList [RTuple [RText name, RList [entry_reply i flds]]],
           \<lparr>gr_last_sequence = sequence_of i,
            gr_pending = AList.update i \<lparr>pd_consumer = consumer, pd_delivered_at_ms = now\<rparr> (gr_pending g)\<rparr>))"

definition fake_xreadgroup :: "string \<Rightarrow> string \<Rightarrow> string \<Rightarrow> int \<Rightarrow> (fake_redis, redis_value) redis_command" where
  "fake_xreadgroup grp consumer name block r =
     with_group name grp (read_next name consumer (fr_now_ms r) (stream_log r name)) r"

fun claim_first ::
    "string \<Rightarrow> int \<Rightarrow> int \<Rightarrow> (string \<times> entry_fields) list \<Rightarrow> string list \<Rightarrow> group_state \<Rightarrow> redis_value \<times> group_state" where
  "claim_first consumer now min_idle entries [] g = (RTuple [RText ''0-0'', RList [], RList []], g)"
| "claim_first consumer now min_idle entries (i # ids) g =
     (case map_of (gr_pending g) i of
        None \<Rightarrow> claim_first consumer now min_idle entries ids g
      | Some p \<Rightarrow>
          if now - pd_delivered_at_ms p < min_idle then claim_first consumer now min_idle entries ids g
          else let g1 = g\<lparr>gr_pending := AList.update i \<lparr>pd_consumer = consumer, pd_delivered_at_ms = now\<rparr> (gr_pending g)\<rparr>
               in case map_of entries i of
                    None \<Rightarrow> claim_first consumer now min_idle entries ids g1
                  | Some flds \<Rightarrow> (RTuple [RText ''0-0'', RList [entry_reply i flds], RList []], g1))"

definition fake_xautoclaim :: "string \<Rightarrow> string \<Rightarrow> string \<Rightarrow> int \<Rightarrow> (fake_redis, redis_value) redis_command" where
  "fake_xautoclaim name grp consumer min_idle r =
     with_group name grp (\<lambda>g. claim_first consumer (fr_now_ms r) min_idle (stream_log r name)
       (sort_key sequence_of (map fst (gr_pending g))) g) r"

definition fake_xack :: "string \<Rightarrow> string \<Rightarrow> string \<Rightarrow> (fake_redis, unit) redis_command" where
  "fake_xack name grp entry_id =
     with_group name grp (\<lambda>g. ((), g\<lparr>gr_pending := AList.delete entry_id (gr_pending g)\<rparr>))"

definition fake_xdel :: "string \<Rightarrow> string \<Rightarrow> (fake_redis, unit) redis_command" where
  "fake_xdel name entry_id r =
     (Inr (), set_stream name (filter (\<lambda>(i, flds). i \<noteq> entry_id) (stream_log r name)) r)"

definition fake_xlen :: "string \<Rightarrow> (fake_redis, int) redis_command" where
  "fake_xlen name r = (Inr (int (length (stream_log r name))), r)"

definition fake_xpending :: "string \<Rightarrow> string \<Rightarrow> (fake_redis, redis_value) redis_command" where
  "fake_xpending name grp =
     with_group name grp (\<lambda>g. (RMap [(RText ''pending'', RInt (int (length (gr_pending g))))], g))"

definition fake_xrange :: "string \<Rightarrow> int option \<Rightarrow> (fake_redis, redis_value) redis_command" where
  "fake_xrange name bound r =
     (let entries = map (\<lambda>(i, flds). entry_reply i flds) (stream_log r name) in
      (Inr (RList (case bound of None \<Rightarrow> entries | Some n \<Rightarrow> take (nat n) entries)), r))"

definition hash_cell :: "fake_redis \<Rightarrow> string \<Rightarrow> string \<Rightarrow> string option" where
  "hash_cell r name key = (case map_of (fr_hashes r) name of None \<Rightarrow> None | Some d \<Rightarrow> map_of d key)"

definition hash_dict :: "fake_redis \<Rightarrow> string \<Rightarrow> (string \<times> string) list" where
  "hash_dict r name = (case map_of (fr_hashes r) name of None \<Rightarrow> [] | Some d \<Rightarrow> d)"

definition fake_hset :: "string \<Rightarrow> string \<Rightarrow> string \<Rightarrow> (fake_redis, unit) redis_command" where
  "fake_hset name key v r =
     (Inr (), r\<lparr>fr_hashes := AList.update name (AList.update key v (hash_dict r name)) (fr_hashes r)\<rparr>)"

definition fake_hget :: "string \<Rightarrow> string \<Rightarrow> (fake_redis, redis_value) redis_command" where
  "fake_hget name key r = (Inr (case hash_cell r name key of None \<Rightarrow> RNil | Some v \<Rightarrow> RText v), r)"

definition fake_hdel :: "string \<Rightarrow> string \<Rightarrow> (fake_redis, unit) redis_command" where
  "fake_hdel name key r =
     (if map_of (fr_hashes r) name = None then (Inr (), r)
      else (Inr (), r\<lparr>fr_hashes := AList.update name (AList.delete key (hash_dict r name)) (fr_hashes r)\<rparr>))"

definition fake_client :: "fake_redis redis_client" where
  "fake_client =
     \<lparr>rc_xgroup_create = fake_xgroup_create, rc_xadd = fake_xadd, rc_xreadgroup = fake_xreadgroup,
      rc_xautoclaim = fake_xautoclaim, rc_xack = fake_xack, rc_xdel = fake_xdel, rc_xlen = fake_xlen,
      rc_xpending = fake_xpending, rc_xrange = fake_xrange, rc_hset = fake_hset, rc_hget = fake_hget,
      rc_hdel = fake_hdel, rc_close = (\<lambda>r. (Inr (), r\<lparr>fr_closed := True\<rparr>))\<rparr>"

end
