(* ===== verification/Redis_Facts.thy ===== *)
theory Redis_Facts
  imports Redis_Queue Worker_Facts
begin

text \<open>
  What the queue on Redis streams promises. The locale \<open>redis_streams\<close> is what it needs of the
  server: an added entry gets a new id at the end of its stream, a read or a claim returns entries
  of the stream and leaves its content alone, only a delete removes one. With that the adapter keeps
  the contract of a worker's queue, and the settlement of a delivery that has been overtaken by
  another one of the same entry does nothing.
\<close>

section \<open>Codecs\<close>

text \<open>
  What the adapter relies on of JSON text: reading the state of a delivery gives back its token, its
  count, and an object for its metadata.
\<close>

definition faithful_codec :: "redis_codec \<Rightarrow> bool" where
  "faithful_codec c \<longleftrightarrow> (\<forall>t n md. \<exists>d x. jc_loads c (jc_dumps c
       [(''token'', JStr t), (''attempt'', JInt (int n)), (''metadata'', JObj md)]) = Some (JObj d) \<and>
     map_of d ''token'' = Some (JStr t) \<and> map_of d ''attempt'' = Some (JInt (int n)) \<and>
     map_of d ''metadata'' = Some (JObj x))"

lemma delivery_state_written:
  assumes "faithful_codec c"
  shows "map_of (delivery_state_of c (jc_dumps c
      [(''token'', JStr t), (''attempt'', JInt (int n)), (''metadata'', JObj md)])) ''token'' = Some (JStr t)"
    "map_of (delivery_state_of c (jc_dumps c
      [(''token'', JStr t), (''attempt'', JInt (int n)), (''metadata'', JObj md)])) ''attempt'' = Some (JInt (int n))"
proof -
  let ?d = "[(''token'', JStr t), (''attempt'', JInt (int n)), (''metadata'', JObj md)]"
  obtain d y where "jc_loads c (jc_dumps c ?d) = Some (JObj d)" "map_of d ''token'' = Some (JStr t)"
      "map_of d ''attempt'' = Some (JInt (int n))" "map_of d ''metadata'' = Some (JObj y)"
    using assms unfolding faithful_codec_def by blast
  then show "map_of (delivery_state_of c (jc_dumps c ?d)) ''token'' = Some (JStr t)"
      "map_of (delivery_state_of c (jc_dumps c ?d)) ''attempt'' = Some (JInt (int n))"
    by (simp_all add: delivery_state_of_def loads_metadata_def dict_get_def)
qed

section \<open>Handles\<close>

lemma split_join_handle:
  assumes "CHR ''|'' \<notin> set t"
  shows "split_handle (join_handle i t) = (i, t)"
proof -
  have "takeWhile (\<lambda>c. c \<noteq> CHR ''|'') (rev t @ CHR ''|'' # rev i) = rev t"
    using assms by (subst takeWhile_append2) auto
  moreover have "dropWhile (\<lambda>c. c \<noteq> CHR ''|'') (rev t @ CHR ''|'' # rev i) = CHR ''|'' # rev i"
    using assms by (subst dropWhile_append2) auto
  ultimately show ?thesis by (simp add: split_handle_def join_handle_def)
qed

section \<open>Steps that succeed\<close>

lemma rq_bind_Inr: "rq_bind m f s = (Inr y, s') \<longleftrightarrow> (\<exists>x s1. m s = (Inr x, s1) \<and> f x s1 = (Inr y, s'))"
  by (auto simp: rq_bind_def split: prod.splits sum.splits)

lemma rq_return_Inr [simp]: "rq_return x s = (Inr y, s') \<longleftrightarrow> y = x \<and> s' = s"
  by (auto simp: rq_return_def)

lemma rq_lift_Inr [simp]: "rq_lift r s = (Inr y, s') \<longleftrightarrow> r = Inr y \<and> s' = s"
  by (auto simp: rq_lift_def)

lemma rq_send_Inr: "rq_send c s = (Inr y, s') \<longleftrightarrow>
    (\<exists>server. c (rs2_server s) = (Inr y, server) \<and> s' = s\<lparr>rs2_server := server\<rparr>)"
  by (auto simp: rq_send_def split: prod.splits sum.splits)

lemma rq_now_Inr [simp]: "rq_now q s = (Inr y, s') \<longleftrightarrow>
    y = rz_now q (rs2_reads s) \<and> s' = s\<lparr>rs2_reads := rs2_reads s + 1\<rparr>"
  by (auto simp: rq_now_def)

lemma rq_token_Inr [simp]: "rq_token q s = (Inr y, s') \<longleftrightarrow>
    y = ''redis-'' @ rz_uuid q (rs2_drawn s) \<and> s' = s\<lparr>rs2_drawn := rs2_drawn s + 1\<rparr>"
  by (auto simp: rq_token_def)

lemma reject_if_closed_Inr [simp]: "reject_if_closed s = (Inr u, s') \<longleftrightarrow> \<not> rs2_closed s \<and> s' = s"
  by (auto simp: reject_if_closed_def raise_when_def)

lemma list_all2_left: "list_all2 P xs ys \<Longrightarrow> x \<in> set xs \<Longrightarrow> \<exists>y \<in> set ys. P x y"
  by (induction rule: list_all2_induct) auto

lemma filter_after:
  assumes "distinct (map fst (xs @ ys))"
  shows "filter (\<lambda>e. fst e \<notin> fst ` set xs) (xs @ ys) = ys"
proof -
  have "filter (\<lambda>e. fst e \<notin> fst ` set xs) xs = []" by (simp add: filter_empty_conv)
  moreover have "filter (\<lambda>e. fst e \<notin> fst ` set xs) ys = ys" using assms by (auto simp: filter_id_conv)
  ultimately show ?thesis by simp
qed

section \<open>Content\<close>

definition session_of :: "entry_fields \<Rightarrow> string" where
  "session_of flds = field_of flds ''session_id'' []"

definition sessions_in :: "(string \<times> entry_fields) list \<Rightarrow> string multiset" where
  "sessions_in entries = mset (map (session_of \<circ> snd) entries)"

definition same_fields :: "redis_codec \<Rightarrow> raw_fields \<Rightarrow> entry_fields \<Rightarrow> bool" where
  "same_fields c raw flds \<longleftrightarrow> (\<exists>fs. text_fields c raw [] = Inr fs \<and> map_of fs = map_of flds)"

definition entry_of :: "redis_codec \<Rightarrow> (string \<times> entry_fields) list \<Rightarrow> string \<times> raw_fields \<Rightarrow> bool" where
  "entry_of c entries e \<longleftrightarrow> (\<exists>flds. (fst e, flds) \<in> set entries \<and> same_fields c (snd e) flds)"

definition same_data ::
    "('r \<Rightarrow> string \<Rightarrow> (string \<times> entry_fields) list) \<Rightarrow> ('r \<Rightarrow> string \<Rightarrow> string \<Rightarrow> string option) \<Rightarrow> ('r \<Rightarrow> bool) \<Rightarrow>
     'r \<Rightarrow> 'r \<Rightarrow> bool" where
  "same_data entries_at cell sound s s' \<longleftrightarrow> sound s' \<and> entries_at s' = entries_at s \<and> cell s' = cell s"

definition token_of :: "redis_codec \<Rightarrow> string option \<Rightarrow> string option" where
  "token_of c raw = (case raw of None \<Rightarrow> None
     | Some text \<Rightarrow> (case dict_get (delivery_state_of c text) ''token'' of JStr t \<Rightarrow> Some t | _ \<Rightarrow> None))"

definition field_attempt :: "entry_fields \<Rightarrow> exn + int" where
  "field_attempt flds = parse_int (py_strip
     (if field_of flds ''attempt'' ''0'' = [] then ''0'' else field_of flds ''attempt'' ''0''))"

definition attempt_of :: "redis_codec \<Rightarrow> string option \<Rightarrow> entry_fields \<Rightarrow> exn + int" where
  "attempt_of c raw flds =
     (case raw of
        None \<Rightarrow> field_attempt flds
      | Some text \<Rightarrow> (case map_of (delivery_state_of c text) ''attempt'' of
            Some v \<Rightarrow> json_int v
          | None \<Rightarrow> field_attempt flds))"

definition usable_redis ::
    "'r redis_client \<Rightarrow> redis_codec \<Rightarrow> ('r \<Rightarrow> string \<Rightarrow> (string \<times> entry_fields) list) \<Rightarrow> ('r \<Rightarrow> bool) \<Rightarrow>
     'r redis_queue \<Rightarrow> 'r redis_state \<Rightarrow> bool" where
  "usable_redis client codec entries_at sound q st \<longleftrightarrow>
     sound (rs2_server st) \<and> distinct (map fst (entries_at (rs2_server st) (rz_stream q))) \<and>
     distinct (map fst (entries_at (rs2_server st) (rz_dead q))) \<and>
     (\<forall>k. [] \<notin> fst ` set (entries_at (rs2_server st) k)) \<and> \<not> rs2_closed st \<and>
     rz_client q = client \<and> rz_codec q = codec \<and> faithful_codec codec \<and> rz_dead q \<noteq> rz_stream q \<and>
     (\<forall>n. CHR ''|'' \<notin> set (rz_uuid q n))"

definition redis_content ::
    "('r \<Rightarrow> string \<Rightarrow> (string \<times> entry_fields) list) \<Rightarrow> 'r redis_queue \<Rightarrow> 'r redis_state \<Rightarrow> string multiset" where
  "redis_content entries_at q st =
     sessions_in (entries_at (rs2_server st) (rz_stream q)) + sessions_in (entries_at (rs2_server st) (rz_dead q))"

text \<open>\<open>m\<close> is the latest delivery of an entry of the stream.\<close>

definition redis_handed ::
    "redis_codec \<Rightarrow> ('r \<Rightarrow> string \<Rightarrow> (string \<times> entry_fields) list) \<Rightarrow> ('r \<Rightarrow> string \<Rightarrow> string \<Rightarrow> string option) \<Rightarrow>
     'r redis_queue \<Rightarrow> queue_message \<Rightarrow> 'r redis_state \<Rightarrow> bool" where
  "redis_handed codec entries_at cell q m st \<longleftrightarrow>
     (\<exists>i t flds. split_handle (qm_handle m) = (i, t) \<and> i \<noteq> [] \<and> t \<noteq> [] \<and>
        token_of codec (cell (rs2_server st) (rz_delivery_hash q) i) = Some t \<and>
        (i, flds) \<in> set (entries_at (rs2_server st) (rz_stream q)) \<and> session_of flds = qm_session_id m \<and>
        attempt_of codec (cell (rs2_server st) (rz_delivery_hash q) i) flds = Inr (int (qm_attempt m)))"

definition same_redis ::
    "('r \<Rightarrow> string \<Rightarrow> (string \<times> entry_fields) list) \<Rightarrow> ('r \<Rightarrow> string \<Rightarrow> string \<Rightarrow> string option) \<Rightarrow> ('r \<Rightarrow> bool) \<Rightarrow>
     'r redis_state \<Rightarrow> 'r redis_state \<Rightarrow> bool" where
  "same_redis entries_at cell sound st st' \<longleftrightarrow>
     same_data entries_at cell sound (rs2_server st) (rs2_server st') \<and> rs2_closed st' = rs2_closed st \<and>
     rs2_drawn st \<le> rs2_drawn st'"

lemma delivery_state_nonempty [simp]: "delivery_state_of c t \<noteq> []"
proof -
  have "AList.update k v d \<noteq> []" for k :: string and v :: json and d by (cases d) auto
  then show ?thesis by (auto simp: delivery_state_of_def Let_def dict_get_def split: json.split option.split)
qed

definition drawn_handle :: "'r redis_queue \<Rightarrow> nat \<Rightarrow> nat \<Rightarrow> queue_message \<Rightarrow> bool" where
  "drawn_handle q a b m \<longleftrightarrow> (\<exists>i k. qm_handle m = join_handle i (''redis-'' @ rz_uuid q k) \<and> a \<le> k \<and> k < b)"

definition below_max :: "'r redis_queue \<Rightarrow> nat \<Rightarrow> bool" where
  "below_max q n \<longleftrightarrow> (case rz_max_attempts q of None \<Rightarrow> True | Some k \<Rightarrow> int n < k)"

text \<open>
  Every entry has been delivered fewer times than the limit, and a dead letter has used it up. The hash
  holds nothing but deliveries of present entries.
\<close>

definition bounded_entries ::
    "redis_codec \<Rightarrow> 'r redis_queue \<Rightarrow> (string \<Rightarrow> string option) \<Rightarrow> (string \<times> entry_fields) list \<Rightarrow>
     (string \<times> entry_fields) list \<Rightarrow> bool" where
  "bounded_entries codec q cells es ds \<longleftrightarrow>
     (\<forall>j. cells j \<noteq> None \<longrightarrow> j \<in> fst ` set es) \<and>
     (\<forall>e \<in> set es. (\<exists>n. attempt_of codec (cells (fst e)) (snd e) = Inr (int n) \<and> below_max q n) \<and>
        (\<exists>n. field_attempt (snd e) = Inr (int n) \<and> below_max q n)) \<and>
     (\<forall>e \<in> set ds. \<exists>n. field_attempt (snd e) = Inr (int n) \<and> rz_max_attempts q = Some (int n))"

definition attempts_bounded ::
    "redis_codec \<Rightarrow> ('r \<Rightarrow> string \<Rightarrow> (string \<times> entry_fields) list) \<Rightarrow> ('r \<Rightarrow> string \<Rightarrow> string \<Rightarrow> string option) \<Rightarrow>
     'r redis_queue \<Rightarrow> 'r redis_state \<Rightarrow> bool" where
  "attempts_bounded codec entries_at cell q st \<longleftrightarrow>
     bounded_entries codec q (cell (rs2_server st) (rz_delivery_hash q))
       (entries_at (rs2_server st) (rz_stream q)) (entries_at (rs2_server st) (rz_dead q))"

lemma bounded_delete:
  assumes "bounded_entries c q cells es ds"
  shows "bounded_entries c q (cells(i := None)) (filter (\<lambda>e. fst e \<noteq> i) es) ds"
proof -
  have "j \<in> fst ` set (filter (\<lambda>e. fst e \<noteq> i) es)" if "(cells(i := None)) j \<noteq> None" for j
  proof -
    have "j \<noteq> i" "j \<in> fst ` set es" using that assms by (auto simp: bounded_entries_def split: if_splits)
    then show ?thesis by force
  qed
  then show ?thesis using assms unfolding bounded_entries_def by simp
qed

lemma bounded_add:
  assumes "bounded_entries c q cells es ds" "i \<notin> fst ` set es" "field_attempt fl = Inr (int n)" "below_max q n"
  shows "bounded_entries c q cells (es @ [(i, fl)]) ds"
proof -
  have "cells i = None" using assms(1,2) unfolding bounded_entries_def by blast
  then have "attempt_of c (cells i) fl = Inr (int n)" using assms(3) by (simp add: attempt_of_def)
  then show ?thesis using assms(1,3,4) unfolding bounded_entries_def by auto
qed

lemma bounded_dead:
  "bounded_entries c q cells es ds \<Longrightarrow> field_attempt fl = Inr (int n) \<Longrightarrow> rz_max_attempts q = Some (int n) \<Longrightarrow>
   bounded_entries c q cells es (ds @ [(i, fl)])"
  unfolding bounded_entries_def by auto

lemma bounded_issue:
  assumes "bounded_entries c q cells es ds" "i \<in> fst ` set es" "\<And>fl. attempt_of c (Some t) fl = Inr (int n)" "below_max q n"
  shows "bounded_entries c q (cells(i \<mapsto> t)) es ds"
  using assms unfolding bounded_entries_def by auto

text \<open>
  A delivery that is current afterwards was current before, of an entry that is still there, or its token
  has been drawn in between.
\<close>

definition deliveries_follow ::
    "redis_codec \<Rightarrow> ('r \<Rightarrow> string \<Rightarrow> (string \<times> entry_fields) list) \<Rightarrow> ('r \<Rightarrow> string \<Rightarrow> string \<Rightarrow> string option) \<Rightarrow>
     'r redis_queue \<Rightarrow> 'r redis_state \<Rightarrow> 'r redis_state \<Rightarrow> bool" where
  "deliveries_follow codec entries_at cell q st st' \<longleftrightarrow> rs2_drawn st \<le> rs2_drawn st' \<and>
     (\<forall>i t. token_of codec (cell (rs2_server st') (rz_delivery_hash q) i) = Some t \<longrightarrow>
        cell (rs2_server st') (rz_delivery_hash q) i = cell (rs2_server st) (rz_delivery_hash q) i \<and>
        (\<forall>flds. (i, flds) \<in> set (entries_at (rs2_server st) (rz_stream q)) \<longrightarrow>
           (i, flds) \<in> set (entries_at (rs2_server st') (rz_stream q))) \<or>
        (\<exists>k. rs2_drawn st \<le> k \<and> k < rs2_drawn st' \<and> t = ''redis-'' @ rz_uuid q k))"

lemma below_max_Suc: "below_max q n \<Longrightarrow> should_dead_letter_at q (n + 1) \<Longrightarrow> rz_max_attempts q = Some (int (n + 1))"
  by (auto simp: below_max_def should_dead_letter_at_def split: option.splits)

lemma below_max_iff: "below_max q n \<longleftrightarrow> \<not> should_dead_letter_at q n"
  by (auto simp: below_max_def should_dead_letter_at_def split: option.splits)

lemma digits_read:
  "list_all is_digit ds \<Longrightarrow> Model_Routing.digits_value m b ds =
     (if ds = [] then if b then Some m else None else Some (foldl (\<lambda>a c. 10 * a + (of_char c - 48)) m ds))"
  by (induction ds arbitrary: m b) (auto simp: is_digit_def Let_def)

lemma parse_nat_digits [simp]: "parse_int (py_strip (nat_digits n)) = Inr (int n)"
proof -
  obtain c cs where c: "nat_digits n = c # cs" using nat_digits_nonempty [of n] by (meson neq_Nil_conv)
  have d: "list_all is_digit (nat_digits n)" by (rule nat_digits_digits)
  then have "is_digit c" "is_digit (last (nat_digits n))" using c by (auto simp: list_all_iff simp del: nat_digits.simps)
  then have edge: "\<not> py_isspace c" "\<not> py_isspace (last (nat_digits n))" "c \<noteq> CHR ''+''" "c \<noteq> CHR ''-''"
    by (auto simp: is_digit_def py_isspace_def Let_def)
  have strip: "py_strip (nat_digits n) = nat_digits n" by (rule py_strip_id) (use edge c in simp)
  have "Model_Routing.digits_value 0 False (nat_digits n) = Some n"
    using digits_read [OF d, of 0 False] digits_value_nat [of n] by (simp add: Py_Values.digits_value_def del: nat_digits.simps)
  then show ?thesis unfolding strip using edge unfolding c by simp
qed

lemma field_attempt_message [simp]: "field_attempt (message_fields c m) = Inr (int (qm_attempt m))"
  by (simp add: field_attempt_def message_fields_def field_of_def del: nat_digits.simps)

locale redis_streams =
  fixes client :: "'r redis_client"
    and codec :: redis_codec
    and entries_at :: "'r \<Rightarrow> string \<Rightarrow> (string \<times> entry_fields) list"
    and cell :: "'r \<Rightarrow> string \<Rightarrow> string \<Rightarrow> string option"
    and sound :: "'r \<Rightarrow> bool"
  assumes create_quiet: "sound s \<Longrightarrow> rc_xgroup_create client k g s = (x, s') \<Longrightarrow>
      x = Inr () \<or> (\<exists>e. x = Inl e \<and> is_busygroup_error e) \<Longrightarrow> same_data entries_at cell sound s s'"
    and xadd_adds: "sound s \<Longrightarrow> distinct (map fst fs) \<Longrightarrow> rc_xadd client k fs s = (Inr v, s') \<Longrightarrow>
      \<exists>i. to_text codec v = Inr i \<and> i \<noteq> [] \<and> i \<notin> fst ` set (entries_at s k) \<and> sound s' \<and>
        entries_at s' = (entries_at s)(k := entries_at s k @ [(i, fs)]) \<and> cell s' = cell s"
    and read_quiet: "sound s \<Longrightarrow> rc_xreadgroup client g c k b s = (Inr v, s') \<Longrightarrow>
      same_data entries_at cell sound s s' \<and> (\<forall>e. first_stream_entry codec v = Inr (Some e) \<longrightarrow> entry_of codec (entries_at s k) e)"
    and claim_quiet: "sound s \<Longrightarrow> rc_xautoclaim client k g c n s = (Inr v, s') \<Longrightarrow>
      same_data entries_at cell sound s s' \<and> (\<forall>e es. claimed_entries codec v = Inr (e # es) \<longrightarrow> entry_of codec (entries_at s k) e)"
    and ack_quiet: "sound s \<Longrightarrow> rc_xack client k g i s = (Inr u, s') \<Longrightarrow> same_data entries_at cell sound s s'"
    and xlen_quiet: "sound s \<Longrightarrow> rc_xlen client k s = (Inr n, s') \<Longrightarrow>
      same_data entries_at cell sound s s' \<and> n = int (length (entries_at s k))"
    and pending_quiet: "sound s \<Longrightarrow> rc_xpending client k g s = (Inr v, s') \<Longrightarrow> same_data entries_at cell sound s s'"
    and range_quiet: "sound s \<Longrightarrow> rc_xrange client k bnd s = (Inr v, s') \<Longrightarrow> same_data entries_at cell sound s s' \<and>
      (\<forall>es. stream_entries codec v = Inr es \<longrightarrow> list_all2 (\<lambda>e l. fst e = fst l \<and> same_fields codec (snd e) (snd l))
        es (case bnd of None \<Rightarrow> entries_at s k | Some j \<Rightarrow> take (nat j) (entries_at s k)))"
    and xdel_deletes: "sound s \<Longrightarrow> rc_xdel client k i s = (Inr u, s') \<Longrightarrow> sound s' \<and>
      entries_at s' = (entries_at s)(k := filter (\<lambda>e. fst e \<noteq> i) (entries_at s k)) \<and> cell s' = cell s"
    and hset_sets: "sound s \<Longrightarrow> rc_hset client h i t s = (Inr u, s') \<Longrightarrow> sound s' \<and> entries_at s' = entries_at s \<and>
      cell s' = (cell s)(h := (cell s h)(i \<mapsto> t))"
    and hget_gets: "sound s \<Longrightarrow> rc_hget client h i s = (Inr v, s') \<Longrightarrow> same_data entries_at cell sound s s' \<and>
      (case cell s h i of None \<Rightarrow> v = RNil | Some t \<Rightarrow> v \<noteq> RNil \<and> to_text codec v = Inr t)"
    and hdel_deletes: "sound s \<Longrightarrow> rc_hdel client h i s = (Inr u, s') \<Longrightarrow> sound s' \<and> entries_at s' = entries_at s \<and>
      cell s' = (cell s)(h := (cell s h)(i := None))"
begin

abbreviation usable :: "'r redis_queue \<Rightarrow> 'r redis_state \<Rightarrow> bool" where
  "usable \<equiv> usable_redis client codec entries_at sound"

abbreviation content :: "'r redis_queue \<Rightarrow> 'r redis_state \<Rightarrow> string multiset" where
  "content \<equiv> redis_content entries_at"

abbreviation handed :: "'r redis_queue \<Rightarrow> queue_message \<Rightarrow> 'r redis_state \<Rightarrow> bool" where
  "handed \<equiv> redis_handed codec entries_at cell"

abbreviation same :: "'r redis_state \<Rightarrow> 'r redis_state \<Rightarrow> bool" where
  "same \<equiv> same_redis entries_at cell sound"

lemma same_trans: "same a b \<Longrightarrow> same b c \<Longrightarrow> same a c"
  by (simp add: same_redis_def same_data_def)

lemma same_keeps:
  assumes "usable q st" "same st st'"
  shows "usable q st'" "content q st' = content q st" "handed q m st' = handed q m st"
  using assms by (simp_all add: usable_redis_def same_redis_def same_data_def redis_content_def redis_handed_def)

lemma ensure_group_same: "ensure_group q st = (Inr u, st') \<Longrightarrow> usable q st \<Longrightarrow> same st st'"
  using create_quiet [of "rs2_server st" "rz_stream q" "rz_group q"]
  by (fastforce simp: ensure_group_def usable_redis_def same_redis_def same_data_def split: if_splits prod.splits sum.splits)

lemma decode_facts:
  assumes "decode_message q i raw st = (Inr m, st')" "usable q st" "same_fields codec raw flds"
  shows "same st st'" "qm_session_id m = session_of flds" "\<exists>n. field_attempt flds = Inr n \<and> qm_attempt m = nat n"
    "qm_handle m = i"
proof -
  obtain fs where fs: "text_fields codec raw [] = Inr fs" "map_of fs = map_of flds"
    using assms(3) by (auto simp: same_fields_def)
  have f: "field_of fs = field_of flds" by (intro ext) (simp add: field_of_def fs(2))
  have c: "rz_codec q = codec" "sound (rs2_server st)" using assms(2) by (simp_all add: usable_redis_def)
  show "same st st'" "qm_session_id m = session_of flds" "\<exists>n. field_attempt flds = Inr n \<and> qm_attempt m = nat n"
    "qm_handle m = i"
    using assms(1) c fs(1)
    by (auto simp: decode_message_def rq_bind_Inr message_from_fields_def f session_of_def field_attempt_def
        same_redis_def same_data_def Let_def)
qed

lemma read_state_facts:
  assumes "read_delivery_state q i st = (Inr state, st')" "usable q st"
  shows "same st st'" "state = (case cell (rs2_server st) (rz_delivery_hash q) i of
      None \<Rightarrow> [] | Some t \<Rightarrow> delivery_state_of codec t)"
proof -
  have c: "rz_client q = client" "rz_codec q = codec" "sound (rs2_server st)" using assms(2) by (simp_all add: usable_redis_def)
  obtain v server where g: "rc_hget client (rz_delivery_hash q) i (rs2_server st) = (Inr v, server)"
      and rest: "(case v of RNil \<Rightarrow> rq_return []
         | _ \<Rightarrow> rq_bind (rq_lift (to_text codec v)) (\<lambda>text. rq_return (delivery_state_of codec text)))
           (st\<lparr>rs2_server := server\<rparr>) = (Inr state, st')"
    using assms(1) [unfolded read_delivery_state_def c] by (auto simp: rq_bind_Inr rq_send_Inr)
  note h = hget_gets [OF c(3) g]
  have st': "st' = st\<lparr>rs2_server := server\<rparr>"
    using rest by (auto simp: rq_bind_Inr split: redis_value.splits)
  show "same st st'" using h by (simp add: st' same_redis_def same_data_def)
  show "state = (case cell (rs2_server st) (rz_delivery_hash q) i of
      None \<Rightarrow> [] | Some t \<Rightarrow> delivery_state_of codec t)"
    using rest h by (cases v) (auto simp: rq_bind_Inr split: option.splits)
qed

lemma matches_facts:
  assumes "delivery_token_matches q i t st = (Inr b, st')" "usable q st"
  shows "same st st'" "b \<longleftrightarrow> i \<noteq> [] \<and> t \<noteq> [] \<and> token_of codec (cell (rs2_server st) (rz_delivery_hash q) i) = Some t"
proof -
  have refl: "same st st" using assms(2) by (simp add: same_redis_def same_data_def usable_redis_def)
  have "same st st' \<and> (b \<longleftrightarrow> i \<noteq> [] \<and> t \<noteq> [] \<and> token_of codec (cell (rs2_server st) (rz_delivery_hash q) i) = Some t)"
  proof (cases "i = [] \<or> t = []")
    case True
    with assms(1) refl show ?thesis by (auto simp: delivery_token_matches_def)
  next
    case False
    then obtain state where r: "read_delivery_state q i st = (Inr state, st')" "b \<longleftrightarrow> dict_get state ''token'' = JStr t"
      using assms(1) by (auto simp: delivery_token_matches_def rq_bind_Inr)
    with read_state_facts [OF r(1) assms(2)] False show ?thesis
      by (auto simp: token_of_def split: option.splits json.splits)
  qed
  then show "same st st'" "b \<longleftrightarrow> i \<noteq> [] \<and> t \<noteq> [] \<and> token_of codec (cell (rs2_server st) (rz_delivery_hash q) i) = Some t"
    by simp_all
qed

lemma current_facts:
  assumes "current_delivery_message q i raw st = (Inr m, st')" "usable q st" "same_fields codec raw flds"
  shows "same st st'" "qm_session_id m = session_of flds"
    "\<exists>n. attempt_of codec (cell (rs2_server st) (rz_delivery_hash q) i) flds = Inr n \<and> qm_attempt m = nat n"
proof -
  obtain m0 st0 state st1 where d: "decode_message q i raw st = (Inr m0, st0)"
      and r: "read_delivery_state q i st0 = (Inr state, st1)"
      and rest: "(if state = [] then rq_return m0 else rq_lift (state_message codec i m0 state)) st1 = (Inr m, st')"
    using assms(1,2) by (auto simp: current_delivery_message_def rq_bind_Inr usable_redis_def)
  note df = decode_facts [OF d assms(2,3)]
  have u0: "usable q st0" using same_keeps(1) [OF assms(2) df(1)] .
  note rf = read_state_facts [OF r u0]
  have st': "st' = st1" using rest by (auto split: if_splits)
  show "same st st'" using same_trans [OF df(1) rf(1)] by (simp add: st')
  have cells: "cell (rs2_server st0) = cell (rs2_server st)" using df(1) by (simp add: same_redis_def same_data_def)
  obtain n where n: "field_attempt flds = Inr n" "qm_attempt m0 = nat n" using df(3) by blast
  show "qm_session_id m = session_of flds"
    using rest df(2) by (auto simp: state_message_def Let_def split: if_splits)
  show "\<exists>n. attempt_of codec (cell (rs2_server st) (rz_delivery_hash q) i) flds = Inr n \<and> qm_attempt m = nat n"
    using rest n rf(2) unfolding cells
    by (auto simp: state_message_def Let_def attempt_of_def split: if_splits option.splits)
qed

lemma xadd_facts:
  assumes "rq_send (rc_xadd (rz_client q) k fs) st = (Inr v, st')" "usable q st" "distinct (map fst fs)"
  obtains i where "to_text codec v = Inr i" "i \<noteq> []" "i \<notin> fst ` set (entries_at (rs2_server st) k)"
    "entries_at (rs2_server st') = (entries_at (rs2_server st))(k := entries_at (rs2_server st) k @ [(i, fs)])"
    "cell (rs2_server st') = cell (rs2_server st)" "usable q st'" "rs2_closed st' = rs2_closed st" "rs2_drawn st' = rs2_drawn st"
proof -
  have c: "rz_client q = client" "sound (rs2_server st)" using assms(2) by (simp_all add: usable_redis_def)
  obtain server where a: "rc_xadd client k fs (rs2_server st) = (Inr v, server)" and st': "st' = st\<lparr>rs2_server := server\<rparr>"
    using assms(1) by (auto simp: rq_send_Inr c)
  obtain i where i: "to_text codec v = Inr i" "i \<noteq> []" "i \<notin> fst ` set (entries_at (rs2_server st) k)" "sound server"
      "entries_at server = (entries_at (rs2_server st))(k := entries_at (rs2_server st) k @ [(i, fs)])"
      "cell server = cell (rs2_server st)"
    using xadd_adds [OF c(2) assms(3) a] by blast
  have "usable q st'" using assms(2) i by (auto simp: usable_redis_def st')
  then show ?thesis using that i by (simp add: st')
qed

lemma content_added:
  assumes "entries_at (rs2_server st') = (entries_at (rs2_server st))(k := entries_at (rs2_server st) k @ [(i, fs)])"
    "k \<in> {rz_stream q, rz_dead q}" "rz_dead q \<noteq> rz_stream q"
  shows "content q st' = add_mset (session_of fs) (content q st)"
  using assms by (auto simp: redis_content_def sessions_in_def)

lemma message_fields_facts [simp]:
  "distinct (map fst (message_fields c m))" "session_of (message_fields c m) = qm_session_id m"
  by (simp_all add: message_fields_def session_of_def field_of_def)

lemma add_entry_facts:
  assumes "add_entry q k m st = (Inr i, st')" "usable q st" "k \<in> {rz_stream q, rz_dead q}"
  shows "usable q st'" "content q st' = add_mset (qm_session_id m) (content q st)"
proof -
  have d: "rz_dead q \<noteq> rz_stream q" using assms(2) by (simp add: usable_redis_def)
  obtain v where v: "rq_send (rc_xadd (rz_client q) k (message_fields (rz_codec q) m)) st = (Inr v, st')"
    using assms(1) by (auto simp: add_entry_def rq_bind_Inr)
  from xadd_facts [OF v assms(2)] obtain j where
      "entries_at (rs2_server st') = (entries_at (rs2_server st))(k := entries_at (rs2_server st) k @ [(j, message_fields (rz_codec q) m)])"
      "usable q st'" by (metis message_fields_facts(1))
  with content_added [OF _ assms(3) d, of st' st j] show "usable q st'" "content q st' = add_mset (qm_session_id m) (content q st)"
    by simp_all
qed

lemma send_dead_letter_facts:
  assumes "send_dead_letter q m reason h n st = (Inr u, st')" "usable q st"
  shows "usable q st'" "content q st' = add_mset (qm_session_id m) (content q st)"
    "entries_at (rs2_server st') (rz_stream q) = entries_at (rs2_server st) (rz_stream q)"
    "cell (rs2_server st') = cell (rs2_server st)"
proof -
  let ?fs = "message_fields (rz_codec q) (m\<lparr>qm_metadata := dead_metadata m reason h n\<rparr>)"
  have d: "rz_dead q \<noteq> rz_stream q" using assms(2) by (simp add: usable_redis_def)
  obtain v where v: "rq_send (rc_xadd (rz_client q) (rz_dead q) ?fs) st = (Inr v, st')"
    using assms(1) by (auto simp: send_dead_letter_def rq_bind_Inr)
  from xadd_facts [OF v assms(2)] obtain j where
      j: "entries_at (rs2_server st') = (entries_at (rs2_server st))(rz_dead q := entries_at (rs2_server st) (rz_dead q) @ [(j, ?fs)])"
      "usable q st'" "cell (rs2_server st') = cell (rs2_server st)" by (metis message_fields_facts(1))
  from j content_added [OF j(1) _ d] d show "usable q st'" "content q st' = add_mset (qm_session_id m) (content q st)"
    "entries_at (rs2_server st') (rz_stream q) = entries_at (rs2_server st) (rz_stream q)"
    "cell (rs2_server st') = cell (rs2_server st)"
    by simp_all
qed

lemma sessions_without:
  assumes "distinct (map fst es)" "(i, flds) \<in> set es"
  shows "sessions_in es = add_mset (session_of flds) (sessions_in (filter (\<lambda>e. fst e \<noteq> i) es))"
  using assms
proof (induction es)
  case (Cons e es)
  show ?case
  proof (cases "fst e = i")
    case True
    then have i: "i \<notin> fst ` set es" using Cons.prems(1) by simp
    then have "(i, flds) \<notin> set es" by (metis fst_conv image_eqI)
    then have "e = (i, flds)" using Cons.prems(2) by simp
    moreover have "filter (\<lambda>e. fst e \<noteq> i) es = es" using i by (simp add: filter_id_conv image_iff) blast
    ultimately show ?thesis by (simp add: sessions_in_def)
  next
    case False
    with Cons show ?thesis by (force simp: sessions_in_def)
  qed
qed simp

lemma ack_and_delete_facts:
  assumes "ack_and_delete q i st = (Inr u, st')" "usable q st"
  shows "usable q st'"
    "entries_at (rs2_server st') = (entries_at (rs2_server st))(rz_stream q :=
       filter (\<lambda>e. fst e \<noteq> i) (entries_at (rs2_server st) (rz_stream q)))"
    "cell (rs2_server st') = (cell (rs2_server st))(rz_delivery_hash q := (cell (rs2_server st) (rz_delivery_hash q))(i := None))"
    "(i, flds) \<in> set (entries_at (rs2_server st) (rz_stream q)) \<Longrightarrow>
       content q st = add_mset (session_of flds) (content q st')"
    "rs2_closed st' = rs2_closed st"
proof -
  have c: "rz_client q = client" "sound (rs2_server st)" "distinct (map fst (entries_at (rs2_server st) (rz_stream q)))"
      "rz_dead q \<noteq> rz_stream q"
    using assms(2) by (simp_all add: usable_redis_def)
  obtain s1 s2 s3 where a: "rc_xack client (rz_stream q) (rz_group q) i (rs2_server st) = (Inr (), s1)"
      and d: "rc_xdel client (rz_stream q) i s1 = (Inr (), s2)"
      and h: "rc_hdel client (rz_delivery_hash q) i s2 = (Inr (), s3)" and st': "st' = st\<lparr>rs2_server := s3\<rparr>"
    using assms(1) by (auto simp: ack_and_delete_def rq_bind_Inr rq_send_Inr c)
  note a = ack_quiet [OF c(2) a, unfolded same_data_def]
  note d = xdel_deletes [OF conjunct1 [OF a] d]
  note h = hdel_deletes [OF conjunct1 [OF d] h]
  show e: "entries_at (rs2_server st') = (entries_at (rs2_server st))(rz_stream q :=
       filter (\<lambda>e. fst e \<noteq> i) (entries_at (rs2_server st) (rz_stream q)))"
    using a d h by (simp add: st')
  show "cell (rs2_server st') = (cell (rs2_server st))(rz_delivery_hash q := (cell (rs2_server st) (rz_delivery_hash q))(i := None))"
    using a d h by (simp add: st')
  show "usable q st'"
    using assms(2) e h by (auto simp: usable_redis_def st' distinct_map_filter)
  show "(i, flds) \<in> set (entries_at (rs2_server st) (rz_stream q)) \<Longrightarrow>
       content q st = add_mset (session_of flds) (content q st')"
    using sessions_without [OF c(3)] c(4) by (simp add: redis_content_def e)
  show "rs2_closed st' = rs2_closed st" by (simp add: st')
qed

lemma issue_facts:
  assumes "issue_delivery q i m st = (Inr m', st')" "usable q st" "i \<noteq> []"
    "(i, flds) \<in> set (entries_at (rs2_server st) (rz_stream q))" "session_of flds = qm_session_id m"
  shows "usable q st'" "content q st' = content q st" "handed q m' st'" "qm_attempt m' = qm_attempt m"
    "qm_handle m' = join_handle i (''redis-'' @ rz_uuid q (rs2_drawn st))" "qm_session_id m' = qm_session_id m"
    "entries_at (rs2_server st') = entries_at (rs2_server st)" "rs2_drawn st' = rs2_drawn st + 1"
    "\<exists>t. cell (rs2_server st') (rz_delivery_hash q) = (cell (rs2_server st) (rz_delivery_hash q))(i \<mapsto> t) \<and>
      (\<forall>fl. attempt_of codec (Some t) fl = Inr (int (qm_attempt m)))"
proof -
  let ?token = "''redis-'' @ rz_uuid q (rs2_drawn st)"
  let ?text = "jc_dumps codec [(''token'', JStr ?token), (''attempt'', JInt (int (qm_attempt m))),
      (''metadata'', JObj (issued_metadata q i m))]"
  have c: "rz_client q = client" "rz_codec q = codec" "sound (rs2_server st)" "faithful_codec codec"
      "CHR ''|'' \<notin> set ?token"
    using assms(2) by (auto simp: usable_redis_def)
  obtain server where h: "rc_hset client (rz_delivery_hash q) i ?text (rs2_server st) = (Inr (), server)"
      and st': "st' = st\<lparr>rs2_drawn := rs2_drawn st + 1, rs2_server := server\<rparr>"
      and m': "m' = m\<lparr>qm_handle := join_handle i ?token, qm_metadata := issued_metadata q i m\<rparr>"
    using assms(1) by (auto simp: issue_delivery_def write_delivery_state_def rq_bind_Inr rq_send_Inr c)
  note h = hset_sets [OF c(3) h]
  show "usable q st'" "content q st' = content q st" using assms(2) h by (simp_all add: usable_redis_def redis_content_def st')
  have k: "cell server (rz_delivery_hash q) i = Some ?text" using h by simp
  note w = delivery_state_written [OF c(4), of ?token "qm_attempt m" "issued_metadata q i m"]
  show "handed q m' st'"
    unfolding redis_handed_def
  proof (intro exI conjI)
    have "qm_handle m' = join_handle i ?token" by (simp add: m')
    then show "split_handle (qm_handle m') = (i, ?token)" using split_join_handle [OF c(5)] by (simp only:)
    have "rs2_server st' = server" "qm_attempt m' = qm_attempt m" by (simp_all add: st' m')
    then show "token_of codec (cell (rs2_server st') (rz_delivery_hash q) i) = Some ?token"
        "attempt_of codec (cell (rs2_server st') (rz_delivery_hash q) i) flds = Inr (int (qm_attempt m'))"
      by (simp_all only: k token_of_def attempt_of_def option.simps w dict_get_def json_int_def json.simps)
  qed (use assms(3-5) h in \<open>simp_all add: st' m'\<close>)
  show "qm_attempt m' = qm_attempt m" "qm_handle m' = join_handle i ?token" "qm_session_id m' = qm_session_id m"
    by (simp_all add: m')
  show "entries_at (rs2_server st') = entries_at (rs2_server st)" "rs2_drawn st' = rs2_drawn st + 1"
    using h by (simp_all add: st')
  have "attempt_of codec (Some ?text) fl = Inr (int (qm_attempt m))" for fl
    by (simp only: attempt_of_def option.simps w json_int_def json.simps)
  then show "\<exists>t. cell (rs2_server st') (rz_delivery_hash q) = (cell (rs2_server st) (rz_delivery_hash q))(i \<mapsto> t) \<and>
      (\<forall>fl. attempt_of codec (Some t) fl = Inr (int (qm_attempt m)))"
    using h by (intro exI [of _ ?text]) (simp add: st')
qed

abbreviation bounded :: "'r redis_queue \<Rightarrow> 'r redis_state \<Rightarrow> bool" where
  "bounded \<equiv> attempts_bounded codec entries_at cell"

lemma same_bounded: "same st st' \<Longrightarrow> bounded q st' = bounded q st"
  by (simp add: attempts_bounded_def same_redis_def same_data_def)

abbreviation follow :: "'r redis_queue \<Rightarrow> 'r redis_state \<Rightarrow> 'r redis_state \<Rightarrow> bool" where
  "follow \<equiv> deliveries_follow codec entries_at cell"

lemma same_follow: "same st st' \<Longrightarrow> follow q st st'"
  by (simp add: deliveries_follow_def same_redis_def same_data_def)

lemma follow_trans:
  assumes "follow q a b" "follow q b c"
  shows "follow q a c"
  unfolding deliveries_follow_def
proof (intro conjI allI impI)
  show "rs2_drawn a \<le> rs2_drawn c" using assms unfolding deliveries_follow_def by linarith
  fix i t assume t: "token_of codec (cell (rs2_server c) (rz_delivery_hash q) i) = Some t"
  let ?old = "\<lambda>x y. cell (rs2_server y) (rz_delivery_hash q) i = cell (rs2_server x) (rz_delivery_hash q) i \<and>
      (\<forall>flds. (i, flds) \<in> set (entries_at (rs2_server x) (rz_stream q)) \<longrightarrow>
         (i, flds) \<in> set (entries_at (rs2_server y) (rz_stream q)))"
  let ?new = "\<lambda>x y. \<exists>k. rs2_drawn x \<le> k \<and> k < rs2_drawn y \<and> t = ''redis-'' @ rz_uuid q k"
  have bc: "?old b c \<or> ?new b c" using assms(2) t unfolding deliveries_follow_def by blast
  show "?old a c \<or> ?new a c"
  proof (cases "?new b c")
    case True
    then show ?thesis using assms(1) le_trans unfolding deliveries_follow_def by blast
  next
    case False
    with bc have o: "?old b c" by blast
    then have "token_of codec (cell (rs2_server b) (rz_delivery_hash q) i) = Some t" using t by simp
    then have ab: "?old a b \<or> ?new a b" using assms(1) unfolding deliveries_follow_def by blast
    have le: "rs2_drawn b \<le> rs2_drawn c" using assms(2) unfolding deliveries_follow_def by blast
    from ab show ?thesis
    proof
      assume "?old a b"
      with o have "?old a c" by simp
      then show ?thesis by (rule disjI1)
    next
      assume "?new a b"
      then obtain k where "rs2_drawn a \<le> k" "k < rs2_drawn b" "t = ''redis-'' @ rz_uuid q k" by blast
      with le have "?new a c" by (intro exI [of _ k]) simp
      then show ?thesis by (rule disjI2)
    qed
  qed
qed

lemma issue_follow:
  assumes "issue_delivery q i m st = (Inr m', st')" "usable q st" "i \<noteq> []"
    "(i, flds) \<in> set (entries_at (rs2_server st) (rz_stream q))" "session_of flds = qm_session_id m"
  shows "follow q st st'"
proof -
  note f = issue_facts [OF assms]
  have bar: "CHR ''|'' \<notin> set (''redis-'' @ rz_uuid q (rs2_drawn st))" using assms(2) by (simp add: usable_redis_def)
  have "token_of codec (cell (rs2_server st') (rz_delivery_hash q) i) = Some (''redis-'' @ rz_uuid q (rs2_drawn st))"
    using f(3) split_join_handle [OF bar, of i] unfolding redis_handed_def f(5) by auto
  moreover have "cell (rs2_server st') (rz_delivery_hash q) j = cell (rs2_server st) (rz_delivery_hash q) j" if "j \<noteq> i" for j
    using f(9) that by auto
  ultimately have "cell (rs2_server st') (rz_delivery_hash q) j = cell (rs2_server st) (rz_delivery_hash q) j \<or>
      t = ''redis-'' @ rz_uuid q (rs2_drawn st)"
    if "token_of codec (cell (rs2_server st') (rz_delivery_hash q) j) = Some t" for j t
    using that by (cases "j = i") auto
  then show ?thesis unfolding deliveries_follow_def f(7,8) by force
qed

lemma added_follow:
  assumes "rq_send (rc_xadd (rz_client q) k fs) st = (Inr v, st')" "usable q st" "distinct (map fst fs)"
  shows "follow q st st'"
proof -
  obtain i where "entries_at (rs2_server st') = (entries_at (rs2_server st))(k := entries_at (rs2_server st) k @ [(i, fs)])"
      "cell (rs2_server st') = cell (rs2_server st)" "rs2_drawn st' = rs2_drawn st"
    using xadd_facts [OF assms] by metis
  then show ?thesis by (simp add: deliveries_follow_def)
qed

lemma deleted_follow:
  assumes "ack_and_delete q i st = (Inr u, st')" "usable q st"
  shows "follow q st st'"
proof -
  note f = ack_and_delete_facts [OF assms]
  have "rs2_drawn st' = rs2_drawn st" using assms(1) by (auto simp: ack_and_delete_def rq_bind_Inr rq_send_Inr)
  then show ?thesis unfolding deliveries_follow_def f(2,3) by (auto simp: token_of_def)
qed

lemma issue_bounded:
  assumes "issue_delivery q i m st = (Inr m', st')" "usable q st" "i \<noteq> []"
    "(i, flds) \<in> set (entries_at (rs2_server st) (rz_stream q))" "session_of flds = qm_session_id m"
    "bounded q st" "below_max q (qm_attempt m)"
  shows "bounded q st'"
proof -
  note f = issue_facts [OF assms(1-5)]
  obtain t where t: "cell (rs2_server st') (rz_delivery_hash q) = (cell (rs2_server st) (rz_delivery_hash q))(i \<mapsto> t)"
      "\<And>fl. attempt_of codec (Some t) fl = Inr (int (qm_attempt m))" using f(9) by blast
  have "i \<in> fst ` set (entries_at (rs2_server st) (rz_stream q))" using assms(4) by force
  from bounded_issue [OF assms(6) [unfolded attempts_bounded_def] this t(2) assms(7)] show ?thesis
    unfolding attempts_bounded_def t(1) f(7) .
qed

lemma deleted_bounded:
  assumes "ack_and_delete q i st = (Inr u, st')" "usable q st" "bounded q st"
  shows "bounded q st'"
proof -
  note f = ack_and_delete_facts [OF assms(1,2)]
  have "rz_dead q \<noteq> rz_stream q" using assms(2) by (simp add: usable_redis_def)
  then show ?thesis using bounded_delete [OF assms(3) [unfolded attempts_bounded_def], of i]
    unfolding attempts_bounded_def f(2,3) by simp
qed

lemma add_entry_bounded:
  assumes "add_entry q (rz_stream q) m st = (Inr i, st')" "usable q st" "bounded q st" "below_max q (qm_attempt m)"
  shows "bounded q st'"
proof -
  let ?k = "rz_stream q" and ?fs = "message_fields (rz_codec q) m"
  have d: "rz_dead q \<noteq> ?k" using assms(2) by (simp add: usable_redis_def)
  obtain v where v: "rq_send (rc_xadd (rz_client q) ?k ?fs) st = (Inr v, st')"
    using assms(1) by (auto simp: add_entry_def rq_bind_Inr)
  obtain j where j: "j \<notin> fst ` set (entries_at (rs2_server st) ?k)"
      "entries_at (rs2_server st') = (entries_at (rs2_server st))(?k := entries_at (rs2_server st) ?k @ [(j, ?fs)])"
      "cell (rs2_server st') = cell (rs2_server st)"
    by (rule xadd_facts [OF v assms(2) message_fields_facts(1)])
  show ?thesis
    using bounded_add [OF assms(3) [unfolded attempts_bounded_def] j(1) field_attempt_message assms(4)] d
    unfolding attempts_bounded_def j(2,3) by simp
qed

lemma send_dead_letter_bounded:
  assumes "send_dead_letter q m reason h n st = (Inr u, st')" "usable q st" "bounded q st"
    "rz_max_attempts q = Some (int (qm_attempt m))"
  shows "bounded q st'"
proof -
  let ?k = "rz_dead q" and ?m = "m\<lparr>qm_metadata := dead_metadata m reason h n\<rparr>"
  let ?fs = "message_fields (rz_codec q) ?m"
  have d: "rz_stream q \<noteq> ?k" using assms(2) by (auto simp: usable_redis_def)
  have a: "rz_max_attempts q = Some (int (qm_attempt ?m))" using assms(4) by simp
  obtain v where v: "rq_send (rc_xadd (rz_client q) ?k ?fs) st = (Inr v, st')"
    using assms(1) by (auto simp: send_dead_letter_def rq_bind_Inr)
  obtain j where j: "entries_at (rs2_server st') = (entries_at (rs2_server st))(?k := entries_at (rs2_server st) ?k @ [(j, ?fs)])"
      "cell (rs2_server st') = cell (rs2_server st)"
    by (rule xadd_facts [OF v assms(2) message_fields_facts(1)])
  show ?thesis
    using bounded_dead [OF assms(3) [unfolded attempts_bounded_def] field_attempt_message a] d
    unfolding attempts_bounded_def j by simp
qed

text \<open>What a delivery may do: nothing, or hand out an entry under a new token.\<close>

definition delivers :: "'r redis_queue \<Rightarrow> 'r redis_state \<Rightarrow> queue_message option \<Rightarrow> 'r redis_state \<Rightarrow> bool" where
  "delivers q st r st' \<longleftrightarrow> usable q st' \<and> content q st' = content q st \<and> follow q st st' \<and> rs2_drawn st \<le> rs2_drawn st' \<and>
     (\<forall>m. r = Some m \<longrightarrow> handed q m st' \<and> drawn_handle q (rs2_drawn st) (rs2_drawn st') m) \<and>
     (bounded q st \<longrightarrow> bounded q st' \<and> (\<forall>m. r = Some m \<longrightarrow> below_max q (qm_attempt m)))"

lemma delivers_same:
  assumes "usable q st" "same st st1" "delivers q st1 r st'"
  shows "delivers q st r st'"
proof -
  have "drawn_handle q (rs2_drawn st1) b m \<Longrightarrow> drawn_handle q (rs2_drawn st) b m" for b m
    using assms(2) le_trans unfolding drawn_handle_def same_redis_def by blast
  moreover have "follow q st st'" using follow_trans [OF same_follow [OF assms(2)]] assms(3) by (simp add: delivers_def)
  ultimately show ?thesis using assms
    by (auto simp: delivers_def same_keeps same_bounded) (auto simp: same_redis_def)
qed

lemma delivers_issued:
  assumes "issue_delivery q i m st = (Inr m', st')" "usable q st"
    "(i, flds) \<in> set (entries_at (rs2_server st) (rz_stream q))" "session_of flds = qm_session_id m"
    "bounded q st \<longrightarrow> below_max q (qm_attempt m)"
  shows "delivers q st (Some m') st'"
proof -
  have "i \<noteq> []" using assms(2,3) unfolding usable_redis_def by (metis fst_conv image_eqI)
  note f = issue_facts [OF assms(1,2) this assms(3,4)]
  have "bounded q st \<longrightarrow> bounded q st'" using issue_bounded [OF assms(1,2) \<open>i \<noteq> []\<close> assms(3,4)] assms(5) by blast
  moreover have "drawn_handle q (rs2_drawn st) (rs2_drawn st') m'" unfolding drawn_handle_def f(5,8) by auto
  ultimately show ?thesis using f assms(5) issue_follow [OF assms(1,2) \<open>i \<noteq> []\<close> assms(3,4)] by (simp add: delivers_def)
qed

lemma redeliver_delivers:
  assumes "redeliver_entry q i raw st = (Inr r, st')" "usable q st"
    "(i, flds) \<in> set (entries_at (rs2_server st) (rz_stream q))" "same_fields codec raw flds"
  shows "delivers q st r st'"
proof -
  let ?next = "\<lambda>m. m\<lparr>qm_attempt := qm_attempt m + 1, qm_handle := i, qm_metadata :=
      next_delivery_metadata m ''visibility_timeout'' (if qm_handle m = [] then i else qm_handle m) (qm_attempt m + 1)\<rparr>"
  obtain m st1 where c: "current_delivery_message q i raw st = (Inr m, st1)"
      and rest: "(if should_dead_letter_at q (qm_attempt m + 1) then
         rq_bind (send_dead_letter q (?next m) ''visibility_timeout'' (if qm_handle m = [] then i else qm_handle m) (qm_attempt m + 1)) (\<lambda>_.
         rq_bind (ack_and_delete q i) (\<lambda>_. rq_return None))
       else rq_bind (issue_delivery q i (?next m)) (\<lambda>m. rq_return (Some m))) st1 = (Inr r, st')"
    using assms(1) [unfolded redeliver_entry_def rq_bind_Inr Let_def] by blast
  note cf = current_facts [OF c assms(2,4)]
  have u: "usable q st1" using same_keeps(1) [OF assms(2) cf(1)] .
  have e: "(i, flds) \<in> set (entries_at (rs2_server st1) (rz_stream q))" using assms(3) cf(1) by (simp add: same_redis_def same_data_def)
  have b: "below_max q (qm_attempt m)" if "bounded q st1"
  proof -
    have "bounded q st" using that same_bounded [OF cf(1)] by simp
    then obtain n where "attempt_of codec (cell (rs2_server st) (rz_delivery_hash q) i) flds = Inr (int n)" "below_max q n"
      using assms(3) unfolding attempts_bounded_def bounded_entries_def by force
    then show ?thesis using cf(3) by auto
  qed
  have "delivers q st1 r st'"
  proof (cases "should_dead_letter_at q (qm_attempt m + 1)")
    case True
    then obtain st2 where d: "send_dead_letter q (?next m) ''visibility_timeout'' (if qm_handle m = [] then i else qm_handle m) (qm_attempt m + 1) st1 = (Inr (), st2)"
        and a: "ack_and_delete q i st2 = (Inr (), st')" and r: "r = None"
      using rest by (auto simp: rq_bind_Inr)
    note df = send_dead_letter_facts [OF d u]
    have "(i, flds) \<in> set (entries_at (rs2_server st2) (rz_stream q))" using e df(3) by simp
    note af = ack_and_delete_facts(1) [OF a df(1)] ack_and_delete_facts(4) [OF a df(1) this]
    have "content q st' = content q st1" using df(2) af(2) cf(2) by simp
    moreover have "bounded q st1 \<longrightarrow> bounded q st'"
      using send_dead_letter_bounded [OF d u] deleted_bounded [OF a df(1)] below_max_Suc [OF b True] by auto
    moreover have "rs2_drawn st1 \<le> rs2_drawn st'"
      using d a by (auto simp: send_dead_letter_def ack_and_delete_def rq_bind_Inr rq_send_Inr)
    moreover have "follow q st1 st'"
      using follow_trans [OF _ deleted_follow [OF a df(1)]] d added_follow [of q "rz_dead q" _ st1 _ st2, OF _ u message_fields_facts(1)]
      by (auto simp: send_dead_letter_def rq_bind_Inr)
    ultimately show ?thesis using af(1) r by (simp add: delivers_def)
  next
    case False
    then obtain m' where i: "issue_delivery q i (?next m) st1 = (Inr m', st')" and r: "r = Some m'"
      using rest by (auto simp: rq_bind_Inr)
    from delivers_issued [OF i u e] cf(2) False show ?thesis by (simp add: r below_max_iff)
  qed
  with delivers_same [OF assms(2) cf(1)] show ?thesis by blast
qed

lemma delivers_nothing: "usable q st \<Longrightarrow> same st st' \<Longrightarrow> delivers q st None st'"
  by (simp add: delivers_def same_keeps same_bounded same_follow) (simp add: same_redis_def)

lemma reclaim_delivers:
  assumes "reclaim_expired q st = (Inr r, st')" "usable q st"
  shows "delivers q st r st'"
proof (cases "rz_visibility q")
  case None
  with assms have "r = None" "st' = st" by (simp_all add: reclaim_expired_def)
  with delivers_nothing assms(2) show ?thesis by (simp add: same_redis_def same_data_def usable_redis_def)
next
  case (Some v)
  have c: "rz_client q = client" "rz_codec q = codec" "sound (rs2_server st)" using assms(2) by (simp_all add: usable_redis_def)
  obtain reply server es where a: "rc_xautoclaim client (rz_stream q) (rz_group q) (rz_consumer q) \<lfloor>v * 1000\<rfloor> (rs2_server st) = (Inr reply, server)"
      and es: "claimed_entries codec reply = Inr es"
      and rest: "(case es of [] \<Rightarrow> rq_return None | (i, raw) # _ \<Rightarrow> redeliver_entry q i raw) (st\<lparr>rs2_server := server\<rparr>) = (Inr r, st')"
    using assms(1) [unfolded reclaim_expired_def c] by (auto simp: Some rq_bind_Inr rq_send_Inr)
  note cq = claim_quiet [OF c(3) a]
  have s: "same st (st\<lparr>rs2_server := server\<rparr>)" using cq by (simp add: same_redis_def)
  have u: "usable q (st\<lparr>rs2_server := server\<rparr>)" using same_keeps(1) [OF assms(2) s] .
  show ?thesis
  proof (cases es)
    case Nil
    with rest have "r = None" "st' = st\<lparr>rs2_server := server\<rparr>" by simp_all
    with delivers_nothing [OF assms(2) s] show ?thesis by simp
  next
    case (Cons e es')
    obtain i raw where ir: "e = (i, raw)" by force
    have "entry_of codec (entries_at (rs2_server st) (rz_stream q)) (i, raw)" using cq es Cons ir by blast
    then obtain flds where "(i, flds) \<in> set (entries_at server (rz_stream q))" "same_fields codec raw flds"
      using cq by (auto simp: entry_of_def same_data_def)
    with redeliver_delivers [of q i raw "st\<lparr>rs2_server := server\<rparr>" r st' flds] rest u
    have "delivers q (st\<lparr>rs2_server := server\<rparr>) r st'" by (simp add: Cons ir)
    with delivers_same [OF assms(2) s] show ?thesis by blast
  qed
qed

lemma read_new_delivers:
  assumes "read_new q t st = (Inr r, st')" "usable q st"
  shows "delivers q st r st'"
proof -
  have c: "rz_client q = client" "rz_codec q = codec" "sound (rs2_server st)" using assms(2) by (simp_all add: usable_redis_def)
  obtain reply server entry where a: "rc_xreadgroup client (rz_group q) (rz_consumer q) (rz_stream q) (block_ms t) (rs2_server st) = (Inr reply, server)"
      and e: "first_stream_entry codec reply = Inr entry"
      and rest: "(case entry of None \<Rightarrow> rq_return None
        | Some (i, raw) \<Rightarrow> rq_bind (decode_message q i raw) (\<lambda>m. rq_bind (issue_delivery q i m) (\<lambda>m'. rq_return (Some m'))))
          (st\<lparr>rs2_server := server\<rparr>) = (Inr r, st')"
    using assms(1) [unfolded read_new_def c] by (auto simp: rq_bind_Inr rq_send_Inr)
  note rq = read_quiet [OF c(3) a]
  have s: "same st (st\<lparr>rs2_server := server\<rparr>)" using rq by (simp add: same_redis_def)
  have u: "usable q (st\<lparr>rs2_server := server\<rparr>)" using same_keeps(1) [OF assms(2) s] .
  show ?thesis
  proof (cases entry)
    case None
    with rest have "r = None" "st' = st\<lparr>rs2_server := server\<rparr>" by simp_all
    with delivers_nothing [OF assms(2) s] show ?thesis by simp
  next
    case (Some e0)
    obtain i raw where ir: "entry = Some (i, raw)" using Some by (cases e0) simp
    obtain flds where f: "(i, flds) \<in> set (entries_at server (rz_stream q))" "same_fields codec raw flds"
      using rq e ir by (auto simp: entry_of_def same_data_def)
    obtain m st1 m' where d: "decode_message q i raw (st\<lparr>rs2_server := server\<rparr>) = (Inr m, st1)"
        and i: "issue_delivery q i m st1 = (Inr m', st')" and r: "r = Some m'"
      using rest by (auto simp: ir rq_bind_Inr)
    note df = decode_facts [OF d u f(2)]
    have s1: "same st st1" using same_trans [OF s df(1)] .
    have u1: "usable q st1" using same_keeps(1) [OF u df(1)] .
    have e1: "(i, flds) \<in> set (entries_at (rs2_server st1) (rz_stream q))" using f(1) df(1) by (simp add: same_redis_def same_data_def)
    have "below_max q (qm_attempt m)" if "bounded q st1"
      using that e1 df(3) unfolding attempts_bounded_def bounded_entries_def by force
    then have "delivers q st1 (Some m') st'" using delivers_issued [OF i u1 e1] df(2) by simp
    with delivers_same [OF assms(2) s1] show ?thesis by (simp add: r)
  qed
qed

lemma delivers_trans:
  assumes "delivers q a None b" "delivers q b r c"
  shows "delivers q a r c"
proof -
  have "drawn_handle q (rs2_drawn b) n m \<Longrightarrow> drawn_handle q (rs2_drawn a) n m" for n m
    using assms(1) le_trans unfolding drawn_handle_def delivers_def by blast
  moreover have "follow q a c" using follow_trans [of q a b c] assms by (simp add: delivers_def)
  ultimately show ?thesis using assms by (auto simp: delivers_def)
qed

lemma dequeue_delivers:
  assumes "redis_dequeue q t st = (Inr r, st')" "usable q st"
  shows "delivers q st r st'"
proof -
  obtain st1 r1 st2 where g: "ensure_group q st = (Inr (), st1)" and c: "reclaim_expired q st1 = (Inr r1, st2)"
      and rest: "(case r1 of Some m \<Rightarrow> rq_return (Some m) | None \<Rightarrow> read_new q t) st2 = (Inr r, st')"
    using assms(1) by (auto simp: redis_dequeue_def rq_bind_Inr)
  note s1 = ensure_group_same [OF g assms(2)]
  have u1: "usable q st1" using same_keeps(1) [OF assms(2) s1] .
  note d1 = reclaim_delivers [OF c u1]
  have "delivers q st1 r st'"
  proof (cases r1)
    case None
    then have "delivers q st2 r st'" using rest read_new_delivers d1 by (simp add: delivers_def)
    with delivers_trans d1 None show ?thesis by blast
  qed (use rest d1 in simp)
  with delivers_same [OF assms(2) s1] show ?thesis by blast
qed

lemma handedE:
  assumes "handed q m st"
  obtains i t flds where "split_handle (qm_handle m) = (i, t)" "i \<noteq> []" "t \<noteq> []"
    "token_of codec (cell (rs2_server st) (rz_delivery_hash q) i) = Some t"
    "(i, flds) \<in> set (entries_at (rs2_server st) (rz_stream q))" "session_of flds = qm_session_id m"
    "attempt_of codec (cell (rs2_server st) (rz_delivery_hash q) i) flds = Inr (int (qm_attempt m))"
  using assms unfolding redis_handed_def by blast

lemma settle_deletes:
  assumes "handed q m st" "usable q st" "delivery_token_matches q (fst (split_handle (qm_handle m)))
      (snd (split_handle (qm_handle m))) st = (Inr b, st1)"
    "ack_and_delete q (fst (split_handle (qm_handle m))) st1 = (Inr (), st2)"
  shows "b" "usable q st2" "content q st = add_mset (qm_session_id m) (content q st2)"
    "bounded q st \<longrightarrow> bounded q st2 \<and> below_max q (qm_attempt m)" "rs2_closed st2 = rs2_closed st" "follow q st st2"
proof -
  obtain i t flds where h: "split_handle (qm_handle m) = (i, t)" "i \<noteq> []" "t \<noteq> []"
    "token_of codec (cell (rs2_server st) (rz_delivery_hash q) i) = Some t"
    "(i, flds) \<in> set (entries_at (rs2_server st) (rz_stream q))" "session_of flds = qm_session_id m"
    "attempt_of codec (cell (rs2_server st) (rz_delivery_hash q) i) flds = Inr (int (qm_attempt m))"
    using handedE [OF assms(1)] .
  note mf = matches_facts [OF assms(3,2), unfolded h(1) fst_conv snd_conv]
  show "b" using mf(2) h(2-4) by simp
  have u1: "usable q st1" using same_keeps(1) [OF assms(2) mf(1)] .
  have e1: "(i, flds) \<in> set (entries_at (rs2_server st1) (rz_stream q))" using h(5) mf(1) by (simp add: same_redis_def same_data_def)
  note af = ack_and_delete_facts [OF assms(4) u1, unfolded h(1) fst_conv]
  show "usable q st2" by (rule af(1))
  show "content q st = add_mset (qm_session_id m) (content q st2)"
    using af(4) [OF e1] same_keeps(2) [OF assms(2) mf(1)] h(6) by simp
  show "rs2_closed st2 = rs2_closed st" using af(5) mf(1) by (simp add: same_redis_def)
  show "follow q st st2" using follow_trans [OF same_follow [OF mf(1)] deleted_follow [OF assms(4) u1]] .
  have "below_max q (qm_attempt m)" if "bounded q st"
    using that h(5,7) unfolding attempts_bounded_def bounded_entries_def by force
  then show "bounded q st \<longrightarrow> bounded q st2 \<and> below_max q (qm_attempt m)"
    using deleted_bounded [OF assms(4) u1] same_bounded [OF mf(1)] by blast
qed

lemma ack_settled:
  assumes "redis_ack q m st = (Inr u, st')" "usable q st" "handed q m st"
  shows "usable q st'" "content q st = add_mset (qm_session_id m) (content q st')" "bounded q st \<longrightarrow> bounded q st'"
    "follow q st st'"
proof -
  obtain b st1 where t: "delivery_token_matches q (fst (split_handle (qm_handle m)))
      (snd (split_handle (qm_handle m))) st = (Inr b, st1)"
      and rest: "(if b then ack_and_delete q (fst (split_handle (qm_handle m))) else rq_return ()) st1 = (Inr u, st')"
    using assms(1) [unfolded redis_ack_def case_prod_beta rq_bind_Inr] by blast
  have "b" using matches_facts(2) [OF t assms(2)] handedE [OF assms(3)] by (metis fst_conv snd_conv)
  then have "ack_and_delete q (fst (split_handle (qm_handle m))) st1 = (Inr (), st')" using rest by simp
  from settle_deletes [OF assms(3,2) t this]
  show "usable q st'" "content q st = add_mset (qm_session_id m) (content q st')" "bounded q st \<longrightarrow> bounded q st'"
    "follow q st st'" by simp_all
qed

lemma add_entry_follow: "add_entry q k m st = (Inr i, st') \<Longrightarrow> usable q st \<Longrightarrow> follow q st st'"
  using added_follow [of q k "message_fields (rz_codec q) m" st _ st'] by (auto simp: add_entry_def rq_bind_Inr)

lemma requeue_facts:
  assumes "requeue_or_dead_letter q m reason h st = (Inr u, st')" "usable q st"
  shows "usable q st'" "content q st' = add_mset (qm_session_id m) (content q st)"
    "below_max q (qm_attempt m) \<Longrightarrow> bounded q st \<Longrightarrow> bounded q st'" "follow q st st'"
proof -
  define st1 where "st1 = st\<lparr>rs2_reads := rs2_reads st + 1\<rparr>"
  define m1 where "m1 = \<lparr>qm_session_id = qm_session_id m, qm_enqueued_at = rz_now q (rs2_reads st), qm_attempt = qm_attempt m + 1,
      qm_metadata = next_delivery_metadata m reason h (qm_attempt m + 1), qm_handle = []\<rparr>"
  have s: "same st st1" using assms(2) by (simp add: same_redis_def same_data_def usable_redis_def st1_def)
  note k = same_keeps [OF assms(2) s]
  have rest: "(if should_dead_letter_at q (qm_attempt m + 1) then send_dead_letter q m1 reason h (qm_attempt m + 1)
      else rq_bind (add_entry q (rz_stream q) m1) (\<lambda>_. rq_return ())) st1 = (Inr u, st')"
    using assms(1) by (auto simp: requeue_or_dead_letter_def rq_bind_Inr Let_def st1_def m1_def)
  have m1: "qm_session_id m1 = qm_session_id m" "qm_attempt m1 = qm_attempt m + 1" by (simp_all add: m1_def)
  have "usable q st' \<and> content q st' = add_mset (qm_session_id m) (content q st1) \<and>
    (below_max q (qm_attempt m) \<longrightarrow> bounded q st1 \<longrightarrow> bounded q st') \<and> follow q st1 st'"
  proof (cases "should_dead_letter_at q (qm_attempt m + 1)")
    case True
    then have d: "send_dead_letter q m1 reason h (qm_attempt m + 1) st1 = (Inr (), st')" using rest by simp
    have "follow q st1 st'"
      using d added_follow [of q "rz_dead q" _ st1 _ st', OF _ k(1) message_fields_facts(1)]
      by (auto simp: send_dead_letter_def rq_bind_Inr)
    with send_dead_letter_facts(1,2) [OF d k(1)] send_dead_letter_bounded [OF d k(1)] below_max_Suc [OF _ True] m1
    show ?thesis by auto
  next
    case False
    then obtain i where a: "add_entry q (rz_stream q) m1 st1 = (Inr i, st')" using rest by (auto simp: rq_bind_Inr)
    from add_entry_facts [OF a k(1)] add_entry_bounded [OF a k(1)] add_entry_follow [OF a k(1)] False m1
    show ?thesis by (simp add: below_max_iff)
  qed
  then show "usable q st'" "content q st' = add_mset (qm_session_id m) (content q st)"
    "below_max q (qm_attempt m) \<Longrightarrow> bounded q st \<Longrightarrow> bounded q st'" "follow q st st'"
    using k(2) same_bounded [OF s] follow_trans [OF same_follow [OF s]] by auto
qed

lemma nack_settled:
  assumes "redis_nack q m retry st = (Inr u, st')" "usable q st" "handed q m st"
  shows "usable q st'" "content q st = content q st' + (if retry then {#} else {#qm_session_id m#})"
    "bounded q st \<longrightarrow> bounded q st'" "follow q st st'"
proof -
  obtain b st1 where t: "delivery_token_matches q (fst (split_handle (qm_handle m)))
      (snd (split_handle (qm_handle m))) st = (Inr b, st1)"
      and rest: "(if \<not> b then rq_return () else rq_bind (ack_and_delete q (fst (split_handle (qm_handle m)))) (\<lambda>_ s.
          if retry \<and> \<not> rs2_closed s then requeue_or_dead_letter q m ''nack'' (qm_handle m) s else (Inr (), s))) st1 = (Inr u, st')"
    using assms(1) [unfolded redis_nack_def case_prod_beta rq_bind_Inr] by blast
  have "b" using matches_facts(2) [OF t assms(2)] handedE [OF assms(3)] by (metis fst_conv snd_conv)
  then obtain st2 where a: "ack_and_delete q (fst (split_handle (qm_handle m))) st1 = (Inr (), st2)"
      and r: "(if retry \<and> \<not> rs2_closed st2 then requeue_or_dead_letter q m ''nack'' (qm_handle m) st2 else (Inr (), st2)) = (Inr u, st')"
    using rest by (auto simp: rq_bind_Inr)
  note f = settle_deletes [OF assms(3,2) t a]
  have "\<not> rs2_closed st2" using f(5) assms(2) by (simp add: usable_redis_def)
  with r f requeue_facts [of q m "''nack''" "qm_handle m" st2 u st'] follow_trans [OF f(6), of st']
  show "usable q st'" "content q st = content q st' + (if retry then {#} else {#qm_session_id m#})"
    "bounded q st \<longrightarrow> bounded q st'" "follow q st st'"
    by (auto split: if_splits)
qed

lemma enqueue_adds:
  assumes "redis_enqueue q i md st = (Inr m, st')" "usable q st"
  shows "usable q st'" "content q st' = add_mset i (content q st)" "below_max q 0 \<Longrightarrow> bounded q st \<Longrightarrow> bounded q st'"
    "follow q st st'"
proof -
  obtain st1 e where g: "ensure_group q st = (Inr (), st1)"
      and a: "add_entry q (rz_stream q) \<lparr>qm_session_id = i, qm_enqueued_at = rz_now q (rs2_reads st1), qm_attempt = 0,
        qm_metadata = (case md of None \<Rightarrow> [] | Some d \<Rightarrow> d), qm_handle = []\<rparr> (st1\<lparr>rs2_reads := rs2_reads st1 + 1\<rparr>) = (Inr e, st')"
    using assms(1) by (auto simp: redis_enqueue_def rq_bind_Inr Let_def)
  have s: "same st (st1\<lparr>rs2_reads := rs2_reads st1 + 1\<rparr>)"
    using ensure_group_same [OF g assms(2)] by (simp add: same_redis_def same_data_def)
  note k = same_keeps [OF assms(2) s]
  from add_entry_facts [OF a k(1)] add_entry_bounded [OF a k(1)] k(2) same_bounded [OF s]
    follow_trans [OF same_follow [OF s] add_entry_follow [OF a k(1)]]
  show "usable q st'" "content q st' = add_mset i (content q st)" "below_max q 0 \<Longrightarrow> bounded q st \<Longrightarrow> bounded q st'"
    "follow q st st'" by simp_all
qed

text \<open>A settlement whose token is not the current one does nothing.\<close>

lemma stale_ignored:
  assumes "usable q st" "split_handle (qm_handle m) = (i, t)"
    "token_of codec (cell (rs2_server st) (rz_delivery_hash q) i) \<noteq> Some t"
  shows "redis_ack q m st = (Inr u, st') \<Longrightarrow> same st st'" "redis_nack q m retry st = (Inr u, st') \<Longrightarrow> same st st'"
proof -
  have "\<not> b" if "delivery_token_matches q i t st = (Inr b, st1)" for b st1
    using matches_facts(2) [OF that assms(1)] assms(3) by simp
  then show "redis_ack q m st = (Inr u, st') \<Longrightarrow> same st st'" "redis_nack q m retry st = (Inr u, st') \<Longrightarrow> same st st'"
    using matches_facts(1) [of q i t st _ st'] assms(1,2)
    by (auto simp: redis_ack_def redis_nack_def rq_bind_Inr split: if_splits)
qed

lemma redelivery_fences:
  assumes "redis_dequeue q t st = (Inr (Some m'), st')" "usable q st" "inj (rz_uuid q)"
    "drawn_handle q 0 (rs2_drawn st) m" "fst (split_handle (qm_handle m')) = fst (split_handle (qm_handle m))"
  shows "\<not> handed q m st'" "redis_ack q m st' = (Inr u, st'') \<Longrightarrow> same st' st''"
    "redis_nack q m retry st' = (Inr u, st'') \<Longrightarrow> same st' st''"
    "token_of codec (cell (rs2_server st') (rz_delivery_hash q) (fst (split_handle (qm_handle m)))) \<noteq>
      Some (snd (split_handle (qm_handle m)))"
proof -
  note d = dequeue_delivers [OF assms(1,2)]
  have u: "usable q st'" and h: "handed q m' st'" and dr: "drawn_handle q (rs2_drawn st) (rs2_drawn st') m'"
    using d by (simp_all add: delivers_def)
  have bar: "CHR ''|'' \<notin> set (''redis-'' @ rz_uuid q k)" for k using assms(2) by (simp add: usable_redis_def)
  obtain i k where k: "qm_handle m = join_handle i (''redis-'' @ rz_uuid q k)" "k < rs2_drawn st"
    using assms(4) by (auto simp: drawn_handle_def)
  obtain j l where l: "qm_handle m' = join_handle j (''redis-'' @ rz_uuid q l)" "rs2_drawn st \<le> l"
    using dr by (auto simp: drawn_handle_def)
  have ij: "split_handle (qm_handle m) = (i, ''redis-'' @ rz_uuid q k)" "split_handle (qm_handle m') = (j, ''redis-'' @ rz_uuid q l)"
    unfolding k(1) l(1) by (rule split_join_handle [OF bar])+
  have "j = i" using assms(5) ij by simp
  obtain a b where "split_handle (qm_handle m') = (a, b)" "token_of codec (cell (rs2_server st') (rz_delivery_hash q) a) = Some b"
    using handedE [OF h] by metis
  then have tok: "token_of codec (cell (rs2_server st') (rz_delivery_hash q) i) = Some (''redis-'' @ rz_uuid q l)"
    using ij(2) \<open>j = i\<close> by auto
  have "rz_uuid q k \<noteq> rz_uuid q l" using assms(3) k(2) l(2) by (metis injD not_le)
  then have stale: "token_of codec (cell (rs2_server st') (rz_delivery_hash q) i) \<noteq> Some (''redis-'' @ rz_uuid q k)"
    unfolding tok by simp
  show "\<not> handed q m st'" using stale ij(1) unfolding redis_handed_def by auto
  show "token_of codec (cell (rs2_server st') (rz_delivery_hash q) (fst (split_handle (qm_handle m)))) \<noteq>
      Some (snd (split_handle (qm_handle m)))"
    using stale ij(1) by simp
  show "redis_ack q m st' = (Inr u, st'') \<Longrightarrow> same st' st''" "redis_nack q m retry st' = (Inr u, st'') \<Longrightarrow> same st' st''"
    using stale_ignored [OF u ij(1) stale] by blast+
qed

lemma replay_one:
  assumes "replay_dead_letter q rst True md m st = (Inr r, st')" "usable q st"
    "(qm_handle m, flds) \<in> set (entries_at (rs2_server st) (rz_dead q))" "session_of flds = qm_session_id m"
  shows "usable q st'" "content q st' = content q st"
    "entries_at (rs2_server st') (rz_dead q) = filter (\<lambda>e. fst e \<noteq> qm_handle m) (entries_at (rs2_server st) (rz_dead q))"
    "follow q st st'" "rst \<Longrightarrow> below_max q 0 \<Longrightarrow> bounded q st \<Longrightarrow> bounded q st'"
proof -
  let ?m = "\<lambda>st1. \<lparr>qm_session_id = qm_session_id m, qm_enqueued_at = rz_now q (rs2_reads st1),
      qm_attempt = (if rst then 0 else qm_attempt m), qm_metadata = replay_metadata m (rz_dead q) rst md, qm_handle = []\<rparr>"
  have c: "rz_client q = client" "rz_dead q \<noteq> rz_stream q" using assms(2) by (simp_all add: usable_redis_def)
  obtain st1 v st2 u where g: "ensure_group q st = (Inr (), st1)"
      and a: "rq_send (rc_xadd (rz_client q) (rz_stream q) (message_fields (rz_codec q) (?m st1))) (st1\<lparr>rs2_reads := rs2_reads st1 + 1\<rparr>) = (Inr v, st2)"
      and x: "rq_send (rc_xdel client (rz_dead q) (qm_handle m)) st2 = (Inr u, st')"
    using assms(1) by (auto simp: replay_dead_letter_def add_entry_def rq_bind_Inr Let_def c)
  have s: "same st (st1\<lparr>rs2_reads := rs2_reads st1 + 1\<rparr>)"
    using ensure_group_same [OF g assms(2)] by (simp add: same_redis_def same_data_def)
  note k = same_keeps [OF assms(2) s]
  have v: "entries_at (rs2_server (st1\<lparr>rs2_reads := rs2_reads st1 + 1\<rparr>)) = entries_at (rs2_server st)"
      "cell (rs2_server (st1\<lparr>rs2_reads := rs2_reads st1 + 1\<rparr>)) = cell (rs2_server st)"
    using s unfolding same_redis_def same_data_def by blast+
  obtain i where i: "entries_at (rs2_server st2) = (entries_at (rs2_server st))(rz_stream q :=
        entries_at (rs2_server st) (rz_stream q) @ [(i, message_fields (rz_codec q) (?m st1))])" "usable q st2"
      "cell (rs2_server st2) = cell (rs2_server st)" "i \<notin> fst ` set (entries_at (rs2_server st) (rz_stream q))"
    by (rule xadd_facts [OF a k(1) message_fields_facts(1), unfolded v])
  have c2: "content q st2 = add_mset (qm_session_id m) (content q st)"
    using content_added [OF i(1) _ c(2)] by simp
  have u2: "sound (rs2_server st2)" using i(2) by (simp add: usable_redis_def)
  obtain server where d: "rc_xdel client (rz_dead q) (qm_handle m) (rs2_server st2) = (Inr u, server)" and st': "st' = st2\<lparr>rs2_server := server\<rparr>"
    using x by (auto simp: rq_send_Inr)
  note xd = xdel_deletes [OF u2 d]
  show "usable q st'" using i(2) xd by (auto simp: usable_redis_def st' distinct_map_filter)
  show dead: "entries_at (rs2_server st') (rz_dead q) = filter (\<lambda>e. fst e \<noteq> qm_handle m) (entries_at (rs2_server st) (rz_dead q))"
    using xd i(1) c(2) by (simp add: st')
  have "distinct (map fst (entries_at (rs2_server st) (rz_dead q)))" using assms(2) by (simp add: usable_redis_def)
  from sessions_without [OF this assms(3)] c2 xd i(1) c(2) assms(4)
  show "content q st' = content q st" by (simp add: redis_content_def st')
  have xf: "follow q st2 st'" using xd c(2) by (simp add: deliveries_follow_def st')
  show "follow q st st'"
    using follow_trans [OF follow_trans [OF same_follow [OF s] added_follow [OF a k(1) message_fields_facts(1)]] xf] .
  show "bounded q st'" if "rst" "below_max q 0" "bounded q st"
  proof -
    have f: "field_attempt (message_fields (rz_codec q) (?m st1)) = Inr (int 0)" by (simp add: that(1))
    from bounded_add [OF that(3) [unfolded attempts_bounded_def] i(4) f that(2)]
    have "bounded_entries codec q (cell (rs2_server st') (rz_delivery_hash q)) (entries_at (rs2_server st') (rz_stream q))
        (entries_at (rs2_server st) (rz_dead q))"
      using xd i(1,3) c(2) by (simp add: st')
    then show ?thesis unfolding attempts_bounded_def dead bounded_entries_def by simp
  qed
qed

lemma decode_all_facts:
  assumes "decode_all q es st = (Inr ms, st')" "usable q st"
    "list_all2 (\<lambda>e l. fst e = fst l \<and> same_fields codec (snd e) (snd l)) es ls"
  shows "same st st' \<and> list_all2 (\<lambda>m l. qm_handle m = fst l \<and> qm_session_id m = session_of (snd l)) ms ls"
  using assms
proof (induction es arbitrary: ls st ms)
  case Nil
  then show ?case by (simp add: same_redis_def same_data_def usable_redis_def)
next
  case (Cons e es)
  obtain i raw where e: "e = (i, raw)" by force
  obtain l ls' where l: "ls = l # ls'" "i = fst l" "same_fields codec raw (snd l)"
      "list_all2 (\<lambda>e l. fst e = fst l \<and> same_fields codec (snd e) (snd l)) es ls'"
    using Cons.prems(3) by (auto simp: e list_all2_Cons1)
  obtain m st1 ms' where d: "decode_message q i raw st = (Inr m, st1)" and r: "decode_all q es st1 = (Inr ms', st')" and ms: "ms = m # ms'"
    using Cons.prems(1) by (auto simp: e rq_bind_Inr)
  note df = decode_facts [OF d Cons.prems(2) l(3)]
  from Cons.IH [OF r same_keeps(1) [OF Cons.prems(2) df(1)] l(4)] df same_trans [OF df(1)] l(2)
  show ?case by (simp add: l(1) ms)
qed

lemma replay_each_facts:
  assumes "replay_each q True True md ms st = (Inr rs, st')" "usable q st" "distinct (map qm_handle ms)"
    "\<forall>m \<in> set ms. \<exists>flds. (qm_handle m, flds) \<in> set (entries_at (rs2_server st) (rz_dead q)) \<and> session_of flds = qm_session_id m"
  shows "usable q st' \<and> content q st' = content q st \<and> follow q st st' \<and> length rs = length ms \<and>
    (below_max q 0 \<longrightarrow> bounded q st \<longrightarrow> bounded q st') \<and>
    entries_at (rs2_server st') (rz_dead q) =
      filter (\<lambda>e. fst e \<notin> qm_handle ` set ms) (entries_at (rs2_server st) (rz_dead q))"
  using assms
proof (induction ms arbitrary: st rs)
  case Nil
  then show ?case by (simp add: deliveries_follow_def)
next
  case (Cons m ms)
  obtain r st1 rs' where o: "replay_dead_letter q True True md m st = (Inr r, st1)"
      and e: "replay_each q True True md ms st1 = (Inr rs', st')" and rs: "rs = r # rs'"
    using Cons.prems(1) by (auto simp: rq_bind_Inr)
  obtain flds where f: "(qm_handle m, flds) \<in> set (entries_at (rs2_server st) (rz_dead q))" "session_of flds = qm_session_id m"
    using Cons.prems(4) by auto
  note one = replay_one [OF o Cons.prems(2) f]
  have "\<forall>x \<in> set ms. \<exists>flds. (qm_handle x, flds) \<in> set (entries_at (rs2_server st1) (rz_dead q)) \<and> session_of flds = qm_session_id x"
  proof
    fix x assume x: "x \<in> set ms"
    then have "qm_handle x \<noteq> qm_handle m" using Cons.prems(3) by (metis distinct.simps(2) image_eqI list.simps(9) set_map)
    moreover obtain fl where "(qm_handle x, fl) \<in> set (entries_at (rs2_server st) (rz_dead q))" "session_of fl = qm_session_id x"
      using Cons.prems(4) x by auto
    ultimately show "\<exists>flds. (qm_handle x, flds) \<in> set (entries_at (rs2_server st1) (rz_dead q)) \<and> session_of flds = qm_session_id x"
      by (auto simp: one(3))
  qed
  from Cons.IH [OF e one(1) _ this] Cons.prems(3) one follow_trans [OF one(4)] show ?case
    by (simp add: rs conj_commute)
qed

lemma replay_facts:
  assumes "replay_dead_letters q n True True md st = (Inr rs, st')" "usable q st"
  shows "usable q st'" "content q st' = content q st" "follow q st st'" "below_max q 0 \<Longrightarrow> bounded q st \<Longrightarrow> bounded q st'"
    "entries_at (rs2_server st') (rz_dead q) = drop (nat n) (entries_at (rs2_server st) (rz_dead q))"
proof -
  let ?dead = "entries_at (rs2_server st) (rz_dead q)"
  have c: "rz_client q = client" "rz_codec q = codec" "sound (rs2_server st)" "distinct (map fst ?dead)"
    using assms(2) by (simp_all add: usable_redis_def)
  obtain v server es ms st1 where x: "rc_xrange client (rz_dead q) (Some n) (rs2_server st) = (Inr v, server)"
      and es: "stream_entries codec v = Inr es" and d: "decode_all q es (st\<lparr>rs2_server := server\<rparr>) = (Inr ms, st1)"
      and r: "replay_each q True True md ms st1 = (Inr rs, st')"
    using assms(1) [unfolded replay_dead_letters_def redis_dead_letters_def c] by (auto simp: rq_bind_Inr rq_send_Inr)
  note rq = range_quiet [OF c(3) x]
  have s0: "same st (st\<lparr>rs2_server := server\<rparr>)" using rq by (simp add: same_redis_def)
  have "list_all2 (\<lambda>e l. fst e = fst l \<and> same_fields codec (snd e) (snd l)) es (take (nat n) ?dead)" using rq es by simp
  from decode_all_facts [OF d same_keeps(1) [OF assms(2) s0] this]
  have s1: "same (st\<lparr>rs2_server := server\<rparr>) st1"
      and ms: "list_all2 (\<lambda>m l. qm_handle m = fst l \<and> qm_session_id m = session_of (snd l)) ms (take (nat n) ?dead)" by simp_all
  have s: "same st st1" using same_trans [OF s0 s1] .
  have dead: "entries_at (rs2_server st1) (rz_dead q) = ?dead" using s by (simp add: same_redis_def same_data_def)
  have hs: "map qm_handle ms = map fst (take (nat n) ?dead)"
    using ms by (auto simp: list_all2_conv_all_nth intro: nth_equalityI)
  have "distinct (map qm_handle ms)" unfolding hs using c(4) by (simp add: take_map [symmetric])
  moreover have "\<forall>m \<in> set ms. \<exists>flds. (qm_handle m, flds) \<in> set (entries_at (rs2_server st1) (rz_dead q)) \<and> session_of flds = qm_session_id m"
  proof
    fix m assume "m \<in> set ms"
    then obtain l where "l \<in> set (take (nat n) ?dead)" "qm_handle m = fst l" "qm_session_id m = session_of (snd l)"
      using list_all2_left [OF ms] by blast
    then show "\<exists>flds. (qm_handle m, flds) \<in> set (entries_at (rs2_server st1) (rz_dead q)) \<and> session_of flds = qm_session_id m"
      unfolding dead by (intro exI [of _ "snd l"]) (auto dest: in_set_takeD)
  qed
  ultimately have f: "usable q st' \<and> content q st' = content q st1 \<and> follow q st1 st' \<and> length rs = length ms \<and>
    (below_max q 0 \<longrightarrow> bounded q st1 \<longrightarrow> bounded q st') \<and>
    entries_at (rs2_server st') (rz_dead q) = filter (\<lambda>e. fst e \<notin> qm_handle ` set ms) ?dead"
    using replay_each_facts [OF r same_keeps(1) [OF assms(2) s]] by (simp add: dead)
  have "qm_handle ` set ms = fst ` set (take (nat n) ?dead)" using hs by (metis set_map)
  moreover have "filter (\<lambda>e. fst e \<notin> fst ` set (take (nat n) ?dead)) ?dead = drop (nat n) ?dead"
    using filter_after [of "take (nat n) ?dead" "drop (nat n) ?dead"] c(4) by simp
  ultimately show "entries_at (rs2_server st') (rz_dead q) = drop (nat n) ?dead" using f by simp
  show "usable q st'" "content q st' = content q st" "follow q st st'" "below_max q 0 \<Longrightarrow> bounded q st \<Longrightarrow> bounded q st'"
    using f same_keeps(2) [OF assms(2) s] follow_trans [OF same_follow [OF s]] same_bounded [OF s] by auto
qed

end

sublocale redis_streams \<subseteq> rw: worker_queue "redis_adapter q" "usable q" "content q" "handed q" for q
proof (unfold_locales, goal_cases)
  case (1 s t s')
  then show ?case using dequeue_delivers [of q t s None s']
    by (auto simp: redis_adapter_def rq_outcome_def delivers_def split: prod.splits sum.splits)
next
  case (2 s t m s')
  then show ?case using dequeue_delivers [of q t s "Some m" s']
    by (auto simp: redis_adapter_def rq_outcome_def delivers_def split: prod.splits sum.splits)
next
  case (3 s m s')
  then show ?case using ack_settled [of q m s _ s']
    by (auto simp: redis_adapter_def rq_outcome_def map_done_Done split: prod.splits sum.splits)
next
  case (4 s m s')
  then show ?case using nack_settled [of q m True s _ s']
    by (auto simp: redis_adapter_def rq_outcome_def map_done_Done split: prod.splits sum.splits)
next
  case (5 s m s')
  then show ?case using nack_settled [of q m False s _ s']
    by (auto simp: redis_adapter_def rq_outcome_def map_done_Done split: prod.splits sum.splits)
qed

section \<open>The server of the tests\<close>

definition fake_sound :: "fake_redis \<Rightarrow> bool" where
  "fake_sound r \<longleftrightarrow> (\<forall>k. \<forall>e \<in> set (stream_log r k).
     (\<exists>n \<le> fr_sequence r. fst e = entry_id_of n) \<and> distinct (map fst (snd e)))"

lemma stream_log_set [simp]: "stream_log (set_stream k es r) = (stream_log r)(k := es)"
  by (rule ext) (simp add: stream_log_def set_stream_def)

lemma stream_log_other [simp]:
  "stream_log (r\<lparr>fr_groups := g\<rparr>) = stream_log r" "stream_log (r\<lparr>fr_hashes := h\<rparr>) = stream_log r"
  "stream_log (r\<lparr>fr_sequence := n\<rparr>) = stream_log r"
  by (simp_all add: stream_log_def fun_eq_iff)

lemma hash_cell_other [simp]:
  "hash_cell (r\<lparr>fr_groups := g\<rparr>) = hash_cell r" "hash_cell (set_stream k es r) = hash_cell r"
  "hash_cell (r\<lparr>fr_sequence := n\<rparr>) = hash_cell r"
  by (simp_all add: hash_cell_def set_stream_def fun_eq_iff)

lemma fake_hashes [simp]:
  "fake_sound (r\<lparr>fr_hashes := d\<rparr>) = fake_sound r"
  "hash_cell (r\<lparr>fr_hashes := AList.update h x (fr_hashes r)\<rparr>) = (hash_cell r)(h := map_of x)"
  "map_of (hash_dict r h) = hash_cell r h"
  by (auto simp: fake_sound_def hash_cell_def hash_dict_def fun_eq_iff split: option.split)

lemma fake_sequence [simp]: "fr_sequence (set_stream k es r) = fr_sequence r"
  by (simp add: set_stream_def)

lemma text_fields_raw: "text_fields c (raw_of flds) acc = Inr (dict_merge acc flds)"
  by (induction flds arbitrary: acc) (auto simp: raw_of_def to_text_def dict_merge_def)

lemma same_fields_raw: "distinct (map fst flds) \<Longrightarrow> same_fields c (raw_of flds) flds"
  by (simp add: same_fields_def text_fields_raw merge_empty)

lemma entry_id_eq [simp]: "entry_id_of m = entry_id_of n \<longleftrightarrow> m = n" "entry_id_of n \<noteq> []"
  by (simp_all add: entry_id_of_def del: nat_digits.simps)

lemma entry_reply_read [simp]:
  "stream_entries c (RList [entry_reply i flds]) = Inr [(i, raw_of flds)]" "stream_entries c (RList []) = Inr []"
  by (simp_all add: stream_entries_def entry_reply_def to_text_def)

lemma entries_read: "stream_entries c (RList (map (\<lambda>(i, flds). entry_reply i flds) es)) = Inr (map (\<lambda>(i, flds). (i, raw_of flds)) es)"
proof -
  have "gather_entries c (map (\<lambda>(i, flds). entry_reply i flds) es) = Inr (map (\<lambda>(i, flds). (i, raw_of flds)) es)"
    by (induction es) (auto simp: entry_reply_def to_text_def)
  then show ?thesis by (simp add: stream_entries_def)
qed

lemma claim_first_claims:
  assumes "claim_first c now n es ids g = (v, g')" "claimed_entries codec v = Inr (e # rest)"
  shows "\<exists>flds. map_of es (fst e) = Some flds \<and> snd e = raw_of flds"
  using assms
proof (induction c now n es ids g rule: claim_first.induct)
  case (1 c now n es g)
  then show ?case by (auto simp: claimed_entries_def)
next
  case (2 c now n es i ids g)
  then show ?case
    by (auto simp: claimed_entries_def Let_def split: option.splits if_splits)
qed

lemma fake_entry:
  assumes "fake_sound r" "(i, flds) \<in> set (stream_log r k)"
  shows "entry_of c (stream_log r k) (i, raw_of flds)"
  using assms same_fields_raw [of flds c] by (force simp: entry_of_def fake_sound_def)

lemma with_group_Inr:
  "with_group k g f r = (Inr x, r') \<longleftrightarrow> (\<exists>g0 g1. map_of (fr_groups r) (k, g) = Some g0 \<and> f g0 = (x, g1) \<and>
     r' = r\<lparr>fr_groups := AList.update (k, g) g1 (fr_groups r)\<rparr>)"
  by (auto simp: with_group_def split: option.splits prod.splits)

lemma fake_groups_quiet:
  "fake_sound r \<Longrightarrow> same_data stream_log hash_cell fake_sound r (r\<lparr>fr_groups := g\<rparr>)"
  by (simp add: same_data_def fake_sound_def)

lemma fake_sound_set:
  assumes "fake_sound r" "\<And>e. e \<in> set es \<Longrightarrow> (\<exists>n \<le> fr_sequence r'. fst e = entry_id_of n) \<and> distinct (map fst (snd e))"
    "stream_log r' = (stream_log r)(k := es)" "fr_sequence r \<le> fr_sequence r'"
  shows "fake_sound r'"
  unfolding fake_sound_def assms(3)
proof (intro allI ballI)
  fix j e assume e: "e \<in> set (((stream_log r)(k := es)) j)"
  show "(\<exists>n \<le> fr_sequence r'. fst e = entry_id_of n) \<and> distinct (map fst (snd e))"
  proof (cases "j = k")
    case True
    then show ?thesis using assms(2) e by simp
  next
    case False
    then have "(\<exists>n \<le> fr_sequence r. fst e = entry_id_of n) \<and> distinct (map fst (snd e))"
      using assms(1) e by (simp add: fake_sound_def)
    then show ?thesis using assms(4) le_trans by blast
  qed
qed

interpretation fake: redis_streams fake_client codec stream_log hash_cell fake_sound for codec
proof (unfold_locales, goal_cases)
  case (1 s k g x s')
  then have "s' = s \<or> s' = (set_stream k (stream_log s k) s)\<lparr>fr_groups := fr_groups s'\<rparr>"
    by (auto simp: fake_client_def fake_xgroup_create_def split: if_splits)
  then show ?case
  proof
    assume s': "s' = (set_stream k (stream_log s k) s)\<lparr>fr_groups := fr_groups s'\<rparr>"
    have "stream_log s' = stream_log s" "hash_cell s' = hash_cell s" "fr_sequence s' = fr_sequence s" by (subst s', simp)+
    with 1(1) show ?case by (simp add: same_data_def fake_sound_def)
  qed (use 1(1) in \<open>simp add: same_data_def\<close>)
next
  case (2 s fs k v s')
  let ?i = "entry_id_of (fr_sequence s + 1)"
  have v: "v = RText ?i" and s': "s' = set_stream k (stream_log s k @ [(?i, fs)]) (s\<lparr>fr_sequence := fr_sequence s + 1\<rparr>)"
    using 2(3) by (simp_all add: fake_client_def fake_xadd_def Let_def merge_empty [OF 2(2)])
  have new: "?i \<notin> fst ` set (stream_log s k)" using 2(1) unfolding fake_sound_def by (force simp: entry_id_eq)
  have sound: "fake_sound s'"
  proof (rule fake_sound_set [OF 2(1)])
    show "stream_log s' = (stream_log s)(k := stream_log s k @ [(?i, fs)])" by (simp add: s')
    show "fr_sequence s \<le> fr_sequence s'" by (simp add: s')
    fix e assume "e \<in> set (stream_log s k @ [(?i, fs)])"
    then show "(\<exists>n \<le> fr_sequence s'. fst e = entry_id_of n) \<and> distinct (map fst (snd e))"
      using 2(1,2) le_SucI unfolding fake_sound_def s' by (auto, blast)
  qed
  show ?case using new sound by (intro exI [of _ ?i]) (simp add: v s' to_text_def)
next
  case (3 s g c k b v s')
  then obtain g0 g1 where g: "map_of (fr_groups s) (k, g) = Some g0" "read_next k c (fr_now_ms s) (stream_log s k) g0 = (v, g1)"
      "s' = s\<lparr>fr_groups := AList.update (k, g) g1 (fr_groups s)\<rparr>"
    by (auto simp: fake_client_def fake_xreadgroup_def with_group_Inr)
  have empty_reply: "first_stream_entry codec (RList []) = Inr None" by (simp add: first_stream_entry_def stream_response_def)
  have "entry_of codec (stream_log s k) e" if first: "first_stream_entry codec v = Inr (Some e)" for e
  proof -
    obtain p where f: "List.find (\<lambda>(i, flds). gr_last_sequence g0 < sequence_of i) (stream_log s k) = Some p"
    proof (cases "List.find (\<lambda>(i, flds). gr_last_sequence g0 < sequence_of i) (stream_log s k)")
      case None
      then have "v = RList []" using g(2) by (simp add: read_next_def)
      have False using first unfolding \<open>v = RList []\<close> empty_reply by simp
      then show ?thesis by blast
    qed
    obtain i flds where p: "p = (i, flds)" by force
    have "v = RList [RTuple [RText k, RList [entry_reply i flds]]]" using g(2) f p by (simp add: read_next_def)
    then have "e = (i, raw_of flds)" using first by (simp add: first_stream_entry_def stream_response_def to_text_def)
    with fake_entry [OF 3(1)] find_Some_in [OF f] p show ?thesis by simp
  qed
  with fake_groups_quiet [OF 3(1)] show ?case by (simp add: g(3))
next
  case (4 s k g c n v s')
  then obtain g0 g1 where g: "claim_first c (fr_now_ms s) n (stream_log s k) (sort_key sequence_of (map fst (gr_pending g0))) g0 = (v, g1)"
      "s' = s\<lparr>fr_groups := AList.update (k, g) g1 (fr_groups s)\<rparr>"
    by (auto simp: fake_client_def fake_xautoclaim_def with_group_Inr)
  have "entry_of codec (stream_log s k) e" if "claimed_entries codec v = Inr (e # es)" for e es
    using claim_first_claims [OF g(1) that] fake_entry [OF 4(1) map_of_SomeD] by (cases e) auto
  with fake_groups_quiet [OF 4(1)] show ?case by (simp add: g(2))
next
  case (5 s k g i u s')
  then show ?case using fake_groups_quiet by (auto simp: fake_client_def fake_xack_def with_group_Inr)
next
  case (6 s k n s')
  then show ?case by (auto simp: fake_client_def fake_xlen_def same_data_def)
next
  case (7 s k g v s')
  then show ?case using fake_groups_quiet by (auto simp: fake_client_def fake_xpending_def with_group_Inr)
next
  case (8 s k bnd v s')
  let ?es = "case bnd of None \<Rightarrow> stream_log s k | Some j \<Rightarrow> take (nat j) (stream_log s k)"
  have v: "v = RList (map (\<lambda>(i, flds). entry_reply i flds) ?es)" and s': "s' = s"
    using 8(2) by (auto simp: fake_client_def fake_xrange_def Let_def take_map split: option.splits)
  have "distinct (map fst (snd e))" if "e \<in> set ?es" for e
  proof -
    have "e \<in> set (stream_log s k)" using that by (auto split: option.splits dest: in_set_takeD)
    then show ?thesis using 8(1) by (auto simp: fake_sound_def)
  qed
  then have "list_all2 (\<lambda>e l. fst e = fst l \<and> same_fields codec (snd e) (snd l)) (map (\<lambda>(i, flds). (i, raw_of flds)) ?es) ?es"
    by (auto simp: list_all2_conv_all_nth case_prod_beta same_fields_raw)
  then show ?case using 8(1) by (simp add: v s' entries_read same_data_def)
next
  case (9 s k i u s')
  then have s': "s' = set_stream k (filter (\<lambda>(j, flds). j \<noteq> i) (stream_log s k)) s"
    by (simp add: fake_client_def fake_xdel_def)
  have f: "(\<lambda>(j, flds). j \<noteq> i) = (\<lambda>e. fst e \<noteq> i)" for i :: string by auto
  have "fake_sound s'"
    by (rule fake_sound_set [OF 9(1), of "filter (\<lambda>e. fst e \<noteq> i) (stream_log s k)" s' k])
       (use 9(1) in \<open>auto simp: s' f fake_sound_def\<close>)
  then show ?case by (simp add: s' f)
next
  case (10 s h i t u s')
  then have "s' = s\<lparr>fr_hashes := AList.update h (AList.update i t (hash_dict s h)) (fr_hashes s)\<rparr>"
    by (simp add: fake_client_def fake_hset_def)
  with 10(1) show ?case by simp
next
  case (11 s h i v s')
  then show ?case by (auto simp: fake_client_def fake_hget_def same_data_def to_text_def split: option.splits)
next
  case (12 s h i u s')
  show ?case
  proof (cases "map_of (fr_hashes s) h")
    case None
    then have "hash_cell s h = (\<lambda>_. None)" "s' = s" using 12(2) by (auto simp: hash_cell_def fake_client_def fake_hdel_def)
    moreover from this(1) have "(hash_cell s)(h := \<lambda>_. None) = hash_cell s" by (metis fun_upd_triv)
    ultimately show ?thesis using 12(1) by simp
  next
    case (Some d)
    then have "s' = s\<lparr>fr_hashes := AList.update h (AList.delete i (hash_dict s h)) (fr_hashes s)\<rparr>"
      using 12(2) by (simp add: fake_client_def fake_hdel_def)
    with 12(1) show ?thesis by (simp add: delete_conv')
  qed
qed

end
