(* ===== verification/Redis_Runs.thy ===== *)
theory Redis_Runs
  imports Redis_Facts
begin

text \<open>
  Several workers on one Redis stream: any interleaving of enqueueing, delivery, settlement and replay
  by any consumers, while time passes. A consumer settles only what was delivered to some
  consumer, but it may do so late, twice, or after the entry was delivered again.
\<close>

section \<open>Runs\<close>

record redis_pool =
  rp_state :: "fake_redis redis_state"
  rp_out :: "queue_message list"
  rp_in :: "string multiset"
  rp_settled :: "string multiset"

definition current_delivery :: "fake_redis redis_queue \<Rightarrow> queue_message \<Rightarrow> fake_redis redis_state \<Rightarrow> bool" where
  "current_delivery q m st \<longleftrightarrow> (case split_handle (qm_handle m) of (i, t) \<Rightarrow> i \<noteq> [] \<and> t \<noteq> [] \<and>
     token_of (rz_codec q) (hash_cell (rs2_server st) (rz_delivery_hash q) i) = Some t)"

definition settled_by :: "fake_redis redis_queue \<Rightarrow> queue_message \<Rightarrow> fake_redis redis_state \<Rightarrow> string multiset" where
  "settled_by q m st = (if current_delivery q m st then {#qm_session_id m#} else {#})"

inductive redis_step :: "fake_redis redis_queue \<Rightarrow> redis_pool \<Rightarrow> redis_pool \<Rightarrow> bool" for q where
  step_enqueue: "redis_enqueue (q\<lparr>rz_consumer := c\<rparr>) i md (rp_state p) = (Inr m, st) \<Longrightarrow>
    redis_step q p (p\<lparr>rp_state := st, rp_in := add_mset i (rp_in p)\<rparr>)"
| step_dequeue: "redis_dequeue (q\<lparr>rz_consumer := c\<rparr>) t (rp_state p) = (Inr (Some m), st) \<Longrightarrow>
    redis_step q p (p\<lparr>rp_state := st, rp_out := m # rp_out p\<rparr>)"
| step_idle: "redis_dequeue (q\<lparr>rz_consumer := c\<rparr>) t (rp_state p) = (Inr None, st) \<Longrightarrow>
    redis_step q p (p\<lparr>rp_state := st\<rparr>)"
| step_ack: "m \<in> set (rp_out p) \<Longrightarrow> redis_ack (q\<lparr>rz_consumer := c\<rparr>) m (rp_state p) = (Inr u, st) \<Longrightarrow>
    redis_step q p (p\<lparr>rp_state := st, rp_settled := rp_settled p + settled_by q m (rp_state p)\<rparr>)"
| step_retry: "m \<in> set (rp_out p) \<Longrightarrow> redis_nack (q\<lparr>rz_consumer := c\<rparr>) m True (rp_state p) = (Inr u, st) \<Longrightarrow>
    redis_step q p (p\<lparr>rp_state := st\<rparr>)"
| step_drop: "m \<in> set (rp_out p) \<Longrightarrow> redis_nack (q\<lparr>rz_consumer := c\<rparr>) m False (rp_state p) = (Inr u, st) \<Longrightarrow>
    redis_step q p (p\<lparr>rp_state := st, rp_settled := rp_settled p + settled_by q m (rp_state p)\<rparr>)"
| step_replay: "replay_dead_letters (q\<lparr>rz_consumer := c\<rparr>) n True True md (rp_state p) = (Inr ms, st) \<Longrightarrow>
    redis_step q p (p\<lparr>rp_state := st\<rparr>)"
| step_elapse: "redis_step q p (p\<lparr>rp_state := (rp_state p)\<lparr>rs2_server := redis_advance d (rs2_server (rp_state p))\<rparr>\<rparr>)"

inductive_cases redis_stepE: "redis_step q p p'"

section \<open>Consumers differ in their names only\<close>

lemma consumer_irrelevant [simp]:
  "usable_redis client codec e s (q\<lparr>rz_consumer := c\<rparr>) st = usable_redis client codec e s q st"
  "redis_content e (q\<lparr>rz_consumer := c\<rparr>) st = redis_content e q st"
  "redis_handed codec e cl (q\<lparr>rz_consumer := c\<rparr>) m st = redis_handed codec e cl q m st"
  "deliveries_follow codec e cl (q\<lparr>rz_consumer := c\<rparr>) st st' = deliveries_follow codec e cl q st st'"
  "attempts_bounded codec e cl (q\<lparr>rz_consumer := c\<rparr>) st = attempts_bounded codec e cl q st"
  "drawn_handle (q\<lparr>rz_consumer := c\<rparr>) a b m = drawn_handle q a b m"
  "below_max (q\<lparr>rz_consumer := c\<rparr>) n = below_max q n"
  by (simp_all add: usable_redis_def redis_content_def redis_handed_def deliveries_follow_def attempts_bounded_def
      bounded_entries_def drawn_handle_def below_max_def)

section \<open>Deliveries that are still honest\<close>

definition honest :: "fake_redis redis_queue \<Rightarrow> queue_message \<Rightarrow> fake_redis redis_state \<Rightarrow> bool" where
  "honest q m st \<longleftrightarrow> drawn_handle q 0 (rs2_drawn st) m \<and>
     (current_delivery q m st \<longrightarrow> redis_handed (rz_codec q) stream_log hash_cell q m st)"

abbreviation fake_usable :: "fake_redis redis_queue \<Rightarrow> fake_redis redis_state \<Rightarrow> bool" where
  "fake_usable q \<equiv> usable_redis fake_client (rz_codec q) stream_log fake_sound q"

abbreviation fake_follow :: "fake_redis redis_queue \<Rightarrow> fake_redis redis_state \<Rightarrow> fake_redis redis_state \<Rightarrow> bool" where
  "fake_follow q \<equiv> deliveries_follow (rz_codec q) stream_log hash_cell q"

abbreviation fake_bounded :: "fake_redis redis_queue \<Rightarrow> fake_redis redis_state \<Rightarrow> bool" where
  "fake_bounded q \<equiv> attempts_bounded (rz_codec q) stream_log hash_cell q"

lemma handed_current: "redis_handed (rz_codec q) stream_log hash_cell q m st \<Longrightarrow> current_delivery q m st"
  by (auto simp: redis_handed_def current_delivery_def)

lemma honest_follow:
  assumes "honest q m st" "fake_follow q st st'" "inj (rz_uuid q)" "fake_usable q st"
  shows "honest q m st'"
proof -
  obtain i k where k: "qm_handle m = join_handle i (''redis-'' @ rz_uuid q k)" "k < rs2_drawn st"
    using assms(1) by (auto simp: honest_def drawn_handle_def)
  have "CHR ''|'' \<notin> set (''redis-'' @ rz_uuid q k)" using assms(4) by (simp add: usable_redis_def)
  from split_join_handle [OF this] have sp: "split_handle (qm_handle m) = (i, ''redis-'' @ rz_uuid q k)" unfolding k(1) .
  let ?cell = "\<lambda>s. hash_cell (rs2_server s) (rz_delivery_hash q) i"
  have "redis_handed (rz_codec q) stream_log hash_cell q m st'" if c: "current_delivery q m st'"
  proof -
    have t: "token_of (rz_codec q) (?cell st') = Some (''redis-'' @ rz_uuid q k)" "i \<noteq> []"
      using c by (simp_all add: current_delivery_def sp)
    have "rz_uuid q k \<noteq> rz_uuid q l" if "rs2_drawn st \<le> l" for l
      using that k(2) assms(3) by (metis injD not_le)
    then have o: "?cell st' = ?cell st"
        "\<And>flds. (i, flds) \<in> set (stream_log (rs2_server st) (rz_stream q)) \<Longrightarrow> (i, flds) \<in> set (stream_log (rs2_server st') (rz_stream q))"
      using assms(2) t(1) unfolding deliveries_follow_def by (metis append_same_eq same_append_eq)+
    have "current_delivery q m st" using c by (simp add: current_delivery_def sp o(1))
    then have "redis_handed (rz_codec q) stream_log hash_cell q m st" using assms(1) by (simp add: honest_def)
    then show ?thesis using o unfolding redis_handed_def sp by auto
  qed
  moreover have "drawn_handle q 0 (rs2_drawn st') m"
  proof -
    have "k < rs2_drawn st'" using k(2) assms(2) unfolding deliveries_follow_def by linarith
    with k(1) show ?thesis unfolding drawn_handle_def by blast
  qed
  ultimately show ?thesis by (simp add: honest_def)
qed

section \<open>What a run keeps\<close>

definition pool_ok :: "fake_redis redis_queue \<Rightarrow> redis_pool \<Rightarrow> redis_pool \<Rightarrow> bool" where
  "pool_ok q p0 p \<longleftrightarrow> fake_usable q (rp_state p) \<and> fake_bounded q (rp_state p) \<and>
     redis_content stream_log q (rp_state p) + rp_settled p + rp_in p0 =
       redis_content stream_log q (rp_state p0) + rp_settled p0 + rp_in p \<and>
     (\<forall>m \<in> set (rp_out p). honest q m (rp_state p) \<and> below_max q (qm_attempt m))"

lemma books_chain:
  fixes c :: "'a multiset"
  assumes "c + s + i0 = c0 + s0 + i" "c' + s' + i = c + s + i'"
  shows "c' + s' + i0 = c0 + s0 + i'"
proof -
  have "c' + s' + i0 + i = (c' + s' + i) + i0" by (simp add: ac_simps)
  also have "\<dots> = (c + s + i0) + i'" unfolding assms(2) by (simp add: ac_simps)
  also have "\<dots> = c0 + s0 + i' + i" unfolding assms(1) by (simp add: ac_simps)
  finally show ?thesis by simp
qed

lemma pool_okI:
  assumes "pool_ok q p0 p" "inj (rz_uuid q)" "fake_usable q st" "fake_bounded q st" "fake_follow q (rp_state p) st"
    "\<forall>m \<in> set out. m \<in> set (rp_out p) \<or> honest q m st \<and> below_max q (qm_attempt m)"
    "redis_content stream_log q st + dn + rp_in p = redis_content stream_log q (rp_state p) + rp_settled p + ins"
  shows "pool_ok q p0 (p\<lparr>rp_state := st, rp_out := out, rp_in := ins, rp_settled := dn\<rparr>)"
proof -
  have "fake_usable q (rp_state p)" using assms(1) by (simp add: pool_ok_def)
  then have "\<forall>m \<in> set out. honest q m st \<and> below_max q (qm_attempt m)"
    using assms(1,6) honest_follow [OF _ assms(5,2)] by (auto simp: pool_ok_def)
  moreover have "redis_content stream_log q st + dn + rp_in p0 = redis_content stream_log q (rp_state p0) + rp_settled p0 + ins"
    by (rule books_chain [OF _ assms(7)]) (use assms(1) in \<open>simp add: pool_ok_def\<close>)
  ultimately show ?thesis using assms(3,4) by (simp add: pool_ok_def)
qed

lemma fake_quiet_follow: "same_redis stream_log hash_cell fake_sound st st' \<Longrightarrow> fake_follow q st st'"
  by (simp add: deliveries_follow_def same_redis_def same_data_def)

lemma not_current_stale:
  assumes "\<not> current_delivery q m st" "fake_usable q st"
  shows "redis_ack (q\<lparr>rz_consumer := c\<rparr>) m st = (Inr u, st') \<Longrightarrow> same_redis stream_log hash_cell fake_sound st st'"
    "redis_nack (q\<lparr>rz_consumer := c\<rparr>) m retry st = (Inr u, st') \<Longrightarrow> same_redis stream_log hash_cell fake_sound st st'"
proof -
  let ?q = "q\<lparr>rz_consumer := c\<rparr>"
  obtain i t where sp: "split_handle (qm_handle m) = (i, t)" by force
  have u: "fake_usable q st = usable_redis fake_client (rz_codec q) stream_log fake_sound ?q st" by simp
  have "\<not> b" "same_redis stream_log hash_cell fake_sound st st1"
    if "delivery_token_matches ?q i t st = (Inr b, st1)" for b st1
    using fake.matches_facts [OF that assms(2) [unfolded u]] assms(1) by (auto simp: current_delivery_def sp)
  then show "redis_ack ?q m st = (Inr u, st') \<Longrightarrow> same_redis stream_log hash_cell fake_sound st st'"
    "redis_nack ?q m retry st = (Inr u, st') \<Longrightarrow> same_redis stream_log hash_cell fake_sound st st'"
    by (auto simp: redis_ack_def redis_nack_def rq_bind_Inr sp split: if_splits)
qed

lemma fake_same_keeps:
  assumes "same_redis stream_log hash_cell fake_sound st st'"
  shows "fake_usable q st \<Longrightarrow> fake_usable q st'" "redis_content stream_log q st' = redis_content stream_log q st"
    "fake_bounded q st' = fake_bounded q st"
  using assms by (simp_all add: usable_redis_def same_redis_def same_data_def redis_content_def attempts_bounded_def)

lemma pool_step_ok:
  assumes "redis_step q p p'" "pool_ok q p0 p" "inj (rz_uuid q)" "below_max q 0"
  shows "pool_ok q p0 p'"
proof -
  have u: "fake_usable q (rp_state p)" and b: "fake_bounded q (rp_state p)"
      and out: "\<And>m. m \<in> set (rp_out p) \<Longrightarrow> honest q m (rp_state p)"
    using assms(2) by (auto simp: pool_ok_def)
  have u': "usable_redis fake_client (rz_codec q) stream_log fake_sound (q\<lparr>rz_consumer := c\<rparr>) (rp_state p)" for c
    using u by simp
  note okI = pool_okI [OF assms(2,3)]
  show ?thesis
    using assms(1)
  proof (cases rule: redis_step.cases)
    case (step_enqueue c i md m st)
    note f = fake.enqueue_adds [OF step_enqueue(2) u', simplified]
    show ?thesis unfolding step_enqueue(1)
      using okI [of st "rp_out p" "rp_settled p" "add_mset i (rp_in p)"] f b assms(4) by simp
  next
    case (step_dequeue c t m st)
    note d = fake.dequeue_delivers [OF step_dequeue(2) u', unfolded fake.delivers_def, simplified]
    have "drawn_handle q 0 (rs2_drawn st) m" using d unfolding drawn_handle_def by blast
    then have "honest q m st" using d by (simp add: honest_def)
    then show ?thesis unfolding step_dequeue(1)
      using okI [of st "m # rp_out p" "rp_settled p" "rp_in p"] d b by simp
  next
    case (step_idle c t st)
    note d = fake.dequeue_delivers [OF step_idle(2) u', unfolded fake.delivers_def, simplified]
    show ?thesis unfolding step_idle(1)
      using okI [of st "rp_out p" "rp_settled p" "rp_in p"] d b by simp
  next
    case (step_ack m c un st)
    show ?thesis
    proof (cases "current_delivery q m (rp_state p)")
      case True
      then have "redis_handed (rz_codec q) stream_log hash_cell q m (rp_state p)" using out [OF step_ack(2)] by (simp add: honest_def)
      then have "redis_handed (rz_codec q) stream_log hash_cell (q\<lparr>rz_consumer := c\<rparr>) m (rp_state p)" by simp
      note f = fake.ack_settled [OF step_ack(3) u' this, simplified]
      show ?thesis unfolding step_ack(1)
        using okI [of st "rp_out p" "rp_settled p + settled_by q m (rp_state p)" "rp_in p"] f b True by (simp add: settled_by_def)
    next
      case False
      note s = not_current_stale(1) [OF False u step_ack(3)]
      show ?thesis unfolding step_ack(1)
        using okI [of st "rp_out p" "rp_settled p + settled_by q m (rp_state p)" "rp_in p"] fake_same_keeps [OF s] fake_quiet_follow [OF s] u b False
        by (simp add: settled_by_def)
    qed
  next
    case (step_retry m c un st)
    show ?thesis
    proof (cases "current_delivery q m (rp_state p)")
      case True
      then have "redis_handed (rz_codec q) stream_log hash_cell q m (rp_state p)" using out [OF step_retry(2)] by (simp add: honest_def)
      then have "redis_handed (rz_codec q) stream_log hash_cell (q\<lparr>rz_consumer := c\<rparr>) m (rp_state p)" by simp
      note f = fake.nack_settled [OF step_retry(3) u' this, simplified]
      show ?thesis unfolding step_retry(1)
        using okI [of st "rp_out p" "rp_settled p" "rp_in p"] f b by simp
    next
      case False
      note s = not_current_stale(2) [OF False u step_retry(3)]
      show ?thesis unfolding step_retry(1)
        using okI [of st "rp_out p" "rp_settled p" "rp_in p"] fake_same_keeps [OF s] fake_quiet_follow [OF s] u b by simp
    qed
  next
    case (step_drop m c un st)
    show ?thesis
    proof (cases "current_delivery q m (rp_state p)")
      case True
      then have "redis_handed (rz_codec q) stream_log hash_cell q m (rp_state p)" using out [OF step_drop(2)] by (simp add: honest_def)
      then have "redis_handed (rz_codec q) stream_log hash_cell (q\<lparr>rz_consumer := c\<rparr>) m (rp_state p)" by simp
      note f = fake.nack_settled [OF step_drop(3) u' this, simplified]
      show ?thesis unfolding step_drop(1)
        using okI [of st "rp_out p" "rp_settled p + settled_by q m (rp_state p)" "rp_in p"] f b True by (simp add: settled_by_def)
    next
      case False
      note s = not_current_stale(2) [OF False u step_drop(3)]
      show ?thesis unfolding step_drop(1)
        using okI [of st "rp_out p" "rp_settled p + settled_by q m (rp_state p)" "rp_in p"] fake_same_keeps [OF s] fake_quiet_follow [OF s] u b False
        by (simp add: settled_by_def)
    qed
  next
    case (step_replay c n md ms st)
    note f = fake.replay_facts(1-4) [OF step_replay(2) u', simplified]
    show ?thesis unfolding step_replay(1)
      using okI [of st "rp_out p" "rp_settled p" "rp_in p"] f b assms(4) by simp
  next
    case (step_elapse d)
    let ?st = "(rp_state p)\<lparr>rs2_server := redis_advance d (rs2_server (rp_state p))\<rparr>"
    have "stream_log (redis_advance d r) = stream_log r" "hash_cell (redis_advance d r) = hash_cell r"
        "fake_sound (redis_advance d r) = fake_sound r" for r
      by (simp_all add: redis_advance_def fun_eq_iff stream_log_def hash_cell_def fake_sound_def)
    then have s: "same_redis stream_log hash_cell fake_sound (rp_state p) ?st"
      using u by (simp add: same_redis_def same_data_def usable_redis_def)
    show ?thesis unfolding step_elapse
      using okI [of ?st "rp_out p" "rp_settled p" "rp_in p"] fake_same_keeps [OF s] fake_quiet_follow [OF s] u b by simp
  qed
qed

theorem pool_run_ok:
  assumes "(redis_step q)\<^sup>*\<^sup>* p p'" "fake_usable q (rp_state p)" "fake_bounded q (rp_state p)" "rp_out p = []"
    "inj (rz_uuid q)" "below_max q 0"
  shows "pool_ok q p p'"
  using assms(1)
proof (induction rule: rtranclp_induct)
  case base
  show ?case using assms(2-4) by (simp add: pool_ok_def)
next
  case (step y z)
  then show ?case using pool_step_ok assms(5,6) by blast
qed

section \<open>A command that fails\<close>

text \<open>
  A refused delivery is deleted before it is queued again. When the command that queues it fails, the
  message is in neither stream.
\<close>

definition unwritable :: "redis_error \<Rightarrow> 'r redis_client \<Rightarrow> 'r redis_client" where
  "unwritable e c = c\<lparr>rc_xadd := (\<lambda>k flds r. (Inl e, r))\<rparr>"

lemma unwritable_state: "read_delivery_state (q\<lparr>rz_client := unwritable e (rz_client q)\<rparr>) = read_delivery_state q"
  by (intro ext) (simp add: read_delivery_state_def unwritable_def cong: redis_value.case_cong)

lemma unwritable_reads:
  "delivery_token_matches (q\<lparr>rz_client := unwritable e (rz_client q)\<rparr>) = delivery_token_matches q"
  "ack_and_delete (q\<lparr>rz_client := unwritable e (rz_client q)\<rparr>) = ack_and_delete q"
proof -
  show "delivery_token_matches (q\<lparr>rz_client := unwritable e (rz_client q)\<rparr>) = delivery_token_matches q"
    by (intro ext) (simp only: delivery_token_matches_def unwritable_state)
  show "ack_and_delete (q\<lparr>rz_client := unwritable e (rz_client q)\<rparr>) = ack_and_delete q"
    by (intro ext) (simp add: ack_and_delete_def unwritable_def)
qed

lemma fake_token_matches:
  assumes "fake_usable q st"
  shows "\<exists>b. delivery_token_matches q i t st = (Inr b, st)"
proof -
  have c: "rz_client q = fake_client" using assms by (simp add: usable_redis_def)
  have "rq_send (rc_hget (rz_client q) (rz_delivery_hash q) i) st =
      (Inr (case hash_cell (rs2_server st) (rz_delivery_hash q) i of None \<Rightarrow> RNil | Some v \<Rightarrow> RText v), st)"
    by (simp add: c fake_client_def fake_hget_def rq_send_def)
  then show ?thesis
    by (auto simp: delivery_token_matches_def read_delivery_state_def rq_bind_def rq_return_def rq_lift_def to_text_def
        split: option.split)
qed

lemma fake_deletes:
  assumes "fake_usable q st" "map_of (fr_groups (rs2_server st)) (rz_stream q, rz_group q) \<noteq> None"
  shows "\<exists>st'. ack_and_delete q i st = (Inr (), st')"
proof -
  have c: "rz_client q = fake_client" using assms(1) by (simp add: usable_redis_def)
  obtain r1 where "fake_xack (rz_stream q) (rz_group q) i (rs2_server st) = (Inr (), r1)"
    using assms(2) by (auto simp: fake_xack_def with_group_def)
  moreover obtain r2 where "fake_xdel (rz_stream q) i r1 = (Inr (), r2)" by (simp add: fake_xdel_def)
  moreover obtain r3 where "fake_hdel (rz_delivery_hash q) i r2 = (Inr (), r3)" by (cases "fake_hdel (rz_delivery_hash q) i r2") (auto simp: fake_hdel_def split: if_splits)
  ultimately show ?thesis by (auto simp: ack_and_delete_def rq_bind_Inr rq_send_Inr c fake_client_def)
qed

lemma failing_requeue_loses:
  assumes "fake_usable q st" "redis_handed (rz_codec q) stream_log hash_cell q m st"
    "map_of (fr_groups (rs2_server st)) (rz_stream q, rz_group q) \<noteq> None"
  shows "\<exists>st'. redis_nack (q\<lparr>rz_client := unwritable e fake_client\<rparr>) m True st = (Inl (re_exn e), st') \<and>
    redis_content stream_log q st = add_mset (qm_session_id m) (redis_content stream_log q st')"
proof -
  have c: "rz_client q = fake_client" using assms(1) by (simp add: usable_redis_def)
  obtain i t where sp: "split_handle (qm_handle m) = (i, t)" by force
  obtain b where b: "delivery_token_matches q i t st = (Inr b, st)" using fake_token_matches [OF assms(1)] by blast
  obtain st2 where a: "ack_and_delete q i st = (Inr (), st2)" using fake_deletes [OF assms(1,3)] by blast
  note f = fake.settle_deletes [OF assms(2,1), unfolded sp fst_conv snd_conv, OF b a]
  have closed: "\<not> rs2_closed st2" using f(5) assms(1) by (simp add: usable_redis_def)
  let ?q = "q\<lparr>rz_client := unwritable e fake_client\<rparr>"
  have r: "requeue_or_dead_letter ?q m reason h st2 = (Inl (re_exn e), st2\<lparr>rs2_reads := rs2_reads st2 + 1\<rparr>)" for reason h
    by (simp add: requeue_or_dead_letter_def send_dead_letter_def add_entry_def unwritable_def rq_bind_def rq_now_def
        rq_send_def Let_def)
  have "redis_nack ?q m True st = (Inl (re_exn e), st2\<lparr>rs2_reads := rs2_reads st2 + 1\<rparr>)"
    using unwritable_reads [where q = q and e = e] b a f(1) closed by (simp add: redis_nack_def sp c rq_bind_def r)
  moreover have "redis_content stream_log q (st2\<lparr>rs2_reads := rs2_reads st2 + 1\<rparr>) = redis_content stream_log q st2"
    by (simp add: redis_content_def)
  ultimately show ?thesis using f(3) by auto
qed

section \<open>A worker on Redis\<close>

lemma redis_worker_conserves:
  assumes "qh_queue host = redis_adapter q" "fake_usable q (wk_queue st)" "worker_loop host lm st = Some (Done res, st')"
  shows "redis_content stream_log q (wk_queue st') \<subseteq># redis_content stream_log q (wk_queue st)"
    "size (redis_content stream_log q (wk_queue st)) =
      size (redis_content stream_log q (wk_queue st')) + settled_count (wl_books res)"
  using fake.rw.worker_loop_conserves [OF assms] by simp_all

end
