(* ===== verification/Builtin_Tools.thy ===== *)
theory Builtin_Tools
  imports Tool_Registry Py_Paths Model_Routing
begin

text \<open>
  The tools that are shipped: \<^verbatim>\<open>tools/builtin.py\<close>, \<^verbatim>\<open>artifact_tools.py\<close>,
  \<^verbatim>\<open>process_tools.py\<close>, \<^verbatim>\<open>external_tools.py\<close>, \<^verbatim>\<open>time_tools.py\<close> and
  \<^verbatim>\<open>tool_utils.py\<close>. What a handler does to its surroundings is the list of its effects, latest
  last; what it sees of them is \<open>os_world\<close>, a function of the effects so far. A
  handler returns a result or raises; a fault is the text of an exception and the name of its class.
\<close>

section \<open>The surroundings\<close>

type_synonym fault = "string \<times> string"

datatype http_method = Http_GET | Http_POST pydict

datatype os_effect =
    Made_dirs py_path
  | Wrote_text py_path string
  | Wrote_bytes py_path string
  | Spawned "string list" py_path "(string \<times> string) list"
  | Requested http_method string "(string \<times> string) list"

datatype read_end = Read_text string | Read_not_utf8 | Read_raised fault

datatype http_fault = Http_status int string | Url_error string string | Http_other fault

text \<open>\<open>hp_declared\<close> is the header \<^verbatim>\<open>Content-Length\<close>, \<open>hp_body\<close> the bytes behind it.\<close>

record http_response =
  hp_declared :: "string option"
  hp_body :: string

text \<open>
  A process: what \<^verbatim>\<open>communicate\<close> gives within the timeout, else whether the process is still
  running and can be killed, what it gives within the time for cleaning up, and the exit code.
\<close>

record process_run =
  pr_in_time :: "(string \<times> string) option"
  pr_running :: bool
  pr_killable :: bool
  pr_cleanup :: "(string \<times> string) option"
  pr_code :: "int option"

record os_world =
  os_resolve :: "os_effect list \<Rightarrow> py_path \<Rightarrow> py_path"
  os_symlink :: "os_effect list \<Rightarrow> py_path \<Rightarrow> bool"
  os_exists :: "os_effect list \<Rightarrow> py_path \<Rightarrow> bool"
  os_is_file :: "os_effect list \<Rightarrow> py_path \<Rightarrow> bool"
  os_is_dir :: "os_effect list \<Rightarrow> py_path \<Rightarrow> bool"
  os_size :: "os_effect list \<Rightarrow> py_path \<Rightarrow> int"
  os_list :: "os_effect list \<Rightarrow> py_path \<Rightarrow> bool \<Rightarrow> py_path list"
  os_read :: "os_effect list \<Rightarrow> py_path \<Rightarrow> read_end"
  os_refuses :: "os_effect list \<Rightarrow> os_effect \<Rightarrow> fault option"
  os_answer :: "os_effect list \<Rightarrow> rat \<Rightarrow> http_fault + http_response"
  os_process :: "os_effect list \<Rightarrow> rat \<Rightarrow> process_run"
  os_now :: "os_effect list \<Rightarrow> time"
  os_dumps :: "json \<Rightarrow> string"
  os_loads :: "string \<Rightarrow> string + json"
  os_utf8 :: "string \<Rightarrow> fault + string"
  os_utf8_length :: "string \<Rightarrow> int"
  os_decode :: "string \<Rightarrow> string"
  os_urlencode :: "(string \<times> string) list \<Rightarrow> string"
  os_url_host :: "string \<Rightarrow> fault + string option"
  os_float :: "string \<Rightarrow> exn + rat"
  os_repr :: "json \<Rightarrow> string"
  os_seconds :: "os_effect list \<Rightarrow> rat"

type_synonym 'a tool_m = "os_effect list \<Rightarrow> (fault + 'a) \<times> os_effect list"

definition tm_return :: "'a \<Rightarrow> 'a tool_m" where
  "tm_return x h = (Inr x, h)"

definition tm_bind :: "'a tool_m \<Rightarrow> ('a \<Rightarrow> 'b tool_m) \<Rightarrow> 'b tool_m" where
  "tm_bind m f h = (case m h of (Inl e, h1) \<Rightarrow> (Inl e, h1) | (Inr x, h1) \<Rightarrow> f x h1)"

definition tm_see :: "(os_effect list \<Rightarrow> 'a) \<Rightarrow> 'a tool_m" where
  "tm_see f h = (Inr (f h), h)"

definition tm_lift :: "fault + 'a \<Rightarrow> 'a tool_m" where
  "tm_lift r h = (r, h)"

text \<open>An effect that is refused raises and leaves no trace.\<close>

definition tm_do :: "os_world \<Rightarrow> os_effect \<Rightarrow> unit tool_m" where
  "tm_do os e h = (case os_refuses os h e of Some fault \<Rightarrow> (Inl fault, h) | None \<Rightarrow> (Inr (), h @ [e]))"

definition fail_with :: "string \<Rightarrow> tool_execution_result tool_m" where
  "fail_with msg = tm_return (tool_fail msg [])"

definition live :: pydict where
  "live = [(''live'', JBool True)]"

section \<open>Shared helpers\<close>

definition outside_message :: string where
  "outside_message = ''artifact path must be relative and stay under artifact_root''"

definition symlink_message :: string where
  "symlink_message = ''artifact path must not contain symlink components''"

fun symlink_on_way :: "(py_path \<Rightarrow> bool) \<Rightarrow> py_path \<Rightarrow> string list \<Rightarrow> bool" where
  "symlink_on_way is_link current [] = False"
| "symlink_on_way is_link current (p # ps) =
     (let next = current\<lparr>pth_parts := pth_parts current @ [p]\<rparr> in is_link next \<or> symlink_on_way is_link next ps)"

text \<open>\<open>Inl\<close> is the text of the \<^verbatim>\<open>ValueError\<close>, which every caller catches.\<close>

definition safe_artifact_path :: "os_world \<Rightarrow> string \<Rightarrow> string \<Rightarrow> os_effect list \<Rightarrow> string + py_path" where
  "safe_artifact_path os artifact_root raw_path h =
     (let rel = make_path raw_path; base = os_resolve os h (make_path artifact_root) in
      if is_absolute rel \<or> ''..'' \<in> set (pth_parts rel) then Inl outside_message
      else if symlink_on_way (os_symlink os h) base (pth_parts rel) then Inl symlink_message
      else let target = os_resolve os h (path_join base rel) in
        if path_under base target then Inr target else Inl outside_message)"

definition artifact_relative_path :: "os_world \<Rightarrow> string \<Rightarrow> py_path \<Rightarrow> os_effect list \<Rightarrow> string + string" where
  "artifact_relative_path os artifact_root item h =
     (let base = os_resolve os h (make_path artifact_root); resolved = os_resolve os h item in
      if path_under base resolved
      then Inr (path_str \<lparr>pth_root = [], pth_parts = drop (length (pth_parts base)) (pth_parts resolved)\<rparr>)
      else Inl outside_message)"

definition py_text_or :: "(json \<Rightarrow> string) \<Rightarrow> json \<Rightarrow> string \<Rightarrow> string" where
  "py_text_or repr_of v fallback = (if json_truth v then py_str repr_of v else fallback)"

definition clamp :: "'a::linorder \<Rightarrow> 'a \<Rightarrow> 'a \<Rightarrow> 'a" where
  "clamp minimum maximum x = max minimum (min maximum x)"

text \<open>\<^verbatim>\<open>int(value)\<close> and \<^verbatim>\<open>float(value)\<close>; every failure of them is caught.\<close>

fun int_of_json :: "json \<Rightarrow> int option" where
  "int_of_json (JInt i) = Some i"
| "int_of_json (JBool b) = Some (if b then 1 else 0)"
| "int_of_json (JFloat r) = Some (if 0 \<le> r then \<lfloor>r\<rfloor> else \<lceil>r\<rceil>)"
| "int_of_json (JStr s) = (case parse_int (py_strip s) of Inl e \<Rightarrow> None | Inr i \<Rightarrow> Some i)"
| "int_of_json _ = None"

fun float_of_json :: "(string \<Rightarrow> exn + rat) \<Rightarrow> json \<Rightarrow> rat option" where
  "float_of_json parse (JInt i) = Some (of_int i)"
| "float_of_json parse (JBool b) = Some (if b then 1 else 0)"
| "float_of_json parse (JFloat r) = Some r"
| "float_of_json parse (JStr s) = (case parse s of Inl e \<Rightarrow> None | Inr r \<Rightarrow> Some r)"
| "float_of_json parse _ = None"

definition bounded_int :: "json \<Rightarrow> int \<Rightarrow> int \<Rightarrow> int \<Rightarrow> int" where
  "bounded_int v default_value minimum maximum =
     clamp minimum maximum (case int_of_json v of None \<Rightarrow> default_value | Some i \<Rightarrow> i)"

definition bounded_float :: "(string \<Rightarrow> exn + rat) \<Rightarrow> json \<Rightarrow> rat \<Rightarrow> rat \<Rightarrow> rat \<Rightarrow> rat" where
  "bounded_float parse v default_value minimum maximum =
     clamp minimum maximum (case float_of_json parse v of None \<Rightarrow> default_value | Some r \<Rightarrow> r)"

definition decode_limited :: "os_world \<Rightarrow> string \<Rightarrow> int \<Rightarrow> string" where
  "decode_limited os raw max_bytes = os_decode os (take (nat max_bytes) raw)"

definition tool_env :: "tool_context \<Rightarrow> string \<Rightarrow> string option" where
  "tool_env context key =
     (case map_of (cx_env context) key of
        None \<Rightarrow> None | Some v \<Rightarrow> if py_strip v = [] then None else Some (py_strip v))"

definition network_denial :: "os_world \<Rightarrow> tool_context \<Rightarrow> string \<Rightarrow> string \<Rightarrow> string option" where
  "network_denial os context tool_name host =
     (if \<not> cx_network_access context
      then Some (''tool '' @ os_repr os (JStr tool_name) @ '' requires network access'')
      else if cx_allowed_network_hosts context \<noteq> [] \<and> host \<notin> set (cx_allowed_network_hosts context)
      then Some (''tool '' @ os_repr os (JStr tool_name) @ '' cannot access network host '' @ os_repr os (JStr host))
      else None)"

definition too_large :: "string \<Rightarrow> string \<Rightarrow> int \<Rightarrow> http_fault" where
  "too_large url what max_bytes = Http_other
     (''response from '' @ url @ '' too large: '' @ what @ '' exceeds cap of '' @ py_str_int max_bytes @ '' bytes'',
      ''RuntimeError'')"

text \<open>The body is read up to one byte more than the cap.\<close>

definition read_capped :: "http_response \<Rightarrow> int \<Rightarrow> string \<Rightarrow> http_fault + string" where
  "read_capped response max_bytes url =
     (let declared = (case hp_declared response of
          None \<Rightarrow> None
        | Some text \<Rightarrow> Some (case parse_int (py_strip text) of Inl e \<Rightarrow> -1 | Inr n \<Rightarrow> n));
          payload = take (nat (max_bytes + 1)) (hp_body response) in
      case declared of
        Some n \<Rightarrow>
          if n > max_bytes then Inl (too_large url (''Content-Length '' @ py_str_int n) max_bytes)
          else if int (length payload) > max_bytes then Inl (too_large url ''body'' max_bytes)
          else Inr payload
      | None \<Rightarrow>
          if int (length payload) > max_bytes then Inl (too_large url ''body'' max_bytes) else Inr payload)"

text \<open>A request whose failure is caught: \<open>Inl\<close> of the value is what \<^verbatim>\<open>except\<close> sees.\<close>

definition http_bytes ::
    "os_world \<Rightarrow> http_method \<Rightarrow> string \<Rightarrow> (string \<times> string) list \<Rightarrow> rat \<Rightarrow> int \<Rightarrow> (http_fault + string) tool_m" where
  "http_bytes os method url headers timeout_seconds max_bytes h =
     (case os_refuses os h (Requested method url headers) of
        Some fault \<Rightarrow> (Inr (Inl (Http_other fault)), h)
      | None \<Rightarrow>
          let h1 = h @ [Requested method url headers] in
          (Inr (case os_answer os h1 timeout_seconds of
             Inl fault \<Rightarrow> Inl fault
           | Inr response \<Rightarrow> read_capped response max_bytes url), h1))"

definition parse_json_object :: "os_world \<Rightarrow> string \<Rightarrow> http_fault + pydict" where
  "parse_json_object os raw =
     (case os_utf8 os raw of
        Inl fault \<Rightarrow> Inl (Http_other fault)
      | Inr text \<Rightarrow>
          (case os_loads os text of
             Inl msg \<Rightarrow> Inl (Http_other (msg, ''JSONDecodeError''))
           | Inr (JObj d) \<Rightarrow> Inr d
           | Inr _ \<Rightarrow> Inl (Http_other (''tool HTTP response must be a JSON object'', ''RuntimeError''))))"

definition http_json ::
    "os_world \<Rightarrow> http_method \<Rightarrow> string \<Rightarrow> (string \<times> string) list \<Rightarrow> rat \<Rightarrow> int \<Rightarrow> (http_fault + pydict) tool_m" where
  "http_json os method url headers timeout_seconds max_bytes =
     tm_bind (http_bytes os method url headers timeout_seconds max_bytes) (\<lambda>r.
     tm_return (case r of Inl fault \<Rightarrow> Inl fault | Inr raw \<Rightarrow> parse_json_object os raw))"

definition http_tool_failure :: "string \<Rightarrow> http_fault \<Rightarrow> string \<Rightarrow> rat \<Rightarrow> tool_execution_result" where
  "http_tool_failure tool_name fault provider timeout_seconds =
     (let (reason, error_type, status) = (case fault of
          Http_status code error_type \<Rightarrow> (''HTTP '' @ py_str_int code, error_type, [(''status_code'', JInt code)])
        | Url_error reason error_type \<Rightarrow> (reason, error_type, [])
        | Http_other (text, error_type) \<Rightarrow> (if text = [] then error_type else text, error_type, [])) in
      tool_fail (tool_name @ '' live request failed: '' @ reason)
        ([(''provider'', JStr provider), (''live'', JBool True), (''timeout_seconds'', JFloat timeout_seconds),
          (''error_type'', JStr error_type)] @ status))"

section \<open>Artifacts\<close>

type_synonym tool_handler = "pydict \<Rightarrow> tool_context \<Rightarrow> tool_execution_result tool_m"

definition path_argument :: "os_world \<Rightarrow> pydict \<Rightarrow> string" where
  "path_argument os args = py_strip (py_text_or (os_repr os) (dict_get args ''path'') [])"

definition at_artifact ::
    "os_world \<Rightarrow> tool_context \<Rightarrow> string \<Rightarrow> (py_path \<Rightarrow> tool_execution_result tool_m) \<Rightarrow> tool_execution_result tool_m" where
  "at_artifact os context raw_path f =
     tm_bind (tm_see (safe_artifact_path os (cx_artifact_root context) raw_path)) (\<lambda>r.
       case r of Inl msg \<Rightarrow> fail_with msg | Inr target \<Rightarrow> f target)"

definition write_at :: "os_world \<Rightarrow> py_path \<Rightarrow> string \<Rightarrow> unit tool_m" where
  "write_at os target text =
     tm_bind (tm_do os (Made_dirs (path_parent target))) (\<lambda>_. tm_do os (Wrote_text target text))"

definition write_json_artifact :: "os_world \<Rightarrow> tool_handler" where
  "write_json_artifact os args context =
     (let raw_path = path_argument os args in
      if raw_path = [] then fail_with ''path is required''
      else case dict_get args ''data'' of
        JObj d \<Rightarrow> at_artifact os context raw_path (\<lambda>target.
          tm_bind (write_at os target (os_dumps os (JObj d))) (\<lambda>_.
          tm_return (tool_ok (JObj [(''path'', JStr (path_str target))]) live)))
      | _ \<Rightarrow> fail_with ''data must be an object'')"

definition missing_artifact :: "os_world \<Rightarrow> string \<Rightarrow> string \<Rightarrow> tool_execution_result tool_m" where
  "missing_artifact os raw_path what = fail_with (''artifact '' @ os_repr os (JStr raw_path) @ what)"

definition read_json_artifact :: "os_world \<Rightarrow> tool_handler" where
  "read_json_artifact os args context =
     (let raw_path = path_argument os args in
      if raw_path = [] then fail_with ''path is required''
      else at_artifact os context raw_path (\<lambda>target.
        tm_bind (tm_see (\<lambda>h. os_exists os h target)) (\<lambda>there.
        if \<not> there then missing_artifact os raw_path '' does not exist''
        else tm_bind (tm_see (\<lambda>h. os_read os h target)) (\<lambda>r.
          case r of
            Read_raised fault \<Rightarrow> tm_lift (Inl fault)
          | Read_not_utf8 \<Rightarrow> tm_lift (Inl ([], ''UnicodeDecodeError''))
          | Read_text text \<Rightarrow>
              (case os_loads os text of
                 Inl msg \<Rightarrow> missing_artifact os raw_path ('' is not valid JSON: '' @ msg)
               | Inr data \<Rightarrow> tm_return (tool_ok (JObj [(''path'', JStr (path_str target)), (''data'', data)]) live))))))"

definition artifact_exists :: "os_world \<Rightarrow> tool_handler" where
  "artifact_exists os args context =
     (let raw_path = path_argument os args in
      if raw_path = [] then fail_with ''path is required''
      else at_artifact os context raw_path (\<lambda>target.
        tm_see (\<lambda>h.
          let kind = (if os_is_file os h target then ''file'' else if os_is_dir os h target then ''directory'' else ''missing'')
          in tool_ok (JObj [(''path'', JStr (path_str target)), (''exists'', JBool (os_exists os h target)),
               (''kind'', JStr kind)]) live)))"

definition item_of :: "os_world \<Rightarrow> string \<Rightarrow> py_path \<Rightarrow> os_effect list \<Rightarrow> string + json" where
  "item_of os artifact_root item h =
     (if os_symlink os h item then Inl symlink_message
      else case artifact_relative_path os artifact_root item h of
        Inl msg \<Rightarrow> Inl msg
      | Inr rel \<Rightarrow> Inr (JObj
          [(''path'', JStr rel), (''kind'', JStr (if os_is_dir os h item then ''directory'' else ''file'')),
           (''bytes'', if os_is_file os h item then JInt (os_size os h item) else JNull)]))"

fun items_of :: "os_world \<Rightarrow> string \<Rightarrow> py_path list \<Rightarrow> os_effect list \<Rightarrow> string + json list" where
  "items_of os artifact_root [] h = Inr []"
| "items_of os artifact_root (p # ps) h =
     (case item_of os artifact_root p h of
        Inl msg \<Rightarrow> Inl msg
      | Inr item \<Rightarrow> (case items_of os artifact_root ps h of Inl msg \<Rightarrow> Inl msg | Inr items \<Rightarrow> Inr (item # items)))"

definition list_artifacts :: "os_world \<Rightarrow> tool_handler" where
  "list_artifacts os args context =
     (let given = py_strip (py_text_or (os_repr os) (dict_get args ''path'') ''.'');
          raw_path = (if given = [] then ''.'' else given);
          recursive = json_truth (dict_get args ''recursive'');
          max_items = bounded_int (dict_get args ''max_items'') 50 1 500 in
      at_artifact os context raw_path (\<lambda>base.
        tm_see (\<lambda>h.
          if \<not> os_exists os h base
          then tool_fail (''artifact directory '' @ os_repr os (JStr raw_path) @ '' does not exist'') []
          else if \<not> os_is_dir os h base
          then tool_fail (''artifact path '' @ os_repr os (JStr raw_path) @ '' is not a directory'') []
          else
            let entries = sort_key path_str (os_list os h base recursive) in
            case items_of os (cx_artifact_root context) (take (nat max_items) entries) h of
              Inl msg \<Rightarrow> tool_fail msg []
            | Inr items \<Rightarrow> tool_ok (JObj
                [(''path'', JStr (path_str base)), (''items'', JList items), (''recursive'', JBool recursive),
                 (''truncated'', JBool (int (length entries) > max_items))]) live)))"

definition write_text_artifact :: "os_world \<Rightarrow> tool_handler" where
  "write_text_artifact os args context =
     (let raw_path = path_argument os args in
      if raw_path = [] then fail_with ''path is required''
      else case dict_get args ''content'' of
        JStr content \<Rightarrow> at_artifact os context raw_path (\<lambda>target.
          tm_bind (write_at os target content) (\<lambda>_.
          tm_return (tool_ok (JObj [(''path'', JStr (path_str target)),
            (''bytes'', JInt (os_utf8_length os content))]) live)))
      | _ \<Rightarrow> fail_with ''content must be a string'')"

definition read_text_artifact :: "os_world \<Rightarrow> tool_handler" where
  "read_text_artifact os args context =
     (let raw_path = path_argument os args in
      if raw_path = [] then fail_with ''path is required''
      else at_artifact os context raw_path (\<lambda>target h.
        if \<not> os_exists os h target then missing_artifact os raw_path '' does not exist'' h
        else if \<not> os_is_file os h target then missing_artifact os raw_path '' is not a file'' h
        else case os_read os h target of
          Read_raised fault \<Rightarrow> (Inl fault, h)
        | Read_not_utf8 \<Rightarrow> missing_artifact os raw_path '' is not valid UTF-8 text'' h
        | Read_text content \<Rightarrow> (Inr (tool_ok (JObj [(''path'', JStr (path_str target)),
            (''content'', JStr content), (''bytes'', JInt (os_utf8_length os content))]) live), h)))"

section \<open>Time\<close>

text \<open>\<open>os_now\<close> is the time with its microseconds cut off, as the text of \<^verbatim>\<open>isoformat\<close> ends in an offset.\<close>

definition time_now :: "os_world \<Rightarrow> tool_handler" where
  "time_now os args context =
     (if args \<noteq> [] then fail_with ''time.now does not accept arguments''
      else tm_see (\<lambda>h. tool_ok (JObj
        [(''timestamp'', JStr (takeWhile (\<lambda>c. c \<noteq> CHR ''+'') (py_isoformat (os_now os h)) @ ''Z'')),
         (''timezone'', JStr ''UTC'')]) live))"

section \<open>Processes\<close>

definition process_cleanup_seconds :: rat where
  "process_cleanup_seconds = 2"

text \<open>Whether a prefix of the policy is a prefix of the arguments; an empty prefix never is.\<close>

definition prefix_allows :: "string list \<Rightarrow> string list \<Rightarrow> bool" where
  "prefix_allows argv prefix \<longleftrightarrow>
     prefix \<noteq> [] \<and> hd prefix = hd argv \<and> length prefix \<le> length argv \<and> take (length prefix) argv = prefix"

definition argv_prefix_denial :: "os_world \<Rightarrow> string list \<Rightarrow> tool_context \<Rightarrow> tool_execution_result option" where
  "argv_prefix_denial os argv context =
     (let prefixes = cx_allowed_process_argv_prefixes context in
      if prefixes = [] \<or> list_ex (prefix_allows argv) prefixes then None
      else Some (tool_fail
        (''process argv for command '' @ os_repr os (JStr (hd argv)) @ '' is not allowed by argv prefix policy'')
        [(''policy_denied'', JBool True), (''sandbox_policy'', JStr ''argv_prefix''), (''command'', JStr (hd argv)),
         (''allowed_prefix_count'', JInt (int (length prefixes))), (''argv_length'', JInt (int (length argv)))]))"

definition process_timeout :: "os_world \<Rightarrow> json \<Rightarrow> tool_context \<Rightarrow> rat" where
  "process_timeout os v context =
     (let default_value = (case cx_tool_timeout_seconds context of
          None \<Rightarrow> 30 | Some t \<Rightarrow> if t = 0 then 30 else t) in
      bounded_float (os_float os) v default_value (1 / 10) 600)"

definition process_run_success ::
    "os_world \<Rightarrow> string list \<Rightarrow> py_path \<Rightarrow> int option \<Rightarrow> string \<times> string \<Rightarrow> int \<Rightarrow> rat \<Rightarrow> tool_execution_result" where
  "process_run_success os argv cwd code output max_bytes timeout_seconds =
     tool_ok (JObj
       [(''argv'', json_strs argv), (''cwd'', JStr (path_str cwd)),
        (''exit_code'', case code of None \<Rightarrow> JNull | Some c \<Rightarrow> JInt c),
        (''stdout'', JStr (decode_limited os (fst output) max_bytes)),
        (''stderr'', JStr (decode_limited os (snd output) max_bytes)),
        (''stdout_truncated'', JBool (int (length (fst output)) > max_bytes)),
        (''stderr_truncated'', JBool (int (length (snd output)) > max_bytes))])
       [(''command'', JStr (hd argv)), (''timeout_seconds'', JFloat timeout_seconds)]"

text \<open>
  What is waited for: the output within the timeout; else the process is killed if it still runs
  and its output is collected for a further two seconds. A process that had ended by itself and
  whose output came in that time is a success.
\<close>

definition process_outcome ::
    "os_world \<Rightarrow> string list \<Rightarrow> py_path \<Rightarrow> int \<Rightarrow> rat \<Rightarrow> process_run \<Rightarrow> tool_execution_result" where
  "process_outcome os argv cwd max_bytes timeout_seconds run =
     (case pr_in_time run of
        Some output \<Rightarrow> process_run_success os argv cwd (pr_code run) output max_bytes timeout_seconds
      | None \<Rightarrow>
          let killed = (pr_running run \<and> pr_killable run);
              timed_out = tool_fail (''process command '' @ os_repr os (JStr (hd argv)) @ '' timed out'')
                ([(''command'', JStr (hd argv)), (''error_type'', JStr ''TimeoutError''),
                  (''timeout_seconds'', JFloat timeout_seconds)] @
                 (if pr_cleanup run = None then [(''cleanup_timeout_seconds'', JFloat process_cleanup_seconds)] else []))
          in case pr_cleanup run of
               None \<Rightarrow> timed_out
             | Some output \<Rightarrow>
                 if killed then timed_out
                 else process_run_success os argv cwd (pr_code run) output max_bytes timeout_seconds)"

definition spawn_in :: "os_world \<Rightarrow> pydict \<Rightarrow> tool_context \<Rightarrow> string list \<Rightarrow> py_path \<Rightarrow> tool_execution_result tool_m" where
  "spawn_in os args context argv cwd =
     (let timeout_seconds = process_timeout os (dict_get args ''timeout_seconds'') context;
          max_bytes = bounded_int (dict_get args ''max_output_bytes'') 8192 1 65536 in
      tm_bind (tm_do os (Spawned argv cwd (cx_env context))) (\<lambda>_.
      tm_see (\<lambda>h. process_outcome os argv cwd max_bytes timeout_seconds (os_process os h timeout_seconds))))"

definition run_process :: "os_world \<Rightarrow> tool_handler" where
  "run_process os args context =
     (case dict_get args ''argv'' of
        JList (v # vs) \<Rightarrow>
          let argv = map (py_str (os_repr os)) (v # vs); command = hd argv in
          if [] \<in> set argv then fail_with ''argv entries must not be empty''
          else if command \<notin> set (cx_allowed_process_commands context)
          then tm_return (tool_fail (''process command '' @ os_repr os (JStr command) @ '' is not allowed'')
            [(''policy_denied'', JBool True), (''sandbox_policy'', JStr ''command_allowlist''),
             (''command'', JStr command)])
          else (case argv_prefix_denial os argv context of
            Some denial \<Rightarrow> tm_return denial
          | None \<Rightarrow>
              let given = py_strip (py_text_or (os_repr os) (dict_get args ''cwd'') ''.'');
                  raw_cwd = (if given = [] then ''.'' else given) in
              at_artifact os context raw_cwd (\<lambda>cwd.
              tm_bind (if raw_cwd = ''.'' then tm_do os (Made_dirs cwd) else tm_return ()) (\<lambda>_ h.
              if \<not> os_exists os h cwd
              then fail_with (''process cwd '' @ os_repr os (JStr raw_cwd) @ '' does not exist'') h
              else if \<not> os_is_dir os h cwd
              then fail_with (''process cwd '' @ os_repr os (JStr raw_cwd) @ '' is not a directory'') h
              else spawn_in os args context argv cwd h)))
      | _ \<Rightarrow> fail_with ''argv must be a non-empty string array'')"

section \<open>External services\<close>

definition brave_host :: string where
  "brave_host = ''api.search.brave.com''"

definition doubao_host :: string where
  "doubao_host = ''ark.cn-beijing.volces.com''"

definition doubao_asset_host :: string where
  "doubao_asset_host = ''ark-acg-cn-beijing.tos-cn-beijing.volces.com''"

definition doubao_url :: string where
  "doubao_url = ''https://ark.cn-beijing.volces.com/api/v3/images/generations''"

definition source_or :: "(string \<times> string) list \<Rightarrow> string \<Rightarrow> string \<Rightarrow> string" where
  "source_or source key fallback =
     (case map_of source key of None \<Rightarrow> fallback | Some v \<Rightarrow> if v = [] then fallback else v)"

definition default_external_tool_hosts :: "os_world \<Rightarrow> (string \<times> string) list \<Rightarrow> fault + string list" where
  "default_external_tool_hosts os source =
     (case os_url_host os (source_or source ''DOUBAO_IMAGE_API_URL'' doubao_url) of
        Inl fault \<Rightarrow> Inl fault
      | Inr host \<Rightarrow> Inr (sort (remdups
          [brave_host, (case host of None \<Rightarrow> doubao_host | Some h \<Rightarrow> if h = [] then doubao_host else h),
           source_or source ''DOUBAO_IMAGE_ASSET_HOST'' doubao_asset_host])))"

definition env_json :: "tool_context \<Rightarrow> string \<Rightarrow> json" where
  "env_json context key = (case tool_env context key of None \<Rightarrow> JNull | Some v \<Rightarrow> JStr v)"

definition provider_metadata :: "string \<Rightarrow> bool \<Rightarrow> pydict" where
  "provider_metadata provider is_live = [(''provider'', JStr provider), (''live'', JBool is_live)]"

definition search_item :: "json \<Rightarrow> json list" where
  "search_item v = (case v of
     JObj d \<Rightarrow> [JObj [(''title'', dict_get d ''title''), (''url'', dict_get d ''url''),
       (''description'', dict_get d ''description'')]]
   | _ \<Rightarrow> [])"

definition search_results :: "pydict \<Rightarrow> json list" where
  "search_results raw = (case dict_get raw ''web'' of
     JObj web \<Rightarrow> (case dict_get web ''results'' of JList results \<Rightarrow> results | _ \<Rightarrow> []) | _ \<Rightarrow> [])"

definition search_web :: "os_world \<Rightarrow> tool_handler" where
  "search_web os args context =
     (let query = py_strip (py_text_or (os_repr os) (dict_get args ''query'') []);
          wanted = bounded_int (dict_get args ''count'') 5 1 10;
          timeout_seconds = bounded_float (os_float os) (env_json context ''BRAVE_SEARCH_TIMEOUT_SECONDS'') 30 1 300;
          url = ''https://'' @ brave_host @ ''/res/v1/web/search?'' @
            os_urlencode os [(''q'', query), (''count'', py_str_int wanted)] in
      if query = [] then fail_with ''query is required''
      else if cx_dry_run context
      then tm_return (tool_ok (JObj [(''query'', JStr query), (''items'', JList []), (''mode'', JStr ''dry_run''),
        (''reason'', JStr ''dry_run'')]) (provider_metadata ''brave'' False))
      else case tool_env context ''BRAVE_SEARCH_API_KEY'' of
        None \<Rightarrow> tm_return (tool_fail ''BRAVE_SEARCH_API_KEY is required for live search.web'' (provider_metadata ''brave'' False))
      | Some api_key \<Rightarrow>
          (case network_denial os context ''search.web'' brave_host of
             Some denial \<Rightarrow> tm_return (tool_fail denial (provider_metadata ''brave'' False @ [(''policy_denied'', JBool True)]))
           | None \<Rightarrow>
               tm_bind (http_json os Http_GET url [(''X-Subscription-Token'', api_key), (''Accept'', ''application/json'')]
                 timeout_seconds (cx_max_http_response_bytes context)) (\<lambda>r.
               tm_return (case r of
                 Inl fault \<Rightarrow> http_tool_failure ''search.web'' fault ''brave'' timeout_seconds
               | Inr raw \<Rightarrow> tool_ok (JObj [(''query'', JStr query),
                   (''items'', JList (concat (map search_item (take (nat wanted) (search_results raw))))),
                   (''mode'', JStr ''live'')]) (provider_metadata ''brave'' True)))))"

definition stripped_url :: "json \<Rightarrow> string option" where
  "stripped_url v = (case v of JStr s \<Rightarrow> if py_strip s = [] then None else Some (py_strip s) | _ \<Rightarrow> None)"

fun first_url :: "json list \<Rightarrow> string option" where
  "first_url [] = None"
| "first_url (JObj d # vs) = (case stripped_url (dict_get d ''url'') of Some url \<Rightarrow> Some url | None \<Rightarrow> first_url vs)"
| "first_url (_ # vs) = first_url vs"

definition extract_image_url :: "pydict \<Rightarrow> string option" where
  "extract_image_url raw =
     (case (case dict_get raw ''data'' of JList vs \<Rightarrow> first_url vs | _ \<Rightarrow> None) of
        Some url \<Rightarrow> Some url
      | None \<Rightarrow> (case stripped_url (dict_get raw ''image_url'') of
          Some url \<Rightarrow> Some url | None \<Rightarrow> stripped_url (dict_get raw ''url'')))"

definition image_fail :: "string \<Rightarrow> bool \<Rightarrow> pydict \<Rightarrow> tool_execution_result tool_m" where
  "image_fail msg is_live details = tm_return (tool_fail msg (provider_metadata ''doubao'' is_live @ details))"

text \<open>The picture an answer names is fetched from a host the policy allows, and saved.\<close>

definition save_image ::
    "os_world \<Rightarrow> tool_context \<Rightarrow> pydict \<Rightarrow> string \<Rightarrow> py_path \<Rightarrow> rat \<Rightarrow> tool_execution_result tool_m" where
  "save_image os context raw save_to target timeout_seconds =
     (case extract_image_url raw of
        None \<Rightarrow> image_fail ''image.generate did not return an image URL to download'' True [(''save_to'', JStr save_to)]
      | Some image_url \<Rightarrow>
          tm_bind (tm_lift (os_url_host os image_url)) (\<lambda>asset_host.
          case asset_host of
            None \<Rightarrow> image_fail (''image.generate returned malformed URL: '' @ os_repr os (JStr image_url)) True []
          | Some asset_host \<Rightarrow>
              if asset_host = []
              then image_fail (''image.generate returned malformed URL: '' @ os_repr os (JStr image_url)) True []
              else case network_denial os context ''image.generate.download'' asset_host of
                Some denial \<Rightarrow> image_fail denial True [(''policy_denied'', JBool True), (''asset_host'', JStr asset_host)]
              | None \<Rightarrow>
                  tm_bind (http_bytes os Http_GET image_url [] timeout_seconds (cx_max_http_response_bytes context)) (\<lambda>r.
                  case r of
                    Inl fault \<Rightarrow> tm_return (http_tool_failure ''image.generate.download'' fault ''doubao'' timeout_seconds)
                  | Inr image_bytes \<Rightarrow>
                      tm_bind (tm_do os (Made_dirs (path_parent target))) (\<lambda>_.
                      tm_bind (tm_do os (Wrote_bytes target image_bytes)) (\<lambda>_.
                      tm_return (tool_ok (JObj (AList.update ''image_url'' (JStr image_url)
                        (AList.update ''saved_bytes'' (JInt (int (length image_bytes)))
                          (AList.update ''saved_path'' (JStr save_to) raw)))) (provider_metadata ''doubao'' True)))))))"

definition call_image ::
    "os_world \<Rightarrow> tool_context \<Rightarrow> string \<Rightarrow> string \<Rightarrow> string \<Rightarrow> pydict \<Rightarrow> (string \<times> py_path) option \<Rightarrow>
     tool_execution_result tool_m" where
  "call_image os context api_key url host payload saving =
     (let timeout_seconds = bounded_float (os_float os) (env_json context ''DOUBAO_IMAGE_TIMEOUT_SECONDS'') 120 1 600 in
      case network_denial os context ''image.generate'' host of
        Some denial \<Rightarrow> image_fail denial False [(''policy_denied'', JBool True)]
      | None \<Rightarrow>
          tm_bind (http_json os (Http_POST payload) url
            [(''Authorization'', ''Bearer '' @ api_key), (''Content-Type'', ''application/json'')]
            timeout_seconds (cx_max_http_response_bytes context)) (\<lambda>r.
          case r of
            Inl fault \<Rightarrow> tm_return (http_tool_failure ''image.generate'' fault ''doubao'' timeout_seconds)
          | Inr raw \<Rightarrow> (case saving of
              None \<Rightarrow> tm_return (tool_ok (JObj raw) (provider_metadata ''doubao'' True))
            | Some (save_to, target) \<Rightarrow> save_image os context raw save_to target timeout_seconds)))"

definition generate_image :: "os_world \<Rightarrow> tool_handler" where
  "generate_image os args context =
     (let prompt = py_strip (py_text_or (os_repr os) (dict_get args ''prompt'') []);
          model = py_text_or (os_repr os) (dict_get args ''model'')
            (case tool_env context ''DOUBAO_IMAGE_MODEL'' of None \<Rightarrow> ''doubao-seedream-5-0-260128'' | Some m \<Rightarrow> m);
          size = py_text_or (os_repr os) (dict_get args ''size'') ''2K'';
          save_to = (case dict_get args ''save_to'' of JStr s \<Rightarrow> py_strip s | _ \<Rightarrow> []);
          payload = [(''model'', JStr model), (''prompt'', JStr prompt), (''size'', JStr size),
            (''response_format'', JStr ''url'')];
          url = (case tool_env context ''DOUBAO_IMAGE_API_URL'' of None \<Rightarrow> doubao_url | Some u \<Rightarrow> u) in
      if prompt = [] then fail_with ''prompt is required''
      else if cx_dry_run context
      then tm_return (tool_ok (JObj [(''prompt'', JStr prompt), (''model'', JStr model), (''size'', JStr size),
        (''mode'', JStr ''dry_run''), (''image_url'', JNull),
        (''saved_path'', if save_to = [] then JNull else JStr save_to)]) (provider_metadata ''doubao'' False))
      else case tool_env context ''DOUBAO_API_KEY'' of
        None \<Rightarrow> image_fail ''DOUBAO_API_KEY is required for live image.generate'' False []
      | Some api_key \<Rightarrow>
          tm_bind (tm_lift (os_url_host os url)) (\<lambda>host.
          case host of
            None \<Rightarrow> image_fail ''DOUBAO_IMAGE_API_URL must include a valid network host'' False []
          | Some host \<Rightarrow>
              if host = [] then image_fail ''DOUBAO_IMAGE_API_URL must include a valid network host'' False []
              else if save_to = [] then call_image os context api_key url host payload None
              else tm_bind (tm_see (safe_artifact_path os (cx_artifact_root context) save_to)) (\<lambda>r.
                case r of
                  Inl msg \<Rightarrow> image_fail (''save_to is invalid: '' @ msg) False []
                | Inr target \<Rightarrow> call_image os context api_key url host payload (Some (save_to, target)))))"

section \<open>The registry that is shipped\<close>

definition builtin_handler ::
    "(op_env \<Rightarrow> os_world) \<Rightarrow> (os_world \<Rightarrow> tool_handler) \<Rightarrow> pydict \<Rightarrow> tool_context \<Rightarrow> op_env \<Rightarrow> handler_run" where
  "builtin_handler os_of f args context e =
     (let os = os_of e; (r, h) = f os args context [] in
      \<lparr>hr_awaitable = True, hr_seconds = os_seconds os h,
       hr_end = (case r of
         Inr x \<Rightarrow> Handler_returned x
       | Inl (msg, cls) \<Rightarrow> if cls = ''TimeoutError'' then Handler_timeout else Handler_raised msg cls)\<rparr>)"

definition text_type :: json where
  "text_type = JObj [(''type'', JStr ''string'')]"

definition object_schema :: "(string \<times> json) list \<Rightarrow> string list \<Rightarrow> pydict" where
  "object_schema props required =
     [(''type'', JStr ''object''), (''properties'', JObj props)] @
     (if required = [] then [] else [(''required'', json_strs required)]) @
     [(''additionalProperties'', JBool False)]"

definition ranged :: "string \<Rightarrow> json \<Rightarrow> json \<Rightarrow> json" where
  "ranged kind minimum maximum = JObj [(''type'', JStr kind), (''minimum'', minimum), (''maximum'', maximum)]"

definition risk_policy :: "tool_risk_class \<Rightarrow> bool \<Rightarrow> tool_policy" where
  "risk_policy risk approval =
     \<lparr>po_risk_class = risk, po_allowed_nodes = [], po_allowed_roles = [], po_requires_approval = approval\<rparr>"

definition builtin_tool ::
    "(op_env \<Rightarrow> os_world) \<Rightarrow> string \<Rightarrow> string \<Rightarrow> pydict \<Rightarrow> (os_world \<Rightarrow> tool_handler) \<Rightarrow> tool_risk_class \<Rightarrow> registered_tool" where
  "builtin_tool os_of name description schema f risk =
     \<lparr>rt_name = name, rt_description = description, rt_input_schema = schema, rt_handler = builtin_handler os_of f,
      rt_enabled = True, rt_required_env = [], rt_allowed_env = [], rt_policy = risk_policy risk False,
      rt_manages_timeout = False\<rparr>"

definition builtin_tools :: "(op_env \<Rightarrow> os_world) \<Rightarrow> registered_tool list" where
  "builtin_tools os_of =
     [(builtin_tool os_of ''search.web'' ''Search the web through Brave Search and return top results.''
         (object_schema [(''query'', text_type), (''count'', ranged ''integer'' (JInt 1) (JInt 10))] [''query''])
         search_web Risk_EXTERNAL_CALL)
        \<lparr>rt_required_env := [''BRAVE_SEARCH_API_KEY''], rt_allowed_env := [''BRAVE_SEARCH_TIMEOUT_SECONDS'']\<rparr>,
      (builtin_tool os_of ''image.generate''
         (''Generate an image through a Doubao-compatible image endpoint. '' @
          ''Optionally download the result bytes and save them to a path under '' @
          ''the run artifact directory via the `save_to` argument so that '' @
          ''downstream verifiers can confirm local containment.'')
         (object_schema
           [(''prompt'', text_type), (''size'', JObj [(''type'', JStr ''string''), (''default'', JStr ''2K'')]),
            (''model'', text_type),
            (''save_to'', JObj [(''type'', JStr ''string''), (''description'', JStr
              (''Relative path under the run artifact_root to save the '' @
               ''generated image bytes (e.g. 'assets/arch.png'). When '' @
               ''set, the tool downloads the returned URL and writes '' @
               ''bytes there, then returns both the URL and the saved '' @
               ''path. Must stay inside artifact_root.''))])] [''prompt''])
         generate_image Risk_EXTERNAL_CALL)
        \<lparr>rt_required_env := [''DOUBAO_API_KEY''],
         rt_allowed_env := [''DOUBAO_IMAGE_API_URL'', ''DOUBAO_IMAGE_MODEL'', ''DOUBAO_IMAGE_TIMEOUT_SECONDS'',
           ''DOUBAO_IMAGE_ASSET_HOST'']\<rparr>,
      builtin_tool os_of ''artifact.write_json'' ''Write a JSON artifact under the run artifact directory.''
        (object_schema [(''path'', text_type), (''data'', JObj [(''type'', JStr ''object'')])] [''path'', ''data''])
        write_json_artifact Risk_WRITE_ARTIFACT,
      builtin_tool os_of ''artifact.read_json'' ''Read a JSON artifact from the run artifact directory.''
        (object_schema [(''path'', text_type)] [''path'']) read_json_artifact Risk_READ_ONLY,
      builtin_tool os_of ''artifact.exists'' ''Check whether an artifact path exists under the run artifact directory.''
        (object_schema [(''path'', text_type)] [''path'']) artifact_exists Risk_READ_ONLY,
      builtin_tool os_of ''artifact.list'' ''List artifact files and directories under the run artifact directory.''
        (object_schema
          [(''path'', JObj [(''type'', JStr ''string''), (''default'', JStr ''.'')]),
           (''recursive'', JObj [(''type'', JStr ''boolean''), (''default'', JBool False)]),
           (''max_items'', ranged ''integer'' (JInt 1) (JInt 500))] [])
        list_artifacts Risk_READ_ONLY,
      builtin_tool os_of ''artifact.write_text'' ''Write a UTF-8 text artifact under the run artifact directory.''
        (object_schema [(''path'', text_type), (''content'', text_type)] [''path'', ''content''])
        write_text_artifact Risk_WRITE_ARTIFACT,
      builtin_tool os_of ''artifact.read_text'' ''Read a UTF-8 text artifact from the run artifact directory.''
        (object_schema [(''path'', text_type)] [''path'']) read_text_artifact Risk_READ_ONLY,
      builtin_tool os_of ''time.now'' ''Return the current UTC timestamp for traceable workflow artifacts.''
        (object_schema [] []) time_now Risk_READ_ONLY,
      (builtin_tool os_of ''process.run''
         ''Run an allowlisted process under the run artifact directory without a shell.''
         (object_schema
           [(''argv'', JObj [(''type'', JStr ''array''), (''items'', text_type), (''minItems'', JInt 1)]),
            (''cwd'', JObj [(''type'', JStr ''string''), (''default'', JStr ''.'')]),
            (''timeout_seconds'', ranged ''number'' (JFloat (1 / 10)) (JInt 600)),
            (''max_output_bytes'', ranged ''integer'' (JInt 1) (JInt 65536))] [''argv''])
         run_process Risk_DESTRUCTIVE)
        \<lparr>rt_policy := risk_policy Risk_DESTRUCTIVE True, rt_manages_timeout := True\<rparr>]"

definition register_builtin_tools :: "(op_env \<Rightarrow> os_world) \<Rightarrow> tool_registry \<Rightarrow> exn + tool_registry" where
  "register_builtin_tools os_of r = fold_err register_tool (builtin_tools os_of) r"

definition build_default_tool_registry :: "(op_env \<Rightarrow> os_world) \<Rightarrow> tool_context \<Rightarrow> exn + tool_registry" where
  "build_default_tool_registry os_of context =
     register_builtin_tools os_of \<lparr>tr_tools = [], tr_default_context = context\<rparr>"

end
