(* ===== verification/Tool_Confinement.thy ===== *)
theory Tool_Confinement
  imports Builtin_Tools
begin

text \<open>
  What the shipped tools can do to their surroundings: every effect of a handler is one its context
  permits. Files are written and directories made under the resolved artifact root, processes are
  on the allowlist and start under that root with the context's variables, and requests go to
  permitted hosts of a context with network access that is no dry run.
\<close>

section \<open>Permitted effects\<close>

definition url_goes_to :: "os_world \<Rightarrow> string \<Rightarrow> string \<Rightarrow> bool" where
  "url_goes_to os url host \<longleftrightarrow>
     os_url_host os url = Inr (Some host) \<or> py_startswith url (''https://'' @ host @ ''/'')"

fun effect_allowed :: "os_world \<Rightarrow> tool_context \<Rightarrow> py_path \<Rightarrow> os_effect \<Rightarrow> bool" where
  "effect_allowed os cx base (Made_dirs p) \<longleftrightarrow> path_under base p \<or> p = path_parent base"
| "effect_allowed os cx base (Wrote_text p text) \<longleftrightarrow> path_under base p"
| "effect_allowed os cx base (Wrote_bytes p bytes) \<longleftrightarrow> path_under base p"
| "effect_allowed os cx base (Spawned argv cwd env) \<longleftrightarrow>
     path_under base cwd \<and> env = cx_env cx \<and> argv \<noteq> [] \<and> [] \<notin> set argv \<and>
     hd argv \<in> set (cx_allowed_process_commands cx) \<and>
     (cx_allowed_process_argv_prefixes cx = [] \<or>
      (\<exists>prefix \<in> set (cx_allowed_process_argv_prefixes cx). prefix \<noteq> [] \<and> take (length prefix) argv = prefix))"
| "effect_allowed os cx base (Requested http_mode url headers) \<longleftrightarrow>
     cx_network_access cx \<and> \<not> cx_dry_run cx \<and>
     (\<exists>host. url_goes_to os url host \<and>
        (cx_allowed_network_hosts cx = [] \<or> host \<in> set (cx_allowed_network_hosts cx)))"

definition resolved_root :: "os_world \<Rightarrow> tool_context \<Rightarrow> os_effect list \<Rightarrow> py_path" where
  "resolved_root os cx h = os_resolve os h (make_path (cx_artifact_root cx))"

lemma parent_allowed:
  assumes "path_under base p"
  shows "path_under base (path_parent p) \<or> path_parent p = path_parent base"
proof (cases "length (pth_parts base) < length (pth_parts p)")
  case True
  then have "take (length (pth_parts base)) (butlast (pth_parts p)) = take (length (pth_parts base)) (pth_parts p)"
    by (simp add: take_butlast)
  then show ?thesis using assms by (simp add: path_under_def path_parent_def)
next
  case False
  then have "pth_parts p = pth_parts base" using assms by (simp add: path_under_def)
  moreover have "pth_root p = pth_root base" using assms by (simp add: path_under_def)
  ultimately show ?thesis by (simp add: path_parent_def)
qed

lemma safe_path_under:
  "safe_artifact_path os (cx_artifact_root cx) raw h = Inr target \<Longrightarrow> path_under (resolved_root os cx h) target"
  by (auto simp: safe_artifact_path_def resolved_root_def Let_def split: if_splits)

section \<open>A judgement for handlers\<close>

text \<open>Run from \<open>h\<close>, the handler only adds effects that satisfy the predicate.\<close>

definition only_does :: "(os_effect \<Rightarrow> bool) \<Rightarrow> os_effect list \<Rightarrow> 'a tool_m \<Rightarrow> bool" where
  "only_does A h m \<longleftrightarrow> (\<exists>es. snd (m h) = h @ es \<and> (\<forall>e \<in> set es. A e))"

named_theorems only_does_intro

lemma only_does_return [only_does_intro]: "only_does A h (tm_return x)"
  by (simp add: only_does_def tm_return_def)

lemma only_does_see [only_does_intro]: "only_does A h (tm_see f)"
  by (simp add: only_does_def tm_see_def)

lemma only_does_lift [only_does_intro]: "only_does A h (tm_lift r)"
  by (simp add: only_does_def tm_lift_def)

lemma only_does_fail [only_does_intro]: "only_does A h (fail_with msg)"
  by (simp add: fail_with_def only_does_return)

lemma only_does_do [only_does_intro]: "A e \<Longrightarrow> only_does A h (tm_do os e)"
  by (simp add: only_does_def tm_do_def split: option.split)

lemma only_does_then:
  assumes "only_does A h m" and "\<And>x h1. m h = (Inr x, h1) \<Longrightarrow> only_does A h1 (f x)"
  shows "only_does A h (tm_bind m f)"
proof (cases "m h")
  case (Pair r h1)
  obtain es where es: "h1 = h @ es" "\<forall>e \<in> set es. A e" using assms(1) Pair by (auto simp: only_does_def)
  show ?thesis
  proof (cases r)
    case (Inl fault)
    with Pair es show ?thesis by (auto simp: only_does_def tm_bind_def)
  next
    case (Inr x)
    then have "only_does A h1 (f x)" using Pair assms(2) by simp
    then obtain es' where "snd (f x h1) = h1 @ es'" "\<forall>e \<in> set es'. A e" by (auto simp: only_does_def)
    with Pair Inr es show ?thesis by (auto simp: only_does_def tm_bind_def)
  qed
qed

lemma only_does_bind [only_does_intro]:
  "only_does A h m \<Longrightarrow> (\<And>x h1. only_does A h1 (f x)) \<Longrightarrow> only_does A h (tm_bind m f)"
  by (rule only_does_then)

lemma only_does_seen:
  "only_does A h (f (g h)) \<Longrightarrow> only_does A h (tm_bind (tm_see g) f)"
  by (rule only_does_then) (auto simp: tm_see_def only_does_def)

lemma only_does_artifact:
  assumes "\<And>target. path_under (resolved_root os cx h) target \<Longrightarrow> only_does A h (f target)"
  shows "only_does A h (at_artifact os cx raw f)"
  unfolding at_artifact_def
  by (rule only_does_seen)
     (auto split: sum.split intro: only_does_fail assms dest: safe_path_under)

section \<open>Every handler\<close>

lemma write_only_does:
  assumes "path_under base target"
  shows "only_does (effect_allowed os cx base) h (write_at os target text)"
  unfolding write_at_def
  by (intro only_does_intro) (use assms parent_allowed in auto)

lemma request_only_does:
  assumes "\<not> cx_dry_run cx" "network_denial os cx who host = None" "url_goes_to os url host"
  shows "only_does (effect_allowed os cx base) h (http_bytes os http_mode url headers timeout_seconds max_bytes)"
proof -
  have "effect_allowed os cx base (Requested http_mode url headers)"
    using assms by (auto simp: network_denial_def split: if_splits)
  then show ?thesis by (simp add: only_does_def http_bytes_def Let_def split: option.split)
qed

lemma request_json_only_does:
  assumes "\<not> cx_dry_run cx" "network_denial os cx who host = None" "url_goes_to os url host"
  shows "only_does (effect_allowed os cx base) h (http_json os http_mode url headers timeout_seconds max_bytes)"
  unfolding http_json_def by (intro only_does_bind only_does_return request_only_does [OF assms])

lemma save_image_only_does:
  assumes "\<not> cx_dry_run cx" "path_under base target"
  shows "only_does (effect_allowed os cx base) h (save_image os cx raw save_to target timeout_seconds)"
proof -
  have got: "only_does (effect_allowed os cx base) h1 (tm_bind (tm_do os (Made_dirs (path_parent target)))
      (\<lambda>_. tm_bind (tm_do os (Wrote_bytes target bytes)) (\<lambda>_. tm_return x)))" for bytes x h1
    by (intro only_does_intro) (use assms parent_allowed in auto)
  show ?thesis
  proof (cases "extract_image_url raw")
    case None
    then show ?thesis by (simp add: save_image_def image_fail_def only_does_return)
  next
    case (Some url)
    show ?thesis
      unfolding save_image_def Some option.case
    proof (rule only_does_then [OF only_does_lift])
      fix answer h1 assume "tm_lift (os_url_host os url) h = (Inr answer, h1)"
      then have host: "os_url_host os url = Inr answer" by (simp add: tm_lift_def)
      show "only_does (effect_allowed os cx base) h1 (case answer of
          None \<Rightarrow> image_fail (''image.generate returned malformed URL: '' @ os_repr os (JStr url)) True []
        | Some asset_host \<Rightarrow> if asset_host = []
            then image_fail (''image.generate returned malformed URL: '' @ os_repr os (JStr url)) True []
            else case network_denial os cx ''image.generate.download'' asset_host of
              Some denial \<Rightarrow> image_fail denial True [(''policy_denied'', JBool True), (''asset_host'', JStr asset_host)]
            | None \<Rightarrow> tm_bind (http_bytes os Http_GET url [] timeout_seconds (cx_max_http_response_bytes cx)) (\<lambda>r.
                case r of
                  Inl fault \<Rightarrow> tm_return (http_tool_failure ''image.generate.download'' fault ''doubao'' timeout_seconds)
                | Inr bytes \<Rightarrow> tm_bind (tm_do os (Made_dirs (path_parent target)))
                    (\<lambda>_. tm_bind (tm_do os (Wrote_bytes target bytes)) (\<lambda>_. tm_return (tool_ok (JObj
                      (AList.update ''image_url'' (JStr url) (AList.update ''saved_bytes'' (JInt (int (length bytes)))
                        (AList.update ''saved_path'' (JStr save_to) raw)))) (provider_metadata ''doubao'' True))))))"
      proof (cases "\<exists>asset_host. answer = Some asset_host \<and> asset_host \<noteq> [] \<and>
          network_denial os cx ''image.generate.download'' asset_host = None")
        case True
        then obtain asset_host where a: "answer = Some asset_host" "asset_host \<noteq> []"
          "network_denial os cx ''image.generate.download'' asset_host = None" by blast
        have "url_goes_to os url asset_host" using host a by (simp add: url_goes_to_def)
        then have req: "only_does (effect_allowed os cx base) h1
            (http_bytes os Http_GET url [] timeout_seconds (cx_max_http_response_bytes cx))"
          by (rule request_only_does [OF assms(1) a(3)])
        show ?thesis
          by (simp add: a) (intro only_does_bind req, auto split: sum.split intro: got only_does_return)
      next
        case False
        then show ?thesis by (auto simp: image_fail_def split: option.split intro: only_does_return)
      qed
    qed
  qed
qed

lemma call_image_only_does:
  assumes "\<not> cx_dry_run cx" "os_url_host os url = Inr (Some host)"
    and "\<And>save_to target. saving = Some (save_to, target) \<Longrightarrow> path_under base target"
  shows "only_does (effect_allowed os cx base) h (call_image os cx api_key url host payload saving)"
proof (cases "network_denial os cx ''image.generate'' host")
  case None
  have "url_goes_to os url host" using assms(2) by (simp add: url_goes_to_def)
  note req = request_json_only_does [OF assms(1) None this]
  show ?thesis
    unfolding call_image_def Let_def None option.case
    by (intro only_does_bind req)
       (auto split: sum.split option.split intro!: only_does_return save_image_only_does assms(1,3))
next
  case (Some denial)
  then show ?thesis by (simp add: call_image_def image_fail_def only_does_return)
qed

lemma only_does_weaken: "only_does A h m \<Longrightarrow> (\<And>e. A e \<Longrightarrow> B e) \<Longrightarrow> only_does B h m"
  by (auto simp: only_does_def)

text \<open>What a handler is: only permitted effects, from every history.\<close>

definition confined_tool :: "os_world \<Rightarrow> (os_world \<Rightarrow> tool_handler) \<Rightarrow> bool" where
  "confined_tool os f \<longleftrightarrow>
     (\<forall>args cx h. only_does (effect_allowed os cx (resolved_root os cx h)) h (f os args cx))"

lemma write_json_confined: "confined_tool os write_json_artifact"
  unfolding confined_tool_def
proof (intro allI)
  fix args cx h
  show "only_does (effect_allowed os cx (resolved_root os cx h)) h (write_json_artifact os args cx)"
    by (auto simp: write_json_artifact_def Let_def split: json.split
        intro!: only_does_fail only_does_artifact only_does_bind write_only_does only_does_return)
qed

lemma write_text_confined: "confined_tool os write_text_artifact"
  unfolding confined_tool_def
proof (intro allI)
  fix args cx h
  show "only_does (effect_allowed os cx (resolved_root os cx h)) h (write_text_artifact os args cx)"
    by (auto simp: write_text_artifact_def Let_def split: json.split
        intro!: only_does_fail only_does_artifact only_does_bind write_only_does only_does_return)
qed

lemma read_json_confined: "confined_tool os read_json_artifact"
  unfolding confined_tool_def
proof (intro allI)
  fix args cx h
  show "only_does (effect_allowed os cx (resolved_root os cx h)) h (read_json_artifact os args cx)"
    by (auto simp: read_json_artifact_def Let_def missing_artifact_def split: read_end.split sum.split
        intro!: only_does_fail only_does_artifact only_does_bind only_does_see only_does_return only_does_lift)
qed

lemma read_text_confined: "confined_tool os read_text_artifact"
  unfolding confined_tool_def
proof (intro allI)
  fix args cx h
  show "only_does (effect_allowed os cx (resolved_root os cx h)) h (read_text_artifact os args cx)"
    unfolding read_text_artifact_def Let_def
    by (cases "path_argument os args = []")
       (auto simp: only_does_def fail_with_def tm_return_def missing_artifact_def
        intro!: only_does_artifact [unfolded only_does_def] split: read_end.split)
qed

lemma artifact_exists_confined: "confined_tool os artifact_exists"
  unfolding confined_tool_def
proof (intro allI)
  fix args cx h
  show "only_does (effect_allowed os cx (resolved_root os cx h)) h (artifact_exists os args cx)"
    by (auto simp: artifact_exists_def Let_def intro!: only_does_fail only_does_artifact only_does_see)
qed

lemma list_artifacts_confined: "confined_tool os list_artifacts"
  unfolding confined_tool_def
proof (intro allI)
  fix args cx h
  show "only_does (effect_allowed os cx (resolved_root os cx h)) h (list_artifacts os args cx)"
    unfolding list_artifacts_def Let_def by (intro only_does_artifact only_does_see)
qed

lemma time_now_confined: "confined_tool os time_now"
  by (simp add: confined_tool_def time_now_def only_does_fail only_does_see)

lemma spawn_only_does:
  assumes "path_under base cwd" "argv \<noteq> []" "[] \<notin> set argv" "hd argv \<in> set (cx_allowed_process_commands cx)"
    and "argv_prefix_denial os argv cx = None"
  shows "only_does (effect_allowed os cx base) h (spawn_in os args cx argv cwd)"
proof -
  have "effect_allowed os cx base (Spawned argv cwd (cx_env cx))"
    using assms by (auto simp: argv_prefix_denial_def prefix_allows_def Let_def list_ex_iff split: if_splits)
  then show ?thesis
    unfolding spawn_in_def Let_def by (intro only_does_bind only_does_do only_does_see)
qed

lemma run_process_confined: "confined_tool os run_process"
  unfolding confined_tool_def
proof (intro allI)
  fix args cx h
  let ?A = "effect_allowed os cx (resolved_root os cx h)"
  show "only_does ?A h (run_process os args cx)"
  proof (cases "\<exists>v vs. dict_get args ''argv'' = JList (v # vs)")
    case False
    then show ?thesis by (auto simp: run_process_def split: json.split list.split intro: only_does_fail)
  next
    case True
    then obtain v vs where j: "dict_get args ''argv'' = JList (v # vs)" by blast
    define argv where "argv = map (py_str (os_repr os)) (v # vs)"
    have ne: "argv \<noteq> []" by (simp add: argv_def)
    define raw where "raw = (let given = py_strip (py_text_or (os_repr os) (dict_get args ''cwd'') ''.'') in
      if given = [] then ''.'' else given)"
    have eq: "run_process os args cx =
        (if [] \<in> set argv then fail_with ''argv entries must not be empty''
         else if hd argv \<notin> set (cx_allowed_process_commands cx)
         then tm_return (tool_fail (''process command '' @ os_repr os (JStr (hd argv)) @ '' is not allowed'')
            [(''policy_denied'', JBool True), (''sandbox_policy'', JStr ''command_allowlist''),
             (''command'', JStr (hd argv))])
         else case argv_prefix_denial os argv cx of
           Some denial \<Rightarrow> tm_return denial
         | None \<Rightarrow> at_artifact os cx raw (\<lambda>cwd.
             tm_bind (if raw = ''.'' then tm_do os (Made_dirs cwd) else tm_return ()) (\<lambda>_ h.
             if \<not> os_exists os h cwd
             then fail_with (''process cwd '' @ os_repr os (JStr raw) @ '' does not exist'') h
             else if \<not> os_is_dir os h cwd
             then fail_with (''process cwd '' @ os_repr os (JStr raw) @ '' is not a directory'') h
             else spawn_in os args cx argv cwd h)))"
      unfolding run_process_def j json.case list.case Let_def argv_def raw_def ..
    have inner: "only_does ?A h1 (\<lambda>h. if \<not> os_exists os h cwd
             then fail_with (''process cwd '' @ os_repr os (JStr raw) @ '' does not exist'') h
             else if \<not> os_is_dir os h cwd
             then fail_with (''process cwd '' @ os_repr os (JStr raw) @ '' is not a directory'') h
             else spawn_in os args cx argv cwd h)"
      if "path_under (resolved_root os cx h) cwd" "[] \<notin> set argv"
        "hd argv \<in> set (cx_allowed_process_commands cx)" "argv_prefix_denial os argv cx = None" for h1 cwd
      using spawn_only_does [OF that(1) ne that(2-4), of h1 args]
      by (simp add: only_does_def fail_with_def tm_return_def)
    show ?thesis
      unfolding eq
      by (auto split: option.split intro!: only_does_fail only_does_return only_does_artifact only_does_bind
          only_does_do inner)
  qed
qed

lemma search_web_confined: "confined_tool os search_web"
  unfolding confined_tool_def
proof (intro allI)
  fix args cx h
  have to: "url_goes_to os (''https://'' @ brave_host @ ''/res/v1/web/search?'' @ q) brave_host" for q
    by (simp add: url_goes_to_def py_startswith_def brave_host_def)
  show "only_does (effect_allowed os cx (resolved_root os cx h)) h (search_web os args cx)"
    unfolding search_web_def Let_def
    by (auto split: option.split
        intro!: only_does_fail only_does_return only_does_bind request_json_only_does to [unfolded append_Cons append_Nil])
qed

lemma generate_image_confined: "confined_tool os generate_image"
  unfolding confined_tool_def
proof (intro allI)
  fix args cx h
  show "only_does (effect_allowed os cx (resolved_root os cx h)) h (generate_image os args cx)"
    unfolding generate_image_def Let_def
    by (auto simp: image_fail_def tm_lift_def split: option.split sum.split
        intro!: only_does_fail only_does_return only_does_then [OF only_does_lift] only_does_seen call_image_only_does
          safe_path_under)
qed

text \<open>The shipped handlers, in the order in which they are registered.\<close>

definition shipped_handlers :: "(os_world \<Rightarrow> tool_handler) list" where
  "shipped_handlers =
     [search_web, generate_image, write_json_artifact, read_json_artifact, artifact_exists, list_artifacts,
      write_text_artifact, read_text_artifact, time_now, run_process]"

lemma shipped_handlers_registered:
  "map rt_handler (builtin_tools os_of) = map (builtin_handler os_of) shipped_handlers"
  by (simp add: builtin_tools_def builtin_tool_def shipped_handlers_def)

lemma shipped_confined:
  assumes "f \<in> set shipped_handlers"
  shows "confined_tool os f"
  using assms write_json_confined write_text_confined read_json_confined read_text_confined artifact_exists_confined
    list_artifacts_confined time_now_confined run_process_confined search_web_confined generate_image_confined
  by (auto simp: shipped_handlers_def)

theorem tools_are_confined:
  assumes "f \<in> set shipped_handlers" and "f os args cx h = (r, h')"
  shows "\<exists>es. h' = h @ es \<and> (\<forall>e \<in> set es. effect_allowed os cx (resolved_root os cx h) e)"
proof -
  have "only_does (effect_allowed os cx (resolved_root os cx h)) h (f os args cx)"
    using shipped_confined [OF assms(1), of os] by (simp add: confined_tool_def)
  then show ?thesis by (simp add: only_does_def assms(2))
qed

section \<open>Bounds\<close>

lemma clamp_in_range: "lo \<le> hi \<Longrightarrow> lo \<le> clamp lo hi x \<and> clamp lo hi (x :: 'a::linorder) \<le> hi"
  by (simp add: clamp_def)

lemma bounded_int_range: "lo \<le> hi \<Longrightarrow> lo \<le> bounded_int v d lo hi \<and> bounded_int v d lo hi \<le> hi"
  by (simp add: bounded_int_def clamp_in_range)

lemma process_timeout_range: "1 / 10 \<le> process_timeout os v cx \<and> process_timeout os v cx \<le> 600"
  unfolding process_timeout_def Let_def bounded_float_def by (rule clamp_in_range) simp

lemma items_of_length: "items_of os artifact_root ps h = Inr items \<Longrightarrow> length items = length ps"
  by (induction ps arbitrary: items) (auto split: sum.splits)

text \<open>A body that is accepted is all of it, and within the cap.\<close>

lemma read_capped_whole:
  assumes "read_capped response cap url = Inr payload" "0 \<le> cap"
  shows "payload = hp_body response \<and> int (length payload) \<le> cap"
proof -
  have p: "payload = take (nat (cap + 1)) (hp_body response)" "int (length payload) \<le> cap"
    using assms(1) by (auto simp: read_capped_def Let_def split: option.splits if_splits)
  then have "length payload < nat (cap + 1)" using assms(2) by linarith
  then have "payload = hp_body response" using p(1) by (metis length_take min_less_iff_conj nat_less_le take_all_iff not_le_imp_less)
  then show ?thesis using p(2) by simp
qed

section \<open>The registry\<close>

lemma update_fresh: "map_of d k = None \<Longrightarrow> AList.update k v d = d @ [(k, v)]"
  by (induction d) (auto split: if_splits)

text \<open>Tools with names that are new and differ register in their order.\<close>

lemma register_all:
  assumes "distinct (map fst (tr_tools r) @ map (\<lambda>t. py_strip (rt_name t)) ts)" "\<forall>t \<in> set ts. py_strip (rt_name t) \<noteq> []"
  shows "fold_err register_tool ts r = Inr (r\<lparr>tr_tools := tr_tools r @ map (\<lambda>t. (py_strip (rt_name t), t)) ts\<rparr>)"
  using assms
proof (induction ts arbitrary: r)
  case (Cons t ts)
  let ?r1 = "r\<lparr>tr_tools := tr_tools r @ [(py_strip (rt_name t), t)]\<rparr>"
  have "py_strip (rt_name t) \<notin> fst ` set (tr_tools r)" using Cons.prems(1) by auto
  then have "map_of (tr_tools r) (py_strip (rt_name t)) = None" by (simp add: map_of_eq_None_iff)
  then have "register_tool t r = Inr ?r1"
    using Cons.prems(2) by (simp add: register_tool_def Let_def update_fresh)
  moreover have "fold_err register_tool ts ?r1 =
      Inr (?r1\<lparr>tr_tools := tr_tools ?r1 @ map (\<lambda>t. (py_strip (rt_name t), t)) ts\<rparr>)"
    using Cons.prems by (intro Cons.IH) auto
  ultimately show ?case by simp
qed simp

definition shipped_names :: "string list" where
  "shipped_names =
     [''search.web'', ''image.generate'', ''artifact.write_json'', ''artifact.read_json'', ''artifact.exists'',
      ''artifact.list'', ''artifact.write_text'', ''artifact.read_text'', ''time.now'', ''process.run'']"

lemma shipped_names_registered: "map rt_name (builtin_tools os_of) = shipped_names"
  by (simp add: builtin_tools_def builtin_tool_def shipped_names_def)

lemma shipped_names_clean: "map py_strip shipped_names = shipped_names" "distinct shipped_names" "[] \<notin> set shipped_names"
  by code_simp+

lemma default_registry_builds:
  "build_default_tool_registry os_of cx =
     Inr \<lparr>tr_tools = zip shipped_names (builtin_tools os_of), tr_default_context = cx\<rparr>"
proof -
  let ?ts = "builtin_tools os_of"
  have names: "map (\<lambda>t. py_strip (rt_name t)) ?ts = shipped_names"
    using shipped_names_clean(1) by (simp flip: shipped_names_registered [of os_of])
  have "fold_err register_tool ?ts \<lparr>tr_tools = [], tr_default_context = cx\<rparr> =
      Inr \<lparr>tr_tools = map (\<lambda>t. (py_strip (rt_name t), t)) ?ts, tr_default_context = cx\<rparr>"
  proof -
    have "py_strip (rt_name t) \<noteq> []" if "t \<in> set ?ts" for t
    proof -
      have "py_strip (rt_name t) \<in> set shipped_names" unfolding names [symmetric] using that by simp
      then show ?thesis using shipped_names_clean(3) by metis
    qed
    then show ?thesis
      using register_all [of "\<lparr>tr_tools = [], tr_default_context = cx\<rparr>" ?ts] shipped_names_clean(2)
      by (simp add: names)
  qed
  also have "map (\<lambda>t. (py_strip (rt_name t), t)) ?ts = zip shipped_names ?ts"
    unfolding names [symmetric] by (simp add: zip_map1 zip_same_conv_map)
  finally show ?thesis by (simp add: build_default_tool_registry_def register_builtin_tools_def)
qed

section \<open>What a process is given\<close>

text \<open>
  Through the registry a handler gets the context with its variables filtered; a process that is
  started so gets none but those of the keys the environment allows.
\<close>

lemma process_sees_allowed_keys:
  assumes "get_tool r name = Inr t" "rt_required_env t = []" "rt_allowed_env t = []"
    and "run_process os args (scope_tool_context cx t) h = (x, h @ es)" "Spawned argv cwd env \<in> set es"
  shows "fst ` set env \<subseteq> set (cx_allowed_env_keys cx)"
proof -
  have "run_process \<in> set shipped_handlers" by (simp add: shipped_handlers_def)
  from tools_are_confined [OF this assms(4)]
  have "effect_allowed os (scope_tool_context cx t) (resolved_root os (scope_tool_context cx t) h) (Spawned argv cwd env)"
    using assms(5) by blast
  then have "env = cx_env (scope_tool_context cx t)" by simp
  then show ?thesis using assms(2,3) by (auto simp: scope_tool_context_def)
qed

section \<open>Written text is read back\<close>

text \<open>
  What a file system promises: what was written last to a path is there, as a file, and is what is
  read; making directories and writing files leaves the resolution of paths and the links alone.
\<close>

definition keeps_files :: "os_world \<Rightarrow> bool" where
  "keeps_files os \<longleftrightarrow>
     (\<forall>h p text. os_read os (h @ [Wrote_text p text]) p = Read_text text \<and>
        os_exists os (h @ [Wrote_text p text]) p \<and> os_is_file os (h @ [Wrote_text p text]) p) \<and>
     (\<forall>h p text q. os_resolve os (h @ [Wrote_text p text]) q = os_resolve os h q \<and>
        os_resolve os (h @ [Made_dirs p]) q = os_resolve os h q \<and>
        os_symlink os (h @ [Wrote_text p text]) q = os_symlink os h q \<and>
        os_symlink os (h @ [Made_dirs p]) q = os_symlink os h q)"

lemma safe_path_kept:
  assumes "keeps_files os"
  shows "safe_artifact_path os artifact_root raw (h @ [Made_dirs p, Wrote_text q text]) = safe_artifact_path os artifact_root raw h"
proof -
  have h: "h @ [Made_dirs p, Wrote_text q text] = (h @ [Made_dirs p]) @ [Wrote_text q text]" by simp
  have res: "os_resolve os (h @ [Made_dirs p, Wrote_text q text]) = os_resolve os h"
    "os_symlink os (h @ [Made_dirs p, Wrote_text q text]) = os_symlink os h"
    using assms by (simp_all add: keeps_files_def fun_eq_iff h del: append_assoc)
  show ?thesis unfolding safe_artifact_path_def res ..
qed

lemma written_text:
  assumes "write_text_artifact os args cx h = (Inr x, h1)" "xr_success x" "dict_get args ''content'' = JStr content"
  obtains target where "path_argument os args \<noteq> []"
    "safe_artifact_path os (cx_artifact_root cx) (path_argument os args) h = Inr target"
    "h1 = h @ [Made_dirs (path_parent target), Wrote_text target content]"
proof -
  have ne: "path_argument os args \<noteq> []"
    using assms(1,2) by (auto simp: write_text_artifact_def fail_with_def tm_return_def tool_fail_def)
  obtain target where t: "safe_artifact_path os (cx_artifact_root cx) (path_argument os args) h = Inr target"
    using assms ne
    by (cases "safe_artifact_path os (cx_artifact_root cx) (path_argument os args) h")
       (auto simp: write_text_artifact_def at_artifact_def tm_bind_def tm_see_def fail_with_def tm_return_def tool_fail_def)
  then have "h1 = h @ [Made_dirs (path_parent target), Wrote_text target content]"
    using assms(1,3) ne
    by (auto simp: write_text_artifact_def at_artifact_def tm_bind_def tm_see_def tm_do_def tm_return_def write_at_def
        split: option.splits)
  with ne t show ?thesis by (rule that)
qed

lemma text_read_back:
  assumes "keeps_files os" and "write_text_artifact os args cx h = (Inr x, h1)" "xr_success x"
    and "dict_get args ''content'' = JStr content" "dict_get rargs ''path'' = dict_get args ''path''"
  shows "\<exists>target. read_text_artifact os rargs cx h1 = (Inr (tool_ok (JObj
    [(''path'', JStr (path_str target)), (''content'', JStr content), (''bytes'', JInt (os_utf8_length os content))]) live), h1)"
proof -
  obtain target where w: "path_argument os args \<noteq> []"
    "safe_artifact_path os (cx_artifact_root cx) (path_argument os args) h = Inr target"
    "h1 = h @ [Made_dirs (path_parent target), Wrote_text target content]"
    using written_text [OF assms(2-4)] .
  have same: "path_argument os rargs = path_argument os args" by (simp add: path_argument_def assms(5))
  have safe: "safe_artifact_path os (cx_artifact_root cx) (path_argument os args) h1 = Inr target"
    using w(2) unfolding w(3) safe_path_kept [OF assms(1)] .
  have seen: "os_read os h1 target = Read_text content" "os_exists os h1 target" "os_is_file os h1 target"
  proof -
    have "h1 = (h @ [Made_dirs (path_parent target)]) @ [Wrote_text target content]" using w(3) by simp
    then show "os_read os h1 target = Read_text content" "os_exists os h1 target" "os_is_file os h1 target"
      using assms(1) unfolding keeps_files_def by metis+
  qed
  show ?thesis
    by (intro exI [of _ target])
       (simp add: read_text_artifact_def Let_def same w(1) at_artifact_def tm_bind_def tm_see_def safe seen)
qed

end
