(* ===== verification/Goal_Samples.thy ===== *)
theory Goal_Samples
  imports Samples Goal_Scope Verification_Facts Runtime_Settings Redis_Runs Tool_Confinement
begin

text \<open>
  The concrete values of the witnesses about goals, workers, Redis and the shipped tools. No lemma
  of the development depends on them.
\<close>

section \<open>Plans\<close>

definition sample_goal :: goal_spec where
  "sample_goal = \<lparr>gs_objective = ''Write a post'', gs_constraints = [], gs_success_criteria = [],
     gs_available_tools = [''http.get'', ''time.now''], gs_required_tools = [], gs_expected_artifacts = [''post.md''],
     gs_agents = [], gs_teams = [], gs_suggested_tasks = [], gs_memory_context = None, gs_quality_contract = None,
     gs_metadata = []\<rparr>"

text \<open>The answer of the planner's model: it serves as a plan and as a change of one.\<close>

definition sample_payload :: pydict where
  "sample_payload =
     [(''name'', JStr ''post''),
      (''tasks'', JList
        [JObj [(''key'', JStr ''draft''), (''tools'', JList [JStr ''http.get''])],
         JObj [(''key'', JStr ''check''), (''requires'', JList [JStr ''draft''])]]),
      (''add_tasks'', JList [JObj [(''key'', JStr ''polish''), (''requires'', JList [JStr ''check''])]]),
      (''update_tasks'', JList [JObj [(''key'', JStr ''draft''), (''tools'', JList [JStr ''time.now''])]])]"

definition sample_reader :: plan_reader where
  "sample_reader = \<lparr>rd_loads = (\<lambda>_. Some (JObj sample_payload)), rd_raw_decode = (\<lambda>_. None), rd_repr = (\<lambda>_. ''v''),
     rd_agent = (\<lambda>_. None), rd_team = (\<lambda>_. None)\<rparr>"

definition plain_codec :: plan_codec where
  "plain_codec = \<lparr>pc_agent_json = (\<lambda>_. JNull), pc_team_json = (\<lambda>_. JNull), pc_contract_json = (\<lambda>_. JObj []),
     pc_goal_json = (\<lambda>_. JObj []), pc_plan_json = (\<lambda>_. JObj []), pc_plan_load = (\<lambda>_. Inl ValidationError)\<rparr>"

definition sample_planner :: model_planner where
  "sample_planner = \<lparr>pl_runtime = te_runtime sample_team_env, pl_role = ''planner'', pl_max_json_repairs = 1,
     pl_max_invoke_retries = 2, pl_retriever = None, pl_reader = sample_reader, pl_codec = plain_codec,
     pl_dumps = (\<lambda>_. ''text''), pl_reason = (\<lambda>_. ''why'')\<rparr>"

definition sample_task :: "string \<Rightarrow> string list \<Rightarrow> string list \<Rightarrow> string list \<Rightarrow> plan_task" where
  "sample_task key requires tools artifacts =
     \<lparr>pn_key = key, pn_role = ''executor'', pn_description = ''Write a post'', pn_agent = None, pn_team = None,
      pn_requires = requires,
      pn_contract = empty_contract\<lparr>tk_objective := ''Write a post'', tk_expected_artifacts := artifacts\<rparr>,
      pn_tools = tools, pn_execution_mode = ''direct'', pn_config = []\<rparr>"

definition asked_once :: "string \<Rightarrow> string \<Rightarrow> json" where
  "asked_once operation phase = JObj
     [(''planner'', JStr ''ModelGoalPlanner''), (''operation'', JStr operation), (''status'', JStr ''succeeded''),
      (''invoke_attempts'', JInt 1), (''retry_count'', JInt 0), (''repair_count'', JInt 0),
      (''max_invoke_retries'', JInt 2), (''max_json_repairs'', JInt 1), (''phases'', JList [JStr phase])]"

definition first_plan :: execution_plan where
  "first_plan = \<lparr>xp_name = ''post'', xp_goal = sample_goal,
     xp_tasks = [sample_task ''draft'' [] [''http.get''] [], sample_task ''check'' [''draft''] [] [''post.md'']],
     xp_version = ''1'', xp_rationale = ''model planner'',
     xp_metadata = [(''planner'', JStr ''model''), (''planner_diagnostics'', asked_once ''initial_plan'' ''initial'')]\<rparr>"

definition first_delta :: plan_delta where
  "first_delta = \<lparr>pd_add_tasks = [sample_task ''polish'' [''check''] [] []], pd_remove_task_keys = [],
     pd_update_tasks = [sample_task ''draft'' [] [''time.now''] []], pd_rationale = ''model planner delta'',
     pd_feedback_refs = [''longer''], pd_metadata = [(''planner_diagnostics'', asked_once ''revise_plan'' ''revise'')]\<rparr>"

definition second_plan :: execution_plan where
  "second_plan = first_plan\<lparr>
     xp_tasks := [sample_task ''draft'' [] [''time.now''] [], sample_task ''check'' [''draft''] [] [''post.md''],
       sample_task ''polish'' [''check''] [] []],
     xp_metadata := xp_metadata first_plan @
       [(''last_plan_delta_rationale'', JStr ''model planner delta''),
        (''last_plan_delta_diagnostics'', asked_once ''revise_plan'' ''revise'')]\<rparr>"

lemma sample_plans: "fst (initial_plan sample_planner sample_goal (world_of sample_session)) = Inr first_plan"
  by code_simp

lemma sample_revises:
  "fst (revise_plan sample_planner sample_goal first_plan [''longer''] (world_of sample_session)) = Inr first_delta"
  by code_simp

text \<open>A codec that tells the two plans apart by the number of their tasks.\<close>

definition sample_codec :: plan_codec where
  "sample_codec = plain_codec\<lparr>
     pc_plan_json := (\<lambda>p. JObj [(''tasks'', JInt (int (length (xp_tasks p))))]),
     pc_plan_load := (\<lambda>d. Inr (if dict_get d ''tasks'' = JInt 2 then first_plan else second_plan))\<rparr>"

definition goal_session :: runtime_session where
  "goal_session = sample_session\<lparr>rs_status := Session_RUNNING, rs_workflow_name := ''post'',
     rs_nodes := [(''draft'', new_node 0 ''draft''), (''check'', new_node 0 ''check'')],
     rs_metadata := as_session_metadata sample_codec first_plan\<rparr>"

lemma sample_delta_applies:
  "fst (apply_plan_delta sample_codec ''s1'' first_delta (world_of goal_session)) = Inr second_plan"
  by code_simp

lemma sample_codec_reads: "pc_plan_json sample_codec second_plan = JObj [(''tasks'', JInt 3)]"
  "pc_plan_load sample_codec [(''tasks'', JInt 3)] = Inr second_plan"
  by code_simp+

lemma sample_current: "fst (plan_for_session sample_codec ''s1'' (world_of goal_session)) = Inr first_plan"
  by code_simp

lemma sample_goal_plans: "goal_plan sample_planner sample_codec sample_goal first_plan"
  "goal_plan sample_planner sample_codec sample_goal second_plan"
proof -
  obtain w1 where "initial_plan sample_planner sample_goal (world_of sample_session) = (Inr first_plan, w1)"
    using sample_plans by (metis prod.collapse)
  then show first: "goal_plan sample_planner sample_codec sample_goal first_plan" by (rule plan_first)
  obtain w2 w3 w4 where
    "revise_plan sample_planner sample_goal first_plan [''longer''] (world_of sample_session) = (Inr first_delta, w2)"
    "plan_for_session sample_codec ''s1'' (world_of goal_session) = (Inr first_plan, w3)"
    "apply_plan_delta sample_codec ''s1'' first_delta (world_of goal_session) = (Inr second_plan, w4)"
    using sample_revises sample_current sample_delta_applies by (metis prod.collapse)
  then show "goal_plan sample_planner sample_codec sample_goal second_plan" by (rule plan_revised [OF first])
qed

definition goal_tools :: tool_registry where
  "goal_tools = sample_tools\<lparr>tr_tools := tr_tools sample_tools @
     [(''time.now'', sample_tool\<lparr>rt_name := ''time.now'', rt_enabled := False\<rparr>)]\<rparr>"

section \<open>Queued goals\<close>

definition sample_goal_services :: goal_services where
  "sample_goal_services = \<lparr>gg_orchestrator = sample_orchestrator, gg_nodes = sample_services, gg_specs_for = None,
     gg_codec = sample_codec, gg_planner = model_goal_planner sample_planner, gg_max_repairs = 1\<rparr>"

lemma sample_goal_services_ok: "goal_services_ok sample_goal_services"
proof -
  have "quiet_hooks (or_hooks sample_orchestrator)" using sample_quiet by (simp add: sample_orchestrator_def)
  then show ?thesis
    using sample_services_preserve model_planner_preserves
    by (simp add: goal_services_ok_def sample_goal_services_def model_goal_planner_def sample_planner_def)
qed

definition sample_queued :: queued_goal where
  "sample_queued = \<lparr>qg_args = default_args\<lparr>ra_store_path := Some (make_path ''/data/x.db''), ra_max_auto_repairs := Some 2\<rparr>,
     qg_build = (\<lambda>_. Inr sample_goal_services)\<rparr>"

lemma sample_queued_ok: "bundles_ok sample_queued"
  using sample_goal_services_ok by (simp add: bundles_ok_def sample_queued_def)

lemma sample_goal_created: "succeeds (create_queued_goal_session sample_queued sample_goal None) (world_of sample_session)"
  by code_simp


section \<open>Workers\<close>

definition ticking :: "nat \<Rightarrow> nat \<Rightarrow> rat" where
  "ticking k n = of_nat n"

lemma ticking_patient: "patient 2 ticking 1"
  unfolding patient_def ticking_def by (intro allI exI [of _ 0]) simp

definition goal_host :: "(timed_queue, world) queue_host" where
  "goal_host = queued_goal_host (memory_adapter 2 ticking) sample_queued (\<lambda>_. ([], ''Error'')) (\<lambda>_. 0)"

definition agent_host :: "(timed_queue, world) queue_host" where
  "agent_host = queue_worker_host (memory_adapter 2 ticking) (agent_runner sample_orchestrator)
     (\<lambda>_. ([], ''Error'')) (\<lambda>_. 0)"

definition sample_limits :: "int option \<Rightarrow> int option \<Rightarrow> bool \<Rightarrow> loop_limits" where
  "sample_limits iterations cycles retry = \<lparr>ll_timeout = Some 1, ll_retry = retry, ll_max_iterations = iterations,
     ll_max_idle = cycles, ll_stop = None\<rparr>"

lemma sample_draining: "draining goal_host (sample_limits None (Some 1) False) 2 ticking 1"
  "draining agent_host (sample_limits None (Some 1) False) 2 ticking 1"
  using ticking_patient
  by (simp_all add: draining_def goal_host_def queued_goal_host_def queue_worker_host_def agent_host_def sample_limits_def)

text \<open>A worker that runs a queued goal until its queue is dry.\<close>

lemma goal_worker_stops:
  "\<exists>st res st'. wk_world st = world_of goal_session \<and>
    worker_loop goal_host (sample_limits None (Some 1) False) st = Some (Done res, st')"
proof -
  obtain k s' where d: "drive_sessions (qh_run goal_host) (host_options goal_host) [''s1''] (world_of goal_session) = (k, s')"
    by force
  obtain res st' where
    "run_loop_with_transient_queue goal_host (sample_limits None (Some 1) False) [''s1''] (\<lambda>_. ''h'') (\<lambda>_. 0)
      (world_of goal_session) = Some (Done res, Some st')"
    using worker_drains [OF sample_draining(1) d] by blast
  then obtain q where "worker_loop goal_host (sample_limits None (Some 1) False) (worker_start q (world_of goal_session))
      = Some (Done res, st')"
    by (auto simp: run_loop_with_transient_queue_def split: outcome.splits)
  then show ?thesis
    by (intro exI [of _ "worker_start q (world_of goal_session)"] exI [of _ res] exI [of _ st'])
       (simp add: worker_start_def)
qed

definition broken_host :: "(timed_queue, world) queue_host" where
  "broken_host = agent_host\<lparr>qh_run := (\<lambda>i opts w. (Inl RuntimeError, w))\<rparr>"

lemma broken_poisoned: "poisoned i broken_host"
  by (simp add: poisoned_def broken_host_def)

section \<open>Redis\<close>

text \<open>
  A codec of three facts: the number of the attempt, a bar, and the token.
\<close>

definition sample_redis_codec :: redis_codec where
  "sample_redis_codec = \<lparr>
     jc_dumps = (\<lambda>d. replicate (case dict_get d ''attempt'' of JInt n \<Rightarrow> nat n | _ \<Rightarrow> 0) CHR ''x'' @ CHR ''|'' #
       (case dict_get d ''token'' of JStr t \<Rightarrow> t | _ \<Rightarrow> [])),
     jc_loads = (\<lambda>s. Some (JObj [(''token'', JStr (tl (dropWhile (\<lambda>c. c = CHR ''x'') s))),
       (''attempt'', JInt (int (length (takeWhile (\<lambda>c. c = CHR ''x'') s)))), (''metadata'', JObj [])])),
     jc_utf8 = Inr, jc_str = (\<lambda>_. []), jc_json_str = (\<lambda>_. [])\<rparr>"

lemma sample_redis_codec_faithful: "faithful_codec sample_redis_codec"
proof -
  have "takeWhile (\<lambda>c. c = CHR ''x'') (replicate n CHR ''x'' @ CHR ''|'' # t) = replicate n CHR ''x''"
    "dropWhile (\<lambda>c. c = CHR ''x'') (replicate n CHR ''x'' @ CHR ''|'' # t) = CHR ''|'' # t" for n t
    by (induction n) auto
  then show ?thesis by (simp add: faithful_codec_def sample_redis_codec_def dict_get_def)
qed

definition sample_redis :: "fake_redis redis_queue" where
  "sample_redis = \<lparr>rz_client = fake_client, rz_codec = sample_redis_codec, rz_stream = ''runs'', rz_group = ''workers'',
     rz_consumer = ''w1'', rz_dead = ''dead'', rz_visibility = Some 30, rz_max_attempts = Some 3,
     rz_delivery_hash = ''runs:deliveries'', rz_uuid = (\<lambda>n. replicate n CHR ''x''), rz_now = (\<lambda>_. 0)\<rparr>"

definition fresh_redis :: "fake_redis redis_state" where
  "fresh_redis = \<lparr>rs2_server = empty_redis, rs2_ready = False, rs2_closed = False, rs2_drawn = 0, rs2_reads = 0\<rparr>"


definition redis_entry :: "string \<times> entry_fields" where
  "redis_entry = (''1-0'', [(''session_id'', ''s1''), (''attempt'', ''0''), (''metadata'', ''|'')])"

definition redis_with :: "nat \<Rightarrow> (string \<times> int) option \<Rightarrow> string option \<Rightarrow> int \<Rightarrow> nat \<Rightarrow> nat \<Rightarrow> fake_redis redis_state" where
  "redis_with read_to delivered delivery now drawn reads = \<lparr>rs2_server =
     \<lparr>fr_streams = [(''runs'', [redis_entry])],
      fr_groups = [((''runs'', ''workers''), \<lparr>gr_last_sequence = read_to,
        gr_pending = (case delivered of None \<Rightarrow> []
          | Some (consumer, t) \<Rightarrow> [(''1-0'', \<lparr>pd_consumer = consumer, pd_delivered_at_ms = t\<rparr>)])\<rparr>)],
      fr_hashes = (case delivery of None \<Rightarrow> [] | Some text \<Rightarrow> [(''runs:deliveries'', [(''1-0'', text)])]),
      fr_closed = False, fr_sequence = 1, fr_now_ms = now\<rparr>,
    rs2_ready = True, rs2_closed = False, rs2_drawn = drawn, rs2_reads = reads\<rparr>"

definition redis_waiting :: "fake_redis redis_state" where
  "redis_waiting = redis_with 0 None None 0 0 1"

definition redis_taken :: "int \<Rightarrow> fake_redis redis_state" where
  "redis_taken now = redis_with 1 (Some (''w1'', 0)) (Some ''|redis-'') now 1 2"

definition redis_retaken :: "fake_redis redis_state" where
  "redis_retaken = redis_with 1 (Some (''w2'', 31000)) (Some ''x|redis-x'') 31000 2 3"

definition redis_place :: "string \<Rightarrow> pydict" where
  "redis_place consumer = [(''redis_stream'', JStr ''runs''), (''redis_stream_id'', JStr ''1-0''),
     (''redis_consumer_group'', JStr ''workers''), (''redis_consumer'', JStr consumer)]"

definition first_delivery :: queue_message where
  "first_delivery = \<lparr>qm_session_id = ''s1'', qm_enqueued_at = 0, qm_attempt = 0,
     qm_metadata = [(''token'', JStr []), (''attempt'', JInt 0), (''metadata'', JObj [])] @ redis_place ''w1'',
     qm_handle = ''1-0|redis-''\<rparr>"

definition second_delivery :: queue_message where
  "second_delivery = \<lparr>qm_session_id = ''s1'', qm_enqueued_at = 0, qm_attempt = 1,
     qm_metadata = [(''last_delivery_reason'', JStr ''visibility_timeout''),
       (''last_delivery_handle'', JStr ''1-0|redis-''), (''last_delivery_attempt'', JInt 0),
       (''delivery_attempt'', JInt 1)] @ redis_place ''w2'',
     qm_handle = ''1-0|redis-x''\<rparr>"

lemma redis_sample_steps:
  "snd (redis_enqueue sample_redis ''s1'' None fresh_redis) = redis_waiting"
  "isl (fst (redis_enqueue sample_redis ''s1'' None fresh_redis)) = False"
  "redis_dequeue sample_redis (Some 1) redis_waiting = (Inr (Some first_delivery), redis_taken 0)"
  "(redis_taken 0)\<lparr>rs2_server := redis_advance 31 (rs2_server (redis_taken 0))\<rparr> = redis_taken 31000"
  "redis_dequeue (sample_redis\<lparr>rz_consumer := ''w2''\<rparr>) (Some 1) (redis_taken 31000) =
     (Inr (Some second_delivery), redis_retaken)"
  "redis_ack sample_redis first_delivery redis_retaken = (Inr (), redis_retaken)"
  by code_simp+

lemma sample_redis_usable: "fake_usable sample_redis fresh_redis" "fake_bounded sample_redis fresh_redis"
  "inj (rz_uuid sample_redis)" "below_max sample_redis 0"
proof -
  show "fake_usable sample_redis fresh_redis"
    by (simp add: usable_redis_def sample_redis_def fresh_redis_def empty_redis_def fake_sound_def stream_log_def
        sample_redis_codec_faithful)
  show "fake_bounded sample_redis fresh_redis"
    by (simp add: attempts_bounded_def bounded_entries_def fresh_redis_def empty_redis_def stream_log_def hash_cell_def)
  show "inj (rz_uuid sample_redis)" unfolding sample_redis_def by (simp add: inj_def)
  show "below_max sample_redis 0" by (simp add: below_max_def sample_redis_def)
qed

lemma redis_taken_usable: "fake_usable sample_redis (redis_taken 31000)"
proof -
  have i: "''1-0'' = entry_id_of 1" by code_simp
  show ?thesis
    by (simp add: usable_redis_def sample_redis_def redis_taken_def redis_with_def fake_sound_def stream_log_def
        sample_redis_codec_faithful redis_entry_def) (use i in auto)
qed

section \<open>Files\<close>

text \<open>A file system that holds what was written.\<close>

definition written :: "os_effect list \<Rightarrow> py_path \<Rightarrow> string option" where
  "written h p = map_of (List.map_filter (\<lambda>e. case e of Wrote_text q text \<Rightarrow> Some (q, text) | _ \<Rightarrow> None) (rev h)) p"

definition sample_os :: os_world where
  "sample_os = \<lparr>os_resolve = (\<lambda>h p. path_join (make_path ''/work'') p), os_symlink = (\<lambda>h p. False),
     os_exists = (\<lambda>h p. written h p \<noteq> None), os_is_file = (\<lambda>h p. written h p \<noteq> None),
     os_is_dir = (\<lambda>h p. False), os_size = (\<lambda>h p. 0), os_list = (\<lambda>h p b. []),
     os_read = (\<lambda>h p. case written h p of None \<Rightarrow> Read_raised (''missing'', ''FileNotFoundError'') | Some s \<Rightarrow> Read_text s),
     os_refuses = (\<lambda>h e. None), os_answer = (\<lambda>h t. Inl (Http_other (''off'', ''OSError''))),
     os_process = (\<lambda>h t. \<lparr>pr_in_time = None, pr_running = True, pr_killable = True, pr_cleanup = None, pr_code = None\<rparr>),
     os_now = (\<lambda>h. 0), os_dumps = (\<lambda>v. []), os_loads = (\<lambda>s. Inl []), os_utf8 = Inr, os_utf8_length = int \<circ> length,
     os_decode = id, os_urlencode = (\<lambda>d. []), os_url_host = (\<lambda>s. Inr None), os_float = (\<lambda>s. Inl ValueError),
     os_repr = (\<lambda>v. []), os_seconds = (\<lambda>h. 0)\<rparr>"

lemma sample_os_keeps: "keeps_files sample_os"
  by (simp add: keeps_files_def sample_os_def written_def List.map_filter_def)

definition post_args :: pydict where
  "post_args = [(''path'', JStr ''out/post.md''), (''content'', JStr ''hello'')]"

lemma sample_write:
  "\<exists>x h. write_text_artifact sample_os post_args sample_context [] = (Inr x, h) \<and> xr_success x"
proof -
  have "(case fst (write_text_artifact sample_os post_args sample_context []) of Inr x \<Rightarrow> xr_success x | Inl _ \<Rightarrow> False)"
    by code_simp
  then show ?thesis
    by (cases "write_text_artifact sample_os post_args sample_context []") (auto split: sum.splits)
qed

section \<open>Verifiers\<close>

definition no_files :: file_system where
  "no_files = \<lparr>fs_resolve = id, fs_exists = (\<lambda>_. False), fs_read = (\<lambda>_. Inl RuntimeError)\<rparr>"

definition post_files :: file_system where
  "post_files = \<lparr>fs_resolve = id, fs_exists = (\<lambda>_. True), fs_read = (\<lambda>_. Inr ''text'')\<rparr>"

definition post_contract :: task_contract where
  "post_contract = empty_contract\<lparr>tk_expected_artifacts := [''post.md''], tk_quality_contract := Some
     \<lparr>qc_min_length = 0, qc_required_sections = [], qc_min_reference_urls = 0, qc_min_image_refs = 0,
      qc_min_local_image_refs = 0, qc_local_assets_contained = False,
      qc_semantic_rubric = Some \<lparr>sr_checks = [\<lparr>sc_name = ''clear'', sc_description = [], sc_min_score = 1 / 2\<rparr>],
        sr_enabled = True\<rparr>\<rparr>\<rparr>"

definition post_config :: pydict where
  "post_config = [(''task_contract'', JObj [])]"

definition sample_judge :: semantic_verifier where
  "sample_judge = \<lparr>sv_runtime = te_runtime sample_team_env, sv_role = ''judge'', sv_max_json_repairs = 1,
     sv_max_chars = 100, sv_loads = (\<lambda>_. None), sv_json_msg = (\<lambda>_. []), sv_raw_decode = (\<lambda>_. None),
     sv_dumps = (\<lambda>_. []), sv_float = (\<lambda>_. None), sv_repr = (\<lambda>_. []), sv_reason = (\<lambda>_. ([], [])), sv_truncated = []\<rparr>"

end
