(* ===== verification/Spec2Isabelle.thy ===== *)
theory Spec2Isabelle
  imports Goal_Samples Verification_Facts
begin

text \<open>
  A model of HydraMind, a multi-agent runtime: the durable session state and everything that may
  change it, the scheduling of workflow nodes and of team members, what agents do with models and
  tools, how goals are planned and verified, and the queues that hand sessions to workers. Paths are
  below \<^verbatim>\<open>src/src/hydramind/\<close>.

  The program. A session (\<^verbatim>\<open>RuntimeSession\<close>) is one run of a workflow blueprint: node
  states with their attempts and gates, an idempotency ledger, a repair budget and the durable
  interactions of teams. Workers take sessions from a queue, open a node execution, hold a lease
  on it, run an episode of models and tools while a heartbeat keeps the lease, and send a report. A
  goal is planned by a model, and its plan is the workflow that is run. \<^verbatim>\<open>ControlPlane\<close> turns reports, gate decisions and revisions into
  intents, and intents into calls of \<^verbatim>\<open>SessionService\<close>, the single writer: each of its
  methods reads the session from a versioned store, changes it, writes it back and publishes
  events.

  Theories, bottom up, with the code they model.
  \<^item> \<open>Hydra_Prelude\<close>: what is used of Python (text, JSON values, dictionaries as association
    lists in insertion order, time in microseconds), exceptions as values, the relations
    \<open>grows\<close> and \<open>extends\<close> on lists and dictionaries.
  \<^item> \<open>States\<close>: \<^verbatim>\<open>control/states.py\<close>; reachability along the transition tables.
  \<^item> \<open>Mas_Contracts\<close>, \<open>Protocol_Outcomes\<close>, \<open>Kernel_Scheduler\<close>: \<^verbatim>\<open>mas/contracts.py\<close>,
    \<^verbatim>\<open>mas/capability.py\<close>, \<^verbatim>\<open>mas/protocol_outcomes.py\<close>, \<^verbatim>\<open>kernel/contracts.py\<close>,
    \<^verbatim>\<open>kernel/scheduler.py\<close>. The locale \<open>scheduling_strategy\<close> is the contract of a
    strategy; the six strategies interpret it.
  \<^item> \<open>Models\<close>: \<^verbatim>\<open>control/models.py\<close>, \<^verbatim>\<open>control/interaction_state.py\<close>.
  \<^item> \<open>Session_Store\<close>: \<^verbatim>\<open>control/store.py\<close>, \<^verbatim>\<open>control/session_persistence.py\<close>; the
    locale \<open>versioned_store\<close>, interpreted by the memory store, which the SQLite store refines.
  \<^item> \<open>Py_Values\<close>, \<open>Redaction\<close>, \<open>Session_Events\<close>: \<^verbatim>\<open>datetime.isoformat\<close>,
    \<^verbatim>\<open>observability/redaction.py\<close>, \<^verbatim>\<open>events.py\<close>, \<^verbatim>\<open>emitter.py\<close>,
    \<^verbatim>\<open>control/session_observability.py\<close>.
  \<^item> \<open>Lease_Contract\<close>: the locale \<open>lease\<close>, interpreted by the leases of node executions
    (\<open>Session_Execution\<close>: \<^verbatim>\<open>control/session_execution.py\<close>) and of turns
    (\<open>Turn_Lease\<close>: \<^verbatim>\<open>control/interaction_turn_lease.py\<close>).
  \<^item> \<open>Session_Lifecycle\<close>, \<open>Node_Lifecycle\<close>, \<open>Session_Workflow\<close>,
    \<open>Durable_Interactions\<close>: the modules of \<^verbatim>\<open>control/\<close> with the like names and
    \<^verbatim>\<open>session_gates.py\<close>, \<^verbatim>\<open>session_interactions.py\<close>. Each is pure: a session in, an
    exception or a changed session out.
  \<^item> \<open>Session_History\<close>: the relation \<open>evolves\<close>, what no operation may undo.
  \<^item> \<open>Service_Monad\<close>, \<open>Session_Service\<close>, \<open>Service_Facts\<close>: the world of
    \<^verbatim>\<open>SessionService\<close>, all its methods, and the program logic \<open>spec\<close> that shows once
    per method that stored sessions only evolve. The locales \<open>session_relation\<close>,
    \<open>tool_relation\<close>, \<open>service_relation\<close> and \<open>recorder_relation\<close> extend one another; \<open>evolves\<close> and
    \<open>completes_nothing\<close> interpret all three.
  \<^item> \<open>Lease_Heartbeat\<close>: the heartbeat task of \<^verbatim>\<open>orchestration/agent_execution.py\<close>. Tasks are
    switched where an episode waits for a model or a tool; a beat that is due while an observer
    handles an event is taken at the next such wait.
  \<^item> \<open>Control_Plane\<close>, \<open>Control_Requests\<close>: the facade
    (\<^verbatim>\<open>control/control_plane.py\<close>, \<^verbatim>\<open>control_apply.py\<close>, \<^verbatim>\<open>control_reports.py\<close>,
    \<^verbatim>\<open>control_gate_decisions.py\<close>, \<^verbatim>\<open>control_decisions.py\<close>) and runs of its requests.
  \<^item> \<open>Ledger_Facts\<close>, \<open>Node_Effects\<close>: the functional effect of operations on the stored
    session, and what lasts through later requests.
  \<^item> \<open>Store_Race\<close>: clients of one store whose accesses are interleaved, as a step relation.
  \<^item> \<open>Workflow_Graph\<close>: \<^verbatim>\<open>orchestration/graph.py\<close>.
  \<^item> \<open>Queue_In_Memory\<close>: \<^verbatim>\<open>queue/base.py\<close>, \<^verbatim>\<open>queue/in_memory.py\<close>; the locale
    \<open>delivery_queue\<close>.
  \<^item> \<open>Py_Values\<close>, \<open>Gating\<close>, \<open>Report_Effects\<close>: \<^verbatim>\<open>gating/base.py\<close> and the
    evaluators of \<^verbatim>\<open>gating/evaluators/\<close>; the decision table of a report.
  \<^item> \<open>Episode_Types\<close>, \<open>Orchestrator\<close>, \<open>Orchestrator_Facts\<close>, \<open>Session_Progress\<close>: the
    contract of an execution harness (\<^verbatim>\<open>orchestration/execution_harness.py\<close>),
    \<^verbatim>\<open>orchestration/agent.py\<close> and the lease wrapper of \<^verbatim>\<open>agent_execution.py\<close>; that
    the loop keeps history and ends at rest, and that it ends at all.
  \<^item> \<open>Model_Routing\<close>: \<^verbatim>\<open>harness/routing.py\<close>.
  \<^item> \<open>Harness_Types\<close>, \<open>Tool_Registry\<close>, \<open>Redact_Text\<close>, \<open>Agent_Trace\<close>, \<open>Tool_Loop\<close>,
    \<open>Tool_Facts\<close>: \<^verbatim>\<open>harness/base.py\<close>, \<^verbatim>\<open>tools/base.py\<close>, \<^verbatim>\<open>tools/registry.py\<close>,
    \<^verbatim>\<open>orchestration/agent_tools.py\<close>, the model calls of \<^verbatim>\<open>agent_execution.py\<close>.
  \<^item> \<open>Team_Runtime\<close>, \<open>Team_Members\<close>, \<open>Team_Executor\<close>: \<^verbatim>\<open>collaboration_*.py\<close> and
    \<^verbatim>\<open>subagent_spawn.py\<close> of \<^verbatim>\<open>orchestration/\<close>: the scheduled turns of a team, how a
    member is driven, and the executor that records turn by turn and continues after a crash.
  \<^item> \<open>Team_Aggregate\<close>, \<open>Team_Facts\<close>, \<open>Team_Run\<close>: what a recorded turn does to the durable
    aggregate, the frame of what agents do (the relation \<open>same_teams\<close> interprets
    \<open>tool_relation\<close>), and the effect of a whole run. \<open>Team_Total\<close>: \<^verbatim>\<open>collaboration.py\<close>.
  \<^item> \<open>Memory_Store\<close>, \<open>Memory_Facts\<close>, \<open>Memory_Authority\<close>, \<open>Memory_Projection\<close>,
    \<open>Projection_Facts\<close>: the modules of \<^verbatim>\<open>memory/\<close>, \<^verbatim>\<open>observability/event_details.py\<close>
    and \<^verbatim>\<open>orchestration/memory_context.py\<close>: two stores and that they answer alike, the
    authority for writes, what the observers remember of a session, what a prompt gets of it. The
    locale \<open>memory_log\<close> is what the authority needs of a store; both stores interpret it.
  \<^item> \<open>Prompt_Context\<close>: \<^verbatim>\<open>orchestration/prompts.py\<close>, \<^verbatim>\<open>builtin_prompts/defaults.py\<close>,
    \<^verbatim>\<open>agent_context.py\<close>.
  \<^item> \<open>Node_Invocation\<close>, \<open>Invocation_Facts\<close>, \<open>Harness_Runs\<close>: \<^verbatim>\<open>agent_invocation.py\<close> and
    the two execution harnesses, \<^verbatim>\<open>execution_harness.py\<close> and
    \<^verbatim>\<open>explicit_submit_execution_harness.py\<close>; both interpret the locale \<open>execution_harness\<close>. With
    one of them in it the orchestrator is the whole program from a request to the store.
  \<^item> \<open>Goal_Plan\<close>, \<open>Plan_Payload\<close>, \<open>Plan_Facts\<close>, \<open>Goal_Planner\<close>: \<^verbatim>\<open>planning_contracts.py\<close>,
    \<^verbatim>\<open>planning_payloads.py\<close>, \<^verbatim>\<open>planning.py\<close>, \<^verbatim>\<open>planning_invocation.py\<close>,
    \<^verbatim>\<open>planning_diagnostics.py\<close>, \<^verbatim>\<open>builtin_prompts/planner.py\<close>: plans and their changes, how
    they are read from a model's answer, and what every accepted plan satisfies.
  \<^item> \<open>Goal_Agent\<close>, \<open>Goal_Facts\<close>, \<open>Goal_Scope\<close>: \<^verbatim>\<open>goal_agent.py\<close>, \<^verbatim>\<open>goal_agent_factory.py\<close>,
    \<^verbatim>\<open>goal_session_state.py\<close>, \<^verbatim>\<open>goal_repair.py\<close>, \<^verbatim>\<open>goal_repair_runtime.py\<close>: goals run,
    resumed, revised and repaired; the plans a goal can have, and the tools its nodes are offered.
  \<^item> \<open>Py_Paths\<close>, \<open>Verification\<close>, \<open>Semantic_Verification\<close>, \<open>Verification_Facts\<close>: what is used of
    \<^verbatim>\<open>pathlib\<close>, and \<^verbatim>\<open>verification.py\<close>, \<^verbatim>\<open>verification_content.py\<close>,
    \<^verbatim>\<open>verification_semantic.py\<close>: the verifiers of a task contract and what their verdicts mean.
  \<^item> \<open>Queue_Worker\<close>, \<open>Worker_Facts\<close>, \<open>Runtime_Settings\<close>: \<^verbatim>\<open>runtime_worker.py\<close>,
    \<^verbatim>\<open>runtime_queue.py\<close>, \<^verbatim>\<open>runtime_queue_goal.py\<close>, \<^verbatim>\<open>runtime_worker_readiness.py\<close>: one
    run of a worker, its loop, the goals it runs and the settings they are run with. The locale
    \<open>worker_queue\<close> is what a worker relies on; the in-memory queue and the Redis streams provide it.
  \<^item> \<open>Redis_Queue\<close>, \<open>Redis_Facts\<close>, \<open>Redis_Runs\<close>: \<^verbatim>\<open>queue/redis_stream.py\<close>,
    \<^verbatim>\<open>queue/redis_stream_support.py\<close> and the server \<^verbatim>\<open>tests/queue/fake_redis_streams.py\<close>. The
    locale \<open>redis_streams\<close> says what the adapter needs of a server; the server of the tests
    interprets it. \<open>redis_step\<close> interleaves the calls of many consumers.
  \<^item> \<open>Builtin_Tools\<close>, \<open>Tool_Confinement\<close>: \<^verbatim>\<open>tools/artifact_tools.py\<close>, \<^verbatim>\<open>process_tools.py\<close>,
    \<^verbatim>\<open>external_tools.py\<close>, \<^verbatim>\<open>time_tools.py\<close>, \<^verbatim>\<open>tool_utils.py\<close>, \<^verbatim>\<open>builtin.py\<close>: the shipped
    tools over a world of files, processes and requests, and that they stay within their context.
  \<^item> \<open>Samples\<close>, \<open>Goal_Samples\<close>: the concrete values of the witnesses.

  The properties below go from runs of the whole control plane to single components.

  Conventions. An exception is \<open>Inl\<close>. A call of \<^verbatim>\<open>now()\<close> or \<^verbatim>\<open>uuid4()\<close> is a reading
  from an arbitrary supply (\<open>op_env\<close>), so nothing depends on the clock or on the ids except
  where a lemma says so. Mutating a session in place and then writing it is returning the
  changed value; both stores copy on read and on write. Loops are recursive functions with
  termination proofs. Five carry fuel: \<open>drive\<close> and
  \<open>team_loop\<close>, for which one step more than the schedule is enough
  (\<open>interactions_follow_the_schedule\<close>, \<open>team_runs_are_exact\<close>; \<open>run_team\<close> gives it), \<open>dequeue_loop\<close>,
  for which two turns more than the clock readings before the deadline are enough
  (\<open>dequeue_returns\<close>), \<open>visit_requirements\<close>, for which the number of requirements is enough
  (\<open>upstream_order_total\<close>), and \<open>auto_repair_loop\<close>, whose fuel is the bound on repairs, of which
  every turn reserves one. The loop of a worker may run for ever: \<open>loop_from\<close> is a partial function, and
  not to return is \<open>None\<close> (\<open>worker_drains_its_queue\<close>, \<open>poisoned_worker_does_not_return\<close>).

  Parameters of the model. The gate function and the apply deriver are the caller's code;
  \<open>quiet_hooks\<close> says that they do not write the store, and it holds for the default ones. The
  JSON form of a session in SQLite is a pair \<open>dump\<close>, \<open>load\<close> of which \<open>sqlite_refines_memory\<close> assumes that
  reading gives back what was written. In \<open>drive\<close> what a member says is a function; in
  \<open>invoke_team\<close> it is what its model and tools make of it. The
  prompt library, the report builder, the verifier, the team of a node and the
  memory retriever are fields of \<open>node_services\<close>; \<open>services_preserve\<close> says that those that may
  touch the store keep its history. The schema of a schema check, \<^verbatim>\<open>repr\<close> of a value and
  \<^verbatim>\<open>float\<close> of a text are functions. A model provider is \<open>ag_complete\<close> and a tool handler is
  \<open>rt_handler\<close>; both may raise. JSON text, formatting and SHA-256 are \<open>ag_dumps\<close>,
  \<open>ag_loads\<close>, \<open>pf_dumps\<close>, \<open>pf_format\<close> and \<open>ag_sha256\<close>; only progress assumes of
  \<open>ag_loads\<close> that a text that begins with a brace is an object. The decoder of event details is
  \<open>detail_decoder\<close>. The row form of a memory entry is a pair \<open>dump\<close>, \<open>load\<close> as for sessions.

  When a heartbeat is due is \<open>ev_beats\<close>, arbitrary. Reading the planner's answers is \<open>plan_reader\<close>, the
  JSON form of plans \<open>plan_codec\<close>, the text of an exception \<open>pl_reason\<close>. Files that verifiers read are a
  \<open>file_system\<close>, contracts are loaded by a \<open>contract_loader\<close>, the judge's JSON by the fields \<open>sv_\<close> of
  \<open>semantic_verifier\<close>. A worker's queue, clock and runner are fields of \<open>queue_host\<close>; \<open>qg_build\<close>
  assembles the services of a queued goal, and \<open>bundles_ok\<close> says that what it assembles keeps the history of
  the store. A Redis client is a \<open>redis_client\<close> of commands and its texts a \<open>redis_codec\<close>, of which
  \<open>faithful_codec\<close> says that JSON text reads back. The shipped tools act on an \<open>os_world\<close>: what files,
  processes and hosts answer is any function of what was done before.

  Not modelled: the clients of model providers, the Celery publisher, governance reports, the
  assembly of a runtime from its options, the command line, the observers that write events to
  files and services, and the support for tests. They are input/output or glue around the parts above.
\<close>

section \<open>Runs of the control plane\<close>

text \<open>
  C1. History is never rewritten. Whatever requests the facade serves, in whatever order and with
  whatever failures, every session that was stored is stored afterwards as a later value: same
  identity, statuses moved only along the transition tables, attempts and gates only added,
  settled attempts kept, ledger entries and recorded messages kept, version not smaller.
\<close>

theorem requests_preserve_history:
  assumes "quiet_hooks h" "keyed (w_store w)" "memory_get (w_store w) i = Some s"
  shows "\<exists>t. memory_get (w_store (serve_all h rs w)) i = Some t \<and> rs_version s \<le> rs_version t \<and>
    evolves s (t\<lparr>rs_version := rs_version s\<rparr>)"
  using serve_all_later [OF assms, of rs] by (simp add: later_def)

lemma requests_preserve_history_witness:
  "\<exists>t. memory_get (w_store (serve_all sample_hooks sample_requests (world_of sample_session))) ''s1''
      = Some t \<and> rs_version sample_session \<le> rs_version t \<and>
    evolves sample_session (t\<lparr>rs_version := rs_version sample_session\<rparr>)"
  by (rule requests_preserve_history [OF sample_quiet sample_store(1,2)])

text \<open>
  C2. Decision authority for completion (ADR-0008). Unless the orchestrator's
  \<^verbatim>\<open>record_session_complete\<close> is among the requests, no session becomes completed: no
  report, gate decision, recovery or revision completes one.
\<close>

theorem only_orchestrator_completes:
  assumes "quiet_hooks h" "keyed (w_store w)" "memory_get (w_store w) i = Some s"
    and "\<forall>sid summary. Session_complete sid summary \<notin> set rs"
  shows "\<exists>t. memory_get (w_store (serve_all h rs w)) i = Some t \<and>
    (rs_status t = Session_COMPLETED \<longrightarrow> rs_status s = Session_COMPLETED)"
proof -
  have "store_later completes_nothing (w_store w) (w_store (serve_all h rs w))"
    using quiet_cp.serve_all_run [OF assms(1,2), of rs] assms(4) by blast
  then show ?thesis
    using assms(3) by (fastforce simp: store_later_def later_def completes_nothing_def)
qed

lemma only_orchestrator_completes_witness:
  "\<exists>t. memory_get (w_store (serve_all sample_hooks sample_requests (world_of sample_session))) ''s1''
      = Some t \<and> (rs_status t = Session_COMPLETED \<longrightarrow> rs_status sample_session = Session_COMPLETED)"
  by (rule only_orchestrator_completes [OF sample_quiet sample_store(1,2)])
     (simp add: sample_requests_def)

text \<open>
  A node execution that has ended keeps its record. The output, error, end time and status of
  an attempt that is not running are the same after every request, and a failed node stays
  failed.
\<close>

lemma settled_work_is_kept:
  assumes "quiet_hooks h" "keyed (w_store w)" "memory_get (w_store w) i = Some s"
    "session_node s k = Some n" "j < length (ns_attempts n)"
    "na_status (ns_attempts n ! j) \<noteq> Attempt_RUNNING"
  shows "\<exists>t m. memory_get (w_store (serve_all h rs w)) i = Some t \<and> session_node t k = Some m \<and>
    j < length (ns_attempts m) \<and>
    na_output (ns_attempts m ! j) = na_output (ns_attempts n ! j) \<and>
    na_error (ns_attempts m ! j) = na_error (ns_attempts n ! j) \<and>
    na_finished_at (ns_attempts m ! j) = na_finished_at (ns_attempts n ! j) \<and>
    na_status (ns_attempts m ! j) = na_status (ns_attempts n ! j) \<and>
    (ns_status n = Node_FAILED \<longrightarrow> ns_status m = Node_FAILED)"
proof -
  obtain t where t: "memory_get (w_store (serve_all h rs w)) i = Some t" "later evolves s t"
    using serve_all_later [OF assms(1-3)] by blast
  let ?t = "t\<lparr>rs_version := rs_version s\<rparr>"
  have e: "evolves s ?t" by (rule later_evolves(1) [OF t(2)])
  obtain m where m: "session_node t k = Some m" "j < length (ns_attempts m)"
      "attempt_evolves (ns_attempts n ! j) (ns_attempts m ! j)"
    using evolves_attempt [OF e assms(4,5)] by auto
  have "ns_status n = Node_FAILED \<longrightarrow> ns_status m = Node_FAILED"
    using evolves_failed_node [OF e assms(4)] m(1) by auto
  moreover have "na_status (ns_attempts m ! j) = na_status (ns_attempts n ! j)"
    using m(3) assms(6) unfolding attempt_evolves_def attempt_reaches_cases by auto
  ultimately show ?thesis
    using t(1) m assms(6) unfolding attempt_evolves_def by blast
qed

lemma settled_work_is_kept_witness:
  "\<exists>t m. memory_get (w_store (serve_all sample_hooks sample_requests (world_of
      (set_node ''build'' ((new_node 0 ''build'')\<lparr>ns_attempts :=
         [(new_attempt ''a0'' 1 ''build'' 1 None)\<lparr>na_status := Attempt_FAILED\<rparr>]\<rparr>) sample_session))))
      ''s1'' = Some t \<and> session_node t ''build'' = Some m \<and> 0 < length (ns_attempts m) \<and>
    na_status (ns_attempts m ! 0) = Attempt_FAILED"
  using settled_work_is_kept [OF sample_quiet world_of_keyed,
      of "set_node ''build'' ((new_node 0 ''build'')\<lparr>ns_attempts :=
         [(new_attempt ''a0'' 1 ''build'' 1 None)\<lparr>na_status := Attempt_FAILED\<rparr>]\<rparr>) sample_session"
         "''s1''" _ "''build''" _ 0 sample_requests]
  by (force simp: memory_get_def set_node_def session_node_def)

text \<open>
  C3. Optimistic concurrency is enough. Clients read, change and write their own copies with any
  interleaving; each local change evolves the copy. Whatever happens, a stored session is only
  ever replaced by a later value of itself, so no interleaving loses an attempt, a gate, a ledger
  entry or a message that was stored.
\<close>

theorem racing_clients_preserve_history:
  assumes "(race_step evolves)\<^sup>*\<^sup>* (race_start st) r" "keyed st" "memory_get st i = Some s"
  shows "\<exists>t. memory_get (ra_store r) i = Some t \<and> rs_version s \<le> rs_version t \<and>
    evolves s (t\<lparr>rs_version := rs_version s\<rparr>)"
  using hist.race_stored [OF assms(1) race_ok_start [OF assms(2)], of i s] assms(3)
  by (simp add: race_start_def later_def)

lemma racing_clients_preserve_history_witness:
  "\<exists>t. memory_get (ra_store (race_start (w_store (world_of sample_session))\<lparr>ra_held :=
      [0 \<mapsto> sample_session, 1 \<mapsto> sample_session\<lparr>rs_summary_output := [(''x'', JNull)]\<rparr>]\<rparr>)) ''s1'' = Some t
    \<and> rs_version sample_session \<le> rs_version t \<and>
    evolves sample_session (t\<lparr>rs_version := rs_version sample_session\<rparr>)"
proof (rule racing_clients_preserve_history [OF _ sample_store(1,2)])
  let ?r = "race_start (w_store (world_of sample_session))"
  have r0: "race_step evolves ?r (?r\<lparr>ra_held := (ra_held ?r)(0 \<mapsto> sample_session)\<rparr>)"
    by (rule race_read [where i = "''s1''"]) (simp add: race_start_def sample_store(2) del: world_of_store)
  have r1: "race_step evolves (?r\<lparr>ra_held := [0 \<mapsto> sample_session]\<rparr>)
      (?r\<lparr>ra_held := [0 \<mapsto> sample_session, 1 \<mapsto> sample_session]\<rparr>)"
    using race_read [of "?r\<lparr>ra_held := [0 \<mapsto> sample_session]\<rparr>" "''s1''" sample_session evolves 1]
    by (simp add: race_start_def sample_store(2) del: world_of_store)
  have r2: "race_step evolves (?r\<lparr>ra_held := [0 \<mapsto> sample_session, 1 \<mapsto> sample_session]\<rparr>)
      (?r\<lparr>ra_held := [0 \<mapsto> sample_session, 1 \<mapsto> sample_session\<lparr>rs_summary_output := [(''x'', JNull)]\<rparr>]\<rparr>)"
    using race_change [of "?r\<lparr>ra_held := [0 \<mapsto> sample_session, 1 \<mapsto> sample_session]\<rparr>" 1 sample_session
        evolves "sample_session\<lparr>rs_summary_output := [(''x'', JNull)]\<rparr>"]
    by simp
  show "(race_step evolves)\<^sup>*\<^sup>* ?r (?r\<lparr>ra_held := [0 \<mapsto> sample_session, 1 \<mapsto>
      sample_session\<lparr>rs_summary_output := [(''x'', JNull)]\<rparr>]\<rparr>)"
    using r0 r1 r2 by (auto simp: race_start_def intro: converse_rtranclp_into_rtranclp)
qed

section \<open>Runs of the orchestrator\<close>

text \<open>
  C4. The loop leaves a session at rest. The orchestrator runs either execution harness, with or
  without an execution owner; with one, heartbeats write the store while an episode waits for a
  model or a tool, any number of them, and one that fails replaces the result of its episode. Whatever
  the models, tools, teams and heartbeats do or raise while \<^verbatim>\<open>run_session\<close> works, the stored
  session is afterwards a later value of itself; and when the call returns a decision, the session
  waits for a gate or is completed, failed or cancelled.
\<close>

theorem sessions_come_to_rest:
  assumes "quiet_hooks (or_hooks orch)" "services_preserve evolves nv"
    "running \<in> {with_hydramind_harness nv orch, with_explicit_harness nv orch}"
    "keyed (w_store w)" "memory_get (w_store w) i = Some s"
  shows "\<exists>t. memory_get (w_store (snd (run_session running opts i w))) i = Some t \<and>
    rs_version s \<le> rs_version t \<and> evolves s (t\<lparr>rs_version := rs_version s\<rparr>) \<and>
    ((\<exists>d. fst (run_session running opts i w) = Inr d) \<longrightarrow>
      rs_status t \<in> {Session_WAITING_GATE, Session_COMPLETED, Session_FAILED, Session_CANCELLED})"
proof -
  have "quiet_hooks (or_hooks running)" "\<And>q. preserves evolves (or_harness running q)"
    using assms(1,3) hist_ops.hydramind_preserves [OF assms(2)] hist_ops.explicit_preserves [OF assms(2)]
    by auto
  from run_session_rests [OF this assms(4,5)] show ?thesis .
qed

lemma sessions_come_to_rest_witness:
  "\<exists>t. memory_get (w_store (snd (run_session (with_explicit_harness sample_services sample_orchestrator)
      default_options ''s1'' (world_of running_plan_session)))) ''s1'' = Some t \<and>
    evolves running_plan_session (t\<lparr>rs_version := rs_version running_plan_session\<rparr>)"
proof -
  have q: "quiet_hooks (or_hooks sample_orchestrator)"
    using sample_quiet by (simp add: sample_orchestrator_def)
  have s: "keyed (w_store (world_of running_plan_session))"
      "memory_get (w_store (world_of running_plan_session)) ''s1'' = Some running_plan_session"
    using running_plan_stores by (simp_all add: stores_def del: world_of_store)
  have m: "with_explicit_harness sample_services sample_orchestrator \<in>
      {with_hydramind_harness sample_services sample_orchestrator,
       with_explicit_harness sample_services sample_orchestrator}" by simp
  show ?thesis using sessions_come_to_rest [OF q sample_services_preserve m s, of default_options] by blast
qed

text \<open>
  C5. A started session runs to its end. For a workflow that has an order and fewer nodes than the
  step bound, without gates, observers that may fail or an execution owner, whose nodes are run by
  the default harness directly or by a subagent, with the built-in prompts and a model that
  answers, \<^verbatim>\<open>run_session\<close> returns, every node is completed and the session is completed.
\<close>

theorem default_agents_complete:
  assumes "start_session running inp md w = (Inr s, w1)" "keyed (w_store w)" "calm w"
    "running = with_hydramind_harness nv orch"
    "topological (or_workflow orch) = Inr order" "distinct (blueprint_keys (or_workflow orch))"
    "wb_nodes (or_workflow orch) \<noteq> []" "length (wb_nodes (or_workflow orch)) < or_max_steps orch"
    "ungated (or_hooks orch)" "ro_owner opts = None"
    "plain_services nv (or_workflow orch)" "answering_model (te_runtime (nv_team nv))"
  shows "\<exists>d w2 t. run_session running opts (rs_id s) w1 = (Inr d, w2) \<and> rd_kind d = Decided_COMPLETE \<and>
    stores w2 (rs_id s) t \<and> rs_status t = Session_COMPLETED \<and>
    (\<forall>k \<in> set (blueprint_keys (or_workflow orch)). node_completed_in t k)"
proof -
  have "cooperative running (rs_id s)"
    unfolding assms(4) by (rule hydramind_cooperates [OF assms(11,12)]) (use topological_known [OF assms(5)] in \<open>auto simp: all_requirements_def\<close>)
  from created_session_runs [OF assms(1-3) _ _ _ _ _ this] assms(5-10) show ?thesis
    by (simp add: assms(4))
qed

lemma default_agents_complete_witness:
  "\<exists>s w1 d w2 t. start_session (with_hydramind_harness sample_services sample_orchestrator) [] []
      (world_of sample_session) = (Inr s, w1) \<and>
    run_session (with_hydramind_harness sample_services sample_orchestrator) default_options (rs_id s) w1
      = (Inr d, w2) \<and>
    stores w2 (rs_id s) t \<and> rs_status t = Session_COMPLETED \<and>
    node_completed_in t ''plan'' \<and> node_completed_in t ''build''"
proof -
  let ?start = "start_session (with_hydramind_harness sample_services sample_orchestrator) [] []"
  have "succeeds ?start (world_of sample_session)" by code_simp
  then obtain s w1 where r: "?start (world_of sample_session) = (Inr s, w1)"
    using succeedsD by blast
  have c: "calm (world_of sample_session)" by (simp add: calm_def world_of_def)
  have o: "topological (or_workflow sample_orchestrator) = Inr [''plan'', ''build'']" by code_simp
  have k: "blueprint_keys (or_workflow sample_orchestrator) = [''build'', ''plan'']" by code_simp
  have n: "wb_nodes (or_workflow sample_orchestrator) \<noteq> []"
      "length (wb_nodes (or_workflow sample_orchestrator)) < or_max_steps sample_orchestrator"
    by (simp_all add: sample_orchestrator_def sample_blueprint_def)
  have d: "distinct (blueprint_keys (or_workflow sample_orchestrator))" by (simp add: k)
  have w: "ro_owner default_options = None" by (simp add: default_options_def)
  have p: "plain_services sample_services (or_workflow sample_orchestrator)"
    using sample_services_plain by (simp add: sample_orchestrator_def)
  from default_agents_complete [OF r sample_store(1) c refl o d n sample_ungated w p sample_answering] r
  show ?thesis by (simp add: k) blast
qed

text \<open>
  C6. What a failed execution makes of its node. The loop turns an exception into a report whose
  error is the text of the exception. With a text the node and the session fail; an exception
  without text (\<^verbatim>\<open>TimeoutError()\<close>, a bare \<^verbatim>\<open>assert\<close>) makes a report that counts as
  free of errors, and the node that failed is completed.
\<close>

theorem failed_episode_decides_node:
  assumes "open_runtime_decision None default_apply_deriver i (failed_report k sp x tr tok msg) w = (Inr d, w')"
    "stores w i s" "session_node s k = Some n" "ns_key n = k"
  shows "\<exists>t m. stores w' i t \<and> session_node t k = Some m \<and>
    (if msg = [] then rd_kind d = Decided_CONTINUE \<and> ns_status m = Node_COMPLETED
     else rd_kind d = Decided_FAIL \<and> ns_status m = Node_FAILED \<and> rs_status t = Session_FAILED)"
  using failed_report_decided [OF assms] by (auto simp: decided_def split: if_splits)

lemma failed_episode_decides_node_witness:
  "\<exists>d w' t m. open_runtime_decision None default_apply_deriver ''s1''
      (failed_report ''plan'' (wb_nodes sample_blueprint ! 1) ''a1'' ''tr'' None []) (world_of running_plan_session)
      = (Inr d, w') \<and> stores w' ''s1'' t \<and> session_node t ''plan'' = Some m \<and>
    ns_status m = Node_COMPLETED"
proof -
  let ?m = "open_runtime_decision None default_apply_deriver ''s1''
      (failed_report ''plan'' (wb_nodes sample_blueprint ! 1) ''a1'' ''tr'' None [])"
  have "succeeds ?m (world_of running_plan_session)" by code_simp
  then obtain d w' where r: "?m (world_of running_plan_session) = (Inr d, w')"
    using succeedsD by blast
  from failed_episode_decides_node [OF r running_plan_stores running_plan_node] r
  show ?thesis by (fastforce simp: new_node_def)
qed

section \<open>Ledger, tool effects and repair budget\<close>

text \<open>
  C7. Exactly once. After one caller has claimed an idempotency key, every later claim of the key
  is refused and changes nothing, whatever requests were served in between.
\<close>

theorem idempotency_key_claimed_once:
  assumes "claim_idempotency_key i k kind detail w = (Inr True, w1)" "keyed (w_store w)"
    "quiet_hooks h"
  shows "claim_idempotency_key i k kind2 detail2 (serve_all h rs w1) = (Inr False, serve_all h rs w1)"
proof -
  obtain s r where s: "memory_get (w_store w1) i = Some s" "keyed (w_store w1)"
      "map_of (rs_processed_idempotency_keys s) k = Some r"
    using claim_True [OF assms(1,2)] by blast
  then obtain t where "memory_get (w_store (serve_all h rs w1)) i = Some t"
      "map_of (rs_processed_idempotency_keys t) k = Some r"
    using serve_all_ledger [OF assms(3)] by blast
  then show ?thesis using claim_seen claim_key_nonempty [OF assms(1)] by blast
qed

lemma idempotency_key_claimed_once_witness:
  "\<exists>w1. claim_idempotency_key ''s1'' ''goal-1'' ''queue'' None (world_of sample_session) = (Inr True, w1) \<and>
    claim_idempotency_key ''s1'' ''goal-1'' ''queue'' None (serve_all sample_hooks sample_requests w1)
      = (Inr False, serve_all sample_hooks sample_requests w1)"
proof -
  have "fst (claim_idempotency_key ''s1'' ''goal-1'' ''queue'' None (world_of sample_session)) = Inr True"
    by code_simp
  then obtain w1 where
    c: "claim_idempotency_key ''s1'' ''goal-1'' ''queue'' None (world_of sample_session) = (Inr True, w1)"
    by (cases "claim_idempotency_key ''s1'' ''goal-1'' ''queue'' None (world_of sample_session)") auto
  show ?thesis
    using idempotency_key_claimed_once [OF c sample_store(1) sample_quiet] c by blast
qed

text \<open>
  A tool effect is recorded once and read back. The first result recorded under a fingerprint
  is what every later lookup returns, and recording another result for it changes nothing.
\<close>

lemma tool_effect_roundtrip:
  assumes "keyed (w_store w)" "quiet_hooks h" "fp \<noteq> []" "memory_get (w_store w) i = Some s"
    "map_of (rs_processed_idempotency_keys s) (tool_effect_key i fp) = None"
  shows "\<exists>w1. record_tool_effect_result i fp c content w = (Inr (), w1) \<and>
    (let w2 = serve_all h rs w1 in
      lookup_tool_effect_result i fp w2 = (Inr (Some (c, content)), w2) \<and>
      record_tool_effect_result i fp c2 content2 w2 = (Inr (), w2))"
proof -
  obtain w1 where r: "record_tool_effect_result i fp c content w = (Inr (), w1)"
    and k: "keyed (w_store w1)" and e: "effect_recorded w1 i fp c content"
    using record_effect_fresh [OF assms(1,3,4,5)] by blast
  have "effect_recorded (serve_all h rs w1) i fp c content"
    by (rule serve_all_effect [OF assms(2) k e])
  with r lookup_effect [OF this assms(3)] record_effect_again [OF this] show ?thesis
    by (simp add: Let_def)
qed

lemma tool_effect_roundtrip_witness:
  "\<exists>w1. record_tool_effect_result ''s1'' ''write:a.txt'' ''call-1'' ''ok'' (world_of sample_session) = (Inr (), w1) \<and>
    (let w2 = serve_all sample_hooks sample_requests w1 in
      lookup_tool_effect_result ''s1'' ''write:a.txt'' w2 = (Inr (Some (''call-1'', ''ok'')), w2) \<and>
      record_tool_effect_result ''s1'' ''write:a.txt'' ''call-2'' ''other'' w2 = (Inr (), w2))"
  by (rule tool_effect_roundtrip [OF sample_store(1) sample_quiet _ sample_store(2)])
     (simp_all add: sample_session_def)

text \<open>
  C8. The repair budget holds over restarts. However many reservations are tried, with whatever
  requests between them, the granted ones and those made before never exceed the budget.
\<close>

theorem repair_budget_never_exceeded:
  assumes "quiet_hooks h" "keyed (w_store w)" "memory_get (w_store w) i = Some s"
    "reserve_runs h i most rss w = (bs, w')" "int (rs_auto_repair_attempts_used s) \<le> most"
  shows "int (rs_auto_repair_attempts_used s) + int (length (filter id bs)) \<le> most"
  using reserve_runs_bound [OF assms(1-4)] assms(5) by auto

lemma repair_budget_never_exceeded_witness:
  "\<exists>bs w'. reserve_runs sample_hooks ''s1'' 2 [[], sample_requests, [], []] (world_of sample_session)
      = (bs, w') \<and> int (length (filter id bs)) \<le> 2"
proof -
  obtain bs w' where r: "reserve_runs sample_hooks ''s1'' 2 [[], sample_requests, [], []]
      (world_of sample_session) = (bs, w')"
    by force
  have "rs_auto_repair_attempts_used sample_session = 0" by (simp add: sample_session_def)
  with repair_budget_never_exceeded [OF sample_quiet sample_store(1,2) r] r show ?thesis by auto
qed

section \<open>Composed gates\<close>

text \<open>
  C9. Halts win. The gate function of a registry answers with the first answer of an applicable
  evaluator that blocks or requires a decision, whatever passed before it; otherwise it passes if
  any evaluator did and is silent if none spoke. A block by an advisory evaluator is an error. This
  is what the comment on \<^verbatim>\<open>to_gate_fn\<close> says; the docstring of the class, that the first answer
  wins, is out of date.
\<close>

theorem gates_compose_by_first_halt:
  assumes "\<forall>e \<in> set es. settles e s n r (a e)"
  shows "outcome_of (fst (to_gate_fn es s n r w)) = verdict (answers a es n r)"
  using registry_verdict [OF assms] .

lemma gates_compose_by_first_halt_witness:
  "outcome_of (fst (to_gate_fn sample_registry running_plan_session sample_plan
      (sample_report ''plan'' [failed_check]) (world_of running_plan_session)))
    = Inr (Some Gate_REQUIRES_DECISION)"
proof -
  let ?r = "sample_report ''plan'' [failed_check]" and ?s = running_plan_session
  let ?a = "\<lambda>e. if ge_name e = ''verifier_feedback'' then Some Gate_REQUIRES_DECISION else Some Gate_PASS"
  have "judged_results (\<lambda>_. []) ?s sample_plan ?r \<noteq> []"
      "list_ex (\<lambda>v. \<not> vr_passed v) (judged_results (\<lambda>_. []) ?s sample_plan ?r)"
    by (simp_all add: judged_results_def sample_report_def failed_check_def)
  then have "\<forall>e \<in> set sample_registry. settles e ?s sample_plan ?r (?a e)"
    using verifier_settles [of "\<lambda>_. []" None ?s sample_plan ?r]
      schema_settles [of sample_contract "''Out''" "\<lambda>_. None" ?s sample_plan ?r]
    by (simp add: sample_registry_def verifier_feedback_def schema_check_def Let_def)
  note v = gates_compose_by_first_halt [OF this]
  have "answers ?a sample_registry sample_plan ?r
      = [(Severity_ADVISORY, Some Gate_PASS), (Severity_ADVISORY, Some Gate_REQUIRES_DECISION)]"
    by (simp add: answers_def applicable_def sample_registry_def verifier_feedback_def schema_check_def
        Let_def applies_def sample_contract_def feedback_contract_def)
  then show ?thesis unfolding v by (simp add: verdict_def)
qed

text \<open>
  C10. A failed verifier is never ignored. When the verifier evaluator is registered, among whatever
  others, a report with a failed verifier result never lets the session continue: its node waits
  for its gate with the session, or both have failed.
\<close>

theorem failed_verifier_stops_node:
  assumes "open_runtime_decision (Some (to_gate_fn es)) default_apply_deriver i r w = (Inr d, w')"
    "stores w i s" "session_node s (ar_node_key r) = Some n" "ns_key n = ar_node_key r"
    "\<forall>e \<in> set es. quiet_gate (ge_evaluate e)" "verifier_feedback repr_of None \<in> set es"
    "v \<in> set (ar_verifier_results r)" "\<not> vr_passed v"
  shows "rd_kind d \<noteq> Decided_CONTINUE \<and>
    (\<exists>t m. stores w' i t \<and> session_node t (ar_node_key r) = Some m \<and>
      ns_status m \<in> {Node_PENDING_GATE, Node_FAILED} \<and>
      rs_status t \<in> {Session_WAITING_GATE, Session_FAILED})"
proof (rule demanded_decision_stops [OF assms(1-6)])
  show "applies (ge_contract (verifier_feedback repr_of None)) k (ar_boundary_event r)" for k
    by (simp add: verifier_feedback_def feedback_contract_def applies_def Let_def)
  show "settles (verifier_feedback repr_of None) t m r (Some Gate_REQUIRES_DECISION)" for t m
  proof -
    have "judged_results repr_of t m r \<noteq> []" "list_ex (\<lambda>v. \<not> vr_passed v) (judged_results repr_of t m r)"
      using assms(7,8) by (auto simp: judged_results_def list_ex_iff)
    with verifier_settles [of repr_of None t m r] show ?thesis by simp
  qed
qed

lemma failed_verifier_stops_node_witness:
  "\<exists>d w' t m. open_runtime_decision (Some (to_gate_fn sample_registry)) default_apply_deriver ''s1''
      (sample_report ''plan'' [failed_check]) (world_of running_plan_session) = (Inr d, w') \<and>
    rd_kind d \<noteq> Decided_CONTINUE \<and> stores w' ''s1'' t \<and> session_node t ''plan'' = Some m \<and>
    ns_status m \<in> {Node_PENDING_GATE, Node_FAILED}"
proof -
  let ?r = "sample_report ''plan'' [failed_check]"
  let ?m = "open_runtime_decision (Some (to_gate_fn sample_registry)) default_apply_deriver ''s1'' ?r"
  have "succeeds ?m (world_of running_plan_session)" by code_simp
  then obtain d w' where r: "?m (world_of running_plan_session) = (Inr d, w')"
    using succeedsD by blast
  have n: "session_node running_plan_session (ar_node_key ?r) =
      Some ((new_node 0 ''plan'')\<lparr>ns_status := Node_RUNNING, ns_attempts := [sample_attempt]\<rparr>)"
    using running_plan_node by (simp add: sample_report_def)
  from failed_verifier_stops_node [OF r running_plan_stores n _ sample_registry_quiet, of "\<lambda>_. []" failed_check] r
  show ?thesis by (fastforce simp: new_node_def sample_report_def sample_registry_def failed_check_def)
qed

section \<open>Gates and node results\<close>

text \<open>
  C11. Approving a gate completes its node. The decision leaves the node completed and the session
  running again, touches no other node, and closes the running attempt as succeeded. The attempt's
  output afterwards is empty: the intent derived from a decision carries no output, and the output
  that the report had left on the attempt is overwritten.
\<close>

theorem approved_gate_completes_node:
  assumes "apply_decision i d w = (Inr rd, w')" "stores w i s" "gate_of_node s (gi_gate_id d) k"
    "gi_action d = Decision_APPROVE"
  shows "\<exists>t n m. stores w' i t \<and> session_node s k = Some n \<and>
    session_node t = (session_node s)(k \<mapsto> m) \<and> ns_status m = Node_COMPLETED \<and>
    attempt_closed n m Attempt_SUCCEEDED (\<lambda>a b. na_output b = []) \<and>
    rs_status t = rerunning (resumed (rs_status s))"
  using apply_decision_approve [OF assms] .

lemma approved_gate_completes_node_witness:
  "\<exists>rd w' t n m. apply_decision ''s1'' (sample_decision Decision_APPROVE) (world_of sample_session)
      = (Inr rd, w') \<and> stores w' ''s1'' t \<and> session_node sample_session ''plan'' = Some n \<and>
    na_output (last (ns_attempts n)) = [(''k'', JStr ''v'')] \<and>
    session_node t ''plan'' = Some m \<and> ns_status m = Node_COMPLETED \<and>
    na_output (last (ns_attempts m)) = [] \<and> rs_status t = Session_RUNNING"
proof -
  have "succeeds (apply_decision ''s1'' (sample_decision Decision_APPROVE)) (world_of sample_session)"
    by code_simp
  then obtain rd w' where r: "apply_decision ''s1'' (sample_decision Decision_APPROVE)
      (world_of sample_session) = (Inr rd, w')"
    using succeedsD by blast
  have g: "gate_of_node sample_session (gi_gate_id (sample_decision Decision_APPROVE)) ''plan''"
    by code_simp
  obtain t n m where t: "stores w' ''s1'' t" "session_node sample_session ''plan'' = Some n"
      "session_node t = (session_node sample_session)(''plan'' \<mapsto> m)" "ns_status m = Node_COMPLETED"
      "attempt_closed n m Attempt_SUCCEEDED (\<lambda>a b. na_output b = [])"
      "rs_status t = rerunning (resumed (rs_status sample_session))"
    using approved_gate_completes_node [OF r sample_store(3) g]
    by (auto simp: sample_decision_def)
  have n: "n = sample_plan" using t(2) by (simp add: session_node_def sample_session_def)
  have "running_attempt n = Some sample_attempt"
    by (simp add: n sample_plan_def new_node_def running_attempt_def latest_attempt_def
        sample_attempt_def new_attempt_def)
  then have "na_output (last (ns_attempts m)) = []"
    using t(5) by (auto simp: attempt_closed_def)
  moreover have "na_output (last (ns_attempts n)) = [(''k'', JStr ''v'')]"
    by (simp add: n sample_plan_def new_node_def sample_attempt_def)
  ultimately show ?thesis
    using r t by (auto simp: resumed_def rerunning_def)
qed

section \<open>Leases and recovery\<close>

text \<open>
  C12. One worker at a time. After an execution lease is granted, no grant for the same execution
  succeeds in that session before the lease expires, whoever asks and whatever token they bring.
\<close>

theorem execution_lease_exclusive:
  assumes "grant_execution_lease k x owner ttl given fresh now s = Inr (a, s')"
    "t < now + timedelta_seconds ttl"
  shows "\<exists>e. grant_execution_lease k2 x owner2 ttl2 given2 fresh2 t s' = Inl e"
  using session_lease_exclusive [OF assms] .

lemma execution_lease_exclusive_witness:
  "\<exists>a s' e. grant_execution_lease ''plan'' ''a1'' ''worker'' 60 None ''tok'' 5 sample_session = Inr (a, s') \<and>
    grant_execution_lease ''plan'' ''a1'' ''rival'' 60 None ''tok2'' 6 s' = Inl e"
proof -
  have "\<not> isl (grant_execution_lease ''plan'' ''a1'' ''worker'' 60 None ''tok'' 5 sample_session)"
    by code_simp
  then obtain a s' where
    "grant_execution_lease ''plan'' ''a1'' ''worker'' 60 None ''tok'' 5 sample_session = Inr (a, s')"
    by (auto dest: not_isl_Inr)
  from execution_lease_exclusive [OF this, of 6 "''plan''" "''rival''" 60 None "''tok2''"] this
  show ?thesis by (simp add: timedelta_seconds_def)
qed

text \<open>
  C13. Takeover fences the old worker off. Once a lease has expired another owner is granted it
  with a token of its own, and from then on every token but the new one is refused, for
  heartbeats, releases and reports alike.
\<close>

theorem lease_takeover_fences:
  assumes "grant_attempt_lease owner ttl given fresh now a = Inr b"
    "now + timedelta_seconds ttl \<le> t" "py_strip owner2 \<noteq> []" "py_strip new \<noteq> []" "0 < ttl2"
  shows "\<exists>c. grant_attempt_lease owner2 ttl2 (Some new) fresh2 t b = Inr c \<and>
    (\<forall>old t' allow. py_strip old \<noteq> new \<longrightarrow> (\<exists>e. assert_execution_lease c old t' allow = Inl e))"
  using xl.takeover [OF assms] .

lemma lease_takeover_fences_witness:
  "\<exists>b c e. grant_attempt_lease ''worker'' 60 (Some ''one'') ''f'' 0 sample_attempt = Inr b \<and>
    grant_attempt_lease ''rival'' 60 (Some ''two'') ''f'' 60000000 b = Inr c \<and>
    assert_execution_lease c ''one'' 60000001 True = Inl e"
proof -
  have "\<not> isl (grant_attempt_lease ''worker'' 60 (Some ''one'') ''f'' 0 sample_attempt)"
    by code_simp
  then obtain b where b: "grant_attempt_lease ''worker'' 60 (Some ''one'') ''f'' 0 sample_attempt = Inr b"
    by (auto dest: not_isl_Inr)
  have s: "py_strip ''rival'' \<noteq> []" "py_strip ''two'' \<noteq> []" "py_strip ''one'' \<noteq> ''two''" by code_simp+
  have t: "0 + timedelta_seconds 60 \<le> (60000000 :: time)" by (simp add: timedelta_seconds_def)
  from lease_takeover_fences [OF b t s(1,2), of 60] s(3) b show ?thesis by fastforce
qed

text \<open>
  The lease of a turn keeps the same contract: while it is live nobody else is granted the
  turn, and the holder of a token without padding passes the check exactly until it expires.
\<close>

lemma turn_lease_exclusive:
  assumes "grant_turn owner ttl given fresh now d = Inr d'"
  shows "(t < now + timedelta_seconds ttl \<longrightarrow> (\<exists>e. grant_turn owner2 ttl2 given2 fresh2 t d' = Inl e)) \<and>
    (\<forall>k. dt_lease_token d' = Some k \<longrightarrow> py_strip k = k \<longrightarrow>
       (assert_durable_turn_lease d' k t False = Inr () \<longleftrightarrow> t < now + timedelta_seconds ttl))"
  using tl.exclusive [OF assms] tl.holder_can_check [OF assms, of _ t False] by auto

lemma turn_lease_exclusive_witness:
  "\<exists>d' e. grant_turn ''worker'' 60 (Some ''tok'') ''f'' 0 \<lparr>dt_id = ''t'', dt_interaction_id = ''i'',
      dt_turn_index = 0, dt_agent_id = ''ann'', dt_status = Turn_PENDING, dt_created_at = 0,
      dt_completed_at = None, dt_lease_token = None, dt_lease_owner = None,
      dt_lease_expires_at = None, dt_last_heartbeat_at = None\<rparr> = Inr d' \<and>
    grant_turn ''rival'' 60 None ''g'' 1 d' = Inl e"
proof -
  let ?d = "\<lparr>dt_id = ''t'', dt_interaction_id = ''i'', dt_turn_index = 0, dt_agent_id = ''ann'',
      dt_status = Turn_PENDING, dt_created_at = 0, dt_completed_at = None, dt_lease_token = None,
      dt_lease_owner = None, dt_lease_expires_at = None, dt_last_heartbeat_at = None\<rparr>"
  have "\<not> isl (grant_turn ''worker'' 60 (Some ''tok'') ''f'' 0 ?d)" by code_simp
  then obtain d' where d: "grant_turn ''worker'' 60 (Some ''tok'') ''f'' 0 ?d = Inr d'"
    by (auto dest: not_isl_Inr)
  from turn_lease_exclusive [OF d, of 1 "''rival''" 60 None "''g''"] d show ?thesis
    by (simp add: timedelta_seconds_def)
qed

text \<open>
  C14. Crash recovery is total and exact. Recovery never fails; the nodes it changes are exactly the
  running ones whose latest attempt runs under a lease that is no longer live. Each of them is
  queued again with that attempt aborted and its lease cleared, the others are as they were, and
  a second recovery, at whatever time, finds nothing more in them.
\<close>

theorem recovery_is_exact:
  "\<exists>recs s'. recover_expired_node_execution_leases now tick s = Inr (recs, s') \<and>
    map rn_node_key recs = map ns_key (filter (expired_execution now) (map snd (rs_nodes s))) \<and>
    (\<forall>k. session_node s' k = map_option (\<lambda>n. if expired_execution now n then recovered_node now n else n)
       (session_node s k)) \<and>
    (\<forall>k n later. session_node s k = Some n \<longrightarrow> expired_execution now n \<longrightarrow>
       ns_status (recovered_node now n) = Node_QUEUED \<and>
       na_status (last (ns_attempts (recovered_node now n))) = Attempt_ABORTED \<and>
       \<not> expired_execution later (recovered_node now n))"
proof -
  have "ns_status (recovered_node now n) = Node_QUEUED"
    "na_status (last (ns_attempts (recovered_node now n))) = Attempt_ABORTED" for n
    by (simp_all add: recovered_node_def aborted_attempt_def)
  then show ?thesis
    by (simp add: recover_expired_eq recovery_record_def session_node_def map_of_map comp_def
        recovered_not_expired)
qed

lemma recovery_is_exact_witness:
  "\<exists>recs s'. recover_expired_node_execution_leases 100 (\<lambda>_. 100)
      (set_node ''plan'' (sample_plan\<lparr>ns_status := Node_RUNNING, ns_attempts :=
        [sample_attempt\<lparr>na_lease_token := Some ''t'', na_lease_owner := Some ''w'',
          na_lease_expires_at := Some 99\<rparr>]\<rparr>) sample_session) = Inr (recs, s') \<and>
    map rn_node_key recs = [''plan''] \<and>
    map_option ns_status (session_node s' ''plan'') = Some Node_QUEUED"
proof -
  let ?n = "sample_plan\<lparr>ns_status := Node_RUNNING, ns_attempts :=
        [sample_attempt\<lparr>na_lease_token := Some ''t'', na_lease_owner := Some ''w'',
          na_lease_expires_at := Some 99\<rparr>]\<rparr>"
  let ?s = "set_node ''plan'' ?n sample_session"
  have e: "expired_execution 100 ?n"
    by (simp add: expired_execution_def running_attempt_def latest_attempt_def sample_attempt_def
        new_attempt_def has_execution_lease_metadata_def is_execution_lease_live_def)
  have k: "map ns_key (filter (expired_execution 100) (map snd (rs_nodes ?s))) = [''plan'']"
    using e by (simp add: set_node_def sample_session_def sample_plan_def new_node_def
        expired_execution_def)
  from recovery_is_exact [of 100 "\<lambda>_. 100" ?s] k e show ?thesis
    by (auto simp: recovered_node_def)
qed

text \<open>
  A crashed turn is resumed where it stopped. Recovery of an interaction reverts exactly the
  turns whose lease has expired, leaves the completed ones, reports something exactly when a turn
  has expired, and then sets the resume marker to the first index without a completed turn.
\<close>

lemma turn_recovery_is_exact:
  assumes "recover_interaction now i d = (e, recs)" "distinct_turns d"
  shows "di_turns e = map (revert_expired now) (di_turns d) \<and>
    (recs = [] \<longleftrightarrow> (\<forall>t \<in> set (di_turns d). \<not> expired_turn now t)) \<and>
    (recs = [] \<longrightarrow> e = d) \<and>
    (recs \<noteq> [] \<longrightarrow> di_recovered_from_turn_index e = Some (lowest_incomplete_turn_index d))"
  using recover_interaction_spec [OF assms] by blast

lemma turn_recovery_is_exact_witness:
  "\<exists>e recs. recover_interaction 100 ''i''
      \<lparr>di_id = ''i'', di_session_id = ''s1'', di_node_key = ''plan'', di_execution_id = ''a1'',
       di_team_id = ''t'', di_protocol_mode = ''team'', di_topology = ''broadcast'',
       di_member_ids = [''ann'', ''bob''], di_workspace_id = None, di_status = Interaction_RUNNING,
       di_turns = [sample_turn 0 Turn_COMPLETED None, sample_turn 1 Turn_PENDING (Some 99)],
       di_messages = [], di_outcome = None, di_version = 3, di_recovered_from_turn_index = None,
       di_error = None, di_created_at = 0, di_updated_at = 0\<rparr> = (e, recs) \<and>
    recs \<noteq> [] \<and> di_recovered_from_turn_index e = Some 1"
proof -
  let ?ts = "[sample_turn 0 Turn_COMPLETED None, sample_turn 1 Turn_PENDING (Some 99)]"
  let ?d = "\<lparr>di_id = ''i'', di_session_id = ''s1'', di_node_key = ''plan'', di_execution_id = ''a1'',
       di_team_id = ''t'', di_protocol_mode = ''team'', di_topology = ''broadcast'',
       di_member_ids = [''ann'', ''bob''], di_workspace_id = None, di_status = Interaction_RUNNING,
       di_turns = ?ts,
       di_messages = [], di_outcome = None, di_version = 3, di_recovered_from_turn_index = None,
       di_error = None, di_created_at = 0, di_updated_at = 0\<rparr>"
  obtain e recs where r: "recover_interaction 100 ''i'' ?d = (e, recs)" by force
  have d: "distinct_turns ?d" by (simp add: distinct_turns_def sample_turn_def)
  have x: "\<exists>t \<in> set (di_turns ?d). expired_turn 100 t"
    by (simp add: expired_turn_def sample_turn_def has_turn_lease_metadata_def is_turn_lease_live_def)
  have l: "lowest_incomplete_turn_index ?d = 1" by code_simp
  from turn_recovery_is_exact [OF r d] x l r show ?thesis by auto
qed

section \<open>Stores\<close>

text \<open>
  C15. The SQLite store refines the memory store. On the table that holds a memory store, reading,
  writing and deleting give what the memory store gives, conflicts included, provided that the
  payload column reads back what was written into it.
\<close>

theorem sqlite_refines_memory:
  assumes "\<And>s. load (dump s) = Some s" "keyed st"
  shows "sqlite_get load (table_of dump st) i = Inr (memory_get st i) \<and>
    sqlite_put dump load s (table_of dump st) =
      (case memory_put s st of Inl e \<Rightarrow> Inl e | Inr (s', st') \<Rightarrow> Inr (s', table_of dump st')) \<and>
    sqlite_delete i (table_of dump st) = table_of dump (memory_delete i st)"
proof (intro conjI)
  show "sqlite_get load (table_of dump st) i = Inr (memory_get st i)"
    by (rule sqlite_get_refines) (rule assms)+
  show "sqlite_put dump load s (table_of dump st) =
      (case memory_put s st of Inl e \<Rightarrow> Inl e | Inr (s', st') \<Rightarrow> Inr (s', table_of dump st'))"
    by (rule sqlite_put_refines) (rule assms)+
  show "sqlite_delete i (table_of dump st) = table_of dump (memory_delete i st)"
    by (rule sqlite_delete_refines) (rule assms)
qed

lemma sqlite_refines_memory_witness:
  "sqlite_put (\<lambda>s. s) Some sample_session (table_of (\<lambda>s. s) [(''s1'', sample_session)]) =
    Inr (bump sample_session, table_of (\<lambda>s. s) [(''s1'', bump sample_session)])"
proof -
  have "keyed [(''s1'', sample_session)]" by (simp add: keyed_def)
  from sqlite_refines_memory [of Some "\<lambda>s. s", OF _ this] show ?thesis
    by (simp add: memory_put_eq memory_get_def stored_version_def)
qed

section \<open>The workflow graph\<close>

text \<open>
  C16. The order respects the requirements. When the graph has an order, it lists every node of
  the blueprint once, each after everything it requires.
\<close>

theorem topological_order_is_sound:
  assumes "topological b = Inr order" "distinct (blueprint_keys b)"
  shows "distinct order \<and> set order = set (blueprint_keys b) \<and>
    (\<forall>i < length order. set (requires_of b (order ! i)) \<subseteq> set (take i order))"
  using topological_sound [OF assms] by blast

lemma topological_order_is_sound_witness:
  "\<exists>order. topological sample_blueprint = Inr order \<and> set order = {''build'', ''plan''}"
proof -
  have t: "topological sample_blueprint = Inr [''plan'', ''build'']" by code_simp
  have "distinct (blueprint_keys sample_blueprint)"
    by (simp add: blueprint_keys_def sample_blueprint_def)
  from topological_order_is_sound [OF t this] t show ?thesis
    by (auto simp: blueprint_keys_def sample_blueprint_def)
qed

text \<open>
  C17. It is found exactly when there is one. With distinct keys the graph is accepted if and only
  if every requirement names a node of the blueprint and the requirements have no cycle.
\<close>

theorem topological_order_exists_iff:
  assumes "distinct (blueprint_keys b)"
  shows "(\<exists>order. topological b = Inr order) \<longleftrightarrow>
    (\<forall>n \<in> set (wb_nodes b). set (wn_requires n) \<subseteq> set (blueprint_keys b)) \<and> acyclic (requires_rel b)"
  using topological_iff [OF assms] .

lemma topological_order_exists_iff_witness:
  "acyclic (requires_rel sample_blueprint)"
proof -
  have d: "distinct (blueprint_keys sample_blueprint)"
    by (simp add: blueprint_keys_def sample_blueprint_def)
  have "topological sample_blueprint = Inr [''plan'', ''build'']" by code_simp
  with topological_order_exists_iff [OF d] show ?thesis by blast
qed

text \<open>
  C18. No deadlock by scheduling. What is ready is, in topological order, the queued nodes whose
  requirements are completed; and while every node is queued or completed and one is not
  completed, something is ready.
\<close>

theorem scheduling_makes_progress:
  assumes "topological b = Inr order" "distinct (blueprint_keys b)"
  shows "ready_nodes b s = Inr (filter (ready_in b s) order) \<and>
    ((\<forall>k \<in> set (blueprint_keys b). \<exists>n. session_node s k = Some n \<and>
        ns_status n \<in> {Node_QUEUED, Node_COMPLETED}) \<longrightarrow>
     (\<exists>k \<in> set (blueprint_keys b). \<not> node_completed_in s k) \<longrightarrow>
     (\<exists>k ks. ready_nodes b s = Inr (k # ks)))"
  using ready_nodes_eq [OF assms] ready_nodes_progress [OF assms, of s] by blast

lemma scheduling_makes_progress_witness:
  "\<exists>ks. ready_nodes sample_blueprint (set_node ''plan'' (new_node 0 ''plan'') sample_session) = Inr ks \<and>
    ks \<noteq> []"
proof -
  let ?s = "set_node ''plan'' (new_node 0 ''plan'') sample_session"
  have t: "topological sample_blueprint = Inr [''plan'', ''build'']" by code_simp
  have d: "distinct (blueprint_keys sample_blueprint)"
    by (simp add: blueprint_keys_def sample_blueprint_def)
  have k: "set (blueprint_keys sample_blueprint) = {''build'', ''plan''}"
    by (auto simp: blueprint_keys_def sample_blueprint_def)
  have n: "session_node sample_session ''build'' = Some (new_node 0 ''build'')"
    by (simp add: session_node_def sample_session_def)
  have q: "\<forall>k \<in> set (blueprint_keys sample_blueprint). \<exists>n. session_node ?s k = Some n \<and>
      ns_status n \<in> {Node_QUEUED, Node_COMPLETED}"
    unfolding k by (simp add: n new_node_def)
  have "\<exists>k \<in> set (blueprint_keys sample_blueprint). \<not> node_completed_in ?s k"
    unfolding k by (simp add: n node_completed_in_def new_node_def)
  with scheduling_makes_progress [OF t d, of ?s] q show ?thesis by blast
qed

section \<open>Workflow revisions\<close>

text \<open>
  C19. A revision touches what it says and nothing else. After a revision every added and every
  requeued node is queued again (a node that waits for its gate is left alone), every removed
  node is stale, and every other node is exactly as it was.
\<close>

theorem revision_effect_is_exact:
  assumes "apply_workflow_revision r now tick born s = Inr (w, s')"
  shows "(k \<in> set (ws_added_node_keys w) \<longrightarrow> session_node s' k \<noteq> None \<and>
      requeued_by_revision (session_node s k) (session_node s' k)) \<and>
    (k \<in> set (ws_removed_node_keys w) \<longrightarrow> staled_by_revision (session_node s k) (session_node s' k)) \<and>
    (k \<in> set (ws_requeued_node_keys w) \<longrightarrow>
      requeued_by_revision (session_node s k) (session_node s' k)) \<and>
    (k \<notin> set (ws_added_node_keys w) \<union> set (ws_removed_node_keys w) \<union> set (ws_requeued_node_keys w) \<longrightarrow>
      session_node s' k = session_node s k)"
  using revision_effect [OF assms, of k] by blast

lemma revision_effect_is_exact_witness:
  "\<exists>w s'. apply_workflow_revision sample_revision 9 (\<lambda>_ _. 9) (\<lambda>_. 9) sample_session = Inr (w, s') \<and>
    ws_added_node_keys w = [''test''] \<and> ws_requeued_node_keys w = [''build''] \<and>
    session_node s' ''test'' \<noteq> None \<and> session_node s' ''plan'' = session_node sample_session ''plan''"
proof -
  let ?r = "apply_workflow_revision sample_revision 9 (\<lambda>_ _. 9) (\<lambda>_. 9) sample_session"
  have "case ?r of Inl e \<Rightarrow> False | Inr (w, s') \<Rightarrow> ws_added_node_keys w = [''test''] \<and>
    ws_removed_node_keys w = [] \<and> ws_requeued_node_keys w = [''build'']"
    by code_simp
  then obtain w s' where r: "?r = Inr (w, s')" "ws_added_node_keys w = [''test'']"
      "ws_removed_node_keys w = []" "ws_requeued_node_keys w = [''build'']"
    by (cases ?r) auto
  from revision_effect_is_exact [OF r(1), of "''test''"] revision_effect_is_exact [OF r(1), of "''plan''"] r
  show ?thesis by simp
qed

section \<open>Goals and their plans\<close>

text \<open>
  C20. Every plan of a goal is well formed. The first plan that the planner's model is made to give, and
  every plan that a revision makes of one of them and the control plane applies, is a plan for the
  goal: its task keys are distinct, tasks require tasks of the plan, no task has an agent and a team,
  agents and teams declare tools of their task only, teams have protocols that are executed, tasks
  use tools the goal makes available, the expected artifacts are covered, and with a quality
  contract for the goal the last task has one. Nothing is assumed of what the model says.
\<close>

theorem goal_plans_are_typed:
  assumes "goal_plan pl pc g p"
  shows "xp_goal p = g \<and> distinct (plan_keys p) \<and>
    (\<forall>t \<in> set (xp_tasks p). set (pn_requires t) \<subseteq> set (plan_keys p) \<and> set (pn_tools t) \<subseteq> set (gs_available_tools g) \<and>
       (pn_agent t = None \<or> pn_team t = None) \<and>
       (\<forall>a. pn_agent t = Some a \<longrightarrow> set (as_tools a) \<subseteq> set (pn_tools t)) \<and>
       (\<forall>m. pn_team t = Some m \<longrightarrow> set (declared_tools m) \<subseteq> set (pn_tools t) \<and>
          executed_protocol_violations (ts_protocol m) = [])) \<and>
    artifacts_covered p \<and> quality_covered p"
proof -
  have "plan_ok p" "xp_goal p = g" using goal_plans_ok [OF assms] by blast+
  then show ?thesis by (simp add: plan_ok_def task_ok_def)
qed

lemma goal_plans_are_typed_witness:
  "xp_goal second_plan = sample_goal \<and> plan_keys second_plan = [''draft'', ''check'', ''polish''] \<and>
    distinct (plan_keys second_plan) \<and> artifacts_covered second_plan"
proof -
  have "plan_keys second_plan = [''draft'', ''check'', ''polish'']" by code_simp
  then show ?thesis using goal_plans_are_typed [OF sample_goal_plans(2)] by simp
qed

text \<open>
  C21. The session keeps the plan that was applied. When a change of the plan is applied through the
  control plane, the plan that is read back from the session afterwards is the revised one, provided
  that its JSON form reads back.
\<close>

theorem stored_plan_roundtrip:
  assumes "apply_plan_delta pc i delta w = (Inr p, w')" "keyed (w_store w)"
    "pc_plan_json pc p = JObj d" "pc_plan_load pc d = Inr p"
  shows "plan_for_session pc i w' = (Inr p, w')"
  by (rule applied_plan_is_stored [OF assms])

lemma stored_plan_roundtrip_witness:
  "\<exists>w'. apply_plan_delta sample_codec ''s1'' first_delta (world_of goal_session) = (Inr second_plan, w') \<and>
    plan_for_session sample_codec ''s1'' w' = (Inr second_plan, w')"
proof -
  obtain w' where w': "apply_plan_delta sample_codec ''s1'' first_delta (world_of goal_session) = (Inr second_plan, w')"
    using sample_delta_applies by (metis prod.collapse)
  have "plan_for_session sample_codec ''s1'' w' = (Inr second_plan, w')"
    by (rule stored_plan_roundtrip [OF w' world_of_keyed sample_codec_reads]) (simp add: goal_session_def sample_session_def)
  with w' show ?thesis by (intro exI conjI)
qed

text \<open>
  C22. A node is offered the tools of its task. For a plan of a goal, the tools that the registry
  offers to a node are exactly those that the task of the node asks for, that are registered and
  enabled; all of them are available to the goal.
\<close>

theorem offered_tools_are_planned:
  assumes "goal_plan pl pc g p" "t \<in> set (xp_tasks p)"
    "plan_scoped_tools p (Some (\<lambda>ns. specs_for r (Some ns))) base (pn_key t) = Inr ts"
  shows "set ts = {to_spec tool | tool n. n \<in> set (pn_tools t) \<and> map_of (tr_tools r) n = Some tool \<and> rt_enabled tool} \<and>
    set (pn_tools t) \<subseteq> set (gs_available_tools g)"
proof -
  have p: "plan_ok p" "xp_goal p = g" using goal_plans_ok [OF assms(1)] by blast+
  then have sub: "set (pn_tools t) \<subseteq> set (gs_available_tools g)" using assms(2) by (simp add: plan_ok_def task_ok_def)
  then have "set (allowed_tools p t) = set (pn_tools t)" using p(2) by (auto simp: allowed_tools_def)
  with scoped_exact [OF assms(3) _ assms(2)] p(1) sub show ?thesis by (simp add: plan_ok_def)
qed

lemma offered_tools_are_planned_witness:
  "\<exists>ts. plan_scoped_tools first_plan (Some (\<lambda>ns. specs_for goal_tools (Some ns))) (\<lambda>_. Inr []) ''draft'' = Inr ts \<and>
    to_spec sample_tool \<in> set ts \<and>
    set (pn_tools (sample_task ''draft'' [] [''http.get''] [])) \<subseteq> set (gs_available_tools sample_goal)"
proof -
  let ?t = "sample_task ''draft'' [] [''http.get''] []"
  have "\<not> isl (plan_scoped_tools first_plan (Some (\<lambda>ns. specs_for goal_tools (Some ns))) (\<lambda>_. Inr []) (pn_key ?t))"
    by code_simp
  then obtain ts where ts: "plan_scoped_tools first_plan (Some (\<lambda>ns. specs_for goal_tools (Some ns))) (\<lambda>_. Inr []) (pn_key ?t) = Inr ts"
    by (auto dest: not_isl_Inr)
  have t: "?t \<in> set (xp_tasks first_plan)" by (simp add: first_plan_def)
  have "''http.get'' \<in> set (pn_tools ?t)" "map_of (tr_tools goal_tools) ''http.get'' = Some sample_tool" "rt_enabled sample_tool"
    by (simp_all add: sample_task_def goal_tools_def sample_tools_def sample_tool_def)
  then have "to_spec sample_tool \<in> set ts"
    using offered_tools_are_planned [OF sample_goal_plans(1) t ts] by blast
  with offered_tools_are_planned [OF sample_goal_plans(1) t ts] ts show ?thesis
    by (intro exI [of _ ts]) (simp add: sample_task_def)
qed

section \<open>Scheduling the members of a team\<close>

text \<open>
  C23. Every member acts, in the order of the strategy, and the interaction ends. Driven from the
  start by the strategy selected for its protocol, an interaction runs to the end within one
  step more than the length of the schedule, whatever the members say, and the members have acted
  exactly in the scheduled order.
\<close>

theorem interactions_follow_the_schedule:
  assumes "select_strategy (it_protocol i) = Inr st" "sound_interaction i" "it_turns i = []"
  shows "set (strategy_schedule st (it_protocol i) (it_member_ids i)) = set (it_member_ids i) \<and>
    (\<exists>j. drive (strategy_next_turn st) say
        (Suc (length (strategy_schedule st (it_protocol i) (it_member_ids i)))) i = Inr (Some j) \<and>
      acted_agent_ids j = strategy_schedule st (it_protocol i) (it_member_ids i))"
  using strategies.schedule_members [OF assms(2) selected_admits [OF assms(1)]]
    strategies.drive_fresh [OF assms(2) selected_admits [OF assms(1)] assms(3)] by blast

lemma interactions_follow_the_schedule_witness:
  "\<exists>j. drive coordinator_next_turn (\<lambda>i t. ''ok'') 3 sample_interaction = Inr (Some j) \<and>
    acted_agent_ids j = [''bob'', ''ann'']"
proof -
  have s: "select_strategy (it_protocol sample_interaction) = Inr CoordinatorStrategy" by code_simp
  have t: "it_turns sample_interaction = []" by (simp add: sample_interaction_def)
  have "coordinator_schedule (it_protocol sample_interaction) (it_member_ids sample_interaction)
        = [''bob'', ''ann'']"
    by code_simp
  with interactions_follow_the_schedule [OF s sample_interaction_sound t, of "\<lambda>i t. ''ok''"]
  show ?thesis by (simp add: numeral_3_eq_3)
qed

section \<open>Teams at work\<close>

text \<open>
  Agents keep history. Whatever an execution harness, a team, a single subagent or the tool
  rounds of an agent do, with whatever answers of the models and the tools and whatever failures,
  every stored session is stored afterwards as a later value.
\<close>

lemma agents_preserve_history:
  assumes "services_preserve evolves nv" "keyed (w_store w)" "memory_get (w_store w) i = Some s"
    "w' \<in> {snd (hydramind_episode nv q w), snd (explicit_episode nv q w), snd (run_team env a rq st w),
      snd (invoke_subagent sp rt a ms sys ts role w), snd (drain_tool_calls rt a iv ms sys tools role origin w)}"
  shows "\<exists>t. memory_get (w_store w') i = Some t \<and> rs_version s \<le> rs_version t \<and>
    evolves s (t\<lparr>rs_version := rs_version s\<rparr>)"
proof -
  note run = hist.preserves_run(1) [OF _ assms(2) surjective_pairing assms(3), unfolded later_def]
  from assms(4) consider "w' = snd (hydramind_episode nv q w)" | "w' = snd (explicit_episode nv q w)"
    | "w' = snd (run_team env a rq st w)" | "w' = snd (invoke_subagent sp rt a ms sys ts role w)"
    | "w' = snd (drain_tool_calls rt a iv ms sys tools role origin w)" by blast
  then show ?thesis
  proof cases
    case 1
    show ?thesis unfolding 1 by (rule run [OF hist_ops.hydramind_preserves [OF assms(1)]])
  next
    case 2
    show ?thesis unfolding 2 by (rule run [OF hist_ops.explicit_preserves [OF assms(1)]])
  next
    case 3
    show ?thesis unfolding 3 by (rule run [OF hist_ops.run_team_preserves])
  next
    case 4
    show ?thesis unfolding 4 by (rule run [OF hist_ops.invoke_subagent_preserves])
  next
    case 5
    show ?thesis unfolding 5 by (rule run [OF hist_ops.drain_tool_calls_preserves])
  qed
qed

lemma agents_preserve_history_witness:
  "\<exists>t. memory_get (w_store (snd (run_team sample_team_env sample_agent_call sample_team_request
      ExplicitSubmitMemberTurn (world_of sample_session)))) ''s1'' = Some t \<and>
    rs_version sample_session \<le> rs_version t \<and>
    evolves sample_session (t\<lparr>rs_version := rs_version sample_session\<rparr>)"
  using agents_preserve_history [OF sample_services_preserve sample_store(1,2),
      where w' = "snd (run_team sample_team_env sample_agent_call sample_team_request
        ExplicitSubmitMemberTurn (world_of sample_session))" and env = sample_team_env
      and a = sample_agent_call and rq = sample_team_request and st = ExplicitSubmitMemberTurn]
  by (metis insertCI)

text \<open>
  C24. A team's run is exact, and continues where it stopped. Nothing is stored for the node, or a
  running aggregate of the first \<open>k\<close> turns of the schedule, each completed; its messages belong to
  these turns, but a turn may lack its message, as after a crash between the two writes. Then a run
  that returns has had every member act in the order of the schedule. The results of the first \<open>k\<close>
  turns are not new: each has the text of the last message that was stored for its turn, and none
  if there is no such message. The aggregate is completed with one turn per step of the schedule,
  the stored messages, one new message per new turn that carries what its member said, and the
  outcome of these results, unless an outcome was there. One step more than the schedule is enough
  fuel.
\<close>

theorem team_runs_are_exact:
  assumes "invoke_team fuel env a rq st w = (Inr x, w')" "te_durable env" "stores w (ac_session_id a) s"
    "team_spec_from_config (tq_team rq) = Inr team" "valid_team team" "clean_id ii"
    "ii = durable_interaction_id (ac_session_id a) (ac_node_key a)"
    "stored = map_of (rs_durable_interactions s) ii" "sched = team_schedule team"
    "team_progress ii k stored sched" "length sched < fuel"
  shows "\<exists>results d. x = Some (team_invocation_result (ag_dumps (te_runtime env)) team (tq_agent_role rq) results) \<and>
    map mr_agent_id results = sched \<and> (\<forall>j < length sched. mr_resumed (results ! j) \<longleftrightarrow> j < k) \<and>
    (\<forall>j < k. mr_content (results ! j) = stored_content stored j) \<and>
    team_at w' (ac_session_id a) ii d \<and> di_status d = Interaction_COMPLETED \<and>
    map turn_key (di_turns d) = map (\<lambda>j. (int j, sched ! j, Turn_COMPLETED)) [0..<length sched] \<and>
    map message_key (di_messages d) = stored_messages stored @
      map (\<lambda>j. (int j, sched ! j, team_member_content (results ! j))) [k..<length sched] \<and>
    outcome_kept team results (stored_outcome stored) (di_outcome d)"
  by (rule team_run_exact [OF assms])

lemma team_runs_are_exact_witness:
  "\<exists>w' d said. snd (invoke_team 3 sample_team_env sample_agent_call sample_team_request DefaultMemberTurn
      (world_of (team_session Interaction_RUNNING [''bob'']))) = w' \<and>
    team_at w' ''s1'' ''interaction-s1-plan'' d \<and> di_status d = Interaction_COMPLETED \<and>
    map message_key (di_messages d) = [(0, ''bob'', ''before''), (1, ''ann'', said)]"
proof -
  let ?w = "world_of (team_session Interaction_RUNNING [''bob''])"
  let ?run = "invoke_team 3 sample_team_env sample_agent_call sample_team_request DefaultMemberTurn"
  let ?d = "sample_aggregate Interaction_RUNNING [''bob'']"
  have "succeeds ?run ?w" by code_simp
  then obtain x w' where r: "?run ?w = (Inr x, w')" by (auto dest: succeedsD)
  have env: "te_durable sample_team_env" by (simp add: sample_team_env_def)
  have st: "stores ?w (ac_session_id sample_agent_call) (team_session Interaction_RUNNING [''bob''])"
    using team_session_stores by (simp add: sample_agent_call_def)
  have m: "Some ?d = map_of (rs_durable_interactions (team_session Interaction_RUNNING [''bob''])) ''interaction-s1-plan''"
    by (simp add: team_session_def)
  have p: "team_progress ''interaction-s1-plan'' 1 (Some ?d) [''bob'', ''ann'']"
    by (simp add: team_progress_def tidy_def sample_aggregate_def acted_def spoken_def sample_turn_def)
  have k: "stored_messages (Some ?d) = [(0, ''bob'', ''before'')]"
    by (simp add: stored_messages_def sample_aggregate_def spoken_def message_key_def)
  have f: "length [''bob'', ''ann''] < (3::nat)" by simp
  from team_runs_are_exact [OF r env st sample_team_config sample_team_valid sample_team_id m
      sample_team_schedule [symmetric] p f]
  obtain results d where d: "team_at w' (ac_session_id sample_agent_call) ''interaction-s1-plan'' d"
    "di_status d = Interaction_COMPLETED"
    "map message_key (di_messages d) = stored_messages (Some ?d) @
      map (\<lambda>j. (int j, [''bob'', ''ann''] ! j, team_member_content (results ! j))) [1..<length [''bob'', ''ann'']]"
    by blast
  have "map message_key (di_messages d) = [(0, ''bob'', ''before''), (1, ''ann'', team_member_content (results ! 1))]"
    using d(3) by (simp add: k)
  moreover have "ac_session_id sample_agent_call = ''s1''" by (simp add: sample_agent_call_def)
  ultimately show ?thesis using r d(1,2)
    by (intro exI [of _ w'] exI [of _ d] exI [of _ "team_member_content (results ! 1)"]) simp
qed

text \<open>
  What a team says after its aggregate was closed is not recorded. When the aggregate of the
  node is completed or failed and holds all turns with their messages, as after a revision of the
  node, a run has every member act again and answers with what they say now, while the aggregate
  keeps the turns and the messages it had. An outcome it had is kept too; when it had none, as
  after a failure, the outcome of the new results may be recorded.
\<close>

lemma closed_teams_record_nothing:
  assumes "invoke_team fuel env a rq st w = (Inr x, w')" "te_durable env" "stores w (ac_session_id a) s"
    "team_spec_from_config (tq_team rq) = Inr team" "valid_team team" "clean_id ii"
    "ii = durable_interaction_id (ac_session_id a) (ac_node_key a)"
    "map_of (rs_durable_interactions s) ii = Some d0" "sched = team_schedule team"
    "di_status d0 \<noteq> Interaction_RUNNING" "\<forall>j < length sched. settled_turn ii (int j) (sched ! j) d0"
    "length sched < fuel"
  shows "\<exists>results d. x = Some (team_invocation_result (ag_dumps (te_runtime env)) team (tq_agent_role rq) results) \<and>
    map mr_agent_id results = sched \<and> (\<forall>m \<in> set results. \<not> mr_resumed m) \<and>
    team_at w' (ac_session_id a) ii d \<and> di_turns d = di_turns d0 \<and> di_messages d = di_messages d0 \<and>
    outcome_kept team results (di_outcome d0) (di_outcome d)"
  by (rule team_rerun_unrecorded [OF assms])

lemma closed_teams_record_nothing_witness:
  "\<exists>w' d. snd (invoke_team 3 sample_team_env sample_agent_call sample_team_request DefaultMemberTurn
      (world_of (team_session Interaction_COMPLETED [''bob'', ''ann'']))) = w' \<and>
    team_at w' ''s1'' ''interaction-s1-plan'' d \<and> map dm_content (di_messages d) = [''before'', ''before'']"
proof -
  let ?w = "world_of (team_session Interaction_COMPLETED [''bob'', ''ann''])"
  let ?run = "invoke_team 3 sample_team_env sample_agent_call sample_team_request DefaultMemberTurn"
  let ?d = "sample_aggregate Interaction_COMPLETED [''bob'', ''ann'']"
  have "succeeds ?run ?w" by code_simp
  then obtain x w' where r: "?run ?w = (Inr x, w')" by (auto dest: succeedsD)
  have env: "te_durable sample_team_env" by (simp add: sample_team_env_def)
  have st: "stores ?w (ac_session_id sample_agent_call) (team_session Interaction_COMPLETED [''bob'', ''ann''])"
    using team_session_stores by (simp add: sample_agent_call_def)
  have m: "map_of (rs_durable_interactions (team_session Interaction_COMPLETED [''bob'', ''ann'']))
      ''interaction-s1-plan'' = Some ?d"
    by (simp add: team_session_def)
  have c: "di_status ?d \<noteq> Interaction_RUNNING" by (simp add: sample_aggregate_def)
  have t: "\<forall>j < length [''bob'', ''ann'']. settled_turn ''interaction-s1-plan'' (int j) ([''bob'', ''ann''] ! j) ?d"
  proof -
    have "\<forall>j \<in> {0, 1}. (case turn_by_index ?d (int j) of None \<Rightarrow> False | Some t \<Rightarrow> dt_status t = Turn_COMPLETED) \<and>
        message_by_id ?d (durable_message_id ''interaction-s1-plan'' (int j) ([''bob'', ''ann''] ! j)) \<noteq> None"
      by code_simp
    then show ?thesis by (auto simp: settled_turn_def less_Suc_eq split: option.splits)
  qed
  have k: "map dm_content (di_messages ?d) = [''before'', ''before'']"
    by (simp add: sample_aggregate_def spoken_def)
  from closed_teams_record_nothing [OF r env st sample_team_config sample_team_valid sample_team_id m
      sample_team_schedule [symmetric] c t] k r
  show ?thesis by (auto simp: sample_agent_call_def)
qed

section \<open>Prompts and harnesses\<close>

text \<open>
  C25. Every report names its execution. Both execution harnesses, with whatever models, tools and
  teams, answer a request that is not resumed with a report that carries the harness, the
  execution, the trace and the lease token of the request, as the control plane requires of a
  leased execution; the outcome proposes a failure exactly when it is classified as one.
\<close>

theorem reports_name_their_execution:
  assumes "verifier_keeps_identity nv" "eq_resume q = None"
    "(name, run) \<in> {(hydramind_harness_name, hydramind_episode), (explicit_harness_name, explicit_episode)}"
    "run nv q w = (Inr out, w')"
  shows "ar_harness_id (eo_report out) = Some name \<and>
    ar_execution_id (eo_report out) = Some (eq_execution_id q) \<and>
    ar_trace_id (eo_report out) = Some (eq_trace_id q) \<and>
    ar_lease_token (eo_report out) = eq_lease_token q \<and>
    map px_kind (eo_proposed_transitions out) =
      [if eo_failure out = Failure_NONE then Proposed_COMPLETE else Proposed_FAIL]"
proof -
  from assms(3) consider "name = hydramind_harness_name" "run = hydramind_episode"
    | "name = explicit_harness_name" "run = explicit_episode" by auto
  then show ?thesis
  proof cases
    case 1
    show ?thesis using hydramind.identified [OF assms(1) _ assms(2)] assms(4) unfolding 1 by blast
  next
    case 2
    show ?thesis using explicit_submit.identified [OF assms(1) _ assms(2)] assms(4) unfolding 2 by blast
  qed
qed

lemma reports_name_their_execution_witness:
  "\<exists>out w'. hydramind_episode sample_services sample_request (world_of sample_session) = (Inr out, w') \<and>
    ar_harness_id (eo_report out) = Some ''HydraMindExecutionHarness'' \<and>
    ar_execution_id (eo_report out) = Some ''x1'' \<and> ar_lease_token (eo_report out) = Some ''tok''"
proof -
  obtain out w' where run: "hydramind_episode sample_services sample_request (world_of sample_session) = (Inr out, w')"
    using sample_episode by blast
  from reports_name_their_execution [where name = hydramind_harness_name and run = hydramind_episode,
      OF sample_services_identity _ _ run]
  show ?thesis using run by (auto simp: sample_request_def hydramind_harness_name_def)
qed

text \<open>
  C26. The explicit-submit harness stays within its budget. An episode that is not a team's makes one
  model call before the first turn and at most one per turn, numbered in order, and records fewer
  tool calls than model calls; when it ends without a submission the budget is used up. A turn runs
  at most one tool: an answer that asks for several is treated as if it asked for its first one
  alone, and the conversation grows by at most one tool result.
\<close>

theorem explicit_submit_is_bounded:
  assumes "explicit_episode nv q w = (Inr out, w')"
    "resolve_node_execution_mode (ag_repr (te_runtime (nv_team nv))) (eq_node_config q) \<noteq> Inr Execution_TEAM"
  shows "(\<exists>j. 1 \<le> j \<and> j \<le> 1 + int (nat (submit_turn_limit nv q)) \<and>
      map me_round_no (eo_model_invocations out) = [0..j - 1] \<and> length (eo_tool_evidence out) < nat j \<and>
      (eo_failure out = Failure_TIMEOUT \<longrightarrow> j = 1 + int (nat (submit_turn_limit nv q)))) \<and>
    submit_turn nv q system tools origin n (st\<lparr>ss_current := r\<lparr>iv_tool_calls := call # calls\<rparr>\<rparr>) =
      submit_turn nv q system tools origin n (st\<lparr>ss_current := r\<lparr>iv_tool_calls := [call]\<rparr>\<rparr>) \<and>
    (submit_turn nv q system tools origin n st w2 = (Inr st1, w3) \<longrightarrow>
      length (concat (map hm_tool_results (drop (length (ss_messages st)) (ss_messages st1)))) \<le> 1)"
  using explicit_episode_bounded [OF assms] one_tool_per_turn turn_results by blast

lemma explicit_submit_is_bounded_witness:
  "\<exists>out w'. explicit_episode sample_services sample_request (world_of sample_session) = (Inr out, w') \<and>
    (\<exists>j. 1 \<le> j \<and> j \<le> 3 \<and> map me_round_no (eo_model_invocations out) = [0..j - 1])"
proof -
  obtain out w' where run: "explicit_episode sample_services sample_request (world_of sample_session) = (Inr out, w')"
    using sample_explicit_episode by blast
  have m: "resolve_node_execution_mode (ag_repr (te_runtime (nv_team sample_services))) (eq_node_config sample_request)
      \<noteq> Inr Execution_TEAM"
    by (simp add: resolve_mode_iff sample_request_def)
  have "submit_turn_limit sample_services sample_request = 2"
    by (simp add: submit_turn_limit_def sample_request_def no_constraints_def sample_services_def
        sample_team_env_def sample_runtime_def)
  with explicit_submit_is_bounded [OF run m, THEN conjunct1] run show ?thesis by fastforce
qed

text \<open>
  C27. A prompt shows what the node rests on. In a workflow that has an order the context of a node's
  prompt lists exactly its transitive requirements, each once, with the status and the latest
  output that the session has for it.
\<close>

theorem prompt_shows_requirements:
  assumes "topological b = Inr order" "node_spec b k = Inr sp"
  shows "\<exists>ks. distinct ks \<and> set ks = {r. (k, r) \<in> (needs_rel b)\<^sup>+} \<and>
    upstream_context s b k =
      Inr (if ks = [] then [] else [(''nodes'', JObj (map (\<lambda>r. (r, upstream_node s r)) ks))])"
proof -
  have "\<forall>r \<in> set (all_requirements b). \<exists>sp. node_spec b r = Inr sp"
    using topological_known [OF assms(1)]
    by (auto simp: all_requirements_def node_spec_def blueprint_keys_def find_None_iff split: option.split)
  then obtain ks where ks: "upstream_order b k = Inr ks" using upstream_order_total [OF _ assms(2)] by blast
  with upstream_order_closure [OF ks] show ?thesis
    by (intro exI [of _ ks]) (simp add: upstream_context_def)
qed

lemma prompt_shows_requirements_witness:
  "\<exists>ks. set ks = {r. (''build'', r) \<in> (needs_rel sample_blueprint)\<^sup>+} \<and>
    upstream_context sample_session sample_blueprint ''build'' =
      Inr (if ks = [] then [] else [(''nodes'', JObj (map (\<lambda>r. (r, upstream_node sample_session r)) ks))])"
proof -
  have "topological sample_blueprint = Inr [''plan'', ''build'']" by code_simp
  moreover obtain sp where "node_spec sample_blueprint ''build'' = Inr sp"
    by (simp add: node_spec_def sample_blueprint_def)
  ultimately show ?thesis using prompt_shows_requirements by blast
qed

section \<open>Memory\<close>

text \<open>
  C28. The two memory stores answer alike. Any sequence of writes, appends, reads and scans, in which
  no explicit key looks like a numbered one, times sort like their texts and no scan prefix matches
  a key only up to case, gets the same answers from the SQLite store as from the in-memory store.
\<close>

theorem memory_stores_agree:
  assumes "\<And>e. load (dump e) = Some e" "agreeable_run ops empty_bank" "run_bank ops empty_bank = (outs, b)"
  shows "\<exists>rows. run_rows dump load ops [] = Inr (outs, rows) \<and> simulated dump rows b"
  using run_refines [where load = load and dump = dump, OF assms(1) simulated_empty assms(2,3)] .

lemma memory_stores_agree_witness:
  "\<exists>rows. run_rows (\<lambda>e. e) Some sample_memory_ops [] = Inr (fst (run_bank sample_memory_ops empty_bank), rows)"
proof -
  have a: "agreeable_run sample_memory_ops empty_bank" by code_simp
  show ?thesis using memory_stores_agree [of Some "\<lambda>e. e", OF refl a prod.collapse [symmetric]] by blast
qed

text \<open>
  C29. A memory write happens once. Writes that can influence later prompts go to the durable store
  in any order and number, with restarts of the process between them; every one of them
  succeeds, and a write with an idempotency key that is used for one memory key is afterwards found
  there exactly once.
\<close>

theorem memory_writes_happen_once:
  assumes "\<And>e. load (dump e) = Some e"
    "\<forall>now q. Write now q \<in> set steps \<longrightarrow> is_runtime_influencing (ww_class q)"
    "keeps_to sc i k x steps" "Write now q \<in> set steps"
    "ww_scope q = sc" "ww_scope_id q = i" "ww_key q = k" "ww_idempotency q = Some x"
  shows "\<exists>a es. fold_err (authority_step_of (rows_ops dump load)) steps (fresh_authority []) = Inr a \<and>
    rows_scan load (ma_store a) sc i (Some k) = Inr es \<and> length (filter (has_idempotency_key x) es) = 1"
proof -
  have s: "sound_rows dump load (ma_store (fresh_authority []))"
    using assms(1) by (simp add: sound_rows_def fresh_authority_def)
  obtain a where a: "fold_err (authority_step_of (rows_ops dump load)) steps (fresh_authority []) = Inr a"
    using rows_log.steps_total [OF s assms(2)] by blast
  note w = rows_log.steps_written [OF a s assms(3)]
  obtain es where es: "rows_scan load (ma_store a) sc i (Some k) = Inr es"
    using rows_scan_sound(1) [OF w(1)] by blast
  have rows_scans: "mo_scan (rows_ops dump load) rows sc i p = rows_scan load rows sc i p" for rows p
    by (simp add: rows_ops_def)
  have "rows_scan load [] sc i (Some k) = Inr []" by (simp add: rows_scan_def)
  with w(2) w(4) [OF assms(4-8)] es show ?thesis
    using a by (auto simp: rows_log.written_def wrote_def fresh_authority_def rows_scans)
qed

lemma memory_writes_happen_once_witness:
  "\<exists>a es. fold_err (authority_step_of (rows_ops (\<lambda>e. e) Some)) sample_steps (fresh_authority []) = Inr a \<and>
    rows_scan Some (ma_store a) Memory_AGENT ''ann'' (Some ''turn.s1'') = Inr es \<and>
    length (filter (has_idempotency_key ''x'') es) = 1"
proof -
  have q: "Write 1 sample_write \<in> set sample_steps" "ww_scope sample_write = Memory_AGENT"
      "ww_scope_id sample_write = ''ann''" "ww_key sample_write = ''turn.s1''"
      "ww_idempotency sample_write = Some ''x''"
    by (simp_all add: sample_steps_def sample_write_def)
  show ?thesis
    by (rule memory_writes_happen_once [where load = Some and dump = "\<lambda>e. e", OF refl sample_influences sample_keeps_to q])
qed

text \<open>
  An episode is counted as it happened. The projector sees the events of many sessions in any
  interleaving. When a session ends, the summary that is written counts exactly the events of that
  session, and nothing of it stays buffered.
\<close>

lemma episode_counts_its_session:
  assumes "\<forall>(now, e) \<in> set es. oe_session_id e = oe_session_id event \<longrightarrow> oe_kind e \<notin> terminal_kinds"
    "buffered_events ep (oe_session_id event) = []" "oe_kind event \<in> terminal_kinds"
    "episode_observe dec bank_ops now event (project_events dec bank_ops es ep) = (Inr (), ep')"
  shows "\<exists>summary e.
    authority_append bank_ops now (episode_write (ep_workflow_name ep) event summary)
      (ep_authority (project_events dec bank_ops es ep)) = Inr (e, ep_authority ep') \<and>
    dict_get summary ''session_id'' = JStr (oe_session_id event) \<and>
    dict_get summary ''event_count'' =
      JInt (1 + int (length (filter (\<lambda>e. oe_session_id e = oe_session_id event) (map snd es)))) \<and>
    buffered_events ep' (oe_session_id event) = []"
proof -
  let ?own = "filter (\<lambda>e. oe_session_id e = oe_session_id event) (map snd es)"
  obtain summary e where s: "build_episode_summary dec
        (buffered_events (project_events dec bank_ops es ep) (oe_session_id event) @ [event]) = Inr summary"
      "authority_append bank_ops now (episode_write (ep_workflow_name (project_events dec bank_ops es ep)) event summary)
        (ep_authority (project_events dec bank_ops es ep)) = Inr (e, ep_authority ep')"
      "buffered_events ep' (oe_session_id event) = []"
    by (rule terminal_writes_summary [OF assms(4,3)])
  have "build_episode_summary dec (?own @ [event]) = Inr summary"
    using s(1) buffered_project [OF assms(1), of dec bank_ops ep] assms(2) by simp
  from summary_counts [OF this] summary_session [OF this] s(2,3) show ?thesis
    by (auto simp: workflow_name_project)
qed

lemma episode_counts_its_session_witness:
  "\<exists>ep'. snd (episode_observe sample_decoder bank_ops 3 (sample_event SESSION_COMPLETED ''s1'')
      (project_events sample_decoder bank_ops
        [(1, sample_event NODE_STARTED ''s1''), (2, sample_event NODE_STARTED ''s2'')] sample_projector)) = ep' \<and>
    (\<exists>summary e. authority_append bank_ops 3
      (episode_write ''w'' (sample_event SESSION_COMPLETED ''s1'') summary) (fresh_authority empty_bank) =
        Inr (e, ep_authority ep') \<and> dict_get summary ''event_count'' = JInt 2)"
proof -
  let ?es = "[(1, sample_event NODE_STARTED ''s1''), (2, sample_event NODE_STARTED ''s2'')]"
  let ?o = "episode_observe sample_decoder bank_ops 3 (sample_event SESSION_COMPLETED ''s1'')
      (project_events sample_decoder bank_ops ?es sample_projector)"
  have "fst ?o = Inr ()" by code_simp
  then have o: "?o = (Inr (), snd ?o)" by (metis prod.collapse)
  have h: "\<forall>(now, e) \<in> set ?es. oe_session_id e = oe_session_id (sample_event SESSION_COMPLETED ''s1'') \<longrightarrow>
      oe_kind e \<notin> terminal_kinds"
    "buffered_events sample_projector (oe_session_id (sample_event SESSION_COMPLETED ''s1'')) = []"
    "oe_kind (sample_event SESSION_COMPLETED ''s1'') \<in> terminal_kinds"
    by (simp_all add: sample_event_def event_draft_def terminal_kinds_def buffered_events_def sample_projector_def)
  have p: "ep_authority (project_events sample_decoder bank_ops ?es sample_projector) = fresh_authority empty_bank"
    by code_simp
  show ?thesis
    using episode_counts_its_session [OF h o] p
    by (auto simp: sample_event_def event_draft_def sample_projector_def)
qed

text \<open>
  What memory adds to a prompt is bounded. The entries are the first ones, up to the limit of
  the policy, of the latest entries of each query in the order of the queries; never more than a
  hundred, and no query adds more than fifty.
\<close>

lemma prompt_memory_is_bounded:
  assumes "make_memory_policy enabled queries limit = Inr policy"
    "\<forall>q \<in> set queries. \<exists>sc i p n. make_memory_query sc i p n = Inr q"
  shows "\<exists>c. retrieve_memory bank_ops b policy purpose = Inr c \<and> mc_purpose c = purpose \<and>
    mc_entries c = (if enabled then take (nat limit) (concat (map (latest_entries bank_ops b) queries)) else []) \<and>
    length (mc_entries c) \<le> 100 \<and> (\<forall>q \<in> set queries. length (latest_entries bank_ops b q) \<le> 50)"
proof -
  have p: "policy = \<lparr>mp_enabled = enabled, mp_queries = queries, mp_max_entries = limit\<rparr>" "1 \<le> limit" "limit \<le> 100"
    using assms(1) by (auto simp: make_memory_policy_def)
  have "length (latest_entries bank_ops b q) \<le> 50" if "q \<in> set queries" for q
  proof -
    have "1 \<le> mq_limit q \<and> mq_limit q \<le> 50" using assms(2) that made_query by blast
    then show ?thesis by (simp add: latest_entries_def bank_ops_def length_last_items) linarith
  qed
  moreover have "run_queries bank_ops b limit queries [] =
      Inr (take (nat limit) (concat (map (latest_entries bank_ops b) queries)))"
    using run_queries_eq [of "[]" limit queries bank_ops b] p(2) by (simp add: scans_def bank_ops_def)
  ultimately show ?thesis using p by (auto simp: retrieve_memory_def)
qed

lemma prompt_memory_is_bounded_witness:
  "\<exists>c. retrieve_memory bank_ops (bank_put note_entry empty_bank) sample_policy ''p'' = Inr c \<and>
    map cx_key (mc_entries c) = [''note'']"
proof -
  have q: "make_memory_policy True [sample_query] 1 = Inr sample_policy"
    "\<forall>q \<in> set [sample_query]. \<exists>sc i p n. make_memory_query sc i p n = Inr q"
    by (auto simp: make_memory_policy_def sample_policy_def make_memory_query_def sample_query_def)
  have "map cx_key (take (nat 1) (concat (map (latest_entries bank_ops (bank_put note_entry empty_bank)) [sample_query])))
      = [''note'']" by code_simp
  with prompt_memory_is_bounded [OF q, of "bank_put note_entry empty_bank" "''p''"] show ?thesis by auto
qed

section \<open>Tools\<close>

text \<open>
  C30. A tool effect happens once per fingerprint in a session. The fingerprint is taken of the tool,
  its redacted arguments, and of the node, role, dry-run flag and artifact root of its context. After a
  call has run and succeeded, every later call of the session with the same fingerprint gets the
  content of the first, in another run of an agent and with another runtime, whatever was served
  in between. Both calls begin without results kept from their own run, so the second answer comes
  from the ledger of the session. Arguments that differ in a URL or in a secret only have one
  fingerprint: the witness asks for two pages and gets the first one twice. The architecture
  document limits reuse to one node execution; the code does not.
\<close>

theorem tool_effects_run_once:
  assumes "execute_one rt a n ctx origin call [] w = (Inr (b, cache), w1)" "\<not> tb_is_error b"
    "effect_free w (ac_session_id a) (call_fingerprint rt call ctx)" "quiet_hooks h"
    "ac_session_id a2 = ac_session_id a"
    "call_fingerprint rt2 call2 ctx2 = call_fingerprint rt call ctx"
    "execute_one rt2 a2 n2 ctx2 origin2 call2 [] (serve_all h rs w1) = (Inr (b2, cache2), w2)"
  shows "tb_content b2 = tb_content b \<and> \<not> tb_is_error b2"
  by (rule effects_run_once [OF assms])

lemma tool_effects_run_once_witness:
  "\<exists>b w b2 w2 c c2. execute_one sample_runtime sample_agent_call 1 plan_context [] (fetch ''c1'' ''http://a'') []
      (world_of running_plan_session) = (Inr (b, c), w) \<and>
    execute_one sample_runtime sample_agent_call 2 plan_context [] (fetch ''c2'' ''http://b'') [] w
      = (Inr (b2, c2), w2) \<and> tb_content b2 = tb_content b"
proof -
  let ?one = "execute_one sample_runtime sample_agent_call 1 plan_context [] (fetch ''c1'' ''http://a'') []
      (world_of running_plan_session)"
  let ?two = "execute_one sample_runtime sample_agent_call 2 plan_context [] (fetch ''c2'' ''http://b'') []"
  have "case ?one of (Inl _, _) \<Rightarrow> False
      | (Inr (b, c), w) \<Rightarrow> \<not> tb_is_error b \<and> (case ?two w of (Inl _, _) \<Rightarrow> False | (Inr _, _) \<Rightarrow> True)"
    by code_simp
  then obtain b c w b2 c2 w2 where r: "?one = (Inr (b, c), w)" "\<not> tb_is_error b"
      "?two w = (Inr (b2, c2), w2)"
    by (auto split: prod.splits sum.splits)
  have f: "effect_free (world_of running_plan_session) ''s1'' x" for x
    using running_plan_stores by (auto simp: effect_free_def running_plan_session_def sample_session_def set_node_def)
  have e: "same_effect (tc_arguments (fetch ''c1'' ''http://a'')) (tc_arguments (fetch ''c2'' ''http://b''))"
    by code_simp
  have k: "call_fingerprint sample_runtime (fetch ''c2'' ''http://b'') plan_context =
      call_fingerprint sample_runtime (fetch ''c1'' ''http://a'') plan_context"
    using same_effect_fingerprint [OF e] by (simp add: call_fingerprint_def fetch_def)
  have "tb_content b2 = tb_content b"
    using tool_effects_run_once [OF r(1,2) _ sample_quiet refl k, of 2 "[]" "[]"] f r(3)
    by (simp add: sample_agent_call_def)
  with r show ?thesis by blast
qed

text \<open>
  C31. A tool that is not permitted is not run. A call of a tool that is unknown, disabled or denied
  by its policy fails, and the answer is the same whatever the handlers do; and a handler answers
  without regard to environment variables that neither the tool declares nor the context allows.
\<close>

theorem tools_run_only_when_permitted:
  "(\<not> permitted repr_of r (tc_name call) ctx \<longrightarrow>
      \<not> xr_success (execute_call repr_of r call ctx e) \<and>
      execute_call repr_of (with_handler f r) call ctx e = execute_call repr_of r call ctx e) \<and>
   (get_tool r (tc_name call) = Inr t \<longrightarrow>
      k \<notin> set (rt_required_env t) \<union> set (rt_allowed_env t) \<union> set (cx_allowed_env_keys ctx) \<longrightarrow>
      execute_call repr_of r call (ctx\<lparr>cx_env := (k, v) # cx_env ctx\<rparr>) e = execute_call repr_of r call ctx e)"
  using not_permitted_fails [of repr_of r call ctx e f] undeclared_variables_do_not_matter by blast

lemma tools_run_only_when_permitted_witness:
  "\<not> xr_success (execute_call (\<lambda>_. ''v'') sample_tools (fetch ''c1'' ''http://a'')
      (tool_context_for sample_runtime ''build'' ''dev'') sample_env)"
proof -
  have "policy_denial (\<lambda>_. ''v'') (rt_policy sample_tool) ''http.get''
      (tool_context_for sample_runtime ''build'' ''dev'') \<noteq> None"
    by code_simp
  then have "\<not> permitted (\<lambda>_. ''v'') sample_tools (tc_name (fetch ''c1'' ''http://a''))
      (tool_context_for sample_runtime ''build'' ''dev'')"
    by (simp add: permitted_def get_tool_def sample_tools_def fetch_def)
  from tools_run_only_when_permitted [THEN conjunct1, THEN mp, OF this] show ?thesis by blast
qed



section \<open>Votes\<close>

text \<open>
  C33. The winner is the plurality winner. Under majority arbitration the winner of a vote is the
  option with at least as many valid votes as any other, the least in string order among equals;
  there is none exactly when there is no valid vote. The invalid votes are listed, not counted. A
  tie is reported exactly when another option has as many votes as the winner. Which votes are valid
  is decided when they are recorded: the declared options that are passed have no part in it,
  although the docstring of \<^verbatim>\<open>build_vote_outcome\<close> says so.
\<close>

theorem vote_outcome_is_plurality:
  "(vo_winner (build_vote_outcome votes Arbitration_MAJORITY options) = Some w \<longleftrightarrow> plurality_winner votes w) \<and>
   vo_invalid (build_vote_outcome votes Arbitration_MAJORITY options) = filter (\<lambda>r. \<not> mv_valid r) votes \<and>
   (vo_tie (build_vote_outcome votes Arbitration_MAJORITY options) \<longleftrightarrow>
     (\<exists>a b. a \<noteq> b \<and> plurality_winner votes a \<and> votes_for votes b = votes_for votes a))"
  using build_vote_outcome_winner build_vote_outcome_tally(2) build_vote_outcome_tie by blast

section \<open>The queue\<close>

text \<open>
  C34. The queue neither loses nor invents work. After any sequence of calls that return, closing and
  looking at the queue included, what the queue holds (waiting, in flight or among the dead
  letters) together with what was settled is what it held before together with what was enqueued,
  every session as often as it was enqueued. Settled is what was acknowledged or refused for good,
  and, once the queue is closed, what is refused at all or found expired. To close it takes
  nothing out of it.
\<close>

theorem queue_conserves_work:
  assumes "queue_wf q" "run_calls queue_call proper_call calls q = Done q'"
  shows "queue_wf q' \<and>
    held q' + settled_calls queue_call settled calls q = held q + sum_list (map gained calls)"
  using mq.run_inv [OF assms] mq.run_content [OF assms] by blast

lemma queue_conserves_work_witness:
  "\<exists>q'. run_calls queue_call proper_call sample_calls sample_queue = Done q' \<and> held q' = {#''s2''#}"
proof -
  have "case run_calls queue_call proper_call sample_calls sample_queue of Done q' \<Rightarrow> True | _ \<Rightarrow> False"
    by code_simp
  then obtain q' where q': "run_calls queue_call proper_call sample_calls sample_queue = Done q'"
    by (cases "run_calls queue_call proper_call sample_calls sample_queue") auto
  have s: "settled_calls queue_call settled sample_calls sample_queue = {#''s1''#}"
    by code_simp
  have g: "sum_list (map gained sample_calls) = {#''s1'', ''s2''#}" by code_simp
  from queue_conserves_work [OF sample_queue_wf q'] q' show ?thesis
    unfolding s g by (simp add: held_def sample_queue_def)
qed

text \<open>
  C35. Deliveries are bounded. In every state that such calls reach, a message that waits or is in
  flight has had fewer attempts than the limit, and a dead letter exactly as many. The handles of
  the waiting messages and of those in flight are distinct, a message in flight is filed under its
  handle, and a handle that was given out and has left the queue never comes back.
\<close>

theorem queue_bounds_attempts:
  assumes "queue_wf q" "run_calls queue_call proper_call calls q = Done q'"
  shows "(\<forall>m \<in> set (mq_queue q'). below_limit (mq_max_delivery_attempts q') m) \<and>
    (\<forall>(h, r) \<in> set (mq_in_flight q'). below_limit (mq_max_delivery_attempts q') (im_message r) \<and>
       qm_handle (im_message r) = h) \<and>
    (\<forall>m \<in> set (mq_dead_letters q'). mq_max_delivery_attempts q' = Some (int (qm_attempt m))) \<and>
    distinct (map qm_handle (mq_queue q') @ map fst (mq_in_flight q')) \<and>
    (used_handle q h \<longrightarrow> h \<notin> set (map qm_handle (mq_queue q) @ map fst (mq_in_flight q)) \<longrightarrow>
       h \<notin> set (map qm_handle (mq_queue q') @ map fst (mq_in_flight q')))"
proof -
  have "queue_wf q'" by (rule mq.run_inv [OF assms])
  then have "handles_ok q'" "attempts_ok q'" by (simp_all add: queue_wf_def)
  then show ?thesis
    using retired_handles_stay_retired [OF assms, of h] unfolding handles_def
    by (auto simp: attempts_ok_def handles_ok_def handles_def list_all_iff)
qed

lemma queue_bounds_attempts_witness:
  "\<exists>q'. run_calls queue_call proper_call sample_calls sample_queue = Done q' \<and>
    distinct (map qm_handle (mq_queue q') @ map fst (mq_in_flight q'))"
proof -
  have "case run_calls queue_call proper_call sample_calls sample_queue of Done q' \<Rightarrow> True | _ \<Rightarrow> False"
    by code_simp
  then obtain q' where q': "run_calls queue_call proper_call sample_calls sample_queue = Done q'"
    by (cases "run_calls queue_call proper_call sample_calls sample_queue") auto
  from queue_bounds_attempts [OF sample_queue_wf q'] q' show ?thesis by blast
qed

section \<open>Workers\<close>





section \<open>Redis streams\<close>



text \<open>
  C39. Old deliveries are fenced. When a message that was delivered before is delivered again, to
  whichever consumer, then acknowledging or refusing the old delivery, from whichever consumer,
  changes neither the streams nor the recorded deliveries.
\<close>

theorem stale_deliveries_are_fenced:
  assumes "redis_dequeue (q\<lparr>rz_consumer := c\<rparr>) t st = (Inr (Some m'), st')" "fake_usable q st" "inj (rz_uuid q)"
    "drawn_handle q 0 (rs2_drawn st) m" "fst (split_handle (qm_handle m')) = fst (split_handle (qm_handle m))"
    "settling \<in> {redis_ack (q\<lparr>rz_consumer := c2\<rparr>) m, redis_nack (q\<lparr>rz_consumer := c2\<rparr>) m retry}"
    "settling st' = (Inr u, st'')"
  shows "stream_log (rs2_server st'') = stream_log (rs2_server st') \<and>
    hash_cell (rs2_server st'') = hash_cell (rs2_server st')"
proof -
  have u: "usable_redis fake_client (rz_codec q) stream_log fake_sound (q\<lparr>rz_consumer := c\<rparr>) st"
      "drawn_handle (q\<lparr>rz_consumer := c\<rparr>) 0 (rs2_drawn st) m" "inj (rz_uuid (q\<lparr>rz_consumer := c\<rparr>))"
    using assms(2-4) by simp_all
  have "fake_usable q st'" using fake.dequeue_delivers [OF assms(1) u(1)] by (simp add: fake.delivers_def)
  moreover have "\<not> current_delivery q m st'"
    using fake.redelivery_fences(4) [OF assms(1) u(1,3,2) assms(5)] by (auto simp: current_delivery_def)
  ultimately have "same_redis stream_log hash_cell fake_sound st' st''"
    using not_current_stale(1) [where q = q and m = m and st = st' and c = c2 and u = u and st' = st'']
      not_current_stale(2) [where q = q and m = m and st = st' and c = c2 and u = u and st' = st'' and retry = retry]
      assms(6,7) by blast
  then show ?thesis by (simp add: same_redis_def same_data_def)
qed

lemma stale_deliveries_are_fenced_witness:
  "\<exists>st''. redis_ack sample_redis first_delivery redis_retaken = (Inr (), st'') \<and>
    stream_log (rs2_server st'') = stream_log (rs2_server redis_retaken)"
proof -
  have same: "sample_redis\<lparr>rz_consumer := ''w1''\<rparr> = sample_redis" by (simp add: sample_redis_def)
  have d: "drawn_handle sample_redis 0 (rs2_drawn (redis_taken 31000)) first_delivery"
    by (auto simp: drawn_handle_def sample_redis_def first_delivery_def redis_taken_def redis_with_def join_handle_def)
  have e: "fst (split_handle (qm_handle second_delivery)) = fst (split_handle (qm_handle first_delivery))" by code_simp
  have m: "redis_ack sample_redis first_delivery \<in> {redis_ack (sample_redis\<lparr>rz_consumer := ''w1''\<rparr>) first_delivery,
      redis_nack (sample_redis\<lparr>rz_consumer := ''w1''\<rparr>) first_delivery True}"
    by (simp add: same)
  from stale_deliveries_are_fenced [OF redis_sample_steps(5) redis_taken_usable sample_redis_usable(3) d e m redis_sample_steps(6)]
  show ?thesis using redis_sample_steps(6) by blast
qed

section \<open>Observability\<close>

text \<open>
  C40. Redaction is complete and stable. The redacted form of any value is safe for a trace, at
  every depth, and redacting it again changes nothing.
\<close>

theorem redaction_is_complete_and_stable:
  "trace_safe (redact_value v) \<and> redact_value (redact_value v) = redact_value v"
  using redact_trace_safe_all(1) redact_idem by blast

section \<open>Further facts\<close>

text \<open>
  A session that always raises is retried for ever. The transient queue has no limit of deliveries:
  a worker that puts failed sessions back and is bounded by idle cycles only does not return.
\<close>

lemma poisoned_worker_does_not_return:
  assumes "\<forall>s. \<exists>e s'. qh_run host i (host_options host) s = (Inl e, s')"
    "qh_queue host = memory_adapter fuel clocks" "0 < fuel" "ll_retry lm"
    "ll_stop lm = None" "ll_max_iterations lm = None" "\<not> reached (ll_max_idle lm) 0"
  shows "run_loop_with_transient_queue host lm [i] ids now s = None"
  by (rule poisoned_worker_never_returns [OF _ assms(2-7)]) (use assms(1) in \<open>simp add: poisoned_def\<close>)

lemma poisoned_worker_does_not_return_witness:
  "run_loop_with_transient_queue broken_host (sample_limits None (Some 1) True) [''s1''] (\<lambda>_. ''h'') (\<lambda>_. 0)
     (world_of running_plan_session) = None"
  by (rule poisoned_worker_does_not_return [of _ _ 2 ticking])
     (simp_all add: broken_host_def agent_host_def queue_worker_host_def sample_limits_def reached_def)

text \<open>
  What is written as text is read back. On a file system that keeps what is written, reading the path
  of a successful write gives the content that was written.
\<close>

lemma text_artifacts_read_back:
  assumes "keeps_files os" "write_text_artifact os args cx h = (Inr x, h1)" "xr_success x"
    "dict_get args ''content'' = JStr content" "dict_get rargs ''path'' = dict_get args ''path''"
  shows "\<exists>target. read_text_artifact os rargs cx h1 = (Inr (tool_ok (JObj
    [(''path'', JStr (path_str target)), (''content'', JStr content), (''bytes'', JInt (os_utf8_length os content))]) live), h1)"
  by (rule text_read_back [OF assms])

lemma text_artifacts_read_back_witness:
  "\<exists>h1 target. snd (write_text_artifact sample_os post_args sample_context []) = h1 \<and>
    fst (read_text_artifact sample_os post_args sample_context h1) = Inr (tool_ok (JObj
      [(''path'', JStr (path_str target)), (''content'', JStr ''hello''), (''bytes'', JInt 5)]) live)"
proof -
  obtain x h1 where w: "write_text_artifact sample_os post_args sample_context [] = (Inr x, h1)" "xr_success x"
    using sample_write by blast
  have "dict_get post_args ''content'' = JStr ''hello''" by code_simp
  from text_artifacts_read_back [OF sample_os_keeps w this refl] w(1) show ?thesis
    by (auto simp: sample_os_def)
qed

text \<open>
  Terminal means terminal. A completed, failed or cancelled session keeps its status through
  every request that follows.
\<close>

lemma terminal_sessions_stay:
  assumes "quiet_hooks h" "keyed (w_store w)" "memory_get (w_store w) i = Some s"
    "rs_status s \<in> terminal_session_statuses"
  shows "\<exists>t. memory_get (w_store (serve_all h rs w)) i = Some t \<and> rs_status t = rs_status s"
  using serve_all_later [OF assms(1-3), of rs] evolves_terminal [OF later_evolves(1)] assms(4)
  by fastforce

text \<open>
  Rejecting a gate fails its node and the session. Every lease of the node is cleared; its
  attempts keep their status, so an attempt that was running is still marked running in the
  failed node.
\<close>

lemma rejected_gate_fails_session:
  assumes "apply_decision i d w = (Inr rd, w')" "stores w i s" "gate_of_node s (gi_gate_id d) k"
    "gi_action d = Decision_REJECT"
  shows "\<exists>t n m. stores w' i t \<and> rs_status t = Session_FAILED \<and> session_node s k = Some n \<and>
    session_node t k = Some m \<and> ns_status m = Node_FAILED \<and>
    ns_attempts m = map clear_execution_lease (ns_attempts n)"
  using apply_decision_reject [OF assms] .

text \<open>
  A padded token is dead on arrival. A caller-chosen token with white space at an edge is
  accepted by the grant and stored as it is, while every check strips the presented token first:
  no token at all is accepted afterwards, so the lease can neither be refreshed, nor released,
  nor used for a report; it only expires.
\<close>

lemma padded_token_never_accepted:
  assumes "grant_attempt_lease owner ttl (Some given) fresh now a = Inr b" "given \<noteq> []"
    "py_strip given \<noteq> given"
  shows "(\<exists>e. assert_execution_lease b tk t allow = Inl e) \<and>
    (\<exists>e. heartbeat_attempt_lease tk ttl2 t b = Inl e) \<and> (\<exists>e. release_attempt_lease tk t b = Inl e)"
  using xl.padded_token_unusable [OF assms] by blast

text \<open>
  What depends on a change is found, all of it and nothing more. The keys that are requeued
  with a changed node are those that reach it through one or more requirements.
\<close>

lemma descendants_are_reachable:
  "set (descendant_keys b roots) = {k. \<exists>r \<in> set roots. (requires_edge b)\<^sup>+\<^sup>+ r k}"
  using set_descendant_keys .

text \<open>
  A replayed turn or message is recorded once. Recording a turn again with the same status,
  or a second message of the same turn and sender, returns the stored aggregate and changes
  nothing, even when the replay names another agent or carries another text.
\<close>

lemma recorded_turn_and_message_replay:
  "(record_durable_turn i ti ag st now s = Inr (d, s') \<longrightarrow>
      record_durable_turn i ti ag2 st now2 s' = Inr (d, s')) \<and>
   (record_durable_message i ti ag content role reply now s = Inr (d, s') \<longrightarrow>
      record_durable_message i ti ag content2 role2 reply2 now2 s' = Inr (d, s'))"
  by (intro conjI impI) (erule turn_replay, erule message_replay)

text \<open>
  The outcome of an interaction is decided once. After an outcome is recorded, recording
  another, of whatever content, returns the first and changes nothing; and starting the
  interaction again keeps the aggregate with its turns and messages.
\<close>

lemma recorded_outcome_is_final:
  "(record_durable_outcome i vote coordinator now s = Inr (d, s') \<longrightarrow> vote \<noteq> None \<or> coordinator \<noteq> None \<longrightarrow>
      record_durable_outcome i vote2 coordinator2 now2 s' = Inr (d, s')) \<and>
   (start_durable_interaction i key x team mode topology members ws now s = (d, s') \<longrightarrow>
      start_durable_interaction i key2 x2 team2 mode2 topology2 members2 ws2 now2 s' = (d, s'))"
  by (intro conjI impI) (erule (1) outcome_replay, erule start_replay)

text \<open>
  The environment selects the route of a role. The provider of a role is the one its own
  variable names, else the built-in one; the API key is never blank or padded; and the model is
  the one the role's own variable names, else the model of the \<^emph>\<open>built-in\<close> provider, so that
  overriding the provider alone sends the model name of another vendor.
\<close>

lemma role_routes_follow_environment:
  assumes "router_from_env parse env = Inr m" "r \<noteq> Role_DEFAULT"
    "resolve_route m (Inr (Some (route_role_value r))) = Inr v"
  shows "map_of (mr_providers m)
      (py_lower (env_text env (''HYDRAMIND_'' @ role_env_name r @ ''_PROVIDER'') (builtin_provider r))) =
      Some (vr_provider v) \<and>
    vr_model v = env_text env (''HYDRAMIND_'' @ role_env_name r @ ''_MODEL'') (builtin_model env r) \<and>
    vr_role v = r \<and> (\<forall>key. vr_api_key v = Some key \<longrightarrow> key \<noteq> [] \<and> py_strip key = key)"
proof -
  have "resolve_route m (Inl r) = Inr v"
    using assms(3) by (simp add: resolve_route_def normalize_role_def)
  from role_resolution [OF assms(1,2) this] resolve_api_key_clean [OF assms(3)] show ?thesis by blast
qed

end
